(* ===== verification/KvmPrelude.thy ===== *)
theory KvmPrelude
  imports Main "HOL-Library.Word" "HOL-Library.AList"
begin

text \<open>
  Shared vocabulary of the development: the machine-integer types of the Rust sources, fallible
  results as sums (\<open>Inl\<close> is \<^verbatim>\<open>Err\<close>, \<open>Inr\<close> is \<^verbatim>\<open>Ok\<close>) with the two combinators the components use
  for the question-mark operator and for guard-and-return, saturating and checked arithmetic,
  association lists as the executable representation of \<^verbatim>\<open>HashMap\<close>, and the generic lemmas
  that the component proofs share.
\<close>

section \<open>Machine integers\<close>

type_synonym u8 = "8 word"
type_synonym u16 = "16 word"
type_synonym u32 = "32 word"
type_synonym u64 = "64 word"

text \<open>
  Identifiers are 16-byte UUIDs.  The derived order compares the bytes lexicographically, which
  is the unsigned order of the big-endian 128-bit number, so an identifier is a 128-bit word.
  A 32-byte secret or digest is a 256-bit word in the same reading.
\<close>

type_synonym id128 = "128 word"
type_synonym bytes32 = "256 word"

definition u64_max :: nat where
  "u64_max = 2 ^ 64 - 1"

definition saturating_add_u64 :: "u64 \<Rightarrow> u64 \<Rightarrow> u64" where
  "saturating_add_u64 a b =
     (if unat a + unat b < 2 ^ 64 then a + b else - 1)"

definition checked_add_u64 :: "u64 \<Rightarrow> u64 \<Rightarrow> u64 option" where
  "checked_add_u64 a b =
     (if unat a + unat b < 2 ^ 64 then Some (a + b) else None)"

definition saturating_sub_u64 :: "u64 \<Rightarrow> u64 \<Rightarrow> u64" where
  "saturating_sub_u64 a b = (if a < b then 0 else a - b)"

named_theorems rust_arith \<open>unsigned readings of the Rust integer operations\<close>

lemma unat_less_2p: "unat (w :: 'a::len word) < 2 ^ LENGTH('a)"
  by (rule unsigned_less)

lemma unat_saturating_add_u64 [rust_arith]:
  "unat (saturating_add_u64 a b) = min (unat a + unat b) (2 ^ 64 - 1)"
proof (cases "unat a + unat b < 2 ^ 64")
  case True
  then show ?thesis
    by (simp add: saturating_add_u64_def unat_word_ariths)
next
  case False
  then show ?thesis
    by (simp add: saturating_add_u64_def unsigned_minus_1_eq_mask mask_eq_exp_minus_1)
qed

lemma saturating_add_u64_mono: "a \<le> saturating_add_u64 a b"
  using unat_less_2p[of a]
  by (simp add: word_le_nat_alt rust_arith)

lemma checked_add_u64_Some [rust_arith]:
  "checked_add_u64 a b = Some c \<longleftrightarrow> unat c = unat a + unat b"
proof
  assume "checked_add_u64 a b = Some c"
  then show "unat c = unat a + unat b"
    by (auto simp: checked_add_u64_def unat_word_ariths split: if_splits)
next
  assume c: "unat c = unat a + unat b"
  then have lt: "unat a + unat b < 2 ^ 64"
    using unat_less_2p[of c] by simp
  then have "c = a + b"
    using c by (intro word_unat_eq_iff[THEN iffD2]) (simp add: unat_word_ariths)
  with lt show "checked_add_u64 a b = Some c"
    by (simp add: checked_add_u64_def)
qed

lemma checked_add_u64_one_less:
  "checked_add_u64 a 1 = Some c \<Longrightarrow> a < c"
  by (auto simp: checked_add_u64_Some word_less_nat_alt)

lemma unat_saturating_sub_u64 [rust_arith]:
  "unat (saturating_sub_u64 a b) = unat a - unat b"
  by (auto simp: saturating_sub_u64_def word_less_nat_alt unat_sub word_le_nat_alt)

section \<open>Durations\<close>

text \<open>
  A \<^verbatim>\<open>std::time::Duration\<close> holds 64 bits of seconds and the nanoseconds below one second; it is
  modelled by its total number of nanoseconds, at most \<open>duration_max\<close>.
\<close>

type_synonym duration = nat

definition duration_max :: duration where
  "duration_max = (2 ^ 64 - 1) * 1000000000 + 999999999"

definition from_millis :: "nat \<Rightarrow> duration" where
  "from_millis n = n * 1000000"

definition from_secs :: "nat \<Rightarrow> duration" where
  "from_secs n = n * 1000000000"

definition duration_saturating_add :: "duration \<Rightarrow> duration \<Rightarrow> duration" where
  "duration_saturating_add a b = min duration_max (a + b)"

definition duration_saturating_mul :: "duration \<Rightarrow> nat \<Rightarrow> duration" where
  "duration_saturating_mul a n = min duration_max (a * n)"

definition duration_saturating_sub :: "duration \<Rightarrow> duration \<Rightarrow> duration" where
  "duration_saturating_sub a b = a - b"

text \<open>\<^verbatim>\<open>u64::try_from(n).unwrap_or(u64::MAX)\<close>.\<close>

definition u64_try_from :: "nat \<Rightarrow> u64" where
  "u64_try_from n = (if n < 2 ^ 64 then of_nat n else - 1)"

section \<open>Fallible results\<close>

type_synonym ('e, 'a) result = "'e + 'a"

text \<open>
  \<open>and_then r f\<close> is \<^verbatim>\<open>f(r?)\<close>: it returns the first error and otherwise continues.
  \<open>ensure c e\<close> is \<^verbatim>\<open>if !c { return Err(e) }\<close>.
\<close>

definition and_then :: "('e, 'a) result \<Rightarrow> ('a \<Rightarrow> ('e, 'b) result) \<Rightarrow> ('e, 'b) result" where
  "and_then r f = (case r of Inl e \<Rightarrow> Inl e | Inr x \<Rightarrow> f x)"

definition ensure :: "bool \<Rightarrow> 'e \<Rightarrow> ('e, unit) result" where
  "ensure c e = (if c then Inr () else Inl e)"

definition map_err :: "('e \<Rightarrow> 'f) \<Rightarrow> ('e, 'a) result \<Rightarrow> ('f, 'a) result" where
  "map_err f r = (case r of Inl e \<Rightarrow> Inl (f e) | Inr x \<Rightarrow> Inr x)"

definition is_ok :: "('e, 'a) result \<Rightarrow> bool" where
  "is_ok r = (case r of Inl _ \<Rightarrow> False | Inr _ \<Rightarrow> True)"

lemma and_then_simps [simp]:
  "and_then (Inl e) f = Inl e"
  "and_then (Inr x) f = f x"
  by (simp_all add: and_then_def)

lemma and_then_eq_Inr [simp]:
  "and_then r f = Inr y \<longleftrightarrow> (\<exists>x. r = Inr x \<and> f x = Inr y)"
  by (cases r) simp_all

lemma and_then_eq_Inl:
  "and_then r f = Inl e \<longleftrightarrow> r = Inl e \<or> (\<exists>x. r = Inr x \<and> f x = Inl e)"
  by (cases r) simp_all

lemma ensure_eq_Inr [simp]: "ensure c e = Inr u \<longleftrightarrow> c"
  by (simp add: ensure_def)

lemma ensure_eq_Inl [simp]: "ensure c e = Inl e' \<longleftrightarrow> \<not> c \<and> e' = e"
  by (auto simp: ensure_def)

lemma ensure_simps [simp]: "ensure True e = Inr ()" "ensure False e = Inl e"
  by (simp_all add: ensure_def)

lemma map_err_eq_Inr [simp]: "map_err f r = Inr x \<longleftrightarrow> r = Inr x"
  by (cases r) (simp_all add: map_err_def)

lemma map_err_simps [simp]: "map_err f (Inl e) = Inl (f e)" "map_err f (Inr x) = Inr x"
  by (simp_all add: map_err_def)

lemma is_ok_iff: "is_ok r \<longleftrightarrow> (\<exists>x. r = Inr x)"
  by (cases r) (simp_all add: is_ok_def)

lemma is_ok_simps [simp]: "is_ok (Inr x)" "\<not> is_ok (Inl e)"
  by (simp_all add: is_ok_def)

lemma is_ok_and_then_ensure [simp]:
  "is_ok (and_then (ensure c e) f) \<longleftrightarrow> c \<and> is_ok (f ())"
  by (simp add: ensure_def)

text \<open>A loop that validates every element and stops at the first error.\<close>

fun for_each :: "('a \<Rightarrow> ('e, unit) result) \<Rightarrow> 'a list \<Rightarrow> ('e, unit) result" where
  "for_each f [] = Inr ()"
| "for_each f (x # xs) = and_then (f x) (\<lambda>_. for_each f xs)"

lemma for_each_eq_Inr: "for_each f xs = Inr u \<longleftrightarrow> (\<forall>x\<in>set xs. f x = Inr ())"
  by (induction xs) auto

section \<open>Rust strings\<close>

text \<open>
  A \<^verbatim>\<open>String\<close> is its list of Unicode scalar values; \<^verbatim>\<open>len\<close> is the number of UTF-8 bytes.
  The white-space table is the Unicode \<^verbatim>\<open>White_Space\<close> property that \<^verbatim>\<open>str::trim\<close> uses, and
  \<^verbatim>\<open>char::is_control\<close> is general category Cc.
\<close>

type_synonym rust_char = nat
type_synonym rust_string = "rust_char list"

definition len_utf8 :: "rust_char \<Rightarrow> nat" where
  "len_utf8 c = (if c < 128 then 1 else if c < 2048 then 2 else if c < 65536 then 3 else 4)"

definition str_len :: "rust_string \<Rightarrow> nat" where
  "str_len s = sum_list (map len_utf8 s)"

definition is_whitespace :: "rust_char \<Rightarrow> bool" where
  "is_whitespace c \<longleftrightarrow> 9 \<le> c \<and> c \<le> 13 \<or> c = 32 \<or> c = 133 \<or> c = 160 \<or> c = 5760
     \<or> 8192 \<le> c \<and> c \<le> 8202 \<or> c = 8232 \<or> c = 8233 \<or> c = 8239 \<or> c = 8287 \<or> c = 12288"

definition is_control :: "rust_char \<Rightarrow> bool" where
  "is_control c \<longleftrightarrow> c < 32 \<or> 127 \<le> c \<and> c < 160"

definition str_trim :: "rust_string \<Rightarrow> rust_string" where
  "str_trim s = rev (dropWhile is_whitespace (rev (dropWhile is_whitespace s)))"

definition ascii_str :: "string \<Rightarrow> rust_string" where
  "ascii_str s = map of_char s"

lemma len_utf8_pos: "0 < len_utf8 c"
  by (simp add: len_utf8_def)

lemma length_le_str_len: "length s \<le> str_len s"
proof (induction s)
  case Nil
  then show ?case by (simp add: str_len_def)
next
  case (Cons c s)
  then show ?case
    using len_utf8_pos[of c] by (simp add: str_len_def)
qed

lemma str_len_append [simp]: "str_len (s @ t) = str_len s + str_len t"
  by (simp add: str_len_def)

lemma str_len_eq_0 [simp]: "str_len s = 0 \<longleftrightarrow> s = []"
proof
  assume "str_len s = 0"
  with length_le_str_len[of s] show "s = []" by simp
qed (simp add: str_len_def)

lemma str_trim_eq_Nil: "str_trim s = [] \<longleftrightarrow> (\<forall>c\<in>set s. is_whitespace c)"
proof -
  have "dropWhile P (rev (dropWhile P s)) = [] \<longleftrightarrow> (\<forall>c\<in>set s. P c)" for P :: "nat \<Rightarrow> bool"
    by (induction s) (auto simp: dropWhile_eq_Nil_conv)
  then show ?thesis
    by (simp add: str_trim_def)
qed

text \<open>The UTF-8 encoding of a scalar value and of a text.\<close>

definition utf8_char :: "rust_char \<Rightarrow> nat list" where
  "utf8_char c =
     (if c < 128 then [c]
      else if c < 2048 then [192 + c div 64, 128 + c mod 64]
      else if c < 65536 then [224 + c div 4096, 128 + c div 64 mod 64, 128 + c mod 64]
      else [240 + c div 262144, 128 + c div 4096 mod 64, 128 + c div 64 mod 64, 128 + c mod 64])"

definition as_bytes :: "rust_string \<Rightarrow> nat list" where
  "as_bytes s = concat (map utf8_char s)"

lemma length_as_bytes: "length (as_bytes s) = str_len s"
  by (induction s) (simp_all add: as_bytes_def str_len_def utf8_char_def len_utf8_def)

lemma as_bytes_ascii: "list_all (\<lambda>c. c < 128) s \<Longrightarrow> as_bytes s = s"
  by (induction s) (simp_all add: as_bytes_def utf8_char_def)

lemma as_bytes_all_ascii: "list_all (\<lambda>b. b < 128) (as_bytes s) \<longleftrightarrow> list_all (\<lambda>c. c < 128) s"
  by (induction s) (auto simp: as_bytes_def utf8_char_def)

section \<open>Big-endian bytes\<close>

text \<open>\<open>be_bytes n v\<close> are the low \<open>n\<close> bytes of \<open>v\<close>, most significant first; \<open>be_value\<close> reads them back.\<close>

fun be_bytes :: "nat \<Rightarrow> nat \<Rightarrow> u8 list" where
  "be_bytes 0 v = []"
| "be_bytes (Suc n) v = be_bytes n (v div 256) @ [of_nat (v mod 256)]"

definition be_value :: "u8 list \<Rightarrow> nat" where
  "be_value bs = foldl (\<lambda>acc b. 256 * acc + unat b) 0 bs"

lemma length_be_bytes_n [simp]: "length (be_bytes n v) = n"
  by (induction n arbitrary: v) simp_all

lemma unat_of_nat_byte: "v < 256 \<Longrightarrow> unat (of_nat v :: u8) = v"
  unfolding unat_of_nat by simp

lemma be_value_be_bytes: "v < 256 ^ n \<Longrightarrow> be_value (be_bytes n v) = v"
proof (induction n arbitrary: v)
  case (Suc n)
  have "v div 256 < 256 ^ n"
    using Suc.prems by (simp add: div_less_iff_less_mult mult.commute)
  then show ?case
    using Suc.IH[of "v div 256"] by (simp add: be_value_def unat_of_nat_byte)
qed (simp add: be_value_def)

lemma be_bytes_inj: "a < 256 ^ n \<Longrightarrow> b < 256 ^ n \<Longrightarrow> be_bytes n a = be_bytes n b \<Longrightarrow> a = b"
  by (metis be_value_be_bytes)

lemma be_bytes_be_value: "be_bytes (length bs) (be_value bs) = bs"
proof (induction bs rule: rev_induct)
  case (snoc b bs)
  have "unat b < 256"
    using unat_less_2p[of b] by simp
  with snoc show ?case
    by (simp add: be_value_def)
qed simp

lemma be_value_less: "be_value bs < 256 ^ length bs"
proof (induction bs rule: rev_induct)
  case (snoc b bs)
  have "unat b < 256"
    using unat_less_2p[of b] by simp
  with snoc show ?case
    by (simp add: be_value_def)
qed (simp add: be_value_def)

section \<open>Association lists as hash maps\<close>

text \<open>
  A \<^verbatim>\<open>HashMap\<close> is an association list with distinct keys: \<open>map_of\<close> is \<^verbatim>\<open>get\<close>,
  \<open>AList.update\<close> is \<^verbatim>\<open>insert\<close>, \<open>AList.delete\<close> is \<^verbatim>\<open>remove\<close> and \<open>length\<close> is \<^verbatim>\<open>len\<close>.
\<close>

type_synonym ('k, 'v) hash_map = "('k \<times> 'v) list"

definition distinct_keys :: "('k, 'v) hash_map \<Rightarrow> bool" where
  "distinct_keys m \<longleftrightarrow> distinct (map fst m)"

definition contains_key :: "('k, 'v) hash_map \<Rightarrow> 'k \<Rightarrow> bool" where
  "contains_key m k \<longleftrightarrow> map_of m k \<noteq> None"

named_theorems hmap \<open>the hash-map laws of association lists\<close>

lemma contains_key_iff [hmap]: "contains_key m k \<longleftrightarrow> k \<in> fst ` set m"
  by (simp add: contains_key_def map_of_eq_None_iff)

lemma distinct_keys_Nil [simp]: "distinct_keys []"
  by (simp add: distinct_keys_def)

lemma distinct_keys_update [hmap, intro]:
  "distinct_keys m \<Longrightarrow> distinct_keys (AList.update k v m)"
  by (simp add: distinct_keys_def distinct_update)

lemma distinct_keys_delete [hmap, intro]:
  "distinct_keys m \<Longrightarrow> distinct_keys (AList.delete k m)"
  by (simp add: distinct_keys_def distinct_delete)

lemma distinct_keys_filter [hmap, intro]:
  "distinct_keys m \<Longrightarrow> distinct_keys (filter P m)"
  by (simp add: distinct_keys_def distinct_map_filter)

lemma map_of_update [hmap]: "map_of (AList.update k v m) = (map_of m)(k \<mapsto> v)"
  by (rule update_conv')

lemma map_of_delete [hmap]: "map_of (AList.delete k m) = (map_of m)(k := None)"
  by (rule delete_conv')

lemma length_update [hmap]:
  "length (AList.update k v m) = (if contains_key m k then length m else Suc (length m))"
  by (induction m) (auto simp: contains_key_def)

lemma length_delete_le [hmap]: "length (AList.delete k m) \<le> length m"
  by (simp add: AList.delete_eq)

lemma set_update_subset: "set (AList.update k v m) \<subseteq> insert (k, v) (set m)"
  by (induction m) auto

lemma set_delete_subset: "set (AList.delete k m) \<subseteq> set m"
  by (auto simp: AList.delete_eq)

lemma keys_update [hmap]: "fst ` set (AList.update k v m) = insert k (fst ` set m)"
  by (simp add: dom_update)

lemma length_distinct_keys: "distinct_keys m \<Longrightarrow> length m = card (dom (map_of m))"
  by (metis distinct_card dom_map_of_conv_image_fst distinct_keys_def length_map set_map)

lemma map_of_filter_distinct:
  "distinct_keys m \<Longrightarrow>
   map_of (filter P m) k = (case map_of m k of None \<Rightarrow> None | Some v \<Rightarrow> if P (k, v) then Some v else None)"
proof (induction m)
  case (Cons p m)
  have "map_of (filter P m) (fst p) = None" if "distinct_keys (p # m)"
    using that by (auto simp: distinct_keys_def map_of_eq_None_iff)
  with Cons show ?case
    by (cases p) (auto simp: distinct_keys_def split: option.splits)
qed simp

section \<open>Invariants of components driven by operations\<close>

text \<open>
  The contract between a stateful component and its callers: the component starts in an initial
  state and every operation keeps the invariant, whatever the caller asks for.  Callers get the
  invariant after any sequence of operations.
\<close>

locale invariant_component =
  fixes step :: "'op \<Rightarrow> 's \<Rightarrow> 's"
    and inv :: "'s \<Rightarrow> bool"
    and init :: 's
  assumes inv_init: "inv init"
    and inv_step: "inv s \<Longrightarrow> inv (step op s)"
begin

lemma inv_fold: "inv s \<Longrightarrow> inv (fold step ops s)"
  by (induction ops arbitrary: s) (simp_all add: inv_step)

lemma inv_run: "inv (fold step ops init)"
  by (rule inv_fold) (rule inv_init)

end

end
