(* ===== verification/F64.thy ===== *)
theory F64
  imports KvmPrelude
begin

text \<open>
  The \<^verbatim>\<open>f64\<close> of the Rust sources: IEEE 754 binary64 values as their 64-bit patterns, the
  comparisons, and addition, subtraction, multiplication and division rounded to nearest, ties to
  even.  A pattern without its sign bit is its \<^emph>\<open>magnitude\<close>; \<open>mag_value\<close> reads a finite magnitude
  as a number of units of \<open>2 ^ -1074\<close>, so every finite value is an integer number of units and
  the arithmetic is exact integer arithmetic followed by one rounding.  The lemmas at the end give
  the three facts the geometry proofs rest on: magnitudes order values, rounding is exact on
  representable values, and rounding is monotone.
\<close>

section \<open>Patterns, classes and order\<close>

type_synonym f64 = "64 word"

definition f64_sign :: "f64 \<Rightarrow> bool" where
  "f64_sign x = bit x 63"

definition f64_mag :: "f64 \<Rightarrow> nat" where
  "f64_mag x = unat (take_bit 63 x)"

text \<open>The magnitude of infinity: exponent 2047, fraction 0.\<close>

definition inf_mag :: nat where
  "inf_mag = 2047 * 2 ^ 52"

definition f64_is_nan :: "f64 \<Rightarrow> bool" where
  "f64_is_nan x \<longleftrightarrow> inf_mag < f64_mag x"

definition f64_is_finite :: "f64 \<Rightarrow> bool" where
  "f64_is_finite x \<longleftrightarrow> f64_mag x < inf_mag"

text \<open>
  Away from NaN the order of values is the order of signed magnitudes; both zeros have key 0.
\<close>

definition f64_key :: "f64 \<Rightarrow> int" where
  "f64_key x = (if f64_sign x then - int (f64_mag x) else int (f64_mag x))"

definition f64_eq :: "f64 \<Rightarrow> f64 \<Rightarrow> bool" where
  "f64_eq a b \<longleftrightarrow> \<not> f64_is_nan a \<and> \<not> f64_is_nan b \<and> f64_key a = f64_key b"

definition f64_lt :: "f64 \<Rightarrow> f64 \<Rightarrow> bool" where
  "f64_lt a b \<longleftrightarrow> \<not> f64_is_nan a \<and> \<not> f64_is_nan b \<and> f64_key a < f64_key b"

definition f64_le :: "f64 \<Rightarrow> f64 \<Rightarrow> bool" where
  "f64_le a b \<longleftrightarrow> \<not> f64_is_nan a \<and> \<not> f64_is_nan b \<and> f64_key a \<le> f64_key b"

definition f64_make :: "bool \<Rightarrow> nat \<Rightarrow> f64" where
  "f64_make s m = (if s then word_of_nat (2 ^ 63 + m) else word_of_nat m)"

definition f64_abs :: "f64 \<Rightarrow> f64" where
  "f64_abs x = f64_make False (f64_mag x)"

definition f64_neg :: "f64 \<Rightarrow> f64" where
  "f64_neg x = f64_make (\<not> f64_sign x) (f64_mag x)"

definition f64_nan :: f64 where
  "f64_nan = 0x7FF8000000000000"

abbreviation f64_zero :: f64 where
  "f64_zero \<equiv> 0"

definition f64_one :: f64 where
  "f64_one = 0x3FF0000000000000"

section \<open>Values and rounding\<close>

definition mag_value :: "nat \<Rightarrow> nat" where
  "mag_value m = (if m < 2 ^ 52 then m else (2 ^ 52 + m mod 2 ^ 52) * 2 ^ (m div 2 ^ 52 - 1))"

definition f64_num :: "f64 \<Rightarrow> int" where
  "f64_num x = (if f64_sign x then - int (mag_value (f64_mag x)) else int (mag_value (f64_mag x)))"

fun bit_length :: "nat \<Rightarrow> nat" where
  "bit_length n = (if n = 0 then 0 else Suc (bit_length (n div 2)))"

declare bit_length.simps [simp del]

text \<open>Round the quotient \<open>p / d\<close> to an integer, ties to even.\<close>

definition rne :: "nat \<Rightarrow> nat \<Rightarrow> nat" where
  "rne p d = (let k = p div d; r = p mod d in
     if 2 * r < d \<or> 2 * r = d \<and> even k then k else Suc k)"

text \<open>
  \<open>round_mag p q\<close> is the magnitude of the double nearest to \<open>p / q\<close> units.  The exponent \<open>e\<close>
  leaves 53 significant bits; since the encoding of exponent and fraction is contiguous, a carry
  out of the fraction moves to the next exponent by itself.
\<close>

definition round_exp :: "nat \<Rightarrow> nat \<Rightarrow> nat" where
  "round_exp p q = bit_length (p div q) - 53"

definition round_mag :: "nat \<Rightarrow> nat \<Rightarrow> nat" where
  "round_mag p q = (let e = round_exp p q in min inf_mag (e * 2 ^ 52 + rne p (q * 2 ^ e)))"

definition unit_scale :: nat where
  "unit_scale = 2 ^ 1074"

definition f64_of_num :: "int \<Rightarrow> f64" where
  "f64_of_num n = f64_make (n < 0) (round_mag (nat \<bar>n\<bar>) 1)"

definition f64_add :: "f64 \<Rightarrow> f64 \<Rightarrow> f64" where
  "f64_add a b =
     (if f64_is_nan a \<or> f64_is_nan b then f64_nan
      else if \<not> f64_is_finite a then
        (if \<not> f64_is_finite b \<and> f64_sign a \<noteq> f64_sign b then f64_nan else a)
      else if \<not> f64_is_finite b then b
      else let n = f64_num a + f64_num b in
        if n = 0 then f64_make (f64_sign a \<and> f64_sign b) 0 else f64_of_num n)"

definition f64_sub :: "f64 \<Rightarrow> f64 \<Rightarrow> f64" where
  "f64_sub a b = f64_add a (f64_neg b)"

definition f64_mul :: "f64 \<Rightarrow> f64 \<Rightarrow> f64" where
  "f64_mul a b =
     (let s = (f64_sign a \<noteq> f64_sign b) in
      if f64_is_nan a \<or> f64_is_nan b then f64_nan
      else if \<not> f64_is_finite a \<or> \<not> f64_is_finite b then
        (if f64_mag a = 0 \<or> f64_mag b = 0 then f64_nan else f64_make s inf_mag)
      else f64_make s (round_mag (mag_value (f64_mag a) * mag_value (f64_mag b)) unit_scale))"

definition f64_div :: "f64 \<Rightarrow> f64 \<Rightarrow> f64" where
  "f64_div a b =
     (let s = (f64_sign a \<noteq> f64_sign b) in
      if f64_is_nan a \<or> f64_is_nan b then f64_nan
      else if \<not> f64_is_finite a then
        (if f64_is_finite b then f64_make s inf_mag else f64_nan)
      else if \<not> f64_is_finite b then f64_make s 0
      else if f64_mag b = 0 then
        (if f64_mag a = 0 then f64_nan else f64_make s inf_mag)
      else f64_make s (round_mag (mag_value (f64_mag a) * unit_scale) (mag_value (f64_mag b))))"

text \<open>\<^verbatim>\<open>f64::clamp\<close>, which panics unless \<open>lo \<le> hi\<close>.\<close>

definition f64_clamp :: "f64 \<Rightarrow> f64 \<Rightarrow> f64 \<Rightarrow> f64 option" where
  "f64_clamp x lo hi =
     (if \<not> f64_le lo hi then None
      else Some (let y = (if f64_lt x lo then lo else x) in if f64_lt hi y then hi else y))"

section \<open>Order and class lemmas\<close>

lemma f64_mag_bound: "f64_mag x < 2 ^ 63"
proof -
  have "take_bit 63 (unat x) < 2 ^ 63" by (rule take_bit_nat_less_exp)
  then show ?thesis by (simp add: f64_mag_def unsigned_take_bit_eq)
qed

lemma f64_mag_make [simp]: "m < 2 ^ 63 \<Longrightarrow> f64_mag (f64_make s m) = m"
  by (simp add: f64_mag_def f64_make_def unsigned_take_bit_eq unsigned_of_nat take_bit_eq_mod
      unat_word_ariths flip: of_nat_add)

lemma f64_sign_make [simp]: "m < 2 ^ 63 \<Longrightarrow> f64_sign (f64_make s m) = s"
proof -
  assume "m < 2 ^ 63"
  then have "(2 ^ 63 + m) div 2 ^ 63 = 1"
    by (intro div_nat_eqI) simp_all
  with \<open>m < 2 ^ 63\<close> have "\<not> bit m 63" and "bit (2 ^ 63 + m) 63"
    by (simp_all add: bit_iff_odd)
  then show ?thesis
    by (auto simp: f64_sign_def f64_make_def bit_of_nat_iff simp flip: of_nat_add)
qed

lemma inf_mag_less: "inf_mag < 2 ^ 63"
  by (simp add: inf_mag_def)

lemma f64_finite_not_nan: "f64_is_finite x \<Longrightarrow> \<not> f64_is_nan x"
  by (simp add: f64_is_finite_def f64_is_nan_def)

lemma f64_key_make [simp]: "m < 2 ^ 63 \<Longrightarrow> f64_key (f64_make s m) = (if s then - int m else int m)"
  by (simp add: f64_key_def)

lemma f64_zero_simps [simp]:
  "f64_mag f64_zero = 0" "\<not> f64_sign f64_zero" "f64_key f64_zero = 0"
  "\<not> f64_is_nan f64_zero" "f64_is_finite f64_zero" "f64_num f64_zero = 0"
  by (simp_all add: f64_mag_def f64_sign_def f64_key_def f64_is_nan_def f64_is_finite_def
      inf_mag_def f64_num_def mag_value_def)

lemma f64_le_trans: "f64_le a b \<Longrightarrow> f64_le b c \<Longrightarrow> f64_le a c"
  by (auto simp: f64_le_def)

lemma f64_lt_imp_le: "f64_lt a b \<Longrightarrow> f64_le a b"
  by (auto simp: f64_le_def f64_lt_def)

lemma f64_le_refl_finite: "f64_is_finite a \<Longrightarrow> f64_le a a"
  by (simp add: f64_le_def f64_finite_not_nan)

lemma f64_not_lt: "\<not> f64_is_nan a \<Longrightarrow> \<not> f64_is_nan b \<Longrightarrow> \<not> f64_lt a b \<longleftrightarrow> f64_le b a"
  by (auto simp: f64_le_def f64_lt_def)

lemma f64_le_finite_between:
  assumes "f64_le a x" "f64_le x b" "f64_is_finite a" "f64_is_finite b"
  shows "f64_is_finite x"
  using assms by (auto simp: f64_le_def f64_is_finite_def f64_key_def split: if_splits)

lemma f64_clamp_Some:
  assumes "f64_clamp x lo hi = Some y" "\<not> f64_is_nan x"
  shows "f64_le lo y \<and> f64_le y hi"
  using assms by (auto simp: f64_clamp_def f64_le_def f64_lt_def Let_def split: if_splits)

section \<open>Magnitudes order values\<close>

lemma mag_value_small: "m < 2 ^ 53 \<Longrightarrow> mag_value m = m"
proof (cases "m < 2 ^ 52")
  case False
  assume "m < 2 ^ 53"
  with False have "m div 2 ^ 52 = 1" and "2 ^ 52 + m mod 2 ^ 52 = m"
    by (auto intro!: div_nat_eqI simp: mod_if)
  then show ?thesis
    using False by (simp add: mag_value_def)
qed (simp add: mag_value_def)

lemma mag_value_split:
  "2 ^ 52 \<le> m \<Longrightarrow> mag_value m = (2 ^ 52 + m mod 2 ^ 52) * 2 ^ (m div 2 ^ 52 - 1)"
  by (simp add: mag_value_def)

lemma mag_split:
  fixes m :: nat
  assumes "2 ^ 52 \<le> m"
  shows "(m div 2 ^ 52 - 1) * 2 ^ 52 + (2 ^ 52 + m mod 2 ^ 52) = m"
proof -
  obtain j where j: "m div 2 ^ 52 = Suc j"
    using assms by (metis div_greater_zero_iff gr0_conv_Suc zero_less_numeral zero_less_power)
  have "(m div 2 ^ 52 - 1) * 2 ^ 52 + (2 ^ 52 + m mod 2 ^ 52) = m div 2 ^ 52 * 2 ^ 52 + m mod 2 ^ 52"
    unfolding j by simp
  then show ?thesis by simp
qed

lemma mag_value_encode:
  assumes "2 ^ 52 \<le> k" "k \<le> 2 ^ 53"
  shows "mag_value (e * 2 ^ 52 + k) = k * 2 ^ e"
proof (cases "k = 2 ^ 53")
  case True
  have "(e * 2 ^ 52 + k) div 2 ^ 52 = e + 2" "(e * 2 ^ 52 + k) mod 2 ^ 52 = 0"
    using True by simp_all
  then show ?thesis
    using True by (simp add: mag_value_def)
next
  case False
  with assms have "k div 2 ^ 52 = 1" "2 ^ 52 + k mod 2 ^ 52 = k"
    by (auto intro!: div_nat_eqI simp: mod_if)
  then have "(e * 2 ^ 52 + k) div 2 ^ 52 = e + 1" "2 ^ 52 + (e * 2 ^ 52 + k) mod 2 ^ 52 = k"
    by simp_all
  then show ?thesis
    using assms by (simp add: mag_value_def)
qed

lemma mag_value_Suc: "mag_value m < mag_value (Suc m)"
proof (cases "m < 2 ^ 52")
  case True
  then show ?thesis
    using mag_value_small[of m] mag_value_small[of "Suc m"] by simp
next
  case False
  define e where "e = m div 2 ^ 52 - 1"
  define k where "k = 2 ^ 52 + m mod 2 ^ 52"
  have m: "m = e * 2 ^ 52 + k"
    unfolding e_def k_def using mag_split[of m] False by simp
  have k: "2 ^ 52 \<le> k" "Suc k \<le> 2 ^ 53"
    unfolding k_def using mod_less_divisor[of "2 ^ 52" m] by simp_all
  have "Suc m = e * 2 ^ 52 + Suc k"
    using m by simp
  then show ?thesis
    using mag_value_encode[of k e] mag_value_encode[of "Suc k" e] k m by simp
qed

lemma mag_value_strict_mono: "a < b \<Longrightarrow> mag_value a < mag_value b"
  using lift_Suc_mono_less[of mag_value] mag_value_Suc by blast

lemma mag_value_less_iff: "mag_value a < mag_value b \<longleftrightarrow> a < b"
  by (metis mag_value_strict_mono not_less_iff_gr_or_eq)

lemma mag_value_le_iff: "mag_value a \<le> mag_value b \<longleftrightarrow> a \<le> b"
  by (metis mag_value_less_iff not_less)

lemma mag_value_0 [simp]: "mag_value 0 = 0"
  by (simp add: mag_value_def)

lemma mag_value_eq_0 [simp]: "mag_value m = 0 \<longleftrightarrow> m = 0"
  by (metis mag_value_0 mag_value_less_iff gr0I less_numeral_extra(3))

lemma f64_key_le_iff_num: "f64_key a \<le> f64_key b \<longleftrightarrow> f64_num a \<le> f64_num b"
proof -
  have "int x \<le> - int y \<longleftrightarrow> x = 0 \<and> y = 0" and "- int x \<le> int y" for x y :: nat
    by auto
  then show ?thesis
    by (simp add: f64_key_def f64_num_def mag_value_le_iff)
qed

section \<open>Rounding\<close>

lemma bit_length_le_iff: "bit_length n \<le> k \<longleftrightarrow> n < 2 ^ k"
proof (induction n arbitrary: k rule: bit_length.induct)
  case (1 n)
  show ?case
  proof (cases "n = 0")
    case True
    then show ?thesis by (simp add: bit_length.simps[of 0])
  next
    case False
    show ?thesis
    proof (cases k)
      case 0
      with False show ?thesis by (simp add: bit_length.simps[of n])
    next
      case (Suc j)
      have "bit_length n \<le> k \<longleftrightarrow> n div 2 < 2 ^ j"
        using False Suc 1 by (simp add: bit_length.simps[of n])
      also have "\<dots> \<longleftrightarrow> n < 2 ^ k"
        using Suc by (auto simp: less_mult_imp_div_less div_less_iff_less_mult mult.commute)
      finally show ?thesis .
    qed
  qed
qed

lemma bit_length_mono: "a \<le> b \<Longrightarrow> bit_length a \<le> bit_length b"
  by (meson bit_length_le_iff le_less_trans order_refl)

lemma bit_length_eq: "2 ^ k \<le> n \<Longrightarrow> n < 2 ^ Suc k \<Longrightarrow> bit_length n = Suc k"
  by (metis bit_length_le_iff le_Suc_eq not_less)

lemma rne_mult [simp]: "0 < d \<Longrightarrow> rne (k * d) d = k"
  by (simp add: rne_def)

lemma rne_ge_div: "p div d \<le> rne p d"
  by (simp add: rne_def Let_def)

lemma rne_le_Suc_div: "rne p d \<le> Suc (p div d)"
  by (simp add: rne_def Let_def)

lemma rne_mono:
  assumes "0 < d1" "0 < d2" and le: "p1 * d2 \<le> p2 * d1"
  shows "rne p1 d1 \<le> rne p2 d2"
proof -
  have kle: "p1 div d1 \<le> p2 div d2"
  proof -
    have "p1 div d1 = p1 * d2 div (d1 * d2)" using assms by simp
    also have "\<dots> \<le> p2 * d1 div (d1 * d2)" using le by (rule div_le_mono)
    also have "\<dots> = p2 div d2" using assms by (simp add: mult.commute)
    finally show ?thesis .
  qed
  show ?thesis
  proof (cases "p1 div d1 = p2 div d2")
    case False
    with kle have "Suc (p1 div d1) \<le> p2 div d2" by simp
    then show ?thesis using rne_le_Suc_div[of p1 d1] rne_ge_div[of p2 d2] by linarith
  next
    case True
    define k where "k = p1 div d1"
    have p1: "p1 = k * d1 + p1 mod d1"
      by (simp add: k_def)
    have p2: "p2 = k * d2 + p2 mod d2"
      by (simp add: k_def True)
    have "(k * d1 + p1 mod d1) * d2 \<le> (k * d2 + p2 mod d2) * d1"
      using le p1 p2 by metis
    then have r: "(p1 mod d1) * d2 \<le> (p2 mod d2) * d1"
      by (simp add: algebra_simps)
    show ?thesis
    proof (cases "2 * (p2 mod d2) < d2 \<or> 2 * (p2 mod d2) = d2 \<and> even k")
      case False
      then show ?thesis using True rne_le_Suc_div[of p1 d1] by (simp add: rne_def k_def Let_def)
    next
      case down: True
      have r2: "(2 * (p1 mod d1)) * d2 \<le> (2 * (p2 mod d2)) * d1"
        using r by simp
      have "2 * (p1 mod d1) < d1 \<or> 2 * (p1 mod d1) = d1 \<and> even k"
      proof (cases "2 * (p2 mod d2) < d2")
        case True
        then have "(2 * (p2 mod d2)) * d1 < d1 * d2"
          using assms by (simp add: mult.commute[of d1])
        with r2 have "(2 * (p1 mod d1)) * d2 < d1 * d2" by (rule le_less_trans)
        then show ?thesis using assms by (metis mult_less_cancel2)
      next
        case False
        with down have "2 * (p2 mod d2) = d2" "even k" by auto
        with r2 have "(2 * (p1 mod d1)) * d2 \<le> d1 * d2" by (simp add: mult.commute)
        with assms \<open>even k\<close> show ?thesis by auto
      qed
      with down True show ?thesis by (simp add: rne_def k_def Let_def)
    qed
  qed
qed

lemma round_mag_exact:
  assumes "0 < q" "m \<le> inf_mag"
  shows "round_mag (mag_value m * q) q = m"
proof (cases "m < 2 ^ 53")
  case True
  then have "bit_length (mag_value m) \<le> 53"
    by (simp add: mag_value_small bit_length_le_iff)
  with True assms show ?thesis
    by (simp add: round_mag_def round_exp_def mag_value_small)
next
  case False
  define e where "e = m div 2 ^ 52 - 1"
  define k where "k = 2 ^ 52 + m mod 2 ^ 52"
  have v: "mag_value m = k * 2 ^ e"
    using False by (simp add: mag_value_split k_def e_def)
  have k: "2 ^ 52 \<le> k" "k < 2 ^ 53"
    unfolding k_def using mod_less_divisor[of "2 ^ 52" m] by simp_all
  have "bit_length (k * 2 ^ e) = Suc (52 + e)"
    using k by (intro bit_length_eq) (simp_all add: power_add)
  then have e: "round_exp (mag_value m * q) q = e"
    using assms v by (simp add: round_exp_def)
  have m: "e * 2 ^ 52 + k = m"
    unfolding e_def k_def using mag_split[of m] False by simp
  have "rne (k * 2 ^ e * q) (q * 2 ^ e) = k"
    using assms rne_mult[of "q * 2 ^ e" k] by (simp add: mult.assoc mult.commute[of q])
  then show ?thesis
    using assms e m by (simp add: round_mag_def Let_def v)
qed

lemma round_exp_mono:
  assumes "0 < q1" "0 < q2" "p1 * q2 \<le> p2 * q1"
  shows "round_exp p1 q1 \<le> round_exp p2 q2"
proof -
  have "p1 div q1 = p1 * q2 div (q1 * q2)" using assms by simp
  also have "\<dots> \<le> p2 * q1 div (q1 * q2)" using assms(3) by (rule div_le_mono)
  also have "\<dots> = p2 div q2" using assms by (simp add: mult.commute)
  finally show ?thesis
    by (simp add: round_exp_def bit_length_mono diff_le_mono)
qed

lemma div_less_exp: "0 < q \<Longrightarrow> p div (q * 2 ^ round_exp p q) < 2 ^ 53"
proof -
  assume "0 < q"
  have "p div q < 2 ^ (53 + round_exp p q)"
    by (simp add: round_exp_def flip: bit_length_le_iff)
  then have "p div q div 2 ^ round_exp p q < 2 ^ 53"
    by (simp add: power_add less_mult_imp_div_less)
  then show ?thesis by (simp add: div_mult2_eq)
qed

lemma div_ge_exp:
  assumes "0 < round_exp p q"
  shows "2 ^ 52 \<le> p div (q * 2 ^ round_exp p q)"
proof -
  have "bit_length (p div q) = 53 + round_exp p q"
    using assms by (simp add: round_exp_def)
  then have "\<not> bit_length (p div q) \<le> 52 + round_exp p q"
    by simp
  then have "2 ^ (52 + round_exp p q) \<le> p div q"
    by (simp only: bit_length_le_iff not_less)
  then have "2 ^ 52 * 2 ^ round_exp p q \<le> p div q"
    by (simp add: power_add)
  then have "2 ^ 52 \<le> p div q div 2 ^ round_exp p q"
    by (simp add: less_eq_div_iff_mult_less_eq)
  then show ?thesis by (simp add: div_mult2_eq)
qed

lemma round_mag_mono:
  assumes q: "0 < q1" "0 < q2" and le: "p1 * q2 \<le> p2 * q1"
  shows "round_mag p1 q1 \<le> round_mag p2 q2"
proof -
  define e1 where "e1 = round_exp p1 q1"
  define e2 where "e2 = round_exp p2 q2"
  have "e1 \<le> e2"
    unfolding e1_def e2_def using assms by (rule round_exp_mono)
  have "e1 * 2 ^ 52 + rne p1 (q1 * 2 ^ e1) \<le> e2 * 2 ^ 52 + rne p2 (q2 * 2 ^ e2)"
  proof (cases "e1 = e2")
    case True
    have "p1 * (q2 * 2 ^ e2) \<le> p2 * (q1 * 2 ^ e2)"
      using le by (simp add: mult.assoc[symmetric])
    then have "rne p1 (q1 * 2 ^ e2) \<le> rne p2 (q2 * 2 ^ e2)"
      using q by (intro rne_mono) simp_all
    with True show ?thesis by simp
  next
    case False
    with \<open>e1 \<le> e2\<close> have lt: "Suc e1 \<le> e2" by simp
    have "rne p1 (q1 * 2 ^ e1) \<le> Suc (p1 div (q1 * 2 ^ e1))"
      by (rule rne_le_Suc_div)
    also have "\<dots> \<le> 2 ^ 53"
      using div_less_exp[of q1 p1] q by (simp add: e1_def)
    finally have low: "rne p1 (q1 * 2 ^ e1) \<le> 2 ^ 53" .
    have "2 ^ 52 \<le> p2 div (q2 * 2 ^ e2)"
      using div_ge_exp[of p2 q2] lt by (simp add: e2_def)
    then have high: "2 ^ 52 \<le> rne p2 (q2 * 2 ^ e2)"
      using rne_ge_div by (rule le_trans)
    have "Suc e1 * 2 ^ 52 \<le> e2 * 2 ^ 52"
      using lt by (intro mult_le_mono1)
    with low high show ?thesis by simp
  qed
  then show ?thesis
    unfolding round_mag_def Let_def e1_def e2_def by (rule min.mono[OF order_refl])
qed

lemma round_mag_le_inf: "round_mag p q \<le> inf_mag"
  by (simp add: round_mag_def Let_def)

lemma round_mag_bound [simp]: "round_mag p q < 9223372036854775808"
  using round_mag_le_inf[of p q] inf_mag_less by simp

lemma round_mag_0 [simp]: "0 < q \<Longrightarrow> round_mag 0 q = 0"
  using round_mag_exact[of q 0] by simp

section \<open>Laws of the rounded operations\<close>

text \<open>
  The key of a rounded sum is a monotone function of the exact sum that is exact on representable
  values; products of non-negative values are bounded in the same way.
\<close>

definition round_key :: "int \<Rightarrow> int" where
  "round_key n = (if n < 0 then - int (round_mag (nat (- n)) 1) else int (round_mag (nat n) 1))"

lemma round_key_mono: "a \<le> b \<Longrightarrow> round_key a \<le> round_key b"
proof -
  assume "a \<le> b"
  have mono: "round_mag p 1 \<le> round_mag p' 1" if "p \<le> p'" for p p'
    using that by (intro round_mag_mono) simp_all
  consider "b < 0" | "a < 0" "0 \<le> b" | "0 \<le> a"
    using \<open>a \<le> b\<close> by linarith
  then show ?thesis
  proof cases
    case 1
    then show ?thesis using \<open>a \<le> b\<close> mono[of "nat (- b)" "nat (- a)"] by (simp add: round_key_def)
  next
    case 2
    then show ?thesis by (simp add: round_key_def)
  next
    case 3
    then show ?thesis using \<open>a \<le> b\<close> mono[of "nat a" "nat b"] by (simp add: round_key_def)
  qed
qed

lemma round_key_num: "f64_is_finite x \<Longrightarrow> round_key (f64_num x) = f64_key x"
  using round_mag_exact[of 1 "f64_mag x"]
  by (auto simp: round_key_def f64_num_def f64_key_def f64_is_finite_def)

lemma f64_key_of_num: "f64_key (f64_of_num n) = round_key n"
  by (simp add: f64_of_num_def round_key_def)

lemma f64_of_num_not_nan: "\<not> f64_is_nan (f64_of_num n)"
  using round_mag_le_inf[of "nat \<bar>n\<bar>" 1]
  by (simp add: f64_is_nan_def f64_of_num_def not_less)

lemma f64_add_finite:
  assumes "f64_is_finite a" "f64_is_finite b"
  shows "f64_key (f64_add a b) = round_key (f64_num a + f64_num b)"
    and "\<not> f64_is_nan (f64_add a b)"
proof -
  have "\<not> f64_is_nan (f64_make s 0)" for s
    by (simp add: f64_is_nan_def)
  then show "f64_key (f64_add a b) = round_key (f64_num a + f64_num b)"
    and "\<not> f64_is_nan (f64_add a b)"
    using assms f64_finite_not_nan[of a] f64_finite_not_nan[of b]
    by (simp_all add: f64_add_def Let_def f64_key_of_num f64_of_num_not_nan round_key_def)
qed

lemma f64_add_commute:
  assumes "f64_is_finite a" "f64_is_finite b"
  shows "f64_add a b = f64_add b a"
  using assms f64_finite_not_nan[of a] f64_finite_not_nan[of b]
  by (simp add: f64_add_def Let_def add.commute conj_commute)

lemma f64_add_mono:
  assumes "f64_is_finite a" "f64_is_finite b" "f64_is_finite c" "f64_le b c"
  shows "f64_le (f64_add a b) (f64_add a c)"
proof -
  have "f64_num b \<le> f64_num c"
    using assms(4) by (simp add: f64_le_def f64_key_le_iff_num)
  then show ?thesis
    using assms by (simp add: f64_le_def f64_add_finite round_key_mono)
qed

lemma f64_add_nonneg_ge:
  assumes "f64_is_finite a" "f64_is_finite b" "f64_le f64_zero b"
  shows "f64_le a (f64_add a b)"
proof -
  have "0 \<le> f64_num b"
    using assms(3) f64_key_le_iff_num[of f64_zero b]
    by (simp add: f64_le_def)
  then have "round_key (f64_num a) \<le> round_key (f64_num a + f64_num b)"
    by (intro round_key_mono) simp
  then show ?thesis
    using assms by (simp add: f64_le_def f64_add_finite round_key_num f64_finite_not_nan)
qed

lemma f64_one_mag: "f64_mag f64_one = 1023 * 2 ^ 52" "\<not> f64_sign f64_one"
  by (simp_all add: f64_mag_def f64_one_def f64_sign_def bit_iff_odd)

lemma f64_mag_le_one:
  assumes "f64_le x f64_one" "\<not> f64_sign x"
  shows "mag_value (f64_mag x) \<le> unit_scale"
proof -
  have "f64_mag x \<le> 1023 * 2 ^ 52"
    using assms f64_one_mag by (simp add: f64_le_def f64_key_def)
  then have "mag_value (f64_mag x) \<le> mag_value (1023 * 2 ^ 52)"
    by (simp only: mag_value_le_iff)
  also have "mag_value (1023 * 2 ^ 52) = 2 ^ 52 * 2 ^ (1023 - 1)"
    by (simp add: mag_value_def)
  also have "\<dots> = unit_scale"
    unfolding unit_scale_def by (simp flip: power_add)
  finally show ?thesis .
qed

lemma f64_nonneg_mag: "f64_le f64_zero x \<Longrightarrow> f64_sign x \<Longrightarrow> f64_mag x = 0"
  by (simp add: f64_le_def f64_key_def[of x])

lemma f64_zero_le_iff: "f64_le f64_zero x \<longleftrightarrow> \<not> f64_is_nan x \<and> 0 \<le> f64_key x"
  by (auto simp: f64_le_def)

text \<open>Scaling a non-negative length by a fraction of the unit interval stays below the length.\<close>

lemma f64_mul_fraction:
  assumes "f64_is_finite w" "f64_le f64_zero w" "f64_le f64_zero x" "f64_le x f64_one"
  shows "f64_le f64_zero (f64_mul x w)" and "f64_le (f64_mul x w) w"
    and "f64_is_finite (f64_mul x w)"
proof -
  have x: "f64_is_finite x"
    using assms f64_le_finite_between[of f64_zero x f64_one] f64_one_mag
    by (simp add: f64_is_finite_def inf_mag_def)
  define r where "r = round_mag (mag_value (f64_mag x) * mag_value (f64_mag w)) unit_scale"
  have mul: "f64_mul x w = f64_make (f64_sign x \<noteq> f64_sign w) r"
    using assms(1) x f64_finite_not_nan by (simp add: f64_mul_def r_def)
  have scale: "0 < unit_scale"
    by (simp add: unit_scale_def)
  have "mag_value (f64_mag x) \<le> unit_scale"
  proof (cases "f64_sign x")
    case True
    with assms(3) have "f64_mag x = 0" by (rule f64_nonneg_mag)
    then show ?thesis by simp
  qed (use assms(4) f64_mag_le_one in blast)
  then have "r \<le> round_mag (mag_value (f64_mag w) * unit_scale) unit_scale"
    unfolding r_def by (intro round_mag_mono) (simp_all add: scale mult_le_mono)
  also have "\<dots> = f64_mag w"
    using assms(1) by (intro round_mag_exact) (simp_all add: scale f64_is_finite_def)
  finally have r: "r \<le> f64_mag w" .
  have zero: "r = 0" if "f64_sign x \<or> f64_sign w"
    using that assms f64_nonneg_mag scale by (auto simp: r_def)
  have bound: "r < 9223372036854775808"
    by (simp add: r_def)
  have fin: "f64_is_finite (f64_mul x w)"
    using r assms(1) bound by (simp add: mul f64_is_finite_def)
  moreover have "0 \<le> f64_key (f64_mul x w)"
    using zero bound by (auto simp: mul)
  moreover have "f64_key (f64_mul x w) \<le> f64_key w"
    using zero bound r assms(2) f64_nonneg_mag[of w] by (auto simp: mul f64_key_def)
  ultimately show "f64_le f64_zero (f64_mul x w)" and "f64_le (f64_mul x w) w"
    and "f64_is_finite (f64_mul x w)"
    using f64_finite_not_nan[OF fin] f64_finite_not_nan[OF assms(1)]
    by (simp_all add: f64_zero_le_iff f64_le_def)
qed

lemma f64_add_fraction:
  assumes "f64_is_finite a" "f64_is_finite w" "f64_le f64_zero w" "f64_le f64_zero x" "f64_le x f64_one"
  shows "f64_le a (f64_add a (f64_mul x w))" "f64_le (f64_add a (f64_mul x w)) (f64_add a w)"
  using f64_mul_fraction[OF assms(2-)] assms
  by (auto intro: f64_add_nonneg_ge f64_add_mono)

lemma f64_neg_finite [simp]:
  "f64_is_finite (f64_neg x) = f64_is_finite x" "f64_num (f64_neg x) = - f64_num x"
  "f64_key (f64_neg x) = - f64_key x" "f64_is_nan (f64_neg x) = f64_is_nan x"
  using f64_mag_bound[of x]
  by (simp_all add: f64_neg_def f64_is_finite_def f64_num_def f64_key_def f64_is_nan_def)

lemma f64_sub_nonneg:
  assumes "f64_is_finite a" "f64_is_finite b" "f64_le b a"
  shows "f64_le f64_zero (f64_sub a b)"
proof -
  have "f64_num b \<le> f64_num a"
    using assms(3) by (simp add: f64_le_def f64_key_le_iff_num)
  then have "round_key 0 \<le> round_key (f64_num a - f64_num b)"
    by (intro round_key_mono) simp
  then show ?thesis
    using f64_add_finite[of a "f64_neg b"] assms by (simp add: f64_zero_le_iff f64_sub_def round_key_def)
qed

lemma f64_div_not_nan:
  assumes "\<not> f64_is_nan a" "f64_is_finite b" "f64_lt f64_zero b"
  shows "\<not> f64_is_nan (f64_div a b)"
proof -
  have "f64_mag b \<noteq> 0"
    using assms(3) by (auto simp: f64_lt_def f64_key_def split: if_splits)
  moreover have "\<not> inf_mag < round_mag p q" for p q
    using round_mag_le_inf[of p q] by simp
  ultimately show ?thesis
    using assms f64_finite_not_nan[of b] inf_mag_less
    by (auto simp: f64_div_def Let_def f64_is_nan_def)
qed

lemma f64_sub_not_nan: "f64_is_finite a \<Longrightarrow> f64_is_finite b \<Longrightarrow> \<not> f64_is_nan (f64_sub a b)"
  by (simp add: f64_sub_def f64_add_finite(2))

lemma f64_sub_le_self:
  assumes "f64_is_finite a" "f64_is_finite e" "f64_le f64_zero e"
  shows "f64_le (f64_sub a e) a"
proof -
  have "0 \<le> f64_num e"
    using assms(3) f64_key_le_iff_num[of f64_zero e] by (simp add: f64_le_def)
  then have "round_key (f64_num a - f64_num e) \<le> f64_key a"
    using round_key_mono[of "f64_num a - f64_num e" "f64_num a"] round_key_num[OF assms(1)] by simp
  then show ?thesis
    using f64_add_finite[of a "f64_neg e"] assms f64_finite_not_nan by (simp add: f64_le_def f64_sub_def)
qed

lemma f64_abs_key [simp]: "f64_key (f64_abs x) = \<bar>f64_key x\<bar>" "f64_is_nan (f64_abs x) = f64_is_nan x"
  using f64_mag_bound[of x] by (simp_all add: f64_abs_def f64_key_def f64_is_nan_def)

lemma f64_mul_one: "f64_is_finite w \<Longrightarrow> f64_mul f64_one w = f64_make (f64_sign w) (f64_mag w)"
proof -
  assume w: "f64_is_finite w"
  have "mag_value (f64_mag f64_one) = unit_scale"
    by (simp add: f64_one_mag(1) mag_value_def unit_scale_def flip: power_add)
  moreover have "f64_is_finite f64_one"
    by (simp add: f64_is_finite_def f64_one_mag inf_mag_def)
  ultimately show ?thesis
    using w round_mag_exact[of unit_scale "f64_mag w"] f64_finite_not_nan
    by (simp add: f64_mul_def f64_one_mag(2) unit_scale_def f64_is_finite_def mult.commute)
qed

text \<open>The equations that evaluate the operations on literals.\<close>

lemmas f64_eval = f64_le_def f64_lt_def f64_is_finite_def f64_is_nan_def f64_key_def f64_mag_def
  f64_sign_def inf_mag_def f64_add_def f64_sub_def f64_neg_def f64_abs_def f64_make_def f64_num_def
  f64_of_num_def round_mag_def round_exp_def rne_def mag_value_def bit_length.simps

end
