(* ===== verification/KvmTypes.thy ===== *)
theory KvmTypes
  imports F64
begin

text \<open>
  The platform-neutral domain types of \<^verbatim>\<open>kvm-types\<close>: identifiers, devices and their routing
  policy, geometry over \<open>f64\<close>, displays, and the workspace state that the router reads.
\<close>

section \<open>Identifiers\<close>

type_synonym HostId = id128
type_synonym DeviceId = id128
type_synonym DisplayId = id128
type_synonym PeerId = id128

abbreviation nil_id :: id128 where
  "nil_id \<equiv> 0"

section \<open>Hosts and devices\<close>

datatype Platform = Windows | MacOS

record Host =
  host_id :: HostId
  host_name :: rust_string
  host_platform :: Platform

datatype DeviceKind = Keyboard | Mouse | Trackpad | OtherDevice

record DeviceCapabilities =
  cap_pointer :: bool
  cap_keyboard :: bool
  cap_vertical_scroll :: bool
  cap_horizontal_scroll :: bool
  cap_extra_buttons :: bool

definition caps_none :: DeviceCapabilities where
  "caps_none = \<lparr>cap_pointer = False, cap_keyboard = False, cap_vertical_scroll = False,
     cap_horizontal_scroll = False, cap_extra_buttons = False\<rparr>"

definition caps_keyboard :: DeviceCapabilities where
  "caps_keyboard = caps_none\<lparr>cap_keyboard := True\<rparr>"

definition caps_pointer :: DeviceCapabilities where
  "caps_pointer = caps_none\<lparr>cap_pointer := True\<rparr>"

definition supports :: "DeviceCapabilities \<Rightarrow> DeviceCapabilities \<Rightarrow> bool" where
  "supports self required \<longleftrightarrow>
     (\<not> cap_pointer required \<or> cap_pointer self)
     \<and> (\<not> cap_keyboard required \<or> cap_keyboard self)
     \<and> (\<not> cap_vertical_scroll required \<or> cap_vertical_scroll self)
     \<and> (\<not> cap_horizontal_scroll required \<or> cap_horizontal_scroll self)
     \<and> (\<not> cap_extra_buttons required \<or> cap_extra_buttons self)"

record InputDevice =
  dev_id :: DeviceId
  dev_host_id :: HostId
  dev_name :: rust_string
  dev_vendor_id :: "u16 option"
  dev_product_id :: "u16 option"
  dev_kind :: DeviceKind
  dev_capabilities :: DeviceCapabilities

definition InputDevice_new ::
  "DeviceId \<Rightarrow> HostId \<Rightarrow> rust_string \<Rightarrow> DeviceKind \<Rightarrow> DeviceCapabilities \<Rightarrow> InputDevice" where
  "InputDevice_new i h n k c = \<lparr>dev_id = i, dev_host_id = h, dev_name = n, dev_vendor_id = None,
     dev_product_id = None, dev_kind = k, dev_capabilities = c\<rparr>"

datatype DeviceRoute = FollowActiveHost | RouteLocal | RouteHost HostId

section \<open>Geometry\<close>

record Point =
  point_x :: f64
  point_y :: f64

record Size =
  size_width :: f64
  size_height :: f64

record Rect =
  rect_x :: f64
  rect_y :: f64
  rect_width :: f64
  rect_height :: f64

definition Point_new :: "f64 \<Rightarrow> f64 \<Rightarrow> Point" where
  "Point_new x y = \<lparr>point_x = x, point_y = y\<rparr>"

definition Rect_new :: "f64 \<Rightarrow> f64 \<Rightarrow> f64 \<Rightarrow> f64 \<Rightarrow> Rect" where
  "Rect_new x y w h = \<lparr>rect_x = x, rect_y = y, rect_width = w, rect_height = h\<rparr>"

definition Size_is_valid :: "Size \<Rightarrow> bool" where
  "Size_is_valid s \<longleftrightarrow> f64_is_finite (size_width s) \<and> f64_is_finite (size_height s)
     \<and> f64_le f64_zero (size_width s) \<and> f64_le f64_zero (size_height s)"

definition rect_size :: "Rect \<Rightarrow> Size" where
  "rect_size r = \<lparr>size_width = rect_width r, size_height = rect_height r\<rparr>"

definition min_x :: "Rect \<Rightarrow> f64" where
  "min_x r = rect_x r"

definition min_y :: "Rect \<Rightarrow> f64" where
  "min_y r = rect_y r"

definition max_x :: "Rect \<Rightarrow> f64" where
  "max_x r = f64_add (rect_x r) (rect_width r)"

definition max_y :: "Rect \<Rightarrow> f64" where
  "max_y r = f64_add (rect_y r) (rect_height r)"

definition Rect_is_valid :: "Rect \<Rightarrow> bool" where
  "Rect_is_valid r \<longleftrightarrow> f64_is_finite (rect_x r) \<and> f64_is_finite (rect_y r)
     \<and> Size_is_valid (rect_size r) \<and> f64_is_finite (max_x r) \<and> f64_is_finite (max_y r)"

definition Rect_contains :: "Rect \<Rightarrow> Point \<Rightarrow> bool" where
  "Rect_contains r p \<longleftrightarrow> f64_le (min_x r) (point_x p) \<and> f64_lt (point_x p) (max_x r)
     \<and> f64_le (min_y r) (point_y p) \<and> f64_lt (point_y p) (max_y r)"

text \<open>\<open>None\<close> is the panic of \<^verbatim>\<open>f64::clamp\<close> on an empty or NaN interval.\<close>

definition Rect_clamp :: "Rect \<Rightarrow> Point \<Rightarrow> Point option" where
  "Rect_clamp r p =
     (case f64_clamp (point_x p) (min_x r) (max_x r) of
        None \<Rightarrow> None
      | Some x \<Rightarrow> (case f64_clamp (point_y p) (min_y r) (max_y r) of
          None \<Rightarrow> None
        | Some y \<Rightarrow> Some (Point_new x y)))"

datatype Edge = LeftEdge | RightEdge | TopEdge | BottomEdge

fun opposite :: "Edge \<Rightarrow> Edge" where
  "opposite LeftEdge = RightEdge"
| "opposite RightEdge = LeftEdge"
| "opposite TopEdge = BottomEdge"
| "opposite BottomEdge = TopEdge"

section \<open>Displays\<close>

record Display =
  disp_id :: DisplayId
  disp_host_id :: HostId
  disp_name :: rust_string
  disp_logical_size :: Size
  disp_physical_size :: "Size option"
  disp_scale_factor :: f64
  disp_refresh_rate :: "f64 option"
  disp_native_bounds :: Rect
  disp_primary :: bool

definition Display_is_valid :: "Display \<Rightarrow> bool" where
  "Display_is_valid d \<longleftrightarrow>
     Size_is_valid (disp_logical_size d)
     \<and> f64_lt f64_zero (size_width (disp_logical_size d))
     \<and> f64_lt f64_zero (size_height (disp_logical_size d))
     \<and> (case disp_physical_size d of None \<Rightarrow> True | Some s \<Rightarrow> Size_is_valid s)
     \<and> f64_is_finite (disp_scale_factor d)
     \<and> f64_lt f64_zero (disp_scale_factor d)
     \<and> (case disp_refresh_rate d of None \<Rightarrow> True
        | Some rate \<Rightarrow> f64_is_finite rate \<and> f64_lt f64_zero rate)
     \<and> Rect_is_valid (disp_native_bounds d)"

section \<open>Workspace state\<close>

record LogicalPointer =
  lp_display_id :: DisplayId
  lp_x :: f64
  lp_y :: f64

definition pointer_position :: "LogicalPointer \<Rightarrow> Point" where
  "pointer_position p = Point_new (lp_x p) (lp_y p)"

definition set_position :: "Point \<Rightarrow> LogicalPointer \<Rightarrow> LogicalPointer" where
  "set_position q p = p\<lparr>lp_x := point_x q, lp_y := point_y q\<rparr>"

record WorkspaceState =
  local_host :: HostId
  active_host :: HostId
  active_display :: DisplayId
  ws_pointer :: LogicalPointer

definition WorkspaceState_new :: "HostId \<Rightarrow> HostId \<Rightarrow> LogicalPointer \<Rightarrow> WorkspaceState" where
  "WorkspaceState_new l a p =
     \<lparr>local_host = l, active_host = a, active_display = lp_display_id p, ws_pointer = p\<rparr>"

definition set_active_pointer :: "HostId \<Rightarrow> LogicalPointer \<Rightarrow> WorkspaceState \<Rightarrow> WorkspaceState" where
  "set_active_pointer a p s =
     s\<lparr>active_host := a, active_display := lp_display_id p, ws_pointer := p\<rparr>"

section \<open>Lemmas\<close>

lemma opposite_opposite [simp]: "opposite (opposite e) = e"
  by (cases e) simp_all

lemma supports_refl: "supports c c"
  by (simp add: supports_def)

lemma supports_trans: "supports a b \<Longrightarrow> supports b c \<Longrightarrow> supports a c"
  by (auto simp: supports_def)

lemma supports_antisym: "supports a b \<Longrightarrow> supports b a \<Longrightarrow> a = (b :: DeviceCapabilities)"
  by (cases a; cases b) (auto simp: supports_def)

lemma Rect_validD:
  assumes "Rect_is_valid r"
  shows "f64_is_finite (min_x r)" "f64_is_finite (min_y r)" "f64_is_finite (max_x r)"
    "f64_is_finite (max_y r)" "f64_is_finite (rect_width r)" "f64_is_finite (rect_height r)"
    "f64_le f64_zero (rect_width r)" "f64_le f64_zero (rect_height r)"
  using assms by (simp_all add: Rect_is_valid_def Size_is_valid_def rect_size_def min_x_def min_y_def)

lemma Rect_valid_ordered:
  assumes "Rect_is_valid r"
  shows "f64_le (min_x r) (max_x r)" "f64_le (min_y r) (max_y r)"
  using Rect_validD[OF assms]
  by (simp_all add: max_x_def max_y_def min_x_def min_y_def f64_add_nonneg_ge)

text \<open>A valid rectangle never makes \<^verbatim>\<open>clamp\<close> panic, and the result lies in the closed rectangle.\<close>

lemma Rect_clamp_total:
  assumes "Rect_is_valid r" "\<not> f64_is_nan (point_x p)" "\<not> f64_is_nan (point_y p)"
  obtains q where "Rect_clamp r p = Some q"
    and "f64_le (min_x r) (point_x q)" "f64_le (point_x q) (max_x r)"
    and "f64_le (min_y r) (point_y q)" "f64_le (point_y q) (max_y r)"
proof -
  obtain x y where x: "f64_clamp (point_x p) (min_x r) (max_x r) = Some x"
    and y: "f64_clamp (point_y p) (min_y r) (max_y r) = Some y"
    using Rect_valid_ordered[OF assms(1)] by (simp add: f64_clamp_def)
  show thesis
    using f64_clamp_Some[OF x assms(2)] f64_clamp_Some[OF y assms(3)]
    by (intro that[of "Point_new x y"]) (simp_all add: Rect_clamp_def x y Point_new_def)
qed

lemma set_active_pointer_consistent [simp]:
  "active_display (set_active_pointer a p s) = lp_display_id (ws_pointer (set_active_pointer a p s))"
  by (simp add: set_active_pointer_def)

end
