(* ===== verification/KeyInput.thy ===== *)
theory KeyInput
  imports KvmTypes "HOL-Library.Product_Lexorder"
begin

text \<open>
  The canonical input model of \<^verbatim>\<open>kvm-input\<close>: physical key positions (\<^verbatim>\<open>key.rs\<close>), input events
  (\<^verbatim>\<open>event.rs\<close>) and the held-control set that is released on every failure path
  (\<^verbatim>\<open>pressed.rs\<close>).  The lemmas show that the held set is determined by the last transition of
  each control, that cleanup releases exactly the held controls, once each and ordinary keys
  before modifiers, and that replaying the releases empties the set.
\<close>

section \<open>Key positions\<close>

text \<open>
  A fieldless variant of \<^verbatim>\<open>KeyCode\<close> is its discriminant, the position in the declaration, which
  is also what the derived order compares; \<open>NamedKey n\<close> is a key of the source for \<open>n < 142\<close>.
  Each variant has an abbreviation with its name.
\<close>

datatype KeyCode = NamedKey nat | Unidentified (usage_page: u16) (usage_id: u16)

definition named_key_count :: nat where
  "named_key_count = 142"

fun wf_key :: "KeyCode \<Rightarrow> bool" where
  "wf_key (NamedKey n) \<longleftrightarrow> n < named_key_count"
| "wf_key (Unidentified p u) \<longleftrightarrow> True"

abbreviation (input) K_Escape :: KeyCode where
  "K_Escape \<equiv> NamedKey 0"
abbreviation (input) K_F1 :: KeyCode where
  "K_F1 \<equiv> NamedKey 1"
abbreviation (input) K_F2 :: KeyCode where
  "K_F2 \<equiv> NamedKey 2"
abbreviation (input) K_F3 :: KeyCode where
  "K_F3 \<equiv> NamedKey 3"
abbreviation (input) K_F4 :: KeyCode where
  "K_F4 \<equiv> NamedKey 4"
abbreviation (input) K_F5 :: KeyCode where
  "K_F5 \<equiv> NamedKey 5"
abbreviation (input) K_F6 :: KeyCode where
  "K_F6 \<equiv> NamedKey 6"
abbreviation (input) K_F7 :: KeyCode where
  "K_F7 \<equiv> NamedKey 7"
abbreviation (input) K_F8 :: KeyCode where
  "K_F8 \<equiv> NamedKey 8"
abbreviation (input) K_F9 :: KeyCode where
  "K_F9 \<equiv> NamedKey 9"
abbreviation (input) K_F10 :: KeyCode where
  "K_F10 \<equiv> NamedKey 10"
abbreviation (input) K_F11 :: KeyCode where
  "K_F11 \<equiv> NamedKey 11"
abbreviation (input) K_F12 :: KeyCode where
  "K_F12 \<equiv> NamedKey 12"
abbreviation (input) K_F13 :: KeyCode where
  "K_F13 \<equiv> NamedKey 13"
abbreviation (input) K_F14 :: KeyCode where
  "K_F14 \<equiv> NamedKey 14"
abbreviation (input) K_F15 :: KeyCode where
  "K_F15 \<equiv> NamedKey 15"
abbreviation (input) K_F16 :: KeyCode where
  "K_F16 \<equiv> NamedKey 16"
abbreviation (input) K_F17 :: KeyCode where
  "K_F17 \<equiv> NamedKey 17"
abbreviation (input) K_F18 :: KeyCode where
  "K_F18 \<equiv> NamedKey 18"
abbreviation (input) K_F19 :: KeyCode where
  "K_F19 \<equiv> NamedKey 19"
abbreviation (input) K_F20 :: KeyCode where
  "K_F20 \<equiv> NamedKey 20"
abbreviation (input) K_F21 :: KeyCode where
  "K_F21 \<equiv> NamedKey 21"
abbreviation (input) K_F22 :: KeyCode where
  "K_F22 \<equiv> NamedKey 22"
abbreviation (input) K_F23 :: KeyCode where
  "K_F23 \<equiv> NamedKey 23"
abbreviation (input) K_F24 :: KeyCode where
  "K_F24 \<equiv> NamedKey 24"
abbreviation (input) K_PrintScreen :: KeyCode where
  "K_PrintScreen \<equiv> NamedKey 25"
abbreviation (input) K_ScrollLock :: KeyCode where
  "K_ScrollLock \<equiv> NamedKey 26"
abbreviation (input) K_Pause :: KeyCode where
  "K_Pause \<equiv> NamedKey 27"
abbreviation (input) K_Backquote :: KeyCode where
  "K_Backquote \<equiv> NamedKey 28"
abbreviation (input) K_Digit1 :: KeyCode where
  "K_Digit1 \<equiv> NamedKey 29"
abbreviation (input) K_Digit2 :: KeyCode where
  "K_Digit2 \<equiv> NamedKey 30"
abbreviation (input) K_Digit3 :: KeyCode where
  "K_Digit3 \<equiv> NamedKey 31"
abbreviation (input) K_Digit4 :: KeyCode where
  "K_Digit4 \<equiv> NamedKey 32"
abbreviation (input) K_Digit5 :: KeyCode where
  "K_Digit5 \<equiv> NamedKey 33"
abbreviation (input) K_Digit6 :: KeyCode where
  "K_Digit6 \<equiv> NamedKey 34"
abbreviation (input) K_Digit7 :: KeyCode where
  "K_Digit7 \<equiv> NamedKey 35"
abbreviation (input) K_Digit8 :: KeyCode where
  "K_Digit8 \<equiv> NamedKey 36"
abbreviation (input) K_Digit9 :: KeyCode where
  "K_Digit9 \<equiv> NamedKey 37"
abbreviation (input) K_Digit0 :: KeyCode where
  "K_Digit0 \<equiv> NamedKey 38"
abbreviation (input) K_Minus :: KeyCode where
  "K_Minus \<equiv> NamedKey 39"
abbreviation (input) K_Equal :: KeyCode where
  "K_Equal \<equiv> NamedKey 40"
abbreviation (input) K_Backspace :: KeyCode where
  "K_Backspace \<equiv> NamedKey 41"
abbreviation (input) K_Tab :: KeyCode where
  "K_Tab \<equiv> NamedKey 42"
abbreviation (input) K_KeyQ :: KeyCode where
  "K_KeyQ \<equiv> NamedKey 43"
abbreviation (input) K_KeyW :: KeyCode where
  "K_KeyW \<equiv> NamedKey 44"
abbreviation (input) K_KeyE :: KeyCode where
  "K_KeyE \<equiv> NamedKey 45"
abbreviation (input) K_KeyR :: KeyCode where
  "K_KeyR \<equiv> NamedKey 46"
abbreviation (input) K_KeyT :: KeyCode where
  "K_KeyT \<equiv> NamedKey 47"
abbreviation (input) K_KeyY :: KeyCode where
  "K_KeyY \<equiv> NamedKey 48"
abbreviation (input) K_KeyU :: KeyCode where
  "K_KeyU \<equiv> NamedKey 49"
abbreviation (input) K_KeyI :: KeyCode where
  "K_KeyI \<equiv> NamedKey 50"
abbreviation (input) K_KeyO :: KeyCode where
  "K_KeyO \<equiv> NamedKey 51"
abbreviation (input) K_KeyP :: KeyCode where
  "K_KeyP \<equiv> NamedKey 52"
abbreviation (input) K_BracketLeft :: KeyCode where
  "K_BracketLeft \<equiv> NamedKey 53"
abbreviation (input) K_BracketRight :: KeyCode where
  "K_BracketRight \<equiv> NamedKey 54"
abbreviation (input) K_Backslash :: KeyCode where
  "K_Backslash \<equiv> NamedKey 55"
abbreviation (input) K_CapsLock :: KeyCode where
  "K_CapsLock \<equiv> NamedKey 56"
abbreviation (input) K_KeyA :: KeyCode where
  "K_KeyA \<equiv> NamedKey 57"
abbreviation (input) K_KeyS :: KeyCode where
  "K_KeyS \<equiv> NamedKey 58"
abbreviation (input) K_KeyD :: KeyCode where
  "K_KeyD \<equiv> NamedKey 59"
abbreviation (input) K_KeyF :: KeyCode where
  "K_KeyF \<equiv> NamedKey 60"
abbreviation (input) K_KeyG :: KeyCode where
  "K_KeyG \<equiv> NamedKey 61"
abbreviation (input) K_KeyH :: KeyCode where
  "K_KeyH \<equiv> NamedKey 62"
abbreviation (input) K_KeyJ :: KeyCode where
  "K_KeyJ \<equiv> NamedKey 63"
abbreviation (input) K_KeyK :: KeyCode where
  "K_KeyK \<equiv> NamedKey 64"
abbreviation (input) K_KeyL :: KeyCode where
  "K_KeyL \<equiv> NamedKey 65"
abbreviation (input) K_Semicolon :: KeyCode where
  "K_Semicolon \<equiv> NamedKey 66"
abbreviation (input) K_Quote :: KeyCode where
  "K_Quote \<equiv> NamedKey 67"
abbreviation (input) K_Enter :: KeyCode where
  "K_Enter \<equiv> NamedKey 68"
abbreviation (input) K_ShiftLeft :: KeyCode where
  "K_ShiftLeft \<equiv> NamedKey 69"
abbreviation (input) K_IntlBackslash :: KeyCode where
  "K_IntlBackslash \<equiv> NamedKey 70"
abbreviation (input) K_KeyZ :: KeyCode where
  "K_KeyZ \<equiv> NamedKey 71"
abbreviation (input) K_KeyX :: KeyCode where
  "K_KeyX \<equiv> NamedKey 72"
abbreviation (input) K_KeyC :: KeyCode where
  "K_KeyC \<equiv> NamedKey 73"
abbreviation (input) K_KeyV :: KeyCode where
  "K_KeyV \<equiv> NamedKey 74"
abbreviation (input) K_KeyB :: KeyCode where
  "K_KeyB \<equiv> NamedKey 75"
abbreviation (input) K_KeyN :: KeyCode where
  "K_KeyN \<equiv> NamedKey 76"
abbreviation (input) K_KeyM :: KeyCode where
  "K_KeyM \<equiv> NamedKey 77"
abbreviation (input) K_Comma :: KeyCode where
  "K_Comma \<equiv> NamedKey 78"
abbreviation (input) K_Period :: KeyCode where
  "K_Period \<equiv> NamedKey 79"
abbreviation (input) K_Slash :: KeyCode where
  "K_Slash \<equiv> NamedKey 80"
abbreviation (input) K_ShiftRight :: KeyCode where
  "K_ShiftRight \<equiv> NamedKey 81"
abbreviation (input) K_ControlLeft :: KeyCode where
  "K_ControlLeft \<equiv> NamedKey 82"
abbreviation (input) K_MetaLeft :: KeyCode where
  "K_MetaLeft \<equiv> NamedKey 83"
abbreviation (input) K_AltLeft :: KeyCode where
  "K_AltLeft \<equiv> NamedKey 84"
abbreviation (input) K_Space :: KeyCode where
  "K_Space \<equiv> NamedKey 85"
abbreviation (input) K_AltRight :: KeyCode where
  "K_AltRight \<equiv> NamedKey 86"
abbreviation (input) K_MetaRight :: KeyCode where
  "K_MetaRight \<equiv> NamedKey 87"
abbreviation (input) K_ContextMenu :: KeyCode where
  "K_ContextMenu \<equiv> NamedKey 88"
abbreviation (input) K_ControlRight :: KeyCode where
  "K_ControlRight \<equiv> NamedKey 89"
abbreviation (input) K_FnKey :: KeyCode where
  "K_FnKey \<equiv> NamedKey 90"
abbreviation (input) K_Insert :: KeyCode where
  "K_Insert \<equiv> NamedKey 91"
abbreviation (input) K_Home :: KeyCode where
  "K_Home \<equiv> NamedKey 92"
abbreviation (input) K_PageUp :: KeyCode where
  "K_PageUp \<equiv> NamedKey 93"
abbreviation (input) K_DeleteForward :: KeyCode where
  "K_DeleteForward \<equiv> NamedKey 94"
abbreviation (input) K_End :: KeyCode where
  "K_End \<equiv> NamedKey 95"
abbreviation (input) K_PageDown :: KeyCode where
  "K_PageDown \<equiv> NamedKey 96"
abbreviation (input) K_ArrowRight :: KeyCode where
  "K_ArrowRight \<equiv> NamedKey 97"
abbreviation (input) K_ArrowLeft :: KeyCode where
  "K_ArrowLeft \<equiv> NamedKey 98"
abbreviation (input) K_ArrowDown :: KeyCode where
  "K_ArrowDown \<equiv> NamedKey 99"
abbreviation (input) K_ArrowUp :: KeyCode where
  "K_ArrowUp \<equiv> NamedKey 100"
abbreviation (input) K_NumLock :: KeyCode where
  "K_NumLock \<equiv> NamedKey 101"
abbreviation (input) K_NumpadDivide :: KeyCode where
  "K_NumpadDivide \<equiv> NamedKey 102"
abbreviation (input) K_NumpadMultiply :: KeyCode where
  "K_NumpadMultiply \<equiv> NamedKey 103"
abbreviation (input) K_NumpadSubtract :: KeyCode where
  "K_NumpadSubtract \<equiv> NamedKey 104"
abbreviation (input) K_NumpadAdd :: KeyCode where
  "K_NumpadAdd \<equiv> NamedKey 105"
abbreviation (input) K_NumpadEnter :: KeyCode where
  "K_NumpadEnter \<equiv> NamedKey 106"
abbreviation (input) K_Numpad1 :: KeyCode where
  "K_Numpad1 \<equiv> NamedKey 107"
abbreviation (input) K_Numpad2 :: KeyCode where
  "K_Numpad2 \<equiv> NamedKey 108"
abbreviation (input) K_Numpad3 :: KeyCode where
  "K_Numpad3 \<equiv> NamedKey 109"
abbreviation (input) K_Numpad4 :: KeyCode where
  "K_Numpad4 \<equiv> NamedKey 110"
abbreviation (input) K_Numpad5 :: KeyCode where
  "K_Numpad5 \<equiv> NamedKey 111"
abbreviation (input) K_Numpad6 :: KeyCode where
  "K_Numpad6 \<equiv> NamedKey 112"
abbreviation (input) K_Numpad7 :: KeyCode where
  "K_Numpad7 \<equiv> NamedKey 113"
abbreviation (input) K_Numpad8 :: KeyCode where
  "K_Numpad8 \<equiv> NamedKey 114"
abbreviation (input) K_Numpad9 :: KeyCode where
  "K_Numpad9 \<equiv> NamedKey 115"
abbreviation (input) K_Numpad0 :: KeyCode where
  "K_Numpad0 \<equiv> NamedKey 116"
abbreviation (input) K_NumpadDecimal :: KeyCode where
  "K_NumpadDecimal \<equiv> NamedKey 117"
abbreviation (input) K_NumpadEqual :: KeyCode where
  "K_NumpadEqual \<equiv> NamedKey 118"
abbreviation (input) K_NumpadComma :: KeyCode where
  "K_NumpadComma \<equiv> NamedKey 119"
abbreviation (input) K_NumpadParenLeft :: KeyCode where
  "K_NumpadParenLeft \<equiv> NamedKey 120"
abbreviation (input) K_NumpadParenRight :: KeyCode where
  "K_NumpadParenRight \<equiv> NamedKey 121"
abbreviation (input) K_IntlRo :: KeyCode where
  "K_IntlRo \<equiv> NamedKey 122"
abbreviation (input) K_IntlYen :: KeyCode where
  "K_IntlYen \<equiv> NamedKey 123"
abbreviation (input) K_KanaMode :: KeyCode where
  "K_KanaMode \<equiv> NamedKey 124"
abbreviation (input) K_Convert :: KeyCode where
  "K_Convert \<equiv> NamedKey 125"
abbreviation (input) K_NonConvert :: KeyCode where
  "K_NonConvert \<equiv> NamedKey 126"
abbreviation (input) K_Lang1 :: KeyCode where
  "K_Lang1 \<equiv> NamedKey 127"
abbreviation (input) K_Lang2 :: KeyCode where
  "K_Lang2 \<equiv> NamedKey 128"
abbreviation (input) K_Lang3 :: KeyCode where
  "K_Lang3 \<equiv> NamedKey 129"
abbreviation (input) K_Lang4 :: KeyCode where
  "K_Lang4 \<equiv> NamedKey 130"
abbreviation (input) K_Lang5 :: KeyCode where
  "K_Lang5 \<equiv> NamedKey 131"
abbreviation (input) K_Help :: KeyCode where
  "K_Help \<equiv> NamedKey 132"
abbreviation (input) K_Power :: KeyCode where
  "K_Power \<equiv> NamedKey 133"
abbreviation (input) K_Eject :: KeyCode where
  "K_Eject \<equiv> NamedKey 134"
abbreviation (input) K_AudioVolumeMute :: KeyCode where
  "K_AudioVolumeMute \<equiv> NamedKey 135"
abbreviation (input) K_AudioVolumeDown :: KeyCode where
  "K_AudioVolumeDown \<equiv> NamedKey 136"
abbreviation (input) K_AudioVolumeUp :: KeyCode where
  "K_AudioVolumeUp \<equiv> NamedKey 137"
abbreviation (input) K_MediaPlayPause :: KeyCode where
  "K_MediaPlayPause \<equiv> NamedKey 138"
abbreviation (input) K_MediaStop :: KeyCode where
  "K_MediaStop \<equiv> NamedKey 139"
abbreviation (input) K_MediaTrackNext :: KeyCode where
  "K_MediaTrackNext \<equiv> NamedKey 140"
abbreviation (input) K_MediaTrackPrevious :: KeyCode where
  "K_MediaTrackPrevious \<equiv> NamedKey 141"

definition is_modifier :: "KeyCode \<Rightarrow> bool" where
  "is_modifier k \<longleftrightarrow> k \<in> {K_ShiftLeft, K_ShiftRight, K_ControlLeft, K_ControlRight, K_AltLeft,
     K_AltRight, K_MetaLeft, K_MetaRight, K_FnKey}"

text \<open>The derived order: the discriminant first, then the fields.\<close>

fun key_rank :: "KeyCode \<Rightarrow> bool \<times> nat \<times> u16 \<times> u16" where
  "key_rank (NamedKey n) = (False, n, 0, 0)"
| "key_rank (Unidentified p u) = (True, 0, p, u)"

lemma key_rank_inj: "key_rank a = key_rank b \<longleftrightarrow> a = b"
  by (cases a; cases b) auto

instantiation KeyCode :: linorder
begin

definition less_eq_KeyCode :: "KeyCode \<Rightarrow> KeyCode \<Rightarrow> bool" where
  "less_eq_KeyCode a b \<longleftrightarrow> key_rank a \<le> key_rank b"

definition less_KeyCode :: "KeyCode \<Rightarrow> KeyCode \<Rightarrow> bool" where
  "less_KeyCode a b \<longleftrightarrow> key_rank a < key_rank b"

instance
proof
  fix a b c :: KeyCode
  show "a < b \<longleftrightarrow> a \<le> b \<and> \<not> b \<le> a"
    unfolding less_KeyCode_def less_eq_KeyCode_def by (rule less_le_not_le)
  show "a \<le> a"
    unfolding less_eq_KeyCode_def by (rule order_refl)
  show "a \<le> b \<Longrightarrow> b \<le> c \<Longrightarrow> a \<le> c"
    unfolding less_eq_KeyCode_def by (rule order_trans)
  show "a \<le> b \<Longrightarrow> b \<le> a \<Longrightarrow> a = b"
    unfolding less_eq_KeyCode_def using key_rank_inj antisym by blast
  show "a \<le> b \<or> b \<le> a"
    unfolding less_eq_KeyCode_def by (rule linear)
qed

end

section \<open>Input events\<close>

datatype KeyState = Pressed | Repeated | Released

datatype ButtonState = BtnPressed | BtnReleased

datatype PointerButton = Left | Right | Middle | Back | Forward | OtherButton u16

datatype InputPayload =
    Key (key_code: KeyCode) (key_state: KeyState)
  | PointerMove (move_dx: f64) (move_dy: f64)
  | PointerButton (pointer_button: PointerButton) (button_state: ButtonState)
  | Scroll (scroll_horizontal: f64) (scroll_vertical: f64)

fun payload_is_finite :: "InputPayload \<Rightarrow> bool" where
  "payload_is_finite (PointerMove dx dy) \<longleftrightarrow> f64_is_finite dx \<and> f64_is_finite dy"
| "payload_is_finite (Scroll h v) \<longleftrightarrow> f64_is_finite h \<and> f64_is_finite v"
| "payload_is_finite (Key _ _) \<longleftrightarrow> True"
| "payload_is_finite (PointerButton _ _) \<longleftrightarrow> True"

record InputEvent =
  ev_sequence :: u64
  ev_timestamp_ns :: u64
  ev_source_host :: HostId
  ev_source_device :: DeviceId
  ev_payload :: InputPayload

fun button_rank :: "PointerButton \<Rightarrow> nat \<times> u16" where
  "button_rank Left = (0, 0)"
| "button_rank Right = (1, 0)"
| "button_rank Middle = (2, 0)"
| "button_rank Back = (3, 0)"
| "button_rank Forward = (4, 0)"
| "button_rank (OtherButton n) = (5, n)"

lemma button_rank_inj: "button_rank a = button_rank b \<longleftrightarrow> a = b"
  by (cases a; cases b) auto

instantiation PointerButton :: linorder
begin

definition less_eq_PointerButton :: "PointerButton \<Rightarrow> PointerButton \<Rightarrow> bool" where
  "less_eq_PointerButton a b \<longleftrightarrow> button_rank a \<le> button_rank b"

definition less_PointerButton :: "PointerButton \<Rightarrow> PointerButton \<Rightarrow> bool" where
  "less_PointerButton a b \<longleftrightarrow> button_rank a < button_rank b"

instance
proof
  fix a b c :: PointerButton
  show "a < b \<longleftrightarrow> a \<le> b \<and> \<not> b \<le> a"
    unfolding less_PointerButton_def less_eq_PointerButton_def by (rule less_le_not_le)
  show "a \<le> a"
    unfolding less_eq_PointerButton_def by (rule order_refl)
  show "a \<le> b \<Longrightarrow> b \<le> c \<Longrightarrow> a \<le> c"
    unfolding less_eq_PointerButton_def by (rule order_trans)
  show "a \<le> b \<Longrightarrow> b \<le> a \<Longrightarrow> a = b"
    unfolding less_eq_PointerButton_def using button_rank_inj antisym by blast
  show "a \<le> b \<or> b \<le> a"
    unfolding less_eq_PointerButton_def by (rule linear)
qed

end

section \<open>The held-control set\<close>

record PressedState =
  held_keys :: "KeyCode set"
  held_buttons :: "PointerButton set"

definition PressedState_new :: PressedState where
  "PressedState_new = \<lparr>held_keys = {}, held_buttons = {}\<rparr>"

definition PressedState_is_empty :: "PressedState \<Rightarrow> bool" where
  "PressedState_is_empty s \<longleftrightarrow> held_keys s = {} \<and> held_buttons s = {}"

definition pressed_len :: "PressedState \<Rightarrow> nat" where
  "pressed_len s = card (held_keys s) + card (held_buttons s)"

definition key_is_pressed :: "PressedState \<Rightarrow> KeyCode \<Rightarrow> bool" where
  "key_is_pressed s k \<longleftrightarrow> k \<in> held_keys s"

definition button_is_pressed :: "PressedState \<Rightarrow> PointerButton \<Rightarrow> bool" where
  "button_is_pressed s b \<longleftrightarrow> b \<in> held_buttons s"

text \<open>The new state and whether the held set changed.\<close>

fun pressed_apply :: "InputPayload \<Rightarrow> PressedState \<Rightarrow> PressedState \<times> bool" where
  "pressed_apply (Key code Pressed) s = (s\<lparr>held_keys := insert code (held_keys s)\<rparr>, code \<notin> held_keys s)"
| "pressed_apply (Key code Repeated) s = (s, False)"
| "pressed_apply (Key code Released) s = (s\<lparr>held_keys := held_keys s - {code}\<rparr>, code \<in> held_keys s)"
| "pressed_apply (PointerButton b BtnPressed) s =
     (s\<lparr>held_buttons := insert b (held_buttons s)\<rparr>, b \<notin> held_buttons s)"
| "pressed_apply (PointerButton b BtnReleased) s =
     (s\<lparr>held_buttons := held_buttons s - {b}\<rparr>, b \<in> held_buttons s)"
| "pressed_apply (PointerMove _ _) s = (s, False)"
| "pressed_apply (Scroll _ _) s = (s, False)"

definition pressed_keys :: "PressedState \<Rightarrow> KeyCode list" where
  "pressed_keys s = map snd (sorted_list_of_set ((\<lambda>k. (is_modifier k, k)) ` held_keys s))"

definition pressed_buttons :: "PressedState \<Rightarrow> PointerButton list" where
  "pressed_buttons s = sorted_list_of_set (held_buttons s)"

definition take_release_payloads :: "PressedState \<Rightarrow> PressedState \<times> InputPayload list" where
  "take_release_payloads s =
     (s\<lparr>held_keys := {}, held_buttons := {}\<rparr>,
      map (\<lambda>k. Key k Released) (pressed_keys s)
      @ map (\<lambda>b. PointerButton b BtnReleased) (pressed_buttons s))"

section \<open>Lemmas on the held set\<close>

definition pressed_run :: "InputPayload list \<Rightarrow> PressedState \<Rightarrow> PressedState" where
  "pressed_run ps s = fold (\<lambda>p s. fst (pressed_apply p s)) ps s"

definition finite_held :: "PressedState \<Rightarrow> bool" where
  "finite_held s \<longleftrightarrow> finite (held_keys s) \<and> finite (held_buttons s)"

lemma pressed_run_simps [simp]:
  "pressed_run [] s = s"
  "pressed_run (p # ps) s = pressed_run ps (fst (pressed_apply p s))"
  "pressed_run (ps @ qs) s = pressed_run qs (pressed_run ps s)"
  by (simp_all add: pressed_run_def)

lemma PressedState_eqI:
  "held_keys a = held_keys b \<Longrightarrow> held_buttons a = held_buttons b \<Longrightarrow> a = (b :: PressedState)"
  by (cases a; cases b) simp

lemma pressed_apply_changed: "snd (pressed_apply p s) \<longleftrightarrow> fst (pressed_apply p s) \<noteq> s"
proof -
  have "s\<lparr>held_keys := K\<rparr> = s \<longleftrightarrow> K = held_keys s" "s\<lparr>held_buttons := B\<rparr> = s \<longleftrightarrow> B = held_buttons s" for K B
    by (cases s; simp)+
  then show ?thesis
    by (induction p s rule: pressed_apply.induct) auto
qed

lemma finite_held_apply: "finite_held s \<Longrightarrow> finite_held (fst (pressed_apply p s))"
  by (induction p s rule: pressed_apply.induct) (simp_all add: finite_held_def)

lemma finite_held_run: "finite_held s \<Longrightarrow> finite_held (pressed_run ps s)"
  by (induction ps arbitrary: s) (simp_all add: finite_held_apply)

text \<open>What the event stream says about one control: the last transition that names it.\<close>

fun key_effect :: "KeyCode \<Rightarrow> InputPayload \<Rightarrow> bool option" where
  "key_effect k (Key c Pressed) = (if c = k then Some True else None)"
| "key_effect k (Key c Released) = (if c = k then Some False else None)"
| "key_effect k _ = None"

fun button_effect :: "PointerButton \<Rightarrow> InputPayload \<Rightarrow> bool option" where
  "button_effect k (PointerButton c BtnPressed) = (if c = k then Some True else None)"
| "button_effect k (PointerButton c BtnReleased) = (if c = k then Some False else None)"
| "button_effect k _ = None"

definition last_effect :: "('p \<Rightarrow> bool option) \<Rightarrow> bool \<Rightarrow> 'p list \<Rightarrow> bool" where
  "last_effect eff b ps = fold (\<lambda>p b. case eff p of None \<Rightarrow> b | Some v \<Rightarrow> v) ps b"

lemma key_in_apply:
  "k \<in> held_keys (fst (pressed_apply p s)) \<longleftrightarrow>
   (case key_effect k p of None \<Rightarrow> k \<in> held_keys s | Some v \<Rightarrow> v)"
  by (induction p s rule: pressed_apply.induct) auto

lemma button_in_apply:
  "b \<in> held_buttons (fst (pressed_apply p s)) \<longleftrightarrow>
   (case button_effect b p of None \<Rightarrow> b \<in> held_buttons s | Some v \<Rightarrow> v)"
  by (induction p s rule: pressed_apply.induct) auto

lemma key_in_run:
  "k \<in> held_keys (pressed_run ps s) \<longleftrightarrow> last_effect (key_effect k) (k \<in> held_keys s) ps"
  by (induction ps arbitrary: s) (simp_all add: last_effect_def key_in_apply)

lemma button_in_run:
  "b \<in> held_buttons (pressed_run ps s) \<longleftrightarrow> last_effect (button_effect b) (b \<in> held_buttons s) ps"
  by (induction ps arbitrary: s) (simp_all add: last_effect_def button_in_apply)

lemma set_pressed_keys: "finite_held s \<Longrightarrow> set (pressed_keys s) = held_keys s"
  by (force simp: pressed_keys_def finite_held_def)

lemma set_pressed_buttons: "finite_held s \<Longrightarrow> set (pressed_buttons s) = held_buttons s"
  by (simp add: pressed_buttons_def finite_held_def)

lemma pressed_keys_sorted:
  "sorted (map (\<lambda>k. (is_modifier k, k)) (pressed_keys s))" and distinct_pressed_keys: "distinct (pressed_keys s)"
proof -
  let ?f = "\<lambda>k. (is_modifier k, k)"
  let ?l = "sorted_list_of_set (?f ` held_keys s)"
  have img: "set ?l \<subseteq> range ?f"
    by (cases "finite (?f ` held_keys s)") auto
  have "map ?f (map snd xs) = xs" if "set xs \<subseteq> range ?f" for xs
    using that by (induction xs) auto
  from this[OF img] show "sorted (map ?f (pressed_keys s))"
    by (simp add: pressed_keys_def)
  have "inj_on snd (range ?f)"
    by (auto simp: inj_on_def)
  then have "inj_on snd (set ?l)"
    using img by (rule inj_on_subset)
  then show "distinct (pressed_keys s)"
    by (simp add: pressed_keys_def distinct_map)
qed

lemma length_pressed_keys: "finite_held s \<Longrightarrow> length (pressed_keys s) = card (held_keys s)"
  using distinct_card[OF distinct_pressed_keys] set_pressed_keys by metis

lemma release_keys_run:
  "pressed_run (map (\<lambda>k. Key k Released) ks) s = s\<lparr>held_keys := held_keys s - set ks\<rparr>"
  by (induction ks arbitrary: s) (auto intro!: PressedState_eqI)

lemma release_buttons_run:
  "pressed_run (map (\<lambda>b. PointerButton b BtnReleased) bs) s = s\<lparr>held_buttons := held_buttons s - set bs\<rparr>"
  by (induction bs arbitrary: s) (auto intro!: PressedState_eqI)

lemma modifiers_after_ordinary:
  assumes "i < j" "j < length (pressed_keys s)" "is_modifier (pressed_keys s ! i)"
  shows "is_modifier (pressed_keys s ! j)"
  using assms sorted_nth_mono[OF pressed_keys_sorted[of s], of i j] by auto

section \<open>Properties\<close>

text \<open>
  after any sequence of input payloads, exactly those keys and buttons are held whose last
  press or release transition in the sequence was a press; repeats, motion and scrolling count
  for nothing.
\<close>

theorem held_iff_last_transition_press:
  "(key_is_pressed (pressed_run ps PressedState_new) k \<longleftrightarrow> last_effect (key_effect k) False ps) \<and>
   (button_is_pressed (pressed_run ps PressedState_new) b \<longleftrightarrow> last_effect (button_effect b) False ps)"
  using key_in_run[of k ps PressedState_new] button_in_run[of b ps PressedState_new]
  by (simp_all add: key_is_pressed_def button_is_pressed_def PressedState_new_def)

text \<open>
  C17: cleanup of a held set.  \<open>take_release_payloads\<close> leaves the set empty and returns one
  release for each held control and no other payload; every ordinary key is released before
  every modifier; and injecting the returned payloads brings the tracked set itself to empty, so
  no control stays held on the destination.
\<close>

theorem take_release_payloads_releases_exactly_held:
  assumes fin: "finite_held s" and taken: "take_release_payloads s = (s', rel)"
  shows "PressedState_is_empty s' \<and> pressed_run rel s = s' \<and> distinct rel \<and> length rel = pressed_len s
    \<and> set rel = (\<lambda>k. Key k Released) ` held_keys s \<union> (\<lambda>b. PointerButton b BtnReleased) ` held_buttons s
    \<and> (\<forall>i j. i < j \<longrightarrow> j < card (held_keys s) \<longrightarrow> is_modifier (key_code (rel ! i)) \<longrightarrow>
          is_modifier (key_code (rel ! j)))"
proof (intro conjI allI impI)
  let ?ks = "map (\<lambda>k. Key k Released) (pressed_keys s)"
  let ?bs = "map (\<lambda>b. PointerButton b BtnReleased) (pressed_buttons s)"
  have s': "s' = s\<lparr>held_keys := {}, held_buttons := {}\<rparr>" and rel: "rel = ?ks @ ?bs"
    using taken by (simp_all add: take_release_payloads_def)
  show "PressedState_is_empty s'"
    by (simp add: s' PressedState_is_empty_def)
  show "pressed_run rel s = s'"
    using fin by (simp add: rel s' release_keys_run release_buttons_run set_pressed_keys set_pressed_buttons)
  show "distinct rel"
    by (auto simp: rel distinct_map distinct_pressed_keys pressed_buttons_def inj_on_def)
  show "length rel = pressed_len s"
    using fin by (simp add: rel pressed_len_def length_pressed_keys pressed_buttons_def)
  show "set rel = (\<lambda>k. Key k Released) ` held_keys s \<union> (\<lambda>b. PointerButton b BtnReleased) ` held_buttons s"
    using fin by (simp add: rel set_pressed_keys set_pressed_buttons)
  fix i j
  assume "i < j" "j < card (held_keys s)" "is_modifier (key_code (rel ! i))"
  then show "is_modifier (key_code (rel ! j))"
    using fin modifiers_after_ordinary[of i j s] by (simp add: rel nth_append length_pressed_keys)
qed

theorem take_release_payloads_releases_exactly_held_witness:
  "let s = \<lparr>held_keys = {K_ControlLeft, K_KeyA}, held_buttons = {Left}\<rparr> in
   \<exists>s' rel. take_release_payloads s = (s', rel) \<and> finite_held s \<and> PressedState_is_empty s'
     \<and> pressed_run rel s = s' \<and> length rel = 3"
proof -
  let ?s = "\<lparr>held_keys = {K_ControlLeft, K_KeyA}, held_buttons = {Left}\<rparr>"
  obtain s' rel where t: "take_release_payloads ?s = (s', rel)"
    by fastforce
  have f: "finite_held ?s" by (simp add: finite_held_def)
  have "pressed_len ?s = 3" by (simp add: pressed_len_def)
  then show ?thesis
    using take_release_payloads_releases_exactly_held[OF f t] t f by (auto simp: Let_def)
qed

end
