(* ===== verification/Semantic.thy ===== *)
theory Semantic
  imports KeyInput
begin

text \<open>
  Semantic shortcuts (\<^verbatim>\<open>kvm-input/src/semantic.rs\<close>): the modifier snapshot folded from key
  transitions, the native binding of each command on each platform, recognition on the source
  host and translation for the destination host.
\<close>

section \<open>Model\<close>

datatype SemanticCommand = Copy | Paste | Cut | Undo | Redo | SelectAll | AppSwitch

record Modifiers =
  mod_control :: bool
  mod_alt :: bool
  mod_shift :: bool
  mod_meta :: bool

definition mods_none :: Modifiers where
  "mods_none = \<lparr>mod_control = False, mod_alt = False, mod_shift = False, mod_meta = False\<rparr>"

definition mods_control :: Modifiers where
  "mods_control = mods_none\<lparr>mod_control := True\<rparr>"

definition mods_alt :: Modifiers where
  "mods_alt = mods_none\<lparr>mod_alt := True\<rparr>"

definition mods_meta :: Modifiers where
  "mods_meta = mods_none\<lparr>mod_meta := True\<rparr>"

definition with_shift :: "Modifiers \<Rightarrow> Modifiers" where
  "with_shift m = m\<lparr>mod_shift := True\<rparr>"

definition Modifiers_apply :: "KeyCode \<Rightarrow> bool \<Rightarrow> Modifiers \<Rightarrow> Modifiers \<times> bool" where
  "Modifiers_apply code p m =
     (if code = K_ControlLeft \<or> code = K_ControlRight then (m\<lparr>mod_control := p\<rparr>, True)
      else if code = K_AltLeft \<or> code = K_AltRight then (m\<lparr>mod_alt := p\<rparr>, True)
      else if code = K_ShiftLeft \<or> code = K_ShiftRight then (m\<lparr>mod_shift := p\<rparr>, True)
      else if code = K_MetaLeft \<or> code = K_MetaRight then (m\<lparr>mod_meta := p\<rparr>, True)
      else (m, False))"

record Shortcut =
  sc_modifiers :: Modifiers
  sc_key :: KeyCode

definition shortcut :: "Modifiers \<Rightarrow> KeyCode \<Rightarrow> Shortcut" where
  "shortcut m k = \<lparr>sc_modifiers = m, sc_key = k\<rparr>"

fun native_binding :: "SemanticCommand \<Rightarrow> Platform \<Rightarrow> Shortcut" where
  "native_binding Copy MacOS = shortcut mods_meta K_KeyC"
| "native_binding Paste MacOS = shortcut mods_meta K_KeyV"
| "native_binding Cut MacOS = shortcut mods_meta K_KeyX"
| "native_binding Undo MacOS = shortcut mods_meta K_KeyZ"
| "native_binding Redo MacOS = shortcut (with_shift mods_meta) K_KeyZ"
| "native_binding SelectAll MacOS = shortcut mods_meta K_KeyA"
| "native_binding AppSwitch MacOS = shortcut mods_meta K_Tab"
| "native_binding Copy Windows = shortcut mods_control K_KeyC"
| "native_binding Paste Windows = shortcut mods_control K_KeyV"
| "native_binding Cut Windows = shortcut mods_control K_KeyX"
| "native_binding Undo Windows = shortcut mods_control K_KeyZ"
| "native_binding Redo Windows = shortcut mods_control K_KeyY"
| "native_binding SelectAll Windows = shortcut mods_control K_KeyA"
| "native_binding AppSwitch Windows = shortcut mods_alt K_Tab"

definition SEMANTIC_COMMANDS :: "SemanticCommand list" where
  "SEMANTIC_COMMANDS = [Copy, Paste, Cut, Undo, Redo, SelectAll, AppSwitch]"

definition resolve :: "Modifiers \<Rightarrow> KeyCode \<Rightarrow> Platform \<Rightarrow> SemanticCommand option" where
  "resolve m k source =
     List.find (\<lambda>c. sc_modifiers (native_binding c source) = m \<and> sc_key (native_binding c source) = k)
       SEMANTIC_COMMANDS"

definition translate :: "SemanticCommand \<Rightarrow> Platform \<Rightarrow> Shortcut" where
  "translate c destination = native_binding c destination"

record ModifierTracker =
  tracker_modifiers :: Modifiers

definition ModifierTracker_new :: ModifierTracker where
  "ModifierTracker_new = \<lparr>tracker_modifiers = mods_none\<rparr>"

definition tracker_apply :: "KeyCode \<Rightarrow> bool \<Rightarrow> ModifierTracker \<Rightarrow> ModifierTracker \<times> bool" where
  "tracker_apply code p t =
     (let (m, r) = Modifiers_apply code p (tracker_modifiers t) in (t\<lparr>tracker_modifiers := m\<rparr>, r))"

section \<open>Lemmas\<close>

lemmas modifier_defs = mods_none_def mods_control_def mods_alt_def mods_meta_def with_shift_def
  shortcut_def

lemma native_binding_inj: "native_binding c p = native_binding d p \<longleftrightarrow> c = d"
  by (cases p; cases c; cases d) (simp_all add: modifier_defs)

lemma SEMANTIC_COMMANDS_complete: "c \<in> set SEMANTIC_COMMANDS"
  by (cases c) (simp_all add: SEMANTIC_COMMANDS_def)

lemma binding_matches_iff:
  "sc_modifiers (native_binding c p) = m \<and> sc_key (native_binding c p) = k \<longleftrightarrow>
   native_binding c p = shortcut m k"
  by (cases "native_binding c p") (auto simp: shortcut_def)

lemma native_binding_no_plain_key: "sc_modifiers (native_binding c p) \<noteq> mods_none"
  by (cases p; cases c) (simp_all add: modifier_defs)

section \<open>Properties\<close>

text \<open>
  recognition is exact and is the inverse of translation: on a platform a modifier snapshot
  and key resolve to a command precisely when they are that command's native binding, so every
  command round-trips and a shortcut with an extra or a missing modifier resolves to nothing.
\<close>

theorem resolve_iff_native_binding:
  "resolve m k p = Some c \<longleftrightarrow> translate c p = shortcut m k"
proof
  assume "resolve m k p = Some c"
  then show "translate c p = shortcut m k"
    by (auto simp: resolve_def find_Some_iff translate_def binding_matches_iff)
next
  assume t: "translate c p = shortcut m k"
  have "resolve m k p \<noteq> None"
    using t SEMANTIC_COMMANDS_complete[of c]
    by (auto simp: resolve_def find_None_iff binding_matches_iff translate_def)
  then obtain d where d: "resolve m k p = Some d" by blast
  then have "native_binding d p = shortcut m k"
    by (auto simp: resolve_def find_Some_iff binding_matches_iff)
  with t have "d = c"
    by (metis native_binding_inj translate_def)
  with d show "resolve m k p = Some c" by simp
qed

end
