(* ===== verification/Router.thy ===== *)
theory Router
  imports KeyInput
begin

text \<open>
  Per-device routing (\<^verbatim>\<open>kvm-router/src/lib.rs\<close>): the bounded table of configured routes, its
  construction, mutation and deserialization, and the decision where a captured event goes.
  The \<^verbatim>\<open>InputRouter\<close> trait is the locale \<open>input_router\<close>; the table interprets it.
\<close>

section \<open>Model\<close>

definition MAX_DEVICE_ROUTES :: nat where
  "MAX_DEVICE_ROUTES = 1024"

datatype RoutingTableError = InvalidDevice | InvalidTarget | DuplicateDevice | CapacityExceeded

datatype Destination = LocalDest | RemoteDest HostId

record RoutingTable =
  table_routes :: "(DeviceId, DeviceRoute) hash_map"

definition RoutingTable_new :: RoutingTable where
  "RoutingTable_new = \<lparr>table_routes = []\<rparr>"

definition validate_entry :: "DeviceId \<Rightarrow> DeviceRoute \<Rightarrow> (RoutingTableError, unit) result" where
  "validate_entry device route =
     (if device = nil_id then Inl InvalidDevice
      else if route = RouteHost nil_id then Inl InvalidTarget
      else Inr ())"

fun try_from_routes_loop ::
  "(DeviceId \<times> DeviceRoute) list \<Rightarrow> RoutingTable \<Rightarrow> (RoutingTableError, RoutingTable) result" where
  "try_from_routes_loop [] table = Inr table"
| "try_from_routes_loop ((device, route) # rest) table =
     and_then (validate_entry device route) (\<lambda>_.
       if contains_key (table_routes table) device then Inl DuplicateDevice
       else if MAX_DEVICE_ROUTES \<le> length (table_routes table) then Inl CapacityExceeded
       else try_from_routes_loop rest
              (table\<lparr>table_routes := AList.update device route (table_routes table)\<rparr>))"

definition try_from_routes ::
  "(DeviceId \<times> DeviceRoute) list \<Rightarrow> (RoutingTableError, RoutingTable) result" where
  "try_from_routes rs = try_from_routes_loop rs RoutingTable_new"

definition set_route ::
  "DeviceId \<Rightarrow> DeviceRoute \<Rightarrow> RoutingTable \<Rightarrow>
   RoutingTable \<times> (RoutingTableError, DeviceRoute option) result" where
  "set_route device route table =
     (case validate_entry device route of
        Inl e \<Rightarrow> (table, Inl e)
      | Inr _ \<Rightarrow>
          if \<not> contains_key (table_routes table) device
             \<and> MAX_DEVICE_ROUTES \<le> length (table_routes table)
          then (table, Inl CapacityExceeded)
          else (table\<lparr>table_routes := AList.update device route (table_routes table)\<rparr>,
                Inr (map_of (table_routes table) device)))"

definition remove_route :: "DeviceId \<Rightarrow> RoutingTable \<Rightarrow> RoutingTable \<times> DeviceRoute option" where
  "remove_route device table =
     (table\<lparr>table_routes := AList.delete device (table_routes table)\<rparr>,
      map_of (table_routes table) device)"

definition configured_route :: "RoutingTable \<Rightarrow> DeviceId \<Rightarrow> DeviceRoute option" where
  "configured_route table device = map_of (table_routes table) device"

definition route_for :: "RoutingTable \<Rightarrow> DeviceId \<Rightarrow> DeviceRoute" where
  "route_for table device =
     (case map_of (table_routes table) device of Some r \<Rightarrow> r | None \<Rightarrow> FollowActiveHost)"

definition table_len :: "RoutingTable \<Rightarrow> nat" where
  "table_len table = length (table_routes table)"

definition table_clear :: "RoutingTable \<Rightarrow> RoutingTable" where
  "table_clear table = table\<lparr>table_routes := []\<rparr>"

definition destination_for_device :: "RoutingTable \<Rightarrow> DeviceId \<Rightarrow> WorkspaceState \<Rightarrow> Destination" where
  "destination_for_device table device state =
     (if active_host state = nil_id \<or> local_host state = nil_id then LocalDest
      else case route_for table device of
          RouteLocal \<Rightarrow> LocalDest
        | FollowActiveHost \<Rightarrow>
            (if active_host state = local_host state then LocalDest else RemoteDest (active_host state))
        | RouteHost host \<Rightarrow>
            (if host = local_host state then LocalDest else RemoteDest host))"

definition destination :: "RoutingTable \<Rightarrow> InputEvent \<Rightarrow> WorkspaceState \<Rightarrow> Destination" where
  "destination table event state = destination_for_device table (ev_source_device event) state"

text \<open>
  Deserialization.  The deserializer hands the visitor a sequence of entries, each of which may
  fail to decode (\<open>None\<close>); every rejection is the same opaque error.
\<close>

datatype de_error = MalformedEntry | InvalidPolicy | MissingField

fun visit_bounded_routes ::
  "(DeviceId \<times> DeviceRoute) option list \<Rightarrow> (DeviceId, DeviceRoute) hash_map \<Rightarrow>
   (de_error, (DeviceId, DeviceRoute) hash_map) result" where
  "visit_bounded_routes [] routes = Inr routes"
| "visit_bounded_routes (None # rest) routes = Inl MalformedEntry"
| "visit_bounded_routes (Some (device, route) # rest) routes =
     and_then (map_err (\<lambda>_. InvalidPolicy) (validate_entry device route)) (\<lambda>_.
       if contains_key routes device \<or> MAX_DEVICE_ROUTES \<le> length routes then Inl InvalidPolicy
       else visit_bounded_routes rest (AList.update device route routes))"

datatype RoutingTableField = RoutesField "(DeviceId \<times> DeviceRoute) option list" | OtherField

fun visit_routing_table ::
  "RoutingTableField list \<Rightarrow> (DeviceId, DeviceRoute) hash_map option \<Rightarrow>
   (de_error, RoutingTable) result" where
  "visit_routing_table [] routes =
     (case routes of None \<Rightarrow> Inl MissingField | Some r \<Rightarrow> Inr \<lparr>table_routes = r\<rparr>)"
| "visit_routing_table (RoutesField entries # rest) routes =
     (if routes \<noteq> None then Inl InvalidPolicy
      else and_then (visit_bounded_routes entries []) (\<lambda>r. visit_routing_table rest (Some r)))"
| "visit_routing_table (OtherField # rest) routes = visit_routing_table rest routes"

section \<open>Invariant\<close>

definition valid_entry :: "DeviceId \<times> DeviceRoute \<Rightarrow> bool" where
  "valid_entry e \<longleftrightarrow> fst e \<noteq> nil_id \<and> snd e \<noteq> RouteHost nil_id"

definition routes_inv :: "(DeviceId, DeviceRoute) hash_map \<Rightarrow> bool" where
  "routes_inv m \<longleftrightarrow> distinct_keys m \<and> length m \<le> MAX_DEVICE_ROUTES \<and> list_all valid_entry m"

definition table_inv :: "RoutingTable \<Rightarrow> bool" where
  "table_inv table \<longleftrightarrow> routes_inv (table_routes table)"

datatype router_op = SetRoute DeviceId DeviceRoute | RemoveRoute DeviceId | ClearRoutes

fun router_step :: "router_op \<Rightarrow> RoutingTable \<Rightarrow> RoutingTable" where
  "router_step (SetRoute d r) t = fst (set_route d r t)"
| "router_step (RemoveRoute d) t = fst (remove_route d t)"
| "router_step ClearRoutes t = table_clear t"

lemma validate_entry_ok [simp]: "validate_entry d r = Inr u \<longleftrightarrow> valid_entry (d, r)"
  by (simp add: validate_entry_def valid_entry_def)

lemma list_all_valid_update:
  "list_all valid_entry m \<Longrightarrow> valid_entry (d, r) \<Longrightarrow> list_all valid_entry (AList.update d r m)"
  using set_update_subset[of d r m] by (auto simp: list_all_iff)

lemma routes_inv_insert:
  assumes "routes_inv m" "valid_entry (d, r)"
    and "contains_key m d \<or> length m < MAX_DEVICE_ROUTES"
  shows "routes_inv (AList.update d r m)"
  using assms by (auto simp: routes_inv_def list_all_valid_update length_update distinct_keys_update)

lemma routes_inv_Nil [simp]: "routes_inv []"
  by (simp add: routes_inv_def)

lemma table_inv_new: "table_inv RoutingTable_new"
  by (simp add: table_inv_def RoutingTable_new_def)

lemma table_inv_step: "table_inv t \<Longrightarrow> table_inv (router_step op t)"
proof (induction op t rule: router_step.induct)
  case (1 d r t)
  then show ?case
    by (auto simp: set_route_def table_inv_def not_le split: sum.splits intro!: routes_inv_insert)
next
  case (2 d t)
  then show ?case
    using length_delete_le[of d "table_routes t"] set_delete_subset[of d "table_routes t"]
    by (auto simp: remove_route_def table_inv_def routes_inv_def list_all_iff)
next
  case (3 t)
  then show ?case
    by (simp add: table_clear_def table_inv_def)
qed

interpretation routing_table: invariant_component router_step table_inv RoutingTable_new
  by unfold_locales (simp_all add: table_inv_new table_inv_step)

section \<open>The router interface\<close>

text \<open>
  What a client of the \<^verbatim>\<open>InputRouter\<close> trait may rely on: a remote destination is a real host
  other than this one, and a workspace with a nil host keeps input local.
\<close>

locale input_router =
  fixes dest :: "'r \<Rightarrow> InputEvent \<Rightarrow> WorkspaceState \<Rightarrow> Destination"
    and wf :: "'r \<Rightarrow> bool"
  assumes remote_is_foreign:
      "wf r \<Longrightarrow> dest r e s = RemoteDest h \<Longrightarrow> h \<noteq> nil_id \<and> h \<noteq> local_host s"
    and nil_is_local: "active_host s = nil_id \<or> local_host s = nil_id \<Longrightarrow> dest r e s = LocalDest"
begin

definition remote_targets :: "'r \<Rightarrow> WorkspaceState \<Rightarrow> InputEvent list \<Rightarrow> HostId set" where
  "remote_targets r s es = {h. \<exists>e\<in>set es. dest r e s = RemoteDest h}"

lemma remote_targets_foreign:
  "wf r \<Longrightarrow> nil_id \<notin> remote_targets r s es \<and> local_host s \<notin> remote_targets r s es"
  using remote_is_foreign by (auto simp: remote_targets_def)

lemma remote_targets_nil_workspace:
  "active_host s = nil_id \<or> local_host s = nil_id \<Longrightarrow> remote_targets r s es = {}"
  by (auto simp: remote_targets_def nil_is_local)

end

lemma route_for_valid: "table_inv t \<Longrightarrow> route_for t d \<noteq> RouteHost nil_id"
  by (auto simp: table_inv_def routes_inv_def list_all_iff valid_entry_def route_for_def
      split: option.splits dest!: map_of_SomeD)

interpretation table_router: input_router destination table_inv
proof
  fix r e h and s :: WorkspaceState
  assume "table_inv r" "destination r e s = RemoteDest h"
  then show "h \<noteq> nil_id \<and> h \<noteq> local_host s"
    using route_for_valid[of r "ev_source_device e"]
    by (auto simp: destination_def destination_for_device_def split: if_splits DeviceRoute.splits)
next
  fix r e and s :: WorkspaceState
  assume "active_host s = nil_id \<or> local_host s = nil_id"
  then show "destination r e s = LocalDest"
    by (simp add: destination_def destination_for_device_def)
qed

section \<open>Construction\<close>

lemma try_from_routes_loop_ok:
  assumes "routes_inv (table_routes t)"
  shows "try_from_routes_loop rs t = Inr t' \<longleftrightarrow>
     list_all valid_entry rs \<and> distinct (map fst rs)
     \<and> fst ` set rs \<inter> fst ` set (table_routes t) = {}
     \<and> length (table_routes t) + length rs \<le> MAX_DEVICE_ROUTES
     \<and> t' = t\<lparr>table_routes := foldl (\<lambda>m (d, r). AList.update d r m) (table_routes t) rs\<rparr>"
  using assms
proof (induction rs arbitrary: t)
  case Nil
  then show ?case by (auto simp: routes_inv_def)
next
  case (Cons e rs)
  obtain d r where e: "e = (d, r)" by fastforce
  show ?case
  proof (cases "valid_entry (d, r) \<and> \<not> contains_key (table_routes t) d
      \<and> length (table_routes t) < MAX_DEVICE_ROUTES")
    case False
    then show ?thesis
      by (auto simp: e contains_key_iff not_less split: if_splits)
  next
    case True
    let ?t = "t\<lparr>table_routes := AList.update d r (table_routes t)\<rparr>"
    have inv: "routes_inv (table_routes ?t)"
      using True Cons.prems by (simp add: routes_inv_insert)
    have "d \<notin> fst ` set (table_routes t)"
      using True by (simp add: contains_key_iff)
    then have keys: "fst ` set rs \<inter> insert d (fst ` set (table_routes t)) = {} \<longleftrightarrow>
        d \<notin> fst ` set rs \<and> insert d (fst ` set rs) \<inter> fst ` set (table_routes t) = {}"
      by blast
    have "try_from_routes_loop (e # rs) t = try_from_routes_loop rs ?t"
      using True by (simp add: e not_le validate_entry_def valid_entry_def)
    with True Cons.IH[OF inv] keys show ?thesis
      by (simp add: e length_update keys_update) blast
  qed
qed

lemma try_from_routes_loop_inv:
  "routes_inv (table_routes t) \<Longrightarrow> try_from_routes_loop rs t = Inr t' \<Longrightarrow> routes_inv (table_routes t')"
  by (induction rs t rule: try_from_routes_loop.induct)
    (auto simp: not_le intro!: routes_inv_insert split: if_splits)

lemma map_of_rev_distinct: "distinct (map fst rs) \<Longrightarrow> map_of (rev rs) k = map_of rs k"
  by (metis map_of_inject_set distinct_rev rev_map set_rev)

lemma map_of_foldl_update:
  "map_of (foldl (\<lambda>m (d, r). AList.update d r m) m rs) = map_of m ++ map_of (rev rs)"
  by (induction rs arbitrary: m) (auto simp: update_conv')

lemma visit_bounded_routes_eq:
  assumes "routes_inv (table_routes t)"
  shows "visit_bounded_routes (map Some rs) (table_routes t) =
     map_err (\<lambda>_. InvalidPolicy) (map_sum id table_routes (try_from_routes_loop rs t))"
  using assms
proof (induction rs t rule: try_from_routes_loop.induct)
  case (2 d r rest t)
  show ?case
  proof (cases "valid_entry (d, r) \<and> \<not> contains_key (table_routes t) d
      \<and> length (table_routes t) < MAX_DEVICE_ROUTES")
    case True
    then have "routes_inv (AList.update d r (table_routes t))"
      using 2 by (simp add: routes_inv_insert)
    moreover have v: "validate_entry d r = Inr ()" using True by simp
    ultimately show ?thesis
      using "2.IH" True by (simp add: not_le v)
  next
    case False
    then show ?thesis
      by (auto simp: validate_entry_def valid_entry_def not_less simp del: validate_entry_ok)
  qed
qed simp

section \<open>Properties\<close>

text \<open>
  after any sequence of table operations, input is sent to a remote host only when both
  workspace hosts are real, and then exactly to the configured host or, for devices that follow
  the pointer, to the active host; never to the nil host and never to this host itself.
\<close>

theorem routed_remote_iff:
  assumes "t = fold router_step ops RoutingTable_new"
  shows "(destination t e s = RemoteDest h \<longleftrightarrow>
      active_host s \<noteq> nil_id \<and> local_host s \<noteq> nil_id \<and> h \<noteq> local_host s
      \<and> (configured_route t (ev_source_device e) = Some (RouteHost h)
         \<or> h = active_host s \<and> route_for t (ev_source_device e) = FollowActiveHost))
    \<and> (destination t e s = RemoteDest h \<longrightarrow> h \<noteq> nil_id \<and> h \<noteq> local_host s)"
proof
  have cfg: "configured_route t d = Some (RouteHost h) \<longleftrightarrow> route_for t d = RouteHost h" for d
    by (auto simp: route_for_def configured_route_def split: option.splits)
  show "destination t e s = RemoteDest h \<longleftrightarrow>
      active_host s \<noteq> nil_id \<and> local_host s \<noteq> nil_id \<and> h \<noteq> local_host s
      \<and> (configured_route t (ev_source_device e) = Some (RouteHost h)
         \<or> h = active_host s \<and> route_for t (ev_source_device e) = FollowActiveHost)"
    unfolding cfg
    by (auto simp: destination_def destination_for_device_def split: DeviceRoute.splits)
  have "table_inv t"
    unfolding assms by (rule routing_table.inv_run)
  then show "destination t e s = RemoteDest h \<longrightarrow> h \<noteq> nil_id \<and> h \<noteq> local_host s"
    using table_router.remote_is_foreign by blast
qed

theorem routed_remote_iff_witness:
  "let t = fold router_step [SetRoute 7 (RouteHost 3), SetRoute 8 RouteLocal, RemoveRoute 8] RoutingTable_new;
       s = WorkspaceState_new 1 2 \<lparr>lp_display_id = 5, lp_x = 0, lp_y = 0\<rparr>;
       e = \<lparr>ev_sequence = 1, ev_timestamp_ns = 1, ev_source_host = 1, ev_source_device = 7,
            ev_payload = PointerMove 0 0\<rparr> in
   destination t e s = RemoteDest 3 \<and> (3 :: HostId) \<noteq> local_host s"
  using routed_remote_iff[OF refl, of
      "[SetRoute 7 (RouteHost 3), SetRoute 8 RouteLocal, RemoveRoute 8]"
      "\<lparr>ev_sequence = 1, ev_timestamp_ns = 1, ev_source_host = 1, ev_source_device = 7,
        ev_payload = PointerMove 0 0\<rparr>"
      "WorkspaceState_new 1 2 \<lparr>lp_display_id = 5, lp_x = 0, lp_y = 0\<rparr>" 3]
  by (simp add: Let_def WorkspaceState_new_def configured_route_def set_route_def remove_route_def
      RoutingTable_new_def validate_entry_def contains_key_def MAX_DEVICE_ROUTES_def)

text \<open>
  construction from configured overrides succeeds exactly on inputs without nil identifiers
  or duplicate devices and within the bound; the table then answers every lookup like the input
  list, and reading the same entries through the deserializer gives the same table or an error in
  the same cases.
\<close>

theorem try_from_routes_correct:
  "(\<forall>t. try_from_routes rs = Inr t \<longrightarrow> table_inv t \<and> configured_route t = map_of rs) \<and>
   ((\<exists>t. try_from_routes rs = Inr t) \<longleftrightarrow>
      list_all valid_entry rs \<and> distinct (map fst rs) \<and> length rs \<le> MAX_DEVICE_ROUTES) \<and>
   (\<forall>t. visit_routing_table [RoutesField (map Some rs)] None = Inr t \<longleftrightarrow> try_from_routes rs = Inr t)"
proof (intro conjI allI impI)
  have inv0: "routes_inv (table_routes RoutingTable_new)"
    by (simp add: RoutingTable_new_def)
  note ok = try_from_routes_loop_ok[OF inv0, folded try_from_routes_def]
  show "(\<exists>t. try_from_routes rs = Inr t) \<longleftrightarrow>
      list_all valid_entry rs \<and> distinct (map fst rs) \<and> length rs \<le> MAX_DEVICE_ROUTES"
    by (auto simp: ok RoutingTable_new_def)
  fix t
  show "visit_routing_table [RoutesField (map Some rs)] None = Inr t \<longleftrightarrow> try_from_routes rs = Inr t"
    using visit_bounded_routes_eq[OF inv0, of rs, folded try_from_routes_def]
    by (cases "try_from_routes rs") (auto simp: RoutingTable_new_def)
  assume t: "try_from_routes rs = Inr t"
  then have "distinct (map fst rs)" and
    routes: "table_routes t = foldl (\<lambda>m (d, r). AList.update d r m) [] rs"
    by (auto simp: ok RoutingTable_new_def)
  then show "configured_route t = map_of rs"
    by (simp add: configured_route_def map_of_foldl_update routes map_of_rev_distinct fun_eq_iff)
  show "table_inv t"
    using t try_from_routes_loop_inv[OF inv0] by (simp add: try_from_routes_def table_inv_def)
qed

theorem try_from_routes_correct_witness:
  "\<exists>t. try_from_routes [(7, RouteHost 3), (8, RouteLocal)] = Inr t \<and> table_inv t
     \<and> configured_route t 8 = Some RouteLocal"
  using try_from_routes_correct[of "[(7, RouteHost 3), (8, RouteLocal)]"]
  by (auto simp: valid_entry_def MAX_DEVICE_ROUTES_def)

text \<open>
  \<open>set_route\<close> is transactional.  It succeeds exactly for a valid entry that either
  replaces an existing one or fits the bound, then changes that one device and reports its
  previous route; otherwise the table is unchanged and the error names the reason.
\<close>

theorem set_route_transactional:
  assumes "set_route d r t = (t', res)"
  shows "(is_ok res \<longleftrightarrow> valid_entry (d, r)
            \<and> (configured_route t d \<noteq> None \<or> table_len t < MAX_DEVICE_ROUTES))
    \<and> (if is_ok res
       then configured_route t' = (configured_route t)(d \<mapsto> r) \<and> res = Inr (configured_route t d)
       else t' = t \<and> res = Inl (if d = nil_id then InvalidDevice
                                else if r = RouteHost nil_id then InvalidTarget else CapacityExceeded))"
  using assms
  by (auto simp: set_route_def validate_entry_def valid_entry_def configured_route_def table_len_def
      contains_key_def map_of_update split: if_splits)

theorem set_route_transactional_witness:
  "let (t', res) = set_route 7 (RouteHost 0) RoutingTable_new in
   t' = RoutingTable_new \<and> res = Inl InvalidTarget"
  using set_route_transactional[of 7 "RouteHost 0" RoutingTable_new]
  by (auto simp: valid_entry_def split: prod.splits)

end
