(* ===== verification/Topology.thy ===== *)
theory Topology
  imports KvmTypes
begin

text \<open>
  The display topology of \<^verbatim>\<open>crates/kvm-topology/src/lib.rs\<close>: validated placements in a shared
  logical workspace, lookup of the display under a point, edge adjacency with a floating-point
  tolerance, and the mapping of a normalized edge position onto the destination display.  All
  coordinates are the binary64 values of \<^verbatim>\<open>F64\<close>, so every bound below holds for the rounded
  arithmetic of the program and not only for the reals.
\<close>

definition GEOMETRY_EPSILON :: f64 where
  "GEOMETRY_EPSILON = 0x3E112E0BE826D695"

record WorkspaceDisplay =
  wd_display :: Display
  workspace_bounds :: Rect

datatype TopologyError = InvalidDisplay DisplayId | InvalidWorkspaceBounds DisplayId

record PointerTransition =
  pt_display_id :: DisplayId
  pt_entry_edge :: Edge
  pt_workspace_point :: Point
  pt_local_point :: Point
  pt_normalized_position :: f64

record WorkspaceTopology =
  displays :: "(DisplayId, WorkspaceDisplay) hash_map"

section \<open>Geometry helpers\<close>

definition valid_bounds :: "Rect \<Rightarrow> bool" where
  "valid_bounds b \<longleftrightarrow> Rect_is_valid b \<and> f64_lt f64_zero (rect_width b) \<and> f64_lt f64_zero (rect_height b)"

definition valid_position :: "f64 \<Rightarrow> bool" where
  "valid_position p \<longleftrightarrow> f64_is_finite p \<and> f64_le f64_zero p \<and> f64_le p f64_one"

definition close :: "f64 \<Rightarrow> f64 \<Rightarrow> bool" where
  "close l r \<longleftrightarrow> f64_le (f64_abs (f64_sub l r)) GEOMETRY_EPSILON"

fun touches :: "Rect \<Rightarrow> Rect \<Rightarrow> Edge \<Rightarrow> bool" where
  "touches source candidate LeftEdge = close (max_x candidate) (min_x source)"
| "touches source candidate RightEdge = close (min_x candidate) (max_x source)"
| "touches source candidate TopEdge = close (max_y candidate) (min_y source)"
| "touches source candidate BottomEdge = close (min_y candidate) (max_y source)"

fun is_vertical :: "Edge \<Rightarrow> bool" where
  "is_vertical LeftEdge = True"
| "is_vertical RightEdge = True"
| "is_vertical TopEdge = False"
| "is_vertical BottomEdge = False"

definition perpendicular_coordinate :: "Rect \<Rightarrow> Edge \<Rightarrow> f64 \<Rightarrow> f64" where
  "perpendicular_coordinate b edge position =
     (if is_vertical edge then f64_add (min_y b) (f64_mul position (rect_height b))
      else f64_add (min_x b) (f64_mul position (rect_width b)))"

definition covers :: "Rect \<Rightarrow> Edge \<Rightarrow> f64 \<Rightarrow> bool \<Rightarrow> bool" where
  "covers b edge coordinate terminal =
     (let (start, stop) = (if is_vertical edge then (min_y b, max_y b) else (min_x b, max_x b)) in
      f64_le (f64_sub start GEOMETRY_EPSILON) coordinate
      \<and> (f64_lt coordinate (f64_sub stop GEOMETRY_EPSILON) \<or> terminal \<and> close coordinate stop))"

definition point_is_on_edge :: "Rect \<Rightarrow> Edge \<Rightarrow> Point \<Rightarrow> bool" where
  "point_is_on_edge b edge p =
     (let (on_line, coordinate, start, stop) = (case edge of
        LeftEdge \<Rightarrow> (close (point_x p) (min_x b), point_y p, min_y b, max_y b)
      | RightEdge \<Rightarrow> (close (point_x p) (max_x b), point_y p, min_y b, max_y b)
      | TopEdge \<Rightarrow> (close (point_y p) (min_y b), point_x p, min_x b, max_x b)
      | BottomEdge \<Rightarrow> (close (point_y p) (max_y b), point_x p, min_x b, max_x b)) in
      on_line \<and> f64_le (f64_sub start GEOMETRY_EPSILON) coordinate
      \<and> f64_le coordinate (f64_add stop GEOMETRY_EPSILON))"

fun point_at :: "Rect \<Rightarrow> Edge \<Rightarrow> f64 \<Rightarrow> Point" where
  "point_at b LeftEdge p = Point_new (min_x b) (f64_add (min_y b) (f64_mul p (rect_height b)))"
| "point_at b RightEdge p = Point_new (max_x b) (f64_add (min_y b) (f64_mul p (rect_height b)))"
| "point_at b TopEdge p = Point_new (f64_add (min_x b) (f64_mul p (rect_width b))) (min_y b)"
| "point_at b BottomEdge p = Point_new (f64_add (min_x b) (f64_mul p (rect_width b))) (max_y b)"

section \<open>Construction\<close>

definition WorkspaceDisplay_new :: "Display \<Rightarrow> Rect \<Rightarrow> (TopologyError, WorkspaceDisplay) result" where
  "WorkspaceDisplay_new d b =
     (if \<not> Display_is_valid d then Inl (InvalidDisplay (disp_id d))
      else if \<not> valid_bounds b then Inl (InvalidWorkspaceBounds (disp_id d))
      else Inr \<lparr>wd_display = d, workspace_bounds = b\<rparr>)"

definition WorkspaceTopology_new :: WorkspaceTopology where
  "WorkspaceTopology_new = \<lparr>displays = []\<rparr>"

text \<open>\<open>topology_insert\<close> returns the replaced placement together with the updated topology.\<close>

definition topology_insert ::
  "WorkspaceDisplay \<Rightarrow> WorkspaceTopology \<Rightarrow>
   (TopologyError, WorkspaceDisplay option) result \<times> WorkspaceTopology" where
  "topology_insert wd t =
     (let id = disp_id (wd_display wd) in
      if \<not> Display_is_valid (wd_display wd) then (Inl (InvalidDisplay id), t)
      else if \<not> valid_bounds (workspace_bounds wd) then (Inl (InvalidWorkspaceBounds id), t)
      else (Inr (map_of (displays t) id), t\<lparr>displays := AList.update id wd (displays t)\<rparr>))"

fun from_displays_loop ::
  "WorkspaceDisplay list \<Rightarrow> WorkspaceTopology \<Rightarrow> (TopologyError, WorkspaceTopology) result" where
  "from_displays_loop [] t = Inr t"
| "from_displays_loop (wd # rest) t =
     (case topology_insert wd t of
        (Inl e, _) \<Rightarrow> Inl e
      | (Inr _, t') \<Rightarrow> from_displays_loop rest t')"

definition from_displays :: "WorkspaceDisplay list \<Rightarrow> (TopologyError, WorkspaceTopology) result" where
  "from_displays ds = from_displays_loop ds WorkspaceTopology_new"

definition topology_remove :: "DisplayId \<Rightarrow> WorkspaceTopology \<Rightarrow> WorkspaceDisplay option \<times> WorkspaceTopology" where
  "topology_remove display t =
     (map_of (displays t) display, t\<lparr>displays := AList.delete display (displays t)\<rparr>)"

definition topology_get :: "WorkspaceTopology \<Rightarrow> DisplayId \<Rightarrow> WorkspaceDisplay option" where
  "topology_get t display = map_of (displays t) display"

section \<open>Queries\<close>

text \<open>\<^verbatim>\<open>Iterator::min\<close> over the keys that pass a filter.\<close>

fun iter_min :: "'a::linorder list \<Rightarrow> 'a option" where
  "iter_min [] = None"
| "iter_min (x # xs) = (case iter_min xs of None \<Rightarrow> Some x | Some y \<Rightarrow> Some (if y < x then y else x))"

definition display_at :: "WorkspaceTopology \<Rightarrow> Point \<Rightarrow> DisplayId option" where
  "display_at t p =
     (if \<not> f64_is_finite (point_x p) \<or> \<not> f64_is_finite (point_y p) then None
      else iter_min (map fst (filter (\<lambda>(_, d).
        valid_bounds (workspace_bounds d) \<and> Rect_contains (workspace_bounds d) p) (displays t))))"

definition adjacent_display :: "WorkspaceTopology \<Rightarrow> DisplayId \<Rightarrow> Edge \<Rightarrow> f64 \<Rightarrow> DisplayId option" where
  "adjacent_display t display edge position =
     (if \<not> valid_position position then None
      else case map_of (displays t) display of
        None \<Rightarrow> None
      | Some wd \<Rightarrow>
        (let source = workspace_bounds wd in
         if \<not> valid_bounds source then None
         else let coordinate = perpendicular_coordinate source edge position in
           iter_min (map fst (filter (\<lambda>(id, candidate).
             id \<noteq> display \<and> valid_bounds (workspace_bounds candidate)
             \<and> touches source (workspace_bounds candidate) edge
             \<and> covers (workspace_bounds candidate) edge coordinate (close position f64_one))
             (displays t)))))"

text \<open>The outer \<open>option\<close> is the code's; the clamp of the source never panics since 0 is below 1.\<close>

definition normalized_edge_position :: "WorkspaceTopology \<Rightarrow> DisplayId \<Rightarrow> Edge \<Rightarrow> Point \<Rightarrow> f64 option" where
  "normalized_edge_position t display edge p =
     (case map_of (displays t) display of
        None \<Rightarrow> None
      | Some wd \<Rightarrow>
        (let b = workspace_bounds wd in
         if \<not> valid_bounds b \<or> \<not> f64_is_finite (point_x p) \<or> \<not> f64_is_finite (point_y p)
            \<or> \<not> point_is_on_edge b edge p then None
         else f64_clamp
           (if is_vertical edge then f64_div (f64_sub (point_y p) (min_y b)) (rect_height b)
            else f64_div (f64_sub (point_x p) (min_x b)) (rect_width b)) f64_zero f64_one))"

definition map_edge_position :: "WorkspaceTopology \<Rightarrow> DisplayId \<Rightarrow> Edge \<Rightarrow> f64 \<Rightarrow> Point option" where
  "map_edge_position t display edge position =
     (if \<not> valid_position position then None
      else case map_of (displays t) display of
        None \<Rightarrow> None
      | Some wd \<Rightarrow> (if \<not> valid_bounds (workspace_bounds wd) then None
                   else Some (point_at (workspace_bounds wd) edge position)))"

definition transition :: "WorkspaceTopology \<Rightarrow> DisplayId \<Rightarrow> Edge \<Rightarrow> f64 \<Rightarrow> PointerTransition option" where
  "transition t display exit_edge position =
     (case adjacent_display t display exit_edge position of
        None \<Rightarrow> None
      | Some destination \<Rightarrow>
        (case map_of (displays t) destination of
           None \<Rightarrow> None
         | Some wd \<Rightarrow>
           (let b = workspace_bounds wd; entry_edge = opposite exit_edge in
            if \<not> valid_bounds b then None
            else let q = point_at b entry_edge position in
              Some \<lparr>pt_display_id = destination, pt_entry_edge = entry_edge, pt_workspace_point = q,
                pt_local_point = Point_new (f64_sub (point_x q) (rect_x b)) (f64_sub (point_y q) (rect_y b)),
                pt_normalized_position = position\<rparr>)))"

section \<open>Lemmas\<close>

lemma iter_min_None [simp]: "iter_min xs = None \<longleftrightarrow> xs = []"
  by (cases xs) (auto split: option.splits)

lemma iter_min_Some: "iter_min xs = Some m \<longleftrightarrow> m \<in> set xs \<and> (\<forall>x\<in>set xs. m \<le> x)"
proof (induction xs arbitrary: m)
  case (Cons x xs)
  show ?case
  proof (cases "iter_min xs")
    case None
    then show ?thesis by auto
  next
    case (Some y)
    with Cons.IH[of y] show ?thesis
      by (auto intro: antisym)
  qed
qed simp

lemma valid_bounds_valid [intro]: "valid_bounds b \<Longrightarrow> Rect_is_valid b"
  by (simp add: valid_bounds_def)

definition on_edge :: "Rect \<Rightarrow> Edge \<Rightarrow> Point \<Rightarrow> bool" where
  "on_edge b e p \<longleftrightarrow> f64_le (min_x b) (point_x p) \<and> f64_le (point_x p) (max_x b)
     \<and> f64_le (min_y b) (point_y p) \<and> f64_le (point_y p) (max_y b)
     \<and> (case e of LeftEdge \<Rightarrow> point_x p = min_x b | RightEdge \<Rightarrow> point_x p = max_x b
        | TopEdge \<Rightarrow> point_y p = min_y b | BottomEdge \<Rightarrow> point_y p = max_y b)"

lemma point_at_on_edge:
  assumes "valid_bounds b" "valid_position p"
  shows "on_edge b e (point_at b e p)"
proof -
  note v = Rect_validD[OF valid_bounds_valid[OF assms(1)]] Rect_valid_ordered[OF valid_bounds_valid[OF assms(1)]]
  have p: "f64_le f64_zero p" "f64_le p f64_one"
    using assms(2) by (simp_all add: valid_position_def)
  show ?thesis
    using v f64_add_fraction[OF v(1) v(5) v(7) p] f64_add_fraction[OF v(2) v(6) v(8) p]
    by (cases e) (simp_all add: on_edge_def Point_new_def f64_le_refl_finite max_x_def max_y_def
        min_x_def min_y_def)
qed

lemma on_edge_finite:
  "valid_bounds b \<Longrightarrow> on_edge b e p \<Longrightarrow> f64_is_finite (point_x p) \<and> f64_is_finite (point_y p)"
  using Rect_validD[OF valid_bounds_valid, of b] f64_le_finite_between unfolding on_edge_def by blast

section \<open>The topology invariant\<close>

definition topology_inv :: "WorkspaceTopology \<Rightarrow> bool" where
  "topology_inv t \<longleftrightarrow> distinct_keys (displays t)
     \<and> list_all (\<lambda>(id, wd). disp_id (wd_display wd) = id \<and> Display_is_valid (wd_display wd)
          \<and> valid_bounds (workspace_bounds wd)) (displays t)"

datatype topology_op = OpInsert WorkspaceDisplay | OpRemove DisplayId

fun topology_step :: "topology_op \<Rightarrow> WorkspaceTopology \<Rightarrow> WorkspaceTopology" where
  "topology_step (OpInsert wd) t = snd (topology_insert wd t)"
| "topology_step (OpRemove display) t = snd (topology_remove display t)"

lemma topology_inv_step: "topology_inv t \<Longrightarrow> topology_inv (topology_step op t)"
  using set_update_subset set_delete_subset
  by (cases op) (fastforce simp: topology_inv_def topology_insert_def topology_remove_def Let_def list_all_iff
      intro: distinct_keys_update distinct_keys_delete)+

interpretation topology: invariant_component topology_step topology_inv WorkspaceTopology_new
  by unfold_locales (simp_all add: topology_inv_step, simp add: topology_inv_def WorkspaceTopology_new_def)

lemma topology_invD:
  "topology_inv t \<Longrightarrow> map_of (displays t) d = Some wd \<Longrightarrow> valid_bounds (workspace_bounds wd)"
  by (auto simp: topology_inv_def list_all_iff dest: map_of_SomeD)

lemma from_displays_loop_run:
  "from_displays_loop ds t = Inr t' \<Longrightarrow> t' = fold topology_step (map OpInsert ds) t"
  by (induction ds arbitrary: t)
    (auto split: prod.splits sum.splits)

lemma from_displays_loop_ok:
  "is_ok (from_displays_loop ds t) \<longleftrightarrow>
     list_all (\<lambda>wd. Display_is_valid (wd_display wd) \<and> valid_bounds (workspace_bounds wd)) ds"
  by (induction ds arbitrary: t) (auto simp: topology_insert_def Let_def)

section \<open>Properties\<close>

lemma map_of_entry: "distinct_keys m \<Longrightarrow> (k, v) \<in> set m \<longleftrightarrow> map_of m k = Some v"
  by (simp add: distinct_keys_def)

lemma iter_min_keys:
  assumes "distinct_keys m"
  shows "iter_min (map fst (filter P m)) = Some k \<longleftrightarrow>
     (\<exists>v. map_of m k = Some v \<and> P (k, v)) \<and> (\<forall>k' v. map_of m k' = Some v \<longrightarrow> P (k', v) \<longrightarrow> k \<le> k')"
  by (force simp: iter_min_Some map_of_entry[OF assms, symmetric])

text \<open>
  display lookup in any topology built by insertions and removals.  A finite point is found
  exactly in the display with the least identifier among those whose half-open workspace rectangle
  contains it, whatever the iteration order of the hash map, and a non-finite point in none.
\<close>

theorem display_at_least_containing:
  assumes "t = fold topology_step ops WorkspaceTopology_new"
  shows "display_at t p = Some d \<longleftrightarrow>
     f64_is_finite (point_x p) \<and> f64_is_finite (point_y p)
     \<and> (\<exists>wd. topology_get t d = Some wd \<and> Rect_contains (workspace_bounds wd) p)
     \<and> (\<forall>d' wd. topology_get t d' = Some wd \<longrightarrow> Rect_contains (workspace_bounds wd) p \<longrightarrow> d \<le> d')"
proof -
  have inv: "topology_inv t"
    using topology.inv_run assms by simp
  then have "distinct_keys (displays t)"
    by (simp add: topology_inv_def)
  then show ?thesis
    using topology_invD[OF inv] by (auto simp: display_at_def iter_min_keys topology_get_def)
qed

lemma transition_Some:
  assumes "transition t d e x = Some tr"
  obtains wd where "adjacent_display t d e x = Some (pt_display_id tr)"
    and "map_of (displays t) (pt_display_id tr) = Some wd" "valid_bounds (workspace_bounds wd)"
    and "pt_entry_edge tr = opposite e" "pt_normalized_position tr = x"
    and "pt_workspace_point tr = point_at (workspace_bounds wd) (opposite e) x"
    and "pt_local_point tr = Point_new
       (f64_sub (point_x (pt_workspace_point tr)) (rect_x (workspace_bounds wd)))
       (f64_sub (point_y (pt_workspace_point tr)) (rect_y (workspace_bounds wd)))"
  using assms by (auto simp: transition_def Let_def split: option.splits if_splits)

lemma adjacent_display_valid_position: "adjacent_display t d e x = Some d' \<Longrightarrow> valid_position x"
  by (simp add: adjacent_display_def split: if_splits)

text \<open>
  C18: a transition never leaves the destination display.  The destination is another placed
  display, the workspace point lies on its entry edge and inside its closed rectangle although the
  coordinates are rounded, both coordinates are finite, the local point is non-negative and the
  normalized position is carried over unchanged and lies in the unit interval.
\<close>

theorem transition_lands_on_entry_edge:
  assumes "t = fold topology_step ops WorkspaceTopology_new" "transition t d e x = Some tr"
  shows "\<exists>wd. topology_get t (pt_display_id tr) = Some wd \<and> pt_display_id tr \<noteq> d
     \<and> pt_entry_edge tr = opposite e
     \<and> on_edge (workspace_bounds wd) (pt_entry_edge tr) (pt_workspace_point tr)
     \<and> f64_is_finite (point_x (pt_workspace_point tr)) \<and> f64_is_finite (point_y (pt_workspace_point tr))
     \<and> f64_le f64_zero (point_x (pt_local_point tr)) \<and> f64_le f64_zero (point_y (pt_local_point tr))
     \<and> pt_normalized_position tr = x \<and> valid_position x"
proof -
  obtain wd where tr: "adjacent_display t d e x = Some (pt_display_id tr)"
    "map_of (displays t) (pt_display_id tr) = Some wd" "valid_bounds (workspace_bounds wd)"
    "pt_entry_edge tr = opposite e" "pt_normalized_position tr = x"
    "pt_workspace_point tr = point_at (workspace_bounds wd) (opposite e) x"
    "pt_local_point tr = Point_new
       (f64_sub (point_x (pt_workspace_point tr)) (rect_x (workspace_bounds wd)))
       (f64_sub (point_y (pt_workspace_point tr)) (rect_y (workspace_bounds wd)))"
    using assms(2) by (rule transition_Some)
  have dist: "distinct_keys (displays t)"
    using topology.inv_run[of ops] assms(1) by (simp add: topology_inv_def)
  have pos: "valid_position x"
    using tr(1) by (rule adjacent_display_valid_position)
  have edge: "on_edge (workspace_bounds wd) (opposite e) (pt_workspace_point tr)"
    using tr(3) pos by (simp add: tr(6) point_at_on_edge)
  note fin = on_edge_finite[OF tr(3) edge] and r = Rect_validD[OF valid_bounds_valid[OF tr(3)]]
  have ne: "pt_display_id tr \<noteq> d"
    using tr(1) by (auto simp: adjacent_display_def Let_def iter_min_keys[OF dist] split: option.splits if_splits)
  have "f64_le f64_zero (point_x (pt_local_point tr)) \<and> f64_le f64_zero (point_y (pt_local_point tr))"
    using edge fin r by (simp add: tr(7) Point_new_def on_edge_def f64_sub_nonneg min_x_def min_y_def)
  with tr pos edge fin ne show ?thesis
    by (auto simp: topology_get_def)
qed

text \<open>
  the position measured on an edge is always usable for a transition: whenever the code
  returns a normalized position for a point on or near an edge, it lies in the unit interval, is
  finite, and mapping it to any edge of a placed display gives a point of that edge.
\<close>

theorem normalized_edge_position_usable:
  assumes "t = fold topology_step ops WorkspaceTopology_new"
    "normalized_edge_position t d e p = Some x" "topology_get t d' = Some wd"
  shows "valid_position x
     \<and> (\<exists>q. map_edge_position t d' e' x = Some q \<and> on_edge (workspace_bounds wd) e' q)"
proof -
  have vb: "valid_bounds (workspace_bounds wd)"
    using topology_invD topology.inv_run assms(1,3) by (auto simp: topology_get_def)
  obtain num den where x: "f64_clamp (f64_div num den) f64_zero f64_one = Some x"
    and "\<not> f64_is_nan num" "f64_is_finite den" "f64_lt f64_zero den"
  proof -
    obtain w where w: "map_of (displays t) d = Some w" "valid_bounds (workspace_bounds w)"
      "f64_is_finite (point_x p)" "f64_is_finite (point_y p)"
      using assms(2) by (auto simp: normalized_edge_position_def Let_def split: option.splits if_splits)
    note r = Rect_validD[OF valid_bounds_valid[OF w(2)]]
    show thesis
      using assms(2) w r by (intro that[of
          "if is_vertical e then f64_sub (point_y p) (min_y (workspace_bounds w))
           else f64_sub (point_x p) (min_x (workspace_bounds w))"
          "if is_vertical e then rect_height (workspace_bounds w) else rect_width (workspace_bounds w)"])
        (auto simp: normalized_edge_position_def Let_def f64_sub_not_nan valid_bounds_def split: if_splits)
  qed
  then have "f64_le f64_zero x \<and> f64_le x f64_one"
    using f64_clamp_Some[OF x] f64_div_not_nan by blast
  moreover have "f64_is_finite f64_one"
    by (simp add: f64_is_finite_def f64_one_mag inf_mag_def)
  ultimately have pos: "valid_position x"
    using f64_le_finite_between[of f64_zero x f64_one] by (simp add: valid_position_def)
  then show ?thesis
    using vb assms(3) point_at_on_edge by (auto simp: map_edge_position_def topology_get_def)
qed

section \<open>A concrete topology\<close>

text \<open>
  Two displays side by side, with subnormal coordinates (multiples of the least positive binary64
  value), on which the hypotheses of the properties are evaluated.
\<close>

definition sample_placement :: "DisplayId \<Rightarrow> f64 \<Rightarrow> WorkspaceDisplay" where
  "sample_placement i x =
     \<lparr>wd_display = \<lparr>disp_id = i, disp_host_id = 7, disp_name = [65],
        disp_logical_size = \<lparr>size_width = 16, size_height = 16\<rparr>, disp_physical_size = None,
        disp_scale_factor = f64_one, disp_refresh_rate = None, disp_native_bounds = Rect_new 0 0 16 16,
        disp_primary = True\<rparr>,
      workspace_bounds = Rect_new x 0 16 16\<rparr>"

definition sample_ops :: "topology_op list" where
  "sample_ops = [OpInsert (sample_placement 1 0), OpInsert (sample_placement 2 16)]"

lemma sample_valid:
  "Display_is_valid (wd_display (sample_placement i x))"
  "valid_bounds (workspace_bounds (sample_placement 1 0))"
  "valid_bounds (workspace_bounds (sample_placement 2 16))"
  by (simp_all add: sample_placement_def Display_is_valid_def valid_bounds_def Rect_is_valid_def
      Size_is_valid_def rect_size_def Rect_new_def max_x_def max_y_def f64_eval f64_one_def Let_def bit_iff_odd)

lemma sample_topology:
  "fold topology_step sample_ops WorkspaceTopology_new =
     \<lparr>displays = [(1, sample_placement 1 0), (2, sample_placement 2 16)]\<rparr>"
proof -
  have ids: "disp_id (wd_display (sample_placement i x)) = i" for i x
    by (simp add: sample_placement_def)
  show ?thesis
    by (simp add: sample_ops_def WorkspaceTopology_new_def topology_insert_def Let_def sample_valid ids)
qed

lemma epsilon_simps: "f64_is_finite GEOMETRY_EPSILON" "0 \<le> f64_key GEOMETRY_EPSILON"
  by (simp_all add: GEOMETRY_EPSILON_def f64_is_finite_def f64_mag_def inf_mag_def f64_key_def
      f64_sign_def bit_iff_odd)

lemma close_refl: "f64_is_finite a \<Longrightarrow> close a a"
  using epsilon_simps f64_add_finite[of a "f64_neg a"] f64_finite_not_nan[of GEOMETRY_EPSILON]
  by (simp add: close_def f64_le_def f64_sub_def round_key_def)

lemma f64_one_valid: "f64_is_finite f64_one" "valid_position f64_one"
  by (simp_all add: valid_position_def f64_is_finite_def f64_one_mag inf_mag_def f64_le_def
      f64_is_nan_def f64_key_def)

lemma f64_sixteen: "f64_is_finite 16" "f64_mul f64_one 16 = 16" "f64_le 0 16" "f64_add 0 16 = 16"
  by (simp_all add: f64_mul_one f64_eval Let_def bit_iff_odd)

lemma sample_geometry:
  "max_x (Rect_new 0 0 16 16) = 16" "max_y (Rect_new x 0 16 16) = 16"
  "min_x (Rect_new x 0 16 16) = x" "min_y (Rect_new x 0 16 16) = 0"
  "perpendicular_coordinate (Rect_new 0 0 16 16) RightEdge f64_one = 16"
  by (simp_all add: max_x_def max_y_def min_x_def min_y_def Rect_new_def perpendicular_coordinate_def
      f64_sixteen)

lemma epsilon_below: "f64_is_finite a \<Longrightarrow> f64_le (f64_sub a GEOMETRY_EPSILON) a"
  and epsilon_above: "f64_is_finite a \<Longrightarrow> f64_le a (f64_add a GEOMETRY_EPSILON)"
  using epsilon_simps f64_finite_not_nan[of GEOMETRY_EPSILON]
  by (simp_all add: f64_sub_le_self f64_add_nonneg_ge f64_zero_le_iff)

lemma sample_transition:
  "\<exists>tr. transition (fold topology_step sample_ops WorkspaceTopology_new) 1 RightEdge f64_one = Some tr"
proof -
  have b: "workspace_bounds (sample_placement i x) = Rect_new x 0 16 16" for i x
    by (simp add: sample_placement_def)
  have v: "valid_bounds (Rect_new 0 0 16 16)" "valid_bounds (Rect_new 16 0 16 16)"
    using sample_valid by (simp_all add: b)
  have "f64_le (f64_sub 0 GEOMETRY_EPSILON) 16"
    by (rule f64_le_trans[OF epsilon_below f64_sixteen(3)]) simp
  then have "covers (Rect_new 16 0 16 16) RightEdge 16 True"
    by (simp add: covers_def sample_geometry close_refl f64_sixteen)
  then show ?thesis
    by (simp add: transition_def adjacent_display_def sample_topology b v sample_geometry close_refl
        f64_one_valid f64_sixteen Let_def)
qed

theorem display_at_least_containing_witness:
  "display_at (fold topology_step sample_ops WorkspaceTopology_new) (Point_new 4 4) = Some 1"
proof -
  let ?t = "fold topology_step sample_ops WorkspaceTopology_new"
  have "Rect_contains (workspace_bounds (sample_placement 1 0)) (Point_new 4 4)"
    by (simp add: Rect_contains_def sample_placement_def sample_geometry)
       (simp add: Point_new_def f64_eval bit_iff_odd)
  then show ?thesis
    by (subst display_at_least_containing[OF refl])
      (auto simp: sample_topology topology_get_def Point_new_def f64_eval split: if_splits)
qed

theorem transition_lands_on_entry_edge_witness:
  "\<exists>tr. transition (fold topology_step sample_ops WorkspaceTopology_new) 1 RightEdge f64_one = Some tr
     \<and> pt_entry_edge tr = LeftEdge \<and> pt_display_id tr \<noteq> 1"
proof -
  obtain tr where tr: "transition (fold topology_step sample_ops WorkspaceTopology_new) 1 RightEdge f64_one = Some tr"
    using sample_transition by blast
  show ?thesis
    using transition_lands_on_entry_edge[OF refl tr] tr by auto
qed

theorem normalized_edge_position_usable_witness:
  "\<exists>x. normalized_edge_position (fold topology_step sample_ops WorkspaceTopology_new) 1 TopEdge
     (Point_new 0 0) = Some x \<and> valid_position x"
proof -
  let ?t = "fold topology_step sample_ops WorkspaceTopology_new"
  have b: "workspace_bounds (sample_placement 1 0) = Rect_new 0 0 16 16"
    by (simp add: sample_placement_def)
  have "f64_le (f64_sub 0 GEOMETRY_EPSILON) 0" "f64_le 0 (f64_add 16 GEOMETRY_EPSILON)"
    using epsilon_below[of 0] f64_le_trans[OF f64_sixteen(3) epsilon_above[OF f64_sixteen(1)]] by simp_all
  then have "point_is_on_edge (Rect_new 0 0 16 16) TopEdge (Point_new 0 0)"
    by (simp add: point_is_on_edge_def sample_geometry Point_new_def close_refl)
  then obtain x where "normalized_edge_position ?t 1 TopEdge (Point_new 0 0) = Some x"
    using sample_valid(2)
    by (simp add: normalized_edge_position_def sample_topology b Let_def f64_clamp_def Point_new_def
        valid_position_def[THEN iffD1, OF f64_one_valid(2)])
  moreover have "topology_get ?t 1 = Some (sample_placement 1 0)"
    by (simp add: sample_topology topology_get_def)
  ultimately show ?thesis
    using normalized_edge_position_usable[OF refl] by blast
qed

end
