(* ===== verification/WireTypes.thy ===== *)
theory WireTypes
  imports KvmTypes
begin

text \<open>
  The transport data of \<^verbatim>\<open>kvm-protocol/src/wire.rs\<close>: one record per wire struct and one datatype per
  wire enum, with the bounds the validator enforces.  Field names carry a prefix for their struct.
\<close>

section \<open>Bounds\<close>

definition MAX_HOST_NAME_BYTES :: nat where "MAX_HOST_NAME_BYTES = 255"
definition MAX_DEVICE_NAME_BYTES :: nat where "MAX_DEVICE_NAME_BYTES = 255"
definition MAX_DISPLAY_NAME_BYTES :: nat where "MAX_DISPLAY_NAME_BYTES = 255"
definition MAX_SNAPSHOT_ITEMS :: nat where "MAX_SNAPSHOT_ITEMS = 256"
definition MAX_AUTH_BYTES :: nat where "MAX_AUTH_BYTES = 4096"
definition MAX_CLIPBOARD_TEXT_BYTES :: nat where "MAX_CLIPBOARD_TEXT_BYTES = 256 * 1024"
definition MAX_RELEASE_KEYS :: nat where "MAX_RELEASE_KEYS = 256"
definition MAX_RELEASE_BUTTONS :: nat where "MAX_RELEASE_BUTTONS = 32"
definition MAX_RELEASE_CONTROLS :: nat where "MAX_RELEASE_CONTROLS = 256"

text \<open>The \<open>f64\<close> bounds, as bit patterns: 65536, 262144, 1000000, 16 and 1000.\<close>

definition MAX_DISPLAY_LOGICAL_DIMENSION :: f64 where
  "MAX_DISPLAY_LOGICAL_DIMENSION = 0x40F0000000000000"

definition MAX_DISPLAY_PHYSICAL_DIMENSION :: f64 where
  "MAX_DISPLAY_PHYSICAL_DIMENSION = 0x4110000000000000"

definition MAX_DISPLAY_NATIVE_COORDINATE_ABS :: f64 where
  "MAX_DISPLAY_NATIVE_COORDINATE_ABS = 0x412E848000000000"

definition MAX_DISPLAY_SCALE_FACTOR :: f64 where
  "MAX_DISPLAY_SCALE_FACTOR = 0x4030000000000000"

definition MAX_DISPLAY_REFRESH_RATE_HZ :: f64 where
  "MAX_DISPLAY_REFRESH_RATE_HZ = 0x408F400000000000"

section \<open>Identifiers and session messages\<close>

type_synonym WireHostId = id128
type_synonym WirePeerId = id128
type_synonym WireDeviceId = id128
type_synonym WireDisplayId = id128
type_synonym WireClipboardId = id128

datatype WirePlatform = WireWindows | WireMacOs | WireLinux

record HelloV1 =
  hello_host_id :: WireHostId
  hello_peer_id :: WirePeerId
  hello_host_name :: rust_string
  hello_platform :: WirePlatform
  hello_minimum_protocol_version :: u16
  hello_maximum_protocol_version :: u16
  hello_daemon_version :: rust_string
  hello_nonce :: bytes32

record AuthenticateV1 =
  auth_peer_id :: WirePeerId
  auth_scheme :: rust_string
  auth_proof :: "u8 list"

section \<open>Devices\<close>

datatype WireDeviceKind = WireKeyboard | WireMouse | WireTrackpad | WireOtherDevice

record WireDeviceCapabilities =
  wcap_pointer :: bool
  wcap_keyboard :: bool
  wcap_vertical_scroll :: bool
  wcap_horizontal_scroll :: bool
  wcap_extra_buttons :: bool

record WireInputDeviceV1 =
  wdev_id :: WireDeviceId
  wdev_host_id :: WireHostId
  wdev_name :: rust_string
  wdev_vendor_id :: "u16 option"
  wdev_product_id :: "u16 option"
  wdev_kind :: WireDeviceKind
  wdev_capabilities :: WireDeviceCapabilities

record DeviceSnapshotV1 =
  dsnap_revision :: u64
  dsnap_host_id :: WireHostId
  dsnap_devices :: "WireInputDeviceV1 list"

record DeviceAddedV1 =
  dadd_revision :: u64
  dadd_device :: WireInputDeviceV1

record DeviceRemovedV1 =
  drem_revision :: u64
  drem_host_id :: WireHostId
  drem_device_id :: WireDeviceId

section \<open>Displays\<close>

record WireSize =
  wsize_width :: f64
  wsize_height :: f64

record WireRect =
  wrect_x :: f64
  wrect_y :: f64
  wrect_width :: f64
  wrect_height :: f64

record WireDisplayV1 =
  wdisp_id :: WireDisplayId
  wdisp_host_id :: WireHostId
  wdisp_name :: rust_string
  wdisp_logical_size :: WireSize
  wdisp_physical_size :: "WireSize option"
  wdisp_scale_factor :: f64
  wdisp_refresh_rate :: "f64 option"
  wdisp_native_bounds :: WireRect
  wdisp_primary :: bool

record DisplaySnapshotV1 =
  dpsnap_revision :: u64
  dpsnap_host_id :: WireHostId
  dpsnap_displays :: "WireDisplayV1 list"

record DisplayUpdatedV1 =
  dpupd_revision :: u64
  dpupd_display :: WireDisplayV1

section \<open>Input\<close>

record WireKeyCode =
  wkey_usage_page :: u16
  wkey_usage :: u16

datatype WireKeyState = WireKeyDown | WireKeyUp | WireKeyRepeat

datatype WirePointerButton =
    WirePrimary | WireSecondary | WireMiddle | WireBack | WireForward | WireOther u16

datatype WireButtonState = WireButtonDown | WireButtonUp

datatype WireInputPayloadV1 =
    WireKey WireKeyCode WireKeyState
  | WirePointerMove f64 f64
  | WirePointerButton WirePointerButton WireButtonState
  | WireScroll f64 f64

record InputEventV1 =
  input_sequence :: u64
  input_timestamp_ns :: u64
  input_source_host :: WireHostId
  input_source_device :: WireDeviceId
  input_payload :: WireInputPayloadV1

section \<open>Pointer handoff\<close>

datatype WireEdge = WireLeft | WireRight | WireTop | WireBottom

record PointerEnterV1 =
  enter_transition_id :: u64
  enter_workspace_epoch :: u64
  enter_sequence :: u64
  enter_source_host :: WireHostId
  enter_destination_host :: WireHostId
  enter_source_display :: WireDisplayId
  enter_destination_display :: WireDisplayId
  enter_destination_edge :: WireEdge
  enter_normalized_position :: f64

record PointerLeaveV1 =
  leave_transition_id :: u64
  leave_workspace_epoch :: u64
  leave_sequence :: u64
  leave_source_host :: WireHostId
  leave_source_display :: WireDisplayId
  leave_edge :: WireEdge
  leave_normalized_position :: f64

datatype PointerTransitionOutcomeV1 =
    Accepted | StaleWorkspaceEpoch | UnknownDisplay | NotAuthoritative | RejectedTransition

record PointerTransitionAckV1 =
  ack_transition_id :: u64
  ack_workspace_epoch :: u64
  ack_receiver_host :: WireHostId
  ack_active_display :: WireDisplayId
  ack_outcome :: PointerTransitionOutcomeV1

record PointerTransitionCommitV1 =
  commit_transition_id :: u64
  commit_workspace_epoch :: u64
  commit_sequence :: u64
  commit_source_host :: WireHostId
  commit_destination_host :: WireHostId
  commit_source_display :: WireDisplayId
  commit_destination_display :: WireDisplayId

section \<open>Clipboard, heartbeat and releases\<close>

record ClipboardV1 =
  clip_update_id :: WireClipboardId
  clip_origin_host :: WireHostId
  clip_sequence :: u64
  clip_text :: rust_string

record PingV1 =
  ping_nonce :: u64
  ping_sent_at_ns :: u64

record PongV1 =
  pong_nonce :: u64
  pong_ping_sent_at_ns :: u64
  pong_received_at_ns :: u64

datatype ReleaseReasonV1 =
    RouteChanged | PeerDisconnecting | Failsafe | Shutdown | StateResynchronization

record ReleaseInputV1 =
  rel_sequence :: u64
  rel_source_host :: WireHostId
  rel_source_device :: "WireDeviceId option"
  rel_reason :: ReleaseReasonV1
  rel_keys :: "WireKeyCode list"
  rel_buttons :: "WirePointerButton list"

datatype ReleaseReasonV2 =
    RouteChangedV2 | PeerDisconnectingV2 | FailsafeV2 | ShutdownV2 | StateResynchronizationV2

record ReleaseInputV2 =
  rel2_transaction_id :: u64
  rel2_release_token :: bytes32
  rel2_old_session_id :: bytes32
  rel2_sequence :: u64
  rel2_covered_input_sequence :: u64
  rel2_source_host :: WireHostId
  rel2_applying_host :: WireHostId
  rel2_source_device :: "WireDeviceId option"
  rel2_reason :: ReleaseReasonV2
  rel2_keys :: "WireKeyCode list"
  rel2_buttons :: "WirePointerButton list"

record ReleaseAppliedAckV2 =
  rack_transaction_id :: u64
  rack_release_token :: bytes32
  rack_old_session_id :: bytes32
  rack_sequence :: u64
  rack_release_sequence :: u64
  rack_covered_input_sequence :: u64
  rack_source_host :: WireHostId
  rack_applying_host :: WireHostId

section \<open>Reading the bounds\<close>

lemma f64_bounds_value:
  "f64_num MAX_DISPLAY_LOGICAL_DIMENSION = 65536 * int unit_scale"
  "f64_num MAX_DISPLAY_PHYSICAL_DIMENSION = 262144 * int unit_scale"
  "f64_num MAX_DISPLAY_NATIVE_COORDINATE_ABS = 1000000 * int unit_scale"
  "f64_num MAX_DISPLAY_SCALE_FACTOR = 16 * int unit_scale"
  "f64_num MAX_DISPLAY_REFRESH_RATE_HZ = 1000 * int unit_scale"
  by (simp_all add: f64_num_def MAX_DISPLAY_LOGICAL_DIMENSION_def MAX_DISPLAY_PHYSICAL_DIMENSION_def
      MAX_DISPLAY_NATIVE_COORDINATE_ABS_def MAX_DISPLAY_SCALE_FACTOR_def
      MAX_DISPLAY_REFRESH_RATE_HZ_def f64_sign_def f64_mag_def mag_value_def unit_scale_def bit_iff_odd)

end
