(* ===== verification/WireMessages.thy ===== *)
theory WireMessages
  imports WireTypes
begin

text \<open>
  The message layer of \<^verbatim>\<open>kvm-protocol/src/message.rs\<close>: message types with their wire discriminants,
  the message sum, and the complete validation of every message, in the order of the source's
  checks.  A validation detail is the symbolic form of the source's formatted text.
\<close>

section \<open>Message types\<close>

definition PROTOCOL_VERSION_V1 :: u16 where "PROTOCOL_VERSION_V1 = 1"
definition PROTOCOL_VERSION_V2 :: u16 where "PROTOCOL_VERSION_V2 = 2"
definition PROTOCOL_VERSION_V3 :: u16 where "PROTOCOL_VERSION_V3 = 3"
definition MIN_SUPPORTED_PROTOCOL_VERSION :: u16 where
  "MIN_SUPPORTED_PROTOCOL_VERSION = PROTOCOL_VERSION_V1"
definition CURRENT_PROTOCOL_VERSION :: u16 where
  "CURRENT_PROTOCOL_VERSION = PROTOCOL_VERSION_V3"

lemmas version_defs = PROTOCOL_VERSION_V1_def PROTOCOL_VERSION_V2_def PROTOCOL_VERSION_V3_def
  MIN_SUPPORTED_PROTOCOL_VERSION_def CURRENT_PROTOCOL_VERSION_def

datatype MessageType =
    MtHello | MtAuthenticate | MtDeviceSnapshot | MtDeviceAdded | MtDeviceRemoved
  | MtDisplaySnapshot | MtDisplayUpdated | MtInput | MtPointerEnter | MtPointerLeave
  | MtPointerTransitionAck | MtPointerTransitionCommit | MtClipboard | MtPing | MtPong
  | MtReleaseInput | MtReleaseInputV2 | MtReleaseAppliedAckV2

fun message_type_code :: "MessageType \<Rightarrow> u16" where
  "message_type_code MtHello = 1"
| "message_type_code MtAuthenticate = 2"
| "message_type_code MtDeviceSnapshot = 10"
| "message_type_code MtDeviceAdded = 11"
| "message_type_code MtDeviceRemoved = 12"
| "message_type_code MtDisplaySnapshot = 20"
| "message_type_code MtDisplayUpdated = 21"
| "message_type_code MtInput = 30"
| "message_type_code MtPointerEnter = 31"
| "message_type_code MtPointerLeave = 32"
| "message_type_code MtPointerTransitionAck = 33"
| "message_type_code MtPointerTransitionCommit = 34"
| "message_type_code MtClipboard = 40"
| "message_type_code MtPing = 50"
| "message_type_code MtPong = 51"
| "message_type_code MtReleaseInput = 60"
| "message_type_code MtReleaseInputV2 = 61"
| "message_type_code MtReleaseAppliedAckV2 = 62"

fun type_minimum_protocol_version :: "MessageType \<Rightarrow> u16" where
  "type_minimum_protocol_version MtReleaseInputV2 = PROTOCOL_VERSION_V2"
| "type_minimum_protocol_version MtReleaseAppliedAckV2 = PROTOCOL_VERSION_V2"
| "type_minimum_protocol_version _ = MIN_SUPPORTED_PROTOCOL_VERSION"

section \<open>Errors\<close>

datatype detail =
    BytesOver string nat nat
  | ItemsOver string nat nat
  | MustBePositive string
  | MustBeNonzero string
  | MustBeFinite string
  | MustBeBounded string
  | RevisionMustBePositive string
  | MustBeNonNil string
  | Because string

record ValidationError =
  ve_message_type :: MessageType
  ve_detail :: detail

definition ValidationError_new :: "MessageType \<Rightarrow> detail \<Rightarrow> ValidationError" where
  "ValidationError_new mt d = \<lparr>ve_message_type = mt, ve_detail = d\<rparr>"

datatype ProtocolError =
    HeaderTruncated nat nat
  | InvalidMagic "u8 list"
  | UnsupportedVersion u16 u16
  | MessageVersionMismatch MessageType u16
  | UnknownMessageType u16
  | PayloadTooLarge nat nat
  | PayloadTruncated nat nat
  | TrailingBytes nat
  | EncodeError MessageType
  | DecodeError MessageType
  | InvalidMessage ValidationError

text \<open>\<^verbatim>\<open>TryFrom<u16>\<close>.\<close>

definition message_type_of_code :: "u16 \<Rightarrow> (ProtocolError, MessageType) result" where
  "message_type_of_code v =
     (if v = 1 then Inr MtHello
      else if v = 2 then Inr MtAuthenticate
      else if v = 10 then Inr MtDeviceSnapshot
      else if v = 11 then Inr MtDeviceAdded
      else if v = 12 then Inr MtDeviceRemoved
      else if v = 20 then Inr MtDisplaySnapshot
      else if v = 21 then Inr MtDisplayUpdated
      else if v = 30 then Inr MtInput
      else if v = 31 then Inr MtPointerEnter
      else if v = 32 then Inr MtPointerLeave
      else if v = 33 then Inr MtPointerTransitionAck
      else if v = 34 then Inr MtPointerTransitionCommit
      else if v = 40 then Inr MtClipboard
      else if v = 50 then Inr MtPing
      else if v = 51 then Inr MtPong
      else if v = 60 then Inr MtReleaseInput
      else if v = 61 then Inr MtReleaseInputV2
      else if v = 62 then Inr MtReleaseAppliedAckV2
      else Inl (UnknownMessageType v))"

section \<open>Messages\<close>

datatype WireMessage =
    Hello HelloV1
  | Authenticate AuthenticateV1
  | DeviceSnapshot DeviceSnapshotV1
  | DeviceAdded DeviceAddedV1
  | DeviceRemoved DeviceRemovedV1
  | DisplaySnapshot DisplaySnapshotV1
  | DisplayUpdated DisplayUpdatedV1
  | Input InputEventV1
  | PointerEnter PointerEnterV1
  | PointerLeave PointerLeaveV1
  | PointerTransitionAck PointerTransitionAckV1
  | PointerTransitionCommit PointerTransitionCommitV1
  | Clipboard ClipboardV1
  | Ping PingV1
  | Pong PongV1
  | ReleaseInput ReleaseInputV1
  | ReleaseInput2 ReleaseInputV2
  | ReleaseAppliedAck ReleaseAppliedAckV2

fun message_type :: "WireMessage \<Rightarrow> MessageType" where
  "message_type (Hello _) = MtHello"
| "message_type (Authenticate _) = MtAuthenticate"
| "message_type (DeviceSnapshot _) = MtDeviceSnapshot"
| "message_type (DeviceAdded _) = MtDeviceAdded"
| "message_type (DeviceRemoved _) = MtDeviceRemoved"
| "message_type (DisplaySnapshot _) = MtDisplaySnapshot"
| "message_type (DisplayUpdated _) = MtDisplayUpdated"
| "message_type (Input _) = MtInput"
| "message_type (PointerEnter _) = MtPointerEnter"
| "message_type (PointerLeave _) = MtPointerLeave"
| "message_type (PointerTransitionAck _) = MtPointerTransitionAck"
| "message_type (PointerTransitionCommit _) = MtPointerTransitionCommit"
| "message_type (Clipboard _) = MtClipboard"
| "message_type (Ping _) = MtPing"
| "message_type (Pong _) = MtPong"
| "message_type (ReleaseInput _) = MtReleaseInput"
| "message_type (ReleaseInput2 _) = MtReleaseInputV2"
| "message_type (ReleaseAppliedAck _) = MtReleaseAppliedAckV2"

section \<open>Validation helpers\<close>

type_synonym invalid_fn = "detail \<Rightarrow> ValidationError"
type_synonym check = "(ValidationError, unit) result"

definition string_len :: "string \<Rightarrow> rust_string \<Rightarrow> nat \<Rightarrow> invalid_fn \<Rightarrow> check" where
  "string_len name value maximum invalid =
     (if str_len value > maximum then Inl (invalid (BytesOver name (str_len value) maximum)) else Inr ())"

definition list_len :: "string \<Rightarrow> nat \<Rightarrow> nat \<Rightarrow> invalid_fn \<Rightarrow> check" where
  "list_len name len maximum invalid =
     (if len > maximum then Inl (invalid (ItemsOver name len maximum)) else Inr ())"

definition positive_counter :: "string \<Rightarrow> u64 \<Rightarrow> invalid_fn \<Rightarrow> check" where
  "positive_counter name value invalid = ensure (value \<noteq> 0) (invalid (MustBePositive name))"

definition nonzero_secret :: "string \<Rightarrow> bytes32 \<Rightarrow> invalid_fn \<Rightarrow> check" where
  "nonzero_secret name value invalid = ensure (value \<noteq> 0) (invalid (MustBeNonzero name))"

definition positive_revision :: "string \<Rightarrow> u64 \<Rightarrow> invalid_fn \<Rightarrow> check" where
  "positive_revision subject revision invalid =
     ensure (revision \<noteq> 0) (invalid (RevisionMustBePositive subject))"

definition non_nil_id :: "string \<Rightarrow> id128 \<Rightarrow> invalid_fn \<Rightarrow> check" where
  "non_nil_id name value invalid = ensure (value \<noteq> nil_id) (invalid (MustBeNonNil name))"

fun all_unique_loop :: "'a list \<Rightarrow> 'a set \<Rightarrow> bool" where
  "all_unique_loop [] unique = True"
| "all_unique_loop (v # vs) unique = (v \<notin> unique \<and> all_unique_loop vs (insert v unique))"

definition all_unique :: "'a list \<Rightarrow> bool" where
  "all_unique vs = all_unique_loop vs {}"

definition normalized :: "f64 \<Rightarrow> invalid_fn \<Rightarrow> check" where
  "normalized value invalid =
     (if \<not> f64_is_finite value \<or> \<not> (f64_le f64_zero value \<and> f64_le value f64_one)
      then Inl (invalid (Because ''normalized position must be finite and in 0.0..=1.0''))
      else Inr ())"

definition finite_f64 :: "string \<Rightarrow> f64 \<Rightarrow> invalid_fn \<Rightarrow> check" where
  "finite_f64 name value invalid = ensure (f64_is_finite value) (invalid (MustBeFinite name))"

definition positive_bounded :: "string \<Rightarrow> f64 \<Rightarrow> f64 \<Rightarrow> invalid_fn \<Rightarrow> check" where
  "positive_bounded name value maximum invalid =
     (if \<not> f64_is_finite value \<or> f64_le value f64_zero \<or> f64_lt maximum value
      then Inl (invalid (MustBeBounded name)) else Inr ())"

definition bounded_coordinate :: "string \<Rightarrow> f64 \<Rightarrow> invalid_fn \<Rightarrow> check" where
  "bounded_coordinate name value invalid =
     (if \<not> f64_is_finite value \<or> f64_lt MAX_DISPLAY_NATIVE_COORDINATE_ABS (f64_abs value)
      then Inl (invalid (MustBeBounded name)) else Inr ())"

definition validate_name :: "string \<Rightarrow> rust_string \<Rightarrow> invalid_fn \<Rightarrow> check" where
  "validate_name why name invalid =
     (if str_trim name = [] \<or> list_ex is_control name then Inl (invalid (Because why)) else Inr ())"

definition validate_device :: "WireInputDeviceV1 \<Rightarrow> invalid_fn \<Rightarrow> check" where
  "validate_device device invalid =
     and_then (string_len ''device name'' (wdev_name device) MAX_DEVICE_NAME_BYTES invalid) (\<lambda>_.
     and_then (validate_name ''device name must be nonempty and contain no control characters''
                 (wdev_name device) invalid) (\<lambda>_.
     and_then (non_nil_id ''device'' (wdev_id device) invalid) (\<lambda>_.
     non_nil_id ''device owner'' (wdev_host_id device) invalid)))"

definition validate_display :: "WireDisplayV1 \<Rightarrow> invalid_fn \<Rightarrow> check" where
  "validate_display d invalid =
     and_then (string_len ''display name'' (wdisp_name d) MAX_DISPLAY_NAME_BYTES invalid) (\<lambda>_.
     and_then (validate_name ''display name must be nonempty and contain no control characters''
                 (wdisp_name d) invalid) (\<lambda>_.
     and_then (non_nil_id ''display'' (wdisp_id d) invalid) (\<lambda>_.
     and_then (non_nil_id ''display owner'' (wdisp_host_id d) invalid) (\<lambda>_.
     and_then (positive_bounded ''logical width'' (wsize_width (wdisp_logical_size d))
                 MAX_DISPLAY_LOGICAL_DIMENSION invalid) (\<lambda>_.
     and_then (positive_bounded ''logical height'' (wsize_height (wdisp_logical_size d))
                 MAX_DISPLAY_LOGICAL_DIMENSION invalid) (\<lambda>_.
     and_then (case wdisp_physical_size d of None \<Rightarrow> Inr ()
       | Some sz \<Rightarrow>
           and_then (positive_bounded ''physical width'' (wsize_width sz)
                       MAX_DISPLAY_PHYSICAL_DIMENSION invalid) (\<lambda>_.
           positive_bounded ''physical height'' (wsize_height sz)
             MAX_DISPLAY_PHYSICAL_DIMENSION invalid)) (\<lambda>_.
     and_then (positive_bounded ''scale factor'' (wdisp_scale_factor d)
                 MAX_DISPLAY_SCALE_FACTOR invalid) (\<lambda>_.
     and_then (case wdisp_refresh_rate d of None \<Rightarrow> Inr ()
       | Some rate \<Rightarrow> positive_bounded ''refresh rate'' rate MAX_DISPLAY_REFRESH_RATE_HZ invalid) (\<lambda>_.
     and_then (bounded_coordinate ''native x'' (wrect_x (wdisp_native_bounds d)) invalid) (\<lambda>_.
     and_then (bounded_coordinate ''native y'' (wrect_y (wdisp_native_bounds d)) invalid) (\<lambda>_.
     and_then (positive_bounded ''native width'' (wrect_width (wdisp_native_bounds d))
                 MAX_DISPLAY_PHYSICAL_DIMENSION invalid) (\<lambda>_.
     and_then (positive_bounded ''native height'' (wrect_height (wdisp_native_bounds d))
                 MAX_DISPLAY_PHYSICAL_DIMENSION invalid) (\<lambda>_.
     and_then (bounded_coordinate ''native maximum x''
                 (f64_add (wrect_x (wdisp_native_bounds d)) (wrect_width (wdisp_native_bounds d)))
                 invalid) (\<lambda>_.
     bounded_coordinate ''native maximum y''
       (f64_add (wrect_y (wdisp_native_bounds d)) (wrect_height (wdisp_native_bounds d)))
       invalid))))))))))))))"

fun validate_input_payload :: "WireInputPayloadV1 \<Rightarrow> invalid_fn \<Rightarrow> check" where
  "validate_input_payload (WirePointerMove dx dy) invalid =
     and_then (finite_f64 ''pointer dx'' dx invalid) (\<lambda>_. finite_f64 ''pointer dy'' dy invalid)"
| "validate_input_payload (WireScroll h v) invalid =
     and_then (finite_f64 ''horizontal scroll'' h invalid) (\<lambda>_. finite_f64 ''vertical scroll'' v invalid)"
| "validate_input_payload (WireKey _ _) invalid = Inr ()"
| "validate_input_payload (WirePointerButton _ _) invalid = Inr ()"

definition validate_input :: "InputEventV1 \<Rightarrow> invalid_fn \<Rightarrow> check" where
  "validate_input input invalid = validate_input_payload (input_payload input) invalid"

definition validate_release_v2 :: "ReleaseInputV2 \<Rightarrow> invalid_fn \<Rightarrow> check" where
  "validate_release_v2 r invalid =
     and_then (positive_counter ''release transaction'' (rel2_transaction_id r) invalid) (\<lambda>_.
     and_then (nonzero_secret ''release token'' (rel2_release_token r) invalid) (\<lambda>_.
     and_then (nonzero_secret ''old session'' (rel2_old_session_id r) invalid) (\<lambda>_.
     and_then (ensure (rel2_release_token r \<noteq> rel2_old_session_id r)
       (invalid (Because ''release token and old session identifier must differ''))) (\<lambda>_.
     and_then (positive_counter ''release sequence'' (rel2_sequence r) invalid) (\<lambda>_.
     and_then (positive_counter ''covered input sequence'' (rel2_covered_input_sequence r) invalid) (\<lambda>_.
     and_then (ensure (rel2_covered_input_sequence r < rel2_sequence r)
       (invalid (Because ''covered input sequence must precede the release sequence''))) (\<lambda>_.
     and_then (non_nil_id ''release source host'' (rel2_source_host r) invalid) (\<lambda>_.
     and_then (non_nil_id ''release applying host'' (rel2_applying_host r) invalid) (\<lambda>_.
     and_then (ensure (rel2_source_host r \<noteq> rel2_applying_host r)
       (invalid (Because ''release source and applying hosts must differ''))) (\<lambda>_.
     and_then (case rel2_source_device r of None \<Rightarrow> Inr ()
       | Some device \<Rightarrow> non_nil_id ''release source device'' device invalid) (\<lambda>_.
     and_then (list_len ''keys'' (length (rel2_keys r)) MAX_RELEASE_KEYS invalid) (\<lambda>_.
     and_then (list_len ''buttons'' (length (rel2_buttons r)) MAX_RELEASE_BUTTONS invalid) (\<lambda>_.
     and_then (ensure (length (rel2_keys r) + length (rel2_buttons r) < 2 ^ 64)
       (invalid (Because ''release control count exceeds maximum''))) (\<lambda>_.
     and_then (list_len ''controls'' (length (rel2_keys r) + length (rel2_buttons r))
                 MAX_RELEASE_CONTROLS invalid) (\<lambda>_.
     ensure (all_unique (rel2_keys r) \<and> all_unique (rel2_buttons r))
       (invalid (Because ''release controls must not contain duplicates'')))))))))))))))))"

definition validate_release_ack_v2 :: "ReleaseAppliedAckV2 \<Rightarrow> invalid_fn \<Rightarrow> check" where
  "validate_release_ack_v2 a invalid =
     and_then (positive_counter ''release transaction'' (rack_transaction_id a) invalid) (\<lambda>_.
     and_then (nonzero_secret ''release token'' (rack_release_token a) invalid) (\<lambda>_.
     and_then (nonzero_secret ''old session'' (rack_old_session_id a) invalid) (\<lambda>_.
     and_then (ensure (rack_release_token a \<noteq> rack_old_session_id a)
       (invalid (Because ''release token and old session identifier must differ''))) (\<lambda>_.
     and_then (positive_counter ''acknowledgement sequence'' (rack_sequence a) invalid) (\<lambda>_.
     and_then (positive_counter ''acknowledged release sequence'' (rack_release_sequence a) invalid) (\<lambda>_.
     and_then (positive_counter ''covered input sequence'' (rack_covered_input_sequence a) invalid) (\<lambda>_.
     and_then (ensure (rack_covered_input_sequence a < rack_release_sequence a)
       (invalid (Because ''covered input sequence must precede the acknowledged release sequence''))) (\<lambda>_.
     and_then (non_nil_id ''acknowledgement source host'' (rack_source_host a) invalid) (\<lambda>_.
     and_then (non_nil_id ''acknowledgement applying host'' (rack_applying_host a) invalid) (\<lambda>_.
     ensure (rack_source_host a \<noteq> rack_applying_host a)
       (invalid (Because ''acknowledgement source and applying hosts must differ''))))))))))))"

section \<open>Validation per message\<close>

fun validate_devices_loop ::
  "WireInputDeviceV1 list \<Rightarrow> WireHostId \<Rightarrow> WireDeviceId set \<Rightarrow> invalid_fn \<Rightarrow> check" where
  "validate_devices_loop [] host device_ids invalid = Inr ()"
| "validate_devices_loop (device # rest) host device_ids invalid =
     and_then (validate_device device invalid) (\<lambda>_.
     and_then (ensure (wdev_host_id device = host)
       (invalid (Because ''snapshot contains a device owned by another host''))) (\<lambda>_.
     and_then (ensure (wdev_id device \<notin> device_ids)
       (invalid (Because ''snapshot contains duplicate device identifiers''))) (\<lambda>_.
     validate_devices_loop rest host (insert (wdev_id device) device_ids) invalid)))"

definition DeviceSnapshotV1_validate :: "DeviceSnapshotV1 \<Rightarrow> check" where
  "DeviceSnapshotV1_validate v =
     (let invalid = ValidationError_new MtDeviceSnapshot in
      and_then (positive_revision ''device'' (dsnap_revision v) invalid) (\<lambda>_.
      and_then (non_nil_id ''snapshot host'' (dsnap_host_id v) invalid) (\<lambda>_.
      and_then (list_len ''devices'' (length (dsnap_devices v)) MAX_SNAPSHOT_ITEMS invalid) (\<lambda>_.
      validate_devices_loop (dsnap_devices v) (dsnap_host_id v) {} invalid))))"

definition DeviceAddedV1_validate :: "DeviceAddedV1 \<Rightarrow> check" where
  "DeviceAddedV1_validate v =
     (let invalid = ValidationError_new MtDeviceAdded in
      and_then (positive_revision ''device'' (dadd_revision v) invalid) (\<lambda>_.
      validate_device (dadd_device v) invalid))"

definition DeviceRemovedV1_validate :: "DeviceRemovedV1 \<Rightarrow> check" where
  "DeviceRemovedV1_validate v =
     (let invalid = ValidationError_new MtDeviceRemoved in
      and_then (positive_revision ''device'' (drem_revision v) invalid) (\<lambda>_.
      and_then (non_nil_id ''device owner'' (drem_host_id v) invalid) (\<lambda>_.
      non_nil_id ''device'' (drem_device_id v) invalid)))"

text \<open>The display loop also counts the primary displays.\<close>

fun validate_displays_loop ::
  "WireDisplayV1 list \<Rightarrow> WireHostId \<Rightarrow> WireDisplayId set \<Rightarrow> nat \<Rightarrow> invalid_fn \<Rightarrow>
   (ValidationError, nat) result" where
  "validate_displays_loop [] host display_ids primary_count invalid = Inr primary_count"
| "validate_displays_loop (display # rest) host display_ids primary_count invalid =
     and_then (validate_display display invalid) (\<lambda>_.
     and_then (ensure (wdisp_host_id display = host)
       (invalid (Because ''snapshot contains a display owned by another host''))) (\<lambda>_.
     and_then (ensure (wdisp_id display \<notin> display_ids)
       (invalid (Because ''snapshot contains duplicate display identifiers''))) (\<lambda>_.
     validate_displays_loop rest host (insert (wdisp_id display) display_ids)
       (primary_count + of_bool (wdisp_primary display)) invalid)))"

definition DisplaySnapshotV1_validate :: "DisplaySnapshotV1 \<Rightarrow> check" where
  "DisplaySnapshotV1_validate v =
     (let invalid = ValidationError_new MtDisplaySnapshot in
      and_then (positive_revision ''display'' (dpsnap_revision v) invalid) (\<lambda>_.
      and_then (non_nil_id ''snapshot host'' (dpsnap_host_id v) invalid) (\<lambda>_.
      and_then (list_len ''displays'' (length (dpsnap_displays v)) MAX_SNAPSHOT_ITEMS invalid) (\<lambda>_.
      and_then (validate_displays_loop (dpsnap_displays v) (dpsnap_host_id v) {} 0 invalid)
        (\<lambda>primary_count. ensure (primary_count = 1)
          (invalid (Because ''snapshot must contain exactly one primary display'')))))))"

definition DisplayUpdatedV1_validate :: "DisplayUpdatedV1 \<Rightarrow> check" where
  "DisplayUpdatedV1_validate v =
     (let invalid = ValidationError_new MtDisplayUpdated in
      and_then (positive_revision ''display'' (dpupd_revision v) invalid) (\<lambda>_.
      validate_display (dpupd_display v) invalid))"

definition ReleaseInputV2_validate :: "ReleaseInputV2 \<Rightarrow> check" where
  "ReleaseInputV2_validate v = validate_release_v2 v (ValidationError_new MtReleaseInputV2)"

definition ReleaseAppliedAckV2_validate :: "ReleaseAppliedAckV2 \<Rightarrow> check" where
  "ReleaseAppliedAckV2_validate v = validate_release_ack_v2 v (ValidationError_new MtReleaseAppliedAckV2)"

definition validate_hello :: "HelloV1 \<Rightarrow> invalid_fn \<Rightarrow> check" where
  "validate_hello v invalid =
     and_then (string_len ''host_name'' (hello_host_name v) MAX_HOST_NAME_BYTES invalid) (\<lambda>_.
     and_then (string_len ''daemon_version'' (hello_daemon_version v) 128 invalid) (\<lambda>_.
     and_then (ensure (hello_minimum_protocol_version v \<noteq> 0)
       (invalid (Because ''minimum protocol version must be positive''))) (\<lambda>_.
     and_then (ensure (hello_minimum_protocol_version v \<le> hello_maximum_protocol_version v)
       (invalid (Because ''minimum protocol version exceeds maximum''))) (\<lambda>_.
     ensure (\<not> (hello_maximum_protocol_version v < MIN_SUPPORTED_PROTOCOL_VERSION
                \<or> CURRENT_PROTOCOL_VERSION < hello_minimum_protocol_version v))
       (invalid (Because ''peer does not advertise a supported protocol version''))))))"

definition validate_authenticate :: "AuthenticateV1 \<Rightarrow> invalid_fn \<Rightarrow> check" where
  "validate_authenticate v invalid =
     and_then (string_len ''scheme'' (auth_scheme v) 64 invalid) (\<lambda>_.
     and_then (ensure (auth_scheme v \<noteq> [])
       (invalid (Because ''authentication scheme cannot be empty''))) (\<lambda>_.
     ensure (auth_proof v \<noteq> [] \<and> length (auth_proof v) \<le> MAX_AUTH_BYTES)
       (invalid (Because ''proof length must be in 1..=4096 bytes''))))"

fun validate :: "WireMessage \<Rightarrow> check" where
  "validate (Hello v) = validate_hello v (ValidationError_new MtHello)"
| "validate (Authenticate v) = validate_authenticate v (ValidationError_new MtAuthenticate)"
| "validate (DeviceSnapshot v) = DeviceSnapshotV1_validate v"
| "validate (DeviceAdded v) = DeviceAddedV1_validate v"
| "validate (DeviceRemoved v) = DeviceRemovedV1_validate v"
| "validate (DisplaySnapshot v) = DisplaySnapshotV1_validate v"
| "validate (DisplayUpdated v) = DisplayUpdatedV1_validate v"
| "validate (Input v) = validate_input v (ValidationError_new MtInput)"
| "validate (PointerEnter v) =
     (let invalid = ValidationError_new MtPointerEnter in
      and_then (normalized (enter_normalized_position v) invalid) (\<lambda>_.
      ensure (enter_source_host v \<noteq> enter_destination_host v)
        (invalid (Because ''pointer-enter destination must be a different host''))))"
| "validate (PointerLeave v) =
     normalized (leave_normalized_position v) (ValidationError_new MtPointerLeave)"
| "validate (PointerTransitionCommit v) =
     ensure (commit_source_host v \<noteq> commit_destination_host v)
       (ValidationError_new MtPointerTransitionCommit
          (Because ''pointer-transition commit destination must be a different host''))"
| "validate (Clipboard v) =
     string_len ''text'' (clip_text v) MAX_CLIPBOARD_TEXT_BYTES (ValidationError_new MtClipboard)"
| "validate (ReleaseInput v) =
     (let invalid = ValidationError_new MtReleaseInput in
      and_then (list_len ''keys'' (length (rel_keys v)) MAX_RELEASE_KEYS invalid) (\<lambda>_.
      list_len ''buttons'' (length (rel_buttons v)) MAX_RELEASE_BUTTONS invalid))"
| "validate (ReleaseInput2 v) = ReleaseInputV2_validate v"
| "validate (ReleaseAppliedAck v) = ReleaseAppliedAckV2_validate v"
| "validate (PointerTransitionAck _) = Inr ()"
| "validate (Ping _) = Inr ()"
| "validate (Pong _) = Inr ()"

section \<open>What the checks accept\<close>

named_theorems accepts \<open>when a validation helper returns \<^verbatim>\<open>Ok\<close>\<close>

lemma helper_accepts [accepts]:
  "string_len n v m i = Inr u \<longleftrightarrow> str_len v \<le> m"
  "list_len n l m i = Inr u \<longleftrightarrow> l \<le> m"
  "positive_counter n c i = Inr u \<longleftrightarrow> c \<noteq> 0"
  "nonzero_secret n k i = Inr u \<longleftrightarrow> k \<noteq> 0"
  "positive_revision n c i = Inr u \<longleftrightarrow> c \<noteq> 0"
  "non_nil_id n d i = Inr u \<longleftrightarrow> d \<noteq> nil_id"
  "finite_f64 n x i = Inr u \<longleftrightarrow> f64_is_finite x"
  "normalized x i = Inr u \<longleftrightarrow> f64_is_finite x \<and> f64_le f64_zero x \<and> f64_le x f64_one"
  "positive_bounded n x b i = Inr u \<longleftrightarrow> f64_is_finite x \<and> \<not> f64_le x f64_zero \<and> \<not> f64_lt b x"
  "bounded_coordinate n x i = Inr u \<longleftrightarrow>
     f64_is_finite x \<and> \<not> f64_lt MAX_DISPLAY_NATIVE_COORDINATE_ABS (f64_abs x)"
  "validate_name w s i = Inr u \<longleftrightarrow> (\<exists>c\<in>set s. \<not> is_whitespace c) \<and> (\<forall>c\<in>set s. \<not> is_control c)"
  by (auto simp: string_len_def list_len_def positive_counter_def nonzero_secret_def
      positive_revision_def non_nil_id_def finite_f64_def normalized_def positive_bounded_def
      bounded_coordinate_def validate_name_def str_trim_eq_Nil list_ex_iff)

lemma all_unique_loop_iff: "all_unique_loop vs U \<longleftrightarrow> distinct vs \<and> set vs \<inter> U = {}"
  by (induction vs arbitrary: U) auto

lemma all_unique_iff [simp]: "all_unique vs \<longleftrightarrow> distinct vs"
  by (simp add: all_unique_def all_unique_loop_iff)

definition wf_name :: "nat \<Rightarrow> rust_string \<Rightarrow> bool" where
  "wf_name m s \<longleftrightarrow> str_len s \<le> m \<and> (\<exists>c\<in>set s. \<not> is_whitespace c) \<and> (\<forall>c\<in>set s. \<not> is_control c)"

definition wf_wire_device :: "WireInputDeviceV1 \<Rightarrow> bool" where
  "wf_wire_device d \<longleftrightarrow> wf_name MAX_DEVICE_NAME_BYTES (wdev_name d) \<and> wdev_id d \<noteq> nil_id
     \<and> wdev_host_id d \<noteq> nil_id"

definition positive_upto :: "f64 \<Rightarrow> f64 \<Rightarrow> bool" where
  "positive_upto m x \<longleftrightarrow> f64_lt f64_zero x \<and> f64_le x m"

lemma f64_num_le_key: "f64_num a \<le> f64_num b \<longleftrightarrow> f64_key a \<le> f64_key b"
  by (rule f64_key_le_iff_num[symmetric])

lemma positive_upto_iff:
  assumes "f64_is_finite m"
  shows "positive_upto m x \<longleftrightarrow> f64_is_finite x \<and> \<not> f64_le x f64_zero \<and> \<not> f64_lt m x"
proof
  assume p: "positive_upto m x"
  then have "f64_is_finite x"
    using f64_le_finite_between[of f64_zero x m] assms f64_lt_imp_le by (auto simp: positive_upto_def)
  with p assms show "f64_is_finite x \<and> \<not> f64_le x f64_zero \<and> \<not> f64_lt m x"
    by (auto simp: positive_upto_def f64_le_def f64_lt_def)
next
  assume "f64_is_finite x \<and> \<not> f64_le x f64_zero \<and> \<not> f64_lt m x"
  with assms show "positive_upto m x"
    by (auto simp: positive_upto_def f64_le_def f64_lt_def dest: f64_finite_not_nan)
qed

lemma display_bounds_finite:
  "f64_is_finite MAX_DISPLAY_LOGICAL_DIMENSION" "f64_is_finite MAX_DISPLAY_PHYSICAL_DIMENSION"
  "f64_is_finite MAX_DISPLAY_SCALE_FACTOR" "f64_is_finite MAX_DISPLAY_REFRESH_RATE_HZ"
  "f64_is_finite MAX_DISPLAY_NATIVE_COORDINATE_ABS"
  by (simp_all add: f64_is_finite_def f64_mag_def inf_mag_def MAX_DISPLAY_LOGICAL_DIMENSION_def
      MAX_DISPLAY_PHYSICAL_DIMENSION_def MAX_DISPLAY_SCALE_FACTOR_def MAX_DISPLAY_REFRESH_RATE_HZ_def
      MAX_DISPLAY_NATIVE_COORDINATE_ABS_def)

lemma positive_bounded_accepts:
  "f64_is_finite m \<Longrightarrow> positive_bounded n x m i = Inr u \<longleftrightarrow> positive_upto m x"
  by (simp add: accepts positive_upto_iff)

definition within_native :: "f64 \<Rightarrow> bool" where
  "within_native x \<longleftrightarrow> f64_is_finite x \<and> \<not> f64_lt MAX_DISPLAY_NATIVE_COORDINATE_ABS (f64_abs x)"

definition wf_wire_rect :: "WireRect \<Rightarrow> bool" where
  "wf_wire_rect r \<longleftrightarrow> within_native (wrect_x r) \<and> within_native (wrect_y r)
     \<and> positive_upto MAX_DISPLAY_PHYSICAL_DIMENSION (wrect_width r)
     \<and> positive_upto MAX_DISPLAY_PHYSICAL_DIMENSION (wrect_height r)
     \<and> within_native (f64_add (wrect_x r) (wrect_width r))
     \<and> within_native (f64_add (wrect_y r) (wrect_height r))"

definition wf_wire_display :: "WireDisplayV1 \<Rightarrow> bool" where
  "wf_wire_display d \<longleftrightarrow> wf_name MAX_DISPLAY_NAME_BYTES (wdisp_name d)
     \<and> wdisp_id d \<noteq> nil_id \<and> wdisp_host_id d \<noteq> nil_id
     \<and> positive_upto MAX_DISPLAY_LOGICAL_DIMENSION (wsize_width (wdisp_logical_size d))
     \<and> positive_upto MAX_DISPLAY_LOGICAL_DIMENSION (wsize_height (wdisp_logical_size d))
     \<and> pred_option (\<lambda>s. positive_upto MAX_DISPLAY_PHYSICAL_DIMENSION (wsize_width s)
           \<and> positive_upto MAX_DISPLAY_PHYSICAL_DIMENSION (wsize_height s)) (wdisp_physical_size d)
     \<and> positive_upto MAX_DISPLAY_SCALE_FACTOR (wdisp_scale_factor d)
     \<and> pred_option (positive_upto MAX_DISPLAY_REFRESH_RATE_HZ) (wdisp_refresh_rate d)
     \<and> wf_wire_rect (wdisp_native_bounds d)"

lemma validate_device_accepts [accepts]: "validate_device d i = Inr u \<longleftrightarrow> wf_wire_device d"
  by (simp add: validate_device_def accepts wf_wire_device_def wf_name_def conj_ac)

lemma validate_display_accepts [accepts]: "validate_display d i = Inr u \<longleftrightarrow> wf_wire_display d"
  by (simp add: validate_display_def wf_wire_display_def wf_wire_rect_def within_native_def wf_name_def
      positive_bounded_accepts display_bounds_finite helper_accepts(1,6,10,11)
      split: option.splits)

lemma validate_devices_loop_accepts [accepts]:
  "validate_devices_loop ds h U i = Inr u \<longleftrightarrow>
     (\<forall>d\<in>set ds. wf_wire_device d \<and> wdev_host_id d = h) \<and> distinct (map wdev_id ds)
     \<and> wdev_id ` set ds \<inter> U = {}"
  by (induction ds arbitrary: U) (auto simp: accepts)

lemma validate_displays_loop_accepts [accepts]:
  "validate_displays_loop ds h U n i = Inr c \<longleftrightarrow>
     (\<forall>d\<in>set ds. wf_wire_display d \<and> wdisp_host_id d = h) \<and> distinct (map wdisp_id ds)
     \<and> wdisp_id ` set ds \<inter> U = {} \<and> c = n + length (filter wdisp_primary ds)"
  by (induction ds arbitrary: U n) (auto simp: accepts)

section \<open>Errors name their message\<close>

definition tagged :: "MessageType \<Rightarrow> (ValidationError, 'a) result \<Rightarrow> bool" where
  "tagged mt r \<longleftrightarrow> (\<forall>e. r = Inl e \<longrightarrow> ve_message_type e = mt)"

lemma tagged_Inr [simp]: "tagged mt (Inr x)"
  by (simp add: tagged_def)

lemma tagged_ensure [simp]: "tagged mt (ensure c (ValidationError_new mt d))"
  by (simp add: tagged_def ValidationError_new_def)

lemma tagged_and_then [simp]:
  "tagged mt r \<Longrightarrow> (\<And>x. r = Inr x \<Longrightarrow> tagged mt (f x)) \<Longrightarrow> tagged mt (and_then r f)"
  by (auto simp: tagged_def and_then_eq_Inl)

lemma tagged_helpers [simp]:
  "tagged mt (string_len n v m (ValidationError_new mt))"
  "tagged mt (list_len n l m (ValidationError_new mt))"
  "tagged mt (positive_counter n c (ValidationError_new mt))"
  "tagged mt (nonzero_secret n k (ValidationError_new mt))"
  "tagged mt (positive_revision n c (ValidationError_new mt))"
  "tagged mt (non_nil_id n d (ValidationError_new mt))"
  "tagged mt (finite_f64 n x (ValidationError_new mt))"
  "tagged mt (normalized x (ValidationError_new mt))"
  "tagged mt (positive_bounded n x b (ValidationError_new mt))"
  "tagged mt (bounded_coordinate n x (ValidationError_new mt))"
  "tagged mt (validate_name w s (ValidationError_new mt))"
  by (simp_all add: tagged_def ValidationError_new_def string_len_def list_len_def
      positive_counter_def nonzero_secret_def positive_revision_def non_nil_id_def finite_f64_def
      normalized_def positive_bounded_def bounded_coordinate_def validate_name_def)

lemma tagged_validate_device [simp]: "tagged mt (validate_device d (ValidationError_new mt))"
  by (simp add: validate_device_def)

lemma tagged_validate_display [simp]: "tagged mt (validate_display d (ValidationError_new mt))"
  by (simp add: validate_display_def split: option.splits)

lemma tagged_validate_devices_loop [simp]:
  "tagged mt (validate_devices_loop ds h U (ValidationError_new mt))"
  by (induction ds arbitrary: U) simp_all

lemma tagged_validate_displays_loop [simp]:
  "tagged mt (validate_displays_loop ds h U n (ValidationError_new mt))"
  by (induction ds arbitrary: U n) simp_all

lemma tagged_validate_input_payload [simp]:
  "tagged mt (validate_input_payload p (ValidationError_new mt))"
  by (cases p) simp_all

lemma tagged_validate: "tagged (message_type m) (validate m)"
  by (cases m)
    (simp_all add: validate_hello_def validate_authenticate_def DeviceSnapshotV1_validate_def
      DeviceAddedV1_validate_def DeviceRemovedV1_validate_def DisplaySnapshotV1_validate_def
      DisplayUpdatedV1_validate_def validate_input_def ReleaseInputV2_validate_def
      ReleaseAppliedAckV2_validate_def validate_release_v2_def validate_release_ack_v2_def Let_def
      split: option.splits)

section \<open>Message codes\<close>

lemma message_type_of_code_iff: "message_type_of_code v = Inr t \<longleftrightarrow> v = message_type_code t"
  by (cases t) (auto simp: message_type_of_code_def)

lemma message_type_code_inj: "message_type_code a = message_type_code b \<longleftrightarrow> a = b"
  by (metis message_type_of_code_iff sum.inject(2))

section \<open>Properties of validation\<close>

lemma ve_message_type_tagged: "tagged mt r \<Longrightarrow> r = Inl e \<Longrightarrow> ve_message_type e = mt"
  by (simp add: tagged_def)

text \<open>
  a display snapshot is accepted exactly when its revision is positive, its host is real, it
  has at most the permitted number of displays, each display is well formed and owned by the
  snapshot's host, no display identifier occurs twice and exactly one display is primary.
\<close>

theorem display_snapshot_accepted_iff:
  "validate (DisplaySnapshot v) = Inr () \<longleftrightarrow>
     dpsnap_revision v \<noteq> 0 \<and> dpsnap_host_id v \<noteq> nil_id
     \<and> length (dpsnap_displays v) \<le> MAX_SNAPSHOT_ITEMS
     \<and> list_all (\<lambda>d. wf_wire_display d \<and> wdisp_host_id d = dpsnap_host_id v) (dpsnap_displays v)
     \<and> distinct (map wdisp_id (dpsnap_displays v))
     \<and> length (filter wdisp_primary (dpsnap_displays v)) = 1"
  by (auto simp: DisplaySnapshotV1_validate_def Let_def accepts list_all_iff)

text \<open>
  a device snapshot is accepted exactly when its revision is positive, its host is real, it
  has at most the permitted number of devices, each device has a bounded printable name and real
  identifiers and belongs to the snapshot's host, and no device identifier occurs twice.
\<close>

theorem device_snapshot_accepted_iff:
  "validate (DeviceSnapshot v) = Inr () \<longleftrightarrow>
     dsnap_revision v \<noteq> 0 \<and> dsnap_host_id v \<noteq> nil_id
     \<and> length (dsnap_devices v) \<le> MAX_SNAPSHOT_ITEMS
     \<and> list_all (\<lambda>d. wf_wire_device d \<and> wdev_host_id d = dsnap_host_id v) (dsnap_devices v)
     \<and> distinct (map wdev_id (dsnap_devices v))"
  by (auto simp: DeviceSnapshotV1_validate_def Let_def accepts list_all_iff)

lemma release_v2_fits_usize:
  "length ks \<le> MAX_RELEASE_KEYS \<Longrightarrow> length bs \<le> MAX_RELEASE_BUTTONS \<Longrightarrow> length ks + length bs < 2 ^ 64"
  by (simp add: MAX_RELEASE_KEYS_def MAX_RELEASE_BUTTONS_def)

lemma validate_release_v2_accepts [accepts]:
  "validate_release_v2 r i = Inr u \<longleftrightarrow>
     rel2_transaction_id r \<noteq> 0 \<and> rel2_release_token r \<noteq> 0 \<and> rel2_old_session_id r \<noteq> 0
     \<and> rel2_release_token r \<noteq> rel2_old_session_id r
     \<and> 0 < rel2_covered_input_sequence r \<and> rel2_covered_input_sequence r < rel2_sequence r
     \<and> rel2_source_host r \<noteq> nil_id \<and> rel2_applying_host r \<noteq> nil_id
     \<and> rel2_source_host r \<noteq> rel2_applying_host r \<and> rel2_source_device r \<noteq> Some nil_id
     \<and> length (rel2_keys r) \<le> MAX_RELEASE_KEYS \<and> length (rel2_buttons r) \<le> MAX_RELEASE_BUTTONS
     \<and> length (rel2_keys r) + length (rel2_buttons r) \<le> MAX_RELEASE_CONTROLS
     \<and> distinct (rel2_keys r) \<and> distinct (rel2_buttons r)"
  using release_v2_fits_usize[of "rel2_keys r" "rel2_buttons r"]
  by (cases "rel2_source_device r") (auto simp: validate_release_v2_def accepts word_neq_0_conv)

text \<open>
  release proofs.  A release request is accepted exactly when its transaction and covered
  input sequence are positive, the covered sequence precedes its own, the token and the old
  session are nonzero and differ, source and applying hosts are real and differ, and the controls
  are bounded and free of duplicates; an acknowledgement is accepted under the same identity and
  ordering conditions on the release sequence it acknowledges.
\<close>

theorem release_proof_accepted_iff:
  "(validate (ReleaseInput2 r) = Inr () \<longleftrightarrow>
     rel2_transaction_id r \<noteq> 0 \<and> rel2_release_token r \<noteq> 0 \<and> rel2_old_session_id r \<noteq> 0
     \<and> rel2_release_token r \<noteq> rel2_old_session_id r
     \<and> 0 < rel2_covered_input_sequence r \<and> rel2_covered_input_sequence r < rel2_sequence r
     \<and> rel2_source_host r \<noteq> nil_id \<and> rel2_applying_host r \<noteq> nil_id
     \<and> rel2_source_host r \<noteq> rel2_applying_host r \<and> rel2_source_device r \<noteq> Some nil_id
     \<and> length (rel2_keys r) \<le> MAX_RELEASE_KEYS \<and> length (rel2_buttons r) \<le> MAX_RELEASE_BUTTONS
     \<and> length (rel2_keys r) + length (rel2_buttons r) \<le> MAX_RELEASE_CONTROLS
     \<and> distinct (rel2_keys r) \<and> distinct (rel2_buttons r))
   \<and> (validate (ReleaseAppliedAck a) = Inr () \<longleftrightarrow>
     rack_transaction_id a \<noteq> 0 \<and> rack_release_token a \<noteq> 0 \<and> rack_old_session_id a \<noteq> 0
     \<and> rack_release_token a \<noteq> rack_old_session_id a \<and> rack_sequence a \<noteq> 0
     \<and> 0 < rack_covered_input_sequence a \<and> rack_covered_input_sequence a < rack_release_sequence a
     \<and> rack_source_host a \<noteq> nil_id \<and> rack_applying_host a \<noteq> nil_id
     \<and> rack_source_host a \<noteq> rack_applying_host a)"
  by (auto simp: ReleaseInputV2_validate_def ReleaseAppliedAckV2_validate_def
      validate_release_ack_v2_def accepts word_neq_0_conv)

text \<open>
  a validation error always names the type of the message that was rejected, and a message
  with no limit of its own (ping, pong, transition acknowledgement) is never rejected.
\<close>

theorem validation_error_names_message:
  "(\<forall>e. validate m = Inl e \<longrightarrow> ve_message_type e = message_type m)
   \<and> (message_type m \<in> {MtPing, MtPong, MtPointerTransitionAck} \<longrightarrow> validate m = Inr ())"
  using ve_message_type_tagged[OF tagged_validate[of m]] by (cases m) auto

theorem validation_error_names_message_witness:
  "\<exists>m e. validate m = Inl e \<and> ve_message_type e = message_type m \<and> message_type m = MtHello"
proof -
  let ?m = "Hello \<lparr>hello_host_id = 5, hello_peer_id = 6, hello_host_name = [65],
     hello_platform = WireWindows, hello_minimum_protocol_version = 0,
     hello_maximum_protocol_version = 1, hello_daemon_version = [49], hello_nonce = 7\<rparr>"
  have "validate ?m = Inl (ValidationError_new MtHello (Because ''minimum protocol version must be positive''))"
    by (simp add: validate_hello_def string_len_def str_len_def len_utf8_def MAX_HOST_NAME_BYTES_def)
  then show ?thesis
    using validation_error_names_message[of ?m] by fastforce
qed

end
