(* ===== verification/Frame.thy ===== *)
theory Frame
  imports WireMessages
begin

text \<open>
  Framing (\<^verbatim>\<open>kvm-protocol/src/frame.rs\<close> and the payload codec of \<^verbatim>\<open>message.rs\<close>): the 12-byte header,
  encoding into a shared buffer with rollback, and decoding of exactly one frame.  The payload
  serializer is the \<^verbatim>\<open>postcard\<close> crate, a parameter of the model: one codec per payload type, of
  which \<open>postcard_ok\<close> states the documented round trip.
\<close>

section \<open>Big-endian integers\<close>

definition u16_to_be_bytes :: "u16 \<Rightarrow> u8 list" where
  "u16_to_be_bytes v = [of_nat (unat v div 256), of_nat (unat v mod 256)]"

definition u16_from_be_bytes :: "u8 \<Rightarrow> u8 \<Rightarrow> u16" where
  "u16_from_be_bytes a b = of_nat (unat a * 256 + unat b)"

definition u32_to_be_bytes :: "u32 \<Rightarrow> u8 list" where
  "u32_to_be_bytes v = [of_nat (unat v div 16777216), of_nat (unat v div 65536),
     of_nat (unat v div 256), of_nat (unat v mod 256)]"

definition u32_from_be_bytes :: "u8 \<Rightarrow> u8 \<Rightarrow> u8 \<Rightarrow> u8 \<Rightarrow> u32" where
  "u32_from_be_bytes a b c d =
     of_nat (unat a * 16777216 + unat b * 65536 + unat c * 256 + unat d)"

section \<open>Header\<close>

definition FRAME_MAGIC :: "u8 list" where
  "FRAME_MAGIC = [83, 75, 86, 77]"

definition PROTOCOL_VERSION :: u16 where
  "PROTOCOL_VERSION = PROTOCOL_VERSION_V1"

definition RELEASE_PROOF_PROTOCOL_VERSION :: u16 where
  "RELEASE_PROOF_PROTOCOL_VERSION = PROTOCOL_VERSION_V2"

definition FRAME_HEADER_LEN :: nat where
  "FRAME_HEADER_LEN = 12"

definition MAX_FRAME_PAYLOAD :: nat where
  "MAX_FRAME_PAYLOAD = 1024 * 1024"

record FrameHeader =
  fh_protocol_version :: u16
  fh_message_type :: MessageType
  fh_payload_length :: u32

definition is_supported_protocol_version :: "u16 \<Rightarrow> bool" where
  "is_supported_protocol_version v \<longleftrightarrow>
     MIN_SUPPORTED_PROTOCOL_VERSION \<le> v \<and> v \<le> CURRENT_PROTOCOL_VERSION"

definition supports_release_proof :: "u16 \<Rightarrow> bool" where
  "supports_release_proof v \<longleftrightarrow>
     is_supported_protocol_version v \<and> RELEASE_PROOF_PROTOCOL_VERSION \<le> v"

definition require_supported_version :: "u16 \<Rightarrow> (ProtocolError, unit) result" where
  "require_supported_version v =
     ensure (is_supported_protocol_version v) (UnsupportedVersion v CURRENT_PROTOCOL_VERSION)"

definition require_message_version :: "MessageType \<Rightarrow> u16 \<Rightarrow> (ProtocolError, unit) result" where
  "require_message_version mt v =
     (if v < type_minimum_protocol_version mt then Inl (MessageVersionMismatch mt v) else Inr ())"

definition header_encode :: "FrameHeader \<Rightarrow> u8 list" where
  "header_encode h = FRAME_MAGIC @ u16_to_be_bytes (fh_protocol_version h)
     @ u16_to_be_bytes (message_type_code (fh_message_type h)) @ u32_to_be_bytes (fh_payload_length h)"

definition decode_supported :: "u8 list \<Rightarrow> (ProtocolError, FrameHeader) result" where
  "decode_supported bytes =
     (if length bytes < FRAME_HEADER_LEN then Inl (HeaderTruncated FRAME_HEADER_LEN (length bytes))
      else let magic = [bytes ! 0, bytes ! 1, bytes ! 2, bytes ! 3];
               version = u16_from_be_bytes (bytes ! 4) (bytes ! 5);
               payload_length = u32_from_be_bytes (bytes ! 8) (bytes ! 9) (bytes ! 10) (bytes ! 11)
      in if magic \<noteq> FRAME_MAGIC then Inl (InvalidMagic magic)
         else if \<not> is_supported_protocol_version version
           then Inl (UnsupportedVersion version CURRENT_PROTOCOL_VERSION)
         else and_then (message_type_of_code (u16_from_be_bytes (bytes ! 6) (bytes ! 7))) (\<lambda>mt.
           and_then (require_message_version mt version) (\<lambda>_.
             if unat payload_length > MAX_FRAME_PAYLOAD
             then Inl (PayloadTooLarge (unat payload_length) MAX_FRAME_PAYLOAD)
             else Inr \<lparr>fh_protocol_version = version, fh_message_type = mt,
                       fh_payload_length = payload_length\<rparr>)))"

definition header_decode :: "u8 list \<Rightarrow> (ProtocolError, FrameHeader) result" where
  "header_decode bytes =
     and_then (decode_supported bytes) (\<lambda>h.
       if fh_protocol_version h \<noteq> PROTOCOL_VERSION_V1
       then Inl (UnsupportedVersion (fh_protocol_version h) PROTOCOL_VERSION_V1)
       else Inr h)"

definition decode_for_version :: "u8 list \<Rightarrow> u16 \<Rightarrow> (ProtocolError, FrameHeader) result" where
  "decode_for_version bytes required =
     and_then (require_supported_version required) (\<lambda>_.
     and_then (decode_supported bytes) (\<lambda>h.
       if fh_protocol_version h \<noteq> required
       then Inl (UnsupportedVersion (fh_protocol_version h) required)
       else Inr h))"

section \<open>The payload serializer\<close>

text \<open>
  \<open>to_extend\<close> returns the bytes it appended and whether it succeeded; \<open>take_from_bytes\<close> returns
  the value and the unread rest.
\<close>

record 'a payload_codec =
  to_extend :: "'a \<Rightarrow> u8 list \<times> bool"
  take_from_bytes :: "u8 list \<Rightarrow> ('a \<times> u8 list) option"

record postcard =
  pc_hello :: "HelloV1 payload_codec"
  pc_authenticate :: "AuthenticateV1 payload_codec"
  pc_device_snapshot :: "DeviceSnapshotV1 payload_codec"
  pc_device_added :: "DeviceAddedV1 payload_codec"
  pc_device_removed :: "DeviceRemovedV1 payload_codec"
  pc_display_snapshot :: "DisplaySnapshotV1 payload_codec"
  pc_display_updated :: "DisplayUpdatedV1 payload_codec"
  pc_input :: "InputEventV1 payload_codec"
  pc_pointer_enter :: "PointerEnterV1 payload_codec"
  pc_pointer_leave :: "PointerLeaveV1 payload_codec"
  pc_pointer_transition_ack :: "PointerTransitionAckV1 payload_codec"
  pc_pointer_transition_commit :: "PointerTransitionCommitV1 payload_codec"
  pc_clipboard :: "ClipboardV1 payload_codec"
  pc_ping :: "PingV1 payload_codec"
  pc_pong :: "PongV1 payload_codec"
  pc_release_input :: "ReleaseInputV1 payload_codec"
  pc_release_input_v2 :: "ReleaseInputV2 payload_codec"
  pc_release_applied_ack_v2 :: "ReleaseAppliedAckV2 payload_codec"

fun serialize_payload :: "postcard \<Rightarrow> WireMessage \<Rightarrow> u8 list \<times> bool" where
  "serialize_payload pc (Hello v) = to_extend (pc_hello pc) v"
| "serialize_payload pc (Authenticate v) = to_extend (pc_authenticate pc) v"
| "serialize_payload pc (DeviceSnapshot v) = to_extend (pc_device_snapshot pc) v"
| "serialize_payload pc (DeviceAdded v) = to_extend (pc_device_added pc) v"
| "serialize_payload pc (DeviceRemoved v) = to_extend (pc_device_removed pc) v"
| "serialize_payload pc (DisplaySnapshot v) = to_extend (pc_display_snapshot pc) v"
| "serialize_payload pc (DisplayUpdated v) = to_extend (pc_display_updated pc) v"
| "serialize_payload pc (Input v) = to_extend (pc_input pc) v"
| "serialize_payload pc (PointerEnter v) = to_extend (pc_pointer_enter pc) v"
| "serialize_payload pc (PointerLeave v) = to_extend (pc_pointer_leave pc) v"
| "serialize_payload pc (PointerTransitionAck v) = to_extend (pc_pointer_transition_ack pc) v"
| "serialize_payload pc (PointerTransitionCommit v) = to_extend (pc_pointer_transition_commit pc) v"
| "serialize_payload pc (Clipboard v) = to_extend (pc_clipboard pc) v"
| "serialize_payload pc (Ping v) = to_extend (pc_ping pc) v"
| "serialize_payload pc (Pong v) = to_extend (pc_pong pc) v"
| "serialize_payload pc (ReleaseInput v) = to_extend (pc_release_input pc) v"
| "serialize_payload pc (ReleaseInput2 v) = to_extend (pc_release_input_v2 pc) v"
| "serialize_payload pc (ReleaseAppliedAck v) = to_extend (pc_release_applied_ack_v2 pc) v"

text \<open>Append the payload to the buffer; a failed serialization rewinds the buffer.\<close>

definition encode_payload_into :: "postcard \<Rightarrow> WireMessage \<Rightarrow> u8 list \<Rightarrow> u8 list \<times> bool" where
  "encode_payload_into pc m buf =
     (let entry_len = length buf; (bytes, ok) = serialize_payload pc m; buf' = buf @ bytes
      in if ok then (buf', True) else (take entry_len buf', False))"

definition decode_exact ::
  "'a payload_codec \<Rightarrow> MessageType \<Rightarrow> u8 list \<Rightarrow> (ProtocolError, 'a) result" where
  "decode_exact c mt bytes =
     (case take_from_bytes c bytes of
        None \<Rightarrow> Inl (DecodeError mt)
      | Some (v, remaining) \<Rightarrow> if remaining \<noteq> [] then Inl (DecodeError mt) else Inr v)"

definition map_ok :: "('a \<Rightarrow> 'b) \<Rightarrow> ('e, 'a) result \<Rightarrow> ('e, 'b) result" where
  "map_ok f r = and_then r (\<lambda>x. Inr (f x))"

definition decode_payload :: "postcard \<Rightarrow> MessageType \<Rightarrow> u8 list \<Rightarrow> (ProtocolError, WireMessage) result" where
  "decode_payload pc mt bytes =
     (case mt of
        MtHello \<Rightarrow> map_ok Hello (decode_exact (pc_hello pc) mt bytes)
      | MtAuthenticate \<Rightarrow> map_ok Authenticate (decode_exact (pc_authenticate pc) mt bytes)
      | MtDeviceSnapshot \<Rightarrow> map_ok DeviceSnapshot (decode_exact (pc_device_snapshot pc) mt bytes)
      | MtDeviceAdded \<Rightarrow> map_ok DeviceAdded (decode_exact (pc_device_added pc) mt bytes)
      | MtDeviceRemoved \<Rightarrow> map_ok DeviceRemoved (decode_exact (pc_device_removed pc) mt bytes)
      | MtDisplaySnapshot \<Rightarrow> map_ok DisplaySnapshot (decode_exact (pc_display_snapshot pc) mt bytes)
      | MtDisplayUpdated \<Rightarrow> map_ok DisplayUpdated (decode_exact (pc_display_updated pc) mt bytes)
      | MtInput \<Rightarrow> map_ok Input (decode_exact (pc_input pc) mt bytes)
      | MtPointerEnter \<Rightarrow> map_ok PointerEnter (decode_exact (pc_pointer_enter pc) mt bytes)
      | MtPointerLeave \<Rightarrow> map_ok PointerLeave (decode_exact (pc_pointer_leave pc) mt bytes)
      | MtPointerTransitionAck \<Rightarrow>
          map_ok PointerTransitionAck (decode_exact (pc_pointer_transition_ack pc) mt bytes)
      | MtPointerTransitionCommit \<Rightarrow>
          map_ok PointerTransitionCommit (decode_exact (pc_pointer_transition_commit pc) mt bytes)
      | MtClipboard \<Rightarrow> map_ok Clipboard (decode_exact (pc_clipboard pc) mt bytes)
      | MtPing \<Rightarrow> map_ok Ping (decode_exact (pc_ping pc) mt bytes)
      | MtPong \<Rightarrow> map_ok Pong (decode_exact (pc_pong pc) mt bytes)
      | MtReleaseInput \<Rightarrow> map_ok ReleaseInput (decode_exact (pc_release_input pc) mt bytes)
      | MtReleaseInputV2 \<Rightarrow> map_ok ReleaseInput2 (decode_exact (pc_release_input_v2 pc) mt bytes)
      | MtReleaseAppliedAckV2 \<Rightarrow>
          map_ok ReleaseAppliedAck (decode_exact (pc_release_applied_ack_v2 pc) mt bytes))"

section \<open>Frames\<close>

text \<open>The buffer after the call and the result.\<close>

definition encode_frame_for_version_into ::
  "postcard \<Rightarrow> WireMessage \<Rightarrow> u16 \<Rightarrow> u8 list \<Rightarrow> u8 list \<times> (ProtocolError, unit) result" where
  "encode_frame_for_version_into pc m required out =
     (case and_then (require_supported_version required) (\<lambda>_.
           and_then (require_message_version (message_type m) required) (\<lambda>_.
           map_err InvalidMessage (validate m))) of
        Inl e \<Rightarrow> (out, Inl e)
      | Inr _ \<Rightarrow>
         (let header_start = length out;
              out1 = out @ replicate FRAME_HEADER_LEN 0;
              payload_start = length out1;
              (out2, ok) = encode_payload_into pc m out1
          in if \<not> ok then (take header_start out2, Inl (EncodeError (message_type m)))
          else let payload_len = length out2 - payload_start in
            if payload_len > MAX_FRAME_PAYLOAD
            then (take header_start out2, Inl (PayloadTooLarge payload_len MAX_FRAME_PAYLOAD))
            else if payload_len \<ge> 2 ^ 32
            then (out2, Inl (PayloadTooLarge payload_len MAX_FRAME_PAYLOAD))
            else let header = \<lparr>fh_protocol_version = required, fh_message_type = message_type m,
                               fh_payload_length = of_nat payload_len\<rparr>
              in (take header_start out2 @ header_encode header
                  @ drop (header_start + FRAME_HEADER_LEN) out2, Inr ())))"

definition encode_frame_for_version ::
  "postcard \<Rightarrow> WireMessage \<Rightarrow> u16 \<Rightarrow> (ProtocolError, u8 list) result" where
  "encode_frame_for_version pc m required =
     (let (frame, res) = encode_frame_for_version_into pc m required [] in and_then res (\<lambda>_. Inr frame))"

definition encode_frame :: "postcard \<Rightarrow> WireMessage \<Rightarrow> (ProtocolError, u8 list) result" where
  "encode_frame pc m = encode_frame_for_version pc m PROTOCOL_VERSION"

definition decode_frame_for_version ::
  "postcard \<Rightarrow> u8 list \<Rightarrow> u16 \<Rightarrow> (ProtocolError, WireMessage) result" where
  "decode_frame_for_version pc frame required =
     and_then (decode_for_version frame required) (\<lambda>header.
     and_then (require_message_version (fh_message_type header) required) (\<lambda>_.
       let declared = unat (fh_payload_length header);
           available = length frame - FRAME_HEADER_LEN
       in if available < declared then Inl (PayloadTruncated declared available)
          else if available > declared then Inl (TrailingBytes (available - declared))
          else and_then (decode_payload pc (fh_message_type header) (drop FRAME_HEADER_LEN frame)) (\<lambda>m.
            and_then (map_err InvalidMessage (validate m)) (\<lambda>_. Inr m))))"

definition decode_frame :: "postcard \<Rightarrow> u8 list \<Rightarrow> (ProtocolError, WireMessage) result" where
  "decode_frame pc frame = decode_frame_for_version pc frame PROTOCOL_VERSION"

section \<open>Byte-order lemmas\<close>

lemma length_be_bytes [simp]: "length (u16_to_be_bytes v) = 2" "length (u32_to_be_bytes w) = 4"
  by (simp_all add: u16_to_be_bytes_def u32_to_be_bytes_def)

lemma word_eq_of_nat_iff: "(w :: 'a::len word) = of_nat n \<longleftrightarrow> unat w = n mod 2 ^ LENGTH('a)"
  by (metis unat_of_nat word_unat_eq_iff)

lemma unat_u8_less: "unat (a :: u8) < 256"
  using unat_less_2p[of a] by simp

lemma unat_u16_from_be: "unat (u16_from_be_bytes a b) = unat a * 256 + unat b"
  unfolding u16_from_be_bytes_def unat_of_nat
  using unat_u8_less[of a] unat_u8_less[of b] by simp

lemma unat_u32_from_be:
  "unat (u32_from_be_bytes a b c d) = unat a * 16777216 + unat b * 65536 + unat c * 256 + unat d"
  unfolding u32_from_be_bytes_def unat_of_nat
  using unat_u8_less[of a] unat_u8_less[of b] unat_u8_less[of c] unat_u8_less[of d] by simp

lemma base256_digit:
  fixes x d v :: nat
  assumes "x * 256 + d = v" "d < 256"
  shows "v div 256 = x" "v mod 256 = d"
  using assms by auto

lemma u16_be_eq_iff: "[a, b] = u16_to_be_bytes v \<longleftrightarrow> u16_from_be_bytes a b = v"
proof -
  have "unat v < 65536" using unat_less_2p[of v] by simp
  then have "unat v div 256 < 256" by linarith
  then have "[a, b] = u16_to_be_bytes v \<longleftrightarrow> unat a = unat v div 256 \<and> unat b = unat v mod 256"
    by (simp add: u16_to_be_bytes_def word_eq_of_nat_iff)
  also have "\<dots> \<longleftrightarrow> unat a * 256 + unat b = unat v"
  proof
    assume h: "unat a * 256 + unat b = unat v"
    show "unat a = unat v div 256 \<and> unat b = unat v mod 256"
      using base256_digit[OF h unat_u8_less] by simp
  qed simp
  also have "\<dots> \<longleftrightarrow> u16_from_be_bytes a b = v"
    by (simp add: word_unat_eq_iff unat_u16_from_be)
  finally show ?thesis .
qed

lemma base256_digits:
  fixes a b c d v :: nat
  assumes "b < 256" "c < 256" "d < 256"
  shows "a = v div 16777216 \<and> b = v div 65536 mod 256 \<and> c = v div 256 mod 256 \<and> d = v mod 256
    \<longleftrightarrow> a * 16777216 + b * 65536 + c * 256 + d = v"
proof
  define w where "w = v div 256"
  have w: "v div 65536 = w div 256" "v div 16777216 = w div 256 div 256"
    by (simp_all add: w_def flip: div_mult2_eq)
  have v: "v = w * 256 + v mod 256"
    by (simp add: w_def)
  assume "a = v div 16777216 \<and> b = v div 65536 mod 256 \<and> c = v div 256 mod 256 \<and> d = v mod 256"
  then have "a * 256 + b = w div 256" "w div 256 * 256 + c = w" "w * 256 + d = v"
    using v by (simp_all add: w flip: w_def)
  then show "a * 16777216 + b * 65536 + c * 256 + d = v"
    by linarith
next
  assume v: "a * 16777216 + b * 65536 + c * 256 + d = v"
  then have "(a * 65536 + b * 256 + c) * 256 + d = v" by simp
  note w = base256_digit[OF this \<open>d < 256\<close>]
  then have "(a * 256 + b) * 256 + c = v div 256" by simp
  note x = base256_digit[OF this \<open>c < 256\<close>]
  then have "a * 256 + b = v div 256 div 256" by simp
  note y = base256_digit[OF this \<open>b < 256\<close>]
  from w x y show "a = v div 16777216 \<and> b = v div 65536 mod 256 \<and> c = v div 256 mod 256 \<and> d = v mod 256"
    by (simp add: div_mult2_eq[of _ 256 256, simplified] div_mult2_eq[of _ 256 65536, simplified])
qed

lemma u32_be_eq_iff: "[a, b, c, d] = u32_to_be_bytes v \<longleftrightarrow> u32_from_be_bytes a b c d = v"
proof -
  have "unat v < 4294967296" using unat_less_2p[of v] by simp
  then have "unat v div 16777216 < 256" by linarith
  then have "[a, b, c, d] = u32_to_be_bytes v \<longleftrightarrow> unat a = unat v div 16777216
      \<and> unat b = unat v div 65536 mod 256 \<and> unat c = unat v div 256 mod 256 \<and> unat d = unat v mod 256"
    by (simp add: u32_to_be_bytes_def word_eq_of_nat_iff)
  also have "\<dots> \<longleftrightarrow> unat a * 16777216 + unat b * 65536 + unat c * 256 + unat d = unat v"
    using base256_digits unat_u8_less by blast
  also have "\<dots> \<longleftrightarrow> u32_from_be_bytes a b c d = v"
    by (simp add: word_unat_eq_iff unat_u32_from_be)
  finally show ?thesis .
qed

section \<open>Header lemmas\<close>

definition header_ok :: "FrameHeader \<Rightarrow> bool" where
  "header_ok h \<longleftrightarrow> is_supported_protocol_version (fh_protocol_version h)
     \<and> type_minimum_protocol_version (fh_message_type h) \<le> fh_protocol_version h
     \<and> unat (fh_payload_length h) \<le> MAX_FRAME_PAYLOAD"

lemma length_header_encode [simp]: "length (header_encode h) = FRAME_HEADER_LEN"
  by (simp add: header_encode_def FRAME_MAGIC_def FRAME_HEADER_LEN_def)

lemma require_message_version_ok [simp]:
  "require_message_version mt v = Inr u \<longleftrightarrow> type_minimum_protocol_version mt \<le> v"
  by (auto simp: require_message_version_def)

lemma require_supported_version_ok [simp]:
  "require_supported_version v = Inr u \<longleftrightarrow> is_supported_protocol_version v"
  by (simp add: require_supported_version_def)

lemma take_12_list:
  assumes "12 \<le> length xs"
  shows "take 12 xs = [xs ! 0, xs ! 1, xs ! 2, xs ! 3] @ [xs ! 4, xs ! 5] @ [xs ! 6, xs ! 7]
    @ [xs ! 8, xs ! 9, xs ! 10, xs ! 11]"
  using assms by (intro nth_equalityI) (auto simp: nth_append less_Suc_eq numeral_eq_Suc)

lemma header_encode_eq_iff:
  "[m0, m1, m2, m3] @ [v0, v1] @ [t0, t1] @ [l0, l1, l2, l3] = header_encode h \<longleftrightarrow>
     [m0, m1, m2, m3] = FRAME_MAGIC \<and> u16_from_be_bytes v0 v1 = fh_protocol_version h
     \<and> u16_from_be_bytes t0 t1 = message_type_code (fh_message_type h)
     \<and> u32_from_be_bytes l0 l1 l2 l3 = fh_payload_length h"
proof -
  have "length FRAME_MAGIC = 4" by (simp add: FRAME_MAGIC_def)
  then show ?thesis
    unfolding header_encode_def
    by (simp only: append_eq_append_conv[OF disjI1] length_Cons list.size length_be_bytes
        u16_be_eq_iff u32_be_eq_iff numeral_eq_Suc pred_numeral_simps arith_simps
        One_nat_def add_0 add_Suc)
qed

lemma decode_supported_iff:
  "decode_supported bytes = Inr h \<longleftrightarrow>
     FRAME_HEADER_LEN \<le> length bytes \<and> take FRAME_HEADER_LEN bytes = header_encode h \<and> header_ok h"
proof (cases "length bytes < 12")
  case True
  then show ?thesis by (simp add: decode_supported_def FRAME_HEADER_LEN_def)
next
  case False
  then have t: "take 12 bytes = [bytes ! 0, bytes ! 1, bytes ! 2, bytes ! 3] @ [bytes ! 4, bytes ! 5]
      @ [bytes ! 6, bytes ! 7] @ [bytes ! 8, bytes ! 9, bytes ! 10, bytes ! 11]"
    by (intro take_12_list) simp
  have "decode_supported bytes = Inr h \<longleftrightarrow>
     [bytes ! 0, bytes ! 1, bytes ! 2, bytes ! 3] = FRAME_MAGIC
     \<and> u16_from_be_bytes (bytes ! 4) (bytes ! 5) = fh_protocol_version h
     \<and> u16_from_be_bytes (bytes ! 6) (bytes ! 7) = message_type_code (fh_message_type h)
     \<and> u32_from_be_bytes (bytes ! 8) (bytes ! 9) (bytes ! 10) (bytes ! 11) = fh_payload_length h
     \<and> header_ok h"
    using False
    by (cases h) (auto simp: decode_supported_def Let_def FRAME_HEADER_LEN_def header_ok_def
        message_type_of_code_iff not_less simp del: One_nat_def)
  with False t show ?thesis
    by (simp only: FRAME_HEADER_LEN_def header_encode_eq_iff not_less simp_thms conj_assoc)
qed

lemma decode_for_version_iff:
  "decode_for_version bytes v = Inr h \<longleftrightarrow>
     FRAME_HEADER_LEN \<le> length bytes \<and> take FRAME_HEADER_LEN bytes = header_encode h \<and> header_ok h
     \<and> fh_protocol_version h = v"
  by (auto simp: decode_for_version_def decode_supported_iff header_ok_def)

section \<open>Frame lemmas\<close>

text \<open>The documented contract of the serializer: reading back what was written.\<close>

definition codec_ok :: "'a payload_codec \<Rightarrow> bool" where
  "codec_ok c \<longleftrightarrow> (\<forall>v bytes. to_extend c v = (bytes, True) \<longrightarrow> take_from_bytes c bytes = Some (v, []))"

definition postcard_ok :: "postcard \<Rightarrow> bool" where
  "postcard_ok pc \<longleftrightarrow>
     codec_ok (pc_hello pc) \<and> codec_ok (pc_authenticate pc) \<and> codec_ok (pc_device_snapshot pc)
     \<and> codec_ok (pc_device_added pc) \<and> codec_ok (pc_device_removed pc) \<and> codec_ok (pc_display_snapshot pc)
     \<and> codec_ok (pc_display_updated pc) \<and> codec_ok (pc_input pc) \<and> codec_ok (pc_pointer_enter pc)
     \<and> codec_ok (pc_pointer_leave pc) \<and> codec_ok (pc_pointer_transition_ack pc)
     \<and> codec_ok (pc_pointer_transition_commit pc) \<and> codec_ok (pc_clipboard pc) \<and> codec_ok (pc_ping pc)
     \<and> codec_ok (pc_pong pc) \<and> codec_ok (pc_release_input pc) \<and> codec_ok (pc_release_input_v2 pc)
     \<and> codec_ok (pc_release_applied_ack_v2 pc)"

lemma map_ok_eq_Inr [simp]: "map_ok f r = Inr y \<longleftrightarrow> (\<exists>x. r = Inr x \<and> y = f x)"
  by (auto simp: map_ok_def)

lemma decode_exact_written:
  "codec_ok c \<Longrightarrow> to_extend c v = (bytes, True) \<Longrightarrow> decode_exact c mt bytes = Inr v"
  by (simp add: codec_ok_def decode_exact_def)

lemma decode_payload_written:
  assumes "postcard_ok pc" "serialize_payload pc m = (bytes, True)"
  shows "decode_payload pc (message_type m) bytes = Inr m"
  using assms by (cases m) (simp_all add: postcard_ok_def decode_payload_def decode_exact_written)

lemma decode_payload_type: "decode_payload pc mt bytes = Inr m \<Longrightarrow> message_type m = mt"
  by (cases mt) (auto simp: decode_payload_def)

text \<open>What a successful encoding produced, and that a failed one leaves the buffer alone.\<close>

definition frame_of :: "WireMessage \<Rightarrow> u16 \<Rightarrow> u8 list \<Rightarrow> u8 list" where
  "frame_of m v payload = header_encode \<lparr>fh_protocol_version = v, fh_message_type = message_type m,
     fh_payload_length = of_nat (length payload)\<rparr> @ payload"

definition encodable :: "postcard \<Rightarrow> WireMessage \<Rightarrow> u16 \<Rightarrow> u8 list \<Rightarrow> bool" where
  "encodable pc m v payload \<longleftrightarrow> is_supported_protocol_version v
     \<and> type_minimum_protocol_version (message_type m) \<le> v \<and> validate m = Inr ()
     \<and> serialize_payload pc m = (payload, True) \<and> length payload \<le> MAX_FRAME_PAYLOAD"

lemma encode_into_cases:
  "(\<exists>payload. encodable pc m v payload
      \<and> encode_frame_for_version_into pc m v out = (out @ frame_of m v payload, Inr ()))
   \<or> (\<exists>e. encode_frame_for_version_into pc m v out = (out, Inl e) \<and> (\<nexists>payload. encodable pc m v payload))"
proof (cases "and_then (require_supported_version v) (\<lambda>_.
      and_then (require_message_version (message_type m) v) (\<lambda>_. map_err InvalidMessage (validate m)))")
  case (Inl e)
  then have "\<not> (is_supported_protocol_version v \<and> type_minimum_protocol_version (message_type m) \<le> v
      \<and> validate m = Inr ())"
    by (auto simp: and_then_eq_Inl require_supported_version_def require_message_version_def not_less
        split: if_splits)
  with Inl show ?thesis
    by (auto simp: encode_frame_for_version_into_def encodable_def)
next
  case (Inr u)
  obtain payload ok where ser: "serialize_payload pc m = (payload, ok)"
    by fastforce
  have "2 ^ 32 > MAX_FRAME_PAYLOAD"
    by (simp add: MAX_FRAME_PAYLOAD_def)
  moreover have r: "require_supported_version v = Inr ()"
    "require_message_version (message_type m) v = Inr ()" "validate m = Inr ()"
    using Inr by auto
  moreover have "is_supported_protocol_version v" "type_minimum_protocol_version (message_type m) \<le> v"
    using r(1,2) by simp_all
  ultimately show ?thesis
    by (auto simp: encode_frame_for_version_into_def encode_payload_into_def encodable_def Let_def
        frame_of_def r ser)
qed

lemma encodable_unique: "encodable pc m v p \<Longrightarrow> encodable pc m v q \<Longrightarrow> p = q"
  by (simp add: encodable_def)

lemma encode_frame_for_version_iff:
  "encode_frame_for_version pc m v = Inr frame \<longleftrightarrow>
     (\<exists>payload. encodable pc m v payload \<and> frame = frame_of m v payload)"
  using encode_into_cases[of pc m v "[]"]
  by (auto simp: encode_frame_for_version_def dest: encodable_unique)

lemma unat_payload_length:
  "length payload \<le> MAX_FRAME_PAYLOAD \<Longrightarrow> unat (of_nat (length payload) :: u32) = length payload"
  by (simp add: unat_of_nat MAX_FRAME_PAYLOAD_def)

lemma length_frame_of: "length (frame_of m v payload) = FRAME_HEADER_LEN + length payload"
  by (simp add: frame_of_def)

lemma header_of_frame:
  assumes "encodable pc m v payload"
  shows "decode_for_version (frame_of m v payload @ rest) v =
    Inr \<lparr>fh_protocol_version = v, fh_message_type = message_type m, fh_payload_length = of_nat (length payload)\<rparr>"
  using assms
  by (simp add: decode_for_version_iff header_ok_def encodable_def frame_of_def unat_payload_length)

lemma decode_frame_of:
  assumes "postcard_ok pc" "encodable pc m v payload"
  shows "decode_frame_for_version pc (frame_of m v payload) v = Inr m"
  using assms header_of_frame[OF assms(2), of "[]"]
  by (simp add: decode_frame_for_version_def encodable_def unat_payload_length length_frame_of
      decode_payload_written frame_of_def)

section \<open>A serializer that meets the contract\<close>

text \<open>
  For the witnesses: the variable-length integers of the serializer's wire format, and a
  serializer that supports \<open>Ping\<close> with them and reports failure for every other payload.
\<close>

fun varint_encode :: "nat \<Rightarrow> u8 list" where
  "varint_encode n = (if n < 128 then [of_nat n] else of_nat (n mod 128 + 128) # varint_encode (n div 128))"

declare varint_encode.simps [simp del]

fun varint_decode :: "u8 list \<Rightarrow> (nat \<times> u8 list) option" where
  "varint_decode [] = None"
| "varint_decode (b # bs) =
     (if unat b < 128 then Some (unat b, bs)
      else case varint_decode bs of None \<Rightarrow> None
        | Some (n, rest) \<Rightarrow> Some (unat b - 128 + 128 * n, rest))"

lemma varint_decode_encode: "varint_decode (varint_encode n @ rest) = Some (n, rest)"
proof (induction n rule: varint_encode.induct)
  case (1 n)
  show ?case
  proof (cases "n < 128")
    case True
    then show ?thesis by (simp add: varint_encode.simps[of n] unat_of_nat)
  next
    case False
    have "unat (of_nat (n mod 128 + 128) :: u8) = n mod 128 + 128"
      unfolding unat_of_nat using mod_less_divisor[of 128 n] by simp
    with False 1 show ?thesis
      by (simp add: varint_encode.simps[of n] del: of_nat_add)
  qed
qed

definition ping_codec :: "PingV1 payload_codec" where
  "ping_codec = \<lparr>
     to_extend = (\<lambda>p. (varint_encode (unat (ping_nonce p)) @ varint_encode (unat (ping_sent_at_ns p)), True)),
     take_from_bytes = (\<lambda>bytes. case varint_decode bytes of None \<Rightarrow> None
       | Some (n, bytes') \<Rightarrow> (case varint_decode bytes' of None \<Rightarrow> None
         | Some (s, rest) \<Rightarrow> Some (\<lparr>ping_nonce = of_nat n, ping_sent_at_ns = of_nat s\<rparr>, rest)))\<rparr>"

definition failing_codec :: "'a payload_codec" where
  "failing_codec = \<lparr>to_extend = (\<lambda>_. ([], False)), take_from_bytes = (\<lambda>_. None)\<rparr>"

definition ping_postcard :: postcard where
  "ping_postcard = \<lparr>pc_hello = failing_codec, pc_authenticate = failing_codec,
     pc_device_snapshot = failing_codec, pc_device_added = failing_codec,
     pc_device_removed = failing_codec, pc_display_snapshot = failing_codec,
     pc_display_updated = failing_codec, pc_input = failing_codec, pc_pointer_enter = failing_codec,
     pc_pointer_leave = failing_codec, pc_pointer_transition_ack = failing_codec,
     pc_pointer_transition_commit = failing_codec, pc_clipboard = failing_codec,
     pc_ping = ping_codec, pc_pong = failing_codec, pc_release_input = failing_codec,
     pc_release_input_v2 = failing_codec, pc_release_applied_ack_v2 = failing_codec\<rparr>"

lemma ping_codec_ok: "codec_ok ping_codec"
  using varint_decode_encode[of _ "[]", simplified]
  by (auto simp: codec_ok_def ping_codec_def varint_decode_encode)

lemma failing_codec_ok: "codec_ok failing_codec"
  by (simp add: codec_ok_def failing_codec_def)

lemma ping_postcard_ok: "postcard_ok ping_postcard"
  by (simp add: postcard_ok_def ping_postcard_def ping_codec_ok failing_codec_ok)

abbreviation sample_ping :: WireMessage where
  "sample_ping \<equiv> Ping \<lparr>ping_nonce = 300, ping_sent_at_ns = 5\<rparr>"

lemma sample_ping_encodable: "encodable ping_postcard sample_ping 1 [172, 2, 5]"
  by (simp add: encodable_def is_supported_protocol_version_def version_defs ping_postcard_def
      ping_codec_def varint_encode.simps MAX_FRAME_PAYLOAD_def)

section \<open>Properties\<close>

text \<open>
  C1: a frame that was encoded for a version decodes for that version to the same message, and
  is never longer than the header and one mebibyte, provided that the payload serializer reads
  back what it wrote.
\<close>

theorem frame_round_trip:
  assumes "postcard_ok pc" and "encode_frame_for_version pc m v = Inr frame"
  shows "decode_frame_for_version pc frame v = Inr m \<and> length frame \<le> FRAME_HEADER_LEN + MAX_FRAME_PAYLOAD"
proof -
  obtain payload where "encodable pc m v payload" "frame = frame_of m v payload"
    using assms(2) by (auto simp: encode_frame_for_version_iff)
  with assms(1) show ?thesis
    by (auto simp: decode_frame_of length_frame_of encodable_def)
qed

theorem frame_round_trip_witness:
  "\<exists>frame. encode_frame_for_version ping_postcard sample_ping 1 = Inr frame
     \<and> decode_frame_for_version ping_postcard frame 1 = Inr sample_ping"
  using frame_round_trip[OF ping_postcard_ok, of sample_ping 1] sample_ping_encodable
  by (auto simp: encode_frame_for_version_iff)

text \<open>
  the header parser accepts a byte string exactly when its first twelve bytes are the
  encoding of a header with a supported version, a message type available in that version and a
  payload length within the limit; in particular no other bytes decode to a header.
\<close>

theorem header_decodes_iff_encoded:
  "decode_supported bytes = Inr h \<longleftrightarrow>
     12 \<le> length bytes \<and> take 12 bytes = header_encode h
     \<and> 1 \<le> fh_protocol_version h \<and> fh_protocol_version h \<le> 3
     \<and> (fh_message_type h \<in> {MtReleaseInputV2, MtReleaseAppliedAckV2} \<longrightarrow> 2 \<le> fh_protocol_version h)
     \<and> unat (fh_payload_length h) \<le> 1024 * 1024"
proof -
  have two: "1 \<le> w" if "2 \<le> w" for w :: u16
    using that by (simp add: word_le_nat_alt)
  have "type_minimum_protocol_version (fh_message_type h) \<le> fh_protocol_version h \<longleftrightarrow>
     1 \<le> fh_protocol_version h
     \<and> (fh_message_type h \<in> {MtReleaseInputV2, MtReleaseAppliedAckV2} \<longrightarrow> 2 \<le> fh_protocol_version h)"
    by (cases "fh_message_type h") (auto simp: version_defs dest: two)
  then show ?thesis
    unfolding decode_supported_iff header_ok_def is_supported_protocol_version_def version_defs
      FRAME_HEADER_LEN_def MAX_FRAME_PAYLOAD_def by blast
qed

theorem header_decodes_iff_encoded_witness:
  "decode_supported (header_encode \<lparr>fh_protocol_version = 2, fh_message_type = MtReleaseInputV2,
     fh_payload_length = 40\<rparr>) = Inr \<lparr>fh_protocol_version = 2, fh_message_type = MtReleaseInputV2,
     fh_payload_length = 40\<rparr>"
  by (subst header_decodes_iff_encoded) (simp add: FRAME_HEADER_LEN_def)

text \<open>
  encoding into a shared buffer is atomic: either exactly one complete frame is appended and
  everything before it is kept, or an error is returned and the buffer is what it was; which of
  the two happens does not depend on the buffer.
\<close>

theorem encode_into_buffer_atomic:
  "(case encode_frame_for_version pc m v of
      Inr frame \<Rightarrow> encode_frame_for_version_into pc m v out = (out @ frame, Inr ())
    | Inl e \<Rightarrow> fst (encode_frame_for_version_into pc m v out) = out
        \<and> \<not> is_ok (snd (encode_frame_for_version_into pc m v out)))"
proof (cases "encode_frame_for_version pc m v")
  case (Inr frame)
  then obtain p where "encodable pc m v p" "frame = frame_of m v p"
    by (auto simp: encode_frame_for_version_iff)
  with Inr encode_into_cases[of pc m v out] show ?thesis
    by (auto dest: encodable_unique)
next
  case (Inl e)
  then have "\<nexists>p. encodable pc m v p"
    using encode_frame_for_version_iff[of pc m v] by auto
  with Inl encode_into_cases[of pc m v out] show ?thesis
    by auto
qed

text \<open>
  every message that the frame decoder delivers has passed validation, is available in the
  required version, and came from a frame whose length is exactly the header and the declared
  payload, which is within the limit.
\<close>

theorem decoded_message_is_valid:
  assumes "decode_frame_for_version pc frame v = Inr m"
  shows "validate m = Inr () \<and> is_supported_protocol_version v
    \<and> type_minimum_protocol_version (message_type m) \<le> v
    \<and> length frame \<le> FRAME_HEADER_LEN + MAX_FRAME_PAYLOAD"
  using assms
  by (auto simp: decode_frame_for_version_def decode_for_version_iff header_ok_def Let_def not_less
      split: if_splits dest: decode_payload_type)

theorem decoded_message_is_valid_witness:
  "decode_frame_for_version ping_postcard (frame_of sample_ping 1 [172, 2, 5]) 1 = Inr sample_ping
   \<and> validate sample_ping = Inr ()"
  using decoded_message_is_valid[OF decode_frame_of[OF ping_postcard_ok sample_ping_encodable]]
    decode_frame_of[OF ping_postcard_ok sample_ping_encodable] by simp

end
