(* ===== verification/StreamCodec.thy ===== *)
theory StreamCodec
  imports Frame
begin

text \<open>
  The stream codec of \<^verbatim>\<open>kvm-network/src/codec.rs\<close>: decoding every complete frame at the front of the
  receive buffer with one final drain, the cancellation-safe receive step, the exact one-frame
  reader and the writer.  The main result is that delivery does not depend on how the transport
  fragments the byte stream.
\<close>

section \<open>Model\<close>

datatype NetworkError = UnexpectedEof | WriteZero | IoFailure | Protocol ProtocolError

record FrameReadProgress =
  rp_buf :: "u8 list"

definition buffered_bytes :: "FrameReadProgress \<Rightarrow> nat" where
  "buffered_bytes p = length (rp_buf p)"

definition READ_CHUNK :: nat where
  "READ_CHUNK = 8 * 1024"

definition decode_complete_frame ::
  "postcard \<Rightarrow> u8 list \<Rightarrow> u16 \<Rightarrow> (NetworkError, (WireMessage \<times> nat) option) result" where
  "decode_complete_frame pc buf v =
     (if length buf < FRAME_HEADER_LEN then Inr None
      else and_then (map_err Protocol (decode_for_version (take FRAME_HEADER_LEN buf) v)) (\<lambda>header.
        let total = FRAME_HEADER_LEN + unat (fh_payload_length header) in
        if length buf < total then Inr None
        else and_then (map_err Protocol (decode_frame_for_version pc (take total buf) v)) (\<lambda>m.
          Inr (Some (m, total)))))"

lemma decode_complete_frame_consumed:
  "decode_complete_frame pc buf v = Inr (Some (m, n)) \<Longrightarrow> 0 < n \<and> n \<le> length buf"
  by (auto simp: decode_complete_frame_def Let_def FRAME_HEADER_LEN_def split: if_splits)

text \<open>The decoding loop: the cumulative offset, the messages pushed and how it ended.\<close>

function drain_loop ::
  "postcard \<Rightarrow> u8 list \<Rightarrow> u16 \<Rightarrow> nat \<Rightarrow> WireMessage list \<Rightarrow>
   nat \<times> WireMessage list \<times> NetworkError option" where
  "drain_loop pc buf v offset out =
     (case decode_complete_frame pc (drop offset buf) v of
        Inr (Some (m, consumed)) \<Rightarrow> drain_loop pc buf v (offset + consumed) (out @ [m])
      | Inr None \<Rightarrow> (offset, out, None)
      | Inl e \<Rightarrow> (offset, out, Some e))"
  by pat_completeness auto
termination
  by (relation "measure (\<lambda>(pc, buf, v, offset, out). length buf - offset)")
    (auto dest!: decode_complete_frame_consumed)

declare drain_loop.simps [simp del]

definition drain_complete_frames ::
  "postcard \<Rightarrow> u8 list \<Rightarrow> u16 \<Rightarrow> WireMessage list \<Rightarrow>
   u8 list \<times> WireMessage list \<times> (NetworkError, nat) result" where
  "drain_complete_frames pc buf v out =
     (case drain_loop pc buf v 0 out of
        (offset, out', Some e) \<Rightarrow> (drop offset buf, out', Inl e)
      | (offset, out', None) \<Rightarrow>
          ((if offset > 0 then drop offset buf else buf), out', Inr offset))"

text \<open>
  One receive step.  The single awaited \<^verbatim>\<open>read\<close> is consulted only when nothing complete is
  buffered; \<open>None\<close> is an I/O error and an empty chunk the end of the stream.
\<close>

definition read_and_drain ::
  "postcard \<Rightarrow> u16 \<Rightarrow> u8 list option \<Rightarrow> FrameReadProgress \<Rightarrow> WireMessage list \<Rightarrow>
   FrameReadProgress \<times> WireMessage list \<times> (NetworkError, nat) result" where
  "read_and_drain pc v chunk progress out =
     (case drain_complete_frames pc (rp_buf progress) v out of
        (buf, out', Inl e) \<Rightarrow> (progress\<lparr>rp_buf := buf\<rparr>, out', Inl e)
      | (buf, out', Inr buffered) \<Rightarrow>
          if out' \<noteq> [] then (progress\<lparr>rp_buf := buf\<rparr>, out', Inr buffered)
          else case chunk of
              None \<Rightarrow> (progress\<lparr>rp_buf := buf\<rparr>, out', Inl IoFailure)
            | Some bytes \<Rightarrow>
                if length bytes = 0 then (progress\<lparr>rp_buf := buf\<rparr>, out', Inl UnexpectedEof)
                else case drain_complete_frames pc (buf @ bytes) v out' of
                    (buf', out'', res) \<Rightarrow> (progress\<lparr>rp_buf := buf'\<rparr>, out'', res))"

text \<open>The reader that takes exactly one frame from the stream; the stream's rest is returned.\<close>

definition read_exact :: "nat \<Rightarrow> u8 list \<Rightarrow> (NetworkError, u8 list \<times> u8 list) result" where
  "read_exact n stream =
     (if length stream < n then Inl UnexpectedEof else Inr (take n stream, drop n stream))"

definition read_message ::
  "postcard \<Rightarrow> u16 \<Rightarrow> u8 list \<Rightarrow> (NetworkError, WireMessage \<times> u8 list) result" where
  "read_message pc v stream =
     and_then (read_exact FRAME_HEADER_LEN stream) (\<lambda>(header_bytes, stream').
     and_then (map_err Protocol (decode_for_version header_bytes v)) (\<lambda>header.
     and_then (read_exact (unat (fh_payload_length header)) stream') (\<lambda>(payload, stream'').
     and_then (map_err Protocol (decode_frame_for_version pc (header_bytes @ payload) v)) (\<lambda>m.
     Inr (m, stream'')))))"

definition write_message ::
  "postcard \<Rightarrow> WireMessage \<Rightarrow> u8 list \<Rightarrow> u8 list \<times> (NetworkError, unit) result" where
  "write_message pc m stream =
     (case encode_frame pc m of
        Inl e \<Rightarrow> (stream, Inl (Protocol e))
      | Inr frame \<Rightarrow> (stream @ frame, Inr ()))"

text \<open>\<open>accepted\<close> is what the transport committed of \<open>remaining\<close>.\<close>

definition write_some :: "u8 list \<Rightarrow> nat option \<Rightarrow> (NetworkError, nat) result" where
  "write_some remaining accepted =
     (case accepted of
        None \<Rightarrow> Inl IoFailure
      | Some written \<Rightarrow>
          if written = 0 \<and> remaining \<noteq> [] then Inl WriteZero else Inr written)"

text \<open>
  A session's receive loop: it empties \<open>out\<close> between calls and stops at the first error.  It
  returns the messages delivered in order, the final progress and the error.
\<close>

fun receive_all ::
  "postcard \<Rightarrow> u16 \<Rightarrow> u8 list list \<Rightarrow> FrameReadProgress \<Rightarrow>
   WireMessage list \<times> FrameReadProgress \<times> NetworkError option" where
  "receive_all pc v [] progress = ([], progress, None)"
| "receive_all pc v (chunk # chunks) progress =
     (case read_and_drain pc v (Some chunk) progress [] of
        (progress', out, Inl e) \<Rightarrow> (out, progress', Some e)
      | (progress', out, Inr _) \<Rightarrow>
          (case receive_all pc v chunks progress' of (outs, p, e) \<Rightarrow> (out @ outs, p, e)))"

section \<open>Lemmas\<close>

text \<open>The offset-based loop is the frame-at-a-time loop on the remaining buffer.\<close>

lemma drain_loop_drop:
  "drain_loop pc buf v (offset + k) out =
   (case drain_loop pc (drop offset buf) v k out of (o', out', e) \<Rightarrow> (offset + o', out', e))"
proof (induction pc buf v "offset + k" out arbitrary: k rule: drain_loop.induct)
  case (1 pc buf v out k)
  have d: "drop (k + offset) buf = drop (offset + k) buf"
    by (simp add: add.commute)
  note unfold = drain_loop.simps[of pc buf v "offset + k"] drain_loop.simps[of pc "drop offset buf" v k]
  show ?case
  proof (cases "decode_complete_frame pc (drop (offset + k) buf) v")
    case (Inl e)
    then show ?thesis by (simp add: unfold d)
  next
    case (Inr r)
    show ?thesis
    proof (cases r)
      case None
      with Inr show ?thesis by (simp add: unfold d)
    next
      case (Some mc)
      obtain m c where mc: "mc = (m, c)" by fastforce
      have "drain_loop pc buf v (offset + (k + c)) (out @ [m]) =
          (case drain_loop pc (drop offset buf) v (k + c) (out @ [m]) of (o', out', e) \<Rightarrow> (offset + o', out', e))"
        using "1.hyps"[OF Inr, of "(m, c)" m c "k + c"] Some mc by (simp add: add.assoc)
      with Inr Some mc show ?thesis
        by (simp add: unfold d add.assoc)
    qed
  qed
qed

lemma drain_step:
  assumes "decode_complete_frame pc buf v = Inr (Some (m, n))"
  shows "drain_complete_frames pc buf v out =
    (case drain_complete_frames pc (drop n buf) v (out @ [m]) of
       (buf', out', Inl e) \<Rightarrow> (buf', out', Inl e) | (buf', out', Inr k) \<Rightarrow> (buf', out', Inr (n + k)))"
proof -
  have "0 < n" using decode_complete_frame_consumed[OF assms] by simp
  moreover have "drain_loop pc buf v 0 out = drain_loop pc buf v (n + 0) (out @ [m])"
    using assms by (simp add: drain_loop.simps[of pc buf v 0])
  ultimately show ?thesis
    unfolding drain_complete_frames_def drain_loop_drop[of pc buf v n 0]
    by (auto split: prod.splits option.splits simp: add.commute)
qed

lemma drain_none:
  "decode_complete_frame pc buf v = Inr None \<Longrightarrow> drain_complete_frames pc buf v out = (buf, out, Inr 0)"
  by (simp add: drain_complete_frames_def drain_loop.simps)

lemma decode_complete_frame_exact:
  assumes "postcard_ok pc" "encodable pc m v p"
  shows "decode_complete_frame pc (frame_of m v p @ rest) v = Inr (Some (m, length (frame_of m v p)))"
proof -
  let ?h = "\<lparr>fh_protocol_version = v, fh_message_type = message_type m, fh_payload_length = of_nat (length p)\<rparr>"
  have len: "unat (fh_payload_length ?h) = length p"
    using assms(2) by (simp add: encodable_def unat_payload_length)
  have h: "decode_for_version (take FRAME_HEADER_LEN (frame_of m v p)) v = Inr ?h"
    using assms(2) by (simp add: decode_for_version_iff frame_of_def encodable_def header_ok_def unat_payload_length)
  have t: "take (FRAME_HEADER_LEN + length p) (frame_of m v p @ rest) = frame_of m v p"
    by (simp add: length_frame_of)
  show ?thesis
    using decode_frame_of[OF assms] len
    by (simp add: decode_complete_frame_def h t length_frame_of Let_def)
qed

lemma decode_complete_frame_partial:
  assumes "encodable pc m v p" "buf @ rest = frame_of m v p" "rest \<noteq> []"
  shows "decode_complete_frame pc buf v = Inr None"
proof (cases "length buf < FRAME_HEADER_LEN")
  case True
  then show ?thesis by (simp add: decode_complete_frame_def)
next
  case False
  let ?h = "\<lparr>fh_protocol_version = v, fh_message_type = message_type m, fh_payload_length = of_nat (length p)\<rparr>"
  have "take FRAME_HEADER_LEN (buf @ rest) = header_encode ?h"
    unfolding assms(2) by (simp add: frame_of_def)
  with False have "take FRAME_HEADER_LEN buf = header_encode ?h" by simp
  then have h: "decode_for_version (take FRAME_HEADER_LEN buf) v = Inr ?h"
    using assms(1) by (simp add: decode_for_version_iff encodable_def header_ok_def unat_payload_length)
  have "length buf + length rest = FRAME_HEADER_LEN + length p"
    by (metis assms(2) length_append length_frame_of)
  moreover have "0 < length rest" using assms(3) by simp
  ultimately have "length buf < FRAME_HEADER_LEN + length p" by linarith
  moreover have "unat (fh_payload_length ?h) = length p"
    using assms(1) by (simp add: encodable_def unat_payload_length)
  ultimately show ?thesis
    by (simp add: decode_complete_frame_def h Let_def)
qed


definition encoded_as :: "postcard \<Rightarrow> u16 \<Rightarrow> WireMessage \<Rightarrow> u8 list \<Rightarrow> bool" where
  "encoded_as pc v m f \<longleftrightarrow> encode_frame_for_version pc m v = Inr f"

lemma encoded_asE:
  assumes "encoded_as pc v m f"
  obtains p where "encodable pc m v p" "f = frame_of m v p"
  using assms by (auto simp: encoded_as_def encode_frame_for_version_iff)

lemma drain_prefix:
  assumes pc: "postcard_ok pc" and enc: "list_all2 (encoded_as pc v) ms fs" and split: "buf @ rest = concat fs"
  shows "\<exists>k buf'. k \<le> length ms \<and> drain_complete_frames pc buf v out = (buf', out @ take k ms, Inr (length buf - length buf'))
    \<and> buf' @ rest = concat (drop k fs) \<and> length buf' \<le> length buf
    \<and> decode_complete_frame pc buf' v = Inr None \<and> (rest = [] \<longrightarrow> buf' = [] \<and> k = length ms)"
  using enc split
proof (induction ms fs arbitrary: buf out rule: list_all2_induct)
  case Nil
  then have "decode_complete_frame pc buf v = Inr None"
    by (simp add: decode_complete_frame_def FRAME_HEADER_LEN_def)
  with Nil show ?case
    by (auto simp: drain_none)
next
  case (Cons m ms f fs)
  obtain p where p: "encodable pc m v p" "f = frame_of m v p"
    using Cons.hyps(1) by (rule encoded_asE)
  show ?case
  proof (cases "length f \<le> length buf")
    case True
    have eq: "buf @ rest = f @ concat fs" using Cons.prems by simp
    define buf1 where "buf1 = drop (length f) buf"
    have "take (length f) (buf @ rest) = f" "drop (length f) (buf @ rest) = concat fs"
      unfolding eq by simp_all
    with True have buf: "buf = f @ buf1" and rest: "buf1 @ rest = concat fs"
      by (simp_all add: buf1_def) (metis append_take_drop_id)
    obtain k buf' where IH: "k \<le> length ms"
      "drain_complete_frames pc buf1 v (out @ [m]) = (buf', (out @ [m]) @ take k ms, Inr (length buf1 - length buf'))"
      "buf' @ rest = concat (drop k fs)" "length buf' \<le> length buf1"
      "decode_complete_frame pc buf' v = Inr None" "rest = [] \<longrightarrow> buf' = [] \<and> k = length ms"
      using Cons.IH[OF rest, of "out @ [m]"] by blast
    have "drain_complete_frames pc buf v out = (buf', out @ take (Suc k) (m # ms), Inr (length buf - length buf'))"
      using drain_step[OF decode_complete_frame_exact[OF pc p(1)], of buf1 out] IH(2,4) buf
      by (simp add: p(2))
    with IH buf show ?thesis
      by (intro exI[of _ "Suc k"] exI[of _ buf']) auto
  next
    case False
    have f: "f = buf @ take (length f - length buf) rest"
    proof -
      have "take (length f) (buf @ rest) = f" using Cons.prems by simp
      then show ?thesis using False by simp
    qed
    have ne: "take (length f - length buf) rest \<noteq> []"
      using f False by (metis append_Nil2 order_refl)
    have none: "decode_complete_frame pc buf v = Inr None"
      using p(1) f[symmetric, unfolded p(2)] ne unfolding p(2) by (rule decode_complete_frame_partial)
    have "rest \<noteq> []" using ne by auto
    with none Cons.prems show ?thesis
      by (intro exI[of _ 0] exI[of _ buf]) (simp add: drain_none)
  qed
qed

lemma receive_all_reassembles:
  assumes pc: "postcard_ok pc"
  shows "list_all2 (encoded_as pc v) ms fs \<Longrightarrow> rp_buf prog @ concat chunks = concat fs \<Longrightarrow>
    [] \<notin> set chunks \<Longrightarrow> decode_complete_frame pc (rp_buf prog) v = Inr None \<Longrightarrow>
    receive_all pc v chunks prog = (ms, \<lparr>rp_buf = []\<rparr>, None)"
proof (induction chunks arbitrary: prog ms fs)
  case Nil
  have "rp_buf prog @ [] = concat fs" using Nil.prems(2) by simp
  from drain_prefix[OF pc Nil.prems(1) this, of "[]"] obtain k buf'
    where "drain_complete_frames pc (rp_buf prog) v [] = (buf', [] @ take k ms, Inr (length (rp_buf prog) - length buf'))"
      "buf' = []" "k = length ms"
    by blast
  then have "rp_buf prog = []" "ms = []"
    using drain_none[OF Nil.prems(4), of "[]"] by auto
  then show ?case by (cases prog) simp
next
  case (Cons chunk chunks)
  have "rp_buf prog @ chunk @ concat chunks = concat fs" "chunk \<noteq> []"
    using Cons.prems by auto
  then obtain k buf' where d: "k \<le> length ms"
    "drain_complete_frames pc (rp_buf prog @ chunk) v [] =
       (buf', take k ms, Inr (length (rp_buf prog @ chunk) - length buf'))"
    "buf' @ concat chunks = concat (drop k fs)" "decode_complete_frame pc buf' v = Inr None"
    using drain_prefix[OF pc Cons.prems(1), of "rp_buf prog @ chunk" "concat chunks" "[]"] by auto
  have rest: "receive_all pc v chunks \<lparr>rp_buf = buf'\<rparr> = (drop k ms, \<lparr>rp_buf = []\<rparr>, None)"
    using Cons.prems d by (intro Cons.IH[of _ "drop k fs"]) (auto intro: list_all2_dropI)
  have upd: "prog\<lparr>rp_buf := buf'\<rparr> = \<lparr>rp_buf = buf'\<rparr>"
    by (cases prog) simp
  show ?case
    using d(2) \<open>chunk \<noteq> []\<close>
    by (simp add: read_and_drain_def drain_none[OF Cons.prems(4)] upd rest)
qed

section \<open>Properties\<close>

text \<open>
  C7: delivery is independent of fragmentation.  However the transport cuts the byte stream of a
  sequence of encoded frames into non-empty chunks, inside headers and payloads or across frame
  boundaries, the receive loop delivers exactly the sent messages in order, without error, and
  leaves nothing buffered.
\<close>

theorem delivery_independent_of_fragmentation:
  assumes "postcard_ok pc" and "list_all2 (\<lambda>m f. encode_frame_for_version pc m v = Inr f) ms fs"
    and "concat chunks = concat fs" and "[] \<notin> set chunks"
  shows "receive_all pc v chunks \<lparr>rp_buf = []\<rparr> = (ms, \<lparr>rp_buf = []\<rparr>, None)"
proof -
  have "list_all2 (encoded_as pc v) ms fs"
    using assms(2) by (simp add: list_all2_iff encoded_as_def)
  moreover have "decode_complete_frame pc [] v = Inr None"
    by (simp add: decode_complete_frame_def FRAME_HEADER_LEN_def)
  ultimately show ?thesis
    using assms by (intro receive_all_reassembles) auto
qed

theorem delivery_independent_of_fragmentation_witness:
  "let f = frame_of sample_ping 1 [172, 2, 5] in
   receive_all ping_postcard 1 [take 3 f, drop 3 f @ take 13 f, drop 13 f] \<lparr>rp_buf = []\<rparr>
     = ([sample_ping, sample_ping], \<lparr>rp_buf = []\<rparr>, None)"
proof -
  let ?f = "frame_of sample_ping 1 [172, 2, 5]"
  have e: "encode_frame_for_version ping_postcard sample_ping 1 = Inr ?f"
    using sample_ping_encodable by (auto simp: encode_frame_for_version_iff)
  have len: "length ?f = 15" by (simp add: length_frame_of FRAME_HEADER_LEN_def)
  have ne: "[] \<notin> set [take 3 ?f, drop 3 ?f @ take 13 ?f, drop 13 ?f]"
    using len by auto
  show ?thesis
    using delivery_independent_of_fragmentation[OF ping_postcard_ok, of 1 "[sample_ping, sample_ping]" "[?f, ?f]",
        OF _ _ ne] e by (simp add: Let_def)
qed

end
