(* ===== verification/SendQueue.thy ===== *)
theory SendQueue
  imports WireMessages
begin

text \<open>
  The bounded outbound queue of \<^verbatim>\<open>crates/kvm-network/src/queue.rs\<close>: three FIFO lanes with hard
  capacities, coalescing of consecutive pointer moves of one device, priority selection with a
  fairness bound for liveness control, the rejection counters, and the shared counters that
  diagnostics read.  \<^verbatim>\<open>usize\<close> is 64 bits wide; the atomics are plain 64-bit words whose
  \<^verbatim>\<open>fetch_add\<close> wraps.
\<close>

datatype TrafficClass = ClassInput | ClassControl | ClassBackground

fun class_of_type :: "MessageType \<Rightarrow> TrafficClass" where
  "class_of_type MtInput = ClassInput"
| "class_of_type MtDeviceSnapshot = ClassInput"
| "class_of_type MtDeviceAdded = ClassInput"
| "class_of_type MtDeviceRemoved = ClassInput"
| "class_of_type MtPointerEnter = ClassInput"
| "class_of_type MtPointerLeave = ClassInput"
| "class_of_type MtPointerTransitionAck = ClassInput"
| "class_of_type MtPointerTransitionCommit = ClassInput"
| "class_of_type MtReleaseInput = ClassInput"
| "class_of_type MtReleaseInputV2 = ClassInput"
| "class_of_type MtReleaseAppliedAckV2 = ClassInput"
| "class_of_type MtHello = ClassControl"
| "class_of_type MtAuthenticate = ClassControl"
| "class_of_type MtPing = ClassControl"
| "class_of_type MtPong = ClassControl"
| "class_of_type MtDisplaySnapshot = ClassBackground"
| "class_of_type MtDisplayUpdated = ClassBackground"
| "class_of_type MtClipboard = ClassBackground"

definition for_message :: "WireMessage \<Rightarrow> TrafficClass" where
  "for_message m = class_of_type (message_type m)"

record QueueConfig =
  qc_input :: u64
  qc_control :: u64
  qc_background :: u64
  qc_maximum_input_burst :: u64
  qc_coalesce_pointer_moves :: bool

definition QueueConfig_default :: QueueConfig where
  "QueueConfig_default = \<lparr>qc_input = 1024, qc_control = 128, qc_background = 32,
     qc_maximum_input_burst = 64, qc_coalesce_pointer_moves = True\<rparr>"

datatype QueueConfigError = QueueConfigError

definition QueueConfig_validate :: "QueueConfig \<Rightarrow> (QueueConfigError, unit) result" where
  "QueueConfig_validate c =
     (if qc_input c = 0 \<or> qc_control c = 0 \<or> qc_background c = 0 \<or> qc_maximum_input_burst c = 0
      then Inl QueueConfigError else Inr ())"

record EnqueueError =
  enq_class :: TrafficClass
  enq_capacity :: u64
  enq_message :: WireMessage

record DropCounters =
  drop_input :: u64
  drop_control :: u64
  drop_background :: u64

definition DropCounters_default :: DropCounters where
  "DropCounters_default = \<lparr>drop_input = 0, drop_control = 0, drop_background = 0\<rparr>"

text \<open>\<open>None\<close> is the arithmetic-overflow panic of a checked build.\<close>

definition drop_total :: "DropCounters \<Rightarrow> u64 option" where
  "drop_total d = Option.bind (checked_add_u64 (drop_input d) (drop_control d))
     (\<lambda>s. checked_add_u64 s (drop_background d))"

fun bump :: "TrafficClass \<Rightarrow> DropCounters \<Rightarrow> DropCounters" where
  "bump ClassInput d = d\<lparr>drop_input := saturating_add_u64 (drop_input d) 1\<rparr>"
| "bump ClassControl d = d\<lparr>drop_control := saturating_add_u64 (drop_control d) 1\<rparr>"
| "bump ClassBackground d = d\<lparr>drop_background := saturating_add_u64 (drop_background d) 1\<rparr>"

record SessionStats =
  ss_dropped :: DropCounters
  ss_coalesced_moves :: u64

record OutboundQueue =
  oq_config :: QueueConfig
  oq_input :: "WireMessage list"
  oq_control :: "WireMessage list"
  oq_background :: "WireMessage list"
  consecutive_input :: u64
  oq_dropped :: DropCounters
  oq_coalesced_moves :: u64

section \<open>Operations\<close>

definition new_validated :: "QueueConfig \<Rightarrow> OutboundQueue" where
  "new_validated c = \<lparr>oq_config = c, oq_input = [], oq_control = [], oq_background = [],
     consecutive_input = 0, oq_dropped = DropCounters_default, oq_coalesced_moves = 0\<rparr>"

definition OutboundQueue_try_new :: "QueueConfig \<Rightarrow> (QueueConfigError, OutboundQueue) result" where
  "OutboundQueue_try_new c = and_then (QueueConfig_validate c) (\<lambda>_. Inr (new_validated c))"

record PointerMoveView =
  pmv_source_host :: WireHostId
  pmv_source_device :: WireDeviceId
  pmv_sequence :: u64
  pmv_timestamp_ns :: u64
  pmv_dx :: f64
  pmv_dy :: f64

fun pointer_move_view :: "WireMessage \<Rightarrow> PointerMoveView option" where
  "pointer_move_view (Input event) =
     (case input_payload event of
        WirePointerMove dx dy \<Rightarrow>
          Some \<lparr>pmv_source_host = input_source_host event, pmv_source_device = input_source_device event,
            pmv_sequence = input_sequence event, pmv_timestamp_ns = input_timestamp_ns event,
            pmv_dx = dx, pmv_dy = dy\<rparr>
      | _ \<Rightarrow> None)"
| "pointer_move_view _ = None"

text \<open>The in-place update of the newest pending frame.\<close>

fun fold_into_tail :: "PointerMoveView \<Rightarrow> WireMessage \<Rightarrow> WireMessage" where
  "fold_into_tail incoming (Input tail) =
     (case input_payload tail of
        WirePointerMove dx dy \<Rightarrow>
          Input (tail\<lparr>input_payload := WirePointerMove (f64_add dx (pmv_dx incoming)) (f64_add dy (pmv_dy incoming)),
                      input_sequence := pmv_sequence incoming,
                      input_timestamp_ns := pmv_timestamp_ns incoming\<rparr>)
      | _ \<Rightarrow> Input tail)"
| "fold_into_tail incoming m = m"

definition same_source :: "PointerMoveView \<Rightarrow> PointerMoveView \<Rightarrow> bool" where
  "same_source tail incoming \<longleftrightarrow> pmv_source_host tail = pmv_source_host incoming
     \<and> pmv_source_device tail = pmv_source_device incoming"

definition try_coalesce_pointer_move :: "WireMessage \<Rightarrow> OutboundQueue \<Rightarrow> bool \<times> OutboundQueue" where
  "try_coalesce_pointer_move m q =
     (case pointer_move_view m of
        None \<Rightarrow> (False, q)
      | Some incoming \<Rightarrow>
        (if oq_input q = [] then (False, q)
         else case pointer_move_view (last (oq_input q)) of
           None \<Rightarrow> (False, q)
         | Some tail \<Rightarrow>
           (if \<not> same_source tail incoming then (False, q)
            else (True, q\<lparr>oq_input := butlast (oq_input q) @ [fold_into_tail incoming (last (oq_input q))],
                         oq_coalesced_moves := saturating_add_u64 (oq_coalesced_moves q) 1\<rparr>))))"

fun lane :: "TrafficClass \<Rightarrow> OutboundQueue \<Rightarrow> WireMessage list" where
  "lane ClassInput q = oq_input q"
| "lane ClassControl q = oq_control q"
| "lane ClassBackground q = oq_background q"

fun capacity :: "TrafficClass \<Rightarrow> QueueConfig \<Rightarrow> u64" where
  "capacity ClassInput c = qc_input c"
| "capacity ClassControl c = qc_control c"
| "capacity ClassBackground c = qc_background c"

fun set_lane :: "TrafficClass \<Rightarrow> WireMessage list \<Rightarrow> OutboundQueue \<Rightarrow> OutboundQueue" where
  "set_lane ClassInput ms q = q\<lparr>oq_input := ms\<rparr>"
| "set_lane ClassControl ms q = q\<lparr>oq_control := ms\<rparr>"
| "set_lane ClassBackground ms q = q\<lparr>oq_background := ms\<rparr>"

text \<open>The lane push after coalescing was not possible, and the whole of \<^verbatim>\<open>try_push\<close>.\<close>

definition push_lane :: "WireMessage \<Rightarrow> OutboundQueue \<Rightarrow> (EnqueueError, unit) result \<times> OutboundQueue" where
  "push_lane m q =
     (let class = for_message m; cap = capacity class (oq_config q) in
      if unat cap \<le> length (lane class q)
      then (Inl \<lparr>enq_class = class, enq_capacity = cap, enq_message = m\<rparr>,
            q\<lparr>oq_dropped := bump class (oq_dropped q)\<rparr>)
      else (Inr (), set_lane class (lane class q @ [m]) q))"

definition try_push :: "WireMessage \<Rightarrow> OutboundQueue \<Rightarrow> (EnqueueError, unit) result \<times> OutboundQueue" where
  "try_push m q =
     (if for_message m = ClassInput \<and> qc_coalesce_pointer_moves (oq_config q)
      then (case try_coalesce_pointer_move m q of
              (True, q') \<Rightarrow> (Inr (), q')
            | (False, q') \<Rightarrow> push_lane m q')
      else push_lane m q)"

definition unpop :: "WireMessage \<Rightarrow> OutboundQueue \<Rightarrow> OutboundQueue" where
  "unpop m q = set_lane (for_message m) (m # lane (for_message m) q) q"

definition pop_next :: "OutboundQueue \<Rightarrow> WireMessage option \<times> OutboundQueue" where
  "pop_next q =
     (if oq_control q \<noteq> [] \<and> qc_maximum_input_burst (oq_config q) \<le> consecutive_input q
      then (Some (hd (oq_control q)), q\<lparr>consecutive_input := 0, oq_control := tl (oq_control q)\<rparr>)
      else case oq_input q of
        m # rest \<Rightarrow> (Some m, q\<lparr>oq_input := rest,
                             consecutive_input := saturating_add_u64 (consecutive_input q) 1\<rparr>)
      | [] \<Rightarrow>
        (case oq_control q of
           m # rest \<Rightarrow> (Some m, q\<lparr>consecutive_input := 0, oq_control := rest\<rparr>)
         | [] \<Rightarrow>
           (case oq_background q of
              m # rest \<Rightarrow> (Some m, q\<lparr>consecutive_input := 0, oq_background := rest\<rparr>)
            | [] \<Rightarrow> (None, q\<lparr>consecutive_input := 0\<rparr>))))"

definition queue_len :: "OutboundQueue \<Rightarrow> nat" where
  "queue_len q = length (oq_input q) + length (oq_control q) + length (oq_background q)"

definition queue_is_empty :: "OutboundQueue \<Rightarrow> bool" where
  "queue_is_empty q \<longleftrightarrow> queue_len q = 0"

definition len_for :: "OutboundQueue \<Rightarrow> TrafficClass \<Rightarrow> nat" where
  "len_for q class = length (lane class q)"

definition session_stats :: "OutboundQueue \<Rightarrow> SessionStats" where
  "session_stats q = \<lparr>ss_dropped = oq_dropped q, ss_coalesced_moves = oq_coalesced_moves q\<rparr>"

section \<open>Runs of the queue\<close>

text \<open>
  A run records, beside the queue, the messages that \<^verbatim>\<open>try_push\<close> accepted and the messages that
  \<^verbatim>\<open>pop_next\<close> delivered, both in order.
\<close>

datatype queue_op = Push WireMessage | Pop

type_synonym queue_log = "OutboundQueue \<times> WireMessage list \<times> WireMessage list"

fun queue_step :: "queue_op \<Rightarrow> queue_log \<Rightarrow> queue_log" where
  "queue_step (Push m) (q, accepted, delivered) =
     (case try_push m q of
        (Inr _, q') \<Rightarrow> (q', accepted @ [m], delivered)
      | (Inl _, q') \<Rightarrow> (q', accepted, delivered))"
| "queue_step Pop (q, accepted, delivered) =
     (case pop_next q of
        (None, q') \<Rightarrow> (q', accepted, delivered)
      | (Some m, q') \<Rightarrow> (q', accepted, delivered @ [m]))"

definition queue_run :: "queue_op list \<Rightarrow> OutboundQueue \<Rightarrow> queue_log" where
  "queue_run ops q = fold queue_step ops (q, [], [])"

definition of_class :: "TrafficClass \<Rightarrow> WireMessage list \<Rightarrow> WireMessage list" where
  "of_class c ms = filter (\<lambda>m. for_message m = c) ms"

text \<open>
  \<open>coalesced xs ys\<close>: the sent stream \<open>ys\<close> is the accepted stream \<open>xs\<close> in which some pointer moves
  were folded into the move of the same device directly before them.
\<close>

inductive coalesced :: "WireMessage list \<Rightarrow> WireMessage list \<Rightarrow> bool" where
  coalesced_Nil: "coalesced [] []"
| coalesced_keep: "coalesced xs ys \<Longrightarrow> coalesced (xs @ [m]) (ys @ [m])"
| coalesced_fold: "coalesced xs (ys @ [t]) \<Longrightarrow> pointer_move_view t = Some tv \<Longrightarrow>
     pointer_move_view m = Some mv \<Longrightarrow> same_source tv mv \<Longrightarrow>
     coalesced (xs @ [m]) (ys @ [fold_into_tail mv t])"

definition is_move :: "WireMessage \<Rightarrow> bool" where
  "is_move m \<longleftrightarrow> pointer_move_view m \<noteq> None"

lemma pointer_move_view_cases:
  assumes "pointer_move_view m = Some v"
  obtains e dx dy where "m = Input e" "input_payload e = WirePointerMove dx dy"
    "pmv_source_host v = input_source_host e" "pmv_source_device v = input_source_device e"
    "pmv_dx v = dx" "pmv_dy v = dy" "pmv_sequence v = input_sequence e" "pmv_timestamp_ns v = input_timestamp_ns e"
  using assms by (cases m) (auto split: WireInputPayloadV1.splits)

lemma fold_into_tail_move:
  assumes "pointer_move_view t = Some tv"
  shows "is_move (fold_into_tail mv t)" "for_message (fold_into_tail mv t) = for_message t"
  by (rule pointer_move_view_cases[OF assms]; simp add: is_move_def for_message_def)+

lemma move_class: "pointer_move_view m = Some v \<Longrightarrow> for_message m = ClassInput"
  by (erule pointer_move_view_cases) (simp add: for_message_def)

lemma coalesced_others: "coalesced xs ys \<Longrightarrow> filter (Not \<circ> is_move) xs = filter (Not \<circ> is_move) ys"
proof (induction rule: coalesced.induct)
  case (coalesced_fold xs ys t tv m mv)
  then show ?case
    using fold_into_tail_move(1)[of t tv mv] by (simp add: is_move_def)
qed simp_all

lemma coalesced_refl: "coalesced xs xs"
  by (induction xs rule: rev_induct) (auto intro: coalesced.intros)

lemma coalesced_length: "coalesced xs ys \<Longrightarrow> length ys \<le> length xs"
  by (induction rule: coalesced.induct) simp_all

section \<open>The lane invariant\<close>

definition lanes_ok :: "queue_log \<Rightarrow> bool" where
  "lanes_ok s \<longleftrightarrow> (case s of (q, accepted, delivered) \<Rightarrow>
     list_all (\<lambda>m. for_message m = ClassInput) (oq_input q)
     \<and> list_all (\<lambda>m. for_message m = ClassControl) (oq_control q)
     \<and> list_all (\<lambda>m. for_message m = ClassBackground) (oq_background q)
     \<and> length (oq_input q) \<le> unat (qc_input (oq_config q))
     \<and> length (oq_control q) \<le> unat (qc_control (oq_config q))
     \<and> length (oq_background q) \<le> unat (qc_background (oq_config q))
     \<and> coalesced (of_class ClassInput accepted) (of_class ClassInput delivered @ oq_input q)
     \<and> of_class ClassControl accepted = of_class ClassControl delivered @ oq_control q
     \<and> of_class ClassBackground accepted = of_class ClassBackground delivered @ oq_background q)"

lemma of_class_simps [simp]:
  "of_class c [] = []" "of_class c (xs @ ys) = of_class c xs @ of_class c ys"
  "of_class c [m] = (if for_message m = c then [m] else [])"
  by (simp_all add: of_class_def)

lemma of_class_uniform:
  "list_all (\<lambda>m. for_message m = d) xs \<Longrightarrow> of_class c xs = (if c = d then xs else [])"
  by (auto simp: of_class_def list_all_iff filter_id_conv filter_empty_conv)

lemma try_coalesce_True:
  assumes "try_coalesce_pointer_move m q = (True, q')"
  obtains front t tv mv where "oq_input q = front @ [t]" "pointer_move_view t = Some tv"
    "pointer_move_view m = Some mv" "same_source tv mv"
    "q' = q\<lparr>oq_input := front @ [fold_into_tail mv t],
            oq_coalesced_moves := saturating_add_u64 (oq_coalesced_moves q) 1\<rparr>"
  using assms
  by (cases "oq_input q" rule: rev_cases)
    (auto simp: try_coalesce_pointer_move_def split: option.splits if_splits)

lemma try_coalesce_False: "try_coalesce_pointer_move m q = (False, q') \<Longrightarrow> q' = q"
  by (auto simp: try_coalesce_pointer_move_def split: option.splits if_splits)

lemma lanes_ok_push_lane:
  assumes "lanes_ok (q, acc, del)" "push_lane m q = (r, q')"
  shows "lanes_ok (q', (case r of Inr _ \<Rightarrow> acc @ [m] | Inl _ \<Rightarrow> acc), del)"
proof (cases "for_message m")
  case ClassInput
  then show ?thesis
    using assms coalesced_keep[of "of_class ClassInput acc" "of_class ClassInput del @ oq_input q" m]
    by (auto simp: lanes_ok_def push_lane_def Let_def split: if_splits)
qed (use assms in \<open>auto simp: lanes_ok_def push_lane_def Let_def split: if_splits\<close>)

lemma lanes_ok_coalesce:
  assumes "lanes_ok (q, acc, del)" "try_coalesce_pointer_move m q = (True, q')"
  shows "lanes_ok (q', acc @ [m], del)"
proof -
  obtain front t tv mv where c: "oq_input q = front @ [t]" "pointer_move_view t = Some tv"
    "pointer_move_view m = Some mv" "same_source tv mv"
    "q' = q\<lparr>oq_input := front @ [fold_into_tail mv t],
            oq_coalesced_moves := saturating_add_u64 (oq_coalesced_moves q) 1\<rparr>"
    using assms(2) by (rule try_coalesce_True)
  have "coalesced (of_class ClassInput acc @ [m]) ((of_class ClassInput del @ front) @ [fold_into_tail mv t])"
    using assms(1) c by (intro coalesced_fold) (auto simp: lanes_ok_def)
  then show ?thesis
    using assms(1) c fold_into_tail_move(2)[OF c(2), of mv] move_class[OF c(3)]
    by (auto simp: lanes_ok_def)
qed

lemma lanes_ok_push: "lanes_ok (q, acc, del) \<Longrightarrow> lanes_ok (queue_step (Push m) (q, acc, del))"
  using lanes_ok_push_lane[of q acc del m] lanes_ok_coalesce[of q acc del m]
  by (auto simp: try_push_def dest: try_coalesce_False split: prod.splits sum.splits bool.splits)

lemma lanes_ok_pop: "lanes_ok (q, acc, del) \<Longrightarrow> lanes_ok (queue_step Pop (q, acc, del))"
  by (cases "oq_input q"; cases "oq_control q"; cases "oq_background q")
    (auto simp: lanes_ok_def pop_next_def)

interpretation outbound_log: invariant_component queue_step lanes_ok "(new_validated c, [], [])"
proof
  show "lanes_ok (new_validated c, [], [])"
    by (simp add: lanes_ok_def new_validated_def coalesced_Nil)
  show "lanes_ok (queue_step op s)" if "lanes_ok s" for op s
    using that by (cases op; cases s) (simp_all only: lanes_ok_push lanes_ok_pop)
qed

lemma set_lane_simps [simp]:
  "oq_config (set_lane c ms q) = oq_config q"
  "consecutive_input (set_lane c ms q) = consecutive_input q"
  "oq_coalesced_moves (set_lane c ms q) = oq_coalesced_moves q"
  "oq_dropped (set_lane c ms q) = oq_dropped q"
  "lane d (set_lane c ms q) = (if c = d then ms else lane d q)"
  by (cases c; cases d; simp)+

lemma try_push_keeps:
  assumes "try_push m q = (r, q')"
  shows "oq_config q' = oq_config q" "consecutive_input q' = consecutive_input q"
    "oq_control q \<noteq> [] \<Longrightarrow> oq_control q' \<noteq> []"
  using assms
  by (cases "for_message m"; auto simp: try_push_def push_lane_def Let_def try_coalesce_pointer_move_def
      split: prod.splits option.splits if_splits bool.splits)+

section \<open>Fairness\<close>

text \<open>
  While control waits, every pop that does not deliver control delivers input and uses up one unit
  of the burst.
\<close>

lemma pop_next_waiting_control:
  assumes "oq_control q \<noteq> []" "list_all (\<lambda>m. for_message m = ClassControl) (oq_control q)"
  obtains (control) m q' where "pop_next q = (Some m, q')" "for_message m = ClassControl"
  | (input) m q' where "pop_next q = (Some m, q')" "unat (consecutive_input q) < unat (qc_maximum_input_burst (oq_config q))"
      "unat (consecutive_input q') = Suc (unat (consecutive_input q))"
      "oq_config q' = oq_config q" "oq_control q' = oq_control q"
proof (cases "qc_maximum_input_burst (oq_config q) \<le> consecutive_input q \<or> oq_input q = []")
  case True
  then obtain m q' where "pop_next q = (Some m, q')" "for_message m = ClassControl"
    using assms by (cases "oq_control q") (auto simp: pop_next_def split: list.splits)
  then show thesis by (rule control)
next
  case False
  then obtain m rest where i: "oq_input q = m # rest" and lt: "consecutive_input q < qc_maximum_input_burst (oq_config q)"
    by (cases "oq_input q") (auto simp: not_le)
  have "unat (saturating_add_u64 (consecutive_input q) 1) = Suc (unat (consecutive_input q))"
    using lt unat_less_2p[of "qc_maximum_input_burst (oq_config q)"]
    by (simp add: rust_arith word_less_nat_alt)
  with i lt show thesis
    by (intro input[of m "q\<lparr>oq_input := rest, consecutive_input := saturating_add_u64 (consecutive_input q) 1\<rparr>"])
      (simp_all add: pop_next_def word_less_nat_alt word_le_nat_alt)
qed

lemma delivered_grows: "set (snd (snd s)) \<subseteq> set (snd (snd (fold queue_step ops s)))"
proof (induction ops arbitrary: s)
  case (Cons op ops)
  have "set (snd (snd s)) \<subseteq> set (snd (snd (queue_step op s)))"
    by (cases op; cases s) (auto split: prod.splits option.splits sum.splits)
  with Cons.IH[of "queue_step op s"] show ?case by simp
qed simp

lemma control_delivered:
  assumes "lanes_ok (q, acc, del)" "oq_control q \<noteq> []"
    and "unat (qc_maximum_input_burst (oq_config q)) - unat (consecutive_input q) < length (filter ((=) Pop) ops)"
  shows "\<exists>m \<in> set (snd (snd (fold queue_step ops (q, acc, del)))). for_message m = ClassControl"
  using assms
proof (induction ops arbitrary: q acc del)
  case (Cons op ops)
  show ?case
  proof (cases op)
    case (Push m)
    obtain r q' where p: "try_push m q = (r, q')" by fastforce
    obtain acc' where s: "queue_step op (q, acc, del) = (q', acc', del)"
      using p Push by (cases r) auto
    have "lanes_ok (q', acc', del)"
      using lanes_ok_push[OF Cons.prems(1), of m] s Push by simp
    then show ?thesis
      using Cons.IH[of q' acc' del] Cons.prems(2-) try_push_keeps[OF p] s Push by (auto split: if_splits)
  next
    case Pop
    have ctl: "list_all (\<lambda>m. for_message m = ClassControl) (oq_control q)"
      using Cons.prems(1) by (simp add: lanes_ok_def)
    show ?thesis
    proof (cases rule: pop_next_waiting_control[OF Cons.prems(2) ctl])
      case (1 m q')
      then show ?thesis
        using delivered_grows[of "(q', acc, del @ [m])" ops] Pop by auto
    next
      case (2 m q')
      have "lanes_ok (q', acc, del @ [m])"
        using lanes_ok_pop[OF Cons.prems(1)] 2 by simp
      then show ?thesis
        using Cons.IH[of q' acc "del @ [m]"] 2 Cons.prems(2,3) Pop by auto
    qed
  qed
qed simp

section \<open>Properties\<close>

text \<open>
  C8: the queue loses, duplicates and reorders nothing.  After any sequence of pushes and pops,
  on every lane the accepted messages are exactly the delivered ones followed by the pending ones;
  on the input lane this holds up to folding a pointer move into the move of the same device
  directly before it, so keys, buttons, releases and handoffs are delivered exactly as accepted;
  and no lane ever exceeds its capacity.
\<close>

theorem queue_lossless_ordered_bounded:
  "case queue_run ops (new_validated c) of (q, accepted, delivered) \<Rightarrow>
     coalesced (of_class ClassInput accepted) (of_class ClassInput delivered @ oq_input q)
     \<and> filter (Not \<circ> is_move) (of_class ClassInput accepted)
        = filter (Not \<circ> is_move) (of_class ClassInput delivered @ oq_input q)
     \<and> of_class ClassControl accepted = of_class ClassControl delivered @ oq_control q
     \<and> of_class ClassBackground accepted = of_class ClassBackground delivered @ oq_background q
     \<and> len_for q ClassInput \<le> unat (qc_input (oq_config q))
     \<and> len_for q ClassControl \<le> unat (qc_control (oq_config q))
     \<and> len_for q ClassBackground \<le> unat (qc_background (oq_config q))"
  using outbound_log.inv_run[of ops c] coalesced_others
  by (fastforce simp: queue_run_def lanes_ok_def len_for_def split: prod.splits)

lemma delivered_ignores_accepted:
  "snd (snd (fold queue_step ops (q, acc, del))) = snd (snd (fold queue_step ops (q, acc', del)))"
proof (induction ops arbitrary: q acc acc' del)
  case (Cons op ops)
  show ?case
  proof (cases op)
    case (Push m)
    then show ?thesis
      using Cons.IH by (auto split: prod.splits sum.splits)
  next
    case Pop
    then show ?thesis
      using Cons.IH by (auto split: prod.splits option.splits)
  qed
qed simp

text \<open>
  C28: liveness control is not starved by input.  If a control frame is waiting in a reachable
  queue, then within the next \<open>maximum_input_burst + 1\<close> pops, however many pushes happen between
  them, a control frame is delivered.
\<close>

theorem control_not_starved:
  assumes "fold queue_step ops (new_validated c, [], []) = (q, accepted, delivered)"
    and "oq_control q \<noteq> []"
    and "length (filter ((=) Pop) later) = Suc (unat (qc_maximum_input_burst (oq_config q)))"
  shows "\<exists>m\<in>set (snd (snd (queue_run later q))). for_message m = ClassControl"
proof -
  have "lanes_ok (q, accepted, delivered)"
    using outbound_log.inv_run[of ops c] assms(1) by simp
  then have "lanes_ok (q, oq_control q @ oq_background q @ oq_input q, [])"
    by (auto simp: lanes_ok_def of_class_uniform[of ClassInput] of_class_uniform[of ClassControl]
        of_class_uniform[of ClassBackground] intro: coalesced_refl)
  from control_delivered[OF this assms(2), of later] show ?thesis
    using assms(3) unfolding queue_run_def
    by (subst delivered_ignores_accepted[where acc' = "oq_control q @ oq_background q @ oq_input q"]) simp
qed

definition sample_pong :: WireMessage where
  "sample_pong = Pong \<lparr>pong_nonce = 1, pong_ping_sent_at_ns = 0, pong_received_at_ns = 0\<rparr>"

theorem control_not_starved_witness:
  "let q = (new_validated (QueueConfig_default\<lparr>qc_maximum_input_burst := 1\<rparr>))\<lparr>oq_control := [sample_pong]\<rparr> in
   \<exists>m\<in>set (snd (snd (queue_run [Pop, Pop] q))). for_message m = ClassControl"
proof -
  let ?c = "QueueConfig_default\<lparr>qc_maximum_input_burst := 1\<rparr>"
  have "fold queue_step [Push sample_pong] (new_validated ?c, [], []) =
     ((new_validated ?c)\<lparr>oq_control := [sample_pong]\<rparr>, [sample_pong], [])"
    by (simp add: try_push_def push_lane_def for_message_def sample_pong_def new_validated_def
        QueueConfig_default_def Let_def)
  from control_not_starved[OF this, of "[Pop, Pop]"] show ?thesis
    by (simp add: new_validated_def)
qed

text \<open>
  backpressure is explicit.  A push is rejected exactly when the message cannot be folded into
  the newest pending move and its lane is full; then the caller gets the message back unchanged,
  no lane changes, only the rejection counter of that class grows (up to saturation), and no move
  counts as coalesced.
\<close>

theorem push_rejected_iff_full:
  "case try_push m q of
     (Inr _, q') \<Rightarrow> len_for q (for_message m) < unat (capacity (for_message m) (oq_config q))
        \<or> qc_coalesce_pointer_moves (oq_config q) \<and> fst (try_coalesce_pointer_move m q)
   | (Inl e, q') \<Rightarrow> unat (capacity (for_message m) (oq_config q)) \<le> len_for q (for_message m)
        \<and> \<not> (qc_coalesce_pointer_moves (oq_config q) \<and> fst (try_coalesce_pointer_move m q))
        \<and> enq_message e = m \<and> enq_class e = for_message m
        \<and> q' = q\<lparr>oq_dropped := bump (for_message m) (oq_dropped q)\<rparr>"
proof -
  have "fst (try_coalesce_pointer_move m q) \<Longrightarrow> for_message m = ClassInput"
    using move_class by (auto simp: try_coalesce_pointer_move_def split: option.splits)
  then show ?thesis
    by (auto simp: try_push_def push_lane_def len_for_def Let_def dest: try_coalesce_False
        split: prod.splits bool.splits)
qed

section \<open>Coalescing and the encoder\<close>

text \<open>
  C36: The deltas are added in binary64, so two valid moves can be folded into a frame whose delta is
  infinite; that frame does not pass validation, although each accepted message does.
\<close>

definition f64_max :: f64 where
  "f64_max = 0x7FEFFFFFFFFFFFFF"

definition huge_move :: WireMessage where
  "huge_move = Input \<lparr>input_sequence = 1, input_timestamp_ns = 0, input_source_host = 1,
     input_source_device = 1, input_payload = WirePointerMove f64_max f64_zero\<rparr>"

lemma f64_max_mag: "f64_mag f64_max = inf_mag - 1" "\<not> f64_sign f64_max" "f64_is_finite f64_max"
  by (simp_all add: f64_max_def f64_mag_def f64_sign_def inf_mag_def f64_is_finite_def bit_iff_odd)

lemma f64_max_twice: "\<not> f64_is_finite (f64_add f64_max f64_max)"
proof -
  let ?v = "mag_value (inf_mag - 1)"
  have "mag_value inf_mag = 2 ^ 52 * 2 ^ 2046"
    by (simp add: mag_value_def inf_mag_def)
  moreover have "?v = (2 ^ 53 - 1) * 2 ^ 2045"
    by (simp add: mag_value_def inf_mag_def)
  ultimately have "mag_value inf_mag \<le> 2 * ?v"
    by simp
  then have "round_mag (mag_value inf_mag * 1) 1 \<le> round_mag (2 * ?v) 1"
    by (intro round_mag_mono) simp_all
  then have "inf_mag \<le> round_mag (2 * ?v) 1"
    by (simp only: round_mag_exact[of 1 inf_mag] zero_less_one order_refl)
  moreover have "0 < ?v"
    by (simp add: mag_value_def inf_mag_def)
  then have "f64_add f64_max f64_max = f64_make False (round_mag (2 * ?v) 1)"
    using f64_finite_not_nan[OF f64_max_mag(3)] f64_max_mag
    by (simp add: f64_add_def f64_of_num_def f64_num_def nat_mult_distrib flip: mult_2)
  ultimately show ?thesis
    by (simp add: f64_is_finite_def inf_mag_def)
qed

lemma coalesced_moves_can_overflow:
  "validate huge_move = Inr ()
   \<and> (case queue_run [Push huge_move, Push huge_move, Pop] (new_validated QueueConfig_default) of
        (q, accepted, delivered) \<Rightarrow> accepted = [huge_move, huge_move]
          \<and> (\<exists>m. delivered = [m] \<and> validate m \<noteq> Inr ()))"
proof -
  have valid: "validate huge_move = Inr ()"
    by (simp add: huge_move_def validate_input_def accepts f64_max_mag)
  have "queue_run [Push huge_move, Push huge_move, Pop] (new_validated QueueConfig_default) =
     (q, acc, del) \<Longrightarrow> acc = [huge_move, huge_move] \<and>
       del = [Input \<lparr>input_sequence = 1, input_timestamp_ns = 0, input_source_host = 1,
         input_source_device = 1,
         input_payload = WirePointerMove (f64_add f64_max f64_max) (f64_add f64_zero f64_zero)\<rparr>]" for q acc del
    by (auto simp: queue_run_def try_push_def push_lane_def for_message_def huge_move_def new_validated_def
        QueueConfig_default_def Let_def try_coalesce_pointer_move_def same_source_def pop_next_def)
  then show ?thesis
    using valid f64_max_twice by (auto simp: validate_input_def accepts split: prod.splits)
qed

end
