(* ===== verification/SessionCounters.thy ===== *)
theory SessionCounters
  imports SendQueue
begin

text \<open>
  The shared counters of \<^verbatim>\<open>crates/kvm-network/src/queue.rs\<close> that a session publishes and the
  diagnostics surface reads: \<^verbatim>\<open>ObservableSessionStats\<close> as a record of 64-bit words, one operation
  per method, the telemetry snapshot and the jitter percentile over the eight-bucket histogram.
  A relaxed store is an assignment and a relaxed \<^verbatim>\<open>fetch_add\<close> a wrapping addition; operations are
  atomic per counter and are interleaved in the order in which they are applied.
\<close>

record SessionTelemetry =
  tel_queue :: SessionStats
  tel_channel_rejections :: DropCounters
  tel_outbound_frames :: u64
  tel_outbound_bytes :: u64
  tel_inbound_frames :: u64
  tel_inbound_bytes :: u64
  tel_last_rtt :: "duration option"
  tel_pointer_datagram_active :: bool
  tel_pointer_datagrams_outbound :: u64
  tel_pointer_datagrams_inbound :: u64
  tel_pointer_datagram_gaps :: u64
  tel_pointer_datagram_jitter_us :: u64
  tel_pointer_jitter_p50_us :: u64
  tel_pointer_jitter_p95_us :: u64
  tel_pointer_jitter_p99_us :: u64
  tel_pointer_datagram_max_silence_ms :: u64
  tel_pointer_recovery_milliunits :: u64
  tel_reliable_datagrams_outbound :: u64
  tel_reliable_datagrams_inbound :: u64
  tel_reliable_datagram_retransmits :: u64

record ObservableSessionStats =
  dropped_input :: u64
  dropped_control :: u64
  dropped_background :: u64
  obs_coalesced_moves :: u64
  outbound_frames :: u64
  outbound_bytes :: u64
  inbound_frames :: u64
  inbound_bytes :: u64
  last_rtt_ns :: u64
  channel_rejected_input :: u64
  channel_rejected_control :: u64
  channel_rejected_background :: u64
  pointer_datagram_active :: bool
  pointer_datagrams_outbound :: u64
  pointer_datagrams_inbound :: u64
  pointer_datagram_gaps :: u64
  pointer_datagram_jitter_us :: u64
  pointer_jitter_buckets :: "u64 list"
  pointer_datagram_max_silence_ms :: u64
  pointer_recovery_milliunits :: u64
  reliable_datagrams_outbound :: u64
  reliable_datagrams_inbound :: u64
  reliable_datagram_retransmits :: u64

definition ObservableSessionStats_default :: ObservableSessionStats where
  "ObservableSessionStats_default =
     \<lparr>dropped_input = 0, dropped_control = 0, dropped_background = 0, obs_coalesced_moves = 0,
      outbound_frames = 0, outbound_bytes = 0, inbound_frames = 0, inbound_bytes = 0, last_rtt_ns = 0,
      channel_rejected_input = 0, channel_rejected_control = 0, channel_rejected_background = 0,
      pointer_datagram_active = False, pointer_datagrams_outbound = 0, pointer_datagrams_inbound = 0,
      pointer_datagram_gaps = 0, pointer_datagram_jitter_us = 0,
      pointer_jitter_buckets = [0, 0, 0, 0, 0, 0, 0, 0], pointer_datagram_max_silence_ms = 0,
      pointer_recovery_milliunits = 0, reliable_datagrams_outbound = 0, reliable_datagrams_inbound = 0,
      reliable_datagram_retransmits = 0\<rparr>"

definition publish :: "SessionStats \<Rightarrow> ObservableSessionStats \<Rightarrow> ObservableSessionStats" where
  "publish st o' = o'\<lparr>dropped_input := drop_input (ss_dropped st),
     dropped_control := drop_control (ss_dropped st),
     dropped_background := drop_background (ss_dropped st), obs_coalesced_moves := ss_coalesced_moves st\<rparr>"

definition snapshot :: "ObservableSessionStats \<Rightarrow> SessionStats" where
  "snapshot o' = \<lparr>ss_dropped = \<lparr>drop_input = dropped_input o', drop_control = dropped_control o',
     drop_background = dropped_background o'\<rparr>, ss_coalesced_moves = obs_coalesced_moves o'\<rparr>"

definition record_outbound :: "nat \<Rightarrow> nat \<Rightarrow> ObservableSessionStats \<Rightarrow> ObservableSessionStats" where
  "record_outbound frames bytes o' = o'\<lparr>outbound_frames := outbound_frames o' + u64_try_from frames,
     outbound_bytes := outbound_bytes o' + u64_try_from bytes\<rparr>"

definition record_inbound :: "nat \<Rightarrow> nat \<Rightarrow> ObservableSessionStats \<Rightarrow> ObservableSessionStats" where
  "record_inbound frames bytes o' = o'\<lparr>inbound_frames := inbound_frames o' + u64_try_from frames,
     inbound_bytes := inbound_bytes o' + u64_try_from bytes\<rparr>"

fun record_channel_rejection :: "TrafficClass \<Rightarrow> ObservableSessionStats \<Rightarrow> ObservableSessionStats" where
  "record_channel_rejection ClassInput o' = o'\<lparr>channel_rejected_input := channel_rejected_input o' + 1\<rparr>"
| "record_channel_rejection ClassControl o' = o'\<lparr>channel_rejected_control := channel_rejected_control o' + 1\<rparr>"
| "record_channel_rejection ClassBackground o' =
     o'\<lparr>channel_rejected_background := channel_rejected_background o' + 1\<rparr>"

definition publish_rtt :: "duration option \<Rightarrow> ObservableSessionStats \<Rightarrow> ObservableSessionStats" where
  "publish_rtt rtt o' = o'\<lparr>last_rtt_ns := (case rtt of None \<Rightarrow> 0 | Some ns \<Rightarrow> u64_try_from ns)\<rparr>"

definition set_pointer_datagram_active :: "bool \<Rightarrow> ObservableSessionStats \<Rightarrow> ObservableSessionStats" where
  "set_pointer_datagram_active active o' = o'\<lparr>pointer_datagram_active := active\<rparr>"

definition record_pointer_datagram_outbound :: "ObservableSessionStats \<Rightarrow> ObservableSessionStats" where
  "record_pointer_datagram_outbound o' = o'\<lparr>pointer_datagrams_outbound := pointer_datagrams_outbound o' + 1\<rparr>"

definition record_pointer_datagram_inbound :: "ObservableSessionStats \<Rightarrow> ObservableSessionStats" where
  "record_pointer_datagram_inbound o' = o'\<lparr>pointer_datagrams_inbound := pointer_datagrams_inbound o' + 1\<rparr>"

text \<open>\<^verbatim>\<open>Iterator::position\<close>.\<close>

fun iter_position :: "('a \<Rightarrow> bool) \<Rightarrow> 'a list \<Rightarrow> nat option" where
  "iter_position P [] = None"
| "iter_position P (x # xs) = (if P x then Some 0 else map_option Suc (iter_position P xs))"

definition jitter_bucket :: "u64 \<Rightarrow> nat" where
  "jitter_bucket jitter_us =
     (case iter_position (\<lambda>limit. jitter_us \<le> limit) [250, 500, 1000, 2000, 5000, 10000, 25000] of
        Some i \<Rightarrow> i | None \<Rightarrow> 7)"

definition record_pointer_datagram_quality ::
  "u64 \<Rightarrow> u64 \<Rightarrow> u64 \<Rightarrow> u64 \<Rightarrow> ObservableSessionStats \<Rightarrow> ObservableSessionStats" where
  "record_pointer_datagram_quality gaps jitter_us silence_ms recovery_milliunits o' =
     (let b = jitter_bucket jitter_us in
      o'\<lparr>pointer_datagram_gaps := pointer_datagram_gaps o' + gaps,
         pointer_datagram_jitter_us := jitter_us,
         pointer_jitter_buckets := (pointer_jitter_buckets o')[b := pointer_jitter_buckets o' ! b + 1],
         pointer_datagram_max_silence_ms := max (pointer_datagram_max_silence_ms o') silence_ms,
         pointer_recovery_milliunits := pointer_recovery_milliunits o' + recovery_milliunits\<rparr>)"

definition record_reliable_datagram_outbound :: "ObservableSessionStats \<Rightarrow> ObservableSessionStats" where
  "record_reliable_datagram_outbound o' = o'\<lparr>reliable_datagrams_outbound := reliable_datagrams_outbound o' + 1\<rparr>"

definition record_reliable_datagram_inbound :: "ObservableSessionStats \<Rightarrow> ObservableSessionStats" where
  "record_reliable_datagram_inbound o' = o'\<lparr>reliable_datagrams_inbound := reliable_datagrams_inbound o' + 1\<rparr>"

definition record_reliable_datagram_retransmits :: "nat \<Rightarrow> ObservableSessionStats \<Rightarrow> ObservableSessionStats" where
  "record_reliable_datagram_retransmits n o' =
     o'\<lparr>reliable_datagram_retransmits := reliable_datagram_retransmits o' + u64_try_from n\<rparr>"

section \<open>The jitter percentile\<close>

definition saturating_mul_u64 :: "u64 \<Rightarrow> u64 \<Rightarrow> u64" where
  "saturating_mul_u64 a b = (if unat a * unat b < 2 ^ 64 then a * b else - 1)"

definition div_ceil_u64 :: "u64 \<Rightarrow> u64 \<Rightarrow> u64" where
  "div_ceil_u64 a b = (if a mod b = 0 then a div b else a div b + 1)"

definition UPPER_BOUNDS_US :: "u64 list" where
  "UPPER_BOUNDS_US = [250, 500, 1000, 2000, 5000, 10000, 25000, 50000]"

text \<open>\<^verbatim>\<open>sum\<close> of a checked build: \<open>None\<close> is the overflow panic.\<close>

fun checked_sum :: "u64 \<Rightarrow> u64 list \<Rightarrow> u64 option" where
  "checked_sum acc [] = Some acc"
| "checked_sum acc (x # xs) = Option.bind (checked_add_u64 acc x) (\<lambda>s. checked_sum s xs)"

fun percentile_loop :: "u64 list \<Rightarrow> u64 list \<Rightarrow> u64 \<Rightarrow> u64 \<Rightarrow> u64" where
  "percentile_loop (count # counts) (bound # bounds) cumulative target =
     (let cumulative = saturating_add_u64 cumulative count in
      if target \<le> cumulative then bound else percentile_loop counts bounds cumulative target)"
| "percentile_loop _ _ cumulative target = UPPER_BOUNDS_US ! 7"

definition jitter_percentile :: "u64 list \<Rightarrow> u64 \<Rightarrow> u64 option" where
  "jitter_percentile buckets percentile =
     (case checked_sum 0 buckets of
        None \<Rightarrow> None
      | Some tot \<Rightarrow>
        (if tot = 0 then Some 0
         else Some (percentile_loop buckets UPPER_BOUNDS_US 0
                      (div_ceil_u64 (saturating_mul_u64 tot percentile) 100))))"

definition telemetry_snapshot :: "ObservableSessionStats \<Rightarrow> SessionTelemetry option" where
  "telemetry_snapshot o' =
     Option.bind (jitter_percentile (pointer_jitter_buckets o') 50) (\<lambda>p50.
     Option.bind (jitter_percentile (pointer_jitter_buckets o') 95) (\<lambda>p95.
     Option.bind (jitter_percentile (pointer_jitter_buckets o') 99) (\<lambda>p99.
     Some \<lparr>tel_queue = snapshot o',
       tel_channel_rejections = \<lparr>drop_input = channel_rejected_input o',
         drop_control = channel_rejected_control o', drop_background = channel_rejected_background o'\<rparr>,
       tel_outbound_frames = outbound_frames o', tel_outbound_bytes = outbound_bytes o',
       tel_inbound_frames = inbound_frames o', tel_inbound_bytes = inbound_bytes o',
       tel_last_rtt = (if last_rtt_ns o' \<noteq> 0 then Some (unat (last_rtt_ns o')) else None),
       tel_pointer_datagram_active = pointer_datagram_active o',
       tel_pointer_datagrams_outbound = pointer_datagrams_outbound o',
       tel_pointer_datagrams_inbound = pointer_datagrams_inbound o',
       tel_pointer_datagram_gaps = pointer_datagram_gaps o',
       tel_pointer_datagram_jitter_us = pointer_datagram_jitter_us o',
       tel_pointer_jitter_p50_us = p50, tel_pointer_jitter_p95_us = p95, tel_pointer_jitter_p99_us = p99,
       tel_pointer_datagram_max_silence_ms = pointer_datagram_max_silence_ms o',
       tel_pointer_recovery_milliunits = pointer_recovery_milliunits o',
       tel_reliable_datagrams_outbound = reliable_datagrams_outbound o',
       tel_reliable_datagrams_inbound = reliable_datagrams_inbound o',
       tel_reliable_datagram_retransmits = reliable_datagram_retransmits o'\<rparr>)))"

definition SessionStats_default :: SessionStats where
  "SessionStats_default = \<lparr>ss_dropped = DropCounters_default, ss_coalesced_moves = 0\<rparr>"

definition reset :: "ObservableSessionStats \<Rightarrow> ObservableSessionStats" where
  "reset o' = (publish SessionStats_default o')
     \<lparr>outbound_frames := 0, outbound_bytes := 0, inbound_frames := 0, inbound_bytes := 0, last_rtt_ns := 0,
      channel_rejected_input := 0, channel_rejected_control := 0, channel_rejected_background := 0,
      pointer_datagram_active := False, pointer_datagrams_outbound := 0, pointer_datagrams_inbound := 0,
      pointer_datagram_gaps := 0, pointer_datagram_jitter_us := 0,
      pointer_jitter_buckets := map (\<lambda>_. 0) (pointer_jitter_buckets o'),
      pointer_datagram_max_silence_ms := 0, pointer_recovery_milliunits := 0,
      reliable_datagrams_outbound := 0, reliable_datagrams_inbound := 0,
      reliable_datagram_retransmits := 0\<rparr>"

section \<open>Lemmas\<close>

lemma div_ceil_u64_le_iff:
  assumes "1 < unat b"
  shows "unat (div_ceil_u64 a b) \<le> k \<longleftrightarrow> unat a \<le> unat b * k"
proof -
  have eq: "a mod b = 0 \<longleftrightarrow> unat a mod unat b = 0"
    by (simp add: unat_mod flip: unat_eq_zero)
  have "unat a div unat b \<le> unat a div 2"
    using assms by (intro div_le_mono2) simp_all
  then have "Suc (unat a div unat b) < 2 ^ 64"
    using unat_less_2p[of a] by simp
  then have d: "unat (div_ceil_u64 a b) = (if unat a mod unat b = 0 then unat a div unat b else Suc (unat a div unat b))"
    by (simp add: div_ceil_u64_def eq unat_div unat_word_ariths)
  show ?thesis
  proof (cases "unat a mod unat b = 0")
    case True
    then obtain q where "unat a = unat b * q" by blast
    with True assms show ?thesis by (simp add: d)
  next
    case False
    have "unat a \<noteq> unat b * k"
      using False by auto
    moreover have "unat a div unat b < k \<longleftrightarrow> unat a < k * unat b"
      using assms by (intro div_less_iff_less_mult) simp
    ultimately have "unat a div unat b < k \<longleftrightarrow> unat a \<le> unat b * k"
      by (auto simp: mult.commute)
    with False show ?thesis by (simp add: d Suc_le_eq)
  qed
qed

lemma checked_sum_Some: "checked_sum acc xs = Some s \<longleftrightarrow> unat s = unat acc + sum_list (map unat xs)"
proof (induction xs arbitrary: acc)
  case Nil
  then show ?case by (auto simp: word_unat_eq_iff)
next
  case (Cons x xs)
  show ?case
  proof (cases "checked_add_u64 acc x")
    case None
    then have "2 ^ 64 \<le> unat acc + unat x"
      by (simp add: checked_add_u64_def split: if_splits)
    with None show ?thesis
      using unat_less_2p[of s] by simp
  next
    case (Some t)
    then have "unat t = unat acc + unat x"
      unfolding checked_add_u64_Some .
    then show ?thesis
      using Cons.IH[of t] Some by (simp add: add.assoc)
  qed
qed

text \<open>The loop returns the bound of the first bucket at which the running count reaches the target.\<close>

lemma percentile_loop_first:
  assumes "length bs = length cs" "unat acc + sum_list (map unat cs) < 2 ^ 64"
    "unat target \<le> unat acc + sum_list (map unat cs)" "unat acc < unat target"
  shows "\<exists>i<length cs. percentile_loop cs bs acc target = bs ! i
     \<and> unat target \<le> unat acc + sum_list (map unat (take (Suc i) cs))
     \<and> unat acc + sum_list (map unat (take i cs)) < unat target"
  using assms
proof (induction cs arbitrary: bs acc)
  case Nil
  then show ?case by simp
next
  case (Cons c cs)
  obtain b bs' where bs: "bs = b # bs'" using Cons.prems(1) by (cases bs) auto
  let ?acc = "saturating_add_u64 acc c"
  have acc: "unat ?acc = unat acc + unat c"
    using Cons.prems(2) by (simp add: rust_arith)
  show ?case
  proof (cases "target \<le> ?acc")
    case True
    with Cons.prems acc bs show ?thesis
      by (intro exI[of _ 0]) (simp add: word_le_nat_alt)
  next
    case False
    then have "\<exists>i<length cs. percentile_loop cs bs' ?acc target = bs' ! i
       \<and> unat target \<le> unat ?acc + sum_list (map unat (take (Suc i) cs))
       \<and> unat ?acc + sum_list (map unat (take i cs)) < unat target"
      using Cons.prems acc bs by (intro Cons.IH) (simp_all add: word_le_nat_alt)
    then obtain i where "i < length cs" "percentile_loop cs bs' ?acc target = bs' ! i"
       "unat target \<le> unat ?acc + sum_list (map unat (take (Suc i) cs))"
       "unat ?acc + sum_list (map unat (take i cs)) < unat target"
      by blast
    with False bs acc show ?thesis
      by (intro exI[of _ "Suc i"]) (simp add: add.assoc)
  qed
qed

text \<open>
  percentile reporting.  For a histogram of eight buckets whose total does not overflow, the
  reported percentile is the upper bound of the first bucket at which the cumulative count reaches
  that percentage of all samples.
\<close>

theorem jitter_percentile_first_bucket:
  assumes "length buckets = 8" "n = sum_list (map unat buckets)" "0 < n" "n * unat pct < 2 ^ 64"
    "0 < pct" "pct \<le> 100"
  shows "\<exists>i<8. jitter_percentile buckets pct = Some (UPPER_BOUNDS_US ! i)
     \<and> n * unat pct \<le> 100 * sum_list (map unat (take (Suc i) buckets))
     \<and> 100 * sum_list (map unat (take i buckets)) < n * unat pct"
proof -
  have pct: "0 < unat pct" "unat pct \<le> 100"
    using assms(5,6) by (simp_all add: word_le_nat_alt word_less_nat_alt)
  have n: "n < 2 ^ 64"
    using assms(4) pct(1) by (metis le_less_trans mult_le_mono2 nat_mult_1_right Suc_leI One_nat_def)
  define t where "t = (of_nat n :: u64)"
  have t: "unat t = n"
    unfolding t_def unat_of_nat using n by simp
  let ?target = "div_ceil_u64 (saturating_mul_u64 t pct) 100"
  have "unat (saturating_mul_u64 t pct) = n * unat pct"
    using assms(4) by (simp add: saturating_mul_u64_def t unat_word_ariths)
  then have target: "unat ?target \<le> k \<longleftrightarrow> n * unat pct \<le> 100 * k" for k
    using div_ceil_u64_le_iff[of 100 "saturating_mul_u64 t pct" k] by simp
  have le: "unat ?target \<le> n"
    using pct(2) by (simp add: target)
  have gt: "0 < unat ?target"
    using target[of 0] assms(3) pct(1) by simp
  have "checked_sum 0 buckets = Some t"
    by (simp add: checked_sum_Some t assms(2))
  then have "jitter_percentile buckets pct = Some (percentile_loop buckets UPPER_BOUNDS_US 0 ?target)"
    using t assms(3) by (auto simp: jitter_percentile_def)
  moreover have "\<exists>i<length buckets. percentile_loop buckets UPPER_BOUNDS_US 0 ?target = UPPER_BOUNDS_US ! i
       \<and> unat ?target \<le> unat (0::u64) + sum_list (map unat (take (Suc i) buckets))
       \<and> unat (0::u64) + sum_list (map unat (take i buckets)) < unat ?target"
    using assms(1,2) n le gt by (intro percentile_loop_first) (simp_all add: UPPER_BOUNDS_US_def)
  ultimately show ?thesis
    unfolding assms(1) by (auto simp: target not_le[symmetric])
qed

theorem jitter_percentile_first_bucket_witness:
  "\<exists>i<8. jitter_percentile [3, 0, 4, 0, 0, 2, 1, 0] 95 = Some (UPPER_BOUNDS_US ! i)
     \<and> 950 \<le> 100 * sum_list (map unat (take (Suc i) [3, 0, 4, 0, 0, 2, 1, 0 :: u64]))"
  using jitter_percentile_first_bucket[of "[3, 0, 4, 0, 0, 2, 1, 0]" 10 95] by auto

section \<open>Counters do not leak across connections\<close>

datatype stats_op =
    OpPublish SessionStats | OpOutbound nat nat | OpInbound nat nat | OpRejection TrafficClass
  | OpRtt "duration option" | OpActive bool | OpDatagramOut | OpDatagramIn | OpQuality u64 u64 u64 u64
  | OpReliableOut | OpReliableIn | OpRetransmits nat | OpReset

fun stats_step :: "stats_op \<Rightarrow> ObservableSessionStats \<Rightarrow> ObservableSessionStats" where
  "stats_step (OpPublish st) = publish st"
| "stats_step (OpOutbound f b) = record_outbound f b"
| "stats_step (OpInbound f b) = record_inbound f b"
| "stats_step (OpRejection c) = record_channel_rejection c"
| "stats_step (OpRtt r) = publish_rtt r"
| "stats_step (OpActive a) = set_pointer_datagram_active a"
| "stats_step OpDatagramOut = record_pointer_datagram_outbound"
| "stats_step OpDatagramIn = record_pointer_datagram_inbound"
| "stats_step (OpQuality g j s r) = record_pointer_datagram_quality g j s r"
| "stats_step OpReliableOut = record_reliable_datagram_outbound"
| "stats_step OpReliableIn = record_reliable_datagram_inbound"
| "stats_step (OpRetransmits n) = record_reliable_datagram_retransmits n"
| "stats_step OpReset = reset"

lemmas stats_defs = publish_def record_outbound_def record_inbound_def publish_rtt_def
  set_pointer_datagram_active_def record_pointer_datagram_outbound_def record_pointer_datagram_inbound_def
  record_pointer_datagram_quality_def record_reliable_datagram_outbound_def
  record_reliable_datagram_inbound_def record_reliable_datagram_retransmits_def reset_def

definition eight_buckets :: "ObservableSessionStats \<Rightarrow> bool" where
  "eight_buckets o' \<longleftrightarrow> length (pointer_jitter_buckets o') = 8"

lemma eight_buckets_rejection [simp]:
  "pointer_jitter_buckets (record_channel_rejection c o') = pointer_jitter_buckets o'"
  by (cases c) simp_all

interpretation stats: invariant_component stats_step eight_buckets ObservableSessionStats_default
proof
  show "eight_buckets ObservableSessionStats_default"
    by (simp add: eight_buckets_def ObservableSessionStats_default_def)
  show "eight_buckets (stats_step op s)" if "eight_buckets s" for op s
    using that by (cases op) (simp_all add: eight_buckets_def stats_defs Let_def)
qed

text \<open>
  a reset forgets everything.  Whatever was recorded or published before it, after
  \<open>reset\<close> every counter, the histogram, the round-trip time and the datagram flag have their
  initial values, so telemetry of a new connection never contains counts of an earlier one.
\<close>

theorem reset_restores_initial:
  "reset (fold stats_step ops ObservableSessionStats_default) = ObservableSessionStats_default
   \<and> map_option tel_queue (telemetry_snapshot (reset (fold stats_step ops ObservableSessionStats_default)))
      = Some SessionStats_default
   \<and> map_option tel_pointer_jitter_p99_us
       (telemetry_snapshot (reset (fold stats_step ops ObservableSessionStats_default))) = Some 0"
proof -
  define o' where "o' = fold stats_step ops ObservableSessionStats_default"
  have "length (pointer_jitter_buckets o') = 8"
    using stats.inv_run[of ops] by (simp add: eight_buckets_def o'_def)
  then have "map (\<lambda>_. 0) (pointer_jitter_buckets o') = [0, 0, 0, 0, 0, 0, 0, 0 :: u64]"
    by (simp add: map_replicate_const eval_nat_numeral)
  then have r: "reset o' = ObservableSessionStats_default"
    by (simp add: reset_def publish_def SessionStats_default_def DropCounters_default_def
        ObservableSessionStats_default_def)
  have "jitter_percentile [0, 0, 0, 0, 0, 0, 0, 0] p = Some 0" for p
    by (simp add: jitter_percentile_def checked_add_u64_def)
  then show ?thesis
    unfolding o'_def[symmetric] r
    by (simp add: telemetry_snapshot_def snapshot_def SessionStats_default_def DropCounters_default_def
        ObservableSessionStats_default_def)
qed

end
