(* ===== verification/Liveness.thy ===== *)
theory Liveness
  imports WireMessages
begin

text \<open>
  Liveness of one peer: the ping/pong controller of \<^verbatim>\<open>crates/kvm-network/src/heartbeat.rs\<close> and the
  reconnect backoff of \<^verbatim>\<open>crates/kvm-network/src/reconnect.rs\<close>.  Time is an argument of every
  operation, as in the code; the \<^verbatim>\<open>BTreeMap\<close> of outstanding pings is an association list with
  distinct keys.
\<close>

section \<open>Heartbeat\<close>

datatype PeerState = Connecting | Healthy | Degraded | Disconnected

record PeerHealth =
  ph_state :: PeerState
  connected_at :: "duration option"
  last_received_at :: "duration option"
  last_sent_at :: "duration option"
  last_pong_at :: "duration option"
  last_rtt :: "duration option"

definition PeerHealth_default :: PeerHealth where
  "PeerHealth_default = \<lparr>ph_state = Connecting, connected_at = None, last_received_at = None,
     last_sent_at = None, last_pong_at = None, last_rtt = None\<rparr>"

record HeartbeatConfig =
  hc_interval :: duration
  hc_degraded_after :: duration
  hc_disconnect_after :: duration
  hc_maximum_outstanding_pings :: nat

definition HeartbeatConfig_default :: HeartbeatConfig where
  "HeartbeatConfig_default = \<lparr>hc_interval = from_secs 1, hc_degraded_after = from_secs 3,
     hc_disconnect_after = from_secs 8, hc_maximum_outstanding_pings = 8\<rparr>"

datatype HeartbeatConfigError =
  ZeroInterval | InvalidDegradedThreshold | InvalidDisconnectThreshold | ZeroOutstandingPingBound

definition HeartbeatConfig_validate :: "HeartbeatConfig \<Rightarrow> (HeartbeatConfigError, unit) result" where
  "HeartbeatConfig_validate c =
     (if hc_interval c = 0 then Inl ZeroInterval
      else if hc_degraded_after c < hc_interval c then Inl InvalidDegradedThreshold
      else if hc_disconnect_after c \<le> hc_degraded_after c then Inl InvalidDisconnectThreshold
      else if hc_maximum_outstanding_pings c = 0 then Inl ZeroOutstandingPingBound
      else Inr ())"

datatype HeartbeatAction = Send WireMessage | StateChanged PeerState | Disconnect

datatype HeartbeatError = UnknownPong u64 | MismatchedTimestamp u64

record HeartbeatController =
  hb_config :: HeartbeatConfig
  hb_health :: PeerHealth
  next_ping_at :: "duration option"
  next_nonce :: u64
  outstanding :: "(u64, duration \<times> u64) hash_map"

definition HeartbeatController_new_validated :: "HeartbeatConfig \<Rightarrow> HeartbeatController" where
  "HeartbeatController_new_validated c = \<lparr>hb_config = c, hb_health = PeerHealth_default,
     next_ping_at = None, next_nonce = 1, outstanding = []\<rparr>"

definition HeartbeatController_try_new ::
  "HeartbeatConfig \<Rightarrow> (HeartbeatConfigError, HeartbeatController) result" where
  "HeartbeatController_try_new c =
     and_then (HeartbeatConfig_validate c) (\<lambda>_. Inr (HeartbeatController_new_validated c))"

definition duration_ns :: "duration \<Rightarrow> u64" where
  "duration_ns d = u64_try_from d"

definition hb_connected :: "duration \<Rightarrow> HeartbeatController \<Rightarrow> HeartbeatController" where
  "hb_connected now h = h
     \<lparr>hb_health := \<lparr>ph_state = Healthy, connected_at = Some now, last_received_at = Some now,
        last_sent_at = None, last_pong_at = None, last_rtt = None\<rparr>,
      next_ping_at := Some (duration_saturating_add now (hc_interval (hb_config h))),
      outstanding := []\<rparr>"

text \<open>The two halves of \<^verbatim>\<open>poll\<close>: the deadlines on silence, then the ping that is due.\<close>

definition poll_ping :: "duration \<Rightarrow> HeartbeatController \<Rightarrow> HeartbeatAction list \<times> HeartbeatController" where
  "poll_ping now h =
     (if (case next_ping_at h of None \<Rightarrow> False | Some due \<Rightarrow> due \<le> now)
         \<and> length (outstanding h) < hc_maximum_outstanding_pings (hb_config h)
      then let sent_at_ns = duration_ns now; nonce = next_nonce h in
        ([Send (Ping \<lparr>ping_nonce = nonce, ping_sent_at_ns = sent_at_ns\<rparr>)],
         h\<lparr>next_nonce := next_nonce h + 1,
           outstanding := AList.update nonce (now, sent_at_ns) (outstanding h),
           hb_health := (hb_health h)\<lparr>last_sent_at := Some now\<rparr>,
           next_ping_at := Some (duration_saturating_add now (hc_interval (hb_config h)))\<rparr>)
      else ([], h))"

definition poll :: "duration \<Rightarrow> HeartbeatController \<Rightarrow> HeartbeatAction list \<times> HeartbeatController" where
  "poll now h =
     (if ph_state (hb_health h) = Disconnected then ([], h)
      else case last_received_at (hb_health h) of
        None \<Rightarrow> poll_ping now h
      | Some last_received \<Rightarrow>
        (let silence = duration_saturating_sub now last_received in
         if hc_disconnect_after (hb_config h) \<le> silence
         then ([StateChanged Disconnected, Disconnect],
               h\<lparr>hb_health := (hb_health h)\<lparr>ph_state := Disconnected\<rparr>, outstanding := []\<rparr>)
         else if hc_degraded_after (hb_config h) \<le> silence \<and> ph_state (hb_health h) \<noteq> Degraded
         then (let (actions, h') = poll_ping now (h\<lparr>hb_health := (hb_health h)\<lparr>ph_state := Degraded\<rparr>\<rparr>)
               in (StateChanged Degraded # actions, h'))
         else poll_ping now h))"

definition note_received :: "duration \<Rightarrow> HeartbeatController \<Rightarrow> HeartbeatController" where
  "note_received now h = h\<lparr>hb_health := (hb_health h)\<lparr>last_received_at := Some now,
     ph_state := (if ph_state (hb_health h) = Degraded then Healthy else ph_state (hb_health h))\<rparr>\<rparr>"

fun on_message ::
  "WireMessage \<Rightarrow> duration \<Rightarrow> HeartbeatController \<Rightarrow>
   (HeartbeatError, WireMessage option) result \<times> HeartbeatController" where
  "on_message (Ping ping) now h =
     (Inr (Some (Pong \<lparr>pong_nonce = ping_nonce ping, pong_ping_sent_at_ns = ping_sent_at_ns ping,
                       pong_received_at_ns = duration_ns now\<rparr>)), note_received now h)"
| "on_message (Pong pong) now h =
     (let h = note_received now h in
      case map_of (outstanding h) (pong_nonce pong) of
        None \<Rightarrow> (Inl (UnknownPong (pong_nonce pong)), h)
      | Some (sent_at, wire_sent_at) \<Rightarrow>
        (if wire_sent_at \<noteq> pong_ping_sent_at_ns pong
         then (Inl (MismatchedTimestamp (pong_nonce pong)), h)
         else (Inr None,
               h\<lparr>outstanding := AList.delete (pong_nonce pong) (outstanding h),
                 hb_health := (hb_health h)\<lparr>last_pong_at := Some now,
                   last_rtt := Some (duration_saturating_sub now sent_at)\<rparr>\<rparr>)))"
| "on_message _ now h = (Inr None, note_received now h)"

section \<open>Reconnect backoff\<close>

record ReconnectPolicy =
  initial_delay :: duration
  maximum_delay :: duration
  multiplier :: u32

definition ReconnectPolicy_default :: ReconnectPolicy where
  "ReconnectPolicy_default = \<lparr>initial_delay = from_millis 250, maximum_delay = from_secs 30, multiplier = 2\<rparr>"

datatype ReconnectPolicyError = ZeroInitialDelay | MaximumBelowInitial | ZeroMultiplier

definition ReconnectPolicy_validate :: "ReconnectPolicy \<Rightarrow> (ReconnectPolicyError, unit) result" where
  "ReconnectPolicy_validate p =
     (if initial_delay p = 0 then Inl ZeroInitialDelay
      else if maximum_delay p < initial_delay p then Inl MaximumBelowInitial
      else if multiplier p = 0 then Inl ZeroMultiplier
      else Inr ())"

record ReconnectBackoff =
  rb_policy :: ReconnectPolicy
  rb_attempts :: u32

definition ReconnectBackoff_try_new :: "ReconnectPolicy \<Rightarrow> (ReconnectPolicyError, ReconnectBackoff) result" where
  "ReconnectBackoff_try_new p =
     and_then (ReconnectPolicy_validate p) (\<lambda>_. Inr \<lparr>rb_policy = p, rb_attempts = 0\<rparr>)"

text \<open>\<^verbatim>\<open>u32::saturating_pow\<close> and \<^verbatim>\<open>u32::saturating_add\<close> on the unsigned readings.\<close>

definition saturating_pow_u32 :: "nat \<Rightarrow> nat \<Rightarrow> nat" where
  "saturating_pow_u32 b e = min (2 ^ 32 - 1) (b ^ e)"

definition saturating_add_u32 :: "u32 \<Rightarrow> u32 \<Rightarrow> u32" where
  "saturating_add_u32 a b = (if unat a + unat b < 2 ^ 32 then a + b else - 1)"

definition next_delay :: "ReconnectBackoff \<Rightarrow> duration \<times> ReconnectBackoff" where
  "next_delay b =
     (let exponent = min (unat (rb_attempts b)) 31;
          factor = saturating_pow_u32 (unat (multiplier (rb_policy b))) exponent;
          delay = duration_saturating_mul (initial_delay (rb_policy b)) factor
      in (min delay (maximum_delay (rb_policy b)),
          b\<lparr>rb_attempts := saturating_add_u32 (rb_attempts b) 1\<rparr>))"

definition backoff_reset :: "ReconnectBackoff \<Rightarrow> ReconnectBackoff" where
  "backoff_reset b = b\<lparr>rb_attempts := 0\<rparr>"

section \<open>Heartbeat invariant\<close>

datatype hb_event = EvConnected duration | EvPoll duration | EvMessage WireMessage duration

fun hb_step :: "hb_event \<Rightarrow> HeartbeatController \<Rightarrow> HeartbeatController" where
  "hb_step (EvConnected now) h = hb_connected now h"
| "hb_step (EvPoll now) h = snd (poll now h)"
| "hb_step (EvMessage m now) h = snd (on_message m now h)"

definition hb_inv :: "HeartbeatController \<Rightarrow> bool" where
  "hb_inv h \<longleftrightarrow> distinct_keys (outstanding h)
     \<and> length (outstanding h) \<le> hc_maximum_outstanding_pings (hb_config h)
     \<and> list_all (\<lambda>(nonce, (sent_at, ns)). ns = duration_ns sent_at) (outstanding h)
     \<and> (ph_state (hb_health h) = Disconnected \<longrightarrow> outstanding h = [])"

lemma note_received_simps [simp]:
  "outstanding (note_received now h) = outstanding h" "hb_config (note_received now h) = hb_config h"
  "next_nonce (note_received now h) = next_nonce h"
  "last_received_at (hb_health (note_received now h)) = Some now"
  "ph_state (hb_health (note_received now h)) = Disconnected \<longleftrightarrow> ph_state (hb_health h) = Disconnected"
  "ph_state (hb_health (note_received now h)) \<noteq> Degraded"
  by (simp_all add: note_received_def)

lemma hb_inv_poll_ping:
  "hb_inv h \<Longrightarrow> ph_state (hb_health h) \<noteq> Disconnected \<Longrightarrow> hb_inv (snd (poll_ping now h))"
  using set_update_subset[of "next_nonce h" "(now, duration_ns now)" "outstanding h"]
  by (auto simp: hb_inv_def poll_ping_def Let_def list_all_iff hmap intro: distinct_keys_update)

lemma hb_inv_state [simp]:
  "hb_inv h \<Longrightarrow> s \<noteq> Disconnected \<Longrightarrow> hb_inv (h\<lparr>hb_health := (hb_health h)\<lparr>ph_state := s\<rparr>\<rparr>)"
  by (simp add: hb_inv_def)

lemma hb_inv_poll:
  assumes "hb_inv h"
  shows "hb_inv (snd (poll now h))"
proof -
  let ?d = "h\<lparr>hb_health := (hb_health h)\<lparr>ph_state := Degraded\<rparr>\<rparr>"
  have "hb_inv (snd (poll_ping now ?d))"
    using assms by (intro hb_inv_poll_ping) simp_all
  moreover have "hb_inv (h\<lparr>hb_health := (hb_health h)\<lparr>ph_state := Disconnected\<rparr>, outstanding := []\<rparr>)"
    by (simp add: hb_inv_def)
  ultimately show ?thesis
    using assms hb_inv_poll_ping[OF assms]
    by (simp add: poll_def Let_def case_prod_unfold split: option.splits)
qed

lemma hb_inv_note [simp]: "hb_inv (note_received now h) \<longleftrightarrow> hb_inv h"
  by (simp add: hb_inv_def)

lemma hb_inv_on_message: "hb_inv h \<Longrightarrow> hb_inv (snd (on_message m now h))"
proof (cases m)
  case (Pong p)
  assume h: "hb_inv h"
  show ?thesis
    using h Pong set_delete_subset[of "pong_nonce p" "outstanding h"] length_delete_le[of "pong_nonce p" "outstanding h"]
    by (auto simp: Let_def hb_inv_def list_all_iff intro: distinct_keys_delete split: option.splits)
qed simp_all

lemma hb_inv_step: "hb_inv h \<Longrightarrow> hb_inv (hb_step ev h)"
  by (cases ev) (simp_all add: hb_inv_poll hb_inv_on_message, simp add: hb_inv_def hb_connected_def)

interpretation heartbeat: invariant_component hb_step hb_inv "HeartbeatController_new_validated c"
  by unfold_locales (simp_all add: hb_inv_step, simp add: hb_inv_def HeartbeatController_new_validated_def
      PeerHealth_default_def)

section \<open>Properties of the heartbeat\<close>

lemma poll_ping_state [simp]:
  "ph_state (hb_health (snd (poll_ping now h))) = ph_state (hb_health h)"
  "last_received_at (hb_health (snd (poll_ping now h))) = last_received_at (hb_health h)"
  "hb_config (snd (poll_ping now h)) = hb_config h"
  by (simp_all add: poll_ping_def Let_def)

lemma poll_ping_sends: "set (fst (poll_ping now h)) \<subseteq> range Send"
  by (simp add: poll_ping_def Let_def)

text \<open>
  polling decides liveness by silence alone.  A controller that has heard from its peer and is
  not disconnected asks for a disconnect exactly when the silence has reached the disconnect
  threshold, and then sends nothing and forgets its outstanding pings; otherwise it is degraded
  afterwards exactly when the silence has reached the degraded threshold or it was degraded
  before, and the transition is reported once.
\<close>

theorem poll_liveness_decision:
  assumes "ph_state (hb_health h) \<noteq> Disconnected" "last_received_at (hb_health h) = Some r"
    "poll now h = (actions, h')"
  shows "(Disconnect \<in> set actions \<longleftrightarrow> hc_disconnect_after (hb_config h) \<le> now - r)
    \<and> (ph_state (hb_health h') = Disconnected \<longleftrightarrow> hc_disconnect_after (hb_config h) \<le> now - r)
    \<and> (Disconnect \<in> set actions \<longrightarrow> actions = [StateChanged Disconnected, Disconnect] \<and> outstanding h' = [])
    \<and> (now - r < hc_disconnect_after (hb_config h) \<longrightarrow>
         (ph_state (hb_health h') = Degraded \<longleftrightarrow>
            hc_degraded_after (hb_config h) \<le> now - r \<or> ph_state (hb_health h) = Degraded)
         \<and> (StateChanged Degraded \<in> set actions \<longleftrightarrow>
            hc_degraded_after (hb_config h) \<le> now - r \<and> ph_state (hb_health h) \<noteq> Degraded))"
proof -
  let ?d = "h\<lparr>hb_health := (hb_health h)\<lparr>ph_state := Degraded\<rparr>\<rparr>"
  have sends: "Disconnect \<notin> set (fst (poll_ping now k))" "StateChanged Degraded \<notin> set (fst (poll_ping now k))" for k
    using poll_ping_sends[of now k] by auto
  have eq: "actions = fst (poll now h)" "h' = snd (poll now h)"
    using assms(3) by simp_all
  show ?thesis
    unfolding eq using assms(1,2) sends[of h] sends[of ?d]
    by (auto simp: poll_def Let_def case_prod_unfold duration_saturating_sub_def)
qed

text \<open>
  after a disconnect the controller is silent: whatever is polled or received, no action is
  produced and the state stays disconnected until \<open>connected\<close> is called.
\<close>

theorem disconnected_is_silent:
  assumes "ph_state (hb_health h) = Disconnected"
    and "list_all (\<lambda>ev. case ev of EvConnected _ \<Rightarrow> False | _ \<Rightarrow> True) evs"
  shows "ph_state (hb_health (fold hb_step evs h)) = Disconnected
     \<and> fst (poll now (fold hb_step evs h)) = []"
proof -
  have msg: "ph_state (hb_health (snd (on_message m t k))) = Disconnected"
    if "ph_state (hb_health k) = Disconnected" for m t k
    using that by (cases m) (auto simp: Let_def split: option.splits)
  have "ph_state (hb_health (fold hb_step evs h)) = Disconnected"
    using assms
  proof (induction evs arbitrary: h)
    case (Cons ev evs)
    then have "ph_state (hb_health (hb_step ev h)) = Disconnected"
      by (cases ev) (simp_all add: msg, simp add: poll_def)
    with Cons show ?case by simp
  qed simp
  then show ?thesis
    by (simp add: poll_def)
qed

text \<open>
  outstanding pings are bounded and pongs are matched exactly.  In every reachable controller
  at most \<open>maximum_outstanding_pings\<close> pings are outstanding; a pong is accepted exactly when its
  nonce is outstanding and it echoes the send time recorded for that nonce; an accepted pong uses
  the ping up, so a repeated pong is rejected as unknown; and a rejected pong changes neither the
  outstanding set nor the round-trip time.
\<close>

theorem pong_matches_outstanding_ping:
  assumes "h = fold hb_step evs (HeartbeatController_new_validated c)"
    and "on_message (Pong p) now h = (r, h')"
  shows "length (outstanding h) \<le> hc_maximum_outstanding_pings (hb_config h)
    \<and> (is_ok r \<longleftrightarrow> (\<exists>sent_at. map_of (outstanding h) (pong_nonce p) = Some (sent_at, pong_ping_sent_at_ns p)))
    \<and> (is_ok r \<longrightarrow> map_of (outstanding h') (pong_nonce p) = None
         \<and> fst (on_message (Pong p) later h') = Inl (UnknownPong (pong_nonce p)))
    \<and> (\<not> is_ok r \<longrightarrow> outstanding h' = outstanding h \<and> last_rtt (hb_health h') = last_rtt (hb_health h))"
proof -
  have "length (outstanding h) \<le> hc_maximum_outstanding_pings (hb_config h)"
    using heartbeat.inv_run[of evs c] assms(1) by (simp add: hb_inv_def)
  moreover have "last_rtt (hb_health (note_received t k)) = last_rtt (hb_health k)" for t k
    by (simp add: note_received_def)
  ultimately show ?thesis
    using assms(2) by (auto simp: Let_def hmap split: option.splits if_splits)
qed

text \<open>
  a heartbeat exchange measures the round trip.  A ping emitted by one controller at time
  \<open>t1\<close>, answered by the other controller at any time \<open>t2\<close>, is accepted when the answer arrives at
  \<open>t3\<close>, records the round-trip time \<open>t3 - t1\<close>, and leaves the sender not degraded.
\<close>

theorem ping_pong_round_trip:
  assumes "poll t1 h = (actions, h1)" "Send (Ping p) \<in> set actions"
    and "on_message (Ping p) t2 peer = (r, peer')"
  shows "\<exists>reply. r = Inr (Some reply) \<and> (case on_message reply t3 h1 of (r3, h2) \<Rightarrow>
     r3 = Inr None \<and> last_rtt (hb_health h2) = Some (t3 - t1) \<and> last_pong_at (hb_health h2) = Some t3
     \<and> ph_state (hb_health h2) \<noteq> Degraded \<and> map_of (outstanding h2) (ping_nonce p) = None)"
proof -
  have sent: "map_of (outstanding (snd (poll_ping t1 k))) (ping_nonce p) = Some (t1, ping_sent_at_ns p)"
    if "Send (Ping p) \<in> set (fst (poll_ping t1 k))" for k
    using that by (auto simp: poll_ping_def Let_def hmap split: if_splits)
  have "map_of (outstanding h1) (ping_nonce p) = Some (t1, ping_sent_at_ns p)"
    using assms(1,2) sent[of h] sent[of "h\<lparr>hb_health := (hb_health h)\<lparr>ph_state := Degraded\<rparr>\<rparr>"]
    by (auto simp: poll_def Let_def case_prod_unfold split: option.splits if_splits)
  moreover have "ph_state (hb_health (note_received t3 h1)) \<noteq> Degraded"
    by simp
  ultimately show ?thesis
    using assms(3) by (auto simp: Let_def hmap duration_saturating_sub_def)
qed

definition sample_heartbeat :: HeartbeatController where
  "sample_heartbeat = hb_connected 5 (HeartbeatController_new_validated HeartbeatConfig_default)"

lemma sample_heartbeat_run:
  "sample_heartbeat = fold hb_step [EvConnected 5] (HeartbeatController_new_validated HeartbeatConfig_default)"
  by (simp add: sample_heartbeat_def)

lemmas heartbeat_eval = sample_heartbeat_def hb_connected_def HeartbeatController_new_validated_def
  HeartbeatConfig_default_def PeerHealth_default_def poll_def poll_ping_def Let_def from_secs_def
  duration_saturating_add_def duration_saturating_sub_def duration_max_def

theorem ping_pong_round_trip_witness:
  "\<exists>actions h1 p. poll 2000000005 sample_heartbeat = (actions, h1) \<and> Send (Ping p) \<in> set actions
     \<and> (\<exists>reply. fst (on_message (Ping p) 7 sample_heartbeat) = Inr (Some reply)
          \<and> last_rtt (hb_health (snd (on_message reply 2000000105 h1))) = Some 100)"
proof -
  obtain actions h1 where poll: "poll 2000000005 sample_heartbeat = (actions, h1)" by fastforce
  then obtain p where "Send (Ping p) \<in> set actions"
    by (auto simp: heartbeat_eval)
  with poll show ?thesis
    using ping_pong_round_trip[OF poll, of p 7 sample_heartbeat _ _ 2000000105]
    by (fastforce split: prod.splits)
qed

theorem poll_liveness_decision_witness:
  "\<exists>actions h'. poll 8000000005 sample_heartbeat = (actions, h') \<and> Disconnect \<in> set actions
     \<and> ph_state (hb_health h') = Disconnected \<and> outstanding h' = []"
proof -
  obtain actions h' where poll: "poll 8000000005 sample_heartbeat = (actions, h')" by fastforce
  have "ph_state (hb_health sample_heartbeat) \<noteq> Disconnected" "last_received_at (hb_health sample_heartbeat) = Some 5"
    "hc_disconnect_after (hb_config sample_heartbeat) = 8000000000"
    by (simp_all add: heartbeat_eval)
  with poll_liveness_decision[OF this(1,2) poll] poll show ?thesis
    by auto
qed

theorem disconnected_is_silent_witness:
  "fst (poll 20000000000 (fold hb_step [EvMessage (Ping \<lparr>ping_nonce = 1, ping_sent_at_ns = 0\<rparr>) 9000000000]
     (snd (poll 8000000005 sample_heartbeat)))) = []"
proof -
  have "ph_state (hb_health (snd (poll 8000000005 sample_heartbeat))) = Disconnected"
    by (simp add: heartbeat_eval)
  from disconnected_is_silent[OF this, of "[EvMessage (Ping \<lparr>ping_nonce = 1, ping_sent_at_ns = 0\<rparr>) 9000000000]"
      20000000000]
  show ?thesis by simp
qed

theorem pong_matches_outstanding_ping_witness:
  "\<not> is_ok (fst (on_message (Pong \<lparr>pong_nonce = 9, pong_ping_sent_at_ns = 0, pong_received_at_ns = 0\<rparr>) 6 sample_heartbeat))"
proof -
  let ?p = "\<lparr>pong_nonce = 9, pong_ping_sent_at_ns = 0, pong_received_at_ns = 0\<rparr>"
  obtain r h' where m: "on_message (Pong ?p) 6 sample_heartbeat = (r, h')" by fastforce
  have "outstanding sample_heartbeat = []"
    by (simp add: heartbeat_eval)
  then show ?thesis
    using pong_matches_outstanding_ping[OF sample_heartbeat_run m] m by simp
qed

section \<open>Properties of the backoff\<close>

fun backoff_delays :: "nat \<Rightarrow> ReconnectBackoff \<Rightarrow> duration list" where
  "backoff_delays 0 b = []"
| "backoff_delays (Suc n) b = (let (d, b') = next_delay b in d # backoff_delays n b')"

definition exponential_delay :: "ReconnectPolicy \<Rightarrow> nat \<Rightarrow> duration" where
  "exponential_delay p k = min (maximum_delay p)
     (initial_delay p * min (2 ^ 32 - 1) (unat (multiplier p) ^ min k 31))"

lemma unat_saturating_add_u32: "unat (saturating_add_u32 a 1) = min (Suc (unat a)) (2 ^ 32 - 1)"
  using unat_less_2p[of a]
  by (auto simp: saturating_add_u32_def unat_word_ariths unsigned_minus_1_eq_mask mask_eq_exp_minus_1)

lemma next_delay_exponential:
  "maximum_delay (rb_policy b) \<le> duration_max \<Longrightarrow>
   fst (next_delay b) = exponential_delay (rb_policy b) (unat (rb_attempts b))"
  by (simp add: next_delay_def Let_def exponential_delay_def duration_saturating_mul_def saturating_pow_u32_def
      min.commute min.left_commute)

lemma exponential_delay_capped: "exponential_delay p (min k (2 ^ 32 - 1)) = exponential_delay p k"
  by (simp add: exponential_delay_def min_def)

lemma exponential_delay_min_cong: "min j 31 = min k 31 \<Longrightarrow> exponential_delay p j = exponential_delay p k"
  by (simp add: exponential_delay_def)

lemma backoff_delays_eq:
  "maximum_delay (rb_policy b) \<le> duration_max \<Longrightarrow>
   backoff_delays n b = map (\<lambda>k. exponential_delay (rb_policy b) (unat (rb_attempts b) + k)) [0..<n]"
proof (induction n arbitrary: b)
  case (Suc n)
  let ?b = "snd (next_delay b)"
  have p: "rb_policy ?b = rb_policy b"
    and a: "unat (rb_attempts ?b) = min (Suc (unat (rb_attempts b))) (2 ^ 32 - 1)"
    by (simp_all add: next_delay_def Let_def unat_saturating_add_u32)
  have "exponential_delay q (unat (rb_attempts ?b) + k) = exponential_delay q (Suc (unat (rb_attempts b) + k))" for q k
    using unat_less_2p[of "rb_attempts b"] by (intro exponential_delay_min_cong) (simp add: a)
  then have "backoff_delays n ?b = map (\<lambda>k. exponential_delay (rb_policy b) (Suc (unat (rb_attempts b) + k))) [0..<n]"
    using Suc.IH[of ?b] Suc.prems by (simp add: p)
  then show ?case
    using next_delay_exponential[OF Suc.prems]
    by (simp add: case_prod_unfold Let_def upt_conv_Cons map_Suc_upt[symmetric] del: upt_Suc)
qed simp

lemma exponential_delay_mono:
  assumes "multiplier p \<noteq> 0" "j \<le> k"
  shows "exponential_delay p j \<le> exponential_delay p k"
proof -
  have "1 \<le> unat (multiplier p)"
    using assms(1) by (simp add: Suc_le_eq unat_gt_0)
  then have "unat (multiplier p) ^ min j 31 \<le> unat (multiplier p) ^ min k 31"
    using assms(2) by (intro power_increasing) auto
  then show ?thesis
    unfolding exponential_delay_def by (intro min.mono mult_le_mono) simp_all
qed

text \<open>
  bounded exponential backoff.  For a valid policy, the delays since the last reset are the
  initial delay times the powers of the multiplier, capped at the maximum; they never decrease, and
  each lies between the initial and the maximum delay however many attempts fail.
\<close>

theorem backoff_delays_bounded_exponential:
  assumes "ReconnectPolicy_validate (rb_policy b) = Inr ()" "maximum_delay (rb_policy b) \<le> duration_max"
  shows "backoff_delays n (backoff_reset b) = map (exponential_delay (rb_policy b)) [0..<n]
    \<and> sorted (backoff_delays n (backoff_reset b))
    \<and> list_all (\<lambda>d. initial_delay (rb_policy b) \<le> d \<and> d \<le> maximum_delay (rb_policy b))
        (backoff_delays n (backoff_reset b))"
proof -
  have v: "multiplier (rb_policy b) \<noteq> 0" "initial_delay (rb_policy b) \<le> maximum_delay (rb_policy b)"
    using assms(1) by (auto simp: ReconnectPolicy_validate_def split: if_splits)
  have eq: "backoff_delays n (backoff_reset b) = map (exponential_delay (rb_policy b)) [0..<n]"
    using backoff_delays_eq[of "backoff_reset b" n] assms(2) by (simp add: backoff_reset_def)
  moreover have "sorted (map (exponential_delay (rb_policy b)) [0..<n])"
    using exponential_delay_mono[OF v(1)] by (simp add: sorted_iff_nth_mono)
  moreover have "initial_delay (rb_policy b) \<le> exponential_delay (rb_policy b) k" for k
  proof -
    have "exponential_delay (rb_policy b) 0 = initial_delay (rb_policy b)"
      using v(2) by (simp add: exponential_delay_def min_absorb2)
    then show ?thesis
      using exponential_delay_mono[OF v(1), of 0 k] by simp
  qed
  ultimately show ?thesis
    by (simp add: list_all_iff exponential_delay_def)
qed

theorem backoff_delays_bounded_exponential_witness:
  "backoff_delays 9 (backoff_reset \<lparr>rb_policy = ReconnectPolicy_default, rb_attempts = 5\<rparr>) =
     map (exponential_delay ReconnectPolicy_default) [0..<9]
   \<and> exponential_delay ReconnectPolicy_default 3 = from_secs 2
   \<and> exponential_delay ReconnectPolicy_default 8 = from_secs 30"
  using backoff_delays_bounded_exponential[of "\<lparr>rb_policy = ReconnectPolicy_default, rb_attempts = 5\<rparr>" 9]
  by (simp add: ReconnectPolicy_validate_def ReconnectPolicy_default_def from_millis_def from_secs_def
      duration_max_def exponential_delay_def)

end
