(* ===== verification/ConnectionGate.thy ===== *)
theory ConnectionGate
  imports WireTypes
begin

text \<open>
  Deterministic connection ownership, \<^verbatim>\<open>crates/kvm-network/src/connection_role.rs\<close>: the canonical
  dialer of a peer pair and the per-peer gate that admits one connection generation at a time.
  The process-wide counter of gate identifiers is passed explicitly.  Tokens are not cloneable in
  the source; the step relation below keeps the tokens a supervisor holds as a list and consumes
  a token with every use.
\<close>

datatype ConnectionRole = Dialer | Listener

datatype ConnectionDirection = Outbound | Inbound

datatype ConnectionRoleError = IdentityCollision | NoncanonicalDirection

definition for_peers :: "WirePeerId \<Rightarrow> WirePeerId \<Rightarrow> (ConnectionRoleError, ConnectionRole) result" where
  "for_peers local remote =
     (if local < remote then Inr Dialer else if remote < local then Inr Listener else Inl IdentityCollision)"

fun direction :: "ConnectionRole \<Rightarrow> ConnectionDirection" where
  "direction Dialer = Outbound"
| "direction Listener = Inbound"

definition ConnectionRole_validate ::
  "ConnectionRole \<Rightarrow> ConnectionDirection \<Rightarrow> (ConnectionRoleError, unit) result" where
  "ConnectionRole_validate role d = (if direction role = d then Inr () else Inl NoncanonicalDirection)"

record ConnectionGeneration =
  cg_gate_instance_id :: u64
  cg_sequence :: u64

record PendingConnection =
  pc_gate_instance_id :: u64
  pc_generation :: ConnectionGeneration
  pc_direction :: ConnectionDirection

record ActiveConnection =
  ac_gate_instance_id :: u64
  ac_generation :: ConnectionGeneration
  ac_direction :: ConnectionDirection

record ConnectionGenerationGate =
  gate_instance_id :: u64
  gate_role :: ConnectionRole
  next_generation :: u64
  gate_pending :: "ConnectionGeneration option"
  gate_active :: "ConnectionGeneration option"

datatype ConnectionGenerationError =
    Role ConnectionRoleError | PendingExists | ActiveExists | StalePending | StaleActive | Exhausted
  | GateIdentifiersExhausted

text \<open>The second component is the value of \<^verbatim>\<open>NEXT_GATE_INSTANCE_ID\<close> afterwards.\<close>

definition gate_new ::
  "WirePeerId \<Rightarrow> WirePeerId \<Rightarrow> u64 \<Rightarrow>
   (ConnectionGenerationError, ConnectionGenerationGate) result \<times> u64" where
  "gate_new local remote counter =
     (case for_peers local remote of
        Inl e \<Rightarrow> (Inl (Role e), counter)
      | Inr role \<Rightarrow>
        (case checked_add_u64 counter 1 of
           None \<Rightarrow> (Inl GateIdentifiersExhausted, counter)
         | Some counter' \<Rightarrow>
           (Inr \<lparr>gate_instance_id = counter, gate_role = role, next_generation = 1,
                 gate_pending = None, gate_active = None\<rparr>, counter')))"

definition begin_pending ::
  "ConnectionDirection \<Rightarrow> ConnectionGenerationGate \<Rightarrow>
   (ConnectionGenerationError, PendingConnection) result \<times> ConnectionGenerationGate" where
  "begin_pending d g =
     (case ConnectionRole_validate (gate_role g) d of
        Inl e \<Rightarrow> (Inl (Role e), g)
      | Inr _ \<Rightarrow>
        (if gate_pending g \<noteq> None then (Inl PendingExists, g)
         else if gate_active g \<noteq> None then (Inl ActiveExists, g)
         else let generation = \<lparr>cg_gate_instance_id = gate_instance_id g, cg_sequence = next_generation g\<rparr> in
           case checked_add_u64 (next_generation g) 1 of
             None \<Rightarrow> (Inl Exhausted, g)
           | Some n \<Rightarrow>
             (Inr \<lparr>pc_gate_instance_id = gate_instance_id g, pc_generation = generation, pc_direction = d\<rparr>,
              g\<lparr>next_generation := n, gate_pending := Some generation\<rparr>)))"

definition activate ::
  "PendingConnection \<Rightarrow> ConnectionGenerationGate \<Rightarrow>
   (ConnectionGenerationError, ActiveConnection) result \<times> ConnectionGenerationGate" where
  "activate p g =
     (if pc_gate_instance_id p \<noteq> gate_instance_id g \<or> gate_pending g \<noteq> Some (pc_generation p)
      then (Inl StalePending, g)
      else if gate_active g \<noteq> None then (Inl ActiveExists, g)
      else (Inr \<lparr>ac_gate_instance_id = pc_gate_instance_id p, ac_generation = pc_generation p,
                 ac_direction = pc_direction p\<rparr>,
            g\<lparr>gate_pending := None, gate_active := Some (pc_generation p)\<rparr>))"

definition cancel_pending ::
  "PendingConnection \<Rightarrow> ConnectionGenerationGate \<Rightarrow>
   (ConnectionGenerationError, unit) result \<times> ConnectionGenerationGate" where
  "cancel_pending p g =
     (if pc_gate_instance_id p \<noteq> gate_instance_id g \<or> gate_pending g \<noteq> Some (pc_generation p)
      then (Inl StalePending, g) else (Inr (), g\<lparr>gate_pending := None\<rparr>))"

definition abandon_pending ::
  "ConnectionGeneration \<Rightarrow> ConnectionGenerationGate \<Rightarrow>
   (ConnectionGenerationError, unit) result \<times> ConnectionGenerationGate" where
  "abandon_pending generation g =
     (if gate_pending g \<noteq> Some generation then (Inl StalePending, g)
      else (Inr (), g\<lparr>gate_pending := None\<rparr>))"

definition finish_active ::
  "ActiveConnection \<Rightarrow> ConnectionGenerationGate \<Rightarrow>
   (ConnectionGenerationError, unit) result \<times> ConnectionGenerationGate" where
  "finish_active a g =
     (if ac_gate_instance_id a \<noteq> gate_instance_id g \<or> gate_active g \<noteq> Some (ac_generation a)
      then (Inl StaleActive, g) else (Inr (), g\<lparr>gate_active := None\<rparr>))"

definition is_active :: "ConnectionGenerationGate \<Rightarrow> ConnectionGeneration \<Rightarrow> bool" where
  "is_active g generation \<longleftrightarrow> gate_active g = Some generation"

definition validate_active_generation ::
  "ConnectionGenerationGate \<Rightarrow> ConnectionGeneration \<Rightarrow> (ConnectionGenerationError, unit) result" where
  "validate_active_generation g generation =
     (if gate_active g = Some generation then Inr () else Inl StaleActive)"

section \<open>The supervisor's view\<close>

text \<open>
  A world is a gate, the tokens the supervisor holds, the sequence numbers issued so far and the
  sequence numbers that became active, both in order.
\<close>

record gate_world =
  w_gate :: ConnectionGenerationGate
  w_pending :: "PendingConnection list"
  w_active :: "ActiveConnection list"
  w_issued :: "u64 list"
  w_activated :: "u64 list"

definition gate_start :: "ConnectionGenerationGate \<Rightarrow> gate_world" where
  "gate_start g = \<lparr>w_gate = g, w_pending = [], w_active = [], w_issued = [], w_activated = []\<rparr>"

inductive gate_step :: "gate_world \<Rightarrow> gate_world \<Rightarrow> bool" where
  step_begin: "begin_pending d (w_gate w) = (Inr t, g') \<Longrightarrow>
     gate_step w (w\<lparr>w_gate := g', w_pending := t # w_pending w,
                    w_issued := w_issued w @ [cg_sequence (pc_generation t)]\<rparr>)"
| step_begin_rejected: "begin_pending d (w_gate w) = (Inl e, g') \<Longrightarrow> gate_step w (w\<lparr>w_gate := g'\<rparr>)"
| step_activate: "t \<in> set (w_pending w) \<Longrightarrow> activate t (w_gate w) = (Inr a, g') \<Longrightarrow>
     gate_step w (w\<lparr>w_gate := g', w_pending := remove1 t (w_pending w), w_active := a # w_active w,
                    w_activated := w_activated w @ [cg_sequence (ac_generation a)]\<rparr>)"
| step_activate_rejected: "t \<in> set (w_pending w) \<Longrightarrow> activate t (w_gate w) = (Inl e, g') \<Longrightarrow>
     gate_step w (w\<lparr>w_gate := g', w_pending := remove1 t (w_pending w)\<rparr>)"
| step_cancel: "t \<in> set (w_pending w) \<Longrightarrow> cancel_pending t (w_gate w) = (r, g') \<Longrightarrow>
     gate_step w (w\<lparr>w_gate := g', w_pending := remove1 t (w_pending w)\<rparr>)"
| step_abandon: "abandon_pending generation (w_gate w) = (r, g') \<Longrightarrow> gate_step w (w\<lparr>w_gate := g'\<rparr>)"
| step_lost: "t \<in> set (w_pending w) \<Longrightarrow> gate_step w (w\<lparr>w_pending := remove1 t (w_pending w)\<rparr>)"
| step_finish: "a \<in> set (w_active w) \<Longrightarrow> finish_active a (w_gate w) = (r, g') \<Longrightarrow>
     gate_step w (w\<lparr>w_gate := g', w_active := remove1 a (w_active w)\<rparr>)"

inductive_cases gate_stepE: "gate_step w w'"

inductive gate_reach :: "ConnectionGenerationGate \<Rightarrow> gate_world \<Rightarrow> bool" for g where
  reach_start: "gate_reach g (gate_start g)"
| reach_step: "gate_reach g w \<Longrightarrow> gate_step w w' \<Longrightarrow> gate_reach g w'"

section \<open>Gate invariant\<close>

definition token_seqs :: "gate_world \<Rightarrow> u64 list" where
  "token_seqs w = map (cg_sequence \<circ> pc_generation) (w_pending w) @ w_activated w"

definition gate_inv :: "gate_world \<Rightarrow> bool" where
  "gate_inv w \<longleftrightarrow>
     \<not> (gate_pending (w_gate w) \<noteq> None \<and> gate_active (w_gate w) \<noteq> None)
     \<and> sorted_wrt (<) (w_issued w) \<and> (\<forall>s\<in>set (w_issued w). 0 < s \<and> s < next_generation (w_gate w))
     \<and> 0 < next_generation (w_gate w)
     \<and> distinct (token_seqs w) \<and> set (token_seqs w) \<subseteq> set (w_issued w)
     \<and> (\<forall>t\<in>set (w_pending w). pc_gate_instance_id t = gate_instance_id (w_gate w)
          \<and> cg_gate_instance_id (pc_generation t) = gate_instance_id (w_gate w)
          \<and> pc_direction t = direction (gate_role (w_gate w)))
     \<and> (\<forall>a. gate_active (w_gate w) = Some a \<longrightarrow> cg_gate_instance_id a = gate_instance_id (w_gate w)
          \<and> w_activated w \<noteq> [] \<and> cg_sequence a = last (w_activated w))
     \<and> (\<forall>p. gate_pending (w_gate w) = Some p \<longrightarrow> cg_gate_instance_id p = gate_instance_id (w_gate w)
          \<and> w_issued w \<noteq> [] \<and> cg_sequence p = last (w_issued w))
     \<and> sorted_wrt (<) (w_activated w)"

lemma sorted_wrt_less_last:
  "sorted_wrt (<) (xs :: 'a::linorder list) \<Longrightarrow> x \<in> set xs \<Longrightarrow> x \<le> last xs"
  by (induction xs rule: rev_induct) (auto simp: sorted_wrt_append less_imp_le)

lemma begin_pending_ok:
  assumes "begin_pending d g = (Inr t, g')"
  shows "gate_pending g = None" "gate_active g = None" "direction (gate_role g) = d"
    "t = \<lparr>pc_gate_instance_id = gate_instance_id g, pc_generation =
        \<lparr>cg_gate_instance_id = gate_instance_id g, cg_sequence = next_generation g\<rparr>, pc_direction = d\<rparr>"
    "next_generation g < next_generation g'"
    "gate_pending g' = Some (pc_generation t)" "gate_active g' = None"
    "gate_instance_id g' = gate_instance_id g" "gate_role g' = gate_role g"
  using assms checked_add_u64_one_less[of "next_generation g"]
  by (auto simp: begin_pending_def ConnectionRole_validate_def Let_def split: if_splits option.splits)

lemma rejected_keeps_gate:
  "begin_pending d g = (Inl e, g') \<Longrightarrow> g' = g"
  "activate t g = (Inl e, g') \<Longrightarrow> g' = g"
  "cancel_pending t g = (Inl e, g') \<Longrightarrow> g' = g"
  "abandon_pending n g = (Inl e, g') \<Longrightarrow> g' = g"
  "finish_active a g = (Inl e, g') \<Longrightarrow> g' = g"
  by (auto simp: begin_pending_def ConnectionRole_validate_def Let_def activate_def cancel_pending_def
      abandon_pending_def finish_active_def split: if_splits option.splits)

lemma gate_inv_drop_token:
  assumes "gate_inv w" "t \<in> set (w_pending w)"
  shows "gate_inv (w\<lparr>w_pending := remove1 t (w_pending w)\<rparr>)"
proof -
  obtain xs ys where w: "w_pending w = xs @ t # ys" "t \<notin> set xs"
    using split_list_first[OF assms(2)] by blast
  have "remove1 t (w_pending w) = xs @ ys"
    using w by (simp add: remove1_append)
  then show ?thesis
    using assms(1) w(1) by (simp add: gate_inv_def token_seqs_def)
qed

lemma gate_inv_clear_pending: "gate_inv w \<Longrightarrow> gate_inv (w\<lparr>w_gate := (w_gate w)\<lparr>gate_pending := None\<rparr>\<rparr>)"
  by (simp add: gate_inv_def token_seqs_def)

lemma gate_inv_set_active [simp]: "gate_inv (w\<lparr>w_active := xs\<rparr>) = gate_inv w"
  by (simp add: gate_inv_def token_seqs_def)

lemma gate_inv_clear_active: "gate_inv w \<Longrightarrow> gate_inv (w\<lparr>w_gate := (w_gate w)\<lparr>gate_active := None\<rparr>\<rparr>)"
  by (simp add: gate_inv_def token_seqs_def)

lemma gate_inv_cancel:
  assumes "gate_inv w" "t \<in> set (w_pending w)" "cancel_pending t (w_gate w) = (r, g')"
  shows "gate_inv (w\<lparr>w_gate := g', w_pending := remove1 t (w_pending w)\<rparr>)"
proof -
  have "g' = w_gate w \<or> g' = (w_gate w)\<lparr>gate_pending := None\<rparr>"
    using assms(3) by (auto simp: cancel_pending_def split: if_splits)
  then show ?thesis
    using gate_inv_drop_token[OF assms(1,2)] gate_inv_drop_token[OF gate_inv_clear_pending[OF assms(1)], of t]
      assms(2) by auto
qed

lemma gate_inv_begin:
  assumes "gate_inv w" "begin_pending d (w_gate w) = (Inr t, g')"
  shows "gate_inv (w\<lparr>w_gate := g', w_pending := t # w_pending w,
     w_issued := w_issued w @ [cg_sequence (pc_generation t)]\<rparr>)"
proof -
  note b = begin_pending_ok[OF assms(2)]
  have fresh: "next_generation (w_gate w) \<notin> set (token_seqs w)"
    using assms(1) by (auto simp: gate_inv_def)
  show ?thesis
    using assms(1) fresh b(3,5-)
    by (auto simp: gate_inv_def token_seqs_def sorted_wrt_append b(4) intro: less_trans)
qed

lemma gate_inv_activate:
  assumes "gate_inv w" "t \<in> set (w_pending w)" "activate t (w_gate w) = (Inr a, g')"
  shows "gate_inv (w\<lparr>w_gate := g', w_pending := remove1 t (w_pending w), w_active := a # w_active w,
     w_activated := w_activated w @ [cg_sequence (ac_generation a)]\<rparr>)"
proof -
  let ?s = "cg_sequence (pc_generation t)"
  have p: "gate_pending (w_gate w) = Some (pc_generation t)" "ac_generation a = pc_generation t"
    "g' = (w_gate w)\<lparr>gate_pending := None, gate_active := Some (pc_generation t)\<rparr>"
    using assms(3) by (auto simp: activate_def split: if_splits)
  obtain xs ys where w: "w_pending w = xs @ t # ys" "t \<notin> set xs"
    using split_list_first[OF assms(2)] by blast
  have r: "remove1 t (w_pending w) = xs @ ys"
    using w by (simp add: remove1_append)
  have "s < ?s" if "s \<in> set (w_activated w)" for s
  proof -
    have "s \<in> set (w_issued w)" "s \<noteq> ?s" "?s = last (w_issued w)" "sorted_wrt (<) (w_issued w)"
      using assms(1) p(1) that w by (auto simp: gate_inv_def token_seqs_def)
    then show ?thesis
      using sorted_wrt_less_last[of "w_issued w" s] by simp
  qed
  then show ?thesis
    using assms(1) p r w by (auto simp: gate_inv_def token_seqs_def sorted_wrt_append)
qed

lemma gate_inv_step: "gate_inv w \<Longrightarrow> gate_step w w' \<Longrightarrow> gate_inv w'"
proof (erule gate_stepE)
  fix generation r g'
  assume "gate_inv w" "w' = w\<lparr>w_gate := g'\<rparr>" "abandon_pending generation (w_gate w) = (r, g')"
  then show ?thesis
    using gate_inv_clear_pending[of w] by (auto simp: abandon_pending_def split: if_splits)
next
  fix a r g'
  assume "gate_inv w" "w' = w\<lparr>w_gate := g', w_active := remove1 a (w_active w)\<rparr>"
    "finish_active a (w_gate w) = (r, g')"
  then show ?thesis
    using gate_inv_clear_active[of w] by (auto simp: finish_active_def split: if_splits)
qed (auto dest: rejected_keeps_gate simp: gate_inv_begin gate_inv_activate gate_inv_cancel gate_inv_drop_token)

lemma gate_inv_reach:
  assumes "gate_new a b n = (Inr g, n')" "gate_reach g w"
  shows "gate_inv w \<and> gate_role (w_gate w) = gate_role g"
  using assms(2)
proof (induction rule: gate_reach.induct)
  case reach_start
  show ?case
    using assms(1)
    by (auto simp: gate_new_def gate_inv_def gate_start_def token_seqs_def split: sum.splits option.splits)
next
  case (reach_step w w')
  from reach_step.hyps(2) have "gate_role (w_gate w') = gate_role (w_gate w)"
    by (cases rule: gate_step.cases)
      (auto dest: rejected_keeps_gate begin_pending_ok(9) simp: activate_def cancel_pending_def
        abandon_pending_def finish_active_def split: if_splits)
  with reach_step show ?case
    using gate_inv_step by auto
qed

section \<open>Properties\<close>

text \<open>
  the two ends of a pair agree on who dials.  Gates created by two endpoints for each other
  exist exactly for distinct identities; then one end may only open the outbound connection and
  the other may only accept the inbound one, so at most one connection per pair is ever admitted.
\<close>

theorem canonical_roles_mirror:
  "(is_ok (for_peers a b) \<longleftrightarrow> a \<noteq> b)
   \<and> (for_peers a b = Inr Dialer \<longleftrightarrow> for_peers b a = Inr Listener)
   \<and> (case (for_peers a b, for_peers b a) of
        (Inr ra, Inr rb) \<Rightarrow>
          is_ok (ConnectionRole_validate ra Outbound) = is_ok (ConnectionRole_validate rb Inbound)
          \<and> is_ok (ConnectionRole_validate ra Outbound) \<noteq> is_ok (ConnectionRole_validate rb Outbound)
      | _ \<Rightarrow> a = b)"
  by (auto simp: for_peers_def ConnectionRole_validate_def)

text \<open>
  C10: one connection generation at a time.  In every world a supervisor can reach from a fresh
  gate, by any interleaving of begins, activations, cancellations, abandoned or lost tasks and
  finished sessions, the pending and the active slot are never both occupied; generations are
  issued in strictly increasing order starting above zero; the generations that ever became active
  are strictly increasing, so none is activated twice; no two held tokens share a generation; every
  token has the canonical direction; and the active generation is the latest that was activated.
\<close>

theorem one_generation_at_a_time:
  assumes "gate_new a b n = (Inr g, n')" "gate_reach g w"
  shows "\<not> (gate_pending (w_gate w) \<noteq> None \<and> gate_active (w_gate w) \<noteq> None)
    \<and> sorted_wrt (<) (w_issued w) \<and> list_all (\<lambda>s. 0 < s) (w_issued w)
    \<and> sorted_wrt (<) (w_activated w) \<and> set (w_activated w) \<subseteq> set (w_issued w)
    \<and> distinct (map (cg_sequence \<circ> pc_generation) (w_pending w))
    \<and> list_all (\<lambda>t. pc_direction t = direction (gate_role g)) (w_pending w)
    \<and> (case gate_active (w_gate w) of None \<Rightarrow> True
       | Some x \<Rightarrow> w_activated w \<noteq> [] \<and> cg_sequence x = last (w_activated w))"
  using gate_inv_reach[OF assms]
  by (auto simp: gate_inv_def token_seqs_def list_all_iff split: option.splits)

theorem one_generation_at_a_time_witness:
  "\<exists>g t (w :: gate_world). gate_new 1 2 7 = (Inr g, 8) \<and> begin_pending Outbound g = (Inr t, w_gate w)
     \<and> w_pending w = [t] \<and> distinct (map (cg_sequence \<circ> pc_generation) (w_pending w)) \<and> w_issued w = [1]"
proof -
  obtain g where g: "gate_new 1 2 7 = (Inr g, 8)"
    by (simp add: gate_new_def for_peers_def checked_add_u64_def)
  then obtain t g' where t: "begin_pending Outbound g = (Inr t, g')" and seq: "cg_sequence (pc_generation t) = 1"
    by (auto simp: gate_new_def for_peers_def checked_add_u64_def begin_pending_def ConnectionRole_validate_def Let_def)
  let ?w = "(gate_start g)\<lparr>w_gate := g', w_pending := t # w_pending (gate_start g),
     w_issued := w_issued (gate_start g) @ [cg_sequence (pc_generation t)]\<rparr>"
  have "gate_step (gate_start g) ?w"
    using t by (intro step_begin[of Outbound]) (simp add: gate_start_def)
  then have "gate_reach g ?w"
    using reach_start reach_step by blast
  then have "distinct (map (cg_sequence \<circ> pc_generation) (w_pending ?w))"
    using one_generation_at_a_time[OF g, of ?w] by blast
  then show ?thesis
    using g t seq by (intro exI[of _ g] exI[of _ t] exI[of _ ?w] conjI) (simp_all add: gate_start_def)
qed

text \<open>
  obsolete tokens are harmless.  A pending token is activated, cancelled or abandoned exactly
  when it owns the pending slot (and, for activation, the active slot is free), an active token is
  finished exactly when it owns the active slot; every rejection leaves the gate as it was, and
  abandoning can only free the slot, never activate anything.
\<close>

theorem stale_tokens_rejected:
  "(case activate t g of
      (Inr a, g') \<Rightarrow> pc_gate_instance_id t = gate_instance_id g \<and> gate_pending g = Some (pc_generation t)
        \<and> gate_active g = None \<and> is_active g' (pc_generation t) \<and> gate_pending g' = None
    | (Inl e, g') \<Rightarrow> g' = g \<and> \<not> (pc_gate_instance_id t = gate_instance_id g
        \<and> gate_pending g = Some (pc_generation t) \<and> gate_active g = None))
   \<and> (case cancel_pending t g of
      (Inr _, g') \<Rightarrow> gate_pending g = Some (pc_generation t) \<and> g' = g\<lparr>gate_pending := None\<rparr>
    | (Inl e, g') \<Rightarrow> g' = g \<and> e = StalePending)
   \<and> (case abandon_pending x g of
      (Inr _, g') \<Rightarrow> gate_pending g = Some x \<and> gate_active g' = gate_active g \<and> gate_pending g' = None
    | (Inl e, g') \<Rightarrow> g' = g \<and> gate_pending g \<noteq> Some x)
   \<and> (case finish_active a g of
      (Inr _, g') \<Rightarrow> is_active g (ac_generation a) \<and> gate_active g' = None \<and> gate_pending g' = gate_pending g
    | (Inl e, g') \<Rightarrow> g' = g \<and> \<not> (ac_gate_instance_id a = gate_instance_id g \<and> is_active g (ac_generation a)))"
  by (auto simp: activate_def cancel_pending_def abandon_pending_def finish_active_def is_active_def)

end
