(* ===== verification/Clipboard.thy ===== *)
theory Clipboard
  imports KvmTypes
begin

text \<open>
  Plain-text clipboard synchronization, \<^verbatim>\<open>crates/kvm-clipboard/src/lib.rs\<close>.  SHA-256 is a
  parameter \<open>digest\<close> of the operations (the \<^verbatim>\<open>sha2\<close> package), applied to the UTF-8 bytes of the
  text; the random identifier of a locally authored update (\<^verbatim>\<open>Uuid::new_v4\<close>) is an argument of the
  operation that draws it.
\<close>

type_synonym ContentHash = bytes32
type_synonym digest_fn = "nat list \<Rightarrow> ContentHash"

definition DEFAULT_MAX_TEXT_BYTES :: nat where
  "DEFAULT_MAX_TEXT_BYTES = 256 * 1024"

definition DEFAULT_RECENT_UPDATE_CAPACITY :: nat where
  "DEFAULT_RECENT_UPDATE_CAPACITY = 256"

record ClipboardPolicy =
  cp_enabled :: bool
  cp_max_text_bytes :: nat
  cp_recent_update_capacity :: nat

datatype PolicyError = ZeroMaximumTextBytes | ZeroRecentUpdateCapacity

definition ClipboardPolicy_new :: "bool \<Rightarrow> nat \<Rightarrow> nat \<Rightarrow> (PolicyError, ClipboardPolicy) result" where
  "ClipboardPolicy_new enabled max_text_bytes recent_update_capacity =
     (if max_text_bytes = 0 then Inl ZeroMaximumTextBytes
      else if recent_update_capacity = 0 then Inl ZeroRecentUpdateCapacity
      else Inr \<lparr>cp_enabled = enabled, cp_max_text_bytes = max_text_bytes,
                cp_recent_update_capacity = recent_update_capacity\<rparr>)"

definition ClipboardPolicy_default :: ClipboardPolicy where
  "ClipboardPolicy_default = \<lparr>cp_enabled = True, cp_max_text_bytes = DEFAULT_MAX_TEXT_BYTES,
     cp_recent_update_capacity = DEFAULT_RECENT_UPDATE_CAPACITY\<rparr>"

definition for_text :: "digest_fn \<Rightarrow> rust_string \<Rightarrow> ContentHash" where
  "for_text digest text = digest (as_bytes text)"

datatype ClipboardContent = Text (content_text: rust_string)

definition utf8_len :: "ClipboardContent \<Rightarrow> nat" where
  "utf8_len c = str_len (content_text c)"

record ClipboardUpdate =
  cu_id :: id128
  cu_origin :: HostId
  cu_content_hash :: ContentHash
  cu_content :: ClipboardContent

definition with_id :: "digest_fn \<Rightarrow> id128 \<Rightarrow> HostId \<Rightarrow> rust_string \<Rightarrow> ClipboardUpdate" where
  "with_id digest i origin text = \<lparr>cu_id = i, cu_origin = origin,
     cu_content_hash = for_text digest text, cu_content = Text text\<rparr>"

datatype IgnoreReason =
    IgnoreDisabled | DuplicateUpdate id128 | LocallyOriginated id128 | LocalEcho id128 | UnchangedContent

datatype RejectReason = PayloadTooLarge nat nat | HashMismatch ContentHash ContentHash

datatype ClipboardDecision =
    Publish ClipboardUpdate | Apply ClipboardUpdate | Ignore IgnoreReason | Reject RejectReason

record ExpectedEcho =
  ee_update_id :: id128
  ee_content_hash :: ContentHash
  ee_previous_hash :: "ContentHash option"

section \<open>Recent update identifiers\<close>

record RecentUpdateIds =
  ru_capacity :: nat
  ru_order :: "id128 list"
  ru_members :: "id128 set"

definition RecentUpdateIds_new :: "nat \<Rightarrow> RecentUpdateIds" where
  "RecentUpdateIds_new c = \<lparr>ru_capacity = c, ru_order = [], ru_members = {}\<rparr>"

definition ru_contains :: "RecentUpdateIds \<Rightarrow> id128 \<Rightarrow> bool" where
  "ru_contains r i \<longleftrightarrow> i \<in> ru_members r"

definition ru_insert :: "id128 \<Rightarrow> RecentUpdateIds \<Rightarrow> RecentUpdateIds" where
  "ru_insert i r =
     (if i \<in> ru_members r then r
      else let order = ru_order r @ [i]; members = insert i (ru_members r) in
        if ru_capacity r < length order
        then r\<lparr>ru_order := tl order, ru_members := members - {hd order}\<rparr>
        else r\<lparr>ru_order := order, ru_members := members\<rparr>)"

definition ru_remove :: "id128 \<Rightarrow> RecentUpdateIds \<Rightarrow> bool \<times> RecentUpdateIds" where
  "ru_remove i r =
     (if i \<notin> ru_members r then (False, r)
      else (True, r\<lparr>ru_members := ru_members r - {i}, ru_order := remove1 i (ru_order r)\<rparr>))"

definition ru_len :: "RecentUpdateIds \<Rightarrow> nat" where
  "ru_len r = length (ru_order r)"

section \<open>The synchronizer\<close>

record ClipboardSynchronizer =
  cs_local_host :: HostId
  cs_policy :: ClipboardPolicy
  recent_updates :: RecentUpdateIds
  expected_echoes :: "ExpectedEcho list"
  current_hash :: "ContentHash option"

definition ClipboardSynchronizer_new :: "HostId \<Rightarrow> ClipboardPolicy \<Rightarrow> ClipboardSynchronizer" where
  "ClipboardSynchronizer_new h p = \<lparr>cs_local_host = h, cs_policy = p,
     recent_updates = RecentUpdateIds_new (cp_recent_update_capacity p), expected_echoes = [],
     current_hash = None\<rparr>"

definition set_enabled :: "bool \<Rightarrow> ClipboardSynchronizer \<Rightarrow> bool \<times> ClipboardSynchronizer" where
  "set_enabled enabled s =
     (let previous = cp_enabled (cs_policy s) in
      (previous,
       if previous \<noteq> enabled
       then s\<lparr>cs_policy := (cs_policy s)\<lparr>cp_enabled := enabled\<rparr>, current_hash := None, expected_echoes := []\<rparr>
       else s))"

definition size_rejection :: "ClipboardSynchronizer \<Rightarrow> nat \<Rightarrow> RejectReason option" where
  "size_rejection s actual =
     (if cp_max_text_bytes (cs_policy s) < actual
      then Some (PayloadTooLarge actual (cp_max_text_bytes (cs_policy s))) else None)"

text \<open>Removal of the first element that matches, as \<^verbatim>\<open>position\<close> followed by \<^verbatim>\<open>remove\<close>.\<close>

fun take_first :: "('a \<Rightarrow> bool) \<Rightarrow> 'a list \<Rightarrow> ('a \<times> 'a list) option" where
  "take_first P [] = None"
| "take_first P (x # xs) = (if P x then Some (x, xs)
     else map_option (\<lambda>(y, ys). (y, x # ys)) (take_first P xs))"

definition observe_local_text ::
  "digest_fn \<Rightarrow> id128 \<Rightarrow> rust_string \<Rightarrow> ClipboardSynchronizer \<Rightarrow> ClipboardDecision \<times> ClipboardSynchronizer" where
  "observe_local_text digest new_v4 text s =
     (if \<not> cp_enabled (cs_policy s) then (Ignore IgnoreDisabled, s)
      else case size_rejection s (str_len text) of
        Some rejection \<Rightarrow> (Reject rejection, s)
      | None \<Rightarrow>
        (let content_hash = for_text digest text in
         case take_first (\<lambda>e. ee_content_hash e = content_hash) (expected_echoes s) of
           Some (expected, rest) \<Rightarrow>
             (Ignore (LocalEcho (ee_update_id expected)),
              s\<lparr>expected_echoes := rest, current_hash := Some content_hash\<rparr>)
         | None \<Rightarrow>
           (if current_hash s = Some content_hash then (Ignore UnchangedContent, s)
            else let update = with_id digest new_v4 (cs_local_host s) text in
              (Publish update,
               s\<lparr>current_hash := Some content_hash,
                 recent_updates := ru_insert (cu_id update) (recent_updates s)\<rparr>))))"

definition receive_remote ::
  "digest_fn \<Rightarrow> ClipboardUpdate \<Rightarrow> ClipboardSynchronizer \<Rightarrow> ClipboardDecision \<times> ClipboardSynchronizer" where
  "receive_remote digest update s =
     (if \<not> cp_enabled (cs_policy s) then (Ignore IgnoreDisabled, s)
      else case size_rejection s (utf8_len (cu_content update)) of
        Some rejection \<Rightarrow> (Reject rejection, s)
      | None \<Rightarrow>
        (let calculated = for_text digest (content_text (cu_content update)) in
         if calculated \<noteq> cu_content_hash update
         then (Reject (HashMismatch (cu_content_hash update) calculated), s)
         else if cu_origin update = cs_local_host s then (Ignore (LocallyOriginated (cu_id update)), s)
         else if ru_contains (recent_updates s) (cu_id update)
         then (Ignore (DuplicateUpdate (cu_id update)), s)
         else let s = s\<lparr>recent_updates := ru_insert (cu_id update) (recent_updates s)\<rparr> in
           if current_hash s = Some (cu_content_hash update) then (Ignore UnchangedContent, s)
           else let echoes = expected_echoes s @
                      [\<lparr>ee_update_id = cu_id update, ee_content_hash = cu_content_hash update,
                        ee_previous_hash = current_hash s\<rparr>]
             in (Apply update,
                 s\<lparr>current_hash := Some (cu_content_hash update),
                   expected_echoes := (if cp_recent_update_capacity (cs_policy s) < length echoes
                                       then tl echoes else echoes)\<rparr>)))"

definition cancel_expected_echo :: "id128 \<Rightarrow> ClipboardSynchronizer \<Rightarrow> bool \<times> ClipboardSynchronizer" where
  "cancel_expected_echo update_id s =
     (case take_first (\<lambda>e. ee_update_id e = update_id) (expected_echoes s) of
        None \<Rightarrow> (False, s)
      | Some (expected, rest) \<Rightarrow>
        (True, s\<lparr>expected_echoes := rest,
                 recent_updates := snd (ru_remove update_id (recent_updates s)),
                 current_hash := (if current_hash s = Some (ee_content_hash expected)
                                  then ee_previous_hash expected else current_hash s)\<rparr>))"

section \<open>Bounds invariant\<close>

definition ru_inv :: "RecentUpdateIds \<Rightarrow> bool" where
  "ru_inv r \<longleftrightarrow> distinct (ru_order r) \<and> set (ru_order r) = ru_members r \<and> length (ru_order r) \<le> ru_capacity r"

lemma ru_inv_new [simp]: "ru_inv (RecentUpdateIds_new c)"
  by (simp add: ru_inv_def RecentUpdateIds_new_def)

lemma ru_capacity_simps [simp]:
  "ru_capacity (ru_insert i r) = ru_capacity r" "ru_capacity (snd (ru_remove i r)) = ru_capacity r"
  "ru_capacity (RecentUpdateIds_new c) = c"
  by (simp_all add: ru_insert_def ru_remove_def RecentUpdateIds_new_def Let_def)

lemma ru_inv_insert: "ru_inv r \<Longrightarrow> ru_inv (ru_insert i r)"
  by (cases "ru_order r") (auto simp: ru_inv_def ru_insert_def Let_def)

lemma ru_inv_remove: "ru_inv r \<Longrightarrow> ru_inv (snd (ru_remove i r))"
  by (auto simp: ru_inv_def ru_remove_def set_remove1_eq length_remove1)

lemma ru_contains_insert: "ru_inv r \<Longrightarrow> 0 < ru_capacity r \<Longrightarrow> ru_contains (ru_insert i r) i"
  by (cases "ru_order r") (auto simp: ru_inv_def ru_insert_def ru_contains_def Let_def)

lemma ru_remove_insert:
  "ru_inv r \<Longrightarrow> \<not> ru_contains r i \<Longrightarrow> length (ru_order r) < ru_capacity r \<Longrightarrow> snd (ru_remove i (ru_insert i r)) = r"
  by (auto simp: ru_inv_def ru_insert_def ru_remove_def ru_contains_def Let_def remove1_append)

lemma take_first_Some:
  "take_first P xs = Some (y, ys) \<Longrightarrow> \<exists>us vs. xs = us @ y # vs \<and> ys = us @ vs \<and> P y \<and> (\<forall>u\<in>set us. \<not> P u)"
proof (induction xs arbitrary: y ys)
  case (Cons x xs)
  show ?case
  proof (cases "P x")
    case True
    with Cons.prems show ?thesis by (intro exI[of _ "[]"] exI[of _ ys]) auto
  next
    case False
    with Cons.prems obtain zs where "take_first P xs = Some (y, zs)" "ys = x # zs" by auto
    with Cons.IH[of y zs] False show ?thesis
      by (metis append_Cons set_ConsD)
  qed
qed simp

lemma take_first_None: "take_first P xs = None \<longleftrightarrow> (\<forall>x\<in>set xs. \<not> P x)"
  by (induction xs) auto

lemma take_first_length: "take_first P xs = Some (y, ys) \<Longrightarrow> length ys < length xs"
  by (auto dest: take_first_Some)

definition clip_inv :: "ClipboardSynchronizer \<Rightarrow> bool" where
  "clip_inv s \<longleftrightarrow> ru_inv (recent_updates s)
     \<and> ru_capacity (recent_updates s) = cp_recent_update_capacity (cs_policy s)
     \<and> length (expected_echoes s) \<le> cp_recent_update_capacity (cs_policy s)"

datatype clip_op = OpEnable bool | OpLocal id128 rust_string | OpRemote ClipboardUpdate | OpCancel id128

fun clip_step :: "digest_fn \<Rightarrow> clip_op \<Rightarrow> ClipboardSynchronizer \<Rightarrow> ClipboardSynchronizer" where
  "clip_step digest (OpEnable b) s = snd (set_enabled b s)"
| "clip_step digest (OpLocal i t) s = snd (observe_local_text digest i t s)"
| "clip_step digest (OpRemote u) s = snd (receive_remote digest u s)"
| "clip_step digest (OpCancel i) s = snd (cancel_expected_echo i s)"

lemma clip_inv_step: "clip_inv s \<Longrightarrow> clip_inv (clip_step digest op s)"
proof (cases op)
  case (OpRemote u)
  assume "clip_inv s"
  then show ?thesis
    using OpRemote by (auto simp: clip_inv_def receive_remote_def Let_def ru_inv_insert split: option.splits)
next
  case (OpLocal i t)
  assume "clip_inv s"
  then show ?thesis
    using OpLocal
    by (auto simp: clip_inv_def observe_local_text_def Let_def ru_inv_insert
        dest!: take_first_length split: option.splits)
next
  case (OpCancel i)
  assume "clip_inv s"
  then show ?thesis
    using OpCancel
    by (auto simp: clip_inv_def cancel_expected_echo_def ru_inv_remove dest!: take_first_length
        split: option.splits)
qed (auto simp: clip_inv_def set_enabled_def Let_def)

interpretation clipboard: invariant_component "clip_step digest" clip_inv "ClipboardSynchronizer_new h p"
  by unfold_locales (simp_all add: clip_inv_step, simp add: clip_inv_def ClipboardSynchronizer_new_def)

section \<open>Properties\<close>

text \<open>
  an update is applied to the local clipboard exactly when synchronization is enabled, the
  text fits the bound, the declared hash is the hash of the text, another host authored it, its
  identifier is not remembered, and its content differs from the current one.
\<close>

theorem remote_update_applied_iff:
  "fst (receive_remote digest u s) = Apply u' \<longleftrightarrow>
     u' = u \<and> cp_enabled (cs_policy s) \<and> utf8_len (cu_content u) \<le> cp_max_text_bytes (cs_policy s)
     \<and> cu_content_hash u = for_text digest (content_text (cu_content u))
     \<and> cu_origin u \<noteq> cs_local_host s \<and> \<not> ru_contains (recent_updates s) (cu_id u)
     \<and> current_hash s \<noteq> Some (cu_content_hash u)"
  by (auto simp: receive_remote_def size_rejection_def Let_def)

lemma receive_remote_Apply:
  assumes "receive_remote digest u s = (Apply u', s')"
  shows "u' = u" "cp_enabled (cs_policy s)" "str_len (content_text (cu_content u)) \<le> cp_max_text_bytes (cs_policy s)"
    "cu_content_hash u = for_text digest (content_text (cu_content u))" "cu_origin u \<noteq> cs_local_host s"
    "\<not> ru_contains (recent_updates s) (cu_id u)"
    "cs_local_host s' = cs_local_host s" "cs_policy s' = cs_policy s"
    "recent_updates s' = ru_insert (cu_id u) (recent_updates s)"
    "current_hash s' = Some (cu_content_hash u)"
    "expected_echoes s' = (let echoes = expected_echoes s @ [\<lparr>ee_update_id = cu_id u,
        ee_content_hash = cu_content_hash u, ee_previous_hash = current_hash s\<rparr>] in
        if cp_recent_update_capacity (cs_policy s) < length echoes then tl echoes else echoes)"
  using assms
  by (auto simp: receive_remote_def size_rejection_def utf8_len_def Let_def split: if_splits)

section \<open>How long an applied update is remembered\<close>

text \<open>An element with at most \<open>n\<close> younger ones behind it.\<close>

definition recently :: "nat \<Rightarrow> 'a \<Rightarrow> 'a list \<Rightarrow> bool" where
  "recently n x xs \<longleftrightarrow> (\<exists>us vs. xs = us @ x # vs \<and> length vs \<le> n)"

lemma recently_last [intro]: "recently 0 x (xs @ [x])"
  by (auto simp: recently_def)

lemma recently_mono: "recently n x xs \<Longrightarrow> n \<le> m \<Longrightarrow> recently m x xs"
  unfolding recently_def using le_trans by blast

lemma recently_mem: "recently n x xs \<Longrightarrow> x \<in> set xs"
  by (auto simp: recently_def)

lemma recently_snoc: "recently n x xs \<Longrightarrow> recently (Suc n) x (xs @ [y])"
  by (auto simp: recently_def) (metis append_Cons append_assoc length_append_singleton Suc_le_mono)

lemma recently_tl:
  assumes "recently n x xs" and "Suc n < length xs"
  shows "recently n x (tl xs)"
proof -
  obtain us vs where x: "xs = us @ x # vs" "length vs \<le> n" using assms(1) by (auto simp: recently_def)
  then obtain u us' where "us = u # us'" using assms(2) by (cases us) auto
  thus ?thesis using x by (auto simp: recently_def)
qed

lemma recently_removal:
  assumes "recently n x xs" and "xs = as @ y # bs" and "y \<noteq> x"
  shows "recently n x (as @ bs)"
proof -
  obtain us vs where x: "as @ y # bs = us @ x # vs" "length vs \<le> n" using assms by (auto simp: recently_def)
  then obtain zs where "as = us @ zs \<and> zs @ y # bs = x # vs \<or> as @ zs = us \<and> y # bs = zs @ x # vs"
    by (auto simp: append_eq_append_conv2)
  thus ?thesis
  proof
    assume z: "as = us @ zs \<and> zs @ y # bs = x # vs"
    then obtain zs' where "zs = x # zs'" using assms(3) by (cases zs) auto
    hence "as @ bs = us @ x # (zs' @ bs)" and v: "vs = zs' @ y # bs" using z by auto
    moreover have "length (zs' @ bs) \<le> n" using x(2) v by simp
    ultimately show ?thesis unfolding recently_def by blast
  next
    assume z: "as @ zs = us \<and> y # bs = zs @ x # vs"
    then obtain zs' where "zs = y # zs'" "bs = zs' @ x # vs" using assms(3) by (cases zs) auto
    thus ?thesis using x(2) unfolding recently_def by (intro exI [of _ "as @ zs'"] exI [of _ vs]) simp
  qed
qed

lemma recently_remove1: "recently n x xs \<Longrightarrow> y \<noteq> x \<Longrightarrow> recently n x (remove1 y xs)"
  by (cases "y \<in> set xs") (auto simp: remove1_append remove1_idem dest!: split_list_first intro: recently_removal)

lemma recently_take_first:
  assumes "recently n x xs" and "take_first P xs = Some (y, ys)" and "\<not> P x"
  shows "recently n x ys"
proof -
  obtain us vs where "xs = us @ y # vs" "ys = us @ vs" "P y" using take_first_Some [OF assms(2)] by blast
  thus ?thesis using recently_removal [OF assms(1)] assms(3) by metis
qed

text \<open>The operations that may remember one more update.\<close>

fun brings_text :: "clip_op \<Rightarrow> bool" where
  "brings_text (OpLocal i t) \<longleftrightarrow> True"
| "brings_text (OpRemote u) \<longleftrightarrow> True"
| "brings_text _ \<longleftrightarrow> False"

lemma recently_ru_insert:
  assumes "recently n i (ru_order r)" and "Suc n < ru_capacity r"
  shows "recently (Suc n) i (ru_order (ru_insert j r))"
  using assms recently_snoc [OF assms(1), of j] recently_mono [OF assms(1), of "Suc n"]
    recently_tl [OF recently_snoc [OF assms(1), of j]]
  by (auto simp: ru_insert_def Let_def)

lemma recent_step:
  assumes "recently n i (ru_order (recent_updates s))" and "Suc n < ru_capacity (recent_updates s) \<or> \<not> brings_text op"
    and "op \<noteq> OpCancel i"
  shows "recently (if brings_text op then Suc n else n) i (ru_order (recent_updates (clip_step digest op s)))"
proof (cases op)
  case (OpCancel j)
  thus ?thesis
    using assms recently_remove1
    by (auto simp: cancel_expected_echo_def ru_remove_def split: option.splits)
qed (use assms recently_ru_insert recently_mono [OF assms(1), of "Suc n"] in
    \<open>auto simp: set_enabled_def observe_local_text_def receive_remote_def Let_def with_id_def split: option.splits\<close>)

lemma policy_step:
  "cp_recent_update_capacity (cs_policy (clip_step digest op s)) = cp_recent_update_capacity (cs_policy s)"
  "cp_max_text_bytes (cs_policy (clip_step digest op s)) = cp_max_text_bytes (cs_policy s)"
  "cs_local_host (clip_step digest op s) = cs_local_host s"
  "ru_capacity (recent_updates (clip_step digest op s)) = ru_capacity (recent_updates s)"
  by (cases op; auto simp: set_enabled_def observe_local_text_def receive_remote_def
      cancel_expected_echo_def Let_def split: option.splits)+

lemma policy_run:
  "cp_recent_update_capacity (cs_policy (fold (clip_step digest) ops s)) = cp_recent_update_capacity (cs_policy s)"
  "cp_max_text_bytes (cs_policy (fold (clip_step digest) ops s)) = cp_max_text_bytes (cs_policy s)"
  "cs_local_host (fold (clip_step digest) ops s) = cs_local_host s"
  by (induction ops arbitrary: s) (simp_all add: policy_step)

lemma recent_run:
  assumes "recently n i (ru_order (recent_updates s))"
    and "n + length (filter brings_text ops) < ru_capacity (recent_updates s)" and "OpCancel i \<notin> set ops"
  shows "i \<in> set (ru_order (recent_updates (fold (clip_step digest) ops s)))"
  using assms
proof (induction ops arbitrary: n s)
  case (Cons op ops)
  have "recently (if brings_text op then Suc n else n) i (ru_order (recent_updates (clip_step digest op s)))"
    by (rule recent_step) (use Cons.prems in \<open>auto split: if_splits\<close>)
  thus ?case
    using Cons.IH [of "if brings_text op then Suc n else n" "clip_step digest op s"] Cons.prems
    by (simp add: policy_step split: if_splits)
qed (use recently_mem in auto)

text \<open>The operations that may take an expected echo away, other than its eviction.\<close>

fun takes_echo :: "digest_fn \<Rightarrow> ExpectedEcho \<Rightarrow> clip_op \<Rightarrow> bool" where
  "takes_echo digest e (OpEnable b) \<longleftrightarrow> \<not> b"
| "takes_echo digest e (OpLocal i t) \<longleftrightarrow> for_text digest t = ee_content_hash e"
| "takes_echo digest e (OpRemote u) \<longleftrightarrow> False"
| "takes_echo digest e (OpCancel i) \<longleftrightarrow> i = ee_update_id e"

lemma echo_step:
  assumes "recently n e (expected_echoes s)" and "cp_enabled (cs_policy s)"
    and "Suc n < cp_recent_update_capacity (cs_policy s) \<or> \<not> brings_text op" and "\<not> takes_echo digest e op"
  shows "recently (if brings_text op then Suc n else n) e (expected_echoes (clip_step digest op s))
    \<and> cp_enabled (cs_policy (clip_step digest op s))"
proof (cases op)
  case (OpRemote u)
  thus ?thesis
    using assms recently_snoc [OF assms(1)] recently_mono [OF assms(1), of "Suc n"] recently_tl [OF recently_snoc [OF assms(1)]]
    by (auto simp: receive_remote_def Let_def split: option.splits)
next
  case (OpLocal i t)
  thus ?thesis
    using assms recently_mono [OF _ le_SucI [OF order_refl], of n] recently_take_first [OF assms(1), of "\<lambda>x. ee_content_hash x = for_text digest t"]
    by (auto simp: observe_local_text_def Let_def split: option.splits)
next
  case (OpCancel i)
  thus ?thesis
    using assms recently_take_first [OF assms(1)] by (auto simp: cancel_expected_echo_def split: option.splits)
qed (use assms in \<open>auto simp: set_enabled_def\<close>)

lemma echo_run:
  assumes "recently n e (expected_echoes s)" and "cp_enabled (cs_policy s)"
    and "n + length (filter brings_text ops) < cp_recent_update_capacity (cs_policy s)"
    and "list_all (\<lambda>op. \<not> takes_echo digest e op) ops"
  shows "e \<in> set (expected_echoes (fold (clip_step digest) ops s)) \<and> cp_enabled (cs_policy (fold (clip_step digest) ops s))"
  using assms
proof (induction ops arbitrary: n s)
  case (Cons op ops)
  have "recently (if brings_text op then Suc n else n) e (expected_echoes (clip_step digest op s))
    \<and> cp_enabled (cs_policy (clip_step digest op s))"
    by (rule echo_step) (use Cons.prems in \<open>auto split: if_splits\<close>)
  thus ?case
    using Cons.IH [of "if brings_text op then Suc n else n" "clip_step digest op s"] Cons.prems
    by (simp add: policy_step split: if_splits)
qed (use recently_mem in auto)

definition echo_of :: "ClipboardUpdate \<Rightarrow> ClipboardSynchronizer \<Rightarrow> ExpectedEcho" where
  "echo_of u s = \<lparr>ee_update_id = cu_id u, ee_content_hash = cu_content_hash u, ee_previous_hash = current_hash s\<rparr>"

lemma applied_is_last:
  assumes "receive_remote digest u s = (Apply u', s')" and "clip_inv s" and "0 < cp_recent_update_capacity (cs_policy s)"
  shows "recently 0 (cu_id u) (ru_order (recent_updates s'))" and "recently 0 (echo_of u s) (expected_echoes s')"
proof -
  note r = receive_remote_Apply [OF assms(1)]
  have "cu_id u \<notin> set (ru_order (recent_updates s))" using r(6) assms(2) by (simp add: clip_inv_def ru_inv_def ru_contains_def)
  hence "\<exists>us. ru_order (recent_updates s') = us @ [cu_id u]"
    using assms(2,3) unfolding r(9)
    by (cases "ru_order (recent_updates s)") (auto simp: ru_insert_def Let_def clip_inv_def ru_inv_def)
  thus "recently 0 (cu_id u) (ru_order (recent_updates s'))" by auto
  have "\<exists>us. expected_echoes s' = us @ [echo_of u s]"
    using assms(3) unfolding r(11) by (cases "expected_echoes s") (auto simp: Let_def echo_of_def)
  thus "recently 0 (echo_of u s) (expected_echoes s')" by auto
qed

text \<open>
  C21: How far the protection against echoes and duplicates reaches.  Say a reachable synchronizer
  decides to apply an update, and afterwards performs any operations of which fewer than the
  configured history capacity observe or receive a text, and none cancels that update.  Then a
  further delivery of the update is ignored, as a duplicate, or because synchronization is
  disabled at that moment; re-enabling does not make it acceptable again.  If moreover
  synchronization was not disabled in between and no text with the same hash was observed locally,
  then the notification that the clipboard write causes is consumed as a local echo and not
  published.  (Past that many texts the oldest entries are evicted, and disabling forgets the
  expected echoes.)  Whatever happens, no host applies an update of its own.
\<close>

theorem applied_update_not_rebroadcast:
  assumes "s = fold (clip_step digest) ops (ClipboardSynchronizer_new h p)"
    and "receive_remote digest u s = (Apply u', s')" and "t = fold (clip_step digest) later s'"
    and "length (filter brings_text later) < cp_recent_update_capacity p" and "OpCancel (cu_id u) \<notin> set later"
  shows "fst (receive_remote digest u t) =
       Ignore (if cp_enabled (cs_policy t) then DuplicateUpdate (cu_id u) else IgnoreDisabled)
     \<and> (list_all (\<lambda>op. \<not> takes_echo digest (echo_of u s) op) later \<longrightarrow>
         (\<exists>i. fst (observe_local_text digest fresh (content_text (cu_content u)) t) = Ignore (LocalEcho i)))
     \<and> (case fst (receive_remote digest u author) of Apply _ \<Rightarrow> cs_local_host author \<noteq> cu_origin u | _ \<Rightarrow> True)"
proof (intro conjI impI)
  note r = receive_remote_Apply [OF assms(2)]
  have inv: "clip_inv s" using clipboard.inv_run assms(1) by simp
  have cap: "cp_recent_update_capacity (cs_policy s) = cp_recent_update_capacity p"
    using assms(1) by (simp add: policy_run ClipboardSynchronizer_new_def)
  hence pos: "0 < cp_recent_update_capacity (cs_policy s)" using assms(4) by simp
  have inv': "clip_inv s'" using clip_inv_step [OF inv, of digest "OpRemote u"] assms(2) by simp
  have inv_t: "clip_inv t" using clipboard.inv_fold [OF inv'] assms(3) by simp
  have pol: "cs_local_host t = cs_local_host s" "cp_max_text_bytes (cs_policy t) = cp_max_text_bytes (cs_policy s)"
    using r(7,8) by (simp_all add: assms(3) policy_run)
  have "ru_capacity (recent_updates s') = cp_recent_update_capacity p"
    using inv' r(8) cap by (simp add: clip_inv_def)
  hence "cu_id u \<in> set (ru_order (recent_updates t))"
    using recent_run [OF applied_is_last(1) [OF assms(2) inv pos] _ assms(5)] assms(3,4) by simp
  hence "ru_contains (recent_updates t) (cu_id u)" using inv_t by (simp add: clip_inv_def ru_inv_def ru_contains_def)
  thus "fst (receive_remote digest u t) =
       Ignore (if cp_enabled (cs_policy t) then DuplicateUpdate (cu_id u) else IgnoreDisabled)"
    using r(3-5) pol by (auto simp: receive_remote_def size_rejection_def utf8_len_def Let_def)
  show "\<exists>i. fst (observe_local_text digest fresh (content_text (cu_content u)) t) = Ignore (LocalEcho i)"
    if "list_all (\<lambda>op. \<not> takes_echo digest (echo_of u s) op) later"
  proof -
    have e: "echo_of u s \<in> set (expected_echoes t)" "cp_enabled (cs_policy t)"
      using echo_run [OF applied_is_last(2) [OF assms(2) inv pos] _ _ that] r(2,8) cap assms(3,4) by auto
    have "take_first (\<lambda>e. ee_content_hash e = for_text digest (content_text (cu_content u))) (expected_echoes t) \<noteq> None"
      using e(1) r(4) by (auto simp: take_first_None echo_of_def intro!: bexI [of _ "echo_of u s"])
    thus ?thesis using e(2) r(3) pol by (auto simp: observe_local_text_def size_rejection_def Let_def)
  qed
  show "case fst (receive_remote digest u author) of Apply _ \<Rightarrow> cs_local_host author \<noteq> cu_origin u | _ \<Rightarrow> True"
    by (auto simp: receive_remote_def Let_def split: option.splits ClipboardDecision.splits)
qed

text \<open>
  a failed clipboard write is undone.  When neither bounded history was full, cancelling the
  echo of an update that was just decided to be applied restores the synchronizer exactly, so
  the same update is applied again on the next delivery.
\<close>

theorem cancel_restores_state:
  assumes "s = fold (clip_step digest) ops (ClipboardSynchronizer_new h p)"
    and "receive_remote digest u s = (Apply u', s')"
    and "ru_len (recent_updates s) < cp_recent_update_capacity (cs_policy s)"
      "length (expected_echoes s) < cp_recent_update_capacity (cs_policy s)"
    and "list_all (\<lambda>e. ee_update_id e \<noteq> cu_id u) (expected_echoes s)"
  shows "cancel_expected_echo (cu_id u) s' = (True, s) \<and> fst (receive_remote digest u s) = Apply u"
proof -
  note r = receive_remote_Apply[OF assms(2)]
  have inv: "clip_inv s"
    using clipboard.inv_run assms(1) by simp
  let ?e = "\<lparr>ee_update_id = cu_id u, ee_content_hash = cu_content_hash u, ee_previous_hash = current_hash s\<rparr>"
  have "take_first P (xs @ [y]) = Some (y, xs)" if "list_all (\<lambda>x. \<not> P x) xs" "P y" for P xs and y :: ExpectedEcho
    using that by (induction xs) auto
  then have "take_first (\<lambda>e. ee_update_id e = cu_id u) (expected_echoes s') = Some (?e, expected_echoes s)"
    using assms(4,5) by (simp add: r(11) Let_def)
  moreover have "snd (ru_remove (cu_id u) (recent_updates s')) = recent_updates s"
    using inv r(6) assms(3) by (simp add: r(9) ru_remove_insert clip_inv_def ru_len_def)
  ultimately show ?thesis
    using r(1,7,8,10) assms(2) by (simp add: cancel_expected_echo_def)
qed

text \<open>
  memory is bounded.  After any sequence of operations the synchronizer remembers at most
  the configured number of identifiers and expected echoes, and the identifier index agrees with
  its eviction order.
\<close>

theorem clipboard_memory_bounded:
  "case fold (clip_step digest) ops (ClipboardSynchronizer_new h p) of s \<Rightarrow>
     ru_len (recent_updates s) \<le> cp_recent_update_capacity (cs_policy s)
     \<and> length (expected_echoes s) \<le> cp_recent_update_capacity (cs_policy s)
     \<and> ru_members (recent_updates s) = set (ru_order (recent_updates s))
     \<and> distinct (ru_order (recent_updates s))"
  using clipboard.inv_run[of digest ops h p] by (auto simp: clip_inv_def ru_inv_def ru_len_def)

section \<open>Concrete runs\<close>

definition length_digest :: digest_fn where
  "length_digest bs = of_nat (length bs)"

definition sample_update :: "id128 \<Rightarrow> rust_string \<Rightarrow> ClipboardUpdate" where
  "sample_update i t = with_id length_digest i 9 t"

definition sample_sync :: ClipboardSynchronizer where
  "sample_sync = ClipboardSynchronizer_new 5 ClipboardPolicy_default"

lemmas clip_eval = sample_sync_def sample_update_def with_id_def for_text_def as_bytes_def utf8_char_def
  length_digest_def ClipboardSynchronizer_new_def ClipboardPolicy_default_def DEFAULT_MAX_TEXT_BYTES_def
  DEFAULT_RECENT_UPDATE_CAPACITY_def receive_remote_def size_rejection_def utf8_len_def str_len_def
  len_utf8_def Let_def ru_contains_def ru_insert_def RecentUpdateIds_new_def

lemma sample_apply: "\<exists>s'. receive_remote length_digest (sample_update 1 [65]) sample_sync = (Apply (sample_update 1 [65]), s')"
  by (simp add: clip_eval)

theorem applied_update_not_rebroadcast_witness:
  "\<exists>s'. receive_remote length_digest (sample_update 1 [65]) sample_sync = (Apply (sample_update 1 [65]), s')
     \<and> (case fold (clip_step length_digest) [OpRemote (sample_update 2 [65, 66]), OpEnable True, OpCancel 2] s' of t \<Rightarrow>
          fst (receive_remote length_digest (sample_update 1 [65]) t) = Ignore (DuplicateUpdate 1)
          \<and> (\<exists>i. fst (observe_local_text length_digest 7 [65] t) = Ignore (LocalEcho i)))"
proof -
  let ?later = "[OpRemote (sample_update 2 [65, 66]), OpEnable True, OpCancel 2]"
  obtain s' where s': "receive_remote length_digest (sample_update 1 [65]) sample_sync = (Apply (sample_update 1 [65]), s')"
    using sample_apply by blast
  have run: "sample_sync = fold (clip_step length_digest) [] (ClipboardSynchronizer_new 5 ClipboardPolicy_default)"
    by (simp add: sample_sync_def)
  have u: "cu_id (sample_update 1 [65]) = 1" "content_text (cu_content (sample_update 1 [65])) = [65]"
    "ee_update_id (echo_of (sample_update 1 [65]) sample_sync) = 1"
    by (simp_all add: clip_eval echo_of_def)
  have few: "length (filter brings_text ?later) < cp_recent_update_capacity ClipboardPolicy_default"
    "OpCancel (cu_id (sample_update 1 [65])) \<notin> set ?later"
    "list_all (\<lambda>op. \<not> takes_echo length_digest (echo_of (sample_update 1 [65]) sample_sync) op) ?later"
    using u by (simp_all add: clip_eval)
  have "cp_enabled (cs_policy (fold (clip_step length_digest) ?later s'))"
    using s' by (auto simp: clip_eval set_enabled_def cancel_expected_echo_def)
  thus ?thesis
    using applied_update_not_rebroadcast [OF run s' refl few(1,2), of 7] few(3) s' u by auto
qed

theorem cancel_restores_state_witness:
  "\<exists>s'. receive_remote length_digest (sample_update 1 [65]) sample_sync = (Apply (sample_update 1 [65]), s')
     \<and> cancel_expected_echo 1 s' = (True, sample_sync)"
proof -
  obtain s' where s': "receive_remote length_digest (sample_update 1 [65]) sample_sync = (Apply (sample_update 1 [65]), s')"
    using sample_apply by blast
  have run: "sample_sync = fold (clip_step length_digest) [] (ClipboardSynchronizer_new 5 ClipboardPolicy_default)"
    by (simp add: sample_sync_def)
  have "ru_len (recent_updates sample_sync) < cp_recent_update_capacity (cs_policy sample_sync)"
    "length (expected_echoes sample_sync) < cp_recent_update_capacity (cs_policy sample_sync)"
    "list_all (\<lambda>e. ee_update_id e \<noteq> cu_id (sample_update 1 [65])) (expected_echoes sample_sync)"
    "cu_id (sample_update 1 [65]) = 1"
    by (simp_all add: clip_eval ru_len_def)
  then show ?thesis
    using cancel_restores_state[OF run s'] s' by auto
qed

section \<open>Rolling back two failed writes\<close>

lemma take_first_skip: "list_all (\<lambda>x. \<not> P x) us \<Longrightarrow> take_first P (us @ vs) = map_option (\<lambda>(y, ys). (y, us @ ys)) (take_first P vs)"
  by (induction us) (auto simp: option.map_comp comp_def split_def option.map_ident)

lemma two_applied:
  assumes inv: "clip_inv s"
    and a1: "receive_remote digest u1 s = (Apply a, s1)" and a2: "receive_remote digest u2 s1 = (Apply b, s2)"
    and room: "ru_len (recent_updates s) + 2 \<le> cp_recent_update_capacity (cs_policy s)"
      "length (expected_echoes s) + 2 \<le> cp_recent_update_capacity (cs_policy s)"
  shows "s2 = s\<lparr>recent_updates := (recent_updates s)\<lparr>ru_order := ru_order (recent_updates s) @ [cu_id u1, cu_id u2],
                   ru_members := insert (cu_id u2) (insert (cu_id u1) (ru_members (recent_updates s)))\<rparr>,
                 expected_echoes := expected_echoes s @ [echo_of u1 s, echo_of u2 s1],
                 current_hash := Some (cu_content_hash u2)\<rparr>"
    and "current_hash s1 = Some (cu_content_hash u1)" and "cu_content_hash u1 \<noteq> cu_content_hash u2"
    and "cu_id u1 \<notin> ru_members (recent_updates s)" "cu_id u2 \<notin> ru_members (recent_updates s)" "cu_id u1 \<noteq> cu_id u2"
proof -
  note r1 = receive_remote_Apply [OF a1] and r2 = receive_remote_Apply [OF a2]
  have cap: "ru_capacity (recent_updates s) = cp_recent_update_capacity (cs_policy s)"
    using inv by (simp add: clip_inv_def)
  have pos: "0 < cp_recent_update_capacity (cs_policy s)" using room by simp
  show fresh1: "cu_id u1 \<notin> ru_members (recent_updates s)" using r1(6) by (simp add: ru_contains_def)
  have ru1: "recent_updates s1 = (recent_updates s)\<lparr>ru_order := ru_order (recent_updates s) @ [cu_id u1],
      ru_members := insert (cu_id u1) (ru_members (recent_updates s))\<rparr>"
    using fresh1 room(1) cap unfolding r1(9) by (simp add: ru_insert_def ru_len_def)
  show ne: "cu_id u1 \<noteq> cu_id u2" and fresh2: "cu_id u2 \<notin> ru_members (recent_updates s)"
    using r2(6) ru1 by (auto simp: ru_contains_def)
  have ru2: "recent_updates s2 = (recent_updates s)\<lparr>ru_order := ru_order (recent_updates s) @ [cu_id u1, cu_id u2],
      ru_members := insert (cu_id u2) (insert (cu_id u1) (ru_members (recent_updates s)))\<rparr>"
    using ne fresh2 room(1) cap unfolding r2(9) ru1 by (auto simp: ru_insert_def ru_len_def)
  have "expected_echoes s1 = expected_echoes s @ [echo_of u1 s]"
    using room(2) by (simp add: r1(11) echo_of_def)
  hence "expected_echoes s2 = expected_echoes s @ [echo_of u1 s, echo_of u2 s1]"
    using room(2) by (simp add: r2(11) r1(8) echo_of_def)
  thus "s2 = s\<lparr>recent_updates := (recent_updates s)\<lparr>ru_order := ru_order (recent_updates s) @ [cu_id u1, cu_id u2],
                   ru_members := insert (cu_id u2) (insert (cu_id u1) (ru_members (recent_updates s)))\<rparr>,
                 expected_echoes := expected_echoes s @ [echo_of u1 s, echo_of u2 s1],
                 current_hash := Some (cu_content_hash u2)\<rparr>"
    using ru2 r1(7,8) r2(7,8,10) by (cases s2; cases s) simp
  show h: "current_hash s1 = Some (cu_content_hash u1)" by (rule r1(10))
  have "current_hash s1 \<noteq> Some (cu_content_hash u2)"
    using a2 by (auto simp: receive_remote_def Let_def split: option.splits if_splits)
  thus "cu_content_hash u1 \<noteq> cu_content_hash u2" using h by auto
qed

text \<open>
  C35: Two updates were decided to be applied and both clipboard writes fail.  Rolling the failures
  back in the order in which the updates arrived leaves everything as before except the current
  content, which is then the hash of the first failed update: a retry of that update is ignored as
  unchanged although neither write ever reached the clipboard.  Rolling back in the opposite
  order restores the synchronizer exactly.  This holds in every reachable state with room for two
  more entries in both bounded histories and no expected echo of an earlier update with one of
  their identifiers.
\<close>

theorem rollback_in_order_blocks_retry:
  assumes run: "s = fold (clip_step digest) ops (ClipboardSynchronizer_new h p)"
    and a1: "receive_remote digest u1 s = (Apply a, s1)" and a2: "receive_remote digest u2 s1 = (Apply b, s2)"
    and room: "ru_len (recent_updates s) + 2 \<le> cp_recent_update_capacity (cs_policy s)"
      "length (expected_echoes s) + 2 \<le> cp_recent_update_capacity (cs_policy s)"
    and fresh: "list_all (\<lambda>e. ee_update_id e \<noteq> cu_id u1 \<and> ee_update_id e \<noteq> cu_id u2) (expected_echoes s)"
    and in_order: "cancel_expected_echo (cu_id u1) s2 = (ok1, s3)" "cancel_expected_echo (cu_id u2) s3 = (ok2, s4)"
    and reversed: "cancel_expected_echo (cu_id u2) s2 = (ok3, s5)" "cancel_expected_echo (cu_id u1) s5 = (ok4, s6)"
  shows "ok1 \<and> ok2 \<and> s4 = s\<lparr>current_hash := Some (cu_content_hash u1)\<rparr>
    \<and> fst (receive_remote digest u1 s4) = Ignore UnchangedContent
    \<and> ok3 \<and> ok4 \<and> s6 = s"
proof -
  have inv: "clip_inv s" using clipboard.inv_run run by simp
  note two = two_applied [OF inv a1 a2 room] and r1 = receive_remote_Apply [OF a1]
  have members: "set (ru_order (recent_updates s)) = ru_members (recent_updates s)"
    using inv by (simp add: clip_inv_def ru_inv_def)
  have nots: "cu_id u1 \<notin> set (ru_order (recent_updates s))" "cu_id u2 \<notin> set (ru_order (recent_updates s))"
    using two(4,5) members by auto
  have f: "list_all (\<lambda>e. ee_update_id e \<noteq> cu_id u1) (expected_echoes s)" "list_all (\<lambda>e. ee_update_id e \<noteq> cu_id u2) (expected_echoes s)"
    using fresh by (auto simp: list_all_iff)
  have ids: "ee_update_id (echo_of u1 s) = cu_id u1" "ee_update_id (echo_of u2 s1) = cu_id u2"
    "ee_content_hash (echo_of u1 s) = cu_content_hash u1" "ee_content_hash (echo_of u2 s1) = cu_content_hash u2"
    "ee_previous_hash (echo_of u1 s) = current_hash s" "ee_previous_hash (echo_of u2 s1) = Some (cu_content_hash u1)"
    using two(2) by (simp_all add: echo_of_def)
  have t: "take_first (\<lambda>e. ee_update_id e = cu_id u1) (expected_echoes s @ [echo_of u1 s, echo_of u2 s1]) =
      Some (echo_of u1 s, expected_echoes s @ [echo_of u2 s1])"
    "take_first (\<lambda>e. ee_update_id e = cu_id u2) (expected_echoes s @ [echo_of u2 s1]) = Some (echo_of u2 s1, expected_echoes s)"
    "take_first (\<lambda>e. ee_update_id e = cu_id u2) (expected_echoes s @ [echo_of u1 s, echo_of u2 s1]) =
      Some (echo_of u2 s1, expected_echoes s @ [echo_of u1 s])"
    "take_first (\<lambda>e. ee_update_id e = cu_id u1) (expected_echoes s @ [echo_of u1 s]) = Some (echo_of u1 s, expected_echoes s)"
    using f ids two(6) by (simp_all add: take_first_skip)
  have m4: "s4 = s\<lparr>current_hash := Some (cu_content_hash u1)\<rparr>" "ok1" "ok2"
    using in_order t(1,2) two(3-6) ids nots
    by (auto simp: two(1) cancel_expected_echo_def ru_remove_def remove1_append insert_Diff_if)
  have m6: "s6 = s" "ok3" "ok4"
    using reversed t(3,4) two(3-6) ids nots
    by (auto simp: two(1) cancel_expected_echo_def ru_remove_def remove1_append insert_Diff_if)
  have "fst (receive_remote digest u1 s4) = Ignore UnchangedContent"
    using r1(2-6) m4(1) by (simp add: receive_remote_def size_rejection_def utf8_len_def ru_contains_def)
  with m4 m6 show ?thesis by blast
qed

theorem rollback_in_order_blocks_retry_witness:
  "\<exists>s1 s2 s4. receive_remote length_digest (sample_update 1 [65]) sample_sync = (Apply (sample_update 1 [65]), s1)
     \<and> receive_remote length_digest (sample_update 2 [65, 66]) s1 = (Apply (sample_update 2 [65, 66]), s2)
     \<and> s4 = snd (cancel_expected_echo 2 (snd (cancel_expected_echo 1 s2)))
     \<and> fst (receive_remote length_digest (sample_update 1 [65]) s4) = Ignore UnchangedContent
     \<and> snd (cancel_expected_echo 1 (snd (cancel_expected_echo 2 s2))) = sample_sync"
proof -
  have run: "sample_sync = fold (clip_step length_digest) [] (ClipboardSynchronizer_new 5 ClipboardPolicy_default)"
    by (simp add: sample_sync_def)
  obtain s1 s2 where a: "receive_remote length_digest (sample_update 1 [65]) sample_sync = (Apply (sample_update 1 [65]), s1)"
    "receive_remote length_digest (sample_update 2 [65, 66]) s1 = (Apply (sample_update 2 [65, 66]), s2)"
    by (simp add: clip_eval)
  have ids: "cu_id (sample_update 1 [65]) = 1" "cu_id (sample_update 2 [65, 66]) = 2" by (simp_all add: clip_eval)
  have room: "ru_len (recent_updates sample_sync) + 2 \<le> cp_recent_update_capacity (cs_policy sample_sync)"
    "length (expected_echoes sample_sync) + 2 \<le> cp_recent_update_capacity (cs_policy sample_sync)"
    "list_all (\<lambda>e. ee_update_id e \<noteq> cu_id (sample_update 1 [65]) \<and> ee_update_id e \<noteq> cu_id (sample_update 2 [65, 66])) (expected_echoes sample_sync)"
    by (simp_all add: clip_eval ru_len_def)
  show ?thesis
    using rollback_in_order_blocks_retry [OF run a room, unfolded ids] a by (metis prod.collapse)
qed

end
