(* ===== verification/Pairing.thy ===== *)
theory Pairing
  imports KvmTypes
begin

text \<open>
  Peer identities and pairing: \<^verbatim>\<open>identity.rs\<close>, \<^verbatim>\<open>channel_binding.rs\<close> and \<^verbatim>\<open>pairing.rs\<close> of
  \<^verbatim>\<open>crates/kvm-security\<close>.  A 32-byte fingerprint or context is the 256-bit word with these
  big-endian bytes.  The TLS exporter behind \<^verbatim>\<open>PairingChannelBinding\<close> is a parameter of
  \<^verbatim>\<open>PairingSession::start\<close>.
\<close>

section \<open>Fingerprints\<close>

type_synonym IdentityFingerprint = bytes32

definition FINGERPRINT_BYTES :: nat where
  "FINGERPRINT_BYTES = 32"

definition MAX_IDENTITY_NAME_BYTES :: nat where
  "MAX_IDENTITY_NAME_BYTES = 128"

definition fingerprint_as_bytes :: "IdentityFingerprint \<Rightarrow> u8 list" where
  "fingerprint_as_bytes f = be_bytes FINGERPRINT_BYTES (unat f)"

definition hex_digit :: "nat \<Rightarrow> rust_char" where
  "hex_digit n = (if n < 10 then 48 + n else 87 + n)"

definition byte_hex :: "u8 \<Rightarrow> rust_string" where
  "byte_hex b = [hex_digit (unat b div 16), hex_digit (unat b mod 16)]"

definition fingerprint_display :: "IdentityFingerprint \<Rightarrow> rust_string" where
  "fingerprint_display f = concat (map byte_hex (fingerprint_as_bytes f))"

datatype ParseFingerprintError = FpInvalidLength nat | FpInvalidHex nat

definition decode_hex_digit :: "nat \<Rightarrow> nat \<Rightarrow> (ParseFingerprintError, nat) result" where
  "decode_hex_digit v index =
     (if 48 \<le> v \<and> v \<le> 57 then Inr (v - 48)
      else if 97 \<le> v \<and> v \<le> 102 then Inr (v - 97 + 10)
      else if 65 \<le> v \<and> v \<le> 70 then Inr (v - 65 + 10)
      else Inl (FpInvalidHex index))"

text \<open>The loop over \<^verbatim>\<open>chunks_exact(2)\<close>; a digit pair is the byte \<^verbatim>\<open>(high << 4) | low\<close>.\<close>

fun decode_hex_pairs :: "nat list \<Rightarrow> nat \<Rightarrow> (ParseFingerprintError, u8 list) result" where
  "decode_hex_pairs (a # b # rest) index =
     and_then (decode_hex_digit a (index * 2)) (\<lambda>high.
     and_then (decode_hex_digit b (index * 2 + 1)) (\<lambda>low.
     and_then (decode_hex_pairs rest (Suc index)) (\<lambda>bytes.
     Inr (of_nat (high * 16 + low) # bytes))))"
| "decode_hex_pairs _ index = Inr []"

definition fingerprint_from_str :: "rust_string \<Rightarrow> (ParseFingerprintError, IdentityFingerprint) result" where
  "fingerprint_from_str s =
     (if str_len s \<noteq> FINGERPRINT_BYTES * 2 then Inl (FpInvalidLength (str_len s))
      else and_then (decode_hex_pairs (as_bytes s) 0) (\<lambda>bytes. Inr (of_nat (be_value bytes))))"

section \<open>Identities\<close>

record PeerIdentity =
  pi_peer_id :: PeerId
  pi_host_id :: HostId
  pi_display_name :: rust_string
  pi_fingerprint :: IdentityFingerprint

datatype IdentityError = EmptyDisplayName | DisplayNameTooLong nat nat | ControlCharacterInDisplayName

definition PeerIdentity_new ::
  "PeerId \<Rightarrow> HostId \<Rightarrow> rust_string \<Rightarrow> IdentityFingerprint \<Rightarrow> (IdentityError, PeerIdentity) result" where
  "PeerIdentity_new peer host name fingerprint =
     (if str_trim name = [] then Inl EmptyDisplayName
      else if MAX_IDENTITY_NAME_BYTES < str_len name
      then Inl (DisplayNameTooLong (str_len name) MAX_IDENTITY_NAME_BYTES)
      else if list_ex is_control name then Inl ControlCharacterInDisplayName
      else Inr \<lparr>pi_peer_id = peer, pi_host_id = host, pi_display_name = name, pi_fingerprint = fingerprint\<rparr>)"

record PairedPeer =
  paired_identity :: PeerIdentity

section \<open>Verification codes\<close>

definition VERIFICATION_CODE_MODULUS :: nat where
  "VERIFICATION_CODE_MODULUS = 1000000"

datatype VerificationCode = VerificationCode (code_value: nat)

text \<open>\<^verbatim>\<open>u32::from_be_bytes\<close> of the first four bytes, reduced.\<close>

definition from_exporter_output :: "bytes32 \<Rightarrow> VerificationCode" where
  "from_exporter_output output =
     VerificationCode (be_value (take 4 (be_bytes 32 (unat output))) mod VERIFICATION_CODE_MODULUS)"

fun dec_digits :: "nat \<Rightarrow> rust_string" where
  "dec_digits n = (if n < 10 then [48 + n] else dec_digits (n div 10) @ [48 + n mod 10])"

declare dec_digits.simps [simp del]

text \<open>The format \<^verbatim>\<open>{:06}\<close>: decimal, padded with zeros to at least six characters.\<close>

definition code_display :: "VerificationCode \<Rightarrow> rust_string" where
  "code_display c = (let ds = dec_digits (code_value c) in replicate (6 - length ds) 48 @ ds)"

datatype VerificationCodeParseError = InvalidLength | InvalidCharacter

definition is_ascii_digit :: "nat \<Rightarrow> bool" where
  "is_ascii_digit b \<longleftrightarrow> 48 \<le> b \<and> b \<le> 57"

definition dec_value :: "nat list \<Rightarrow> nat" where
  "dec_value ds = foldl (\<lambda>acc d. 10 * acc + (d - 48)) 0 ds"

text \<open>Six digits always fit 32 bits, so \<^verbatim>\<open>parse::<u32>\<close> cannot fail here.\<close>

definition code_from_str :: "rust_string \<Rightarrow> (VerificationCodeParseError, VerificationCode) result" where
  "code_from_str s =
     (if str_len s \<noteq> 6 then Inl InvalidLength
      else if \<not> list_all is_ascii_digit (as_bytes s) then Inl InvalidCharacter
      else Inr (VerificationCode (dec_value (as_bytes s))))"

section \<open>Pairing sessions\<close>

datatype PairingState =
    AwaitingBothApprovals | AwaitingRemoteApproval | AwaitingLocalApproval | Complete | Cancelled
  | VerificationFailed

datatype ChannelBindingError = ChannelUnauthenticated | ExportFailed rust_string

datatype PairingError =
    SelfPairing | ChannelBinding ChannelBindingError | TerminalState PairingState
  | NotFullyApproved PairingState

record PairingSession =
  ps_remote_identity :: PeerIdentity
  ps_verification_code :: VerificationCode
  ps_state :: PairingState

definition PAIRING_EXPORTER_LABEL :: string where
  "PAIRING_EXPORTER_LABEL = ''EXPORTER-software-kvm-pairing-code-v1''"

definition identity_context :: "PeerIdentity \<Rightarrow> u8 list" where
  "identity_context i = be_bytes 16 (unat (pi_peer_id i)) @ be_bytes 16 (unat (pi_host_id i))
     @ fingerprint_as_bytes (pi_fingerprint i)"

definition exporter_context :: "PeerIdentity \<Rightarrow> PeerIdentity \<Rightarrow> bytes32 \<Rightarrow> u8 list" where
  "exporter_context local remote pairing_context =
     [1] @ concat (map identity_context
        (if pi_peer_id remote < pi_peer_id local then [remote, local] else [local, remote]))
     @ be_bytes 32 (unat pairing_context)"

definition pairing_start ::
  "(string \<Rightarrow> u8 list \<Rightarrow> (ChannelBindingError, bytes32) result) \<Rightarrow> PeerIdentity \<Rightarrow> PeerIdentity \<Rightarrow> bytes32 \<Rightarrow>
   (PairingError, PairingSession) result" where
  "pairing_start export_keying_material local remote pairing_context =
     (if pi_peer_id local = pi_peer_id remote then Inl SelfPairing
      else and_then (map_err ChannelBinding
             (export_keying_material PAIRING_EXPORTER_LABEL (exporter_context local remote pairing_context)))
           (\<lambda>material. Inr \<lparr>ps_remote_identity = remote,
              ps_verification_code = from_exporter_output material, ps_state = AwaitingBothApprovals\<rparr>))"

fun approve_local_state :: "PairingState \<Rightarrow> (PairingError, PairingState) result" where
  "approve_local_state AwaitingBothApprovals = Inr AwaitingRemoteApproval"
| "approve_local_state AwaitingLocalApproval = Inr Complete"
| "approve_local_state AwaitingRemoteApproval = Inr AwaitingRemoteApproval"
| "approve_local_state Complete = Inr Complete"
| "approve_local_state Cancelled = Inl (TerminalState Cancelled)"
| "approve_local_state VerificationFailed = Inl (TerminalState VerificationFailed)"

fun approve_remote_state :: "PairingState \<Rightarrow> (PairingError, PairingState) result" where
  "approve_remote_state AwaitingBothApprovals = Inr AwaitingLocalApproval"
| "approve_remote_state AwaitingRemoteApproval = Inr Complete"
| "approve_remote_state AwaitingLocalApproval = Inr AwaitingLocalApproval"
| "approve_remote_state Complete = Inr Complete"
| "approve_remote_state Cancelled = Inl (TerminalState Cancelled)"
| "approve_remote_state VerificationFailed = Inl (TerminalState VerificationFailed)"

fun mismatch_state :: "PairingState \<Rightarrow> (PairingError, PairingState) result" where
  "mismatch_state Complete = Inl (TerminalState Complete)"
| "mismatch_state Cancelled = Inl (TerminalState Cancelled)"
| "mismatch_state _ = Inr VerificationFailed"

fun cancel_state :: "PairingState \<Rightarrow> (PairingError, PairingState) result" where
  "cancel_state Complete = Inl (TerminalState Complete)"
| "cancel_state VerificationFailed = Inl (TerminalState VerificationFailed)"
| "cancel_state _ = Inr Cancelled"

definition update_state ::
  "(PairingState \<Rightarrow> (PairingError, PairingState) result) \<Rightarrow> PairingSession \<Rightarrow>
   (PairingError, unit) result \<times> PairingSession" where
  "update_state f s = (case f (ps_state s) of Inl e \<Rightarrow> (Inl e, s) | Inr st \<Rightarrow> (Inr (), s\<lparr>ps_state := st\<rparr>))"

definition approve_local :: "PairingSession \<Rightarrow> (PairingError, unit) result \<times> PairingSession" where
  "approve_local = update_state approve_local_state"

definition approve_remote :: "PairingSession \<Rightarrow> (PairingError, unit) result \<times> PairingSession" where
  "approve_remote = update_state approve_remote_state"

definition report_verification_mismatch :: "PairingSession \<Rightarrow> (PairingError, unit) result \<times> PairingSession" where
  "report_verification_mismatch = update_state mismatch_state"

definition pairing_cancel :: "PairingSession \<Rightarrow> (PairingError, unit) result \<times> PairingSession" where
  "pairing_cancel = update_state cancel_state"

definition pairing_finish :: "PairingSession \<Rightarrow> (PairingError, PairedPeer) result" where
  "pairing_finish s =
     (if ps_state s \<noteq> Complete then Inl (NotFullyApproved (ps_state s))
      else Inr \<lparr>paired_identity = ps_remote_identity s\<rparr>)"

section \<open>Hexadecimal text\<close>

definition ascii_lower :: "rust_char \<Rightarrow> rust_char" where
  "ascii_lower c = (if 65 \<le> c \<and> c \<le> 90 then c + 32 else c)"

lemma decode_hex_digit_iff: "decode_hex_digit v i = Inr n \<longleftrightarrow> n < 16 \<and> ascii_lower v = hex_digit n"
  by (auto simp: decode_hex_digit_def ascii_lower_def hex_digit_def split: if_splits)

lemma decode_hex_pairs_sound:
  "decode_hex_pairs bs i = Inr ys \<Longrightarrow> even (length bs) \<Longrightarrow>
   map ascii_lower bs = concat (map byte_hex ys) \<and> length bs = 2 * length ys"
proof (induction bs i arbitrary: ys rule: decode_hex_pairs.induct)
  case (1 a b rest index)
  from "1.prems"(1) obtain h l zs where
    "h < 16" "ascii_lower a = hex_digit h" "l < 16" "ascii_lower b = hex_digit l"
    and zs: "decode_hex_pairs rest (Suc index) = Inr zs" and ys: "ys = of_nat (h * 16 + l) # zs"
    by (auto simp: decode_hex_digit_iff)
  moreover have "byte_hex (of_nat (h * 16 + l)) = [hex_digit h, hex_digit l]"
  proof -
    have "unat (of_nat (h * 16 + l) :: u8) = h * 16 + l"
      using \<open>h < 16\<close> \<open>l < 16\<close> by (intro unat_of_nat_byte) simp
    then show ?thesis
      using \<open>l < 16\<close> by (simp add: byte_hex_def del: of_nat_add of_nat_mult)
  qed
  moreover have "map ascii_lower rest = concat (map byte_hex zs) \<and> length rest = 2 * length zs"
    using "1.IH"[OF zs] "1.prems"(2) by simp
  ultimately show ?case
    by (simp del: of_nat_add of_nat_mult)
qed simp_all

lemma decode_hex_pairs_complete:
  "map ascii_lower bs = concat (map byte_hex ys) \<Longrightarrow> decode_hex_pairs bs i = Inr ys"
proof (induction ys arbitrary: bs i)
  case (Cons y ys)
  then obtain a b rest where bs: "bs = a # b # rest"
    by (auto simp: byte_hex_def Cons_eq_map_conv map_eq_Cons_conv)
  have y: "unat y div 16 < 16" "unat y mod 16 < 16" "(of_nat (unat y div 16 * 16 + unat y mod 16) :: u8) = y"
    using unat_less_2p[of y] by (simp_all add: div_less_iff_less_mult)
  have "decode_hex_digit a (i * 2) = Inr (unat y div 16)" "decode_hex_digit b (i * 2 + 1) = Inr (unat y mod 16)"
    using Cons.prems y by (simp_all add: bs byte_hex_def decode_hex_digit_iff)
  then show ?case
    using Cons bs y(3) by (simp add: byte_hex_def[of y] del: of_nat_add of_nat_mult)
qed simp

lemma hex_digit_ascii: "n < 16 \<Longrightarrow> hex_digit n < 128"
  by (simp add: hex_digit_def)

lemma byte_hex_ascii: "list_all (\<lambda>c. c < 128) (concat (map byte_hex bs))"
proof (induction bs)
  case (Cons b bs)
  have "unat b div 16 < 16" "unat b mod 16 < 16"
    using unat_less_2p[of b] by (simp_all add: div_less_iff_less_mult)
  with Cons show ?case
    by (simp add: byte_hex_def hex_digit_ascii)
qed simp

lemma ascii_lower_ascii: "ascii_lower c < 128 \<longleftrightarrow> c < 128"
  by (auto simp: ascii_lower_def)

lemma fingerprint_bytes_inverse: "length bs = 32 \<Longrightarrow> be_bytes 32 (unat (of_nat (be_value bs) :: bytes32)) = bs"
  using be_value_less[of bs] be_bytes_be_value[of bs] unfolding unat_of_nat by (simp add: take_bit_eq_mod)

text \<open>
  the textual form of a fingerprint.  Parsing succeeds with a fingerprint exactly on its
  64-digit lower-case rendering up to the case of the digits, so rendering and parsing round-trip
  and no other text denotes that fingerprint.
\<close>

theorem fingerprint_text_exact:
  "(fingerprint_from_str s = Inr f \<longleftrightarrow> map ascii_lower s = fingerprint_display f)
   \<and> fingerprint_from_str (fingerprint_display f) = Inr f \<and> length (fingerprint_display f) = 64"
proof -
  have len: "length (fingerprint_display g) = 64" for g
    by (simp add: fingerprint_display_def fingerprint_as_bytes_def FINGERPRINT_BYTES_def length_concat
        byte_hex_def comp_def sum_list_triv)
  have iff: "fingerprint_from_str t = Inr g \<longleftrightarrow> map ascii_lower t = fingerprint_display g" for t g
  proof
    assume a: "fingerprint_from_str t = Inr g"
    then obtain ys where ys: "decode_hex_pairs (as_bytes t) 0 = Inr ys" "g = of_nat (be_value ys)"
      and "str_len t = 64"
      by (auto simp: fingerprint_from_str_def FINGERPRINT_BYTES_def split: if_splits)
    then have s: "map ascii_lower (as_bytes t) = concat (map byte_hex ys)" "length ys = 32"
      using decode_hex_pairs_sound[OF ys(1)] by (simp_all add: length_as_bytes)
    have "list_all (\<lambda>c. c < 128) (map ascii_lower (as_bytes t))"
      unfolding s(1) by (rule byte_hex_ascii)
    then have "as_bytes t = t"
      using as_bytes_all_ascii[of t] by (intro as_bytes_ascii) (simp add: list_all_iff ascii_lower_ascii)
    with s ys(2) show "map ascii_lower t = fingerprint_display g"
      by (simp add: fingerprint_display_def fingerprint_as_bytes_def FINGERPRINT_BYTES_def
          fingerprint_bytes_inverse)
  next
    assume a: "map ascii_lower t = fingerprint_display g"
    then have "list_all (\<lambda>c. c < 128) (map ascii_lower t)"
      by (simp add: fingerprint_display_def byte_hex_ascii)
    then have t: "as_bytes t = t"
      by (intro as_bytes_ascii) (simp add: list_all_iff ascii_lower_ascii)
    have "length t = 64"
      using len[of g] a by (metis length_map)
    then have "str_len t = 64"
      using t length_as_bytes[of t] by simp
    moreover have "unat g < 256 ^ 32"
      using unat_less_2p[of g] by simp
    ultimately show "fingerprint_from_str t = Inr g"
      using decode_hex_pairs_complete[of t "fingerprint_as_bytes g" 0] a t
      by (simp add: fingerprint_from_str_def fingerprint_display_def fingerprint_as_bytes_def
          FINGERPRINT_BYTES_def be_value_be_bytes)
  qed
  have "map ascii_lower (fingerprint_display f) = fingerprint_display f"
  proof -
    have "map ascii_lower (byte_hex b) = byte_hex b" for b
      by (simp add: byte_hex_def ascii_lower_def hex_digit_def)
    then show ?thesis
      by (simp add: fingerprint_display_def map_concat comp_def)
  qed
  then show ?thesis
    using iff len by simp
qed

section \<open>Decimal codes\<close>

lemma dec_value_append: "dec_value (xs @ ys) = dec_value xs * 10 ^ length ys + dec_value ys"
proof (induction ys rule: rev_induct)
  case (snoc y ys)
  then show ?case by (simp add: dec_value_def algebra_simps)
qed (simp add: dec_value_def)

lemma dec_value_snoc: "dec_value (xs @ [d]) = 10 * dec_value xs + (d - 48)"
  by (simp add: dec_value_def)

lemma dec_value_zeros: "dec_value (replicate n 48) = 0"
  by (induction n) (simp_all add: dec_value_def)

lemma dec_digits_digits: "list_all is_ascii_digit (dec_digits n)"
proof (induction n rule: dec_digits.induct)
  case (1 n)
  have "n mod 10 < 10" by simp
  then have "is_ascii_digit (48 + n mod 10)"
    unfolding is_ascii_digit_def by linarith
  moreover have "is_ascii_digit (48 + n)" if "n < 10"
    using that by (simp add: is_ascii_digit_def)
  ultimately show ?case
    using 1 by (subst dec_digits.simps) simp
qed

lemma dec_value_digits: "dec_value (dec_digits n) = n"
proof (induction n rule: dec_digits.induct)
  case (1 n)
  then show ?case
    by (subst dec_digits.simps) (auto simp: dec_value_snoc, simp add: dec_value_def)
qed

lemma dec_digits_length: "n < 10 ^ Suc k \<Longrightarrow> length (dec_digits n) \<le> Suc k"
proof (induction k arbitrary: n)
  case 0
  then show ?case by (subst dec_digits.simps) simp
next
  case (Suc k)
  have "n div 10 < 10 ^ Suc k"
    using Suc.prems by (simp add: div_less_iff_less_mult)
  with Suc.IH show ?case
    by (subst dec_digits.simps) simp
qed

lemma dec_value_less: "list_all is_ascii_digit ds \<Longrightarrow> dec_value ds < 10 ^ length ds"
proof (induction ds rule: rev_induct)
  case (snoc d ds)
  have "d - 48 < 10"
    using snoc.prems by (auto simp: is_ascii_digit_def)
  moreover have "dec_value ds < 10 ^ length ds"
    using snoc by simp
  ultimately show ?case
    unfolding dec_value_snoc length_append_singleton power_Suc by linarith
qed (simp add: dec_value_def)

lemma dec_value_inj:
  "list_all is_ascii_digit xs \<Longrightarrow> list_all is_ascii_digit ys \<Longrightarrow> length xs = length ys \<Longrightarrow>
   dec_value xs = dec_value ys \<Longrightarrow> xs = ys"
proof (induction xs arbitrary: ys rule: rev_induct)
  case (snoc x xs)
  then obtain y ys' where ys: "ys = ys' @ [y]"
    by (metis length_0_conv append_Nil2 length_append_singleton nat.distinct(1) rev_exhaust)
  have d: "x - 48 < 10" "y - 48 < 10" "48 \<le> x" "48 \<le> y"
    using snoc.prems(1,2) ys by (auto simp: is_ascii_digit_def)
  have eq: "10 * dec_value xs + (x - 48) = 10 * dec_value ys' + (y - 48)"
    using snoc.prems(4) ys by (simp add: dec_value_snoc)
  then have "dec_value xs = dec_value ys'"
    using d(1,2) by linarith
  with eq have "dec_value xs = dec_value ys'" "x - 48 = y - 48"
    by simp_all
  then show ?case
    using snoc ys d(3,4) by auto
qed simp

text \<open>
  verification codes.  The code shown for any exporter output is below one million and is
  rendered with exactly six digits, and a text parses as a code exactly when it is the six-digit
  rendering of a code below one million, so what one user reads out the other can enter.
\<close>

theorem verification_code_text_exact:
  "(code_from_str s = Inr c \<longleftrightarrow> code_value c < 1000000 \<and> s = code_display c)
   \<and> code_value (from_exporter_output m) < 1000000 \<and> length (code_display (from_exporter_output m)) = 6"
proof -
  have disp: "list_all is_ascii_digit (code_display x)" "dec_value (code_display x) = code_value x" for x
    using dec_digits_digits[of "code_value x"]
    by (auto simp: code_display_def Let_def dec_value_append dec_value_zeros dec_value_digits
        list_all_iff is_ascii_digit_def split: if_splits)
  have len: "length (code_display x) = 6" if "code_value x < 1000000" for x
    using dec_digits_length[of "code_value x" 5] that by (simp add: code_display_def Let_def)
  have ascii: "as_bytes t = t" "str_len t = length t" if "list_all is_ascii_digit t" for t
  proof -
    show *: "as_bytes t = t"
      using that by (intro as_bytes_ascii) (auto simp: list_all_iff is_ascii_digit_def)
    show "str_len t = length t"
      using length_as_bytes[of t] * by simp
  qed
  have ascii': "as_bytes t = t" if "list_all is_ascii_digit (as_bytes t)" for t
    using that as_bytes_all_ascii[of t] by (intro as_bytes_ascii) (auto simp: list_all_iff is_ascii_digit_def)
  have "code_from_str s = Inr c \<longleftrightarrow> code_value c < 1000000 \<and> s = code_display c"
  proof
    assume a: "code_from_str s = Inr c"
    then have d: "str_len s = 6" "list_all is_ascii_digit (as_bytes s)" "c = VerificationCode (dec_value (as_bytes s))"
      by (auto simp: code_from_str_def split: if_splits)
    then have s: "list_all is_ascii_digit s" "length s = 6" "code_value c = dec_value s"
      using ascii'[of s] length_as_bytes[of s] by simp_all
    then have lt: "code_value c < 1000000"
      using dec_value_less[of s] by simp
    have "s = code_display c"
      using s disp len[OF lt] by (intro dec_value_inj) simp_all
    with lt show "code_value c < 1000000 \<and> s = code_display c" ..
  next
    assume a: "code_value c < 1000000 \<and> s = code_display c"
    have "as_bytes (code_display c) = code_display c" "str_len (code_display c) = 6"
      using ascii[OF disp(1)] len a by simp_all
    then show "code_from_str s = Inr c"
      using a by (simp add: code_from_str_def disp)
  qed
  moreover have "code_value (from_exporter_output m) < 1000000"
    by (simp add: from_exporter_output_def VERIFICATION_CODE_MODULUS_def)
  ultimately show ?thesis
    using len by blast
qed

section \<open>Pairing decisions\<close>

datatype pairing_event = LocalApproves | RemoteApproves | ReportsMismatch | Cancels

fun pairing_step :: "pairing_event \<Rightarrow> PairingSession \<Rightarrow> PairingSession" where
  "pairing_step LocalApproves s = snd (approve_local s)"
| "pairing_step RemoteApproves s = snd (approve_remote s)"
| "pairing_step ReportsMismatch s = snd (report_verification_mismatch s)"
| "pairing_step Cancels s = snd (pairing_cancel s)"

lemmas pairing_defs = approve_local_def approve_remote_def report_verification_mismatch_def
  pairing_cancel_def update_state_def

lemma pairing_step_identity [simp]:
  "ps_remote_identity (fold pairing_step evs s) = ps_remote_identity s"
proof (induction evs arbitrary: s)
  case (Cons ev evs)
  have "ps_remote_identity (pairing_step ev s) = ps_remote_identity s"
    by (cases ev) (simp_all add: pairing_defs split: sum.splits)
  with Cons show ?case by simp
qed simp

definition undisputed :: "pairing_event list \<Rightarrow> pairing_event list" where
  "undisputed evs = takeWhile (\<lambda>ev. ev \<noteq> ReportsMismatch \<and> ev \<noteq> Cancels) evs"

fun still_needed :: "PairingState \<Rightarrow> pairing_event list \<Rightarrow> bool" where
  "still_needed AwaitingBothApprovals evs \<longleftrightarrow> LocalApproves \<in> set evs \<and> RemoteApproves \<in> set evs"
| "still_needed AwaitingRemoteApproval evs \<longleftrightarrow> RemoteApproves \<in> set evs"
| "still_needed AwaitingLocalApproval evs \<longleftrightarrow> LocalApproves \<in> set evs"
| "still_needed Complete evs \<longleftrightarrow> True"
| "still_needed Cancelled evs \<longleftrightarrow> False"
| "still_needed VerificationFailed evs \<longleftrightarrow> False"

lemma pairing_complete_iff:
  "ps_state (fold pairing_step evs s) = Complete \<longleftrightarrow> still_needed (ps_state s) (undisputed evs)"
proof (induction evs arbitrary: s)
  case Nil
  then show ?case by (cases "ps_state s") (simp_all add: undisputed_def)
next
  case (Cons ev evs)
  show ?case
    using Cons.IH[of "pairing_step ev s"]
    by (cases ev; cases "ps_state s") (simp_all add: pairing_defs undisputed_def)
qed

text \<open>
  C25: pairing needs two approvals.  From a started session, whatever order the decisions arrive
  in, the peer becomes paired exactly when both the local user and the peer approved before any
  mismatch report or cancellation, and then it is the identity the session was started with; a
  completed session cannot be undone by a later report or cancellation.
\<close>

theorem paired_iff_both_approved:
  assumes "pairing_start export local remote ctx = Inr s"
  shows "pairing_finish (fold pairing_step evs s) = Inr p \<longleftrightarrow>
     LocalApproves \<in> set (undisputed evs) \<and> RemoteApproves \<in> set (undisputed evs)
     \<and> p = \<lparr>paired_identity = remote\<rparr>"
proof -
  have "ps_state s = AwaitingBothApprovals" "ps_remote_identity s = remote"
    using assms by (auto simp: pairing_start_def split: if_splits)
  then show ?thesis
    using pairing_complete_iff[of evs s] by (auto simp: pairing_finish_def)
qed

section \<open>Agreement of the displayed codes\<close>

lemma identity_context_length [simp]: "length (identity_context i) = 64"
  by (simp add: identity_context_def fingerprint_as_bytes_def FINGERPRINT_BYTES_def)

lemma identity_context_inj:
  assumes "identity_context i = identity_context j"
  shows "pi_peer_id i = pi_peer_id j \<and> pi_host_id i = pi_host_id j \<and> pi_fingerprint i = pi_fingerprint j"
proof -
  have "unat (w :: 128 word) < 256 ^ 16" "unat (v :: 256 word) < 256 ^ 32" for w v
    using unat_less_2p[of w] unat_less_2p[of v] by simp_all
  then show ?thesis
    using assms be_bytes_inj[of "unat (pi_peer_id i)" 16 "unat (pi_peer_id j)"]
      be_bytes_inj[of "unat (pi_host_id i)" 16 "unat (pi_host_id j)"]
      be_bytes_inj[of "unat (pi_fingerprint i)" 32 "unat (pi_fingerprint j)"]
    by (simp add: identity_context_def fingerprint_as_bytes_def FINGERPRINT_BYTES_def word_unat_eq_iff)
qed

lemma exporter_context_commute:
  "pi_peer_id a \<noteq> pi_peer_id b \<Longrightarrow> exporter_context a b ctx = exporter_context b a ctx"
  by (auto simp: exporter_context_def)

text \<open>
  both machines show the same code, bound to the same two identities.  For distinct peers
  over one channel, either end starts a session exactly when the other does, with the same code;
  and the exporter input determines, up to order, the two peer, host and fingerprint triples and
  the attempt context, so a code derived for other identities uses other exporter input.
\<close>

theorem pairing_code_agrees:
  assumes "pi_peer_id a \<noteq> pi_peer_id b" "pi_peer_id c \<noteq> pi_peer_id d"
  shows "map_sum id ps_verification_code (pairing_start export a b ctx)
       = map_sum id ps_verification_code (pairing_start export b a ctx)
     \<and> (exporter_context a b ctx = exporter_context c d ctx' \<longrightarrow>
         ctx = ctx' \<and> (pi_peer_id a = pi_peer_id c \<and> pi_host_id a = pi_host_id c \<and> pi_fingerprint a = pi_fingerprint c
             \<and> pi_peer_id b = pi_peer_id d \<and> pi_host_id b = pi_host_id d \<and> pi_fingerprint b = pi_fingerprint d
           \<or> pi_peer_id a = pi_peer_id d \<and> pi_host_id a = pi_host_id d \<and> pi_fingerprint a = pi_fingerprint d
             \<and> pi_peer_id b = pi_peer_id c \<and> pi_host_id b = pi_host_id c \<and> pi_fingerprint b = pi_fingerprint c))"
proof -
  have "map_sum id ps_verification_code (pairing_start export a b ctx)
       = map_sum id ps_verification_code (pairing_start export b a ctx)"
    using assms(1) exporter_context_commute[OF assms(1), of ctx]
    by (auto simp: pairing_start_def split: sum.splits)
       (cases "export PAIRING_EXPORTER_LABEL (exporter_context b a ctx)"; simp)
  moreover have "unat (v :: 256 word) < 256 ^ 32" for v
    using unat_less_2p[of v] by simp
  then have "ctx = ctx'" if "be_bytes 32 (unat ctx) = be_bytes 32 (unat ctx')"
    using be_bytes_inj[OF _ _ that] by (simp add: word_unat_eq_iff)
  ultimately show ?thesis
    using identity_context_inj[of a c] identity_context_inj[of b d] identity_context_inj[of a d]
      identity_context_inj[of b c]
    by (auto simp: exporter_context_def split: if_splits)
qed

section \<open>Concrete sessions\<close>

definition sample_identity :: "id128 \<Rightarrow> PeerIdentity" where
  "sample_identity i = \<lparr>pi_peer_id = i, pi_host_id = i + 100, pi_display_name = [65], pi_fingerprint = 7\<rparr>"

theorem paired_iff_both_approved_witness:
  "\<exists>s. pairing_start (\<lambda>l c. Inr 5) (sample_identity 1) (sample_identity 2) 9 = Inr s
     \<and> pairing_finish (fold pairing_step [RemoteApproves, LocalApproves, Cancels] s)
        = Inr \<lparr>paired_identity = sample_identity 2\<rparr>"
proof -
  obtain s where s: "pairing_start (\<lambda>l c. Inr 5) (sample_identity 1) (sample_identity 2) 9 = Inr s"
    by (simp add: pairing_start_def sample_identity_def)
  then show ?thesis
    using paired_iff_both_approved[OF s, of "[RemoteApproves, LocalApproves, Cancels]"]
    by (auto simp: undisputed_def)
qed

theorem pairing_code_agrees_witness:
  "map_sum id ps_verification_code (pairing_start (\<lambda>l c. Inr 5) (sample_identity 1) (sample_identity 2) 9)
     = map_sum id ps_verification_code (pairing_start (\<lambda>l c. Inr 5) (sample_identity 2) (sample_identity 1) 9)"
  using pairing_code_agrees[of "sample_identity 1" "sample_identity 2" "sample_identity 1" "sample_identity 2"]
  by (simp add: sample_identity_def)

end
