(* ===== verification/Trust.thy ===== *)
theory Trust
  imports Pairing WireMessages
begin

text \<open>
  Authorization of authenticated peers: the paired-peer allowlist (\<^verbatim>\<open>allowlist.rs\<close>), the resolver
  of inbound TLS client identities (\<^verbatim>\<open>client_resolver.rs\<close>) and session admission
  (\<^verbatim>\<open>admission.rs\<close>) of \<^verbatim>\<open>crates/kvm-security\<close>, with the transcript of
  \<^verbatim>\<open>crates/kvm-network/src/peer.rs\<close>.  The allowlist is generic over its store, as in the source:
  the operations of \<^verbatim>\<open>PairedPeerStore\<close> are arguments, and their laws are the locale
  \<open>peer_store\<close>, which the in-memory store interprets.
\<close>

section \<open>The paired-peer store\<close>

datatype PairedPeerStoreError = StoreUnavailable | StoreCorrupt | StoreBackend rust_string

type_synonym 's store_get = "'s \<Rightarrow> PeerId \<Rightarrow> (PairedPeerStoreError, PairedPeer option) result"

record MemoryPairedPeerStore =
  mps_peers :: "(PeerId, PairedPeer) hash_map"

definition MemoryPairedPeerStore_default :: MemoryPairedPeerStore where
  "MemoryPairedPeerStore_default = \<lparr>mps_peers = []\<rparr>"

definition memory_get :: "MemoryPairedPeerStore store_get" where
  "memory_get s peer_id = Inr (map_of (mps_peers s) peer_id)"

definition memory_upsert ::
  "PairedPeer \<Rightarrow> MemoryPairedPeerStore \<Rightarrow> (PairedPeerStoreError, unit) result \<times> MemoryPairedPeerStore" where
  "memory_upsert peer s =
     (Inr (), s\<lparr>mps_peers := AList.update (pi_peer_id (paired_identity peer)) peer (mps_peers s)\<rparr>)"

definition memory_remove ::
  "PeerId \<Rightarrow> MemoryPairedPeerStore \<Rightarrow> (PairedPeerStoreError, unit) result \<times> MemoryPairedPeerStore" where
  "memory_remove peer_id s = (Inr (), s\<lparr>mps_peers := AList.delete peer_id (mps_peers s)\<rparr>)"

section \<open>The allowlist\<close>

datatype TransportAuthenticationError =
  Unencrypted | Unauthenticated | InvalidCredential | TransportBackend rust_string

record InputAuthorization =
  ia_peer_id :: PeerId
  ia_host_id :: HostId

datatype AuthorizationError =
    AuthTransport TransportAuthenticationError | AuthStore PairedPeerStoreError | PeerNotPaired PeerId
  | IdentityMismatch PeerId IdentityFingerprint IdentityFingerprint

definition pair ::
  "(PairedPeer \<Rightarrow> 's \<Rightarrow> (PairedPeerStoreError, unit) result \<times> 's) \<Rightarrow> PairedPeer \<Rightarrow> 's \<Rightarrow>
   (PairedPeerStoreError, unit) result \<times> 's" where
  "pair upsert peer store = upsert peer store"

definition revoke ::
  "(PeerId \<Rightarrow> 's \<Rightarrow> (PairedPeerStoreError, unit) result \<times> 's) \<Rightarrow> PeerId \<Rightarrow> 's \<Rightarrow>
   (PairedPeerStoreError, unit) result \<times> 's" where
  "revoke remove peer_id store = remove peer_id store"

definition authorize_identity ::
  "'s store_get \<Rightarrow> 's \<Rightarrow> PeerIdentity \<Rightarrow> (AuthorizationError, InputAuthorization) result" where
  "authorize_identity get store presented =
     and_then (map_err AuthStore (get store (pi_peer_id presented))) (\<lambda>found.
       case found of
         None \<Rightarrow> Inl (PeerNotPaired (pi_peer_id presented))
       | Some paired \<Rightarrow>
         (let expected = paired_identity paired in
          if pi_host_id expected \<noteq> pi_host_id presented \<or> pi_fingerprint expected \<noteq> pi_fingerprint presented
          then Inl (IdentityMismatch (pi_peer_id presented) (pi_fingerprint expected) (pi_fingerprint presented))
          else Inr \<lparr>ia_peer_id = pi_peer_id presented, ia_host_id = pi_host_id presented\<rparr>))"

text \<open>The argument \<open>transport\<close> is what \<^verbatim>\<open>authenticated_peer_identity\<close> of the connection returns.\<close>

definition authorize_input ::
  "'s store_get \<Rightarrow> 's \<Rightarrow> (TransportAuthenticationError, PeerIdentity) result \<Rightarrow>
   (AuthorizationError, InputAuthorization) result" where
  "authorize_input get store transport =
     and_then (map_err AuthTransport transport) (authorize_identity get store)"

section \<open>Resolution of TLS client identities\<close>

record TransportPeerIdentity =
  tpi_host_id :: WireHostId
  tpi_peer_id :: WirePeerId
  tpi_credential_fingerprint :: bytes32

definition MAX_PAIRED_CLIENT_RESOLVER_ENTRIES :: nat where
  "MAX_PAIRED_CLIENT_RESOLVER_ENTRIES = 256"

record StableIdentity =
  si_peer_id :: PeerId
  si_host_id :: HostId
  si_fingerprint :: bytes32

definition from_paired :: "PairedPeer \<Rightarrow> StableIdentity" where
  "from_paired peer = (let i = paired_identity peer in
     \<lparr>si_peer_id = pi_peer_id i, si_host_id = pi_host_id i, si_fingerprint = pi_fingerprint i\<rparr>)"

definition into_transport :: "StableIdentity \<Rightarrow> TransportPeerIdentity" where
  "into_transport s = \<lparr>tpi_host_id = si_host_id s, tpi_peer_id = si_peer_id s,
     tpi_credential_fingerprint = si_fingerprint s\<rparr>"

datatype PairedClientResolverSnapshotError =
  TooManyEntries | AmbiguousFingerprint | SnapshotIdentityMismatch | InvalidIdentity

record PairedClientResolverSnapshot =
  by_fingerprint :: "(bytes32, StableIdentity) hash_map"

definition conflicts :: "('k, StableIdentity) hash_map \<Rightarrow> 'k \<Rightarrow> StableIdentity \<Rightarrow> bool" where
  "conflicts m k candidate =
     (case map_of m k of None \<Rightarrow> False | Some existing \<Rightarrow> existing \<noteq> candidate)"

fun from_paired_peers_loop ::
  "PairedPeer list \<Rightarrow> nat \<Rightarrow> (bytes32, StableIdentity) hash_map \<Rightarrow> (PeerId, StableIdentity) hash_map \<Rightarrow>
   (HostId, StableIdentity) hash_map \<Rightarrow> (PairedClientResolverSnapshotError, PairedClientResolverSnapshot) result" where
  "from_paired_peers_loop [] index by_fp by_peer by_host = Inr \<lparr>by_fingerprint = by_fp\<rparr>"
| "from_paired_peers_loop (peer # rest) index by_fp by_peer by_host =
     (if MAX_PAIRED_CLIENT_RESOLVER_ENTRIES \<le> index then Inl TooManyEntries
      else let stable = from_paired peer in
        if si_peer_id stable = nil_id \<or> si_host_id stable = nil_id then Inl InvalidIdentity
        else if conflicts by_peer (si_peer_id stable) stable \<or> conflicts by_host (si_host_id stable) stable
        then Inl SnapshotIdentityMismatch
        else if conflicts by_fp (si_fingerprint stable) stable then Inl AmbiguousFingerprint
        else from_paired_peers_loop rest (Suc index)
               (AList.update (si_fingerprint stable) stable by_fp)
               (AList.update (si_peer_id stable) stable by_peer)
               (AList.update (si_host_id stable) stable by_host))"

definition from_paired_peers ::
  "PairedPeer list \<Rightarrow> (PairedClientResolverSnapshotError, PairedClientResolverSnapshot) result" where
  "from_paired_peers peers = from_paired_peers_loop peers 0 [] [] []"

datatype ClientIdentityResolutionError = ClientUnknown | ClientInvalidIdentity

definition resolve_client ::
  "PairedClientResolverSnapshot \<Rightarrow> bytes32 \<Rightarrow> (ClientIdentityResolutionError, TransportPeerIdentity) result" where
  "resolve_client snap fp =
     (case map_of (by_fingerprint snap) fp of
        None \<Rightarrow> Inl ClientUnknown
      | Some identity \<Rightarrow> (if si_fingerprint identity \<noteq> fp then Inl ClientInvalidIdentity
                          else Inr (into_transport identity)))"

section \<open>Session admission\<close>

datatype AdmissionError = Rejected | Unavailable

record HandshakeTranscript =
  tr_local_hello :: HelloV1
  tr_remote_hello :: HelloV1
  tr_transport_identity :: TransportPeerIdentity
  tr_local_exporter_proof :: bytes32
  tr_remote_exporter_proof :: bytes32
  tr_selected_protocol_version :: u16
  tr_session_id :: bytes32

definition verify_remote_exporter_proof :: "HandshakeTranscript \<Rightarrow> u8 list \<Rightarrow> bool" where
  "verify_remote_exporter_proof t proof' \<longleftrightarrow>
     length proof' = 32 \<and> proof' = be_bytes 32 (unat (tr_remote_exporter_proof t))"

definition TLS_EXPORTER_SCHEME :: rust_string where
  "TLS_EXPORTER_SCHEME = map of_char ''tls-exporter-v1''"

record 's PairedSessionAdmission =
  psa_local_identity :: PeerIdentity
  psa_hello_template :: HelloV1
  psa_allowlist :: 's

datatype PairedSessionAdmissionError = InvalidHelloTemplate | LocalIdentityMismatch

definition PairedSessionAdmission_new ::
  "PeerIdentity \<Rightarrow> HelloV1 \<Rightarrow> 's \<Rightarrow> (PairedSessionAdmissionError, 's PairedSessionAdmission) result" where
  "PairedSessionAdmission_new local_identity hello_template allowlist =
     and_then (map_err (\<lambda>_. InvalidHelloTemplate) (validate (Hello hello_template))) (\<lambda>_.
       if hello_host_id hello_template \<noteq> pi_host_id local_identity
          \<or> hello_peer_id hello_template \<noteq> pi_peer_id local_identity
          \<or> hello_host_name hello_template \<noteq> pi_display_name local_identity
       then Inl LocalIdentityMismatch
       else Inr \<lparr>psa_local_identity = local_identity, psa_hello_template = hello_template,
                 psa_allowlist = allowlist\<rparr>)"

definition hello_matches_template :: "HelloV1 \<Rightarrow> HelloV1 \<Rightarrow> bool" where
  "hello_matches_template actual template \<longleftrightarrow>
     hello_host_id actual = hello_host_id template \<and> hello_peer_id actual = hello_peer_id template
     \<and> hello_host_name actual = hello_host_name template \<and> hello_platform actual = hello_platform template
     \<and> hello_minimum_protocol_version actual = hello_minimum_protocol_version template
     \<and> hello_maximum_protocol_version actual = hello_maximum_protocol_version template
     \<and> hello_daemon_version actual = hello_daemon_version template"

definition authentication_from_parts ::
  "'s PairedSessionAdmission \<Rightarrow> HelloV1 \<Rightarrow> bytes32 \<Rightarrow> (AdmissionError, AuthenticateV1) result" where
  "authentication_from_parts a local_hello proof' =
     (if \<not> hello_matches_template local_hello (psa_hello_template a)
         \<or> hello_host_id local_hello \<noteq> pi_host_id (psa_local_identity a)
         \<or> hello_peer_id local_hello \<noteq> pi_peer_id (psa_local_identity a)
      then Inl Rejected
      else Inr \<lparr>auth_peer_id = hello_peer_id local_hello, auth_scheme = TLS_EXPORTER_SCHEME,
                auth_proof = be_bytes 32 (unat proof')\<rparr>)"

fun map_authorization_error :: "AuthorizationError \<Rightarrow> AdmissionError" where
  "map_authorization_error (AuthStore _) = Unavailable"
| "map_authorization_error (AuthTransport _) = Rejected"
| "map_authorization_error (PeerNotPaired _) = Rejected"
| "map_authorization_error (IdentityMismatch _ _ _) = Rejected"

definition admit_with_verifier ::
  "'s store_get \<Rightarrow> 's PairedSessionAdmission \<Rightarrow> HelloV1 \<Rightarrow> TransportPeerIdentity \<Rightarrow> AuthenticateV1 \<Rightarrow>
   (u8 list \<Rightarrow> bool) \<Rightarrow> (AdmissionError, unit) result" where
  "admit_with_verifier get a remote_hello transport authentication verify_proof =
     (if auth_peer_id authentication \<noteq> hello_peer_id remote_hello
         \<or> auth_peer_id authentication \<noteq> tpi_peer_id transport
         \<or> hello_host_id remote_hello \<noteq> tpi_host_id transport
         \<or> hello_peer_id remote_hello \<noteq> tpi_peer_id transport
         \<or> auth_scheme authentication \<noteq> TLS_EXPORTER_SCHEME
         \<or> length (auth_proof authentication) \<noteq> 32
         \<or> \<not> verify_proof (auth_proof authentication)
      then Inl Rejected
      else and_then (map_err (\<lambda>_. Rejected)
             (PeerIdentity_new (tpi_peer_id transport) (tpi_host_id transport) (hello_host_name remote_hello)
                (tpi_credential_fingerprint transport))) (\<lambda>identity.
           and_then (map_err map_authorization_error
             (authorize_identity get (psa_allowlist a) identity)) (\<lambda>_. Inr ())))"

text \<open>\<open>random\<close> is what \<^verbatim>\<open>getrandom::fill\<close> produced, if anything.\<close>

definition local_hello :: "bytes32 option \<Rightarrow> 's PairedSessionAdmission \<Rightarrow> (AdmissionError, HelloV1) result" where
  "local_hello random a =
     (case random of None \<Rightarrow> Inl Unavailable
      | Some nonce \<Rightarrow> Inr ((psa_hello_template a)\<lparr>hello_nonce := nonce\<rparr>))"

definition authentication_message ::
  "'s PairedSessionAdmission \<Rightarrow> HandshakeTranscript \<Rightarrow> (AdmissionError, AuthenticateV1) result" where
  "authentication_message a t = authentication_from_parts a (tr_local_hello t) (tr_local_exporter_proof t)"

definition admit ::
  "'s store_get \<Rightarrow> 's PairedSessionAdmission \<Rightarrow> HandshakeTranscript \<Rightarrow> AuthenticateV1 \<Rightarrow>
   (AdmissionError, unit) result" where
  "admit get a t authentication =
     admit_with_verifier get a (tr_remote_hello t) (tr_transport_identity t) authentication
       (verify_remote_exporter_proof t)"

section \<open>What a store promises\<close>

datatype trust_op = OpPair PairedPeer | OpRevoke PeerId

fun trust_run ::
  "(PairedPeer \<Rightarrow> 's \<Rightarrow> (PairedPeerStoreError, unit) result \<times> 's) \<Rightarrow>
   (PeerId \<Rightarrow> 's \<Rightarrow> (PairedPeerStoreError, unit) result \<times> 's) \<Rightarrow>
   trust_op list \<Rightarrow> 's \<Rightarrow> (PairedPeerStoreError, 's) result" where
  "trust_run upsert remove [] s = Inr s"
| "trust_run upsert remove (OpPair p # ops) s =
     (case pair upsert p s of (Inl e, _) \<Rightarrow> Inl e | (Inr _, s') \<Rightarrow> trust_run upsert remove ops s')"
| "trust_run upsert remove (OpRevoke k # ops) s =
     (case revoke remove k s of (Inl e, _) \<Rightarrow> Inl e | (Inr _, s') \<Rightarrow> trust_run upsert remove ops s')"

text \<open>The abstract allowlist: a finite map from peers to the identity last approved.\<close>

fun trusted_step :: "trust_op \<Rightarrow> (PeerId \<rightharpoonup> PairedPeer) \<Rightarrow> (PeerId \<rightharpoonup> PairedPeer)" where
  "trusted_step (OpPair p) m = m(pi_peer_id (paired_identity p) \<mapsto> p)"
| "trusted_step (OpRevoke k) m = m(k := None)"

definition trusted_after :: "trust_op list \<Rightarrow> (PeerId \<rightharpoonup> PairedPeer)" where
  "trusted_after ops = fold trusted_step ops Map.empty"

definition same_credentials :: "PeerIdentity \<Rightarrow> PeerIdentity \<Rightarrow> bool" where
  "same_credentials expected presented \<longleftrightarrow> pi_host_id expected = pi_host_id presented
     \<and> pi_fingerprint expected = pi_fingerprint presented"

locale peer_store =
  fixes get :: "'s store_get"
    and upsert :: "PairedPeer \<Rightarrow> 's \<Rightarrow> (PairedPeerStoreError, unit) result \<times> 's"
    and remove :: "PeerId \<Rightarrow> 's \<Rightarrow> (PairedPeerStoreError, unit) result \<times> 's"
    and fresh :: 's
  assumes get_fresh: "get fresh k = Inr None"
    and get_upsert: "upsert p s = (Inr (), s') \<Longrightarrow>
      get s' k = (if k = pi_peer_id (paired_identity p) then Inr (Some p) else get s k)"
    and get_remove: "remove j s = (Inr (), s') \<Longrightarrow> get s' k = (if k = j then Inr None else get s k)"
begin

lemma get_run:
  "trust_run upsert remove ops s = Inr s' \<Longrightarrow> (\<And>k. get s k = Inr (m k)) \<Longrightarrow>
   get s' k = Inr (fold trusted_step ops m k)"
proof (induction ops arbitrary: s m)
  case (Cons op ops)
  show ?case
  proof (cases op)
    case (OpPair p)
    then obtain t where t: "upsert p s = (Inr (), t)" "trust_run upsert remove ops t = Inr s'"
      using Cons.prems(1) by (auto simp: pair_def split: prod.splits sum.splits)
    have "get t k = Inr (trusted_step op m k)" for k
      using get_upsert[OF t(1)] Cons.prems(2) OpPair by simp
    from Cons.IH[OF t(2) this] show ?thesis
      by simp
  next
    case (OpRevoke j)
    then obtain t where t: "remove j s = (Inr (), t)" "trust_run upsert remove ops t = Inr s'"
      using Cons.prems(1) by (auto simp: revoke_def split: prod.splits sum.splits)
    have "get t k = Inr (trusted_step op m k)" for k
      using get_remove[OF t(1)] Cons.prems(2) OpRevoke by simp
    from Cons.IH[OF t(2) this] show ?thesis
      by simp
  qed
qed simp

lemma get_after:
  assumes "trust_run upsert remove ops fresh = Inr s"
  shows "get s k = Inr (trusted_after ops k)"
  unfolding trusted_after_def using assms get_fresh by (rule get_run)

lemma authorized_iff:
  assumes "trust_run upsert remove ops fresh = Inr s"
  shows "authorize_identity get s presented = Inr auth \<longleftrightarrow>
     (\<exists>p. trusted_after ops (pi_peer_id presented) = Some p \<and> same_credentials (paired_identity p) presented)
     \<and> auth = \<lparr>ia_peer_id = pi_peer_id presented, ia_host_id = pi_host_id presented\<rparr>"
  using get_after[OF assms, of "pi_peer_id presented"]
  by (auto simp: authorize_identity_def same_credentials_def Let_def split: option.splits)

end

interpretation memory_store: peer_store memory_get memory_upsert memory_remove MemoryPairedPeerStore_default
  by unfold_locales
    (auto simp: memory_get_def memory_upsert_def memory_remove_def MemoryPairedPeerStore_default_def hmap)

lemma memory_run_total: "\<exists>s'. trust_run memory_upsert memory_remove ops s = Inr s'"
proof (induction ops arbitrary: s)
  case (Cons op ops)
  then show ?case
    by (cases op) (simp_all add: pair_def revoke_def memory_upsert_def memory_remove_def)
qed simp

section \<open>Properties\<close>

text \<open>
  C27: input authority follows the pairing history.  After any sequence of pairings and
  revocations, a connection is authorized exactly when its transport authenticated an identity
  whose peer is currently paired with the same host and fingerprint, whatever its display name;
  in particular a revoked peer, a changed key and an unauthenticated transport are refused.
\<close>

theorem authorized_iff_currently_paired:
  "\<exists>s. trust_run memory_upsert memory_remove ops MemoryPairedPeerStore_default = Inr s
     \<and> (\<forall>transport auth. authorize_input memory_get s transport = Inr auth \<longleftrightarrow>
          (\<exists>presented p. transport = Inr presented
             \<and> trusted_after ops (pi_peer_id presented) = Some p
             \<and> same_credentials (paired_identity p) presented
             \<and> auth = \<lparr>ia_peer_id = pi_peer_id presented, ia_host_id = pi_host_id presented\<rparr>))"
proof -
  obtain s where "trust_run memory_upsert memory_remove ops MemoryPairedPeerStore_default = Inr s"
    using memory_run_total by blast
  then show ?thesis
    using memory_store.authorized_iff by (intro exI[of _ s]) (auto simp: authorize_input_def)
qed

lemma authorize_identity_ok:
  "is_ok (authorize_identity get store presented) \<longleftrightarrow>
     (\<exists>p. get store (pi_peer_id presented) = Inr (Some p) \<and> same_credentials (paired_identity p) presented)"
  by (cases "get store (pi_peer_id presented)")
    (auto simp: authorize_identity_def same_credentials_def Let_def split: option.splits)

definition valid_identity_name :: "rust_string \<Rightarrow> bool" where
  "valid_identity_name n \<longleftrightarrow> str_trim n \<noteq> [] \<and> str_len n \<le> MAX_IDENTITY_NAME_BYTES \<and> \<not> list_ex is_control n"

lemma PeerIdentity_new_ok:
  "PeerIdentity_new peer host name fp = Inr i \<longleftrightarrow> valid_identity_name name
     \<and> i = \<lparr>pi_peer_id = peer, pi_host_id = host, pi_display_name = name, pi_fingerprint = fp\<rparr>"
  by (auto simp: PeerIdentity_new_def valid_identity_name_def)

text \<open>
  C2: admission needs identity, proof and pairing together.  A session is admitted exactly when
  the authentication message, the remote hello and the transport agree on the peer and host, the
  message carries the exporter scheme and the exact 32 bytes of the remote exporter proof of
  this transcript, the announced name is acceptable, and the store returns a paired identity with the
  host and fingerprint that the transport proved.
\<close>

theorem admitted_iff_proved_and_paired:
  "admit get a t auth = Inr () \<longleftrightarrow>
     auth_peer_id auth = tpi_peer_id (tr_transport_identity t)
     \<and> hello_peer_id (tr_remote_hello t) = tpi_peer_id (tr_transport_identity t)
     \<and> hello_host_id (tr_remote_hello t) = tpi_host_id (tr_transport_identity t)
     \<and> auth_scheme auth = TLS_EXPORTER_SCHEME
     \<and> auth_proof auth = be_bytes 32 (unat (tr_remote_exporter_proof t))
     \<and> valid_identity_name (hello_host_name (tr_remote_hello t))
     \<and> (\<exists>p. get (psa_allowlist a) (tpi_peer_id (tr_transport_identity t)) = Inr (Some p)
          \<and> pi_host_id (paired_identity p) = tpi_host_id (tr_transport_identity t)
          \<and> pi_fingerprint (paired_identity p) = tpi_credential_fingerprint (tr_transport_identity t))"
proof -
  define i where "i = \<lparr>pi_peer_id = tpi_peer_id (tr_transport_identity t),
     pi_host_id = tpi_host_id (tr_transport_identity t), pi_display_name = hello_host_name (tr_remote_hello t),
     pi_fingerprint = tpi_credential_fingerprint (tr_transport_identity t)\<rparr>"
  have "(\<exists>x. authorize_identity get (psa_allowlist a) i = Inr x) \<longleftrightarrow>
     (\<exists>p. get (psa_allowlist a) (tpi_peer_id (tr_transport_identity t)) = Inr (Some p)
          \<and> pi_host_id (paired_identity p) = tpi_host_id (tr_transport_identity t)
          \<and> pi_fingerprint (paired_identity p) = tpi_credential_fingerprint (tr_transport_identity t))"
    using authorize_identity_ok[of get "psa_allowlist a" i] by (simp add: is_ok_iff same_credentials_def i_def)
  then show ?thesis
    by (auto simp: admit_def admit_with_verifier_def verify_remote_exporter_proof_def PeerIdentity_new_ok
        i_def[symmetric])
qed

section \<open>The resolver snapshot\<close>

definition shares_key :: "StableIdentity \<Rightarrow> StableIdentity \<Rightarrow> bool" where
  "shares_key x y \<longleftrightarrow> si_peer_id x = si_peer_id y \<or> si_host_id x = si_host_id y \<or> si_fingerprint x = si_fingerprint y"

definition unambiguous :: "StableIdentity set \<Rightarrow> bool" where
  "unambiguous S \<longleftrightarrow> (\<forall>x\<in>S. \<forall>y\<in>S. shares_key x y \<longrightarrow> x = y)"

definition indexes :: "StableIdentity set \<Rightarrow> (StableIdentity \<Rightarrow> 'k) \<Rightarrow> ('k, StableIdentity) hash_map \<Rightarrow> bool" where
  "indexes S key m \<longleftrightarrow> (\<forall>k x. map_of m k = Some x \<longleftrightarrow> x \<in> S \<and> key x = k)"

lemma indexes_empty: "indexes {} key []"
  by (simp add: indexes_def)

lemma indexes_Some: "indexes S key m \<Longrightarrow> map_of m k = Some x \<longleftrightarrow> x \<in> S \<and> key x = k"
  by (simp add: indexes_def)

lemma indexes_None: "indexes S key m \<Longrightarrow> map_of m k = None \<longleftrightarrow> (\<forall>x\<in>S. key x \<noteq> k)"
  using indexes_Some[of S key m k] by (metis not_None_eq)

lemma indexes_conflicts: "indexes S key m \<Longrightarrow> conflicts m (key x) x \<longleftrightarrow> (\<exists>y\<in>S. key y = key x \<and> y \<noteq> x)"
proof (cases "map_of m (key x)")
  case None
  assume "indexes S key m"
  with None show ?thesis
    using indexes_None[of S key m "key x"] by (auto simp: conflicts_def)
next
  case (Some a)
  assume i: "indexes S key m"
  have "y = a" if "y \<in> S" "key y = key x" for y
    using indexes_Some[OF i, of "key x" y] that Some by simp
  moreover have "a \<in> S" "key a = key x"
    using indexes_Some[OF i, of "key x" a] Some by simp_all
  moreover have "conflicts m (key x) x \<longleftrightarrow> a \<noteq> x"
    using Some by (simp add: conflicts_def)
  ultimately show ?thesis
    by blast
qed

lemma indexes_insert:
  assumes i: "indexes S key m" and c: "\<not> conflicts m (key x) x"
  shows "indexes (insert x S) key (AList.update (key x) x m)"
proof -
  have only: "y = x" if "y \<in> S" "key y = key x" for y
    using indexes_conflicts[OF i, of x] c that by blast
  have "map_of (AList.update (key x) x m) k = Some y \<longleftrightarrow> y \<in> insert x S \<and> key y = k" for k y
    using indexes_Some[OF i, of k y] only by (cases "k = key x") (auto simp: map_of_update)
  then show ?thesis
    by (simp add: indexes_def)
qed

lemma unambiguous_insert:
  "unambiguous (insert x S) \<longleftrightarrow> unambiguous S \<and> (\<forall>y\<in>S. shares_key y x \<longrightarrow> y = x)"
  by (auto simp: unambiguous_def shares_key_def)

lemma clash_free_unambiguous:
  assumes "indexes S si_fingerprint f" "indexes S si_peer_id p" "indexes S si_host_id h" "unambiguous S"
    "\<not> conflicts f (si_fingerprint x) x" "\<not> conflicts p (si_peer_id x) x" "\<not> conflicts h (si_host_id x) x"
  shows "unambiguous (insert x S)"
  using assms(4-) indexes_conflicts[OF assms(1), of x] indexes_conflicts[OF assms(2), of x]
    indexes_conflicts[OF assms(3), of x]
  unfolding unambiguous_insert shares_key_def by blast

lemma unambiguous_subset: "unambiguous T \<Longrightarrow> S \<subseteq> T \<Longrightarrow> unambiguous S"
  by (auto simp: unambiguous_def)

definition real_identity :: "StableIdentity \<Rightarrow> bool" where
  "real_identity x \<longleftrightarrow> si_peer_id x \<noteq> nil_id \<and> si_host_id x \<noteq> nil_id"

lemma from_paired_peers_loop_sound:
  assumes "indexes S si_fingerprint f" "indexes S si_peer_id p" "indexes S si_host_id h" "unambiguous S"
    and "from_paired_peers_loop peers index f p h = Inr snap"
  shows "(peers = [] \<or> index + length peers \<le> MAX_PAIRED_CLIENT_RESOLVER_ENTRIES)
     \<and> list_all (real_identity \<circ> from_paired) peers \<and> unambiguous (S \<union> set (map from_paired peers))
     \<and> indexes (S \<union> set (map from_paired peers)) si_fingerprint (by_fingerprint snap)"
  using assms
proof (induction peers arbitrary: S index f p h)
  case Nil
  then show ?case by auto
next
  case (Cons peer peers)
  let ?x = "from_paired peer"
  have c: "index < MAX_PAIRED_CLIENT_RESOLVER_ENTRIES" "real_identity ?x"
    "\<not> conflicts f (si_fingerprint ?x) ?x" "\<not> conflicts p (si_peer_id ?x) ?x" "\<not> conflicts h (si_host_id ?x) ?x"
    and l: "from_paired_peers_loop peers (Suc index) (AList.update (si_fingerprint ?x) ?x f)
       (AList.update (si_peer_id ?x) ?x p) (AList.update (si_host_id ?x) ?x h) = Inr snap"
    using Cons.prems(5) by (simp_all add: Let_def real_identity_def split: if_splits)
  have e: "insert ?x S \<union> set (map from_paired peers) = S \<union> set (map from_paired (peer # peers))"
    by auto
  from Cons.IH[OF indexes_insert[OF Cons.prems(1) c(3)] indexes_insert[OF Cons.prems(2) c(4)]
      indexes_insert[OF Cons.prems(3) c(5)] clash_free_unambiguous[OF Cons.prems(1-4) c(3-5)] l]
  show ?case
    using c(1,2) unfolding e by auto
qed

lemma from_paired_peers_loop_complete:
  assumes "indexes S si_fingerprint f" "indexes S si_peer_id p" "indexes S si_host_id h"
    and "index + length peers \<le> MAX_PAIRED_CLIENT_RESOLVER_ENTRIES"
    and "list_all (real_identity \<circ> from_paired) peers" "unambiguous (S \<union> set (map from_paired peers))"
  shows "is_ok (from_paired_peers_loop peers index f p h)"
  using assms
proof (induction peers arbitrary: S index f p h)
  case Nil
  then show ?case by simp
next
  case (Cons peer peers)
  let ?x = "from_paired peer"
  have e: "insert ?x S \<union> set (map from_paired peers) = S \<union> set (map from_paired (peer # peers))"
    by auto
  have "unambiguous (insert ?x S)"
    using Cons.prems(6) by (rule unambiguous_subset) auto
  then have n: "y = ?x" if "y \<in> S" "shares_key y ?x" for y
    using that unfolding unambiguous_insert by blast
  have c: "\<not> conflicts f (si_fingerprint ?x) ?x" "\<not> conflicts p (si_peer_id ?x) ?x" "\<not> conflicts h (si_host_id ?x) ?x"
    using indexes_conflicts[OF Cons.prems(1), of ?x] indexes_conflicts[OF Cons.prems(2), of ?x]
      indexes_conflicts[OF Cons.prems(3), of ?x] n unfolding shares_key_def by blast+
  have "is_ok (from_paired_peers_loop peers (Suc index) (AList.update (si_fingerprint ?x) ?x f)
       (AList.update (si_peer_id ?x) ?x p) (AList.update (si_host_id ?x) ?x h))"
    using Cons.prems(4-) unfolding e[symmetric]
    by (intro Cons.IH[OF indexes_insert[OF Cons.prems(1) c(1)] indexes_insert[OF Cons.prems(2) c(2)]
        indexes_insert[OF Cons.prems(3) c(3)]]) simp_all
  then show ?case
    using Cons.prems(4,5) c by (simp add: Let_def real_identity_def)
qed

text \<open>
  the resolver is fail-closed and exact.  A snapshot is built exactly from at most 256 records
  without nil identifiers in which records that share a peer, a host or a fingerprint are the same
  identity; it then resolves a fingerprint exactly to the paired identity that carries it, and no
  other fingerprint.
\<close>

theorem resolver_snapshot_exact:
  "case from_paired_peers peers of
     Inl _ \<Rightarrow> \<not> (length peers \<le> MAX_PAIRED_CLIENT_RESOLVER_ENTRIES
         \<and> list_all (real_identity \<circ> from_paired) peers \<and> unambiguous (set (map from_paired peers)))
   | Inr snap \<Rightarrow> length peers \<le> MAX_PAIRED_CLIENT_RESOLVER_ENTRIES
         \<and> list_all (real_identity \<circ> from_paired) peers \<and> unambiguous (set (map from_paired peers))
         \<and> (\<forall>fp t. resolve_client snap fp = Inr t \<longleftrightarrow>
              (\<exists>x\<in>set (map from_paired peers). si_fingerprint x = fp \<and> t = into_transport x))"
proof -
  have un: "unambiguous {}" by (simp add: unambiguous_def)
  note empty = indexes_empty[of si_fingerprint] indexes_empty[of si_peer_id] indexes_empty[of si_host_id]
  show ?thesis
  proof (cases "from_paired_peers peers")
    case (Inl e)
    then show ?thesis
      using from_paired_peers_loop_complete[OF empty, of 0 peers] by (auto simp: from_paired_peers_def)
  next
    case (Inr snap)
    then have f: "peers = [] \<or> length peers \<le> MAX_PAIRED_CLIENT_RESOLVER_ENTRIES"
      "list_all (real_identity \<circ> from_paired) peers" "unambiguous (set (map from_paired peers))"
      and ix: "indexes (set (map from_paired peers)) si_fingerprint (by_fingerprint snap)"
      using from_paired_peers_loop_sound[OF empty un, of peers 0 snap] by (simp_all add: from_paired_peers_def)
    have "resolve_client snap fp = Inr t \<longleftrightarrow>
        (\<exists>x\<in>set (map from_paired peers). si_fingerprint x = fp \<and> t = into_transport x)" for fp t
    proof (cases "map_of (by_fingerprint snap) fp")
      case None
      then show ?thesis
        using indexes_None[OF ix, of fp] by (auto simp: resolve_client_def)
    next
      case (Some y)
      have "x = y" if "x \<in> set (map from_paired peers)" "si_fingerprint x = fp" for x
        using indexes_Some[OF ix, of fp x] that Some by simp
      moreover have y: "y \<in> set (map from_paired peers)" "si_fingerprint y = fp"
        using indexes_Some[OF ix, of fp y] Some by simp_all
      moreover from y(2) have "resolve_client snap fp = Inr (into_transport y)"
        using Some by (simp add: resolve_client_def)
      ultimately show ?thesis
        by (metis sum.inject(2))
    qed
    with f Inr show ?thesis
      by (auto simp: MAX_PAIRED_CLIENT_RESOLVER_ENTRIES_def)
  qed
qed

text \<open>
  C33: honest paired peers are admitted.  If \<open>b\<close> is a correctly configured endpoint whose identity
  has a valid name, \<open>a\<close> has paired that identity, and both ends hold mirrored transcripts of one
  TLS session (the remote hello and expected proof of \<open>a\<close> are the local hello and proof of \<open>b\<close>, and
  the transport proved the identity of \<open>b\<close>), then \<open>b\<close> can build its authentication message from a
  fresh hello, and \<open>a\<close> admits it.
\<close>

theorem honest_paired_peer_admitted:
  assumes "PairedSessionAdmission_new identity_b template store_b = Inr b"
    and "local_hello (Some nonce) b = Inr hello" "tr_local_hello tb = hello"
    and "valid_identity_name (pi_display_name identity_b)"
    and "tr_remote_hello ta = tr_local_hello tb" "tr_remote_exporter_proof ta = tr_local_exporter_proof tb"
    and "tr_transport_identity ta = \<lparr>tpi_host_id = pi_host_id identity_b, tpi_peer_id = pi_peer_id identity_b,
          tpi_credential_fingerprint = pi_fingerprint identity_b\<rparr>"
    and "get (psa_allowlist a) (pi_peer_id identity_b) = Inr (Some \<lparr>paired_identity = identity_b\<rparr>)"
  shows "\<exists>auth. authentication_message b tb = Inr auth \<and> admit get a ta auth = Inr ()"
proof -
  have b: "b = \<lparr>psa_local_identity = identity_b, psa_hello_template = template, psa_allowlist = store_b\<rparr>"
    "hello_host_id template = pi_host_id identity_b" "hello_peer_id template = pi_peer_id identity_b"
    "hello_host_name template = pi_display_name identity_b"
    using assms(1) by (auto simp: PairedSessionAdmission_new_def split: if_splits)
  have h: "hello = template\<lparr>hello_nonce := nonce\<rparr>"
    using assms(2) by (simp add: local_hello_def b(1))
  have "authentication_message b tb = Inr \<lparr>auth_peer_id = pi_peer_id identity_b,
      auth_scheme = TLS_EXPORTER_SCHEME, auth_proof = be_bytes 32 (unat (tr_local_exporter_proof tb))\<rparr>"
    by (simp add: authentication_message_def authentication_from_parts_def assms(3) h b
        hello_matches_template_def)
  moreover have "admit get a ta \<lparr>auth_peer_id = pi_peer_id identity_b, auth_scheme = TLS_EXPORTER_SCHEME,
      auth_proof = be_bytes 32 (unat (tr_local_exporter_proof tb))\<rparr> = Inr ()"
    using assms(3-) by (simp add: admit_def admit_with_verifier_def verify_remote_exporter_proof_def
        PeerIdentity_new_ok h b authorize_identity_def valid_identity_name_def PeerIdentity_new_def)
  ultimately show ?thesis by blast
qed

definition sample_hello :: HelloV1 where
  "sample_hello = \<lparr>hello_host_id = 102, hello_peer_id = 2, hello_host_name = [65],
     hello_platform = WireWindows, hello_minimum_protocol_version = 1, hello_maximum_protocol_version = 3,
     hello_daemon_version = [49], hello_nonce = 0\<rparr>"

definition sample_transcript :: HandshakeTranscript where
  "sample_transcript = \<lparr>tr_local_hello = sample_hello\<lparr>hello_nonce := 8\<rparr>,
     tr_remote_hello = sample_hello\<lparr>hello_nonce := 8\<rparr>,
     tr_transport_identity = \<lparr>tpi_host_id = 102, tpi_peer_id = 2, tpi_credential_fingerprint = 7\<rparr>,
     tr_local_exporter_proof = 11, tr_remote_exporter_proof = 11, tr_selected_protocol_version = 3,
     tr_session_id = 12\<rparr>"

theorem honest_paired_peer_admitted_witness:
  "\<exists>b auth. PairedSessionAdmission_new (sample_identity 2) sample_hello MemoryPairedPeerStore_default = Inr b
     \<and> authentication_message b sample_transcript = Inr auth
     \<and> admit memory_get (b\<lparr>psa_allowlist := \<lparr>mps_peers = [(2, \<lparr>paired_identity = sample_identity 2\<rparr>)]\<rparr>\<rparr>)
         sample_transcript auth = Inr ()"
proof -
  obtain b :: "MemoryPairedPeerStore PairedSessionAdmission"
    where b: "PairedSessionAdmission_new (sample_identity 2) sample_hello MemoryPairedPeerStore_default = Inr b"
    by (simp add: PairedSessionAdmission_new_def sample_hello_def sample_identity_def validate_hello_def
        string_len_def str_len_def len_utf8_def MAX_HOST_NAME_BYTES_def MIN_SUPPORTED_PROTOCOL_VERSION_def
        CURRENT_PROTOCOL_VERSION_def PROTOCOL_VERSION_V1_def PROTOCOL_VERSION_V3_def)
  then have "local_hello (Some 8) b = Inr (sample_hello\<lparr>hello_nonce := 8\<rparr>)"
    by (auto simp: PairedSessionAdmission_new_def local_hello_def split: if_splits)
  moreover have "valid_identity_name (pi_display_name (sample_identity 2))"
    by (simp add: valid_identity_name_def sample_identity_def str_trim_def is_whitespace_def str_len_def
        len_utf8_def MAX_IDENTITY_NAME_BYTES_def is_control_def)
  ultimately show ?thesis
    using b honest_paired_peer_admitted[OF b, of 8 _ sample_transcript sample_transcript memory_get
        "b\<lparr>psa_allowlist := \<lparr>mps_peers = [(2, \<lparr>paired_identity = sample_identity 2\<rparr>)]\<rparr>\<rparr>"]
    by (auto simp: sample_transcript_def sample_identity_def memory_get_def)
qed

end
