(* ===== verification/ConfigModel.thy ===== *)
theory ConfigModel
  imports Router
begin

text \<open>
  Daemon configuration, \<^verbatim>\<open>crates/kvm-config/src/model.rs\<close> and \<^verbatim>\<open>migrate.rs\<close>: the current schema, the
  cross-field validation every daemon runs before it uses a configuration, the migration of the
  flat first schema, and decoding and encoding around the TOML library.  That library is not part
  of the repository: its three parsers and its printer are arguments.  I/O and TOML error payloads,
  which no message ever shows, are left out of the error values.
\<close>

unbundle bit_operations_syntax

section \<open>Schema\<close>

definition CURRENT_CONFIG_VERSION :: u16 where "CURRENT_CONFIG_VERSION = 2"
definition DEFAULT_KVM_PORT :: u16 where "DEFAULT_KVM_PORT = 24800"
definition MAX_CONFIG_FILE_BYTES :: nat where "MAX_CONFIG_FILE_BYTES = 1024 * 1024"
definition MAX_PAIRED_HOSTS :: nat where "MAX_PAIRED_HOSTS = 256"
definition MAX_SPECIFIC_BIND_ADDRESSES :: nat where "MAX_SPECIFIC_BIND_ADDRESSES = 32"
definition SHA256_FINGERPRINT_HEX_BYTES :: nat where "SHA256_FINGERPRINT_HEX_BYTES = 64"
definition MAX_PAIRED_HOST_NAME_BYTES :: nat where "MAX_PAIRED_HOST_NAME_BYTES = 128"

text \<open>An address is its big-endian value; a V6 socket address also carries flow label and scope.\<close>

datatype IpAddr = IpV4 u32 | IpV6 id128

datatype SocketAddr =
    SocketV4 (sock_v4_ip: u32) (sock_v4_port: u16)
  | SocketV6 (sock_v6_ip: id128) (sock_v6_port: u16) (sock_flowinfo: u32) (sock_scope_id: u32)

datatype ConfigError =
    ConfigRead | ConfigWrite | ConfigDecode | ConfigEncode | ConfigSizeLimit
  | ConfigFutureVersion (cfg_found: u16) (cfg_supported: u16)
  | ConfigUnsupportedVersion u16
  | ConfigValidation string

record PairedHostConfig =
  ph_host_id :: HostId
  ph_peer_id :: PeerId
  ph_name :: rust_string
  ph_platform :: Platform
  ph_identity_fingerprint :: rust_string
  ph_last_address :: "SocketAddr option"

record DisplayPlacement =
  dp_display_id :: DisplayId
  dp_x :: f64
  dp_y :: f64

record TopologyLink =
  tl_from_display :: DisplayId
  tl_from_edge :: Edge
  tl_to_display :: DisplayId
  tl_to_edge :: Edge

record TopologyConfig =
  topo_displays :: "DisplayPlacement list"
  topo_links :: "TopologyLink list"

datatype ConfiguredDeviceRoute = CfgFollowActiveHost | CfgLocal | CfgHost HostId

record DeviceRouteConfig =
  dr_device_id :: DeviceId
  dr_route :: ConfiguredDeviceRoute

datatype KeyboardMode = PhysicalMode | SemanticMode

record KeyboardSettings =
  kb_mode :: KeyboardMode

datatype ShortcutKey =
    SK_Control | SK_Alt | SK_Shift | SK_Meta | SK_Backspace | SK_Escape
  | SK_Physical (sk_usage_page: u16) (sk_usage: u16)

record FailsafeSettings =
  fs_shortcut :: "ShortcutKey list"
  fs_routing_suspend_seconds :: u32

record ClipboardSettings =
  cb_enabled :: bool
  cb_max_text_bytes :: nat

record StartupSettings =
  st_enabled :: bool

datatype BindScope = LocalNetwork | SpecificAddresses "IpAddr list"

record NetworkSettings =
  net_discovery_enabled :: bool
  net_listen_port :: u16
  net_bind :: BindScope
  net_auto_reconnect :: bool
  net_heartbeat_interval_ms :: u32
  net_failure_timeout_ms :: u32

record Config =
  cfg_version :: u16
  paired_hosts :: "PairedHostConfig list"
  cfg_topology :: TopologyConfig
  device_routes :: "DeviceRouteConfig list"
  device_route_revision :: u64
  cfg_keyboard :: KeyboardSettings
  cfg_failsafe :: FailsafeSettings
  cfg_clipboard :: ClipboardSettings
  cfg_startup :: StartupSettings
  cfg_network :: NetworkSettings

definition KeyboardSettings_default :: KeyboardSettings where
  "KeyboardSettings_default = \<lparr>kb_mode = PhysicalMode\<rparr>"

definition FailsafeSettings_default :: FailsafeSettings where
  "FailsafeSettings_default =
     \<lparr>fs_shortcut = [SK_Control, SK_Alt, SK_Shift, SK_Backspace], fs_routing_suspend_seconds = 10\<rparr>"

definition ClipboardSettings_default :: ClipboardSettings where
  "ClipboardSettings_default = \<lparr>cb_enabled = True, cb_max_text_bytes = 256 * 1024\<rparr>"

definition StartupSettings_default :: StartupSettings where
  "StartupSettings_default = \<lparr>st_enabled = True\<rparr>"

definition NetworkSettings_default :: NetworkSettings where
  "NetworkSettings_default =
     \<lparr>net_discovery_enabled = True, net_listen_port = DEFAULT_KVM_PORT, net_bind = LocalNetwork,
      net_auto_reconnect = True, net_heartbeat_interval_ms = 1000, net_failure_timeout_ms = 3000\<rparr>"

definition Config_default :: Config where
  "Config_default =
     \<lparr>cfg_version = CURRENT_CONFIG_VERSION, paired_hosts = [],
      cfg_topology = \<lparr>topo_displays = [], topo_links = []\<rparr>,
      device_routes = [], device_route_revision = 0,
      cfg_keyboard = KeyboardSettings_default, cfg_failsafe = FailsafeSettings_default,
      cfg_clipboard = ClipboardSettings_default, cfg_startup = StartupSettings_default,
      cfg_network = NetworkSettings_default\<rparr>"

fun into_device_route :: "ConfiguredDeviceRoute \<Rightarrow> DeviceRoute" where
  "into_device_route CfgFollowActiveHost = FollowActiveHost"
| "into_device_route CfgLocal = RouteLocal"
| "into_device_route (CfgHost h) = RouteHost h"

fun from_device_route :: "DeviceRoute \<Rightarrow> ConfiguredDeviceRoute" where
  "from_device_route FollowActiveHost = CfgFollowActiveHost"
| "from_device_route RouteLocal = CfgLocal"
| "from_device_route (RouteHost h) = CfgHost h"

section \<open>Derived equality\<close>

text \<open>
  \<^verbatim>\<open>PartialEq\<close> on a configuration compares display coordinates as floating-point numbers: \<open>-0.0\<close> equals
  \<open>0.0\<close> and a NaN equals nothing.
\<close>

definition placement_eq :: "DisplayPlacement \<Rightarrow> DisplayPlacement \<Rightarrow> bool" where
  "placement_eq a b \<longleftrightarrow> dp_display_id a = dp_display_id b \<and> f64_eq (dp_x a) (dp_x b) \<and> f64_eq (dp_y a) (dp_y b)"

definition topology_eq :: "TopologyConfig \<Rightarrow> TopologyConfig \<Rightarrow> bool" where
  "topology_eq a b \<longleftrightarrow>
     list_all2 placement_eq (topo_displays a) (topo_displays b) \<and> topo_links a = topo_links b"

definition Config_eq :: "Config \<Rightarrow> Config \<Rightarrow> bool" where
  "Config_eq a b \<longleftrightarrow>
     cfg_version a = cfg_version b \<and> paired_hosts a = paired_hosts b
     \<and> topology_eq (cfg_topology a) (cfg_topology b)
     \<and> device_routes a = device_routes b \<and> device_route_revision a = device_route_revision b
     \<and> cfg_keyboard a = cfg_keyboard b \<and> cfg_failsafe a = cfg_failsafe b
     \<and> cfg_clipboard a = cfg_clipboard b \<and> cfg_startup a = cfg_startup b
     \<and> cfg_network a = cfg_network b"

section \<open>Validation\<close>

fun decimal_digits :: "nat \<Rightarrow> string" where
  "decimal_digits n =
     (if n < 10 then [char_of (48 + n)] else decimal_digits (n div 10) @ [char_of (48 + n mod 10)])"

declare decimal_digits.simps [simp del]

definition config_invalid :: "string \<Rightarrow> (ConfigError, 'a) result" where
  "config_invalid detail = Inl (ConfigValidation detail)"

fun ensure_unique_loop :: "'a list \<Rightarrow> 'a set \<Rightarrow> string \<Rightarrow> (ConfigError, unit) result" where
  "ensure_unique_loop [] seen what = Inr ()"
| "ensure_unique_loop (v # vs) seen what =
     (if v \<in> seen then config_invalid (''duplicate '' @ what)
      else ensure_unique_loop vs (insert v seen) what)"

definition ensure_unique :: "'a list \<Rightarrow> string \<Rightarrow> (ConfigError, unit) result" where
  "ensure_unique vs what = ensure_unique_loop vs {} what"

definition is_canonical_sha256_fingerprint :: "rust_string \<Rightarrow> bool" where
  "is_canonical_sha256_fingerprint s \<longleftrightarrow>
     str_len s = SHA256_FINGERPRINT_HEX_BYTES
     \<and> list_all (\<lambda>b. 48 \<le> b \<and> b \<le> 57 \<or> 97 \<le> b \<and> b \<le> 102) (as_bytes s)"

text \<open>\<^verbatim>\<open>Ipv4Addr::is_private\<close>: 10.0.0.0/8, 172.16.0.0/12 and 192.168.0.0/16.\<close>

definition ipv4_is_private :: "u32 \<Rightarrow> bool" where
  "ipv4_is_private a \<longleftrightarrow>
     drop_bit 24 a = 10 \<or> drop_bit 20 a = 2753 \<or> drop_bit 16 a = 49320"

fun is_lan_ip :: "IpAddr \<Rightarrow> bool" where
  "is_lan_ip (IpV4 a) \<longleftrightarrow> ipv4_is_private a"
| "is_lan_ip (IpV6 a) \<longleftrightarrow> drop_bit 112 a AND 65024 = 64512"

fun sock_port :: "SocketAddr \<Rightarrow> u16" where
  "sock_port (SocketV4 _ p) = p"
| "sock_port (SocketV6 _ p _ _) = p"

fun sock_ip :: "SocketAddr \<Rightarrow> IpAddr" where
  "sock_ip (SocketV4 a _) = IpV4 a"
| "sock_ip (SocketV6 a _ _ _) = IpV6 a"

definition is_lan_socket_address :: "SocketAddr \<Rightarrow> bool" where
  "is_lan_socket_address a \<longleftrightarrow> sock_port a \<noteq> 0 \<and> is_lan_ip (sock_ip a)"

definition validate_paired_host :: "PairedHostConfig \<Rightarrow> (ConfigError, unit) result" where
  "validate_paired_host peer =
     (if ph_host_id peer = nil_id \<or> ph_peer_id peer = nil_id
      then config_invalid ''paired host and peer identifiers must be non-nil''
      else if str_trim (ph_name peer) = [] \<or> MAX_PAIRED_HOST_NAME_BYTES < str_len (ph_name peer)
              \<or> list_ex is_control (ph_name peer)
      then config_invalid ''paired host name must contain 1..=128 non-control UTF-8 bytes''
      else if \<not> is_canonical_sha256_fingerprint (ph_identity_fingerprint peer)
      then config_invalid ''peer identity fingerprint must contain 64 lowercase hex characters''
      else case ph_last_address peer of
          Some a \<Rightarrow> (if is_lan_socket_address a then Inr ()
                     else config_invalid ''paired last address must be a private LAN endpoint'')
        | None \<Rightarrow> Inr ())"

definition validate_paired_hosts :: "PairedHostConfig list \<Rightarrow> (ConfigError, unit) result" where
  "validate_paired_hosts peers =
     (if MAX_PAIRED_HOSTS < length peers then config_invalid ''paired host count exceeds 256''
      else and_then (ensure_unique (map ph_host_id peers) ''paired host id'') (\<lambda>_.
           and_then (ensure_unique (map ph_peer_id peers) ''paired peer id'') (\<lambda>_.
           for_each validate_paired_host peers)))"

definition validate_bind :: "BindScope \<Rightarrow> (ConfigError, unit) result" where
  "validate_bind b =
     (case b of
        LocalNetwork \<Rightarrow> Inr ()
      | SpecificAddresses addresses \<Rightarrow>
          if addresses = [] \<or> MAX_SPECIFIC_BIND_ADDRESSES < length addresses
          then config_invalid ''specific bind address count must be in 1..=32''
          else and_then (ensure_unique addresses ''specific bind address'') (\<lambda>_.
            if list_ex (\<lambda>a. \<not> is_lan_ip a) addresses
            then config_invalid ''specific bind addresses must be private LAN addresses''
            else Inr ()))"

text \<open>The product is a 32-bit multiplication; the range check before it keeps it from wrapping.\<close>

definition validate_network :: "NetworkSettings \<Rightarrow> (ConfigError, unit) result" where
  "validate_network n =
     (if net_listen_port n = 0 then config_invalid ''network listen port cannot be zero''
      else and_then (validate_bind (net_bind n)) (\<lambda>_.
        if \<not> (100 \<le> net_heartbeat_interval_ms n \<and> net_heartbeat_interval_ms n \<le> 60000)
        then config_invalid ''heartbeat interval must be in 100..=60000 milliseconds''
        else if net_failure_timeout_ms n < net_heartbeat_interval_ms n * 2
        then config_invalid ''failure timeout must be at least two heartbeat intervals''
        else Inr ()))"

definition validate_placement :: "DisplayPlacement \<Rightarrow> (ConfigError, unit) result" where
  "validate_placement p =
     (if dp_display_id p = nil_id
      then config_invalid ''display placement display identifier must be non-nil''
      else if \<not> f64_is_finite (dp_x p) \<or> \<not> f64_is_finite (dp_y p)
      then config_invalid ''display placement coordinates must be finite''
      else Inr ())"

definition validate_link :: "DisplayId list \<Rightarrow> TopologyLink \<Rightarrow> (ConfigError, unit) result" where
  "validate_link placed l =
     (if tl_from_display l = nil_id \<or> tl_to_display l = nil_id
      then config_invalid ''topology link display identifiers must be non-nil''
      else if tl_from_display l = tl_to_display l
      then config_invalid ''a topology link cannot connect a display to itself''
      else if tl_from_display l \<notin> set placed \<or> tl_to_display l \<notin> set placed
      then config_invalid ''topology links must reference placed displays''
      else Inr ())"

definition validate_route :: "HostId list \<Rightarrow> DeviceRouteConfig \<Rightarrow> (ConfigError, unit) result" where
  "validate_route paired r =
     (if dr_device_id r = nil_id then config_invalid ''device route identifier must be non-nil''
      else case dr_route r of
          CfgHost h \<Rightarrow> (if h = nil_id \<or> h \<notin> set paired
                        then config_invalid ''device route host target must be paired'' else Inr ())
        | _ \<Rightarrow> Inr ())"

definition Config_validate :: "Config \<Rightarrow> (ConfigError, unit) result" where
  "Config_validate c =
     (if cfg_version c \<noteq> CURRENT_CONFIG_VERSION
      then config_invalid (''expected version '' @ decimal_digits (unat CURRENT_CONFIG_VERSION)
                           @ '', got '' @ decimal_digits (unat (cfg_version c)))
      else and_then (validate_paired_hosts (paired_hosts c)) (\<lambda>_.
      let displays = topo_displays (cfg_topology c);
          links = topo_links (cfg_topology c);
          placed = map dp_display_id displays in
      and_then (ensure_unique placed ''display placement'') (\<lambda>_.
      and_then (for_each validate_placement displays) (\<lambda>_.
      and_then (ensure_unique (map (\<lambda>l. (tl_from_display l, tl_from_edge l)) links)
                  ''topology source display edge'') (\<lambda>_.
      and_then (for_each (validate_link placed) links) (\<lambda>_.
      if MAX_DEVICE_ROUTES < length (device_routes c)
      then config_invalid ''device route count exceeds maximum''
      else and_then (ensure_unique (map dr_device_id (device_routes c)) ''device route'') (\<lambda>_.
      and_then (for_each (validate_route (map ph_host_id (paired_hosts c))) (device_routes c)) (\<lambda>_.
      if fs_shortcut (cfg_failsafe c) = [] \<or> 8 < length (fs_shortcut (cfg_failsafe c))
      then config_invalid ''failsafe shortcut must contain 1..=8 keys''
      else and_then (ensure_unique (fs_shortcut (cfg_failsafe c)) ''failsafe shortcut key'') (\<lambda>_.
      if fs_routing_suspend_seconds (cfg_failsafe c) = 0
      then config_invalid ''failsafe routing suspension must be at least one second''
      else if cb_max_text_bytes (cfg_clipboard c) = 0 \<or> 1024 * 1024 < cb_max_text_bytes (cfg_clipboard c)
      then config_invalid ''clipboard text limit must be in 1..=1048576 bytes''
      else validate_network (cfg_network c))))))))))"

section \<open>Migration and the TOML boundary\<close>

record PairedHostV1 =
  v1_host_id :: HostId
  v1_peer_id :: PeerId
  v1_name :: rust_string
  v1_platform :: Platform
  v1_identity_fingerprint :: rust_string

record ConfigV1 =
  v1_version :: u16
  v1_paired_hosts :: "PairedHostV1 list"
  v1_display_layout :: "DisplayPlacement list"
  v1_device_routes :: "DeviceRouteConfig list"
  v1_keyboard_mode :: KeyboardMode
  v1_failsafe_shortcut :: "ShortcutKey list"
  v1_clipboard_enabled :: bool
  v1_startup_enabled :: bool
  v1_discovery_enabled :: bool
  v1_listen_port :: u16

definition paired_host_from_v1 :: "PairedHostV1 \<Rightarrow> PairedHostConfig" where
  "paired_host_from_v1 v =
     \<lparr>ph_host_id = v1_host_id v, ph_peer_id = v1_peer_id v, ph_name = v1_name v,
      ph_platform = v1_platform v, ph_identity_fingerprint = v1_identity_fingerprint v,
      ph_last_address = None\<rparr>"

definition migrate :: "ConfigV1 \<Rightarrow> Config" where
  "migrate old =
     \<lparr>cfg_version = CURRENT_CONFIG_VERSION,
      paired_hosts = map paired_host_from_v1 (v1_paired_hosts old),
      cfg_topology = \<lparr>topo_displays = v1_display_layout old, topo_links = []\<rparr>,
      device_routes = v1_device_routes old,
      device_route_revision = 0,
      cfg_keyboard = \<lparr>kb_mode = v1_keyboard_mode old\<rparr>,
      cfg_failsafe = FailsafeSettings_default\<lparr>fs_shortcut := v1_failsafe_shortcut old\<rparr>,
      cfg_clipboard = ClipboardSettings_default\<lparr>cb_enabled := v1_clipboard_enabled old\<rparr>,
      cfg_startup = \<lparr>st_enabled = v1_startup_enabled old\<rparr>,
      cfg_network = NetworkSettings_default\<lparr>net_discovery_enabled := v1_discovery_enabled old,
                                            net_listen_port := v1_listen_port old\<rparr>\<rparr>"

text \<open>
  The TOML library: reading a version probe, each schema, and printing; \<open>None\<close> is the library's error.
\<close>

record toml_library =
  toml_probe :: "rust_string \<Rightarrow> u16 option"
  toml_v1 :: "rust_string \<Rightarrow> ConfigV1 option"
  toml_current :: "rust_string \<Rightarrow> Config option"
  toml_print :: "Config \<Rightarrow> rust_string option"

definition decode_config :: "toml_library \<Rightarrow> rust_string \<Rightarrow> (ConfigError, Config) result" where
  "decode_config toml source =
     (if MAX_CONFIG_FILE_BYTES < str_len source then Inl ConfigSizeLimit
      else case toml_probe toml source of
          None \<Rightarrow> Inl ConfigDecode
        | Some found \<Rightarrow>
            and_then
              (if found = 1 then
                 (case toml_v1 toml source of None \<Rightarrow> Inl ConfigDecode | Some old \<Rightarrow> Inr (migrate old))
               else if found = CURRENT_CONFIG_VERSION then
                 (case toml_current toml source of None \<Rightarrow> Inl ConfigDecode | Some c \<Rightarrow> Inr c)
               else if CURRENT_CONFIG_VERSION < found
               then Inl (ConfigFutureVersion found CURRENT_CONFIG_VERSION)
               else Inl (ConfigUnsupportedVersion found))
              (\<lambda>config. and_then (Config_validate config) (\<lambda>_. Inr config)))"

definition encode_config :: "toml_library \<Rightarrow> Config \<Rightarrow> (ConfigError, rust_string) result" where
  "encode_config toml config =
     and_then (Config_validate config) (\<lambda>_.
       case toml_print toml config of
         None \<Rightarrow> Inl ConfigEncode
       | Some encoded \<Rightarrow>
           if MAX_CONFIG_FILE_BYTES < str_len encoded then Inl ConfigSizeLimit else Inr encoded)"

section \<open>What validation accepts\<close>

definition valid_fingerprint_text :: "rust_string \<Rightarrow> bool" where
  "valid_fingerprint_text s \<longleftrightarrow> length s = 64 \<and> set s \<subseteq> {48..57} \<union> {97..102}"

definition valid_paired_host :: "PairedHostConfig \<Rightarrow> bool" where
  "valid_paired_host p \<longleftrightarrow>
     ph_host_id p \<noteq> nil_id \<and> ph_peer_id p \<noteq> nil_id
     \<and> (\<exists>c\<in>set (ph_name p). \<not> is_whitespace c) \<and> str_len (ph_name p) \<le> 128
     \<and> (\<forall>c\<in>set (ph_name p). \<not> is_control c)
     \<and> valid_fingerprint_text (ph_identity_fingerprint p)
     \<and> (\<forall>a. ph_last_address p = Some a \<longrightarrow> sock_port a \<noteq> 0 \<and> is_lan_ip (sock_ip a))"

definition valid_topology_config :: "TopologyConfig \<Rightarrow> bool" where
  "valid_topology_config t \<longleftrightarrow>
     distinct (map dp_display_id (topo_displays t))
     \<and> (\<forall>p\<in>set (topo_displays t). dp_display_id p \<noteq> nil_id \<and> f64_is_finite (dp_x p) \<and> f64_is_finite (dp_y p))
     \<and> distinct (map (\<lambda>l. (tl_from_display l, tl_from_edge l)) (topo_links t))
     \<and> (\<forall>l\<in>set (topo_links t). tl_from_display l \<noteq> tl_to_display l
          \<and> {tl_from_display l, tl_to_display l} \<subseteq> dp_display_id ` set (topo_displays t))"

definition valid_device_routes :: "HostId set \<Rightarrow> DeviceRouteConfig list \<Rightarrow> bool" where
  "valid_device_routes hosts rs \<longleftrightarrow>
     length rs \<le> 1024 \<and> distinct (map dr_device_id rs)
     \<and> (\<forall>r\<in>set rs. dr_device_id r \<noteq> nil_id \<and> (\<forall>h. dr_route r = CfgHost h \<longrightarrow> h \<in> hosts))"

definition valid_bind :: "BindScope \<Rightarrow> bool" where
  "valid_bind b \<longleftrightarrow> (\<forall>as. b = SpecificAddresses as \<longrightarrow>
     1 \<le> length as \<and> length as \<le> 32 \<and> distinct as \<and> (\<forall>a\<in>set as. is_lan_ip a))"

definition valid_network :: "NetworkSettings \<Rightarrow> bool" where
  "valid_network n \<longleftrightarrow>
     net_listen_port n \<noteq> 0 \<and> valid_bind (net_bind n)
     \<and> 100 \<le> unat (net_heartbeat_interval_ms n) \<and> unat (net_heartbeat_interval_ms n) \<le> 60000
     \<and> 2 * unat (net_heartbeat_interval_ms n) \<le> unat (net_failure_timeout_ms n)"

definition valid_config :: "Config \<Rightarrow> bool" where
  "valid_config c \<longleftrightarrow>
     cfg_version c = 2
     \<and> length (paired_hosts c) \<le> 256
     \<and> distinct (map ph_host_id (paired_hosts c)) \<and> distinct (map ph_peer_id (paired_hosts c))
     \<and> (\<forall>p\<in>set (paired_hosts c). valid_paired_host p)
     \<and> valid_topology_config (cfg_topology c)
     \<and> valid_device_routes (ph_host_id ` set (paired_hosts c)) (device_routes c)
     \<and> 1 \<le> length (fs_shortcut (cfg_failsafe c)) \<and> length (fs_shortcut (cfg_failsafe c)) \<le> 8
     \<and> distinct (fs_shortcut (cfg_failsafe c))
     \<and> fs_routing_suspend_seconds (cfg_failsafe c) \<noteq> 0
     \<and> 1 \<le> cb_max_text_bytes (cfg_clipboard c) \<and> cb_max_text_bytes (cfg_clipboard c) \<le> 1048576
     \<and> valid_network (cfg_network c)"

named_theorems config_ok \<open>when each validation step succeeds\<close>

lemma ensure_unique_loop_ok:
  "ensure_unique_loop vs seen what = Inr u \<longleftrightarrow> distinct vs \<and> set vs \<inter> seen = {}"
  by (induction vs seen what rule: ensure_unique_loop.induct) (auto simp: config_invalid_def)

lemma ensure_unique_ok [config_ok]: "ensure_unique vs what = Inr u \<longleftrightarrow> distinct vs"
  by (simp add: ensure_unique_def ensure_unique_loop_ok)

lemma config_invalid_fails [simp]: "config_invalid d \<noteq> Inr u"
  by (simp add: config_invalid_def)

lemma if_ok [simp]: "(if c then config_invalid d else r) = Inr u \<longleftrightarrow> \<not> c \<and> r = Inr u"
  by simp

lemma canonical_fingerprint_iff [config_ok]:
  "is_canonical_sha256_fingerprint s \<longleftrightarrow> valid_fingerprint_text s"
proof
  let ?ok = "\<lambda>b. 48 \<le> b \<and> b \<le> 57 \<or> 97 \<le> b \<and> b \<le> (102::nat)"
  assume h: "is_canonical_sha256_fingerprint s"
  hence "list_all (\<lambda>b. b < 128) (as_bytes s)"
    unfolding is_canonical_sha256_fingerprint_def list_all_iff by fastforce
  hence a: "list_all (\<lambda>c. c < 128) s" by (simp add: as_bytes_all_ascii)
  hence "as_bytes s = s" by (rule as_bytes_ascii)
  moreover have "str_len s = length s" using calculation length_as_bytes by metis
  ultimately show "valid_fingerprint_text s"
    using h unfolding is_canonical_sha256_fingerprint_def valid_fingerprint_text_def list_all_iff
      SHA256_FINGERPRINT_HEX_BYTES_def by auto
next
  assume h: "valid_fingerprint_text s"
  hence "list_all (\<lambda>c. c < 128) s"
    unfolding valid_fingerprint_text_def list_all_iff by fastforce
  hence "as_bytes s = s" by (rule as_bytes_ascii)
  moreover have "str_len s = length s" using calculation length_as_bytes by metis
  ultimately show "is_canonical_sha256_fingerprint s"
    using h unfolding is_canonical_sha256_fingerprint_def valid_fingerprint_text_def list_all_iff
      SHA256_FINGERPRINT_HEX_BYTES_def by fastforce
qed

lemma validate_paired_host_ok [config_ok]: "validate_paired_host p = Inr u \<longleftrightarrow> valid_paired_host p"
  unfolding validate_paired_host_def valid_paired_host_def
  by (auto simp: canonical_fingerprint_iff str_trim_eq_Nil MAX_PAIRED_HOST_NAME_BYTES_def list_ex_iff
        is_lan_socket_address_def split: option.splits)

lemma validate_paired_hosts_ok [config_ok]:
  "validate_paired_hosts ps = Inr u \<longleftrightarrow>
     length ps \<le> 256 \<and> distinct (map ph_host_id ps) \<and> distinct (map ph_peer_id ps)
     \<and> (\<forall>p\<in>set ps. valid_paired_host p)"
  unfolding validate_paired_hosts_def
  by (auto simp: config_ok for_each_eq_Inr MAX_PAIRED_HOSTS_def)

lemma validate_bind_ok [config_ok]: "validate_bind b = Inr u \<longleftrightarrow> valid_bind b"
  by (cases b) (auto simp: validate_bind_def valid_bind_def config_ok list_ex_iff Suc_le_eq
      MAX_SPECIFIC_BIND_ADDRESSES_def)

lemma double_no_wrap: "unat (w :: u32) \<le> 60000 \<Longrightarrow> unat (w * 2) = 2 * unat w"
  by (subst unat_mult_lem [THEN iffD1]) auto

lemma validate_network_ok [config_ok]: "validate_network n = Inr u \<longleftrightarrow> valid_network n"
proof -
  have "100 \<le> net_heartbeat_interval_ms n \<longleftrightarrow> 100 \<le> unat (net_heartbeat_interval_ms n)"
    and "net_heartbeat_interval_ms n \<le> 60000 \<longleftrightarrow> unat (net_heartbeat_interval_ms n) \<le> 60000"
    by (simp_all add: word_le_nat_alt)
  thus ?thesis
    unfolding validate_network_def valid_network_def
    by (auto simp: config_ok not_less word_le_nat_alt double_no_wrap)
qed

lemma validate_placement_ok [config_ok]:
  "validate_placement p = Inr u \<longleftrightarrow>
     dp_display_id p \<noteq> nil_id \<and> f64_is_finite (dp_x p) \<and> f64_is_finite (dp_y p)"
  by (auto simp: validate_placement_def)

lemma validate_link_ok [config_ok]:
  "validate_link placed l = Inr u \<longleftrightarrow>
     tl_from_display l \<noteq> nil_id \<and> tl_to_display l \<noteq> nil_id \<and> tl_from_display l \<noteq> tl_to_display l
     \<and> tl_from_display l \<in> set placed \<and> tl_to_display l \<in> set placed"
  by (auto simp: validate_link_def)

lemma validate_route_ok [config_ok]:
  "validate_route hosts r = Inr u \<longleftrightarrow>
     dr_device_id r \<noteq> nil_id \<and> (\<forall>h. dr_route r = CfgHost h \<longrightarrow> h \<noteq> nil_id \<and> h \<in> set hosts)"
  by (auto simp: validate_route_def split: ConfiguredDeviceRoute.splits)

lemma valid_topology_alt:
  "valid_topology_config t \<longleftrightarrow>
     distinct (map dp_display_id (topo_displays t))
     \<and> (\<forall>p\<in>set (topo_displays t). validate_placement p = Inr ())
     \<and> distinct (map (\<lambda>l. (tl_from_display l, tl_from_edge l)) (topo_links t))
     \<and> (\<forall>l\<in>set (topo_links t). validate_link (map dp_display_id (topo_displays t)) l = Inr ())"
  unfolding valid_topology_config_def config_ok set_map by (intro iffI conjI ballI; force)

lemma valid_device_routes_alt:
  assumes "\<forall>p\<in>set ps. valid_paired_host p"
  shows "valid_device_routes (ph_host_id ` set ps) rs \<longleftrightarrow>
     length rs \<le> 1024 \<and> distinct (map dr_device_id rs)
     \<and> (\<forall>r\<in>set rs. validate_route (map ph_host_id ps) r = Inr ())"
proof -
  have "h \<noteq> nil_id" if "h \<in> ph_host_id ` set ps" for h
    using that assms by (auto simp: valid_paired_host_def)
  thus ?thesis unfolding valid_device_routes_def config_ok set_map by blast
qed

lemma Config_validate_ok: "Config_validate c = Inr u \<longleftrightarrow> valid_config c"
proof (cases "\<forall>p\<in>set (paired_hosts c). valid_paired_host p")
  case True
  show ?thesis
    unfolding Config_validate_def valid_config_def valid_topology_alt valid_device_routes_alt [OF True]
    by (simp add: validate_paired_hosts_ok ensure_unique_ok validate_network_ok for_each_eq_Inr True
          CURRENT_CONFIG_VERSION_def Let_def not_less Suc_le_eq MAX_DEVICE_ROUTES_def)
next
  case False
  hence "validate_paired_hosts (paired_hosts c) \<noteq> Inr v" for v
    by (auto simp: validate_paired_hosts_ok)
  moreover have "\<not> valid_config c" using False by (auto simp: valid_config_def)
  ultimately show ?thesis by (simp add: Config_validate_def)
qed

text \<open>
  C34: A configuration passes validation exactly when it satisfies the schema's documented limits:
  current version, at most 256 paired hosts with distinct non-nil identities, printable names of at
  most 128 bytes, canonical fingerprints and private last addresses; finite placements and links
  between placed displays, one per source edge; at most 1024 routes to paired hosts; a failsafe
  shortcut of one to eight distinct keys with a non-zero suspension; and network intervals whose
  doubling does not wrap.
\<close>

theorem config_accepted_iff_valid: "is_ok (Config_validate c) \<longleftrightarrow> valid_config c"
  by (simp add: is_ok_iff Config_validate_ok)

text \<open>
  Encoding a configuration and decoding the text gives the configuration back, provided the TOML
  library reads what it printed.
\<close>

theorem config_encode_decode:
  assumes toml: "\<And>s. toml_print toml c = Some s \<Longrightarrow>
                   toml_probe toml s = Some (cfg_version c) \<and> toml_current toml s = Some c"
    and enc: "encode_config toml c = Inr text"
  shows "decode_config toml text = Inr c"
proof -
  from enc have v: "Config_validate c = Inr ()" and p: "toml_print toml c = Some text"
    and l: "\<not> MAX_CONFIG_FILE_BYTES < str_len text"
    by (auto simp: encode_config_def split: option.splits if_splits)
  have "cfg_version c = CURRENT_CONFIG_VERSION"
    using v by (auto simp: Config_validate_def split: if_splits)
  thus ?thesis
    using v l toml [OF p] by (simp add: decode_config_def CURRENT_CONFIG_VERSION_def)
qed

lemma default_config_valid: "Config_validate Config_default = Inr ()"
  by (simp add: Config_validate_ok valid_config_def Config_default_def CURRENT_CONFIG_VERSION_def
      valid_topology_config_def valid_device_routes_def FailsafeSettings_default_def
      ClipboardSettings_default_def NetworkSettings_default_def valid_network_def valid_bind_def
      DEFAULT_KVM_PORT_def)

theorem config_encode_decode_witness:
  "\<exists>toml :: toml_library.
     (\<forall>s. toml_print toml Config_default = Some s \<longrightarrow>
        toml_probe toml s = Some (cfg_version Config_default) \<and> toml_current toml s = Some Config_default)
     \<and> encode_config toml Config_default = Inr (ascii_str ''version = 2'')
     \<and> decode_config toml (ascii_str ''version = 2'') = Inr Config_default"
proof -
  let ?toml = "\<lparr>toml_probe = \<lambda>s. Some 2, toml_v1 = \<lambda>s. None, toml_current = \<lambda>s. Some Config_default,
                 toml_print = \<lambda>c. Some (ascii_str ''version = 2'')\<rparr>"
  have law: "toml_probe ?toml s = Some (cfg_version Config_default)
             \<and> toml_current ?toml s = Some Config_default" for s
    by (simp add: Config_default_def CURRENT_CONFIG_VERSION_def)
  have enc: "encode_config ?toml Config_default = Inr (ascii_str ''version = 2'')"
    by (simp add: encode_config_def default_config_valid ascii_str_def str_len_def len_utf8_def
        MAX_CONFIG_FILE_BYTES_def)
  have "decode_config ?toml (ascii_str ''version = 2'') = Inr Config_default"
    by (rule config_encode_decode [OF _ enc]) (rule law)
  with law enc show ?thesis by blast
qed

text \<open>Whatever text the daemon is given, the configuration it gets from it is valid.\<close>

theorem decoded_config_is_valid:
  "case decode_config toml text of Inr c \<Rightarrow> valid_config c | Inl e \<Rightarrow> True"
proof (cases "decode_config toml text")
  case (Inr c)
  hence "Config_validate c = Inr ()"
    by (auto simp: decode_config_def split: option.splits if_splits)
  thus ?thesis using Inr by (simp add: Config_validate_ok)
qed simp

end
