(* ===== verification/BTreeMaps.thy ===== *)
theory BTreeMaps
  imports KvmPrelude "HOL-Library.Product_Lexorder"
begin

text \<open>
  \<^verbatim>\<open>BTreeMap\<close> as the list of its entries in key order, the order in which the source iterates over it.
  Insertion keeps the list strictly sorted; lookup is \<^const>\<open>map_of\<close>, removal is \<^const>\<open>AList.delete\<close>,
  \<^verbatim>\<open>retain\<close> is \<^const>\<open>filter\<close>, and \<open>bt_adjust\<close> is an update through \<^verbatim>\<open>get_mut\<close>, which does nothing when
  the key is absent.
\<close>

type_synonym ('k, 'v) btree_map = "('k \<times> 'v) list"

fun bt_insert :: "'k::linorder \<Rightarrow> 'v \<Rightarrow> ('k, 'v) btree_map \<Rightarrow> ('k, 'v) btree_map" where
  "bt_insert k v [] = [(k, v)]"
| "bt_insert k v ((k', v') # m) =
     (if k < k' then (k, v) # (k', v') # m
      else if k = k' then (k, v) # m
      else (k', v') # bt_insert k v m)"

definition bt_adjust :: "'k \<Rightarrow> ('v \<Rightarrow> 'v) \<Rightarrow> ('k, 'v) btree_map \<Rightarrow> ('k, 'v) btree_map" where
  "bt_adjust k f m = map (\<lambda>(k', v). (k', if k' = k then f v else v)) m"

definition sorted_map :: "('k::linorder, 'v) btree_map \<Rightarrow> bool" where
  "sorted_map m \<longleftrightarrow> sorted_wrt (<) (map fst m)"

named_theorems btree \<open>lookup, keys and order of ordered maps after each operation\<close>

lemma sorted_map_Nil [simp]: "sorted_map []"
  by (simp add: sorted_map_def)

lemma keys_bt_insert [btree]: "fst ` set (bt_insert k v m) = insert k (fst ` set m)"
  by (induction k v m rule: bt_insert.induct) auto

lemma sorted_map_Cons:
  "sorted_map ((k, v) # m) \<longleftrightarrow> (\<forall>k'\<in>fst ` set m. k < k') \<and> sorted_map m"
  by (auto simp: sorted_map_def)

lemma sorted_bt_insert [btree, intro]: "sorted_map m \<Longrightarrow> sorted_map (bt_insert k v m)"
  by (induction k v m rule: bt_insert.induct) (auto simp: sorted_map_Cons keys_bt_insert)

lemma map_of_bt_insert [btree]: "sorted_map m \<Longrightarrow> map_of (bt_insert k v m) = (map_of m)(k \<mapsto> v)"
  unfolding sorted_map_def by (induction k v m rule: bt_insert.induct) (auto simp: fun_eq_iff)

lemma sorted_map_filter [btree, intro]: "sorted_map m \<Longrightarrow> sorted_map (filter P m)"
  unfolding sorted_map_def by (induction m) auto

lemma sorted_map_delete [btree, intro]: "sorted_map m \<Longrightarrow> sorted_map (AList.delete k m)"
  unfolding AList.delete_eq by (rule sorted_map_filter)

lemma keys_delete [btree]: "fst ` set (AList.delete k m) = fst ` set m - {k}"
  by (induction m) auto

lemma map_fst_bt_adjust [btree, simp]: "map fst (bt_adjust k f m) = map fst m"
  by (simp add: bt_adjust_def comp_def split_def)

lemma keys_bt_adjust [simp]: "fst ` set (bt_adjust k f m) = fst ` set m"
  by (metis map_fst_bt_adjust list.set_map)

lemma sorted_bt_adjust [btree, simp]: "sorted_map (bt_adjust k f m) = sorted_map m"
  by (simp add: sorted_map_def)

lemma length_bt_adjust [simp]: "length (bt_adjust k f m) = length m"
  by (simp add: bt_adjust_def)

lemma map_of_bt_adjust [btree]:
  "map_of (bt_adjust k f m) x = (if x = k then map_option f (map_of m x) else map_of m x)"
  by (induction m) (auto simp: bt_adjust_def)

lemma set_bt_adjust: "(k', v) \<in> set (bt_adjust k f m) \<longleftrightarrow>
    (\<exists>u. (k', u) \<in> set m \<and> v = (if k' = k then f u else u))"
  by (induction m) (auto simp: bt_adjust_def)

lemma sorted_map_distinct: "sorted_map m \<Longrightarrow> distinct_keys m"
  unfolding sorted_map_def distinct_keys_def
  by (induction m) auto

lemma length_bt_insert [btree]:
  "sorted_map m \<Longrightarrow> length (bt_insert k v m) = (if k \<in> fst ` set m then length m else Suc (length m))"
  by (induction k v m rule: bt_insert.induct) (auto simp: sorted_map_Cons)

lemma set_bt_insert: "sorted_map m \<Longrightarrow> set (bt_insert k v m) = insert (k, v) {x \<in> set m. fst x \<noteq> k}"
  by (induction k v m rule: bt_insert.induct) (auto simp: sorted_map_Cons)

lemma sorted_map_of_eq: "sorted_map m \<Longrightarrow> (k, v) \<in> set m \<longleftrightarrow> map_of m k = Some v"
  using map_of_eq_Some_iff sorted_map_distinct unfolding distinct_keys_def by fastforce

lemma bt_insert_snoc:
  "\<forall>k'\<in>fst ` set m. k' < k \<Longrightarrow> bt_insert k v m = m @ [(k, v)]"
  by (induction k v m rule: bt_insert.induct) auto

lemma map_of_filter_snd:
  "distinct_keys m \<Longrightarrow> map_of (filter (\<lambda>(_, v). P v) m) k = (case map_of m k of None \<Rightarrow> None | Some v \<Rightarrow> if P v then Some v else None)"
proof (induction m)
  case (Cons x m)
  obtain a v where x: "x = (a, v)" by (cases x)
  have "a \<notin> fst ` set m" using Cons.prems by (simp add: x distinct_keys_def)
  then have "map_of m a = None" by (simp add: map_of_eq_None_iff)
  then show ?case using Cons by (auto simp: x distinct_keys_def)
qed simp

lemma bt_adjust_id: "(\<And>v. map_of m k = Some v \<Longrightarrow> f v = v) \<Longrightarrow> distinct_keys m \<Longrightarrow> bt_adjust k f m = m"
  by (force simp: bt_adjust_def distinct_keys_def intro!: map_idI)

end
