(* ===== verification/DaemonState.thy ===== *)
theory DaemonState
  imports ConfigModel BTreeMaps ConnectionGate Frame
begin

text \<open>
  State of the daemon core, \<^verbatim>\<open>crates/kvm-daemon/src/core.rs\<close>, with the exact session endpoint of
  \<^verbatim>\<open>session_endpoint.rs\<close> and the capture types of \<^verbatim>\<open>platform.rs\<close>.  Ordered maps keep their iteration
  order, because the order of release effects follows it.  The optional diagnostics meters and the
  log messages are left out; the snapshot that callbacks read is a field of the state.
\<close>

section \<open>Session endpoints\<close>

datatype SessionEndpoint = SessionEndpoint
  (se_peer_id: PeerId) (se_host_id: HostId) (se_generation: ConnectionGeneration)
  (se_selected_protocol_version: u16) (se_session_id: bytes32)

definition SessionEndpoint_validated ::
  "PeerId \<Rightarrow> HostId \<Rightarrow> ConnectionGeneration \<Rightarrow> u16 \<Rightarrow> bytes32 \<Rightarrow> SessionEndpoint option" where
  "SessionEndpoint_validated peer host generation version session =
     (if peer = nil_id \<or> host = nil_id \<or> \<not> is_supported_protocol_version version \<or> session = 0
      then None
      else Some (SessionEndpoint peer host generation version session))"

definition se_supports_release_proof :: "SessionEndpoint \<Rightarrow> bool" where
  "se_supports_release_proof e = supports_release_proof (se_selected_protocol_version e)"

text \<open>The derived order compares the fields in declaration order.\<close>

definition endpoint_rank :: "SessionEndpoint \<Rightarrow> id128 \<times> id128 \<times> (u64 \<times> u64) \<times> u16 \<times> bytes32" where
  "endpoint_rank e =
     (se_peer_id e, se_host_id e,
      (cg_gate_instance_id (se_generation e), cg_sequence (se_generation e)),
      se_selected_protocol_version e, se_session_id e)"

lemma endpoint_rank_inj: "endpoint_rank a = endpoint_rank b \<longleftrightarrow> a = b"
  by (cases a; cases b) (auto simp: endpoint_rank_def)

instantiation SessionEndpoint :: linorder
begin

definition less_eq_SessionEndpoint :: "SessionEndpoint \<Rightarrow> SessionEndpoint \<Rightarrow> bool" where
  "less_eq_SessionEndpoint a b \<longleftrightarrow> endpoint_rank a \<le> endpoint_rank b"

definition less_SessionEndpoint :: "SessionEndpoint \<Rightarrow> SessionEndpoint \<Rightarrow> bool" where
  "less_SessionEndpoint a b \<longleftrightarrow> endpoint_rank a < endpoint_rank b"

instance
  by standard
    (auto simp: less_eq_SessionEndpoint_def less_SessionEndpoint_def endpoint_rank_inj [symmetric]
      simp del: less_eq_prod_simp less_prod_simp)

end

section \<open>Capture types\<close>

datatype EventClassification = Physical | InjectedByKvm | UnknownOrigin

record CapturedInput =
  ci_event :: InputEvent
  ci_classification :: EventClassification
  ci_native_pointer_position :: "Point option"

definition CapturedInput_new :: "InputEvent \<Rightarrow> EventClassification \<Rightarrow> CapturedInput" where
  "CapturedInput_new event classification =
     \<lparr>ci_event = event, ci_classification = classification, ci_native_pointer_position = None\<rparr>"

definition with_native_pointer_position :: "Point \<Rightarrow> CapturedInput \<Rightarrow> CapturedInput" where
  "with_native_pointer_position p c =
     (if f64_is_finite (point_x p) \<and> f64_is_finite (point_y p)
      then c\<lparr>ci_native_pointer_position := Some p\<rparr> else c)"

datatype CaptureDisposition = AllowLocal | SuppressLocal

section \<open>Core data\<close>

definition MAX_PHYSICAL_HELD_DEVICES :: nat where "MAX_PHYSICAL_HELD_DEVICES = 64"
definition MAX_PHYSICAL_HELD_PER_DEVICE :: nat where "MAX_PHYSICAL_HELD_PER_DEVICE = 256"
definition MAX_PHYSICAL_HELD_TOTAL :: nat where "MAX_PHYSICAL_HELD_TOTAL = 1024"
definition MAX_REMOTE_HELD_TOTAL :: nat where "MAX_REMOTE_HELD_TOTAL = 1024"
definition MAX_PENDING_REMOTE_CLEANUP :: nat where "MAX_PENDING_REMOTE_CLEANUP = 1024"
definition MAX_GATED_LOCAL_DEVICES :: nat where "MAX_GATED_LOCAL_DEVICES = MAX_DEVICE_ROUTES"

lemmas core_limits =
  MAX_PHYSICAL_HELD_DEVICES_def MAX_PHYSICAL_HELD_PER_DEVICE_def MAX_PHYSICAL_HELD_TOTAL_def
  MAX_REMOTE_HELD_TOTAL_def MAX_PENDING_REMOTE_CLEANUP_def MAX_GATED_LOCAL_DEVICES_def
  MAX_DEVICE_ROUTES_def

datatype CorePeerState =
  PS_Disconnected | PS_Discovering | PS_Connecting | PS_Authenticating | PS_Connected | PS_Degraded

fun accepts_input :: "CorePeerState \<Rightarrow> bool" where
  "accepts_input PS_Connected \<longleftrightarrow> True"
| "accepts_input _ \<longleftrightarrow> False"

record RoutingSnapshot =
  snap_workspace :: WorkspaceState
  snap_routing :: RoutingTable
  snap_peers :: "(HostId, CorePeerState) btree_map"
  snap_enabled :: bool
  snap_workspace_ready :: bool
  snap_handoff_pending :: bool

record RemoteRelease =
  rr_target :: HostId
  rr_source_device :: DeviceId
  rr_payload :: InputPayload

datatype CaptureRouteState = RS_Local | RS_Inert | RS_RemoteQueued | RS_Gated

record CaptureOutcome =
  co_disposition :: CaptureDisposition
  co_failsafe_activated :: bool
  co_state :: CaptureRouteState

definition outcome_local :: "bool \<Rightarrow> CaptureRouteState \<Rightarrow> CaptureOutcome" where
  "outcome_local failsafe st =
     \<lparr>co_disposition = AllowLocal, co_failsafe_activated = failsafe, co_state = st\<rparr>"

definition outcome_inert :: CaptureOutcome where
  "outcome_inert =
     \<lparr>co_disposition = SuppressLocal, co_failsafe_activated = False, co_state = RS_Inert\<rparr>"

definition outcome_remote_queued :: CaptureOutcome where
  "outcome_remote_queued =
     \<lparr>co_disposition = SuppressLocal, co_failsafe_activated = False, co_state = RS_RemoteQueued\<rparr>"

definition outcome_gated_suppressed :: CaptureOutcome where
  "outcome_gated_suppressed =
     \<lparr>co_disposition = SuppressLocal, co_failsafe_activated = False, co_state = RS_Gated\<rparr>"

lemmas outcome_defs =
  outcome_local_def outcome_inert_def outcome_remote_queued_def outcome_gated_suppressed_def

record RemoteInputEffect =
  rie_decision_id :: u64
  rie_endpoint :: SessionEndpoint
  rie_event :: InputEvent

datatype CoreCaptureError =
    CoreUnavailable | CoreCapacityExceeded | StaleDecision | StaleCleanup | CoreCleanupPending
  | IdentifierSpaceExhausted

datatype CaptureDecision =
    DecideLocal CaptureOutcome
  | DecideInert CaptureOutcome
  | DecideRemote RemoteInputEffect
  | DecideFault CaptureOutcome CoreCaptureError

record CleanupReleaseEffect =
  cre_cleanup_id :: u64
  cre_endpoint :: SessionEndpoint
  cre_covered_input_sequence :: u64
  cre_release :: RemoteRelease

datatype PhysicalControl = ControlKey KeyCode | ControlButton PointerButton

datatype PhysicalTransition = Press | Repeat | Release

fun control_from_payload :: "InputPayload \<Rightarrow> (PhysicalControl \<times> PhysicalTransition) option" where
  "control_from_payload (Key code Pressed) = Some (ControlKey code, Press)"
| "control_from_payload (Key code Repeated) = Some (ControlKey code, Repeat)"
| "control_from_payload (Key code Released) = Some (ControlKey code, Release)"
| "control_from_payload (PointerButton b BtnPressed) = Some (ControlButton b, Press)"
| "control_from_payload (PointerButton b BtnReleased) = Some (ControlButton b, Release)"
| "control_from_payload (PointerMove _ _) = None"
| "control_from_payload (Scroll _ _) = None"

fun release_payload :: "PhysicalControl \<Rightarrow> InputPayload" where
  "release_payload (ControlKey code) = Key code Released"
| "release_payload (ControlButton b) = PointerButton b BtnReleased"

text \<open>Keys order before buttons.\<close>

instantiation PhysicalControl :: linorder
begin

fun less_eq_PhysicalControl :: "PhysicalControl \<Rightarrow> PhysicalControl \<Rightarrow> bool" where
  "ControlKey a \<le> ControlKey b \<longleftrightarrow> a \<le> b"
| "ControlKey a \<le> ControlButton b \<longleftrightarrow> True"
| "ControlButton a \<le> ControlKey b \<longleftrightarrow> False"
| "ControlButton a \<le> ControlButton b \<longleftrightarrow> a \<le> b"

definition less_PhysicalControl :: "PhysicalControl \<Rightarrow> PhysicalControl \<Rightarrow> bool" where
  "less_PhysicalControl a b \<longleftrightarrow> a \<le> b \<and> a \<noteq> b"

instance
proof
  fix a b c :: PhysicalControl
  show "a < b \<longleftrightarrow> a \<le> b \<and> \<not> b \<le> a"
    by (cases a; cases b) (auto simp: less_PhysicalControl_def)
  show "a \<le> a" by (cases a) auto
  show "a \<le> b \<Longrightarrow> b \<le> c \<Longrightarrow> a \<le> c" by (cases a; cases b; cases c) auto
  show "a \<le> b \<Longrightarrow> b \<le> a \<Longrightarrow> a = b" by (cases a; cases b) auto
  show "a \<le> b \<or> b \<le> a" by (cases a; cases b) auto
qed

end

datatype LatchedDestination =
    LatchLocal
  | LatchRemote (latch_endpoint: SessionEndpoint) (latch_route: DeviceRoute)
  | LatchQuarantined

record PendingRemoteDecision =
  prd_id :: u64
  prd_device :: DeviceId
  prd_control :: "PhysicalControl option"
  prd_transition :: "PhysicalTransition option"
  prd_previous_latch :: "LatchedDestination option"
  prd_endpoint :: SessionEndpoint

record CleanupEntry =
  ce_id :: u64
  ce_endpoint :: SessionEndpoint
  ce_covered_input_sequence :: u64
  ce_release :: RemoteRelease
  ce_control :: PhysicalControl

record RemoteHeldState =
  rh_route :: DeviceRoute
  rh_last_input_sequence :: u64

record EndpointAvailability =
  ea_endpoint :: SessionEndpoint
  ea_state :: CorePeerState

record PendingRoutePolicy =
  prp_next_revision :: u64
  prp_config :: Config
  prp_routing :: RoutingTable
  prp_affected_devices :: "DeviceId set"

datatype RoutePolicyUpdateStatus = RP_CleanupPending | RP_ReadyToPersist

datatype RoutePolicyUpdateError =
    RP_InvalidCandidate | RP_StaleRevision | RP_ConflictingUpdate | RP_RevisionExhausted
  | RP_CapturePending | RP_CleanupUnavailable | RP_NotReady

datatype DaemonError =
    DE_Config ConfigError
  | DE_LocalHostChanged (de_expected: HostId) (de_actual: HostId)
  | DE_InvalidInitialAuthority | DE_InvalidRoutingTable | DE_CleanupPending | DE_CapturePending

datatype LifecycleState = Running bool | ShuttingDown

type_synonym held_key = "SessionEndpoint \<times> DeviceId \<times> PhysicalControl"
type_synonym control_map = "(DeviceId, (PhysicalControl, LatchedDestination) btree_map) btree_map"

record DaemonCore =
  dc_config :: Config
  dc_workspace :: WorkspaceState
  dc_routing :: RoutingTable
  dc_peers :: "(HostId, CorePeerState) btree_map"
  dc_endpoint_availability :: "(HostId, EndpointAvailability) btree_map"
  dc_lifecycle :: LifecycleState
  dc_suspended_until_ns :: u64
  dc_drain_failsafe_keys :: bool
  dc_physical_controls :: control_map
  dc_physical_control_count :: nat
  dc_remote_held :: "(held_key, RemoteHeldState) btree_map"
  dc_cleanup :: "CleanupEntry list"
  dc_cleanup_in_flight :: "u64 option"
  dc_pending_remote :: "PendingRemoteDecision option"
  dc_pending_route_policy :: "PendingRoutePolicy option"
  dc_route_policy_revision :: u64
  dc_gated_local_devices :: "DeviceId set"
  dc_next_effect_id :: u64
  dc_workspace_ready :: bool
  dc_handoff_pending :: bool
  dc_snapshot :: RoutingSnapshot

type_synonym 'a core_result = "(CoreCaptureError, 'a) result \<times> DaemonCore"

section \<open>Read-only operations\<close>

definition core_is_enabled :: "DaemonCore \<Rightarrow> bool" where
  "core_is_enabled s \<longleftrightarrow> dc_lifecycle s = Running True"

definition is_routing_active :: "DaemonCore \<Rightarrow> bool" where
  "is_routing_active s = snap_enabled (dc_snapshot s)"

definition cleanup_pending :: "DaemonCore \<Rightarrow> bool" where
  "cleanup_pending s \<longleftrightarrow> dc_cleanup s \<noteq> [] \<or> dc_cleanup_in_flight s \<noteq> None"

definition routing_should_be_active :: "DaemonCore \<Rightarrow> u64 \<Rightarrow> bool" where
  "routing_should_be_active s now \<longleftrightarrow>
     core_is_enabled s
     \<and> dc_suspended_until_ns s \<le> now
     \<and> \<not> dc_drain_failsafe_keys s
     \<and> dc_workspace_ready s
     \<and> (\<not> cleanup_pending s \<or> dc_pending_route_policy s \<noteq> None)
     \<and> dc_pending_remote s = None"

fun shortcut_matches_key :: "ShortcutKey \<Rightarrow> KeyCode \<Rightarrow> bool" where
  "shortcut_matches_key SK_Control key \<longleftrightarrow> key = K_ControlLeft \<or> key = K_ControlRight"
| "shortcut_matches_key SK_Alt key \<longleftrightarrow> key = K_AltLeft \<or> key = K_AltRight"
| "shortcut_matches_key SK_Shift key \<longleftrightarrow> key = K_ShiftLeft \<or> key = K_ShiftRight"
| "shortcut_matches_key SK_Meta key \<longleftrightarrow> key = K_MetaLeft \<or> key = K_MetaRight"
| "shortcut_matches_key SK_Backspace key \<longleftrightarrow> key = K_Backspace"
| "shortcut_matches_key SK_Escape key \<longleftrightarrow> key = K_Escape"
| "shortcut_matches_key (SK_Physical page usage) key \<longleftrightarrow> key = Unidentified page usage"

definition shortcut_key_pressed :: "DaemonCore \<Rightarrow> ShortcutKey \<Rightarrow> bool" where
  "shortcut_key_pressed s shortcut \<longleftrightarrow>
     list_ex (\<lambda>(device, controls).
       list_ex (\<lambda>(control, latch).
         case control of ControlKey key \<Rightarrow> shortcut_matches_key shortcut key | ControlButton b \<Rightarrow> False)
       controls)
     (dc_physical_controls s)"

definition failsafe_matches :: "DaemonCore \<Rightarrow> bool" where
  "failsafe_matches s \<longleftrightarrow> list_all (shortcut_key_pressed s) (fs_shortcut (cfg_failsafe (dc_config s)))"

definition any_failsafe_key_pressed :: "DaemonCore \<Rightarrow> bool" where
  "any_failsafe_key_pressed s \<longleftrightarrow> list_ex (shortcut_key_pressed s) (fs_shortcut (cfg_failsafe (dc_config s)))"

definition latch_of :: "DaemonCore \<Rightarrow> DeviceId \<Rightarrow> PhysicalControl \<Rightarrow> LatchedDestination option" where
  "latch_of s device control =
     (case map_of (dc_physical_controls s) device of
        None \<Rightarrow> None | Some controls \<Rightarrow> map_of controls control)"

definition remote_target_endpoint ::
  "DaemonCore \<Rightarrow> HostId \<Rightarrow> DeviceRoute \<Rightarrow> u64 \<Rightarrow> SessionEndpoint option" where
  "remote_target_endpoint s target route now =
     (case map_of (dc_endpoint_availability s) target of
        None \<Rightarrow> None
      | Some a \<Rightarrow>
          if routing_should_be_active s now
             \<and> (\<not> dc_handoff_pending s \<or> route \<noteq> FollowActiveHost)
             \<and> accepts_input (ea_state a)
          then Some (ea_endpoint a) else None)"

definition remote_endpoint_available ::
  "DaemonCore \<Rightarrow> SessionEndpoint \<Rightarrow> DeviceRoute \<Rightarrow> u64 \<Rightarrow> bool" where
  "remote_endpoint_available s endpoint route now \<longleftrightarrow>
     remote_target_endpoint s (se_host_id endpoint) route now = Some endpoint"

fun route_resolves_to_target :: "DeviceRoute \<Rightarrow> HostId \<Rightarrow> WorkspaceState \<Rightarrow> bool" where
  "route_resolves_to_target RouteLocal target w \<longleftrightarrow> target = local_host w"
| "route_resolves_to_target FollowActiveHost target w \<longleftrightarrow> target = active_host w \<and> target \<noteq> local_host w"
| "route_resolves_to_target (RouteHost host) target w \<longleftrightarrow> host = target \<and> target \<noteq> local_host w"

definition route_resolves_to_endpoint ::
  "DeviceRoute \<Rightarrow> SessionEndpoint \<Rightarrow> WorkspaceState \<Rightarrow> (HostId, EndpointAvailability) btree_map \<Rightarrow> bool" where
  "route_resolves_to_endpoint route endpoint w availability \<longleftrightarrow>
     route_resolves_to_target route (se_host_id endpoint) w
     \<and> (case map_of availability (se_host_id endpoint) of
          None \<Rightarrow> False | Some current \<Rightarrow> ea_endpoint current = endpoint)"

definition routing_from_config :: "Config \<Rightarrow> (DaemonError, RoutingTable) result" where
  "routing_from_config config =
     map_err (\<lambda>_. DE_InvalidRoutingTable)
       (try_from_routes (map (\<lambda>r. (dr_device_id r, into_device_route (dr_route r))) (device_routes config)))"

definition affected_route_devices :: "Config \<Rightarrow> Config \<Rightarrow> RoutingTable \<Rightarrow> RoutingTable \<Rightarrow> DeviceId set" where
  "affected_route_devices current_config candidate_config current candidate =
     set (filter (\<lambda>device. route_for current device \<noteq> route_for candidate device)
            (map dr_device_id (device_routes current_config) @ map dr_device_id (device_routes candidate_config)))"

definition device_route_is_gated :: "DaemonCore \<Rightarrow> DeviceId \<Rightarrow> bool" where
  "device_route_is_gated s device \<longleftrightarrow>
     device \<in> dc_gated_local_devices s
     \<or> (case dc_pending_route_policy s of None \<Rightarrow> False | Some p \<Rightarrow> device \<in> prp_affected_devices p)"

definition endpoint_has_obligations :: "DaemonCore \<Rightarrow> SessionEndpoint \<Rightarrow> bool" where
  "endpoint_has_obligations s endpoint \<longleftrightarrow>
     list_ex (\<lambda>((e, d, c), h). e = endpoint) (dc_remote_held s)
     \<or> list_ex (\<lambda>entry. ce_endpoint entry = endpoint) (dc_cleanup s)
     \<or> (case dc_pending_remote s of None \<Rightarrow> False | Some p \<Rightarrow> prd_endpoint p = endpoint)"

definition pending_route_has_unresolved_remote :: "DaemonCore \<Rightarrow> bool" where
  "pending_route_has_unresolved_remote s \<longleftrightarrow>
     (case dc_pending_route_policy s of
        None \<Rightarrow> False
      | Some p \<Rightarrow>
          list_ex (\<lambda>((endpoint, device, c), h).
            device \<in> prp_affected_devices p
            \<and> \<not> route_resolves_to_endpoint (route_for (prp_routing p) device) endpoint
                  (dc_workspace s) (dc_endpoint_availability s))
          (dc_remote_held s))"

definition route_policy_update_status ::
  "DaemonCore \<Rightarrow> (RoutePolicyUpdateError, RoutePolicyUpdateStatus) result" where
  "route_policy_update_status s =
     (if dc_pending_route_policy s = None then Inl RP_NotReady
      else Inr (if cleanup_pending s \<or> pending_route_has_unresolved_remote s
                then RP_CleanupPending else RP_ReadyToPersist))"

section \<open>Shared state changes\<close>

definition publish_snapshot :: "u64 \<Rightarrow> DaemonCore \<Rightarrow> DaemonCore" where
  "publish_snapshot now s =
     s\<lparr>dc_snapshot := \<lparr>snap_workspace = dc_workspace s, snap_routing = dc_routing s,
                       snap_peers = dc_peers s, snap_enabled = routing_should_be_active s now,
                       snap_workspace_ready = dc_workspace_ready s,
                       snap_handoff_pending = dc_handoff_pending s\<rparr>\<rparr>"

text \<open>\<open>self.workspace.active_host = self.workspace.local_host\<close>\<close>

definition return_to_local :: "DaemonCore \<Rightarrow> DaemonCore" where
  "return_to_local s = s\<lparr>dc_workspace := (dc_workspace s)\<lparr>active_host := local_host (dc_workspace s)\<rparr>\<rparr>"

definition adjust_latch ::
  "DeviceId \<Rightarrow> PhysicalControl \<Rightarrow> (LatchedDestination \<Rightarrow> LatchedDestination) \<Rightarrow> DaemonCore \<Rightarrow> DaemonCore" where
  "adjust_latch device control f s =
     s\<lparr>dc_physical_controls := bt_adjust device (bt_adjust control f) (dc_physical_controls s)\<rparr>"

definition quarantine_if :: "SessionEndpoint \<Rightarrow> LatchedDestination \<Rightarrow> LatchedDestination" where
  "quarantine_if endpoint latch =
     (case latch of LatchRemote held r \<Rightarrow> if held = endpoint then LatchQuarantined else latch | _ \<Rightarrow> latch)"

definition cleanup_key :: "CleanupEntry \<Rightarrow> held_key" where
  "cleanup_key entry = (ce_endpoint entry, rr_source_device (ce_release entry), ce_control entry)"

definition cleanup_entry :: "u64 \<Rightarrow> held_key \<times> RemoteHeldState \<Rightarrow> CleanupEntry" where
  "cleanup_entry i candidate =
     (case candidate of ((endpoint, device, control), held) \<Rightarrow>
        \<lparr>ce_id = i, ce_endpoint = endpoint, ce_covered_input_sequence = rh_last_input_sequence held,
         ce_release = \<lparr>rr_target = se_host_id endpoint, rr_source_device = device,
                       rr_payload = release_payload control\<rparr>,
         ce_control = control\<rparr>)"

definition push_cleanup :: "held_key \<times> RemoteHeldState \<Rightarrow> DaemonCore \<Rightarrow> DaemonCore" where
  "push_cleanup candidate s =
     (case candidate of ((endpoint, device, control), held) \<Rightarrow>
        adjust_latch device control (quarantine_if endpoint)
          (s\<lparr>dc_next_effect_id := dc_next_effect_id s + 1,
             dc_cleanup := dc_cleanup s @ [cleanup_entry (dc_next_effect_id s) candidate]\<rparr>))"

definition cleanup_candidates ::
  "(DeviceRoute \<Rightarrow> SessionEndpoint \<Rightarrow> DeviceId \<Rightarrow> bool) \<Rightarrow> DaemonCore \<Rightarrow> (held_key \<times> RemoteHeldState) list" where
  "cleanup_candidates affected s =
     filter (\<lambda>((endpoint, device, control), held).
         affected (rh_route held) endpoint device
         \<and> (endpoint, device, control) \<notin> cleanup_key ` set (dc_cleanup s))
       (dc_remote_held s)"

definition queue_remote_cleanup ::
  "(DeviceRoute \<Rightarrow> SessionEndpoint \<Rightarrow> DeviceId \<Rightarrow> bool) \<Rightarrow> DaemonCore \<Rightarrow> unit core_result" where
  "queue_remote_cleanup affected s =
     (let candidates = cleanup_candidates affected s in
      if MAX_PENDING_REMOTE_CLEANUP < length (dc_cleanup s) + length candidates
      then (Inl CoreCapacityExceeded, s)
      else case checked_add_u64 (dc_next_effect_id s) (of_nat (length candidates)) of
          None \<Rightarrow> (Inl IdentifierSpaceExhausted, s)
        | Some _ \<Rightarrow> (Inr (), fold push_cleanup candidates s))"

definition fail_closed :: "u64 \<Rightarrow> DaemonCore \<Rightarrow> unit core_result" where
  "fail_closed now s =
     (let (queued, s') = queue_remote_cleanup (\<lambda>_ _ _. True)
                           ((return_to_local s)\<lparr>dc_workspace_ready := False, dc_handoff_pending := False\<rparr>)
      in (queued, publish_snapshot now s'))"

definition allocate_effect_id :: "DaemonCore \<Rightarrow> u64 core_result" where
  "allocate_effect_id s =
     (case checked_add_u64 (dc_next_effect_id s) 1 of
        None \<Rightarrow> (Inl IdentifierSpaceExhausted, s)
      | Some next \<Rightarrow> (Inr (dc_next_effect_id s), s\<lparr>dc_next_effect_id := next\<rparr>))"

definition activate_failsafe :: "u64 \<Rightarrow> DaemonCore \<Rightarrow> unit core_result" where
  "activate_failsafe now s =
     (let until = saturating_add_u64 now
                    (ucast (fs_routing_suspend_seconds (cfg_failsafe (dc_config s))) * 1000000000);
          (queued, s') = queue_remote_cleanup (\<lambda>_ _ _. True)
                           ((return_to_local s)\<lparr>dc_suspended_until_ns := until, dc_handoff_pending := False\<rparr>);
          s'' = (if is_ok queued then s' else s'\<lparr>dc_workspace_ready := False\<rparr>)
      in (queued, publish_snapshot now s''))"

definition core_new :: "Config \<Rightarrow> WorkspaceState \<Rightarrow> (DaemonError, DaemonCore) result" where
  "core_new config workspace =
     and_then (map_err DE_Config (Config_validate config)) (\<lambda>_.
     if local_host workspace = nil_id \<or> active_host workspace \<noteq> local_host workspace
        \<or> active_display workspace \<noteq> lp_display_id (ws_pointer workspace)
     then Inl DE_InvalidInitialAuthority
     else and_then (routing_from_config config) (\<lambda>routing.
       let peers = fold (\<lambda>p m. bt_insert (ph_host_id p) PS_Disconnected m) (paired_hosts config) [] in
       Inr \<lparr>dc_config = config, dc_workspace = workspace, dc_routing = routing, dc_peers = peers,
            dc_endpoint_availability = [], dc_lifecycle = Running True, dc_suspended_until_ns = 0,
            dc_drain_failsafe_keys = False, dc_physical_controls = [], dc_physical_control_count = 0,
            dc_remote_held = [], dc_cleanup = [], dc_cleanup_in_flight = None,
            dc_pending_remote = None, dc_pending_route_policy = None,
            dc_route_policy_revision = device_route_revision config,
            dc_gated_local_devices = {}, dc_next_effect_id = 1,
            dc_workspace_ready = False, dc_handoff_pending = False,
            dc_snapshot = \<lparr>snap_workspace = workspace, snap_routing = routing, snap_peers = peers,
                           snap_enabled = False, snap_workspace_ready = False,
                           snap_handoff_pending = False\<rparr>\<rparr>))"

end
