(* ===== verification/DaemonCapture.thy ===== *)
theory DaemonCapture
  imports DaemonState
begin

text \<open>
  The capture path of the daemon core: preparing one captured record, and confirming or failing
  the remote effect it may yield.  An effect is affine in the source; here an operation accepts any
  effect value, so the properties hold for stale and forged ones too.
\<close>

section \<open>Preparing a captured record\<close>

definition ensure_physical_capacity :: "DeviceId \<Rightarrow> DaemonCore \<Rightarrow> unit core_result" where
  "ensure_physical_capacity device s =
     (let existing = map_of (dc_physical_controls s) device in
      if existing = None \<and> MAX_PHYSICAL_HELD_DEVICES \<le> length (dc_physical_controls s)
         \<or> (case existing of None \<Rightarrow> False | Some controls \<Rightarrow> MAX_PHYSICAL_HELD_PER_DEVICE \<le> length controls)
         \<or> MAX_PHYSICAL_HELD_TOTAL \<le> dc_physical_control_count s
      then (Inl CoreCapacityExceeded, (return_to_local s)\<lparr>dc_workspace_ready := False\<rparr>)
      else (Inr (), s))"

text \<open>\<open>entry(device).or_default().insert(control, Local)\<close> and the count.\<close>

definition insert_control :: "DeviceId \<Rightarrow> PhysicalControl \<Rightarrow> DaemonCore \<Rightarrow> DaemonCore" where
  "insert_control device control s =
     (let controls = (case map_of (dc_physical_controls s) device of None \<Rightarrow> [] | Some c \<Rightarrow> c) in
      s\<lparr>dc_physical_controls := bt_insert device (bt_insert control LatchLocal controls) (dc_physical_controls s),
        dc_physical_control_count := dc_physical_control_count s + 1\<rparr>)"

text \<open>Removing a control drops the device entry when it was the last one.\<close>

definition remove_control :: "DeviceId \<Rightarrow> PhysicalControl \<Rightarrow> DaemonCore \<Rightarrow> DaemonCore" where
  "remove_control device control s =
     (case map_of (dc_physical_controls s) device of
        None \<Rightarrow> s
      | Some controls \<Rightarrow>
          (case map_of controls control of
             None \<Rightarrow> s
           | Some latch \<Rightarrow>
               let rest = AList.delete control controls in
               s\<lparr>dc_physical_controls :=
                   (if rest = [] then AList.delete device (dc_physical_controls s)
                    else bt_insert device rest (dc_physical_controls s)),
                 dc_physical_control_count := dc_physical_control_count s - 1\<rparr>))"

type_synonym tracked =
  "PhysicalControl option \<times> PhysicalTransition option \<times> LatchedDestination option"

definition track_control :: "DeviceId \<Rightarrow> InputPayload \<Rightarrow> u64 \<Rightarrow> DaemonCore \<Rightarrow> tracked core_result" where
  "track_control device payload now s =
     (case control_from_payload payload of
        None \<Rightarrow> (Inr (None, None, None), s)
      | Some (control, transition) \<Rightarrow>
          let previous = latch_of s device control in
          (case transition of
             Press \<Rightarrow>
               if previous = None then
                 (case ensure_physical_capacity device s of
                    (Inl e, s') \<Rightarrow> (Inl e, snd (fail_closed now s'))
                  | (Inr _, s') \<Rightarrow> (Inr (Some control, Some Press, None), insert_control device control s'))
               else (Inr (Some control, Some Press, previous), s)
           | Repeat \<Rightarrow> (Inr (Some control, Some Repeat, previous), s)
           | Release \<Rightarrow> (Inr (Some control, Some Release, previous), remove_control device control s)))"

definition prepare_remote_effect ::
  "InputEvent \<Rightarrow> SessionEndpoint \<Rightarrow> tracked \<Rightarrow> u64 \<Rightarrow> DaemonCore \<Rightarrow> CaptureDecision core_result" where
  "prepare_remote_effect event endpoint t now s =
     (case t of (control, transition, previous_latch) \<Rightarrow>
      if transition = Some Press \<and> control \<noteq> None \<and> previous_latch = None
         \<and> MAX_REMOTE_HELD_TOTAL \<le> length (dc_remote_held s)
      then (Inl CoreCapacityExceeded, snd (fail_closed now s))
      else case allocate_effect_id s of
          (Inl _, s') \<Rightarrow>
            (let (cleaned, s'') = fail_closed now s';
                 outcome = (case previous_latch of Some (LatchRemote _ _) \<Rightarrow> outcome_gated_suppressed
                            | _ \<Rightarrow> outcome_local False RS_Gated)
             in (Inr (DecideFault outcome
                        (case cleaned of Inl e \<Rightarrow> e | Inr _ \<Rightarrow> IdentifierSpaceExhausted)), s''))
        | (Inr i, s') \<Rightarrow>
            (Inr (DecideRemote \<lparr>rie_decision_id = i, rie_endpoint = endpoint, rie_event = event\<rparr>),
             s'\<lparr>dc_pending_remote := Some
                 \<lparr>prd_id = i, prd_device = ev_source_device event, prd_control = control,
                  prd_transition = transition, prd_previous_latch = previous_latch,
                  prd_endpoint = endpoint\<rparr>\<rparr>))"

text \<open>The part after the latch is known to be absent or freshly local.\<close>

definition route_unlatched ::
  "InputEvent \<Rightarrow> tracked \<Rightarrow> u64 \<Rightarrow> DaemonCore \<Rightarrow> CaptureDecision core_result" where
  "route_unlatched event t now s =
     (let device = ev_source_device event; route = route_for (dc_routing s) device in
      case t of (control, transition, previous_latch) \<Rightarrow>
      if device_route_is_gated s device
      then (Inr (DecideLocal (outcome_local False RS_Gated)), s)
      else if dc_handoff_pending s \<and> route = FollowActiveHost
      then (Inr (DecideInert outcome_inert),
            case control of
              Some c \<Rightarrow> if transition = Some Press
                        then adjust_latch device c (\<lambda>_. LatchQuarantined) s else s
            | None \<Rightarrow> s)
      else case destination (dc_routing s) event (dc_workspace s) of
          LocalDest \<Rightarrow> (Inr (DecideLocal (outcome_local False RS_Local)), s)
        | RemoteDest target \<Rightarrow>
            (case remote_target_endpoint s target route now of
               None \<Rightarrow> (Inr (DecideLocal (outcome_local False RS_Gated)), s)
             | Some endpoint \<Rightarrow> prepare_remote_effect event endpoint t now s))"

definition route_tracked ::
  "InputEvent \<Rightarrow> tracked \<Rightarrow> u64 \<Rightarrow> DaemonCore \<Rightarrow> CaptureDecision core_result" where
  "route_tracked event t now s =
     (case t of (control, transition, previous_latch) \<Rightarrow>
      if (transition = Some Repeat \<or> transition = Some Release) \<and> previous_latch = None
      then (Inr (DecideLocal (outcome_local False RS_Local)), s)
      else
        let latch = (case previous_latch of
                       Some l \<Rightarrow> Some l
                     | None \<Rightarrow> (case control of None \<Rightarrow> None
                                | Some c \<Rightarrow> latch_of s (ev_source_device event) c)) in
        (case latch of
           Some LatchQuarantined \<Rightarrow> (Inr (DecideInert outcome_inert), s)
         | Some (LatchRemote endpoint latched_route) \<Rightarrow>
             if \<not> remote_endpoint_available s endpoint latched_route now
             then (case fail_closed now s of
                     (Inr _, s') \<Rightarrow> (Inr (DecideInert outcome_gated_suppressed), s')
                   | (Inl e, s') \<Rightarrow> (Inr (DecideFault outcome_gated_suppressed e), s'))
             else prepare_remote_effect event endpoint t now s
         | Some LatchLocal \<Rightarrow>
             if previous_latch \<noteq> None
             then (Inr (DecideLocal (outcome_local False RS_Local)), s)
             else route_unlatched event t now s
         | None \<Rightarrow> route_unlatched event t now s))"

definition route_after_tracking ::
  "InputEvent \<Rightarrow> tracked \<Rightarrow> u64 \<Rightarrow> DaemonCore \<Rightarrow> CaptureDecision core_result" where
  "route_after_tracking event t now s =
     (if failsafe_matches s \<and> \<not> dc_drain_failsafe_keys s
      then (case activate_failsafe now (s\<lparr>dc_drain_failsafe_keys := True\<rparr>) of
              (Inr _, s') \<Rightarrow> (Inr (DecideLocal (outcome_local True RS_Gated)), s')
            | (Inl e, s') \<Rightarrow> (Inr (DecideFault (outcome_local True RS_Gated) e), s'))
      else if dc_drain_failsafe_keys s
      then (Inr (DecideLocal (outcome_local False RS_Gated)),
            publish_snapshot now (if any_failsafe_key_pressed s then s else s\<lparr>dc_drain_failsafe_keys := False\<rparr>))
      else route_tracked event t now s)"

text \<open>Records that never enter routing: injected or foreign ones, and ones without a usable payload.\<close>

definition bypasses_routing :: "DaemonCore \<Rightarrow> CapturedInput \<Rightarrow> bool" where
  "bypasses_routing s captured \<longleftrightarrow>
     ci_classification captured \<noteq> Physical
     \<or> ev_source_host (ci_event captured) \<noteq> local_host (dc_workspace s)
     \<or> ev_source_device (ci_event captured) = nil_id
     \<or> \<not> payload_is_finite (ev_payload (ci_event captured))"

definition prepare_captured :: "CapturedInput \<Rightarrow> u64 \<Rightarrow> DaemonCore \<Rightarrow> CaptureDecision core_result" where
  "prepare_captured captured now s =
     (if dc_pending_remote s \<noteq> None then (Inl CoreUnavailable, s)
      else if bypasses_routing s captured
      then (Inr (DecideLocal (outcome_local False RS_Local)), s)
      else case track_control (ev_source_device (ci_event captured)) (ev_payload (ci_event captured)) now s of
          (Inl e, s') \<Rightarrow> (Inl e, s')
        | (Inr t, s') \<Rightarrow> route_after_tracking (ci_event captured) t now s')"

section \<open>Confirming or failing a prepared effect\<close>

definition take_matching_remote :: "u64 \<Rightarrow> u64 \<Rightarrow> DaemonCore \<Rightarrow> PendingRemoteDecision core_result" where
  "take_matching_remote decision now s =
     (case dc_pending_remote s of
        Some p \<Rightarrow>
          if prd_id p = decision then (Inr p, s\<lparr>dc_pending_remote := None\<rparr>)
          else (Inl StaleDecision,
                publish_snapshot now ((return_to_local s)\<lparr>dc_workspace_ready := False, dc_handoff_pending := False\<rparr>))
      | None \<Rightarrow> (Inl StaleDecision,
                publish_snapshot now ((return_to_local s)\<lparr>dc_workspace_ready := False, dc_handoff_pending := False\<rparr>)))"

definition confirm_route :: "DaemonCore \<Rightarrow> PendingRemoteDecision \<Rightarrow> DeviceRoute" where
  "confirm_route s p =
     (case prd_previous_latch p of
        Some (LatchRemote e route) \<Rightarrow> route
      | _ \<Rightarrow> route_for (dc_routing s) (prd_device p))"

definition confirm_remote_input ::
  "RemoteInputEffect \<Rightarrow> u64 \<Rightarrow> u64 \<Rightarrow> DaemonCore \<Rightarrow> CaptureOutcome core_result" where
  "confirm_remote_input effect accepted now s =
     (case take_matching_remote (rie_decision_id effect) now s of
        (Inl e, s') \<Rightarrow> (Inl e, s')
      | (Inr p, s') \<Rightarrow>
          (case (prd_control p, prd_transition p) of
             (Some control, Some Press) \<Rightarrow>
               let key = (prd_endpoint p, prd_device p, control) in
               if \<not> contains_key (dc_remote_held s') key
                  \<and> MAX_REMOTE_HELD_TOTAL \<le> length (dc_remote_held s')
               then (case fail_closed now s' of
                       (Inl e, s'') \<Rightarrow> (Inl e, s'')
                     | (Inr _, s'') \<Rightarrow> (Inl CoreCapacityExceeded, s''))
               else
                 let route = confirm_route s' p in
                 (Inr outcome_remote_queued,
                  publish_snapshot now
                    (adjust_latch (prd_device p) control (\<lambda>_. LatchRemote (prd_endpoint p) route)
                      (s'\<lparr>dc_remote_held :=
                           bt_insert key \<lparr>rh_route = route, rh_last_input_sequence = accepted\<rparr>
                             (dc_remote_held s')\<rparr>)))
           | (Some control, Some Release) \<Rightarrow>
               (Inr outcome_remote_queued,
                publish_snapshot now (s'\<lparr>dc_remote_held :=
                  AList.delete (prd_endpoint p, prd_device p, control) (dc_remote_held s')\<rparr>))
           | (Some control, Some Repeat) \<Rightarrow>
               let key = (prd_endpoint p, prd_device p, control) in
               if \<not> contains_key (dc_remote_held s') key
               then (Inl StaleDecision, snd (fail_closed now s'))
               else (Inr outcome_remote_queued,
                     publish_snapshot now (s'\<lparr>dc_remote_held :=
                       bt_adjust key (\<lambda>h. h\<lparr>rh_last_input_sequence := accepted\<rparr>) (dc_remote_held s')\<rparr>))
           | _ \<Rightarrow> (Inr outcome_remote_queued, publish_snapshot now s')))"

definition fail_remote_input :: "RemoteInputEffect \<Rightarrow> u64 \<Rightarrow> DaemonCore \<Rightarrow> CaptureOutcome core_result" where
  "fail_remote_input effect now s =
     (case take_matching_remote (rie_decision_id effect) now s of
        (Inl e, s') \<Rightarrow> (Inl e, s')
      | (Inr p, s') \<Rightarrow>
          let s'' = (if prd_transition p = Some Press \<and> prd_previous_latch p = None
                     then (case prd_control p of
                             Some control \<Rightarrow> adjust_latch (prd_device p) control (\<lambda>_. LatchLocal) s'
                           | None \<Rightarrow> s')
                     else s')
          in (Inr (case prd_previous_latch p of
                     Some (LatchRemote _ _) \<Rightarrow> outcome_gated_suppressed
                   | _ \<Rightarrow> outcome_local False RS_Gated),
              snd (fail_closed now s'')))"

text \<open>
  The conservative entry point: it reports a disposition and never leaves a remote effect pending.
  Its list of actions is always empty and is left out.
\<close>

definition process_captured :: "CapturedInput \<Rightarrow> u64 \<Rightarrow> DaemonCore \<Rightarrow> (CaptureDisposition \<times> bool) \<times> DaemonCore" where
  "process_captured captured now s =
     (let (outcome, s') =
        (case prepare_captured captured now s of
           (Inr (DecideLocal out), s1) \<Rightarrow> (out, s1)
         | (Inr (DecideInert out), s1) \<Rightarrow> (out, s1)
         | (Inr (DecideFault out e), s1) \<Rightarrow> (out, s1)
         | (Inr (DecideRemote effect), s1) \<Rightarrow>
             (case fail_remote_input effect now s1 of
                (Inr out, s2) \<Rightarrow> (out, s2)
              | (Inl e, s2) \<Rightarrow> (outcome_local False RS_Gated, s2))
         | (Inl e, s1) \<Rightarrow> (outcome_local False RS_Gated, s1))
      in ((co_disposition outcome, co_failsafe_activated outcome), s'))"

end
