(* ===== verification/DaemonControl.thy ===== *)
theory DaemonControl
  imports DaemonCapture
begin

text \<open>
  The control operations of the daemon core: timers, configuration and staged route policies, device
  gates, workspace and pointer hand-off, peers and endpoints, lifecycle, and the cleanup ledger.
\<close>

section \<open>Time\<close>

definition tick :: "u64 \<Rightarrow> DaemonCore \<Rightarrow> bool \<times> DaemonCore" where
  "tick now s =
     (let s' = (if dc_drain_failsafe_keys s \<and> \<not> any_failsafe_key_pressed s
                then s\<lparr>dc_drain_failsafe_keys := False\<rparr> else s)
      in if snap_enabled (dc_snapshot s') = routing_should_be_active s' now then (False, s')
         else (True, publish_snapshot now s'))"

section \<open>Staged route policies\<close>

definition pending_affected ::
  "PendingRoutePolicy \<Rightarrow> DaemonCore \<Rightarrow> DeviceRoute \<Rightarrow> SessionEndpoint \<Rightarrow> DeviceId \<Rightarrow> bool" where
  "pending_affected p s route endpoint device \<longleftrightarrow>
     device \<in> prp_affected_devices p
     \<and> \<not> route_resolves_to_endpoint (route_for (prp_routing p) device) endpoint
           (dc_workspace s) (dc_endpoint_availability s)"

definition prepare_route_policy_update ::
  "Config \<Rightarrow> u64 \<Rightarrow> u64 \<Rightarrow> DaemonCore \<Rightarrow>
   (RoutePolicyUpdateError, RoutePolicyUpdateStatus) result \<times> DaemonCore" where
  "prepare_route_policy_update candidate expected now s =
     (if dc_pending_remote s \<noteq> None then (Inl RP_CapturePending, s)
      else if dc_handoff_pending s then (Inl RP_CleanupUnavailable, s)
      else case dc_pending_route_policy s of
        Some p \<Rightarrow>
          if expected = dc_route_policy_revision s
             \<and> Config_eq (candidate\<lparr>device_route_revision := prp_next_revision p\<rparr>) (prp_config p)
          then (route_policy_update_status s, s)
          else if expected \<noteq> dc_route_policy_revision s then (Inl RP_StaleRevision, s)
          else (Inl RP_ConflictingUpdate, s)
      | None \<Rightarrow>
          if expected \<noteq> dc_route_policy_revision s then (Inl RP_StaleRevision, s)
          else case checked_add_u64 (dc_route_policy_revision s) 1 of
            None \<Rightarrow> (Inl RP_RevisionExhausted, s)
          | Some next \<Rightarrow>
              let candidate' = candidate\<lparr>device_route_revision := next\<rparr> in
              if \<not> is_ok (Config_validate candidate') then (Inl RP_InvalidCandidate, s)
              else case routing_from_config candidate' of
                Inl _ \<Rightarrow> (Inl RP_InvalidCandidate, s)
              | Inr routing \<Rightarrow>
                  if \<not> Config_eq candidate'
                         ((dc_config s)\<lparr>device_routes := device_routes candidate', device_route_revision := next\<rparr>)
                  then (Inl RP_InvalidCandidate, s)
                  else if cleanup_pending s then (Inl RP_CleanupUnavailable, s)
                  else
                    let p = \<lparr>prp_next_revision = next, prp_config = candidate', prp_routing = routing,
                             prp_affected_devices =
                               affected_route_devices (dc_config s) candidate' (dc_routing s) routing\<rparr> in
                    (case queue_remote_cleanup (pending_affected p s) s of
                       (Inl _, s') \<Rightarrow> (Inl RP_CleanupUnavailable, s')
                     | (Inr _, s') \<Rightarrow>
                         let s'' = publish_snapshot now (s'\<lparr>dc_pending_route_policy := Some p\<rparr>)
                         in (route_policy_update_status s'', s'')))"

definition retry_route_policy_update ::
  "u64 \<Rightarrow> DaemonCore \<Rightarrow> (RoutePolicyUpdateError, RoutePolicyUpdateStatus) result \<times> DaemonCore" where
  "retry_route_policy_update now s =
     (if dc_pending_remote s \<noteq> None then (Inl RP_CapturePending, s)
      else case dc_pending_route_policy s of
        None \<Rightarrow> (Inl RP_NotReady, s)
      | Some p \<Rightarrow>
          (case queue_remote_cleanup (pending_affected p s) s of
             (Inl _, s') \<Rightarrow> (Inl RP_CleanupUnavailable, s')
           | (Inr _, s') \<Rightarrow> let s'' = publish_snapshot now s' in (route_policy_update_status s'', s'')))"

definition staged_route_policy :: "DaemonCore \<Rightarrow> PendingRoutePolicy option" where
  "staged_route_policy s =
     (case dc_pending_route_policy s of
        None \<Rightarrow> None
      | Some p \<Rightarrow> if \<not> cleanup_pending s \<and> \<not> pending_route_has_unresolved_remote s then Some p else None)"

definition reroute_latch :: "DeviceRoute \<Rightarrow> LatchedDestination \<Rightarrow> LatchedDestination" where
  "reroute_latch route latch =
     (case latch of LatchRemote e r \<Rightarrow> LatchRemote e route | _ \<Rightarrow> latch)"

definition commit_route_policy_update ::
  "u64 \<Rightarrow> u64 \<Rightarrow> DaemonCore \<Rightarrow> (RoutePolicyUpdateError, u64) result \<times> DaemonCore" where
  "commit_route_policy_update next now s =
     (if dc_pending_remote s \<noteq> None then (Inl RP_CapturePending, s)
      else case route_policy_update_status s of
        Inl e \<Rightarrow> (Inl e, s)
      | Inr status \<Rightarrow>
          if status \<noteq> RP_ReadyToPersist then (Inl RP_NotReady, s)
          else case dc_pending_route_policy s of
            None \<Rightarrow> (Inl RP_NotReady, s)
          | Some p \<Rightarrow>
              if prp_next_revision p \<noteq> next then (Inl RP_ConflictingUpdate, s)
              else
                let held = map (\<lambda>((e, d, c), h). ((e, d, c), h\<lparr>rh_route := route_for (prp_routing p) d\<rparr>))
                             (dc_remote_held s);
                    controls = map (\<lambda>(d, cs). (d, map (\<lambda>(c, l). (c, reroute_latch (route_for (prp_routing p) d) l)) cs))
                                 (dc_physical_controls s)
                in (Inr next,
                    publish_snapshot now (s\<lparr>dc_remote_held := held, dc_physical_controls := controls,
                                   dc_config := prp_config p, dc_routing := prp_routing p,
                                   dc_route_policy_revision := next, dc_pending_route_policy := None\<rparr>)))"

definition abort_route_policy_update ::
  "u64 \<Rightarrow> u64 \<Rightarrow> DaemonCore \<Rightarrow> (RoutePolicyUpdateError, unit) result \<times> DaemonCore" where
  "abort_route_policy_update next now s =
     (case dc_pending_route_policy s of
        None \<Rightarrow> (Inl RP_NotReady, s)
      | Some p \<Rightarrow>
          if prp_next_revision p \<noteq> next then (Inl RP_ConflictingUpdate, s)
          else (Inr (), publish_snapshot now (s\<lparr>dc_pending_route_policy := None\<rparr>)))"

section \<open>Configuration\<close>

definition is_paired :: "Config \<Rightarrow> SessionEndpoint \<Rightarrow> bool" where
  "is_paired config endpoint \<longleftrightarrow>
     list_ex (\<lambda>peer. ph_host_id peer = se_host_id endpoint \<and> ph_peer_id peer = se_peer_id endpoint)
       (paired_hosts config)"

definition sync_peers :: "Config \<Rightarrow> (HostId, CorePeerState) btree_map \<Rightarrow> (HostId, CorePeerState) btree_map" where
  "sync_peers config peers =
     fold (\<lambda>peer m. if contains_key m (ph_host_id peer) then m else bt_insert (ph_host_id peer) PS_Disconnected m)
       (paired_hosts config)
       (filter (\<lambda>(host, st). list_ex (\<lambda>peer. ph_host_id peer = host) (paired_hosts config)) peers)"

definition apply_same_routes ::
  "Config \<Rightarrow> u64 \<Rightarrow> DaemonCore \<Rightarrow> (DaemonError, unit) result \<times> DaemonCore" where
  "apply_same_routes config now s =
     (if dc_pending_remote s \<noteq> None then (Inl DE_CapturePending, s)
      else if dc_pending_route_policy s \<noteq> None then (Inl DE_CleanupPending, s)
      else case Config_validate config of
        Inl e \<Rightarrow> (Inl (DE_Config e), s)
      | Inr _ \<Rightarrow>
        (case routing_from_config config of
           Inl e \<Rightarrow> (Inl e, s)
         | Inr routing \<Rightarrow>
           if cleanup_pending s then (Inl DE_CleanupPending, s)
           else case queue_remote_cleanup (\<lambda>_ endpoint _. \<not> is_paired config endpoint) s of
               (Inl _, s') \<Rightarrow> (Inl DE_CleanupPending, s')
             | (Inr _, s') \<Rightarrow>
                 if cleanup_pending s' then (Inl DE_CleanupPending, publish_snapshot now s')
                 else
                   let peers = sync_peers config (dc_peers s');
                       w = dc_workspace s';
                       s1 = s'\<lparr>dc_peers := peers\<rparr>;
                       s2 = (if \<not> contains_key peers (active_host w) \<and> active_host w \<noteq> local_host w
                             then (return_to_local s1)\<lparr>dc_workspace_ready := False, dc_handoff_pending := False\<rparr>
                             else s1)
                   in (Inr (), publish_snapshot now (s2\<lparr>dc_config := config, dc_routing := routing\<rparr>))))"

fun policy_error :: "RoutePolicyUpdateError \<Rightarrow> DaemonError" where
  "policy_error RP_CapturePending = DE_CapturePending"
| "policy_error RP_CleanupUnavailable = DE_CleanupPending"
| "policy_error RP_NotReady = DE_CleanupPending"
| "policy_error RP_InvalidCandidate = DE_InvalidRoutingTable"
| "policy_error RP_StaleRevision = DE_InvalidRoutingTable"
| "policy_error RP_ConflictingUpdate = DE_InvalidRoutingTable"
| "policy_error RP_RevisionExhausted = DE_InvalidRoutingTable"

definition update_config :: "Config \<Rightarrow> u64 \<Rightarrow> DaemonCore \<Rightarrow> (DaemonError, unit) result \<times> DaemonCore" where
  "update_config config now s =
     (if device_routes config = device_routes (dc_config s)
         \<and> device_route_revision config = dc_route_policy_revision s
      then apply_same_routes config now s
      else case prepare_route_policy_update config (dc_route_policy_revision s) now s of
          (Inl e, s') \<Rightarrow> (Inl (policy_error e), s')
        | (Inr RP_CleanupPending, s') \<Rightarrow> (Inl DE_CleanupPending, s')
        | (Inr RP_ReadyToPersist, s') \<Rightarrow>
            (case staged_route_policy s' of
               None \<Rightarrow> (Inl DE_InvalidRoutingTable, s')
             | Some p \<Rightarrow>
                 (case commit_route_policy_update (prp_next_revision p) now s' of
                    (Inl _, s'') \<Rightarrow> (Inl DE_InvalidRoutingTable, s'')
                  | (Inr _, s'') \<Rightarrow> (Inr (), s''))))"

section \<open>Device gates\<close>

definition gate_local_devices :: "DeviceId list \<Rightarrow> u64 \<Rightarrow> DaemonCore \<Rightarrow> unit core_result" where
  "gate_local_devices devices now s =
     (if dc_pending_remote s \<noteq> None \<or> list_ex (\<lambda>d. d = nil_id) devices
      then (Inl CoreUnavailable, s)
      else
        let requested = set devices;
            added = card {d \<in> requested. d \<notin> dc_gated_local_devices s} in
        if MAX_GATED_LOCAL_DEVICES < card (dc_gated_local_devices s) + added
        then (Inl CoreCapacityExceeded, s)
        else
          let (queued, s') = queue_remote_cleanup (\<lambda>_ _ held_device. held_device \<in> requested)
                (s\<lparr>dc_gated_local_devices := dc_gated_local_devices s \<union> requested\<rparr>)
          in (queued, publish_snapshot now s'))"

definition restore_local_device :: "DeviceId \<Rightarrow> u64 \<Rightarrow> DaemonCore \<Rightarrow> unit core_result" where
  "restore_local_device device now s =
     (if list_ex (\<lambda>((e, d, c), h). d = device) (dc_remote_held s)
         \<or> list_ex (\<lambda>entry. rr_source_device (ce_release entry) = device) (dc_cleanup s)
      then (Inl CoreCleanupPending, s)
      else
        let s' = (case map_of (dc_physical_controls s) device of
                    None \<Rightarrow> s
                  | Some controls \<Rightarrow>
                      s\<lparr>dc_physical_controls := AList.delete device (dc_physical_controls s),
                        dc_physical_control_count := dc_physical_control_count s - length controls\<rparr>)
        in (Inr (), publish_snapshot now (s'\<lparr>dc_gated_local_devices := dc_gated_local_devices s' - {device}\<rparr>)))"

section \<open>Workspace and pointer hand-off\<close>

definition follows_active :: "DeviceRoute \<Rightarrow> SessionEndpoint \<Rightarrow> DeviceId \<Rightarrow> bool" where
  "follows_active route endpoint device \<longleftrightarrow> route = FollowActiveHost"

definition update_workspace ::
  "WorkspaceState \<Rightarrow> u64 \<Rightarrow> DaemonCore \<Rightarrow> (DaemonError, unit) result \<times> DaemonCore" where
  "update_workspace workspace now s =
     (if dc_pending_remote s \<noteq> None then (Inl DE_CapturePending, s)
      else if dc_pending_route_policy s \<noteq> None then (Inl DE_CleanupPending, s)
      else if local_host workspace \<noteq> local_host (dc_workspace s)
      then (Inl (DE_LocalHostChanged (local_host (dc_workspace s)) (local_host workspace)), s)
      else if active_display workspace \<noteq> lp_display_id (ws_pointer workspace)
      then (Inl DE_InvalidInitialAuthority, s)
      else if active_host workspace \<noteq> active_host (dc_workspace s)
      then (case queue_remote_cleanup follows_active s of
              (Inl _, s') \<Rightarrow> (Inl DE_CleanupPending, s')
            | (Inr _, s') \<Rightarrow>
                if cleanup_pending s' then (Inl DE_CleanupPending, publish_snapshot now s')
                else (Inr (), publish_snapshot now (s'\<lparr>dc_workspace := workspace\<rparr>)))
      else (Inr (), publish_snapshot now (s\<lparr>dc_workspace := workspace\<rparr>)))"

definition begin_pointer_handoff :: "u64 \<Rightarrow> DaemonCore \<Rightarrow> unit core_result" where
  "begin_pointer_handoff now s =
     (if dc_pending_remote s \<noteq> None \<or> dc_pending_route_policy s \<noteq> None then (Inl CoreUnavailable, s)
      else
        let (queued, s') = queue_remote_cleanup follows_active (s\<lparr>dc_handoff_pending := True\<rparr>)
        in (queued, publish_snapshot now s'))"

definition cancel_pointer_handoff :: "u64 \<Rightarrow> DaemonCore \<Rightarrow> DaemonCore" where
  "cancel_pointer_handoff now s = publish_snapshot now ((return_to_local s)\<lparr>dc_handoff_pending := False\<rparr>)"

definition abort_destination_handoff_barrier :: "u64 \<Rightarrow> DaemonCore \<Rightarrow> DaemonCore" where
  "abort_destination_handoff_barrier now s = publish_snapshot now (s\<lparr>dc_handoff_pending := False\<rparr>)"

definition finish_pointer_handoff ::
  "WorkspaceState \<Rightarrow> u64 \<Rightarrow> DaemonCore \<Rightarrow> (DaemonError, unit) result \<times> DaemonCore" where
  "finish_pointer_handoff workspace now s =
     (if dc_pending_remote s \<noteq> None then (Inl DE_CapturePending, s)
      else if dc_pending_route_policy s \<noteq> None then (Inl DE_CleanupPending, s)
      else if cleanup_pending s then (Inl DE_CleanupPending, s)
      else case update_workspace workspace now s of
          (Inl e, s') \<Rightarrow> (Inl e, s')
        | (Inr _, s') \<Rightarrow> (Inr (), publish_snapshot now (s'\<lparr>dc_handoff_pending := False\<rparr>)))"

section \<open>Peers and endpoints\<close>

definition set_peer_state :: "HostId \<Rightarrow> CorePeerState \<Rightarrow> u64 \<Rightarrow> DaemonCore \<Rightarrow> unit core_result" where
  "set_peer_state host st now s =
     (if dc_pending_remote s \<noteq> None then (Inl CoreUnavailable, s)
      else if \<not> contains_key (dc_peers s) host then (Inr (), s)
      else if contains_key (dc_endpoint_availability s) host then (Inl CoreUnavailable, s)
      else (Inr (), publish_snapshot now (s\<lparr>dc_peers := bt_insert host st (dc_peers s)\<rparr>)))"

definition install_session_endpoint :: "SessionEndpoint \<Rightarrow> u64 \<Rightarrow> DaemonCore \<Rightarrow> unit core_result" where
  "install_session_endpoint endpoint now s =
     (if dc_pending_remote s \<noteq> None \<or> \<not> is_paired (dc_config s) endpoint then (Inl CoreUnavailable, s)
      else if (case map_of (dc_endpoint_availability s) (se_host_id endpoint) of
                 None \<Rightarrow> False | Some current \<Rightarrow> ea_endpoint current \<noteq> endpoint)
      then (Inl CoreUnavailable, s)
      else (Inr (), publish_snapshot now
             (s\<lparr>dc_endpoint_availability :=
                  bt_insert (se_host_id endpoint) \<lparr>ea_endpoint = endpoint, ea_state = PS_Connected\<rparr>
                    (dc_endpoint_availability s),
                dc_peers := bt_insert (se_host_id endpoint) PS_Connected (dc_peers s)\<rparr>)))"

definition is_current_endpoint :: "DaemonCore \<Rightarrow> SessionEndpoint \<Rightarrow> bool" where
  "is_current_endpoint s endpoint \<longleftrightarrow>
     (case map_of (dc_endpoint_availability s) (se_host_id endpoint) of
        None \<Rightarrow> False | Some current \<Rightarrow> ea_endpoint current = endpoint)"

definition return_if_active :: "HostId \<Rightarrow> DaemonCore \<Rightarrow> DaemonCore" where
  "return_if_active host s = (if active_host (dc_workspace s) = host then return_to_local s else s)"

definition set_endpoint_state :: "SessionEndpoint \<Rightarrow> CorePeerState \<Rightarrow> u64 \<Rightarrow> DaemonCore \<Rightarrow> unit core_result" where
  "set_endpoint_state endpoint st now s =
     (if dc_pending_remote s \<noteq> None \<or> \<not> is_current_endpoint s endpoint then (Inl CoreUnavailable, s)
      else
        let s1 = s\<lparr>dc_endpoint_availability :=
                     bt_adjust (se_host_id endpoint) (\<lambda>a. a\<lparr>ea_state := st\<rparr>) (dc_endpoint_availability s),
                   dc_peers := bt_insert (se_host_id endpoint) st (dc_peers s)\<rparr> in
        if accepts_input st then (Inr (), publish_snapshot now s1)
        else
          let (queued, s2) = queue_remote_cleanup (\<lambda>_ held_endpoint _. held_endpoint = endpoint)
                ((return_if_active (se_host_id endpoint) s1)
                   \<lparr>dc_handoff_pending := False, dc_workspace_ready := False\<rparr>)
          in (queued, publish_snapshot now s2))"

definition retire_session_endpoint :: "SessionEndpoint \<Rightarrow> u64 \<Rightarrow> DaemonCore \<Rightarrow> unit core_result" where
  "retire_session_endpoint endpoint now s =
     (if dc_pending_remote s \<noteq> None
         \<or> (case map_of (dc_endpoint_availability s) (se_host_id endpoint) of
              None \<Rightarrow> True
            | Some current \<Rightarrow> ea_endpoint current \<noteq> endpoint \<or> accepts_input (ea_state current))
         \<or> endpoint_has_obligations s endpoint
      then (Inl CoreCleanupPending, s)
      else (Inr (), publish_snapshot now
             ((return_if_active (se_host_id endpoint)
                (s\<lparr>dc_endpoint_availability := AList.delete (se_host_id endpoint) (dc_endpoint_availability s),
                   dc_peers := bt_insert (se_host_id endpoint) PS_Disconnected (dc_peers s)\<rparr>))
               \<lparr>dc_workspace_ready := False, dc_handoff_pending := False\<rparr>)))"

section \<open>Lifecycle\<close>

fun request_routing :: "bool \<Rightarrow> LifecycleState \<Rightarrow> LifecycleState" where
  "request_routing b (Running _) = Running b"
| "request_routing b ShuttingDown = ShuttingDown"

definition core_enable :: "u64 \<Rightarrow> DaemonCore \<Rightarrow> DaemonCore" where
  "core_enable now s =
     (case dc_lifecycle s of
        Running _ \<Rightarrow> publish_snapshot now (s\<lparr>dc_lifecycle := Running True\<rparr>)
      | ShuttingDown \<Rightarrow> s)"

definition stop_and_queue :: "LifecycleState \<Rightarrow> u64 \<Rightarrow> DaemonCore \<Rightarrow> unit core_result" where
  "stop_and_queue lifecycle now s =
     (let (queued, s') = queue_remote_cleanup (\<lambda>_ _ _. True)
            ((return_to_local s)\<lparr>dc_lifecycle := lifecycle, dc_handoff_pending := False\<rparr>)
      in (queued, publish_snapshot now s'))"

definition core_disable :: "u64 \<Rightarrow> DaemonCore \<Rightarrow> unit core_result" where
  "core_disable now s =
     (if dc_pending_remote s \<noteq> None then (Inl CoreUnavailable, s)
      else stop_and_queue (request_routing False (dc_lifecycle s)) now s)"

definition trigger_emergency :: "u64 \<Rightarrow> DaemonCore \<Rightarrow> unit core_result" where
  "trigger_emergency now s =
     (if dc_pending_remote s \<noteq> None then (Inl CoreUnavailable, s)
      else activate_failsafe now (s\<lparr>dc_drain_failsafe_keys := True\<rparr>))"

definition core_shutdown :: "u64 \<Rightarrow> DaemonCore \<Rightarrow> unit core_result" where
  "core_shutdown now s =
     (if dc_pending_remote s \<noteq> None then (Inl CoreUnavailable, s)
      else stop_and_queue ShuttingDown now s)"

definition clear_workspace_routing_ready :: "u64 \<Rightarrow> DaemonCore \<Rightarrow> unit core_result" where
  "clear_workspace_routing_ready now s =
     (if dc_pending_remote s \<noteq> None then (Inl CoreUnavailable, s) else fail_closed now s)"

definition mark_workspace_routing_ready :: "u64 \<Rightarrow> DaemonCore \<Rightarrow> unit core_result" where
  "mark_workspace_routing_ready now s =
     (if dc_pending_remote s \<noteq> None \<or> cleanup_pending s \<or> dc_remote_held s \<noteq> []
         \<or> \<not> list_ex (\<lambda>(h, a). accepts_input (ea_state a)) (dc_endpoint_availability s)
         \<or> dc_lifecycle s = ShuttingDown
      then (Inl CoreUnavailable, s)
      else (Inr (), publish_snapshot now (s\<lparr>dc_workspace_ready := True\<rparr>)))"

section \<open>The cleanup ledger\<close>

definition take_next_cleanup_release :: "DaemonCore \<Rightarrow> CleanupReleaseEffect option \<times> DaemonCore" where
  "take_next_cleanup_release s =
     (case (dc_cleanup_in_flight s, dc_cleanup s) of
        (None, entry # rest) \<Rightarrow>
          (Some \<lparr>cre_cleanup_id = ce_id entry, cre_endpoint = ce_endpoint entry,
                 cre_covered_input_sequence = ce_covered_input_sequence entry,
                 cre_release = ce_release entry\<rparr>,
           s\<lparr>dc_cleanup_in_flight := Some (ce_id entry)\<rparr>)
      | _ \<Rightarrow> (None, s))"

definition cleanup_token_current :: "CleanupReleaseEffect \<Rightarrow> DaemonCore \<Rightarrow> bool" where
  "cleanup_token_current effect s \<longleftrightarrow>
     dc_cleanup_in_flight s = Some (cre_cleanup_id effect)
     \<and> (case dc_cleanup s of [] \<Rightarrow> False | entry # rest \<Rightarrow> ce_id entry = cre_cleanup_id effect)"

definition confirm_cleanup_release :: "CleanupReleaseEffect \<Rightarrow> u64 \<Rightarrow> DaemonCore \<Rightarrow> unit core_result" where
  "confirm_cleanup_release effect now s =
     (if \<not> cleanup_token_current effect s
      then (Inl StaleCleanup, publish_snapshot now (s\<lparr>dc_workspace_ready := False\<rparr>))
      else case dc_cleanup s of
          [] \<Rightarrow> (Inl StaleCleanup, s)
        | entry # rest \<Rightarrow>
            (Inr (), publish_snapshot now
              (s\<lparr>dc_cleanup := rest, dc_cleanup_in_flight := None,
                 dc_remote_held := AList.delete (cleanup_key entry) (dc_remote_held s)\<rparr>)))"

definition retry_cleanup_release :: "CleanupReleaseEffect \<Rightarrow> u64 \<Rightarrow> DaemonCore \<Rightarrow> unit core_result" where
  "retry_cleanup_release effect now s =
     (if \<not> cleanup_token_current effect s
      then (Inl StaleCleanup, publish_snapshot now (s\<lparr>dc_workspace_ready := False\<rparr>))
      else (Inr (), publish_snapshot now
             ((return_to_local s)\<lparr>dc_cleanup_in_flight := None, dc_workspace_ready := False,
                                  dc_handoff_pending := False\<rparr>)))"

definition confirm_transport_invalidated :: "SessionEndpoint \<Rightarrow> u64 \<Rightarrow> DaemonCore \<Rightarrow> DaemonCore" where
  "confirm_transport_invalidated endpoint now s =
     (let host = se_host_id endpoint;
          s1 = (if is_current_endpoint s endpoint
                then (return_if_active host
                       (s\<lparr>dc_endpoint_availability := AList.delete host (dc_endpoint_availability s),
                          dc_peers := bt_adjust host (\<lambda>_. PS_Disconnected) (dc_peers s)\<rparr>))
                      \<lparr>dc_workspace_ready := False, dc_handoff_pending := False\<rparr>
                else s);
          in_flight = (case dc_cleanup s of
                         [] \<Rightarrow> None
                       | entry # rest \<Rightarrow> if Some (ce_id entry) = dc_cleanup_in_flight s
                                          then Some (ce_endpoint entry) else None)
      in publish_snapshot now
           (s1\<lparr>dc_cleanup := filter (\<lambda>entry. ce_endpoint entry \<noteq> endpoint) (dc_cleanup s),
               dc_cleanup_in_flight :=
                 (if in_flight = Some endpoint then None else dc_cleanup_in_flight s),
               dc_remote_held := filter (\<lambda>((e, d, c), h). e \<noteq> endpoint) (dc_remote_held s),
               dc_physical_controls :=
                 map (\<lambda>(d, cs). (d, map (\<lambda>(c, l). (c, quarantine_if endpoint l)) cs))
                   (dc_physical_controls s)\<rparr>))"

end
