(* ===== verification/DaemonInvariant.thy ===== *)
theory DaemonInvariant
  imports DaemonControl
begin

text \<open>
  The invariant of the daemon core and that every operation keeps it: the bounds on held controls,
  remote holds, releases and gates, the order and identity of queued releases, the validity of the
  configuration and of a staged candidate, and what the callback snapshot may show.  Pieces of the
  invariant depend on few fields each, so that most updates are covered by rewriting.
\<close>

section \<open>The invariant, piece by piece\<close>

text \<open>The devices and controls that are held, without where each is latched to.\<close>

definition held_shape :: "control_map \<Rightarrow> (DeviceId \<times> PhysicalControl list) list" where
  "held_shape pcs = map (\<lambda>(d, cs). (d, map fst cs)) pcs"

definition shape_ok :: "(DeviceId \<times> PhysicalControl list) list \<Rightarrow> nat \<Rightarrow> bool" where
  "shape_ok sh n \<longleftrightarrow>
     sorted_map sh \<and> length sh \<le> MAX_PHYSICAL_HELD_DEVICES
     \<and> (\<forall>(d, cs) \<in> set sh. sorted_wrt (<) cs \<and> cs \<noteq> [] \<and> length cs \<le> MAX_PHYSICAL_HELD_PER_DEVICE)
     \<and> n = sum_list (map (length \<circ> snd) sh) \<and> n \<le> MAX_PHYSICAL_HELD_TOTAL"

definition physical_ok :: "DaemonCore \<Rightarrow> bool" where
  "physical_ok s \<longleftrightarrow> shape_ok (held_shape (dc_physical_controls s)) (dc_physical_control_count s)"

definition held_ok :: "DaemonCore \<Rightarrow> bool" where
  "held_ok s \<longleftrightarrow> sorted_map (dc_remote_held s) \<and> length (dc_remote_held s) \<le> MAX_REMOTE_HELD_TOTAL"

definition entry_ok :: "CleanupEntry \<Rightarrow> bool" where
  "entry_ok entry \<longleftrightarrow>
     rr_target (ce_release entry) = se_host_id (ce_endpoint entry)
     \<and> rr_payload (ce_release entry) = release_payload (ce_control entry)"

definition ledger_ok :: "DaemonCore \<Rightarrow> bool" where
  "ledger_ok s \<longleftrightarrow>
     length (dc_cleanup s) \<le> MAX_PENDING_REMOTE_CLEANUP
     \<and> distinct (map cleanup_key (dc_cleanup s))
     \<and> list_all entry_ok (dc_cleanup s)
     \<and> sorted_wrt (<) (map ce_id (dc_cleanup s))
     \<and> (\<forall>entry\<in>set (dc_cleanup s). ce_id entry < dc_next_effect_id s)
     \<and> (\<forall>i. dc_cleanup_in_flight s = Some i \<longrightarrow>
          (\<exists>entry rest. dc_cleanup s = entry # rest \<and> ce_id entry = i))
     \<and> (\<forall>p. dc_pending_remote s = Some p \<longrightarrow>
          prd_id p < dc_next_effect_id s \<and> prd_id p \<notin> ce_id ` set (dc_cleanup s))"

definition policy_ok :: "DaemonCore \<Rightarrow> bool" where
  "policy_ok s \<longleftrightarrow>
     valid_config (dc_config s) \<and> routing_from_config (dc_config s) = Inr (dc_routing s)
     \<and> device_route_revision (dc_config s) = dc_route_policy_revision s
     \<and> (\<forall>p. dc_pending_route_policy s = Some p \<longrightarrow>
          valid_config (prp_config p) \<and> routing_from_config (prp_config p) = Inr (prp_routing p)
          \<and> device_route_revision (prp_config p) = prp_next_revision p
          \<and> dc_route_policy_revision s < prp_next_revision p)"

definition peers_ok :: "DaemonCore \<Rightarrow> bool" where
  "peers_ok s \<longleftrightarrow>
     sorted_map (dc_peers s) \<and> sorted_map (dc_endpoint_availability s)
     \<and> (\<forall>h a. (h, a) \<in> set (dc_endpoint_availability s) \<longrightarrow> se_host_id (ea_endpoint a) = h)"

definition gates_ok :: "DaemonCore \<Rightarrow> bool" where
  "gates_ok s \<longleftrightarrow>
     finite (dc_gated_local_devices s) \<and> card (dc_gated_local_devices s) \<le> MAX_GATED_LOCAL_DEVICES
     \<and> nil_id \<notin> dc_gated_local_devices s"

definition workspace_ok :: "HostId \<Rightarrow> DaemonCore \<Rightarrow> bool" where
  "workspace_ok me s \<longleftrightarrow>
     me \<noteq> nil_id \<and> local_host (dc_workspace s) = me
     \<and> active_display (dc_workspace s) = lp_display_id (ws_pointer (dc_workspace s))"

definition base_inv :: "HostId \<Rightarrow> DaemonCore \<Rightarrow> bool" where
  "base_inv me s \<longleftrightarrow>
     physical_ok s \<and> held_ok s \<and> ledger_ok s \<and> policy_ok s \<and> peers_ok s \<and> gates_ok s \<and> workspace_ok me s"

text \<open>
  What capture callbacks read: the same workspace, routes and peers as the core, and routing shown
  as enabled only when neither the lifecycle, the failsafe, the workspace nor pending releases
  forbid it.
\<close>

definition view_ok :: "DaemonCore \<Rightarrow> bool" where
  "view_ok s \<longleftrightarrow>
     snap_workspace (dc_snapshot s) = dc_workspace s \<and> snap_routing (dc_snapshot s) = dc_routing s
     \<and> snap_peers (dc_snapshot s) = dc_peers s
     \<and> snap_workspace_ready (dc_snapshot s) = dc_workspace_ready s
     \<and> snap_handoff_pending (dc_snapshot s) = dc_handoff_pending s
     \<and> (snap_enabled (dc_snapshot s) \<longrightarrow>
          core_is_enabled s \<and> \<not> dc_drain_failsafe_keys s \<and> dc_workspace_ready s
          \<and> (cleanup_pending s \<longrightarrow> dc_pending_route_policy s \<noteq> None))"

definition core_inv :: "HostId \<Rightarrow> DaemonCore \<Rightarrow> bool" where
  "core_inv me s \<longleftrightarrow> base_inv me s \<and> view_ok s"

lemmas inv_pieces =
  physical_ok_def held_ok_def ledger_ok_def policy_ok_def peers_ok_def gates_ok_def workspace_ok_def

section \<open>Updates that no piece depends on\<close>

lemma base_inv_flags [simp]:
  "base_inv me (s\<lparr>dc_workspace_ready := b\<rparr>) = base_inv me s"
  "base_inv me (s\<lparr>dc_handoff_pending := b\<rparr>) = base_inv me s"
  "base_inv me (s\<lparr>dc_drain_failsafe_keys := b\<rparr>) = base_inv me s"
  "base_inv me (s\<lparr>dc_suspended_until_ns := n\<rparr>) = base_inv me s"
  "base_inv me (s\<lparr>dc_lifecycle := l\<rparr>) = base_inv me s"
  "base_inv me (s\<lparr>dc_snapshot := v\<rparr>) = base_inv me s"
  by (simp_all add: base_inv_def inv_pieces)

lemma base_inv_return [simp]: "base_inv me (return_to_local s) = base_inv me s"
  by (simp add: base_inv_def inv_pieces return_to_local_def)

lemma base_inv_return_if [simp]: "base_inv me (return_if_active h s) = base_inv me s"
  by (simp add: return_if_active_def)

lemma base_inv_publish [simp]: "base_inv me (publish_snapshot now s) = base_inv me s"
  by (simp add: publish_snapshot_def)

lemma view_ok_publish [simp]: "view_ok (publish_snapshot now s)"
  by (auto simp: view_ok_def publish_snapshot_def routing_should_be_active_def core_is_enabled_def cleanup_pending_def)

lemma core_inv_publish [simp]: "core_inv me (publish_snapshot now s) = base_inv me s"
  by (simp add: core_inv_def)

lemma held_shape_adjust [simp]:
  "held_shape (bt_adjust d (bt_adjust c f) pcs) = held_shape pcs"
  by (simp add: held_shape_def bt_adjust_def split_def comp_def)

lemma base_inv_adjust_latch [simp]: "base_inv me (adjust_latch d c f s) = base_inv me s"
  by (simp add: base_inv_def inv_pieces adjust_latch_def)

section \<open>Queueing releases\<close>

lemma push_cleanup_fields [simp]:
  "dc_config (push_cleanup k s) = dc_config s"
  "dc_workspace (push_cleanup k s) = dc_workspace s"
  "dc_routing (push_cleanup k s) = dc_routing s"
  "dc_peers (push_cleanup k s) = dc_peers s"
  "dc_endpoint_availability (push_cleanup k s) = dc_endpoint_availability s"
  "dc_lifecycle (push_cleanup k s) = dc_lifecycle s"
  "dc_suspended_until_ns (push_cleanup k s) = dc_suspended_until_ns s"
  "dc_drain_failsafe_keys (push_cleanup k s) = dc_drain_failsafe_keys s"
  "held_shape (dc_physical_controls (push_cleanup k s)) = held_shape (dc_physical_controls s)"
  "dc_physical_control_count (push_cleanup k s) = dc_physical_control_count s"
  "dc_remote_held (push_cleanup k s) = dc_remote_held s"
  "dc_cleanup (push_cleanup k s) = dc_cleanup s @ [cleanup_entry (dc_next_effect_id s) k]"
  "dc_cleanup_in_flight (push_cleanup k s) = dc_cleanup_in_flight s"
  "dc_pending_remote (push_cleanup k s) = dc_pending_remote s"
  "dc_pending_route_policy (push_cleanup k s) = dc_pending_route_policy s"
  "dc_route_policy_revision (push_cleanup k s) = dc_route_policy_revision s"
  "dc_gated_local_devices (push_cleanup k s) = dc_gated_local_devices s"
  "dc_next_effect_id (push_cleanup k s) = dc_next_effect_id s + 1"
  "dc_workspace_ready (push_cleanup k s) = dc_workspace_ready s"
  "dc_handoff_pending (push_cleanup k s) = dc_handoff_pending s"
  "dc_snapshot (push_cleanup k s) = dc_snapshot s"
  by (cases k, simp add: push_cleanup_def adjust_latch_def split_def)+

lemma fold_push_fields [simp]:
  "dc_config (fold push_cleanup ks s) = dc_config s"
  "dc_workspace (fold push_cleanup ks s) = dc_workspace s"
  "dc_routing (fold push_cleanup ks s) = dc_routing s"
  "dc_peers (fold push_cleanup ks s) = dc_peers s"
  "dc_endpoint_availability (fold push_cleanup ks s) = dc_endpoint_availability s"
  "dc_lifecycle (fold push_cleanup ks s) = dc_lifecycle s"
  "dc_suspended_until_ns (fold push_cleanup ks s) = dc_suspended_until_ns s"
  "dc_drain_failsafe_keys (fold push_cleanup ks s) = dc_drain_failsafe_keys s"
  "held_shape (dc_physical_controls (fold push_cleanup ks s)) = held_shape (dc_physical_controls s)"
  "dc_physical_control_count (fold push_cleanup ks s) = dc_physical_control_count s"
  "dc_remote_held (fold push_cleanup ks s) = dc_remote_held s"
  "dc_cleanup_in_flight (fold push_cleanup ks s) = dc_cleanup_in_flight s"
  "dc_pending_remote (fold push_cleanup ks s) = dc_pending_remote s"
  "dc_pending_route_policy (fold push_cleanup ks s) = dc_pending_route_policy s"
  "dc_route_policy_revision (fold push_cleanup ks s) = dc_route_policy_revision s"
  "dc_gated_local_devices (fold push_cleanup ks s) = dc_gated_local_devices s"
  "dc_workspace_ready (fold push_cleanup ks s) = dc_workspace_ready s"
  "dc_handoff_pending (fold push_cleanup ks s) = dc_handoff_pending s"
  "dc_snapshot (fold push_cleanup ks s) = dc_snapshot s"
  by (induction ks arbitrary: s) simp_all

lemma cleanup_entry_facts [simp]:
  "cleanup_key (cleanup_entry i k) = fst k"
  "ce_id (cleanup_entry i k) = i"
  "entry_ok (cleanup_entry i k)"
  by (cases k; auto simp: cleanup_entry_def cleanup_key_def entry_ok_def split: prod.splits)+

lemma map_key_fold_push:
  "map cleanup_key (dc_cleanup (fold push_cleanup ks s)) = map cleanup_key (dc_cleanup s) @ map fst ks"
  by (induction ks arbitrary: s) simp_all

lemma ledger_ok_push:
  assumes "ledger_ok s" and "fst k \<notin> cleanup_key ` set (dc_cleanup s)"
    and "length (dc_cleanup s) < MAX_PENDING_REMOTE_CLEANUP" and "unat (dc_next_effect_id s) + 1 < 2 ^ 64"
  shows "ledger_ok (push_cleanup k s)"
proof -
  have lt: "dc_next_effect_id s < dc_next_effect_id s + 1"
    using assms(4) by (simp add: word_less_nat_alt unat_plus_simple [THEN iffD1] unat_word_ariths)
  hence "x < dc_next_effect_id s + 1" if "x < dc_next_effect_id s" for x
    using that by (rule less_trans [rotated])
  with assms lt show ?thesis
    unfolding ledger_ok_def
    by (auto simp: sorted_wrt_append image_iff dest: less_imp_neq)
qed

lemma ledger_ok_fold_push:
  assumes "ledger_ok s" and "distinct (map fst ks)" and "fst ` set ks \<inter> cleanup_key ` set (dc_cleanup s) = {}"
    and "length (dc_cleanup s) + length ks \<le> MAX_PENDING_REMOTE_CLEANUP"
    and "unat (dc_next_effect_id s) + length ks < 2 ^ 64"
  shows "ledger_ok (fold push_cleanup ks s)"
  using assms
proof (induction ks arbitrary: s)
  case (Cons k ks)
  have n: "unat (dc_next_effect_id s + 1) = unat (dc_next_effect_id s) + 1"
    using Cons.prems(5) by (simp add: unat_word_ariths)
  have "ledger_ok (push_cleanup k s)"
    by (rule ledger_ok_push) (use Cons.prems in auto)
  moreover have "fst ` set ks \<inter> cleanup_key ` set (dc_cleanup (push_cleanup k s)) = {}"
    using Cons.prems(2,3) by (auto simp: image_iff)
  ultimately show ?case
    using Cons.IH [of "push_cleanup k s"] Cons.prems n by simp
qed simp

lemma cleanup_candidates_keys:
  assumes "held_ok s"
  shows "distinct (map fst (cleanup_candidates A s))"
    and "fst ` set (cleanup_candidates A s) \<inter> cleanup_key ` set (dc_cleanup s) = {}"
    and "set (cleanup_candidates A s) \<subseteq> set (dc_remote_held s)"
proof -
  have "sorted_map (cleanup_candidates A s)"
    using assms unfolding cleanup_candidates_def held_ok_def by (blast intro: sorted_map_filter)
  thus "distinct (map fst (cleanup_candidates A s))"
    using sorted_map_distinct unfolding distinct_keys_def by blast
next
  have "fst k \<notin> cleanup_key ` set (dc_cleanup s)" if "k \<in> set (cleanup_candidates A s)" for k
    using that by (simp add: cleanup_candidates_def split_def)
  thus "fst ` set (cleanup_candidates A s) \<inter> cleanup_key ` set (dc_cleanup s) = {}" by blast
qed (auto simp: cleanup_candidates_def)

lemma queue_cleanup_cases:
  obtains e where "queue_remote_cleanup A s = (Inl e, s)"
  | "queue_remote_cleanup A s = (Inr (), fold push_cleanup (cleanup_candidates A s) s)"
    and "length (dc_cleanup s) + length (cleanup_candidates A s) \<le> MAX_PENDING_REMOTE_CLEANUP"
    and "unat (dc_next_effect_id s) + length (cleanup_candidates A s) < 2 ^ 64"
proof (cases "MAX_PENDING_REMOTE_CLEANUP < length (dc_cleanup s) + length (cleanup_candidates A s)")
  case True
  thus ?thesis using that(1) by (simp add: queue_remote_cleanup_def)
next
  case False
  hence small: "length (cleanup_candidates A s) \<le> 1024" by (simp add: core_limits)
  hence u: "unat (of_nat (length (cleanup_candidates A s)) :: u64) = length (cleanup_candidates A s)"
    by (simp add: unat_of_nat)
  show ?thesis
  proof (cases "checked_add_u64 (dc_next_effect_id s) (of_nat (length (cleanup_candidates A s)))")
    case None
    thus ?thesis using that(1) False by (simp add: queue_remote_cleanup_def)
  next
    case (Some n)
    hence "unat (dc_next_effect_id s) + length (cleanup_candidates A s) < 2 ^ 64"
      using u by (simp add: checked_add_u64_def u64_max_def split: if_splits)
    thus ?thesis using that(2) False Some by (simp add: queue_remote_cleanup_def)
  qed
qed

lemma queue_error_unchanged: "queue_remote_cleanup A s = (Inl e, s') \<Longrightarrow> s' = s"
  by (rule queue_cleanup_cases [of A s]) auto

lemma queue_fields [simp]:
  "dc_config (snd (queue_remote_cleanup A s)) = dc_config s"
  "dc_workspace (snd (queue_remote_cleanup A s)) = dc_workspace s"
  "dc_routing (snd (queue_remote_cleanup A s)) = dc_routing s"
  "dc_peers (snd (queue_remote_cleanup A s)) = dc_peers s"
  "dc_endpoint_availability (snd (queue_remote_cleanup A s)) = dc_endpoint_availability s"
  "dc_lifecycle (snd (queue_remote_cleanup A s)) = dc_lifecycle s"
  "dc_suspended_until_ns (snd (queue_remote_cleanup A s)) = dc_suspended_until_ns s"
  "dc_drain_failsafe_keys (snd (queue_remote_cleanup A s)) = dc_drain_failsafe_keys s"
  "held_shape (dc_physical_controls (snd (queue_remote_cleanup A s))) = held_shape (dc_physical_controls s)"
  "dc_physical_control_count (snd (queue_remote_cleanup A s)) = dc_physical_control_count s"
  "dc_remote_held (snd (queue_remote_cleanup A s)) = dc_remote_held s"
  "dc_cleanup_in_flight (snd (queue_remote_cleanup A s)) = dc_cleanup_in_flight s"
  "dc_pending_remote (snd (queue_remote_cleanup A s)) = dc_pending_remote s"
  "dc_pending_route_policy (snd (queue_remote_cleanup A s)) = dc_pending_route_policy s"
  "dc_route_policy_revision (snd (queue_remote_cleanup A s)) = dc_route_policy_revision s"
  "dc_gated_local_devices (snd (queue_remote_cleanup A s)) = dc_gated_local_devices s"
  "dc_workspace_ready (snd (queue_remote_cleanup A s)) = dc_workspace_ready s"
  "dc_handoff_pending (snd (queue_remote_cleanup A s)) = dc_handoff_pending s"
  "dc_snapshot (snd (queue_remote_cleanup A s)) = dc_snapshot s"
  by (rule queue_cleanup_cases [of A s], simp, simp)+

lemma base_inv_queue [simp]:
  assumes "base_inv me s"
  shows "base_inv me (snd (queue_remote_cleanup A s))"
proof -
  have "ledger_ok (snd (queue_remote_cleanup A s))"
  proof (rule queue_cleanup_cases [of A s])
    assume *: "queue_remote_cleanup A s = (Inr (), fold push_cleanup (cleanup_candidates A s) s)"
      "length (dc_cleanup s) + length (cleanup_candidates A s) \<le> MAX_PENDING_REMOTE_CLEANUP"
      "unat (dc_next_effect_id s) + length (cleanup_candidates A s) < 2 ^ 64"
    have "ledger_ok (fold push_cleanup (cleanup_candidates A s) s)"
      by (rule ledger_ok_fold_push)
        (use assms * cleanup_candidates_keys [of s A] in \<open>auto simp: base_inv_def\<close>)
    with * show ?thesis by simp
  qed (use assms in \<open>simp add: base_inv_def\<close>)
  with assms show ?thesis
    by (simp add: base_inv_def physical_ok_def held_ok_def policy_ok_def peers_ok_def gates_ok_def workspace_ok_def)
qed

lemma base_inv_queue_ok:
  "queue_remote_cleanup A s = (r, s') \<Longrightarrow> base_inv me s \<Longrightarrow> base_inv me s'"
  using base_inv_queue by (metis snd_conv)

section \<open>Every operation keeps the invariant\<close>

named_theorems core_keeps \<open>the daemon invariant after each operation\<close>

lemma core_invD: "core_inv me s \<Longrightarrow> base_inv me s" "core_inv me s \<Longrightarrow> view_ok s"
  by (simp_all add: core_inv_def)

lemma core_inv_fail_closed [core_keeps]: "base_inv me s \<Longrightarrow> core_inv me (snd (fail_closed now s))"
  by (simp add: fail_closed_def split_def Let_def)

lemma core_inv_fail_closed_eq: "fail_closed now s = (r, s') \<Longrightarrow> base_inv me s \<Longrightarrow> core_inv me s'"
  using core_inv_fail_closed by (metis snd_conv)

lemma core_inv_activate [core_keeps]: "base_inv me s \<Longrightarrow> core_inv me (snd (activate_failsafe now s))"
  by (simp add: activate_failsafe_def split_def Let_def)

lemma core_inv_activate_eq: "activate_failsafe now s = (r, s') \<Longrightarrow> base_inv me s \<Longrightarrow> core_inv me s'"
  using core_inv_activate by (metis snd_conv)

lemma core_inv_stop [core_keeps]: "base_inv me s \<Longrightarrow> core_inv me (snd (stop_and_queue l now s))"
  by (simp add: stop_and_queue_def split_def Let_def)

lemma base_inv_pending_none [simp]: "base_inv me s \<Longrightarrow> base_inv me (s\<lparr>dc_pending_remote := None\<rparr>)"
  by (auto simp: base_inv_def inv_pieces)

subsection \<open>Held controls\<close>

lemma held_shape_map_of:
  "map_of (held_shape pcs) d = map_option (map fst) (map_of pcs d)"
  by (induction pcs) (auto simp: held_shape_def)

lemma held_shape_fst [simp]: "map fst (held_shape pcs) = map fst pcs"
  by (simp add: held_shape_def comp_def split_def)

lemma held_shape_length [simp]: "length (held_shape pcs) = length pcs"
  by (simp add: held_shape_def)

lemma held_shape_insert [simp]: "held_shape (bt_insert d cs pcs) = bt_insert d (map fst cs) (held_shape pcs)"
  by (induction d cs pcs rule: bt_insert.induct) (auto simp: held_shape_def)

lemma held_shape_delete [simp]: "held_shape (AList.delete d pcs) = AList.delete d (held_shape pcs)"
  by (induction pcs) (auto simp: held_shape_def)

lemma sorted_shape_eq: "sorted_map (held_shape pcs) = sorted_map pcs"
  by (simp add: sorted_map_def)

lemma sum_bt_insert:
  assumes "sorted_map sh"
  shows "sum_list (map (length \<circ> snd) (bt_insert d cs sh)) + (case map_of sh d of None \<Rightarrow> 0 | Some old \<Rightarrow> length old)
         = sum_list (map (length \<circ> snd) sh) + length cs"
  using assms by (induction d cs sh rule: bt_insert.induct) (auto simp: sorted_map_Cons split: option.splits
      dest!: map_of_SomeD) 

lemma sum_delete:
  assumes "sorted_map sh"
  shows "sum_list (map (length \<circ> snd) (AList.delete d sh)) + (case map_of sh d of None \<Rightarrow> 0 | Some old \<Rightarrow> length old)
         = sum_list (map (length \<circ> snd) sh)"
  using assms
proof (induction sh)
  case (Cons x sh)
  obtain k v where [simp]: "x = (k, v)" by (cases x)
  show ?case
  proof (cases "k = d")
    case True
    have "d \<notin> fst ` set sh" using Cons.prems True by (auto simp: sorted_map_Cons)
    hence "AList.delete d sh = sh" by (simp add: delete_id)
    thus ?thesis using True by simp
  next
    case False
    thus ?thesis using Cons by (simp add: sorted_map_Cons)
  qed
qed simp

lemma fst_bt_insert_keys: "sorted_wrt (<) (map fst cs) \<Longrightarrow> sorted_wrt (<) (map fst (bt_insert c l cs))"
  using sorted_bt_insert [of cs c l] by (simp add: sorted_map_def)

lemma shape_ok_insert:
  assumes "shape_ok sh n" and "sorted_wrt (<) cs" and "cs \<noteq> []" and "length cs \<le> MAX_PHYSICAL_HELD_PER_DEVICE"
    and "d \<in> fst ` set sh \<or> length sh < MAX_PHYSICAL_HELD_DEVICES"
    and "m + (case map_of sh d of None \<Rightarrow> 0 | Some old \<Rightarrow> length old) = n + length cs"
    and "m \<le> MAX_PHYSICAL_HELD_TOTAL"
  shows "shape_ok (bt_insert d cs sh) m"
proof -
  have st: "sorted_map sh" using assms(1) by (simp add: shape_ok_def)
  hence "length (bt_insert d cs sh) \<le> MAX_PHYSICAL_HELD_DEVICES"
    using assms(1,5) by (auto simp: length_bt_insert shape_ok_def)
  moreover have "m = sum_list (map (length \<circ> snd) (bt_insert d cs sh))"
    using sum_bt_insert [OF st, of d cs] assms(1,6) by (simp add: shape_ok_def)
  ultimately show ?thesis
    using assms st unfolding shape_ok_def by (auto simp: set_bt_insert)
qed

lemma shape_ok_delete:
  assumes "shape_ok sh n" and "map_of sh d = Some old"
  shows "shape_ok (AList.delete d sh) (n - length old)"
proof -
  have st: "sorted_map sh" using assms(1) by (simp add: shape_ok_def)
  have "n - length old = sum_list (map (length \<circ> snd) (AList.delete d sh))"
    using sum_delete [OF st, of d] assms by (simp add: shape_ok_def)
  moreover have "length (AList.delete d sh) \<le> length sh" by (rule length_delete_le)
  ultimately show ?thesis
    using assms set_delete_subset [of d sh] sorted_map_delete [OF st, of d]
    unfolding shape_ok_def by auto
qed

lemma shape_ok_lookup:
  "shape_ok sh n \<Longrightarrow> map_of sh d = Some cs \<Longrightarrow>
     sorted_wrt (<) cs \<and> cs \<noteq> [] \<and> length cs \<le> MAX_PHYSICAL_HELD_PER_DEVICE \<and> length cs \<le> n"
  unfolding shape_ok_def
  by (auto dest!: map_of_SomeD intro!: member_le_sum_list simp: image_iff)
    (metis comp_apply image_eqI member_le_sum_list set_map snd_conv)

lemma base_inv_controls:
  assumes "base_inv me s" and "shape_ok (held_shape pcs) n"
  shows "base_inv me (s\<lparr>dc_physical_controls := pcs, dc_physical_control_count := n\<rparr>)"
  using assms by (simp add: base_inv_def inv_pieces)

lemma base_inv_insert_control:
  assumes inv: "base_inv me s" and new: "latch_of s d c = None"
    and cap: "ensure_physical_capacity d s = (Inr u, s')"
  shows "base_inv me (insert_control d c s')"
proof -
  let ?pcs = "dc_physical_controls s" and ?n = "dc_physical_control_count s"
  let ?cs = "case map_of ?pcs d of None \<Rightarrow> [] | Some cs \<Rightarrow> cs"
  have s': "s' = s" and room: "?n < MAX_PHYSICAL_HELD_TOTAL"
    and dev: "map_of ?pcs d = None \<Longrightarrow> length ?pcs < MAX_PHYSICAL_HELD_DEVICES"
    and per: "length ?cs < MAX_PHYSICAL_HELD_PER_DEVICE"
    using cap by (auto simp: ensure_physical_capacity_def Let_def core_limits split: if_splits option.splits)
  have ok: "shape_ok (held_shape ?pcs) ?n" using inv by (simp add: base_inv_def physical_ok_def)
  have st: "sorted_wrt (<) (map fst ?cs)"
    using shape_ok_lookup [OF ok, of d] by (auto simp: held_shape_map_of split: option.splits)
  have notin: "c \<notin> fst ` set ?cs"
  proof -
    have "map_of ?cs c = None" using new by (simp add: latch_of_def split: option.splits)
    thus ?thesis by (simp only: map_of_eq_None_iff not_False_eq_True)
  qed
  have len: "length (bt_insert c LatchLocal ?cs) = Suc (length ?cs)"
    using length_bt_insert [of ?cs c LatchLocal] st notin by (simp add: sorted_map_def)
  have "shape_ok (bt_insert d (map fst (bt_insert c LatchLocal ?cs)) (held_shape ?pcs)) (?n + 1)"
  proof (rule shape_ok_insert [OF ok])
    show "sorted_wrt (<) (map fst (bt_insert c LatchLocal ?cs))" using st by (rule fst_bt_insert_keys)
    show "map fst (bt_insert c LatchLocal ?cs) \<noteq> []" using len by (metis length_map list.size(3) nat.distinct(1))
    show "length (map fst (bt_insert c LatchLocal ?cs)) \<le> MAX_PHYSICAL_HELD_PER_DEVICE" using len per by simp
    show "d \<in> fst ` set (held_shape ?pcs) \<or> length (held_shape ?pcs) < MAX_PHYSICAL_HELD_DEVICES"
      using dev by (metis held_shape_fst held_shape_length list.set_map map_of_eq_None_iff)
    show "?n + 1 + (case map_of (held_shape ?pcs) d of None \<Rightarrow> 0 | Some old \<Rightarrow> length old)
          = ?n + length (map fst (bt_insert c LatchLocal ?cs))"
      using len by (simp add: held_shape_map_of split: option.splits)
  qed (use room in simp)
  thus ?thesis
    unfolding s' insert_control_def Let_def by (intro base_inv_controls [OF inv]) simp
qed

lemma base_inv_remove_control:
  assumes inv: "base_inv me s"
  shows "base_inv me (remove_control d c s)"
proof (cases "latch_of s d c")
  case None
  hence "remove_control d c s = s"
    by (auto simp: remove_control_def latch_of_def split: option.splits)
  thus ?thesis using inv by simp
next
  case (Some l)
  let ?pcs = "dc_physical_controls s" and ?n = "dc_physical_control_count s"
  from Some obtain cs where cs: "map_of ?pcs d = Some cs" "map_of cs c = Some l"
    by (auto simp: latch_of_def split: option.splits)
  have ok: "shape_ok (held_shape ?pcs) ?n" using inv by (simp add: base_inv_def physical_ok_def)
  have sh: "map_of (held_shape ?pcs) d = Some (map fst cs)" by (simp add: held_shape_map_of cs)
  have st: "sorted_map cs" and n: "length cs \<le> ?n" and per: "length cs \<le> MAX_PHYSICAL_HELD_PER_DEVICE"
    using shape_ok_lookup [OF ok sh] by (auto simp: sorted_map_def)
  have len: "length (AList.delete c cs) + 1 = length cs"
  proof -
    have "card (dom (map_of cs) - {c}) + 1 = card (dom (map_of cs))"
      using cs(2) by (metis One_nat_def Suc_pred card_Diff_singleton card_gt_0_iff domI empty_iff
          finite_dom_map_of Suc_eq_plus1)
    thus ?thesis
      using st sorted_map_delete [OF st, of c]
      by (simp add: length_distinct_keys sorted_map_distinct map_of_delete)
  qed
  have del: "shape_ok (AList.delete d (held_shape ?pcs)) (?n - 1)" if "AList.delete c cs = []"
    using shape_ok_delete [OF ok sh] len that by simp
  have upd: "shape_ok (bt_insert d (map fst (AList.delete c cs)) (held_shape ?pcs)) (?n - 1)"
    if "AList.delete c cs \<noteq> []"
  proof (rule shape_ok_insert [OF ok])
    show "sorted_wrt (<) (map fst (AList.delete c cs))"
      using sorted_map_delete [OF st] by (simp add: sorted_map_def)
    show "length (map fst (AList.delete c cs)) \<le> MAX_PHYSICAL_HELD_PER_DEVICE" using len per by simp
    show "d \<in> fst ` set (held_shape ?pcs) \<or> length (held_shape ?pcs) < MAX_PHYSICAL_HELD_DEVICES"
      using sh by (force dest: map_of_SomeD)
    show "?n - 1 + (case map_of (held_shape ?pcs) d of None \<Rightarrow> 0 | Some old \<Rightarrow> length old)
          = ?n + length (map fst (AList.delete c cs))"
      using len n sh by simp
    show "?n - 1 \<le> MAX_PHYSICAL_HELD_TOTAL" using ok by (auto simp: shape_ok_def)
  qed (use that in simp)
  show ?thesis
    using base_inv_controls [OF inv] del upd by (simp add: remove_control_def cs Let_def)
qed

lemma view_ok_controls [simp]:
  "view_ok (insert_control d c s) = view_ok s"
  "view_ok (remove_control d c s) = view_ok s"
  "view_ok (adjust_latch d c f s) = view_ok s"
  by (auto simp: view_ok_def insert_control_def remove_control_def adjust_latch_def Let_def
      core_is_enabled_def cleanup_pending_def split: option.splits)

lemma ensure_capacity_ok: "ensure_physical_capacity d s = (Inr u, s') \<Longrightarrow> s' = s"
  by (auto simp: ensure_physical_capacity_def Let_def split: if_splits)

lemma ensure_capacity_base: "base_inv me s \<Longrightarrow> base_inv me (snd (ensure_physical_capacity d s))"
  by (simp add: ensure_physical_capacity_def Let_def)

lemma core_inv_track [core_keeps]:
  assumes "core_inv me s"
  shows "core_inv me (snd (track_control d payload now s))"
proof -
  have b: "base_inv me s" and v: "view_ok s" using assms by (auto simp: core_inv_def)
  have "core_inv me (snd (fail_closed now s'))" if "ensure_physical_capacity d s = (r, s')" for r s'
    using ensure_capacity_base [OF b, of d] that by (simp add: core_inv_fail_closed)
  moreover have "core_inv me (insert_control d c s')"
    if "ensure_physical_capacity d s = (Inr u, s')" "latch_of s d c = None" for c u s'
    using base_inv_insert_control [OF b that(2,1)] v ensure_capacity_ok [OF that(1)]
    by (simp add: core_inv_def)
  moreover have "core_inv me (remove_control d c s)" for c
    using base_inv_remove_control [OF b] v by (simp add: core_inv_def)
  ultimately show ?thesis
    using assms
    by (auto simp: track_control_def Let_def split: option.splits PhysicalTransition.splits prod.splits sum.splits)
qed

lemma base_inv_allocate:
  assumes "base_inv me s" and "allocate_effect_id s = (Inr i, s')"
  shows "base_inv me (s'\<lparr>dc_pending_remote :=
           Some \<lparr>prd_id = i, prd_device = d, prd_control = c, prd_transition = t,
                 prd_previous_latch = l, prd_endpoint = e\<rparr>\<rparr>)"
proof -
  obtain n where n: "checked_add_u64 (dc_next_effect_id s) 1 = Some n"
    and i: "i = dc_next_effect_id s" and s': "s' = s\<lparr>dc_next_effect_id := n\<rparr>"
    using assms(2) by (auto simp: allocate_effect_id_def split: option.splits)
  have lt: "dc_next_effect_id s < n" using n by (rule checked_add_u64_one_less)
  hence "x < n" if "x < dc_next_effect_id s" for x using that by simp
  thus ?thesis
    using assms(1) lt by (auto simp: base_inv_def inv_pieces i s')
qed

lemma core_inv_prepare_effect [core_keeps]:
  assumes "core_inv me s"
  shows "core_inv me (snd (prepare_remote_effect event endpoint t now s))"
proof -
  have b: "base_inv me s" and v: "view_ok s" using assms by (auto simp: core_inv_def)
  have err: "s' = s" if "allocate_effect_id s = (Inl e, s')" for e s'
    using that by (auto simp: allocate_effect_id_def split: option.splits)
  have view: "view_ok (s'\<lparr>dc_pending_remote := p\<rparr>)" if "allocate_effect_id s = (Inr i, s')" for i s' p
    using that v by (auto simp: allocate_effect_id_def view_ok_def core_is_enabled_def cleanup_pending_def
        split: option.splits)
  have "core_inv me (snd (fail_closed now s))" using b by (rule core_inv_fail_closed)
  moreover have "core_inv me (s'\<lparr>dc_pending_remote :=
           Some \<lparr>prd_id = i, prd_device = d, prd_control = c, prd_transition = tr,
                 prd_previous_latch = l, prd_endpoint = e\<rparr>\<rparr>)"
    if "allocate_effect_id s = (Inr i, s')" for i s' d c tr l e
    using base_inv_allocate [OF b that] view [OF that] by (simp add: core_inv_def)
  ultimately show ?thesis
    by (auto simp: prepare_remote_effect_def Let_def core_inv_fail_closed_eq [OF _ b]
        split: sum.splits prod.splits dest: err)
qed

lemma core_inv_adjust [core_keeps]: "core_inv me (adjust_latch d c f s) = core_inv me s"
  by (simp add: core_inv_def)

lemma core_inv_route_unlatched [core_keeps]:
  "core_inv me s \<Longrightarrow> core_inv me (snd (route_unlatched event t now s))"
  by (auto simp: route_unlatched_def Let_def core_inv_adjust core_inv_prepare_effect
      split: prod.splits option.splits Destination.splits)

lemma core_inv_route_tracked [core_keeps]:
  assumes "core_inv me s"
  shows "core_inv me (snd (route_tracked event t now s))"
  using assms core_inv_route_unlatched [OF assms] core_inv_prepare_effect [OF assms]
    core_inv_fail_closed_eq [OF _ core_invD(1) [OF assms]]
  by (auto simp: route_tracked_def Let_def
      split: prod.splits option.splits LatchedDestination.splits sum.splits)

lemma core_inv_route_after [core_keeps]:
  assumes "core_inv me s"
  shows "core_inv me (snd (route_after_tracking event t now s))"
proof -
  have b: "base_inv me s" using assms by (auto simp: core_inv_def)
  have "core_inv me s'" if "activate_failsafe now (s\<lparr>dc_drain_failsafe_keys := True\<rparr>) = (r, s')" for r s'
    by (rule core_inv_activate_eq [OF that]) (use b in simp)
  thus ?thesis
    using assms b core_inv_route_tracked [OF assms]
    by (auto simp: route_after_tracking_def split: prod.splits sum.splits)
qed

lemma core_inv_prepare [core_keeps]:
  assumes "core_inv me s"
  shows "core_inv me (snd (prepare_captured captured now s))"
proof -
  have "core_inv me s'" if "track_control d p now s = (r, s')" for d p r s'
    using core_inv_track [OF assms, of d p now] that by simp
  thus ?thesis
    using assms by (auto simp: prepare_captured_def core_inv_route_after split: prod.splits sum.splits)
qed

lemma base_inv_take_matching:
  assumes "core_inv me s"
  shows "take_matching_remote i now s = (Inl e, s') \<Longrightarrow> core_inv me s'"
    and "take_matching_remote i now s = (Inr p, s') \<Longrightarrow> base_inv me s'"
  using assms by (auto simp: take_matching_remote_def core_inv_def split: option.splits if_splits)

lemma base_inv_held:
  "base_inv me s \<Longrightarrow> sorted_map held \<Longrightarrow> length held \<le> MAX_REMOTE_HELD_TOTAL \<Longrightarrow>
   base_inv me (s\<lparr>dc_remote_held := held\<rparr>)"
  by (simp add: base_inv_def inv_pieces)

lemma base_inv_held_insert:
  assumes "base_inv me s" and "contains_key (dc_remote_held s) k \<or> length (dc_remote_held s) < MAX_REMOTE_HELD_TOTAL"
  shows "base_inv me (s\<lparr>dc_remote_held := bt_insert k h (dc_remote_held s)\<rparr>)"
proof -
  have "sorted_map (dc_remote_held s)" "length (dc_remote_held s) \<le> MAX_REMOTE_HELD_TOTAL"
    using assms(1) by (auto simp: base_inv_def held_ok_def)
  thus ?thesis
    using assms by (intro base_inv_held) (auto simp: length_bt_insert contains_key_iff)
qed

lemma base_inv_held_delete: "base_inv me s \<Longrightarrow> base_inv me (s\<lparr>dc_remote_held := AList.delete k (dc_remote_held s)\<rparr>)"
  by (intro base_inv_held)
    (auto simp: base_inv_def held_ok_def intro: order_trans [OF length_delete_le])

lemma base_inv_held_adjust: "base_inv me s \<Longrightarrow> base_inv me (s\<lparr>dc_remote_held := bt_adjust k f (dc_remote_held s)\<rparr>)"
  by (intro base_inv_held) (auto simp: base_inv_def held_ok_def)

lemma core_inv_confirm_remote [core_keeps]:
  assumes "core_inv me s"
  shows "core_inv me (snd (confirm_remote_input effect accepted now s))"
proof (cases "take_matching_remote (rie_decision_id effect) now s")
  case (Pair r s')
  show ?thesis
  proof (cases r)
    case (Inl e)
    thus ?thesis using Pair base_inv_take_matching(1) [OF assms] by (simp add: confirm_remote_input_def)
  next
    case (Inr p)
    have b: "base_inv me s'" using base_inv_take_matching(2) [OF assms] Pair Inr by simp
    have f: "core_inv me s''" if "fail_closed now s' = (r, s'')" for r s''
      using that b by (rule core_inv_fail_closed_eq)
    show ?thesis
      using Pair Inr b f core_inv_fail_closed [OF b]
      by (auto simp: confirm_remote_input_def Let_def base_inv_held_insert base_inv_held_delete base_inv_held_adjust
          split: option.splits PhysicalTransition.splits prod.splits sum.splits)
  qed
qed

lemma core_inv_fail_remote [core_keeps]:
  assumes "core_inv me s"
  shows "core_inv me (snd (fail_remote_input effect now s))"
  using base_inv_take_matching [OF assms]
  by (auto simp: fail_remote_input_def Let_def core_inv_fail_closed split: prod.splits sum.splits option.splits)

lemma core_inv_process [core_keeps]:
  assumes "core_inv me s"
  shows "core_inv me (snd (process_captured captured now s))"
proof -
  have p: "core_inv me s1" if "prepare_captured captured now s = (r, s1)" for r s1
    using core_inv_prepare [OF assms, of captured now] that by simp
  have "core_inv me s2" if "prepare_captured captured now s = (r, s1)" "fail_remote_input e now s1 = (q, s2)" for r s1 e q s2
    using core_inv_fail_remote [OF p [OF that(1)], of e now] that(2) by simp
  with p show ?thesis
    by (auto simp: process_captured_def Let_def split: prod.splits sum.splits CaptureDecision.splits)
qed

subsection \<open>Control operations\<close>

lemma core_inv_tick [core_keeps]:
  assumes "core_inv me s"
  shows "core_inv me (snd (tick now s))"
proof -
  have "core_inv me (s\<lparr>dc_drain_failsafe_keys := False\<rparr>)" if "dc_drain_failsafe_keys s"
    using assms that
    by (auto simp: core_inv_def view_ok_def core_is_enabled_def cleanup_pending_def)
  with assms show ?thesis
    by (auto simp: tick_def Let_def core_inv_def)
qed

lemma base_inv_policy:
  assumes "base_inv me s" and "valid_config (prp_config p)" and "routing_from_config (prp_config p) = Inr (prp_routing p)"
    and "device_route_revision (prp_config p) = prp_next_revision p"
    and "dc_route_policy_revision s < prp_next_revision p"
  shows "base_inv me (s\<lparr>dc_pending_route_policy := Some p\<rparr>)"
  using assms by (simp add: base_inv_def inv_pieces)

lemma base_inv_policy_none [simp]: "base_inv me s \<Longrightarrow> base_inv me (s\<lparr>dc_pending_route_policy := None\<rparr>)"
  by (simp add: base_inv_def inv_pieces)

lemma core_inv_queue_eq:
  assumes "core_inv me s"
  shows "queue_remote_cleanup A s = (Inl e, s') \<Longrightarrow> core_inv me s'"
    and "queue_remote_cleanup A s = (Inr u, s') \<Longrightarrow> base_inv me s'"
  using queue_error_unchanged base_inv_queue_ok assms by (auto simp: core_inv_def)

lemma core_inv_prepare_policy [core_keeps]:
  assumes "core_inv me s"
  shows "core_inv me (snd (prepare_route_policy_update candidate expected now s))"
proof -
  have "base_inv me (s'\<lparr>dc_pending_route_policy := Some p\<rparr>)"
    if q: "queue_remote_cleanup A s = (Inr u, s')"
      and n: "checked_add_u64 (dc_route_policy_revision s) 1 = Some (prp_next_revision p)"
      and v: "Config_validate (prp_config p) = Inr w"
      and r: "routing_from_config (prp_config p) = Inr (prp_routing p)"
      and d: "device_route_revision (prp_config p) = prp_next_revision p" for A u w s' p
  proof (rule base_inv_policy)
    show "base_inv me s'" using core_inv_queue_eq(2) [OF assms q] .
    show "valid_config (prp_config p)" using v by (simp add: Config_validate_ok)
    have "dc_route_policy_revision s' = dc_route_policy_revision s"
      using q queue_fields(15) [of A s] by simp
    thus "dc_route_policy_revision s' < prp_next_revision p"
      using checked_add_u64_one_less [OF n] by simp
  qed (use r d in simp_all)
  with assms core_inv_queue_eq(1) [OF assms] show ?thesis
    by (auto simp: prepare_route_policy_update_def Let_def is_ok_iff
        split: option.splits sum.splits prod.splits)
qed

lemma core_inv_retry_policy [core_keeps]:
  assumes "core_inv me s"
  shows "core_inv me (snd (retry_route_policy_update now s))"
  using assms core_inv_queue_eq [OF assms]
  by (auto simp: retry_route_policy_update_def Let_def split: option.splits sum.splits prod.splits)

lemma held_shape_relatch:
  "held_shape (map (\<lambda>(d, cs). (d, map (\<lambda>(c, l). (c, f d l)) cs)) pcs) = held_shape pcs"
  by (induction pcs) (auto simp: held_shape_def comp_def split_def)

lemma sorted_map_map_values:
  "(\<And>x. fst (f x) = fst x) \<Longrightarrow> sorted_map (map f m) = sorted_map m"
  by (simp add: sorted_map_def comp_def)

lemma core_inv_commit_policy [core_keeps]:
  assumes "core_inv me s"
  shows "core_inv me (snd (commit_route_policy_update next now s))"
proof -
  have fst_keep: "fst ((\<lambda>((e, d, c), h). ((e, d, c), h\<lparr>rh_route := g d\<rparr>)) x) = fst x"
    for g and x :: "held_key \<times> RemoteHeldState" by (simp split: prod.splits)
  have "base_inv me (s\<lparr>dc_remote_held := map (\<lambda>((e, d, c), h). ((e, d, c), h\<lparr>rh_route := route_for (prp_routing p) d\<rparr>))
                             (dc_remote_held s),
                       dc_physical_controls := map (\<lambda>(d, cs). (d, map (\<lambda>(c, l). (c, reroute_latch (route_for (prp_routing p) d) l)) cs))
                                 (dc_physical_controls s),
                       dc_config := prp_config p, dc_routing := prp_routing p,
                       dc_route_policy_revision := prp_next_revision p, dc_pending_route_policy := None\<rparr>)"
    if "dc_pending_route_policy s = Some p" for p
    using core_invD(1) [OF assms] that
    by (simp add: base_inv_def inv_pieces held_shape_relatch sorted_map_map_values [OF fst_keep])
  with assms show ?thesis
    by (auto simp: commit_route_policy_update_def Let_def split: option.splits sum.splits)
qed

lemma core_inv_abort_policy [core_keeps]:
  "core_inv me s \<Longrightarrow> core_inv me (snd (abort_route_policy_update next now s))"
  by (auto simp: abort_route_policy_update_def core_invD split: option.splits)

lemma sorted_sync_peers: "sorted_map m \<Longrightarrow> sorted_map (sync_peers config m)"
proof -
  have "sorted_map m \<Longrightarrow> sorted_map (fold (\<lambda>peer m. if contains_key m (ph_host_id peer) then m
      else bt_insert (ph_host_id peer) PS_Disconnected m) ps m)" for ps m
    by (induction ps arbitrary: m) auto
  thus "sorted_map m \<Longrightarrow> ?thesis" by (auto simp: sync_peers_def)
qed

lemma base_inv_peers: "base_inv me s \<Longrightarrow> sorted_map ps \<Longrightarrow> base_inv me (s\<lparr>dc_peers := ps\<rparr>)"
  by (simp add: base_inv_def inv_pieces)

lemma base_inv_config:
  assumes "base_inv me s" and "Config_validate c = Inr u" and "routing_from_config c = Inr r"
    and "device_route_revision c = dc_route_policy_revision s" and "dc_pending_route_policy s = None"
  shows "base_inv me (s\<lparr>dc_config := c, dc_routing := r\<rparr>)"
  using assms by (simp add: base_inv_def inv_pieces Config_validate_ok)

lemma core_inv_same_routes [core_keeps]:
  assumes inv: "core_inv me s" and rev: "device_route_revision config = dc_route_policy_revision s"
  shows "core_inv me (snd (apply_same_routes config now s))"
proof -
  let ?A = "\<lambda>_ endpoint _. \<not> is_paired config endpoint"
  have done': "base_inv me (s2\<lparr>dc_config := config, dc_routing := routing\<rparr>)"
    if "queue_remote_cleanup ?A s = (Inr u, s')" "Config_validate config = Inr w"
      "routing_from_config config = Inr routing" "dc_pending_route_policy s = None"
      "s2 = s'\<lparr>dc_peers := sync_peers config (dc_peers s')\<rparr>
       \<or> s2 = (return_to_local (s'\<lparr>dc_peers := sync_peers config (dc_peers s')\<rparr>))
            \<lparr>dc_workspace_ready := False, dc_handoff_pending := False\<rparr>" for u s' w routing s2
  proof (rule base_inv_config)
    have b: "base_inv me s'" using core_inv_queue_eq(2) [OF inv that(1)] .
    hence "sorted_map (sync_peers config (dc_peers s'))"
      by (intro sorted_sync_peers) (simp add: base_inv_def peers_ok_def)
    thus "base_inv me s2" using that(5) b base_inv_peers by auto
    have f: "dc_route_policy_revision s' = dc_route_policy_revision s"
      "dc_pending_route_policy s' = dc_pending_route_policy s"
      using that(1) queue_fields(14,15) [of ?A s] by simp_all
    thus "device_route_revision config = dc_route_policy_revision s2"
      using that(5) rev by (auto simp: return_to_local_def)
    show "dc_pending_route_policy s2 = None"
      using that(4,5) f by (auto simp: return_to_local_def)
  qed (use that in simp_all)
  have qe: "core_inv me s'" if "queue_remote_cleanup ?A s = (Inl e, s')" for e s'
    using core_inv_queue_eq(1) [OF inv that] .
  have qb: "base_inv me s'" if "queue_remote_cleanup ?A s = (Inr u, s')" for u s'
    using core_inv_queue_eq(2) [OF inv that] .
  show ?thesis
    using inv qe qb done'
    by (auto simp: apply_same_routes_def Let_def split: sum.splits prod.splits)
qed

lemma core_inv_update_config [core_keeps]:
  assumes "core_inv me s"
  shows "core_inv me (snd (update_config config now s))"
proof -
  have p: "core_inv me s'" if "prepare_route_policy_update config r now s = (x, s')" for r x s'
    using core_inv_prepare_policy [OF assms, of config r now] that by simp
  have "core_inv me s''" if "prepare_route_policy_update config r now s = (x, s')"
    "commit_route_policy_update n now s' = (y, s'')" for r x s' n y s''
    using core_inv_commit_policy [OF p [OF that(1)], of n now] that(2) by simp
  with p show ?thesis
    using core_inv_same_routes [OF assms, of config now]
    by (auto simp: update_config_def split: sum.splits prod.splits option.splits RoutePolicyUpdateStatus.splits)
qed

lemma core_inv_gate [core_keeps]:
  assumes "core_inv me s"
  shows "core_inv me (snd (gate_local_devices devices now s))"
proof -
  have b: "base_inv me s" using assms by (rule core_invD)
  have "base_inv me (s\<lparr>dc_gated_local_devices := dc_gated_local_devices s \<union> set devices\<rparr>)"
    if "\<not> list_ex (\<lambda>d. d = nil_id) devices"
      "\<not> MAX_GATED_LOCAL_DEVICES < card (dc_gated_local_devices s) + card {d \<in> set devices. d \<notin> dc_gated_local_devices s}"
  proof -
    let ?new = "{d \<in> set devices. d \<notin> dc_gated_local_devices s}"
    have "dc_gated_local_devices s \<union> set devices = dc_gated_local_devices s \<union> ?new" by auto
    moreover have "card (dc_gated_local_devices s \<union> ?new) \<le> card (dc_gated_local_devices s) + card ?new"
      by (rule card_Un_le)
    ultimately show ?thesis
      using b that by (auto simp: base_inv_def inv_pieces list_ex_iff)
  qed
  with assms show ?thesis
    by (auto simp: gate_local_devices_def Let_def split_def)
qed

lemma core_inv_restore [core_keeps]:
  assumes "core_inv me s"
  shows "core_inv me (snd (restore_local_device d now s))"
proof -
  have b: "base_inv me s" using assms by (rule core_invD)
  have gone: "base_inv me (s'\<lparr>dc_gated_local_devices := dc_gated_local_devices s' - {d}\<rparr>)"
    if "base_inv me s'" for s'
    using that by (auto simp: base_inv_def inv_pieces intro: order_trans [OF card_mono])
  have "base_inv me (s\<lparr>dc_physical_controls := AList.delete d (dc_physical_controls s),
                       dc_physical_control_count := dc_physical_control_count s - length cs\<rparr>)"
    if "map_of (dc_physical_controls s) d = Some cs" for cs
  proof (rule base_inv_controls [OF b])
    have "shape_ok (held_shape (dc_physical_controls s)) (dc_physical_control_count s)"
      using b by (simp add: base_inv_def physical_ok_def)
    from shape_ok_delete [OF this, of d "map fst cs"] that
    show "shape_ok (held_shape (AList.delete d (dc_physical_controls s))) (dc_physical_control_count s - length cs)"
      by (simp add: held_shape_map_of)
  qed
  from gone [OF b] gone [OF this] assms show ?thesis
    by (auto simp: restore_local_device_def Let_def split: option.splits)
qed

lemma base_inv_workspace:
  "base_inv me s \<Longrightarrow> local_host w = local_host (dc_workspace s) \<Longrightarrow>
   active_display w = lp_display_id (ws_pointer w) \<Longrightarrow> base_inv me (s\<lparr>dc_workspace := w\<rparr>)"
  by (simp add: base_inv_def inv_pieces)

lemma core_inv_update_workspace [core_keeps]:
  assumes "core_inv me s"
  shows "core_inv me (snd (update_workspace w now s))"
proof -
  have "base_inv me (s'\<lparr>dc_workspace := w\<rparr>)"
    if "queue_remote_cleanup follows_active s = (Inr u, s')"
      "local_host w = local_host (dc_workspace s)" "active_display w = lp_display_id (ws_pointer w)" for u s'
    using that core_inv_queue_eq(2) [OF assms that(1)] queue_fields(2) [of follows_active s]
    by (intro base_inv_workspace) simp_all
  with assms core_inv_queue_eq [OF assms, of follows_active] show ?thesis
    by (auto simp: update_workspace_def core_invD base_inv_workspace split: sum.splits prod.splits)
qed

lemma core_inv_handoff [core_keeps]:
  assumes "core_inv me s"
  shows "core_inv me (snd (begin_pointer_handoff now s))"
    and "core_inv me (cancel_pointer_handoff now s)"
    and "core_inv me (abort_destination_handoff_barrier now s)"
    and "core_inv me (snd (finish_pointer_handoff w now s))"
proof -
  have b: "base_inv me s" using assms by (rule core_invD)
  show "core_inv me (snd (begin_pointer_handoff now s))"
    using assms b by (simp add: begin_pointer_handoff_def Let_def split_def)
  show "core_inv me (cancel_pointer_handoff now s)" "core_inv me (abort_destination_handoff_barrier now s)"
    using b by (simp_all add: cancel_pointer_handoff_def abort_destination_handoff_barrier_def)
  have "core_inv me s'" if "update_workspace w now s = (r, s')" for r s'
    using core_inv_update_workspace [OF assms, of w now] that by simp
  thus "core_inv me (snd (finish_pointer_handoff w now s))"
    using assms by (auto simp: finish_pointer_handoff_def core_invD split: sum.splits prod.splits)
qed

lemma base_inv_availability:
  "base_inv me s \<Longrightarrow> sorted_map m \<Longrightarrow> (\<forall>h a. (h, a) \<in> set m \<longrightarrow> se_host_id (ea_endpoint a) = h) \<Longrightarrow> sorted_map ps \<Longrightarrow>
   base_inv me (s\<lparr>dc_endpoint_availability := m, dc_peers := ps\<rparr>)"
  by (simp add: base_inv_def inv_pieces)

lemma peersD:
  "base_inv me s \<Longrightarrow> sorted_map (dc_peers s) \<and> sorted_map (dc_endpoint_availability s)
     \<and> (\<forall>h a. (h, a) \<in> set (dc_endpoint_availability s) \<longrightarrow> se_host_id (ea_endpoint a) = h)"
  by (simp add: base_inv_def peers_ok_def)

lemma core_inv_peers [core_keeps]:
  assumes "core_inv me s"
  shows "core_inv me (snd (set_peer_state h st now s))"
    and "core_inv me (snd (install_session_endpoint e now s))"
    and "core_inv me (snd (set_endpoint_state e st now s))"
    and "core_inv me (snd (retire_session_endpoint e now s))"
proof -
  have b: "base_inv me s" using assms by (rule core_invD)
  note p = peersD [OF b]
  show "core_inv me (snd (set_peer_state h st now s))"
    using assms b p by (auto simp: set_peer_state_def intro!: base_inv_peers)
  have "base_inv me (s\<lparr>dc_endpoint_availability := bt_insert (se_host_id e) \<lparr>ea_endpoint = e, ea_state = q\<rparr> (dc_endpoint_availability s),
                       dc_peers := bt_insert (se_host_id e) q (dc_peers s)\<rparr>)" for q
    using p by (intro base_inv_availability [OF b]) (auto simp: set_bt_insert)
  thus "core_inv me (snd (install_session_endpoint e now s))"
    using assms by (auto simp: install_session_endpoint_def)
  have "base_inv me (s\<lparr>dc_endpoint_availability := bt_adjust (se_host_id e) (\<lambda>a. a\<lparr>ea_state := st\<rparr>) (dc_endpoint_availability s),
                       dc_peers := bt_insert (se_host_id e) st (dc_peers s)\<rparr>)"
    using p by (intro base_inv_availability [OF b]) (auto simp: set_bt_adjust split: if_splits)
  thus "core_inv me (snd (set_endpoint_state e st now s))"
    using assms by (auto simp: set_endpoint_state_def Let_def split_def)
  have "base_inv me (s\<lparr>dc_endpoint_availability := AList.delete (se_host_id e) (dc_endpoint_availability s),
                       dc_peers := bt_insert (se_host_id e) PS_Disconnected (dc_peers s)\<rparr>)"
    using p set_delete_subset [of "se_host_id e" "dc_endpoint_availability s"]
    by (intro base_inv_availability [OF b]) auto
  thus "core_inv me (snd (retire_session_endpoint e now s))"
    using assms by (auto simp: retire_session_endpoint_def)
qed

lemma core_inv_lifecycle [core_keeps]:
  assumes "core_inv me s"
  shows "core_inv me (core_enable now s)"
    and "core_inv me (snd (core_disable now s))"
    and "core_inv me (snd (trigger_emergency now s))"
    and "core_inv me (snd (core_shutdown now s))"
    and "core_inv me (snd (clear_workspace_routing_ready now s))"
    and "core_inv me (snd (mark_workspace_routing_ready now s))"
  using assms core_invD(1) [OF assms]
  by (auto simp: core_enable_def core_disable_def trigger_emergency_def core_shutdown_def
      clear_workspace_routing_ready_def mark_workspace_routing_ready_def core_keeps
      split: LifecycleState.splits)

subsection \<open>The cleanup ledger\<close>

lemma ledgerD: "base_inv me s \<Longrightarrow> ledger_ok s"
  by (simp add: base_inv_def)

lemma base_inv_ledger:
  "base_inv me s \<Longrightarrow> ledger_ok (s\<lparr>dc_cleanup := q, dc_cleanup_in_flight := f\<rparr>) \<Longrightarrow>
   base_inv me (s\<lparr>dc_cleanup := q, dc_cleanup_in_flight := f\<rparr>)"
  by (simp add: base_inv_def physical_ok_def held_ok_def policy_ok_def peers_ok_def gates_ok_def workspace_ok_def)

lemma base_inv_in_flight:
  "base_inv me s \<Longrightarrow> ledger_ok (s\<lparr>dc_cleanup_in_flight := f\<rparr>) \<Longrightarrow> base_inv me (s\<lparr>dc_cleanup_in_flight := f\<rparr>)"
  by (simp add: base_inv_def physical_ok_def held_ok_def policy_ok_def peers_ok_def gates_ok_def workspace_ok_def)

lemma core_inv_take_cleanup [core_keeps]:
  assumes "core_inv me s"
  shows "core_inv me (snd (take_next_cleanup_release s))"
proof -
  have b: "base_inv me s" using assms by (rule core_invD)
  have "core_inv me (s\<lparr>dc_cleanup_in_flight := Some (ce_id entry)\<rparr>)" if "dc_cleanup s = entry # rest" for entry rest
  proof -
    have "base_inv me (s\<lparr>dc_cleanup_in_flight := Some (ce_id entry)\<rparr>)"
      by (rule base_inv_in_flight [OF b]) (use ledgerD [OF b] that in \<open>simp add: ledger_ok_def\<close>)
    moreover have "view_ok (s\<lparr>dc_cleanup_in_flight := Some (ce_id entry)\<rparr>)"
      using assms that by (auto simp: core_inv_def view_ok_def core_is_enabled_def cleanup_pending_def)
    ultimately show ?thesis by (simp add: core_inv_def)
  qed
  with assms show ?thesis
    by (auto simp: take_next_cleanup_release_def split: option.splits list.splits)
qed

lemma ledger_ok_tail:
  "ledger_ok s \<Longrightarrow> dc_cleanup s = entry # rest \<Longrightarrow> ledger_ok (s\<lparr>dc_cleanup := rest, dc_cleanup_in_flight := None\<rparr>)"
  by (simp add: ledger_ok_def)

lemma core_inv_confirm_cleanup [core_keeps]:
  assumes "core_inv me s"
  shows "core_inv me (snd (confirm_cleanup_release effect now s))"
proof -
  have b: "base_inv me s" using assms by (rule core_invD)
  have "base_inv me (s\<lparr>dc_cleanup := rest, dc_cleanup_in_flight := None,
                       dc_remote_held := AList.delete k (dc_remote_held s)\<rparr>)"
    if "dc_cleanup s = entry # rest" for entry rest k
  proof -
    have "base_inv me (s\<lparr>dc_cleanup := rest, dc_cleanup_in_flight := None\<rparr>)"
      by (rule base_inv_ledger [OF b]) (use ledger_ok_tail [OF ledgerD [OF b]] that in blast)
    from base_inv_held_delete [OF this, of k] show ?thesis by simp
  qed
  with assms b show ?thesis
    by (auto simp: confirm_cleanup_release_def split: list.splits)
qed

lemma core_inv_retry_cleanup [core_keeps]:
  assumes "core_inv me s"
  shows "core_inv me (snd (retry_cleanup_release effect now s))"
proof -
  have b: "base_inv me s" using assms by (rule core_invD)
  have "ledger_ok ((return_to_local s)\<lparr>dc_cleanup_in_flight := None\<rparr>)"
    using ledgerD [OF b] by (auto simp: ledger_ok_def return_to_local_def)
  hence "base_inv me ((return_to_local s)\<lparr>dc_cleanup_in_flight := None\<rparr>)"
    using b by (intro base_inv_in_flight) simp_all
  with b show ?thesis by (simp add: retry_cleanup_release_def)
qed

lemma ledger_ok_filter:
  assumes "ledger_ok s"
  shows "ledger_ok (s\<lparr>dc_cleanup := filter P (dc_cleanup s),
           dc_cleanup_in_flight :=
             (case dc_cleanup s of [] \<Rightarrow> dc_cleanup_in_flight s
              | entry # rest \<Rightarrow> if P entry then dc_cleanup_in_flight s else None)\<rparr>)"
proof -
  have "length (filter P (dc_cleanup s)) \<le> MAX_PENDING_REMOTE_CLEANUP"
    using assms length_filter_le order_trans unfolding ledger_ok_def by blast
  moreover have "distinct (map cleanup_key (filter P (dc_cleanup s)))"
    using assms distinct_map_filter unfolding ledger_ok_def by blast
  moreover have "sorted_wrt (<) (map ce_id (filter P (dc_cleanup s)))"
    using assms unfolding ledger_ok_def by (simp add: sorted_wrt_map sorted_wrt_filter)
  ultimately show ?thesis
    using assms unfolding ledger_ok_def
    by (auto simp: list_all_iff split: list.splits)
qed

lemma core_inv_invalidated [core_keeps]:
  assumes "core_inv me s"
  shows "core_inv me (confirm_transport_invalidated e now s)"
proof -
  let ?h = "se_host_id e"
  let ?P = "\<lambda>entry. ce_endpoint entry \<noteq> e"
  have b: "base_inv me s" using assms by (rule core_invD)
  have in_flight: "(if (case dc_cleanup s of [] \<Rightarrow> None
           | entry # rest \<Rightarrow> if Some (ce_id entry) = dc_cleanup_in_flight s then Some (ce_endpoint entry) else None)
         = Some e then None else dc_cleanup_in_flight s)
    = (case dc_cleanup s of [] \<Rightarrow> dc_cleanup_in_flight s
       | entry # rest \<Rightarrow> if ?P entry then dc_cleanup_in_flight s else None)"
    using ledgerD [OF b] by (cases "dc_cleanup_in_flight s") (auto simp: ledger_ok_def split: list.splits)
  define s1 where "s1 = (if is_current_endpoint s e
                then (return_if_active ?h
                       (s\<lparr>dc_endpoint_availability := AList.delete ?h (dc_endpoint_availability s),
                          dc_peers := bt_adjust ?h (\<lambda>_. PS_Disconnected) (dc_peers s)\<rparr>))
                      \<lparr>dc_workspace_ready := False, dc_handoff_pending := False\<rparr>
                else s)"
  have "base_inv me (s\<lparr>dc_endpoint_availability := AList.delete ?h (dc_endpoint_availability s),
                       dc_peers := bt_adjust ?h (\<lambda>_. PS_Disconnected) (dc_peers s)\<rparr>)"
    using peersD [OF b] set_delete_subset [of ?h "dc_endpoint_availability s"]
    by (intro base_inv_availability [OF b]) auto
  hence b1: "base_inv me s1" using b by (simp add: s1_def)
  have fields: "dc_cleanup s1 = dc_cleanup s" "dc_cleanup_in_flight s1 = dc_cleanup_in_flight s"
    "dc_remote_held s1 = dc_remote_held s" "dc_physical_controls s1 = dc_physical_controls s"
    "dc_physical_control_count s1 = dc_physical_control_count s"
    by (simp_all add: s1_def return_if_active_def return_to_local_def)
  let ?s2 = "s1\<lparr>dc_cleanup := filter ?P (dc_cleanup s1),
               dc_cleanup_in_flight := (case dc_cleanup s1 of [] \<Rightarrow> dc_cleanup_in_flight s1
                 | entry # rest \<Rightarrow> if ?P entry then dc_cleanup_in_flight s1 else None)\<rparr>"
  have b2: "base_inv me ?s2"
    by (rule base_inv_ledger [OF b1]) (rule ledger_ok_filter [OF ledgerD [OF b1]])
  let ?held = "filter (\<lambda>((e', d, c), h). e' \<noteq> e) (dc_remote_held s)"
  have "sorted_map (dc_remote_held s)" "length (dc_remote_held s) \<le> MAX_REMOTE_HELD_TOTAL"
    using b by (auto simp: base_inv_def held_ok_def)
  hence b3: "base_inv me (?s2\<lparr>dc_remote_held := ?held\<rparr>)"
    by (intro base_inv_held [OF b2]) (auto intro: order_trans [OF length_filter_le])
  let ?pcs = "map (\<lambda>(d, cs). (d, map (\<lambda>(c, l). (c, quarantine_if e l)) cs)) (dc_physical_controls s)"
  have "base_inv me (?s2\<lparr>dc_remote_held := ?held, dc_physical_controls := ?pcs\<rparr>)"
    using b3 held_shape_relatch [of "\<lambda>_. quarantine_if e" "dc_physical_controls s"] fields
    by (simp add: base_inv_def inv_pieces)
  thus ?thesis
    unfolding confirm_transport_invalidated_def Let_def s1_def [symmetric] in_flight fields core_inv_publish
    by assumption
qed

end
