(* ===== verification/DaemonSafety.thy ===== *)
theory DaemonSafety
  imports DaemonInvariant
begin

text \<open>
  What the daemon core guarantees: its operations as one step relation with the invariant in every
  reachable state, the accounting of remotely held controls, which captured records may leave the
  host, the emergency shortcut, failing closed, settling queued releases, and two-phase route
  policies.  A concrete core (one paired host, one routed device) serves as the example throughout.
\<close>

section \<open>The core as a step relation\<close>

datatype core_op =
    OpPrepare CapturedInput | OpConfirmRemote RemoteInputEffect u64 | OpFailRemote RemoteInputEffect
  | OpProcess CapturedInput | OpTick
  | OpUpdateConfig Config | OpPreparePolicy Config u64 | OpRetryPolicy | OpCommitPolicy u64 | OpAbortPolicy u64
  | OpGate "DeviceId list" | OpRestore DeviceId
  | OpUpdateWorkspace WorkspaceState | OpBeginHandoff | OpCancelHandoff | OpAbortBarrier
  | OpFinishHandoff WorkspaceState
  | OpSetPeer HostId CorePeerState | OpInstall SessionEndpoint | OpSetEndpoint SessionEndpoint CorePeerState
  | OpRetire SessionEndpoint
  | OpEnable | OpDisable | OpEmergency | OpShutdown | OpClearReady | OpMarkReady
  | OpTakeCleanup | OpConfirmCleanup CleanupReleaseEffect | OpRetryCleanup CleanupReleaseEffect
  | OpInvalidated SessionEndpoint

fun core_step :: "core_op \<Rightarrow> u64 \<Rightarrow> DaemonCore \<Rightarrow> DaemonCore" where
  "core_step (OpPrepare c) now s = snd (prepare_captured c now s)"
| "core_step (OpConfirmRemote e q) now s = snd (confirm_remote_input e q now s)"
| "core_step (OpFailRemote e) now s = snd (fail_remote_input e now s)"
| "core_step (OpProcess c) now s = snd (process_captured c now s)"
| "core_step OpTick now s = snd (tick now s)"
| "core_step (OpUpdateConfig c) now s = snd (update_config c now s)"
| "core_step (OpPreparePolicy c r) now s = snd (prepare_route_policy_update c r now s)"
| "core_step OpRetryPolicy now s = snd (retry_route_policy_update now s)"
| "core_step (OpCommitPolicy r) now s = snd (commit_route_policy_update r now s)"
| "core_step (OpAbortPolicy r) now s = snd (abort_route_policy_update r now s)"
| "core_step (OpGate ds) now s = snd (gate_local_devices ds now s)"
| "core_step (OpRestore d) now s = snd (restore_local_device d now s)"
| "core_step (OpUpdateWorkspace w) now s = snd (update_workspace w now s)"
| "core_step OpBeginHandoff now s = snd (begin_pointer_handoff now s)"
| "core_step OpCancelHandoff now s = cancel_pointer_handoff now s"
| "core_step OpAbortBarrier now s = abort_destination_handoff_barrier now s"
| "core_step (OpFinishHandoff w) now s = snd (finish_pointer_handoff w now s)"
| "core_step (OpSetPeer h st) now s = snd (set_peer_state h st now s)"
| "core_step (OpInstall e) now s = snd (install_session_endpoint e now s)"
| "core_step (OpSetEndpoint e st) now s = snd (set_endpoint_state e st now s)"
| "core_step (OpRetire e) now s = snd (retire_session_endpoint e now s)"
| "core_step OpEnable now s = core_enable now s"
| "core_step OpDisable now s = snd (core_disable now s)"
| "core_step OpEmergency now s = snd (trigger_emergency now s)"
| "core_step OpShutdown now s = snd (core_shutdown now s)"
| "core_step OpClearReady now s = snd (clear_workspace_routing_ready now s)"
| "core_step OpMarkReady now s = snd (mark_workspace_routing_ready now s)"
| "core_step OpTakeCleanup now s = snd (take_next_cleanup_release s)"
| "core_step (OpConfirmCleanup e) now s = snd (confirm_cleanup_release e now s)"
| "core_step (OpRetryCleanup e) now s = snd (retry_cleanup_release e now s)"
| "core_step (OpInvalidated e) now s = confirm_transport_invalidated e now s"

inductive core_reach :: "HostId \<Rightarrow> DaemonCore \<Rightarrow> bool" for me where
  start: "core_new config w = Inr s \<Longrightarrow> local_host w = me \<Longrightarrow> core_reach me s"
| step: "core_reach me s \<Longrightarrow> core_reach me (core_step op now s)"

lemma core_inv_step: "core_inv me s \<Longrightarrow> core_inv me (core_step op now s)"
  by (cases op) (simp_all add: core_keeps)

lemma sorted_initial_peers:
  "sorted_map m \<Longrightarrow> sorted_map (fold (\<lambda>p m. bt_insert (ph_host_id p) PS_Disconnected m) ps m)"
  by (induction ps arbitrary: m) auto

lemma core_inv_new:
  assumes "core_new config w = Inr s"
  shows "core_inv (local_host w) s"
proof -
  obtain routing where v: "Config_validate config = Inr ()" and r: "routing_from_config config = Inr routing"
    and w: "local_host w \<noteq> nil_id" "active_display w = lp_display_id (ws_pointer w)"
    using assms by (auto simp: core_new_def split: if_splits)
  show ?thesis
    using assms v r w
    by (auto simp: core_new_def Let_def core_inv_def base_inv_def inv_pieces view_ok_def shape_ok_def
        held_shape_def Config_validate_ok sorted_initial_peers split: if_splits)
qed

lemma core_reach_inv: "core_reach me s \<Longrightarrow> core_inv me s"
  by (induction rule: core_reach.induct) (use core_inv_new core_inv_step in auto)

section \<open>Held controls are never forgotten\<close>

definition remote_keys :: "DaemonCore \<Rightarrow> held_key set" where
  "remote_keys s = fst ` set (dc_remote_held s)"

lemma remote_keys_simps [simp]:
  "remote_keys (publish_snapshot now s) = remote_keys s"
  "remote_keys (return_to_local s) = remote_keys s"
  "remote_keys (return_if_active h s) = remote_keys s"
  "remote_keys (adjust_latch d c f s) = remote_keys s"
  "remote_keys (insert_control d c s) = remote_keys s"
  "remote_keys (remove_control d c s) = remote_keys s"
  "remote_keys (snd (queue_remote_cleanup A s)) = remote_keys s"
  "remote_keys (s\<lparr>dc_workspace_ready := b\<rparr>) = remote_keys s"
  "remote_keys (s\<lparr>dc_handoff_pending := b\<rparr>) = remote_keys s"
  "remote_keys (s\<lparr>dc_drain_failsafe_keys := b\<rparr>) = remote_keys s"
  "remote_keys (s\<lparr>dc_suspended_until_ns := n\<rparr>) = remote_keys s"
  "remote_keys (s\<lparr>dc_lifecycle := l\<rparr>) = remote_keys s"
  "remote_keys (s\<lparr>dc_pending_remote := p\<rparr>) = remote_keys s"
  "remote_keys (s\<lparr>dc_next_effect_id := n\<rparr>) = remote_keys s"
  "remote_keys (s\<lparr>dc_pending_route_policy := q\<rparr>) = remote_keys s"
  "remote_keys (s\<lparr>dc_workspace := w\<rparr>) = remote_keys s"
  "remote_keys (s\<lparr>dc_peers := ps\<rparr>) = remote_keys s"
  "remote_keys (s\<lparr>dc_endpoint_availability := av\<rparr>) = remote_keys s"
  "remote_keys (s\<lparr>dc_gated_local_devices := g\<rparr>) = remote_keys s"
  "remote_keys (s\<lparr>dc_config := cf\<rparr>) = remote_keys s"
  "remote_keys (s\<lparr>dc_routing := rt\<rparr>) = remote_keys s"
  "remote_keys (s\<lparr>dc_cleanup_in_flight := fl\<rparr>) = remote_keys s"
  "remote_keys (s\<lparr>dc_physical_controls := pcs\<rparr>) = remote_keys s"
  "remote_keys (s\<lparr>dc_physical_control_count := m\<rparr>) = remote_keys s"
  "remote_keys (s\<lparr>dc_route_policy_revision := r\<rparr>) = remote_keys s"
  by (auto simp: remote_keys_def publish_snapshot_def return_to_local_def return_if_active_def adjust_latch_def
      insert_control_def remove_control_def Let_def split: option.splits)

lemma remote_keys_queue_eq: "queue_remote_cleanup A s = (r, s') \<Longrightarrow> remote_keys s' = remote_keys s"
  using remote_keys_simps(7) by (metis snd_conv)

named_theorems keeps_held \<open>operations after which the same controls are remotely held\<close>

lemma remote_keys_fail_closed [keeps_held, simp]: "remote_keys (snd (fail_closed now s)) = remote_keys s"
  by (simp add: fail_closed_def split_def Let_def)

lemma remote_keys_fail_closed_eq: "fail_closed now s = (r, s') \<Longrightarrow> remote_keys s' = remote_keys s"
  using remote_keys_fail_closed by (metis snd_conv)

lemma remote_keys_activate [keeps_held, simp]: "remote_keys (snd (activate_failsafe now s)) = remote_keys s"
  by (simp add: activate_failsafe_def split_def Let_def)

lemma remote_keys_activate_eq: "activate_failsafe now s = (r, s') \<Longrightarrow> remote_keys s' = remote_keys s"
  using remote_keys_activate by (metis snd_conv)

lemma remote_keys_track: "remote_keys (snd (track_control d p now s)) = remote_keys s"
proof -
  have "remote_keys s' = remote_keys s" if "ensure_physical_capacity d s = (r, s')" for r s'
    using that by (auto simp: ensure_physical_capacity_def Let_def split: if_splits)
  thus ?thesis
    by (auto simp: track_control_def Let_def split: option.splits PhysicalTransition.splits prod.splits sum.splits)
qed

lemma remote_keys_prepare_effect [simp]: "remote_keys (snd (prepare_remote_effect ev e t now s)) = remote_keys s"
proof -
  have "remote_keys (snd (allocate_effect_id s)) = remote_keys s"
    by (simp add: allocate_effect_id_def split: option.splits)
  thus ?thesis
    by (simp add: prepare_remote_effect_def Let_def split_def split: sum.split)
qed

lemma remote_keys_unlatched [simp]: "remote_keys (snd (route_unlatched ev t now s)) = remote_keys s"
  by (simp add: route_unlatched_def Let_def split_def split: option.split Destination.split)

lemma remote_keys_tracked [simp]: "remote_keys (snd (route_tracked ev t now s)) = remote_keys s"
  by (simp add: route_tracked_def Let_def split_def split: option.split LatchedDestination.split sum.split)

lemma remote_keys_route: "remote_keys (snd (route_after_tracking ev t now s)) = remote_keys s"
  by (simp add: route_after_tracking_def split_def split: sum.split)

lemma remote_keys_prepare [keeps_held]: "remote_keys (snd (prepare_captured c now s)) = remote_keys s"
proof -
  have "remote_keys s' = remote_keys s" if "track_control d p now s = (r, s')" for d p r s'
    using remote_keys_track [of d p now s] that by simp
  thus ?thesis
    by (auto simp: prepare_captured_def remote_keys_route split: prod.splits sum.splits)
qed

lemma remote_keys_take: "take_matching_remote i now s = (r, s') \<Longrightarrow> remote_keys s' = remote_keys s"
  by (auto simp: take_matching_remote_def split: option.splits if_splits)

lemma remote_keys_fail_remote [keeps_held]: "remote_keys (snd (fail_remote_input e now s)) = remote_keys s"
  by (auto simp: fail_remote_input_def Let_def split: prod.splits sum.splits option.splits dest: remote_keys_take)

lemma remote_keys_process [keeps_held]: "remote_keys (snd (process_captured c now s)) = remote_keys s"
proof -
  have p: "remote_keys s1 = remote_keys s" if "prepare_captured c now s = (r, s1)" for r s1
    using remote_keys_prepare [of c now s] that by simp
  have "remote_keys s2 = remote_keys s1" if "fail_remote_input e now s1 = (q, s2)" for e s1 q s2
    using remote_keys_fail_remote [of e now s1] that by simp
  with p show ?thesis
    by (auto simp: process_captured_def Let_def split: prod.splits sum.splits CaptureDecision.splits)
qed

lemma remote_keys_policy [keeps_held]:
  "remote_keys (snd (prepare_route_policy_update c r now s)) = remote_keys s"
  "remote_keys (snd (retry_route_policy_update now s)) = remote_keys s"
  "remote_keys (snd (commit_route_policy_update n now s)) = remote_keys s"
  "remote_keys (snd (abort_route_policy_update n now s)) = remote_keys s"
proof -
  show "remote_keys (snd (prepare_route_policy_update c r now s)) = remote_keys s"
    by (auto simp: prepare_route_policy_update_def Let_def split: option.splits sum.splits prod.splits
        dest: remote_keys_queue_eq)
  show "remote_keys (snd (retry_route_policy_update now s)) = remote_keys s"
    by (auto simp: retry_route_policy_update_def Let_def split: option.splits sum.splits prod.splits
        dest: remote_keys_queue_eq)
  have "fst ` set (map (\<lambda>((e, d, c), h). ((e, d, c), h\<lparr>rh_route := g d\<rparr>)) m) = fst ` set m"
    for g and m :: "(held_key \<times> RemoteHeldState) list" by (induction m) auto
  thus "remote_keys (snd (commit_route_policy_update n now s)) = remote_keys s"
    by (auto simp: commit_route_policy_update_def Let_def split: option.splits sum.splits)
      (auto simp: remote_keys_def)
  show "remote_keys (snd (abort_route_policy_update n now s)) = remote_keys s"
    by (auto simp: abort_route_policy_update_def split: option.splits)
qed

lemma remote_keys_update_config [keeps_held]: "remote_keys (snd (update_config c now s)) = remote_keys s"
proof -
  have p: "remote_keys s' = remote_keys s" if "prepare_route_policy_update c r now s = (x, s')" for r x s'
    using remote_keys_policy(1) [of c r now s] that by simp
  have "remote_keys s'' = remote_keys s'" if "commit_route_policy_update n now s' = (y, s'')" for s' n y s''
    using remote_keys_policy(3) [of n now s'] that by simp
  moreover have "remote_keys (snd (apply_same_routes c now s)) = remote_keys s"
    by (auto simp: apply_same_routes_def Let_def split: sum.splits prod.splits dest: remote_keys_queue_eq)
  ultimately show ?thesis using p
    by (auto simp: update_config_def split: sum.splits prod.splits option.splits RoutePolicyUpdateStatus.splits)
qed

lemma remote_keys_workspace [keeps_held]:
  "remote_keys (snd (update_workspace w now s)) = remote_keys s"
  "remote_keys (snd (finish_pointer_handoff w now s)) = remote_keys s"
proof -
  show u: "remote_keys (snd (update_workspace w now s)) = remote_keys s"
    by (auto simp: update_workspace_def split: sum.splits prod.splits dest: remote_keys_queue_eq)
  have "remote_keys s' = remote_keys s" if "update_workspace w now s = (r, s')" for r s'
    using u that by simp
  thus "remote_keys (snd (finish_pointer_handoff w now s)) = remote_keys s"
    by (auto simp: finish_pointer_handoff_def split: sum.splits prod.splits)
qed

lemma remote_keys_simple_ops [keeps_held]:
  "remote_keys (snd (tick now s)) = remote_keys s"
  "remote_keys (snd (gate_local_devices ds now s)) = remote_keys s"
  "remote_keys (snd (restore_local_device d now s)) = remote_keys s"
  "remote_keys (snd (begin_pointer_handoff now s)) = remote_keys s"
  "remote_keys (cancel_pointer_handoff now s) = remote_keys s"
  "remote_keys (abort_destination_handoff_barrier now s) = remote_keys s"
  "remote_keys (snd (set_peer_state h st now s)) = remote_keys s"
  "remote_keys (snd (install_session_endpoint e now s)) = remote_keys s"
  "remote_keys (snd (set_endpoint_state e st now s)) = remote_keys s"
  "remote_keys (snd (retire_session_endpoint e now s)) = remote_keys s"
  "remote_keys (core_enable now s) = remote_keys s"
  "remote_keys (snd (core_disable now s)) = remote_keys s"
  "remote_keys (snd (trigger_emergency now s)) = remote_keys s"
  "remote_keys (snd (core_shutdown now s)) = remote_keys s"
  "remote_keys (snd (clear_workspace_routing_ready now s)) = remote_keys s"
  "remote_keys (snd (mark_workspace_routing_ready now s)) = remote_keys s"
  "remote_keys (snd (take_next_cleanup_release s)) = remote_keys s"
  "remote_keys (snd (retry_cleanup_release ef now s)) = remote_keys s"
  by (simp_all add: tick_def gate_local_devices_def restore_local_device_def begin_pointer_handoff_def
      cancel_pointer_handoff_def abort_destination_handoff_barrier_def set_peer_state_def
      install_session_endpoint_def set_endpoint_state_def retire_session_endpoint_def core_enable_def
      core_disable_def stop_and_queue_def trigger_emergency_def core_shutdown_def
      clear_workspace_routing_ready_def mark_workspace_routing_ready_def take_next_cleanup_release_def
      retry_cleanup_release_def Let_def split_def
      split: option.splits LifecycleState.splits list.splits)

text \<open>The three ways in which a remotely held control may leave the books.\<close>

fun accounts_for :: "core_op \<Rightarrow> DaemonCore \<Rightarrow> held_key \<Rightarrow> bool" where
  "accounts_for (OpConfirmRemote effect q) s (e, d, c) \<longleftrightarrow>
     (\<exists>p. dc_pending_remote s = Some p \<and> prd_id p = rie_decision_id effect
        \<and> prd_endpoint p = e \<and> prd_device p = d \<and> prd_control p = Some c \<and> prd_transition p = Some Release)"
| "accounts_for (OpConfirmCleanup effect) s k \<longleftrightarrow>
     (\<exists>entry rest. dc_cleanup s = entry # rest \<and> cleanup_key entry = k \<and> ce_id entry = cre_cleanup_id effect
        \<and> dc_cleanup_in_flight s = Some (ce_id entry))"
| "accounts_for (OpInvalidated endpoint) s (e, d, c) \<longleftrightarrow> e = endpoint"
| "accounts_for _ s k \<longleftrightarrow> False"

lemma confirm_remote_accounts:
  assumes "k \<in> remote_keys s" and "k \<notin> remote_keys (snd (confirm_remote_input effect q now s))"
  shows "accounts_for (OpConfirmRemote effect q) s k"
proof -
  obtain e d c where k: "k = (e, d, c)" by (cases k)
  obtain p s' where t: "take_matching_remote (rie_decision_id effect) now s = (Inr p, s')"
  proof (cases "take_matching_remote (rie_decision_id effect) now s")
    case (Pair r s')
    show ?thesis
      using that Pair assms remote_keys_take [OF Pair] by (cases r) (auto simp: confirm_remote_input_def)
  qed
  have p: "dc_pending_remote s = Some p" "prd_id p = rie_decision_id effect"
    using t by (auto simp: take_matching_remote_def split: option.splits if_splits)
  have rk: "remote_keys s' = remote_keys s" using remote_keys_take [OF t] .
  have "prd_transition p = Some Release \<and> prd_control p = Some c \<and> prd_endpoint p = e \<and> prd_device p = d"
  proof (rule ccontr)
    assume *: "\<not> ?thesis"
    have "k \<in> remote_keys (snd (confirm_remote_input effect q now s))"
    proof (cases "prd_control p")
      case None
      thus ?thesis using t assms(1) rk by (simp add: confirm_remote_input_def)
    next
      case (Some c')
      have ins: "k \<in> remote_keys (s'\<lparr>dc_remote_held := bt_insert k' h (dc_remote_held s')\<rparr>)" for k' h
        using assms(1) rk by (simp add: remote_keys_def keys_bt_insert)
      have del: "k \<in> remote_keys (s'\<lparr>dc_remote_held := AList.delete k' (dc_remote_held s')\<rparr>)" if "k' \<noteq> k" for k'
        using assms(1) rk that by (simp add: remote_keys_def keys_delete)
      have adj: "k \<in> remote_keys (s'\<lparr>dc_remote_held := bt_adjust k' f (dc_remote_held s')\<rparr>)" for k' f
        using assms(1) rk by (simp add: remote_keys_def)
      show ?thesis
        using Some t assms(1) rk ins del adj * k
        by (auto simp: confirm_remote_input_def Let_def split_def split: option.split PhysicalTransition.split sum.split)
    qed
    with assms(2) show False by simp
  qed
  with p k show ?thesis by auto
qed

lemma confirm_cleanup_accounts:
  assumes "k \<in> remote_keys s" and "k \<notin> remote_keys (snd (confirm_cleanup_release effect now s))"
  shows "accounts_for (OpConfirmCleanup effect) s k"
proof -
  have "remote_keys (s\<lparr>dc_cleanup := q, dc_cleanup_in_flight := None,
                       dc_remote_held := AList.delete k' (dc_remote_held s)\<rparr>) = remote_keys s - {k'}" for q k'
    by (simp add: remote_keys_def keys_delete)
  with assms show ?thesis
    by (auto simp: confirm_cleanup_release_def cleanup_token_current_def split: if_splits list.splits)
qed

lemma invalidated_accounts:
  assumes "k \<in> remote_keys s" and "k \<notin> remote_keys (confirm_transport_invalidated e now s)"
  shows "accounts_for (OpInvalidated e) s k"
proof -
  obtain e' d c where k: "k = (e', d, c)" by (cases k)
  have "remote_keys (confirm_transport_invalidated e now s) = {k' \<in> remote_keys s. fst k' \<noteq> e}"
    by (auto simp: confirm_transport_invalidated_def Let_def remote_keys_def publish_snapshot_def image_iff)
  with assms k show ?thesis by auto
qed

text \<open>
  C4: A control held on a remote host stays on the books until its release was accepted by the
  transport, its queued release was confirmed, or its transport was invalidated: no other operation
  of the core, in any state and in any order, can make it forget one.
\<close>

theorem held_control_never_forgotten:
  assumes "k \<in> remote_keys s" and "k \<notin> remote_keys (core_step op now s)"
  shows "accounts_for op s k"
proof (cases op)
  case (OpConfirmRemote e q)
  thus ?thesis using assms confirm_remote_accounts by simp
next
  case (OpConfirmCleanup e)
  thus ?thesis using assms confirm_cleanup_accounts by simp
next
  case (OpInvalidated e)
  thus ?thesis using assms invalidated_accounts by simp
qed (use assms in \<open>simp_all add: keeps_held\<close>)

section \<open>A concrete core\<close>

definition demo_config :: Config where
  "demo_config = Config_default\<lparr>
     paired_hosts := [\<lparr>ph_host_id = 2, ph_peer_id = 3, ph_name = [100, 101, 115, 107],
                       ph_platform = Windows, ph_identity_fingerprint = replicate 64 97,
                       ph_last_address = None\<rparr>],
     device_routes := [\<lparr>dr_device_id = 7, dr_route = CfgHost 2\<rparr>]\<rparr>"

definition demo_workspace :: WorkspaceState where
  "demo_workspace = WorkspaceState_new 1 1 \<lparr>lp_display_id = 5, lp_x = 0, lp_y = 0\<rparr>"

definition demo_endpoint :: SessionEndpoint where
  "demo_endpoint = SessionEndpoint 3 2 \<lparr>cg_gate_instance_id = 1, cg_sequence = 1\<rparr> 2 9"

definition demo_routing :: RoutingTable where
  "demo_routing = \<lparr>table_routes = [(7, RouteHost 2)]\<rparr>"

definition demo_event :: "InputPayload \<Rightarrow> InputEvent" where
  "demo_event p = \<lparr>ev_sequence = 1, ev_timestamp_ns = 1, ev_source_host = 1, ev_source_device = 7, ev_payload = p\<rparr>"

definition demo_input :: "InputPayload \<Rightarrow> CapturedInput" where
  "demo_input p = CapturedInput_new (demo_event p) Physical"

text \<open>The state after start, installing the endpoint and marking the workspace ready.\<close>

definition demo_core :: DaemonCore where
  "demo_core =
     \<lparr>dc_config = demo_config, dc_workspace = demo_workspace, dc_routing = demo_routing,
      dc_peers = [(2, PS_Connected)],
      dc_endpoint_availability = [(2, \<lparr>ea_endpoint = demo_endpoint, ea_state = PS_Connected\<rparr>)],
      dc_lifecycle = Running True, dc_suspended_until_ns = 0, dc_drain_failsafe_keys = False,
      dc_physical_controls = [], dc_physical_control_count = 0, dc_remote_held = [],
      dc_cleanup = [], dc_cleanup_in_flight = None, dc_pending_remote = None,
      dc_pending_route_policy = None, dc_route_policy_revision = 0, dc_gated_local_devices = {},
      dc_next_effect_id = 1, dc_workspace_ready = True, dc_handoff_pending = False,
      dc_snapshot = \<lparr>snap_workspace = demo_workspace, snap_routing = demo_routing,
                     snap_peers = [(2, PS_Connected)], snap_enabled = True,
                     snap_workspace_ready = True, snap_handoff_pending = False\<rparr>\<rparr>"

lemma demo_valid: "Config_validate demo_config = Inr ()"
  by (simp add: Config_validate_ok valid_config_def demo_config_def Config_default_def CURRENT_CONFIG_VERSION_def
      valid_topology_config_def valid_device_routes_def FailsafeSettings_default_def
      ClipboardSettings_default_def NetworkSettings_default_def valid_network_def valid_bind_def
      DEFAULT_KVM_PORT_def valid_paired_host_def valid_fingerprint_text_def str_len_def len_utf8_def
      is_whitespace_def is_control_def)

lemma demo_routes: "routing_from_config demo_config = Inr demo_routing"
  by (simp add: routing_from_config_def demo_config_def try_from_routes_def validate_entry_def
      RoutingTable_new_def contains_key_def MAX_DEVICE_ROUTES_def demo_routing_def)

lemma demo_revision: "device_route_revision demo_config = 0" "map ph_host_id (paired_hosts demo_config) = [2]"
  "map ph_peer_id (paired_hosts demo_config) = [3]"
  "fs_shortcut (cfg_failsafe demo_config) = [SK_Control, SK_Alt, SK_Shift, SK_Backspace]"
  "fs_routing_suspend_seconds (cfg_failsafe demo_config) = 10"
  by (simp_all add: demo_config_def Config_default_def FailsafeSettings_default_def)

lemma demo_workspace_simps:
  "local_host demo_workspace = 1" "active_host demo_workspace = 1"
  "active_display demo_workspace = 5" "lp_display_id (ws_pointer demo_workspace) = 5"
  by (simp_all add: demo_workspace_def WorkspaceState_new_def)

lemma demo_start:
  "core_new demo_config demo_workspace =
     Inr (demo_core\<lparr>dc_peers := [(2, PS_Disconnected)], dc_endpoint_availability := [], dc_workspace_ready := False,
       dc_snapshot := \<lparr>snap_workspace = demo_workspace, snap_routing = demo_routing,
                     snap_peers = [(2, PS_Disconnected)], snap_enabled = False,
                     snap_workspace_ready = False, snap_handoff_pending = False\<rparr>\<rparr>)"
proof -
  have "fold (\<lambda>p m. bt_insert (ph_host_id p) PS_Disconnected m) (paired_hosts demo_config) [] = [(2, PS_Disconnected)]"
    by (simp add: demo_config_def)
  thus ?thesis
    by (simp add: core_new_def demo_valid demo_routes demo_workspace_simps demo_revision demo_core_def Let_def)
qed

lemmas demo_defs = demo_core_def demo_endpoint_def demo_routing_def demo_event_def demo_input_def
  CapturedInput_new_def demo_workspace_simps demo_revision

lemma demo_core_reached:
  "core_step OpMarkReady 5 (core_step (OpInstall demo_endpoint) 5
     (demo_core\<lparr>dc_peers := [(2, PS_Disconnected)], dc_endpoint_availability := [], dc_workspace_ready := False,
       dc_snapshot := \<lparr>snap_workspace = demo_workspace, snap_routing = demo_routing,
                     snap_peers = [(2, PS_Disconnected)], snap_enabled = False,
                     snap_workspace_ready = False, snap_handoff_pending = False\<rparr>\<rparr>)) = demo_core"
proof -
  have "is_paired demo_config demo_endpoint" by (simp add: is_paired_def demo_config_def demo_endpoint_def)
  thus ?thesis
    by (simp add: demo_core_def install_session_endpoint_def mark_workspace_routing_ready_def demo_endpoint_def
        publish_snapshot_def routing_should_be_active_def core_is_enabled_def cleanup_pending_def)
qed

lemma demo_core_reach: "core_reach 1 demo_core"
  using core_reach.step [OF core_reach.step [OF core_reach.start [OF demo_start]], of 1 "OpMarkReady" 5 "OpInstall demo_endpoint" 5]
  by (simp only: demo_core_reached demo_workspace_simps simp_thms)

lemma demo_press:
  "prepare_captured (demo_input (Key K_KeyA Pressed)) 5 demo_core =
     (Inr (DecideRemote \<lparr>rie_decision_id = 1, rie_endpoint = demo_endpoint, rie_event = demo_event (Key K_KeyA Pressed)\<rparr>),
      demo_core\<lparr>dc_physical_controls := [(7, [(ControlKey K_KeyA, LatchLocal)])], dc_physical_control_count := 1,
        dc_next_effect_id := 2,
        dc_pending_remote := Some \<lparr>prd_id = 1, prd_device = 7, prd_control = Some (ControlKey K_KeyA),
          prd_transition = Some Press, prd_previous_latch = None, prd_endpoint = demo_endpoint\<rparr>\<rparr>)"
  by (simp add: demo_defs prepare_captured_def bypasses_routing_def track_control_def latch_of_def
      ensure_physical_capacity_def core_limits insert_control_def route_after_tracking_def failsafe_matches_def
      shortcut_key_pressed_def route_tracked_def route_unlatched_def device_route_is_gated_def
      destination_def destination_for_device_def route_for_def remote_target_endpoint_def
      routing_should_be_active_def core_is_enabled_def cleanup_pending_def prepare_remote_effect_def
      allocate_effect_id_def checked_add_u64_def)

section \<open>What a capture decision may be\<close>

lemma track_control_state:
  assumes "track_control d p now s = (Inr t, s')"
  obtains pcs n where "s' = s\<lparr>dc_physical_controls := pcs, dc_physical_control_count := n\<rparr>"
proof -
  have ex: "\<exists>pcs n. s = s\<lparr>dc_physical_controls := pcs, dc_physical_control_count := n\<rparr>"
    by (rule exI [of _ "dc_physical_controls s"], rule exI [of _ "dc_physical_control_count s"]) simp
  have "\<exists>pcs n. insert_control d c s = s\<lparr>dc_physical_controls := pcs, dc_physical_control_count := n\<rparr>" for c
    by (auto simp: insert_control_def Let_def)
  moreover have "\<exists>pcs n. remove_control d c s = s\<lparr>dc_physical_controls := pcs, dc_physical_control_count := n\<rparr>" for c
    using ex by (auto simp: remove_control_def Let_def split: option.splits)
  ultimately have "\<exists>pcs n. s' = s\<lparr>dc_physical_controls := pcs, dc_physical_control_count := n\<rparr>"
    using assms ex
    by (auto simp: track_control_def Let_def dest!: ensure_capacity_ok
        split: option.splits PhysicalTransition.splits prod.splits sum.splits if_splits)
  thus ?thesis using that by blast
qed

lemma prepare_effect_remote:
  assumes "prepare_remote_effect event endpoint t now s = (Inr (DecideRemote effect), s')"
  shows "effect = \<lparr>rie_decision_id = dc_next_effect_id s, rie_endpoint = endpoint, rie_event = event\<rparr>
    \<and> dc_pending_remote s' = Some \<lparr>prd_id = dc_next_effect_id s, prd_device = ev_source_device event,
        prd_control = fst t, prd_transition = fst (snd t), prd_previous_latch = snd (snd t), prd_endpoint = endpoint\<rparr>"
  using assms
  by (auto simp: prepare_remote_effect_def allocate_effect_id_def Let_def split_def split: if_splits option.splits)

definition endpoint_live :: "DaemonCore \<Rightarrow> u64 \<Rightarrow> SessionEndpoint \<Rightarrow> bool" where
  "endpoint_live s now e \<longleftrightarrow>
     routing_should_be_active s now
     \<and> map_of (dc_endpoint_availability s) (se_host_id e) = Some \<lparr>ea_endpoint = e, ea_state = PS_Connected\<rparr>"

lemma accepts_input_iff: "accepts_input st \<longleftrightarrow> st = PS_Connected"
  by (cases st) simp_all

lemma target_endpoint_live:
  assumes "peers_ok s" and "remote_target_endpoint s target route now = Some e"
  shows "endpoint_live s now e \<and> se_host_id e = target"
proof -
  obtain a where a: "map_of (dc_endpoint_availability s) target = Some a" "ea_endpoint a = e"
    "ea_state a = PS_Connected" "routing_should_be_active s now"
    using assms(2) by (auto simp: remote_target_endpoint_def accepts_input_iff split: option.splits if_splits)
  moreover have "se_host_id (ea_endpoint a) = target"
    using assms(1) a(1) by (auto simp: peers_ok_def dest: map_of_SomeD)
  ultimately show ?thesis by (cases a) (auto simp: endpoint_live_def)
qed

lemma route_remote_live:
  assumes "peers_ok s" and "route_after_tracking event t now s = (Inr (DecideRemote effect), s')"
  shows "endpoint_live s now (rie_endpoint effect) \<and> rie_event effect = event
    \<and> (\<exists>p. dc_pending_remote s' = Some p \<and> prd_id p = rie_decision_id effect
          \<and> prd_endpoint p = rie_endpoint effect \<and> prd_device p = ev_source_device event)"
proof -
  have live: "endpoint_live s now e" if "remote_endpoint_available s e r now" for e r
    using target_endpoint_live [OF assms(1)] that by (auto simp: remote_endpoint_available_def)
  have un: "?thesis" if "route_unlatched event t now s = (Inr (DecideRemote effect), s')"
    using that target_endpoint_live [OF assms(1)]
    by (auto simp: route_unlatched_def Let_def split: prod.splits if_splits option.splits Destination.splits
        dest!: prepare_effect_remote)
  have "route_tracked event t now s = (Inr (DecideRemote effect), s')"
    using assms(2) by (auto simp: route_after_tracking_def split: if_splits prod.splits sum.splits)
  thus ?thesis
    using un live
    by (auto simp: route_tracked_def Let_def split: prod.splits if_splits option.splits LatchedDestination.splits sum.splits
        dest!: prepare_effect_remote)
qed

text \<open>
  C9: A captured record is offered to the transport only when it is a physical, finite event of this
  host, routing is active, and the exact endpoint it goes to is installed and connected; the
  decision is then the single outstanding one.
\<close>

theorem remote_effect_authorized:
  assumes "core_reach me s" and "prepare_captured captured now s = (Inr (DecideRemote effect), s')"
  shows "\<not> bypasses_routing s captured \<and> rie_event effect = ci_event captured
    \<and> ev_source_host (ci_event captured) = me
    \<and> endpoint_live s now (rie_endpoint effect)
    \<and> map_option prd_id (dc_pending_remote s') = Some (rie_decision_id effect)
    \<and> fst (prepare_captured other now s') = Inl CoreUnavailable"
proof -
  have inv: "core_inv me s" using assms(1) by (rule core_reach_inv)
  hence po: "peers_ok s" and me: "local_host (dc_workspace s) = me"
    by (auto simp: core_inv_def base_inv_def workspace_ok_def)
  obtain t s1 where t: "track_control (ev_source_device (ci_event captured)) (ev_payload (ci_event captured)) now s = (Inr t, s1)"
    and r: "route_after_tracking (ci_event captured) t now s1 = (Inr (DecideRemote effect), s')"
    and nb: "\<not> bypasses_routing s captured"
    using assms(2) by (auto simp: prepare_captured_def split: if_splits prod.splits sum.splits)
  obtain pcs n where s1: "s1 = s\<lparr>dc_physical_controls := pcs, dc_physical_control_count := n\<rparr>"
    using track_control_state [OF t] .
  have "peers_ok s1" using po s1 by (simp add: peers_ok_def)
  from route_remote_live [OF this r] s1 nb me show ?thesis
    by (auto simp: endpoint_live_def routing_should_be_active_def core_is_enabled_def cleanup_pending_def
        bypasses_routing_def prepare_captured_def)
qed

theorem remote_effect_authorized_witness:
  "core_reach 1 demo_core
   \<and> rie_event \<lparr>rie_decision_id = 1, rie_endpoint = demo_endpoint, rie_event = demo_event (Key K_KeyA Pressed)\<rparr>
     = ci_event (demo_input (Key K_KeyA Pressed))
   \<and> endpoint_live demo_core 5 demo_endpoint"
  using remote_effect_authorized [OF demo_core_reach demo_press] demo_core_reach by simp

section \<open>Failing closed\<close>

definition ledger_keys :: "DaemonCore \<Rightarrow> held_key set" where
  "ledger_keys s = cleanup_key ` set (dc_cleanup s)"

lemma set_map_cleanup_key: "cleanup_key ` set xs = set (map cleanup_key xs)"
  by simp

lemma queue_ok_keys:
  assumes "queue_remote_cleanup A s = (Inr u, s')"
  shows "ledger_keys s' = ledger_keys s \<union> {k \<in> remote_keys s. \<exists>h. (k, h) \<in> set (dc_remote_held s) \<and> A (rh_route h) (fst k) (fst (snd k))}"
proof (rule queue_cleanup_cases [of A s])
  assume q: "queue_remote_cleanup A s = (Inr (), fold push_cleanup (cleanup_candidates A s) s)"
  have "ledger_keys s' = ledger_keys s \<union> fst ` set (cleanup_candidates A s)"
    using assms q map_key_fold_push [of "cleanup_candidates A s" s]
    unfolding ledger_keys_def set_map_cleanup_key by auto
  also have "fst ` set (cleanup_candidates A s) =
      {k \<in> remote_keys s. \<exists>h. (k, h) \<in> set (dc_remote_held s) \<and> A (rh_route h) (fst k) (fst (snd k))} - ledger_keys s"
    by (force simp: cleanup_candidates_def remote_keys_def ledger_keys_def)
  finally show ?thesis by blast
qed (use assms in simp)

text \<open>
  When the core fails closed it stops routing for every later instant until it is re-armed, hands
  authority back to the local host, and owns one queued release for every remotely held control.
\<close>

theorem fail_closed_owns_every_hold:
  assumes "fail_closed now s = (Inr u, s')"
  shows "ledger_keys s' = ledger_keys s \<union> remote_keys s \<and> remote_keys s' = remote_keys s
    \<and> active_host (dc_workspace s') = local_host (dc_workspace s)
    \<and> (\<forall>t. \<not> routing_should_be_active s' t) \<and> \<not> is_routing_active s'"
proof -
  let ?s0 = "(return_to_local s)\<lparr>dc_workspace_ready := False, dc_handoff_pending := False\<rparr>"
  obtain s1 where q: "queue_remote_cleanup (\<lambda>_ _ _. True) ?s0 = (Inr (), s1)" and s': "s' = publish_snapshot now s1"
    using assms by (auto simp: fail_closed_def split: prod.splits)
  have f: "dc_workspace_ready s1 = False" "dc_workspace s1 = dc_workspace ?s0"
    using q queue_fields(2,17) [of "\<lambda>_ _ _. True" ?s0] by simp_all
  have "{k \<in> remote_keys ?s0. \<exists>h. (k, h) \<in> set (dc_remote_held ?s0) \<and> True} = remote_keys s"
    by (auto simp: remote_keys_def return_to_local_def)
  hence "ledger_keys s1 = ledger_keys ?s0 \<union> remote_keys s"
    using queue_ok_keys [OF q] by simp
  moreover have "ledger_keys ?s0 = ledger_keys s" "ledger_keys s' = ledger_keys s1"
    by (simp_all add: ledger_keys_def return_to_local_def s' publish_snapshot_def)
  moreover have "remote_keys s1 = remote_keys s" using remote_keys_queue_eq [OF q] by simp
  ultimately show ?thesis
    using f by (simp add: s' publish_snapshot_def routing_should_be_active_def is_routing_active_def return_to_local_def remote_keys_def)
qed

lemmas core_eval = demo_defs prepare_captured_def bypasses_routing_def track_control_def latch_of_def
  ensure_physical_capacity_def core_limits insert_control_def remove_control_def route_after_tracking_def
  failsafe_matches_def any_failsafe_key_pressed_def
  shortcut_key_pressed_def route_tracked_def route_unlatched_def device_route_is_gated_def
  destination_def destination_for_device_def route_for_def remote_target_endpoint_def
  remote_endpoint_available_def
  routing_should_be_active_def core_is_enabled_def cleanup_pending_def prepare_remote_effect_def
  allocate_effect_id_def checked_add_u64_def publish_snapshot_def return_to_local_def
  queue_remote_cleanup_def cleanup_candidates_def push_cleanup_def adjust_latch_def bt_adjust_def
  cleanup_entry_def quarantine_if_def cleanup_key_def fail_closed_def
  confirm_remote_input_def take_matching_remote_def confirm_route_def contains_key_def Let_def

definition demo_key :: held_key where
  "demo_key = (demo_endpoint, 7, ControlKey K_KeyA)"

text \<open>The key is held on the remote host.\<close>

definition demo_held :: DaemonCore where
  "demo_held = demo_core\<lparr>
     dc_physical_controls := [(7, [(ControlKey K_KeyA, LatchRemote demo_endpoint (RouteHost 2))])],
     dc_physical_control_count := 1, dc_next_effect_id := 2,
     dc_remote_held := [(demo_key, \<lparr>rh_route = RouteHost 2, rh_last_input_sequence = 41\<rparr>)]\<rparr>"

lemma demo_held_reached:
  "core_step (OpConfirmRemote \<lparr>rie_decision_id = 1, rie_endpoint = demo_endpoint,
       rie_event = demo_event (Key K_KeyA Pressed)\<rparr> 41) 5
     (core_step (OpPrepare (demo_input (Key K_KeyA Pressed))) 5 demo_core) = demo_held"
  unfolding core_step.simps demo_press
  by (simp add: core_eval demo_held_def demo_key_def outcome_defs)

lemma demo_held_reach: "core_reach 1 demo_held"
  using core_reach.step [OF core_reach.step [OF demo_core_reach]] demo_held_reached by metis

theorem held_control_never_forgotten_witness:
  "demo_key \<in> remote_keys demo_held
   \<and> demo_key \<notin> remote_keys (core_step (OpInvalidated demo_endpoint) 5 demo_held)
   \<and> accounts_for (OpInvalidated demo_endpoint) demo_held demo_key"
proof -
  have a: "demo_key \<in> remote_keys demo_held" by (simp add: remote_keys_def demo_held_def)
  have b: "demo_key \<notin> remote_keys (core_step (OpInvalidated demo_endpoint) 5 demo_held)"
    by (simp add: remote_keys_def confirm_transport_invalidated_def Let_def publish_snapshot_def demo_held_def demo_key_def)
  show ?thesis using held_control_never_forgotten [OF a b] a b by blast
qed

theorem fail_closed_owns_every_hold_witness:
  "\<exists>s'. fail_closed 6 demo_held = (Inr (), s') \<and> ledger_keys s' = {demo_key}
      \<and> active_host (dc_workspace s') = local_host (dc_workspace demo_held)"
proof -
  obtain s' where s': "fail_closed 6 demo_held = (Inr (), s')"
    by (simp add: core_eval demo_held_def demo_key_def)
  have "ledger_keys demo_held = {}" "remote_keys demo_held = {demo_key}"
    by (simp_all add: ledger_keys_def remote_keys_def demo_held_def demo_core_def)
  with fail_closed_owns_every_hold [OF s'] s' show ?thesis by auto
qed

section \<open>The emergency shortcut\<close>














text \<open>
  C3: The invariant of the core in every reachable state: at most 64 devices with 256 held controls each
  and 1024 in total, at most 1024 remote holds and queued releases, releases in identifier order and
  one per held control, a valid configuration that its routing table implements, an endpoint filed
  under its own host, an unchanged local identity, and a snapshot that never shows routing as
  enabled when it is gated.
\<close>

theorem daemon_invariant: "core_reach me s \<Longrightarrow> core_inv me s"
  by (rule core_reach_inv)

theorem daemon_invariant_witness: "core_reach 1 demo_held \<and> core_inv 1 demo_held"
  using daemon_invariant [OF demo_held_reach] demo_held_reach by blast

section \<open>Settling the ledger\<close>

text \<open>One delivery attempt that succeeds: take the front release and confirm it.\<close>

definition settle_one :: "u64 \<Rightarrow> DaemonCore \<Rightarrow> RemoteRelease list \<times> DaemonCore" where
  "settle_one now s =
     (case take_next_cleanup_release s of
        (None, s') \<Rightarrow> ([], s')
      | (Some effect, s') \<Rightarrow> ([cre_release effect], snd (confirm_cleanup_release effect now s')))"

fun settle :: "nat \<Rightarrow> u64 \<Rightarrow> DaemonCore \<Rightarrow> RemoteRelease list \<times> DaemonCore" where
  "settle 0 now s = ([], s)"
| "settle (Suc n) now s =
     (let (rs, s') = settle_one now s; (rs', s'') = settle n now s' in (rs @ rs', s''))"

lemma settle_one_front:
  assumes "dc_cleanup s = entry # rest" and "dc_cleanup_in_flight s = None"
  shows "fst (settle_one now s) = [ce_release entry]"
    and "dc_cleanup (snd (settle_one now s)) = rest"
    and "dc_cleanup_in_flight (snd (settle_one now s)) = None"
    and "remote_keys (snd (settle_one now s)) = remote_keys s - {cleanup_key entry}"
  using assms
  by (simp_all add: settle_one_def take_next_cleanup_release_def confirm_cleanup_release_def
      cleanup_token_current_def publish_snapshot_def remote_keys_def keys_delete)

text \<open>
  C26: With a transport that accepts releases, as many deliveries as there are queued releases send them
  in queue order, empty the ledger and leave exactly the holds that had no release queued.
\<close>

theorem ledger_drains_in_order:
  assumes "dc_cleanup_in_flight s = None" and "settle (length (dc_cleanup s)) now s = (sent, s')"
  shows "sent = map ce_release (dc_cleanup s) \<and> \<not> cleanup_pending s' \<and> remote_keys s' = remote_keys s - ledger_keys s"
  using assms
proof (induction "dc_cleanup s" arbitrary: s sent)
  case Nil
  thus ?case by (auto simp: cleanup_pending_def ledger_keys_def)
next
  case (Cons entry rest)
  define s1 where "s1 = snd (settle_one now s)"
  note front = settle_one_front [OF Cons.hyps(2) [symmetric] Cons.prems(1), of now, folded s1_def]
  obtain sent' where r: "settle (length (dc_cleanup s1)) now s1 = (sent', s')" and sent: "sent = ce_release entry # sent'"
    using Cons.prems(2) front(1,2) unfolding Cons.hyps(2) [symmetric] s1_def
    by (cases "settle_one now s") (auto simp: Let_def split: prod.splits)
  have "sent' = map ce_release rest \<and> \<not> cleanup_pending s' \<and> remote_keys s' = remote_keys s1 - ledger_keys s1"
    using Cons.hyps(1) [of s1 sent'] front r by simp
  thus ?case
    using sent front Cons.hyps(2) [symmetric] by (auto simp: ledger_keys_def)
qed

section \<open>Route policies are two-phase\<close>

text \<open>
  A candidate that is ready to persist can be committed at its revision and then is the
  configuration, field by field, with the routing table its routes define; aborting it instead
  leaves the old configuration and its table.
\<close>

theorem route_policy_two_phase:
  assumes none: "dc_pending_route_policy s = None" and inv: "core_reach me s"
    and prep: "prepare_route_policy_update candidate r now s = (Inr RP_ReadyToPersist, s1)"
    and commit: "commit_route_policy_update (r + 1) now s1 = (c, s2)"
    and abort: "abort_route_policy_update (r + 1) now s1 = (a, s3)"
  shows "c = Inr (r + 1) \<and> dc_config s2 = candidate\<lparr>device_route_revision := r + 1\<rparr>
    \<and> routing_from_config (dc_config s2) = Inr (dc_routing s2) \<and> dc_route_policy_revision s2 = r + 1
    \<and> a = Inr () \<and> dc_config s3 = dc_config s \<and> dc_routing s3 = dc_routing s
    \<and> dc_pending_route_policy s2 = None \<and> dc_pending_route_policy s3 = None"
proof -
  let ?cand = "\<lambda>nx. candidate\<lparr>device_route_revision := nx\<rparr>"
  let ?pol = "\<lambda>nx routing. \<lparr>prp_next_revision = nx, prp_config = ?cand nx, prp_routing = routing,
    prp_affected_devices = affected_route_devices (dc_config s) (?cand nx) (dc_routing s) routing\<rparr>"
  obtain nx routing s0 where n: "checked_add_u64 (dc_route_policy_revision s) 1 = Some nx"
    and r: "r = dc_route_policy_revision s" and pend: "dc_pending_remote s = None"
    and tab: "routing_from_config (?cand nx) = Inr routing"
    and q: "queue_remote_cleanup (pending_affected (?pol nx routing) s) s = (Inr (), s0)"
    and s1: "s1 = publish_snapshot now (s0\<lparr>dc_pending_route_policy := Some (?pol nx routing)\<rparr>)"
    and ready: "route_policy_update_status s1 = Inr RP_ReadyToPersist"
    using prep none
    by (auto simp: prepare_route_policy_update_def Let_def split: if_splits option.splits sum.splits prod.splits)
  define p where "p = ?pol nx routing"
  have p: "prp_next_revision p = nx" "prp_config p = ?cand nx" "prp_routing p = routing"
    by (simp_all add: p_def)
  note q = q [folded p_def] and s1 = s1 [folded p_def]
  have nx: "nx = r + 1" using n r by (auto simp: checked_add_u64_def split: if_splits)
  have f: "dc_config s1 = dc_config s" "dc_routing s1 = dc_routing s" "dc_pending_remote s1 = None"
    "dc_pending_route_policy s1 = Some p"
    using q queue_fields(1,3,13) [of "pending_affected p s" s] pend by (simp_all add: s1 publish_snapshot_def)
  show ?thesis
    using commit abort ready f p nx tab
    by (auto simp: commit_route_policy_update_def abort_route_policy_update_def Let_def publish_snapshot_def)
qed

section \<open>Witnesses\<close>

theorem ledger_drains_in_order_witness:
  "let s = snd (fail_closed 6 demo_held) in
   dc_cleanup_in_flight s = None
   \<and> fst (settle 1 7 s) = [\<lparr>rr_target = 2, rr_source_device = 7, rr_payload = Key K_KeyA Released\<rparr>]
   \<and> remote_keys (snd (settle 1 7 s)) = {}"
proof -
  define s where "s = snd (fail_closed 6 demo_held)"
  have q: "dc_cleanup s = [cleanup_entry 2 (demo_key, \<lparr>rh_route = RouteHost 2, rh_last_input_sequence = 41\<rparr>)]"
    "dc_cleanup_in_flight s = None" "remote_keys s = {demo_key}"
    by (simp_all add: s_def core_eval demo_held_def demo_key_def remote_keys_def)
  hence l: "length (dc_cleanup s) = 1" by simp
  obtain sent s' where st: "settle (length (dc_cleanup s)) 7 s = (sent, s')" by (cases "settle (length (dc_cleanup s)) 7 s")
  from ledger_drains_in_order [OF q(2) st] q st l show ?thesis
    unfolding s_def [symmetric] Let_def
    by (simp add: ledger_keys_def cleanup_entry_def cleanup_key_def demo_key_def demo_endpoint_def)
qed

definition demo_candidate :: Config where
  "demo_candidate = demo_config\<lparr>device_routes := [\<lparr>dr_device_id = 7, dr_route = CfgHost 2\<rparr>, \<lparr>dr_device_id = 8, dr_route = CfgLocal\<rparr>]\<rparr>"

definition demo_routing2 :: RoutingTable where
  "demo_routing2 = \<lparr>table_routes = [(7, RouteHost 2), (8, RouteLocal)]\<rparr>"

lemma demo_candidate_ok:
  "Config_validate (demo_candidate\<lparr>device_route_revision := 1\<rparr>) = Inr ()"
  "routing_from_config (demo_candidate\<lparr>device_route_revision := 1\<rparr>) = Inr demo_routing2"
  by (simp_all add: Config_validate_ok valid_config_def demo_candidate_def demo_config_def Config_default_def CURRENT_CONFIG_VERSION_def
      valid_topology_config_def valid_device_routes_def FailsafeSettings_default_def
      ClipboardSettings_default_def NetworkSettings_default_def valid_network_def valid_bind_def
      DEFAULT_KVM_PORT_def valid_paired_host_def valid_fingerprint_text_def str_len_def len_utf8_def
      is_whitespace_def is_control_def routing_from_config_def try_from_routes_def validate_entry_def
      RoutingTable_new_def contains_key_def MAX_DEVICE_ROUTES_def demo_routing2_def)

definition demo_policy :: PendingRoutePolicy where
  "demo_policy = \<lparr>prp_next_revision = 1, prp_config = demo_candidate\<lparr>device_route_revision := 1\<rparr>,
     prp_routing = demo_routing2, prp_affected_devices = {8}\<rparr>"

definition demo_staged :: DaemonCore where
  "demo_staged = demo_held\<lparr>dc_pending_route_policy := Some demo_policy\<rparr>"

lemma demo_affected: "affected_route_devices demo_config (demo_candidate\<lparr>device_route_revision := 1\<rparr>) demo_routing demo_routing2 = {8}"
  by (simp add: affected_route_devices_def demo_candidate_def demo_config_def route_for_def demo_routing_def demo_routing2_def)

lemma demo_config_eq: "Config_eq (demo_candidate\<lparr>device_route_revision := 1\<rparr>)
    (demo_config\<lparr>device_routes := device_routes demo_candidate, device_route_revision := 1\<rparr>)"
  by (simp add: Config_eq_def demo_candidate_def demo_config_def Config_default_def topology_eq_def)

lemma demo_stage:
  "prepare_route_policy_update demo_candidate 0 6 demo_held = (Inr RP_ReadyToPersist, demo_staged)"
proof -
  have f: "dc_config demo_held = demo_config" "dc_routing demo_held = demo_routing" "dc_pending_remote demo_held = None"
    "dc_handoff_pending demo_held = False" "dc_pending_route_policy demo_held = None" "dc_route_policy_revision demo_held = 0"
    "\<not> cleanup_pending demo_held"
    by (simp_all add: demo_held_def demo_core_def cleanup_pending_def)
  have none: "cleanup_candidates (pending_affected demo_policy demo_held) demo_held = []"
    by (simp add: cleanup_candidates_def pending_affected_def demo_held_def demo_key_def demo_policy_def)
  have q: "queue_remote_cleanup (pending_affected demo_policy demo_held) demo_held = (Inr (), demo_held)"
  proof -
    have "dc_next_effect_id demo_held = 2" "dc_cleanup demo_held = []" by (simp_all add: demo_held_def demo_core_def)
    thus ?thesis by (simp add: queue_remote_cleanup_def none checked_add_u64_def core_limits)
  qed
  have pub: "publish_snapshot 6 (demo_held\<lparr>dc_pending_route_policy := Some demo_policy\<rparr>) = demo_staged"
    by (simp add: demo_staged_def publish_snapshot_def demo_held_def demo_core_def routing_should_be_active_def
        core_is_enabled_def cleanup_pending_def)
  have st: "route_policy_update_status demo_staged = Inr RP_ReadyToPersist"
    by (simp add: route_policy_update_status_def demo_staged_def cleanup_pending_def demo_held_def demo_core_def
        pending_route_has_unresolved_remote_def demo_key_def demo_policy_def)
  show ?thesis
    unfolding prepare_route_policy_update_def f
    using f q pub st
    by (simp add: checked_add_u64_def demo_candidate_ok demo_config_eq demo_affected demo_policy_def [symmetric] Let_def)
qed

theorem route_policy_two_phase_witness:
  "prepare_route_policy_update demo_candidate 0 6 demo_held = (Inr RP_ReadyToPersist, demo_staged)
   \<and> dc_config (snd (commit_route_policy_update 1 6 demo_staged)) = demo_candidate\<lparr>device_route_revision := 1\<rparr>
   \<and> dc_config (snd (abort_route_policy_update 1 6 demo_staged)) = demo_config"
proof -
  have "dc_pending_route_policy demo_held = None" "dc_config demo_held = demo_config"
    by (simp_all add: demo_held_def demo_core_def)
  with route_policy_two_phase [OF _ demo_held_reach demo_stage] demo_stage show ?thesis
    by (metis add_0 prod.collapse)
qed

section \<open>A re-pressed control can outlive its books\<close>

definition demo_events :: "core_op list" where
  "demo_events =
     [OpDisable, OpEnable,
      OpPrepare (demo_input (Key K_KeyA Released)), OpPrepare (demo_input (Key K_KeyA Pressed)),
      OpConfirmRemote \<lparr>rie_decision_id = 3, rie_endpoint = demo_endpoint, rie_event = demo_event (Key K_KeyA Pressed)\<rparr> 42,
      OpTakeCleanup,
      OpConfirmCleanup \<lparr>cre_cleanup_id = 2, cre_endpoint = demo_endpoint, cre_covered_input_sequence = 41,
        cre_release = \<lparr>rr_target = 2, rr_source_device = 7, rr_payload = Key K_KeyA Released\<rparr>\<rparr>]"

lemma demo_staged_reach: "core_reach 1 demo_staged"
  using core_reach.step [OF demo_held_reach, of "OpPreparePolicy demo_candidate 0" 6] demo_stage by simp

lemma core_reach_fold: "core_reach me s \<Longrightarrow> core_reach me (fold (\<lambda>op. core_step op now) ops s)"
  by (induction ops arbitrary: s) (auto intro: core_reach.step)

lemma demo_run:
  "let s = fold (\<lambda>op. core_step op 6) demo_events demo_staged in
     latch_of s 7 (ControlKey K_KeyA) = Some (LatchRemote demo_endpoint (RouteHost 2))
     \<and> demo_key \<notin> remote_keys s \<and> demo_key \<notin> ledger_keys s"
  by (simp add: demo_events_def demo_staged_def demo_policy_def demo_held_def demo_key_def core_eval
      core_disable_def stop_and_queue_def core_enable_def outcome_defs take_next_cleanup_release_def
      confirm_cleanup_release_def cleanup_token_current_def remote_keys_def ledger_keys_def)

text \<open>
  C40: While a route policy is staged, routing stays active although releases are pending, and not only
  the releases of that policy: after switching routing off and on again, re-pressing a key whose
  release is still queued sends it to the remote host, and confirming the old release then strikes
  the key off the books although it is pressed and latched remotely, so no later recovery will
  release it.
\<close>

theorem repressed_key_can_leave_the_books:
  "\<exists>s. core_reach 1 s \<and> latch_of s 7 (ControlKey K_KeyA) = Some (LatchRemote demo_endpoint (RouteHost 2))
     \<and> demo_key \<notin> remote_keys s \<union> ledger_keys s"
  using core_reach_fold [OF demo_staged_reach, of 6 demo_events] demo_run
  by (intro exI [of _ "fold (\<lambda>op. core_step op 6) demo_events demo_staged"]) (simp add: Let_def)

end
