(* ===== verification/DaemonLatches.thy ===== *)
theory DaemonLatches
  imports DaemonSafety
begin

text \<open>
  How the destination of a held control changes over time.  Every operation of the daemon core other
  than a captured record and its confirmation or failure lets latches only fade: they stay, lose
  their route or are quarantined.  Together with the agreement between an outstanding press and the
  latch of its control, this bounds what can happen to a remotely pressed control in any run.
\<close>

section \<open>How latches change\<close>

text \<open>
  Between two captured records of a control its latch may only fade: stay, be quarantined, or keep
  its endpoint under another route.
\<close>

definition fades :: "LatchedDestination option \<Rightarrow> LatchedDestination option \<Rightarrow> bool" where
  "fades l l' \<longleftrightarrow> l' = l \<or> l' = Some LatchQuarantined
     \<or> (\<exists>e r r'. l = Some (LatchRemote e r) \<and> l' = Some (LatchRemote e r'))"

lemma fades_refl [simp]: "fades l l"
  by (simp add: fades_def)

lemma fades_trans: "fades a b \<Longrightarrow> fades b c \<Longrightarrow> fades a c"
  by (auto simp: fades_def)

lemma fades_quarantine [simp]: "fades l (map_option (quarantine_if e) l)"
  by (cases l) (auto simp: fades_def quarantine_if_def split: LatchedDestination.splits)

lemma fades_reroute [simp]: "fades l (map_option (reroute_latch r) l)"
  by (cases l) (auto simp: fades_def reroute_latch_def split: LatchedDestination.splits)

text \<open>A quiet change lets latches fade and prepares no new decision.\<close>

definition quiet :: "DaemonCore \<Rightarrow> DaemonCore \<Rightarrow> bool" where
  "quiet s s' \<longleftrightarrow> (dc_pending_remote s' = dc_pending_remote s \<or> dc_pending_remote s' = None)
     \<and> (\<forall>d c. fades (latch_of s d c) (latch_of s' d c))"

lemma quiet_refl [simp]: "quiet s s"
  by (simp add: quiet_def)

lemma quiet_trans [trans]: "quiet s t \<Longrightarrow> quiet t u \<Longrightarrow> quiet s u"
  unfolding quiet_def using fades_trans by metis

lemma latch_of_adjust:
  "latch_of (adjust_latch d c f s) d' c' = (if d' = d \<and> c' = c then map_option f (latch_of s d c) else latch_of s d' c')"
  by (auto simp: latch_of_def adjust_latch_def map_of_bt_adjust split: option.splits)

lemma latch_of_relatch:
  "latch_of (s\<lparr>dc_physical_controls := map (\<lambda>(d, cs). (d, map (\<lambda>(c, l). (c, f d l)) cs)) (dc_physical_controls s)\<rparr>) d c =
     map_option (f d) (latch_of s d c)"
proof -
  have "map_of (map (\<lambda>(c, l). (c, g l)) cs) c = map_option g (map_of cs c)"
    for g :: "LatchedDestination \<Rightarrow> LatchedDestination" and cs by (induction cs) auto
  moreover have "map_of (map (\<lambda>(d, cs). (d, map (\<lambda>(c, l). (c, f d l)) cs)) m) d =
      map_option (map (\<lambda>(c, l). (c, f d l))) (map_of m d)" for m :: control_map by (induction m) auto
  ultimately show ?thesis by (auto simp: latch_of_def split: option.splits)
qed

lemma latch_of_cong: "dc_physical_controls s' = dc_physical_controls s \<Longrightarrow> latch_of s' = latch_of s"
  by (simp add: latch_of_def fun_eq_iff)

lemma quiet_relatch:
  assumes "dc_physical_controls t = map (\<lambda>(d, cs). (d, map (\<lambda>(c, l). (c, f d l)) cs)) (dc_physical_controls s)"
    and "dc_pending_remote t = dc_pending_remote s" and "\<And>d l. fades l (map_option (f d) l)"
  shows "quiet s t"
proof -
  have "latch_of t = latch_of (s\<lparr>dc_physical_controls := map (\<lambda>(d, cs). (d, map (\<lambda>(c, l). (c, f d l)) cs)) (dc_physical_controls s)\<rparr>)"
    using assms(1) by (intro latch_of_cong) simp
  thus ?thesis using assms(2,3) by (simp add: quiet_def latch_of_relatch)
qed

lemma quiet_simps [simp]:
  "quiet s (publish_snapshot now t) = quiet s t"
  "quiet s (return_to_local t) = quiet s t"
  "quiet s (return_if_active h t) = quiet s t"
  "quiet s (t\<lparr>dc_workspace_ready := b\<rparr>) = quiet s t"
  "quiet s (t\<lparr>dc_handoff_pending := b\<rparr>) = quiet s t"
  "quiet s (t\<lparr>dc_drain_failsafe_keys := b\<rparr>) = quiet s t"
  "quiet s (t\<lparr>dc_suspended_until_ns := n\<rparr>) = quiet s t"
  "quiet s (t\<lparr>dc_lifecycle := l\<rparr>) = quiet s t"
  "quiet s (t\<lparr>dc_next_effect_id := n\<rparr>) = quiet s t"
  "quiet s (t\<lparr>dc_pending_route_policy := q\<rparr>) = quiet s t"
  "quiet s (t\<lparr>dc_workspace := w\<rparr>) = quiet s t"
  "quiet s (t\<lparr>dc_peers := ps\<rparr>) = quiet s t"
  "quiet s (t\<lparr>dc_endpoint_availability := av\<rparr>) = quiet s t"
  "quiet s (t\<lparr>dc_gated_local_devices := g\<rparr>) = quiet s t"
  "quiet s (t\<lparr>dc_config := cf\<rparr>) = quiet s t"
  "quiet s (t\<lparr>dc_routing := rt\<rparr>) = quiet s t"
  "quiet s (t\<lparr>dc_cleanup := cl\<rparr>) = quiet s t"
  "quiet s (t\<lparr>dc_cleanup_in_flight := fl\<rparr>) = quiet s t"
  "quiet s (t\<lparr>dc_remote_held := rh\<rparr>) = quiet s t"
  "quiet s (t\<lparr>dc_route_policy_revision := r\<rparr>) = quiet s t"
  "quiet s (t\<lparr>dc_physical_control_count := m\<rparr>) = quiet s t"
  by (simp_all add: quiet_def latch_of_def publish_snapshot_def return_to_local_def return_if_active_def)

lemma quiet_forget_pending [intro]: "quiet s t \<Longrightarrow> quiet s (t\<lparr>dc_pending_remote := None\<rparr>)"
  by (simp add: quiet_def latch_of_def)

lemma quiet_push: "quiet s (push_cleanup x s)"
proof -
  obtain e d c h where x: "x = ((e, d, c), h)" by (metis prod.exhaust)
  define t where "t = s\<lparr>dc_next_effect_id := dc_next_effect_id s + 1, dc_cleanup := dc_cleanup s @ [cleanup_entry (dc_next_effect_id s) x]\<rparr>"
  have t: "latch_of t = latch_of s" "dc_pending_remote t = dc_pending_remote s"
    by (simp_all add: t_def latch_of_def fun_eq_iff)
  have "push_cleanup x s = adjust_latch d c (quarantine_if e) t"
    by (simp add: push_cleanup_def x t_def)
  moreover have "dc_pending_remote (adjust_latch d c (quarantine_if e) t) = dc_pending_remote s"
    by (simp add: adjust_latch_def t)
  ultimately show ?thesis by (simp add: quiet_def latch_of_adjust t)
qed

lemma quiet_fold_push: "quiet s (fold push_cleanup xs s)"
proof (induction xs arbitrary: s)
  case (Cons x xs)
  show ?case using quiet_trans [OF quiet_push Cons] by simp
qed simp

lemma quiet_queue: "quiet s t \<Longrightarrow> quiet s (snd (queue_remote_cleanup A t))"
  by (rule queue_cleanup_cases [of A t]) (auto intro: quiet_trans quiet_fold_push)

lemma quiet_queue_eq: "queue_remote_cleanup A t = (r, u) \<Longrightarrow> quiet s t \<Longrightarrow> quiet s u"
  using quiet_queue [of s t A] by simp

named_theorems quiet_ops \<open>operations that let latches fade and prepare no decision\<close>

lemma quiet_fail_closed [quiet_ops]: "quiet s t \<Longrightarrow> quiet s (snd (fail_closed now t))"
  by (simp add: fail_closed_def split_def Let_def quiet_queue)

lemma quiet_activate [quiet_ops]: "quiet s t \<Longrightarrow> quiet s (snd (activate_failsafe now t))"
  by (simp add: activate_failsafe_def split_def Let_def quiet_queue)

lemma quiet_policy [quiet_ops]:
  "quiet s (snd (prepare_route_policy_update c r now s))"
  "quiet s (snd (retry_route_policy_update now s))"
  "quiet s (snd (commit_route_policy_update n now s))"
  "quiet s (snd (abort_route_policy_update n now s))"
proof -
  show "quiet s (snd (prepare_route_policy_update c r now s))"
    by (auto simp: prepare_route_policy_update_def Let_def split: option.splits sum.splits prod.splits
        dest!: quiet_queue_eq [where s = s])
  show "quiet s (snd (retry_route_policy_update now s))"
    by (auto simp: retry_route_policy_update_def Let_def split: option.splits sum.splits prod.splits
        dest!: quiet_queue_eq [where s = s])
  show "quiet s (snd (commit_route_policy_update n now s))"
    by (auto simp: commit_route_policy_update_def Let_def split: option.splits sum.splits
        intro!: quiet_relatch [where f = "\<lambda>d. reroute_latch (g d)" for g])
  show "quiet s (snd (abort_route_policy_update n now s))"
    by (auto simp: abort_route_policy_update_def split: option.splits)
qed

lemma quiet_update_config [quiet_ops]: "quiet s (snd (update_config c now s))"
proof -
  have p: "quiet s s'" if "prepare_route_policy_update c r now s = (x, s')" for r x s'
    using quiet_policy(1) [of s c r now] that by simp
  have "quiet s s''" if "commit_route_policy_update n now s' = (y, s'')" "quiet s s'" for s' n y s''
    using quiet_trans [OF that(2)] quiet_policy(3) [of s' n now] that by simp
  moreover have "quiet s (snd (apply_same_routes c now s))"
    by (auto simp: apply_same_routes_def Let_def split: sum.splits prod.splits dest: quiet_queue_eq [where s = s])
  ultimately show ?thesis using p
    by (auto simp: update_config_def split: sum.splits prod.splits option.splits RoutePolicyUpdateStatus.splits)
qed

lemma quiet_workspace [quiet_ops]:
  "quiet s (snd (update_workspace w now s))"
  "quiet s (snd (finish_pointer_handoff w now s))"
proof -
  show u: "quiet s (snd (update_workspace w now s))"
    by (auto simp: update_workspace_def split: sum.splits prod.splits dest: quiet_queue_eq [where s = s])
  have "quiet s s'" if "update_workspace w now s = (r, s')" for r s'
    using u that by simp
  thus "quiet s (snd (finish_pointer_handoff w now s))"
    by (auto simp: finish_pointer_handoff_def split: sum.splits prod.splits)
qed

lemma quiet_invalidated [quiet_ops]: "quiet s (confirm_transport_invalidated e now s)"
  by (simp add: confirm_transport_invalidated_def Let_def return_if_active_def return_to_local_def
      quiet_relatch [where f = "\<lambda>_. quarantine_if e"])

lemma quiet_simple_ops [quiet_ops]:
  "quiet s (snd (tick now s))"
  "quiet s (snd (gate_local_devices ds now s))"
  "quiet s (snd (begin_pointer_handoff now s))"
  "quiet s (cancel_pointer_handoff now s)"
  "quiet s (abort_destination_handoff_barrier now s)"
  "quiet s (snd (set_peer_state h st now s))"
  "quiet s (snd (install_session_endpoint e now s))"
  "quiet s (snd (set_endpoint_state e st now s))"
  "quiet s (snd (retire_session_endpoint e now s))"
  "quiet s (core_enable now s)"
  "quiet s (snd (core_disable now s))"
  "quiet s (snd (trigger_emergency now s))"
  "quiet s (snd (core_shutdown now s))"
  "quiet s (snd (clear_workspace_routing_ready now s))"
  "quiet s (snd (mark_workspace_routing_ready now s))"
  "quiet s (snd (take_next_cleanup_release s))"
  "quiet s (snd (confirm_cleanup_release ef now s))"
  "quiet s (snd (retry_cleanup_release ef now s))"
  by (simp_all add: tick_def gate_local_devices_def begin_pointer_handoff_def
      cancel_pointer_handoff_def abort_destination_handoff_barrier_def set_peer_state_def
      install_session_endpoint_def set_endpoint_state_def retire_session_endpoint_def core_enable_def
      core_disable_def stop_and_queue_def trigger_emergency_def core_shutdown_def
      clear_workspace_routing_ready_def mark_workspace_routing_ready_def take_next_cleanup_release_def
      confirm_cleanup_release_def retry_cleanup_release_def Let_def split_def quiet_queue quiet_fail_closed quiet_activate
      split: option.splits LifecycleState.splits list.splits)

section \<open>Captured records and latches\<close>

lemma physical_sorted:
  assumes "physical_ok s"
  shows "sorted_map (dc_physical_controls s)"
    and "sorted_map (case map_of (dc_physical_controls s) d of None \<Rightarrow> [] | Some cs \<Rightarrow> cs)"
proof -
  have ok: "shape_ok (held_shape (dc_physical_controls s)) (dc_physical_control_count s)"
    using assms by (simp add: physical_ok_def)
  thus "sorted_map (dc_physical_controls s)" by (auto simp: shape_ok_def sorted_shape_eq)
  show "sorted_map (case map_of (dc_physical_controls s) d of None \<Rightarrow> [] | Some cs \<Rightarrow> cs)"
    using shape_ok_lookup [OF ok, of d] by (auto simp: held_shape_map_of sorted_map_def split: option.splits)
qed

lemma latch_of_insert:
  assumes "physical_ok s"
  shows "latch_of (insert_control d c s) d' c' = (if d' = d \<and> c' = c then Some LatchLocal else latch_of s d' c')"
  using physical_sorted [OF assms]
  by (auto simp: latch_of_def insert_control_def Let_def map_of_bt_insert split: option.splits)

lemma latch_of_remove:
  assumes "physical_ok s"
  shows "latch_of (remove_control d c s) d' c' = (if d' = d \<and> c' = c then None else latch_of s d' c')"
proof -
  have "map_of cs c' = None" if "AList.delete c cs = []" "c' \<noteq> c" for cs :: "(PhysicalControl, LatchedDestination) btree_map"
    using that delete_conv [of c cs] by (metis fun_upd_other map_of.simps(1))
  thus ?thesis
    using physical_sorted(1) [OF assms]
    by (auto simp: latch_of_def remove_control_def Let_def map_of_bt_insert delete_conv' split: option.splits)
qed

text \<open>What tracking leaves of the latches, and which record it hands on.\<close>

lemma track_control_latches:
  assumes "physical_ok s" and "track_control d p now s = (Inr (co, tr, prev), s1)"
  shows "dc_pending_remote s1 = dc_pending_remote s"
    and "control_from_payload p = None \<Longrightarrow> co = None \<and> s1 = s"
    and "control_from_payload p = Some (c, t) \<Longrightarrow> co = Some c \<and> tr = Some t \<and> prev = latch_of s d c
           \<and> latch_of s1 d c = (case t of Press \<Rightarrow> if prev = None then Some LatchLocal else prev
                                | Repeat \<Rightarrow> prev | Release \<Rightarrow> None)
           \<and> (\<forall>d' c'. (d', c') \<noteq> (d, c) \<longrightarrow> latch_of s1 d' c' = latch_of s d' c')"
proof -
  have pend: "dc_pending_remote (insert_control d c s) = dc_pending_remote s"
    "dc_pending_remote (remove_control d c s) = dc_pending_remote s" for c
    by (simp_all add: insert_control_def remove_control_def Let_def split: option.splits)
  have cap: "s' = s" if "ensure_physical_capacity d s = (Inr u, s')" for u s'
    using that by (auto simp: ensure_physical_capacity_def Let_def split: if_splits)
  show "dc_pending_remote s1 = dc_pending_remote s"
    using assms(2) pend cap
    by (auto simp: track_control_def Let_def split: option.splits PhysicalTransition.splits prod.splits sum.splits if_splits)
  show "control_from_payload p = None \<Longrightarrow> co = None \<and> s1 = s"
    using assms(2) by (simp add: track_control_def)
  show "control_from_payload p = Some (c, t) \<Longrightarrow> co = Some c \<and> tr = Some t \<and> prev = latch_of s d c
           \<and> latch_of s1 d c = (case t of Press \<Rightarrow> if prev = None then Some LatchLocal else prev
                                | Repeat \<Rightarrow> prev | Release \<Rightarrow> None)
           \<and> (\<forall>d' c'. (d', c') \<noteq> (d, c) \<longrightarrow> latch_of s1 d' c' = latch_of s d' c')"
    using assms cap
    by (cases t) (auto simp: track_control_def Let_def latch_of_insert latch_of_remove
        split: prod.splits sum.splits if_splits)
qed

text \<open>
  After tracking, either latches fade and nothing is outstanding, or a decision for this very
  record is outstanding, with no latch before or a remote one of the same endpoint.
\<close>

definition decides :: "InputEvent \<Rightarrow> tracked \<Rightarrow> DaemonCore \<Rightarrow> DaemonCore \<Rightarrow> bool" where
  "decides event t s s' \<longleftrightarrow> latch_of s' = latch_of s
     \<and> (\<exists>p. dc_pending_remote s' = Some p \<and> prd_device p = ev_source_device event
          \<and> (prd_control p, prd_transition p, prd_previous_latch p) = t
          \<and> (prd_previous_latch p = None \<or> (\<exists>r. prd_previous_latch p = Some (LatchRemote (prd_endpoint p) r))))"

definition routed :: "InputEvent \<Rightarrow> tracked \<Rightarrow> DaemonCore \<Rightarrow> DaemonCore \<Rightarrow> bool" where
  "routed event t s s' \<longleftrightarrow> quiet s s' \<or> decides event t s s'"

lemma routed_quiet: "quiet s s' \<Longrightarrow> routed event t s s'"
  by (simp add: routed_def)

lemma routed_refl [simp]: "routed event t s s"
  by (simp add: routed_def)

lemma routed_effect:
  assumes "prev = None \<or> (\<exists>r. prev = Some (LatchRemote e r))"
  shows "routed event (co, tr, prev) s (snd (prepare_remote_effect event e (co, tr, prev) now s))"
proof (cases "fst (allocate_effect_id s)")
  case (Inl x)
  hence "allocate_effect_id s = (Inl x, s)"
    by (auto simp: allocate_effect_id_def split: option.splits)
  thus ?thesis by (simp add: prepare_remote_effect_def split_def Let_def quiet_fail_closed routed_quiet)
next
  case (Inr i)
  define s1 where "s1 = snd (allocate_effect_id s)"
  have a: "allocate_effect_id s = (Inr i, s1)" using Inr by (simp add: s1_def prod_eq_iff)
  have l: "latch_of s1 = latch_of s"
    by (auto simp: s1_def allocate_effect_id_def latch_of_def fun_eq_iff split: option.splits)
  have "latch_of (s1\<lparr>dc_pending_remote := q\<rparr>) = latch_of s" for q
    using l by (simp add: latch_of_def fun_eq_iff)
  thus ?thesis
    using a assms by (auto simp: prepare_remote_effect_def decides_def quiet_fail_closed routed_def)
qed

lemma routed_quarantine: "routed event t s (adjust_latch d c (\<lambda>_. LatchQuarantined) s)"
proof -
  have "fades l (map_option (\<lambda>_. LatchQuarantined) l)" for l by (cases l) (simp_all add: fades_def)
  moreover have "dc_pending_remote (adjust_latch d c (\<lambda>_. LatchQuarantined) s) = dc_pending_remote s"
    by (simp add: adjust_latch_def)
  ultimately show ?thesis by (simp add: routed_quiet quiet_def latch_of_adjust)
qed

lemma routed_unlatched: "routed event (co, tr, None) s (snd (route_unlatched event (co, tr, None) now s))"
  by (simp add: route_unlatched_def Let_def routed_quarantine routed_effect split: option.split Destination.split)

lemma routed_fail_closed: "fail_closed now s = (r, s') \<Longrightarrow> routed event t s s'"
  using quiet_fail_closed [OF quiet_refl, of s now] by (simp add: routed_quiet)

lemma routed_tracked: "routed event (co, tr, prev) s (snd (route_tracked event (co, tr, prev) now s))"
proof (cases prev)
  case None
  thus ?thesis
    by (auto simp: route_tracked_def Let_def routed_unlatched routed_effect
        split: option.split LatchedDestination.split sum.split prod.split intro: routed_fail_closed)
next
  case (Some l)
  thus ?thesis
    by (auto simp: route_tracked_def Let_def routed_effect
        split: LatchedDestination.split sum.split prod.split intro: routed_fail_closed)
qed

lemma routed_after_tracking:
  "routed event (co, tr, prev) s (snd (route_after_tracking event (co, tr, prev) now s))"
proof -
  have "routed event (co, tr, prev) s s'" if "activate_failsafe now (s\<lparr>dc_drain_failsafe_keys := True\<rparr>) = (r, s')" for r s'
    using quiet_activate [of s "s\<lparr>dc_drain_failsafe_keys := True\<rparr>" now] that by (simp add: routed_quiet)
  thus ?thesis
    by (auto simp: route_after_tracking_def routed_tracked routed_quiet split: sum.splits prod.splits)
qed

section \<open>Outstanding presses agree with the latch\<close>

definition press_agrees :: "DaemonCore \<Rightarrow> DeviceId \<Rightarrow> PhysicalControl \<Rightarrow> SessionEndpoint \<Rightarrow> bool" where
  "press_agrees s d c e \<longleftrightarrow>
     (\<forall>p. dc_pending_remote s = Some p \<and> prd_device p = d \<and> prd_control p = Some c \<and> prd_transition p = Some Press
        \<longrightarrow> prd_previous_latch p \<noteq> None \<and> prd_endpoint p = e)"

definition presses_agree :: "DaemonCore \<Rightarrow> bool" where
  "presses_agree s \<longleftrightarrow> (\<forall>d c e r. latch_of s d c = Some (LatchRemote e r) \<longrightarrow> press_agrees s d c e)"

text \<open>The control is latched to the endpoint or quarantined, and no outstanding press says otherwise.\<close>

definition stays_away :: "SessionEndpoint \<Rightarrow> DeviceId \<Rightarrow> PhysicalControl \<Rightarrow> DaemonCore \<Rightarrow> bool" where
  "stays_away e d c s \<longleftrightarrow> press_agrees s d c e
     \<and> (latch_of s d c = Some LatchQuarantined \<or> (\<exists>r. latch_of s d c = Some (LatchRemote e r)))"

lemma presses_agree_none: "dc_pending_remote s = None \<Longrightarrow> presses_agree s"
  by (simp add: presses_agree_def press_agrees_def)

lemma press_agrees_quiet: "quiet s s' \<Longrightarrow> press_agrees s d c e \<Longrightarrow> press_agrees s' d c e"
  by (auto simp: quiet_def press_agrees_def)

lemma stays_away_quiet: "quiet s s' \<Longrightarrow> stays_away e d c s \<Longrightarrow> stays_away e d c s'"
proof -
  assume q: "quiet s s'" and s: "stays_away e d c s"
  have "fades (latch_of s d c) (latch_of s' d c)" using q by (simp add: quiet_def)
  with s press_agrees_quiet [OF q] show ?thesis by (auto simp: stays_away_def fades_def)
qed

lemma presses_agree_quiet: "quiet s s' \<Longrightarrow> presses_agree s \<Longrightarrow> presses_agree s'"
proof -
  assume q: "quiet s s'" and s: "presses_agree s"
  have "\<exists>r'. latch_of s d c = Some (LatchRemote e r')" if "latch_of s' d c = Some (LatchRemote e r)" for d c e r
    using q that unfolding quiet_def fades_def by (metis LatchedDestination.distinct(5) option.inject LatchedDestination.inject)
  with s press_agrees_quiet [OF q] show ?thesis unfolding presses_agree_def by metis
qed

lemma track_control_refused:
  "track_control d p now s = (Inl er, s') \<Longrightarrow> quiet s s'"
proof -
  have "quiet s (snd (ensure_physical_capacity d s))"
    by (simp add: ensure_physical_capacity_def Let_def)
  thus "track_control d p now s = (Inl er, s') \<Longrightarrow> quiet s s'"
    using quiet_fail_closed [of s "snd (ensure_physical_capacity d s)" now]
    by (auto simp: track_control_def Let_def split: option.splits PhysicalTransition.splits prod.splits sum.splits if_splits)
qed

lemma prepare_captured_cases:
  obtains (quiet) "quiet s (snd (prepare_captured captured now s))"
  | (routed) co tr prev s1 where "dc_pending_remote s = None"
      "track_control (ev_source_device (ci_event captured)) (ev_payload (ci_event captured)) now s = (Inr (co, tr, prev), s1)"
      "routed (ci_event captured) (co, tr, prev) s1 (snd (prepare_captured captured now s))"
proof (cases "dc_pending_remote s \<noteq> None \<or> bypasses_routing s captured")
  case True
  thus ?thesis using quiet by (auto simp: prepare_captured_def)
next
  case False
  obtain q s1 where t: "track_control (ev_source_device (ci_event captured)) (ev_payload (ci_event captured)) now s = (q, s1)"
    by fastforce
  show ?thesis
  proof (cases q)
    case (Inl er)
    thus ?thesis using False t quiet track_control_refused by (simp add: prepare_captured_def)
  next
    case (Inr tracked)
    obtain co tr prev where "tracked = (co, tr, prev)" by (cases tracked)
    thus ?thesis
      using False t Inr routed [of co tr prev s1] routed_after_tracking
      by (simp add: prepare_captured_def)
  qed
qed

text \<open>The decision a record leaves outstanding, when it is a press.\<close>

lemma decides_press:
  assumes ok: "physical_ok s"
    and t: "track_control (ev_source_device event) (ev_payload event) now s = (Inr (co, tr, prev), s1)"
    and dec: "decides event (co, tr, prev) s1 s'"
    and p: "dc_pending_remote s' = Some p" "prd_control p = Some c" "prd_transition p = Some Press"
  shows "latch_of s' (prd_device p) c =
           (case latch_of s (prd_device p) c of None \<Rightarrow> Some LatchLocal | Some l \<Rightarrow> Some l)"
    and "prd_previous_latch p = latch_of s (prd_device p) c"
    and "latch_of s (prd_device p) c = None \<or> (\<exists>r. latch_of s (prd_device p) c = Some (LatchRemote (prd_endpoint p) r))"
proof -
  have d: "prd_device p = ev_source_device event" "co = Some c" "tr = Some Press" "prd_previous_latch p = prev"
    and l: "latch_of s' = latch_of s1"
    and prev: "prev = None \<or> (\<exists>r. prev = Some (LatchRemote (prd_endpoint p) r))"
    using dec p by (auto simp: decides_def)
  obtain c' t' where pl: "control_from_payload (ev_payload event) = Some (c', t')"
    using track_control_latches(2) [OF ok t] d(2) by (cases "control_from_payload (ev_payload event)") auto
  note k = track_control_latches(3) [OF ok t pl]
  show "prd_previous_latch p = latch_of s (prd_device p) c"
    and "latch_of s (prd_device p) c = None \<or> (\<exists>r. latch_of s (prd_device p) c = Some (LatchRemote (prd_endpoint p) r))"
    and "latch_of s' (prd_device p) c =
           (case latch_of s (prd_device p) c of None \<Rightarrow> Some LatchLocal | Some l \<Rightarrow> Some l)"
    using k d l prev by (auto split: option.splits)
qed

lemma prepare_presses_agree:
  assumes "physical_ok s" and "presses_agree s"
  shows "presses_agree (snd (prepare_captured captured now s))"
proof (cases rule: prepare_captured_cases [of s captured now])
  case quiet
  thus ?thesis using assms(2) by (rule presses_agree_quiet)
next
  case (routed co tr prev s1)
  let ?s' = "snd (prepare_captured captured now s)"
  have n: "dc_pending_remote s1 = None" using track_control_latches(1) [OF assms(1) routed(2)] routed(1) by simp
  show ?thesis
  proof (cases "quiet s1 ?s'")
    case True
    thus ?thesis using n by (intro presses_agree_none) (auto simp: quiet_def)
  next
    case False
    hence dec: "decides (ci_event captured) (co, tr, prev) s1 ?s'" using routed(3) by (simp add: routed_def)
    show ?thesis
      unfolding presses_agree_def press_agrees_def
      using decides_press [OF assms(1) routed(2) dec] by (fastforce split: option.splits)
  qed
qed

definition releases :: "DeviceId \<Rightarrow> PhysicalControl \<Rightarrow> CapturedInput \<Rightarrow> bool" where
  "releases d c captured \<longleftrightarrow> ev_source_device (ci_event captured) = d
     \<and> control_from_payload (ev_payload (ci_event captured)) = Some (c, Release)"

lemma prepare_stays_away:
  assumes ok: "physical_ok s" and away: "stays_away e d c s" and held: "\<not> releases d c captured"
  shows "stays_away e d c (snd (prepare_captured captured now s))"
proof (cases rule: prepare_captured_cases [of s captured now])
  case quiet
  thus ?thesis using away by (rule stays_away_quiet)
next
  case (routed co tr prev s1)
  let ?s' = "snd (prepare_captured captured now s)"
  have n: "dc_pending_remote s1 = None" using track_control_latches(1) [OF ok routed(2)] routed(1) by simp
  have some: "latch_of s d c \<noteq> None" using away by (auto simp: stays_away_def)
  have keep: "latch_of s1 d c = latch_of s d c"
  proof (cases "control_from_payload (ev_payload (ci_event captured))")
    case None
    thus ?thesis using track_control_latches(2) [OF ok routed(2)] by simp
  next
    case (Some x)
    obtain c' t where x: "x = (c', t)" by (cases x)
    note k = track_control_latches(3) [OF ok routed(2) Some [unfolded x]]
    show ?thesis
      using k some held Some x
      by (cases "(d, c) = (ev_source_device (ci_event captured), c')"; cases t) (auto simp: releases_def)
  qed
  hence a1: "stays_away e d c s1" using away n by (simp add: stays_away_def press_agrees_def)
  show ?thesis
  proof (cases "quiet s1 ?s'")
    case True
    thus ?thesis using a1 by (rule stays_away_quiet)
  next
    case False
    hence dec: "decides (ci_event captured) (co, tr, prev) s1 ?s'" using routed(3) by (simp add: routed_def)
    hence l: "latch_of ?s' d c = latch_of s d c" using keep by (simp add: decides_def)
    have "press_agrees ?s' d c e"
      unfolding press_agrees_def using decides_press [OF ok routed(2) dec] away
      by (fastforce simp: stays_away_def)
    thus ?thesis using l away by (simp add: stays_away_def)
  qed
qed

lemma take_matching_cases:
  assumes "take_matching_remote i now s = (r, s')"
  shows "quiet s s'" and "r = Inr p \<Longrightarrow> dc_pending_remote s = Some p \<and> dc_pending_remote s' = None"
  using assms by (auto simp: take_matching_remote_def split: option.splits if_splits)

lemma fail_remote_stays_away:
  assumes "stays_away e d c s"
  shows "stays_away e d c (snd (fail_remote_input effect now s))"
proof -
  obtain r s1 where t: "take_matching_remote (rie_decision_id effect) now s = (r, s1)" by fastforce
  have a: "stays_away e d c s1" using take_matching_cases(1) [OF t] assms by (rule stays_away_quiet)
  show ?thesis
  proof (cases r)
    case (Inl er)
    thus ?thesis using t a by (simp add: fail_remote_input_def)
  next
    case (Inr p)
    have p: "dc_pending_remote s = Some p" "dc_pending_remote s1 = None"
      using take_matching_cases(2) [OF t Inr] by auto
    define s2 where "s2 = (if prd_transition p = Some Press \<and> prd_previous_latch p = None
      then (case prd_control p of Some control \<Rightarrow> adjust_latch (prd_device p) control (\<lambda>_. LatchLocal) s1 | None \<Rightarrow> s1) else s1)"
    have "latch_of s2 d c = latch_of s1 d c"
      using assms p by (auto simp: s2_def stays_away_def press_agrees_def latch_of_adjust split: option.splits)
    moreover have "dc_pending_remote s2 = None"
      using p by (auto simp: s2_def adjust_latch_def split: option.splits)
    ultimately have "stays_away e d c s2" using a by (simp add: stays_away_def press_agrees_def)
    hence "stays_away e d c (snd (fail_closed now s2))"
      using stays_away_quiet quiet_fail_closed [OF quiet_refl] by blast
    thus ?thesis using t Inr by (simp add: fail_remote_input_def s2_def)
  qed
qed

lemma fail_remote_presses_agree:
  assumes "presses_agree s"
  shows "presses_agree (snd (fail_remote_input effect now s))"
proof -
  obtain r s1 where t: "take_matching_remote (rie_decision_id effect) now s = (r, s1)" by fastforce
  show ?thesis
  proof (cases r)
    case (Inl er)
    thus ?thesis
      using t presses_agree_quiet [OF take_matching_cases(1) [OF t] assms] by (simp add: fail_remote_input_def)
  next
    case (Inr p)
    have "dc_pending_remote (snd (fail_closed now s2)) = dc_pending_remote s2" for s2
      by (simp add: fail_closed_def Let_def split_def publish_snapshot_def return_to_local_def)
    thus ?thesis
      using t Inr take_matching_cases(2) [OF t Inr]
      by (intro presses_agree_none) (auto simp: fail_remote_input_def Let_def adjust_latch_def split: option.splits)
  qed
qed

lemma confirm_remote_stays_away:
  assumes "stays_away e d c s"
  shows "stays_away e d c (snd (confirm_remote_input effect q now s))"
proof -
  obtain r s1 where t: "take_matching_remote (rie_decision_id effect) now s = (r, s1)" by fastforce
  have a: "stays_away e d c s1" using take_matching_cases(1) [OF t] assms by (rule stays_away_quiet)
  have quiet: "stays_away e d c s2" if "quiet s1 s2" for s2 using that a by (rule stays_away_quiet)
  have fc: "stays_away e d c s2" if "fail_closed now s1 = (x, s2)" for x s2
    using quiet quiet_fail_closed [OF quiet_refl, of s1 now] that by simp
  show ?thesis
  proof (cases r)
    case (Inl er)
    thus ?thesis using t a by (simp add: confirm_remote_input_def)
  next
    case (Inr p)
    have p: "dc_pending_remote s = Some p" "dc_pending_remote s1 = None"
      using take_matching_cases(2) [OF t Inr] by auto
    have relatch: "stays_away e d c (publish_snapshot now (adjust_latch (prd_device p) control
        (\<lambda>_. LatchRemote (prd_endpoint p) route) (s1\<lparr>dc_remote_held := h\<rparr>)))"
      if "prd_control p = Some control" "prd_transition p = Some Press" for control route h
    proof -
      define s2 where "s2 = s1\<lparr>dc_remote_held := h\<rparr>"
      have s2: "latch_of s2 = latch_of s1" "dc_pending_remote s2 = None"
        using p by (simp_all add: s2_def latch_of_def fun_eq_iff)
      have "prd_endpoint p = e" if "prd_device p = d" "control = c"
        using assms p(1) that \<open>prd_control p = _\<close> \<open>prd_transition p = _\<close> by (auto simp: stays_away_def press_agrees_def)
      hence "latch_of (adjust_latch (prd_device p) control (\<lambda>_. LatchRemote (prd_endpoint p) route) s2) d c
          \<in> {latch_of s1 d c, Some (LatchRemote e route)}"
        using a by (auto simp: latch_of_adjust s2 stays_away_def)
      hence "stays_away e d c (adjust_latch (prd_device p) control (\<lambda>_. LatchRemote (prd_endpoint p) route) s2)"
        using a s2(2) by (auto simp: stays_away_def press_agrees_def adjust_latch_def)
      thus ?thesis unfolding s2_def by (rule stays_away_quiet [rotated]) simp
    qed
    show ?thesis
      using t Inr
      by (auto simp: confirm_remote_input_def Let_def
          split: option.split PhysicalTransition.split sum.split prod.split
          intro: quiet relatch fc simp: quiet_fail_closed)
  qed
qed

lemma confirm_remote_presses_agree:
  assumes "presses_agree s"
  shows "presses_agree (snd (confirm_remote_input effect q now s))"
proof -
  obtain r s1 where t: "take_matching_remote (rie_decision_id effect) now s = (r, s1)" by fastforce
  show ?thesis
  proof (cases r)
    case (Inl er)
    thus ?thesis
      using t presses_agree_quiet [OF take_matching_cases(1) [OF t] assms] by (simp add: confirm_remote_input_def)
  next
    case (Inr p)
    have fc: "dc_pending_remote s2 = dc_pending_remote s1" if "fail_closed now s1 = (x, s2)" for x s2
    proof -
      have "dc_pending_remote (snd (fail_closed now s1)) = dc_pending_remote s1"
        by (simp add: fail_closed_def Let_def split_def publish_snapshot_def return_to_local_def)
      thus ?thesis using that by simp
    qed
    hence fs: "dc_pending_remote (snd (fail_closed now s1)) = dc_pending_remote s1" by (cases "fail_closed now s1") simp
    show ?thesis
      using t Inr take_matching_cases(2) [OF t Inr] fs
      by (intro presses_agree_none)
        (auto simp: confirm_remote_input_def Let_def adjust_latch_def publish_snapshot_def
          split: option.split PhysicalTransition.split sum.split prod.split dest: fc)
  qed
qed

lemma restore_presses_agree:
  assumes "presses_agree s"
  shows "presses_agree (snd (restore_local_device d now s))"
proof -
  have "latch_of (snd (restore_local_device d now s)) d' c = latch_of s d' c
      \<or> latch_of (snd (restore_local_device d now s)) d' c = None" for d' c
    by (auto simp: restore_local_device_def Let_def latch_of_def publish_snapshot_def delete_conv' split: option.splits)
  moreover have "dc_pending_remote (snd (restore_local_device d now s)) = dc_pending_remote s"
    by (simp add: restore_local_device_def Let_def publish_snapshot_def split: option.splits)
  ultimately show ?thesis
    using assms unfolding presses_agree_def press_agrees_def by (metis option.distinct(1))
qed

lemma restore_stays_away:
  assumes "d' \<noteq> d" and "stays_away e d c s"
  shows "stays_away e d c (snd (restore_local_device d' now s))"
proof -
  have "latch_of (snd (restore_local_device d' now s)) d c = latch_of s d c"
    using assms(1) by (auto simp: restore_local_device_def Let_def latch_of_def publish_snapshot_def delete_conv' split: option.splits)
  moreover have "dc_pending_remote (snd (restore_local_device d' now s)) = dc_pending_remote s"
    by (simp add: restore_local_device_def Let_def publish_snapshot_def split: option.splits)
  ultimately show ?thesis using assms(2) by (simp add: stays_away_def press_agrees_def)
qed

lemma process_captured_state:
  "snd (process_captured captured now s) = snd (prepare_captured captured now s)
   \<or> (\<exists>effect. snd (process_captured captured now s) = snd (fail_remote_input effect now (snd (prepare_captured captured now s))))"
  by (auto simp: process_captured_def Let_def split: prod.splits sum.splits CaptureDecision.splits)
    (metis snd_conv)+

section \<open>A run without a release\<close>

text \<open>The operations after which a control is no longer held: its release, and restoring its device.\<close>

fun lets_go :: "DeviceId \<Rightarrow> PhysicalControl \<Rightarrow> core_op \<Rightarrow> bool" where
  "lets_go d c (OpPrepare captured) \<longleftrightarrow> releases d c captured"
| "lets_go d c (OpProcess captured) \<longleftrightarrow> releases d c captured"
| "lets_go d c (OpRestore d') \<longleftrightarrow> d' = d"
| "lets_go d c _ \<longleftrightarrow> False"

lemma core_physical: "core_inv me s \<Longrightarrow> physical_ok s"
  by (simp add: core_inv_def base_inv_def)

text \<open>The operations that may do more than let latches fade.\<close>

fun relatches :: "core_op \<Rightarrow> bool" where
  "relatches (OpPrepare captured) \<longleftrightarrow> True"
| "relatches (OpProcess captured) \<longleftrightarrow> True"
| "relatches (OpConfirmRemote effect q) \<longleftrightarrow> True"
| "relatches (OpFailRemote effect) \<longleftrightarrow> True"
| "relatches (OpRestore d) \<longleftrightarrow> True"
| "relatches _ \<longleftrightarrow> False"

lemma core_step_quiet: "\<not> relatches op \<Longrightarrow> quiet s (core_step op now s)"
  by (cases op) (simp_all add: quiet_ops)

lemma presses_agree_step:
  assumes "core_inv me s" and "presses_agree s"
  shows "presses_agree (core_step op now s)"
proof (cases op)
  case (OpPrepare captured)
  thus ?thesis using assms prepare_presses_agree core_physical by simp
next
  case (OpProcess captured)
  have "presses_agree (snd (prepare_captured captured now s))"
    using assms prepare_presses_agree core_physical by blast
  thus ?thesis
    using OpProcess process_captured_state [of captured now s] fail_remote_presses_agree by auto
next
  case (OpConfirmRemote effect q)
  thus ?thesis using assms confirm_remote_presses_agree by simp
next
  case (OpFailRemote effect)
  thus ?thesis using assms fail_remote_presses_agree by simp
next
  case (OpRestore d)
  thus ?thesis using assms restore_presses_agree by simp
qed (use presses_agree_quiet [OF core_step_quiet assms(2), of op now] in simp_all)

lemma core_reach_presses: "core_reach me s \<Longrightarrow> presses_agree s"
proof (induction rule: core_reach.induct)
  case (start config w s)
  thus ?case by (intro presses_agree_none) (auto simp: core_new_def Let_def split: if_splits)
next
  case (step s op now)
  thus ?case using presses_agree_step core_reach_inv by blast
qed

lemma stays_away_step:
  assumes "core_inv me s" and "stays_away e d c s" and "\<not> lets_go d c op"
  shows "stays_away e d c (core_step op now s)"
proof (cases op)
  case (OpPrepare captured)
  thus ?thesis using assms prepare_stays_away core_physical by simp
next
  case (OpProcess captured)
  have "stays_away e d c (snd (prepare_captured captured now s))"
    using assms OpProcess prepare_stays_away core_physical by simp
  thus ?thesis
    using OpProcess process_captured_state [of captured now s] fail_remote_stays_away by auto
next
  case (OpRestore d')
  thus ?thesis using assms restore_stays_away by simp
next
  case (OpConfirmRemote effect q)
  thus ?thesis using assms confirm_remote_stays_away by simp
next
  case (OpFailRemote effect)
  thus ?thesis using assms fail_remote_stays_away by simp
qed (use stays_away_quiet [OF core_step_quiet assms(2), of op now] in simp_all)

definition core_run :: "(core_op \<times> u64) list \<Rightarrow> DaemonCore \<Rightarrow> DaemonCore" where
  "core_run run s = fold (\<lambda>(op, now). core_step op now) run s"

lemma core_reach_run: "core_reach me s \<Longrightarrow> core_reach me (core_run run s)"
  unfolding core_run_def by (induction run arbitrary: s) (auto intro: core_reach.step)

lemma stays_away_run:
  assumes "core_reach me s" and "stays_away e d c s" and "list_all (\<lambda>(op, now). \<not> lets_go d c op) run"
  shows "stays_away e d c (core_run run s)"
  using assms
proof (induction run arbitrary: s)
  case (Cons x run)
  obtain op now where x: "x = (op, now)" by (cases x)
  have "stays_away e d c (core_step op now s)"
    using stays_away_step [OF core_reach_inv [OF Cons.prems(1)] Cons.prems(2)] Cons.prems(3) x by simp
  thus ?case
    using Cons.IH [of "core_step op now s"] core_reach.step [OF Cons.prems(1)] Cons.prems(3) x
    by (simp add: core_run_def)
qed (simp add: core_run_def)

section \<open>A pressed control keeps its destination\<close>

definition suppresses :: "CaptureDecision core_result \<Rightarrow> SessionEndpoint \<Rightarrow> bool" where
  "suppresses r e \<longleftrightarrow>
     (case fst r of
        Inr (DecideRemote effect) \<Rightarrow> rie_endpoint effect = e
      | Inr (DecideInert out) \<Rightarrow> co_disposition out = SuppressLocal
      | Inr (DecideFault out er) \<Rightarrow> co_disposition out = SuppressLocal
      | Inr (DecideLocal out) \<Rightarrow> False
      | Inl er \<Rightarrow> False)"

lemma prepare_effect_suppresses:
  "suppresses (prepare_remote_effect event e (c, t, Some (LatchRemote e' r)) now s) e"
  by (auto simp: suppresses_def prepare_remote_effect_def Let_def outcome_defs split: prod.splits sum.splits)

lemma route_tracked_latched:
  "suppresses (route_tracked event (c, t, Some (LatchRemote e r)) now s) e"
  using prepare_effect_suppresses
  by (auto simp: route_tracked_def Let_def suppresses_def outcome_defs split: prod.splits sum.splits)

definition passes_locally :: "CaptureDecision core_result \<Rightarrow> bool" where
  "passes_locally r \<longleftrightarrow>
     (case fst r of
        Inr (DecideLocal out) \<Rightarrow> co_disposition out = AllowLocal
      | Inr (DecideFault out er) \<Rightarrow> co_disposition out = AllowLocal
      | _ \<Rightarrow> False)"

text \<open>The emergency shortcut takes a record: its keys are being let go, or all of them are down.\<close>

definition failsafe_engaged :: "DaemonCore \<Rightarrow> bool" where
  "failsafe_engaged s \<longleftrightarrow> dc_drain_failsafe_keys s \<or> failsafe_matches s"

lemma engaged_passes_locally:
  "failsafe_engaged s \<Longrightarrow> passes_locally (route_after_tracking event t now s)"
  by (auto simp: failsafe_engaged_def route_after_tracking_def passes_locally_def outcome_defs
      split: prod.splits sum.splits)

lemma away_suppresses:
  assumes away: "stays_away e d c s" and usable: "\<not> bypasses_routing s captured"
    and event: "ev_source_device (ci_event captured) = d" "control_from_payload (ev_payload (ci_event captured)) = Some (c, tr)"
    and pend: "dc_pending_remote s = None"
    and after: "s1 = (if tr = Release then remove_control d c s else s)"
  shows "if failsafe_engaged s1 then passes_locally (prepare_captured captured now s)
         else suppresses (prepare_captured captured now s) e"
proof -
  obtain l where l: "latch_of s d c = Some l" and l_cases: "l = LatchQuarantined \<or> (\<exists>r. l = LatchRemote e r)"
    using away by (auto simp: stays_away_def)
  have prep: "prepare_captured captured now s = route_after_tracking (ci_event captured) (Some c, Some tr, Some l) now s1"
    using usable event pend l after by (cases tr) (simp_all add: prepare_captured_def track_control_def Let_def)
  have "suppresses (route_tracked event (co, t, Some l) now s1) e" for event co t
    using l_cases route_tracked_latched by (auto simp: route_tracked_def suppresses_def outcome_defs)
  thus ?thesis
    using prep engaged_passes_locally [of s1] by (simp add: failsafe_engaged_def route_after_tracking_def)
qed

text \<open>
  C11: Once the press of a key or button went to a remote endpoint, then as long as the control is not
  released and its device not restored, whatever else happens in between (other records,
  confirmations and failures, reconfiguration, hand-offs, loss of the endpoint, failing closed), it
  stays latched to that endpoint or is quarantined, and its next record is decided accordingly:
  refused while an earlier decision is outstanding; let through to the local system if the
  emergency shortcut is engaged after this record, the one exception; otherwise sent to that same
  endpoint or suppressed, never handed to the local system.
\<close>

theorem latched_control_stays_remote:
  assumes "core_reach me s" and "latch_of s d c = Some (LatchRemote e r)"
    and "list_all (\<lambda>(op, now). \<not> lets_go d c op) run" and "s' = core_run run s"
    and "\<not> bypasses_routing s' captured" and "ev_source_device (ci_event captured) = d"
    and "control_from_payload (ev_payload (ci_event captured)) = Some (c, tr)"
  shows "(latch_of s' d c = Some LatchQuarantined \<or> (\<exists>r'. latch_of s' d c = Some (LatchRemote e r')))
    \<and> (if dc_pending_remote s' \<noteq> None then prepare_captured captured now s' = (Inl CoreUnavailable, s')
       else if failsafe_engaged (if tr = Release then remove_control d c s' else s')
       then passes_locally (prepare_captured captured now s')
       else suppresses (prepare_captured captured now s') e)"
proof -
  have "stays_away e d c s"
    using core_reach_presses [OF assms(1)] assms(2) by (simp add: stays_away_def presses_agree_def)
  hence away: "stays_away e d c s'" using stays_away_run [OF assms(1) _ assms(3)] assms(4) by simp
  have "prepare_captured captured now s' = (Inl CoreUnavailable, s')" if "dc_pending_remote s' \<noteq> None"
    using that by (simp add: prepare_captured_def)
  with away away_suppresses [OF away assms(5-7) _ refl, of now] show ?thesis
    by (simp add: stays_away_def)
qed

theorem latched_control_stays_remote_witness:
  "\<not> passes_locally (prepare_captured (demo_input (Key K_KeyA Released)) 7 (core_run [(OpDisable, 6), (OpEnable, 7)] demo_held))
   \<and> suppresses (prepare_captured (demo_input (Key K_KeyA Released)) 7 (core_run [(OpDisable, 6), (OpEnable, 7)] demo_held)) demo_endpoint"
proof -
  let ?s' = "core_run [(OpDisable, 6), (OpEnable, 7)] demo_held"
  have l: "latch_of demo_held 7 (ControlKey K_KeyA) = Some (LatchRemote demo_endpoint (RouteHost 2))"
    by (simp add: latch_of_def demo_held_def)
  have s': "dc_pending_remote ?s' = None" "\<not> failsafe_engaged (remove_control 7 (ControlKey K_KeyA) ?s')"
    "\<not> bypasses_routing ?s' (demo_input (Key K_KeyA Released))"
    by (simp_all add: core_run_def core_disable_def stop_and_queue_def core_enable_def demo_held_def demo_key_def
        failsafe_engaged_def core_eval)
  have "suppresses (prepare_captured (demo_input (Key K_KeyA Released)) 7 ?s') demo_endpoint"
    using latched_control_stays_remote [OF demo_held_reach l _ refl s'(3), of Release 7] s'
    by (simp add: demo_input_def demo_event_def CapturedInput_new_def)
  thus ?thesis
    by (auto simp: suppresses_def passes_locally_def split: sum.splits CaptureDecision.splits)
qed

end
