(* ===== verification/WireInput.thy ===== *)
theory WireInput
  imports DaemonState WireMessages
begin

text \<open>
  The deliberate conversion between wire input and daemon input of
  \<^verbatim>\<open>kvm-daemon/src/wire.rs\<close>: HID usages to canonical keys and back, pointer buttons, whole events
  and release actions.  The \<^verbatim>\<open>match\<close> arms with literal patterns are association lists in the
  order of the arms.  The lemmas show that every wire usage the decoder accepts is encoded again
  to a usage with the same meaning, and for which keys encoding and decoding is lossless.
\<close>

section \<open>Usage tables\<close>

definition KEYBOARD_PAGE :: u16 where "KEYBOARD_PAGE = 0x07"
definition CONSUMER_PAGE :: u16 where "CONSUMER_PAGE = 0x0C"

datatype WireConversionError = WCE_NonFiniteInput | WCE_UnsupportedKey | WCE_UnsupportedReleasePayload

definition keyboard_usage_table :: "(u16 \<times> KeyCode) list" where
  "keyboard_usage_table =
   [(0x04, K_KeyA), (0x05, K_KeyB), (0x06, K_KeyC), (0x07, K_KeyD),
    (0x08, K_KeyE), (0x09, K_KeyF), (0x0A, K_KeyG), (0x0B, K_KeyH),
    (0x0C, K_KeyI), (0x0D, K_KeyJ), (0x0E, K_KeyK), (0x0F, K_KeyL),
    (0x10, K_KeyM), (0x11, K_KeyN), (0x12, K_KeyO), (0x13, K_KeyP),
    (0x14, K_KeyQ), (0x15, K_KeyR), (0x16, K_KeyS), (0x17, K_KeyT),
    (0x18, K_KeyU), (0x19, K_KeyV), (0x1A, K_KeyW), (0x1B, K_KeyX),
    (0x1C, K_KeyY), (0x1D, K_KeyZ), (0x1E, K_Digit1), (0x1F, K_Digit2),
    (0x20, K_Digit3), (0x21, K_Digit4), (0x22, K_Digit5), (0x23, K_Digit6),
    (0x24, K_Digit7), (0x25, K_Digit8), (0x26, K_Digit9), (0x27, K_Digit0),
    (0x28, K_Enter), (0x29, K_Escape), (0x2A, K_Backspace), (0x2B, K_Tab),
    (0x2C, K_Space), (0x2D, K_Minus), (0x2E, K_Equal), (0x2F, K_BracketLeft),
    (0x30, K_BracketRight), (0x31, K_Backslash), (0x33, K_Semicolon), (0x34, K_Quote),
    (0x35, K_Backquote), (0x36, K_Comma), (0x37, K_Period), (0x38, K_Slash),
    (0x39, K_CapsLock), (0x46, K_PrintScreen), (0x47, K_ScrollLock), (0x48, K_Pause),
    (0x49, K_Insert), (0x4A, K_Home), (0x4B, K_PageUp), (0x4C, K_DeleteForward),
    (0x4D, K_End), (0x4E, K_PageDown), (0x4F, K_ArrowRight), (0x50, K_ArrowLeft),
    (0x51, K_ArrowDown), (0x52, K_ArrowUp), (0x53, K_NumLock), (0x54, K_NumpadDivide),
    (0x55, K_NumpadMultiply), (0x56, K_NumpadSubtract), (0x57, K_NumpadAdd), (0x58, K_NumpadEnter),
    (0x62, K_Numpad0), (0x63, K_NumpadDecimal), (0x64, K_IntlBackslash), (0x65, K_ContextMenu),
    (0x66, K_Power), (0x67, K_NumpadEqual), (0x75, K_Help), (0x7F, K_AudioVolumeMute),
    (0x80, K_AudioVolumeUp), (0x81, K_AudioVolumeDown), (0x85, K_NumpadComma), (0x87, K_IntlRo),
    (0x88, K_KanaMode), (0x89, K_IntlYen), (0x8A, K_Convert), (0x8B, K_NonConvert),
    (0x90, K_Lang1), (0x91, K_Lang2), (0x92, K_Lang3), (0x93, K_Lang4),
    (0x94, K_Lang5), (0xB6, K_NumpadParenLeft), (0xB7, K_NumpadParenRight), (0xE0, K_ControlLeft),
    (0xE1, K_ShiftLeft), (0xE2, K_AltLeft), (0xE3, K_MetaLeft), (0xE4, K_ControlRight),
    (0xE5, K_ShiftRight), (0xE6, K_AltRight), (0xE7, K_MetaRight)]"

definition consumer_usage_table :: "(u16 \<times> KeyCode) list" where
  "consumer_usage_table =
   [(0xB5, K_MediaTrackNext), (0xB6, K_MediaTrackPrevious), (0xB7, K_MediaStop), (0xB8, K_Eject),
    (0xCD, K_MediaPlayPause), (0xE2, K_AudioVolumeMute), (0xE9, K_AudioVolumeUp), (0xEA, K_AudioVolumeDown)]"

definition function_key_table :: "(u16 \<times> KeyCode) list" where
  "function_key_table =
   [(1, K_F1), (2, K_F2), (3, K_F3), (4, K_F4), (5, K_F5), (6, K_F6), (7, K_F7), (8, K_F8),
    (9, K_F9), (10, K_F10), (11, K_F11), (12, K_F12), (13, K_F13), (14, K_F14), (15, K_F15), (16, K_F16),
    (17, K_F17), (18, K_F18), (19, K_F19), (20, K_F20), (21, K_F21), (22, K_F22), (23, K_F23), (24, K_F24)]"

definition numpad_digit_table :: "(u16 \<times> KeyCode) list" where
  "numpad_digit_table =
   [(1, K_Numpad1), (2, K_Numpad2), (3, K_Numpad3), (4, K_Numpad4), (5, K_Numpad5),
    (6, K_Numpad6), (7, K_Numpad7), (8, K_Numpad8), (9, K_Numpad9)]"

definition key_wire_table :: "(KeyCode \<times> u16 \<times> u16) list" where
  "key_wire_table =
   [(K_MediaTrackNext, CONSUMER_PAGE, 0xB5), (K_MediaTrackPrevious, CONSUMER_PAGE, 0xB6), (K_MediaStop, CONSUMER_PAGE, 0xB7),
    (K_Eject, CONSUMER_PAGE, 0xB8), (K_MediaPlayPause, CONSUMER_PAGE, 0xCD), (K_AudioVolumeMute, CONSUMER_PAGE, 0xE2),
    (K_AudioVolumeUp, CONSUMER_PAGE, 0xE9), (K_AudioVolumeDown, CONSUMER_PAGE, 0xEA), (K_KeyA, KEYBOARD_PAGE, 0x04),
    (K_KeyB, KEYBOARD_PAGE, 0x05), (K_KeyC, KEYBOARD_PAGE, 0x06), (K_KeyD, KEYBOARD_PAGE, 0x07),
    (K_KeyE, KEYBOARD_PAGE, 0x08), (K_KeyF, KEYBOARD_PAGE, 0x09), (K_KeyG, KEYBOARD_PAGE, 0x0A),
    (K_KeyH, KEYBOARD_PAGE, 0x0B), (K_KeyI, KEYBOARD_PAGE, 0x0C), (K_KeyJ, KEYBOARD_PAGE, 0x0D),
    (K_KeyK, KEYBOARD_PAGE, 0x0E), (K_KeyL, KEYBOARD_PAGE, 0x0F), (K_KeyM, KEYBOARD_PAGE, 0x10),
    (K_KeyN, KEYBOARD_PAGE, 0x11), (K_KeyO, KEYBOARD_PAGE, 0x12), (K_KeyP, KEYBOARD_PAGE, 0x13),
    (K_KeyQ, KEYBOARD_PAGE, 0x14), (K_KeyR, KEYBOARD_PAGE, 0x15), (K_KeyS, KEYBOARD_PAGE, 0x16),
    (K_KeyT, KEYBOARD_PAGE, 0x17), (K_KeyU, KEYBOARD_PAGE, 0x18), (K_KeyV, KEYBOARD_PAGE, 0x19),
    (K_KeyW, KEYBOARD_PAGE, 0x1A), (K_KeyX, KEYBOARD_PAGE, 0x1B), (K_KeyY, KEYBOARD_PAGE, 0x1C),
    (K_KeyZ, KEYBOARD_PAGE, 0x1D), (K_Digit1, KEYBOARD_PAGE, 0x1E), (K_Digit2, KEYBOARD_PAGE, 0x1F),
    (K_Digit3, KEYBOARD_PAGE, 0x20), (K_Digit4, KEYBOARD_PAGE, 0x21), (K_Digit5, KEYBOARD_PAGE, 0x22),
    (K_Digit6, KEYBOARD_PAGE, 0x23), (K_Digit7, KEYBOARD_PAGE, 0x24), (K_Digit8, KEYBOARD_PAGE, 0x25),
    (K_Digit9, KEYBOARD_PAGE, 0x26), (K_Digit0, KEYBOARD_PAGE, 0x27), (K_Enter, KEYBOARD_PAGE, 0x28),
    (K_Escape, KEYBOARD_PAGE, 0x29), (K_Backspace, KEYBOARD_PAGE, 0x2A), (K_Tab, KEYBOARD_PAGE, 0x2B),
    (K_Space, KEYBOARD_PAGE, 0x2C), (K_Minus, KEYBOARD_PAGE, 0x2D), (K_Equal, KEYBOARD_PAGE, 0x2E),
    (K_BracketLeft, KEYBOARD_PAGE, 0x2F), (K_BracketRight, KEYBOARD_PAGE, 0x30), (K_Backslash, KEYBOARD_PAGE, 0x31),
    (K_Semicolon, KEYBOARD_PAGE, 0x33), (K_Quote, KEYBOARD_PAGE, 0x34), (K_Backquote, KEYBOARD_PAGE, 0x35),
    (K_Comma, KEYBOARD_PAGE, 0x36), (K_Period, KEYBOARD_PAGE, 0x37), (K_Slash, KEYBOARD_PAGE, 0x38),
    (K_CapsLock, KEYBOARD_PAGE, 0x39), (K_F1, KEYBOARD_PAGE, 0x3A), (K_F2, KEYBOARD_PAGE, 0x3B),
    (K_F3, KEYBOARD_PAGE, 0x3C), (K_F4, KEYBOARD_PAGE, 0x3D), (K_F5, KEYBOARD_PAGE, 0x3E),
    (K_F6, KEYBOARD_PAGE, 0x3F), (K_F7, KEYBOARD_PAGE, 0x40), (K_F8, KEYBOARD_PAGE, 0x41),
    (K_F9, KEYBOARD_PAGE, 0x42), (K_F10, KEYBOARD_PAGE, 0x43), (K_F11, KEYBOARD_PAGE, 0x44),
    (K_F12, KEYBOARD_PAGE, 0x45), (K_PrintScreen, KEYBOARD_PAGE, 0x46), (K_ScrollLock, KEYBOARD_PAGE, 0x47),
    (K_Pause, KEYBOARD_PAGE, 0x48), (K_Insert, KEYBOARD_PAGE, 0x49), (K_Home, KEYBOARD_PAGE, 0x4A),
    (K_PageUp, KEYBOARD_PAGE, 0x4B), (K_DeleteForward, KEYBOARD_PAGE, 0x4C), (K_End, KEYBOARD_PAGE, 0x4D),
    (K_PageDown, KEYBOARD_PAGE, 0x4E), (K_ArrowRight, KEYBOARD_PAGE, 0x4F), (K_ArrowLeft, KEYBOARD_PAGE, 0x50),
    (K_ArrowDown, KEYBOARD_PAGE, 0x51), (K_ArrowUp, KEYBOARD_PAGE, 0x52), (K_NumLock, KEYBOARD_PAGE, 0x53),
    (K_NumpadDivide, KEYBOARD_PAGE, 0x54), (K_NumpadMultiply, KEYBOARD_PAGE, 0x55), (K_NumpadSubtract, KEYBOARD_PAGE, 0x56),
    (K_NumpadAdd, KEYBOARD_PAGE, 0x57), (K_NumpadEnter, KEYBOARD_PAGE, 0x58), (K_Numpad1, KEYBOARD_PAGE, 0x59),
    (K_Numpad2, KEYBOARD_PAGE, 0x5A), (K_Numpad3, KEYBOARD_PAGE, 0x5B), (K_Numpad4, KEYBOARD_PAGE, 0x5C),
    (K_Numpad5, KEYBOARD_PAGE, 0x5D), (K_Numpad6, KEYBOARD_PAGE, 0x5E), (K_Numpad7, KEYBOARD_PAGE, 0x5F),
    (K_Numpad8, KEYBOARD_PAGE, 0x60), (K_Numpad9, KEYBOARD_PAGE, 0x61), (K_Numpad0, KEYBOARD_PAGE, 0x62),
    (K_NumpadDecimal, KEYBOARD_PAGE, 0x63), (K_IntlBackslash, KEYBOARD_PAGE, 0x64), (K_ContextMenu, KEYBOARD_PAGE, 0x65),
    (K_Power, KEYBOARD_PAGE, 0x66), (K_NumpadEqual, KEYBOARD_PAGE, 0x67), (K_F13, KEYBOARD_PAGE, 0x68),
    (K_F14, KEYBOARD_PAGE, 0x69), (K_F15, KEYBOARD_PAGE, 0x6A), (K_F16, KEYBOARD_PAGE, 0x6B),
    (K_F17, KEYBOARD_PAGE, 0x6C), (K_F18, KEYBOARD_PAGE, 0x6D), (K_F19, KEYBOARD_PAGE, 0x6E),
    (K_F20, KEYBOARD_PAGE, 0x6F), (K_F21, KEYBOARD_PAGE, 0x70), (K_F22, KEYBOARD_PAGE, 0x71),
    (K_F23, KEYBOARD_PAGE, 0x72), (K_F24, KEYBOARD_PAGE, 0x73), (K_Help, KEYBOARD_PAGE, 0x75),
    (K_NumpadComma, KEYBOARD_PAGE, 0x85), (K_IntlRo, KEYBOARD_PAGE, 0x87), (K_KanaMode, KEYBOARD_PAGE, 0x88),
    (K_IntlYen, KEYBOARD_PAGE, 0x89), (K_Convert, KEYBOARD_PAGE, 0x8A), (K_NonConvert, KEYBOARD_PAGE, 0x8B),
    (K_Lang1, KEYBOARD_PAGE, 0x90), (K_Lang2, KEYBOARD_PAGE, 0x91), (K_Lang3, KEYBOARD_PAGE, 0x92),
    (K_Lang4, KEYBOARD_PAGE, 0x93), (K_Lang5, KEYBOARD_PAGE, 0x94), (K_NumpadParenLeft, KEYBOARD_PAGE, 0xB6),
    (K_NumpadParenRight, KEYBOARD_PAGE, 0xB7), (K_ControlLeft, KEYBOARD_PAGE, 0xE0), (K_ShiftLeft, KEYBOARD_PAGE, 0xE1),
    (K_AltLeft, KEYBOARD_PAGE, 0xE2), (K_MetaLeft, KEYBOARD_PAGE, 0xE3), (K_ControlRight, KEYBOARD_PAGE, 0xE4),
    (K_ShiftRight, KEYBOARD_PAGE, 0xE5), (K_AltRight, KEYBOARD_PAGE, 0xE6), (K_MetaRight, KEYBOARD_PAGE, 0xE7)]"

text \<open>\<open>None\<close> is the \<^verbatim>\<open>unreachable!\<close> arm of the two helpers; their callers check the range.\<close>

definition function_key :: "u16 \<Rightarrow> KeyCode option" where
  "function_key number = map_of function_key_table number"

definition numpad_digit :: "u16 \<Rightarrow> KeyCode option" where
  "numpad_digit number = map_of numpad_digit_table number"

definition keyboard_key_from_usage :: "u16 \<Rightarrow> KeyCode option" where
  "keyboard_key_from_usage usage =
     (if 0x3A \<le> usage \<and> usage \<le> 0x45 then function_key (usage - 0x39)
      else if 0x59 \<le> usage \<and> usage \<le> 0x61 then numpad_digit (usage - 0x58)
      else if 0x68 \<le> usage \<and> usage \<le> 0x73 then function_key (usage - 0x5B)
      else map_of keyboard_usage_table usage)"

definition consumer_key_from_usage :: "u16 \<Rightarrow> KeyCode option" where
  "consumer_key_from_usage usage = map_of consumer_usage_table usage"

definition named_key_from_wire :: "WireKeyCode \<Rightarrow> KeyCode option" where
  "named_key_from_wire key =
     (if wkey_usage_page key = KEYBOARD_PAGE then keyboard_key_from_usage (wkey_usage key)
      else if wkey_usage_page key = CONSUMER_PAGE then consumer_key_from_usage (wkey_usage key)
      else None)"

definition key_code_from_wire :: "WireKeyCode \<Rightarrow> KeyCode" where
  "key_code_from_wire key =
     (case named_key_from_wire key of Some named \<Rightarrow> named
      | None \<Rightarrow> Unidentified (wkey_usage_page key) (wkey_usage key))"

fun key_to_wire :: "KeyCode \<Rightarrow> (WireConversionError, WireKeyCode) result" where
  "key_to_wire (Unidentified page usage) = Inr \<lparr>wkey_usage_page = page, wkey_usage = usage\<rparr>"
| "key_to_wire key =
     (case map_of key_wire_table key of
        Some (page, usage) \<Rightarrow> Inr \<lparr>wkey_usage_page = page, wkey_usage = usage\<rparr>
      | None \<Rightarrow> Inl WCE_UnsupportedKey)"

section \<open>Buttons, payloads and events\<close>

fun pointer_button_from_wire :: "WirePointerButton \<Rightarrow> PointerButton" where
  "pointer_button_from_wire WirePrimary = Left"
| "pointer_button_from_wire WireSecondary = Right"
| "pointer_button_from_wire WireMiddle = Middle"
| "pointer_button_from_wire WireBack = Back"
| "pointer_button_from_wire WireForward = Forward"
| "pointer_button_from_wire (WireOther n) = OtherButton n"

fun button_to_wire :: "PointerButton \<Rightarrow> WirePointerButton" where
  "button_to_wire Left = WirePrimary"
| "button_to_wire Right = WireSecondary"
| "button_to_wire Middle = WireMiddle"
| "button_to_wire Back = WireBack"
| "button_to_wire Forward = WireForward"
| "button_to_wire (OtherButton n) = WireOther n"

fun payload_from_wire :: "WireInputPayloadV1 \<Rightarrow> InputPayload" where
  "payload_from_wire (WireKey code state) =
     Key (key_code_from_wire code)
       (case state of WireKeyDown \<Rightarrow> Pressed | WireKeyRepeat \<Rightarrow> Repeated | WireKeyUp \<Rightarrow> Released)"
| "payload_from_wire (WirePointerMove dx dy) = PointerMove dx dy"
| "payload_from_wire (WirePointerButton button state) =
     PointerButton (pointer_button_from_wire button)
       (case state of WireButtonDown \<Rightarrow> BtnPressed | WireButtonUp \<Rightarrow> BtnReleased)"
| "payload_from_wire (WireScroll horizontal vertical) = Scroll horizontal vertical"

fun payload_to_wire :: "InputPayload \<Rightarrow> (WireConversionError, WireInputPayloadV1) result" where
  "payload_to_wire (Key code state) =
     and_then (key_to_wire code) (\<lambda>wire. Inr (WireKey wire
       (case state of Pressed \<Rightarrow> WireKeyDown | Repeated \<Rightarrow> WireKeyRepeat | Released \<Rightarrow> WireKeyUp)))"
| "payload_to_wire (PointerMove dx dy) = Inr (WirePointerMove dx dy)"
| "payload_to_wire (PointerButton button state) =
     Inr (WirePointerButton (button_to_wire button)
       (case state of BtnPressed \<Rightarrow> WireButtonDown | BtnReleased \<Rightarrow> WireButtonUp))"
| "payload_to_wire (Scroll horizontal vertical) = Inr (WireScroll horizontal vertical)"

definition input_from_wire :: "InputEventV1 \<Rightarrow> (WireConversionError, InputEvent) result" where
  "input_from_wire input =
     (let payload = payload_from_wire (input_payload input)
      in if \<not> payload_is_finite payload then Inl WCE_NonFiniteInput
         else Inr \<lparr>ev_sequence = input_sequence input, ev_timestamp_ns = input_timestamp_ns input,
                   ev_source_host = input_source_host input,
                   ev_source_device = input_source_device input, ev_payload = payload\<rparr>)"

definition input_to_wire :: "InputEvent \<Rightarrow> (WireConversionError, InputEventV1) result" where
  "input_to_wire input =
     (if \<not> payload_is_finite (ev_payload input) then Inl WCE_NonFiniteInput
      else and_then (payload_to_wire (ev_payload input)) (\<lambda>payload.
        Inr \<lparr>input_sequence = ev_sequence input, input_timestamp_ns = ev_timestamp_ns input,
             input_source_host = ev_source_host input,
             input_source_device = ev_source_device input, input_payload = payload\<rparr>))"

fun release_controls :: "InputPayload \<Rightarrow> (WireConversionError, WireKeyCode list \<times> WirePointerButton list) result" where
  "release_controls (Key code Released) = and_then (key_to_wire code) (\<lambda>key. Inr ([key], []))"
| "release_controls (PointerButton button BtnReleased) = Inr ([], [button_to_wire button])"
| "release_controls _ = Inl WCE_UnsupportedReleasePayload"

definition release_to_wire ::
  "RemoteRelease \<Rightarrow> u64 \<Rightarrow> HostId \<Rightarrow> (WireConversionError, ReleaseInputV1) result" where
  "release_to_wire release sequence source_host =
     and_then (release_controls (rr_payload release)) (\<lambda>(keys, buttons).
       Inr \<lparr>rel_sequence = sequence, rel_source_host = source_host,
            rel_source_device = Some (rr_source_device release),
            rel_reason = StateResynchronization, rel_keys = keys, rel_buttons = buttons\<rparr>)"

section \<open>Evaluating the tables\<close>

text \<open>
  The decoder's three computed ranges, tabulated: function keys 1 to 12 and 13 to 24, and the
  numpad digits.  The usages of the decoder are the table's and these, and they are disjoint.
\<close>

definition range_usage_table :: "(u16 \<times> KeyCode) list" where
  "range_usage_table =
     map (\<lambda>(n, key). (n + (if n \<le> 12 then 0x39 else 0x5B), key)) function_key_table
     @ map (\<lambda>(n, key). (n + 0x58, key)) numpad_digit_table"

abbreviation in_function_range :: "u16 \<Rightarrow> bool" where
  "in_function_range u \<equiv> (0x3A \<le> u \<and> u \<le> 0x45) \<or> (0x59 \<le> u \<and> u \<le> 0x61) \<or> (0x68 \<le> u \<and> u \<le> 0x73)"

lemmas usage_tables = keyboard_usage_table_def consumer_usage_table_def function_key_table_def
  numpad_digit_table_def range_usage_table_def

lemmas usage_decode = keyboard_key_from_usage_def function_key_def numpad_digit_def

lemma keyboard_usages_distinct: "distinct (map fst keyboard_usage_table)"
  by (simp add: keyboard_usage_table_def)

lemma consumer_usages_distinct: "distinct (map fst consumer_usage_table)"
  by (simp add: consumer_usage_table_def)

lemma wire_keys_distinct: "distinct (map fst key_wire_table)"
  by (simp add: key_wire_table_def)

lemma keyboard_usages_outside_ranges:
  "list_all (\<lambda>(u, key). \<not> in_function_range u) keyboard_usage_table"
  by (simp add: keyboard_usage_table_def)

lemma range_usages_decode:
  "list_all (\<lambda>(u, key). keyboard_key_from_usage u = Some key) range_usage_table"
  by (simp add: usage_decode range_usage_table_def function_key_table_def numpad_digit_table_def)

lemma range_table_complete:
  "list_all (\<lambda>(n, key). 0x3A \<le> n + 0x39 \<and> n + 0x39 \<le> 0x45 \<longrightarrow> (n + 0x39, key) \<in> set range_usage_table)
     function_key_table"
  "list_all (\<lambda>(n, key). 0x68 \<le> n + 0x5B \<and> n + 0x5B \<le> 0x73 \<longrightarrow> (n + 0x5B, key) \<in> set range_usage_table)
     function_key_table"
  "list_all (\<lambda>(n, key). (n + 0x58, key) \<in> set range_usage_table) numpad_digit_table"
  by (simp_all add: range_usage_table_def function_key_table_def numpad_digit_table_def)

lemma range_usage_found:
  assumes "keyboard_key_from_usage u = Some key" and "in_function_range u"
  shows "(u, key) \<in> set range_usage_table"
proof -
  consider "0x3A \<le> u" "u \<le> 0x45" "(u - 0x39, key) \<in> set function_key_table"
    | "0x59 \<le> u" "u \<le> 0x61" "(u - 0x58, key) \<in> set numpad_digit_table"
    | "0x68 \<le> u" "u \<le> 0x73" "(u - 0x5B, key) \<in> set function_key_table"
    using assms by (auto simp: usage_decode split: if_splits dest: map_of_SomeD)
  then show ?thesis
    using range_table_complete by cases (force simp: list_all_iff)+
qed

lemma keyboard_key_from_usage_iff:
  "keyboard_key_from_usage u = Some key \<longleftrightarrow> (u, key) \<in> set (keyboard_usage_table @ range_usage_table)"
proof
  assume found: "keyboard_key_from_usage u = Some key"
  show "(u, key) \<in> set (keyboard_usage_table @ range_usage_table)"
  proof (cases "in_function_range u")
    case False
    then show ?thesis using found
      by (auto simp: keyboard_key_from_usage_def split: if_splits dest: map_of_SomeD)
  next
    case True
    then show ?thesis using range_usage_found [OF found] by simp
  qed
next
  assume "(u, key) \<in> set (keyboard_usage_table @ range_usage_table)"
  then show "keyboard_key_from_usage u = Some key"
    using keyboard_usages_outside_ranges range_usages_decode
    by (auto simp: list_all_iff keyboard_key_from_usage_def
        intro: map_of_is_SomeI [OF keyboard_usages_distinct])
qed

text \<open>
  The three volume usages of the keyboard page are read, but written on the consumer page; apart
  from them the encoder's table is the decoder's, usage for usage.
\<close>

definition keyboard_volume_usages :: "u16 list" where
  "keyboard_volume_usages = [0x7F, 0x80, 0x81]"

lemma key_wire_table_alignment:
  "key_wire_table =
     map (\<lambda>(u, key). (key, CONSUMER_PAGE, u)) consumer_usage_table
     @ map (\<lambda>(u, key). (key, KEYBOARD_PAGE, u))
         (take 53 keyboard_usage_table @ take 12 range_usage_table
          @ take 19 (drop 53 keyboard_usage_table) @ drop 24 range_usage_table
          @ take 6 (drop 72 keyboard_usage_table) @ take 12 (drop 12 range_usage_table)
          @ take 1 (drop 78 keyboard_usage_table) @ drop 82 keyboard_usage_table)"
  by (simp add: key_wire_table_def usage_tables)

lemma keyboard_volume_rows:
  "take 3 (drop 79 keyboard_usage_table) =
     [(0x7F, K_AudioVolumeMute), (0x80, K_AudioVolumeUp), (0x81, K_AudioVolumeDown)]"
  by (simp add: keyboard_usage_table_def)

lemma keyboard_table_pieces:
  "keyboard_usage_table =
     take 53 keyboard_usage_table @ take 19 (drop 53 keyboard_usage_table)
     @ take 6 (drop 72 keyboard_usage_table) @ take 1 (drop 78 keyboard_usage_table)
     @ take 3 (drop 79 keyboard_usage_table) @ drop 82 keyboard_usage_table"
  by (simp add: keyboard_usage_table_def)

lemma range_table_pieces:
  "range_usage_table =
     take 12 range_usage_table @ take 12 (drop 12 range_usage_table) @ drop 24 range_usage_table"
  by (simp add: range_usage_table_def function_key_table_def numpad_digit_table_def)

lemma row_image:
  "(key, page, u) \<in> (\<lambda>(u, key). (key, page', u)) ` S \<longleftrightarrow> page = page' \<and> (u, key) \<in> S"
  by force

text \<open>Membership in the encoder's table, read off the decoder's tables.\<close>

lemma keyboard_usage_encoded:
  assumes "(u, key) \<in> set (keyboard_usage_table @ range_usage_table)" and "u \<notin> set keyboard_volume_usages"
  shows "(key, KEYBOARD_PAGE, u) \<in> set key_wire_table"
proof -
  have "(u, key) \<notin> set (take 3 (drop 79 keyboard_usage_table))"
    using assms(2) by (auto simp: keyboard_volume_rows keyboard_volume_usages_def)
  moreover have "(u, key) \<in> set (take 53 keyboard_usage_table @ take 19 (drop 53 keyboard_usage_table)
     @ take 6 (drop 72 keyboard_usage_table) @ take 1 (drop 78 keyboard_usage_table)
     @ take 3 (drop 79 keyboard_usage_table) @ drop 82 keyboard_usage_table)
     \<or> (u, key) \<in> set (take 12 range_usage_table @ take 12 (drop 12 range_usage_table) @ drop 24 range_usage_table)"
    using assms(1) keyboard_table_pieces range_table_pieces by (metis Un_iff set_append)
  ultimately show ?thesis
    unfolding key_wire_table_alignment by (simp add: row_image) blast
qed

lemma consumer_usage_encoded:
  "(u, key) \<in> set consumer_usage_table \<Longrightarrow> (key, CONSUMER_PAGE, u) \<in> set key_wire_table"
  unfolding key_wire_table_alignment by (simp add: row_image)

lemma key_wire_table_sound:
  assumes "(key, page, u) \<in> set key_wire_table"
  shows "page = KEYBOARD_PAGE \<and> (u, key) \<in> set (keyboard_usage_table @ range_usage_table)
    \<or> page = CONSUMER_PAGE \<and> (u, key) \<in> set consumer_usage_table"
  using assms unfolding key_wire_table_alignment 
  by (auto simp: row_image dest: in_set_takeD in_set_dropD)

lemma wire_keys_named:
  "fst ` set key_wire_table = NamedKey ` ({..<named_key_count} - {90})"
proof (rule card_subset_eq)
  show "finite (NamedKey ` ({..<named_key_count} - {90}))" by simp
  show "fst ` set key_wire_table \<subseteq> NamedKey ` ({..<named_key_count} - {90})"
    by (simp add: key_wire_table_def named_key_count_def)
  have "card (fst ` set key_wire_table) = length key_wire_table"
    using distinct_card [OF wire_keys_distinct] by simp
  also have "\<dots> = card (NamedKey ` ({..<named_key_count} - {90}))"
    by (subst card_image) (simp_all add: key_wire_table_def named_key_count_def inj_on_def)
  finally show "card (fst ` set key_wire_table) = card (NamedKey ` ({..<named_key_count} - {90}))" .
qed

section \<open>Keys across the wire\<close>

text \<open>The keys the wire carries without loss: every named key but Fn, and an unidentified usage that has no name.\<close>

fun canonical_key :: "KeyCode \<Rightarrow> bool" where
  "canonical_key (NamedKey n) \<longleftrightarrow> n < named_key_count \<and> NamedKey n \<noteq> K_FnKey"
| "canonical_key (Unidentified page usage) \<longleftrightarrow>
     named_key_from_wire \<lparr>wkey_usage_page = page, wkey_usage = usage\<rparr> = None"

lemma pages_differ [simp]: "CONSUMER_PAGE \<noteq> KEYBOARD_PAGE" "KEYBOARD_PAGE \<noteq> CONSUMER_PAGE"
  by (simp_all add: KEYBOARD_PAGE_def CONSUMER_PAGE_def)

lemma key_wire_lookup:
  "map_of key_wire_table key = Some (page, u) \<longleftrightarrow> (key, page, u) \<in> set key_wire_table"
  by (simp add: map_of_eq_Some_iff [OF wire_keys_distinct])

lemma consumer_lookup:
  "consumer_key_from_usage u = Some key \<longleftrightarrow> (u, key) \<in> set consumer_usage_table"
  by (simp add: consumer_key_from_usage_def map_of_eq_Some_iff [OF consumer_usages_distinct])

lemma key_wire_table_decodes:
  assumes "(key, page, u) \<in> set key_wire_table"
  shows "named_key_from_wire \<lparr>wkey_usage_page = page, wkey_usage = u\<rparr> = Some key"
  using key_wire_table_sound [OF assms]
  by (auto simp: named_key_from_wire_def keyboard_key_from_usage_iff consumer_lookup simp del: set_append)

lemma key_to_wire_NamedKey:
  "key_to_wire (NamedKey n) = Inr w \<longleftrightarrow> (NamedKey n, wkey_usage_page w, wkey_usage w) \<in> set key_wire_table"
  by (cases w) (auto simp: key_wire_lookup [symmetric] split: option.split prod.split)

lemma keyboard_volume_found:
  assumes "(u, key) \<in> set (keyboard_usage_table @ range_usage_table)" and "u \<in> set keyboard_volume_usages"
  shows "\<exists>c. (c, key) \<in> set consumer_usage_table"
proof -
  have "set (take 3 (drop 79 keyboard_usage_table)) \<subseteq> set (keyboard_usage_table @ range_usage_table)"
    by (auto dest: in_set_takeD in_set_dropD)
  then have "keyboard_key_from_usage 0x7F = Some K_AudioVolumeMute"
    "keyboard_key_from_usage 0x80 = Some K_AudioVolumeUp" "keyboard_key_from_usage 0x81 = Some K_AudioVolumeDown"
    unfolding keyboard_key_from_usage_iff keyboard_volume_rows by (simp_all del: set_append)
  moreover have "keyboard_key_from_usage u = Some key"
    using assms(1) by (simp only: keyboard_key_from_usage_iff)
  ultimately have "key \<in> {K_AudioVolumeMute, K_AudioVolumeUp, K_AudioVolumeDown}"
    using assms(2) by (auto simp: keyboard_volume_usages_def)
  then show ?thesis by (simp add: consumer_usage_table_def) blast
qed

lemma named_key_row:
  assumes "named_key_from_wire w = Some key"
  shows "\<exists>page u. (key, page, u) \<in> set key_wire_table \<and> (page = wkey_usage_page w \<and> u = wkey_usage w
    \<or> wkey_usage_page w = KEYBOARD_PAGE \<and> wkey_usage w \<in> set keyboard_volume_usages)"
  using assms keyboard_usage_encoded [of "wkey_usage w" key] consumer_usage_encoded
    keyboard_volume_found [of "wkey_usage w" key]
  by (fastforce simp: named_key_from_wire_def keyboard_key_from_usage_iff consumer_lookup
      simp del: set_append split: if_splits)

lemma named_key_is_named:
  assumes "named_key_from_wire w = Some key"
  obtains n where "key = NamedKey n"
proof -
  have "key \<in> fst ` set key_wire_table"
    using named_key_row [OF assms] by (force intro: rev_image_eqI)
  then show ?thesis using that by (auto simp: wire_keys_named)
qed

lemma named_key_encoded:
  assumes "named_key_from_wire w = Some key"
  shows "\<exists>w'. key_to_wire key = Inr w' \<and> named_key_from_wire w' = Some key
    \<and> (w' = w \<or> wkey_usage_page w = KEYBOARD_PAGE \<and> wkey_usage w \<in> set keyboard_volume_usages)"
proof -
  obtain n where n: "key = NamedKey n" using named_key_is_named [OF assms] .
  obtain page u where row: "(key, page, u) \<in> set key_wire_table" and
    same: "page = wkey_usage_page w \<and> u = wkey_usage w
      \<or> wkey_usage_page w = KEYBOARD_PAGE \<and> wkey_usage w \<in> set keyboard_volume_usages"
    using named_key_row [OF assms] by blast
  have "key_to_wire key = Inr \<lparr>wkey_usage_page = page, wkey_usage = u\<rparr>"
    using row n key_to_wire_NamedKey by simp
  then show ?thesis
    using key_wire_table_decodes [OF row] same by (cases w) auto
qed

lemma key_code_encoded:
  "\<exists>w'. key_to_wire (key_code_from_wire w) = Inr w' \<and> key_code_from_wire w' = key_code_from_wire w
    \<and> (w' = w \<or> wkey_usage_page w = KEYBOARD_PAGE \<and> wkey_usage w \<in> set keyboard_volume_usages)"
proof (cases "named_key_from_wire w")
  case (Some key)
  then show ?thesis using named_key_encoded [OF Some] by (auto simp: key_code_from_wire_def)
qed (cases w, simp add: key_code_from_wire_def)

lemma key_roundtrip_iff:
  assumes "wf_key key"
  shows "(\<exists>w. key_to_wire key = Inr w \<and> key_code_from_wire w = key) \<longleftrightarrow> canonical_key key"
proof (cases key)
  case (NamedKey n)
  show ?thesis
  proof
    assume "\<exists>w. key_to_wire key = Inr w \<and> key_code_from_wire w = key"
    then have "NamedKey n \<in> fst ` set key_wire_table"
      using NamedKey by (auto simp: key_to_wire_NamedKey simp del: key_to_wire.simps(2) intro: rev_image_eqI)
    then show "canonical_key key" using NamedKey assms by (auto simp: wire_keys_named)
  next
    assume "canonical_key key"
    then have "NamedKey n \<in> fst ` set key_wire_table"
      using NamedKey by (auto simp: wire_keys_named)
    then obtain page u where row: "(NamedKey n, page, u) \<in> set key_wire_table" by auto
    then have "key_to_wire key = Inr \<lparr>wkey_usage_page = page, wkey_usage = u\<rparr>"
      using NamedKey key_to_wire_NamedKey by simp
    then show "\<exists>w. key_to_wire key = Inr w \<and> key_code_from_wire w = key"
      using key_wire_table_decodes [OF row] NamedKey by (simp add: key_code_from_wire_def)
  qed
qed (auto simp: key_code_from_wire_def split: option.split elim: named_key_is_named)

section \<open>Events across the wire\<close>

lemma button_roundtrip [simp]:
  "pointer_button_from_wire (button_to_wire b) = b"
  "button_to_wire (pointer_button_from_wire w) = w"
  by (cases b; simp) (cases w; simp)

lemma input_from_wire_ok:
  "input_from_wire e = Inr ev \<longleftrightarrow> payload_is_finite (payload_from_wire (input_payload e))
     \<and> ev = \<lparr>ev_sequence = input_sequence e, ev_timestamp_ns = input_timestamp_ns e,
            ev_source_host = input_source_host e, ev_source_device = input_source_device e,
            ev_payload = payload_from_wire (input_payload e)\<rparr>"
  by (auto simp: input_from_wire_def Let_def)

lemma input_to_wire_ok:
  "input_to_wire ev = Inr e \<longleftrightarrow> payload_is_finite (ev_payload ev)
     \<and> (\<exists>p. payload_to_wire (ev_payload ev) = Inr p
          \<and> e = \<lparr>input_sequence = ev_sequence ev, input_timestamp_ns = ev_timestamp_ns ev,
                 input_source_host = ev_source_host ev, input_source_device = ev_source_device ev,
                 input_payload = p\<rparr>)"
  by (auto simp: input_to_wire_def)

fun canonical_payload :: "InputPayload \<Rightarrow> bool" where
  "canonical_payload (Key key state) \<longleftrightarrow> canonical_key key"
| "canonical_payload _ \<longleftrightarrow> True"

fun wf_payload :: "InputPayload \<Rightarrow> bool" where
  "wf_payload (Key key state) \<longleftrightarrow> wf_key key"
| "wf_payload _ \<longleftrightarrow> True"

lemma payload_roundtrip_iff:
  assumes "wf_payload p"
  shows "(\<exists>w. payload_to_wire p = Inr w \<and> payload_from_wire w = p) \<longleftrightarrow> canonical_payload p"
proof (cases p)
  case (Key key state)
  then show ?thesis using key_roundtrip_iff [of key] assms
    by (cases state) auto
next
  case (PointerButton b state)
  then show ?thesis by (cases state) auto
qed simp_all

fun keyboard_volume_payload :: "WireInputPayloadV1 \<Rightarrow> bool" where
  "keyboard_volume_payload (WireKey code state) \<longleftrightarrow>
     wkey_usage_page code = KEYBOARD_PAGE \<and> wkey_usage code \<in> set keyboard_volume_usages"
| "keyboard_volume_payload _ \<longleftrightarrow> False"

lemma payload_reencoded:
  "\<exists>w'. payload_to_wire (payload_from_wire w) = Inr w' \<and> payload_from_wire w' = payload_from_wire w
    \<and> (w' = w \<or> keyboard_volume_payload w)"
proof (cases w)
  case (WireKey code state)
  then show ?thesis using key_code_encoded [of code]
    by (cases state) auto
next
  case (WirePointerButton b state)
  then show ?thesis by (cases state) auto
qed simp_all

text \<open>
  The wire is lossless exactly for finite events whose key is canonical: encoding such an event
  succeeds and decoding returns it, and for every other event encoding fails or the decoded event
  differs.
\<close>

theorem wire_input_roundtrip:
  assumes "wf_payload (ev_payload ev)"
  shows "(\<exists>e. input_to_wire ev = Inr e \<and> input_from_wire e = Inr ev)
    \<longleftrightarrow> payload_is_finite (ev_payload ev) \<and> canonical_payload (ev_payload ev)"
proof
  assume "\<exists>e. input_to_wire ev = Inr e \<and> input_from_wire e = Inr ev"
  then obtain e where e: "input_to_wire ev = Inr e" "input_from_wire e = Inr ev" by blast
  then have "payload_is_finite (ev_payload ev)" "payload_to_wire (ev_payload ev) = Inr (input_payload e)"
    by (auto simp: input_to_wire_ok)
  moreover have "payload_from_wire (input_payload e) = ev_payload ev"
    using e(2) by (auto simp: input_from_wire_ok)
  ultimately have "payload_is_finite (ev_payload ev)"
    and "\<exists>w. payload_to_wire (ev_payload ev) = Inr w \<and> payload_from_wire w = ev_payload ev"
    by blast+
  then show "payload_is_finite (ev_payload ev) \<and> canonical_payload (ev_payload ev)"
    using payload_roundtrip_iff [OF assms] by simp
next
  assume ok: "payload_is_finite (ev_payload ev) \<and> canonical_payload (ev_payload ev)"
  then obtain w where "payload_to_wire (ev_payload ev) = Inr w" "payload_from_wire w = ev_payload ev"
    using payload_roundtrip_iff [OF assms] by blast
  then show "\<exists>e. input_to_wire ev = Inr e \<and> input_from_wire e = Inr ev"
    using ok by (auto simp: input_to_wire_ok input_from_wire_ok)
qed

definition demo_wire_event :: "InputPayload \<Rightarrow> InputEvent" where
  "demo_wire_event p = \<lparr>ev_sequence = 7, ev_timestamp_ns = 8, ev_source_host = 1, ev_source_device = 2, ev_payload = p\<rparr>"

theorem wire_input_roundtrip_witness:
  "(\<exists>e. input_to_wire (demo_wire_event (Key K_KeyA Pressed)) = Inr e
      \<and> input_from_wire e = Inr (demo_wire_event (Key K_KeyA Pressed)))
   \<and> \<not> (\<exists>e. input_to_wire (demo_wire_event (Key K_FnKey Pressed)) = Inr e
      \<and> input_from_wire e = Inr (demo_wire_event (Key K_FnKey Pressed)))"
proof
  show "\<exists>e. input_to_wire (demo_wire_event (Key K_KeyA Pressed)) = Inr e
      \<and> input_from_wire e = Inr (demo_wire_event (Key K_KeyA Pressed))"
    by (subst wire_input_roundtrip) (simp_all add: demo_wire_event_def named_key_count_def)
  show "\<not> (\<exists>e. input_to_wire (demo_wire_event (Key K_FnKey Pressed)) = Inr e
      \<and> input_from_wire e = Inr (demo_wire_event (Key K_FnKey Pressed)))"
    by (subst wire_input_roundtrip) (simp_all add: demo_wire_event_def named_key_count_def)
qed

text \<open>
  Whatever the decoder accepts can be forwarded: encoding the decoded event succeeds, gives an
  event with the same meaning, and gives the very same bytes unless the event is a volume key of
  the keyboard page, which moves to the consumer page.
\<close>

theorem wire_input_forwardable:
  assumes "input_from_wire e = Inr ev"
  shows "\<exists>e'. input_to_wire ev = Inr e' \<and> input_from_wire e' = Inr ev
    \<and> (e' = e \<or> keyboard_volume_payload (input_payload e))"
proof -
  obtain w' where "payload_to_wire (payload_from_wire (input_payload e)) = Inr w'"
    "payload_from_wire w' = payload_from_wire (input_payload e)"
    "w' = input_payload e \<or> keyboard_volume_payload (input_payload e)"
    using payload_reencoded by blast
  then show ?thesis
    using assms by (cases e) (auto simp: input_from_wire_ok input_to_wire_ok)
qed

definition demo_wire_input :: "WireInputPayloadV1 \<Rightarrow> InputEventV1" where
  "demo_wire_input p = \<lparr>input_sequence = 7, input_timestamp_ns = 8, input_source_host = 1,
     input_source_device = 2, input_payload = p\<rparr>"

theorem wire_input_forwardable_witness:
  "\<exists>e'. input_to_wire (demo_wire_event (PointerButton Left BtnPressed)) = Inr e'
      \<and> input_from_wire e' = Inr (demo_wire_event (PointerButton Left BtnPressed))
      \<and> e' = demo_wire_input (WirePointerButton WirePrimary WireButtonDown)"
  using wire_input_forwardable
    [of "demo_wire_input (WirePointerButton WirePrimary WireButtonDown)"
        "demo_wire_event (PointerButton Left BtnPressed)"]
  by (simp add: demo_wire_input_def demo_wire_event_def input_from_wire_def)

section \<open>Release actions\<close>

text \<open>
  A release action is encoded exactly when it releases one representable control; the frame then
  releases that control and nothing else.
\<close>

lemma release_to_wire_ok:
  "release_to_wire r sequence host = Inr m \<longleftrightarrow>
     (\<exists>keys buttons. release_controls (rr_payload r) = Inr (keys, buttons)
        \<and> m = \<lparr>rel_sequence = sequence, rel_source_host = host,
              rel_source_device = Some (rr_source_device r), rel_reason = StateResynchronization,
              rel_keys = keys, rel_buttons = buttons\<rparr>)"
  by (auto simp: release_to_wire_def)

lemma release_controls_ok:
  "release_controls p = Inr (keys, buttons) \<longleftrightarrow>
     (\<exists>key w. p = Key key Released \<and> key_to_wire key = Inr w \<and> keys = [w] \<and> buttons = [])
     \<or> (\<exists>b. p = PointerButton b BtnReleased \<and> keys = [] \<and> buttons = [button_to_wire b])"
  by (cases p rule: release_controls.cases) auto

end
