(* ===== verification/NativeKeys.thy ===== *)
theory NativeKeys
  imports WireInput
begin

unbundle bit_operations_syntax

text \<open>
  The pure parts of the two native backends: the position tables of
  \<^verbatim>\<open>kvm-macos/src/keymap.rs\<close> and \<^verbatim>\<open>kvm-windows/src/mapping.rs\<close>, and the classification and
  translation of captured events in both \<^verbatim>\<open>capture.rs\<close> files.  Tables keep the order of the
  \<^verbatim>\<open>match\<close> arms, an arm with alternatives being one row per alternative.  The lemmas show that
  capture and injection tables are inverse to each other, that both agree with the wire's usages,
  and that a captured key reaches the peer's injection table unchanged.
\<close>

section \<open>Tables\<close>

definition mac_virtual_key_table :: "(KeyCode \<times> u16) list" where
  "mac_virtual_key_table =
   [(K_KeyA, 0x00), (K_KeyS, 0x01), (K_KeyD, 0x02), (K_KeyF, 0x03),
    (K_KeyH, 0x04), (K_KeyG, 0x05), (K_KeyZ, 0x06), (K_KeyX, 0x07),
    (K_KeyC, 0x08), (K_KeyV, 0x09), (K_IntlBackslash, 0x0A), (K_KeyB, 0x0B),
    (K_KeyQ, 0x0C), (K_KeyW, 0x0D), (K_KeyE, 0x0E), (K_KeyR, 0x0F),
    (K_KeyY, 0x10), (K_KeyT, 0x11), (K_Digit1, 0x12), (K_Digit2, 0x13),
    (K_Digit3, 0x14), (K_Digit4, 0x15), (K_Digit6, 0x16), (K_Digit5, 0x17),
    (K_Equal, 0x18), (K_Digit9, 0x19), (K_Digit7, 0x1A), (K_Minus, 0x1B),
    (K_Digit8, 0x1C), (K_Digit0, 0x1D), (K_BracketRight, 0x1E), (K_KeyO, 0x1F),
    (K_KeyU, 0x20), (K_BracketLeft, 0x21), (K_KeyI, 0x22), (K_KeyP, 0x23),
    (K_Enter, 0x24), (K_KeyL, 0x25), (K_KeyJ, 0x26), (K_Quote, 0x27),
    (K_KeyK, 0x28), (K_Semicolon, 0x29), (K_Backslash, 0x2A), (K_Comma, 0x2B),
    (K_Slash, 0x2C), (K_KeyN, 0x2D), (K_KeyM, 0x2E), (K_Period, 0x2F),
    (K_Tab, 0x30), (K_Space, 0x31), (K_Backquote, 0x32), (K_Backspace, 0x33),
    (K_Escape, 0x35), (K_MetaRight, 0x36), (K_MetaLeft, 0x37), (K_ShiftLeft, 0x38),
    (K_CapsLock, 0x39), (K_AltLeft, 0x3A), (K_ControlLeft, 0x3B), (K_ShiftRight, 0x3C),
    (K_AltRight, 0x3D), (K_ControlRight, 0x3E), (K_FnKey, 0x3F), (K_F17, 0x40),
    (K_NumpadDecimal, 0x41), (K_NumpadMultiply, 0x43), (K_NumpadAdd, 0x45), (K_NumLock, 0x47),
    (K_AudioVolumeUp, 0x48), (K_AudioVolumeDown, 0x49), (K_AudioVolumeMute, 0x4A), (K_NumpadDivide, 0x4B),
    (K_NumpadEnter, 0x4C), (K_NumpadSubtract, 0x4E), (K_F18, 0x4F), (K_F19, 0x50),
    (K_NumpadEqual, 0x51), (K_Numpad0, 0x52), (K_Numpad1, 0x53), (K_Numpad2, 0x54),
    (K_Numpad3, 0x55), (K_Numpad4, 0x56), (K_Numpad5, 0x57), (K_Numpad6, 0x58),
    (K_Numpad7, 0x59), (K_F20, 0x5A), (K_Numpad8, 0x5B), (K_Numpad9, 0x5C),
    (K_IntlYen, 0x5D), (K_IntlRo, 0x5E), (K_NumpadComma, 0x5F), (K_F5, 0x60),
    (K_F6, 0x61), (K_F7, 0x62), (K_F3, 0x63), (K_F8, 0x64),
    (K_F9, 0x65), (K_Lang2, 0x66), (K_F11, 0x67), (K_Lang1, 0x68),
    (K_F13, 0x69), (K_PrintScreen, 0x69), (K_F16, 0x6A), (K_F14, 0x6B),
    (K_ScrollLock, 0x6B), (K_F10, 0x6D), (K_ContextMenu, 0x6E), (K_F12, 0x6F),
    (K_F15, 0x71), (K_Pause, 0x71), (K_Help, 0x72), (K_Insert, 0x72),
    (K_Home, 0x73), (K_PageUp, 0x74), (K_DeleteForward, 0x75), (K_F4, 0x76),
    (K_End, 0x77), (K_F2, 0x78), (K_PageDown, 0x79), (K_F1, 0x7A),
    (K_ArrowLeft, 0x7B), (K_ArrowRight, 0x7C), (K_ArrowDown, 0x7D), (K_ArrowUp, 0x7E)]"

definition mac_capture_table :: "(u16 \<times> KeyCode) list" where
  "mac_capture_table =
   [(0x00, K_KeyA), (0x01, K_KeyS), (0x02, K_KeyD), (0x03, K_KeyF),
    (0x04, K_KeyH), (0x05, K_KeyG), (0x06, K_KeyZ), (0x07, K_KeyX),
    (0x08, K_KeyC), (0x09, K_KeyV), (0x0A, K_IntlBackslash), (0x0B, K_KeyB),
    (0x0C, K_KeyQ), (0x0D, K_KeyW), (0x0E, K_KeyE), (0x0F, K_KeyR),
    (0x10, K_KeyY), (0x11, K_KeyT), (0x12, K_Digit1), (0x13, K_Digit2),
    (0x14, K_Digit3), (0x15, K_Digit4), (0x16, K_Digit6), (0x17, K_Digit5),
    (0x18, K_Equal), (0x19, K_Digit9), (0x1A, K_Digit7), (0x1B, K_Minus),
    (0x1C, K_Digit8), (0x1D, K_Digit0), (0x1E, K_BracketRight), (0x1F, K_KeyO),
    (0x20, K_KeyU), (0x21, K_BracketLeft), (0x22, K_KeyI), (0x23, K_KeyP),
    (0x24, K_Enter), (0x25, K_KeyL), (0x26, K_KeyJ), (0x27, K_Quote),
    (0x28, K_KeyK), (0x29, K_Semicolon), (0x2A, K_Backslash), (0x2B, K_Comma),
    (0x2C, K_Slash), (0x2D, K_KeyN), (0x2E, K_KeyM), (0x2F, K_Period),
    (0x30, K_Tab), (0x31, K_Space), (0x32, K_Backquote), (0x33, K_Backspace),
    (0x35, K_Escape), (0x36, K_MetaRight), (0x37, K_MetaLeft), (0x38, K_ShiftLeft),
    (0x39, K_CapsLock), (0x3A, K_AltLeft), (0x3B, K_ControlLeft), (0x3C, K_ShiftRight),
    (0x3D, K_AltRight), (0x3E, K_ControlRight), (0x3F, K_FnKey), (0x40, K_F17),
    (0x41, K_NumpadDecimal), (0x43, K_NumpadMultiply), (0x45, K_NumpadAdd), (0x47, K_NumLock),
    (0x48, K_AudioVolumeUp), (0x49, K_AudioVolumeDown), (0x4A, K_AudioVolumeMute), (0x4B, K_NumpadDivide),
    (0x4C, K_NumpadEnter), (0x4E, K_NumpadSubtract), (0x4F, K_F18), (0x50, K_F19),
    (0x51, K_NumpadEqual), (0x52, K_Numpad0), (0x53, K_Numpad1), (0x54, K_Numpad2),
    (0x55, K_Numpad3), (0x56, K_Numpad4), (0x57, K_Numpad5), (0x58, K_Numpad6),
    (0x59, K_Numpad7), (0x5A, K_F20), (0x5B, K_Numpad8), (0x5C, K_Numpad9),
    (0x5D, K_IntlYen), (0x5E, K_IntlRo), (0x5F, K_NumpadComma), (0x60, K_F5),
    (0x61, K_F6), (0x62, K_F7), (0x63, K_F3), (0x64, K_F8),
    (0x65, K_F9), (0x66, K_Lang2), (0x67, K_F11), (0x68, K_Lang1),
    (0x69, K_F13), (0x6A, K_F16), (0x6B, K_F14), (0x6D, K_F10),
    (0x6E, K_ContextMenu), (0x6F, K_F12), (0x71, K_F15), (0x72, K_Help),
    (0x73, K_Home), (0x74, K_PageUp), (0x75, K_DeleteForward), (0x76, K_F4),
    (0x77, K_End), (0x78, K_F2), (0x79, K_PageDown), (0x7A, K_F1),
    (0x7B, K_ArrowLeft), (0x7C, K_ArrowRight), (0x7D, K_ArrowDown), (0x7E, K_ArrowUp)]"

definition scan_code_table :: "(KeyCode \<times> u16 \<times> bool) list" where
  "scan_code_table =
   [(K_Escape, 0x01, False), (K_F1, 0x3B, False), (K_F2, 0x3C, False),
    (K_F3, 0x3D, False), (K_F4, 0x3E, False), (K_F5, 0x3F, False),
    (K_F6, 0x40, False), (K_F7, 0x41, False), (K_F8, 0x42, False),
    (K_F9, 0x43, False), (K_F10, 0x44, False), (K_F11, 0x57, False),
    (K_F12, 0x58, False), (K_F13, 0x64, False), (K_F14, 0x65, False),
    (K_F15, 0x66, False), (K_F16, 0x67, False), (K_F17, 0x68, False),
    (K_F18, 0x69, False), (K_F19, 0x6A, False), (K_F20, 0x6B, False),
    (K_F21, 0x6C, False), (K_F22, 0x6D, False), (K_F23, 0x6E, False),
    (K_F24, 0x76, False), (K_PrintScreen, 0x37, True), (K_ScrollLock, 0x46, False),
    (K_Backquote, 0x29, False), (K_Digit1, 0x02, False), (K_Digit2, 0x03, False),
    (K_Digit3, 0x04, False), (K_Digit4, 0x05, False), (K_Digit5, 0x06, False),
    (K_Digit6, 0x07, False), (K_Digit7, 0x08, False), (K_Digit8, 0x09, False),
    (K_Digit9, 0x0A, False), (K_Digit0, 0x0B, False), (K_Minus, 0x0C, False),
    (K_Equal, 0x0D, False), (K_Backspace, 0x0E, False), (K_Tab, 0x0F, False),
    (K_KeyQ, 0x10, False), (K_KeyW, 0x11, False), (K_KeyE, 0x12, False),
    (K_KeyR, 0x13, False), (K_KeyT, 0x14, False), (K_KeyY, 0x15, False),
    (K_KeyU, 0x16, False), (K_KeyI, 0x17, False), (K_KeyO, 0x18, False),
    (K_KeyP, 0x19, False), (K_BracketLeft, 0x1A, False), (K_BracketRight, 0x1B, False),
    (K_Backslash, 0x2B, False), (K_CapsLock, 0x3A, False), (K_KeyA, 0x1E, False),
    (K_KeyS, 0x1F, False), (K_KeyD, 0x20, False), (K_KeyF, 0x21, False),
    (K_KeyG, 0x22, False), (K_KeyH, 0x23, False), (K_KeyJ, 0x24, False),
    (K_KeyK, 0x25, False), (K_KeyL, 0x26, False), (K_Semicolon, 0x27, False),
    (K_Quote, 0x28, False), (K_Enter, 0x1C, False), (K_ShiftLeft, 0x2A, False),
    (K_IntlBackslash, 0x56, False), (K_KeyZ, 0x2C, False), (K_KeyX, 0x2D, False),
    (K_KeyC, 0x2E, False), (K_KeyV, 0x2F, False), (K_KeyB, 0x30, False),
    (K_KeyN, 0x31, False), (K_KeyM, 0x32, False), (K_Comma, 0x33, False),
    (K_Period, 0x34, False), (K_Slash, 0x35, False), (K_ShiftRight, 0x36, False),
    (K_ControlLeft, 0x1D, False), (K_MetaLeft, 0x5B, True), (K_AltLeft, 0x38, False),
    (K_Space, 0x39, False), (K_AltRight, 0x38, True), (K_MetaRight, 0x5C, True),
    (K_ContextMenu, 0x5D, True), (K_ControlRight, 0x1D, True), (K_Insert, 0x52, True),
    (K_Home, 0x47, True), (K_PageUp, 0x49, True), (K_DeleteForward, 0x53, True),
    (K_End, 0x4F, True), (K_PageDown, 0x51, True), (K_ArrowRight, 0x4D, True),
    (K_ArrowLeft, 0x4B, True), (K_ArrowDown, 0x50, True), (K_ArrowUp, 0x48, True),
    (K_NumLock, 0x45, True), (K_NumpadDivide, 0x35, True), (K_NumpadMultiply, 0x37, False),
    (K_NumpadSubtract, 0x4A, False), (K_NumpadAdd, 0x4E, False), (K_NumpadEnter, 0x1C, True),
    (K_Numpad1, 0x4F, False), (K_Numpad2, 0x50, False), (K_Numpad3, 0x51, False),
    (K_Numpad4, 0x4B, False), (K_Numpad5, 0x4C, False), (K_Numpad6, 0x4D, False),
    (K_Numpad7, 0x47, False), (K_Numpad8, 0x48, False), (K_Numpad9, 0x49, False),
    (K_Numpad0, 0x52, False), (K_NumpadDecimal, 0x53, False), (K_IntlRo, 0x73, False),
    (K_IntlYen, 0x7D, False), (K_KanaMode, 0x70, False), (K_Convert, 0x79, False),
    (K_NonConvert, 0x7B, False), (K_Power, 0x5E, True), (K_AudioVolumeMute, 0x20, True),
    (K_AudioVolumeDown, 0x2E, True), (K_AudioVolumeUp, 0x30, True), (K_MediaPlayPause, 0x22, True),
    (K_MediaStop, 0x24, True), (K_MediaTrackNext, 0x19, True), (K_MediaTrackPrevious, 0x10, True)]"

definition scan_capture_table :: "((u16 \<times> bool) \<times> KeyCode) list" where
  "scan_capture_table =
   [((0x01, False), K_Escape), ((0x3B, False), K_F1), ((0x3C, False), K_F2),
    ((0x3D, False), K_F3), ((0x3E, False), K_F4), ((0x3F, False), K_F5),
    ((0x40, False), K_F6), ((0x41, False), K_F7), ((0x42, False), K_F8),
    ((0x43, False), K_F9), ((0x44, False), K_F10), ((0x57, False), K_F11),
    ((0x58, False), K_F12), ((0x64, False), K_F13), ((0x65, False), K_F14),
    ((0x66, False), K_F15), ((0x67, False), K_F16), ((0x68, False), K_F17),
    ((0x69, False), K_F18), ((0x6A, False), K_F19), ((0x6B, False), K_F20),
    ((0x6C, False), K_F21), ((0x6D, False), K_F22), ((0x6E, False), K_F23),
    ((0x76, False), K_F24), ((0x37, True), K_PrintScreen), ((0x46, False), K_ScrollLock),
    ((0x29, False), K_Backquote), ((0x02, False), K_Digit1), ((0x03, False), K_Digit2),
    ((0x04, False), K_Digit3), ((0x05, False), K_Digit4), ((0x06, False), K_Digit5),
    ((0x07, False), K_Digit6), ((0x08, False), K_Digit7), ((0x09, False), K_Digit8),
    ((0x0A, False), K_Digit9), ((0x0B, False), K_Digit0), ((0x0C, False), K_Minus),
    ((0x0D, False), K_Equal), ((0x0E, False), K_Backspace), ((0x0F, False), K_Tab),
    ((0x10, False), K_KeyQ), ((0x11, False), K_KeyW), ((0x12, False), K_KeyE),
    ((0x13, False), K_KeyR), ((0x14, False), K_KeyT), ((0x15, False), K_KeyY),
    ((0x16, False), K_KeyU), ((0x17, False), K_KeyI), ((0x18, False), K_KeyO),
    ((0x19, False), K_KeyP), ((0x1A, False), K_BracketLeft), ((0x1B, False), K_BracketRight),
    ((0x2B, False), K_Backslash), ((0x3A, False), K_CapsLock), ((0x1E, False), K_KeyA),
    ((0x1F, False), K_KeyS), ((0x20, False), K_KeyD), ((0x21, False), K_KeyF),
    ((0x22, False), K_KeyG), ((0x23, False), K_KeyH), ((0x24, False), K_KeyJ),
    ((0x25, False), K_KeyK), ((0x26, False), K_KeyL), ((0x27, False), K_Semicolon),
    ((0x28, False), K_Quote), ((0x1C, False), K_Enter), ((0x2A, False), K_ShiftLeft),
    ((0x56, False), K_IntlBackslash), ((0x2C, False), K_KeyZ), ((0x2D, False), K_KeyX),
    ((0x2E, False), K_KeyC), ((0x2F, False), K_KeyV), ((0x30, False), K_KeyB),
    ((0x31, False), K_KeyN), ((0x32, False), K_KeyM), ((0x33, False), K_Comma),
    ((0x34, False), K_Period), ((0x35, False), K_Slash), ((0x36, False), K_ShiftRight),
    ((0x1D, False), K_ControlLeft), ((0x5B, True), K_MetaLeft), ((0x38, False), K_AltLeft),
    ((0x39, False), K_Space), ((0x38, True), K_AltRight), ((0x5C, True), K_MetaRight),
    ((0x5D, True), K_ContextMenu), ((0x1D, True), K_ControlRight), ((0x52, True), K_Insert),
    ((0x47, True), K_Home), ((0x49, True), K_PageUp), ((0x53, True), K_DeleteForward),
    ((0x4F, True), K_End), ((0x51, True), K_PageDown), ((0x4D, True), K_ArrowRight),
    ((0x4B, True), K_ArrowLeft), ((0x50, True), K_ArrowDown), ((0x48, True), K_ArrowUp),
    ((0x45, True), K_NumLock), ((0x35, True), K_NumpadDivide), ((0x37, False), K_NumpadMultiply),
    ((0x4A, False), K_NumpadSubtract), ((0x4E, False), K_NumpadAdd), ((0x1C, True), K_NumpadEnter),
    ((0x4F, False), K_Numpad1), ((0x50, False), K_Numpad2), ((0x51, False), K_Numpad3),
    ((0x4B, False), K_Numpad4), ((0x4C, False), K_Numpad5), ((0x4D, False), K_Numpad6),
    ((0x47, False), K_Numpad7), ((0x48, False), K_Numpad8), ((0x49, False), K_Numpad9),
    ((0x52, False), K_Numpad0), ((0x53, False), K_NumpadDecimal), ((0x73, False), K_IntlRo),
    ((0x7D, False), K_IntlYen), ((0x70, False), K_KanaMode), ((0x79, False), K_Convert),
    ((0x7B, False), K_NonConvert), ((0x5E, True), K_Power), ((0x20, True), K_AudioVolumeMute),
    ((0x2E, True), K_AudioVolumeDown), ((0x30, True), K_AudioVolumeUp), ((0x22, True), K_MediaPlayPause),
    ((0x24, True), K_MediaStop), ((0x19, True), K_MediaTrackNext), ((0x10, True), K_MediaTrackPrevious)]"

definition hid_key_table :: "(u32 \<times> KeyCode) list" where
  "hid_key_table =
   [(0x04, K_KeyA), (0x05, K_KeyB), (0x06, K_KeyC), (0x07, K_KeyD),
    (0x08, K_KeyE), (0x09, K_KeyF), (0x0A, K_KeyG), (0x0B, K_KeyH),
    (0x0C, K_KeyI), (0x0D, K_KeyJ), (0x0E, K_KeyK), (0x0F, K_KeyL),
    (0x10, K_KeyM), (0x11, K_KeyN), (0x12, K_KeyO), (0x13, K_KeyP),
    (0x14, K_KeyQ), (0x15, K_KeyR), (0x16, K_KeyS), (0x17, K_KeyT),
    (0x18, K_KeyU), (0x19, K_KeyV), (0x1A, K_KeyW), (0x1B, K_KeyX),
    (0x1C, K_KeyY), (0x1D, K_KeyZ), (0x1E, K_Digit1), (0x1F, K_Digit2),
    (0x20, K_Digit3), (0x21, K_Digit4), (0x22, K_Digit5), (0x23, K_Digit6),
    (0x24, K_Digit7), (0x25, K_Digit8), (0x26, K_Digit9), (0x27, K_Digit0),
    (0x28, K_Enter), (0x29, K_Escape), (0x2A, K_Backspace), (0x2B, K_Tab),
    (0x2C, K_Space), (0x2D, K_Minus), (0x2E, K_Equal), (0x2F, K_BracketLeft),
    (0x30, K_BracketRight), (0x31, K_Backslash), (0x32, K_IntlBackslash), (0x64, K_IntlBackslash),
    (0x33, K_Semicolon), (0x34, K_Quote), (0x35, K_Backquote), (0x36, K_Comma),
    (0x37, K_Period), (0x38, K_Slash), (0x39, K_CapsLock), (0x3A, K_F1),
    (0x3B, K_F2), (0x3C, K_F3), (0x3D, K_F4), (0x3E, K_F5),
    (0x3F, K_F6), (0x40, K_F7), (0x41, K_F8), (0x42, K_F9),
    (0x43, K_F10), (0x44, K_F11), (0x45, K_F12), (0x46, K_PrintScreen),
    (0x47, K_ScrollLock), (0x48, K_Pause), (0x49, K_Insert), (0x4A, K_Home),
    (0x4B, K_PageUp), (0x4C, K_DeleteForward), (0x4D, K_End), (0x4E, K_PageDown),
    (0x4F, K_ArrowRight), (0x50, K_ArrowLeft), (0x51, K_ArrowDown), (0x52, K_ArrowUp),
    (0x53, K_NumLock), (0x54, K_NumpadDivide), (0x55, K_NumpadMultiply), (0x56, K_NumpadSubtract),
    (0x57, K_NumpadAdd), (0x58, K_NumpadEnter), (0x59, K_Numpad1), (0x5A, K_Numpad2),
    (0x5B, K_Numpad3), (0x5C, K_Numpad4), (0x5D, K_Numpad5), (0x5E, K_Numpad6),
    (0x5F, K_Numpad7), (0x60, K_Numpad8), (0x61, K_Numpad9), (0x62, K_Numpad0),
    (0x63, K_NumpadDecimal), (0x65, K_ContextMenu), (0x66, K_Power), (0x67, K_NumpadEqual),
    (0x68, K_F13), (0x69, K_F14), (0x6A, K_F15), (0x6B, K_F16),
    (0x6C, K_F17), (0x6D, K_F18), (0x6E, K_F19), (0x6F, K_F20),
    (0x70, K_F21), (0x71, K_F22), (0x72, K_F23), (0x73, K_F24),
    (0x75, K_Help), (0x85, K_NumpadComma), (0x87, K_IntlRo), (0x88, K_KanaMode),
    (0x89, K_IntlYen), (0x8A, K_Convert), (0x8B, K_NonConvert), (0x90, K_Lang1),
    (0x91, K_Lang2), (0x92, K_Lang3), (0x93, K_Lang4), (0x94, K_Lang5),
    (0xE0, K_ControlLeft), (0xE1, K_ShiftLeft), (0xE2, K_AltLeft), (0xE3, K_MetaLeft),
    (0xE4, K_ControlRight), (0xE5, K_ShiftRight), (0xE6, K_AltRight), (0xE7, K_MetaRight)]"

definition hid_consumer_table :: "(u32 \<times> KeyCode) list" where
  "hid_consumer_table =
   [(0x00B5, K_MediaTrackNext), (0x00B6, K_MediaTrackPrevious), (0x00B7, K_MediaStop), (0x00CD, K_MediaPlayPause),
    (0x00E2, K_AudioVolumeMute), (0x00E9, K_AudioVolumeUp), (0x00EA, K_AudioVolumeDown)]"

definition quartz_pressed_masks :: "(u16 \<times> u64) list" where
  "quartz_pressed_masks =
   [(0x3B, 0x00000001), (0x38, 0x00000002), (0x3C, 0x00000004),
    (0x37, 0x00000008), (0x36, 0x00000010), (0x3A, 0x00000020),
    (0x3D, 0x00000040), (0x3E, 0x00002000), (0x3F, 0x00800000)]"

definition quartz_flag_masks :: "(u16 \<times> u64) list" where
  "quartz_flag_masks =
   [(0x3B, 0x00000001), (0x38, 0x00000002), (0x3C, 0x00000004),
    (0x37, 0x00000008), (0x36, 0x00000010), (0x3A, 0x00000020),
    (0x3D, 0x00000040), (0x3E, 0x00002000), (0x3F, 0x00800000)]"

section \<open>Key positions\<close>

fun macos_key_for_windows_source :: "KeyCode \<Rightarrow> KeyCode" where
  "macos_key_for_windows_source key =
     (if key = K_AltLeft then K_MetaLeft else if key = K_AltRight then K_MetaRight
      else if key = K_MetaLeft then K_AltLeft else if key = K_MetaRight then K_AltRight else key)"

fun windows_key_for_macos_source :: "KeyCode \<Rightarrow> KeyCode" where
  "windows_key_for_macos_source key =
     (if key = K_MetaLeft then K_AltLeft else if key = K_MetaRight then K_AltRight
      else if key = K_AltLeft then K_MetaLeft else if key = K_AltRight then K_MetaRight else key)"

definition mac_virtual_key :: "KeyCode \<Rightarrow> u16 option" where
  "mac_virtual_key key = map_of mac_virtual_key_table key"

definition key_from_mac_virtual_key :: "u16 \<Rightarrow> KeyCode option" where
  "key_from_mac_virtual_key key = map_of mac_capture_table key"

record ScanCode =
  sc_code :: u16
  sc_extended :: bool

definition scan_code :: "KeyCode \<Rightarrow> ScanCode option" where
  "scan_code key = map_option (\<lambda>(code, extended). \<lparr>sc_code = code, sc_extended = extended\<rparr>)
     (map_of scan_code_table key)"

definition key_from_scan_code :: "u16 \<Rightarrow> bool \<Rightarrow> bool \<Rightarrow> KeyCode option" where
  "key_from_scan_code scan extended e1 =
     (if e1 \<and> scan = 0x45 then Some K_Pause else map_of scan_capture_table (scan, extended))"

definition hid_key_code :: "u32 \<Rightarrow> KeyCode option" where
  "hid_key_code usage = map_of hid_key_table usage"

definition consumer_key_code :: "u32 \<Rightarrow> KeyCode option" where
  "consumer_key_code usage = map_of hid_consumer_table usage"

definition is_consumer_key :: "u32 \<Rightarrow> bool" where
  "is_consumer_key usage \<longleftrightarrow> consumer_key_code usage \<noteq> None"

datatype MouseAction =
    LeftDown | LeftUp | RightDown | RightUp | MiddleDown | MiddleUp | XDown u16 | XUp u16

fun mouse_action :: "PointerButton \<Rightarrow> ButtonState \<Rightarrow> MouseAction option" where
  "mouse_action Left BtnPressed = Some LeftDown"
| "mouse_action Left BtnReleased = Some LeftUp"
| "mouse_action Right BtnPressed = Some RightDown"
| "mouse_action Right BtnReleased = Some RightUp"
| "mouse_action Middle BtnPressed = Some MiddleDown"
| "mouse_action Middle BtnReleased = Some MiddleUp"
| "mouse_action Back BtnPressed = Some (XDown 1)"
| "mouse_action Back BtnReleased = Some (XUp 1)"
| "mouse_action Forward BtnPressed = Some (XDown 2)"
| "mouse_action Forward BtnReleased = Some (XUp 2)"
| "mouse_action (OtherButton n) state = None"

fun key_is_released :: "KeyState \<Rightarrow> bool" where
  "key_is_released Released \<longleftrightarrow> True"
| "key_is_released _ \<longleftrightarrow> False"

section \<open>Windows capture\<close>

definition RAW_KEY_BREAK :: u16 where "RAW_KEY_BREAK = 0x01"
definition RAW_KEY_E0 :: u16 where "RAW_KEY_E0 = 0x02"
definition RAW_KEY_E1 :: u16 where "RAW_KEY_E1 = 0x04"
definition LOW_LEVEL_KEY_EXTENDED :: u32 where "LOW_LEVEL_KEY_EXTENDED = 0x01"
definition LOW_LEVEL_KEY_UP :: u32 where "LOW_LEVEL_KEY_UP = 0x80"
definition RAW_MOUSE_MOVE_ABSOLUTE :: u16 where "RAW_MOUSE_MOVE_ABSOLUTE = 0x01"
definition RAW_MOUSE_LEFT_DOWN :: u16 where "RAW_MOUSE_LEFT_DOWN = 0x0001"
definition RAW_MOUSE_LEFT_UP :: u16 where "RAW_MOUSE_LEFT_UP = 0x0002"
definition RAW_MOUSE_RIGHT_DOWN :: u16 where "RAW_MOUSE_RIGHT_DOWN = 0x0004"
definition RAW_MOUSE_RIGHT_UP :: u16 where "RAW_MOUSE_RIGHT_UP = 0x0008"
definition RAW_MOUSE_MIDDLE_DOWN :: u16 where "RAW_MOUSE_MIDDLE_DOWN = 0x0010"
definition RAW_MOUSE_MIDDLE_UP :: u16 where "RAW_MOUSE_MIDDLE_UP = 0x0020"
definition RAW_MOUSE_BACK_DOWN :: u16 where "RAW_MOUSE_BACK_DOWN = 0x0040"
definition RAW_MOUSE_BACK_UP :: u16 where "RAW_MOUSE_BACK_UP = 0x0080"
definition RAW_MOUSE_FORWARD_DOWN :: u16 where "RAW_MOUSE_FORWARD_DOWN = 0x0100"
definition RAW_MOUSE_FORWARD_UP :: u16 where "RAW_MOUSE_FORWARD_UP = 0x0200"
definition RAW_MOUSE_WHEEL :: u16 where "RAW_MOUSE_WHEEL = 0x0400"
definition RAW_MOUSE_HWHEEL :: u16 where "RAW_MOUSE_HWHEEL = 0x0800"

text \<open>120.0 as a bit pattern.\<close>

definition WINDOWS_WHEEL_DELTA :: f64 where "WINDOWS_WHEEL_DELTA = 0x405E000000000000"
definition KVM_INJECTION_TAG :: u32 where "KVM_INJECTION_TAG = 0x4B564D31"

text \<open>\<^verbatim>\<open>f64::from\<close> of an integer of at most 32 bits.\<close>

definition f64_from_int :: "int \<Rightarrow> f64" where
  "f64_from_int n = f64_of_num (n * int unit_scale)"

fun whole_host_should_suppress :: "EventClassification \<Rightarrow> CaptureDisposition \<Rightarrow> bool" where
  "whole_host_should_suppress classification disposition \<longleftrightarrow>
     classification = Physical \<and> disposition = SuppressLocal"

definition hooks_can_release_callback_state :: "bool \<Rightarrow> bool \<Rightarrow> bool" where
  "hooks_can_release_callback_state keyboard_removed pointer_removed \<longleftrightarrow> keyboard_removed \<and> pointer_removed"

record RawKeyboardPacket =
  rk_scan_code :: u16
  rk_flags :: u16
  rk_virtual_key :: u16

record RawMousePacket =
  rm_state_flags :: u16
  rm_button_flags :: u16
  rm_button_data :: u16
  rm_dx :: "32 word"
  rm_dy :: "32 word"

definition classify_raw_input :: "u32 \<Rightarrow> EventClassification" where
  "classify_raw_input extra_information =
     (if extra_information = KVM_INJECTION_TAG then InjectedByKvm else UnknownOrigin)"

text \<open>\<^verbatim>\<open>usize\<close> has 64 bits here.\<close>

definition classify_low_level :: "64 word \<Rightarrow> u32 \<Rightarrow> u32 \<Rightarrow> EventClassification" where
  "classify_low_level extra_information flags injected_flag =
     (if extra_information = ucast KVM_INJECTION_TAG then InjectedByKvm
      else if flags AND injected_flag \<noteq> 0 then UnknownOrigin
      else Physical)"

definition translate_keyboard :: "RawKeyboardPacket \<Rightarrow> InputPayload option" where
  "translate_keyboard packet =
     (if rk_virtual_key packet = 0xFF then None
      else case key_from_scan_code (rk_scan_code packet) (rk_flags packet AND RAW_KEY_E0 \<noteq> 0)
             (rk_flags packet AND RAW_KEY_E1 \<noteq> 0) of
        None \<Rightarrow> None
      | Some code \<Rightarrow> Some (Key code (if rk_flags packet AND RAW_KEY_BREAK = 0 then Pressed else Released)))"

definition translate_low_level_keyboard :: "u32 \<Rightarrow> u32 \<Rightarrow> u32 \<Rightarrow> bool \<Rightarrow> InputPayload option" where
  "translate_low_level_keyboard scan virtual_key flags repeated =
     (if 0xFFFF < scan \<or> 0xFFFF < virtual_key then None
      else
        let raw_flags0 = (if flags AND LOW_LEVEL_KEY_EXTENDED \<noteq> 0 then RAW_KEY_E0 else 0);
            raw_flags1 = (if virtual_key = 0x13 then raw_flags0 OR RAW_KEY_E1 else raw_flags0);
            raw_flags = (if flags AND LOW_LEVEL_KEY_UP \<noteq> 0 then raw_flags1 OR RAW_KEY_BREAK else raw_flags1)
        in case translate_keyboard \<lparr>rk_scan_code = ucast scan, rk_flags = raw_flags,
                                    rk_virtual_key = ucast virtual_key\<rparr> of
             Some (Key code Pressed) \<Rightarrow> Some (Key code (if repeated then Repeated else Pressed))
           | other \<Rightarrow> other)"

definition MOUSE_PAYLOAD_CAPACITY :: nat where "MOUSE_PAYLOAD_CAPACITY = 13"

record MousePayloads =
  mp_buf :: "InputPayload option list"
  mp_len :: nat

definition MousePayloads_new :: MousePayloads where
  "MousePayloads_new = \<lparr>mp_buf = replicate MOUSE_PAYLOAD_CAPACITY None, mp_len = 0\<rparr>"

definition mp_push :: "InputPayload \<Rightarrow> MousePayloads \<Rightarrow> MousePayloads" where
  "mp_push payload events =
     (if mp_len events < MOUSE_PAYLOAD_CAPACITY
      then \<lparr>mp_buf = (mp_buf events)[mp_len events := Some payload], mp_len = mp_len events + 1\<rparr>
      else events)"

definition mp_is_empty :: "MousePayloads \<Rightarrow> bool" where
  "mp_is_empty events \<longleftrightarrow> mp_len events = 0"

record MousePayloadIter =
  mi_buf :: "InputPayload option list"
  mi_pos :: nat
  mi_len :: nat

definition mi_next :: "MousePayloadIter \<Rightarrow> InputPayload option \<times> MousePayloadIter" where
  "mi_next it =
     (if mi_pos it < mi_len it
      then (mi_buf it ! mi_pos it,
            it\<lparr>mi_buf := (mi_buf it)[mi_pos it := None], mi_pos := mi_pos it + 1\<rparr>)
      else (None, it))"

definition mp_into_iter :: "MousePayloads \<Rightarrow> MousePayloadIter" where
  "mp_into_iter events = \<lparr>mi_buf = mp_buf events, mi_pos = 0, mi_len = mp_len events\<rparr>"

text \<open>A \<^verbatim>\<open>for\<close> loop over the iterator: what it yields up to the first \<^verbatim>\<open>None\<close>.\<close>

function mi_collect :: "MousePayloadIter \<Rightarrow> InputPayload list" where
  "mi_collect it =
     (case mi_next it of (None, _) \<Rightarrow> [] | (Some payload, it') \<Rightarrow> payload # mi_collect it')"
  by pat_completeness auto
termination
  by (relation "measure (\<lambda>it. mi_len it - mi_pos it)") (auto simp: mi_next_def split: if_splits)

definition push_button :: "u16 \<Rightarrow> u16 \<Rightarrow> u16 \<Rightarrow> PointerButton \<Rightarrow> MousePayloads \<Rightarrow> MousePayloads" where
  "push_button flags down_flag up_flag button events =
     (let events1 = (if flags AND down_flag \<noteq> 0 then mp_push (PointerButton button BtnPressed) events else events)
      in if flags AND up_flag \<noteq> 0 then mp_push (PointerButton button BtnReleased) events1 else events1)"

definition translate_mouse :: "RawMousePacket \<Rightarrow> MousePayloads" where
  "translate_mouse packet =
     (let flags = rm_button_flags packet;
          e0 = MousePayloads_new;
          e1 = (if rm_state_flags packet AND RAW_MOUSE_MOVE_ABSOLUTE = 0
                   \<and> (rm_dx packet \<noteq> 0 \<or> rm_dy packet \<noteq> 0)
                then mp_push (PointerMove (f64_from_int (sint (rm_dx packet)))
                                          (f64_from_int (sint (rm_dy packet)))) e0
                else e0);
          e2 = push_button flags RAW_MOUSE_LEFT_DOWN RAW_MOUSE_LEFT_UP Left e1;
          e3 = push_button flags RAW_MOUSE_RIGHT_DOWN RAW_MOUSE_RIGHT_UP Right e2;
          e4 = push_button flags RAW_MOUSE_MIDDLE_DOWN RAW_MOUSE_MIDDLE_UP Middle e3;
          e5 = push_button flags RAW_MOUSE_BACK_DOWN RAW_MOUSE_BACK_UP Back e4;
          e6 = push_button flags RAW_MOUSE_FORWARD_DOWN RAW_MOUSE_FORWARD_UP Forward e5;
          wheel_delta = f64_div (f64_from_int (sint (rm_button_data packet))) WINDOWS_WHEEL_DELTA;
          e7 = (if flags AND RAW_MOUSE_WHEEL \<noteq> 0 then mp_push (Scroll f64_zero wheel_delta) e6 else e6)
      in if flags AND RAW_MOUSE_HWHEEL \<noteq> 0 then mp_push (Scroll wheel_delta f64_zero) e7 else e7)"

fun is_state_transition :: "InputPayload \<Rightarrow> bool" where
  "is_state_transition (Key _ _) \<longleftrightarrow> True"
| "is_state_transition (PointerButton _ _) \<longleftrightarrow> True"
| "is_state_transition _ \<longleftrightarrow> False"

section \<open>macOS capture\<close>

definition CG_EVENT_LEFT_MOUSE_DOWN :: u32 where "CG_EVENT_LEFT_MOUSE_DOWN = 1"
definition CG_EVENT_LEFT_MOUSE_UP :: u32 where "CG_EVENT_LEFT_MOUSE_UP = 2"
definition CG_EVENT_RIGHT_MOUSE_DOWN :: u32 where "CG_EVENT_RIGHT_MOUSE_DOWN = 3"
definition CG_EVENT_RIGHT_MOUSE_UP :: u32 where "CG_EVENT_RIGHT_MOUSE_UP = 4"
definition CG_EVENT_MOUSE_MOVED :: u32 where "CG_EVENT_MOUSE_MOVED = 5"
definition CG_EVENT_LEFT_MOUSE_DRAGGED :: u32 where "CG_EVENT_LEFT_MOUSE_DRAGGED = 6"
definition CG_EVENT_RIGHT_MOUSE_DRAGGED :: u32 where "CG_EVENT_RIGHT_MOUSE_DRAGGED = 7"
definition CG_EVENT_KEY_DOWN :: u32 where "CG_EVENT_KEY_DOWN = 10"
definition CG_EVENT_KEY_UP :: u32 where "CG_EVENT_KEY_UP = 11"
definition CG_EVENT_FLAGS_CHANGED :: u32 where "CG_EVENT_FLAGS_CHANGED = 12"
definition CG_EVENT_OTHER_MOUSE_DOWN :: u32 where "CG_EVENT_OTHER_MOUSE_DOWN = 25"
definition CG_EVENT_OTHER_MOUSE_UP :: u32 where "CG_EVENT_OTHER_MOUSE_UP = 26"
definition CG_EVENT_OTHER_MOUSE_DRAGGED :: u32 where "CG_EVENT_OTHER_MOUSE_DRAGGED = 27"
definition CG_EVENT_SOURCE_STATE_HID_SYSTEM :: int where "CG_EVENT_SOURCE_STATE_HID_SYSTEM = 1"
definition KVM_EVENT_TAG :: int where "KVM_EVENT_TAG = 0x4F53534B564D0001"
definition HID_PAGE_GENERIC_DESKTOP :: u32 where "HID_PAGE_GENERIC_DESKTOP = 0x01"
definition HID_PAGE_KEYBOARD :: u32 where "HID_PAGE_KEYBOARD = 0x07"
definition HID_PAGE_BUTTON :: u32 where "HID_PAGE_BUTTON = 0x09"
definition HID_PAGE_CONSUMER :: u32 where "HID_PAGE_CONSUMER = 0x0C"

fun quartz_key_is_down :: "KeyState \<Rightarrow> bool" where
  "quartz_key_is_down Released \<longleftrightarrow> False"
| "quartz_key_is_down _ \<longleftrightarrow> True"

definition quartz_modifier_pressed :: "u16 \<Rightarrow> u64 \<Rightarrow> bool option" where
  "quartz_modifier_pressed virtual_key flags =
     map_option (\<lambda>mask. flags AND mask \<noteq> 0) (map_of quartz_pressed_masks virtual_key)"

definition quartz_modifier_flag :: "u16 \<Rightarrow> u64 option" where
  "quartz_modifier_flag virtual_key = map_of quartz_flag_masks virtual_key"

definition classify_iohid_observation :: "bool \<Rightarrow> bool \<Rightarrow> EventClassification" where
  "classify_iohid_observation element_is_virtual physical_device_evidence =
     (if \<not> element_is_virtual \<and> physical_device_evidence then Physical else UnknownOrigin)"

definition classify_quartz_user_data :: "int \<Rightarrow> EventClassification" where
  "classify_quartz_user_data user_data =
     (if user_data = KVM_EVENT_TAG then InjectedByKvm else UnknownOrigin)"

definition classify_quartz_capture :: "int \<Rightarrow> int \<Rightarrow> EventClassification" where
  "classify_quartz_capture user_data source_state_id =
     (if user_data = KVM_EVENT_TAG then InjectedByKvm
      else if source_state_id = CG_EVENT_SOURCE_STATE_HID_SYSTEM then Physical
      else UnknownOrigin)"

definition translate_quartz_keyboard :: "u32 \<Rightarrow> u16 \<Rightarrow> bool \<Rightarrow> bool option \<Rightarrow> InputPayload option" where
  "translate_quartz_keyboard event_type virtual_key autorepeat modifier_pressed =
     (case key_from_mac_virtual_key virtual_key of
        None \<Rightarrow> None
      | Some code \<Rightarrow>
          if event_type = CG_EVENT_KEY_DOWN then Some (Key code (if autorepeat then Repeated else Pressed))
          else if event_type = CG_EVENT_KEY_UP then Some (Key code Released)
          else if event_type = CG_EVENT_FLAGS_CHANGED then
            map_option (\<lambda>pressed. Key code (if pressed then Pressed else Released)) modifier_pressed
          else None)"

definition quartz_pointer_button :: "int \<Rightarrow> PointerButton option" where
  "quartz_pointer_button number =
     (if number = 2 then Some Middle else if number = 3 then Some Back
      else if number = 4 then Some Forward
      else if 5 \<le> number \<and> number \<le> 65535 then Some (OtherButton (of_int number))
      else None)"

definition translate_quartz_pointer :: "u32 \<Rightarrow> int \<Rightarrow> f64 \<Rightarrow> f64 \<Rightarrow> InputPayload option" where
  "translate_quartz_pointer event_type button_number delta_x delta_y =
     (if event_type = CG_EVENT_MOUSE_MOVED \<or> event_type = CG_EVENT_LEFT_MOUSE_DRAGGED
         \<or> event_type = CG_EVENT_RIGHT_MOUSE_DRAGGED \<or> event_type = CG_EVENT_OTHER_MOUSE_DRAGGED
      then (if f64_is_finite delta_x \<and> f64_is_finite delta_y
               \<and> (\<not> f64_eq delta_x f64_zero \<or> \<not> f64_eq delta_y f64_zero)
            then Some (PointerMove delta_x delta_y) else None)
      else if event_type = CG_EVENT_LEFT_MOUSE_DOWN then Some (PointerButton Left BtnPressed)
      else if event_type = CG_EVENT_LEFT_MOUSE_UP then Some (PointerButton Left BtnReleased)
      else if event_type = CG_EVENT_RIGHT_MOUSE_DOWN then Some (PointerButton Right BtnPressed)
      else if event_type = CG_EVENT_RIGHT_MOUSE_UP then Some (PointerButton Right BtnReleased)
      else if event_type = CG_EVENT_OTHER_MOUSE_DOWN \<or> event_type = CG_EVENT_OTHER_MOUSE_UP then
        map_option (\<lambda>button. PointerButton button
            (if event_type = CG_EVENT_OTHER_MOUSE_DOWN then BtnPressed else BtnReleased))
          (quartz_pointer_button button_number)
      else None)"

definition translate_quartz_scroll :: "f64 \<Rightarrow> f64 \<Rightarrow> InputPayload option" where
  "translate_quartz_scroll horizontal vertical =
     (if f64_is_finite horizontal \<and> f64_is_finite vertical
         \<and> (\<not> f64_eq horizontal f64_zero \<or> \<not> f64_eq vertical f64_zero)
      then Some (Scroll horizontal vertical) else None)"

definition hid_axis :: "int \<Rightarrow> f64 option" where
  "hid_axis value = (if - (2 ^ 31) \<le> value \<and> value < 2 ^ 31 then Some (f64_from_int value) else None)"

definition hid_pointer_button :: "u32 \<Rightarrow> PointerButton option" where
  "hid_pointer_button usage =
     (if usage = 1 then Some Left else if usage = 2 then Some Right
      else if usage = 3 then Some Middle else if usage = 4 then Some Back
      else if usage = 5 then Some Forward
      else if 6 \<le> usage \<and> usage \<le> 0x10000 then Some (OtherButton (ucast (usage - 1)))
      else None)"

definition hid_key_state :: "int \<Rightarrow> KeyState" where
  "hid_key_state value = (if value = 0 then Released else Pressed)"

definition translate_hid_value :: "u32 \<Rightarrow> u32 \<Rightarrow> int \<Rightarrow> bool \<Rightarrow> InputPayload option" where
  "translate_hid_value page usage value is_relative =
     (if page = HID_PAGE_KEYBOARD then map_option (\<lambda>code. Key code (hid_key_state value)) (hid_key_code usage)
      else if page = HID_PAGE_BUTTON then
        map_option (\<lambda>button. PointerButton button (if value = 0 then BtnReleased else BtnPressed))
          (hid_pointer_button usage)
      else if page = HID_PAGE_GENERIC_DESKTOP then
        (if usage \<in> {0x30, 0x31, 0x38} \<and> \<not> is_relative then None
         else if usage \<in> {0x30, 0x31, 0x38} \<and> value = 0 then None
         else if usage = 0x30 then map_option (\<lambda>dx. PointerMove dx f64_zero) (hid_axis value)
         else if usage = 0x31 then map_option (\<lambda>dy. PointerMove f64_zero dy) (hid_axis value)
         else if usage = 0x38 then map_option (\<lambda>v. Scroll f64_zero v) (hid_axis value)
         else None)
      else if page = HID_PAGE_CONSUMER \<and> usage = 0x0238 \<and> \<not> is_relative then None
      else if page = HID_PAGE_CONSUMER then
        (if usage = 0x0238 \<and> value = 0 then None
         else if usage = 0x0238 then map_option (\<lambda>h. Scroll h f64_zero) (hid_axis value)
         else map_option (\<lambda>code. Key code (hid_key_state value)) (consumer_key_code usage))
      else None)"

definition device_accepts_hid_value :: "DeviceKind \<Rightarrow> DeviceCapabilities \<Rightarrow> u32 \<Rightarrow> u32 \<Rightarrow> bool" where
  "device_accepts_hid_value kind capabilities page usage \<longleftrightarrow>
     (case kind of
        Keyboard \<Rightarrow> cap_keyboard capabilities
          \<and> (page = HID_PAGE_KEYBOARD \<or> (page = HID_PAGE_CONSUMER \<and> is_consumer_key usage))
      | OtherDevice \<Rightarrow> False
      | _ \<Rightarrow>
          if page = HID_PAGE_GENERIC_DESKTOP \<and> usage \<in> {0x30, 0x31}
             \<or> page = HID_PAGE_BUTTON \<and> 1 \<le> usage \<and> usage \<le> 5 then cap_pointer capabilities
          else if page = HID_PAGE_GENERIC_DESKTOP \<and> usage = 0x38 then cap_vertical_scroll capabilities
          else if page = HID_PAGE_CONSUMER \<and> usage = 0x0238 then cap_horizontal_scroll capabilities
          else if page = HID_PAGE_BUTTON \<and> 6 \<le> usage \<and> usage \<le> 0x10000 then cap_extra_buttons capabilities
          else False)"

fun overflow_may_drop :: "InputPayload \<Rightarrow> bool" where
  "overflow_may_drop (PointerMove _ _) \<longleftrightarrow> True"
| "overflow_may_drop (Scroll _ _) \<longleftrightarrow> True"
| "overflow_may_drop _ \<longleftrightarrow> False"

text \<open>Mach ticks to nanoseconds: the product is computed at 128 bits, the quotient is clamped to 64.\<close>

definition mach_timestamp_ns :: "u64 \<Rightarrow> u32 \<Rightarrow> u32 \<Rightarrow> u64" where
  "mach_timestamp_ns raw_timestamp numerator denominator =
     (if denominator = 0 then 0
      else let nanos = min (unat raw_timestamp * unat numerator) (2 ^ 128 - 1) div unat denominator
           in if nanos < 2 ^ 64 then of_nat nanos else - 1)"

text \<open>\<^verbatim>\<open>eq_ignore_ascii_case\<close> folds the letters A to Z only.\<close>

definition ascii_lower :: "rust_char \<Rightarrow> rust_char" where
  "ascii_lower c = (if 65 \<le> c \<and> c \<le> 90 then c + 32 else c)"

definition eq_ignore_ascii_case :: "rust_string \<Rightarrow> rust_string \<Rightarrow> bool" where
  "eq_ignore_ascii_case a b \<longleftrightarrow> map ascii_lower a = map ascii_lower b"

definition physical_device_evidence :: "bool \<Rightarrow> rust_string option \<Rightarrow> bool" where
  "physical_device_evidence built_in transport \<longleftrightarrow>
     built_in
     \<or> (case transport of
          None \<Rightarrow> False
        | Some value \<Rightarrow> list_ex (\<lambda>known. eq_ignore_ascii_case value (ascii_str known))
            [''usb'', ''bluetooth'', ''bluetooth low energy'', ''spi'', ''i2c''])"

section \<open>The tables as inverses\<close>

lemma scan_tables_mirror:
  "scan_capture_table = map (\<lambda>(key, code, extended). ((code, extended), key)) scan_code_table"
  by (simp add: scan_capture_table_def scan_code_table_def)

lemma scan_keys_distinct: "distinct (map fst scan_code_table)"
  by (simp add: scan_code_table_def)

lemma scan_codes_distinct: "distinct (map fst scan_capture_table)"
  by (simp add: scan_capture_table_def)

lemma mac_keys_distinct: "distinct (map fst mac_virtual_key_table)"
  by (simp add: mac_virtual_key_table_def)

lemma mac_codes_distinct: "distinct (map fst mac_capture_table)"
  by (simp add: mac_capture_table_def)

definition mac_shared_positions :: "KeyCode list" where
  "mac_shared_positions = [K_PrintScreen, K_ScrollLock, K_Pause, K_Insert]"

lemma mac_tables_mirror:
  "mac_capture_table = map (\<lambda>(key, code). (code, key))
     (filter (\<lambda>(key, code). key \<notin> set mac_shared_positions) mac_virtual_key_table)"
  by (simp add: mac_capture_table_def mac_virtual_key_table_def mac_shared_positions_def)

lemma native_keys_named:
  "list_all (\<lambda>key. canonical_key key) (map fst scan_code_table)"
  "list_all (\<lambda>key. canonical_key key \<or> key = K_FnKey) (map fst mac_virtual_key_table)"
  by (simp_all add: scan_code_table_def mac_virtual_key_table_def named_key_count_def)

lemma scan_code_iff:
  "scan_code key = Some sc \<longleftrightarrow> (key, sc_code sc, sc_extended sc) \<in> set scan_code_table"
  by (cases sc) (auto simp: scan_code_def map_of_eq_Some_iff [OF scan_keys_distinct])

lemma key_from_scan_code_iff:
  assumes "\<not> (e1 \<and> scan = 0x45)"
  shows "key_from_scan_code scan extended e1 = Some key \<longleftrightarrow>
    scan_code key = Some \<lparr>sc_code = scan, sc_extended = extended\<rparr>"
proof -
  have "key_from_scan_code scan extended e1 = Some key \<longleftrightarrow> ((scan, extended), key) \<in> set scan_capture_table"
    using assms by (auto simp: key_from_scan_code_def map_of_eq_Some_iff [OF scan_codes_distinct])
  also have "\<dots> \<longleftrightarrow> (key, scan, extended) \<in> set scan_code_table"
    by (force simp: scan_tables_mirror)
  finally show ?thesis by (simp add: scan_code_iff)
qed

lemma key_from_mac_virtual_key_iff:
  "key_from_mac_virtual_key code = Some key \<longleftrightarrow>
     mac_virtual_key key = Some code \<and> key \<notin> set mac_shared_positions"
proof -
  have "key_from_mac_virtual_key code = Some key \<longleftrightarrow> (code, key) \<in> set mac_capture_table"
    by (simp add: key_from_mac_virtual_key_def map_of_eq_Some_iff [OF mac_codes_distinct])
  also have "\<dots> \<longleftrightarrow> (key, code) \<in> set mac_virtual_key_table \<and> key \<notin> set mac_shared_positions"
    by (force simp: mac_tables_mirror)
  finally show ?thesis
    by (simp add: mac_virtual_key_def map_of_eq_Some_iff [OF mac_keys_distinct])
qed

lemma scan_code_canonical: "scan_code key = Some sc \<Longrightarrow> canonical_key key"
  using native_keys_named(1) by (force simp: scan_code_iff list_all_iff)

lemma mac_virtual_key_canonical:
  "mac_virtual_key key = Some code \<Longrightarrow> canonical_key key \<or> key = K_FnKey"
  using native_keys_named(2)
  by (force simp: mac_virtual_key_def list_all_iff map_of_eq_Some_iff [OF mac_keys_distinct])

end
