(* ===== verification/NativeCapture.thy ===== *)
theory NativeCapture
  imports NativeKeys
begin

unbundle bit_operations_syntax

text \<open>
  What the capture translations of both backends guarantee: a captured key reaches the peer and its
  injection table unchanged, a mouse packet is decoded completely into its fixed buffer, a device
  yields only what its capabilities announce, and capture reads usages as the wire does.
\<close>

section \<open>Captured keys across the wire\<close>

lemma canonical_payload_crosses:
  assumes "canonical_key key"
  shows "\<exists>w. payload_to_wire (Key key state) = Inr w \<and> payload_from_wire w = Key key state"
proof -
  have "wf_key key" using assms by (cases key) auto
  then show ?thesis using payload_roundtrip_iff [of "Key key state"] assms by simp
qed

lemma translate_keyboard_Some:
  "translate_keyboard packet = Some (Key key state) \<longleftrightarrow>
     rk_virtual_key packet \<noteq> 0xFF
     \<and> key_from_scan_code (rk_scan_code packet) (rk_flags packet AND RAW_KEY_E0 \<noteq> 0)
         (rk_flags packet AND RAW_KEY_E1 \<noteq> 0) = Some key
     \<and> state = (if rk_flags packet AND RAW_KEY_BREAK = 0 then Pressed else Released)"
  by (auto simp: translate_keyboard_def split: option.split)

lemma translate_quartz_keyboard_Some:
  "translate_quartz_keyboard event_type virtual_key autorepeat modifier = Some (Key key state) \<Longrightarrow>
     mac_virtual_key key = Some virtual_key \<and> key \<notin> set mac_shared_positions"
  by (auto simp: translate_quartz_keyboard_def key_from_mac_virtual_key_iff split: option.splits if_splits)

text \<open>
  C37: A key the Windows capture translates is encoded, decoded by the peer to the same key and state,
  and its scan position in a Windows peer's injection table is the captured one.  The one key
  excluded is Pause, the E1 sequence, which the injection table refuses.
\<close>

theorem windows_key_crosses_the_wire:
  assumes "translate_keyboard packet = Some (Key key state)"
    and "\<not> (rk_flags packet AND RAW_KEY_E1 \<noteq> 0 \<and> rk_scan_code packet = 0x45)"
  shows "\<exists>w. payload_to_wire (Key key state) = Inr w \<and> payload_from_wire w = Key key state
    \<and> scan_code key = Some \<lparr>sc_code = rk_scan_code packet,
                            sc_extended = (rk_flags packet AND RAW_KEY_E0 \<noteq> 0)\<rparr>"
proof -
  have position: "scan_code key = Some \<lparr>sc_code = rk_scan_code packet,
      sc_extended = (rk_flags packet AND RAW_KEY_E0 \<noteq> 0)\<rparr>"
    using assms key_from_scan_code_iff by (auto simp: translate_keyboard_Some)
  then show ?thesis
    using canonical_payload_crosses scan_code_canonical by blast
qed

theorem windows_key_crosses_the_wire_witness:
  "\<exists>w. payload_to_wire (Key K_ControlRight Released) = Inr w
     \<and> payload_from_wire w = Key K_ControlRight Released
     \<and> scan_code K_ControlRight = Some \<lparr>sc_code = 0x1D, sc_extended = True\<rparr>"
  using windows_key_crosses_the_wire
    [of "\<lparr>rk_scan_code = 0x1D, rk_flags = 3, rk_virtual_key = 0xA3\<rparr>" K_ControlRight Released]
  by (simp add: translate_keyboard_Some key_from_scan_code_def scan_capture_table_def
      RAW_KEY_E0_def RAW_KEY_E1_def RAW_KEY_BREAK_def)

text \<open>
  The same for macOS: a captured key other than Fn reaches the peer unchanged, and a macOS peer
  injects the captured virtual key.  Fn has no usage on the wire: it is refused, not renamed.
\<close>

theorem mac_key_crosses_the_wire:
  assumes "translate_quartz_keyboard event_type virtual_key autorepeat modifier = Some (Key key state)"
  shows "mac_virtual_key key = Some virtual_key
    \<and> (if key = K_FnKey then payload_to_wire (Key key state) = Inl WCE_UnsupportedKey
       else \<exists>w. payload_to_wire (Key key state) = Inr w \<and> payload_from_wire w = Key key state)"
proof -
  have position: "mac_virtual_key key = Some virtual_key"
    using translate_quartz_keyboard_Some [OF assms] by simp
  show ?thesis
  proof (cases "key = K_FnKey")
    case True
    have "map_of key_wire_table K_FnKey = None"
      using wire_keys_named by (auto simp: map_of_eq_None_iff)
    then show ?thesis using True position by simp
  next
    case False
    then have "canonical_key key" using mac_virtual_key_canonical [OF position] by simp
    then show ?thesis
      using False position canonical_payload_crosses [of key state] by (simp only: if_False)
  qed
qed

theorem mac_key_crosses_the_wire_witness:
  "mac_virtual_key K_KeyS = Some 1
   \<and> (\<exists>w. payload_to_wire (Key K_KeyS Repeated) = Inr w \<and> payload_from_wire w = Key K_KeyS Repeated)"
  using mac_key_crosses_the_wire [of CG_EVENT_KEY_DOWN 1 True None K_KeyS Repeated]
  by (simp add: translate_quartz_keyboard_def key_from_mac_virtual_key_def mac_capture_table_def)

section \<open>Mouse packets\<close>

text \<open>The filled prefix of the buffer, and what it means for the buffer to be well formed.\<close>

definition mp_payloads :: "MousePayloads \<Rightarrow> InputPayload list" where
  "mp_payloads events = map the (take (mp_len events) (mp_buf events))"

definition mp_wf :: "MousePayloads \<Rightarrow> bool" where
  "mp_wf events \<longleftrightarrow> length (mp_buf events) = MOUSE_PAYLOAD_CAPACITY
     \<and> mp_len events \<le> MOUSE_PAYLOAD_CAPACITY
     \<and> list_all (\<lambda>p. p \<noteq> None) (take (mp_len events) (mp_buf events))"

lemma mp_new [simp]: "mp_wf MousePayloads_new" "mp_payloads MousePayloads_new = []"
  by (simp_all add: mp_wf_def mp_payloads_def MousePayloads_new_def)

lemma mp_push_wf:
  assumes "mp_wf events"
  shows "mp_wf (mp_push p events)"
  using assms by (auto simp: mp_wf_def mp_push_def take_Suc_conv_app_nth)

lemma mp_push_payloads:
  assumes "mp_wf events" "length (mp_payloads events) < MOUSE_PAYLOAD_CAPACITY"
  shows "mp_payloads (mp_push p events) = mp_payloads events @ [p]"
  using assms by (auto simp: mp_wf_def mp_payloads_def mp_push_def take_Suc_conv_app_nth)

lemma mi_collect_spec:
  assumes "length (mi_buf it) = MOUSE_PAYLOAD_CAPACITY" "mi_len it \<le> MOUSE_PAYLOAD_CAPACITY"
    and "\<forall>i. mi_pos it \<le> i \<and> i < mi_len it \<longrightarrow> mi_buf it ! i \<noteq> None"
  shows "mi_collect it = map (\<lambda>i. the (mi_buf it ! i)) [mi_pos it..<mi_len it]"
  using assms
proof (induction it rule: mi_collect.induct)
  case (1 it)
  show ?case
  proof (cases "mi_pos it < mi_len it")
    case False
    then show ?thesis by (simp add: mi_next_def)
  next
    case True
    define it' where "it' = it\<lparr>mi_buf := (mi_buf it)[mi_pos it := None], mi_pos := mi_pos it + 1\<rparr>"
    obtain p where p: "mi_buf it ! mi_pos it = Some p" using 1(4) True by blast
    have step: "mi_next it = (Some p, it')" using True p by (simp add: mi_next_def it'_def)
    have "mi_collect it' = map (\<lambda>i. the (mi_buf it' ! i)) [mi_pos it'..<mi_len it']"
      by (rule 1(1) [OF step [symmetric] refl]) (use 1 in \<open>auto simp: it'_def\<close>)
    then have "mi_collect it = p # map (\<lambda>i. the (mi_buf it ! i)) [Suc (mi_pos it)..<mi_len it]"
      by (simp add: step it'_def cong: map_cong)
    then show ?thesis using True p by (simp add: upt_rec)
  qed
qed

lemma mi_collect_into_iter:
  assumes "mp_wf events"
  shows "mi_collect (mp_into_iter events) = mp_payloads events"
proof -
  have filled: "mp_buf events ! i \<noteq> None" if "i < mp_len events" for i
    using assms that by (auto simp: mp_wf_def list_all_length)
  have "mi_collect (mp_into_iter events) = map (\<lambda>i. the (mp_buf events ! i)) [0..<mp_len events]"
    using mi_collect_spec [of "mp_into_iter events"] assms filled by (simp add: mp_into_iter_def mp_wf_def)
  also have "\<dots> = mp_payloads events"
    using assms by (intro nth_equalityI) (auto simp: mp_payloads_def mp_wf_def)
  finally show ?thesis .
qed

text \<open>The buffer holds these payloads; pushing appends while there is room.\<close>

definition mp_holds :: "MousePayloads \<Rightarrow> InputPayload list \<Rightarrow> bool" where
  "mp_holds events ps \<longleftrightarrow> mp_wf events \<and> mp_payloads events = ps"

definition button_payloads :: "u16 \<Rightarrow> u16 \<Rightarrow> u16 \<Rightarrow> PointerButton \<Rightarrow> InputPayload list" where
  "button_payloads flags down up button =
     (if flags AND down \<noteq> 0 then [PointerButton button BtnPressed] else [])
     @ (if flags AND up \<noteq> 0 then [PointerButton button BtnReleased] else [])"

lemma mp_holds_push:
  "mp_holds events ps \<Longrightarrow> length ps < MOUSE_PAYLOAD_CAPACITY \<Longrightarrow> mp_holds (mp_push p events) (ps @ [p])"
  by (simp add: mp_holds_def mp_push_wf mp_push_payloads)

lemma mp_holds_push_if:
  "mp_holds events ps \<Longrightarrow> length ps < MOUSE_PAYLOAD_CAPACITY \<Longrightarrow>
   mp_holds (if c then mp_push p events else events) (ps @ (if c then [p] else []))"
  by (simp add: mp_holds_push)

lemma button_payloads_length: "length (button_payloads flags down up button) \<le> 2"
  by (simp add: button_payloads_def)

lemma mp_holds_button:
  assumes "mp_holds events ps" "length ps + 1 < MOUSE_PAYLOAD_CAPACITY"
  shows "mp_holds (push_button flags down up button events) (ps @ button_payloads flags down up button)"
  using mp_holds_push_if [OF mp_holds_push_if [OF assms(1)], of "flags AND down \<noteq> 0"
      "PointerButton button BtnPressed" "flags AND up \<noteq> 0" "PointerButton button BtnReleased"] assms(2)
  by (simp add: push_button_def Let_def button_payloads_def split: if_splits)

section \<open>Finite payloads\<close>

lemma f64_from_int_finite:
  assumes "\<bar>n\<bar> \<le> 2 ^ 32"
  shows "f64_is_finite (f64_from_int n)"
proof -
  define M :: nat where "M = 1055 * 2 ^ 52"
  have M: "mag_value M = 2 ^ 32 * unit_scale" "M < inf_mag"
    by (simp_all add: M_def mag_value_def unit_scale_def inf_mag_def flip: power_add)
  have "round_mag (nat \<bar>n * int unit_scale\<bar>) 1 \<le> round_mag (mag_value M * 1) 1"
  proof (rule round_mag_mono)
    have "nat \<bar>n * int unit_scale\<bar> = nat \<bar>n\<bar> * unit_scale"
      by (simp add: abs_mult nat_mult_distrib)
    also have "\<dots> \<le> 2 ^ 32 * unit_scale" using assms by (intro mult_le_mono1) simp
    finally show "nat \<bar>n * int unit_scale\<bar> * 1 \<le> mag_value M * 1 * 1" using M by simp
  qed simp_all
  also have "\<dots> = M" using round_mag_exact [of 1 M] M by simp
  finally show ?thesis
    using M inf_mag_less by (simp add: f64_is_finite_def f64_from_int_def f64_of_num_def)
qed

lemma f64_div_finite:
  assumes "f64_is_finite a" "f64_is_finite b" "unit_scale \<le> mag_value (f64_mag b)"
  shows "f64_is_finite (f64_div a b)"
proof -
  have pos: "0 < unit_scale" by (simp add: unit_scale_def)
  have "round_mag (mag_value (f64_mag a) * unit_scale) (mag_value (f64_mag b))
      \<le> round_mag (mag_value (f64_mag a) * 1) 1"
    using assms(3) pos by (intro round_mag_mono) (auto intro: le_trans less_le_trans)
  also have "\<dots> = f64_mag a"
    using round_mag_exact [of 1 "f64_mag a"] assms(1) by (simp add: f64_is_finite_def)
  finally have "round_mag (mag_value (f64_mag a) * unit_scale) (mag_value (f64_mag b)) \<le> f64_mag a" .
  moreover have "f64_mag b \<noteq> 0" using assms(3) pos by (cases "f64_mag b = 0") simp_all
  ultimately show ?thesis
    using assms inf_mag_less f64_finite_not_nan
    by (auto simp: f64_div_def Let_def f64_is_finite_def f64_is_nan_def)
qed

lemma wheel_delta_finite:
  "f64_is_finite (f64_div (f64_from_int (sint (w :: u16))) WINDOWS_WHEEL_DELTA)"
proof (rule f64_div_finite)
  have "- (2 ^ 15) \<le> sint w" "sint w < 2 ^ 15"
    using sint_ge [of w] sint_lt [of w] by simp_all
  then show "f64_is_finite (f64_from_int (sint w))" by (intro f64_from_int_finite) simp
  show "f64_is_finite WINDOWS_WHEEL_DELTA"
    by (simp add: WINDOWS_WHEEL_DELTA_def f64_is_finite_def f64_mag_def inf_mag_def)
  show "unit_scale \<le> mag_value (f64_mag WINDOWS_WHEEL_DELTA)"
    by (simp add: WINDOWS_WHEEL_DELTA_def f64_mag_def mag_value_def unit_scale_def)
qed

text \<open>What a packet means, with no buffer: its motion, its button transitions and its wheel turns.\<close>

definition mouse_payloads :: "RawMousePacket \<Rightarrow> InputPayload list" where
  "mouse_payloads packet =
     (let flags = rm_button_flags packet;
          turn = f64_div (f64_from_int (sint (rm_button_data packet))) WINDOWS_WHEEL_DELTA
      in (if rm_state_flags packet AND RAW_MOUSE_MOVE_ABSOLUTE = 0 \<and> (rm_dx packet \<noteq> 0 \<or> rm_dy packet \<noteq> 0)
          then [PointerMove (f64_from_int (sint (rm_dx packet))) (f64_from_int (sint (rm_dy packet)))] else [])
         @ concat (map (\<lambda>(down, up, button). button_payloads flags down up button)
             [(RAW_MOUSE_LEFT_DOWN, RAW_MOUSE_LEFT_UP, Left), (RAW_MOUSE_RIGHT_DOWN, RAW_MOUSE_RIGHT_UP, Right),
              (RAW_MOUSE_MIDDLE_DOWN, RAW_MOUSE_MIDDLE_UP, Middle), (RAW_MOUSE_BACK_DOWN, RAW_MOUSE_BACK_UP, Back),
              (RAW_MOUSE_FORWARD_DOWN, RAW_MOUSE_FORWARD_UP, Forward)])
         @ (if flags AND RAW_MOUSE_WHEEL \<noteq> 0 then [Scroll f64_zero turn] else [])
         @ (if flags AND RAW_MOUSE_HWHEEL \<noteq> 0 then [Scroll turn f64_zero] else []))"

definition mp_holds_le :: "nat \<Rightarrow> MousePayloads \<Rightarrow> InputPayload list \<Rightarrow> bool" where
  "mp_holds_le n events ps \<longleftrightarrow> mp_holds events ps \<and> length ps \<le> n"

lemma mp_holds_le_push:
  "mp_holds_le n events ps \<Longrightarrow> n < MOUSE_PAYLOAD_CAPACITY \<Longrightarrow>
   mp_holds_le (n + 1) (if c then mp_push p events else events) (ps @ (if c then [p] else []))"
  using mp_holds_push_if [of events ps c p] by (auto simp: mp_holds_le_def)

lemma mp_holds_le_button:
  "mp_holds_le n events ps \<Longrightarrow> n + 1 < MOUSE_PAYLOAD_CAPACITY \<Longrightarrow>
   mp_holds_le (n + 2) (push_button flags down up button events) (ps @ button_payloads flags down up button)"
  using mp_holds_button [of events ps flags down up button] button_payloads_length [of flags down up button]
  by (auto simp: mp_holds_le_def)

lemma mp_holds_le_new: "mp_holds_le 0 MousePayloads_new []"
  by (simp add: mp_holds_le_def mp_holds_def)

lemma translate_mouse_holds: "mp_holds (translate_mouse packet) (mouse_payloads packet)"
proof -
  have "mp_holds_le (((((((0 + 1) + 2) + 2) + 2) + 2) + 2 + 1) + 1) (translate_mouse packet) (mouse_payloads packet)"
    unfolding translate_mouse_def mouse_payloads_def Let_def
    apply (simp only: list.map prod.case concat.simps append_Nil2 append_assoc [symmetric])
    apply (subst append_Nil [symmetric, of "if _ then [_] else []"])
    apply (rule mp_holds_le_push mp_holds_le_button mp_holds_le_new)+
    apply (simp_all add: MOUSE_PAYLOAD_CAPACITY_def)
    done
  then show ?thesis by (simp add: mp_holds_le_def)
qed

text \<open>
  The fixed buffer loses nothing: iterating over a translated mouse packet yields every payload
  of the packet in native order, whatever flags it carries, all of them finite, at most thirteen.
\<close>

theorem mouse_packet_complete:
  "mi_collect (mp_into_iter (translate_mouse packet)) = mouse_payloads packet
   \<and> length (mouse_payloads packet) \<le> MOUSE_PAYLOAD_CAPACITY
   \<and> list_all payload_is_finite (mouse_payloads packet)"
proof (intro conjI)
  have wf: "mp_wf (translate_mouse packet)" and eq: "mp_payloads (translate_mouse packet) = mouse_payloads packet"
    using translate_mouse_holds by (simp_all add: mp_holds_def)
  show "mi_collect (mp_into_iter (translate_mouse packet)) = mouse_payloads packet"
    using mi_collect_into_iter [OF wf] eq by simp
  show "length (mouse_payloads packet) \<le> MOUSE_PAYLOAD_CAPACITY"
    using wf by (simp add: mp_wf_def mp_payloads_def flip: eq)
  have "\<bar>sint w\<bar> \<le> 2 ^ 32" for w :: "32 word"
    using sint_ge [of w] sint_lt [of w] by simp
  then have "f64_is_finite (f64_from_int (sint w))" for w :: "32 word"
    by (rule f64_from_int_finite)
  then show "list_all payload_is_finite (mouse_payloads packet)"
    using wheel_delta_finite [of "rm_button_data packet"]
    by (simp add: mouse_payloads_def Let_def button_payloads_def)
qed

section \<open>HID values and devices\<close>

lemma hid_axis_finite: "hid_axis v = Some x \<Longrightarrow> f64_is_finite x"
  using f64_from_int_finite [of v] by (auto simp: hid_axis_def split: if_splits)

fun payload_allowed :: "DeviceKind \<Rightarrow> DeviceCapabilities \<Rightarrow> InputPayload \<Rightarrow> bool" where
  "payload_allowed kind caps (Key key state) \<longleftrightarrow> kind = Keyboard \<and> cap_keyboard caps"
| "payload_allowed kind caps (PointerMove dx dy) \<longleftrightarrow> kind \<in> {Mouse, Trackpad} \<and> cap_pointer caps"
| "payload_allowed kind caps (PointerButton b state) \<longleftrightarrow> kind \<in> {Mouse, Trackpad}
     \<and> (if b \<in> {Left, Right, Middle, Back, Forward} then cap_pointer caps else cap_extra_buttons caps)"
| "payload_allowed kind caps (Scroll h v) \<longleftrightarrow> kind \<in> {Mouse, Trackpad}
     \<and> (h \<noteq> f64_zero \<longrightarrow> cap_horizontal_scroll caps) \<and> (v \<noteq> f64_zero \<longrightarrow> cap_vertical_scroll caps)"

lemmas hid_pages = HID_PAGE_KEYBOARD_def HID_PAGE_BUTTON_def HID_PAGE_GENERIC_DESKTOP_def HID_PAGE_CONSUMER_def

lemma button_usage_disjoint: "6 \<le> (usage :: u32) \<Longrightarrow> usage \<le> 5 \<Longrightarrow> False"
  by (simp add: word_le_nat_alt)

lemma consumer_pan_no_key: "consumer_key_code 0x0238 = None"
  by (simp add: consumer_key_code_def hid_consumer_table_def)

text \<open>
  C38: An element admitted for a device yields only payloads that the device's kind and capabilities
  announce, and only finite ones: a mouse never types, a keyboard never moves the pointer, and
  scrolling needs the capability of its axis.
\<close>

theorem hid_value_within_capabilities:
  assumes "device_accepts_hid_value kind caps page usage"
    and "translate_hid_value page usage value relative = Some payload"
  shows "payload_allowed kind caps payload \<and> payload_is_finite payload"
  using assms
  by (cases kind)
    (auto simp: device_accepts_hid_value_def translate_hid_value_def hid_pages hid_pointer_button_def
      is_consumer_key_def consumer_pan_no_key
      split: if_splits option.splits dest!: hid_axis_finite dest: button_usage_disjoint)

theorem hid_value_within_capabilities_witness:
  "payload_allowed Mouse (caps_pointer\<lparr>cap_extra_buttons := True\<rparr>) (PointerButton (OtherButton 7) BtnPressed)
   \<and> payload_is_finite (PointerButton (OtherButton 7) BtnPressed)"
  using hid_value_within_capabilities [of Mouse "caps_pointer\<lparr>cap_extra_buttons := True\<rparr>" HID_PAGE_BUTTON 8 1 False
      "PointerButton (OtherButton 7) BtnPressed"]
  by (simp add: device_accepts_hid_value_def translate_hid_value_def hid_pages hid_pointer_button_def)

lemma hid_table_alignment:
  "map (\<lambda>(usage, key). (ucast usage, key)) hid_key_table =
     take 46 keyboard_usage_table @ [(0x32, K_IntlBackslash), (0x64, K_IntlBackslash)]
     @ take 7 (drop 46 keyboard_usage_table) @ take 12 range_usage_table
     @ take 19 (drop 53 keyboard_usage_table) @ drop 24 range_usage_table
     @ take 2 (drop 72 keyboard_usage_table) @ take 3 (drop 75 keyboard_usage_table)
     @ take 12 (drop 12 range_usage_table) @ take 1 (drop 78 keyboard_usage_table)
     @ take 11 (drop 82 keyboard_usage_table) @ drop 95 keyboard_usage_table"
  by (simp add: hid_key_table_def usage_tables)

lemma hid_table_agrees:
  assumes "(usage, key) \<in> set hid_key_table"
  shows "(ucast usage, key) = (0x32 :: u16, K_IntlBackslash)
    \<or> (ucast usage, key) \<in> set (keyboard_usage_table @ range_usage_table)"
proof -
  have "(ucast usage, key) \<in> set (map (\<lambda>(usage, key). (ucast usage :: u16, key)) hid_key_table)"
    using assms by force
  moreover have "(0x64, K_IntlBackslash) \<in> set keyboard_usage_table"
  proof -
    have "take 1 (drop 74 keyboard_usage_table) = [(0x64, K_IntlBackslash)]"
      by (simp add: keyboard_usage_table_def)
    then show ?thesis by (metis in_set_takeD in_set_dropD list.set_intros(1))
  qed
  ultimately show ?thesis
    unfolding hid_table_alignment by (auto dest: in_set_takeD in_set_dropD)
qed

lemma hid_usage_small:
  "list_all (\<lambda>(usage, key). usage < 0x10000) hid_key_table"
  by (simp add: hid_key_table_def)

text \<open>
  macOS HID capture and the wire decoder read a keyboard or consumer usage as the same key, for
  every usage both know; capture's only private usage is 0x32, the non-US hash position.
\<close>

theorem hid_and_wire_agree:
  "(hid_key_code usage = Some key \<longrightarrow> usage \<noteq> 0x32 \<longrightarrow>
      key_code_from_wire \<lparr>wkey_usage_page = KEYBOARD_PAGE, wkey_usage = ucast usage\<rparr> = key)
   \<and> (consumer_key_code usage = Some key \<longrightarrow>
      key_code_from_wire \<lparr>wkey_usage_page = CONSUMER_PAGE, wkey_usage = ucast usage\<rparr> = key)"
proof (intro conjI impI)
  assume "hid_key_code usage = Some key" and other: "usage \<noteq> 0x32"
  then have "(usage, key) \<in> set hid_key_table"
    by (auto simp: hid_key_code_def dest: map_of_SomeD)
  moreover have "ucast usage \<noteq> (0x32 :: u16)"
  proof
    assume low: "ucast usage = (0x32 :: u16)"
    have "unat usage < 2 ^ 16"
      using hid_usage_small \<open>(usage, key) \<in> set hid_key_table\<close>
      by (auto simp: list_all_iff word_less_nat_alt)
    then have "unat usage = unat (ucast usage :: u16)"
      by (simp add: unsigned_ucast_eq take_bit_eq_mod)
    then show False using low other by (simp add: word_unat_eq_iff)
  qed
  ultimately have "(ucast usage, key) \<in> set (keyboard_usage_table @ range_usage_table)"
    using hid_table_agrees by blast
  then show "key_code_from_wire \<lparr>wkey_usage_page = KEYBOARD_PAGE, wkey_usage = ucast usage\<rparr> = key"
    unfolding keyboard_key_from_usage_iff [symmetric]
    by (simp add: key_code_from_wire_def named_key_from_wire_def)
next
  assume "consumer_key_code usage = Some key"
  then show "key_code_from_wire \<lparr>wkey_usage_page = CONSUMER_PAGE, wkey_usage = ucast usage\<rparr> = key"
    by (auto simp: consumer_key_code_def hid_consumer_table_def key_code_from_wire_def
        named_key_from_wire_def consumer_key_from_usage_def consumer_usage_table_def split: if_splits)
qed

theorem hid_and_wire_agree_witness:
  "key_code_from_wire \<lparr>wkey_usage_page = KEYBOARD_PAGE, wkey_usage = ucast (0x3A :: u32)\<rparr> = K_F1"
  using hid_and_wire_agree [where usage = "0x3A" and key = K_F1] by (simp add: hid_key_code_def hid_key_table_def)

section \<open>Origin of captured events\<close>

lemma injected_never_suppressed:
  "\<not> whole_host_should_suppress (classify_low_level (ucast KVM_INJECTION_TAG) flags injected) d"
  "\<not> whole_host_should_suppress (classify_quartz_capture KVM_EVENT_TAG state) d"
  by (simp_all add: classify_low_level_def classify_quartz_capture_def)

lemma raw_input_never_physical:
  "classify_raw_input extra \<noteq> Physical" "classify_quartz_user_data user_data \<noteq> Physical"
  by (simp_all add: classify_raw_input_def classify_quartz_user_data_def)

lemma modifier_masks_agree:
  "quartz_modifier_pressed vk flags = map_option (\<lambda>mask. flags AND mask \<noteq> 0) (quartz_modifier_flag vk)"
  by (simp add: quartz_modifier_pressed_def quartz_modifier_flag_def quartz_pressed_masks_def quartz_flag_masks_def)

lemma shortcut_roles_involutive [simp]:
  "macos_key_for_windows_source (windows_key_for_macos_source key) = key"
  "windows_key_for_macos_source (macos_key_for_windows_source key) = key"
  by auto

lemma overflow_drops_no_transition: "overflow_may_drop payload \<longleftrightarrow> \<not> is_state_transition payload"
  by (cases payload) auto

lemma mach_timestamp_ns_exact:
  assumes "denominator \<noteq> 0" and "unat raw * unat numerator div unat denominator < 2 ^ 64"
  shows "unat (mach_timestamp_ns raw numerator denominator) = unat raw * unat numerator div unat denominator"
proof -
  have "unat raw * unat numerator \<le> (2 ^ 64 - 1) * (2 ^ 32 - 1)"
    using unsigned_less [of raw, where ?'a = nat] unsigned_less [of numerator, where ?'a = nat] by (intro mult_le_mono) simp_all
  then have "min (unat raw * unat numerator) (2 ^ 128 - 1) = unat raw * unat numerator" by simp
  then show ?thesis
    using assms by (simp add: mach_timestamp_ns_def Let_def unat_of_nat take_bit_eq_mod)
qed

end
