(* ===== verification/PointerDatagram.thy ===== *)
theory PointerDatagram
  imports Frame BTreeMaps
begin

text \<open>
  The encrypted datagram path of \<^verbatim>\<open>kvm-network/src/pointer_datagram.rs\<close>: pointer motion as
  cumulative totals, speculative ordered copies of stateful input with retransmission and
  cumulative acknowledgements, one authenticated sequence window, and feedback on loss.

  ChaCha20-Poly1305 and SHA-256 are parameters.  The socket is a parameter too: the answer to the
  \<open>n\<close>-th send of the path is \<open>de_answer n\<close>, and \<open>dp_wire\<close> lists the packets it took.
  \<^verbatim>\<open>Instant::now\<close> is read once per operation, as its argument \<open>now\<close> in nanoseconds; the iteration
  order of a hash map is the order of its list, and insertion may place an entry anywhere, which is
  the parameter \<open>de_shuffle\<close>.
\<close>

section \<open>Constants and data\<close>

definition DATAGRAM_MAGIC :: "u8 list" where "DATAGRAM_MAGIC = [0x53, 0x4B, 0x56, 0x55]"
definition DATAGRAM_VERSION :: u8 where "DATAGRAM_VERSION = 1"
definition HEADER_LEN :: nat where "HEADER_LEN = 13"
definition MAX_DATAGRAM :: nat where "MAX_DATAGRAM = 1200"
definition KIND_PROBE :: u8 where "KIND_PROBE = 0"
definition KIND_POINTER :: u8 where "KIND_POINTER = 1"
definition KIND_FEEDBACK :: u8 where "KIND_FEEDBACK = 2"
definition KIND_RELIABLE :: u8 where "KIND_RELIABLE = 3"
definition KIND_RELIABLE_ACK :: u8 where "KIND_RELIABLE_ACK = 4"
definition POINTER_PAYLOAD_LEN :: nat where "POINTER_PAYLOAD_LEN = 1 + 16 + 8 + 8 + 8"
definition MAX_TRACKED_DEVICES :: nat where "MAX_TRACKED_DEVICES = 64"
definition POINTER_PACING_INTERVAL :: duration where "POINTER_PACING_INTERVAL = from_millis 4"
definition RELIABLE_RETRY_INTERVAL :: duration where "RELIABLE_RETRY_INTERVAL = from_millis 8"
definition MAX_RELIABLE_PENDING :: nat where "MAX_RELIABLE_PENDING = 128"
definition MAX_RELIABLE_ATTEMPTS :: nat where "MAX_RELIABLE_ATTEMPTS = 4"
definition POINTER_DATAGRAM_PROTOCOL_VERSION :: u16 where "POINTER_DATAGRAM_PROTOCOL_VERSION = 3"

record PendingPointer =
  pp_timestamp_ns :: u64
  pp_totals :: "f64 \<times> f64"

record PendingReliable =
  pr_payload :: "u8 list"
  pr_last_sent :: nat
  pr_attempts :: nat

text \<open>The two operations of the authenticated cipher, keyed by 32 bytes, with a 12-byte nonce.\<close>

record aead =
  aead_encrypt :: "u8 list \<Rightarrow> u8 list \<Rightarrow> u8 list option"
  aead_decrypt :: "u8 list \<Rightarrow> u8 list \<Rightarrow> u8 list option"

datatype send_outcome = Written nat | WouldBlock | SendFailed

record datagram_env =
  de_postcard :: postcard
  de_sha256 :: "u8 list \<Rightarrow> u8 list"
  de_chacha :: "u8 list \<Rightarrow> aead"
  de_answer :: "nat \<Rightarrow> send_outcome"
  de_shuffle :: "(WireDeviceId \<times> PendingPointer) list \<Rightarrow> (WireDeviceId \<times> PendingPointer) list"
  de_hypot :: "f64 \<Rightarrow> f64 \<Rightarrow> f64"

datatype DatagramError =
    PartialDatagram | PointerHostMismatch | PointerDeviceCapacity | ReliableEncodeFailed
  | ReliableSequenceExhausted | DatagramSequenceExhausted | DatagramEncryptionFailed | DatagramTooLarge
  | DatagramAuthenticationFailed | InvalidPointerTotals | ReliableDecodeFailed | InvalidReliableMessage
  | SocketError

text \<open>
  The path.  The last three fields are not in the source: how many sends the socket answered, the
  packets it took, and every call of the send cipher, with the nonce and the plaintext it was given.
\<close>

record PointerDatagramPath =
  dp_session_id :: bytes32
  dp_send_sequence :: u64
  dp_receive_sequence :: "u64 option"
  dp_ready :: bool
  dp_local_host :: WireHostId
  dp_remote_host :: WireHostId
  dp_sent_totals :: "(WireDeviceId, f64 \<times> f64) hash_map"
  dp_pending :: "(WireDeviceId, PendingPointer) hash_map"
  dp_last_pointer_send :: "nat option"
  dp_recently_sent :: nat
  dp_redundancy_budget :: nat
  dp_pacing_interval :: duration
  dp_reliable_send_sequence :: u64
  dp_reliable_receive_sequence :: u64
  dp_reliable_pending :: "(u64, PendingReliable) btree_map"
  dp_reliable_received :: "(u64, WireMessage) btree_map"
  dp_received_totals :: "(WireDeviceId, f64 \<times> f64) hash_map"
  dp_last_arrival :: "nat option"
  dp_last_interval_us :: "u64 option"
  dp_socket_calls :: nat
  dp_wire :: "u8 list list"
  dp_sealed :: "(u8 list \<times> u8 list) list"

record DatagramReceive =
  dr_input :: "InputEventV1 option"
  dr_gaps :: u64
  dr_jitter_us :: u64
  dr_silence_ms :: u64
  dr_recovery_milliunits :: u64
  dr_reliable_messages :: "WireMessage list"

definition DatagramReceive_default :: DatagramReceive where
  "DatagramReceive_default = \<lparr>dr_input = None, dr_gaps = 0, dr_jitter_us = 0, dr_silence_ms = 0,
     dr_recovery_milliunits = 0, dr_reliable_messages = []\<rparr>"

type_synonym 'a datagram_result = "(DatagramError, 'a) result \<times> PointerDatagramPath"

section \<open>Keys, nonces and packets\<close>

definition cipher :: "datagram_env \<Rightarrow> bytes32 \<Rightarrow> WireHostId \<Rightarrow> aead" where
  "cipher env session_id sender =
     de_chacha env (de_sha256 env
       (map of_nat (ascii_str ''software-kvm-pointer-datagram-v1'') @ [0]
        @ be_bytes 32 (unat session_id) @ be_bytes 16 (unat sender)))"

definition nonce :: "u64 \<Rightarrow> u8 list" where
  "nonce sequence = replicate 4 0 @ be_bytes 8 (unat sequence)"

definition send_cipher :: "datagram_env \<Rightarrow> PointerDatagramPath \<Rightarrow> aead" where
  "send_cipher env p = cipher env (dp_session_id p) (dp_local_host p)"

definition receive_cipher :: "datagram_env \<Rightarrow> PointerDatagramPath \<Rightarrow> aead" where
  "receive_cipher env p = cipher env (dp_session_id p) (dp_remote_host p)"

definition PointerDatagramPath_bind :: "bytes32 \<Rightarrow> WireHostId \<Rightarrow> WireHostId \<Rightarrow> PointerDatagramPath" where
  "PointerDatagramPath_bind session_id own peer =
     \<lparr>dp_session_id = session_id, dp_send_sequence = 0, dp_receive_sequence = None, dp_ready = False,
      dp_local_host = own, dp_remote_host = peer, dp_sent_totals = [], dp_pending = [],
      dp_last_pointer_send = None, dp_recently_sent = 0, dp_redundancy_budget = 0,
      dp_pacing_interval = POINTER_PACING_INTERVAL, dp_reliable_send_sequence = 0,
      dp_reliable_receive_sequence = 0, dp_reliable_pending = [], dp_reliable_received = [],
      dp_received_totals = [], dp_last_arrival = None, dp_last_interval_us = None,
      dp_socket_calls = 0, dp_wire = [], dp_sealed = []\<rparr>"

definition datagram :: "u64 \<Rightarrow> u8 list \<Rightarrow> u8 list" where
  "datagram sequence ciphertext =
     DATAGRAM_MAGIC @ [DATAGRAM_VERSION] @ be_bytes 8 (unat sequence) @ ciphertext"

text \<open>A call of the send cipher; what it is called with is also noted in the path.\<close>

definition seal ::
  "datagram_env \<Rightarrow> u8 list \<Rightarrow> u8 list \<Rightarrow> PointerDatagramPath \<Rightarrow> u8 list option \<times> PointerDatagramPath" where
  "seal env n payload p =
     (aead_encrypt (send_cipher env p) n payload, p\<lparr>dp_sealed := dp_sealed p @ [(n, payload)]\<rparr>)"

definition encode_payload :: "datagram_env \<Rightarrow> u8 list \<Rightarrow> PointerDatagramPath \<Rightarrow> (u8 list) datagram_result" where
  "encode_payload env payload p =
     (let sequence = dp_send_sequence p in
      case checked_add_u64 sequence 1 of
        None \<Rightarrow> (Inl DatagramSequenceExhausted, p)
      | Some next_sequence \<Rightarrow>
          (case seal env (nonce sequence) payload (p\<lparr>dp_send_sequence := next_sequence\<rparr>) of
             (None, p1) \<Rightarrow> (Inl DatagramEncryptionFailed, p1)
           | (Some ciphertext, p1) \<Rightarrow>
               if MAX_DATAGRAM < HEADER_LEN + length ciphertext then (Inl DatagramTooLarge, p1)
               else (Inr (datagram sequence ciphertext), p1)))"

definition socket_send :: "datagram_env \<Rightarrow> u8 list \<Rightarrow> PointerDatagramPath \<Rightarrow> send_outcome \<times> PointerDatagramPath" where
  "socket_send env packet p =
     (let answer = de_answer env (dp_socket_calls p) in
      (answer, p\<lparr>dp_socket_calls := dp_socket_calls p + 1,
                 dp_wire := dp_wire p @ (if answer = Written (length packet) then [packet] else [])\<rparr>))"

definition is_pointer_move :: "WireMessage \<Rightarrow> bool" where
  "is_pointer_move message =
     (case message of
        Input input \<Rightarrow> (case input_payload input of WirePointerMove _ _ \<Rightarrow> True | _ \<Rightarrow> False)
      | _ \<Rightarrow> False)"

definition is_stateful_input :: "WireMessage \<Rightarrow> bool" where
  "is_stateful_input message =
     (case message of
        Input input \<Rightarrow> (case input_payload input of WirePointerMove _ _ \<Rightarrow> False | _ \<Rightarrow> True)
      | _ \<Rightarrow> False)"

section \<open>Sending\<close>

definition send_probe :: "datagram_env \<Rightarrow> PointerDatagramPath \<Rightarrow> unit datagram_result" where
  "send_probe env p =
     (case encode_payload env [KIND_PROBE] p of
        (Inl e, p1) \<Rightarrow> (Inl e, p1)
      | (Inr packet, p1) \<Rightarrow>
          (case socket_send env packet p1 of
             (Written n, p2) \<Rightarrow> if n = length packet then (Inr (), p2) else (Inl PartialDatagram, p2)
           | (_, p2) \<Rightarrow> (Inl SocketError, p2)))"

definition pointer_payload :: "WireDeviceId \<Rightarrow> PendingPointer \<Rightarrow> u8 list" where
  "pointer_payload device pointer =
     [KIND_POINTER] @ be_bytes 16 (unat device) @ be_bytes 8 (unat (pp_timestamp_ns pointer))
     @ be_bytes 8 (unat (fst (pp_totals pointer))) @ be_bytes 8 (unat (snd (pp_totals pointer)))"

definition send_redundant :: "datagram_env \<Rightarrow> u8 list \<Rightarrow> PointerDatagramPath \<Rightarrow> PointerDatagramPath" where
  "send_redundant env packet p =
     (if 0 < dp_redundancy_budget p then
        let p1 = snd (socket_send env packet p);
            budget = dp_redundancy_budget p - 1
        in p1\<lparr>dp_redundancy_budget := budget,
              dp_pacing_interval := (if budget = 0 then POINTER_PACING_INTERVAL else dp_pacing_interval p)\<rparr>
      else p)"

fun flush_loop ::
  "datagram_env \<Rightarrow> (WireDeviceId \<times> PendingPointer) list \<Rightarrow> nat \<Rightarrow> PointerDatagramPath \<Rightarrow> nat datagram_result" where
  "flush_loop env [] sent p = (Inr sent, p)"
| "flush_loop env ((device, pointer) # rest) sent p =
     (case encode_payload env (pointer_payload device pointer) p of
        (Inl e, p1) \<Rightarrow> (Inl e, p1)
      | (Inr packet, p1) \<Rightarrow>
          (case socket_send env packet p1 of
             (Written n, p2) \<Rightarrow>
               if n = length packet then flush_loop env rest (sent + 1) (send_redundant env packet p2)
               else (Inl PartialDatagram, p2)
           | (WouldBlock, p2) \<Rightarrow>
               flush_loop env rest sent (p2\<lparr>dp_pending := AList.update device pointer (dp_pending p2)\<rparr>)
           | (SendFailed, p2) \<Rightarrow> (Inl SocketError, p2)))"

text \<open>\<^verbatim>\<open>usize\<close> has 64 bits.\<close>

definition saturating_add_usize :: "nat \<Rightarrow> nat \<Rightarrow> nat" where
  "saturating_add_usize a b = min (a + b) (2 ^ 64 - 1)"

definition flush_pending :: "datagram_env \<Rightarrow> nat \<Rightarrow> PointerDatagramPath \<Rightarrow> nat datagram_result" where
  "flush_pending env now p =
     (if \<not> dp_ready p \<or> dp_pending p = [] then (Inr 0, p)
      else case flush_loop env (de_shuffle env (dp_pending p)) 0 (p\<lparr>dp_pending := []\<rparr>) of
        (Inl e, p1) \<Rightarrow> (Inl e, p1)
      | (Inr sent, p1) \<Rightarrow>
          (Inr sent,
           if 0 < sent then p1\<lparr>dp_last_pointer_send := Some now,
                               dp_recently_sent := saturating_add_usize (dp_recently_sent p1) sent\<rparr>
           else p1))"

definition totals_or_default :: "(WireDeviceId, f64 \<times> f64) hash_map \<Rightarrow> WireDeviceId \<Rightarrow> f64 \<times> f64" where
  "totals_or_default m device = (case map_of m device of Some t \<Rightarrow> t | None \<Rightarrow> (f64_zero, f64_zero))"

definition try_send_pointer :: "datagram_env \<Rightarrow> nat \<Rightarrow> WireMessage \<Rightarrow> PointerDatagramPath \<Rightarrow> bool datagram_result" where
  "try_send_pointer env now message p =
     (if \<not> dp_ready p \<or> \<not> is_pointer_move message then (Inr False, p)
      else case message of
        Input input \<Rightarrow>
          (case input_payload input of
             WirePointerMove dx dy \<Rightarrow>
               (let device = input_source_device input;
                    previous = totals_or_default (dp_sent_totals p) device
                in if input_source_host input \<noteq> dp_local_host p then (Inl PointerHostMismatch, p)
                   else if \<not> contains_key (dp_sent_totals p) device
                           \<and> MAX_TRACKED_DEVICES \<le> length (dp_sent_totals p)
                   then (Inl PointerDeviceCapacity, p)
                   else
                     let totals = (f64_add (fst previous) dx, f64_add (snd previous) dy);
                         p1 = p\<lparr>dp_sent_totals := AList.update device totals (dp_sent_totals p),
                                dp_pending := AList.update device
                                  \<lparr>pp_timestamp_ns = input_timestamp_ns input, pp_totals = totals\<rparr> (dp_pending p)\<rparr>
                     in if (case dp_last_pointer_send p of
                              Some earlier \<Rightarrow> now - earlier < dp_pacing_interval p | None \<Rightarrow> False)
                        then (Inr True, p1)
                        else case flush_pending env now p1 of
                               (Inl e, p2) \<Rightarrow> (Inl e, p2) | (Inr _, p2) \<Rightarrow> (Inr True, p2))
           | _ \<Rightarrow> (Inr False, p))
      | _ \<Rightarrow> (Inr False, p))"

definition take_recently_sent :: "PointerDatagramPath \<Rightarrow> nat \<times> PointerDatagramPath" where
  "take_recently_sent p = (dp_recently_sent p, p\<lparr>dp_recently_sent := 0\<rparr>)"

definition reliable_payload :: "u64 \<Rightarrow> u8 list \<Rightarrow> u8 list" where
  "reliable_payload sequence frame = [KIND_RELIABLE] @ be_bytes 8 (unat sequence) @ frame"

definition shadow_reliable :: "datagram_env \<Rightarrow> nat \<Rightarrow> WireMessage \<Rightarrow> PointerDatagramPath \<Rightarrow> bool datagram_result" where
  "shadow_reliable env now message p =
     (if \<not> dp_ready p \<or> \<not> is_stateful_input message then (Inr False, p)
      else if MAX_RELIABLE_PENDING \<le> length (dp_reliable_pending p) then (Inr False, p)
      else case encode_frame_for_version (de_postcard env) message POINTER_DATAGRAM_PROTOCOL_VERSION of
        Inl _ \<Rightarrow> (Inl ReliableEncodeFailed, p)
      | Inr frame \<Rightarrow>
          (let sequence = dp_reliable_send_sequence p in
           case checked_add_u64 sequence 1 of
             None \<Rightarrow> (Inl ReliableSequenceExhausted, p)
           | Some next_sequence \<Rightarrow>
               (let p1 = p\<lparr>dp_reliable_send_sequence := next_sequence\<rparr>;
                    payload = reliable_payload sequence frame
                in case encode_payload env payload p1 of
                     (Inl e, p2) \<Rightarrow> (Inl e, p2)
                   | (Inr packet, p2) \<Rightarrow>
                       (case socket_send env packet p2 of
                          (outcome, p3) \<Rightarrow>
                            if outcome = Written (length packet) \<or> outcome = WouldBlock then
                              (Inr True, p3\<lparr>dp_reliable_pending := bt_insert sequence
                                 \<lparr>pr_payload = payload, pr_last_sent = now, pr_attempts = 1\<rparr>
                                 (dp_reliable_pending p3)\<rparr>)
                            else if outcome = SendFailed then (Inl SocketError, p3)
                            else (Inl PartialDatagram, p3)))))"

fun retransmit_loop :: "datagram_env \<Rightarrow> nat \<Rightarrow> u64 list \<Rightarrow> nat \<Rightarrow> PointerDatagramPath \<Rightarrow> nat datagram_result" where
  "retransmit_loop env now [] retransmitted p = (Inr retransmitted, p)"
| "retransmit_loop env now (sequence # due) retransmitted p =
     (case map_of (dp_reliable_pending p) sequence of
        None \<Rightarrow> retransmit_loop env now due retransmitted p
      | Some pending \<Rightarrow>
          (let p0 = p\<lparr>dp_reliable_pending := AList.delete sequence (dp_reliable_pending p)\<rparr> in
           if MAX_RELIABLE_ATTEMPTS \<le> pr_attempts pending then retransmit_loop env now due retransmitted p0
           else case encode_payload env (pr_payload pending) p0 of
             (Inl e, p1) \<Rightarrow> (Inl e, p1)
           | (Inr packet, p1) \<Rightarrow>
               (case socket_send env packet p1 of
                  (Written n, p2) \<Rightarrow>
                    if n = length packet then
                      retransmit_loop env now due (retransmitted + 1)
                        (p2\<lparr>dp_reliable_pending := bt_insert sequence
                           (pending\<lparr>pr_last_sent := now, pr_attempts := pr_attempts pending + 1\<rparr>)
                           (dp_reliable_pending p2)\<rparr>)
                    else (Inl PartialDatagram, p2)
                | (WouldBlock, p2) \<Rightarrow>
                    retransmit_loop env now due retransmitted
                      (p2\<lparr>dp_reliable_pending := bt_insert sequence pending (dp_reliable_pending p2)\<rparr>)
                | (SendFailed, p2) \<Rightarrow> (Inl SocketError, p2))))"

definition maintain_reliable :: "datagram_env \<Rightarrow> nat \<Rightarrow> PointerDatagramPath \<Rightarrow> nat datagram_result" where
  "maintain_reliable env now p =
     retransmit_loop env now
       (map fst (filter (\<lambda>(_, pending). RELIABLE_RETRY_INTERVAL \<le> now - pr_last_sent pending) (dp_reliable_pending p)))
       0 p"

section \<open>Receiving\<close>

text \<open>
  \<^verbatim>\<open>as u64\<close> from a double truncates and saturates; \<^verbatim>\<open>u64::MAX as f64\<close> is \<open>2 ^ 64\<close>; 1000.0 is written
  as its bit pattern.  The clamp bounds are constants in order, so it cannot panic.
\<close>

definition f64_as_u64 :: "f64 \<Rightarrow> u64" where
  "f64_as_u64 x =
     (if f64_is_nan x \<or> f64_sign x then 0
      else if \<not> f64_is_finite x then - 1
      else u64_try_from (mag_value (f64_mag x) div unit_scale))"

definition recovery_milliunits :: "datagram_env \<Rightarrow> f64 \<Rightarrow> f64 \<Rightarrow> u64" where
  "recovery_milliunits env dx dy =
     (case f64_clamp (f64_mul (de_hypot env dx dy) 0x408F400000000000) f64_zero 0x43F0000000000000 of
        Some x \<Rightarrow> f64_as_u64 x | None \<Rightarrow> 0)"

definition abs_diff_u64 :: "u64 \<Rightarrow> u64 \<Rightarrow> u64" where
  "abs_diff_u64 a b = (if a < b then b - a else a - b)"

text \<open>\<^verbatim>\<open>self.reliable_receive_sequence += 1\<close> is written with the wrap-around of a release build.\<close>

function drain_reliable ::
  "u64 \<Rightarrow> (u64, WireMessage) btree_map \<Rightarrow> WireMessage list \<times> u64 \<times> (u64, WireMessage) btree_map" where
  "drain_reliable sequence received =
     (case map_of received sequence of
        None \<Rightarrow> ([], sequence, received)
      | Some message \<Rightarrow>
          (let (messages, sequence', received') = drain_reliable (sequence + 1) (AList.delete sequence received)
           in (message # messages, sequence', received')))"
  by pat_completeness auto
termination
proof (relation "measure (\<lambda>(_, received). length received)")
  fix sequence :: u64 and received :: "(u64, WireMessage) btree_map" and message
  assume "map_of received sequence = Some message"
  then have "(sequence, message) \<in> set received" by (rule map_of_SomeD)
  then have "length (AList.delete sequence received) < length received"
    unfolding AList.delete_eq by (rule length_filter_less) simp
  then show "((sequence + 1, AList.delete sequence received), sequence, received)
      \<in> measure (\<lambda>(_, received). length received)" by simp
qed simp

declare drain_reliable.simps [simp del]

text \<open>What every answer to an authenticated datagram carries, and the packets that carry nothing else.\<close>

record arrival =
  ar_sequence :: u64
  ar_gaps :: u64
  ar_jitter_us :: u64
  ar_silence_ms :: u64

definition plain_receive :: "arrival \<Rightarrow> DatagramReceive" where
  "plain_receive a = \<lparr>dr_input = None, dr_gaps = ar_gaps a, dr_jitter_us = ar_jitter_us a,
     dr_silence_ms = ar_silence_ms a, dr_recovery_milliunits = 0, dr_reliable_messages = []\<rparr>"

definition receive_pointer ::
  "datagram_env \<Rightarrow> arrival \<Rightarrow> u8 list \<Rightarrow> PointerDatagramPath \<Rightarrow> DatagramReceive datagram_result" where
  "receive_pointer env a body p =
     (let device = of_nat (be_value (take 16 body));
          timestamp_ns = of_nat (be_value (take 8 (drop 16 body)));
          total_x = of_nat (be_value (take 8 (drop 24 body)));
          total_y = of_nat (be_value (take 8 (drop 32 body)))
      in if \<not> f64_is_finite total_x \<or> \<not> f64_is_finite total_y then (Inl InvalidPointerTotals, p)
         else if \<not> contains_key (dp_received_totals p) device
                 \<and> MAX_TRACKED_DEVICES \<le> length (dp_received_totals p)
         then (Inl PointerDeviceCapacity, p)
         else
           let previous = totals_or_default (dp_received_totals p) device;
               dx = f64_sub total_x (fst previous);
               dy = f64_sub total_y (snd previous)
           in (Inr \<lparr>dr_input = Some \<lparr>input_sequence = ar_sequence a, input_timestamp_ns = timestamp_ns,
                       input_source_host = dp_remote_host p, input_source_device = device,
                       input_payload = WirePointerMove dx dy\<rparr>,
                    dr_gaps = ar_gaps a, dr_jitter_us = ar_jitter_us a, dr_silence_ms = ar_silence_ms a,
                    dr_recovery_milliunits = (if 0 < ar_gaps a then recovery_milliunits env dx dy else 0),
                    dr_reliable_messages = []\<rparr>,
               p\<lparr>dp_received_totals := AList.update device (total_x, total_y) (dp_received_totals p)\<rparr>))"

definition accept_reliable :: "u64 \<Rightarrow> WireMessage \<Rightarrow> PointerDatagramPath \<Rightarrow> WireMessage list \<times> PointerDatagramPath" where
  "accept_reliable reliable_sequence message p =
     (let received = (if dp_reliable_receive_sequence p \<le> reliable_sequence
                         \<and> length (dp_reliable_received p) < MAX_RELIABLE_PENDING
                         \<and> map_of (dp_reliable_received p) reliable_sequence = None
                      then bt_insert reliable_sequence message (dp_reliable_received p)
                      else dp_reliable_received p);
          (messages, sequence', received') = drain_reliable (dp_reliable_receive_sequence p) received
      in (messages, p\<lparr>dp_reliable_receive_sequence := sequence', dp_reliable_received := received'\<rparr>))"

definition receive_reliable ::
  "datagram_env \<Rightarrow> arrival \<Rightarrow> u8 list \<Rightarrow> PointerDatagramPath \<Rightarrow> DatagramReceive datagram_result" where
  "receive_reliable env a body p =
     (let reliable_sequence = of_nat (be_value (take 8 body)) in
      case decode_frame_for_version (de_postcard env) (drop 8 body) POINTER_DATAGRAM_PROTOCOL_VERSION of
        Inl _ \<Rightarrow> (Inl ReliableDecodeFailed, p)
      | Inr message \<Rightarrow>
          if \<not> is_stateful_input message then (Inl InvalidReliableMessage, p)
          else
            let (messages, p1) = accept_reliable reliable_sequence message p;
                answer = (plain_receive a)\<lparr>dr_reliable_messages := messages\<rparr>
            in if 0 < dp_reliable_receive_sequence p1 then
                 case encode_payload env
                        ([KIND_RELIABLE_ACK] @ be_bytes 8 (unat (dp_reliable_receive_sequence p1 - 1))) p1 of
                   (Inl e, p2) \<Rightarrow> (Inl e, p2)
                 | (Inr packet, p2) \<Rightarrow> (Inr answer, snd (socket_send env packet p2))
               else (Inr answer, p1))"

definition receive_plaintext ::
  "datagram_env \<Rightarrow> arrival \<Rightarrow> u8 list \<Rightarrow> PointerDatagramPath \<Rightarrow> DatagramReceive datagram_result" where
  "receive_plaintext env a plaintext p =
     (case plaintext of
        [] \<Rightarrow> (Inr DatagramReceive_default, p)
      | kind # body \<Rightarrow>
          if kind = KIND_PROBE then (Inr (plain_receive a), p\<lparr>dp_ready := True\<rparr>)
          else if kind = KIND_POINTER \<and> length plaintext = POINTER_PAYLOAD_LEN then receive_pointer env a body p
          else if kind = KIND_FEEDBACK then
            (Inr (plain_receive a), p\<lparr>dp_redundancy_budget := 8, dp_pacing_interval := from_millis 8\<rparr>)
          else if kind = KIND_RELIABLE \<and> 8 < length body then receive_reliable env a body p
          else if kind = KIND_RELIABLE_ACK \<and> length body = 8 then
            (Inr (plain_receive a),
             p\<lparr>dp_reliable_pending := filter (\<lambda>(sequence, _). of_nat (be_value body) < sequence)
                 (dp_reliable_pending p)\<rparr>)
          else (Inr DatagramReceive_default, p))"

text \<open>The bookkeeping between authentication and the packet kinds: sequence, arrival times and feedback.\<close>

definition note_arrival :: "nat \<Rightarrow> u64 \<Rightarrow> PointerDatagramPath \<Rightarrow> arrival \<times> PointerDatagramPath" where
  "note_arrival now sequence p =
     (let gaps = (case dp_receive_sequence p of
                    None \<Rightarrow> 0 | Some newest \<Rightarrow> saturating_sub_u64 (saturating_sub_u64 sequence newest) 1);
          interval_us = map_option (\<lambda>earlier. u64_try_from ((now - earlier) div 1000)) (dp_last_arrival p);
          jitter_us = (case (interval_us, dp_last_interval_us p) of
                         (Some current, Some previous) \<Rightarrow> abs_diff_u64 current previous | _ \<Rightarrow> 0);
          silence_ms = (case interval_us of Some i \<Rightarrow> i div 1000 | None \<Rightarrow> 0)
      in (\<lparr>ar_sequence = sequence, ar_gaps = gaps, ar_jitter_us = jitter_us, ar_silence_ms = silence_ms\<rparr>,
          p\<lparr>dp_receive_sequence := Some sequence, dp_last_arrival := Some now,
            dp_last_interval_us := (case interval_us of Some i \<Rightarrow> Some i | None \<Rightarrow> dp_last_interval_us p)\<rparr>))"

definition header_matches :: "u8 list \<Rightarrow> bool" where
  "header_matches bytes \<longleftrightarrow> HEADER_LEN \<le> length bytes \<and> take 4 bytes = DATAGRAM_MAGIC \<and> bytes ! 4 = DATAGRAM_VERSION"

definition header_sequence :: "u8 list \<Rightarrow> u64" where
  "header_sequence bytes = of_nat (be_value (take 8 (drop 5 bytes)))"

text \<open>
  One datagram from the socket; \<^verbatim>\<open>recv\<close> keeps at most the buffer's 1200 bytes.
\<close>

definition receive :: "datagram_env \<Rightarrow> nat \<Rightarrow> u8 list \<Rightarrow> PointerDatagramPath \<Rightarrow> DatagramReceive datagram_result" where
  "receive env now packet p =
     (let bytes = take MAX_DATAGRAM packet; sequence = header_sequence bytes in
      if \<not> header_matches bytes then (Inr DatagramReceive_default, p)
      else if (case dp_receive_sequence p of Some newest \<Rightarrow> sequence \<le> newest | None \<Rightarrow> False)
      then (Inr DatagramReceive_default, p)
      else case aead_decrypt (receive_cipher env p) (nonce sequence) (drop HEADER_LEN bytes) of
        None \<Rightarrow> (Inl DatagramAuthenticationFailed, p)
      | Some plaintext \<Rightarrow>
          (let (a, p1) = note_arrival now sequence p in
           if 0 < ar_gaps a then
             case encode_payload env [KIND_FEEDBACK] p1 of
               (Inl e, p2) \<Rightarrow> (Inl e, p2)
             | (Inr packet, p2) \<Rightarrow> receive_plaintext env a plaintext (snd (socket_send env packet p2))
           else receive_plaintext env a plaintext p1))"

section \<open>The path as a sequence of operations\<close>

datatype datagram_op =
    OpProbe | OpPointer nat WireMessage | OpFlush nat | OpTakeSent | OpShadow nat WireMessage
  | OpMaintain nat | OpReceive nat "u8 list"

fun datagram_step :: "datagram_env \<Rightarrow> datagram_op \<Rightarrow> PointerDatagramPath \<Rightarrow> PointerDatagramPath" where
  "datagram_step env OpProbe p = snd (send_probe env p)"
| "datagram_step env (OpPointer now m) p = snd (try_send_pointer env now m p)"
| "datagram_step env (OpFlush now) p = snd (flush_pending env now p)"
| "datagram_step env OpTakeSent p = snd (take_recently_sent p)"
| "datagram_step env (OpShadow now m) p = snd (shadow_reliable env now m p)"
| "datagram_step env (OpMaintain now) p = snd (maintain_reliable env now p)"
| "datagram_step env (OpReceive now packet) p = snd (receive env now packet p)"

end
