(* ===== verification/DatagramSafety.thy ===== *)
theory DatagramSafety
  imports PointerDatagram
begin

text \<open>
  What the datagram path guarantees: a datagram is never accepted twice, no nonce is used twice,
  the tables stay bounded, ordered copies reach the peer as a prefix of what was sent whatever the
  network does, and one pointer datagram is enough to catch up after loss.  Each group of lemmas
  follows one part of the state through every operation; the collections \<open>rx_keep\<close>, \<open>path_keep\<close> and
  \<open>log_keep\<close> carry the frame conditions.
\<close>

section \<open>What the sending operations leave alone\<close>

text \<open>
  The receiving half of the state: only \<open>receive\<close> changes it, so every other operation is a
  rewrite rule of the collection \<open>rx_keep\<close>.
\<close>

lemma send_cipher_sequence [simp]: "send_cipher env (p\<lparr>dp_send_sequence := n\<rparr>) = send_cipher env p"
  by (simp add: send_cipher_def)

named_theorems rx_keep \<open>operations that leave the receiving half alone\<close>

definition rx :: "PointerDatagramPath \<Rightarrow> bytes32 \<times> WireHostId \<times> WireHostId \<times> u64 option \<times> u64
    \<times> (u64, WireMessage) btree_map \<times> (WireDeviceId, f64 \<times> f64) hash_map" where
  "rx p = (dp_session_id p, dp_local_host p, dp_remote_host p, dp_receive_sequence p,
     dp_reliable_receive_sequence p, dp_reliable_received p, dp_received_totals p)"

lemma rx_updates [rx_keep]:
  "rx (p\<lparr>dp_send_sequence := a\<rparr>) = rx p" "rx (p\<lparr>dp_ready := b\<rparr>) = rx p"
  "rx (p\<lparr>dp_sent_totals := c\<rparr>) = rx p" "rx (p\<lparr>dp_pending := d\<rparr>) = rx p"
  "rx (p\<lparr>dp_last_pointer_send := e\<rparr>) = rx p" "rx (p\<lparr>dp_recently_sent := f\<rparr>) = rx p"
  "rx (p\<lparr>dp_redundancy_budget := g\<rparr>) = rx p" "rx (p\<lparr>dp_pacing_interval := h\<rparr>) = rx p"
  "rx (p\<lparr>dp_reliable_send_sequence := i\<rparr>) = rx p" "rx (p\<lparr>dp_reliable_pending := j\<rparr>) = rx p"
  "rx (p\<lparr>dp_last_arrival := k\<rparr>) = rx p" "rx (p\<lparr>dp_last_interval_us := l\<rparr>) = rx p"
  "rx (p\<lparr>dp_socket_calls := m\<rparr>) = rx p" "rx (p\<lparr>dp_wire := n\<rparr>) = rx p" "rx (p\<lparr>dp_sealed := w\<rparr>) = rx p"
  by (simp_all add: rx_def)

lemma rx_encode_payload [rx_keep]: "rx (snd (encode_payload env payload p)) = rx p"
  by (simp add: encode_payload_def seal_def Let_def rx_keep split: option.split)

lemma rx_socket_send [rx_keep]: "rx (snd (socket_send env packet p)) = rx p"
  by (simp add: socket_send_def Let_def rx_keep)

lemma rx_send_redundant [rx_keep]: "rx (send_redundant env packet p) = rx p"
  by (simp add: send_redundant_def Let_def rx_keep)

lemma rx_after_encode: "encode_payload env payload p = (r, p') \<Longrightarrow> rx p' = rx p"
  using rx_encode_payload [of env payload p] by simp

lemma rx_after_send: "socket_send env packet p = (r, p') \<Longrightarrow> rx p' = rx p"
  using rx_socket_send [of env packet p] by simp

lemmas rx_after = rx_after_encode rx_after_send

lemma rx_flush_loop [rx_keep]: "rx (snd (flush_loop env entries sent p)) = rx p"
  by (induction env entries sent p rule: flush_loop.induct)
    (auto simp: rx_keep split: prod.split sum.split send_outcome.split dest!: rx_after)

lemma rx_flush_pending [rx_keep]: "rx (snd (flush_pending env now p)) = rx p"
  by (simp add: flush_pending_def rx_keep split_def split: sum.split)

lemma rx_send_probe [rx_keep]: "rx (snd (send_probe env p)) = rx p"
  by (auto simp: send_probe_def split: prod.split sum.split send_outcome.split dest!: rx_after)

lemma rx_try_send_pointer [rx_keep]: "rx (snd (try_send_pointer env now m p)) = rx p"
proof -
  have flush: "rx p2 = rx q" if "flush_pending env now q = (r, p2)" for q r p2
    using rx_flush_pending [of env now q] that by simp
  show ?thesis
    by (auto simp: try_send_pointer_def Let_def rx_keep
        split: WireMessage.split WireInputPayloadV1.split prod.split sum.split option.split dest!: flush)
qed

lemma rx_shadow_reliable [rx_keep]: "rx (snd (shadow_reliable env now m p)) = rx p"
  by (auto simp: shadow_reliable_def Let_def rx_keep split: prod.split sum.split option.split dest!: rx_after)

lemma rx_retransmit_loop [rx_keep]: "rx (snd (retransmit_loop env now due n p)) = rx p"
  by (induction env now due n p rule: retransmit_loop.induct)
    (auto simp: rx_keep Let_def split: prod.split sum.split option.split send_outcome.split dest!: rx_after)

lemma rx_maintain_reliable [rx_keep]: "rx (snd (maintain_reliable env now p)) = rx p"
  by (simp add: maintain_reliable_def rx_keep)

lemma rx_take_recently_sent [rx_keep]: "rx (snd (take_recently_sent p)) = rx p"
  by (simp add: take_recently_sent_def rx_keep)

lemma rx_datagram_step: "(\<forall>now packet. op \<noteq> OpReceive now packet) \<Longrightarrow> rx (datagram_step env op p) = rx p"
  by (cases op) (simp_all add: rx_keep)

section \<open>The sequence window\<close>

lemma rx_fields:
  "rx p = rx q \<Longrightarrow> dp_receive_sequence p = dp_receive_sequence q"
  "rx p = rx q \<Longrightarrow> receive_cipher env p = receive_cipher env q"
  "rx p = rx q \<Longrightarrow> dp_reliable_receive_sequence p = dp_reliable_receive_sequence q"
  "rx p = rx q \<Longrightarrow> dp_reliable_received p = dp_reliable_received q"
  "rx p = rx q \<Longrightarrow> dp_received_totals p = dp_received_totals q"
  by (simp_all add: rx_def receive_cipher_def)

lemma window_keep [rx_keep]:
  "dp_receive_sequence (snd (encode_payload env payload p)) = dp_receive_sequence p"
  "dp_receive_sequence (snd (socket_send env packet p)) = dp_receive_sequence p"
  by (simp_all add: rx_fields(1) [OF rx_encode_payload] rx_fields(1) [OF rx_socket_send])

lemma window_receive_pointer [rx_keep]:
  "dp_receive_sequence (snd (receive_pointer env a body p)) = dp_receive_sequence p"
  by (simp add: receive_pointer_def Let_def)

lemma window_accept_reliable [rx_keep]:
  "dp_receive_sequence (snd (accept_reliable s m p)) = dp_receive_sequence p"
  by (simp add: accept_reliable_def Let_def split_def)

lemma window_receive_reliable [rx_keep]:
  "dp_receive_sequence (snd (receive_reliable env a body p)) = dp_receive_sequence p"
  by (simp add: receive_reliable_def Let_def split_def rx_keep split: sum.split)

lemma window_receive_plaintext [rx_keep]:
  "dp_receive_sequence (snd (receive_plaintext env a plaintext p)) = dp_receive_sequence p"
  by (simp add: receive_plaintext_def rx_keep split: list.split)

lemma window_note_arrival [rx_keep]:
  "dp_receive_sequence (snd (note_arrival now sequence p)) = Some sequence"
  by (simp add: note_arrival_def Let_def)

definition seen :: "u64 \<Rightarrow> PointerDatagramPath \<Rightarrow> bool" where
  "seen sequence p \<longleftrightarrow> (case dp_receive_sequence p of Some newest \<Rightarrow> sequence \<le> newest | None \<Rightarrow> False)"

definition authenticated :: "datagram_env \<Rightarrow> u8 list \<Rightarrow> PointerDatagramPath \<Rightarrow> bool" where
  "authenticated env packet p \<longleftrightarrow>
     (let bytes = take MAX_DATAGRAM packet; sequence = header_sequence bytes in
      header_matches bytes
      \<and> \<not> seen sequence p
      \<and> aead_decrypt (receive_cipher env p) (nonce sequence) (drop HEADER_LEN bytes) \<noteq> None)"

lemma window_receive:
  "dp_receive_sequence (snd (receive env now packet p)) =
     (if authenticated env packet p then Some (header_sequence (take MAX_DATAGRAM packet))
      else dp_receive_sequence p)"
  by (simp add: receive_def Let_def authenticated_def seen_def [symmetric] split_def rx_keep
      split: option.split sum.split)

text \<open>The window only moves forward, whatever the path does.\<close>

lemma seen_step:
  assumes "seen sequence p"
  shows "seen sequence (datagram_step env op p)"
proof (cases "\<exists>now packet. op = OpReceive now packet")
  case True
  then show ?thesis
    using assms by (auto simp: seen_def window_receive authenticated_def Let_def split: option.splits)
next
  case False
  then have "dp_receive_sequence (datagram_step env op p) = dp_receive_sequence p"
    using rx_datagram_step rx_fields(1) by blast
  then show ?thesis using assms by (simp add: seen_def)
qed

lemma seen_run: "seen sequence p \<Longrightarrow> seen sequence (fold (datagram_step env) ops p)"
  by (induction ops arbitrary: p) (simp_all add: seen_step)

lemma receive_seen:
  "seen (header_sequence (take MAX_DATAGRAM packet)) p \<Longrightarrow>
   receive env now packet p = (Inr DatagramReceive_default, p)"
  by (auto simp: receive_def Let_def seen_def split: option.splits)

text \<open>
  C22: Replay protection: once a datagram was authenticated, delivering it again at any later time,
  after any other operations of the path, changes nothing and reports nothing.
\<close>

theorem datagram_replay_ignored:
  assumes "authenticated env packet p"
  shows "let p' = fold (datagram_step env) ops (snd (receive env now packet p))
         in receive env later packet p' = (Inr DatagramReceive_default, p')"
proof -
  have "seen (header_sequence (take MAX_DATAGRAM packet)) (snd (receive env now packet p))"
    using assms by (simp add: seen_def window_receive)
  then show ?thesis
    unfolding Let_def by (intro receive_seen seen_run)
qed

section \<open>Nonces\<close>

text \<open>The nonces given to the send cipher are those of 0, 1, 2, and so on, each used once.\<close>

definition sealed_ok :: "PointerDatagramPath \<Rightarrow> bool" where
  "sealed_ok p \<longleftrightarrow> map fst (dp_sealed p) = map (\<lambda>n. nonce (of_nat n)) [0..<unat (dp_send_sequence p)]"

lemma sealed_encode_payload:
  assumes "sealed_ok p"
  shows "sealed_ok (snd (encode_payload env payload p))"
  using assms
  by (auto simp: encode_payload_def seal_def Let_def sealed_ok_def rust_arith split: option.split)

lemma sealed_socket_send [simp]: "sealed_ok (snd (socket_send env packet p)) = sealed_ok p"
  by (simp add: socket_send_def Let_def sealed_ok_def)

lemma sealed_send_redundant [simp]: "sealed_ok (send_redundant env packet p) = sealed_ok p"
  by (simp add: send_redundant_def Let_def sealed_ok_def socket_send_def)

lemma sealed_updates [simp]:
  "sealed_ok (p\<lparr>dp_pending := a\<rparr>) = sealed_ok p" "sealed_ok (p\<lparr>dp_ready := b\<rparr>) = sealed_ok p"
  "sealed_ok (p\<lparr>dp_sent_totals := c\<rparr>) = sealed_ok p" "sealed_ok (p\<lparr>dp_last_pointer_send := d\<rparr>) = sealed_ok p"
  "sealed_ok (p\<lparr>dp_recently_sent := e\<rparr>) = sealed_ok p" "sealed_ok (p\<lparr>dp_redundancy_budget := f\<rparr>) = sealed_ok p"
  "sealed_ok (p\<lparr>dp_pacing_interval := g\<rparr>) = sealed_ok p"
  "sealed_ok (p\<lparr>dp_reliable_send_sequence := h\<rparr>) = sealed_ok p"
  "sealed_ok (p\<lparr>dp_reliable_pending := i\<rparr>) = sealed_ok p" "sealed_ok (p\<lparr>dp_last_arrival := j\<rparr>) = sealed_ok p"
  "sealed_ok (p\<lparr>dp_last_interval_us := k\<rparr>) = sealed_ok p" "sealed_ok (p\<lparr>dp_receive_sequence := l\<rparr>) = sealed_ok p"
  "sealed_ok (p\<lparr>dp_reliable_receive_sequence := m\<rparr>) = sealed_ok p"
  "sealed_ok (p\<lparr>dp_reliable_received := n\<rparr>) = sealed_ok p" "sealed_ok (p\<lparr>dp_received_totals := w\<rparr>) = sealed_ok p"
  by (simp_all add: sealed_ok_def)

section \<open>The invariant of the path\<close>

definition shuffle_ok :: "datagram_env \<Rightarrow> bool" where
  "shuffle_ok env \<longleftrightarrow> (\<forall>entries. set (de_shuffle env entries) = set entries \<and> length (de_shuffle env entries) = length entries)"

text \<open>
  The bounded tables: distinct keys, the capacities of the source, motion pending only for tracked
  devices, and every waiting copy sent at least once and at most four times under a sequence that
  was handed out.
\<close>

definition tables_ok :: "PointerDatagramPath \<Rightarrow> bool" where
  "tables_ok p \<longleftrightarrow>
     distinct_keys (dp_sent_totals p) \<and> length (dp_sent_totals p) \<le> MAX_TRACKED_DEVICES
     \<and> distinct_keys (dp_pending p) \<and> fst ` set (dp_pending p) \<subseteq> fst ` set (dp_sent_totals p)
     \<and> distinct_keys (dp_received_totals p) \<and> length (dp_received_totals p) \<le> MAX_TRACKED_DEVICES
     \<and> sorted_map (dp_reliable_received p) \<and> length (dp_reliable_received p) \<le> MAX_RELIABLE_PENDING"

definition reliable_ok :: "PointerDatagramPath \<Rightarrow> bool" where
  "reliable_ok p \<longleftrightarrow> sorted_map (dp_reliable_pending p)
     \<and> length (dp_reliable_pending p) \<le> MAX_RELIABLE_PENDING
     \<and> (\<forall>(sequence, pending) \<in> set (dp_reliable_pending p).
          sequence < dp_reliable_send_sequence p \<and> 1 \<le> pr_attempts pending
          \<and> pr_attempts pending \<le> MAX_RELIABLE_ATTEMPTS)"

definition path_inv :: "PointerDatagramPath \<Rightarrow> bool" where
  "path_inv p \<longleftrightarrow> sealed_ok p \<and> tables_ok p \<and> reliable_ok p"

named_theorems path_keep \<open>what keeps the invariant of the path\<close>

lemma tables_updates [path_keep]:
  "tables_ok (p\<lparr>dp_send_sequence := a\<rparr>) = tables_ok p" "tables_ok (p\<lparr>dp_ready := b\<rparr>) = tables_ok p"
  "tables_ok (p\<lparr>dp_last_pointer_send := d\<rparr>) = tables_ok p" "tables_ok (p\<lparr>dp_recently_sent := e\<rparr>) = tables_ok p"
  "tables_ok (p\<lparr>dp_redundancy_budget := f\<rparr>) = tables_ok p" "tables_ok (p\<lparr>dp_pacing_interval := g\<rparr>) = tables_ok p"
  "tables_ok (p\<lparr>dp_reliable_send_sequence := h\<rparr>) = tables_ok p"
  "tables_ok (p\<lparr>dp_reliable_pending := i\<rparr>) = tables_ok p" "tables_ok (p\<lparr>dp_last_arrival := j\<rparr>) = tables_ok p"
  "tables_ok (p\<lparr>dp_last_interval_us := k\<rparr>) = tables_ok p" "tables_ok (p\<lparr>dp_receive_sequence := l\<rparr>) = tables_ok p"
  "tables_ok (p\<lparr>dp_reliable_receive_sequence := m\<rparr>) = tables_ok p" "tables_ok (p\<lparr>dp_sealed := n\<rparr>) = tables_ok p"
  "tables_ok (p\<lparr>dp_socket_calls := u\<rparr>) = tables_ok p" "tables_ok (p\<lparr>dp_wire := w\<rparr>) = tables_ok p"
  by (simp_all add: tables_ok_def)

lemma reliable_updates [path_keep]:
  "reliable_ok (p\<lparr>dp_send_sequence := a\<rparr>) = reliable_ok p" "reliable_ok (p\<lparr>dp_ready := b\<rparr>) = reliable_ok p"
  "reliable_ok (p\<lparr>dp_last_pointer_send := d\<rparr>) = reliable_ok p" "reliable_ok (p\<lparr>dp_recently_sent := e\<rparr>) = reliable_ok p"
  "reliable_ok (p\<lparr>dp_redundancy_budget := f\<rparr>) = reliable_ok p" "reliable_ok (p\<lparr>dp_pacing_interval := g\<rparr>) = reliable_ok p"
  "reliable_ok (p\<lparr>dp_pending := h\<rparr>) = reliable_ok p" "reliable_ok (p\<lparr>dp_sent_totals := i\<rparr>) = reliable_ok p"
  "reliable_ok (p\<lparr>dp_last_arrival := j\<rparr>) = reliable_ok p" "reliable_ok (p\<lparr>dp_last_interval_us := k\<rparr>) = reliable_ok p"
  "reliable_ok (p\<lparr>dp_receive_sequence := l\<rparr>) = reliable_ok p" "reliable_ok (p\<lparr>dp_sealed := n\<rparr>) = reliable_ok p"
  "reliable_ok (p\<lparr>dp_reliable_receive_sequence := m\<rparr>) = reliable_ok p"
  "reliable_ok (p\<lparr>dp_reliable_received := q\<rparr>) = reliable_ok p" "reliable_ok (p\<lparr>dp_received_totals := r\<rparr>) = reliable_ok p"
  "reliable_ok (p\<lparr>dp_socket_calls := u\<rparr>) = reliable_ok p" "reliable_ok (p\<lparr>dp_wire := w\<rparr>) = reliable_ok p"
  by (simp_all add: reliable_ok_def)

lemma path_inv_updates [path_keep]:
  "path_inv (p\<lparr>dp_ready := b\<rparr>) = path_inv p"
  "path_inv (p\<lparr>dp_last_pointer_send := d\<rparr>) = path_inv p" "path_inv (p\<lparr>dp_recently_sent := e\<rparr>) = path_inv p"
  "path_inv (p\<lparr>dp_redundancy_budget := f\<rparr>) = path_inv p" "path_inv (p\<lparr>dp_pacing_interval := g\<rparr>) = path_inv p"
  "path_inv (p\<lparr>dp_last_arrival := j\<rparr>) = path_inv p" "path_inv (p\<lparr>dp_last_interval_us := k\<rparr>) = path_inv p"
  "path_inv (p\<lparr>dp_receive_sequence := l\<rparr>) = path_inv p"
  "path_inv (p\<lparr>dp_reliable_receive_sequence := m\<rparr>) = path_inv p"
  by (simp_all add: path_inv_def path_keep)

lemma path_inv_encode [path_keep]: "path_inv p \<Longrightarrow> path_inv (snd (encode_payload env payload p))"
  using sealed_encode_payload [of p env payload]
  by (simp add: path_inv_def encode_payload_def seal_def Let_def path_keep split: option.splits)

lemma path_inv_socket_send [path_keep]: "path_inv (snd (socket_send env packet p)) = path_inv p"
  by (simp add: path_inv_def socket_send_def Let_def path_keep sealed_ok_def)

lemma path_inv_send_redundant [path_keep]: "path_inv (send_redundant env packet p) = path_inv p"
  by (simp add: send_redundant_def Let_def path_keep)

text \<open>Encoding and sending leave every table alone.\<close>

lemma encode_fields [simp]:
  "dp_pending (snd (encode_payload env payload p)) = dp_pending p"
  "dp_sent_totals (snd (encode_payload env payload p)) = dp_sent_totals p"
  "dp_reliable_pending (snd (encode_payload env payload p)) = dp_reliable_pending p"
  "dp_reliable_send_sequence (snd (encode_payload env payload p)) = dp_reliable_send_sequence p"
  by (simp_all add: encode_payload_def seal_def Let_def split: option.split)

lemma socket_fields [simp]:
  "dp_pending (snd (socket_send env packet p)) = dp_pending p"
  "dp_sent_totals (snd (socket_send env packet p)) = dp_sent_totals p"
  "dp_reliable_pending (snd (socket_send env packet p)) = dp_reliable_pending p"
  "dp_reliable_send_sequence (snd (socket_send env packet p)) = dp_reliable_send_sequence p"
  "dp_sealed (snd (socket_send env packet p)) = dp_sealed p"
  by (simp_all add: socket_send_def Let_def)

lemma redundant_fields [simp]:
  "dp_pending (send_redundant env packet p) = dp_pending p"
  "dp_sent_totals (send_redundant env packet p) = dp_sent_totals p"
  "dp_reliable_pending (send_redundant env packet p) = dp_reliable_pending p"
  "dp_reliable_send_sequence (send_redundant env packet p) = dp_reliable_send_sequence p"
  "dp_sealed (send_redundant env packet p) = dp_sealed p"
  by (simp_all add: send_redundant_def Let_def)

lemma path_inv_pending:
  assumes "path_inv p" "distinct_keys pending" "fst ` set pending \<subseteq> fst ` set (dp_sent_totals p)"
  shows "path_inv (p\<lparr>dp_pending := pending\<rparr>)"
  using assms by (simp add: path_inv_def path_keep tables_ok_def)

lemma path_inv_repend:
  assumes "path_inv p" "device \<in> fst ` set (dp_sent_totals p)"
  shows "path_inv (p\<lparr>dp_pending := AList.update device pointer (dp_pending p)\<rparr>)"
  using assms by (intro path_inv_pending) (auto simp: path_inv_def tables_ok_def hmap)

lemma path_inv_send_probe [path_keep]: "path_inv p \<Longrightarrow> path_inv (snd (send_probe env p))"
  by (simp add: send_probe_def split_def path_keep split: sum.split send_outcome.split)

lemma path_inv_flush_loop:
  "path_inv p \<Longrightarrow> fst ` set entries \<subseteq> fst ` set (dp_sent_totals p) \<Longrightarrow>
   path_inv (snd (flush_loop env entries sent p))"
proof (induction env entries sent p rule: flush_loop.induct)
  case (2 env device pointer rest sent p)
  show ?case
  proof (cases "fst (encode_payload env (pointer_payload device pointer) p)")
    case (Inl e)
    then show ?thesis using 2 by (simp add: split_def path_keep)
  next
    case (Inr packet)
    define p1 where "p1 = snd (encode_payload env (pointer_payload device pointer) p)"
    define p2 where "p2 = snd (socket_send env packet p1)"
    have enc: "encode_payload env (pointer_payload device pointer) p = (Inr packet, p1)"
      using Inr by (simp add: p1_def prod_eq_iff)
    have p1: "path_inv p1" "dp_sent_totals p1 = dp_sent_totals p"
      using 2 by (simp_all add: p1_def path_keep)
    have p2: "path_inv p2" "dp_sent_totals p2 = dp_sent_totals p"
      using p1 by (simp_all add: p2_def path_keep)
    have send: "socket_send env packet p1 = (fst (socket_send env packet p1), p2)"
      by (simp add: p2_def)
    show ?thesis
    proof (cases "fst (socket_send env packet p1)")
      case (Written n)
      then show ?thesis
        using 2 p2 enc send by (simp add: path_keep)
    next
      case WouldBlock
      then show ?thesis
        using 2 p2 enc send path_inv_repend [OF p2(1), of device pointer] by simp
    next
      case SendFailed
      then show ?thesis using p2 enc send by simp
    qed
  qed
qed simp

lemma path_inv_flush_pending:
  assumes "shuffle_ok env" "path_inv p"
  shows "path_inv (snd (flush_pending env now p))"
proof -
  have "path_inv (p\<lparr>dp_pending := []\<rparr>)"
    using assms(2) by (intro path_inv_pending) simp_all
  moreover have "fst ` set (de_shuffle env (dp_pending p)) \<subseteq> fst ` set (dp_sent_totals p)"
    using assms by (auto simp: shuffle_ok_def path_inv_def tables_ok_def)
  ultimately have "path_inv (snd (flush_loop env (de_shuffle env (dp_pending p)) 0 (p\<lparr>dp_pending := []\<rparr>)))"
    by (intro path_inv_flush_loop) simp_all
  then show ?thesis
    using assms(2) by (simp add: flush_pending_def split_def path_keep split: sum.split)
qed

lemma path_inv_track:
  assumes "path_inv p" "contains_key (dp_sent_totals p) device \<or> length (dp_sent_totals p) < MAX_TRACKED_DEVICES"
  shows "path_inv (p\<lparr>dp_sent_totals := AList.update device totals (dp_sent_totals p),
                    dp_pending := AList.update device pointer (dp_pending p)\<rparr>)"
proof -
  have "fst ` set (dp_pending p) \<subseteq> insert device (fst ` set (dp_sent_totals p))"
    using assms(1) by (auto simp: path_inv_def tables_ok_def)
  then show ?thesis
    using assms by (auto simp: path_inv_def path_keep tables_ok_def sealed_ok_def hmap)
qed

lemma path_inv_try_send_pointer:
  assumes "shuffle_ok env" "path_inv p"
  shows "path_inv (snd (try_send_pointer env now message p))"
proof (cases message)
  case (Input input)
  show ?thesis
  proof (cases "input_payload input")
    case (WirePointerMove dx dy)
    then show ?thesis
      using assms Input path_inv_flush_pending [OF assms(1) path_inv_track [OF assms(2)]]
        path_inv_track [OF assms(2)]
      by (auto simp: try_send_pointer_def Let_def split_def not_le split: sum.split)
  qed (use assms Input in \<open>simp_all add: try_send_pointer_def\<close>)
qed (use assms in \<open>simp_all add: try_send_pointer_def\<close>)

lemma reliable_insert:
  assumes "reliable_ok p" "sequence < n" "dp_reliable_send_sequence p \<le> n" "1 \<le> pr_attempts entry"
    "pr_attempts entry \<le> MAX_RELIABLE_ATTEMPTS" "length (dp_reliable_pending p) < MAX_RELIABLE_PENDING"
  shows "reliable_ok (p\<lparr>dp_reliable_send_sequence := n,
                       dp_reliable_pending := bt_insert sequence entry (dp_reliable_pending p)\<rparr>)"
  using assms by (auto simp: reliable_ok_def btree set_bt_insert)

lemma path_inv_shadow_reliable:
  assumes "path_inv p"
  shows "path_inv (snd (shadow_reliable env now message p))"
proof -
  have seq: "path_inv (p\<lparr>dp_reliable_send_sequence := n\<rparr>)"
    if "checked_add_u64 (dp_reliable_send_sequence p) 1 = Some n" for n
    using assms checked_add_u64_one_less [OF that]
    by (auto simp: path_inv_def path_keep reliable_ok_def intro: order.strict_trans)
  have insert: "path_inv (q\<lparr>dp_reliable_pending := bt_insert s e m\<rparr>)"
    if "path_inv q" "s < dp_reliable_send_sequence q" "pr_attempts e = 1"
      "length m < MAX_RELIABLE_PENDING" "m = dp_reliable_pending q" for q s e m
    using that reliable_insert [of q s "dp_reliable_send_sequence q" e]
    by (auto simp: path_inv_def path_keep MAX_RELIABLE_ATTEMPTS_def)
  show ?thesis
    using assms seq checked_add_u64_one_less
    by (auto simp: shadow_reliable_def Let_def split_def not_le path_keep
        split: sum.split option.split intro!: insert)
qed

lemma reliable_delete:
  "reliable_ok p \<Longrightarrow> reliable_ok (p\<lparr>dp_reliable_pending := AList.delete s (dp_reliable_pending p)\<rparr>)"
  using set_delete_subset [of s "dp_reliable_pending p"] length_delete_le [of s "dp_reliable_pending p"]
  by (auto simp: reliable_ok_def btree intro: le_trans)

lemma length_delete_less: "map_of m k = Some v \<Longrightarrow> length (AList.delete k m) < length m"
  using map_of_SomeD [of m k v] unfolding AList.delete_eq by (intro length_filter_less) auto

lemma path_inv_reinsert:
  assumes "path_inv p" "s < dp_reliable_send_sequence p" "1 \<le> pr_attempts e" "pr_attempts e \<le> MAX_RELIABLE_ATTEMPTS"
    "length (dp_reliable_pending p) < MAX_RELIABLE_PENDING"
  shows "path_inv (p\<lparr>dp_reliable_pending := bt_insert s e (dp_reliable_pending p)\<rparr>)"
  using assms reliable_insert [of p s "dp_reliable_send_sequence p" e] by (simp add: path_inv_def path_keep)

lemma path_inv_retransmit_loop:
  "path_inv p \<Longrightarrow> path_inv (snd (retransmit_loop env now due n p))"
proof (induction due arbitrary: n p)
  case (Cons sequence due)
  show ?case
  proof (cases "map_of (dp_reliable_pending p) sequence")
    case None
    then show ?thesis using Cons by simp
  next
    case (Some pending)
    define p0 where "p0 = p\<lparr>dp_reliable_pending := AList.delete sequence (dp_reliable_pending p)\<rparr>"
    define p1 where "p1 = snd (encode_payload env (pr_payload pending) p0)"
    have p0: "path_inv p0"
      using Cons.prems by (simp add: p0_def path_inv_def path_keep reliable_delete)
    then have p1: "path_inv p1" by (simp add: p1_def path_keep)
    have entry: "sequence < dp_reliable_send_sequence p" "1 \<le> pr_attempts pending"
      "length (AList.delete sequence (dp_reliable_pending p)) < MAX_RELIABLE_PENDING"
      using Cons.prems map_of_SomeD [OF Some] length_delete_less [OF Some]
      by (auto simp: path_inv_def reliable_ok_def)
    have keep: "path_inv (snd (socket_send env packet p1)\<lparr>dp_reliable_pending :=
        bt_insert sequence e (dp_reliable_pending (snd (socket_send env packet p1)))\<rparr>)"
      if "1 \<le> pr_attempts e" "pr_attempts e \<le> MAX_RELIABLE_ATTEMPTS" for packet e
      using p1 entry that by (intro path_inv_reinsert) (simp_all add: path_keep p1_def p0_def)
    show ?thesis
      using Some p0 p1 entry keep
      by (simp add: Let_def split_def path_keep not_le Cons.IH p0_def [symmetric] p1_def [symmetric]
          split: sum.split send_outcome.split)
  qed
qed simp

lemma path_inv_maintain_reliable [path_keep]: "path_inv p \<Longrightarrow> path_inv (snd (maintain_reliable env now p))"
  by (simp add: maintain_reliable_def path_inv_retransmit_loop)

lemma path_inv_take_recently_sent [path_keep]: "path_inv p \<Longrightarrow> path_inv (snd (take_recently_sent p))"
  by (simp add: take_recently_sent_def path_keep)


lemma length_drain: "drain_reliable s m = (messages, s', m') \<Longrightarrow> length m' \<le> length m \<and> (sorted_map m \<longrightarrow> sorted_map m')"
proof (induction s m arbitrary: messages s' m' rule: drain_reliable.induct)
  case (1 s m)
  show ?case
  proof (cases "map_of m s")
    case None
    then show ?thesis using 1 by (simp add: drain_reliable.simps)
  next
    case (Some message)
    obtain ms t n where rest: "drain_reliable (s + 1) (AList.delete s m) = (ms, t, n)"
      by (cases "drain_reliable (s + 1) (AList.delete s m)")
    then have "m' = n" using 1(2) Some by (simp add: drain_reliable.simps [of s m])
    then show ?thesis
      using 1(1) [OF Some rest] length_delete_le [of s m] by (auto simp: btree)
  qed
qed

lemma path_inv_tables:
  "path_inv p \<Longrightarrow> tables_ok q \<Longrightarrow> sealed_ok q \<Longrightarrow> reliable_ok q \<Longrightarrow> path_inv q"
  by (simp add: path_inv_def)

lemma path_inv_accept_reliable:
  assumes "path_inv p"
  shows "path_inv (snd (accept_reliable s m p))"
proof -
  define received where "received = (if dp_reliable_receive_sequence p \<le> s
     \<and> length (dp_reliable_received p) < MAX_RELIABLE_PENDING \<and> map_of (dp_reliable_received p) s = None
     then bt_insert s m (dp_reliable_received p) else dp_reliable_received p)"
  obtain messages s' m' where drain: "drain_reliable (dp_reliable_receive_sequence p) received = (messages, s', m')"
    by (cases "drain_reliable (dp_reliable_receive_sequence p) received")
  have "sorted_map received \<and> length received \<le> MAX_RELIABLE_PENDING"
    using assms by (auto simp: received_def path_inv_def tables_ok_def btree)
  then have "sorted_map m' \<and> length m' \<le> MAX_RELIABLE_PENDING"
    using length_drain [OF drain] by auto
  then show ?thesis
    using assms drain
    by (auto simp: accept_reliable_def Let_def received_def [symmetric] path_inv_def tables_ok_def path_keep sealed_ok_def)
qed

lemma path_inv_receive_pointer:
  assumes "path_inv p"
  shows "path_inv (snd (receive_pointer env a body p))"
  using assms by (auto simp: receive_pointer_def Let_def path_inv_def path_keep tables_ok_def sealed_ok_def hmap not_le)

lemma path_inv_receive_reliable:
  assumes "path_inv p"
  shows "path_inv (snd (receive_reliable env a body p))"
  using assms by (simp add: receive_reliable_def Let_def split_def path_keep path_inv_accept_reliable split: sum.split)

lemma path_inv_acknowledge:
  assumes "path_inv p"
  shows "path_inv (p\<lparr>dp_reliable_pending := filter P (dp_reliable_pending p)\<rparr>)"
  using assms by (auto simp: path_inv_def path_keep reliable_ok_def btree intro: le_trans [OF length_filter_le])

lemma path_inv_receive_plaintext:
  assumes "path_inv p"
  shows "path_inv (snd (receive_plaintext env a plaintext p))"
  using assms
  by (simp add: receive_plaintext_def path_keep path_inv_receive_pointer path_inv_receive_reliable
      path_inv_acknowledge split: list.split)

lemma path_inv_note_arrival [path_keep]: "path_inv p \<Longrightarrow> path_inv (snd (note_arrival now s p))"
  by (simp add: note_arrival_def Let_def path_keep)

lemma path_inv_receive:
  assumes "path_inv p"
  shows "path_inv (snd (receive env now packet p))"
  using assms
  by (simp add: receive_def Let_def split_def path_keep path_inv_receive_plaintext split: option.split sum.split)

lemma path_inv_step:
  assumes "shuffle_ok env" "path_inv p"
  shows "path_inv (datagram_step env op p)"
  using assms
  by (cases op) (simp_all add: path_keep path_inv_flush_pending path_inv_try_send_pointer
      path_inv_shadow_reliable path_inv_receive)

lemma path_inv_bind: "path_inv (PointerDatagramPath_bind session own peer)"
  by (simp add: path_inv_def tables_ok_def reliable_ok_def sealed_ok_def PointerDatagramPath_bind_def)

lemma path_inv_run:
  "shuffle_ok env \<Longrightarrow> path_inv p \<Longrightarrow> path_inv (fold (datagram_step env) ops p)"
  by (induction ops arbitrary: p) (simp_all add: path_inv_step)

lemma nonce_inj: "nonce a = nonce b \<Longrightarrow> a = b"
  using be_bytes_inj [of "unat a" 8 "unat b"] unat_less_2p [of a] unat_less_2p [of b]
  by (simp add: nonce_def word_unat_eq_iff)

lemma sealed_distinct:
  assumes "sealed_ok p"
  shows "distinct (map fst (dp_sealed p))"
proof -
  have small: "unat (of_nat n :: u64) = n" if "n < 2 ^ 64" for n
    using that unfolding unat_of_nat by simp
  have "inj_on (\<lambda>n. nonce (of_nat n)) {0..<unat (dp_send_sequence p)}"
  proof (rule inj_onI)
    fix a b assume ab: "a \<in> {0..<unat (dp_send_sequence p)}" "b \<in> {0..<unat (dp_send_sequence p)}"
      and "nonce (of_nat a) = nonce (of_nat b)"
    hence eq: "(of_nat a :: u64) = of_nat b" using nonce_inj by blast
    have "unat (dp_send_sequence p) < 2 ^ 64" using unat_less_2p [of "dp_send_sequence p"] by simp
    hence "a < 2 ^ 64" "b < 2 ^ 64" using ab by (auto intro: less_trans)
    thus "a = b" using small eq by metis
  qed
  thus ?thesis using assms by (simp add: sealed_ok_def distinct_map)
qed

section \<open>What is on the wire\<close>

text \<open>A packet is sealed when it carries what the send cipher returned for a noted call, under that call's sequence.\<close>

definition sealed_packet :: "datagram_env \<Rightarrow> PointerDatagramPath \<Rightarrow> u8 list \<Rightarrow> bool" where
  "sealed_packet env p packet \<longleftrightarrow>
     (\<exists>sequence payload ciphertext. (nonce sequence, payload) \<in> set (dp_sealed p)
        \<and> aead_encrypt (send_cipher env p) (nonce sequence) payload = Some ciphertext
        \<and> packet = datagram sequence ciphertext)"

definition wire_ok :: "datagram_env \<Rightarrow> PointerDatagramPath \<Rightarrow> bool" where
  "wire_ok env p \<longleftrightarrow> list_all (sealed_packet env p) (dp_wire p)"

named_theorems wire_keep \<open>what keeps every packet on the wire sealed\<close>

lemma wire_updates [wire_keep]:
  "wire_ok env (p\<lparr>dp_pending := a\<rparr>) = wire_ok env p" "wire_ok env (p\<lparr>dp_ready := b\<rparr>) = wire_ok env p"
  "wire_ok env (p\<lparr>dp_sent_totals := c\<rparr>) = wire_ok env p" "wire_ok env (p\<lparr>dp_last_pointer_send := d\<rparr>) = wire_ok env p"
  "wire_ok env (p\<lparr>dp_recently_sent := e\<rparr>) = wire_ok env p" "wire_ok env (p\<lparr>dp_redundancy_budget := f\<rparr>) = wire_ok env p"
  "wire_ok env (p\<lparr>dp_pacing_interval := g\<rparr>) = wire_ok env p"
  "wire_ok env (p\<lparr>dp_reliable_send_sequence := h\<rparr>) = wire_ok env p"
  "wire_ok env (p\<lparr>dp_reliable_pending := i\<rparr>) = wire_ok env p" "wire_ok env (p\<lparr>dp_last_arrival := j\<rparr>) = wire_ok env p"
  "wire_ok env (p\<lparr>dp_last_interval_us := k\<rparr>) = wire_ok env p" "wire_ok env (p\<lparr>dp_receive_sequence := l\<rparr>) = wire_ok env p"
  "wire_ok env (p\<lparr>dp_reliable_receive_sequence := m\<rparr>) = wire_ok env p"
  "wire_ok env (p\<lparr>dp_reliable_received := n\<rparr>) = wire_ok env p" "wire_ok env (p\<lparr>dp_received_totals := w\<rparr>) = wire_ok env p"
  by (simp_all add: wire_ok_def sealed_packet_def [abs_def] send_cipher_def)

lemma sealed_packet_mono:
  "sealed_packet env p packet \<Longrightarrow> set (dp_sealed p) \<subseteq> set (dp_sealed q) \<Longrightarrow> send_cipher env q = send_cipher env p
   \<Longrightarrow> sealed_packet env q packet"
  unfolding sealed_packet_def by auto

lemma wire_encode [wire_keep]:
  assumes "wire_ok env p"
  shows "wire_ok env (snd (encode_payload env payload p))"
proof -
  let ?q = "snd (encode_payload env payload p)"
  have "set (dp_sealed p) \<subseteq> set (dp_sealed ?q)" "send_cipher env ?q = send_cipher env p" "dp_wire ?q = dp_wire p"
    by (auto simp: encode_payload_def seal_def Let_def send_cipher_def split: option.splits)
  thus ?thesis
    using assms sealed_packet_mono [of env p _ ?q] by (auto simp: wire_ok_def list_all_iff)
qed

lemma encode_sealed:
  assumes "fst (encode_payload env payload p) = Inr packet"
  shows "sealed_packet env (snd (encode_payload env payload p)) packet"
  using assms
  by (auto simp: encode_payload_def seal_def Let_def sealed_packet_def send_cipher_def split: option.splits if_splits)

lemma wire_send [wire_keep]:
  assumes "wire_ok env p" and "sealed_packet env p packet"
  shows "wire_ok env (snd (socket_send env packet p))" and "sealed_packet env (snd (socket_send env packet p)) packet"
  using assms by (auto simp: socket_send_def Let_def wire_ok_def sealed_packet_def [abs_def] send_cipher_def)

lemma wire_send_redundant [wire_keep]:
  assumes "wire_ok env p" and "sealed_packet env p packet"
  shows "wire_ok env (send_redundant env packet p)"
  using assms by (simp add: send_redundant_def Let_def wire_keep)

lemma wire_send_encoded [wire_keep]:
  assumes "wire_ok env p" and "fst (encode_payload env payload p) = Inr packet"
  shows "wire_ok env (snd (socket_send env packet (snd (encode_payload env payload p))))"
    and "sealed_packet env (snd (socket_send env packet (snd (encode_payload env payload p)))) packet"
  using assms encode_sealed by (simp_all add: wire_keep)

lemma wire_send_probe [wire_keep]: "wire_ok env p \<Longrightarrow> wire_ok env (snd (send_probe env p))"
  by (simp add: send_probe_def split_def wire_keep split: sum.split send_outcome.split)

lemma wire_flush_loop: "wire_ok env p \<Longrightarrow> wire_ok env (snd (flush_loop env entries sent p))"
proof (induction entries arbitrary: sent p)
  case (Cons entry entries)
  obtain device pointer where "entry = (device, pointer)" by (cases entry)
  thus ?case using Cons by (simp add: split_def wire_keep split: sum.split send_outcome.split)
qed simp

lemma wire_flush_pending [wire_keep]: "wire_ok env p \<Longrightarrow> wire_ok env (snd (flush_pending env now p))"
  by (simp add: flush_pending_def split_def wire_keep wire_flush_loop split: sum.split)

lemma wire_try_send_pointer [wire_keep]: "wire_ok env p \<Longrightarrow> wire_ok env (snd (try_send_pointer env now message p))"
  by (simp add: try_send_pointer_def Let_def split_def wire_keep
      split: sum.split WireMessage.split WireInputPayloadV1.split)

lemma wire_shadow_reliable [wire_keep]: "wire_ok env p \<Longrightarrow> wire_ok env (snd (shadow_reliable env now message p))"
  by (simp add: shadow_reliable_def Let_def split_def wire_keep split: sum.split option.split)

lemma wire_retransmit_loop: "wire_ok env p \<Longrightarrow> wire_ok env (snd (retransmit_loop env now due n p))"
  by (induction due arbitrary: n p)
    (simp_all add: Let_def split_def wire_keep split: sum.split option.split send_outcome.split)

lemma wire_accept_reliable [wire_keep]: "wire_ok env p \<Longrightarrow> wire_ok env (snd (accept_reliable s m p))"
  by (simp add: accept_reliable_def Let_def split_def wire_keep)

lemma wire_receive_reliable [wire_keep]: "wire_ok env p \<Longrightarrow> wire_ok env (snd (receive_reliable env a body p))"
  by (simp add: receive_reliable_def Let_def split_def wire_keep split: sum.split)

lemma wire_receive_plaintext [wire_keep]: "wire_ok env p \<Longrightarrow> wire_ok env (snd (receive_plaintext env a plaintext p))"
  by (simp add: receive_plaintext_def receive_pointer_def Let_def wire_keep split: list.split)

lemma wire_receive [wire_keep]: "wire_ok env p \<Longrightarrow> wire_ok env (snd (receive env now packet p))"
  by (simp add: receive_def note_arrival_def Let_def split_def wire_keep split: option.split sum.split)

lemma wire_step: "wire_ok env p \<Longrightarrow> wire_ok env (datagram_step env op p)"
  by (cases op) (simp_all add: wire_keep maintain_reliable_def wire_retransmit_loop take_recently_sent_def)

lemma wire_run: "wire_ok env p \<Longrightarrow> wire_ok env (fold (datagram_step env) ops p)"
  by (induction ops arbitrary: p) (simp_all add: wire_step)

text \<open>
  C23: No nonce is used twice: whatever a path sends, retransmits, acknowledges or is fed, the nonces
  its send cipher was called with are pairwise different, every packet that the socket took is the
  result of one of those calls, under the sequence its header states, and the tables of the path
  stay within their bounds.
\<close>

theorem datagram_nonces_fresh:
  assumes "shuffle_ok env"
  shows "let p = fold (datagram_step env) ops (PointerDatagramPath_bind session own peer)
         in distinct (map fst (dp_sealed p)) \<and> wire_ok env p \<and> tables_ok p \<and> reliable_ok p"
proof -
  define p where "p = fold (datagram_step env) ops (PointerDatagramPath_bind session own peer)"
  have "path_inv p" unfolding p_def using assms path_inv_bind by (rule path_inv_run)
  moreover have "wire_ok env p"
    unfolding p_def by (rule wire_run) (simp add: wire_ok_def PointerDatagramPath_bind_def)
  ultimately show ?thesis
    using sealed_distinct by (simp add: Let_def path_inv_def p_def)
qed

section \<open>Ordered copies: the receiver\<close>

text \<open>
  What the receiver reports over a run of datagrams; the caller abandons the path at the first
  error, so the run ends there.
\<close>

fun deliveries :: "datagram_env \<Rightarrow> (nat \<times> u8 list) list \<Rightarrow> PointerDatagramPath \<Rightarrow> WireMessage list" where
  "deliveries env [] p = []"
| "deliveries env ((now, packet) # rest) p =
     (case receive env now packet p of
        (Inl e, p') \<Rightarrow> []
      | (Inr r, p') \<Rightarrow> dr_reliable_messages r @ deliveries env rest p')"

definition plaintext_of :: "datagram_env \<Rightarrow> bytes32 \<Rightarrow> WireHostId \<Rightarrow> u8 list \<Rightarrow> u8 list option" where
  "plaintext_of env session sender packet =
     (let bytes = take MAX_DATAGRAM packet
      in aead_decrypt (cipher env session sender) (nonce (header_sequence bytes)) (drop HEADER_LEN bytes))"

text \<open>Every ordered copy in a plaintext is the sender's message of that number.\<close>

definition copy_of :: "datagram_env \<Rightarrow> WireMessage list \<Rightarrow> u8 list \<Rightarrow> bool" where
  "copy_of env sent plaintext \<longleftrightarrow>
     (\<forall>body message. plaintext = KIND_RELIABLE # body \<longrightarrow> 8 < length body \<longrightarrow>
        decode_frame_for_version (de_postcard env) (drop 8 body) POINTER_DATAGRAM_PROTOCOL_VERSION = Inr message
        \<longrightarrow> be_value (take 8 body) < length sent \<and> message = sent ! be_value (take 8 body))"

definition buffered_ok :: "WireMessage list \<Rightarrow> (u64, WireMessage) btree_map \<Rightarrow> bool" where
  "buffered_ok sent received \<longleftrightarrow>
     (\<forall>(s, m) \<in> set received. unat s < length sent \<and> m = sent ! unat s)"

lemma unat_Suc_u64: "unat (s :: u64) < 2 ^ 64 - 1 \<Longrightarrow> unat (s + 1) = Suc (unat s)"
  by (simp add: unat_word_ariths)

lemma drain_reliable_in_order:
  assumes "buffered_ok sent received" "drain_reliable s received = (messages, s', received')" "length sent < 2 ^ 64"
  shows "unat s \<le> unat s' \<and> (unat s' \<le> unat s \<or> unat s' \<le> length sent)
    \<and> messages = map (nth sent) [unat s..<unat s'] \<and> set received' \<subseteq> set received"
  using assms
proof (induction s received arbitrary: messages s' received' rule: drain_reliable.induct)
  case (1 s received)
  show ?case
  proof (cases "map_of received s")
    case None
    then show ?thesis using 1(3) by (simp add: drain_reliable.simps)
  next
    case (Some message)
    obtain ms t r where rest: "drain_reliable (s + 1) (AList.delete s received) = (ms, t, r)"
      by (cases "drain_reliable (s + 1) (AList.delete s received)")
    have entry: "unat s < length sent" "message = sent ! unat s"
      using map_of_SomeD [OF Some] 1(2) by (auto simp: buffered_ok_def)
    have "buffered_ok sent (AList.delete s received)"
      using 1(2) set_delete_subset [of s received] by (auto simp: buffered_ok_def)
    then have IH: "unat (s + 1) \<le> unat t" "unat t \<le> unat (s + 1) \<or> unat t \<le> length sent"
      "ms = map (nth sent) [unat (s + 1)..<unat t]" "set r \<subseteq> set (AList.delete s received)"
      using 1(1) [OF Some _ rest] 1(4) by auto
    have eqs: "messages = message # ms" "s' = t" "received' = r"
      using 1(3) Some rest by (simp_all add: drain_reliable.simps [of s received])
    have next_s: "unat (s + 1) = Suc (unat s)" using entry(1) 1(4) by (intro unat_Suc_u64) simp
    then have "Suc (unat s) \<le> unat t" using IH(1) by simp
    then show ?thesis
      using IH entry next_s set_delete_subset [of s received]
      by (auto simp: eqs upt_rec [of "unat s"])
  qed
qed

lemma accept_reliable_in_order:
  assumes "buffered_ok sent (dp_reliable_received p)" "unat s < length sent" "m = sent ! unat s"
    "sorted_map (dp_reliable_received p)" "length sent < 2 ^ 64"
    and "accept_reliable s m p = (messages, p')"
  shows "buffered_ok sent (dp_reliable_received p')
    \<and> unat (dp_reliable_receive_sequence p) \<le> unat (dp_reliable_receive_sequence p')
    \<and> (unat (dp_reliable_receive_sequence p') \<le> unat (dp_reliable_receive_sequence p)
        \<or> unat (dp_reliable_receive_sequence p') \<le> length sent)
    \<and> messages = map (nth sent) [unat (dp_reliable_receive_sequence p)..<unat (dp_reliable_receive_sequence p')]"
proof -
  define received where "received = (if dp_reliable_receive_sequence p \<le> s
     \<and> length (dp_reliable_received p) < MAX_RELIABLE_PENDING \<and> map_of (dp_reliable_received p) s = None
     then bt_insert s m (dp_reliable_received p) else dp_reliable_received p)"
  obtain ms s' r where drain: "drain_reliable (dp_reliable_receive_sequence p) received = (ms, s', r)"
    by (cases "drain_reliable (dp_reliable_receive_sequence p) received")
  have ok: "buffered_ok sent received"
    using assms(1-4) by (auto simp: received_def buffered_ok_def set_bt_insert)
  have "messages = ms" "p' = p\<lparr>dp_reliable_receive_sequence := s', dp_reliable_received := r\<rparr>"
    using assms(6) drain by (auto simp: accept_reliable_def Let_def received_def [symmetric])
  then show ?thesis
    using drain_reliable_in_order [OF ok drain assms(5)] ok by (auto simp: buffered_ok_def)
qed

text \<open>
  The progress of the ordered copies over one datagram, as a relation between the reported
  messages and the two halves of the state.
\<close>

definition rel_progress ::
  "WireMessage list \<Rightarrow> WireMessage list \<Rightarrow> PointerDatagramPath \<Rightarrow> PointerDatagramPath \<Rightarrow> bool" where
  "rel_progress sent messages p p' \<longleftrightarrow>
     buffered_ok sent (dp_reliable_received p')
     \<and> unat (dp_reliable_receive_sequence p) \<le> unat (dp_reliable_receive_sequence p')
     \<and> (unat (dp_reliable_receive_sequence p') \<le> unat (dp_reliable_receive_sequence p)
         \<or> unat (dp_reliable_receive_sequence p') \<le> length sent)
     \<and> messages = map (nth sent) [unat (dp_reliable_receive_sequence p)..<unat (dp_reliable_receive_sequence p')]"

lemma rel_fields_encode [simp]:
  "dp_reliable_receive_sequence (snd (encode_payload env payload p)) = dp_reliable_receive_sequence p"
  "dp_reliable_received (snd (encode_payload env payload p)) = dp_reliable_received p"
  "dp_reliable_receive_sequence (snd (socket_send env packet p)) = dp_reliable_receive_sequence p"
  "dp_reliable_received (snd (socket_send env packet p)) = dp_reliable_received p"
  "dp_reliable_receive_sequence (snd (note_arrival now s p)) = dp_reliable_receive_sequence p"
  "dp_reliable_received (snd (note_arrival now s p)) = dp_reliable_received p"
  by (simp_all add: encode_payload_def seal_def socket_send_def note_arrival_def Let_def split: option.split)

lemma receive_reliable_progress:
  assumes "buffered_ok sent (dp_reliable_received p)" "sorted_map (dp_reliable_received p)"
    and bound: "length sent < 2 ^ 64" and copy: "copy_of env sent (KIND_RELIABLE # body)" and len: "8 < length body"
    and ok: "receive_reliable env a body p = (Inr r, p')"
  shows "rel_progress sent (dr_reliable_messages r) p p'"
proof -
  define s :: u64 where "s = of_nat (be_value (take 8 body))"
  obtain message where dec: "decode_frame_for_version (de_postcard env) (drop 8 body)
      POINTER_DATAGRAM_PROTOCOL_VERSION = Inr message"
    using ok by (auto simp: receive_reliable_def Let_def split: sum.splits)
  obtain messages p1 where acc: "accept_reliable s message p = (messages, p1)"
    by (cases "accept_reliable s message p")
  have "be_value (take 8 body) < length sent" "message = sent ! be_value (take 8 body)"
    using copy len dec by (auto simp: copy_of_def)
  then have "unat s < length sent" "message = sent ! unat s"
    using bound by (simp_all add: s_def unat_of_nat)
  then have "rel_progress sent messages p p1"
    using accept_reliable_in_order [OF assms(1) _ _ assms(2) bound acc] by (simp add: rel_progress_def)
  moreover have "dr_reliable_messages r = messages
      \<and> dp_reliable_receive_sequence p' = dp_reliable_receive_sequence p1
      \<and> dp_reliable_received p' = dp_reliable_received p1"
    using ok dec acc
    by (auto simp: receive_reliable_def Let_def s_def [symmetric] split_def split: sum.splits if_splits)
  ultimately show ?thesis by (simp add: rel_progress_def)
qed

lemma rel_progress_refl:
  "buffered_ok sent (dp_reliable_received p) \<Longrightarrow>
   dp_reliable_receive_sequence q = dp_reliable_receive_sequence p \<Longrightarrow>
   dp_reliable_received q = dp_reliable_received p \<Longrightarrow> rel_progress sent [] p q"
  by (simp add: rel_progress_def)

lemma receive_pointer_fields [simp]:
  "dp_reliable_receive_sequence (snd (receive_pointer env a body p)) = dp_reliable_receive_sequence p"
  "dp_reliable_received (snd (receive_pointer env a body p)) = dp_reliable_received p"
  by (simp_all add: receive_pointer_def Let_def)

lemma receive_pointer_no_messages:
  "receive_pointer env a body p = (Inr r, p') \<Longrightarrow> dr_reliable_messages r = []"
  by (auto simp: receive_pointer_def Let_def split: if_splits)

lemma receive_plaintext_progress:
  assumes "buffered_ok sent (dp_reliable_received p)" "sorted_map (dp_reliable_received p)"
    and bound: "length sent < 2 ^ 64" and "copy_of env sent plaintext" and "receive_plaintext env a plaintext p = (Inr r, p')"
  shows "rel_progress sent (dr_reliable_messages r) p p'"
proof (cases "\<exists>body. plaintext = KIND_RELIABLE # body \<and> 8 < length body")
  case True
  then obtain body where "plaintext = KIND_RELIABLE # body" "8 < length body" by blast
  then show ?thesis
    using assms receive_reliable_progress [of sent p env body a r p']
    by (simp add: receive_plaintext_def KIND_RELIABLE_def KIND_PROBE_def KIND_POINTER_def KIND_FEEDBACK_def)
next
  case False
  show ?thesis
  proof (cases plaintext)
    case Nil
    then show ?thesis
      using assms by (auto simp: receive_plaintext_def DatagramReceive_default_def intro: rel_progress_refl)
  next
    case (Cons kind body)
    show ?thesis
    proof (cases "kind = KIND_POINTER \<and> length plaintext = POINTER_PAYLOAD_LEN")
      case True
      then have run: "receive_pointer env a body p = (Inr r, p')"
        using assms(5) Cons by (auto simp: receive_plaintext_def KIND_PROBE_def KIND_POINTER_def)
      have "p' = snd (receive_pointer env a body p)" using run by simp
      then show ?thesis
        using receive_pointer_no_messages [OF run] assms(1) by (auto intro: rel_progress_refl)
    next
      case nonpointer: False
      have nr: "\<not> (kind = KIND_RELIABLE \<and> 8 < length body)" using False Cons by auto
      show ?thesis
        using assms(1,5) Cons nonpointer nr
        by (auto simp: receive_plaintext_def plain_receive_def DatagramReceive_default_def rel_progress_def
            split: if_splits)
    qed
  qed
qed


lemma receive_unfolded:
  "receive env now packet p =
     (let bytes = take MAX_DATAGRAM packet; sequence = header_sequence bytes in
      if \<not> header_matches bytes \<or> seen sequence p then (Inr DatagramReceive_default, p)
      else case aead_decrypt (receive_cipher env p) (nonce sequence) (drop HEADER_LEN bytes) of
        None \<Rightarrow> (Inl DatagramAuthenticationFailed, p)
      | Some plaintext \<Rightarrow>
          (let (a, p1) = note_arrival now sequence p in
           if 0 < ar_gaps a then
             case encode_payload env [KIND_FEEDBACK] p1 of
               (Inl e, p2) \<Rightarrow> (Inl e, p2)
             | (Inr packet, p2) \<Rightarrow> receive_plaintext env a plaintext (snd (socket_send env packet p2))
           else receive_plaintext env a plaintext p1))"
  by (simp add: receive_def Let_def seen_def [symmetric])

lemma receive_progress:
  assumes "path_inv p" "buffered_ok sent (dp_reliable_received p)"
    and bound: "length sent < 2 ^ 64" and "receive_cipher env p = cipher env session sender"
    and authentic: "\<And>plaintext. plaintext_of env session sender packet = Some plaintext \<Longrightarrow> copy_of env sent plaintext"
    and ok: "receive env now packet p = (Inr r, p')"
  shows "rel_progress sent (dr_reliable_messages r) p p'"
proof (cases "authenticated env packet p")
  case False
  then have "r = DatagramReceive_default" "p' = p"
    using ok by (auto simp: receive_unfolded authenticated_def Let_def split: option.splits if_splits)
  then show ?thesis using assms(2) by (simp add: rel_progress_def DatagramReceive_default_def)
next
  case True
  define bytes where "bytes = take MAX_DATAGRAM packet"
  define s where "s = header_sequence bytes"
  obtain plaintext where dec: "aead_decrypt (receive_cipher env p) (nonce s) (drop HEADER_LEN bytes) = Some plaintext"
    using True by (auto simp: authenticated_def Let_def bytes_def s_def)
  have copy: "copy_of env sent plaintext"
    using dec by (intro authentic) (simp add: plaintext_of_def Let_def assms(4) bytes_def s_def)
  define a where "a = fst (note_arrival now s p)"
  define p1 where "p1 = snd (note_arrival now s p)"
  define p2 where "p2 = (if 0 < ar_gaps a
     then snd (socket_send env (projr (fst (encode_payload env [KIND_FEEDBACK] p1)))
            (snd (encode_payload env [KIND_FEEDBACK] p1))) else p1)"
  have keep: "dp_reliable_received p2 = dp_reliable_received p"
    "dp_reliable_receive_sequence p2 = dp_reliable_receive_sequence p"
    by (simp_all add: p2_def p1_def)
  have "receive_plaintext env a plaintext p2 = (Inr r, p')"
    using ok True dec
    by (auto simp: receive_unfolded authenticated_def Let_def split_def p2_def
        bytes_def [symmetric] s_def [symmetric] a_def [symmetric] p1_def [symmetric] split: sum.splits)
  then have "rel_progress sent (dr_reliable_messages r) p2 p'"
    using assms(1,2) bound copy by (intro receive_plaintext_progress) (simp_all add: keep path_inv_def tables_ok_def)
  then show ?thesis by (simp add: rel_progress_def keep)
qed

lemma receive_identity:
  "rx p = rx q \<Longrightarrow> dp_session_id p = dp_session_id q" "rx p = rx q \<Longrightarrow> dp_remote_host p = dp_remote_host q"
  by (simp_all add: rx_def)

lemma identity_keep [simp]:
  "dp_session_id (snd (encode_payload env payload p)) = dp_session_id p"
  "dp_remote_host (snd (encode_payload env payload p)) = dp_remote_host p"
  "dp_session_id (snd (socket_send env packet p)) = dp_session_id p"
  "dp_remote_host (snd (socket_send env packet p)) = dp_remote_host p"
  "dp_session_id (snd (note_arrival now s p)) = dp_session_id p"
  "dp_remote_host (snd (note_arrival now s p)) = dp_remote_host p"
  "dp_session_id (snd (accept_reliable t m p)) = dp_session_id p"
  "dp_remote_host (snd (accept_reliable t m p)) = dp_remote_host p"
  by (simp_all add: encode_payload_def seal_def socket_send_def note_arrival_def accept_reliable_def Let_def split_def
      split: option.split)

lemma identity_receive_plaintext [simp]:
  "dp_session_id (snd (receive_plaintext env a plaintext p)) = dp_session_id p"
  "dp_remote_host (snd (receive_plaintext env a plaintext p)) = dp_remote_host p"
  by (simp_all add: receive_plaintext_def receive_pointer_def receive_reliable_def Let_def split_def
      split: list.split sum.split)

lemma receive_cipher_receive: "receive_cipher env (snd (receive env' now packet p)) = receive_cipher env p"
  by (simp add: receive_cipher_def receive_def Let_def split_def split: option.split sum.split)

lemma deliveries_in_order:
  assumes "path_inv p" "buffered_ok sent (dp_reliable_received p)"
    and bound: "length sent < 2 ^ 64" and "receive_cipher env p = cipher env session sender"
    and "\<forall>(now, packet) \<in> set arrivals. \<forall>plaintext.
       plaintext_of env session sender packet = Some plaintext \<longrightarrow> copy_of env sent plaintext"
  shows "\<exists>k. (k = 0 \<or> unat (dp_reliable_receive_sequence p) + k \<le> length sent) \<and> deliveries env arrivals p =
     map (nth sent) [unat (dp_reliable_receive_sequence p)..<unat (dp_reliable_receive_sequence p) + k]"
  using assms
proof (induction arrivals arbitrary: p)
  case (Cons arrival arrivals)
  obtain now packet where a: "arrival = (now, packet)" by (cases arrival)
  show ?case
  proof (cases "fst (receive env now packet p)")
    case (Inl e)
    then show ?thesis by (intro exI [of _ 0]) (simp add: a split_def)
  next
    case (Inr r)
    define p' where "p' = snd (receive env now packet p)"
    have run: "receive env now packet p = (Inr r, p')" using Inr by (simp add: p'_def prod_eq_iff)
    have step: "rel_progress sent (dr_reliable_messages r) p p'"
      using Cons.prems run by (intro receive_progress [OF Cons.prems(1-4)]) (auto simp: a)
    have "receive_cipher env p' = cipher env session sender"
      using Cons.prems(4) by (simp add: p'_def receive_cipher_receive)
    moreover have "path_inv p'" using Cons.prems(1) by (simp add: p'_def path_inv_receive)
    ultimately obtain k where k: "k = 0 \<or> unat (dp_reliable_receive_sequence p') + k \<le> length sent"
      "deliveries env arrivals p' =
        map (nth sent) [unat (dp_reliable_receive_sequence p')..<unat (dp_reliable_receive_sequence p') + k]"
      using Cons.IH [of p'] Cons.prems(3,5) step by (auto simp: rel_progress_def)
    let ?a = "unat (dp_reliable_receive_sequence p)" and ?b = "unat (dp_reliable_receive_sequence p')"
    have ab: "?a \<le> ?b" using step by (simp add: rel_progress_def)
    have "deliveries env (arrival # arrivals) p = map (nth sent) [?a..<?b] @ map (nth sent) [?b..<?b + k]"
      using run k step by (simp add: a rel_progress_def)
    also have "\<dots> = map (nth sent) [?a..<?b + k]"
      using ab upt_add_eq_append [OF ab, of k] by simp
    also have "?b + k = ?a + (?b - ?a + k)" using ab by simp
    finally have "deliveries env (arrival # arrivals) p = map (nth sent) [?a..<?a + (?b - ?a + k)]" .
    moreover have "?b - ?a + k = 0 \<or> ?a + (?b - ?a + k) \<le> length sent"
      using ab k(1) step by (auto simp: rel_progress_def)
    ultimately show ?thesis by blast
  qed
qed (auto intro: exI [of _ 0])

lemma set_bt_insert_subset: "set (bt_insert k v m) \<subseteq> insert (k, v) (set m)"
  by (induction k v m rule: bt_insert.induct) auto

section \<open>Ordered copies: the sender\<close>

text \<open>The messages that were given a number, in the order of their numbers.\<close>

fun shadowed :: "datagram_env \<Rightarrow> datagram_op list \<Rightarrow> PointerDatagramPath \<Rightarrow> WireMessage list" where
  "shadowed env [] p = []"
| "shadowed env (op # ops) p =
     (case op of
        OpShadow now message \<Rightarrow>
          (if dp_reliable_send_sequence (datagram_step env op p) = dp_reliable_send_sequence p then [] else [message])
      | _ \<Rightarrow> []) @ shadowed env ops (datagram_step env op p)"

definition numbered :: "datagram_env \<Rightarrow> WireMessage list \<Rightarrow> u8 list \<Rightarrow> bool" where
  "numbered env log payload \<longleftrightarrow>
     (\<forall>body. payload = KIND_RELIABLE # body \<longrightarrow>
        (\<exists>n frame. n < length log \<and> body = be_bytes 8 n @ frame
           \<and> encode_frame_for_version (de_postcard env) (log ! n) POINTER_DATAGRAM_PROTOCOL_VERSION = Inr frame))"

definition log_ok :: "datagram_env \<Rightarrow> WireMessage list \<Rightarrow> PointerDatagramPath \<Rightarrow> bool" where
  "log_ok env log p \<longleftrightarrow> length log = unat (dp_reliable_send_sequence p)
     \<and> (\<forall>payload \<in> snd ` set (dp_sealed p). numbered env log payload)
     \<and> (\<forall>entry \<in> snd ` set (dp_reliable_pending p). numbered env log (pr_payload entry))"

lemma numbered_append: "numbered env log payload \<Longrightarrow> numbered env (log @ extra) payload"
  by (fastforce simp: numbered_def nth_append)

lemma numbered_other: "kind \<noteq> KIND_RELIABLE \<Longrightarrow> numbered env log (kind # body)"
  by (simp add: numbered_def)

lemma sealed_encode_subset:
  "set (dp_sealed (snd (encode_payload env payload p))) \<subseteq> insert (nonce (dp_send_sequence p), payload) (set (dp_sealed p))"
  by (auto simp: encode_payload_def seal_def Let_def split: option.splits)

lemma log_ok_encode:
  "log_ok env log p \<Longrightarrow> numbered env log payload \<Longrightarrow> log_ok env log (snd (encode_payload env' payload p))"
  using sealed_encode_subset [of env' payload p] unfolding log_ok_def by auto

named_theorems log_keep \<open>what keeps the numbered log\<close>

lemma log_ok_updates [log_keep]:
  "log_ok env log (p\<lparr>dp_ready := b\<rparr>) = log_ok env log p" "log_ok env log (p\<lparr>dp_pending := c\<rparr>) = log_ok env log p"
  "log_ok env log (p\<lparr>dp_sent_totals := d\<rparr>) = log_ok env log p"
  "log_ok env log (p\<lparr>dp_last_pointer_send := e\<rparr>) = log_ok env log p"
  "log_ok env log (p\<lparr>dp_recently_sent := f\<rparr>) = log_ok env log p"
  "log_ok env log (p\<lparr>dp_redundancy_budget := g\<rparr>) = log_ok env log p"
  "log_ok env log (p\<lparr>dp_pacing_interval := h\<rparr>) = log_ok env log p"
  "log_ok env log (p\<lparr>dp_last_arrival := i\<rparr>) = log_ok env log p"
  "log_ok env log (p\<lparr>dp_last_interval_us := j\<rparr>) = log_ok env log p"
  "log_ok env log (p\<lparr>dp_receive_sequence := k\<rparr>) = log_ok env log p"
  "log_ok env log (p\<lparr>dp_reliable_receive_sequence := l\<rparr>) = log_ok env log p"
  "log_ok env log (p\<lparr>dp_reliable_received := m\<rparr>) = log_ok env log p"
  "log_ok env log (p\<lparr>dp_received_totals := n\<rparr>) = log_ok env log p"
  by (simp_all add: log_ok_def)

lemma log_ok_socket_send [log_keep]: "log_ok env log (snd (socket_send env' packet p)) = log_ok env log p"
  by (simp add: log_ok_def)

lemma log_ok_send_redundant [log_keep]: "log_ok env log (send_redundant env' packet p) = log_ok env log p"
  by (simp add: log_ok_def)

lemma kinds_other [simp]:
  "KIND_PROBE \<noteq> KIND_RELIABLE" "KIND_POINTER \<noteq> KIND_RELIABLE" "KIND_FEEDBACK \<noteq> KIND_RELIABLE"
  "KIND_RELIABLE_ACK \<noteq> KIND_RELIABLE"
  by (simp_all add: KIND_PROBE_def KIND_POINTER_def KIND_FEEDBACK_def KIND_RELIABLE_ACK_def KIND_RELIABLE_def)

lemma log_ok_encode_other [log_keep]:
  "log_ok env log p \<Longrightarrow> kind \<noteq> KIND_RELIABLE \<Longrightarrow> log_ok env log (snd (encode_payload env' (kind # body) p))"
  by (intro log_ok_encode numbered_other)

lemma log_ok_send_probe: "log_ok env log p \<Longrightarrow> log_ok env log (snd (send_probe env' p))"
  by (simp add: send_probe_def split_def log_keep split: sum.split send_outcome.split)

lemma log_ok_flush_loop: "log_ok env log p \<Longrightarrow> log_ok env log (snd (flush_loop env' entries sent p))"
proof (induction entries arbitrary: sent p)
  case (Cons entry entries)
  obtain device pointer where entry: "entry = (device, pointer)" by (cases entry)
  have "log_ok env log (snd (encode_payload env' (pointer_payload device pointer) p))"
    using Cons.prems by (simp add: pointer_payload_def log_keep)
  then show ?case
    by (simp add: entry split_def log_keep Cons.IH split: sum.split send_outcome.split)
qed simp

lemma log_ok_flush_pending: "log_ok env log p \<Longrightarrow> log_ok env log (snd (flush_pending env' now p))"
  by (simp add: flush_pending_def split_def log_keep log_ok_flush_loop split: sum.split)

lemma log_ok_try_send_pointer: "log_ok env log p \<Longrightarrow> log_ok env log (snd (try_send_pointer env' now m p))"
  by (simp add: try_send_pointer_def Let_def split_def log_keep log_ok_flush_pending
      split: WireMessage.split WireInputPayloadV1.split sum.split)

lemma log_ok_pending_subset:
  "log_ok env log p \<Longrightarrow> set pending \<subseteq> set (dp_reliable_pending p) \<Longrightarrow>
   log_ok env log (p\<lparr>dp_reliable_pending := pending\<rparr>)"
  by (auto simp: log_ok_def)

lemma log_ok_pending_insert:
  "log_ok env log p \<Longrightarrow> numbered env log (pr_payload e) \<Longrightarrow> m = dp_reliable_pending p \<Longrightarrow>
   log_ok env log (p\<lparr>dp_reliable_pending := bt_insert s e m\<rparr>)"
  using set_bt_insert_subset [of s e m] by (auto simp: log_ok_def)

lemma log_ok_retransmit_loop: "log_ok env log p \<Longrightarrow> log_ok env log (snd (retransmit_loop env' now due n p))"
proof (induction due arbitrary: n p)
  case (Cons sequence due)
  show ?case
  proof (cases "map_of (dp_reliable_pending p) sequence")
    case None
    then show ?thesis using Cons by simp
  next
    case (Some pending)
    define p0 where "p0 = p\<lparr>dp_reliable_pending := AList.delete sequence (dp_reliable_pending p)\<rparr>"
    have p0: "log_ok env log p0"
      using Cons.prems by (simp add: p0_def log_ok_pending_subset set_delete_subset)
    have num: "numbered env log (pr_payload pending)"
      using Cons.prems map_of_SomeD [OF Some] by (force simp: log_ok_def)
    have p1: "log_ok env log (snd (encode_payload env' (pr_payload pending) p0))"
      using p0 num by (rule log_ok_encode)
    show ?thesis
      using Some p0 p1 num
      by (simp add: Let_def split_def log_keep Cons.IH log_ok_pending_insert p0_def [symmetric]
          split: sum.split send_outcome.split)
  qed
qed simp

lemma log_ok_receive_plaintext:
  assumes "log_ok env log p"
  shows "log_ok env log (snd (receive_plaintext env' a plaintext p))"
proof -
  have acc: "log_ok env log (snd (accept_reliable s m q)) = log_ok env log q" for s m q
    by (simp add: accept_reliable_def Let_def split_def log_keep)
  have point: "log_ok env log (snd (receive_pointer env' a body q)) = log_ok env log q" for body q
    by (simp add: receive_pointer_def Let_def log_keep)
  have rel: "log_ok env log (snd (receive_reliable env' a body q))" if "log_ok env log q" for body q
    using that by (simp add: receive_reliable_def Let_def split_def log_keep acc split: sum.split)
  show ?thesis
    using assms by (simp add: receive_plaintext_def log_keep point rel log_ok_pending_subset split: list.split)
qed

lemma log_ok_receive: "log_ok env log p \<Longrightarrow> log_ok env log (snd (receive env' now packet p))"
  by (simp add: receive_def Let_def split_def note_arrival_def log_keep log_ok_receive_plaintext
      split: option.split sum.split)


lemma shadow_sequence_unchanged:
  assumes "log_ok env log p" "dp_reliable_send_sequence (snd (shadow_reliable env now m p)) = dp_reliable_send_sequence p"
  shows "log_ok env log (snd (shadow_reliable env now m p))"
proof -
  have "snd (shadow_reliable env now m p) = p"
    using assms(2) checked_add_u64_one_less
    by (fastforce simp: shadow_reliable_def Let_def split_def split: sum.splits option.splits if_splits)
  then show ?thesis using assms(1) by simp
qed

lemma log_ok_next_number:
  assumes "log_ok env log p" "unat n = Suc (unat (dp_reliable_send_sequence p))"
  shows "log_ok env (log @ [m]) (p\<lparr>dp_reliable_send_sequence := n\<rparr>)"
  using assms by (auto simp: log_ok_def intro: numbered_append)

lemma shadow_sequence_advanced:
  assumes "log_ok env log p" "dp_reliable_send_sequence (snd (shadow_reliable env now m p)) \<noteq> dp_reliable_send_sequence p"
  shows "log_ok env (log @ [m]) (snd (shadow_reliable env now m p))"
proof -
  define s where "s = dp_reliable_send_sequence p"
  obtain frame n where ready: "dp_ready p" "is_stateful_input m" "length (dp_reliable_pending p) < MAX_RELIABLE_PENDING"
    and frame: "encode_frame_for_version (de_postcard env) m POINTER_DATAGRAM_PROTOCOL_VERSION = Inr frame"
    and n: "checked_add_u64 s 1 = Some n"
    using assms(2) by (auto simp: shadow_reliable_def Let_def s_def not_le split: sum.splits option.splits if_splits)
  define p1 where "p1 = p\<lparr>dp_reliable_send_sequence := n\<rparr>"
  have len: "length log = unat s" using assms(1) by (simp add: log_ok_def s_def)
  have p1: "log_ok env (log @ [m]) p1"
    unfolding p1_def using assms(1) n by (intro log_ok_next_number) (simp_all add: rust_arith s_def)
  have num: "numbered env (log @ [m]) (reliable_payload s frame)"
    using frame len by (auto simp: numbered_def reliable_payload_def nth_append intro!: exI [of _ "unat s"])
  have p2: "log_ok env (log @ [m]) (snd (encode_payload env (reliable_payload s frame) p1))"
    using p1 num by (rule log_ok_encode)
  show ?thesis
    using ready frame n p1 p2 num
    by (simp add: shadow_reliable_def Let_def s_def [symmetric] p1_def [symmetric] split_def log_keep
        log_ok_pending_insert split: sum.split)
qed

lemma log_ok_step:
  assumes "log_ok env log p"
  shows "log_ok env (log @ shadowed env [op] p) (datagram_step env op p)"
  using assms
  by (cases op) (simp_all add: log_ok_send_probe log_ok_try_send_pointer log_ok_flush_pending log_keep
      take_recently_sent_def maintain_reliable_def log_ok_retransmit_loop log_ok_receive
      shadow_sequence_unchanged shadow_sequence_advanced)

lemma log_ok_run: "log_ok env log p \<Longrightarrow> log_ok env (log @ shadowed env ops p) (fold (datagram_step env) ops p)"
proof (induction ops arbitrary: p log)
  case (Cons op ops)
  show ?case using Cons.IH [OF log_ok_step [OF Cons.prems, of op]] by simp
qed simp

section \<open>Ordered copies: both ends\<close>

lemma frame_decodes:
  assumes "postcard_ok pc" "encode_frame_for_version pc m v = Inr frame"
  shows "decode_frame_for_version pc frame v = Inr m"
  using assms decode_frame_of by (auto simp: encode_frame_for_version_iff)

lemma numbered_copy:
  assumes "postcard_ok (de_postcard env)" "de_postcard env' = de_postcard env" "numbered env log payload"
    "length log < 2 ^ 64"
  shows "copy_of env' log payload"
  unfolding copy_of_def
proof (intro allI impI)
  fix body message
  assume pl: "payload = KIND_RELIABLE # body" and "8 < length body"
    and dec: "decode_frame_for_version (de_postcard env') (drop 8 body) POINTER_DATAGRAM_PROTOCOL_VERSION = Inr message"
  obtain n frame where n: "n < length log" "body = be_bytes 8 n @ frame"
    "encode_frame_for_version (de_postcard env) (log ! n) POINTER_DATAGRAM_PROTOCOL_VERSION = Inr frame"
    using assms(3) pl by (auto simp: numbered_def)
  have "be_value (take 8 body) = n"
    using n assms(4) be_value_be_bytes [of n 8] by simp
  moreover have "message = log ! n"
    using dec n frame_decodes [OF assms(1) n(3)] assms(2) by simp
  ultimately show "be_value (take 8 body) < length log \<and> message = log ! be_value (take 8 body)"
    using n(1) assms(4) by simp
qed

text \<open>The cipher authenticates: a datagram decrypts only to a plaintext the sender encrypted.\<close>

definition authentic :: "datagram_env \<Rightarrow> PointerDatagramPath \<Rightarrow> bytes32 \<Rightarrow> WireHostId \<Rightarrow> (nat \<times> u8 list) list \<Rightarrow> bool" where
  "authentic env sender_path session sender arrivals \<longleftrightarrow>
     (\<forall>(now, packet) \<in> set arrivals. \<forall>plaintext.
        plaintext_of env session sender packet = Some plaintext \<longrightarrow> plaintext \<in> snd ` set (dp_sealed sender_path))"

lemma in_order_from_log:
  assumes "postcard_ok (de_postcard env)" "de_postcard env' = de_postcard env"
    and log: "log_ok env log sender_path"
    and auth: "authentic env' sender_path session own arrivals"
  shows "\<exists>k. deliveries env' arrivals (PointerDatagramPath_bind session peer own) = take k log"
proof -
  have bound: "length log < 2 ^ 64"
    using log unat_less_2p [of "dp_reliable_send_sequence sender_path"] by (simp add: log_ok_def)
  then have "copy_of env' log plaintext"
    if "plaintext \<in> snd ` set (dp_sealed sender_path)" for plaintext
    using that log assms(1,2) numbered_copy by (auto simp: log_ok_def)
  then have copies: "\<forall>(now, packet) \<in> set arrivals. \<forall>plaintext.
      plaintext_of env' session own packet = Some plaintext \<longrightarrow> copy_of env' log plaintext"
    using auth by (fastforce simp: authentic_def)
  define p where "p = PointerDatagramPath_bind session peer own"
  have p: "path_inv p" "buffered_ok log (dp_reliable_received p)"
    "receive_cipher env' p = cipher env' session own" "unat (dp_reliable_receive_sequence p) = 0"
    by (simp_all add: p_def path_inv_bind) (simp_all add: PointerDatagramPath_bind_def buffered_ok_def receive_cipher_def)
  obtain k where k: "k = 0 \<or> k \<le> length log" "deliveries env' arrivals p = map (nth log) [0..<k]"
    using deliveries_in_order [OF p(1,2) bound p(3) copies] p(4) by auto
  have "map (nth log) [0..<k] = take k log"
    using k(1) by (intro nth_equalityI) auto
  then show ?thesis using k(2) by (auto simp: p_def)
qed

text \<open>
  C24: Whatever the network loses, repeats or reorders, the receiver reports a prefix of the messages
  the sender numbered, in order and once each, provided the cipher authenticates and the
  serializer reads what it wrote.
\<close>

theorem ordered_copies_are_a_prefix:
  assumes "postcard_ok (de_postcard env)" "de_postcard env' = de_postcard env"
    and "authentic env' (fold (datagram_step env) ops (PointerDatagramPath_bind session own peer)) session own arrivals"
  shows "\<exists>k. deliveries env' arrivals (PointerDatagramPath_bind session peer own)
    = take k (shadowed env ops (PointerDatagramPath_bind session own peer))"
proof -
  have "log_ok env [] (PointerDatagramPath_bind session own peer)"
    by (simp add: log_ok_def PointerDatagramPath_bind_def)
  then have "log_ok env (shadowed env ops (PointerDatagramPath_bind session own peer))
      (fold (datagram_step env) ops (PointerDatagramPath_bind session own peer))"
    using log_ok_run by fastforce
  then show ?thesis
    using in_order_from_log assms by blast
qed

section \<open>Pointer motion survives loss\<close>

definition can_send :: "datagram_env \<Rightarrow> u8 list \<Rightarrow> PointerDatagramPath \<Rightarrow> bool" where
  "can_send env payload p \<longleftrightarrow> unat (dp_send_sequence p) < 2 ^ 64 - 1
     \<and> (case aead_encrypt (send_cipher env p) (nonce (dp_send_sequence p)) payload of
          None \<Rightarrow> False | Some ciphertext \<Rightarrow> HEADER_LEN + length ciphertext \<le> MAX_DATAGRAM)"

lemma encode_payload_can_send:
  assumes "can_send env payload p"
  shows "\<exists>packet. fst (encode_payload env payload p) = Inr packet"
  using assms by (auto simp: can_send_def encode_payload_def seal_def Let_def checked_add_u64_def not_less split: option.splits)

lemma header_of_datagram:
  assumes "HEADER_LEN + length ciphertext \<le> MAX_DATAGRAM"
  shows "take MAX_DATAGRAM (datagram s ciphertext) = datagram s ciphertext"
    and "header_matches (datagram s ciphertext)" and "header_sequence (datagram s ciphertext) = s"
    and "drop HEADER_LEN (datagram s ciphertext) = ciphertext"
proof -
  have len: "length (datagram s ciphertext) = HEADER_LEN + length ciphertext"
    by (simp add: datagram_def DATAGRAM_MAGIC_def HEADER_LEN_def)
  then show "take MAX_DATAGRAM (datagram s ciphertext) = datagram s ciphertext" using assms by simp
  show "header_matches (datagram s ciphertext)"
    using len by (simp add: header_matches_def datagram_def DATAGRAM_MAGIC_def)
  have "take 8 (drop 5 (datagram s ciphertext)) = be_bytes 8 (unat s)"
    by (simp add: datagram_def DATAGRAM_MAGIC_def)
  then show "header_sequence (datagram s ciphertext) = s"
    using unat_less_2p [of s] by (simp add: header_sequence_def be_value_be_bytes)
  show "drop HEADER_LEN (datagram s ciphertext) = ciphertext"
    by (simp add: datagram_def DATAGRAM_MAGIC_def HEADER_LEN_def)
qed

lemma be_value_word: "be_value (be_bytes 8 (unat (w :: u64))) = unat w" "be_value (be_bytes 16 (unat (d :: id128))) = unat d"
  using unat_less_2p [of w] unat_less_2p [of d] by (simp_all add: be_value_be_bytes)

lemma receive_pointer_payload:
  assumes "f64_is_finite (fst (pp_totals pointer))" "f64_is_finite (snd (pp_totals pointer))"
    and "contains_key (dp_received_totals p) device \<or> length (dp_received_totals p) < MAX_TRACKED_DEVICES"
  shows "\<exists>r. receive_plaintext env a (pointer_payload device pointer) p =
      (Inr r, p\<lparr>dp_received_totals := AList.update device (pp_totals pointer) (dp_received_totals p)\<rparr>)
    \<and> dr_input r = Some \<lparr>input_sequence = ar_sequence a, input_timestamp_ns = pp_timestamp_ns pointer,
        input_source_host = dp_remote_host p, input_source_device = device,
        input_payload = WirePointerMove
          (f64_sub (fst (pp_totals pointer)) (fst (totals_or_default (dp_received_totals p) device)))
          (f64_sub (snd (pp_totals pointer)) (snd (totals_or_default (dp_received_totals p) device)))\<rparr>"
  using assms
  by (auto simp: receive_plaintext_def pointer_payload_def receive_pointer_def Let_def be_value_word
      KIND_PROBE_def KIND_POINTER_def POINTER_PAYLOAD_LEN_def not_le)

text \<open>
  A pointer datagram that arrives in a fresh position is enough to catch up: whatever was lost
  before, the reported motion is the difference to the last totals received for the device, and
  afterwards the receiver's totals are the sender's.
\<close>

theorem pointer_totals_catch_up:
  assumes "HEADER_LEN + length ciphertext \<le> MAX_DATAGRAM" and "\<not> seen s p"
    and "aead_decrypt (receive_cipher env p) (nonce s) ciphertext = Some (pointer_payload device pointer)"
    and "can_send env [KIND_FEEDBACK] p"
    and "f64_is_finite (fst (pp_totals pointer))" "f64_is_finite (snd (pp_totals pointer))"
    and "contains_key (dp_received_totals p) device \<or> length (dp_received_totals p) < MAX_TRACKED_DEVICES"
  shows "\<exists>r p'. receive env now (datagram s ciphertext) p = (Inr r, p')
    \<and> map_of (dp_received_totals p') device = Some (pp_totals pointer)
    \<and> dr_input r = Some \<lparr>input_sequence = s, input_timestamp_ns = pp_timestamp_ns pointer,
        input_source_host = dp_remote_host p, input_source_device = device,
        input_payload = WirePointerMove
          (f64_sub (fst (pp_totals pointer)) (fst (totals_or_default (dp_received_totals p) device)))
          (f64_sub (snd (pp_totals pointer)) (snd (totals_or_default (dp_received_totals p) device)))\<rparr>"
proof -
  define a where "a = fst (note_arrival now s p)"
  define p1 where "p1 = snd (note_arrival now s p)"
  have a: "ar_sequence a = s" by (simp add: a_def note_arrival_def Let_def)
  have p1: "dp_received_totals p1 = dp_received_totals p" "dp_remote_host p1 = dp_remote_host p"
    "can_send env [KIND_FEEDBACK] p1"
    using assms(4) by (simp_all add: p1_def note_arrival_def Let_def can_send_def send_cipher_def)
  obtain packet where enc: "fst (encode_payload env [KIND_FEEDBACK] p1) = Inr packet"
    using encode_payload_can_send [OF p1(3)] by blast
  define q where "q = (if 0 < ar_gaps a
    then snd (socket_send env packet (snd (encode_payload env [KIND_FEEDBACK] p1))) else p1)"
  have q: "dp_received_totals q = dp_received_totals p" "dp_remote_host q = dp_remote_host p"
    using p1 rx_fields(5) [OF rx_encode_payload] rx_fields(5) [OF rx_socket_send] by (simp_all add: q_def)
  have "receive env now (datagram s ciphertext) p = receive_plaintext env a (pointer_payload device pointer) q"
    using assms(1-3) header_of_datagram [OF assms(1)] enc
    by (simp add: receive_unfolded Let_def split_def q_def a_def [symmetric] p1_def [symmetric])
  then show ?thesis
    using receive_pointer_payload [of pointer q device env a] assms(5-7) a q by (auto simp: hmap)
qed

section \<open>A concrete pair of paths\<close>

text \<open>
  A cipher that prefixes the nonce, a serializer for one key press, and a sender that becomes
  ready by a probe and numbers that key press.
\<close>

definition demo_aead :: aead where
  "demo_aead = \<lparr>aead_encrypt = (\<lambda>n plaintext. Some (n @ plaintext)),
     aead_decrypt = (\<lambda>n ciphertext. if take 12 ciphertext = n then Some (drop 12 ciphertext) else None)\<rparr>"

definition demo_pointer_press :: InputEventV1 where
  "demo_pointer_press = \<lparr>input_sequence = 1, input_timestamp_ns = 0, input_source_host = 1, input_source_device = 3,
     input_payload = WireKey \<lparr>wkey_usage_page = 7, wkey_usage = 4\<rparr> WireKeyDown\<rparr>"

definition demo_input_codec :: "InputEventV1 payload_codec" where
  "demo_input_codec = \<lparr>to_extend = (\<lambda>v. if v = demo_pointer_press then ([9], True) else ([], False)),
     take_from_bytes = (\<lambda>bytes. if bytes = [9] then Some (demo_pointer_press, []) else None)\<rparr>"

definition demo_datagram_env :: datagram_env where
  "demo_datagram_env = \<lparr>de_postcard = ping_postcard\<lparr>pc_input := demo_input_codec\<rparr>, de_sha256 = id,
     de_chacha = (\<lambda>key. demo_aead), de_answer = (\<lambda>n. WouldBlock), de_shuffle = id, de_hypot = (\<lambda>x y. x)\<rparr>"

lemma demo_postcard_ok: "postcard_ok (de_postcard demo_datagram_env)"
  using ping_postcard_ok
  by (simp add: demo_datagram_env_def postcard_ok_def codec_ok_def demo_input_codec_def)

definition demo_probe :: "u8 list" where
  "demo_probe = datagram 0 (nonce 0 @ [KIND_PROBE])"

definition demo_frame :: "u8 list" where
  "demo_frame = frame_of (Input demo_pointer_press) 3 [9]"

lemma demo_encode: "encode_frame_for_version (de_postcard demo_datagram_env) (Input demo_pointer_press) 3 = Inr demo_frame"
  unfolding encode_frame_for_version_iff demo_frame_def
  by (intro exI [of _ "[9]"])
    (simp add: encodable_def is_supported_protocol_version_def version_defs demo_datagram_env_def
      demo_input_codec_def demo_pointer_press_def validate_input_def MAX_FRAME_PAYLOAD_def)

definition demo_ops :: "datagram_op list" where
  "demo_ops = [OpReceive 0 demo_probe, OpShadow 1 (Input demo_pointer_press)]"

lemma demo_probe_received:
  "receive demo_datagram_env 0 demo_probe (PointerDatagramPath_bind 5 1 2) =
     (Inr (plain_receive \<lparr>ar_sequence = 0, ar_gaps = 0, ar_jitter_us = 0, ar_silence_ms = 0\<rparr>),
      (PointerDatagramPath_bind 5 1 2)\<lparr>dp_receive_sequence := Some 0, dp_last_arrival := Some 0, dp_ready := True\<rparr>)"
proof -
  have short: "HEADER_LEN + length (nonce 0 @ [KIND_PROBE]) \<le> MAX_DATAGRAM"
    by (simp add: nonce_def HEADER_LEN_def MAX_DATAGRAM_def)
  have len: "length (nonce 0) = 12" by (simp add: nonce_def)
  show ?thesis
    using header_of_datagram [OF short, of 0] len
    by (simp add: demo_probe_def receive_unfolded Let_def seen_def PointerDatagramPath_bind_def
        receive_cipher_def cipher_def demo_datagram_env_def demo_aead_def note_arrival_def
        receive_plaintext_def KIND_PROBE_def plain_receive_def)
qed

abbreviation demo_path :: PointerDatagramPath where
  "demo_path \<equiv> PointerDatagramPath_bind 5 1 2"

lemma demo_authenticated: "authenticated demo_datagram_env demo_probe demo_path"
proof -
  have short: "HEADER_LEN + length (nonce 0 @ [KIND_PROBE]) \<le> MAX_DATAGRAM"
    by (simp add: nonce_def HEADER_LEN_def MAX_DATAGRAM_def)
  have len: "length (nonce 0) = 12" by (simp add: nonce_def)
  show ?thesis
    using header_of_datagram [OF short, of 0] len
    by (simp add: authenticated_def Let_def demo_probe_def seen_def PointerDatagramPath_bind_def
        receive_cipher_def cipher_def demo_datagram_env_def demo_aead_def)
qed

lemma demo_shadow_step:
  "datagram_step demo_datagram_env (OpShadow 1 (Input demo_pointer_press)) (datagram_step demo_datagram_env (OpReceive 0 demo_probe) demo_path) =
     demo_path\<lparr>dp_receive_sequence := Some 0, dp_last_arrival := Some 0, dp_ready := True,
       dp_reliable_send_sequence := 1, dp_send_sequence := 1, dp_sealed := [(nonce 0, reliable_payload 0 demo_frame)],
       dp_socket_calls := 1, dp_wire := [],
       dp_reliable_pending := [(0, \<lparr>pr_payload = reliable_payload 0 demo_frame, pr_last_sent = 1, pr_attempts = 1\<rparr>)]\<rparr>"
proof -
  have frame: "length (nonce 0 @ reliable_payload 0 demo_frame) = 34"
    by (simp add: nonce_def reliable_payload_def demo_frame_def length_frame_of FRAME_HEADER_LEN_def)
  have enc: "encode_frame_for_version (de_postcard demo_datagram_env) (Input demo_pointer_press)
      POINTER_DATAGRAM_PROTOCOL_VERSION = Inr demo_frame"
    using demo_encode by (simp add: POINTER_DATAGRAM_PROTOCOL_VERSION_def)
  have seal: "aead_encrypt (send_cipher demo_datagram_env q) n plaintext = Some (n @ plaintext)" for q n plaintext
    by (simp add: send_cipher_def cipher_def demo_datagram_env_def demo_aead_def)
  have answer: "de_answer demo_datagram_env n = WouldBlock" for n
    by (simp add: demo_datagram_env_def)
  have stateful: "is_stateful_input (Input demo_pointer_press)"
    by (simp add: is_stateful_input_def demo_pointer_press_def)
  show ?thesis
    unfolding datagram_step.simps demo_probe_received snd_conv
    using frame
    by (simp add: shadow_reliable_def enc seal answer stateful MAX_RELIABLE_PENDING_def PointerDatagramPath_bind_def
        Let_def checked_add_u64_def encode_payload_def seal_def HEADER_LEN_def MAX_DATAGRAM_def socket_send_def)
qed

lemma demo_datagram_run:
  "dp_sealed (fold (datagram_step demo_datagram_env) demo_ops demo_path) = [(nonce 0, reliable_payload 0 demo_frame)]"
  "shadowed demo_datagram_env demo_ops demo_path = [Input demo_pointer_press]"
proof -
  have before: "dp_reliable_send_sequence (datagram_step demo_datagram_env (OpReceive 0 demo_probe) demo_path) = 0"
    unfolding datagram_step.simps demo_probe_received by (simp add: PointerDatagramPath_bind_def)
  show "dp_sealed (fold (datagram_step demo_datagram_env) demo_ops demo_path) = [(nonce 0, reliable_payload 0 demo_frame)]"
    using demo_shadow_step by (simp add: demo_ops_def del: datagram_step.simps)
  show "shadowed demo_datagram_env demo_ops demo_path = [Input demo_pointer_press]"
    using demo_shadow_step before by (simp add: demo_ops_def del: datagram_step.simps)
qed

definition demo_copy :: "u8 list" where
  "demo_copy = datagram 0 (nonce 0 @ reliable_payload 0 demo_frame)"

lemma demo_copy_plaintext: "plaintext_of demo_datagram_env 5 1 demo_copy = Some (reliable_payload 0 demo_frame)"
proof -
  have short: "HEADER_LEN + length (nonce 0 @ reliable_payload 0 demo_frame) \<le> MAX_DATAGRAM"
    by (simp add: nonce_def reliable_payload_def demo_frame_def length_frame_of FRAME_HEADER_LEN_def
        HEADER_LEN_def MAX_DATAGRAM_def)
  have len: "length (nonce 0) = 12" by (simp add: nonce_def)
  show ?thesis
    using header_of_datagram [OF short, of 0] len
    by (simp add: plaintext_of_def Let_def demo_copy_def cipher_def demo_datagram_env_def demo_aead_def)
qed

theorem datagram_replay_ignored_witness:
  "receive demo_datagram_env 9 demo_probe (fold (datagram_step demo_datagram_env) [OpShadow 1 (Input demo_pointer_press)]
      (snd (receive demo_datagram_env 0 demo_probe demo_path))) =
   (Inr DatagramReceive_default, fold (datagram_step demo_datagram_env) [OpShadow 1 (Input demo_pointer_press)]
      (snd (receive demo_datagram_env 0 demo_probe demo_path)))"
  using datagram_replay_ignored [OF demo_authenticated, of "[OpShadow 1 (Input demo_pointer_press)]" 0 9]
  by (simp only: Let_def)

theorem datagram_nonces_fresh_witness:
  "distinct (map fst [(nonce 0, reliable_payload 0 demo_frame)])
   \<and> tables_ok (fold (datagram_step demo_datagram_env) demo_ops demo_path)"
proof -
  have "shuffle_ok demo_datagram_env" by (simp add: shuffle_ok_def demo_datagram_env_def)
  from datagram_nonces_fresh [OF this, of demo_ops 5 1 2]
  show ?thesis by (simp add: Let_def demo_datagram_run)
qed

theorem ordered_copies_are_a_prefix_witness:
  "\<exists>k. deliveries demo_datagram_env [(7, demo_copy), (8, demo_copy)] (PointerDatagramPath_bind 5 2 1)
     = take k [Input demo_pointer_press]"
proof -
  have "authentic demo_datagram_env (fold (datagram_step demo_datagram_env) demo_ops demo_path) 5 1
      [(7, demo_copy), (8, demo_copy)]"
    by (simp add: authentic_def demo_copy_plaintext demo_datagram_run)
  from ordered_copies_are_a_prefix [OF demo_postcard_ok refl this]
  show ?thesis by (simp add: demo_datagram_run)
qed

definition demo_pointer :: PendingPointer where
  "demo_pointer = \<lparr>pp_timestamp_ns = 4, pp_totals = (f64_one, f64_zero)\<rparr>"

theorem pointer_totals_catch_up_witness:
  "\<exists>r p'. receive demo_datagram_env 3 (datagram 6 (nonce 6 @ pointer_payload 3 demo_pointer)) demo_path = (Inr r, p')
    \<and> map_of (dp_received_totals p') 3 = Some (f64_one, f64_zero)"
proof -
  have short: "HEADER_LEN + length (nonce 6 @ pointer_payload 3 demo_pointer) \<le> MAX_DATAGRAM"
    by (simp add: nonce_def pointer_payload_def HEADER_LEN_def MAX_DATAGRAM_def)
  have fresh: "\<not> seen 6 demo_path" by (simp add: seen_def PointerDatagramPath_bind_def)
  have len: "length (nonce 6) = 12" by (simp add: nonce_def)
  have dec: "aead_decrypt (receive_cipher demo_datagram_env demo_path) (nonce 6)
      (nonce 6 @ pointer_payload 3 demo_pointer) = Some (pointer_payload 3 demo_pointer)"
    using len by (simp add: receive_cipher_def cipher_def demo_datagram_env_def demo_aead_def)
  have feedback: "can_send demo_datagram_env [KIND_FEEDBACK] demo_path"
    by (simp add: can_send_def send_cipher_def cipher_def demo_datagram_env_def demo_aead_def
        PointerDatagramPath_bind_def nonce_def HEADER_LEN_def MAX_DATAGRAM_def)
  have finite: "f64_is_finite (fst (pp_totals demo_pointer))" "f64_is_finite (snd (pp_totals demo_pointer))"
    by (simp_all add: demo_pointer_def f64_one_def f64_is_finite_def f64_mag_def inf_mag_def)
  have room: "contains_key (dp_received_totals demo_path) 3 \<or> length (dp_received_totals demo_path) < MAX_TRACKED_DEVICES"
    by (simp add: PointerDatagramPath_bind_def MAX_TRACKED_DEVICES_def)
  show ?thesis
    using pointer_totals_catch_up [OF short fresh dec feedback finite room, of 3] by (auto simp: demo_pointer_def)
qed

end
