(* ===== verification/InventoryBase.thy ===== *)
theory InventoryBase
  imports DaemonState Trust
begin

text \<open>
  What the device and display inventories of kvm-daemon share: the admitted session of
  \<^verbatim>\<open>supervisor.rs\<close> that every remote operation presents, the order of connection generations, checked
  sums of sizes, and three contracts their loops and operations satisfy: \<open>host_table\<close> (publishing a table),
  \<open>item_table\<close> (checking and indexing items) and \<open>revision_ledger\<close> (revisions per source).
\<close>

section \<open>Admitted peers and sessions\<close>

record AdmittedPeer =
  ap_transport_identity :: TransportPeerIdentity
  ap_local_hello :: HelloV1
  ap_remote_hello :: HelloV1
  ap_selected_protocol_version :: u16
  ap_session_id :: bytes32

text \<open>The debug assertions of the source compare a field with the value it was built from.\<close>

definition SessionEndpoint_from_admitted ::
  "ConnectionGeneration \<Rightarrow> AdmittedPeer \<Rightarrow> SessionEndpoint option" where
  "SessionEndpoint_from_admitted generation peer =
     SessionEndpoint_validated (hello_peer_id (ap_remote_hello peer))
       (hello_host_id (ap_remote_hello peer)) generation (ap_selected_protocol_version peer)
       (ap_session_id peer)"

record CurrentAdmittedSession =
  cas_endpoint :: SessionEndpoint
  cas_transport_identity :: TransportPeerIdentity
  cas_local_hello :: HelloV1
  cas_remote_hello :: HelloV1

definition CurrentAdmittedSession_from_admitted ::
  "ConnectionGeneration \<Rightarrow> AdmittedPeer \<Rightarrow> CurrentAdmittedSession option" where
  "CurrentAdmittedSession_from_admitted generation peer =
     (case SessionEndpoint_from_admitted generation peer of
        None \<Rightarrow> None
      | Some endpoint \<Rightarrow>
          Some \<lparr>cas_endpoint = endpoint, cas_transport_identity = ap_transport_identity peer,
                cas_local_hello = ap_local_hello peer, cas_remote_hello = ap_remote_hello peer\<rparr>)"

definition matches_admitted ::
  "ConnectionGeneration \<Rightarrow> AdmittedPeer \<Rightarrow> CurrentAdmittedSession \<Rightarrow> bool" where
  "matches_admitted generation peer session \<longleftrightarrow>
     SessionEndpoint_from_admitted generation peer = Some (cas_endpoint session)
     \<and> cas_transport_identity session = ap_transport_identity peer
     \<and> cas_local_hello session = ap_local_hello peer
     \<and> cas_remote_hello session = ap_remote_hello peer"

definition cas_generation :: "CurrentAdmittedSession \<Rightarrow> ConnectionGeneration" where
  "cas_generation session = se_generation (cas_endpoint session)"

definition cas_local_host_id :: "CurrentAdmittedSession \<Rightarrow> HostId" where
  "cas_local_host_id session = hello_host_id (cas_local_hello session)"

definition cas_remote_host_id :: "CurrentAdmittedSession \<Rightarrow> HostId" where
  "cas_remote_host_id session = se_host_id (cas_endpoint session)"

lemma matches_admitted_iff:
  "matches_admitted g peer session \<longleftrightarrow> CurrentAdmittedSession_from_admitted g peer = Some session"
  by (cases session)
    (auto simp: matches_admitted_def CurrentAdmittedSession_from_admitted_def split: option.splits)

text \<open>The derived order of generations compares the gate before the sequence.\<close>

definition generation_rank :: "ConnectionGeneration \<Rightarrow> u64 \<times> u64" where
  "generation_rank g = (cg_gate_instance_id g, cg_sequence g)"

lemma generation_rank_inj [simp]: "generation_rank a = generation_rank b \<longleftrightarrow> a = b"
  by (cases a; cases b) (simp add: generation_rank_def)

section \<open>Checked sums\<close>

definition checked_add_usize :: "nat \<Rightarrow> nat \<Rightarrow> nat option" where
  "checked_add_usize a b = (if a + b < 2 ^ 64 then Some (a + b) else None)"

fun checked_total :: "nat \<Rightarrow> nat list \<Rightarrow> nat option" where
  "checked_total acc [] = Some acc"
| "checked_total acc (n # ns) =
     (case checked_add_usize acc n of None \<Rightarrow> None | Some acc \<Rightarrow> checked_total acc ns)"

lemma checked_total_Some: "checked_total acc ns = Some t \<Longrightarrow> t = acc + sum_list ns"
  by (induction ns arbitrary: acc) (fastforce simp: checked_add_usize_def split: option.splits if_splits)+

lemma checked_total_room: "acc + sum_list ns < 2 ^ 64 \<Longrightarrow> checked_total acc ns = Some (acc + sum_list ns)"
  by (induction ns arbitrary: acc) (simp_all add: checked_add_usize_def)

section \<open>Tables of hosts and of their items\<close>

definition entry_total :: "('r \<Rightarrow> nat) \<Rightarrow> ('k \<times> 'r) list \<Rightarrow> nat" where
  "entry_total w m = sum_list (map (\<lambda>(_, r). w r) m)"

lemma entry_total_Nil [simp]: "entry_total w [] = 0"
  by (simp add: entry_total_def)

lemma entry_total_Cons [simp]: "entry_total w ((k, r) # m) = w r + entry_total w m"
  by (simp add: entry_total_def)

lemma filter_above: "\<forall>k'\<in>fst ` set m. h < k' \<Longrightarrow> filter (\<lambda>(k, _). k \<noteq> h) m = m" for h :: "'k::linorder"
  by (rule filter_True) force

lemma entry_total_insert:
  "sorted_map m \<Longrightarrow> entry_total w (bt_insert h r m) = entry_total w (filter (\<lambda>(k, _). k \<noteq> h) m) + w r"
proof (induction m)
  case (Cons x m)
  obtain k q where x: "x = (k, q)" by (cases x)
  have "h < k \<Longrightarrow> filter (\<lambda>(k, _). k \<noteq> h) m = m" "h = k \<Longrightarrow> filter (\<lambda>(k, _). k \<noteq> h) m = m"
    using Cons.prems by (auto simp: x sorted_map_Cons intro!: filter_above)
  then show ?case using Cons by (auto simp: x sorted_map_Cons)
qed simp

lemma entry_total_filter: "entry_total w (filter P m) \<le> entry_total w m"
  by (induction m) (auto simp: entry_total_def)

lemma entry_total_delete: "entry_total w (AList.delete h m) \<le> entry_total w m"
  unfolding AList.delete_eq by (rule entry_total_filter)

lemma entry_total_others: "entry_total w m + n \<le> t \<Longrightarrow> entry_total w (filter P m) + n \<le> t"
  using entry_total_filter[of w P m] by linarith

lemma entry_total_member:
  assumes "sorted_map m" "map_of m h = Some r"
  shows "entry_total w (filter (\<lambda>(k, _). k \<noteq> h) m) + w r = entry_total w m"
  using assms
proof (induction m)
  case (Cons x m)
  obtain k q where x: "x = (k, q)" by (cases x)
  have "h = k \<Longrightarrow> filter (\<lambda>(k, _). k \<noteq> h) m = m"
    using Cons.prems(1) by (auto simp: x sorted_map_Cons intro!: filter_above)
  then show ?case using Cons by (auto simp: x sorted_map_Cons)
qed simp

text \<open>
  The loop that publishes a table of host records: it inserts the view of every record into a fresh
  map and adds up the sizes.  Over a sorted table the result is the mapped table.
\<close>

locale host_table =
  fixes weight :: "'r \<Rightarrow> nat"
    and view :: "'k::linorder \<Rightarrow> 'r \<Rightarrow> 'v"
    and build :: "('k \<times> 'v) list \<Rightarrow> nat \<Rightarrow> 'p"
    and loop :: "('k \<times> 'r) list \<Rightarrow> ('k \<times> 'v) list \<Rightarrow> nat \<Rightarrow> 'p"
  assumes loop_Nil: "loop [] hosts n = build hosts n"
    and loop_Cons: "loop ((h, r) # rest) hosts n = loop rest (bt_insert h (view h r) hosts) (n + weight r)"
begin

lemma loop_from:
  assumes "sorted_map m" "\<forall>k\<in>fst ` set hosts. \<forall>k'\<in>fst ` set m. k < k'"
  shows "loop m hosts n = build (hosts @ map (\<lambda>(h, r). (h, view h r)) m) (n + entry_total weight m)"
  using assms
proof (induction m arbitrary: hosts n)
  case (Cons x m)
  obtain h r where x: "x = (h, r)" by (cases x)
  have "bt_insert h (view h r) hosts = hosts @ [(h, view h r)]"
    using Cons.prems(2) by (intro bt_insert_snoc) (auto simp: x)
  moreover have "\<forall>k\<in>fst ` set (hosts @ [(h, view h r)]). \<forall>k'\<in>fst ` set m. k < k'"
    using Cons.prems by (auto simp: x sorted_map_Cons)
  ultimately show ?case
    using Cons by (simp add: x sorted_map_Cons loop_Cons add.assoc)
qed (simp add: loop_Nil)

lemma loop_eq: "sorted_map m \<Longrightarrow> loop m [] 0 = build (map (\<lambda>(h, r). (h, view h r)) m) (entry_total weight m)"
  by (simp add: loop_from)

lemma map_of_view:
  "map_of (map (\<lambda>(h, r). (h, view h r)) m) h = map_option (view h) (map_of m h)"
  by (induction m) auto

end

text \<open>
  The loop that checks a list of items and indexes them by their key.  It keeps a well-formed table
  well formed, and it gives back the table whose items it is fed in order.
\<close>

definition items_ok :: "('d \<Rightarrow> 'k::linorder) \<Rightarrow> ('h \<Rightarrow> 'd \<Rightarrow> bool) \<Rightarrow> 'h \<Rightarrow> ('k \<times> 'd) list \<Rightarrow> bool" where
  "items_ok key good h m \<longleftrightarrow> sorted_map m \<and> (\<forall>(k, d)\<in>set m. k = key d \<and> good h d)"

lemma items_ok_Nil [simp]: "items_ok key good h []"
  by (simp add: items_ok_def)

lemma items_ok_insert: "items_ok key good h m \<Longrightarrow> good h d \<Longrightarrow> items_ok key good h (bt_insert (key d) d m)"
  by (auto simp: items_ok_def set_bt_insert)

lemma items_ok_delete: "items_ok key good h m \<Longrightarrow> items_ok key good h (AList.delete k m)"
  unfolding items_ok_def by (auto simp: AList.delete_eq)

lemma items_ok_list:
  assumes "items_ok key good h m"
  shows "\<forall>d\<in>set (map snd m). good h d" "map key (map snd m) = map fst m" "distinct (map fst m)"
  using assms sorted_map_distinct[of m] by (auto simp: items_ok_def distinct_keys_def)

locale item_table =
  fixes check :: "'d \<Rightarrow> 'h \<Rightarrow> ('e, unit) result"
    and key :: "'d \<Rightarrow> 'k::linorder"
    and good :: "'h \<Rightarrow> 'd \<Rightarrow> bool"
    and duplicate :: 'e
    and loop :: "'d list \<Rightarrow> 'h \<Rightarrow> ('k \<times> 'd) list \<Rightarrow> ('e, ('k \<times> 'd) list) result"
  assumes check_iff: "check d h = Inr () \<longleftrightarrow> good h d"
    and loop_Nil: "loop [] h m = Inr m"
    and loop_Cons: "loop (d # ds) h m = and_then (check d h) (\<lambda>_.
       if map_of m (key d) \<noteq> None then Inl duplicate else loop ds h (bt_insert (key d) d m))"
begin

lemma loop_ok:
  "loop ds h m = Inr c \<Longrightarrow> items_ok key good h m \<Longrightarrow> items_ok key good h c \<and> length c = length m + length ds"
proof (induction ds arbitrary: m)
  case (Cons d ds)
  then have n: "key d \<notin> fst ` set m" "good h d"
    by (auto simp: loop_Cons check_iff map_of_eq_None_iff split: if_splits)
  have "loop ds h (bt_insert (key d) d m) = Inr c"
    using Cons.prems(1) by (auto simp: loop_Cons split: if_splits)
  moreover have "length (bt_insert (key d) d m) = Suc (length m)"
    using n Cons.prems(2) by (simp add: items_ok_def length_bt_insert)
  ultimately show ?case
    using Cons.IH items_ok_insert[of key good h m d, OF Cons.prems(2) n(2)] by fastforce
qed (simp add: loop_Nil)

lemma loop_rebuilds_from:
  assumes "items_ok key good h m" "sorted_map (acc @ m)"
  shows "loop (map snd m) h acc = Inr (acc @ m)"
  using assms
proof (induction m arbitrary: acc)
  case (Cons x m)
  obtain k d where x: "x = (k, d)" by (cases x)
  have d: "k = key d" "good h d" "items_ok key good h m"
    using Cons.prems(1) by (auto simp: x items_ok_def sorted_map_Cons)
  have below: "\<forall>k'\<in>fst ` set acc. k' < k"
    using Cons.prems(2) by (auto simp: x sorted_map_def sorted_wrt_append)
  then have "map_of acc (key d) = None"
    by (auto simp: map_of_eq_None_iff d(1))
  moreover have "bt_insert (key d) d acc = acc @ [x]"
    using bt_insert_snoc[OF below] by (simp add: x d(1))
  ultimately show ?case
    using Cons.IH[OF d(3), of "acc @ [x]"] Cons.prems(2) d(2) check_iff[of d h]
    by (simp add: x loop_Cons)
qed (simp add: loop_Nil)

lemma loop_rebuilds: "items_ok key good h m \<Longrightarrow> loop (map snd m) h [] = Inr m"
  by (simp add: loop_rebuilds_from items_ok_def)

end

section \<open>Revisions never go back\<close>

text \<open>
  The contract of a revisioned publisher: a revision that is \<open>spent\<close> for a source stays spent, an
  operation publishes only what is not spent, and publishing spends every revision up to the
  published one.  Then the revisions of each source strictly increase over any run.
\<close>

fun publication_log ::
  "('op \<Rightarrow> 's \<Rightarrow> 's) \<Rightarrow> ('op \<Rightarrow> 's \<Rightarrow> ('src \<times> 'rev) option) \<Rightarrow> 'op list \<Rightarrow> 's \<Rightarrow> ('src \<times> 'rev) list" where
  "publication_log step publication [] s = []"
| "publication_log step publication (op # ops) s =
     (case publication op s of None \<Rightarrow> [] | Some p \<Rightarrow> [p])
     @ publication_log step publication ops (step op s)"

locale revision_ledger =
  fixes step :: "'op \<Rightarrow> 's \<Rightarrow> 's"
    and inv :: "'s \<Rightarrow> bool"
    and publication :: "'op \<Rightarrow> 's \<Rightarrow> ('src \<times> 'rev::linorder) option"
    and spent :: "'s \<Rightarrow> 'src \<Rightarrow> 'rev \<Rightarrow> bool"
  assumes inv_step: "inv s \<Longrightarrow> inv (step op s)"
    and spent_step: "inv s \<Longrightarrow> spent s src r \<Longrightarrow> spent (step op s) src r"
    and publication_fresh: "inv s \<Longrightarrow> publication op s = Some (src, r) \<Longrightarrow> \<not> spent s src r"
    and publication_spends: "inv s \<Longrightarrow> publication op s = Some (src, r) \<Longrightarrow> q \<le> r \<Longrightarrow> spent (step op s) src q"
begin

lemma log_fresh:
  assumes "inv s" "spent s src r" "(src, q) \<in> set (publication_log step publication ops s)"
  shows "q \<noteq> r"
  using assms
proof (induction ops arbitrary: s)
  case (Cons op ops)
  show ?case
  proof (cases "publication op s = Some (src, q)")
    case True
    then show ?thesis using publication_fresh[OF Cons.prems(1) True] Cons.prems(2) by auto
  next
    case False
    then have "(src, q) \<in> set (publication_log step publication ops (step op s))"
      using Cons.prems(3) by (auto split: option.splits)
    then show ?thesis
      using Cons.IH[OF inv_step[OF Cons.prems(1)] spent_step[OF Cons.prems(1,2)]] by blast
  qed
qed simp

lemma log_increasing:
  "inv s \<Longrightarrow> sorted_wrt (\<lambda>(a, r) (b, q). a = b \<longrightarrow> r < q) (publication_log step publication ops s)"
proof (induction ops arbitrary: s)
  case (Cons op ops)
  have tail: "sorted_wrt (\<lambda>(a, r) (b, q). a = b \<longrightarrow> r < q) (publication_log step publication ops (step op s))"
    by (rule Cons.IH[OF inv_step[OF Cons.prems]])
  show ?case
  proof (cases "publication op s")
    case (Some p)
    obtain src r where p: "p = (src, r)" by (cases p)
    have "r < q" if "(src, q) \<in> set (publication_log step publication ops (step op s))" for q
    proof (rule ccontr)
      assume "\<not> r < q"
      then have "spent (step op s) src q"
        using publication_spends[OF Cons.prems] Some p by auto
      then show False using log_fresh[OF inv_step[OF Cons.prems] _ that] by blast
    qed
    then show ?thesis using tail Some p by auto
  qed (use tail in simp)
qed simp

end

section \<open>A concrete session\<close>

definition demo_hello :: "id128 \<Rightarrow> HelloV1" where
  "demo_hello h = \<lparr>hello_host_id = h, hello_peer_id = h, hello_host_name = [77], hello_platform = WireMacOs,
     hello_minimum_protocol_version = 1, hello_maximum_protocol_version = 3, hello_daemon_version = [49],
     hello_nonce = 1\<rparr>"

definition demo_session :: "id128 \<Rightarrow> id128 \<Rightarrow> u64 \<Rightarrow> CurrentAdmittedSession" where
  "demo_session here there g = \<lparr>cas_endpoint = SessionEndpoint there there \<lparr>cg_gate_instance_id = 1, cg_sequence = g\<rparr> 3 1,
     cas_transport_identity = \<lparr>tpi_host_id = there, tpi_peer_id = there, tpi_credential_fingerprint = 1\<rparr>,
     cas_local_hello = demo_hello here, cas_remote_hello = demo_hello there\<rparr>"

end
