(* ===== verification/DeviceInventory.thy ===== *)
theory DeviceInventory
  imports InventoryBase
begin

text \<open>
  The device inventory of \<^verbatim>\<open>kvm-daemon/src/device_inventory.rs\<close>: per host one record of devices with its
  source and revision, one slot per remote host for its sessions, and the snapshot readers load.
  \<^verbatim>\<open>ArcSwap\<close> is the field \<open>dv_published\<close>; identifiers on the wire are the same words as in the domain.
\<close>

section \<open>Configuration and errors\<close>

definition MAX_DEVICE_INVENTORY_REMOTE_HOSTS :: nat where
  "MAX_DEVICE_INVENTORY_REMOTE_HOSTS = 256"
definition MAX_DEVICE_INVENTORY_PER_HOST :: nat where
  "MAX_DEVICE_INVENTORY_PER_HOST = MAX_SNAPSHOT_ITEMS"
definition MAX_DEVICE_INVENTORY_TOTAL :: nat where
  "MAX_DEVICE_INVENTORY_TOTAL = 4096"

record DeviceInventoryConfig =
  dic_remote_hosts :: nat
  dic_devices_per_host :: nat
  dic_total_devices :: nat

definition DeviceInventoryConfig_default :: DeviceInventoryConfig where
  "DeviceInventoryConfig_default =
     \<lparr>dic_remote_hosts = 32, dic_devices_per_host = 256, dic_total_devices = 1024\<rparr>"

datatype DeviceInventoryError =
    DvInvalidConfiguration | DvInvalidHost | DvInvalidMessage | DvInvalidDevice | DvInvalidRevision
  | DvDuplicateDevice | DvDeviceAlreadyExists | DvDeviceNotFound | DvCapacityExceeded
  | DvStaleRevision | DvRevisionGap | DvRevisionExhausted | DvInventoryUnavailable
  | DvSessionMismatch

definition DeviceInventoryConfig_validate ::
  "DeviceInventoryConfig \<Rightarrow> (DeviceInventoryError, DeviceInventoryConfig) result" where
  "DeviceInventoryConfig_validate c =
     (if dic_remote_hosts c = 0
         \<or> dic_remote_hosts c > MAX_DEVICE_INVENTORY_REMOTE_HOSTS
         \<or> dic_devices_per_host c = 0
         \<or> dic_devices_per_host c > MAX_DEVICE_INVENTORY_PER_HOST
         \<or> dic_total_devices c = 0
         \<or> dic_total_devices c > MAX_DEVICE_INVENTORY_TOTAL
         \<or> dic_devices_per_host c > dic_total_devices c
      then Inl DvInvalidConfiguration
      else Inr c)"

section \<open>State\<close>

record HostDeviceInventorySnapshot =
  hdi_host_id :: HostId
  hdi_revision :: u64
  hdi_devices :: "(DeviceId, InputDevice) btree_map"

record DeviceInventorySnapshot =
  dis_hosts :: "(HostId, HostDeviceInventorySnapshot) btree_map"
  dis_device_count :: nat

definition DeviceInventorySnapshot_default :: DeviceInventorySnapshot where
  "DeviceInventorySnapshot_default = \<lparr>dis_hosts = [], dis_device_count = 0\<rparr>"

definition dis_device :: "DeviceInventorySnapshot \<Rightarrow> HostId \<Rightarrow> DeviceId \<Rightarrow> InputDevice option" where
  "dis_device v h d =
     (case map_of (dis_hosts v) h of None \<Rightarrow> None | Some entry \<Rightarrow> map_of (hdi_devices entry) d)"

definition owns_device :: "DeviceInventorySnapshot \<Rightarrow> HostId \<Rightarrow> DeviceId \<Rightarrow> bool" where
  "owns_device v h d \<longleftrightarrow>
     (case map_of (dis_hosts v) h of None \<Rightarrow> False | Some entry \<Rightarrow> map_of (hdi_devices entry) d \<noteq> None)"

definition dis_devices :: "DeviceInventorySnapshot \<Rightarrow> InputDevice list" where
  "dis_devices v = concat (map (\<lambda>(_, entry). map snd (hdi_devices entry)) (dis_hosts v))"

record DeviceBinding =
  dvb_generation :: ConnectionGeneration
  dvb_local_host_id :: HostId
  dvb_remote_host_id :: HostId
  dvb_remote_peer_id :: PeerId
  dvb_credential_fingerprint :: bytes32

datatype DeviceSource = DvLocal | DvRemote DeviceBinding

record DeviceHostRecord =
  dhr_source :: DeviceSource
  dhr_revision :: u64
  dhr_devices :: "(DeviceId, InputDevice) btree_map"

record RemoteSessionSlot =
  rss_current :: "DeviceBinding option"
  rss_retired :: "DeviceBinding option"
  rss_suspended_revision :: "u64 option"

definition RemoteSessionSlot_default :: RemoteSessionSlot where
  "RemoteSessionSlot_default = \<lparr>rss_current = None, rss_retired = None, rss_suspended_revision = None\<rparr>"

record DeviceInventory =
  dv_local_host_id :: HostId
  dv_config :: DeviceInventoryConfig
  dv_remote_sessions :: "(HostId, RemoteSessionSlot) btree_map"
  dv_remote_shutdown :: bool
  dv_records :: "(HostId, DeviceHostRecord) btree_map"
  dv_published :: DeviceInventorySnapshot

type_synonym device_answer = "(DeviceInventoryError, DeviceInventorySnapshot) result \<times> DeviceInventory"

definition DeviceInventory_new ::
  "HostId \<Rightarrow> DeviceInventoryConfig \<Rightarrow> (DeviceInventoryError, DeviceInventory) result" where
  "DeviceInventory_new host config =
     (if host = nil_id then Inl DvInvalidHost
      else case DeviceInventoryConfig_validate config of
        Inl e \<Rightarrow> Inl e
      | Inr config \<Rightarrow>
          Inr \<lparr>dv_local_host_id = host, dv_config = config, dv_remote_sessions = [],
               dv_remote_shutdown = False, dv_records = [],
               dv_published = DeviceInventorySnapshot_default\<rparr>)"

definition contains_local_device :: "DeviceId \<Rightarrow> DeviceInventory \<Rightarrow> bool" where
  "contains_local_device d s \<longleftrightarrow>
     (case map_of (dv_records s) (dv_local_host_id s) of
        None \<Rightarrow> False
      | Some r \<Rightarrow> dhr_source r = DvLocal \<and> map_of (dhr_devices r) d \<noteq> None)"

definition local_device :: "DeviceId \<Rightarrow> DeviceInventory \<Rightarrow> InputDevice option" where
  "local_device d s =
     (case map_of (dv_records s) (dv_local_host_id s) of
        None \<Rightarrow> None
      | Some r \<Rightarrow> if dhr_source r = DvLocal then map_of (dhr_devices r) d else None)"

section \<open>Checks on devices and revisions\<close>

definition validate_exact_next :: "u64 \<Rightarrow> u64 \<Rightarrow> (DeviceInventoryError, unit) result" where
  "validate_exact_next current proposed =
     (if proposed = 0 then Inl DvInvalidRevision
      else case checked_add_u64 current 1 of
        None \<Rightarrow> Inl DvRevisionExhausted
      | Some n \<Rightarrow>
          if proposed < n then Inl DvStaleRevision
          else if n < proposed then Inl DvRevisionGap
          else Inr ())"

definition validate_domain_device :: "InputDevice \<Rightarrow> HostId \<Rightarrow> (DeviceInventoryError, unit) result" where
  "validate_domain_device device expected_host =
     (if expected_host = nil_id
         \<or> dev_id device = nil_id
         \<or> dev_host_id device \<noteq> expected_host
         \<or> str_trim (dev_name device) = []
         \<or> str_len (dev_name device) > MAX_DEVICE_NAME_BYTES
         \<or> list_ex is_control (dev_name device)
      then Inl DvInvalidDevice
      else Inr ())"

fun device_kind_from_wire :: "WireDeviceKind \<Rightarrow> DeviceKind" where
  "device_kind_from_wire WireKeyboard = Keyboard"
| "device_kind_from_wire WireMouse = Mouse"
| "device_kind_from_wire WireTrackpad = Trackpad"
| "device_kind_from_wire WireOtherDevice = OtherDevice"

fun device_kind_to_wire :: "DeviceKind \<Rightarrow> WireDeviceKind" where
  "device_kind_to_wire Keyboard = WireKeyboard"
| "device_kind_to_wire Mouse = WireMouse"
| "device_kind_to_wire Trackpad = WireTrackpad"
| "device_kind_to_wire OtherDevice = WireOtherDevice"

definition device_from_wire ::
  "WireInputDeviceV1 \<Rightarrow> HostId \<Rightarrow> (DeviceInventoryError, InputDevice) result" where
  "device_from_wire wire expected_host =
     (if wdev_host_id wire \<noteq> expected_host then Inl DvSessionMismatch
      else let c = wdev_capabilities wire;
               device = \<lparr>dev_id = wdev_id wire, dev_host_id = wdev_host_id wire,
                 dev_name = wdev_name wire, dev_vendor_id = wdev_vendor_id wire,
                 dev_product_id = wdev_product_id wire,
                 dev_kind = device_kind_from_wire (wdev_kind wire),
                 dev_capabilities = \<lparr>cap_pointer = wcap_pointer c, cap_keyboard = wcap_keyboard c,
                   cap_vertical_scroll = wcap_vertical_scroll c,
                   cap_horizontal_scroll = wcap_horizontal_scroll c,
                   cap_extra_buttons = wcap_extra_buttons c\<rparr>\<rparr>
           in and_then (validate_domain_device device expected_host) (\<lambda>_. Inr device))"

definition device_to_wire :: "InputDevice \<Rightarrow> WireInputDeviceV1" where
  "device_to_wire device =
     (let c = dev_capabilities device in
      \<lparr>wdev_id = dev_id device, wdev_host_id = dev_host_id device, wdev_name = dev_name device,
       wdev_vendor_id = dev_vendor_id device, wdev_product_id = dev_product_id device,
       wdev_kind = device_kind_to_wire (dev_kind device),
       wdev_capabilities = \<lparr>wcap_pointer = cap_pointer c, wcap_keyboard = cap_keyboard c,
         wcap_vertical_scroll = cap_vertical_scroll c,
         wcap_horizontal_scroll = cap_horizontal_scroll c,
         wcap_extra_buttons = cap_extra_buttons c\<rparr>\<rparr>)"

fun wire_devices_loop ::
  "WireInputDeviceV1 list \<Rightarrow> HostId \<Rightarrow> DeviceId set \<Rightarrow> (DeviceInventoryError, unit) result" where
  "wire_devices_loop [] expected_host seen = Inr ()"
| "wire_devices_loop (wire # rest) expected_host seen =
     and_then (device_from_wire wire expected_host) (\<lambda>device.
       if dev_id device \<in> seen then Inl DvDuplicateDevice
       else wire_devices_loop rest expected_host (insert (dev_id device) seen))"

definition validate_wire_snapshot ::
  "DeviceSnapshotV1 \<Rightarrow> HostId \<Rightarrow> nat \<Rightarrow> (DeviceInventoryError, unit) result" where
  "validate_wire_snapshot message expected_host maximum_devices =
     (case DeviceSnapshotV1_validate message of
        Inl _ \<Rightarrow> Inl DvInvalidMessage
      | Inr _ \<Rightarrow>
          if expected_host = nil_id \<or> dsnap_host_id message \<noteq> expected_host
          then Inl DvSessionMismatch
          else if length (dsnap_devices message) > maximum_devices
                  \<or> length (dsnap_devices message) > MAX_SNAPSHOT_ITEMS
          then Inl DvCapacityExceeded
          else wire_devices_loop (dsnap_devices message) expected_host {})"

section \<open>Publishing and capacity\<close>

definition device_total_capacity ::
  "HostId \<Rightarrow> nat \<Rightarrow> DeviceInventory \<Rightarrow> (DeviceInventoryError, unit) result" where
  "device_total_capacity replacing_host replacement_count s =
     (case checked_total 0
             (map (\<lambda>(_, r). length (dhr_devices r)) (filter (\<lambda>(h, _). h \<noteq> replacing_host) (dv_records s))) of
        None \<Rightarrow> Inl DvCapacityExceeded
      | Some elsewhere \<Rightarrow>
          (case checked_add_usize elsewhere replacement_count of
             None \<Rightarrow> Inl DvCapacityExceeded
           | Some t \<Rightarrow> if t > dic_total_devices (dv_config s) then Inl DvCapacityExceeded else Inr ()))"

fun device_publish_loop ::
  "(HostId \<times> DeviceHostRecord) list \<Rightarrow> (HostId, HostDeviceInventorySnapshot) btree_map \<Rightarrow> nat \<Rightarrow>
   DeviceInventorySnapshot" where
  "device_publish_loop [] hosts count = \<lparr>dis_hosts = hosts, dis_device_count = count\<rparr>"
| "device_publish_loop ((h, r) # rest) hosts count =
     device_publish_loop rest
       (bt_insert h \<lparr>hdi_host_id = h, hdi_revision = dhr_revision r, hdi_devices = dhr_devices r\<rparr> hosts)
       (count + length (dhr_devices r))"

definition device_publish :: "DeviceInventory \<Rightarrow> DeviceInventorySnapshot \<times> DeviceInventory" where
  "device_publish s =
     (let snapshot = device_publish_loop (dv_records s) [] 0 in (snapshot, s\<lparr>dv_published := snapshot\<rparr>))"

fun device_candidate_loop ::
  "InputDevice list \<Rightarrow> HostId \<Rightarrow> (DeviceId, InputDevice) btree_map \<Rightarrow>
   (DeviceInventoryError, (DeviceId, InputDevice) btree_map) result" where
  "device_candidate_loop [] host candidate = Inr candidate"
| "device_candidate_loop (device # rest) host candidate =
     and_then (validate_domain_device device host) (\<lambda>_.
       if map_of candidate (dev_id device) \<noteq> None then Inl DvDuplicateDevice
       else device_candidate_loop rest host (bt_insert (dev_id device) device candidate))"

definition device_validate_candidate ::
  "HostId \<Rightarrow> InputDevice list \<Rightarrow> DeviceInventory \<Rightarrow>
   (DeviceInventoryError, (DeviceId, InputDevice) btree_map) result" where
  "device_validate_candidate host devices s =
     (if length devices > dic_devices_per_host (dv_config s) then Inl DvCapacityExceeded
      else device_candidate_loop devices host [])"

section \<open>Changing one host's record\<close>

definition device_store ::
  "DeviceSource \<Rightarrow> HostId \<Rightarrow> u64 \<Rightarrow> (DeviceId, InputDevice) btree_map \<Rightarrow> DeviceInventory \<Rightarrow> device_answer" where
  "device_store source host revision candidate s =
     (let (snapshot, s) = device_publish (s\<lparr>dv_records := bt_insert host
            \<lparr>dhr_source = source, dhr_revision = revision, dhr_devices = candidate\<rparr> (dv_records s)\<rparr>)
      in (Inr snapshot, s))"

definition device_apply_snapshot ::
  "DeviceSource \<Rightarrow> HostId \<Rightarrow> u64 \<Rightarrow> InputDevice list \<Rightarrow> DeviceInventory \<Rightarrow> device_answer" where
  "device_apply_snapshot source host revision devices s =
     (if revision = 0 then (Inl DvInvalidRevision, s)
      else case (case map_of (dv_records s) host of
                   None \<Rightarrow> Inr ()
                 | Some existing \<Rightarrow>
                     if dhr_source existing \<noteq> source then Inl DvSessionMismatch
                     else if revision \<le> dhr_revision existing then Inl DvStaleRevision
                     else Inr ()) of
        Inl e \<Rightarrow> (Inl e, s)
      | Inr _ \<Rightarrow>
          (case device_validate_candidate host devices s of
             Inl e \<Rightarrow> (Inl e, s)
           | Inr candidate \<Rightarrow>
               (case device_total_capacity host (length candidate) s of
                  Inl e \<Rightarrow> (Inl e, s)
                | Inr _ \<Rightarrow> device_store source host revision candidate s)))"

definition device_apply_add ::
  "DeviceSource \<Rightarrow> HostId \<Rightarrow> u64 \<Rightarrow> InputDevice \<Rightarrow> DeviceInventory \<Rightarrow> device_answer" where
  "device_apply_add source host revision device s =
     (case map_of (dv_records s) host of
        None \<Rightarrow> (Inl DvInventoryUnavailable, s)
      | Some existing \<Rightarrow>
          if dhr_source existing \<noteq> source then (Inl DvSessionMismatch, s)
          else case and_then (validate_exact_next (dhr_revision existing) revision)
                      (\<lambda>_. validate_domain_device device host) of
            Inl e \<Rightarrow> (Inl e, s)
          | Inr _ \<Rightarrow>
              if map_of (dhr_devices existing) (dev_id device) \<noteq> None
              then (Inl DvDeviceAlreadyExists, s)
              else let candidate = bt_insert (dev_id device) device (dhr_devices existing)
                   in if length candidate > dic_devices_per_host (dv_config s)
                      then (Inl DvCapacityExceeded, s)
                      else case device_total_capacity host (length candidate) s of
                        Inl e \<Rightarrow> (Inl e, s)
                      | Inr _ \<Rightarrow> device_store source host revision candidate s)"

definition device_apply_remove ::
  "DeviceSource \<Rightarrow> HostId \<Rightarrow> u64 \<Rightarrow> DeviceId \<Rightarrow> DeviceInventory \<Rightarrow> device_answer" where
  "device_apply_remove source host revision device s =
     (if device = nil_id then (Inl DvInvalidDevice, s)
      else case map_of (dv_records s) host of
        None \<Rightarrow> (Inl DvInventoryUnavailable, s)
      | Some existing \<Rightarrow>
          if dhr_source existing \<noteq> source then (Inl DvSessionMismatch, s)
          else case validate_exact_next (dhr_revision existing) revision of
            Inl e \<Rightarrow> (Inl e, s)
          | Inr _ \<Rightarrow>
              if map_of (dhr_devices existing) device = None then (Inl DvDeviceNotFound, s)
              else device_store source host revision (AList.delete device (dhr_devices existing)) s)"

section \<open>Local inventory\<close>

definition device_apply_local_snapshot :: "u64 \<Rightarrow> InputDevice list \<Rightarrow> DeviceInventory \<Rightarrow> device_answer" where
  "device_apply_local_snapshot revision devices s =
     device_apply_snapshot DvLocal (dv_local_host_id s) revision devices s"

definition device_apply_local_add :: "u64 \<Rightarrow> InputDevice \<Rightarrow> DeviceInventory \<Rightarrow> device_answer" where
  "device_apply_local_add revision device s =
     device_apply_add DvLocal (dv_local_host_id s) revision device s"

definition device_apply_local_remove :: "u64 \<Rightarrow> DeviceId \<Rightarrow> DeviceInventory \<Rightarrow> device_answer" where
  "device_apply_local_remove revision device s =
     device_apply_remove DvLocal (dv_local_host_id s) revision device s"

definition device_local_wire_snapshot ::
  "DeviceInventory \<Rightarrow> (DeviceInventoryError, DeviceSnapshotV1) result" where
  "device_local_wire_snapshot s =
     (case map_of (dv_records s) (dv_local_host_id s) of
        None \<Rightarrow> Inl DvInventoryUnavailable
      | Some r \<Rightarrow>
          if dhr_source r \<noteq> DvLocal then Inl DvInventoryUnavailable
          else let message = \<lparr>dsnap_revision = dhr_revision r, dsnap_host_id = dv_local_host_id s,
                 dsnap_devices = map (\<lambda>(_, d). device_to_wire d) (dhr_devices r)\<rparr>
               in and_then (validate_wire_snapshot message (dv_local_host_id s)
                              (dic_devices_per_host (dv_config s))) (\<lambda>_. Inr message))"

section \<open>Remote sessions\<close>

definition device_binding ::
  "CurrentAdmittedSession \<Rightarrow> DeviceInventory \<Rightarrow> (DeviceInventoryError, DeviceBinding) result" where
  "device_binding session s =
     (let transport = cas_transport_identity session;
          binding = \<lparr>dvb_generation = cas_generation session,
            dvb_local_host_id = cas_local_host_id session,
            dvb_remote_host_id = cas_remote_host_id session,
            dvb_remote_peer_id = tpi_peer_id transport,
            dvb_credential_fingerprint = tpi_credential_fingerprint transport\<rparr>
      in if dvb_local_host_id binding \<noteq> dv_local_host_id s
            \<or> dvb_remote_host_id binding = nil_id
            \<or> dvb_remote_host_id binding = dvb_local_host_id binding
            \<or> dvb_remote_peer_id binding = nil_id
            \<or> tpi_host_id transport \<noteq> dvb_remote_host_id binding
            \<or> hello_peer_id (cas_remote_hello session) \<noteq> dvb_remote_peer_id binding
            \<or> dvb_credential_fingerprint binding = 0
         then Inl DvSessionMismatch
         else Inr binding)"

definition device_activate_binding ::
  "DeviceBinding \<Rightarrow> DeviceInventory \<Rightarrow> (DeviceInventoryError, unit) result \<times> DeviceInventory" where
  "device_activate_binding b s =
     (let h = dvb_remote_host_id b;
          insert_slot = s\<lparr>dv_remote_sessions := bt_insert h
            ((case map_of (dv_remote_sessions s) h of
                None \<Rightarrow> RemoteSessionSlot_default | Some slot \<Rightarrow> slot)
             \<lparr>rss_current := Some b, rss_suspended_revision := None\<rparr>) (dv_remote_sessions s)\<rparr>
      in if dv_remote_shutdown s then (Inl DvSessionMismatch, s)
         else case map_of (dv_remote_sessions s) h of
           Some slot \<Rightarrow>
             if rss_current slot = Some b then (Inr (), s)
             else if rss_current slot \<noteq> None
                     \<or> (case rss_retired slot of None \<Rightarrow> False
                        | Some retired \<Rightarrow>
                            generation_rank (dvb_generation b) \<le> generation_rank (dvb_generation retired))
             then (Inl DvSessionMismatch, s)
             else (Inr (), insert_slot)
         | None \<Rightarrow>
             if length (dv_remote_sessions s) \<ge> dic_remote_hosts (dv_config s)
             then (Inl DvCapacityExceeded, s)
             else (Inr (), insert_slot))"

definition device_require_active ::
  "DeviceBinding \<Rightarrow> DeviceInventory \<Rightarrow> (DeviceInventoryError, unit) result" where
  "device_require_active b s =
     (if Option.bind (map_of (dv_remote_sessions s) (dvb_remote_host_id b)) rss_current = Some b
      then Inr () else Inl DvSessionMismatch)"

definition remote_device_bound ::
  "DeviceBinding \<Rightarrow> DeviceId \<Rightarrow> DeviceInventory \<Rightarrow> (DeviceInventoryError, InputDevice) result" where
  "remote_device_bound b device s =
     (if device = nil_id then Inl DvInvalidDevice
      else and_then (device_require_active b s) (\<lambda>_.
        case map_of (dv_records s) (dvb_remote_host_id b) of
          None \<Rightarrow> Inl DvInventoryUnavailable
        | Some r \<Rightarrow>
            if dhr_source r \<noteq> DvRemote b then Inl DvInventoryUnavailable
            else case map_of (dhr_devices r) device of
              None \<Rightarrow> Inl DvDeviceNotFound
            | Some d \<Rightarrow> Inr d))"

definition device_drop_record :: "HostId \<Rightarrow> DeviceInventory \<Rightarrow> DeviceInventory" where
  "device_drop_record h s = snd (device_publish (s\<lparr>dv_records := AList.delete h (dv_records s)\<rparr>))"

definition device_invalidate_binding :: "DeviceBinding \<Rightarrow> DeviceInventory \<Rightarrow> bool \<times> DeviceInventory" where
  "device_invalidate_binding b s =
     (let h = dvb_remote_host_id b in
      case map_of (dv_remote_sessions s) h of
        None \<Rightarrow> (False, s)
      | Some slot \<Rightarrow>
          if rss_current slot \<noteq> Some b then (False, s)
          else let s = s\<lparr>dv_remote_sessions := bt_adjust h (\<lambda>slot. slot\<lparr>rss_current := None,
                     rss_retired := Some b, rss_suspended_revision := None\<rparr>) (dv_remote_sessions s)\<rparr>
               in case map_of (dv_records s) h of
                    Some r \<Rightarrow> if dhr_source r = DvRemote b then (True, device_drop_record h s) else (True, s)
                  | None \<Rightarrow> (True, s))"

definition device_suspend_binding :: "DeviceBinding \<Rightarrow> DeviceInventory \<Rightarrow> bool \<times> DeviceInventory" where
  "device_suspend_binding b s =
     (let h = dvb_remote_host_id b in
      case map_of (dv_remote_sessions s) h of
        None \<Rightarrow> (False, s)
      | Some slot \<Rightarrow>
          if rss_current slot \<noteq> Some b then (False, s)
          else case map_of (dv_records s) h of
            Some r \<Rightarrow>
              if dhr_source r = DvRemote b
              then let revision = dhr_revision r;
                       s = s\<lparr>dv_remote_sessions := bt_adjust h (\<lambda>slot. slot\<lparr>rss_suspended_revision :=
                             Some (case rss_suspended_revision slot of None \<Rightarrow> revision
                                   | Some current \<Rightarrow> max current revision)\<rparr>) (dv_remote_sessions s)\<rparr>
                   in (True, device_drop_record h s)
              else (True, s)
          | None \<Rightarrow> (True, s))"

definition device_invalidate_all_remote :: "DeviceInventory \<Rightarrow> DeviceInventory" where
  "device_invalidate_all_remote s =
     snd (device_publish (s\<lparr>dv_remote_shutdown := True, dv_remote_sessions := [],
            dv_records := filter (\<lambda>(_, r). dhr_source r = DvLocal) (dv_records s)\<rparr>))"

fun devices_from_wire ::
  "WireInputDeviceV1 list \<Rightarrow> HostId \<Rightarrow> (DeviceInventoryError, InputDevice list) result" where
  "devices_from_wire [] host = Inr []"
| "devices_from_wire (w # ws) host =
     and_then (device_from_wire w host) (\<lambda>d. and_then (devices_from_wire ws host) (\<lambda>ds. Inr (d # ds)))"

definition device_remote_snapshot_bound ::
  "DeviceBinding \<Rightarrow> DeviceSnapshotV1 \<Rightarrow> DeviceInventory \<Rightarrow> device_answer" where
  "device_remote_snapshot_bound b message s =
     (let h = dvb_remote_host_id b in
      case and_then (device_require_active b s) (\<lambda>_.
             validate_wire_snapshot message h (dic_devices_per_host (dv_config s))) of
        Inl e \<Rightarrow> (Inl e, s)
      | Inr _ \<Rightarrow>
          if (case Option.bind (map_of (dv_remote_sessions s) h) rss_suspended_revision of
                None \<Rightarrow> False | Some revision \<Rightarrow> dsnap_revision message \<le> revision)
          then (Inl DvStaleRevision, s)
          else case devices_from_wire (dsnap_devices message) h of
            Inl e \<Rightarrow> (Inl e, s)
          | Inr devices \<Rightarrow>
              (case device_apply_snapshot (DvRemote b) h (dsnap_revision message) devices s of
                 (Inl e, s) \<Rightarrow> (Inl e, s)
               | (Inr snapshot, s) \<Rightarrow>
                   (Inr snapshot, s\<lparr>dv_remote_sessions :=
                      bt_adjust h (\<lambda>slot. slot\<lparr>rss_suspended_revision := None\<rparr>) (dv_remote_sessions s)\<rparr>)))"

definition device_remote_add_bound ::
  "DeviceBinding \<Rightarrow> DeviceAddedV1 \<Rightarrow> DeviceInventory \<Rightarrow> device_answer" where
  "device_remote_add_bound b message s =
     (case and_then (device_require_active b s) (\<lambda>_.
           case DeviceAddedV1_validate message of
             Inl _ \<Rightarrow> Inl DvInvalidMessage
           | Inr _ \<Rightarrow> device_from_wire (dadd_device message) (dvb_remote_host_id b)) of
        Inl e \<Rightarrow> (Inl e, s)
      | Inr device \<Rightarrow>
          device_apply_add (DvRemote b) (dvb_remote_host_id b) (dadd_revision message) device s)"

definition device_remote_remove_bound ::
  "DeviceBinding \<Rightarrow> DeviceRemovedV1 \<Rightarrow> DeviceInventory \<Rightarrow> device_answer" where
  "device_remote_remove_bound b message s =
     (case device_require_active b s of
        Inl e \<Rightarrow> (Inl e, s)
      | Inr _ \<Rightarrow>
          (case DeviceRemovedV1_validate message of
             Inl _ \<Rightarrow> (Inl DvInvalidMessage, s)
           | Inr _ \<Rightarrow>
               if drem_host_id message \<noteq> dvb_remote_host_id b then (Inl DvSessionMismatch, s)
               else if drem_device_id message = nil_id then (Inl DvInvalidDevice, s)
               else device_apply_remove (DvRemote b) (dvb_remote_host_id b) (drem_revision message)
                      (drem_device_id message) s))"

text \<open>The entry points taken by an admitted session.\<close>

definition device_activate_remote ::
  "CurrentAdmittedSession \<Rightarrow> DeviceInventory \<Rightarrow> (DeviceInventoryError, unit) result \<times> DeviceInventory" where
  "device_activate_remote session s =
     (case device_binding session s of Inl e \<Rightarrow> (Inl e, s) | Inr b \<Rightarrow> device_activate_binding b s)"

definition device_apply_remote_snapshot ::
  "CurrentAdmittedSession \<Rightarrow> DeviceSnapshotV1 \<Rightarrow> DeviceInventory \<Rightarrow> device_answer" where
  "device_apply_remote_snapshot session message s =
     (case device_binding session s of
        Inl e \<Rightarrow> (Inl e, s) | Inr b \<Rightarrow> device_remote_snapshot_bound b message s)"

definition device_apply_remote_add ::
  "CurrentAdmittedSession \<Rightarrow> DeviceAddedV1 \<Rightarrow> DeviceInventory \<Rightarrow> device_answer" where
  "device_apply_remote_add session message s =
     (case device_binding session s of
        Inl e \<Rightarrow> (Inl e, s) | Inr b \<Rightarrow> device_remote_add_bound b message s)"

definition device_apply_remote_remove ::
  "CurrentAdmittedSession \<Rightarrow> DeviceRemovedV1 \<Rightarrow> DeviceInventory \<Rightarrow> device_answer" where
  "device_apply_remote_remove session message s =
     (case device_binding session s of
        Inl e \<Rightarrow> (Inl e, s) | Inr b \<Rightarrow> device_remote_remove_bound b message s)"

definition remote_device ::
  "CurrentAdmittedSession \<Rightarrow> DeviceId \<Rightarrow> DeviceInventory \<Rightarrow> (DeviceInventoryError, InputDevice) result" where
  "remote_device session device s =
     and_then (device_binding session s) (\<lambda>b. remote_device_bound b device s)"

definition device_invalidate_remote :: "CurrentAdmittedSession \<Rightarrow> DeviceInventory \<Rightarrow> bool \<times> DeviceInventory" where
  "device_invalidate_remote session s =
     (case device_binding session s of Inl _ \<Rightarrow> (False, s) | Inr b \<Rightarrow> device_invalidate_binding b s)"

definition device_suspend_remote :: "CurrentAdmittedSession \<Rightarrow> DeviceInventory \<Rightarrow> bool \<times> DeviceInventory" where
  "device_suspend_remote session s =
     (case device_binding session s of Inl _ \<Rightarrow> (False, s) | Inr b \<Rightarrow> device_suspend_binding b s)"

end
