(* ===== verification/DeviceLedger.thy ===== *)
theory DeviceLedger
  imports DeviceInventory
begin

text \<open>
  What the device inventory guarantees.  Every accepted change is one store under \<open>change_ok\<close>, so the
  invariant is proved once for the store and once per session operation; the interpretation
  \<open>device_ledger\<close> gives the order of revisions.  The published listing refines an abstract one on
  which every accepted operation has its plain effect.
\<close>

section \<open>Totals and published views\<close>

abbreviation device_size :: "DeviceHostRecord \<Rightarrow> nat" where
  "device_size r \<equiv> length (dhr_devices r)"

abbreviation device_total :: "(HostId, DeviceHostRecord) btree_map \<Rightarrow> nat" where
  "device_total \<equiv> entry_total device_size"

definition device_view :: "HostId \<Rightarrow> DeviceHostRecord \<Rightarrow> HostDeviceInventorySnapshot" where
  "device_view h r = \<lparr>hdi_host_id = h, hdi_revision = dhr_revision r, hdi_devices = dhr_devices r\<rparr>"

definition device_projection :: "(HostId, DeviceHostRecord) btree_map \<Rightarrow> DeviceInventorySnapshot" where
  "device_projection m = \<lparr>dis_hosts = map (\<lambda>(h, r). (h, device_view h r)) m, dis_device_count = device_total m\<rparr>"

interpretation device_table: host_table device_size device_view
    "\<lambda>hosts n. \<lparr>dis_hosts = hosts, dis_device_count = n\<rparr>" device_publish_loop
  by unfold_locales (simp_all add: device_view_def)

lemma device_publish_eq:
  "sorted_map (dv_records s) \<Longrightarrow>
   device_publish s = (device_projection (dv_records s), s\<lparr>dv_published := device_projection (dv_records s)\<rparr>)"
  by (simp add: device_publish_def device_table.loop_eq device_projection_def Let_def)

lemma device_total_capacity_ok:
  "device_total_capacity h n s = Inr u \<Longrightarrow>
   device_total (filter (\<lambda>(k, _). k \<noteq> h) (dv_records s)) + n \<le> dic_total_devices (dv_config s)"
  by (auto simp: device_total_capacity_def entry_total_def checked_add_usize_def
      dest!: checked_total_Some split: option.splits if_splits)

section \<open>Well-formed device tables\<close>

definition device_ok :: "HostId \<Rightarrow> InputDevice \<Rightarrow> bool" where
  "device_ok h d \<longleftrightarrow> h \<noteq> nil_id \<and> dev_id d \<noteq> nil_id \<and> dev_host_id d = h
     \<and> wf_name MAX_DEVICE_NAME_BYTES (dev_name d)"

abbreviation devices_ok :: "HostId \<Rightarrow> (DeviceId, InputDevice) btree_map \<Rightarrow> bool" where
  "devices_ok \<equiv> items_ok dev_id device_ok"

lemma validate_domain_device_iff: "validate_domain_device d h = Inr u \<longleftrightarrow> device_ok h d"
  by (auto simp: validate_domain_device_def device_ok_def wf_name_def str_trim_eq_Nil list_ex_iff)

interpretation device_items: item_table validate_domain_device dev_id device_ok DvDuplicateDevice
    device_candidate_loop
  by unfold_locales (simp_all add: validate_domain_device_iff)

lemma validate_candidate_ok:
  "device_validate_candidate h ds s = Inr c \<Longrightarrow>
   devices_ok h c \<and> length c \<le> dic_devices_per_host (dv_config s)"
  by (auto simp: device_validate_candidate_def dest!: device_items.loop_ok split: if_splits)

lemma validate_exact_next_iff: "validate_exact_next a b = Inr u \<longleftrightarrow> unat b = unat a + 1"
proof (cases "checked_add_u64 a 1")
  case None
  then show ?thesis
    using unat_less_2p[of b] by (auto simp: validate_exact_next_def checked_add_u64_def split: if_splits)
next
  case (Some n)
  then have "unat n = unat a + 1" by (simp add: checked_add_u64_Some)
  then show ?thesis
    using Some by (auto simp: validate_exact_next_def word_less_nat_alt word_unat_eq_iff)
qed

section \<open>The invariant of the device inventory\<close>

definition device_config_ok :: "DeviceInventoryConfig \<Rightarrow> bool" where
  "device_config_ok c \<longleftrightarrow> 0 < dic_remote_hosts c \<and> dic_remote_hosts c \<le> MAX_DEVICE_INVENTORY_REMOTE_HOSTS
     \<and> 0 < dic_devices_per_host c \<and> dic_devices_per_host c \<le> MAX_DEVICE_INVENTORY_PER_HOST
     \<and> dic_devices_per_host c \<le> dic_total_devices c
     \<and> dic_total_devices c \<le> MAX_DEVICE_INVENTORY_TOTAL"

text \<open>A remote record belongs to the session that is active for its host, and that session is not suspended.\<close>

definition source_ok :: "DeviceInventory \<Rightarrow> HostId \<Rightarrow> DeviceSource \<Rightarrow> bool" where
  "source_ok s h src = (case src of
       DvLocal \<Rightarrow> h = dv_local_host_id s
     | DvRemote b \<Rightarrow> h = dvb_remote_host_id b \<and> h \<noteq> dv_local_host_id s
         \<and> (\<exists>slot. map_of (dv_remote_sessions s) h = Some slot \<and> rss_current slot = Some b
              \<and> rss_suspended_revision slot = None))"

definition device_record_ok :: "DeviceInventory \<Rightarrow> HostId \<Rightarrow> DeviceHostRecord \<Rightarrow> bool" where
  "device_record_ok s h r \<longleftrightarrow> source_ok s h (dhr_source r) \<and> 0 < dhr_revision r
     \<and> devices_ok h (dhr_devices r) \<and> length (dhr_devices r) \<le> dic_devices_per_host (dv_config s)"

definition slot_ok :: "DeviceInventory \<Rightarrow> HostId \<Rightarrow> RemoteSessionSlot \<Rightarrow> bool" where
  "slot_ok s h slot \<longleftrightarrow>
     (\<forall>b. rss_current slot = Some b \<longrightarrow> dvb_remote_host_id b = h \<and> h \<noteq> dv_local_host_id s \<and> h \<noteq> nil_id
        \<and> (\<forall>r. rss_retired slot = Some r \<longrightarrow>
              generation_rank (dvb_generation r) < generation_rank (dvb_generation b)))"

definition device_inv :: "DeviceInventory \<Rightarrow> bool" where
  "device_inv s \<longleftrightarrow> device_config_ok (dv_config s) \<and> dv_local_host_id s \<noteq> nil_id
     \<and> sorted_map (dv_records s) \<and> sorted_map (dv_remote_sessions s)
     \<and> length (dv_remote_sessions s) \<le> dic_remote_hosts (dv_config s)
     \<and> (dv_remote_shutdown s \<longrightarrow> dv_remote_sessions s = [])
     \<and> (\<forall>h r. map_of (dv_records s) h = Some r \<longrightarrow> device_record_ok s h r)
     \<and> (\<forall>h slot. map_of (dv_remote_sessions s) h = Some slot \<longrightarrow> slot_ok s h slot)
     \<and> device_total (dv_records s) \<le> dic_total_devices (dv_config s)
     \<and> dv_published s = device_projection (dv_records s)"

lemma device_invD:
  assumes "device_inv s"
  shows "device_config_ok (dv_config s)" "sorted_map (dv_records s)" "sorted_map (dv_remote_sessions s)"
    and "device_total (dv_records s) \<le> dic_total_devices (dv_config s)"
    and "map_of (dv_records s) h = Some r \<Longrightarrow> device_record_ok s h r"
    and "map_of (dv_remote_sessions s) h = Some slot \<Longrightarrow> slot_ok s h slot"
    and "dv_remote_shutdown s \<Longrightarrow> dv_remote_sessions s = []"
    and "dv_published s = device_projection (dv_records s)"
  using assms by (auto simp: device_inv_def)

section \<open>What a change may do\<close>

text \<open>
  Every accepted change of a host's record goes through \<open>device_store\<close>; \<open>change_ok\<close> collects what the
  checks before it have established.
\<close>

definition change_ok ::
  "DeviceSource \<Rightarrow> HostId \<Rightarrow> u64 \<Rightarrow> (DeviceId, InputDevice) btree_map \<Rightarrow> DeviceInventory \<Rightarrow> bool" where
  "change_ok source h n c s \<longleftrightarrow>
     0 < n \<and> devices_ok h c \<and> length c \<le> dic_devices_per_host (dv_config s)
     \<and> device_total (filter (\<lambda>(k, _). k \<noteq> h) (dv_records s)) + length c \<le> dic_total_devices (dv_config s)
     \<and> (case map_of (dv_records s) h of None \<Rightarrow> True
        | Some r \<Rightarrow> dhr_source r = source \<and> dhr_revision r < n)"

definition change_or_error ::
  "DeviceSource \<Rightarrow> HostId \<Rightarrow> u64 \<Rightarrow> DeviceInventory \<Rightarrow> device_answer \<Rightarrow> bool" where
  "change_or_error source h n s out \<longleftrightarrow>
     (\<exists>e. out = (Inl e, s)) \<or> (\<exists>c. change_ok source h n c s \<and> out = device_store source h n c s)"

lemma change_or_error_Inl [simp, intro]: "change_or_error source h n s (Inl e, s)"
  by (auto simp: change_or_error_def)

lemma apply_snapshot_effect: "change_or_error src h n s (device_apply_snapshot src h n ds s)"
  unfolding change_or_error_def
  by (auto simp: device_apply_snapshot_def change_ok_def word_neq_0_conv not_le
      dest!: validate_candidate_ok device_total_capacity_ok split: sum.splits option.splits if_splits)

lemma exact_next_bounds:
  assumes "validate_exact_next a b = Inr u"
  shows "0 < b" "a < b"
  using assms by (auto simp: validate_exact_next_iff word_less_nat_alt)

lemma apply_add_effect:
  assumes "device_inv s"
  shows "change_or_error src h n s (device_apply_add src h n d s)"
proof (cases "\<exists>e. device_apply_add src h n d s = (Inl e, s)")
  case False
  let ?c = "\<lambda>r. bt_insert (dev_id d) d (dhr_devices r)"
  from False obtain r u where r: "map_of (dv_records s) h = Some r" "dhr_source r = src"
      "validate_exact_next (dhr_revision r) n = Inr ()" "validate_domain_device d h = Inr ()"
      "length (?c r) \<le> dic_devices_per_host (dv_config s)"
      "device_total_capacity h (length (?c r)) s = Inr u" "map_of (dhr_devices r) (dev_id d) = None"
    by (auto simp: device_apply_add_def Let_def split: option.splits sum.splits if_splits)
  then have eq: "device_apply_add src h n d s = device_store src h n (?c r) s"
    by (simp add: device_apply_add_def Let_def)
  have "devices_ok h (?c r)"
    using device_invD(5)[OF assms r(1)] r(4)
    by (simp add: device_record_ok_def items_ok_insert validate_domain_device_iff)
  then have "change_ok src h n (?c r) s"
    using r exact_next_bounds[OF r(3)] device_total_capacity_ok[OF r(6)] by (auto simp: change_ok_def)
  then show ?thesis
    unfolding change_or_error_def eq by blast
qed (simp add: change_or_error_def)

lemma apply_remove_effect:
  assumes "device_inv s"
  shows "change_or_error src h n s (device_apply_remove src h n d s)"
proof (cases "\<exists>e. device_apply_remove src h n d s = (Inl e, s)")
  case False
  then obtain r where r: "map_of (dv_records s) h = Some r" "dhr_source r = src"
      "validate_exact_next (dhr_revision r) n = Inr ()"
      "device_apply_remove src h n d s = device_store src h n (AList.delete d (dhr_devices r)) s"
    by (auto simp: device_apply_remove_def split: option.splits sum.splits if_splits)
  note ok = device_invD(5)[OF assms r(1)]
  have "change_ok src h n (AList.delete d (dhr_devices r)) s"
    using ok r exact_next_bounds[OF r(3)] device_invD(4)[OF assms] length_delete_le[of d "dhr_devices r"]
      entry_total_member[OF device_invD(2)[OF assms] r(1), of device_size]
    by (auto simp: change_ok_def device_record_ok_def items_ok_delete)
  then show ?thesis
    unfolding change_or_error_def r(4) by blast
qed (simp add: change_or_error_def)

lemma device_store_eq:
  "sorted_map (dv_records s) \<Longrightarrow>
   device_store src h n c s = (let m = bt_insert h \<lparr>dhr_source = src, dhr_revision = n, dhr_devices = c\<rparr> (dv_records s)
     in (Inr (device_projection m), s\<lparr>dv_records := m, dv_published := device_projection m\<rparr>))"
  by (simp add: device_store_def device_publish_eq sorted_bt_insert Let_def)

text \<open>The session that asks for a change must be the active one, which \<open>source_ok\<close> says of the source.\<close>

lemma device_inv_store:
  assumes "device_inv s" "change_ok src h n c s" "source_ok s h src"
  shows "device_inv (snd (device_store src h n c s))"
proof -
  have "device_record_ok (s\<lparr>dv_records := m, dv_published := p\<rparr>) k r = device_record_ok s k r" for m p k r
    by (simp add: device_record_ok_def source_ok_def split: DeviceSource.split)
  moreover have "slot_ok (s\<lparr>dv_records := m, dv_published := p\<rparr>) k slot = slot_ok s k slot" for m p k slot
    by (simp add: slot_ok_def)
  ultimately show ?thesis
    using assms
    by (auto simp: device_store_eq device_inv_def Let_def change_ok_def device_record_ok_def sorted_bt_insert
        map_of_bt_insert entry_total_insert)
qed

section \<open>Every operation keeps the invariant\<close>

lemma device_drop_record_eq:
  "sorted_map (dv_records s) \<Longrightarrow> device_drop_record h s =
     s\<lparr>dv_records := AList.delete h (dv_records s),
       dv_published := device_projection (AList.delete h (dv_records s))\<rparr>"
  by (simp add: device_drop_record_def device_publish_eq sorted_map_delete)

lemma device_drop_record_sessions:
  "device_drop_record h (s\<lparr>dv_remote_sessions := m\<rparr>) = (device_drop_record h s)\<lparr>dv_remote_sessions := m\<rparr>"
  by (simp add: device_drop_record_def device_publish_def Let_def)

text \<open>Dropping records keeps the invariant, whichever they are.\<close>

lemma device_inv_fewer:
  assumes "device_inv s" "sorted_map m" "device_total m \<le> device_total (dv_records s)"
    and "\<And>h r. map_of m h = Some r \<Longrightarrow> map_of (dv_records s) h = Some r"
  shows "device_inv (s\<lparr>dv_records := m, dv_published := device_projection m\<rparr>)"
proof -
  have "device_record_ok (s\<lparr>dv_records := m, dv_published := p\<rparr>) = device_record_ok s"
    and "slot_ok (s\<lparr>dv_records := m, dv_published := p\<rparr>) = slot_ok s" for p
    by (simp_all add: fun_eq_iff device_record_ok_def source_ok_def slot_ok_def split: DeviceSource.split)
  then show ?thesis
    using assms by (simp add: device_inv_def)
qed

lemma device_inv_drop:
  assumes "device_inv s"
  shows "device_inv (device_drop_record h s)"
proof -
  note st = device_invD(2)[OF assms]
  have "device_inv (s\<lparr>dv_records := AList.delete h (dv_records s),
       dv_published := device_projection (AList.delete h (dv_records s))\<rparr>)"
    using assms by (rule device_inv_fewer)
      (auto simp: st sorted_map_delete entry_total_delete AList.delete_conv' split: if_splits)
  then show ?thesis by (simp add: device_drop_record_eq st)
qed

lemma device_inv_adjust:
  assumes "device_inv s" "map_of (dv_records s) h = None"
    and "\<And>slot. map_of (dv_remote_sessions s) h = Some slot \<Longrightarrow> slot_ok s h slot \<Longrightarrow> slot_ok s h (f slot)"
  shows "device_inv (s\<lparr>dv_remote_sessions := bt_adjust h f (dv_remote_sessions s)\<rparr>)"
proof -
  let ?s = "s\<lparr>dv_remote_sessions := bt_adjust h f (dv_remote_sessions s)\<rparr>"
  have "device_record_ok ?s k r" if "map_of (dv_records s) k = Some r" for k r
  proof -
    have "k \<noteq> h" using that assms(2) by auto
    then show ?thesis
      using device_invD(5)[OF assms(1) that]
      by (auto simp: device_record_ok_def source_ok_def map_of_bt_adjust split: DeviceSource.splits)
  qed
  moreover have "slot_ok ?s k slot = slot_ok s k slot" for k slot
    by (simp add: slot_ok_def)
  moreover have "bt_adjust h f [] = []" by (simp add: bt_adjust_def)
  ultimately show ?thesis
    using assms by (fastforce simp: device_inv_def map_of_bt_adjust)
qed

lemma active_record_source:
  assumes "device_inv s" "map_of (dv_remote_sessions s) h = Some slot" "rss_current slot = Some b"
    and "map_of (dv_records s) h = Some r"
  shows "dhr_source r = DvRemote b"
  using device_invD(5)[OF assms(1,4)] device_invD(6)[OF assms(1,2)] assms(2,3)
  by (auto simp: device_record_ok_def source_ok_def slot_ok_def split: DeviceSource.splits)

lemma drop_absent:
  assumes "device_inv s" "map_of (dv_records s) h = None"
  shows "device_drop_record h s = s"
proof -
  have "AList.delete h (dv_records s) = dv_records s"
    using assms(2) by (simp add: AList.delete_eq map_of_eq_None_iff) (force intro!: filter_True)
  then show ?thesis
    using assms by (simp add: device_drop_record_eq device_inv_def)
qed

lemma device_invalidate_eq:
  assumes "device_inv s"
  shows "device_invalidate_binding b s =
     (let h = dvb_remote_host_id b in
      if Option.bind (map_of (dv_remote_sessions s) h) rss_current = Some b
      then (True, (device_drop_record h s)\<lparr>dv_remote_sessions := bt_adjust h (\<lambda>slot. slot\<lparr>rss_current := None,
                     rss_retired := Some b, rss_suspended_revision := None\<rparr>) (dv_remote_sessions s)\<rparr>)
      else (False, s))"
  using active_record_source[OF assms] drop_absent[OF assms]
  by (auto simp: device_invalidate_binding_def Let_def device_drop_record_sessions bind_eq_Some_conv
      split: option.splits)

lemma device_suspend_eq:
  assumes "device_inv s"
  shows "device_suspend_binding b s =
     (let h = dvb_remote_host_id b in
      if Option.bind (map_of (dv_remote_sessions s) h) rss_current = Some b
      then (True, case map_of (dv_records s) h of None \<Rightarrow> s
              | Some r \<Rightarrow> (device_drop_record h s)\<lparr>dv_remote_sessions := bt_adjust h (\<lambda>slot. slot\<lparr>rss_suspended_revision :=
                             Some (case rss_suspended_revision slot of None \<Rightarrow> dhr_revision r
                                   | Some current \<Rightarrow> max current (dhr_revision r))\<rparr>) (dv_remote_sessions s)\<rparr>)
      else (False, s))"
  using active_record_source[OF assms]
  by (auto simp: device_suspend_binding_def Let_def device_drop_record_sessions bind_eq_Some_conv
      split: option.splits)

lemma device_drop_fields [simp]:
  "dv_remote_sessions (device_drop_record h s) = dv_remote_sessions s"
  "dv_config (device_drop_record h s) = dv_config s"
  "dv_local_host_id (device_drop_record h s) = dv_local_host_id s"
  "dv_remote_shutdown (device_drop_record h s) = dv_remote_shutdown s"
  "dv_records (device_drop_record h s) = AList.delete h (dv_records s)"
  by (simp_all add: device_drop_record_def device_publish_def Let_def)

lemma slot_ok_drop [simp]: "slot_ok (device_drop_record h s) = slot_ok s"
  by (simp add: slot_ok_def fun_eq_iff)

lemma device_inv_invalidate:
  assumes "device_inv s"
  shows "device_inv (snd (device_invalidate_binding b s))"
proof -
  let ?h = "dvb_remote_host_id b"
  let ?f = "\<lambda>slot. slot\<lparr>rss_current := None, rss_retired := Some b, rss_suspended_revision := None\<rparr>"
  have "device_inv ((device_drop_record ?h s)\<lparr>dv_remote_sessions :=
      bt_adjust ?h ?f (dv_remote_sessions (device_drop_record ?h s))\<rparr>)"
    by (rule device_inv_adjust)
      (use assms in \<open>auto simp: device_inv_drop AList.delete_conv' slot_ok_def\<close>)
  then show ?thesis
    using assms by (simp add: device_invalidate_eq Let_def)
qed

lemma device_inv_suspend:
  assumes "device_inv s"
  shows "device_inv (snd (device_suspend_binding b s))"
proof -
  let ?h = "dvb_remote_host_id b"
  have "device_inv ((device_drop_record ?h s)\<lparr>dv_remote_sessions :=
      bt_adjust ?h (\<lambda>slot. slot\<lparr>rss_suspended_revision := g slot\<rparr>) (dv_remote_sessions (device_drop_record ?h s))\<rparr>)" for g
    by (rule device_inv_adjust)
      (use assms in \<open>auto simp: device_inv_drop AList.delete_conv' slot_ok_def\<close>)
  then show ?thesis
    using assms by (simp add: device_suspend_eq Let_def split: option.split)
qed

lemma device_inv_all_remote:
  assumes "device_inv s"
  shows "device_inv (device_invalidate_all_remote s)"
proof -
  let ?m = "filter (\<lambda>(_, r). dhr_source r = DvLocal) (dv_records s)"
  note st = device_invD(2)[OF assms]
  have m: "map_of ?m h = Some r \<Longrightarrow> map_of (dv_records s) h = Some r \<and> dhr_source r = DvLocal" for h r
    using sorted_map_distinct[OF st] by (auto simp: map_of_filter_snd split: option.splits if_splits)
  let ?s = "s\<lparr>dv_records := ?m, dv_published := device_projection ?m\<rparr>"
  let ?t = "?s\<lparr>dv_remote_shutdown := True, dv_remote_sessions := []\<rparr>"
  have inv: "device_inv ?s"
    by (rule device_inv_fewer[OF assms sorted_map_filter[OF st] entry_total_filter]) (use m in blast)
  have "device_record_ok ?t h r" if "map_of ?m h = Some r" for h r
    using device_invD(5)[OF inv, of h r] m[OF that] that by (auto simp: device_record_ok_def source_ok_def)
  with inv have "device_inv ?t"
    by (simp add: device_inv_def)
  moreover have "device_invalidate_all_remote s = ?s\<lparr>dv_remote_shutdown := True, dv_remote_sessions := []\<rparr>"
    by (simp add: device_invalidate_all_remote_def device_publish_eq st sorted_map_filter)
  ultimately show ?thesis by simp
qed

lemma device_inv_slot_insert:
  assumes "device_inv s" "\<not> dv_remote_shutdown s" "map_of (dv_records s) h = None" "slot_ok s h slot"
    and "h \<in> fst ` set (dv_remote_sessions s) \<or> length (dv_remote_sessions s) < dic_remote_hosts (dv_config s)"
  shows "device_inv (s\<lparr>dv_remote_sessions := bt_insert h slot (dv_remote_sessions s)\<rparr>)"
proof -
  let ?s = "s\<lparr>dv_remote_sessions := bt_insert h slot (dv_remote_sessions s)\<rparr>"
  note st = device_invD(3)[OF assms(1)]
  have "device_record_ok ?s k r" if "map_of (dv_records s) k = Some r" for k r
  proof -
    have "k \<noteq> h" using that assms(3) by auto
    then show ?thesis
      using device_invD(5)[OF assms(1) that] st
      by (auto simp: device_record_ok_def source_ok_def map_of_bt_insert split: DeviceSource.splits)
  qed
  moreover have "slot_ok ?s k x = slot_ok s k x" for k x
    by (simp add: slot_ok_def)
  ultimately show ?thesis
    using assms st by (auto simp: device_inv_def map_of_bt_insert sorted_bt_insert length_bt_insert)
qed

text \<open>A host without an active session has no record, so activation never adopts old metadata.\<close>

lemma inactive_no_record:
  assumes "device_inv s" "h \<noteq> dv_local_host_id s"
    and "Option.bind (map_of (dv_remote_sessions s) h) rss_current = None"
  shows "map_of (dv_records s) h = None"
proof (rule ccontr)
  assume "map_of (dv_records s) h \<noteq> None"
  then obtain r where r: "map_of (dv_records s) h = Some r" by auto
  show False
    using device_invD(5)[OF assms(1) r] assms(2,3)
    by (auto simp: device_record_ok_def source_ok_def split: DeviceSource.splits)
qed

lemma device_inv_activate:
  assumes "device_inv s" "dvb_remote_host_id b \<noteq> dv_local_host_id s" "dvb_remote_host_id b \<noteq> nil_id"
  shows "device_inv (snd (device_activate_binding b s))"
proof -
  let ?h = "dvb_remote_host_id b"
  show ?thesis
  proof (cases "map_of (dv_remote_sessions s) ?h")
    case None
    have "map_of (dv_records s) ?h = None"
      using inactive_no_record[OF assms(1,2)] None by simp
    then show ?thesis
      using assms None
      by (auto simp: device_activate_binding_def Let_def RemoteSessionSlot_default_def slot_ok_def
          intro!: device_inv_slot_insert)
  next
    case (Some slot)
    have "rss_current slot = None \<Longrightarrow> map_of (dv_records s) ?h = None"
      using inactive_no_record[OF assms(1,2)] Some by simp
    moreover have "?h \<in> fst ` set (dv_remote_sessions s)"
      using Some by (force dest: map_of_SomeD)
    ultimately show ?thesis
      using assms Some
      by (auto simp: device_activate_binding_def Let_def slot_ok_def not_le split: option.splits
          intro!: device_inv_slot_insert)
  qed
qed

section \<open>Runs of the device inventory\<close>

datatype device_op =
    DvLocalSnapshot u64 "InputDevice list"
  | DvLocalAdd u64 InputDevice
  | DvLocalRemove u64 DeviceId
  | DvActivate CurrentAdmittedSession
  | DvRemoteSnapshot CurrentAdmittedSession DeviceSnapshotV1
  | DvRemoteAdd CurrentAdmittedSession DeviceAddedV1
  | DvRemoteRemove CurrentAdmittedSession DeviceRemovedV1
  | DvInvalidate CurrentAdmittedSession
  | DvSuspend CurrentAdmittedSession
  | DvInvalidateAll

fun device_step :: "device_op \<Rightarrow> DeviceInventory \<Rightarrow> DeviceInventory" where
  "device_step (DvLocalSnapshot n ds) s = snd (device_apply_local_snapshot n ds s)"
| "device_step (DvLocalAdd n d) s = snd (device_apply_local_add n d s)"
| "device_step (DvLocalRemove n d) s = snd (device_apply_local_remove n d s)"
| "device_step (DvActivate e) s = snd (device_activate_remote e s)"
| "device_step (DvRemoteSnapshot e m) s = snd (device_apply_remote_snapshot e m s)"
| "device_step (DvRemoteAdd e m) s = snd (device_apply_remote_add e m s)"
| "device_step (DvRemoteRemove e m) s = snd (device_apply_remote_remove e m s)"
| "device_step (DvInvalidate e) s = snd (device_invalidate_remote e s)"
| "device_step (DvSuspend e) s = snd (device_suspend_remote e s)"
| "device_step DvInvalidateAll s = device_invalidate_all_remote s"

text \<open>The source and revision an operation publishes, when the inventory accepts it.\<close>

definition published_by :: "device_answer \<Rightarrow> DeviceSource \<Rightarrow> u64 \<Rightarrow> (DeviceSource \<times> u64) option" where
  "published_by out source n = (if isl (fst out) then None else Some (source, n))"

definition remote_source :: "CurrentAdmittedSession \<Rightarrow> DeviceInventory \<Rightarrow> DeviceSource" where
  "remote_source e s = (case device_binding e s of Inl _ \<Rightarrow> DvLocal | Inr b \<Rightarrow> DvRemote b)"

fun device_publication :: "device_op \<Rightarrow> DeviceInventory \<Rightarrow> (DeviceSource \<times> u64) option" where
  "device_publication (DvLocalSnapshot n ds) s = published_by (device_apply_local_snapshot n ds s) DvLocal n"
| "device_publication (DvLocalAdd n d) s = published_by (device_apply_local_add n d s) DvLocal n"
| "device_publication (DvLocalRemove n d) s = published_by (device_apply_local_remove n d s) DvLocal n"
| "device_publication (DvRemoteSnapshot e m) s =
     published_by (device_apply_remote_snapshot e m s) (remote_source e s) (dsnap_revision m)"
| "device_publication (DvRemoteAdd e m) s =
     published_by (device_apply_remote_add e m s) (remote_source e s) (dadd_revision m)"
| "device_publication (DvRemoteRemove e m) s =
     published_by (device_apply_remote_remove e m s) (remote_source e s) (drem_revision m)"
| "device_publication _ s = None"

lemma device_binding_ok:
  "device_binding e s = Inr b \<Longrightarrow> dvb_remote_host_id b \<noteq> dv_local_host_id s \<and> dvb_remote_host_id b \<noteq> nil_id"
  by (auto simp: device_binding_def Let_def split: if_splits)

lemma require_active_iff:
  "device_require_active b s = Inr u \<longleftrightarrow>
     (\<exists>slot. map_of (dv_remote_sessions s) (dvb_remote_host_id b) = Some slot \<and> rss_current slot = Some b)"
  by (auto simp: device_require_active_def bind_eq_Some_conv)

text \<open>
  Every publishing operation is an error without effect or one store for the session that asked,
  which is then the active one; a full snapshot also ends a suspension.
\<close>

definition clear_suspension :: "DeviceSource \<Rightarrow> DeviceInventory \<Rightarrow> DeviceInventory" where
  "clear_suspension src s = (case src of DvLocal \<Rightarrow> s
     | DvRemote b \<Rightarrow> s\<lparr>dv_remote_sessions :=
         bt_adjust (dvb_remote_host_id b) (\<lambda>slot. slot\<lparr>rss_suspended_revision := None\<rparr>) (dv_remote_sessions s)\<rparr>)"

definition may_store :: "DeviceInventory \<Rightarrow> HostId \<Rightarrow> DeviceSource \<Rightarrow> u64 \<Rightarrow> bool" where
  "may_store s h src n = (case src of DvLocal \<Rightarrow> h = dv_local_host_id s
     | DvRemote b \<Rightarrow> h = dvb_remote_host_id b
         \<and> (\<exists>slot. map_of (dv_remote_sessions s) h = Some slot \<and> rss_current slot = Some b
              \<and> (\<forall>q. rss_suspended_revision slot = Some q \<longrightarrow> q < n)))"

definition publishes :: "DeviceSource \<Rightarrow> u64 \<Rightarrow> DeviceInventory \<Rightarrow> device_answer \<Rightarrow> bool" where
  "publishes src n s out \<longleftrightarrow> (\<exists>h c. change_ok src h n c s \<and> may_store s h src n \<and> \<not> isl (fst out)
     \<and> snd out = clear_suspension src (snd (device_store src h n c s)))"

lemma store_not_isl: "sorted_map (dv_records s) \<Longrightarrow> \<not> isl (fst (device_store src h n c s))"
  by (simp add: device_store_eq Let_def)

lemma store_fields [simp]:
  "dv_remote_sessions (snd (device_store src h n c s)) = dv_remote_sessions s"
  "dv_config (snd (device_store src h n c s)) = dv_config s"
  "dv_local_host_id (snd (device_store src h n c s)) = dv_local_host_id s"
  "dv_remote_shutdown (snd (device_store src h n c s)) = dv_remote_shutdown s"
  by (simp_all add: device_store_def device_publish_def Let_def)

lemma local_publishes:
  assumes "device_inv s" "change_or_error DvLocal (dv_local_host_id s) n s out"
  shows "(\<exists>e. out = (Inl e, s)) \<or> publishes DvLocal n s out"
  using assms(2) store_not_isl[OF device_invD(2)[OF assms(1)]]
  by (auto simp: change_or_error_def publishes_def may_store_def clear_suspension_def)

text \<open>An existing record shows that its session is not suspended.\<close>

lemma clear_suspension_unsuspended:
  assumes "device_inv s" "map_of (dv_records s) (dvb_remote_host_id b) = Some r"
    "device_require_active b s = Inr u"
  shows "clear_suspension (DvRemote b) (snd (device_store src h n c s)) = snd (device_store src h n c s)"
    and "may_store s (dvb_remote_host_id b) (DvRemote b) n"
proof -
  obtain slot where slot: "map_of (dv_remote_sessions s) (dvb_remote_host_id b) = Some slot" "rss_current slot = Some b"
    using assms(3) by (auto simp: require_active_iff)
  have src: "dhr_source r = DvRemote b"
    using active_record_source[OF assms(1) slot assms(2)] .
  then have none: "rss_suspended_revision slot = None"
    using device_invD(5)[OF assms(1,2)] slot(1) by (simp add: device_record_ok_def source_ok_def)
  then have "bt_adjust (dvb_remote_host_id b) (\<lambda>slot. slot\<lparr>rss_suspended_revision := None\<rparr>) (dv_remote_sessions s)
      = dv_remote_sessions s"
    using slot sorted_map_distinct[OF device_invD(3)[OF assms(1)]] by (intro bt_adjust_id) auto
  then show "clear_suspension (DvRemote b) (snd (device_store src h n c s)) = snd (device_store src h n c s)"
    by (simp add: clear_suspension_def)
  show "may_store s (dvb_remote_host_id b) (DvRemote b) n"
    using slot none by (simp add: may_store_def)
qed

lemma record_needed:
  "device_apply_add src h n d s = (Inr v, s') \<Longrightarrow> \<exists>r. map_of (dv_records s) h = Some r"
  "device_apply_remove src h n k s = (Inr v, s') \<Longrightarrow> \<exists>r. map_of (dv_records s) h = Some r"
  by (auto simp: device_apply_add_def device_apply_remove_def split: option.splits if_splits)

lemma remote_change_publishes:
  assumes "device_inv s" "device_require_active b s = Inr u"
    and "change_or_error (DvRemote b) (dvb_remote_host_id b) n s out"
    and "\<And>v s'. out = (Inr v, s') \<Longrightarrow> \<exists>r. map_of (dv_records s) (dvb_remote_host_id b) = Some r"
  shows "(\<exists>e. out = (Inl e, s)) \<or> publishes (DvRemote b) n s out"
proof (cases "\<exists>e. out = (Inl e, s)")
  case False
  then obtain c where c: "change_ok (DvRemote b) (dvb_remote_host_id b) n c s"
      "out = device_store (DvRemote b) (dvb_remote_host_id b) n c s"
    using assms(3) by (auto simp: change_or_error_def)
  have n: "\<not> isl (fst out)" using store_not_isl[OF device_invD(2)[OF assms(1)]] c(2) by simp
  then obtain v where "fst out = Inr v" by (cases "fst out") auto
  then obtain r where "map_of (dv_records s) (dvb_remote_host_id b) = Some r"
    using assms(4)[of v "snd out"] by (cases out) auto
  then show ?thesis
    using c n clear_suspension_unsuspended[OF assms(1) _ assms(2)] unfolding publishes_def by metis
qed simp

lemma remote_add_publishes:
  assumes "device_inv s"
  shows "(\<exists>e. device_remote_add_bound b m s = (Inl e, s))
     \<or> publishes (DvRemote b) (dadd_revision m) s (device_remote_add_bound b m s)"
proof (cases "and_then (device_require_active b s) (\<lambda>_.
           case DeviceAddedV1_validate m of
             Inl _ \<Rightarrow> Inl DvInvalidMessage
           | Inr _ \<Rightarrow> device_from_wire (dadd_device m) (dvb_remote_host_id b))")
  case (Inr d)
  then have "device_require_active b s = Inr ()" by simp
  then show ?thesis
    using Inr remote_change_publishes[OF assms _ apply_add_effect[OF assms] record_needed(1)]
    by (simp add: device_remote_add_bound_def)
qed (simp add: device_remote_add_bound_def)

lemma remote_remove_publishes:
  assumes "device_inv s"
  shows "(\<exists>e. device_remote_remove_bound b m s = (Inl e, s))
     \<or> publishes (DvRemote b) (drem_revision m) s (device_remote_remove_bound b m s)"
proof (cases "device_require_active b s")
  case (Inr u)
  then show ?thesis
    using remote_change_publishes[OF assms Inr apply_remove_effect[OF assms] record_needed(2)]
    by (simp add: device_remote_remove_bound_def split: sum.split)
qed (simp add: device_remote_remove_bound_def)

lemma remote_snapshot_publishes:
  assumes "device_inv s"
  shows "(\<exists>e. device_remote_snapshot_bound b m s = (Inl e, s))
     \<or> publishes (DvRemote b) (dsnap_revision m) s (device_remote_snapshot_bound b m s)"
proof (cases "\<exists>e. device_remote_snapshot_bound b m s = (Inl e, s)")
  case False
  let ?h = "dvb_remote_host_id b"
  obtain ds where act: "device_require_active b s = Inr ()"
      and sus: "\<not> (case Option.bind (map_of (dv_remote_sessions s) ?h) rss_suspended_revision of
                None \<Rightarrow> False | Some revision \<Rightarrow> dsnap_revision m \<le> revision)"
      and ds: "devices_from_wire (dsnap_devices m) ?h = Inr ds"
      and w: "validate_wire_snapshot m ?h (dic_devices_per_host (dv_config s)) = Inr ()"
    using False by (auto simp: device_remote_snapshot_bound_def Let_def split: sum.splits if_splits)
  have eq: "device_remote_snapshot_bound b m s =
      (case device_apply_snapshot (DvRemote b) ?h (dsnap_revision m) ds s of
                 (Inl e, s) \<Rightarrow> (Inl e, s)
               | (Inr snapshot, s) \<Rightarrow>
                   (Inr snapshot, clear_suspension (DvRemote b) s))"
    using act sus ds w by (simp add: device_remote_snapshot_bound_def Let_def clear_suspension_def split: prod.split sum.split)
  have may: "may_store s ?h (DvRemote b) (dsnap_revision m)"
    using act sus by (auto simp: may_store_def require_active_iff not_le split: option.splits)
  have "\<nexists>e. device_apply_snapshot (DvRemote b) ?h (dsnap_revision m) ds s = (Inl e, s)"
    using False eq by auto
  then obtain c where c: "change_ok (DvRemote b) ?h (dsnap_revision m) c s"
      "device_apply_snapshot (DvRemote b) ?h (dsnap_revision m) ds s = device_store (DvRemote b) ?h (dsnap_revision m) c s"
    using apply_snapshot_effect[of "DvRemote b" ?h "dsnap_revision m" s ds] by (auto simp: change_or_error_def)
  obtain v where "device_store (DvRemote b) ?h (dsnap_revision m) c s = (Inr v, snd (device_store (DvRemote b) ?h (dsnap_revision m) c s))"
    by (simp add: device_store_eq device_invD(2)[OF assms] Let_def)
  then have "device_remote_snapshot_bound b m s =
      (Inr v, clear_suspension (DvRemote b) (snd (device_store (DvRemote b) ?h (dsnap_revision m) c s)))"
    unfolding eq c(2) by (metis (no_types, lifting) old.prod.case sum.simps(6))
  then show ?thesis
    using may c(1) unfolding publishes_def by fastforce
qed simp

text \<open>
  One operation either publishes a revision for its source or changes only the session table and
  drops records.
\<close>

lemma published_by_cases:
  "(\<exists>e. out = (Inl e, s)) \<or> publishes src n s out \<Longrightarrow>
   published_by out src n = None \<and> snd out = s
   \<or> published_by out src n = Some (src, n) \<and> publishes src n s out"
  by (auto simp: published_by_def publishes_def)

fun device_publishing :: "device_op \<Rightarrow> bool" where
  "device_publishing (DvActivate e) = False"
| "device_publishing (DvInvalidate e) = False"
| "device_publishing (DvSuspend e) = False"
| "device_publishing DvInvalidateAll = False"
| "device_publishing _ = True"

lemma device_step_publishing:
  assumes "device_inv s" "device_publishing op"
  shows "device_publication op s = None \<and> device_step op s = s
     \<or> (\<exists>src n out. device_publication op s = Some (src, n) \<and> publishes src n s out \<and> device_step op s = snd out)"
proof -
  note snap = local_publishes[OF assms(1) apply_snapshot_effect]
  note add = local_publishes[OF assms(1) apply_add_effect[OF assms(1)]]
  note rem = local_publishes[OF assms(1) apply_remove_effect[OF assms(1)]]
  show ?thesis
  proof (cases op)
    case (DvLocalSnapshot n ds)
    then show ?thesis
      using published_by_cases[OF snap[of n ds]] by (fastforce simp: device_apply_local_snapshot_def)
  next
    case (DvLocalAdd n d)
    then show ?thesis
      using published_by_cases[OF add[of n d]] by (fastforce simp: device_apply_local_add_def)
  next
    case (DvLocalRemove n d)
    then show ?thesis
      using published_by_cases[OF rem[of n d]] by (fastforce simp: device_apply_local_remove_def)
  next
    case (DvRemoteSnapshot e m)
    then show ?thesis
      using published_by_cases[OF remote_snapshot_publishes[OF assms(1)]]
      by (cases "device_binding e s") (fastforce simp: device_apply_remote_snapshot_def remote_source_def published_by_def)+
  next
    case (DvRemoteAdd e m)
    then show ?thesis
      using published_by_cases[OF remote_add_publishes[OF assms(1)]]
      by (cases "device_binding e s") (fastforce simp: device_apply_remote_add_def remote_source_def published_by_def)+
  next
    case (DvRemoteRemove e m)
    then show ?thesis
      using published_by_cases[OF remote_remove_publishes[OF assms(1)]]
      by (cases "device_binding e s") (fastforce simp: device_apply_remote_remove_def remote_source_def published_by_def)+
  qed (use assms(2) in simp_all)
qed

lemma source_ok_clear:
  assumes "device_inv s" "may_store s h src n"
  shows "source_ok (clear_suspension src s) h src"
proof (cases src)
  case (DvRemote b)
  obtain slot where slot: "map_of (dv_remote_sessions s) h = Some slot" "rss_current slot = Some b" "h = dvb_remote_host_id b"
    using assms(2) DvRemote by (auto simp: may_store_def)
  moreover have "h \<noteq> dv_local_host_id s"
    using device_invD(6)[OF assms(1) slot(1)] slot(2) by (simp add: slot_ok_def)
  ultimately show ?thesis
    using DvRemote by (simp add: source_ok_def clear_suspension_def map_of_bt_adjust)
qed (use assms in \<open>simp add: source_ok_def may_store_def clear_suspension_def\<close>)

lemma clear_suspension_store:
  "clear_suspension src (snd (device_store src' h n c s)) = snd (device_store src' h n c (clear_suspension src s))"
  by (simp add: clear_suspension_def device_store_def device_publish_def Let_def split: DeviceSource.split)

lemma clear_suspension_fields [simp]:
  "dv_records (clear_suspension src s) = dv_records s"
  "dv_config (clear_suspension src s) = dv_config s"
  "dv_local_host_id (clear_suspension src s) = dv_local_host_id s"
  "dv_remote_shutdown (clear_suspension src s) = dv_remote_shutdown s"
  "dv_published (clear_suspension src s) = dv_published s"
  by (simp_all add: clear_suspension_def split: DeviceSource.split)

lemma change_ok_clear [simp]: "change_ok src h n c (clear_suspension src' s) = change_ok src h n c s"
  by (simp add: change_ok_def)

lemma device_inv_clear:
  assumes "device_inv s"
  shows "device_inv (clear_suspension src s)"
proof -
  have "device_record_ok (clear_suspension src s) h r" if "device_record_ok s h r" for h r
    using that by (auto simp: device_record_ok_def source_ok_def clear_suspension_def map_of_bt_adjust split: DeviceSource.splits)
  moreover have "slot_ok (clear_suspension src s) h slot"
    if "map_of (dv_remote_sessions (clear_suspension src s)) h = Some slot" for h slot
    using that device_invD(6)[OF assms, of h]
    by (auto simp: clear_suspension_def map_of_bt_adjust slot_ok_def split: DeviceSource.splits if_splits)
  moreover have "sorted_map (dv_remote_sessions (clear_suspension src s))"
    "length (dv_remote_sessions (clear_suspension src s)) = length (dv_remote_sessions s)"
    using device_invD(3)[OF assms] by (auto simp: clear_suspension_def split: DeviceSource.split)
  ultimately show ?thesis
    using assms by (auto simp: device_inv_def)
qed

lemma device_inv_publishes:
  assumes "device_inv s" "publishes src n s out"
  shows "device_inv (snd out)"
proof -
  obtain h c where p: "change_ok src h n c s" "may_store s h src n"
      "snd out = clear_suspension src (snd (device_store src h n c s))"
    using assms(2) by (auto simp: publishes_def)
  show ?thesis
    unfolding p(3) clear_suspension_store
    by (rule device_inv_store) (use assms(1) p device_inv_clear source_ok_clear in auto)
qed

lemma device_inv_step:
  assumes "device_inv s"
  shows "device_inv (device_step op s)"
proof (cases "device_publishing op")
  case True
  then show ?thesis
    using device_step_publishing[OF assms True] device_inv_publishes[OF assms] assms by auto
next
  case False
  then show ?thesis
    using assms device_binding_ok
    by (cases op) (auto simp: device_activate_remote_def device_invalidate_remote_def device_suspend_remote_def
        device_inv_activate device_inv_invalidate device_inv_suspend device_inv_all_remote split: sum.splits)
qed

lemma device_inv_new: "DeviceInventory_new h c = Inr s \<Longrightarrow> device_inv s"
  by (auto simp: DeviceInventory_new_def device_inv_def DeviceInventoryConfig_validate_def device_config_ok_def
      DeviceInventorySnapshot_default_def device_projection_def entry_total_def split: if_splits sum.splits)

text \<open>
  For the device inventory, a revision of a session is spent when it is at most the revision of the
  session's record or the one remembered at its suspension, and every revision is spent once the
  session's generation is retired or remote inventory is shut down.
\<close>

definition device_spent :: "DeviceInventory \<Rightarrow> DeviceSource \<Rightarrow> u64 \<Rightarrow> bool" where
  "device_spent s src n = (case src of
       DvLocal \<Rightarrow> (\<exists>r. map_of (dv_records s) (dv_local_host_id s) = Some r \<and> n \<le> dhr_revision r)
     | DvRemote b \<Rightarrow> dv_remote_shutdown s
         \<or> (\<exists>slot. map_of (dv_remote_sessions s) (dvb_remote_host_id b) = Some slot
              \<and> ((\<exists>q. rss_retired slot = Some q
                     \<and> generation_rank (dvb_generation b) \<le> generation_rank (dvb_generation q))
                 \<or> rss_current slot = Some b
                   \<and> ((\<exists>r. map_of (dv_records s) (dvb_remote_host_id b) = Some r \<and> n \<le> dhr_revision r)
                      \<or> (\<exists>q. rss_suspended_revision slot = Some q \<and> n \<le> q)))))"

lemma records_store:
  "sorted_map (dv_records s) \<Longrightarrow> map_of (dv_records (snd (device_store src h n c s))) =
     (map_of (dv_records s))(h \<mapsto> \<lparr>dhr_source = src, dhr_revision = n, dhr_devices = c\<rparr>)"
  by (simp add: device_store_eq Let_def map_of_bt_insert)

lemma publishes_fresh:
  assumes "device_inv s" "publishes src n s out"
  shows "\<not> device_spent s src n"
proof -
  obtain h c where p: "change_ok src h n c s" "may_store s h src n"
    using assms(2) by (auto simp: publishes_def)
  show ?thesis
  proof (cases src)
    case DvLocal
    then show ?thesis
      using p by (auto simp: device_spent_def change_ok_def may_store_def)
  next
    case (DvRemote b)
    then obtain slot where slot: "map_of (dv_remote_sessions s) h = Some slot" "rss_current slot = Some b"
        "h = dvb_remote_host_id b" "\<forall>q. rss_suspended_revision slot = Some q \<longrightarrow> q < n"
      using p(2) by (auto simp: may_store_def)
    have "\<not> dv_remote_shutdown s" using device_invD(7)[OF assms(1)] slot(1) by auto
    then show ?thesis
      using DvRemote p slot device_invD(6)[OF assms(1) slot(1)]
      by (auto simp: device_spent_def change_ok_def slot_ok_def not_le)
  qed
qed

lemma publishes_spends:
  assumes "device_inv s" "publishes src n s out" "q \<le> n"
  shows "device_spent (snd out) src q"
proof -
  obtain h c where p: "may_store s h src n" "snd out = clear_suspension src (snd (device_store src h n c s))"
    using assms(2) by (auto simp: publishes_def)
  show ?thesis
  proof (cases src)
    case DvLocal
    then show ?thesis
      using p assms(3) by (simp add: records_store device_invD(2)[OF assms(1)] may_store_def device_spent_def clear_suspension_def)
  next
    case (DvRemote b)
    then obtain slot where "map_of (dv_remote_sessions s) h = Some slot" "rss_current slot = Some b"
        "h = dvb_remote_host_id b"
      using p(1) by (auto simp: may_store_def)
    then show ?thesis
      using assms(3) DvRemote unfolding p(2) device_spent_def
      by (simp add: records_store device_invD(2)[OF assms(1)] clear_suspension_def map_of_bt_adjust)
  qed
qed

lemma publishes_keeps_spent:
  assumes "device_inv s" "publishes src n s out" "device_spent s x q"
  shows "device_spent (snd out) x q"
proof (cases "x = src")
  case True
  have "q \<le> n"
  proof (rule ccontr)
    assume "\<not> q \<le> n"
    then have "device_spent s src n"
      using assms(3) unfolding True device_spent_def
      by (auto split: DeviceSource.splits intro: order_trans less_imp_le simp: not_le)
    then show False using publishes_fresh[OF assms(1,2)] by simp
  qed
  then show ?thesis using publishes_spends[OF assms(1,2)] True by simp
next
  case False
  obtain h c where p: "change_ok src h n c s" "may_store s h src n"
      "snd out = clear_suspension src (snd (device_store src h n c s))"
    using assms(2) by (auto simp: publishes_def)
  have "h \<noteq> dv_local_host_id s" if "src \<noteq> DvLocal"
    using that p(2) device_invD(6)[OF assms(1), of h] by (auto simp: may_store_def slot_ok_def split: DeviceSource.splits)
  moreover have "rss_current slot = None" if "map_of (dv_remote_sessions s) (dv_local_host_id s) = Some slot" for slot
    using device_invD(6)[OF assms(1) that] by (cases "rss_current slot") (auto simp: slot_ok_def)
  ultimately show ?thesis
    using assms(3) p(2) False unfolding p(3) device_spent_def
    by (auto simp: records_store device_invD(2)[OF assms(1)] may_store_def clear_suspension_def map_of_bt_adjust
        split: DeviceSource.splits)
qed

lemma spent_after_drop:
  assumes "device_inv s" "map_of (dv_remote_sessions s) h = Some slot" "rss_current slot = Some b"
    and "device_spent s x q" "\<And>b'. x = DvRemote b' \<Longrightarrow> dvb_remote_host_id b' \<noteq> h"
  shows "device_spent ((device_drop_record h s)\<lparr>dv_remote_sessions := bt_adjust h f (dv_remote_sessions s)\<rparr>) x q"
proof -
  have "h \<noteq> dv_local_host_id s"
    using device_invD(6)[OF assms(1,2)] assms(3) by (simp add: slot_ok_def)
  then show ?thesis
    using assms(4,5) by (auto simp: device_spent_def AList.delete_conv' map_of_bt_adjust split: DeviceSource.splits)
qed

lemma spent_invalidate:
  assumes "device_inv s" "device_spent s x q"
  shows "device_spent (snd (device_invalidate_binding b s)) x q"
proof (cases "Option.bind (map_of (dv_remote_sessions s) (dvb_remote_host_id b)) rss_current = Some b")
  case True
  let ?h = "dvb_remote_host_id b"
  obtain slot where slot: "map_of (dv_remote_sessions s) ?h = Some slot" "rss_current slot = Some b"
    using True by (auto simp: bind_eq_Some_conv)
  show ?thesis
  proof (cases "\<exists>b'. x = DvRemote b' \<and> dvb_remote_host_id b' = ?h")
    case False
    then show ?thesis
      using True spent_after_drop[OF assms(1) slot assms(2)] by (simp add: device_invalidate_eq[OF assms(1)] Let_def)
  next
    case other: True
    then obtain b' where b': "x = DvRemote b'" "dvb_remote_host_id b' = ?h" by blast
    have "generation_rank (dvb_generation b') \<le> generation_rank (dvb_generation b)"
      using assms(2) b' slot device_invD(6)[OF assms(1) slot(1)] device_invD(7)[OF assms(1)]
      by (auto simp: device_spent_def slot_ok_def intro: order_trans less_imp_le)
    then show ?thesis
      using True b' slot by (simp add: device_invalidate_eq[OF assms(1)] Let_def device_spent_def map_of_bt_adjust)
  qed
qed (use assms in \<open>simp add: device_invalidate_eq Let_def\<close>)

lemma spent_suspend:
  assumes "device_inv s" "device_spent s x q"
  shows "device_spent (snd (device_suspend_binding b s)) x q"
proof (cases "Option.bind (map_of (dv_remote_sessions s) (dvb_remote_host_id b)) rss_current = Some b")
  case True
  let ?h = "dvb_remote_host_id b"
  obtain slot where slot: "map_of (dv_remote_sessions s) ?h = Some slot" "rss_current slot = Some b"
    using True by (auto simp: bind_eq_Some_conv)
  show ?thesis
  proof (cases "map_of (dv_records s) ?h")
    case None
    then show ?thesis using True assms by (simp add: device_suspend_eq Let_def)
  next
    case (Some r)
    show ?thesis
    proof (cases "\<exists>b'. x = DvRemote b' \<and> dvb_remote_host_id b' = ?h")
      case False
      then show ?thesis
        using True Some spent_after_drop[OF assms(1) slot assms(2)]
        by (simp add: device_suspend_eq[OF assms(1)] Let_def)
    next
      case other: True
      then obtain b' where b': "x = DvRemote b'" "dvb_remote_host_id b' = ?h" by blast
      have "rss_suspended_revision slot = None"
        using device_invD(5)[OF assms(1) Some] active_record_source[OF assms(1) slot Some] slot(1)
        by (simp add: device_record_ok_def source_ok_def)
      then show ?thesis
        using True Some b' slot assms(2)
        by (auto simp: device_suspend_eq[OF assms(1)] Let_def device_spent_def map_of_bt_adjust)
    qed
  qed
qed (use assms in \<open>simp add: device_suspend_eq Let_def\<close>)

lemma spent_all_remote:
  assumes "device_inv s" "device_spent s x q"
  shows "device_spent (device_invalidate_all_remote s) x q"
proof (cases x)
  case DvLocal
  then obtain r where r: "map_of (dv_records s) (dv_local_host_id s) = Some r" "q \<le> dhr_revision r"
    using assms(2) by (auto simp: device_spent_def)
  have "dhr_source r = DvLocal"
    using device_invD(5)[OF assms(1) r(1)] by (auto simp: device_record_ok_def source_ok_def split: DeviceSource.splits)
  then show ?thesis
    using r DvLocal sorted_map_distinct[OF device_invD(2)[OF assms(1)]]
    by (simp add: device_spent_def device_invalidate_all_remote_def device_publish_def Let_def map_of_filter_snd)
qed (simp add: device_spent_def device_invalidate_all_remote_def device_publish_def Let_def)

lemma spent_activate:
  assumes "device_inv s" "device_spent s x q"
  shows "device_spent (snd (device_activate_binding b s)) x q"
  using assms(2) device_invD(3)[OF assms(1)]
  by (cases x) (auto simp: device_activate_binding_def Let_def device_spent_def map_of_bt_insert split: option.splits)

lemma device_spent_step:
  assumes "device_inv s" "device_spent s x q"
  shows "device_spent (device_step op s) x q"
proof (cases "device_publishing op")
  case True
  then show ?thesis
    using device_step_publishing[OF assms(1) True] publishes_keeps_spent[OF assms(1)] assms(2) by auto
next
  case False
  then show ?thesis
    using assms by (cases op)
      (auto simp: device_activate_remote_def device_invalidate_remote_def device_suspend_remote_def
        spent_activate spent_invalidate spent_suspend spent_all_remote split: sum.splits)
qed

lemma device_publication_publishing:
  assumes "device_inv s" "device_publication op s = Some (src, n)"
  shows "\<exists>out. publishes src n s out \<and> device_step op s = snd out"
proof -
  have "device_publishing op" using assms(2) by (cases op) auto
  then show ?thesis using device_step_publishing[OF assms(1), of op] assms(2) by auto
qed

interpretation device_ledger: revision_ledger device_step device_inv device_publication device_spent
proof
  show "device_inv s \<Longrightarrow> device_inv (device_step op s)" for s op by (rule device_inv_step)
  show "device_inv s \<Longrightarrow> device_spent s src r \<Longrightarrow> device_spent (device_step op s) src r" for s src r op
    by (rule device_spent_step)
  show "device_inv s \<Longrightarrow> device_publication op s = Some (src, r) \<Longrightarrow> \<not> device_spent s src r" for s op src r
    by (blast dest: device_publication_publishing publishes_fresh)
  show "device_inv s \<Longrightarrow> device_publication op s = Some (src, r) \<Longrightarrow> q \<le> r \<Longrightarrow> device_spent (device_step op s) src q" for s op src r q
    by (metis device_publication_publishing publishes_spends)
qed

lemma device_inv_run: "device_inv s \<Longrightarrow> device_inv (fold device_step ops s)"
  by (induction ops arbitrary: s) (simp_all add: device_inv_step)

section \<open>A local inventory reaches the peer unchanged\<close>

lemma device_wire_roundtrip: "device_ok h d \<Longrightarrow> device_from_wire (device_to_wire d) h = Inr d"
proof -
  have "device_kind_from_wire (device_kind_to_wire k) = k" for k by (cases k) auto
  then show "device_ok h d \<Longrightarrow> device_from_wire (device_to_wire d) h = Inr d"
    using validate_domain_device_iff[of d h "()"]
    by (cases d; cases "dev_capabilities d") (auto simp: device_from_wire_def device_to_wire_def Let_def device_ok_def)
qed

lemma devices_wire_roundtrip:
  "\<forall>d\<in>set ds. device_ok h d \<Longrightarrow> devices_from_wire (map device_to_wire ds) h = Inr ds"
  by (induction ds) (simp_all add: device_wire_roundtrip)

lemma wire_devices_loop_ok:
  "\<forall>d\<in>set ds. device_ok h d \<Longrightarrow> distinct (map dev_id ds) \<Longrightarrow> dev_id ` set ds \<inter> U = {} \<Longrightarrow>
   wire_devices_loop (map device_to_wire ds) h U = Inr ()"
  by (induction ds arbitrary: U) (auto simp: device_wire_roundtrip)

lemma wf_device_to_wire: "device_ok h d \<Longrightarrow> wf_wire_device (device_to_wire d) \<and> wdev_host_id (device_to_wire d) = h"
  by (auto simp: device_ok_def wf_wire_device_def device_to_wire_def Let_def)

lemma local_snapshot_valid:
  assumes "devices_ok h m" "h \<noteq> nil_id" "0 < n" "length m \<le> cap" "length m \<le> MAX_SNAPSHOT_ITEMS"
  shows "validate_wire_snapshot \<lparr>dsnap_revision = n, dsnap_host_id = h,
           dsnap_devices = map (\<lambda>(_, d). device_to_wire d) m\<rparr> h cap = Inr ()"
proof -
  have eq: "map (\<lambda>(_, d). device_to_wire d) m = map device_to_wire (map snd m)"
    by (simp add: split_def)
  note l = items_ok_list[OF assms(1)]
  have ids: "map wdev_id (map device_to_wire (map snd m)) = map fst m"
    using l(2) by (simp add: device_to_wire_def Let_def comp_def)
  have "DeviceSnapshotV1_validate \<lparr>dsnap_revision = n, dsnap_host_id = h, dsnap_devices = map device_to_wire (map snd m)\<rparr> = Inr ()"
    unfolding DeviceSnapshotV1_validate_def Let_def
    using assms(2,3,5) ids l(1,3) wf_device_to_wire by (simp add: accepts word_neq_0_conv del: map_map) auto
  moreover have "wire_devices_loop (map device_to_wire (map snd m)) h {} = Inr ()"
    by (rule wire_devices_loop_ok[OF l(1)]) (simp_all only: l(2,3) Int_empty_right)
  ultimately show ?thesis
    unfolding eq using assms by (simp add: validate_wire_snapshot_def)
qed

lemma device_total_capacity_room:
  assumes "device_total (filter (\<lambda>(k, _). k \<noteq> h) (dv_records s)) + n \<le> dic_total_devices (dv_config s)"
    "device_config_ok (dv_config s)"
  shows "device_total_capacity h n s = Inr ()"
  using assms checked_total_room[of 0 "map (\<lambda>(_, r). length (dhr_devices r)) (filter (\<lambda>(k, _). k \<noteq> h) (dv_records s))"]
  by (simp add: device_total_capacity_def entry_total_def checked_add_usize_def device_config_ok_def MAX_DEVICE_INVENTORY_TOTAL_def)

lemma device_publish_static:
  "dv_config (snd (device_publish s)) = dv_config s" "dv_local_host_id (snd (device_publish s)) = dv_local_host_id s"
  by (simp_all add: device_publish_def Let_def)

lemma device_step_static:
  assumes "device_inv s"
  shows "dv_config (device_step op s) = dv_config s \<and> dv_local_host_id (device_step op s) = dv_local_host_id s"
proof (cases "device_publishing op")
  case True
  then show ?thesis
    using device_step_publishing[OF assms, of op] by (auto simp: publishes_def)
next
  case False
  then show ?thesis
    by (cases op) (auto simp: device_activate_remote_def device_activate_binding_def device_invalidate_remote_def
        device_invalidate_binding_def device_suspend_remote_def device_suspend_binding_def Let_def
        device_invalidate_all_remote_def device_publish_static split: sum.splits option.splits)
qed

lemma device_run_static:
  "device_inv s \<Longrightarrow> dv_config (fold device_step ops s) = dv_config s
     \<and> dv_local_host_id (fold device_step ops s) = dv_local_host_id s"
  by (induction ops arbitrary: s) (simp_all add: device_inv_step device_step_static)

lemma device_new_fields:
  "DeviceInventory_new h c = Inr s \<Longrightarrow> dv_config s = c \<and> dv_local_host_id s = h"
  by (auto simp: DeviceInventory_new_def DeviceInventoryConfig_validate_def split: if_splits)

lemma device_reached:
  assumes "DeviceInventory_new h c = Inr s0" "s = fold device_step ops s0"
  shows "device_inv s" "dv_config s = c" "dv_local_host_id s = h"
  using assms device_inv_new[OF assms(1)] device_inv_run device_run_static[OF device_inv_new[OF assms(1)]]
    device_new_fields[OF assms(1)] by auto

lemma map_of_projection: "map_of (dis_hosts (device_projection m)) h = map_option (device_view h) (map_of m h)"
  by (simp add: device_projection_def device_table.map_of_view)

text \<open>An active session's unspent revision is accepted whenever the tables have room.\<close>

lemma remote_snapshot_accepted:
  assumes inv: "device_inv s" and act: "device_require_active b s = Inr ()"
    and fresh: "\<not> device_spent s (DvRemote b) n" and ok: "devices_ok (dvb_remote_host_id b) c" "0 < n"
    and room: "length c \<le> dic_devices_per_host (dv_config s)"
      "device_total (dv_records s) + length c \<le> dic_total_devices (dv_config s)"
    and m: "m = \<lparr>dsnap_revision = n, dsnap_host_id = dvb_remote_host_id b,
           dsnap_devices = map (\<lambda>(_, d). device_to_wire d) c\<rparr>"
  shows "\<exists>v. fst (device_remote_snapshot_bound b m s) = Inr v
     \<and> dv_published (snd (device_remote_snapshot_bound b m s)) = v
     \<and> map_of (dis_hosts v) (dvb_remote_host_id b) =
         Some \<lparr>hdi_host_id = dvb_remote_host_id b, hdi_revision = n, hdi_devices = c\<rparr>"
proof -
  let ?h = "dvb_remote_host_id b"
  obtain slot where slot: "map_of (dv_remote_sessions s) ?h = Some slot" "rss_current slot = Some b"
    using act by (auto simp: require_active_iff)
  have nil: "?h \<noteq> nil_id" using device_invD(6)[OF inv slot(1)] slot(2) by (simp add: slot_ok_def)
  have cfg: "device_config_ok (dv_config s)" by (rule device_invD(1)[OF inv])
  have w: "validate_wire_snapshot m ?h (dic_devices_per_host (dv_config s)) = Inr ()"
    unfolding m using ok nil room(1) cfg
    by (intro local_snapshot_valid) (auto simp: device_config_ok_def MAX_DEVICE_INVENTORY_PER_HOST_def)
  have mr: "dsnap_revision m = n" by (simp add: m)
  have sus: "\<not> (case rss_suspended_revision slot of None \<Rightarrow> False | Some q \<Rightarrow> dsnap_revision m \<le> q)"
    using fresh slot mr by (auto simp: device_spent_def split: option.splits)
  have ds: "devices_from_wire (dsnap_devices m) ?h = Inr (map snd c)"
    using devices_wire_roundtrip[OF items_ok_list(1)[OF ok(1)]] by (simp add: m split_def comp_def)
  have cand: "device_validate_candidate ?h (map snd c) s = Inr c"
    using device_items.loop_rebuilds[OF ok(1)] ok(1) room(1)
    by (simp add: device_validate_candidate_def items_ok_def)
  have cap: "device_total_capacity ?h (length c) s = Inr ()"
    using entry_total_others[OF room(2)] cfg by (intro device_total_capacity_room)
  have "case map_of (dv_records s) ?h of None \<Rightarrow> True | Some r \<Rightarrow> dhr_source r = DvRemote b \<and> dhr_revision r < n"
    using fresh slot active_record_source[OF inv slot] by (auto simp: device_spent_def not_le split: option.splits)
  then have "device_apply_snapshot (DvRemote b) ?h n (map snd c) s = device_store (DvRemote b) ?h n c s"
    using ok(2) cand cap by (auto simp: device_apply_snapshot_def word_neq_0_conv split: option.splits)
  then have "device_remote_snapshot_bound b m s =
      (Inr (device_projection (bt_insert ?h \<lparr>dhr_source = DvRemote b, dhr_revision = n, dhr_devices = c\<rparr> (dv_records s))),
       clear_suspension (DvRemote b) (snd (device_store (DvRemote b) ?h n c s)))"
    using act w sus ds slot by (simp add: device_remote_snapshot_bound_def Let_def mr clear_suspension_def
        device_store_eq device_invD(2)[OF inv])
  then show ?thesis
    by (simp add: device_store_eq device_invD(2)[OF inv] Let_def map_of_projection map_of_bt_insert device_view_def)
qed

section \<open>What readers and peers can rely on\<close>

lemma length_dis_devices: "length (dis_devices (device_projection m)) = device_total m"
  by (induction m) (auto simp: dis_devices_def device_projection_def device_view_def entry_total_def)

lemma dis_device_projection:
  "dis_device (device_projection m) k d = Option.bind (map_of m k) (\<lambda>r. map_of (dhr_devices r) d)"
  by (simp add: dis_device_def map_of_projection device_view_def split: option.split)

section \<open>The published view as the effect of the accepted operations\<close>

type_synonym device_listing = "HostId \<Rightarrow> DeviceId \<Rightarrow> InputDevice option"

definition listed :: "InputDevice list \<Rightarrow> DeviceId \<Rightarrow> InputDevice option" where
  "listed ds = map_of (map (\<lambda>d. (dev_id d, d)) ds)"

text \<open>What an operation does to the listing of every host, when the inventory accepts it.\<close>

fun device_effect :: "HostId \<Rightarrow> device_op \<Rightarrow> device_listing \<Rightarrow> device_listing" where
  "device_effect h (DvLocalSnapshot n ds) V = V(h := listed ds)"
| "device_effect h (DvLocalAdd n d) V = V(h := (V h)(dev_id d \<mapsto> d))"
| "device_effect h (DvLocalRemove n k) V = V(h := (V h)(k := None))"
| "device_effect h (DvActivate e) V = V"
| "device_effect h (DvRemoteSnapshot e m) V =
     V(cas_remote_host_id e :=
         (case devices_from_wire (dsnap_devices m) (cas_remote_host_id e) of
            Inl _ \<Rightarrow> Map.empty | Inr ds \<Rightarrow> listed ds))"
| "device_effect h (DvRemoteAdd e m) V =
     (case device_from_wire (dadd_device m) (cas_remote_host_id e) of
        Inl _ \<Rightarrow> V
      | Inr d \<Rightarrow> V(cas_remote_host_id e := (V (cas_remote_host_id e))(dev_id d \<mapsto> d)))"
| "device_effect h (DvRemoteRemove e m) V =
     V(cas_remote_host_id e := (V (cas_remote_host_id e))(drem_device_id m := None))"
| "device_effect h (DvInvalidate e) V = V(cas_remote_host_id e := Map.empty)"
| "device_effect h (DvSuspend e) V = V(cas_remote_host_id e := Map.empty)"
| "device_effect h DvInvalidateAll V = (\<lambda>k. if k = h then V h else Map.empty)"

fun device_accepts :: "device_op \<Rightarrow> DeviceInventory \<Rightarrow> bool" where
  "device_accepts (DvLocalSnapshot n ds) s \<longleftrightarrow> \<not> isl (fst (device_apply_local_snapshot n ds s))"
| "device_accepts (DvLocalAdd n d) s \<longleftrightarrow> \<not> isl (fst (device_apply_local_add n d s))"
| "device_accepts (DvLocalRemove n d) s \<longleftrightarrow> \<not> isl (fst (device_apply_local_remove n d s))"
| "device_accepts (DvActivate e) s \<longleftrightarrow> \<not> isl (fst (device_activate_remote e s))"
| "device_accepts (DvRemoteSnapshot e m) s \<longleftrightarrow> \<not> isl (fst (device_apply_remote_snapshot e m s))"
| "device_accepts (DvRemoteAdd e m) s \<longleftrightarrow> \<not> isl (fst (device_apply_remote_add e m s))"
| "device_accepts (DvRemoteRemove e m) s \<longleftrightarrow> \<not> isl (fst (device_apply_remote_remove e m s))"
| "device_accepts (DvInvalidate e) s \<longleftrightarrow> fst (device_invalidate_remote e s)"
| "device_accepts (DvSuspend e) s \<longleftrightarrow> fst (device_suspend_remote e s)"
| "device_accepts DvInvalidateAll s \<longleftrightarrow> True"

fun accepted_ops :: "device_op list \<Rightarrow> DeviceInventory \<Rightarrow> device_op list" where
  "accepted_ops [] s = []"
| "accepted_ops (op # ops) s = (if device_accepts op s then [op] else []) @ accepted_ops ops (device_step op s)"

lemma candidate_loop_lookup:
  "device_candidate_loop ds h m = Inr c \<Longrightarrow> sorted_map m \<Longrightarrow>
   map_of c k = (case map_of m k of Some x \<Rightarrow> Some x | None \<Rightarrow> listed ds k)"
proof (induction ds arbitrary: m)
  case (Cons d ds)
  have n: "map_of m (dev_id d) = None" and l: "device_candidate_loop ds h (bt_insert (dev_id d) d m) = Inr c"
    using Cons.prems(1) by (auto split: if_splits)
  show ?case
    using Cons.IH [OF l sorted_bt_insert [OF Cons.prems(2)]] n Cons.prems(2)
    by (auto simp: map_of_bt_insert listed_def split: option.splits)
qed (simp add: listed_def split: option.split)

abbreviation device_listing_of :: "DeviceInventory \<Rightarrow> device_listing" where
  "device_listing_of s \<equiv> dis_device (dv_published s)"

lemma listing_records:
  "device_inv s \<Longrightarrow> device_listing_of s k = (case map_of (dv_records s) k of None \<Rightarrow> Map.empty | Some r \<Rightarrow> map_of (dhr_devices r))"
  by (auto simp: fun_eq_iff device_invD(8) dis_device_projection split: option.split)

lemma listing_store:
  assumes "device_inv s"
  shows "device_listing_of (snd (device_store src h n c s)) = (device_listing_of s)(h := map_of c)"
  using device_invD(2,8) [OF assms]
  by (auto simp: fun_eq_iff device_store_eq Let_def dis_device_projection map_of_bt_insert)

lemma listing_snapshot:
  assumes "device_inv s" and "device_apply_snapshot src h n ds s = (Inr v, s')"
  shows "device_listing_of s' = (device_listing_of s)(h := listed ds)"
proof -
  obtain c where c: "device_validate_candidate h ds s = Inr c" "s' = snd (device_store src h n c s)"
    using assms(2) by (auto simp: device_apply_snapshot_def split: if_splits sum.splits option.splits)
  hence "map_of c = listed ds"
    using candidate_loop_lookup [of ds h "[]" c] by (auto simp: device_validate_candidate_def fun_eq_iff split: if_splits)
  thus ?thesis using listing_store [OF assms(1)] c(2) by simp
qed

lemma listing_add:
  assumes "device_inv s" and "device_apply_add src h n d s = (Inr v, s')"
  shows "device_listing_of s' = (device_listing_of s)(h := (device_listing_of s h)(dev_id d \<mapsto> d))"
proof -
  obtain r where r: "map_of (dv_records s) h = Some r" "s' = snd (device_store src h n (bt_insert (dev_id d) d (dhr_devices r)) s)"
    using assms(2) by (auto simp: device_apply_add_def Let_def split: if_splits sum.splits option.splits)
  have "sorted_map (dhr_devices r)"
    using device_invD(5) [OF assms(1) r(1)] by (simp add: device_record_ok_def items_ok_def)
  thus ?thesis
    using listing_store [OF assms(1)] listing_records [OF assms(1), of h] r by (simp add: map_of_bt_insert)
qed

lemma listing_remove:
  assumes "device_inv s" and "device_apply_remove src h n k s = (Inr v, s')"
  shows "device_listing_of s' = (device_listing_of s)(h := (device_listing_of s h)(k := None))"
proof -
  obtain r where r: "map_of (dv_records s) h = Some r" "s' = snd (device_store src h n (AList.delete k (dhr_devices r)) s)"
    using assms(2) by (auto simp: device_apply_remove_def split: if_splits sum.splits option.splits)
  thus ?thesis
    using listing_store [OF assms(1)] listing_records [OF assms(1), of h] by (simp add: delete_conv')
qed

lemma listing_drop:
  assumes "device_inv s"
  shows "device_listing_of (device_drop_record h s) = (device_listing_of s)(h := Map.empty)"
  using device_invD(2,8) [OF assms]
  by (auto simp: fun_eq_iff device_drop_record_eq dis_device_projection delete_conv')

lemma binding_host: "device_binding e s = Inr b \<Longrightarrow> dvb_remote_host_id b = cas_remote_host_id e"
  by (auto simp: device_binding_def Let_def split: if_splits)

lemma answer_cases:
  obtains (refused) e where "fst out = Inl e" | (accepted) v where "out = (Inr v, snd out)"
  by (cases "fst out") (metis, metis prod.collapse)

lemma listing_clear [simp]: "device_listing_of (clear_suspension src s) = device_listing_of s"
  by simp

lemma listing_remote_snapshot:
  assumes "device_inv s" and "device_remote_snapshot_bound b m s = (Inr v, s')"
  shows "\<exists>ds. devices_from_wire (dsnap_devices m) (dvb_remote_host_id b) = Inr ds
    \<and> device_listing_of s' = (device_listing_of s)(dvb_remote_host_id b := listed ds)"
proof -
  obtain ds s1 where ds: "devices_from_wire (dsnap_devices m) (dvb_remote_host_id b) = Inr ds"
    and a: "device_apply_snapshot (DvRemote b) (dvb_remote_host_id b) (dsnap_revision m) ds s = (Inr v, s1)"
    and s': "dv_published s' = dv_published s1"
    using assms(2) by (auto simp: device_remote_snapshot_bound_def Let_def split: sum.splits if_splits prod.splits)
  thus ?thesis using listing_snapshot [OF assms(1) a] by simp
qed

lemma listing_remote_add:
  assumes "device_inv s" and "device_remote_add_bound b m s = (Inr v, s')"
  shows "\<exists>d. device_from_wire (dadd_device m) (dvb_remote_host_id b) = Inr d
    \<and> device_listing_of s' = (device_listing_of s)(dvb_remote_host_id b := (device_listing_of s (dvb_remote_host_id b))(dev_id d \<mapsto> d))"
proof -
  obtain d where d: "device_from_wire (dadd_device m) (dvb_remote_host_id b) = Inr d"
    and a: "device_apply_add (DvRemote b) (dvb_remote_host_id b) (dadd_revision m) d s = (Inr v, s')"
    using assms(2) by (auto simp: device_remote_add_bound_def split: sum.splits)
  thus ?thesis using listing_add [OF assms(1) a] by blast
qed

lemma listing_remote_remove:
  assumes "device_inv s" and "device_remote_remove_bound b m s = (Inr v, s')"
  shows "device_listing_of s' = (device_listing_of s)(dvb_remote_host_id b := (device_listing_of s (dvb_remote_host_id b))(drem_device_id m := None))"
proof -
  have "device_apply_remove (DvRemote b) (dvb_remote_host_id b) (drem_revision m) (drem_device_id m) s = (Inr v, s')"
    using assms(2) by (auto simp: device_remote_remove_bound_def split: sum.splits if_splits)
  thus ?thesis using listing_remove [OF assms(1)] by blast
qed

lemma listing_publishing:
  assumes "device_inv s" and "device_publishing op"
  shows "device_listing_of (device_step op s) =
    (if device_accepts op s then device_effect (dv_local_host_id s) op (device_listing_of s) else device_listing_of s)"
proof (cases "device_accepts op s")
  case False
  hence "device_publication op s = None"
    using assms(2) by (cases op) (auto simp: published_by_def)
  thus ?thesis using device_step_publishing [OF assms] False by auto
next
  case True
  show ?thesis
  proof (cases op)
    case (DvLocalSnapshot n ds)
    then obtain v where "device_apply_snapshot DvLocal (dv_local_host_id s) n ds s = (Inr v, device_step op s)"
      using True by (cases rule: answer_cases [of "device_apply_local_snapshot n ds s"]) (auto simp: device_apply_local_snapshot_def)
    thus ?thesis using listing_snapshot [OF assms(1)] True DvLocalSnapshot by simp
  next
    case (DvLocalAdd n d)
    then obtain v where "device_apply_add DvLocal (dv_local_host_id s) n d s = (Inr v, device_step op s)"
      using True by (cases rule: answer_cases [of "device_apply_local_add n d s"]) (auto simp: device_apply_local_add_def)
    thus ?thesis using listing_add [OF assms(1)] True DvLocalAdd by simp
  next
    case (DvLocalRemove n k)
    then obtain v where "device_apply_remove DvLocal (dv_local_host_id s) n k s = (Inr v, device_step op s)"
      using True by (cases rule: answer_cases [of "device_apply_local_remove n k s"]) (auto simp: device_apply_local_remove_def)
    thus ?thesis using listing_remove [OF assms(1)] True DvLocalRemove by simp
  next
    case (DvRemoteSnapshot e m)
    then obtain b v where b: "device_binding e s = Inr b"
      and "device_remote_snapshot_bound b m s = (Inr v, device_step op s)"
      using True by (cases rule: answer_cases [of "device_apply_remote_snapshot e m s"])
        (auto simp: device_apply_remote_snapshot_def split: sum.splits)
    thus ?thesis using listing_remote_snapshot [OF assms(1)] binding_host [OF b] True DvRemoteSnapshot by fastforce
  next
    case (DvRemoteAdd e m)
    then obtain b v where b: "device_binding e s = Inr b"
      and "device_remote_add_bound b m s = (Inr v, device_step op s)"
      using True by (cases rule: answer_cases [of "device_apply_remote_add e m s"])
        (auto simp: device_apply_remote_add_def split: sum.splits)
    thus ?thesis using listing_remote_add [OF assms(1)] binding_host [OF b] True DvRemoteAdd by fastforce
  next
    case (DvRemoteRemove e m)
    then obtain b v where b: "device_binding e s = Inr b"
      and "device_remote_remove_bound b m s = (Inr v, device_step op s)"
      using True by (cases rule: answer_cases [of "device_apply_remote_remove e m s"])
        (auto simp: device_apply_remote_remove_def split: sum.splits)
    thus ?thesis using listing_remote_remove [OF assms(1)] binding_host [OF b] True DvRemoteRemove by simp
  qed (use assms(2) in simp_all)
qed

lemma listing_retiring:
  assumes "device_inv s"
  shows "device_listing_of (snd (device_invalidate_binding b s)) =
      (if fst (device_invalidate_binding b s) then (device_listing_of s)(dvb_remote_host_id b := Map.empty) else device_listing_of s)"
    and "device_listing_of (snd (device_suspend_binding b s)) =
      (if fst (device_suspend_binding b s) then (device_listing_of s)(dvb_remote_host_id b := Map.empty) else device_listing_of s)"
proof -
  show "device_listing_of (snd (device_invalidate_binding b s)) =
      (if fst (device_invalidate_binding b s) then (device_listing_of s)(dvb_remote_host_id b := Map.empty) else device_listing_of s)"
    using listing_drop [OF assms] by (simp add: device_invalidate_eq [OF assms] Let_def)
  have "(device_listing_of s)(h := Map.empty) = device_listing_of s" if "map_of (dv_records s) h = None" for h
    using that listing_records [OF assms, of h] by (auto simp: fun_eq_iff)
  thus "device_listing_of (snd (device_suspend_binding b s)) =
      (if fst (device_suspend_binding b s) then (device_listing_of s)(dvb_remote_host_id b := Map.empty) else device_listing_of s)"
    using listing_drop [OF assms] by (simp add: device_suspend_eq [OF assms] Let_def split: option.split)
qed

lemma listing_all_remote:
  assumes "device_inv s"
  shows "device_listing_of (device_invalidate_all_remote s) =
    (\<lambda>k. if k = dv_local_host_id s then device_listing_of s k else Map.empty)"
proof (rule ext)
  fix k
  note st = device_invD(2) [OF assms]
  have "dhr_source r = DvLocal \<longleftrightarrow> k = dv_local_host_id s" if "map_of (dv_records s) k = Some r" for r
    using device_invD(5) [OF assms that] by (auto simp: device_record_ok_def source_ok_def split: DeviceSource.splits)
  hence "map_of (filter (\<lambda>(_, r). dhr_source r = DvLocal) (dv_records s)) k =
      (if k = dv_local_host_id s then map_of (dv_records s) k else None)"
    using sorted_map_distinct [OF st] by (auto simp: map_of_filter_snd split: option.splits)
  thus "device_listing_of (device_invalidate_all_remote s) k =
      (if k = dv_local_host_id s then device_listing_of s k else Map.empty)"
    using listing_records [OF assms, of k]
    by (auto simp: device_invalidate_all_remote_def device_publish_eq st sorted_map_filter dis_device_projection fun_eq_iff
        split: option.splits)
qed

lemma listing_activate: "dv_published (snd (device_activate_remote e s)) = dv_published s"
  by (auto simp: device_activate_remote_def device_activate_binding_def Let_def split: sum.splits option.splits)

lemma listing_step:
  assumes "device_inv s"
  shows "device_listing_of (device_step op s) =
    (if device_accepts op s then device_effect (dv_local_host_id s) op (device_listing_of s) else device_listing_of s)"
proof (cases "device_publishing op")
  case True
  thus ?thesis using listing_publishing [OF assms] by blast
next
  case False
  thus ?thesis
    using listing_retiring [OF assms] listing_all_remote [OF assms] binding_host
    by (cases op) (auto simp: listing_activate device_invalidate_remote_def device_suspend_remote_def split: sum.splits)
qed

lemma listing_run:
  assumes "device_inv s"
  shows "device_listing_of (fold device_step ops s) =
    fold (device_effect (dv_local_host_id s)) (accepted_ops ops s) (device_listing_of s)"
  using assms
proof (induction ops arbitrary: s)
  case (Cons op ops)
  have "dv_local_host_id (device_step op s) = dv_local_host_id s"
    using device_run_static [OF Cons.prems, of "[op]"] by simp
  thus ?case using Cons.IH [OF device_inv_step [OF Cons.prems]] listing_step [OF Cons.prems] by simp
qed simp

text \<open>Who may be asked about a listed device: the local host, or the active session of another host.\<close>

lemma listed_iff:
  assumes "device_inv s"
  shows "device_listing_of s k d = Some x \<longleftrightarrow> d \<noteq> nil_id \<and>
     (k = dv_local_host_id s \<and> local_device d s = Some x
      \<or> (\<exists>b. dvb_remote_host_id b = k \<and> remote_device_bound b d s = Inr x))" (is "?l \<longleftrightarrow> ?r")
proof
  assume ?l
  then obtain q where q: "map_of (dv_records s) k = Some q" "map_of (dhr_devices q) d = Some x"
    by (auto simp: listing_records [OF assms] split: option.splits)
  note ok = device_invD(5) [OF assms q(1)]
  have d: "d \<noteq> nil_id" using ok map_of_SomeD [OF q(2)] by (auto simp: device_record_ok_def items_ok_def device_ok_def)
  show ?r
  proof (cases "dhr_source q")
    case DvLocal
    thus ?thesis using ok d q by (simp add: device_record_ok_def source_ok_def local_device_def)
  next
    case (DvRemote b)
    hence "dvb_remote_host_id b = k" "device_require_active b s = Inr ()"
      using ok by (auto simp: device_record_ok_def source_ok_def require_active_iff)
    thus ?thesis using q DvRemote d by (auto simp: remote_device_bound_def)
  qed
next
  assume ?r
  thus ?l
    by (auto simp: listing_records [OF assms] local_device_def remote_device_bound_def split: option.splits if_splits)
qed

lemma listed_identity:
  assumes "device_inv s" and "device_listing_of s k d = Some x"
  shows "dev_id x = d \<and> dev_host_id x = k"
proof -
  obtain q where q: "map_of (dv_records s) k = Some q" "map_of (dhr_devices q) d = Some x"
    using assms(2) by (auto simp: listing_records [OF assms(1)] split: option.splits)
  show ?thesis
    using device_invD(5) [OF assms(1) q(1)] map_of_SomeD [OF q(2)]
    by (auto simp: device_record_ok_def items_ok_def device_ok_def)
qed

text \<open>
  C32: The published snapshot is exact after every sequence of operations.  It lists, host by host,
  precisely what the accepted operations say, applied in order to an empty listing: a snapshot
  replaces the devices of its host, an addition and a removal change one of them, invalidating or
  suspending a session removes the devices of its host, shutting remote inventory down removes all
  but the local ones, and rejected operations and activations change nothing.  Its count is the
  number of devices it lists and within the configured total, every device is listed under its own
  identifier and host, and what is listed is exactly what the local lookup answers for the local
  host and the lookup of an active session for any other host.
\<close>

theorem published_devices_exact:
  assumes "DeviceInventory_new h c = Inr s0" "s = fold device_step ops s0"
  shows "dis_device (dv_published s) = fold (device_effect h) (accepted_ops ops s0) (\<lambda>_. Map.empty)
     \<and> dis_device_count (dv_published s) = length (dis_devices (dv_published s))
     \<and> dis_device_count (dv_published s) \<le> dic_total_devices c
     \<and> (\<forall>k d x. dis_device (dv_published s) k d = Some x \<longrightarrow> dev_id x = d \<and> dev_host_id x = k)
     \<and> (\<forall>k d x. dis_device (dv_published s) k d = Some x \<longleftrightarrow> d \<noteq> nil_id \<and>
          (k = h \<and> local_device d s = Some x
           \<or> (\<exists>b. dvb_remote_host_id b = k \<and> remote_device_bound b d s = Inr x)))"
proof -
  note r = device_reached [OF assms] and inv0 = device_inv_new [OF assms(1)]
  have s0: "dv_local_host_id s0 = h" "device_listing_of s0 = (\<lambda>_. Map.empty)"
    using assms(1) by (auto simp: DeviceInventory_new_def DeviceInventorySnapshot_default_def dis_device_def fun_eq_iff
        split: if_splits sum.splits)
  have "device_listing_of s = fold (device_effect h) (accepted_ops ops s0) (\<lambda>_. Map.empty)"
    using listing_run [OF inv0, of ops] assms(2) s0 by simp
  moreover have "dis_device_count (dv_published s) = length (dis_devices (dv_published s))"
      "dis_device_count (dv_published s) \<le> dic_total_devices c"
    using device_invD(4,8) [OF r(1)] r(2) by (simp_all add: length_dis_devices) (simp_all add: device_projection_def)
  ultimately show ?thesis
    using listed_iff [OF r(1)] listed_identity [OF r(1)] r(3) by simp
qed

section \<open>Revisions, sessions and peers\<close>

text \<open>
  C29: Over any run the revisions published by one source, the local host or one exact session, strictly
  increase, through suspensions and reconnections.
\<close>

theorem device_revisions_increase:
  assumes "DeviceInventory_new h c = Inr s0"
  shows "sorted_wrt (\<lambda>(a, r) (b, q). a = b \<longrightarrow> r < q)
     (publication_log device_step device_publication ops s0)"
  by (rule device_ledger.log_increasing[OF device_inv_new[OF assms]])

text \<open>
  A session that was invalidated never publishes again, whatever is replayed afterwards.
\<close>

theorem invalidated_session_silenced:
  assumes "DeviceInventory_new h c = Inr s0" "s = fold device_step ops s0"
    and "device_binding e s = Inr b" "device_invalidate_remote e s = (True, s')"
  shows "\<forall>n. (DvRemote b, n) \<notin> set (publication_log device_step device_publication later s')"
proof -
  note r = device_reached[OF assms(1,2)]
  have s': "(True, s') = device_invalidate_binding b s"
    using assms(3,4) by (simp add: device_invalidate_remote_def)
  have inv: "device_inv s'" using device_inv_invalidate[OF r(1), of b] s'[symmetric] by simp
  have "device_spent s' (DvRemote b) n" for n
    using s' by (auto simp: device_invalidate_eq[OF r(1)] Let_def device_spent_def map_of_bt_adjust bind_eq_Some_conv
        split: if_splits)
  then show ?thesis using device_ledger.log_fresh[OF inv] by blast
qed

text \<open>
  C30: The local inventory of one host reaches an admitted peer unchanged: whenever the peer's session is
  active, the revision is not spent there and the peer has room, the wire snapshot the host builds is
  accepted and the peer publishes exactly the host's entry.
\<close>

theorem peer_learns_local_devices:
  assumes "DeviceInventory_new ha ca = Inr a0" "a = fold device_step ops a0"
    and "DeviceInventory_new hb cb = Inr b0" "b = fold device_step ops' b0"
    and "map_of (dis_hosts (dv_published a)) ha = Some entry"
    and "device_binding e b = Inr bd" "dvb_remote_host_id bd = ha" "device_require_active bd b = Inr ()"
    and "\<not> device_spent b (DvRemote bd) (hdi_revision entry)"
    and "length (hdi_devices entry) \<le> dic_devices_per_host cb"
    and "dis_device_count (dv_published b) + length (hdi_devices entry) \<le> dic_total_devices cb"
  shows "\<exists>m v b'. device_local_wire_snapshot a = Inr m \<and> device_apply_remote_snapshot e m b = (Inr v, b')
     \<and> dv_published b' = v \<and> map_of (dis_hosts v) ha = Some entry"
proof -
  note ra = device_reached[OF assms(1,2)] and rb = device_reached[OF assms(3,4)]
  obtain q where q: "map_of (dv_records a) ha = Some q"
      and entry: "entry = \<lparr>hdi_host_id = ha, hdi_revision = dhr_revision q, hdi_devices = dhr_devices q\<rparr>"
    using assms(5) by (auto simp: device_invD(8)[OF ra(1)] map_of_projection device_view_def)
  note ok = device_invD(5)[OF ra(1) q]
  have src: "dhr_source q = DvLocal"
    using ok ra(3) by (auto simp: device_record_ok_def source_ok_def split: DeviceSource.splits)
  let ?m = "\<lparr>dsnap_revision = dhr_revision q, dsnap_host_id = ha, dsnap_devices = map (\<lambda>(_, d). device_to_wire d) (dhr_devices q)\<rparr>"
  have nil: "ha \<noteq> nil_id" using assms(1) by (auto simp: DeviceInventory_new_def)
  have "validate_wire_snapshot ?m ha (dic_devices_per_host (dv_config a)) = Inr ()"
    using ok nil device_invD(1)[OF ra(1)]
    by (intro local_snapshot_valid) (auto simp: device_record_ok_def device_config_ok_def MAX_DEVICE_INVENTORY_PER_HOST_def)
  then have lm: "device_local_wire_snapshot a = Inr ?m"
    using q src ra(3) by (simp add: device_local_wire_snapshot_def Let_def)
  have count: "dis_device_count (dv_published b) = device_total (dv_records b)"
    by (simp add: device_invD(8)[OF rb(1)] device_projection_def)
  obtain v where "fst (device_remote_snapshot_bound bd ?m b) = Inr v"
      "dv_published (snd (device_remote_snapshot_bound bd ?m b)) = v" "map_of (dis_hosts v) ha = Some entry"
    using remote_snapshot_accepted[OF rb(1) assms(8), of "dhr_revision q" "dhr_devices q" ?m] ok assms(7,9-11) rb(2) count
    by (auto simp: entry device_record_ok_def)
  then show ?thesis
    using lm assms(6) by (auto simp: device_apply_remote_snapshot_def prod_eq_iff)
qed

section \<open>Concrete runs\<close>

definition demo_device :: "id128 \<Rightarrow> id128 \<Rightarrow> InputDevice" where
  "demo_device h d = InputDevice_new d h [77] Mouse caps_pointer"

definition demo_inventory :: "id128 \<Rightarrow> DeviceInventory" where
  "demo_inventory h = \<lparr>dv_local_host_id = h, dv_config = DeviceInventoryConfig_default, dv_remote_sessions = [],
     dv_remote_shutdown = False, dv_records = [], dv_published = DeviceInventorySnapshot_default\<rparr>"

definition demo_binding :: "id128 \<Rightarrow> id128 \<Rightarrow> u64 \<Rightarrow> DeviceBinding" where
  "demo_binding here there g = \<lparr>dvb_generation = \<lparr>cg_gate_instance_id = 1, cg_sequence = g\<rparr>, dvb_local_host_id = here,
     dvb_remote_host_id = there, dvb_remote_peer_id = there, dvb_credential_fingerprint = 1\<rparr>"

lemma demo_inventory_new:
  "DeviceInventory_new 1 DeviceInventoryConfig_default = Inr (demo_inventory 1)"
  "DeviceInventory_new 2 DeviceInventoryConfig_default = Inr (demo_inventory 2)"
  by (simp_all add: DeviceInventory_new_def DeviceInventoryConfig_validate_def DeviceInventoryConfig_default_def
      demo_inventory_def MAX_DEVICE_INVENTORY_REMOTE_HOSTS_def MAX_DEVICE_INVENTORY_PER_HOST_def
      MAX_DEVICE_INVENTORY_TOTAL_def MAX_SNAPSHOT_ITEMS_def)

lemma demo_binding_eq:
  "dv_local_host_id s = 1 \<Longrightarrow> device_binding (demo_session 1 2 g) s = Inr (demo_binding 1 2 g)"
  "dv_local_host_id s = 2 \<Longrightarrow> device_binding (demo_session 2 1 g) s = Inr (demo_binding 2 1 g)"
  by (simp_all add: device_binding_def demo_session_def demo_hello_def cas_generation_def cas_local_host_id_def
      cas_remote_host_id_def Let_def demo_binding_def)

lemma demo_device_ok: "device_ok 1 (demo_device 1 5)"
  by (simp add: device_ok_def demo_device_def InputDevice_new_def wf_name_def MAX_DEVICE_NAME_BYTES_def str_len_def
      is_whitespace_def is_control_def len_utf8_def)

definition demo_record :: DeviceHostRecord where
  "demo_record = \<lparr>dhr_source = DvLocal, dhr_revision = 1, dhr_devices = [(5, demo_device 1 5)]\<rparr>"

lemma demo_device_id: "dev_id (demo_device h d) = d"
  by (simp add: demo_device_def InputDevice_new_def)

lemma demo_local_step:
  "device_apply_local_snapshot 1 [demo_device 1 5] (demo_inventory 1) =
     (Inr (device_projection [(1, demo_record)]),
      (demo_inventory 1)\<lparr>dv_records := [(1, demo_record)], dv_published := device_projection [(1, demo_record)]\<rparr>)"
  using demo_device_ok validate_domain_device_iff[of "demo_device 1 5" 1 "()"]
  by (simp add: device_apply_local_snapshot_def device_apply_snapshot_def demo_inventory_def device_validate_candidate_def
      DeviceInventoryConfig_default_def device_total_capacity_def checked_add_usize_def device_store_def device_publish_def
      demo_record_def demo_device_id device_projection_def entry_total_def device_view_def Let_def)

lemma demo_activate_step:
  "device_activate_remote (demo_session 2 1 g) (demo_inventory 2) = (Inr (),
     (demo_inventory 2)\<lparr>dv_remote_sessions := [(1, \<lparr>rss_current = Some (demo_binding 2 1 g), rss_retired = None,
        rss_suspended_revision = None\<rparr>)]\<rparr>)"
  using demo_binding_eq(2)[of "demo_inventory 2" g]
  by (simp add: device_activate_remote_def device_activate_binding_def demo_inventory_def Let_def demo_binding_def
      RemoteSessionSlot_default_def DeviceInventoryConfig_default_def)

theorem published_devices_exact_witness:
  "accepted_ops [DvLocalSnapshot 1 [demo_device 1 5]] (demo_inventory 1) = [DvLocalSnapshot 1 [demo_device 1 5]]
   \<and> dis_device (dv_published (fold device_step [DvLocalSnapshot 1 [demo_device 1 5]] (demo_inventory 1))) 1 5 = Some (demo_device 1 5)
   \<and> dis_device (dv_published (fold device_step [DvLocalSnapshot 1 [demo_device 1 5]] (demo_inventory 1))) 1 6 = None
   \<and> dis_device_count (dv_published (fold device_step [DvLocalSnapshot 1 [demo_device 1 5]] (demo_inventory 1))) \<le> 1024"
proof -
  have a: "accepted_ops [DvLocalSnapshot 1 [demo_device 1 5]] (demo_inventory 1) = [DvLocalSnapshot 1 [demo_device 1 5]]"
    by (simp add: demo_local_step)
  show ?thesis
    using published_devices_exact [OF demo_inventory_new(1) refl, of "[DvLocalSnapshot 1 [demo_device 1 5]]"] a
    by (simp add: listed_def demo_device_id DeviceInventoryConfig_default_def del: fold_simps accepted_ops.simps)
qed

theorem device_revisions_increase_witness:
  "publication_log device_step device_publication [DvLocalSnapshot 1 [demo_device 1 5]] (demo_inventory 1) = [(DvLocal, 1)]"
  using device_revisions_increase[OF demo_inventory_new(1), of "[DvLocalSnapshot 1 [demo_device 1 5]]"]
  by (simp add: demo_local_step published_by_def)

lemma demo_inventory_fields:
  "dv_local_host_id (demo_inventory h) = h" "dv_records (demo_inventory h) = []"
  "dv_remote_shutdown (demo_inventory h) = False"
  "dv_published (demo_inventory h) = DeviceInventorySnapshot_default"
  by (simp_all add: demo_inventory_def)

lemma demo_active_binding:
  "device_binding (demo_session 2 1 7) (device_step (DvActivate (demo_session 2 1 7)) (demo_inventory 2))
     = Inr (demo_binding 2 1 7)"
  by (rule demo_binding_eq(2)) (simp add: demo_activate_step demo_inventory_fields)

lemma demo_active: "device_require_active (demo_binding 2 1 7) (device_step (DvActivate (demo_session 2 1 7)) (demo_inventory 2)) = Inr ()"
  by (simp add: demo_activate_step require_active_iff demo_binding_def)

lemma demo_invalidate:
  "\<exists>s'. device_invalidate_remote (demo_session 2 1 7) (device_step (DvActivate (demo_session 2 1 7)) (demo_inventory 2)) = (True, s')"
  using demo_active_binding
  by (simp add: device_invalidate_remote_def device_invalidate_binding_def demo_activate_step demo_inventory_fields Let_def
      demo_binding_def)

theorem invalidated_session_silenced_witness:
  "\<exists>s'. device_invalidate_remote (demo_session 2 1 7) (device_step (DvActivate (demo_session 2 1 7)) (demo_inventory 2)) = (True, s')
     \<and> (\<forall>n. (DvRemote (demo_binding 2 1 7), n) \<notin> set (publication_log device_step device_publication
           [DvActivate (demo_session 2 1 7)] s'))"
proof -
  obtain s' where s': "device_invalidate_remote (demo_session 2 1 7)
      (device_step (DvActivate (demo_session 2 1 7)) (demo_inventory 2)) = (True, s')"
    using demo_invalidate by blast
  show ?thesis
    using s' invalidated_session_silenced[OF demo_inventory_new(2), of _ "[DvActivate (demo_session 2 1 7)]", OF _ demo_active_binding s']
    by (simp del: publication_log.simps)
qed

theorem peer_learns_local_devices_witness:
  "\<exists>m v b'. device_local_wire_snapshot (device_step (DvLocalSnapshot 1 [demo_device 1 5]) (demo_inventory 1)) = Inr m
     \<and> device_apply_remote_snapshot (demo_session 2 1 7) m (device_step (DvActivate (demo_session 2 1 7)) (demo_inventory 2)) = (Inr v, b')
     \<and> dis_device v 1 5 = Some (demo_device 1 5)"
proof -
  let ?a = "device_step (DvLocalSnapshot 1 [demo_device 1 5]) (demo_inventory 1)"
  let ?b = "device_step (DvActivate (demo_session 2 1 7)) (demo_inventory 2)"
  let ?e = "\<lparr>hdi_host_id = 1, hdi_revision = 1, hdi_devices = [(5, demo_device 1 5)]\<rparr>"
  have entry: "map_of (dis_hosts (dv_published ?a)) 1 = Some ?e"
    by (simp add: demo_local_step device_projection_def device_view_def demo_record_def)
  have fresh: "\<not> device_spent ?b (DvRemote (demo_binding 2 1 7)) (hdi_revision ?e)"
    by (simp add: demo_activate_step device_spent_def demo_inventory_fields demo_binding_def)
  have "\<exists>m v b'. device_local_wire_snapshot ?a = Inr m \<and> device_apply_remote_snapshot (demo_session 2 1 7) m ?b = (Inr v, b')
     \<and> dv_published b' = v \<and> map_of (dis_hosts v) 1 = Some ?e"
    by (rule peer_learns_local_devices[OF demo_inventory_new(1) _ demo_inventory_new(2) _ entry demo_active_binding _ demo_active fresh,
          of "[DvLocalSnapshot 1 [demo_device 1 5]]" "[DvActivate (demo_session 2 1 7)]"])
      (simp_all add: demo_binding_def DeviceInventoryConfig_default_def demo_activate_step demo_inventory_fields
        DeviceInventorySnapshot_default_def)
  then show ?thesis by (force simp: dis_device_def)
qed

end
