(* ===== verification/DisplayInventory.thy ===== *)
theory DisplayInventory
  imports InventoryBase
begin

text \<open>
  The display inventory of \<^verbatim>\<open>kvm-daemon/src/display_inventory.rs\<close>: per host one record of displays with its
  source and revision, the active session of each remote host, and a bounded table of retired
  sessions from which the oldest entry is evicted.
\<close>

section \<open>Configuration and errors\<close>

definition MAX_INVENTORY_REMOTE_HOSTS :: nat where "MAX_INVENTORY_REMOTE_HOSTS = 256"
definition MAX_INVENTORY_DISPLAYS_PER_HOST :: nat where
  "MAX_INVENTORY_DISPLAYS_PER_HOST = MAX_SNAPSHOT_ITEMS"
definition MAX_INVENTORY_TOTAL_DISPLAYS :: nat where "MAX_INVENTORY_TOTAL_DISPLAYS = 4096"

record DisplayInventoryConfig =
  dpc_remote_hosts :: nat
  dpc_displays_per_host :: nat
  dpc_total_displays :: nat

definition DisplayInventoryConfig_default :: DisplayInventoryConfig where
  "DisplayInventoryConfig_default =
     \<lparr>dpc_remote_hosts = 32, dpc_displays_per_host = 32, dpc_total_displays = 512\<rparr>"

datatype DisplayInventoryError =
    DpInvalidConfiguration | DpInvalidHost | DpInvalidMessage | DpInvalidDisplay | DpInvalidRevision
  | DpDuplicateDisplay | DpInvalidPrimaryCount | DpCapacityExceeded | DpStaleRevision | DpRevisionGap
  | DpRevisionExhausted | DpInventoryUnavailable | DpSessionMismatch

definition DisplayInventoryConfig_validate ::
  "DisplayInventoryConfig \<Rightarrow> (DisplayInventoryError, DisplayInventoryConfig) result" where
  "DisplayInventoryConfig_validate c =
     (if dpc_remote_hosts c = 0
         \<or> dpc_remote_hosts c > MAX_INVENTORY_REMOTE_HOSTS
         \<or> dpc_displays_per_host c = 0
         \<or> dpc_displays_per_host c > MAX_INVENTORY_DISPLAYS_PER_HOST
         \<or> dpc_total_displays c = 0
         \<or> dpc_total_displays c > MAX_INVENTORY_TOTAL_DISPLAYS
         \<or> dpc_displays_per_host c > dpc_total_displays c
      then Inl DpInvalidConfiguration
      else Inr c)"

section \<open>State\<close>

record HostDisplayInventorySnapshot =
  hpi_host_id :: HostId
  hpi_revision :: u64
  hpi_displays :: "(DisplayId, Display) btree_map"

record DisplayInventorySnapshot =
  dps_hosts :: "(HostId, HostDisplayInventorySnapshot) btree_map"
  dps_display_count :: nat

definition DisplayInventorySnapshot_default :: DisplayInventorySnapshot where
  "DisplayInventorySnapshot_default = \<lparr>dps_hosts = [], dps_display_count = 0\<rparr>"

definition dps_displays :: "DisplayInventorySnapshot \<Rightarrow> Display list" where
  "dps_displays v = concat (map (\<lambda>(_, entry). map snd (hpi_displays entry)) (dps_hosts v))"

record DisplayBinding =
  dpb_generation :: ConnectionGeneration
  dpb_local_host_id :: HostId
  dpb_remote_host_id :: HostId

datatype DisplaySource = DpLocal | DpRemote DisplayBinding

record DisplayHostRecord =
  dpr_source :: DisplaySource
  dpr_revision :: u64
  dpr_displays :: "(DisplayId, Display) btree_map"

record DisplayInventory =
  dp_local_host_id :: HostId
  dp_config :: DisplayInventoryConfig
  dp_active_sessions :: "(HostId, DisplayBinding) btree_map"
  dp_retired_sessions :: "(HostId, DisplayBinding) btree_map"
  dp_remote_shutdown :: bool
  dp_records :: "(HostId, DisplayHostRecord) btree_map"
  dp_published :: DisplayInventorySnapshot

type_synonym display_answer =
  "(DisplayInventoryError, DisplayInventorySnapshot) result \<times> DisplayInventory"

definition DisplayInventory_new ::
  "HostId \<Rightarrow> DisplayInventoryConfig \<Rightarrow> (DisplayInventoryError, DisplayInventory) result" where
  "DisplayInventory_new host config =
     (if host = nil_id then Inl DpInvalidHost
      else case DisplayInventoryConfig_validate config of
        Inl e \<Rightarrow> Inl e
      | Inr config \<Rightarrow>
          Inr \<lparr>dp_local_host_id = host, dp_config = config, dp_active_sessions = [],
               dp_retired_sessions = [], dp_remote_shutdown = False, dp_records = [],
               dp_published = DisplayInventorySnapshot_default\<rparr>)"

section \<open>Checks and conversion of displays\<close>

definition domain_positive_bounded :: "f64 \<Rightarrow> f64 \<Rightarrow> bool" where
  "domain_positive_bounded value maximum \<longleftrightarrow>
     f64_is_finite value \<and> f64_lt f64_zero value \<and> f64_le value maximum"

definition domain_bounded_coordinate :: "f64 \<Rightarrow> bool" where
  "domain_bounded_coordinate value \<longleftrightarrow>
     f64_is_finite value \<and> f64_le (f64_abs value) MAX_DISPLAY_NATIVE_COORDINATE_ABS"

definition validate_domain_display ::
  "Display \<Rightarrow> HostId \<Rightarrow> (DisplayInventoryError, unit) result" where
  "validate_domain_display display expected_host =
     (let bounds = disp_native_bounds display in
      if disp_id display = nil_id
         \<or> disp_host_id display \<noteq> expected_host
         \<or> expected_host = nil_id
         \<or> str_trim (disp_name display) = []
         \<or> str_len (disp_name display) > MAX_DISPLAY_NAME_BYTES
         \<or> list_ex is_control (disp_name display)
         \<or> \<not> domain_positive_bounded (size_width (disp_logical_size display)) MAX_DISPLAY_LOGICAL_DIMENSION
         \<or> \<not> domain_positive_bounded (size_height (disp_logical_size display)) MAX_DISPLAY_LOGICAL_DIMENSION
         \<or> (case disp_physical_size display of
              None \<Rightarrow> False
            | Some sz \<Rightarrow> \<not> domain_positive_bounded (size_width sz) MAX_DISPLAY_PHYSICAL_DIMENSION
                       \<or> \<not> domain_positive_bounded (size_height sz) MAX_DISPLAY_PHYSICAL_DIMENSION)
         \<or> \<not> domain_positive_bounded (disp_scale_factor display) MAX_DISPLAY_SCALE_FACTOR
         \<or> (case disp_refresh_rate display of
              None \<Rightarrow> False
            | Some rate \<Rightarrow> \<not> domain_positive_bounded rate MAX_DISPLAY_REFRESH_RATE_HZ)
         \<or> \<not> domain_bounded_coordinate (rect_x bounds)
         \<or> \<not> domain_bounded_coordinate (rect_y bounds)
         \<or> \<not> domain_positive_bounded (rect_width bounds) MAX_DISPLAY_PHYSICAL_DIMENSION
         \<or> \<not> domain_positive_bounded (rect_height bounds) MAX_DISPLAY_PHYSICAL_DIMENSION
         \<or> \<not> domain_bounded_coordinate (f64_add (rect_x bounds) (rect_width bounds))
         \<or> \<not> domain_bounded_coordinate (f64_add (rect_y bounds) (rect_height bounds))
      then Inl DpInvalidDisplay
      else Inr ())"

definition validate_primary_count :: "Display list \<Rightarrow> (DisplayInventoryError, unit) result" where
  "validate_primary_count displays =
     (if length (filter disp_primary displays) \<noteq> 1 then Inl DpInvalidPrimaryCount else Inr ())"

definition display_from_wire ::
  "WireDisplayV1 \<Rightarrow> HostId \<Rightarrow> (DisplayInventoryError, Display) result" where
  "display_from_wire wire expected_host =
     (if wdisp_host_id wire \<noteq> expected_host then Inl DpSessionMismatch
      else let bounds = wdisp_native_bounds wire;
               display = \<lparr>disp_id = wdisp_id wire, disp_host_id = wdisp_host_id wire,
                 disp_name = wdisp_name wire,
                 disp_logical_size = \<lparr>size_width = wsize_width (wdisp_logical_size wire),
                                      size_height = wsize_height (wdisp_logical_size wire)\<rparr>,
                 disp_physical_size =
                   map_option (\<lambda>sz. \<lparr>size_width = wsize_width sz, size_height = wsize_height sz\<rparr>)
                     (wdisp_physical_size wire),
                 disp_scale_factor = wdisp_scale_factor wire,
                 disp_refresh_rate = wdisp_refresh_rate wire,
                 disp_native_bounds = Rect_new (wrect_x bounds) (wrect_y bounds)
                                        (wrect_width bounds) (wrect_height bounds),
                 disp_primary = wdisp_primary wire\<rparr>
           in and_then (validate_domain_display display expected_host) (\<lambda>_. Inr display))"

definition display_to_wire :: "Display \<Rightarrow> WireDisplayV1" where
  "display_to_wire display =
     \<lparr>wdisp_id = disp_id display, wdisp_host_id = disp_host_id display, wdisp_name = disp_name display,
      wdisp_logical_size = \<lparr>wsize_width = size_width (disp_logical_size display),
                            wsize_height = size_height (disp_logical_size display)\<rparr>,
      wdisp_physical_size = map_option (\<lambda>sz. \<lparr>wsize_width = size_width sz, wsize_height = size_height sz\<rparr>)
                              (disp_physical_size display),
      wdisp_scale_factor = disp_scale_factor display, wdisp_refresh_rate = disp_refresh_rate display,
      wdisp_native_bounds = \<lparr>wrect_x = rect_x (disp_native_bounds display),
        wrect_y = rect_y (disp_native_bounds display),
        wrect_width = rect_width (disp_native_bounds display),
        wrect_height = rect_height (disp_native_bounds display)\<rparr>,
      wdisp_primary = disp_primary display\<rparr>"

section \<open>Publishing and capacity\<close>

definition display_total_capacity ::
  "HostId \<Rightarrow> nat \<Rightarrow> DisplayInventory \<Rightarrow> (DisplayInventoryError, unit) result" where
  "display_total_capacity replacing_host replacement_count s =
     (case checked_total 0
             (map (\<lambda>(_, r). length (dpr_displays r)) (filter (\<lambda>(h, _). h \<noteq> replacing_host) (dp_records s))) of
        None \<Rightarrow> Inl DpCapacityExceeded
      | Some elsewhere \<Rightarrow>
          (case checked_add_usize elsewhere replacement_count of
             None \<Rightarrow> Inl DpCapacityExceeded
           | Some t \<Rightarrow> if t > dpc_total_displays (dp_config s) then Inl DpCapacityExceeded else Inr ()))"

fun display_publish_loop ::
  "(HostId \<times> DisplayHostRecord) list \<Rightarrow> (HostId, HostDisplayInventorySnapshot) btree_map \<Rightarrow> nat \<Rightarrow>
   DisplayInventorySnapshot" where
  "display_publish_loop [] hosts count = \<lparr>dps_hosts = hosts, dps_display_count = count\<rparr>"
| "display_publish_loop ((h, r) # rest) hosts count =
     display_publish_loop rest
       (bt_insert h \<lparr>hpi_host_id = h, hpi_revision = dpr_revision r, hpi_displays = dpr_displays r\<rparr> hosts)
       (count + length (dpr_displays r))"

definition display_publish :: "DisplayInventory \<Rightarrow> DisplayInventorySnapshot \<times> DisplayInventory" where
  "display_publish s =
     (let snapshot = display_publish_loop (dp_records s) [] 0 in (snapshot, s\<lparr>dp_published := snapshot\<rparr>))"

fun display_candidate_loop ::
  "Display list \<Rightarrow> HostId \<Rightarrow> (DisplayId, Display) btree_map \<Rightarrow>
   (DisplayInventoryError, (DisplayId, Display) btree_map) result" where
  "display_candidate_loop [] host candidate = Inr candidate"
| "display_candidate_loop (display # rest) host candidate =
     and_then (validate_domain_display display host) (\<lambda>_.
       if map_of candidate (disp_id display) \<noteq> None then Inl DpDuplicateDisplay
       else display_candidate_loop rest host (bt_insert (disp_id display) display candidate))"

definition display_validate_candidate ::
  "HostId \<Rightarrow> Display list \<Rightarrow> DisplayInventory \<Rightarrow>
   (DisplayInventoryError, (DisplayId, Display) btree_map) result" where
  "display_validate_candidate host displays s =
     (if length displays > dpc_displays_per_host (dp_config s) then Inl DpCapacityExceeded
      else and_then (display_candidate_loop displays host []) (\<lambda>candidate.
           and_then (validate_primary_count (map snd candidate)) (\<lambda>_. Inr candidate)))"

section \<open>Changing one host's record\<close>

definition display_store ::
  "DisplaySource \<Rightarrow> HostId \<Rightarrow> u64 \<Rightarrow> (DisplayId, Display) btree_map \<Rightarrow> DisplayInventory \<Rightarrow> display_answer" where
  "display_store source host revision candidate s =
     (let (snapshot, s) = display_publish (s\<lparr>dp_records := bt_insert host
            \<lparr>dpr_source = source, dpr_revision = revision, dpr_displays = candidate\<rparr> (dp_records s)\<rparr>)
      in (Inr snapshot, s))"

definition display_apply_snapshot ::
  "DisplaySource \<Rightarrow> HostId \<Rightarrow> u64 \<Rightarrow> Display list \<Rightarrow> DisplayInventory \<Rightarrow> display_answer" where
  "display_apply_snapshot source host revision displays s =
     (if revision = 0 then (Inl DpInvalidRevision, s)
      else case (case map_of (dp_records s) host of
                   None \<Rightarrow> Inr ()
                 | Some existing \<Rightarrow>
                     if dpr_source existing \<noteq> source then Inl DpSessionMismatch
                     else if revision \<le> dpr_revision existing then Inl DpStaleRevision
                     else Inr ()) of
        Inl e \<Rightarrow> (Inl e, s)
      | Inr _ \<Rightarrow>
          (case display_validate_candidate host displays s of
             Inl e \<Rightarrow> (Inl e, s)
           | Inr candidate \<Rightarrow>
               (case display_total_capacity host (length candidate) s of
                  Inl e \<Rightarrow> (Inl e, s)
                | Inr _ \<Rightarrow> display_store source host revision candidate s)))"

definition display_next_revision :: "u64 \<Rightarrow> u64 \<Rightarrow> (DisplayInventoryError, unit) result" where
  "display_next_revision current revision =
     (case checked_add_u64 current 1 of
        None \<Rightarrow> Inl DpRevisionExhausted
      | Some next_revision \<Rightarrow>
          if revision < next_revision then Inl DpStaleRevision
          else if revision \<noteq> next_revision then Inl DpRevisionGap
          else Inr ())"

definition display_apply_update ::
  "DisplaySource \<Rightarrow> HostId \<Rightarrow> u64 \<Rightarrow> Display \<Rightarrow> DisplayInventory \<Rightarrow> display_answer" where
  "display_apply_update source host revision display s =
     (case map_of (dp_records s) host of
        None \<Rightarrow> (Inl DpInventoryUnavailable, s)
      | Some existing \<Rightarrow>
          if dpr_source existing \<noteq> source then (Inl DpSessionMismatch, s)
          else let candidate = bt_insert (disp_id display) display (dpr_displays existing) in
            case and_then (display_next_revision (dpr_revision existing) revision) (\<lambda>_.
                 and_then (validate_domain_display display host) (\<lambda>_.
                 and_then (validate_primary_count (map snd candidate)) (\<lambda>_.
                 if length candidate > dpc_displays_per_host (dp_config s)
                 then Inl DpCapacityExceeded
                 else display_total_capacity host (length candidate) s))) of
              Inl e \<Rightarrow> (Inl e, s)
            | Inr _ \<Rightarrow> display_store source host revision candidate s)"

section \<open>Local inventory\<close>

definition display_apply_local_snapshot :: "u64 \<Rightarrow> Display list \<Rightarrow> DisplayInventory \<Rightarrow> display_answer" where
  "display_apply_local_snapshot revision displays s =
     display_apply_snapshot DpLocal (dp_local_host_id s) revision displays s"

definition display_apply_local_update :: "u64 \<Rightarrow> Display \<Rightarrow> DisplayInventory \<Rightarrow> display_answer" where
  "display_apply_local_update revision display s =
     display_apply_update DpLocal (dp_local_host_id s) revision display s"

definition display_local_wire_snapshot ::
  "DisplayInventory \<Rightarrow> (DisplayInventoryError, DisplaySnapshotV1) result" where
  "display_local_wire_snapshot s =
     (case map_of (dp_records s) (dp_local_host_id s) of
        None \<Rightarrow> Inl DpInventoryUnavailable
      | Some r \<Rightarrow>
          if dpr_source r \<noteq> DpLocal then Inl DpInventoryUnavailable
          else let message = \<lparr>dpsnap_revision = dpr_revision r, dpsnap_host_id = dp_local_host_id s,
                 dpsnap_displays = map (\<lambda>(_, d). display_to_wire d) (dpr_displays r)\<rparr>
               in case DisplaySnapshotV1_validate message of
                    Inl _ \<Rightarrow> Inl DpInvalidMessage | Inr _ \<Rightarrow> Inr message)"

section \<open>Remote sessions\<close>

definition display_binding ::
  "CurrentAdmittedSession \<Rightarrow> DisplayInventory \<Rightarrow> (DisplayInventoryError, DisplayBinding) result" where
  "display_binding session s =
     (let binding = \<lparr>dpb_generation = cas_generation session,
            dpb_local_host_id = cas_local_host_id session,
            dpb_remote_host_id = cas_remote_host_id session\<rparr>
      in if dpb_local_host_id binding \<noteq> dp_local_host_id s
            \<or> dpb_remote_host_id binding = nil_id
            \<or> dpb_remote_host_id binding = dpb_local_host_id binding
         then Inl DpSessionMismatch
         else Inr binding)"

definition display_activate_binding ::
  "DisplayBinding \<Rightarrow> DisplayInventory \<Rightarrow> (DisplayInventoryError, unit) result \<times> DisplayInventory" where
  "display_activate_binding b s =
     (let h = dpb_remote_host_id b in
      if dp_remote_shutdown s then (Inl DpSessionMismatch, s)
      else case map_of (dp_active_sessions s) h of
        Some active \<Rightarrow> if active = b then (Inr (), s) else (Inl DpSessionMismatch, s)
      | None \<Rightarrow>
          if (case map_of (dp_retired_sessions s) h of None \<Rightarrow> False
              | Some retired \<Rightarrow>
                  generation_rank (dpb_generation b) \<le> generation_rank (dpb_generation retired))
          then (Inl DpSessionMismatch, s)
          else if length (dp_active_sessions s) \<ge> dpc_remote_hosts (dp_config s)
          then (Inl DpCapacityExceeded, s)
          else (Inr (), s\<lparr>dp_active_sessions := bt_insert h b (dp_active_sessions s)\<rparr>))"

definition display_require_active ::
  "DisplayBinding \<Rightarrow> DisplayInventory \<Rightarrow> (DisplayInventoryError, unit) result" where
  "display_require_active b s =
     (if map_of (dp_active_sessions s) (dpb_remote_host_id b) = Some b then Inr ()
      else Inl DpSessionMismatch)"

text \<open>\<^verbatim>\<open>min_by_key\<close> returns the first of several minima.\<close>

fun oldest_retired :: "(HostId \<times> DisplayBinding) list \<Rightarrow> (HostId \<times> DisplayBinding) option" where
  "oldest_retired [] = None"
| "oldest_retired ((h, b) # rest) =
     (case oldest_retired rest of
        None \<Rightarrow> Some (h, b)
      | Some (h', b') \<Rightarrow>
          if generation_rank (dpb_generation b') < generation_rank (dpb_generation b)
          then Some (h', b') else Some (h, b))"

text \<open>Makes room in the retired table; the flag says that a record was dropped.\<close>

definition evict_retired :: "HostId \<Rightarrow> DisplayInventory \<Rightarrow> DisplayInventory \<times> bool" where
  "evict_retired h s =
     (if map_of (dp_retired_sessions s) h = None
         \<and> length (dp_retired_sessions s) \<ge> dpc_remote_hosts (dp_config s)
      then case oldest_retired (dp_retired_sessions s) of
             None \<Rightarrow> (s, False)
           | Some (evicted_host, _) \<Rightarrow>
               (let s = s\<lparr>dp_retired_sessions := AList.delete evicted_host (dp_retired_sessions s)\<rparr> in
                case map_of (dp_records s) evicted_host of
                  Some r \<Rightarrow>
                    (case dpr_source r of
                       DpRemote _ \<Rightarrow> (s\<lparr>dp_records := AList.delete evicted_host (dp_records s)\<rparr>, True)
                     | DpLocal \<Rightarrow> (s, False))
                | None \<Rightarrow> (s, False))
      else (s, False))"

definition display_invalidate_binding :: "DisplayBinding \<Rightarrow> DisplayInventory \<Rightarrow> bool \<times> DisplayInventory" where
  "display_invalidate_binding b s =
     (let h = dpb_remote_host_id b in
      if map_of (dp_active_sessions s) h \<noteq> Some b then (False, s)
      else let (s, records_changed) = evict_retired h s;
               s = s\<lparr>dp_active_sessions := AList.delete h (dp_active_sessions s),
                     dp_retired_sessions := bt_insert h b (dp_retired_sessions s)\<rparr>;
               remove = (case map_of (dp_records s) h of None \<Rightarrow> False
                         | Some r \<Rightarrow> dpr_source r = DpRemote b);
               s = (if remove then s\<lparr>dp_records := AList.delete h (dp_records s)\<rparr> else s)
           in (True, if records_changed \<or> remove then snd (display_publish s) else s))"

definition shutdown_remote :: "DisplayInventory \<Rightarrow> DisplayInventory" where
  "shutdown_remote s =
     snd (display_publish (s\<lparr>dp_remote_shutdown := True, dp_active_sessions := [],
            dp_retired_sessions := [],
            dp_records := filter (\<lambda>(_, r). dpr_source r = DpLocal) (dp_records s)\<rparr>))"

fun displays_from_wire ::
  "WireDisplayV1 list \<Rightarrow> HostId \<Rightarrow> (DisplayInventoryError, Display list) result" where
  "displays_from_wire [] host = Inr []"
| "displays_from_wire (w # ws) host =
     and_then (display_from_wire w host) (\<lambda>d. and_then (displays_from_wire ws host) (\<lambda>ds. Inr (d # ds)))"

definition display_remote_snapshot_bound ::
  "DisplayBinding \<Rightarrow> DisplaySnapshotV1 \<Rightarrow> DisplayInventory \<Rightarrow> display_answer" where
  "display_remote_snapshot_bound b message s =
     (case display_require_active b s of
        Inl e \<Rightarrow> (Inl e, s)
      | Inr _ \<Rightarrow>
          (case DisplaySnapshotV1_validate message of
             Inl _ \<Rightarrow> (Inl DpInvalidMessage, s)
           | Inr _ \<Rightarrow>
               if dpsnap_host_id message \<noteq> dpb_remote_host_id b then (Inl DpSessionMismatch, s)
               else case displays_from_wire (dpsnap_displays message) (dpb_remote_host_id b) of
                 Inl e \<Rightarrow> (Inl e, s)
               | Inr displays \<Rightarrow>
                   display_apply_snapshot (DpRemote b) (dpb_remote_host_id b) (dpsnap_revision message)
                     displays s))"

definition display_remote_update_bound ::
  "DisplayBinding \<Rightarrow> DisplayUpdatedV1 \<Rightarrow> DisplayInventory \<Rightarrow> display_answer" where
  "display_remote_update_bound b message s =
     (case display_require_active b s of
        Inl e \<Rightarrow> (Inl e, s)
      | Inr _ \<Rightarrow>
          (case DisplayUpdatedV1_validate message of
             Inl _ \<Rightarrow> (Inl DpInvalidMessage, s)
           | Inr _ \<Rightarrow>
               (case display_from_wire (dpupd_display message) (dpb_remote_host_id b) of
                  Inl e \<Rightarrow> (Inl e, s)
                | Inr display \<Rightarrow>
                    display_apply_update (DpRemote b) (dpb_remote_host_id b) (dpupd_revision message)
                      display s)))"

text \<open>The entry points taken by an admitted session.\<close>

definition display_apply_remote_snapshot ::
  "CurrentAdmittedSession \<Rightarrow> DisplaySnapshotV1 \<Rightarrow> DisplayInventory \<Rightarrow> display_answer" where
  "display_apply_remote_snapshot session message s =
     (case display_binding session s of
        Inl e \<Rightarrow> (Inl e, s) | Inr b \<Rightarrow> display_remote_snapshot_bound b message s)"

definition display_activate_remote ::
  "CurrentAdmittedSession \<Rightarrow> DisplayInventory \<Rightarrow> (DisplayInventoryError, unit) result \<times> DisplayInventory" where
  "display_activate_remote session s =
     (case display_binding session s of Inl e \<Rightarrow> (Inl e, s) | Inr b \<Rightarrow> display_activate_binding b s)"

definition display_apply_remote_update ::
  "CurrentAdmittedSession \<Rightarrow> DisplayUpdatedV1 \<Rightarrow> DisplayInventory \<Rightarrow> display_answer" where
  "display_apply_remote_update session message s =
     (case display_binding session s of
        Inl e \<Rightarrow> (Inl e, s) | Inr b \<Rightarrow> display_remote_update_bound b message s)"

definition display_invalidate_remote ::
  "CurrentAdmittedSession \<Rightarrow> DisplayInventory \<Rightarrow> bool \<times> DisplayInventory" where
  "display_invalidate_remote session s =
     (case display_binding session s of Inl _ \<Rightarrow> (False, s) | Inr b \<Rightarrow> display_invalidate_binding b s)"

definition display_invalidate_all_remote :: "DisplayInventory \<Rightarrow> DisplayInventory" where
  "display_invalidate_all_remote s = shutdown_remote s"

end
