(* ===== verification/DisplayLedger.thy ===== *)
theory DisplayLedger
  imports DisplayInventory
begin

text \<open>
  What the display inventory guarantees, along the lines of \<^verbatim>\<open>DeviceLedger\<close>.  The order of revisions
  holds as long as no retired entry is evicted, which a bound on the number of hosts gives; a
  concrete run shows what eviction does to a live session.
\<close>

section \<open>Totals, views and well-formed tables\<close>

abbreviation display_size :: "DisplayHostRecord \<Rightarrow> nat" where
  "display_size r \<equiv> length (dpr_displays r)"

abbreviation display_total :: "(HostId, DisplayHostRecord) btree_map \<Rightarrow> nat" where
  "display_total \<equiv> entry_total display_size"

definition display_view :: "HostId \<Rightarrow> DisplayHostRecord \<Rightarrow> HostDisplayInventorySnapshot" where
  "display_view h r = \<lparr>hpi_host_id = h, hpi_revision = dpr_revision r, hpi_displays = dpr_displays r\<rparr>"

definition display_projection :: "(HostId, DisplayHostRecord) btree_map \<Rightarrow> DisplayInventorySnapshot" where
  "display_projection m = \<lparr>dps_hosts = map (\<lambda>(h, r). (h, display_view h r)) m, dps_display_count = display_total m\<rparr>"

interpretation display_table: host_table display_size display_view
    "\<lambda>hosts n. \<lparr>dps_hosts = hosts, dps_display_count = n\<rparr>" display_publish_loop
  by unfold_locales (simp_all add: display_view_def)

lemma display_publish_eq:
  "sorted_map (dp_records s) \<Longrightarrow>
   display_publish s = (display_projection (dp_records s), s\<lparr>dp_published := display_projection (dp_records s)\<rparr>)"
  by (simp add: display_publish_def display_table.loop_eq display_projection_def Let_def)

lemma display_total_capacity_ok:
  "display_total_capacity h n s = Inr u \<Longrightarrow>
   display_total (filter (\<lambda>(k, _). k \<noteq> h) (dp_records s)) + n \<le> dpc_total_displays (dp_config s)"
  by (auto simp: display_total_capacity_def entry_total_def checked_add_usize_def
      dest!: checked_total_Some split: option.splits if_splits)

text \<open>The domain checks of the daemon and the wire checks of the protocol agree.\<close>

definition display_ok :: "HostId \<Rightarrow> Display \<Rightarrow> bool" where
  "display_ok h d \<longleftrightarrow> disp_host_id d = h \<and> wf_wire_display (display_to_wire d)"

abbreviation displays_ok :: "HostId \<Rightarrow> (DisplayId, Display) btree_map \<Rightarrow> bool" where
  "displays_ok \<equiv> items_ok disp_id display_ok"

lemma domain_positive_bounded_iff: "f64_is_finite m \<Longrightarrow> domain_positive_bounded x m \<longleftrightarrow> positive_upto m x"
  by (auto simp: domain_positive_bounded_def positive_upto_def dest: positive_upto_iff[THEN iffD1, rotated]
      simp: positive_upto_iff[unfolded positive_upto_def])

lemma domain_bounded_coordinate_iff: "domain_bounded_coordinate x \<longleftrightarrow> within_native x"
  using display_bounds_finite(5)
  by (auto simp: domain_bounded_coordinate_def within_native_def f64_le_def f64_lt_def dest: f64_finite_not_nan)

lemma validate_domain_display_iff: "validate_domain_display d h = Inr u \<longleftrightarrow> display_ok h d"
  by (auto simp: validate_domain_display_def display_ok_def wf_wire_display_def wf_wire_rect_def display_to_wire_def
      Let_def wf_name_def str_trim_eq_Nil list_ex_iff domain_positive_bounded_iff display_bounds_finite
      domain_bounded_coordinate_iff split: option.splits)

interpretation display_items: item_table validate_domain_display disp_id display_ok DpDuplicateDisplay
    display_candidate_loop
  by unfold_locales (simp_all add: validate_domain_display_iff)

definition one_primary :: "(DisplayId, Display) btree_map \<Rightarrow> bool" where
  "one_primary m \<longleftrightarrow> length (filter disp_primary (map snd m)) = 1"

lemma validate_primary_count_iff: "validate_primary_count (map snd m) = Inr u \<longleftrightarrow> one_primary m"
  by (simp add: validate_primary_count_def one_primary_def)

lemma display_validate_candidate_ok:
  "display_validate_candidate h ds s = Inr c \<Longrightarrow>
   displays_ok h c \<and> one_primary c \<and> length c \<le> dpc_displays_per_host (dp_config s)"
  by (auto simp: display_validate_candidate_def validate_primary_count_iff dest!: display_items.loop_ok split: if_splits)

lemma display_next_revision_iff: "display_next_revision a b = Inr u \<longleftrightarrow> unat b = unat a + 1"
proof (cases "checked_add_u64 a 1")
  case None
  then show ?thesis
    using unat_less_2p[of b] by (auto simp: display_next_revision_def checked_add_u64_def split: if_splits)
next
  case (Some n)
  then have "unat n = unat a + 1" by (simp add: checked_add_u64_Some)
  then show ?thesis
    using Some by (auto simp: display_next_revision_def word_less_nat_alt word_unat_eq_iff)
qed

section \<open>The invariant of the display inventory\<close>

definition display_config_ok :: "DisplayInventoryConfig \<Rightarrow> bool" where
  "display_config_ok c \<longleftrightarrow> 0 < dpc_remote_hosts c \<and> dpc_remote_hosts c \<le> MAX_INVENTORY_REMOTE_HOSTS
     \<and> 0 < dpc_displays_per_host c \<and> dpc_displays_per_host c \<le> MAX_INVENTORY_DISPLAYS_PER_HOST
     \<and> dpc_displays_per_host c \<le> dpc_total_displays c
     \<and> dpc_total_displays c \<le> MAX_INVENTORY_TOTAL_DISPLAYS"

definition display_source_ok :: "DisplayInventory \<Rightarrow> HostId \<Rightarrow> DisplaySource \<Rightarrow> bool" where
  "display_source_ok s h src = (case src of
       DpLocal \<Rightarrow> h = dp_local_host_id s
     | DpRemote b \<Rightarrow> h = dpb_remote_host_id b \<and> map_of (dp_active_sessions s) h = Some b)"

definition display_record_ok :: "DisplayInventory \<Rightarrow> HostId \<Rightarrow> DisplayHostRecord \<Rightarrow> bool" where
  "display_record_ok s h r \<longleftrightarrow> display_source_ok s h (dpr_source r) \<and> 0 < dpr_revision r
     \<and> displays_ok h (dpr_displays r) \<and> one_primary (dpr_displays r)
     \<and> display_size r \<le> dpc_displays_per_host (dp_config s)"

definition active_ok :: "DisplayInventory \<Rightarrow> HostId \<Rightarrow> DisplayBinding \<Rightarrow> bool" where
  "active_ok s h b \<longleftrightarrow> dpb_remote_host_id b = h \<and> h \<noteq> dp_local_host_id s \<and> h \<noteq> nil_id
     \<and> (\<forall>r. map_of (dp_retired_sessions s) h = Some r \<longrightarrow>
           generation_rank (dpb_generation r) < generation_rank (dpb_generation b))"

definition display_inv :: "DisplayInventory \<Rightarrow> bool" where
  "display_inv s \<longleftrightarrow> display_config_ok (dp_config s) \<and> dp_local_host_id s \<noteq> nil_id
     \<and> sorted_map (dp_records s) \<and> sorted_map (dp_active_sessions s) \<and> sorted_map (dp_retired_sessions s)
     \<and> length (dp_active_sessions s) \<le> dpc_remote_hosts (dp_config s)
     \<and> length (dp_retired_sessions s) \<le> dpc_remote_hosts (dp_config s)
     \<and> (dp_remote_shutdown s \<longrightarrow> dp_active_sessions s = [])
     \<and> (\<forall>h r. map_of (dp_records s) h = Some r \<longrightarrow> display_record_ok s h r)
     \<and> (\<forall>h b. map_of (dp_active_sessions s) h = Some b \<longrightarrow> active_ok s h b)
     \<and> display_total (dp_records s) \<le> dpc_total_displays (dp_config s)
     \<and> dp_published s = display_projection (dp_records s)"

lemma display_invD:
  assumes "display_inv s"
  shows "display_config_ok (dp_config s)" "sorted_map (dp_records s)" "sorted_map (dp_active_sessions s)"
    and "sorted_map (dp_retired_sessions s)"
    and "display_total (dp_records s) \<le> dpc_total_displays (dp_config s)"
    and "map_of (dp_records s) h = Some r \<Longrightarrow> display_record_ok s h r"
    and "map_of (dp_active_sessions s) h = Some b \<Longrightarrow> active_ok s h b"
    and "dp_remote_shutdown s \<Longrightarrow> dp_active_sessions s = []"
    and "dp_published s = display_projection (dp_records s)"
    and "length (dp_active_sessions s) \<le> dpc_remote_hosts (dp_config s)"
    and "length (dp_retired_sessions s) \<le> dpc_remote_hosts (dp_config s)"
  using assms by (auto simp: display_inv_def)

section \<open>What a change may do\<close>

definition display_change_ok ::
  "DisplaySource \<Rightarrow> HostId \<Rightarrow> u64 \<Rightarrow> (DisplayId, Display) btree_map \<Rightarrow> DisplayInventory \<Rightarrow> bool" where
  "display_change_ok source h n c s \<longleftrightarrow>
     0 < n \<and> displays_ok h c \<and> one_primary c \<and> length c \<le> dpc_displays_per_host (dp_config s)
     \<and> display_total (filter (\<lambda>(k, _). k \<noteq> h) (dp_records s)) + length c \<le> dpc_total_displays (dp_config s)
     \<and> (case map_of (dp_records s) h of None \<Rightarrow> True
        | Some r \<Rightarrow> dpr_source r = source \<and> dpr_revision r < n)"

definition display_change ::
  "DisplaySource \<Rightarrow> HostId \<Rightarrow> u64 \<Rightarrow> DisplayInventory \<Rightarrow> display_answer \<Rightarrow> bool" where
  "display_change source h n s out \<longleftrightarrow>
     (\<exists>e. out = (Inl e, s)) \<or> (\<exists>c. display_change_ok source h n c s \<and> out = display_store source h n c s)"

lemma display_change_Inl [simp, intro]: "display_change source h n s (Inl e, s)"
  by (auto simp: display_change_def)

lemma display_snapshot_effect: "display_change src h n s (display_apply_snapshot src h n ds s)"
  unfolding display_change_def
  by (auto simp: display_apply_snapshot_def display_change_ok_def word_neq_0_conv not_le
      dest!: display_validate_candidate_ok display_total_capacity_ok split: sum.splits option.splits if_splits)

lemma display_update_effect:
  assumes "display_inv s"
  shows "display_change src h n s (display_apply_update src h n d s)"
proof (cases "\<exists>e. display_apply_update src h n d s = (Inl e, s)")
  case False
  let ?c = "\<lambda>r. bt_insert (disp_id d) d (dpr_displays r)"
  from False obtain r u where r: "map_of (dp_records s) h = Some r" "dpr_source r = src"
      "display_next_revision (dpr_revision r) n = Inr ()" "validate_domain_display d h = Inr ()"
      "validate_primary_count (map snd (?c r)) = Inr ()"
      "length (?c r) \<le> dpc_displays_per_host (dp_config s)" "display_total_capacity h (length (?c r)) s = Inr u"
    by (auto simp: display_apply_update_def Let_def split: option.splits sum.splits if_splits)
  then have eq: "display_apply_update src h n d s = display_store src h n (?c r) s"
    by (simp add: display_apply_update_def Let_def)
  have "displays_ok h (?c r)"
    using display_invD(6)[OF assms r(1)] r(4)
    by (simp add: display_record_ok_def items_ok_insert validate_domain_display_iff)
  then have "display_change_ok src h n (?c r) s"
    using r display_total_capacity_ok[OF r(7)]
    by (auto simp: display_change_ok_def validate_primary_count_iff display_next_revision_iff word_less_nat_alt)
  then show ?thesis
    unfolding display_change_def eq by blast
qed (simp add: display_change_def)

lemma display_store_eq:
  "sorted_map (dp_records s) \<Longrightarrow>
   display_store src h n c s = (let m = bt_insert h \<lparr>dpr_source = src, dpr_revision = n, dpr_displays = c\<rparr> (dp_records s)
     in (Inr (display_projection m), s\<lparr>dp_records := m, dp_published := display_projection m\<rparr>))"
  by (simp add: display_store_def display_publish_eq sorted_bt_insert Let_def)

lemma display_inv_records:
  assumes "display_inv s" "sorted_map m" "display_total m \<le> dpc_total_displays (dp_config s)"
    and "\<And>h r. map_of m h = Some r \<Longrightarrow> display_record_ok s h r"
  shows "display_inv (s\<lparr>dp_records := m, dp_published := display_projection m\<rparr>)"
proof -
  have "display_record_ok (s\<lparr>dp_records := m, dp_published := p\<rparr>) = display_record_ok s"
    and "active_ok (s\<lparr>dp_records := m, dp_published := p\<rparr>) = active_ok s" for p
    by (simp_all add: fun_eq_iff display_record_ok_def display_source_ok_def active_ok_def split: DisplaySource.split)
  then show ?thesis
    using assms by (simp add: display_inv_def)
qed

lemma display_inv_store:
  assumes "display_inv s" "display_change_ok src h n c s" "display_source_ok s h src"
  shows "display_inv (snd (display_store src h n c s))"
proof -
  note st = display_invD(2)[OF assms(1)]
  let ?m = "bt_insert h \<lparr>dpr_source = src, dpr_revision = n, dpr_displays = c\<rparr> (dp_records s)"
  have "display_inv (s\<lparr>dp_records := ?m, dp_published := display_projection ?m\<rparr>)"
    using assms(2,3) display_invD(6)[OF assms(1)]
    by (intro display_inv_records[OF assms(1) sorted_bt_insert[OF st]])
      (auto simp: entry_total_insert st map_of_bt_insert display_change_ok_def display_record_ok_def split: if_splits)
  then show ?thesis
    by (simp add: display_store_eq st Let_def)
qed

section \<open>Every operation keeps the invariant\<close>

lemma oldest_retired_member: "oldest_retired m = Some (k, b) \<Longrightarrow> (k, b) \<in> set m"
  by (induction m rule: oldest_retired.induct) (auto split: option.splits if_splits)

lemma oldest_retired_None: "oldest_retired m = None \<longleftrightarrow> m = []"
  by (cases m rule: oldest_retired.cases) (auto split: option.splits if_splits)

text \<open>
  What eviction does: it drops at most one entry of the retired table and at most one remote record,
  and afterwards there is room for the new entry.
\<close>

lemma evict_retired_eq:
  assumes "display_inv s"
  shows "\<exists>m ret changed. evict_retired h s = (s\<lparr>dp_records := m, dp_retired_sessions := ret\<rparr>, changed)
     \<and> (ret = dp_retired_sessions s \<and> m = dp_records s \<and> \<not> changed
          \<and> (map_of ret h \<noteq> None \<or> length ret < dpc_remote_hosts (dp_config s))
        \<or> map_of (dp_retired_sessions s) h = None \<and> length (dp_retired_sessions s) \<ge> dpc_remote_hosts (dp_config s)
          \<and> (\<exists>k. ret = AList.delete k (dp_retired_sessions s)) \<and> length ret < length (dp_retired_sessions s)
          \<and> (m = dp_records s \<or> (\<exists>k. m = AList.delete k (dp_records s)) \<and> changed))"
proof (cases "map_of (dp_retired_sessions s) h = None \<and> length (dp_retired_sessions s) \<ge> dpc_remote_hosts (dp_config s)")
  case True
  then have "dp_retired_sessions s \<noteq> []"
    using display_invD(1)[OF assms] by (auto simp: display_config_ok_def)
  then obtain k b where k: "oldest_retired (dp_retired_sessions s) = Some (k, b)"
    using oldest_retired_None[of "dp_retired_sessions s"] by (cases "oldest_retired (dp_retired_sessions s)") auto
  have mem: "k \<in> fst ` set (dp_retired_sessions s)"
    using oldest_retired_member[OF k] by force
  have len: "length (AList.delete k (dp_retired_sessions s)) < length (dp_retired_sessions s)"
    using mem unfolding AList.delete_eq by (auto intro!: length_filter_less)
  define dropping where "dropping = (\<exists>r. map_of (dp_records s) k = Some r \<and> dpr_source r \<noteq> DpLocal)"
  have "evict_retired h s = (s\<lparr>dp_records := if dropping then AList.delete k (dp_records s) else dp_records s,
      dp_retired_sessions := AList.delete k (dp_retired_sessions s)\<rparr>, dropping)"
    using True k by (auto simp: evict_retired_def Let_def dropping_def split: option.split DisplaySource.split)
  then show ?thesis
    using True len by (intro exI conjI) (assumption, auto)
next
  case False
  then show ?thesis
    by (intro exI[of _ "dp_records s"] exI[of _ "dp_retired_sessions s"] exI[of _ False])
      (auto simp: evict_retired_def)
qed

lemma active_record_source_display:
  assumes "display_inv s" "map_of (dp_active_sessions s) h = Some b" "map_of (dp_records s) h = Some r"
  shows "dpr_source r = DpRemote b"
  using display_invD(6)[OF assms(1,3)] display_invD(7)[OF assms(1,2)] assms(2)
  by (auto simp: display_record_ok_def display_source_ok_def active_ok_def split: DisplaySource.splits)

lemma delete_absent: "map_of m k = None \<Longrightarrow> AList.delete k m = m"
  by (simp add: AList.delete_eq map_of_eq_None_iff) (force intro!: filter_True)

lemma invalidate_display_eq:
  assumes "display_inv s" "map_of (dp_active_sessions s) (dpb_remote_host_id b) = Some b"
    and "evict_retired (dpb_remote_host_id b) s = (s\<lparr>dp_records := m, dp_retired_sessions := ret\<rparr>, changed)"
    and "sorted_map m" "\<And>r. map_of m (dpb_remote_host_id b) = Some r \<Longrightarrow> dpr_source r = DpRemote b"
    and "changed \<or> m = dp_records s"
  shows "display_invalidate_binding b s =
     (let h = dpb_remote_host_id b; m' = AList.delete h m in
      (True, s\<lparr>dp_records := m', dp_published := display_projection m',
        dp_active_sessions := AList.delete h (dp_active_sessions s), dp_retired_sessions := bt_insert h b ret\<rparr>))"
proof (cases "map_of m (dpb_remote_host_id b)")
  case None
  let ?h = "dpb_remote_host_id b"
  have d: "AList.delete ?h m = m" using None by (rule delete_absent)
  show ?thesis
  proof (cases changed)
    case True
    then show ?thesis
      using assms(2-4) None d
      by (simp add: display_invalidate_binding_def Let_def display_publish_eq)
  next
    case False
    then have m: "m = dp_records s" using assms(6) by simp
    then show ?thesis
      using assms(2,3) False None d display_invD(9)[OF assms(1)]
      by (simp add: display_invalidate_binding_def Let_def)
  qed
next
  case (Some r)
  then show ?thesis
    using assms(2-5) by (simp add: display_invalidate_binding_def Let_def display_publish_eq sorted_map_delete)
qed

text \<open>The shape of an invalidation, with and without eviction.\<close>

lemma invalidate_display_shape:
  assumes "display_inv s" "map_of (dp_active_sessions s) (dpb_remote_host_id b) = Some b"
  obtains m ret where
    "display_invalidate_binding b s = (let h = dpb_remote_host_id b; m' = AList.delete h m in
      (True, s\<lparr>dp_records := m', dp_published := display_projection m',
        dp_active_sessions := AList.delete h (dp_active_sessions s), dp_retired_sessions := bt_insert h b ret\<rparr>))"
    and "m = dp_records s \<or> (\<exists>k. m = AList.delete k (dp_records s))"
    and "ret = dp_retired_sessions s \<or> (\<exists>k. ret = AList.delete k (dp_retired_sessions s))"
    and "map_of ret (dpb_remote_host_id b) \<noteq> None \<or> length ret < dpc_remote_hosts (dp_config s)"
    and "map_of (dp_retired_sessions s) (dpb_remote_host_id b) \<noteq> None
         \<or> length (dp_retired_sessions s) < dpc_remote_hosts (dp_config s) \<Longrightarrow>
         m = dp_records s \<and> ret = dp_retired_sessions s"
proof -
  let ?h = "dpb_remote_host_id b"
  obtain m ret changed where e: "evict_retired ?h s = (s\<lparr>dp_records := m, dp_retired_sessions := ret\<rparr>, changed)"
      "(ret = dp_retired_sessions s \<and> m = dp_records s \<and> \<not> changed
          \<and> (map_of ret ?h \<noteq> None \<or> length ret < dpc_remote_hosts (dp_config s))
        \<or> map_of (dp_retired_sessions s) ?h = None \<and> length (dp_retired_sessions s) \<ge> dpc_remote_hosts (dp_config s)
          \<and> (\<exists>k. ret = AList.delete k (dp_retired_sessions s)) \<and> length ret < length (dp_retired_sessions s)
          \<and> (m = dp_records s \<or> (\<exists>k. m = AList.delete k (dp_records s)) \<and> changed))"
    using evict_retired_eq[OF assms(1), of ?h] by blast
  have sub: "map_of m k = Some r \<Longrightarrow> map_of (dp_records s) k = Some r" for k r
    using e(2) by (auto simp: AList.delete_conv' split: if_splits)
  have "display_invalidate_binding b s = (let h = ?h; m' = AList.delete h m in
      (True, s\<lparr>dp_records := m', dp_published := display_projection m',
        dp_active_sessions := AList.delete h (dp_active_sessions s), dp_retired_sessions := bt_insert h b ret\<rparr>))"
  proof (rule invalidate_display_eq[OF assms e(1)])
    show "sorted_map m" using e(2) display_invD(2)[OF assms(1)] by (auto simp: sorted_map_delete)
    show "dpr_source r = DpRemote b" if "map_of m ?h = Some r" for r
      using active_record_source_display[OF assms sub[OF that]] .
    show "changed \<or> m = dp_records s" using e(2) by auto
  qed
  then show ?thesis
    using e(2) display_invD(11)[OF assms(1)] by (intro that[of m ret]) auto
qed

lemma display_inv_sessions:
  assumes "display_inv s" "sorted_map act" "sorted_map ret"
    and "length act \<le> dpc_remote_hosts (dp_config s)" "length ret \<le> dpc_remote_hosts (dp_config s)"
    and "\<And>h b. map_of act h = Some b \<Longrightarrow> active_ok (s\<lparr>dp_active_sessions := act, dp_retired_sessions := ret\<rparr>) h b"
    and "\<And>h r b. map_of (dp_records s) h = Some r \<Longrightarrow> dpr_source r = DpRemote b \<Longrightarrow> map_of act h = Some b"
    and "dp_remote_shutdown s \<Longrightarrow> act = []"
  shows "display_inv (s\<lparr>dp_active_sessions := act, dp_retired_sessions := ret\<rparr>)"
proof -
  let ?s = "s\<lparr>dp_active_sessions := act, dp_retired_sessions := ret\<rparr>"
  have "display_record_ok ?s h r" if "map_of (dp_records s) h = Some r" for h r
    using display_invD(6)[OF assms(1) that] assms(7)[OF that]
    by (cases "dpr_source r") (auto simp: display_record_ok_def display_source_ok_def)
  then show ?thesis
    using assms by (simp add: display_inv_def)
qed

lemma display_inv_invalidate:
  assumes "display_inv s"
  shows "display_inv (snd (display_invalidate_binding b s))"
proof (cases "map_of (dp_active_sessions s) (dpb_remote_host_id b) = Some b")
  case True
  let ?h = "dpb_remote_host_id b"
  from invalidate_display_shape[OF assms True] obtain m ret where
      e: "display_invalidate_binding b s = (let h = ?h; m' = AList.delete h m in
      (True, s\<lparr>dp_records := m', dp_published := display_projection m',
        dp_active_sessions := AList.delete h (dp_active_sessions s), dp_retired_sessions := bt_insert h b ret\<rparr>))"
    and m: "m = dp_records s \<or> (\<exists>k. m = AList.delete k (dp_records s))"
    and ret: "ret = dp_retired_sessions s \<or> (\<exists>k. ret = AList.delete k (dp_retired_sessions s))"
    and room: "map_of ret ?h \<noteq> None \<or> length ret < dpc_remote_hosts (dp_config s)"
    by metis
  let ?m = "AList.delete ?h m"
  have sub: "map_of m k = Some r \<Longrightarrow> map_of (dp_records s) k = Some r" for k r
    using m by (auto simp: AList.delete_conv' split: if_splits)
  have subr: "map_of ret k = Some r \<Longrightarrow> map_of (dp_retired_sessions s) k = Some r" for k r
    using ret by (auto simp: AList.delete_conv' split: if_splits)
  have tot: "display_total m \<le> dpc_total_displays (dp_config s)"
    using m order_trans[OF entry_total_delete display_invD(5)[OF assms]] display_invD(5)[OF assms] by auto
  have st: "sorted_map ?m" "sorted_map ret" "display_total ?m \<le> dpc_total_displays (dp_config s)"
      "length ret \<le> dpc_remote_hosts (dp_config s)"
    using m ret display_invD(2,4,11)[OF assms] order_trans[OF entry_total_delete tot]
      length_delete_le[of _ "dp_retired_sessions s"]
    by (auto simp: sorted_map_delete intro: order_trans)
  let ?s = "s\<lparr>dp_records := ?m, dp_published := display_projection ?m\<rparr>"
  have inv: "display_inv ?s"
    using assms st(1,3) by (rule display_inv_records) (auto simp: AList.delete_conv' dest!: sub display_invD(6)[OF assms] split: if_splits)
  have "display_inv (?s\<lparr>dp_active_sessions := AList.delete ?h (dp_active_sessions s), dp_retired_sessions := bt_insert ?h b ret\<rparr>)"
  proof (rule display_inv_sessions[OF inv])
    show "sorted_map (AList.delete ?h (dp_active_sessions s))" "sorted_map (bt_insert ?h b ret)"
      using display_invD(3)[OF assms] st(2) by (auto simp: sorted_map_delete)
    show "length (AList.delete ?h (dp_active_sessions s)) \<le> dpc_remote_hosts (dp_config ?s)"
      using length_delete_le[of ?h "dp_active_sessions s"] display_invD(10)[OF assms] by simp
    show "length (bt_insert ?h b ret) \<le> dpc_remote_hosts (dp_config ?s)"
      using room st(2,4) by (auto simp: length_bt_insert map_of_eq_None_iff)
    show "active_ok (?s\<lparr>dp_active_sessions := AList.delete ?h (dp_active_sessions s), dp_retired_sessions := bt_insert ?h b ret\<rparr>) k x"
      if "map_of (AList.delete ?h (dp_active_sessions s)) k = Some x" for k x
    proof -
      have k: "k \<noteq> ?h" "map_of (dp_active_sessions s) k = Some x"
        using that by (auto simp: AList.delete_conv' split: if_splits)
      show ?thesis
        using display_invD(7)[OF assms k(2)] k(1) subr[of k] st(2) by (auto simp: active_ok_def map_of_bt_insert)
    qed
    show "map_of (AList.delete ?h (dp_active_sessions s)) k = Some x"
      if "map_of (dp_records ?s) k = Some r" "dpr_source r = DpRemote x" for k r x
    proof -
      have k: "k \<noteq> ?h" "map_of (dp_records s) k = Some r"
        using that(1) sub by (auto simp: AList.delete_conv' split: if_splits)
      then show ?thesis
        using display_invD(6)[OF assms k(2)] that(2)
        by (auto simp: AList.delete_conv' display_record_ok_def display_source_ok_def)
    qed
    show "AList.delete ?h (dp_active_sessions s) = []" if "dp_remote_shutdown ?s"
      using that display_invD(8)[OF assms] by simp
  qed
  then show ?thesis by (simp add: e Let_def)
qed (use assms in \<open>simp add: display_invalidate_binding_def Let_def\<close>)

lemma display_inv_flag:
  assumes "display_inv s" "dp_active_sessions s = []"
  shows "display_inv (s\<lparr>dp_remote_shutdown := True\<rparr>)"
proof -
  have "display_record_ok (s\<lparr>dp_remote_shutdown := True\<rparr>) = display_record_ok s"
    "active_ok (s\<lparr>dp_remote_shutdown := True\<rparr>) = active_ok s"
    by (simp_all add: fun_eq_iff display_record_ok_def display_source_ok_def active_ok_def split: DisplaySource.split)
  then show ?thesis using assms by (simp add: display_inv_def)
qed

lemma display_inv_shutdown:
  assumes "display_inv s"
  shows "display_inv (shutdown_remote s)"
proof -
  let ?m = "filter (\<lambda>(_, r). dpr_source r = DpLocal) (dp_records s)"
  note st = display_invD(2)[OF assms]
  have m: "map_of ?m h = Some r \<Longrightarrow> map_of (dp_records s) h = Some r \<and> dpr_source r = DpLocal" for h r
    using sorted_map_distinct[OF st] by (auto simp: map_of_filter_snd split: option.splits if_splits)
  let ?s = "s\<lparr>dp_records := ?m, dp_published := display_projection ?m\<rparr>"
  have inv: "display_inv ?s"
    using display_invD(5)[OF assms]
    by (intro display_inv_records[OF assms sorted_map_filter[OF st]])
      (auto intro: order_trans[OF entry_total_filter] dest!: m display_invD(6)[OF assms])
  have "display_inv (?s\<lparr>dp_active_sessions := [], dp_retired_sessions := []\<rparr>)"
    by (rule display_inv_sessions[OF inv]) (auto dest!: m)
  then have "display_inv (?s\<lparr>dp_active_sessions := [], dp_retired_sessions := [], dp_remote_shutdown := True\<rparr>)"
    by (rule display_inv_flag) simp
  moreover have "shutdown_remote s = ?s\<lparr>dp_active_sessions := [], dp_retired_sessions := [], dp_remote_shutdown := True\<rparr>"
    by (simp add: shutdown_remote_def display_publish_eq st sorted_map_filter)
  ultimately show ?thesis by simp
qed

lemma activate_display_cases:
  assumes "snd (display_activate_binding b s) \<noteq> s"
  shows "\<not> dp_remote_shutdown s" "map_of (dp_active_sessions s) (dpb_remote_host_id b) = None"
    and "length (dp_active_sessions s) < dpc_remote_hosts (dp_config s)"
    and "\<forall>r. map_of (dp_retired_sessions s) (dpb_remote_host_id b) = Some r \<longrightarrow>
        generation_rank (dpb_generation r) < generation_rank (dpb_generation b)"
    and "snd (display_activate_binding b s) =
        s\<lparr>dp_active_sessions := bt_insert (dpb_remote_host_id b) b (dp_active_sessions s)\<rparr>"
  using assms by (auto simp: display_activate_binding_def Let_def not_le split: option.splits if_splits)

lemma display_inv_activate:
  assumes "display_inv s" "dpb_remote_host_id b \<noteq> dp_local_host_id s" "dpb_remote_host_id b \<noteq> nil_id"
  shows "display_inv (snd (display_activate_binding b s))"
proof (cases "snd (display_activate_binding b s) = s")
  case False
  let ?h = "dpb_remote_host_id b"
  note a = activate_display_cases[OF False]
  have "display_inv (s\<lparr>dp_active_sessions := bt_insert ?h b (dp_active_sessions s), dp_retired_sessions := dp_retired_sessions s\<rparr>)"
  proof (rule display_inv_sessions[OF assms(1)])
    show "active_ok (s\<lparr>dp_active_sessions := bt_insert ?h b (dp_active_sessions s), dp_retired_sessions := dp_retired_sessions s\<rparr>) k x"
      if "map_of (bt_insert ?h b (dp_active_sessions s)) k = Some x" for k x
      using that a(4) assms(2,3) display_invD(7)[OF assms(1), of k x] display_invD(3)[OF assms(1)]
      by (auto simp: map_of_bt_insert active_ok_def split: if_splits)
    show "map_of (bt_insert ?h b (dp_active_sessions s)) k = Some x"
      if "map_of (dp_records s) k = Some r" "dpr_source r = DpRemote x" for k r x
      using display_invD(6)[OF assms(1) that(1)] that(2) a(2) display_invD(3)[OF assms(1)]
      by (auto simp: map_of_bt_insert display_record_ok_def display_source_ok_def)
  qed (use a display_invD(3,4,10,11)[OF assms(1)] in \<open>auto simp: length_bt_insert\<close>)
  then show ?thesis by (simp add: a(5))
qed (use assms in simp)

section \<open>Runs of the display inventory\<close>

datatype display_op =
    DpLocalSnapshot u64 "Display list"
  | DpLocalUpdate u64 Display
  | DpActivate CurrentAdmittedSession
  | DpRemoteSnapshot CurrentAdmittedSession DisplaySnapshotV1
  | DpRemoteUpdate CurrentAdmittedSession DisplayUpdatedV1
  | DpInvalidate CurrentAdmittedSession
  | DpInvalidateAll

fun display_step :: "display_op \<Rightarrow> DisplayInventory \<Rightarrow> DisplayInventory" where
  "display_step (DpLocalSnapshot n ds) s = snd (display_apply_local_snapshot n ds s)"
| "display_step (DpLocalUpdate n d) s = snd (display_apply_local_update n d s)"
| "display_step (DpActivate e) s = snd (display_activate_remote e s)"
| "display_step (DpRemoteSnapshot e m) s = snd (display_apply_remote_snapshot e m s)"
| "display_step (DpRemoteUpdate e m) s = snd (display_apply_remote_update e m s)"
| "display_step (DpInvalidate e) s = snd (display_invalidate_remote e s)"
| "display_step DpInvalidateAll s = display_invalidate_all_remote s"

definition display_published_by ::
  "display_answer \<Rightarrow> DisplaySource \<Rightarrow> u64 \<Rightarrow> (DisplaySource \<times> u64) option" where
  "display_published_by out source n = (if isl (fst out) then None else Some (source, n))"

definition display_remote_source :: "CurrentAdmittedSession \<Rightarrow> DisplayInventory \<Rightarrow> DisplaySource" where
  "display_remote_source e s = (case display_binding e s of Inl _ \<Rightarrow> DpLocal | Inr b \<Rightarrow> DpRemote b)"

fun display_publication :: "display_op \<Rightarrow> DisplayInventory \<Rightarrow> (DisplaySource \<times> u64) option" where
  "display_publication (DpLocalSnapshot n ds) s = display_published_by (display_apply_local_snapshot n ds s) DpLocal n"
| "display_publication (DpLocalUpdate n d) s = display_published_by (display_apply_local_update n d s) DpLocal n"
| "display_publication (DpRemoteSnapshot e m) s =
     display_published_by (display_apply_remote_snapshot e m s) (display_remote_source e s) (dpsnap_revision m)"
| "display_publication (DpRemoteUpdate e m) s =
     display_published_by (display_apply_remote_update e m s) (display_remote_source e s) (dpupd_revision m)"
| "display_publication _ s = None"

definition display_publishes :: "DisplaySource \<Rightarrow> u64 \<Rightarrow> DisplayInventory \<Rightarrow> display_answer \<Rightarrow> bool" where
  "display_publishes src n s out \<longleftrightarrow> (\<exists>h c. display_change_ok src h n c s \<and> display_source_ok s h src
     \<and> \<not> isl (fst out) \<and> snd out = snd (display_store src h n c s))"

lemma display_change_publishes:
  assumes "display_inv s" "display_source_ok s h src" "display_change src h n s out"
  shows "display_published_by out src n = None \<and> snd out = s
     \<or> display_published_by out src n = Some (src, n) \<and> display_publishes src n s out"
proof (cases "\<exists>e. out = (Inl e, s)")
  case False
  then obtain c where c: "display_change_ok src h n c s" "out = display_store src h n c s"
    using assms(3) by (auto simp: display_change_def)
  then have "\<not> isl (fst out)"
    by (simp add: display_store_eq[OF display_invD(2)[OF assms(1)]] Let_def)
  then show ?thesis
    using c assms(2) by (auto simp: display_publishes_def display_published_by_def)
qed (auto simp: display_published_by_def)

fun display_publishing :: "display_op \<Rightarrow> bool" where
  "display_publishing (DpActivate e) = False"
| "display_publishing (DpInvalidate e) = False"
| "display_publishing DpInvalidateAll = False"
| "display_publishing _ = True"

lemma display_require_active_iff:
  "display_require_active b s = Inr u \<longleftrightarrow> map_of (dp_active_sessions s) (dpb_remote_host_id b) = Some b"
  by (simp add: display_require_active_def)

lemma display_remote_changes:
  assumes "display_inv s"
  shows "display_published_by (display_remote_snapshot_bound b m s) (DpRemote b) (dpsnap_revision m) = None
       \<and> snd (display_remote_snapshot_bound b m s) = s
     \<or> display_published_by (display_remote_snapshot_bound b m s) (DpRemote b) (dpsnap_revision m) = Some (DpRemote b, dpsnap_revision m)
       \<and> display_publishes (DpRemote b) (dpsnap_revision m) s (display_remote_snapshot_bound b m s)" (is ?snap)
    and "display_published_by (display_remote_update_bound b u s) (DpRemote b) (dpupd_revision u) = None
       \<and> snd (display_remote_update_bound b u s) = s
     \<or> display_published_by (display_remote_update_bound b u s) (DpRemote b) (dpupd_revision u) = Some (DpRemote b, dpupd_revision u)
       \<and> display_publishes (DpRemote b) (dpupd_revision u) s (display_remote_update_bound b u s)" (is ?upd)
proof -
  let ?h = "dpb_remote_host_id b"
  have src: "display_source_ok s ?h (DpRemote b)" if "display_require_active b s = Inr ()"
    using that by (simp add: display_source_ok_def display_require_active_iff)
  have err: "display_published_by (Inl e, s) x n = None" for e x n by (simp add: display_published_by_def)
  show ?snap
    using display_change_publishes[OF assms src display_snapshot_effect]
    by (auto simp: display_remote_snapshot_bound_def err split: sum.split)
  show ?upd
    using display_change_publishes[OF assms src display_update_effect[OF assms]]
    by (auto simp: display_remote_update_bound_def err split: sum.split)
qed

lemma display_step_publishing:
  assumes "display_inv s" "display_publishing op"
  shows "display_publication op s = None \<and> display_step op s = s
     \<or> (\<exists>src n out. display_publication op s = Some (src, n) \<and> display_publishes src n s out \<and> display_step op s = snd out)"
proof -
  have loc: "display_source_ok s (dp_local_host_id s) DpLocal" by (simp add: display_source_ok_def)
  note l = display_change_publishes[OF assms(1) loc]
  show ?thesis
  proof (cases op)
    case (DpLocalSnapshot n ds)
    then show ?thesis
      using l[OF display_snapshot_effect[of _ _ n _ ds]] by (fastforce simp: display_apply_local_snapshot_def)
  next
    case (DpLocalUpdate n d)
    then show ?thesis
      using l[OF display_update_effect[OF assms(1), of _ _ n d]] by (fastforce simp: display_apply_local_update_def)
  next
    case (DpRemoteSnapshot e m)
    show ?thesis
    proof (cases "display_binding e s")
      case (Inr b)
      then show ?thesis
        using display_remote_changes(1)[OF assms(1), of b m] DpRemoteSnapshot
        by (fastforce simp: display_apply_remote_snapshot_def display_remote_source_def)
    qed (simp add: DpRemoteSnapshot display_apply_remote_snapshot_def display_published_by_def)
  next
    case (DpRemoteUpdate e m)
    show ?thesis
    proof (cases "display_binding e s")
      case (Inr b)
      then show ?thesis
        using display_remote_changes(2)[OF assms(1), of b m] DpRemoteUpdate
        by (fastforce simp: display_apply_remote_update_def display_remote_source_def)
    qed (simp add: DpRemoteUpdate display_apply_remote_update_def display_published_by_def)
  qed (use assms(2) in simp_all)
qed

lemma display_binding_ok:
  "display_binding e s = Inr b \<Longrightarrow> dpb_remote_host_id b = cas_remote_host_id e
     \<and> dpb_remote_host_id b \<noteq> dp_local_host_id s \<and> dpb_remote_host_id b \<noteq> nil_id"
  by (auto simp: display_binding_def Let_def split: if_splits)

lemma display_inv_step:
  assumes "display_inv s"
  shows "display_inv (display_step op s)"
proof (cases "display_publishing op")
  case True
  then show ?thesis
    using display_step_publishing[OF assms True] display_inv_store[OF assms] assms by (auto simp: display_publishes_def)
next
  case False
  then show ?thesis
    using assms
    by (cases op) (auto simp: display_activate_remote_def display_invalidate_remote_def display_invalidate_all_remote_def
        display_inv_invalidate display_inv_shutdown intro!: display_inv_activate dest!: display_binding_ok split: sum.splits)
qed

lemma display_inv_new: "DisplayInventory_new h c = Inr s \<Longrightarrow> display_inv s"
  by (auto simp: DisplayInventory_new_def display_inv_def DisplayInventoryConfig_validate_def display_config_ok_def
      DisplayInventorySnapshot_default_def display_projection_def split: if_splits sum.splits)

lemma display_inv_run: "display_inv s \<Longrightarrow> display_inv (fold display_step ops s)"
  by (induction ops arbitrary: s) (simp_all add: display_inv_step)

lemma display_store_fields [simp]:
  "dp_active_sessions (snd (display_store src h n c s)) = dp_active_sessions s"
  "dp_retired_sessions (snd (display_store src h n c s)) = dp_retired_sessions s"
  "dp_config (snd (display_store src h n c s)) = dp_config s"
  "dp_local_host_id (snd (display_store src h n c s)) = dp_local_host_id s"
  "dp_remote_shutdown (snd (display_store src h n c s)) = dp_remote_shutdown s"
  by (simp_all add: display_store_def display_publish_def Let_def)

lemma display_records_store:
  "sorted_map (dp_records s) \<Longrightarrow> map_of (dp_records (snd (display_store src h n c s))) =
     (map_of (dp_records s))(h \<mapsto> \<lparr>dpr_source = src, dpr_revision = n, dpr_displays = c\<rparr>)"
  by (simp add: display_store_eq Let_def map_of_bt_insert)

lemma invalidate_display_inactive:
  "map_of (dp_active_sessions s) (dpb_remote_host_id b) \<noteq> Some b \<Longrightarrow> display_invalidate_binding b s = (False, s)"
  by (simp add: display_invalidate_binding_def Let_def)

lemma invalidate_display_static:
  assumes "display_inv s"
  shows "dp_config (snd (display_invalidate_binding b s)) = dp_config s
     \<and> dp_local_host_id (snd (display_invalidate_binding b s)) = dp_local_host_id s
     \<and> dp_remote_shutdown (snd (display_invalidate_binding b s)) = dp_remote_shutdown s"
proof (cases "map_of (dp_active_sessions s) (dpb_remote_host_id b) = Some b")
  case True
  show ?thesis
    by (rule invalidate_display_shape[OF assms True]) (simp add: Let_def)
qed (simp add: invalidate_display_inactive)

lemma display_step_static:
  assumes "display_inv s"
  shows "dp_config (display_step op s) = dp_config s \<and> dp_local_host_id (display_step op s) = dp_local_host_id s"
proof (cases "display_publishing op")
  case True
  then show ?thesis
    using display_step_publishing[OF assms, of op] by (auto simp: display_publishes_def)
next
  case False
  then show ?thesis
    using invalidate_display_static[OF assms]
    by (cases op) (auto simp: display_activate_remote_def display_activate_binding_def display_invalidate_remote_def Let_def
        display_invalidate_all_remote_def shutdown_remote_def display_publish_def split: sum.splits option.splits)
qed

lemma display_run_static:
  "display_inv s \<Longrightarrow> dp_config (fold display_step ops s) = dp_config s
     \<and> dp_local_host_id (fold display_step ops s) = dp_local_host_id s"
  by (induction ops arbitrary: s) (simp_all add: display_inv_step display_step_static)

section \<open>Revisions of a bounded set of hosts\<close>

text \<open>
  As long as the sessions come from at most as many hosts as the retired table holds, no entry is
  evicted and the inventory is a revision ledger.  The restriction is part of the step: an operation
  of a session with a host outside \<open>H\<close> is skipped.
\<close>

fun display_op_hosts :: "display_op \<Rightarrow> HostId set" where
  "display_op_hosts (DpActivate e) = {cas_remote_host_id e}"
| "display_op_hosts (DpRemoteSnapshot e m) = {cas_remote_host_id e}"
| "display_op_hosts (DpRemoteUpdate e m) = {cas_remote_host_id e}"
| "display_op_hosts (DpInvalidate e) = {cas_remote_host_id e}"
| "display_op_hosts _ = {}"

definition display_step_within :: "HostId set \<Rightarrow> display_op \<Rightarrow> DisplayInventory \<Rightarrow> DisplayInventory" where
  "display_step_within H op s = (if display_op_hosts op \<subseteq> H then display_step op s else s)"

definition display_publication_within ::
  "HostId set \<Rightarrow> display_op \<Rightarrow> DisplayInventory \<Rightarrow> (DisplaySource \<times> u64) option" where
  "display_publication_within H op s = (if display_op_hosts op \<subseteq> H then display_publication op s else None)"

definition display_inv_within :: "HostId set \<Rightarrow> DisplayInventory \<Rightarrow> bool" where
  "display_inv_within H s \<longleftrightarrow> display_inv s \<and> finite H \<and> card H \<le> dpc_remote_hosts (dp_config s)
     \<and> fst ` set (dp_retired_sessions s) \<subseteq> H"

definition display_spent :: "DisplayInventory \<Rightarrow> DisplaySource \<Rightarrow> u64 \<Rightarrow> bool" where
  "display_spent s src n = (case src of
       DpLocal \<Rightarrow> (\<exists>r. map_of (dp_records s) (dp_local_host_id s) = Some r \<and> n \<le> dpr_revision r)
     | DpRemote b \<Rightarrow> dp_remote_shutdown s
         \<or> (\<exists>q. map_of (dp_retired_sessions s) (dpb_remote_host_id b) = Some q
               \<and> generation_rank (dpb_generation b) \<le> generation_rank (dpb_generation q))
         \<or> map_of (dp_active_sessions s) (dpb_remote_host_id b) = Some b
           \<and> (\<exists>r. map_of (dp_records s) (dpb_remote_host_id b) = Some r \<and> n \<le> dpr_revision r))"

lemma no_eviction_within:
  assumes "display_inv_within H s" "h \<in> H"
  shows "map_of (dp_retired_sessions s) h \<noteq> None \<or> length (dp_retired_sessions s) < dpc_remote_hosts (dp_config s)"
proof (rule ccontr)
  assume "\<not> ?thesis"
  then have n: "h \<notin> fst ` set (dp_retired_sessions s)" "dpc_remote_hosts (dp_config s) \<le> length (dp_retired_sessions s)"
    by (auto simp: map_of_eq_None_iff)
  have "distinct (map fst (dp_retired_sessions s))"
    using assms(1) sorted_map_distinct[of "dp_retired_sessions s"]
    by (simp add: display_inv_within_def display_inv_def distinct_keys_def)
  then have "length (dp_retired_sessions s) = card (fst ` set (dp_retired_sessions s))"
    using distinct_card[of "map fst (dp_retired_sessions s)"] by simp
  also have "\<dots> \<le> card (H - {h})"
    using assms n by (intro card_mono) (auto simp: display_inv_within_def)
  also have "\<dots> < card H"
    using assms by (intro card_Diff1_less) (auto simp: display_inv_within_def)
  finally show False using assms(1) n(2) by (simp add: display_inv_within_def)
qed

lemma invalidate_within_eq:
  assumes "display_inv_within H s" "dpb_remote_host_id b \<in> H" "map_of (dp_active_sessions s) (dpb_remote_host_id b) = Some b"
  shows "display_invalidate_binding b s = (let h = dpb_remote_host_id b; m' = AList.delete h (dp_records s) in
      (True, s\<lparr>dp_records := m', dp_published := display_projection m',
        dp_active_sessions := AList.delete h (dp_active_sessions s), dp_retired_sessions := bt_insert h b (dp_retired_sessions s)\<rparr>))"
proof -
  have inv: "display_inv s" using assms(1) by (simp add: display_inv_within_def)
  show ?thesis
    by (rule invalidate_display_shape[OF inv assms(3)]) (use no_eviction_within[OF assms(1,2)] in simp)
qed

lemma display_publishes_fresh:
  assumes "display_inv s" "display_publishes src n s out"
  shows "\<not> display_spent s src n"
proof -
  obtain h c where p: "display_change_ok src h n c s" "display_source_ok s h src"
    using assms(2) by (auto simp: display_publishes_def)
  show ?thesis
  proof (cases src)
    case DpLocal
    then show ?thesis
      using p by (auto simp: display_spent_def display_change_ok_def display_source_ok_def)
  next
    case (DpRemote b)
    then have b: "h = dpb_remote_host_id b" "map_of (dp_active_sessions s) h = Some b"
      using p(2) by (auto simp: display_source_ok_def)
    have "\<not> dp_remote_shutdown s" using display_invD(8)[OF assms(1)] b(2) by auto
    then show ?thesis
      using DpRemote p(1) b display_invD(7)[OF assms(1) b(2)]
      by (auto simp: display_spent_def display_change_ok_def active_ok_def not_le)
  qed
qed

lemma display_publishes_spends:
  assumes "display_inv s" "display_publishes src n s out" "q \<le> n"
  shows "display_spent (snd out) src q"
proof -
  obtain h c where p: "display_source_ok s h src" "snd out = snd (display_store src h n c s)"
    using assms(2) by (auto simp: display_publishes_def)
  show ?thesis
    unfolding p(2) display_spent_def using p(1) assms(3)
    by (cases src) (auto simp: display_records_store display_invD(2)[OF assms(1)] display_source_ok_def)
qed

lemma display_publishes_keeps_spent:
  assumes "display_inv s" "display_publishes src n s out" "display_spent s x q"
  shows "display_spent (snd out) x q"
proof (cases "x = src")
  case True
  have "q \<le> n"
  proof (rule ccontr)
    assume "\<not> q \<le> n"
    then have "display_spent s src n"
      using assms(3) unfolding True display_spent_def
      by (auto split: DisplaySource.splits intro: order_trans less_imp_le simp: not_le)
    then show False using display_publishes_fresh[OF assms(1,2)] by simp
  qed
  then show ?thesis using display_publishes_spends[OF assms(1,2)] True by simp
next
  case False
  obtain h c where p: "display_source_ok s h src" "snd out = snd (display_store src h n c s)"
    using assms(2) by (auto simp: display_publishes_def)
  have "h \<noteq> dp_local_host_id s" if "src \<noteq> DpLocal"
    using that p(1) display_invD(7)[OF assms(1), of h] by (cases src) (auto simp: display_source_ok_def active_ok_def)
  moreover have "map_of (dp_active_sessions s) (dp_local_host_id s) = None"
    using display_invD(7)[OF assms(1), of "dp_local_host_id s"] by (cases "map_of (dp_active_sessions s) (dp_local_host_id s)") (auto simp: active_ok_def)
  ultimately show ?thesis
    using assms(3) p(1) False unfolding p(2) display_spent_def
    by (cases x; cases src) (auto simp: display_records_store display_invD(2)[OF assms(1)] display_source_ok_def)
qed

lemma display_spent_invalidate:
  assumes "display_inv_within H s" "dpb_remote_host_id b \<in> H" "display_spent s x q"
  shows "display_spent (snd (display_invalidate_binding b s)) x q"
proof (cases "map_of (dp_active_sessions s) (dpb_remote_host_id b) = Some b")
  case True
  have inv: "display_inv s" using assms(1) by (simp add: display_inv_within_def)
  have ok: "dpb_remote_host_id b \<noteq> dp_local_host_id s"
    and older: "map_of (dp_retired_sessions s) (dpb_remote_host_id b) = Some r \<Longrightarrow>
           generation_rank (dpb_generation r) < generation_rank (dpb_generation b)" for r
    using display_invD(7)[OF inv True] by (auto simp: active_ok_def)
  show ?thesis
  proof (cases x)
    case DpLocal
    then show ?thesis
      using assms(3) ok by (simp add: invalidate_within_eq[OF assms(1,2) True] Let_def display_spent_def AList.delete_conv')
  next
    case (DpRemote b')
    show ?thesis
    proof (cases "dpb_remote_host_id b' = dpb_remote_host_id b")
      case same: True
      have "dp_remote_shutdown s \<or> generation_rank (dpb_generation b') \<le> generation_rank (dpb_generation b)"
        using assms(3) True older same unfolding DpRemote display_spent_def
        by (auto intro: order_trans less_imp_le)
      then show ?thesis
        using display_invD(4)[OF inv] same
        by (auto simp: invalidate_within_eq[OF assms(1,2) True] Let_def display_spent_def map_of_bt_insert DpRemote)
    next
      case False
      then show ?thesis
        using assms(3) display_invD(4)[OF inv]
        by (simp add: invalidate_within_eq[OF assms(1,2) True] Let_def display_spent_def AList.delete_conv' map_of_bt_insert DpRemote)
    qed
  qed
qed (use assms in \<open>simp add: invalidate_display_inactive\<close>)

lemma display_spent_activate:
  assumes "display_inv s" "display_spent s x q"
  shows "display_spent (snd (display_activate_binding b s)) x q"
proof (cases "snd (display_activate_binding b s) = s")
  case False
  note a = activate_display_cases[OF False]
  show ?thesis
    using assms(2) display_invD(3)[OF assms(1)] a(2) unfolding a(5)
    by (cases x) (auto simp: display_spent_def map_of_bt_insert)
qed (use assms in simp)

lemma display_spent_shutdown:
  assumes "display_inv s" "display_spent s x q"
  shows "display_spent (shutdown_remote s) x q"
proof (cases x)
  case DpLocal
  then obtain r where r: "map_of (dp_records s) (dp_local_host_id s) = Some r" "q \<le> dpr_revision r"
    using assms(2) by (auto simp: display_spent_def)
  have none: "map_of (dp_active_sessions s) (dp_local_host_id s) = None"
    using display_invD(7)[OF assms(1), of "dp_local_host_id s"] by (cases "map_of (dp_active_sessions s) (dp_local_host_id s)") (auto simp: active_ok_def)
  have "dpr_source r = DpLocal"
    using display_invD(6)[OF assms(1) r(1)] none by (cases "dpr_source r") (auto simp: display_record_ok_def display_source_ok_def)
  then show ?thesis
    using r DpLocal sorted_map_distinct[OF display_invD(2)[OF assms(1)]]
    by (simp add: display_spent_def shutdown_remote_def display_publish_def Let_def map_of_filter_snd)
qed (simp add: display_spent_def shutdown_remote_def display_publish_def Let_def)

lemma display_publication_publishing:
  assumes "display_inv s" "display_publication op s = Some (src, n)"
  shows "\<exists>out. display_publishes src n s out \<and> display_step op s = snd out"
proof -
  have "display_publishing op" using assms(2) by (cases op) auto
  then show ?thesis using display_step_publishing[OF assms(1), of op] assms(2) by auto
qed

lemma display_spent_step:
  assumes "display_inv_within H s" "display_op_hosts op \<subseteq> H" "display_spent s x q"
  shows "display_spent (display_step op s) x q"
proof -
  have inv: "display_inv s" using assms(1) by (simp add: display_inv_within_def)
  show ?thesis
  proof (cases "display_publishing op")
    case True
    then show ?thesis
      using display_step_publishing[OF inv True] display_publishes_keeps_spent[OF inv] assms(3) by auto
  next
    case False
    then show ?thesis
      using inv assms display_spent_invalidate[OF assms(1) _ assms(3)]
      by (cases op) (auto simp: display_activate_remote_def display_invalidate_remote_def display_invalidate_all_remote_def
          display_spent_activate display_spent_shutdown dest: display_binding_ok split: sum.splits)
  qed
qed

lemma display_retired_step:
  assumes "display_inv_within H s" "display_op_hosts op \<subseteq> H"
  shows "fst ` set (dp_retired_sessions (display_step op s)) \<subseteq> H"
proof -
  have inv: "display_inv s" and sub: "fst ` set (dp_retired_sessions s) \<subseteq> H"
    using assms(1) by (simp_all add: display_inv_within_def)
  have "fst ` set (dp_retired_sessions (snd (display_invalidate_binding b s))) \<subseteq> H" if "dpb_remote_host_id b \<in> H" for b
    using invalidate_within_eq[OF assms(1) that] invalidate_display_inactive[of s b] sub that
    by (cases "map_of (dp_active_sessions s) (dpb_remote_host_id b) = Some b") (auto simp: Let_def keys_bt_insert)
  moreover have "dp_retired_sessions (snd (display_activate_binding b s)) = dp_retired_sessions s" for b
    using activate_display_cases(5)[of b s] by (cases "snd (display_activate_binding b s) = s") auto
  moreover have "dp_retired_sessions (display_step op s) = dp_retired_sessions s" if "display_publishing op"
    using display_step_publishing[OF inv that] by (auto simp: display_publishes_def)
  ultimately show ?thesis
    using sub assms(2)
    by (cases op) (simp_all add: display_activate_remote_def display_invalidate_remote_def
        display_invalidate_all_remote_def shutdown_remote_def display_publish_def Let_def display_binding_ok split: sum.split)
qed

interpretation display_ledger: revision_ledger "display_step_within H" "display_inv_within H"
    "display_publication_within H" display_spent
proof
  fix s op src r q
  assume inv: "display_inv_within H s"
  then have i: "display_inv s" by (simp add: display_inv_within_def)
  show "display_inv_within H (display_step_within H op s)"
    using inv display_inv_step[OF i] display_step_static[OF i] display_retired_step[OF inv, of op]
    by (auto simp: display_inv_within_def display_step_within_def)
  show "display_spent s src r \<Longrightarrow> display_spent (display_step_within H op s) src r"
    using display_spent_step[OF inv] by (simp add: display_step_within_def)
  show "display_publication_within H op s = Some (src, r) \<Longrightarrow> \<not> display_spent s src r"
    using display_publication_publishing[OF i] display_publishes_fresh[OF i]
    by (fastforce simp: display_publication_within_def split: if_splits)
  show "display_publication_within H op s = Some (src, r) \<Longrightarrow> q \<le> r \<Longrightarrow> display_spent (display_step_within H op s) src q"
    using display_publication_publishing[OF i] display_publishes_spends[OF i]
    by (fastforce simp: display_publication_within_def display_step_within_def split: if_splits)
qed

lemma log_within:
  "\<forall>op\<in>set ops. display_op_hosts op \<subseteq> H \<Longrightarrow>
   publication_log (display_step_within H) (display_publication_within H) ops s
     = publication_log display_step display_publication ops s"
  by (induction ops arbitrary: s) (simp_all add: display_step_within_def display_publication_within_def)

section \<open>A local inventory reaches the peer unchanged\<close>

lemma display_wire_roundtrip:
  assumes "display_ok h d"
  shows "display_from_wire (display_to_wire d) h = Inr d"
proof -
  have sz: "map_option (\<lambda>sz. \<lparr>size_width = wsize_width sz, size_height = wsize_height sz\<rparr>)
      (map_option (\<lambda>sz. \<lparr>wsize_width = size_width sz, wsize_height = size_height sz\<rparr>) x) = x" for x :: "Size option"
    by (cases x) auto
  have "validate_domain_display d h = Inr ()" using assms by (simp add: validate_domain_display_iff)
  then show ?thesis
    using assms sz[of "disp_physical_size d"]
    by (cases d; cases "disp_logical_size d"; cases "disp_native_bounds d") (auto simp: display_from_wire_def display_to_wire_def Let_def display_ok_def Rect_new_def option.map_comp comp_def)
qed

lemma displays_wire_roundtrip:
  "\<forall>d\<in>set ds. display_ok h d \<Longrightarrow> displays_from_wire (map display_to_wire ds) h = Inr ds"
  by (induction ds) (simp_all add: display_wire_roundtrip)

lemma display_wire_fields:
  "wdisp_id (display_to_wire d) = disp_id d" "wdisp_host_id (display_to_wire d) = disp_host_id d"
  "wdisp_primary (display_to_wire d) = disp_primary d"
  by (simp_all add: display_to_wire_def)

lemma local_display_snapshot_valid:
  assumes "displays_ok h m" "one_primary m" "h \<noteq> nil_id" "0 < n" "length m \<le> MAX_SNAPSHOT_ITEMS"
  shows "DisplaySnapshotV1_validate \<lparr>dpsnap_revision = n, dpsnap_host_id = h,
           dpsnap_displays = map (\<lambda>(_, d). display_to_wire d) m\<rparr> = Inr ()"
proof -
  have eq: "map (\<lambda>(_, d). display_to_wire d) m = map display_to_wire (map snd m)"
    by (simp add: split_def)
  note l = items_ok_list[OF assms(1)]
  have ids: "map wdisp_id (map display_to_wire (map snd m)) = map fst m"
    using l(2) by (simp add: comp_def display_wire_fields)
  have prim: "length (filter wdisp_primary (map display_to_wire (map snd m))) = 1"
    using assms(2) by (simp add: one_primary_def filter_map comp_def display_wire_fields)
  have wf: "\<forall>w\<in>set (map display_to_wire (map snd m)). wf_wire_display w \<and> wdisp_host_id w = h"
    using l(1) by (auto simp: display_ok_def display_wire_fields)
  have "validate_displays_loop (map display_to_wire (map snd m)) h {} 0 (ValidationError_new MtDisplaySnapshot) = Inr 1"
    using ids prim wf l(3) by (simp only: validate_displays_loop_accepts) simp
  then show ?thesis
    unfolding eq DisplaySnapshotV1_validate_def Let_def
    using assms(3-5) by (simp add: accepts word_neq_0_conv ensure_def)
qed

lemma display_total_capacity_room:
  assumes "display_total (filter (\<lambda>(k, _). k \<noteq> h) (dp_records s)) + n \<le> dpc_total_displays (dp_config s)"
    "display_config_ok (dp_config s)"
  shows "display_total_capacity h n s = Inr ()"
  using assms checked_total_room[of 0 "map (\<lambda>(_, r). display_size r) (filter (\<lambda>(k, _). k \<noteq> h) (dp_records s))"]
  by (simp add: display_total_capacity_def entry_total_def checked_add_usize_def display_config_ok_def MAX_INVENTORY_TOTAL_DISPLAYS_def)

lemma display_new_fields:
  "DisplayInventory_new h c = Inr s \<Longrightarrow> dp_config s = c \<and> dp_local_host_id s = h \<and> dp_retired_sessions s = []"
  by (auto simp: DisplayInventory_new_def DisplayInventoryConfig_validate_def split: if_splits)

lemma display_reached:
  assumes "DisplayInventory_new h c = Inr s0" "s = fold display_step ops s0"
  shows "display_inv s" "dp_config s = c" "dp_local_host_id s = h"
  using assms display_inv_new[OF assms(1)] display_inv_run display_run_static[OF display_inv_new[OF assms(1)]]
    display_new_fields[OF assms(1)] by auto

lemma map_of_display_projection:
  "map_of (dps_hosts (display_projection m)) h = map_option (display_view h) (map_of m h)"
  by (simp add: display_projection_def display_table.map_of_view)

lemma remote_displays_accepted:
  assumes inv: "display_inv s" and act: "display_require_active b s = Inr ()"
    and fresh: "\<not> display_spent s (DpRemote b) n" and ok: "displays_ok (dpb_remote_host_id b) c" "one_primary c" "0 < n"
    and room: "length c \<le> dpc_displays_per_host (dp_config s)"
      "display_total (dp_records s) + length c \<le> dpc_total_displays (dp_config s)"
    and m: "m = \<lparr>dpsnap_revision = n, dpsnap_host_id = dpb_remote_host_id b,
           dpsnap_displays = map (\<lambda>(_, d). display_to_wire d) c\<rparr>"
  shows "\<exists>v. fst (display_remote_snapshot_bound b m s) = Inr v
     \<and> dp_published (snd (display_remote_snapshot_bound b m s)) = v
     \<and> map_of (dps_hosts v) (dpb_remote_host_id b) =
         Some \<lparr>hpi_host_id = dpb_remote_host_id b, hpi_revision = n, hpi_displays = c\<rparr>"
proof -
  let ?h = "dpb_remote_host_id b"
  have a: "map_of (dp_active_sessions s) ?h = Some b" using act by (simp add: display_require_active_iff)
  have nil: "?h \<noteq> nil_id" using display_invD(7)[OF inv a] by (simp add: active_ok_def)
  have cfg: "display_config_ok (dp_config s)" by (rule display_invD(1)[OF inv])
  have w: "DisplaySnapshotV1_validate m = Inr ()"
    unfolding m using ok nil room(1) cfg
    by (intro local_display_snapshot_valid) (auto simp: display_config_ok_def MAX_INVENTORY_DISPLAYS_PER_HOST_def)
  have mf: "dpsnap_revision m = n" "dpsnap_host_id m = ?h" by (simp_all add: m)
  have ds: "displays_from_wire (dpsnap_displays m) ?h = Inr (map snd c)"
    using displays_wire_roundtrip[OF items_ok_list(1)[OF ok(1)]] by (simp add: m split_def comp_def)
  have cand: "display_validate_candidate ?h (map snd c) s = Inr c"
    using display_items.loop_rebuilds[OF ok(1)] ok(2) room(1) validate_primary_count_iff[of c "()"]
    by (simp add: display_validate_candidate_def)
  have cap: "display_total_capacity ?h (length c) s = Inr ()"
    using entry_total_others[OF room(2)] cfg by (intro display_total_capacity_room)
  have "case map_of (dp_records s) ?h of None \<Rightarrow> True | Some r \<Rightarrow> dpr_source r = DpRemote b \<and> dpr_revision r < n"
    using fresh a active_record_source_display[OF inv a] by (auto simp: display_spent_def not_le split: option.splits)
  then have "display_apply_snapshot (DpRemote b) ?h n (map snd c) s = display_store (DpRemote b) ?h n c s"
    using ok(3) cand cap by (auto simp: display_apply_snapshot_def word_neq_0_conv split: option.splits)
  then have "display_remote_snapshot_bound b m s = display_store (DpRemote b) ?h n c s"
    using act w ds mf by (simp add: display_remote_snapshot_bound_def)
  then show ?thesis
    by (simp add: display_store_eq display_invD(2)[OF inv] Let_def map_of_display_projection map_of_bt_insert display_view_def)
qed

section \<open>What readers and peers can rely on\<close>

lemma length_dps_displays: "length (dps_displays (display_projection m)) = display_total m"
  by (induction m) (auto simp: dps_displays_def display_projection_def display_view_def)

text \<open>
  The published display snapshot is exact after every sequence of operations: its count is the number
  of displays it lists and within the configured total, every listed host has exactly one primary
  display, all of them its own, and another host is listed only while a session with it is active.
\<close>

theorem published_displays_exact:
  assumes "DisplayInventory_new h c = Inr s0" "s = fold display_step ops s0"
  shows "dps_display_count (dp_published s) = length (dps_displays (dp_published s))
     \<and> dps_display_count (dp_published s) \<le> dpc_total_displays c
     \<and> (\<forall>k entry. map_of (dps_hosts (dp_published s)) k = Some entry \<longrightarrow>
          length (filter disp_primary (map snd (hpi_displays entry))) = 1
          \<and> (\<forall>(d, x)\<in>set (hpi_displays entry). disp_id x = d \<and> disp_host_id x = k)
          \<and> (k = h \<or> (\<exists>b. dpb_remote_host_id b = k \<and> display_require_active b s = Inr ())))"
proof -
  note r = display_reached[OF assms]
  have pub: "dp_published s = display_projection (dp_records s)" by (rule display_invD(9)[OF r(1)])
  have "length (filter disp_primary (map snd (hpi_displays entry))) = 1
          \<and> (\<forall>(d, x)\<in>set (hpi_displays entry). disp_id x = d \<and> disp_host_id x = k)
          \<and> (k = h \<or> (\<exists>b. dpb_remote_host_id b = k \<and> display_require_active b s = Inr ()))"
    if e: "map_of (dps_hosts (dp_published s)) k = Some entry" for k entry
  proof -
    obtain q where q: "map_of (dp_records s) k = Some q" "entry = display_view k q"
      using e by (auto simp: pub map_of_display_projection)
    show ?thesis
      using display_invD(6)[OF r(1) q(1)] r(3)
      by (cases "dpr_source q") (auto simp: q(2) display_view_def display_record_ok_def one_primary_def items_ok_def
          display_ok_def display_source_ok_def display_require_active_iff)
  qed
  moreover have "dps_display_count (dp_published s) = display_total (dp_records s)"
    by (simp add: pub display_projection_def)
  ultimately show ?thesis
    using display_invD(5)[OF r(1)] r(2) by (simp add: length_dps_displays pub)
qed

text \<open>
  When the sessions of a run come from at most \<^verbatim>\<open>remote_hosts\<close> hosts, the display revisions published
  by one source strictly increase.
\<close>

theorem display_revisions_increase:
  assumes "DisplayInventory_new h c = Inr s0" "finite H" "card H \<le> dpc_remote_hosts c"
    and "\<forall>op\<in>set ops. display_op_hosts op \<subseteq> H"
  shows "sorted_wrt (\<lambda>(a, r) (b, q). a = b \<longrightarrow> r < q) (publication_log display_step display_publication ops s0)"
proof -
  have "display_inv_within H s0"
    using assms(2,3) display_inv_new[OF assms(1)] display_new_fields[OF assms(1)] by (simp add: display_inv_within_def)
  then show ?thesis
    using display_ledger.log_increasing[of H s0 ops] log_within[OF assms(4)] by simp
qed

text \<open>
  The local display layout of one host reaches an admitted peer unchanged: whenever the peer's session
  is active, the revision is not spent there and the peer has room, the wire snapshot the host builds
  is accepted and the peer publishes exactly the host's entry.
\<close>

theorem peer_learns_local_displays:
  assumes "DisplayInventory_new ha ca = Inr a0" "a = fold display_step ops a0"
    and "DisplayInventory_new hb cb = Inr b0" "b = fold display_step ops' b0"
    and "map_of (dps_hosts (dp_published a)) ha = Some entry"
    and "display_binding e b = Inr bd" "dpb_remote_host_id bd = ha" "display_require_active bd b = Inr ()"
    and "\<not> display_spent b (DpRemote bd) (hpi_revision entry)"
    and "length (hpi_displays entry) \<le> dpc_displays_per_host cb"
    and "dps_display_count (dp_published b) + length (hpi_displays entry) \<le> dpc_total_displays cb"
  shows "\<exists>m v b'. display_local_wire_snapshot a = Inr m \<and> display_apply_remote_snapshot e m b = (Inr v, b')
     \<and> dp_published b' = v \<and> map_of (dps_hosts v) ha = Some entry"
proof -
  note ra = display_reached[OF assms(1,2)] and rb = display_reached[OF assms(3,4)]
  obtain q where q: "map_of (dp_records a) ha = Some q"
      and entry: "entry = \<lparr>hpi_host_id = ha, hpi_revision = dpr_revision q, hpi_displays = dpr_displays q\<rparr>"
    using assms(5) by (auto simp: display_invD(9)[OF ra(1)] map_of_display_projection display_view_def)
  note ok = display_invD(6)[OF ra(1) q]
  have none: "map_of (dp_active_sessions a) ha = None"
    using display_invD(7)[OF ra(1), of ha] ra(3) by (cases "map_of (dp_active_sessions a) ha") (auto simp: active_ok_def)
  have src: "dpr_source q = DpLocal"
    using ok none by (cases "dpr_source q") (auto simp: display_record_ok_def display_source_ok_def)
  let ?m = "\<lparr>dpsnap_revision = dpr_revision q, dpsnap_host_id = ha, dpsnap_displays = map (\<lambda>(_, d). display_to_wire d) (dpr_displays q)\<rparr>"
  have nil: "ha \<noteq> nil_id" using assms(1) by (auto simp: DisplayInventory_new_def)
  have "DisplaySnapshotV1_validate ?m = Inr ()"
    using ok nil display_invD(1)[OF ra(1)]
    by (intro local_display_snapshot_valid) (auto simp: display_record_ok_def display_config_ok_def MAX_INVENTORY_DISPLAYS_PER_HOST_def)
  then have lm: "display_local_wire_snapshot a = Inr ?m"
    using q src ra(3) by (simp add: display_local_wire_snapshot_def Let_def)
  have count: "dps_display_count (dp_published b) = display_total (dp_records b)"
    by (simp add: display_invD(9)[OF rb(1)] display_projection_def)
  obtain v where "fst (display_remote_snapshot_bound bd ?m b) = Inr v"
      "dp_published (snd (display_remote_snapshot_bound bd ?m b)) = v" "map_of (dps_hosts v) ha = Some entry"
    using remote_displays_accepted[OF rb(1) assms(8), of "dpr_revision q" "dpr_displays q" ?m] ok assms(7,9-11) rb(2) count
    by (auto simp: entry display_record_ok_def)
  then show ?thesis
    using lm assms(6) by (auto simp: display_apply_remote_snapshot_def prod_eq_iff)
qed

section \<open>Concrete runs\<close>

definition demo_display :: "id128 \<Rightarrow> id128 \<Rightarrow> Display" where
  "demo_display h d = \<lparr>disp_id = d, disp_host_id = h, disp_name = [77], disp_logical_size = \<lparr>size_width = 16, size_height = 16\<rparr>,
     disp_physical_size = None, disp_scale_factor = 16, disp_refresh_rate = None, disp_native_bounds = Rect_new 0 0 16 16,
     disp_primary = True\<rparr>"

lemma demo_display_ok: "h \<noteq> nil_id \<Longrightarrow> d \<noteq> nil_id \<Longrightarrow> display_ok h (demo_display h d)"
  by (simp add: display_ok_def demo_display_def display_to_wire_def wf_wire_display_def wf_name_def MAX_DISPLAY_NAME_BYTES_def
      str_len_def len_utf8_def is_whitespace_def is_control_def wf_wire_rect_def Rect_new_def positive_upto_def within_native_def
      MAX_DISPLAY_LOGICAL_DIMENSION_def MAX_DISPLAY_PHYSICAL_DIMENSION_def MAX_DISPLAY_SCALE_FACTOR_def
      MAX_DISPLAY_NATIVE_COORDINATE_ABS_def f64_eval bit_iff_odd)

definition small_display_config :: DisplayInventoryConfig where
  "small_display_config = \<lparr>dpc_remote_hosts = 2, dpc_displays_per_host = 4, dpc_total_displays = 8\<rparr>"

definition demo_displays :: "id128 \<Rightarrow> (HostId, DisplayBinding) btree_map \<Rightarrow> (HostId, DisplayBinding) btree_map \<Rightarrow>
    (HostId, DisplayHostRecord) btree_map \<Rightarrow> DisplayInventory" where
  "demo_displays h act ret recs = \<lparr>dp_local_host_id = h, dp_config = small_display_config, dp_active_sessions = act,
     dp_retired_sessions = ret, dp_remote_shutdown = False, dp_records = recs, dp_published = display_projection recs\<rparr>"

definition demo_display_binding :: "id128 \<Rightarrow> id128 \<Rightarrow> u64 \<Rightarrow> DisplayBinding" where
  "demo_display_binding here there g = \<lparr>dpb_generation = \<lparr>cg_gate_instance_id = 1, cg_sequence = g\<rparr>, dpb_local_host_id = here,
     dpb_remote_host_id = there\<rparr>"

definition demo_layout :: "id128 \<Rightarrow> u64 \<Rightarrow> DisplaySource \<Rightarrow> DisplayHostRecord" where
  "demo_layout h n src = \<lparr>dpr_source = src, dpr_revision = n, dpr_displays = [(5, demo_display h 5)]\<rparr>"

definition demo_layout_message :: "id128 \<Rightarrow> u64 \<Rightarrow> DisplaySnapshotV1" where
  "demo_layout_message h n = \<lparr>dpsnap_revision = n, dpsnap_host_id = h, dpsnap_displays = [display_to_wire (demo_display h 5)]\<rparr>"

lemma demo_displays_new: "h \<noteq> nil_id \<Longrightarrow> DisplayInventory_new h small_display_config = Inr (demo_displays h [] [] [])"
  by (simp add: DisplayInventory_new_def DisplayInventoryConfig_validate_def small_display_config_def demo_displays_def
      MAX_INVENTORY_REMOTE_HOSTS_def MAX_INVENTORY_DISPLAYS_PER_HOST_def MAX_INVENTORY_TOTAL_DISPLAYS_def
      MAX_SNAPSHOT_ITEMS_def display_projection_def DisplayInventorySnapshot_default_def)

lemma demo_display_binding_eq:
  "there \<noteq> nil_id \<Longrightarrow> there \<noteq> here \<Longrightarrow> dp_local_host_id s = here \<Longrightarrow>
   display_binding (demo_session here there g) s = Inr (demo_display_binding here there g)"
  by (simp add: display_binding_def demo_session_def demo_hello_def cas_generation_def cas_local_host_id_def
      cas_remote_host_id_def Let_def demo_display_binding_def)

lemma demo_displays_fields [simp]:
  "dp_local_host_id (demo_displays h act ret recs) = h" "dp_config (demo_displays h act ret recs) = small_display_config"
  "dp_active_sessions (demo_displays h act ret recs) = act" "dp_retired_sessions (demo_displays h act ret recs) = ret"
  "dp_remote_shutdown (demo_displays h act ret recs) = False" "dp_records (demo_displays h act ret recs) = recs"
  "dp_published (demo_displays h act ret recs) = display_projection recs"
  by (simp_all add: demo_displays_def)

lemma demo_bindings_fields [simp]:
  "dpb_remote_host_id (demo_display_binding h k g) = k"
  "generation_rank (dpb_generation (demo_display_binding h k g)) = (1, g)"
  by (simp_all add: demo_display_binding_def generation_rank_def)

lemma demo_displays_updates [simp]:
  "(demo_displays h act ret recs)\<lparr>dp_active_sessions := act'\<rparr> = demo_displays h act' ret recs"
  "(demo_displays h act ret recs)\<lparr>dp_retired_sessions := ret'\<rparr> = demo_displays h act ret' recs"
  "(demo_displays h act ret recs)\<lparr>dp_records := recs', dp_published := display_projection recs'\<rparr> = demo_displays h act ret recs'"
  by (simp_all add: demo_displays_def)

lemma demo_activate_display:
  "k \<noteq> nil_id \<Longrightarrow> k \<noteq> h \<Longrightarrow> map_of act k = None \<Longrightarrow> length act < 2 \<Longrightarrow>
   (case map_of ret k of None \<Rightarrow> True | Some r \<Rightarrow> generation_rank (dpb_generation r) < (1, g)) \<Longrightarrow>
   display_step (DpActivate (demo_session h k g)) (demo_displays h act ret recs)
     = demo_displays h (bt_insert k (demo_display_binding h k g) act) ret recs"
  by (simp add: display_activate_remote_def demo_display_binding_eq display_activate_binding_def small_display_config_def
      not_le[symmetric] split: option.splits del: less_eq_prod_simp)

lemma demo_layout_message_fields [simp]:
  "dpsnap_host_id (demo_layout_message h n) = h" "dpsnap_revision (demo_layout_message h n) = n"
  by (simp_all add: demo_layout_message_def)

lemma demo_layout_valid:
  "h \<noteq> nil_id \<Longrightarrow> 0 < n \<Longrightarrow> DisplaySnapshotV1_validate (demo_layout_message h n) = Inr ()"
  using local_display_snapshot_valid[of h "[(5, demo_display h 5)]" n] demo_display_ok[of h 5]
  by (simp add: demo_layout_message_def items_ok_def sorted_map_def one_primary_def demo_display_def MAX_SNAPSHOT_ITEMS_def)

lemma demo_publish_layout:
  assumes "k \<noteq> nil_id" "k \<noteq> h" "0 < n" "map_of act k = Some (demo_display_binding h k g)"
  shows "display_apply_remote_snapshot (demo_session h k g) (demo_layout_message k n) (demo_displays h act ret [])
     = (Inr (display_projection [(k, demo_layout k n (DpRemote (demo_display_binding h k g)))]),
        demo_displays h act ret [(k, demo_layout k n (DpRemote (demo_display_binding h k g)))])"
proof -
  have ok: "validate_domain_display (demo_display k 5) k = Inr ()"
    using demo_display_ok[of k 5] assms(1) by (simp add: validate_domain_display_iff)
  have id: "disp_id (demo_display k 5) = 5" "disp_primary (demo_display k 5)" by (simp_all add: demo_display_def)
  have "display_validate_candidate k [demo_display k 5] (demo_displays h act ret []) = Inr [(5, demo_display k 5)]"
    by (simp add: display_validate_candidate_def ok id small_display_config_def validate_primary_count_def)
  moreover have "displays_from_wire (dpsnap_displays (demo_layout_message k n)) k = Inr [demo_display k 5]"
    using display_wire_roundtrip[OF demo_display_ok[of k 5]] assms(1) by (simp add: demo_layout_message_def)
  ultimately show ?thesis
    using assms demo_layout_valid[OF assms(1,3)]
    by (simp add: display_apply_remote_snapshot_def demo_display_binding_eq display_remote_snapshot_bound_def
        display_require_active_def display_apply_snapshot_def display_total_capacity_def checked_add_usize_def
        small_display_config_def display_store_eq demo_layout_def Let_def word_neq_0_conv)
qed

text \<open>
  The run behind the next theorem, on an inventory for two remote hosts.  Host 2 connects, leaves and
  connects again; its second session publishes revision 5.  Host 3 connects and leaves, which fills
  the retired table; host 4 connects and leaves.
\<close>

definition eviction_run :: "display_op list" where
  "eviction_run =
     [DpActivate (demo_session 1 2 1), DpInvalidate (demo_session 1 2 1), DpActivate (demo_session 1 2 2),
      DpRemoteSnapshot (demo_session 1 2 2) (demo_layout_message 2 5),
      DpActivate (demo_session 1 3 3), DpInvalidate (demo_session 1 3 3), DpActivate (demo_session 1 4 4)]"

abbreviation demo_a1 :: DisplayBinding where "demo_a1 \<equiv> demo_display_binding 1 2 1"
abbreviation demo_a2 :: DisplayBinding where "demo_a2 \<equiv> demo_display_binding 1 2 2"
abbreviation demo_b3 :: DisplayBinding where "demo_b3 \<equiv> demo_display_binding 1 3 3"
abbreviation demo_c4 :: DisplayBinding where "demo_c4 \<equiv> demo_display_binding 1 4 4"

lemma demo_invalidate_step:
  "k \<noteq> nil_id \<Longrightarrow> k \<noteq> h \<Longrightarrow> display_step (DpInvalidate (demo_session h k g)) (demo_displays h act ret recs)
     = snd (display_invalidate_binding (demo_display_binding h k g) (demo_displays h act ret recs))"
  by (simp add: display_invalidate_remote_def demo_display_binding_eq)

lemma demo_invalidations:
  "snd (display_invalidate_binding demo_a1 (demo_displays 1 [(2, demo_a1)] [] [])) = demo_displays 1 [] [(2, demo_a1)] []"
  "snd (display_invalidate_binding demo_b3 (demo_displays 1 [(2, demo_a2), (3, demo_b3)] [(2, demo_a1)] [(2, demo_layout 2 5 (DpRemote demo_a2))]))
     = demo_displays 1 [(2, demo_a2)] [(2, demo_a1), (3, demo_b3)] [(2, demo_layout 2 5 (DpRemote demo_a2))]"
  "snd (display_invalidate_binding demo_c4 (demo_displays 1 [(2, demo_a2), (4, demo_c4)] [(2, demo_a1), (3, demo_b3)] [(2, demo_layout 2 5 (DpRemote demo_a2))]))
     = demo_displays 1 [(2, demo_a2)] [(3, demo_b3), (4, demo_c4)] []"
  by (simp_all add: display_invalidate_binding_def evict_retired_def small_display_config_def demo_displays_def
      demo_layout_def display_publish_eq)

lemma eviction_run_eq:
  "fold display_step eviction_run (demo_displays 1 [] [] [])
     = demo_displays 1 [(2, demo_a2), (4, demo_c4)] [(2, demo_a1), (3, demo_b3)] [(2, demo_layout 2 5 (DpRemote demo_a2))]"
  by (simp add: eviction_run_def demo_activate_display demo_invalidate_step demo_invalidations demo_publish_layout
      del: display_step.simps(3,6))

text \<open>
  C39: Retiring a session can drop the metadata of a session that is active.  When host 4 leaves, the
  retired table evicts the entry of host 2 and with it the displays its live session has published;
  the session itself stays active, and a later snapshot of it is accepted with revision 1 after
  revision 5.
\<close>

theorem eviction_drops_live_displays:
  "\<exists>s s' s''. DisplayInventory_new 1 small_display_config = Inr (demo_displays 1 [] [] [])
     \<and> s = fold display_step eviction_run (demo_displays 1 [] [] [])
     \<and> display_require_active (demo_display_binding 1 2 2) s = Inr ()
     \<and> map_of (dps_hosts (dp_published s)) 2 \<noteq> None
     \<and> display_invalidate_remote (demo_session 1 4 4) s = (True, s')
     \<and> display_require_active (demo_display_binding 1 2 2) s' = Inr ()
     \<and> map_of (dps_hosts (dp_published s')) 2 = None
     \<and> snd (display_apply_remote_snapshot (demo_session 1 2 2) (demo_layout_message 2 1) s') = s''
     \<and> map_option hpi_revision (map_of (dps_hosts (dp_published s)) 2) = Some 5
     \<and> map_option hpi_revision (map_of (dps_hosts (dp_published s'')) 2) = Some 1"
proof -
  let ?s = "demo_displays 1 [(2, demo_a2), (4, demo_c4)] [(2, demo_a1), (3, demo_b3)] [(2, demo_layout 2 5 (DpRemote demo_a2))]"
  let ?t = "demo_displays 1 [(2, demo_a2)] [(3, demo_b3), (4, demo_c4)] []"
  let ?u = "demo_displays 1 [(2, demo_a2)] [(3, demo_b3), (4, demo_c4)] [(2, demo_layout 2 1 (DpRemote demo_a2))]"
  have "fst (display_invalidate_binding demo_c4 ?s)"
    by (simp add: display_invalidate_binding_def Let_def split_def)
  then have inv: "display_invalidate_remote (demo_session 1 4 4) ?s = (True, ?t)"
    using demo_invalidations(3) by (simp add: display_invalidate_remote_def demo_display_binding_eq prod_eq_iff)
  have "snd (display_apply_remote_snapshot (demo_session 1 2 2) (demo_layout_message 2 1) ?t) = ?u"
    by (simp add: demo_publish_layout)
  moreover have "map_of (dps_hosts (dp_published ?s)) 2 = Some (display_view 2 (demo_layout 2 5 (DpRemote demo_a2)))"
    "map_of (dps_hosts (dp_published ?t)) 2 = None"
    "map_of (dps_hosts (dp_published ?u)) 2 = Some (display_view 2 (demo_layout 2 1 (DpRemote demo_a2)))"
    by (simp_all add: map_of_display_projection)
  moreover have "display_require_active demo_a2 ?s = Inr ()" "display_require_active demo_a2 ?t = Inr ()"
    by (simp_all add: display_require_active_def)
  ultimately show ?thesis
    using inv eviction_run_eq demo_displays_new[of 1]
    by (intro exI[of _ ?s] exI[of _ ?t] exI[of _ ?u]) (simp add: display_view_def demo_layout_def)
qed

lemma demo_local_layout:
  assumes "h \<noteq> nil_id"
  shows "display_apply_local_snapshot 1 [demo_display h 5] (demo_displays h [] [] []) =
     (Inr (display_projection [(h, demo_layout h 1 DpLocal)]), demo_displays h [] [] [(h, demo_layout h 1 DpLocal)])"
proof -
  have ok: "validate_domain_display (demo_display h 5) h = Inr ()"
    using demo_display_ok[of h 5] assms by (simp add: validate_domain_display_iff)
  have id: "disp_id (demo_display h 5) = 5" "disp_primary (demo_display h 5)" by (simp_all add: demo_display_def)
  show ?thesis
    by (simp add: display_apply_local_snapshot_def display_apply_snapshot_def display_validate_candidate_def ok id
        validate_primary_count_def small_display_config_def display_total_capacity_def checked_add_usize_def
        display_store_eq demo_layout_def Let_def)
qed

theorem published_displays_exact_witness:
  "dps_display_count (dp_published (display_step (DpLocalSnapshot 1 [demo_display 1 5]) (demo_displays 1 [] [] []))) = 1
   \<and> length (dps_displays (dp_published (display_step (DpLocalSnapshot 1 [demo_display 1 5]) (demo_displays 1 [] [] [])))) = 1"
  using published_displays_exact[OF demo_displays_new[of 1] refl, of "[DpLocalSnapshot 1 [demo_display 1 5]]"]
  by (simp add: demo_local_layout display_projection_def demo_layout_def)

theorem display_revisions_increase_witness:
  "publication_log display_step display_publication
     [DpActivate (demo_session 1 2 2), DpRemoteSnapshot (demo_session 1 2 2) (demo_layout_message 2 5)] (demo_displays 1 [] [] [])
   = [(DpRemote demo_a2, 5)]"
proof -
  have "display_op_hosts (DpActivate (demo_session 1 2 2)) \<subseteq> {2}"
    "display_op_hosts (DpRemoteSnapshot (demo_session 1 2 2) (demo_layout_message 2 5)) \<subseteq> {2}"
    by (simp_all add: demo_session_def cas_remote_host_id_def)
  then show ?thesis
    using display_revisions_increase[OF demo_displays_new[of 1], of "{2}"
        "[DpActivate (demo_session 1 2 2), DpRemoteSnapshot (demo_session 1 2 2) (demo_layout_message 2 5)]"]
    by (simp add: demo_activate_display demo_publish_layout display_published_by_def display_remote_source_def
        demo_display_binding_eq small_display_config_def del: display_step.simps(3))
qed

theorem peer_learns_local_displays_witness:
  "\<exists>m v b'. display_local_wire_snapshot (display_step (DpLocalSnapshot 1 [demo_display 1 5]) (demo_displays 1 [] [] [])) = Inr m
     \<and> display_apply_remote_snapshot (demo_session 2 1 7) m (display_step (DpActivate (demo_session 2 1 7)) (demo_displays 2 [] [] [])) = (Inr v, b')
     \<and> map_of (dps_hosts v) 1 = Some \<lparr>hpi_host_id = 1, hpi_revision = 1, hpi_displays = [(5, demo_display 1 5)]\<rparr>"
proof -
  let ?a = "display_step (DpLocalSnapshot 1 [demo_display 1 5]) (demo_displays 1 [] [] [])"
  let ?b = "display_step (DpActivate (demo_session 2 1 7)) (demo_displays 2 [] [] [])"
  let ?e = "\<lparr>hpi_host_id = 1, hpi_revision = 1, hpi_displays = [(5, demo_display 1 5)]\<rparr>"
  have b: "?b = demo_displays 2 [(1, demo_display_binding 2 1 7)] [] []"
    by (simp add: demo_activate_display del: display_step.simps(3))
  have entry: "map_of (dps_hosts (dp_published ?a)) 1 = Some ?e"
    by (simp add: demo_local_layout map_of_display_projection display_view_def demo_layout_def)
  have bind: "display_binding (demo_session 2 1 7) ?b = Inr (demo_display_binding 2 1 7)"
    unfolding b by (rule demo_display_binding_eq) simp_all
  have act: "display_require_active (demo_display_binding 2 1 7) ?b = Inr ()"
    unfolding b by (simp add: display_require_active_def)
  have fresh: "\<not> display_spent ?b (DpRemote (demo_display_binding 2 1 7)) (hpi_revision ?e)"
    unfolding b by (simp add: display_spent_def)
  have "\<exists>m v b'. display_local_wire_snapshot ?a = Inr m \<and> display_apply_remote_snapshot (demo_session 2 1 7) m ?b = (Inr v, b')
     \<and> dp_published b' = v \<and> map_of (dps_hosts v) 1 = Some ?e"
    by (rule peer_learns_local_displays[OF demo_displays_new[of 1] _ demo_displays_new[of 2] _ entry bind _ act fresh,
          of "[DpLocalSnapshot 1 [demo_display 1 5]]" "[DpActivate (demo_session 2 1 7)]"])
      (simp_all add: small_display_config_def b display_projection_def del: display_step.simps)
  then show ?thesis by blast
qed

end
