(* ===== verification/ConfiguredWorkspaces.thy ===== *)
theory ConfiguredWorkspaces
  imports Topology InventoryBase "HOL-Library.Multiset"
begin

text \<open>
  Configured workspaces, \<^verbatim>\<open>crates/kvm-topology/src/configured.rs\<close>: an atomic compiler turns authenticated
  displays, explicit placements and directed edge links into an immutable workspace, or refuses the
  candidate and keeps the previous one.  A compiled workspace answers who owns a display, whether a
  point lies in it, and where a crossing of a linked edge lands.  Its protocol epoch is a digest of
  the geometry, the identity two peers compare before they hand a pointer over.

  The loops that file one entry per item share the contract \<open>keyed_collection\<close>; epochs reuse
  \<open>revision_ledger\<close>.
\<close>

section \<open>Bounds and data\<close>

definition MAX_WORKSPACE_HOSTS :: nat where "MAX_WORKSPACE_HOSTS = 32"
definition MAX_WORKSPACE_DISPLAYS :: nat where "MAX_WORKSPACE_DISPLAYS = 256"
definition MAX_WORKSPACE_LINKS :: nat where "MAX_WORKSPACE_LINKS = MAX_WORKSPACE_DISPLAYS * 4"

text \<open>The binary64 values 131072, 1000000 and 1000000.\<close>

definition MAX_LOGICAL_DISPLAY_EXTENT :: f64 where "MAX_LOGICAL_DISPLAY_EXTENT = 0x4100000000000000"
definition MAX_WORKSPACE_COORDINATE :: f64 where "MAX_WORKSPACE_COORDINATE = 0x412E848000000000"
definition MAX_WORKSPACE_EXTENT :: f64 where "MAX_WORKSPACE_EXTENT = 0x412E848000000000"

text \<open>A \<^verbatim>\<open>WorkspaceEpoch\<close> is its number; the constructor refuses zero.\<close>

type_synonym WorkspaceEpoch = u64

definition WorkspaceEpoch_new :: "u64 \<Rightarrow> WorkspaceEpoch option" where
  "WorkspaceEpoch_new value = (if value = 0 then None else Some value)"

record WorkspacePlacement =
  wp_display_id :: DisplayId
  wp_origin :: Point

record WorkspaceLink =
  wl_source_display :: DisplayId
  wl_source_edge :: Edge
  wl_destination_display :: DisplayId
  wl_destination_edge :: Edge

record InventoryDisplay =
  ivd_host_id :: HostId
  ivd_logical_size :: Size

record CompiledDisplay =
  cpd_host_id :: HostId
  cpd_logical_size :: Size
  cpd_workspace_bounds :: Rect

record LinkTarget =
  lt_display_id :: DisplayId
  lt_edge :: Edge

type_synonym compiled_table = "(DisplayId, CompiledDisplay) btree_map"
type_synonym link_table = "(DisplayId \<times> u8, LinkTarget) btree_map"

text \<open>The shared \<^verbatim>\<open>CompiledWorkspaceData\<close> is immutable, so a workspace is its data.\<close>

record ConfiguredWorkspace =
  cw_epoch :: WorkspaceEpoch
  cw_protocol_epoch :: u64
  cw_displays :: compiled_table
  cw_links :: link_table
  cw_host_count :: nat

datatype WorkspaceCompileError =
    WorkspaceCapacityExceeded | WorkspaceMissingDisplay | WorkspaceInvalidDisplay
  | WorkspaceDuplicateDisplay | DanglingReference | DuplicatePlacement | MissingPlacement
  | InvalidGeometry | SelfLink | DuplicateSourceEdge | ConflictingReciprocalLink
  | InvalidLinkGeometry | EpochExhausted

datatype WorkspaceTransitionError =
  InvalidPosition | UnknownTransitionDisplay | NotLinked | InvalidWorkspace

record WorkspaceTransition =
  wt_epoch :: WorkspaceEpoch
  wt_source_display :: DisplayId
  wt_source_host :: HostId
  wt_source_edge :: Edge
  wt_destination_display :: DisplayId
  wt_destination_host :: HostId
  wt_destination_edge :: Edge
  wt_normalized_position :: f64
  wt_destination_point :: Point

fun edge_key :: "Edge \<Rightarrow> u8" where
  "edge_key LeftEdge = 0"
| "edge_key RightEdge = 1"
| "edge_key TopEdge = 2"
| "edge_key BottomEdge = 3"

definition edge_from_key :: "u8 \<Rightarrow> Edge" where
  "edge_from_key k = (if k = 0 then LeftEdge else if k = 1 then RightEdge
                      else if k = 2 then TopEdge else BottomEdge)"

definition nil_display :: "DisplayId \<Rightarrow> bool" where
  "nil_display d \<longleftrightarrow> d = nil_id"

definition nil_host :: "HostId \<Rightarrow> bool" where
  "nil_host h \<longleftrightarrow> h = nil_id"

section \<open>Queries of a compiled workspace\<close>

definition owner_of :: "ConfiguredWorkspace \<Rightarrow> DisplayId \<Rightarrow> HostId option" where
  "owner_of w d = map_option cpd_host_id (map_of (cw_displays w) d)"

definition contains_local_point :: "ConfiguredWorkspace \<Rightarrow> DisplayId \<Rightarrow> Point \<Rightarrow> bool" where
  "contains_local_point w d p =
     (case map_of (cw_displays w) d of
        None \<Rightarrow> False
      | Some display \<Rightarrow>
          f64_is_finite (point_x p) \<and> f64_is_finite (point_y p)
          \<and> f64_le f64_zero (point_x p) \<and> f64_le f64_zero (point_y p)
          \<and> f64_le (point_x p) (size_width (cpd_logical_size display))
          \<and> f64_le (point_y p) (size_height (cpd_logical_size display)))"

definition display_count :: "ConfiguredWorkspace \<Rightarrow> nat" where
  "display_count w = length (cw_displays w)"

definition link_count :: "ConfiguredWorkspace \<Rightarrow> nat" where
  "link_count w = length (cw_links w)"

fun landing_point :: "Edge \<Rightarrow> f64 \<Rightarrow> Size \<Rightarrow> Point" where
  "landing_point LeftEdge p s = Point_new f64_zero (f64_mul p (size_height s))"
| "landing_point RightEdge p s = Point_new (size_width s) (f64_mul p (size_height s))"
| "landing_point TopEdge p s = Point_new (f64_mul p (size_width s)) f64_zero"
| "landing_point BottomEdge p s = Point_new (f64_mul p (size_width s)) (size_height s)"

definition configured_transition ::
  "ConfiguredWorkspace \<Rightarrow> DisplayId \<Rightarrow> Edge \<Rightarrow> f64 \<Rightarrow> (WorkspaceTransitionError, WorkspaceTransition) result" where
  "configured_transition w source_display source_edge position =
     (if \<not> valid_position position then Inl InvalidPosition
      else case map_of (cw_displays w) source_display of
        None \<Rightarrow> Inl UnknownTransitionDisplay
      | Some source \<Rightarrow>
      (case map_of (cw_links w) (source_display, edge_key source_edge) of
        None \<Rightarrow> Inl NotLinked
      | Some target \<Rightarrow>
      (case map_of (cw_displays w) (lt_display_id target) of
        None \<Rightarrow> Inl InvalidWorkspace
      | Some dest \<Rightarrow>
        let crossing = perpendicular_coordinate (cpd_workspace_bounds source) source_edge position in
        if lt_edge target \<noteq> opposite source_edge
           \<or> \<not> touches (cpd_workspace_bounds source) (cpd_workspace_bounds dest) source_edge
           \<or> \<not> covers (cpd_workspace_bounds dest) source_edge crossing (close position f64_one)
        then Inl InvalidWorkspace
        else
          let point = landing_point (lt_edge target) position (cpd_logical_size dest) in
          if \<not> f64_is_finite (point_x point) \<or> \<not> f64_is_finite (point_y point)
          then Inl InvalidWorkspace
          else Inr \<lparr>wt_epoch = cw_epoch w, wt_source_display = source_display,
                    wt_source_host = cpd_host_id source, wt_source_edge = source_edge,
                    wt_destination_display = lt_display_id target,
                    wt_destination_host = cpd_host_id dest,
                    wt_destination_edge = lt_edge target, wt_normalized_position = position,
                    wt_destination_point = point\<rparr>)))"

section \<open>The compiler\<close>

fun collect_bounded_loop :: "'a list \<Rightarrow> nat \<Rightarrow> 'a list \<Rightarrow> (WorkspaceCompileError, 'a list) result" where
  "collect_bounded_loop [] maximum collected = Inr collected"
| "collect_bounded_loop (v # vs) maximum collected =
     (if length collected = maximum then Inl WorkspaceCapacityExceeded
      else collect_bounded_loop vs maximum (collected @ [v]))"

definition collect_bounded :: "'a list \<Rightarrow> nat \<Rightarrow> (WorkspaceCompileError, 'a list) result" where
  "collect_bounded vs maximum = collect_bounded_loop vs maximum []"

definition valid_inventory_geometry :: "Display \<Rightarrow> bool" where
  "valid_inventory_geometry d \<longleftrightarrow> Display_is_valid d
     \<and> f64_le (size_width (disp_logical_size d)) MAX_LOGICAL_DISPLAY_EXTENT
     \<and> f64_le (size_height (disp_logical_size d)) MAX_LOGICAL_DISPLAY_EXTENT"

definition valid_workspace_bounds :: "Rect \<Rightarrow> bool" where
  "valid_workspace_bounds b \<longleftrightarrow> Rect_is_valid b
     \<and> f64_lt f64_zero (rect_width b) \<and> f64_lt f64_zero (rect_height b)
     \<and> f64_le (f64_abs (rect_x b)) MAX_WORKSPACE_COORDINATE
     \<and> f64_le (f64_abs (rect_y b)) MAX_WORKSPACE_COORDINATE
     \<and> f64_le (f64_abs (max_x b)) MAX_WORKSPACE_COORDINATE
     \<and> f64_le (f64_abs (max_y b)) MAX_WORKSPACE_COORDINATE"

text \<open>The set of owners is kept as its list of members, the source only asks for its size.\<close>

fun compile_inventory_loop ::
  "Display list \<Rightarrow> (DisplayId, InventoryDisplay) btree_map \<Rightarrow> HostId list
   \<Rightarrow> (WorkspaceCompileError, (DisplayId, InventoryDisplay) btree_map \<times> nat) result" where
  "compile_inventory_loop [] inventory hosts = Inr (inventory, length hosts)"
| "compile_inventory_loop (display # rest) inventory hosts =
     (if nil_display (disp_id display) \<or> nil_host (disp_host_id display)
         \<or> \<not> valid_inventory_geometry display
      then Inl WorkspaceInvalidDisplay
      else if contains_key inventory (disp_id display) then Inl WorkspaceDuplicateDisplay
      else
        let hosts' = List.insert (disp_host_id display) hosts in
        if MAX_WORKSPACE_HOSTS < length hosts' then Inl WorkspaceCapacityExceeded
        else compile_inventory_loop rest
               (bt_insert (disp_id display)
                  \<lparr>ivd_host_id = disp_host_id display, ivd_logical_size = disp_logical_size display\<rparr>
                  inventory) hosts')"

definition compile_inventory ::
  "Display list \<Rightarrow> (WorkspaceCompileError, (DisplayId, InventoryDisplay) btree_map \<times> nat) result" where
  "compile_inventory ds = compile_inventory_loop ds [] []"

definition from_origin_and_size :: "Point \<Rightarrow> Size \<Rightarrow> Rect" where
  "from_origin_and_size p s = Rect_new (point_x p) (point_y p) (size_width s) (size_height s)"

fun compile_placements_loop ::
  "(DisplayId, InventoryDisplay) btree_map \<Rightarrow> WorkspacePlacement list \<Rightarrow> compiled_table
   \<Rightarrow> (WorkspaceCompileError, compiled_table) result" where
  "compile_placements_loop inventory [] compiled =
     (if length compiled \<noteq> length inventory then Inl MissingPlacement else Inr compiled)"
| "compile_placements_loop inventory (placement # rest) compiled =
     (case map_of inventory (wp_display_id placement) of
        None \<Rightarrow> Inl DanglingReference
      | Some display \<Rightarrow>
          if contains_key compiled (wp_display_id placement) then Inl DuplicatePlacement
          else
            let bounds = from_origin_and_size (wp_origin placement) (ivd_logical_size display) in
            if \<not> valid_workspace_bounds bounds then Inl InvalidGeometry
            else compile_placements_loop inventory rest
                   (bt_insert (wp_display_id placement)
                      \<lparr>cpd_host_id = ivd_host_id display, cpd_logical_size = ivd_logical_size display,
                       cpd_workspace_bounds = bounds\<rparr> compiled))"

definition compile_placements ::
  "(DisplayId, InventoryDisplay) btree_map \<Rightarrow> WorkspacePlacement list
   \<Rightarrow> (WorkspaceCompileError, compiled_table) result" where
  "compile_placements inventory ps = compile_placements_loop inventory ps []"

text \<open>
  \<^verbatim>\<open>f64::min\<close> and \<^verbatim>\<open>f64::max\<close>: a NaN operand yields the other one.  Which of two zeros of different
  sign is returned is left open by the language; the sums and differences below do not depend on it.
\<close>

definition f64_fmin :: "f64 \<Rightarrow> f64 \<Rightarrow> f64" where
  "f64_fmin a b = (if f64_is_nan a then b else if f64_is_nan b then a else if f64_lt b a then b else a)"

definition f64_fmax :: "f64 \<Rightarrow> f64 \<Rightarrow> f64" where
  "f64_fmax a b = (if f64_is_nan a then b else if f64_is_nan b then a else if f64_lt a b then b else a)"

fun extent_loop :: "Rect list \<Rightarrow> f64 \<Rightarrow> f64 \<Rightarrow> f64 \<Rightarrow> f64 \<Rightarrow> f64 \<times> f64 \<times> f64 \<times> f64" where
  "extent_loop [] lx ly hx hy = (lx, ly, hx, hy)"
| "extent_loop (b # bs) lx ly hx hy =
     extent_loop bs (f64_fmin lx (min_x b)) (f64_fmin ly (min_y b)) (f64_fmax hx (max_x b)) (f64_fmax hy (max_y b))"

definition validate_workspace_extent :: "Rect list \<Rightarrow> (WorkspaceCompileError, unit) result" where
  "validate_workspace_extent bs =
     (case bs of
        [] \<Rightarrow> Inl WorkspaceMissingDisplay
      | first # rest \<Rightarrow>
          let (lx, ly, hx, hy) = extent_loop rest (min_x first) (min_y first) (max_x first) (max_y first);
              width = f64_sub hx lx; height = f64_sub hy ly in
          if \<not> f64_is_finite width \<or> \<not> f64_is_finite height
             \<or> f64_lt MAX_WORKSPACE_EXTENT width \<or> f64_lt MAX_WORKSPACE_EXTENT height
          then Inl InvalidGeometry else Inr ())"

definition overlap_length :: "Rect \<Rightarrow> Rect \<Rightarrow> Edge \<Rightarrow> f64" where
  "overlap_length source dest edge =
     (let (source_start, source_end, destination_start, destination_end) =
        (if is_vertical edge
         then (min_y source, max_y source, min_y dest, max_y dest)
         else (min_x source, max_x source, min_x dest, max_x dest)) in
      f64_sub (f64_fmin source_end destination_end) (f64_fmax source_start destination_start))"

fun compile_links_loop ::
  "compiled_table \<Rightarrow> WorkspaceLink list \<Rightarrow> link_table \<Rightarrow> (WorkspaceCompileError, link_table) result" where
  "compile_links_loop table [] links = Inr links"
| "compile_links_loop table (link # rest) links =
     (if wl_source_display link = wl_destination_display link then Inl SelfLink
      else case map_of table (wl_source_display link) of
        None \<Rightarrow> Inl DanglingReference
      | Some source \<Rightarrow>
      (case map_of table (wl_destination_display link) of
        None \<Rightarrow> Inl DanglingReference
      | Some dest \<Rightarrow>
        if wl_destination_edge link \<noteq> opposite (wl_source_edge link)
           \<or> \<not> touches (cpd_workspace_bounds source) (cpd_workspace_bounds dest) (wl_source_edge link)
           \<or> f64_le (overlap_length (cpd_workspace_bounds source) (cpd_workspace_bounds dest)
                      (wl_source_edge link)) GEOMETRY_EPSILON
        then Inl InvalidLinkGeometry
        else
          let key = (wl_source_display link, edge_key (wl_source_edge link)) in
          if contains_key links key then Inl DuplicateSourceEdge
          else compile_links_loop table rest
                 (bt_insert key \<lparr>lt_display_id = wl_destination_display link,
                                 lt_edge = wl_destination_edge link\<rparr> links)))"

definition reciprocal_ok :: "link_table \<Rightarrow> (DisplayId \<times> u8) \<times> LinkTarget \<Rightarrow> (WorkspaceCompileError, unit) result" where
  "reciprocal_ok links entry =
     (let ((source_display, source_edge), target) = entry in
      case map_of links (lt_display_id target, edge_key (lt_edge target)) of
        None \<Rightarrow> Inr ()
      | Some reverse \<Rightarrow>
          ensure (reverse = \<lparr>lt_display_id = source_display, lt_edge = edge_from_key source_edge\<rparr>)
            ConflictingReciprocalLink)"

definition compile_links ::
  "compiled_table \<Rightarrow> WorkspaceLink list \<Rightarrow> (WorkspaceCompileError, link_table) result" where
  "compile_links table ls =
     and_then (compile_links_loop table ls []) (\<lambda>links.
     and_then (for_each (reciprocal_ok links) links) (\<lambda>_. Inr links))"

section \<open>The shared epoch\<close>

definition canonical_float_bits :: "f64 \<Rightarrow> u64" where
  "canonical_float_bits v = (if f64_eq v f64_zero then 0 else v)"

definition workspace_domain :: "u8 list" where
  "workspace_domain = map (of_nat \<circ> of_char) ''software-kvm-workspace-v1'' @ [0]"

definition display_bytes :: "DisplayId \<times> CompiledDisplay \<Rightarrow> u8 list" where
  "display_bytes entry =
     (let (display_id, display) = entry in
      be_bytes 16 (unat display_id) @ be_bytes 16 (unat (cpd_host_id display))
      @ concat (map (\<lambda>value. be_bytes 8 (unat (canonical_float_bits value)))
          [size_width (cpd_logical_size display), size_height (cpd_logical_size display),
           rect_x (cpd_workspace_bounds display), rect_y (cpd_workspace_bounds display),
           rect_width (cpd_workspace_bounds display), rect_height (cpd_workspace_bounds display)]))"

definition link_bytes :: "(DisplayId \<times> u8) \<times> LinkTarget \<Rightarrow> u8 list" where
  "link_bytes entry =
     (let ((source_display, source_edge), target) = entry in
      be_bytes 16 (unat source_display) @ [source_edge]
      @ be_bytes 16 (unat (lt_display_id target)) @ [edge_key (lt_edge target)])"

definition epoch_preimage :: "compiled_table \<Rightarrow> link_table \<Rightarrow> u8 list" where
  "epoch_preimage table links =
     workspace_domain @ be_bytes 8 (length table) @ concat (map display_bytes table)
     @ be_bytes 8 (length links) @ concat (map link_bytes links)"

text \<open>\<open>sha256\<close> is the digest of the \<^verbatim>\<open>sha2\<close> crate.\<close>

definition protocol_epoch :: "(u8 list \<Rightarrow> u8 list) \<Rightarrow> compiled_table \<Rightarrow> link_table \<Rightarrow> u64" where
  "protocol_epoch sha256 table links =
     max (of_nat (be_value (take 8 (sha256 (epoch_preimage table links))))) 1"

definition compile_workspace ::
  "(u8 list \<Rightarrow> u8 list) \<Rightarrow> WorkspaceEpoch \<Rightarrow> Display list \<Rightarrow> WorkspacePlacement list \<Rightarrow> WorkspaceLink list
   \<Rightarrow> (WorkspaceCompileError, ConfiguredWorkspace) result" where
  "compile_workspace sha256 epoch ds ps ls =
     and_then (collect_bounded ds MAX_WORKSPACE_DISPLAYS) (\<lambda>ds.
     if ds = [] then Inl WorkspaceMissingDisplay else
     and_then (collect_bounded ps MAX_WORKSPACE_DISPLAYS) (\<lambda>ps.
     and_then (collect_bounded ls MAX_WORKSPACE_LINKS) (\<lambda>ls.
     and_then (compile_inventory ds) (\<lambda>(inventory, host_count).
     and_then (compile_placements inventory ps) (\<lambda>table.
     and_then (validate_workspace_extent (map (cpd_workspace_bounds \<circ> snd) table)) (\<lambda>_.
     and_then (compile_links table ls) (\<lambda>links.
       Inr \<lparr>cw_epoch = epoch, cw_protocol_epoch = protocol_epoch sha256 table links,
            cw_displays = table, cw_links = links, cw_host_count = host_count\<rparr>)))))))"

record WorkspaceCompiler =
  wc_active :: "ConfiguredWorkspace option"
  wc_last_epoch :: u64

definition WorkspaceCompiler_new :: WorkspaceCompiler where
  "WorkspaceCompiler_new = \<lparr>wc_active = None, wc_last_epoch = 0\<rparr>"

definition compile_candidate ::
  "(u8 list \<Rightarrow> u8 list) \<Rightarrow> Display list \<Rightarrow> WorkspacePlacement list \<Rightarrow> WorkspaceLink list \<Rightarrow> WorkspaceCompiler
   \<Rightarrow> (WorkspaceCompileError, ConfiguredWorkspace) result \<times> WorkspaceCompiler" where
  "compile_candidate sha256 ds ps ls c =
     (case Option.bind (checked_add_u64 (wc_last_epoch c) 1) WorkspaceEpoch_new of
        None \<Rightarrow> (Inl EpochExhausted, c)
      | Some next_epoch \<Rightarrow>
          (case compile_workspace sha256 next_epoch ds ps ls of
             Inl e \<Rightarrow> (Inl e, c)
           | Inr candidate \<Rightarrow>
               (Inr candidate, c\<lparr>wc_active := Some candidate, wc_last_epoch := next_epoch\<rparr>)))"

section \<open>Tables built by inserting fresh keys\<close>

lemma sorted_map_ext: "sorted_map m \<Longrightarrow> sorted_map m' \<Longrightarrow> set m = set m' \<Longrightarrow> m = m'"
proof (induction m arbitrary: m')
  case (Cons x m)
  obtain k v where x: "x = (k, v)" by (cases x)
  obtain k' v' r where m': "m' = (k', v') # r"
    using Cons.prems(3) by (cases m') auto
  have less: "\<forall>j\<in>fst ` set m. k < j" "\<forall>j\<in>fst ` set r. k' < j"
    using Cons.prems by (simp_all add: x m' sorted_map_Cons)
  have in': "(k, v) \<in> set m'" and "in": "(k', v') \<in> set (x # m)"
    using Cons.prems(3) by (auto simp: x m')
  have "\<not> k < k'" "\<not> k' < k"
    using in' "in" less by (force simp: x m')+
  then have k: "k = k'" by simp
  have v: "v = v'"
    using in' less(2) by (force simp: m' k)
  have fresh: "(k, v) \<notin> set m" "(k, v) \<notin> set r"
    using less k by force+
  then have "set m = set r"
    using Cons.prems(3) by (auto simp: x m' k v)
  then show ?case
    using Cons.IH[of r] Cons.prems(1,2) by (simp add: x m' k v sorted_map_Cons)
qed simp

definition keyed :: "('a \<Rightarrow> 'k::linorder) \<Rightarrow> ('a \<Rightarrow> 'v) \<Rightarrow> 'a list \<Rightarrow> ('k, 'v) btree_map \<Rightarrow> ('k, 'v) btree_map" where
  "keyed key entry xs m = fold (\<lambda>x. bt_insert (key x) (entry x)) xs m"

lemma keyed_simps [simp]:
  "keyed key entry [] m = m"
  "keyed key entry (x # xs) m = keyed key entry xs (bt_insert (key x) (entry x) m)"
  by (simp_all add: keyed_def)

lemma sorted_keyed: "sorted_map m \<Longrightarrow> sorted_map (keyed key entry xs m)"
  by (induction xs arbitrary: m) auto

lemma set_keyed:
  assumes "sorted_map m" "distinct (map key xs)" "key ` set xs \<inter> fst ` set m = {}"
  shows "set (keyed key entry xs m) = (\<lambda>x. (key x, entry x)) ` set xs \<union> set m"
  using assms
proof (induction xs arbitrary: m)
  case (Cons x xs)
  have "key x \<notin> fst ` set m" using Cons.prems(3) by auto
  then have "{e \<in> set m. fst e \<noteq> key x} = set m" by force
  then have "set (bt_insert (key x) (entry x) m) = insert (key x, entry x) (set m)"
    by (simp add: set_bt_insert[OF Cons.prems(1)])
  moreover have "key ` set xs \<inter> fst ` set (bt_insert (key x) (entry x) m) = {}"
    using Cons.prems by (auto simp: keys_bt_insert)
  ultimately show ?case
    using Cons.IH[of "bt_insert (key x) (entry x) m"] Cons.prems(1,2) by (simp add: sorted_bt_insert)
qed simp

lemma keyed_entry:
  assumes "distinct (map key xs)"
  shows "map_of (keyed key entry xs []) k = Some v \<longleftrightarrow> (\<exists>x\<in>set xs. key x = k \<and> entry x = v)"
  using set_keyed[of "[]" key xs entry] sorted_map_of_eq[OF sorted_keyed[OF sorted_map_Nil], of k v key entry xs] assms
  by auto

lemma length_keyed:
  assumes "sorted_map m" "distinct (map key xs)" "key ` set xs \<inter> fst ` set m = {}"
  shows "length (keyed key entry xs m) = length xs + length m"
  using assms
proof (induction xs arbitrary: m)
  case (Cons x xs)
  have fresh: "key ` set xs \<inter> fst ` set (bt_insert (key x) (entry x) m) = {}" "key x \<notin> fst ` set m"
    using Cons.prems by (auto simp: keys_bt_insert)
  then show ?case
    using Cons.IH[OF sorted_bt_insert[OF Cons.prems(1)] _ fresh(1)] Cons.prems length_bt_insert[of m "key x" "entry x"]
    by simp
qed simp

lemma keyed_permuted:
  assumes "mset xs = mset ys" "distinct (map key xs)"
  shows "keyed key entry ys [] = keyed key entry xs []"
proof (rule sorted_map_ext)
  have d: "distinct (map key ys)"
    using assms by (metis mset_eq_imp_distinct_iff mset_map)
  show "set (keyed key entry ys []) = set (keyed key entry xs [])"
    using set_keyed[of "[]" key xs entry] set_keyed[of "[]" key ys entry] d assms mset_eq_setD[OF assms(1)]
    by simp
qed (auto intro: sorted_keyed)

text \<open>
  A loop that files one entry per item and refuses a key that is already present.  \<open>complete\<close> is
  the check after the last item.
\<close>

locale keyed_collection =
  fixes loop :: "'a list \<Rightarrow> ('k::linorder, 'v) btree_map \<Rightarrow> ('e, ('k, 'v) btree_map) result"
    and key :: "'a \<Rightarrow> 'k" and entry :: "'a \<Rightarrow> 'v" and good :: "'a \<Rightarrow> bool"
    and complete :: "('k, 'v) btree_map \<Rightarrow> bool"
  assumes loop_Nil: "loop [] m = Inr r \<longleftrightarrow> complete m \<and> r = m"
    and loop_Cons: "loop (x # xs) m = Inr r \<longleftrightarrow>
      good x \<and> key x \<notin> fst ` set m \<and> loop xs (bt_insert (key x) (entry x) m) = Inr r"
begin

lemma loop_iff_from:
  "sorted_map m \<Longrightarrow> loop xs m = Inr r \<longleftrightarrow>
     (\<forall>x\<in>set xs. good x) \<and> distinct (map key xs) \<and> key ` set xs \<inter> fst ` set m = {}
     \<and> complete r \<and> r = keyed key entry xs m"
proof (induction xs arbitrary: m)
  case (Cons x xs)
  show ?case
    using Cons.IH[OF sorted_bt_insert[OF Cons.prems]] by (auto simp: loop_Cons keys_bt_insert)
qed (auto simp: loop_Nil)

lemma loop_iff:
  "loop xs [] = Inr r \<longleftrightarrow>
     (\<forall>x\<in>set xs. good x) \<and> distinct (map key xs) \<and> complete r \<and> r = keyed key entry xs []"
  using loop_iff_from[of "[]" xs r] by simp

lemma loop_permuted:
  assumes "loop xs [] = Inr r" "mset xs = mset ys"
  shows "loop ys [] = Inr r"
  using assms keyed_permuted[OF assms(2), of key entry] mset_eq_setD[OF assms(2)]
    mset_eq_imp_distinct_iff[of "map key xs" "map key ys"]
  by (auto simp: loop_iff)

end

definition placed_bounds :: "(DisplayId, InventoryDisplay) btree_map \<Rightarrow> WorkspacePlacement \<Rightarrow> Rect" where
  "placed_bounds inventory p =
     from_origin_and_size (wp_origin p) (ivd_logical_size (the (map_of inventory (wp_display_id p))))"

definition placement_ok :: "(DisplayId, InventoryDisplay) btree_map \<Rightarrow> WorkspacePlacement \<Rightarrow> bool" where
  "placement_ok inventory p \<longleftrightarrow> contains_key inventory (wp_display_id p) \<and> valid_workspace_bounds (placed_bounds inventory p)"

definition placement_entry :: "(DisplayId, InventoryDisplay) btree_map \<Rightarrow> WorkspacePlacement \<Rightarrow> CompiledDisplay" where
  "placement_entry inventory p =
     (let display = the (map_of inventory (wp_display_id p)) in
      \<lparr>cpd_host_id = ivd_host_id display, cpd_logical_size = ivd_logical_size display,
       cpd_workspace_bounds = placed_bounds inventory p\<rparr>)"

lemma contains_key_None: "map_of m k = None \<Longrightarrow> \<not> contains_key m k"
  by (simp add: contains_key_iff map_of_eq_None_iff)

lemma contains_key_Some: "map_of m k = Some v \<Longrightarrow> contains_key m k"
  by (metis contains_key_iff map_of_eq_None_iff option.distinct(1))

interpretation placements: keyed_collection "compile_placements_loop inventory" wp_display_id
  "placement_entry inventory" "placement_ok inventory" "\<lambda>m. length m = length inventory" for inventory
proof unfold_locales
  fix x :: WorkspacePlacement and xs m r
  show "compile_placements_loop inventory (x # xs) m = Inr r \<longleftrightarrow>
      placement_ok inventory x \<and> wp_display_id x \<notin> fst ` set m
      \<and> compile_placements_loop inventory xs (bt_insert (wp_display_id x) (placement_entry inventory x) m) = Inr r"
  proof (cases "map_of inventory (wp_display_id x)")
    case (Some display)
    then show ?thesis
      using contains_key_Some[OF Some]
      by (auto simp: placement_ok_def placement_entry_def placed_bounds_def Let_def contains_key_iff[of m])
  qed (simp add: placement_ok_def contains_key_None)
qed auto

definition link_ok :: "compiled_table \<Rightarrow> WorkspaceLink \<Rightarrow> bool" where
  "link_ok table l \<longleftrightarrow>
     (\<exists>s d. map_of table (wl_source_display l) = Some s \<and> map_of table (wl_destination_display l) = Some d
        \<and> wl_source_display l \<noteq> wl_destination_display l
        \<and> wl_destination_edge l = opposite (wl_source_edge l)
        \<and> touches (cpd_workspace_bounds s) (cpd_workspace_bounds d) (wl_source_edge l)
        \<and> \<not> f64_le (overlap_length (cpd_workspace_bounds s) (cpd_workspace_bounds d) (wl_source_edge l)) GEOMETRY_EPSILON)"

definition link_key :: "WorkspaceLink \<Rightarrow> DisplayId \<times> u8" where
  "link_key l = (wl_source_display l, edge_key (wl_source_edge l))"

definition link_entry :: "WorkspaceLink \<Rightarrow> LinkTarget" where
  "link_entry l = \<lparr>lt_display_id = wl_destination_display l, lt_edge = wl_destination_edge l\<rparr>"

interpretation links: keyed_collection "compile_links_loop table" link_key link_entry "link_ok table" "\<lambda>_. True" for table
proof unfold_locales
  fix x :: WorkspaceLink and xs m r
  show "compile_links_loop table (x # xs) m = Inr r \<longleftrightarrow>
      link_ok table x \<and> link_key x \<notin> fst ` set m
      \<and> compile_links_loop table xs (bt_insert (link_key x) (link_entry x) m) = Inr r"
    by (cases "map_of table (wl_source_display x)"; cases "map_of table (wl_destination_display x)")
      (auto simp: link_ok_def link_key_def link_entry_def contains_key_iff Let_def)
qed auto

definition inventory_ok :: "Display \<Rightarrow> bool" where
  "inventory_ok d \<longleftrightarrow> \<not> nil_display (disp_id d) \<and> \<not> nil_host (disp_host_id d) \<and> valid_inventory_geometry d"

definition inventory_entry :: "Display \<Rightarrow> InventoryDisplay" where
  "inventory_entry d = \<lparr>ivd_host_id = disp_host_id d, ivd_logical_size = disp_logical_size d\<rparr>"

lemma compile_inventory_loop_iff:
  "sorted_map m \<Longrightarrow> distinct hs \<Longrightarrow> compile_inventory_loop ds m hs = Inr (r, n) \<longleftrightarrow>
     (\<forall>d\<in>set ds. inventory_ok d) \<and> distinct (map disp_id ds) \<and> disp_id ` set ds \<inter> fst ` set m = {}
     \<and> (ds = [] \<or> card (set hs \<union> disp_host_id ` set ds) \<le> MAX_WORKSPACE_HOSTS)
     \<and> r = keyed disp_id inventory_entry ds m \<and> n = card (set hs \<union> disp_host_id ` set ds)"
proof (induction ds arbitrary: m hs)
  case (Cons d ds)
  let ?hs = "List.insert (disp_host_id d) hs"
  have eq: "set hs \<union> disp_host_id ` set (d # ds) = set ?hs \<union> disp_host_id ` set ds"
    by auto
  have len: "length ?hs = card (set ?hs)"
    using distinct_card[of ?hs] Cons.prems(2) by simp
  have le: "card (set ?hs) \<le> card (set ?hs \<union> disp_host_id ` set ds)"
    by (intro card_mono) auto
  show ?case
    using Cons.IH[OF sorted_bt_insert[OF Cons.prems(1)], of ?hs "disp_id d" "inventory_entry d"] Cons.prems(2) le
    unfolding eq by (auto simp: len inventory_ok_def inventory_entry_def contains_key_iff keys_bt_insert)
qed (auto simp: distinct_card)

lemma compile_inventory_iff:
  "compile_inventory ds = Inr (r, n) \<longleftrightarrow>
     (\<forall>d\<in>set ds. inventory_ok d) \<and> distinct (map disp_id ds)
     \<and> (ds = [] \<or> card (disp_host_id ` set ds) \<le> MAX_WORKSPACE_HOSTS)
     \<and> r = keyed disp_id inventory_entry ds [] \<and> n = card (disp_host_id ` set ds)"
  using compile_inventory_loop_iff[of "[]" "[]" ds r n] by (simp add: compile_inventory_def)

lemma compile_inventory_permuted:
  assumes "compile_inventory ds = Inr (r, n)" "mset ds = mset ds'"
  shows "compile_inventory ds' = Inr (r, n)"
  using assms keyed_permuted[OF assms(2), of disp_id inventory_entry] mset_eq_setD[OF assms(2)]
    mset_eq_imp_distinct_iff[of "map disp_id ds" "map disp_id ds'"]
  by (auto simp: compile_inventory_iff)

lemma collect_bounded_loop_iff:
  "length acc \<le> n \<Longrightarrow> collect_bounded_loop vs n acc = Inr r \<longleftrightarrow> length acc + length vs \<le> n \<and> r = acc @ vs"
  by (induction vs arbitrary: acc) auto

lemma collect_bounded_iff [simp]: "collect_bounded vs n = Inr r \<longleftrightarrow> length vs \<le> n \<and> r = vs"
  using collect_bounded_loop_iff[of "[]" n vs r] by (auto simp: collect_bounded_def)

lemma compile_links_iff:
  "compile_links table ls = Inr r \<longleftrightarrow>
     (\<forall>l\<in>set ls. link_ok table l) \<and> distinct (map link_key ls) \<and> r = keyed link_key link_entry ls []
     \<and> (\<forall>entry\<in>set r. reciprocal_ok r entry = Inr ())"
  by (auto simp: compile_links_def links.loop_iff for_each_eq_Inr)

lemma compile_workspace_iff:
  "compile_workspace sha e ds ps ls = Inr w \<longleftrightarrow>
     length ds \<le> MAX_WORKSPACE_DISPLAYS \<and> ds \<noteq> [] \<and> length ps \<le> MAX_WORKSPACE_DISPLAYS
     \<and> length ls \<le> MAX_WORKSPACE_LINKS
     \<and> (\<exists>inventory. compile_inventory ds = Inr (inventory, cw_host_count w)
          \<and> compile_placements inventory ps = Inr (cw_displays w))
     \<and> validate_workspace_extent (map (cpd_workspace_bounds \<circ> snd) (cw_displays w)) = Inr ()
     \<and> compile_links (cw_displays w) ls = Inr (cw_links w)
     \<and> cw_epoch w = e \<and> cw_protocol_epoch w = protocol_epoch sha (cw_displays w) (cw_links w)"
proof
  assume "compile_workspace sha e ds ps ls = Inr w"
  then show "length ds \<le> MAX_WORKSPACE_DISPLAYS \<and> ds \<noteq> [] \<and> length ps \<le> MAX_WORKSPACE_DISPLAYS
     \<and> length ls \<le> MAX_WORKSPACE_LINKS
     \<and> (\<exists>inventory. compile_inventory ds = Inr (inventory, cw_host_count w)
          \<and> compile_placements inventory ps = Inr (cw_displays w))
     \<and> validate_workspace_extent (map (cpd_workspace_bounds \<circ> snd) (cw_displays w)) = Inr ()
     \<and> compile_links (cw_displays w) ls = Inr (cw_links w)
     \<and> cw_epoch w = e \<and> cw_protocol_epoch w = protocol_epoch sha (cw_displays w) (cw_links w)"
    by (auto simp: compile_workspace_def split: if_splits)
qed (auto simp: compile_workspace_def)

lemma compile_workspace_permuted:
  assumes "compile_workspace sha e ds ps ls = Inr w"
    and "mset ds = mset ds'" "mset ps = mset ps'" "mset ls = mset ls'"
  shows "compile_workspace sha e' ds' ps' ls' = Inr (w\<lparr>cw_epoch := e'\<rparr>)"
proof -
  obtain inventory where w: "compile_inventory ds = Inr (inventory, cw_host_count w)"
      "compile_placements inventory ps = Inr (cw_displays w)"
      "compile_links (cw_displays w) ls = Inr (cw_links w)"
    using assms(1) by (auto simp: compile_workspace_iff)
  have "compile_placements inventory ps' = Inr (cw_displays w)"
    using placements.loop_permuted[OF _ assms(3)] w(2) by (simp add: compile_placements_def)
  moreover have "compile_links (cw_displays w) ls' = Inr (cw_links w)"
    using w(3) keyed_permuted[OF assms(4), of link_key link_entry] mset_eq_setD[OF assms(4)]
      mset_eq_imp_distinct_iff[of "map link_key ls" "map link_key ls'"] assms(4)
    by (auto simp: compile_links_iff)
  moreover have "ds' \<noteq> []" using assms by (auto simp: compile_workspace_iff)
  ultimately show ?thesis
    using assms(1) compile_inventory_permuted[OF w(1) assms(2)] mset_eq_length[OF assms(2)]
      mset_eq_length[OF assms(3)] mset_eq_length[OF assms(4)]
    by (auto simp: compile_workspace_iff)
qed

section \<open>What compilation guarantees\<close>

definition compiled_display_ok :: "CompiledDisplay \<Rightarrow> bool" where
  "compiled_display_ok d \<longleftrightarrow>
     \<not> nil_host (cpd_host_id d) \<and> valid_workspace_bounds (cpd_workspace_bounds d)
     \<and> rect_size (cpd_workspace_bounds d) = cpd_logical_size d
     \<and> f64_le (size_width (cpd_logical_size d)) MAX_LOGICAL_DISPLAY_EXTENT
     \<and> f64_le (size_height (cpd_logical_size d)) MAX_LOGICAL_DISPLAY_EXTENT"

definition link_entry_ok :: "compiled_table \<Rightarrow> (DisplayId \<times> u8) \<times> LinkTarget \<Rightarrow> bool" where
  "link_entry_ok table entry \<longleftrightarrow>
     (\<exists>l. link_ok table l \<and> fst entry = link_key l \<and> snd entry = link_entry l)"

definition workspace_wf :: "ConfiguredWorkspace \<Rightarrow> bool" where
  "workspace_wf w \<longleftrightarrow>
     sorted_map (cw_displays w) \<and> cw_displays w \<noteq> [] \<and> length (cw_displays w) \<le> MAX_WORKSPACE_DISPLAYS
     \<and> (\<forall>(d, display)\<in>set (cw_displays w). \<not> nil_display d \<and> compiled_display_ok display)
     \<and> sorted_map (cw_links w) \<and> length (cw_links w) \<le> MAX_WORKSPACE_LINKS
     \<and> (\<forall>entry\<in>set (cw_links w). link_entry_ok (cw_displays w) entry \<and> reciprocal_ok (cw_links w) entry = Inr ())
     \<and> cw_host_count w = card ((cpd_host_id \<circ> snd) ` set (cw_displays w)) \<and> cw_host_count w \<le> MAX_WORKSPACE_HOSTS
     \<and> cw_protocol_epoch w \<noteq> 0"

lemma protocol_epoch_nonzero: "protocol_epoch sha table ls \<noteq> 0"
proof -
  have "1 \<le> protocol_epoch sha table ls" by (simp add: protocol_epoch_def)
  then show ?thesis by auto
qed

lemma keyed_displays:
  assumes "(\<forall>d\<in>set ds. inventory_ok d)" "distinct (map disp_id ds)"
    and "inventory = keyed disp_id inventory_entry ds []"
    and "compile_placements inventory ps = Inr table"
  shows "sorted_map table" "length table = length ds"
    and "fst ` set table = disp_id ` set ds"
    and "\<And>i display. (i, display) \<in> set table \<Longrightarrow>
           (\<exists>d\<in>set ds. i = disp_id d \<and> cpd_host_id display = disp_host_id d) \<and> compiled_display_ok display"
proof -
  have iset: "set inventory = (\<lambda>d. (disp_id d, inventory_entry d)) ` set ds"
    using set_keyed[of "[]" disp_id ds inventory_entry] assms(2,3) by simp
  have ilen: "length inventory = length ds"
    using length_keyed[of "[]" disp_id ds inventory_entry] assms(2,3) by simp
  have ps: "(\<forall>p\<in>set ps. placement_ok inventory p)" "distinct (map wp_display_id ps)"
      "length table = length inventory" "table = keyed wp_display_id (placement_entry inventory) ps []"
    using assms(4) by (auto simp: compile_placements_def placements.loop_iff)
  have tset: "set table = (\<lambda>p. (wp_display_id p, placement_entry inventory p)) ` set ps"
    using set_keyed[of "[]" wp_display_id ps "placement_entry inventory"] ps by simp
  show "sorted_map table" using ps(4) by (simp add: sorted_keyed)
  show len: "length table = length ds" using ps(3) ilen by simp
  have sub: "fst ` set table \<subseteq> disp_id ` set ds"
    using ps(1) iset by (force simp: tset placement_ok_def contains_key_iff)
  have "card (fst ` set table) = length table"
    using \<open>sorted_map table\<close> sorted_map_distinct[of table] distinct_card[of "map fst table"]
    by (simp add: distinct_keys_def)
  moreover have "card (disp_id ` set ds) = length ds"
    using assms(2) distinct_card[of "map disp_id ds"] by simp
  ultimately show "fst ` set table = disp_id ` set ds"
    using sub len by (intro card_subset_eq) auto
  fix i display assume "(i, display) \<in> set table"
  then obtain p where p: "p \<in> set ps" "i = wp_display_id p" "display = placement_entry inventory p"
    by (auto simp: tset)
  have "placement_ok inventory p" using p(1) ps(1) by blast
  then obtain v where v: "map_of inventory (wp_display_id p) = Some v"
    by (auto simp: placement_ok_def contains_key_def)
  then obtain d where d: "d \<in> set ds" "map_of inventory (wp_display_id p) = Some (inventory_entry d)" "wp_display_id p = disp_id d"
    using keyed_entry[OF assms(2), of inventory_entry "wp_display_id p" v] assms(3) by auto
  have "inventory_ok d" using d(1) assms(1) by blast
  then show "(\<exists>d\<in>set ds. i = disp_id d \<and> cpd_host_id display = disp_host_id d) \<and> compiled_display_ok display"
    using d p \<open>placement_ok inventory p\<close>
    by (auto simp: compiled_display_ok_def placement_entry_def placed_bounds_def placement_ok_def inventory_ok_def
        inventory_entry_def valid_inventory_geometry_def from_origin_and_size_def Rect_new_def rect_size_def)
qed

lemma compile_workspace_wf:
  assumes "compile_workspace sha e ds ps ls = Inr w"
  shows "workspace_wf w"
proof -
  obtain inventory where w: "compile_inventory ds = Inr (inventory, cw_host_count w)"
      "compile_placements inventory ps = Inr (cw_displays w)"
      "compile_links (cw_displays w) ls = Inr (cw_links w)" "length ds \<le> MAX_WORKSPACE_DISPLAYS"
      "ds \<noteq> []" "length ls \<le> MAX_WORKSPACE_LINKS"
      "cw_protocol_epoch w = protocol_epoch sha (cw_displays w) (cw_links w)"
    using assms by (auto simp: compile_workspace_iff)
  note inv = w(1)[unfolded compile_inventory_iff]
  have ds: "\<forall>d\<in>set ds. inventory_ok d" "distinct (map disp_id ds)"
      "inventory = keyed disp_id inventory_entry ds []" "card (disp_host_id ` set ds) \<le> MAX_WORKSPACE_HOSTS"
      "cw_host_count w = card (disp_host_id ` set ds)"
    using inv w(5) by auto
  note table = keyed_displays[OF ds(1-3) w(2)]
  have one: "\<exists>d'\<in>set ds. i = disp_id d' \<and> cpd_host_id x = disp_host_id d'" if "(i, x) \<in> set (cw_displays w)" for i x
    using table(4)[OF that] by blast
  have "disp_host_id d \<in> (cpd_host_id \<circ> snd) ` set (cw_displays w)" if "d \<in> set ds" for d
  proof -
    have "disp_id d \<in> fst ` set (cw_displays w)" using table(3) that by auto
    then obtain x where x: "(disp_id d, x) \<in> set (cw_displays w)" by force
    then obtain d' where "d' \<in> set ds" "disp_id d = disp_id d'" "cpd_host_id x = disp_host_id d'"
      using one by blast
    moreover have "d' = d"
      using calculation that ds(2) by (metis distinct_map inj_onD)
    ultimately show ?thesis using x by force
  qed
  then have hosts: "(cpd_host_id \<circ> snd) ` set (cw_displays w) = disp_host_id ` set ds"
    using one by force
  have nonnil: "\<not> nil_display i \<and> compiled_display_ok x" if "(i, x) \<in> set (cw_displays w)" for i x
    using table(4)[OF that] ds(1) by (auto simp: inventory_ok_def)
  have links: "\<forall>l\<in>set ls. link_ok (cw_displays w) l" "distinct (map link_key ls)"
      "cw_links w = keyed link_key link_entry ls []"
      "\<forall>entry\<in>set (cw_links w). reciprocal_ok (cw_links w) entry = Inr ()"
    using w(3) by (auto simp: compile_links_iff)
  have "set (cw_links w) = (\<lambda>l. (link_key l, link_entry l)) ` set ls" "length (cw_links w) = length ls"
    using set_keyed[of "[]" link_key ls link_entry] length_keyed[of "[]" link_key ls link_entry] links by simp_all
  then have "\<forall>entry\<in>set (cw_links w). link_entry_ok (cw_displays w) entry" "length (cw_links w) \<le> MAX_WORKSPACE_LINKS"
    using links(1) w(6) by (force simp: link_entry_ok_def)+
  then show ?thesis
    using table(1,2) w(4,5,7) nonnil links sorted_keyed[OF sorted_map_Nil, of link_key link_entry ls] ds(4,5) hosts
      protocol_epoch_nonzero[of sha "cw_displays w" "cw_links w"]
    by (auto simp: workspace_wf_def)
qed

lemma edge_key_simps [simp]:
  "edge_from_key (edge_key e) = e" "edge_key e = edge_key e' \<longleftrightarrow> e = e'"
  by (cases e; simp add: edge_from_key_def) (cases e; cases e'; simp)

lemma wf_display:
  "workspace_wf w \<Longrightarrow> map_of (cw_displays w) d = Some x \<Longrightarrow> \<not> nil_display d \<and> compiled_display_ok x"
  using map_of_SomeD[of "cw_displays w" d x] by (auto simp: workspace_wf_def)

lemma wf_link:
  assumes "workspace_wf w" "map_of (cw_links w) (d, edge_key e) = Some t"
  obtains x y where "map_of (cw_displays w) d = Some x" "map_of (cw_displays w) (lt_display_id t) = Some y"
    "d \<noteq> lt_display_id t" "lt_edge t = opposite e"
    "touches (cpd_workspace_bounds x) (cpd_workspace_bounds y) e"
    "reciprocal_ok (cw_links w) ((d, edge_key e), t) = Inr ()"
proof -
  have "link_entry_ok (cw_displays w) ((d, edge_key e), t)" "reciprocal_ok (cw_links w) ((d, edge_key e), t) = Inr ()"
    using map_of_SomeD[OF assms(2)] assms(1) by (auto simp: workspace_wf_def)
  then show thesis
    by (auto simp: link_entry_ok_def link_key_def link_entry_def link_ok_def intro: that)
qed

lemma compiled_size:
  assumes "compiled_display_ok x"
  shows "f64_is_finite (size_width (cpd_logical_size x))" "f64_is_finite (size_height (cpd_logical_size x))"
    "f64_le f64_zero (size_width (cpd_logical_size x))" "f64_le f64_zero (size_height (cpd_logical_size x))"
proof -
  have "Rect_is_valid (cpd_workspace_bounds x)" "cpd_logical_size x = rect_size (cpd_workspace_bounds x)"
    using assms by (auto simp: compiled_display_ok_def valid_workspace_bounds_def)
  then show "f64_is_finite (size_width (cpd_logical_size x))" "f64_is_finite (size_height (cpd_logical_size x))"
    "f64_le f64_zero (size_width (cpd_logical_size x))" "f64_le f64_zero (size_height (cpd_logical_size x))"
    using Rect_validD[of "cpd_workspace_bounds x"] by (auto simp: rect_size_def)
qed

lemma landing_point_inside:
  assumes "workspace_wf w" "map_of (cw_displays w) d = Some x" "valid_position p"
  shows "contains_local_point w d (landing_point e p (cpd_logical_size x))"
proof -
  note s = compiled_size[OF wf_display[OF assms(1,2), THEN conjunct2]]
  have "f64_le f64_zero p" "f64_le p f64_one"
    using assms(3) by (auto simp: valid_position_def)
  note m = f64_mul_fraction[OF s(1,3) this] f64_mul_fraction[OF s(2,4) this]
  show ?thesis
    using assms(2) s m f64_le_refl_finite[OF s(1)] f64_le_refl_finite[OF s(2)]
    by (cases e) (simp_all add: contains_local_point_def Point_new_def f64_le_refl_finite)
qed

lemma landing_point_finite:
  assumes "contains_local_point w d q"
  shows "f64_is_finite (point_x q)" "f64_is_finite (point_y q)"
  using assms by (auto simp: contains_local_point_def split: option.splits)

lemma configured_transition_iff:
  assumes "workspace_wf w"
  shows "configured_transition w d e p = Inr t \<longleftrightarrow>
    valid_position p \<and> (\<exists>target x y. map_of (cw_links w) (d, edge_key e) = Some target
      \<and> map_of (cw_displays w) d = Some x \<and> map_of (cw_displays w) (lt_display_id target) = Some y
      \<and> covers (cpd_workspace_bounds y) e (perpendicular_coordinate (cpd_workspace_bounds x) e p) (close p f64_one)
      \<and> t = \<lparr>wt_epoch = cw_epoch w, wt_source_display = d, wt_source_host = cpd_host_id x, wt_source_edge = e,
              wt_destination_display = lt_display_id target, wt_destination_host = cpd_host_id y,
              wt_destination_edge = opposite e, wt_normalized_position = p,
              wt_destination_point = landing_point (opposite e) p (cpd_logical_size y)\<rparr>)"
proof (cases "valid_position p")
  case True
  show ?thesis
  proof (cases "map_of (cw_links w) (d, edge_key e)")
    case (Some target)
    then obtain x y where xy: "map_of (cw_displays w) d = Some x" "map_of (cw_displays w) (lt_display_id target) = Some y"
        "lt_edge target = opposite e" "touches (cpd_workspace_bounds x) (cpd_workspace_bounds y) e"
      using wf_link[OF assms] by metis
    show ?thesis
      using landing_point_finite[OF landing_point_inside[OF assms xy(2) True]] True
      by (auto simp: configured_transition_def Some xy Let_def)
  qed (auto simp: configured_transition_def split: option.splits)
qed (simp add: configured_transition_def)

section \<open>The epoch names the geometry\<close>

text \<open>Two tables that agree up to the sign of zero coordinates.\<close>

definition same_float :: "f64 \<Rightarrow> f64 \<Rightarrow> bool" where
  "same_float a b \<longleftrightarrow> a = b \<or> f64_eq a f64_zero \<and> f64_eq b f64_zero"

definition same_display :: "CompiledDisplay \<Rightarrow> CompiledDisplay \<Rightarrow> bool" where
  "same_display x y \<longleftrightarrow> cpd_host_id x = cpd_host_id y
     \<and> same_float (size_width (cpd_logical_size x)) (size_width (cpd_logical_size y))
     \<and> same_float (size_height (cpd_logical_size x)) (size_height (cpd_logical_size y))
     \<and> same_float (rect_x (cpd_workspace_bounds x)) (rect_x (cpd_workspace_bounds y))
     \<and> same_float (rect_y (cpd_workspace_bounds x)) (rect_y (cpd_workspace_bounds y))
     \<and> same_float (rect_width (cpd_workspace_bounds x)) (rect_width (cpd_workspace_bounds y))
     \<and> same_float (rect_height (cpd_workspace_bounds x)) (rect_height (cpd_workspace_bounds y))"

lemma canonical_float_bits_eq: "canonical_float_bits a = canonical_float_bits b \<longleftrightarrow> same_float a b"
proof -
  have zero: "f64_eq (0 :: f64) 0" by (simp add: f64_eq_def)
  show ?thesis
    using zero by (auto simp: canonical_float_bits_def same_float_def)
qed

lemma be_bytes_word: "be_bytes 16 (unat a) = be_bytes 16 (unat b) \<longleftrightarrow> a = b" for a b :: id128
  using be_bytes_inj[of "unat a" 16 "unat b"] unat_less_2p[of a] unat_less_2p[of b] by (auto simp: word_unat_eq_iff)

lemma be_bytes_u64: "be_bytes 8 (unat a) = be_bytes 8 (unat b) \<longleftrightarrow> a = b" for a b :: u64
  using be_bytes_inj[of "unat a" 8 "unat b"] unat_less_2p[of a] unat_less_2p[of b] by (auto simp: word_unat_eq_iff)

lemma display_bytes_eq:
  "display_bytes (i, x) = display_bytes (j, y) \<longleftrightarrow> i = j \<and> same_display x y"
  by (auto simp: display_bytes_def be_bytes_word be_bytes_u64 canonical_float_bits_eq same_display_def)

lemma link_bytes_eq: "link_bytes a = link_bytes b \<longleftrightarrow> a = b"
  by (cases a; cases b) (auto simp: link_bytes_def be_bytes_word Let_def split: prod.splits intro!: LinkTarget.equality)

lemma concat_blocks_eq:
  assumes "\<And>x. x \<in> set xs \<union> set ys \<Longrightarrow> length (f x) = n" "length xs = length ys"
    and "concat (map f xs) @ r = concat (map f ys) @ s"
  shows "map f xs = map f ys \<and> r = s"
  using assms(2,1,3)
proof (induction xs ys rule: list_induct2)
  case (Cons x xs y ys)
  have "length (f x) = length (f y)" using Cons.prems(1) by simp
  then show ?case using Cons.prems Cons.IH by simp
qed simp

lemma block_lengths: "length (display_bytes e) = 80" "length (link_bytes l) = 34"
  by (simp_all add: display_bytes_def link_bytes_def Let_def split_def)

lemma epoch_preimage_eq:
  assumes "length t < 2 ^ 64" "length t' < 2 ^ 64" "length ls < 2 ^ 64" "length ls' < 2 ^ 64"
    and "epoch_preimage t ls = epoch_preimage t' ls'"
  shows "map display_bytes t = map display_bytes t'" "ls = ls'"
proof -
  have "be_bytes 8 (length t) = be_bytes 8 (length t')"
    using assms(5) by (simp add: epoch_preimage_def)
  then have lt: "length t = length t'"
    using be_bytes_inj[of "length t" 8 "length t'"] assms(1,2) by simp
  have "concat (map display_bytes t) @ be_bytes 8 (length ls) @ concat (map link_bytes ls)
      = concat (map display_bytes t') @ be_bytes 8 (length ls') @ concat (map link_bytes ls')"
    using assms(5) by (simp add: epoch_preimage_def lt)
  then have "map display_bytes t = map display_bytes t' \<and> be_bytes 8 (length ls) @ concat (map link_bytes ls)
      = be_bytes 8 (length ls') @ concat (map link_bytes ls')"
    by (rule concat_blocks_eq[OF block_lengths(1) lt])
  then have t: "map display_bytes t = map display_bytes t'" and l: "be_bytes 8 (length ls) = be_bytes 8 (length ls')"
      "concat (map link_bytes ls) = concat (map link_bytes ls')"
    by auto
  show "map display_bytes t = map display_bytes t'" by (fact t)
  have ll: "length ls = length ls'"
    using be_bytes_inj[of "length ls" 8 "length ls'"] l(1) assms(3,4) by simp
  have "map link_bytes ls = map link_bytes ls'"
    using concat_blocks_eq[where f = link_bytes and r = "[]" and s = "[]", OF block_lengths(2) ll] l(2) by simp
  then show "ls = ls'"
    by (metis inj_map_eq_map inj_onI link_bytes_eq)
qed

section \<open>The atomic compiler\<close>

type_synonym workspace_candidate = "Display list \<times> WorkspacePlacement list \<times> WorkspaceLink list"

definition candidate_step :: "(u8 list \<Rightarrow> u8 list) \<Rightarrow> workspace_candidate \<Rightarrow> WorkspaceCompiler \<Rightarrow> WorkspaceCompiler" where
  "candidate_step sha c = (let (ds, ps, ls) = c in snd \<circ> compile_candidate sha ds ps ls)"

definition candidate_publication ::
  "(u8 list \<Rightarrow> u8 list) \<Rightarrow> workspace_candidate \<Rightarrow> WorkspaceCompiler \<Rightarrow> (unit \<times> WorkspaceEpoch) option" where
  "candidate_publication sha c s =
     (let (ds, ps, ls) = c in
      case fst (compile_candidate sha ds ps ls s) of Inl _ \<Rightarrow> None | Inr w \<Rightarrow> Some ((), cw_epoch w))"

definition compiler_inv :: "WorkspaceCompiler \<Rightarrow> bool" where
  "compiler_inv c \<longleftrightarrow> (case wc_active c of None \<Rightarrow> wc_last_epoch c = 0
     | Some w \<Rightarrow> workspace_wf w \<and> cw_epoch w = wc_last_epoch c \<and> cw_epoch w \<noteq> 0)"

lemma compile_candidate_cases:
  obtains (failed) e where "compile_candidate sha ds ps ls c = (Inl e, c)"
  | (accepted) w where "compile_candidate sha ds ps ls c
        = (Inr w, c\<lparr>wc_active := Some w, wc_last_epoch := cw_epoch w\<rparr>)"
      "compile_workspace sha (cw_epoch w) ds ps ls = Inr w" "wc_last_epoch c < cw_epoch w" "workspace_wf w"
proof (cases "Option.bind (checked_add_u64 (wc_last_epoch c) 1) WorkspaceEpoch_new")
  case None
  then show thesis by (intro failed) (simp add: compile_candidate_def)
next
  case (Some n)
  then have less: "wc_last_epoch c < n"
    using checked_add_u64_one_less by (auto simp: bind_eq_Some_conv WorkspaceEpoch_new_def split: if_splits)
  show thesis
  proof (cases "compile_workspace sha n ds ps ls")
    case (Inl e)
    then show thesis using Some by (intro failed[of e]) (simp add: compile_candidate_def)
  next
    case (Inr w)
    then have "cw_epoch w = n" by (simp add: compile_workspace_iff)
    then show thesis
      using Some Inr less compile_workspace_wf[OF Inr] by (intro accepted[of w]) (simp_all add: compile_candidate_def)
  qed
qed

lemma compiler_inv_step: "compiler_inv c \<Longrightarrow> compiler_inv (candidate_step sha x c)"
proof -
  assume "compiler_inv c"
  moreover obtain ds ps ls where "x = (ds, ps, ls)" by (cases x)
  ultimately show ?thesis
    by (cases rule: compile_candidate_cases[of sha ds ps ls c]) (auto simp: candidate_step_def compiler_inv_def)
qed

interpretation workspace_compiler: invariant_component "candidate_step sha" compiler_inv WorkspaceCompiler_new for sha
  by unfold_locales (simp_all add: compiler_inv_step, simp add: compiler_inv_def WorkspaceCompiler_new_def)

interpretation workspace_epochs: revision_ledger "candidate_step sha" "\<lambda>_. True" "candidate_publication sha"
  "\<lambda>c _ r. r \<le> wc_last_epoch c" for sha
proof unfold_locales
  fix c :: WorkspaceCompiler and r and x :: workspace_candidate
  obtain ds ps ls where x: "x = (ds, ps, ls)" by (cases x)
  show "r \<le> wc_last_epoch (candidate_step sha x c)" if "r \<le> wc_last_epoch c"
    using that by (cases rule: compile_candidate_cases[of sha ds ps ls c]) (auto simp: candidate_step_def x)
  show "\<not> r \<le> wc_last_epoch c" if "candidate_publication sha x c = Some (u, r)" for u
    using that by (cases rule: compile_candidate_cases[of sha ds ps ls c]) (auto simp: candidate_publication_def x)
  show "q \<le> wc_last_epoch (candidate_step sha x c)" if "candidate_publication sha x c = Some (u, r)" "q \<le> r" for u q
    using that
    by (cases rule: compile_candidate_cases[of sha ds ps ls c]) (auto simp: candidate_publication_def candidate_step_def x)
qed auto

section \<open>A concrete workspace\<close>

text \<open>Two hosts with one display of 1024 by 1024 each, side by side and linked both ways.\<close>

definition demo_extent :: f64 where "demo_extent = 0x4090000000000000"

definition demo_workspace_display :: "id128 \<Rightarrow> Display" where
  "demo_workspace_display i = \<lparr>disp_id = i, disp_host_id = i, disp_name = [],
     disp_logical_size = \<lparr>size_width = demo_extent, size_height = demo_extent\<rparr>, disp_physical_size = None,
     disp_scale_factor = f64_one, disp_refresh_rate = None,
     disp_native_bounds = Rect_new 0 0 demo_extent demo_extent, disp_primary = True\<rparr>"

definition demo_setup :: workspace_candidate where
  "demo_setup =
     ([demo_workspace_display 2, demo_workspace_display 1],
      [\<lparr>wp_display_id = 1, wp_origin = Point_new 0 0\<rparr>, \<lparr>wp_display_id = 2, wp_origin = Point_new demo_extent 0\<rparr>],
      [\<lparr>wl_source_display = 1, wl_source_edge = RightEdge, wl_destination_display = 2, wl_destination_edge = LeftEdge\<rparr>,
       \<lparr>wl_source_display = 2, wl_source_edge = LeftEdge, wl_destination_display = 1, wl_destination_edge = RightEdge\<rparr>])"

definition demo_sha :: "u8 list \<Rightarrow> u8 list" where
  "demo_sha bs = replicate 31 0 @ [7]"

lemma f64_add_exact:
  assumes "f64_is_finite a" "f64_is_finite b" "f64_is_finite c" "f64_num a + f64_num b = f64_num c" "f64_num c \<noteq> 0"
  shows "f64_add a b = f64_make (f64_sign c) (f64_mag c)"
proof -
  have "f64_num c < 0 \<longleftrightarrow> f64_sign c" "nat \<bar>f64_num c\<bar> = mag_value (f64_mag c)"
    using assms(5) mag_value_eq_0[of "f64_mag c"] by (auto simp: f64_num_def simp del: mag_value_eq_0)
  then have "f64_of_num (f64_num c) = f64_make (f64_sign c) (f64_mag c)"
    using round_mag_exact[of 1 "f64_mag c"] assms(3) by (simp add: f64_of_num_def f64_is_finite_def)
  then show ?thesis
    using assms f64_finite_not_nan[of a] f64_finite_not_nan[of b] by (simp add: f64_add_def)
qed

lemma demo_values:
  "f64_sign demo_extent = False" "f64_mag demo_extent = 0x4090000000000000"
  "f64_sign 0x40A0000000000000 = False" "f64_mag 0x40A0000000000000 = 0x40A0000000000000"
  "f64_num demo_extent = 2 ^ 1084" "f64_num 0x40A0000000000000 = 2 ^ 1085"
  "f64_is_finite demo_extent" "f64_is_finite 0x40A0000000000000" "f64_neg 0 = 0x8000000000000000"
  "f64_make False 0x4090000000000000 = demo_extent" "f64_make False 0x40A0000000000000 = 0x40A0000000000000"
  "f64_make False 0 = 0"
  by (simp_all add: f64_sign_def f64_mag_def f64_num_def mag_value_def f64_is_finite_def inf_mag_def f64_make_def f64_neg_def
     demo_extent_def bit_iff_odd) 

lemma demo_arith:
  "f64_add 0 demo_extent = demo_extent" "f64_add demo_extent demo_extent = 0x40A0000000000000"
  "f64_sub 0 0 = 0" "f64_sub demo_extent demo_extent = 0" "f64_sub demo_extent 0 = demo_extent"
  "f64_sub 0x40A0000000000000 0 = 0x40A0000000000000"
proof -
  show "f64_add 0 demo_extent = demo_extent"
    using f64_add_exact[of 0 demo_extent demo_extent] by (simp add: demo_values)
  show "f64_add demo_extent demo_extent = 0x40A0000000000000"
    using f64_add_exact[of demo_extent demo_extent "0x40A0000000000000"] by (simp add: demo_values)
  show "f64_sub 0 0 = 0" "f64_sub demo_extent demo_extent = 0"
    by (simp_all add: f64_sub_def f64_add_def f64_finite_not_nan demo_values(1-8,12))
  show "f64_sub demo_extent 0 = demo_extent"
    using f64_add_exact[of demo_extent "f64_neg 0" demo_extent]
    by (simp add: demo_values(1-8,10-12) f64_sub_def)
  show "f64_sub 0x40A0000000000000 0 = 0x40A0000000000000"
    using f64_add_exact[of "0x40A0000000000000" "f64_neg 0" "0x40A0000000000000"]
    by (simp add: demo_values(1-8,10-12) f64_sub_def)
qed

definition demo_bounds :: "f64 \<Rightarrow> Rect" where
  "demo_bounds x = Rect_new x 0 demo_extent demo_extent"

definition demo_table :: compiled_table where
  "demo_table =
     [(1, \<lparr>cpd_host_id = 1, cpd_logical_size = rect_size (demo_bounds 0), cpd_workspace_bounds = demo_bounds 0\<rparr>),
      (2, \<lparr>cpd_host_id = 2, cpd_logical_size = rect_size (demo_bounds 0), cpd_workspace_bounds = demo_bounds demo_extent\<rparr>)]"

definition demo_links :: link_table where
  "demo_links = [((1, 1), \<lparr>lt_display_id = 2, lt_edge = LeftEdge\<rparr>), ((2, 0), \<lparr>lt_display_id = 1, lt_edge = RightEdge\<rparr>)]"

definition side_by_side :: "WorkspaceEpoch \<Rightarrow> ConfiguredWorkspace" where
  "side_by_side e = \<lparr>cw_epoch = e, cw_protocol_epoch = 1, cw_displays = demo_table, cw_links = demo_links,
     cw_host_count = 2\<rparr>"

lemma demo_layout_ok: "Display_is_valid (demo_workspace_display i)" "valid_inventory_geometry (demo_workspace_display i)"
  by (simp_all add: valid_inventory_geometry_def Display_is_valid_def demo_workspace_display_def Size_is_valid_def
      Rect_is_valid_def Rect_new_def rect_size_def max_x_def max_y_def demo_arith)
    (simp_all add: f64_eval demo_extent_def bit_iff_odd f64_one_def MAX_LOGICAL_DISPLAY_EXTENT_def)

lemma demo_bounds_simps [simp]:
  "min_x (demo_bounds x) = x" "min_y (demo_bounds x) = 0" "max_y (demo_bounds x) = demo_extent"
  "rect_width (demo_bounds x) = demo_extent" "rect_height (demo_bounds x) = demo_extent"
  "max_x (demo_bounds 0) = demo_extent" "max_x (demo_bounds demo_extent) = 0x40A0000000000000"
  by (simp_all add: demo_bounds_def Rect_new_def min_x_def min_y_def max_x_def max_y_def demo_arith)

lemma demo_numbers:
  "f64_is_finite demo_extent" "f64_is_finite 0x40A0000000000000" "f64_lt 0 demo_extent" "f64_le 0 demo_extent"
  "f64_lt demo_extent 0x40A0000000000000"
  "f64_le demo_extent MAX_WORKSPACE_COORDINATE" "f64_le 0x40A0000000000000 MAX_WORKSPACE_COORDINATE"
  "f64_le 0 MAX_WORKSPACE_COORDINATE" "f64_abs 0 = 0" "f64_abs demo_extent = demo_extent"
  "f64_abs 0x40A0000000000000 = 0x40A0000000000000"
  "\<not> f64_le demo_extent GEOMETRY_EPSILON" "f64_le 0 GEOMETRY_EPSILON" "\<not> f64_is_nan demo_extent"
  "\<not> f64_is_nan 0x40A0000000000000" "\<not> f64_lt MAX_WORKSPACE_EXTENT 0x40A0000000000000"
  "\<not> f64_lt MAX_WORKSPACE_EXTENT demo_extent" "\<not> f64_lt demo_extent 0" "\<not> f64_lt 0 0"
  by (simp_all add: f64_eval demo_extent_def bit_iff_odd MAX_WORKSPACE_COORDINATE_def GEOMETRY_EPSILON_def MAX_WORKSPACE_EXTENT_def)

lemma demo_valid_bounds: "valid_workspace_bounds (demo_bounds 0)" "valid_workspace_bounds (demo_bounds demo_extent)"
  by (simp_all add: valid_workspace_bounds_def Rect_is_valid_def Size_is_valid_def rect_size_def demo_numbers)
    (simp_all add: demo_bounds_def Rect_new_def demo_numbers)

lemma demo_compiles:
  "compile_workspace demo_sha e (fst demo_setup) (fst (snd demo_setup)) (snd (snd demo_setup)) = Inr (side_by_side e)"
proof -
  have inv: "compile_inventory [demo_workspace_display 2, demo_workspace_display 1]
      = Inr ([(1, \<lparr>ivd_host_id = 1, ivd_logical_size = rect_size (demo_bounds 0)\<rparr>),
              (2, \<lparr>ivd_host_id = 2, ivd_logical_size = rect_size (demo_bounds 0)\<rparr>)], 2)" (is "_ = Inr (?inv, 2)")
    using demo_layout_ok
    by (simp add: compile_inventory_def nil_display_def nil_host_def contains_key_def MAX_WORKSPACE_HOSTS_def)
      (simp add: demo_workspace_display_def rect_size_def demo_bounds_def Rect_new_def)
  have rect: "from_origin_and_size (Point_new x 0) (rect_size (demo_bounds 0)) = demo_bounds x" for x
    by (simp add: from_origin_and_size_def Point_new_def rect_size_def demo_bounds_def Rect_new_def)
  have table: "compile_placements ?inv (fst (snd demo_setup)) = Inr demo_table"
    using demo_valid_bounds
    by (simp add: compile_placements_def demo_setup_def demo_table_def contains_key_def rect Let_def)
  have extent: "validate_workspace_extent (map (cpd_workspace_bounds \<circ> snd) demo_table) = Inr ()"
    by (simp add: validate_workspace_extent_def demo_table_def f64_fmin_def f64_fmax_def demo_numbers demo_arith)
  have overlap: "overlap_length (demo_bounds x) (demo_bounds y) RightEdge = demo_extent"
      "overlap_length (demo_bounds x) (demo_bounds y) LeftEdge = demo_extent" for x y
    by (simp_all add: overlap_length_def f64_fmin_def f64_fmax_def demo_numbers demo_arith)
  have touch: "touches (demo_bounds 0) (demo_bounds demo_extent) RightEdge" "touches (demo_bounds demo_extent) (demo_bounds 0) LeftEdge"
    by (simp_all add: close_def demo_arith demo_numbers)
  have links: "compile_links demo_table (snd (snd demo_setup)) = Inr demo_links"
    by (simp add: compile_links_def demo_table_def demo_setup_def demo_links_def contains_key_def overlap touch
        demo_numbers reciprocal_ok_def edge_from_key_def Let_def word_le_nat_alt close_refl)
  have epoch: "protocol_epoch demo_sha table ls = 1" for table ls
    by (simp add: protocol_epoch_def demo_sha_def be_value_def numeral_eq_Suc)
  show ?thesis
    using inv table links
    by (simp add: compile_workspace_def demo_setup_def MAX_WORKSPACE_DISPLAYS_def MAX_WORKSPACE_LINKS_def
        collect_bounded_def extent epoch side_by_side_def)
qed

lemma demo_margin: "f64_lt f64_zero (f64_sub demo_extent GEOMETRY_EPSILON)"
proof -
  have "f64_num 0x4080000000000000 \<le> f64_num demo_extent - f64_num GEOMETRY_EPSILON"
    by (simp add: f64_num_def f64_sign_def f64_mag_def mag_value_def demo_extent_def GEOMETRY_EPSILON_def bit_iff_odd)
  then have "round_key (f64_num 0x4080000000000000) \<le> round_key (f64_num demo_extent - f64_num GEOMETRY_EPSILON)"
    by (rule round_key_mono)
  moreover have "round_key (f64_num 0x4080000000000000) = f64_key 0x4080000000000000"
    by (rule round_key_num) (simp add: f64_eval bit_iff_odd)
  moreover have "0 < f64_key 0x4080000000000000"
    by (simp add: f64_eval bit_iff_odd)
  ultimately show ?thesis
    using f64_add_finite[of demo_extent "f64_neg GEOMETRY_EPSILON"] demo_numbers(1) epsilon_simps(1)
    by (simp add: f64_lt_def f64_sub_def)
qed

lemma demo_transition:
  "configured_transition (side_by_side e) 1 RightEdge f64_zero =
     Inr \<lparr>wt_epoch = e, wt_source_display = 1, wt_source_host = 1, wt_source_edge = RightEdge,
          wt_destination_display = 2, wt_destination_host = 2, wt_destination_edge = LeftEdge,
          wt_normalized_position = f64_zero, wt_destination_point = Point_new 0 0\<rparr>"
proof -
  have pos: "valid_position f64_zero"
    by (simp add: valid_position_def f64_eval bit_iff_odd f64_one_def)
  have mul: "f64_mul 0 demo_extent = 0"
    by (simp add: demo_extent_def f64_mul_def unit_scale_def) (auto simp: f64_eval bit_iff_odd)
  have add: "f64_add 0 0 = 0" by (simp add: f64_eval bit_iff_odd)
  have cov: "covers (demo_bounds demo_extent) RightEdge 0 b" for b
    using epsilon_below[of f64_zero] demo_margin by (simp add: covers_def)
  have touch: "touches (demo_bounds 0) (demo_bounds demo_extent) RightEdge"
    by (simp add: close_def demo_arith demo_numbers)
  show ?thesis
    using pos by (simp add: configured_transition_def side_by_side_def demo_table_def demo_links_def
        perpendicular_coordinate_def mul add cov touch Point_new_def Let_def)
      (simp_all add: rect_size_def mul add close_def demo_arith demo_numbers)
qed

section \<open>Properties\<close>

text \<open>
  C19: A crossing accepted by a compiled workspace follows a configured link: the destination is
  another display of the workspace with the reported owner, entered on the opposite edge, and the
  landing point is finite and within that display's logical extent, for every normalized position
  under binary64 arithmetic.  When the destination edge is linked too, that link leads back.
\<close>

theorem configured_transition_lands:
  assumes "compile_workspace sha e ds ps ls = Inr w"
    and "configured_transition w d edge p = Inr t"
  shows "wt_destination_display t \<noteq> d
    \<and> owner_of w d = Some (wt_source_host t)
    \<and> owner_of w (wt_destination_display t) = Some (wt_destination_host t)
    \<and> wt_destination_edge t = opposite edge
    \<and> contains_local_point w (wt_destination_display t) (wt_destination_point t)
    \<and> map_of (cw_links w) (wt_destination_display t, edge_key (opposite edge))
        \<in> {None, Some \<lparr>lt_display_id = d, lt_edge = edge\<rparr>}"
proof -
  note wf = compile_workspace_wf[OF assms(1)]
  obtain target x y where t: "valid_position p" "map_of (cw_links w) (d, edge_key edge) = Some target"
      "map_of (cw_displays w) d = Some x" "map_of (cw_displays w) (lt_display_id target) = Some y"
      "t = \<lparr>wt_epoch = cw_epoch w, wt_source_display = d, wt_source_host = cpd_host_id x, wt_source_edge = edge,
              wt_destination_display = lt_display_id target, wt_destination_host = cpd_host_id y,
              wt_destination_edge = opposite edge, wt_normalized_position = p,
              wt_destination_point = landing_point (opposite edge) p (cpd_logical_size y)\<rparr>"
    using assms(2) configured_transition_iff[OF wf] by blast
  have target: "d \<noteq> lt_display_id target" "lt_edge target = opposite edge"
      "reciprocal_ok (cw_links w) ((d, edge_key edge), target) = Inr ()"
    using wf_link[OF wf t(2)] by metis+
  then have "map_of (cw_links w) (lt_display_id target, edge_key (opposite edge))
      \<in> {None, Some \<lparr>lt_display_id = d, lt_edge = edge\<rparr>}"
    by (auto simp: reciprocal_ok_def split: option.splits)
  then show ?thesis
    using t target landing_point_inside[OF wf t(4) t(1)] by (simp add: owner_of_def)
qed

theorem configured_transition_lands_witness:
  "contains_local_point (side_by_side 1) 2 (Point_new 0 0)"
  using configured_transition_lands[OF demo_compiles demo_transition] by simp

text \<open>
  C20: Peers agree on the workspace: whatever order displays, placements and links are presented in,
  a set that compiles on one peer compiles on every other to the same tables and the same protocol
  epoch, whatever their local epochs are; and the digested bytes of two compiled workspaces are
  equal exactly when their links are equal and their displays agree up to the sign of zero.
\<close>

theorem workspace_identity_shared:
  assumes "compile_workspace sha e ds ps ls = Inr w"
    and "compile_workspace sha e' ds' ps' ls' = Inr w'"
  shows "(mset ds'' = mset ds \<and> mset ps'' = mset ps \<and> mset ls'' = mset ls
      \<longrightarrow> compile_workspace sha e'' ds'' ps'' ls'' = Inr (w\<lparr>cw_epoch := e''\<rparr>))
    \<and> (epoch_preimage (cw_displays w) (cw_links w) = epoch_preimage (cw_displays w') (cw_links w')
      \<longleftrightarrow> list_all2 (\<lambda>(i, x) (j, y). i = j \<and> same_display x y) (cw_displays w) (cw_displays w')
          \<and> cw_links w = cw_links w')"
proof (intro conjI impI)
  show "compile_workspace sha e'' ds'' ps'' ls'' = Inr (w\<lparr>cw_epoch := e''\<rparr>)"
    if "mset ds'' = mset ds \<and> mset ps'' = mset ps \<and> mset ls'' = mset ls"
    using compile_workspace_permuted[OF assms(1)] that by metis
  have len: "length (cw_displays w) < 2 ^ 64" "length (cw_displays w') < 2 ^ 64"
      "length (cw_links w) < 2 ^ 64" "length (cw_links w') < 2 ^ 64"
    using compile_workspace_wf[OF assms(1)] compile_workspace_wf[OF assms(2)]
    by (auto simp: workspace_wf_def MAX_WORKSPACE_DISPLAYS_def MAX_WORKSPACE_LINKS_def)
  have blocks: "map display_bytes t = map display_bytes t' \<longleftrightarrow> list_all2 (\<lambda>(i, x) (j, y). i = j \<and> same_display x y) t t'" for t t'
    by (induction t t' rule: list_induct2') (auto simp: display_bytes_eq)
  show "epoch_preimage (cw_displays w) (cw_links w) = epoch_preimage (cw_displays w') (cw_links w')
      \<longleftrightarrow> list_all2 (\<lambda>(i, x) (j, y). i = j \<and> same_display x y) (cw_displays w) (cw_displays w')
          \<and> cw_links w = cw_links w'" (is "?eq \<longleftrightarrow> ?same")
  proof
    assume ?eq
    then show ?same using epoch_preimage_eq[OF len] blocks by auto
  next
    assume ?same
    moreover from this have "length (cw_displays w) = length (cw_displays w')"
      by (auto dest: list_all2_lengthD)
    ultimately show ?eq using blocks[of "cw_displays w" "cw_displays w'"] by (simp add: epoch_preimage_def)
  qed
qed

theorem workspace_identity_shared_witness:
  "compile_workspace demo_sha 9 (rev (fst demo_setup)) (fst (snd demo_setup)) (snd (snd demo_setup))
     = Inr (side_by_side 9)"
proof -
  have "compile_workspace demo_sha 9 (rev (fst demo_setup)) (fst (snd demo_setup)) (snd (snd demo_setup))
     = Inr ((side_by_side 1)\<lparr>cw_epoch := 9\<rparr>)"
    using workspace_identity_shared[OF demo_compiles demo_compiles, of "rev (fst demo_setup)"
        "fst (snd demo_setup)" "snd (snd demo_setup)" 9 1 1] by simp
  then show ?thesis by (simp add: side_by_side_def)
qed

text \<open>
  Compilation is atomic: over any sequence of candidates the epochs of the accepted ones
  strictly increase, a refused candidate leaves the compiler as it was, and the active workspace, if
  any, is a well-formed one that carries the last epoch handed out.
\<close>

theorem workspace_compiler_atomic:
  "sorted_wrt (<) (map snd (publication_log (candidate_step sha) (candidate_publication sha) cs WorkspaceCompiler_new))
   \<and> compiler_inv (fold (candidate_step sha) cs WorkspaceCompiler_new)
   \<and> (fst (compile_candidate sha ds ps ls c) = Inl err \<longrightarrow> snd (compile_candidate sha ds ps ls c) = c)"
proof (intro conjI impI)
  have "sorted_wrt (\<lambda>(a, r) (b, q). a = b \<longrightarrow> r < q)
      (publication_log (candidate_step sha) (candidate_publication sha) cs WorkspaceCompiler_new)"
    by (rule workspace_epochs.log_increasing) simp
  then show "sorted_wrt (<) (map snd (publication_log (candidate_step sha) (candidate_publication sha) cs WorkspaceCompiler_new))"
    by (auto simp: sorted_wrt_map elim: sorted_wrt_mono_rel[rotated])
  show "compiler_inv (fold (candidate_step sha) cs WorkspaceCompiler_new)"
    by (rule workspace_compiler.inv_run)
  show "snd (compile_candidate sha ds ps ls c) = c" if "fst (compile_candidate sha ds ps ls c) = Inl err"
    using that by (cases rule: compile_candidate_cases[of sha ds ps ls c]) auto
qed

theorem workspace_compiler_atomic_witness:
  "snd (compile_candidate demo_sha [] [] [] WorkspaceCompiler_new) = WorkspaceCompiler_new"
proof -
  have "fst (compile_candidate demo_sha [] [] [] WorkspaceCompiler_new) = Inl WorkspaceMissingDisplay"
    by (simp add: compile_candidate_def WorkspaceCompiler_new_def checked_add_u64_def WorkspaceEpoch_new_def
        compile_workspace_def collect_bounded_def)
  then show ?thesis
    using workspace_compiler_atomic[of demo_sha "[]" "[]" "[]" "[]" WorkspaceCompiler_new] by simp
qed

end
