(* ===== verification/PointerHandoff.thy ===== *)
theory PointerHandoff
  imports ConfiguredWorkspaces
begin

text \<open>
  The pointer hand-off coordinator (pointer_handoff.rs of kvm-daemon): the bounded state of one
  daemon (bound session, compiled workspace, at most one pending hand-off in each direction, the
  remembered results of completed ones), the four messages of an exchange (leave, enter,
  acknowledgement, commit), the effects the coordinator asks its caller to send, and every operation.

  An operation returns its result and the state after it: early returns keep the changes made before
  them, which \<open>checked\<close> (a test that changes nothing) and \<open>after\<close> (a call that may) write out.  The
  caller's queue is the argument of \<open>dispatch_effect\<close>, called with the message and whether the local host
  has authority at that moment, as in the source.
\<close>

section \<open>Configuration and errors\<close>

definition MAX_POINTER_HANDOFF_TIMEOUT :: duration where
  "MAX_POINTER_HANDOFF_TIMEOUT = from_secs 30"

definition EDGES :: "Edge list" where
  "EDGES = [LeftEdge, RightEdge, TopEdge, BottomEdge]"

datatype PointerHandoffErrorKind =
    HandoffInvalidConfig | HandoffInvalidWorkspaceState | HandoffUnavailable | HandoffNoCurrentSession
  | HandoffStaleSession | HandoffNotAuthoritative | HandoffNotRemoteTransition | HandoffPendingConflict
  | HandoffInvalidWorkspaceEpoch | HandoffInvalidHost | HandoffInvalidDisplay | HandoffInvalidTransition
  | HandoffInvalidSequence | HandoffStaleSequence | HandoffFutureSequence | HandoffConflictingReplay
  | HandoffSequenceExhausted | HandoffClockRegressed | HandoffClockOverflow | HandoffInvalidEffect
  | HandoffStaleEffect

text \<open>A \<^verbatim>\<open>PointerHandoffError\<close> carries its kind only.\<close>

type_synonym handoff_error = PointerHandoffErrorKind

record PointerHandoffConfig =
  phc_timeout :: duration

definition PointerHandoffConfig_new :: "duration \<Rightarrow> (handoff_error, PointerHandoffConfig) result" where
  "PointerHandoffConfig_new timeout =
     (if timeout = 0 \<or> MAX_POINTER_HANDOFF_TIMEOUT < timeout \<or> 2 ^ 64 \<le> timeout
      then Inl HandoffInvalidConfig else Inr \<lparr>phc_timeout = timeout\<rparr>)"

datatype PointerHandoffStatus = HandoffApplied | HandoffDuplicate | HandoffCleared | HandoffNoChange

record PointerHandoffTimeouts =
  pht_outbound :: bool
  pht_inbound :: bool
  pht_reply :: bool

section \<open>Sessions and transitions\<close>

record PointerSessionBinding =
  psb_generation :: ConnectionGeneration
  psb_local_host_id :: HostId
  psb_remote_host_id :: HostId
  psb_transport_identity :: TransportPeerIdentity
  psb_local_hello :: HelloV1
  psb_remote_hello :: HelloV1

definition from_current :: "CurrentAdmittedSession \<Rightarrow> PointerSessionBinding" where
  "from_current session =
     \<lparr>psb_generation = cas_generation session, psb_local_host_id = cas_local_host_id session,
      psb_remote_host_id = cas_remote_host_id session,
      psb_transport_identity = cas_transport_identity session,
      psb_local_hello = cas_local_hello session, psb_remote_hello = cas_remote_hello session\<rparr>"

datatype CoordinatorLifecycle = HandoffRunning | HandoffRevoked | HandoffShuttingDown

record ResolvedTransition =
  rt_source_display :: DisplayId
  rt_source_host :: HostId
  rt_source_edge :: Edge
  rt_destination_display :: DisplayId
  rt_destination_host :: HostId
  rt_destination_edge :: Edge
  rt_normalized_position :: f64
  rt_destination_pointer :: LogicalPointer

definition resolved_from :: "WorkspaceTransition \<Rightarrow> ResolvedTransition" where
  "resolved_from t =
     \<lparr>rt_source_display = wt_source_display t, rt_source_host = wt_source_host t,
      rt_source_edge = wt_source_edge t, rt_destination_display = wt_destination_display t,
      rt_destination_host = wt_destination_host t, rt_destination_edge = wt_destination_edge t,
      rt_normalized_position = wt_normalized_position t,
      rt_destination_pointer = \<lparr>lp_display_id = wt_destination_display t,
         lp_x = point_x (wt_destination_point t), lp_y = point_y (wt_destination_point t)\<rparr>\<rparr>"

section \<open>Messages\<close>

text \<open>
  Derived equality of a message with a coordinate compares the coordinate as a number, so the two
  zeros are equal and a NaN is not equal to itself.  Acknowledgements and commits carry none.
\<close>

definition leave_eq :: "PointerLeaveV1 \<Rightarrow> PointerLeaveV1 \<Rightarrow> bool" where
  "leave_eq a b \<longleftrightarrow> a = b\<lparr>leave_normalized_position := leave_normalized_position a\<rparr>
     \<and> f64_eq (leave_normalized_position a) (leave_normalized_position b)"

definition enter_eq :: "PointerEnterV1 \<Rightarrow> PointerEnterV1 \<Rightarrow> bool" where
  "enter_eq a b \<longleftrightarrow> a = b\<lparr>enter_normalized_position := enter_normalized_position a\<rparr>
     \<and> f64_eq (enter_normalized_position a) (enter_normalized_position b)"

definition pointer_eq :: "LogicalPointer \<Rightarrow> LogicalPointer \<Rightarrow> bool" where
  "pointer_eq a b \<longleftrightarrow> lp_display_id a = lp_display_id b \<and> f64_eq (lp_x a) (lp_x b) \<and> f64_eq (lp_y a) (lp_y b)"

fun edge_to_wire :: "Edge \<Rightarrow> WireEdge" where
  "edge_to_wire LeftEdge = WireLeft"
| "edge_to_wire RightEdge = WireRight"
| "edge_to_wire TopEdge = WireTop"
| "edge_to_wire BottomEdge = WireBottom"

fun edge_from_wire :: "WireEdge \<Rightarrow> Edge" where
  "edge_from_wire WireLeft = LeftEdge"
| "edge_from_wire WireRight = RightEdge"
| "edge_from_wire WireTop = TopEdge"
| "edge_from_wire WireBottom = BottomEdge"

definition make_leave :: "u64 \<Rightarrow> u64 \<Rightarrow> ResolvedTransition \<Rightarrow> PointerLeaveV1" where
  "make_leave transition_id workspace_epoch t =
     \<lparr>leave_transition_id = transition_id, leave_workspace_epoch = workspace_epoch,
      leave_sequence = transition_id, leave_source_host = rt_source_host t,
      leave_source_display = rt_source_display t, leave_edge = edge_to_wire (rt_source_edge t),
      leave_normalized_position = rt_normalized_position t\<rparr>"

definition make_enter :: "u64 \<Rightarrow> u64 \<Rightarrow> ResolvedTransition \<Rightarrow> PointerEnterV1" where
  "make_enter transition_id workspace_epoch t =
     \<lparr>enter_transition_id = transition_id, enter_workspace_epoch = workspace_epoch,
      enter_sequence = transition_id, enter_source_host = rt_source_host t,
      enter_destination_host = rt_destination_host t, enter_source_display = rt_source_display t,
      enter_destination_display = rt_destination_display t,
      enter_destination_edge = edge_to_wire (rt_destination_edge t),
      enter_normalized_position = rt_normalized_position t\<rparr>"

definition make_ack :: "PointerEnterV1 \<Rightarrow> HostId \<Rightarrow> PointerTransitionOutcomeV1 \<Rightarrow> PointerTransitionAckV1" where
  "make_ack enter receiver_host outcome =
     \<lparr>ack_transition_id = enter_transition_id enter, ack_workspace_epoch = enter_workspace_epoch enter,
      ack_receiver_host = receiver_host, ack_active_display = enter_destination_display enter,
      ack_outcome = outcome\<rparr>"

definition make_commit :: "PointerEnterV1 \<Rightarrow> ResolvedTransition \<Rightarrow> PointerTransitionCommitV1" where
  "make_commit enter t =
     \<lparr>commit_transition_id = enter_transition_id enter, commit_workspace_epoch = enter_workspace_epoch enter,
      commit_sequence = enter_transition_id enter, commit_source_host = rt_source_host t,
      commit_destination_host = rt_destination_host t, commit_source_display = rt_source_display t,
      commit_destination_display = rt_destination_display t\<rparr>"

datatype PointerControlMessage =
    ControlLeave PointerLeaveV1 | ControlEnter PointerEnterV1
  | ControlAck PointerTransitionAckV1 | ControlCommit PointerTransitionCommitV1

fun wire_message :: "PointerControlMessage \<Rightarrow> WireMessage" where
  "wire_message (ControlLeave m) = PointerLeave m"
| "wire_message (ControlEnter m) = PointerEnter m"
| "wire_message (ControlAck m) = PointerTransitionAck m"
| "wire_message (ControlCommit m) = PointerTransitionCommit m"

section \<open>State\<close>

datatype OutboundPhase = LeaveQueued | EnterQueued | AwaitingAck | CommitQueued | CommitDispatching

record PendingOutbound =
  po_session :: PointerSessionBinding
  po_transition_id :: u64
  po_deadline_ns :: u64
  po_leave :: PointerLeaveV1
  po_enter :: PointerEnterV1
  po_accepted_ack :: "PointerTransitionAckV1 option"
  po_transition :: ResolvedTransition
  po_phase :: OutboundPhase

text \<open>The arguments follow the field order of the source.\<close>

datatype PendingInbound =
    InboundHint (pending_session: PointerSessionBinding) (inbound_deadline_ns: u64) (pending_leave: PointerLeaveV1)
      PointerEnterV1 (inbound_transition: ResolvedTransition)
  | InboundProposal (pending_session: PointerSessionBinding) (inbound_deadline_ns: u64) (pending_leave: PointerLeaveV1)
      PointerEnterV1 PointerTransitionAckV1 (inbound_transition: ResolvedTransition)
  | InboundPrepared (pending_session: PointerSessionBinding) (inbound_deadline_ns: u64) (pending_leave: PointerLeaveV1)
      PointerEnterV1 PointerTransitionAckV1 PointerTransitionCommitV1 (inbound_transition: ResolvedTransition)

record CompletedOutbound =
  cob_session :: PointerSessionBinding
  cob_ack :: PointerTransitionAckV1

record CompletedInbound =
  cib_session :: PointerSessionBinding
  cib_expected_leave :: "PointerLeaveV1 option"
  cib_enter :: PointerEnterV1
  cib_ack :: PointerTransitionAckV1
  cib_commit :: "PointerTransitionCommitV1 option"

record ExpiredInbound =
  eib_session :: PointerSessionBinding
  eib_leave :: PointerLeaveV1
  eib_enter :: PointerEnterV1

datatype EffectPurpose =
  PurposeLeave | PurposeEnter | PurposeAcceptedAck | PurposeDuplicateAcceptedAck | PurposeRejectedAck | PurposeCommit

record PendingReply =
  pr_session :: PointerSessionBinding
  pr_transition_id :: u64
  pr_deadline_ns :: u64
  pr_purpose :: EffectPurpose
  pr_enter :: PointerEnterV1
  pr_message :: PointerControlMessage

text \<open>The shared allocation that identifies the coordinator of an effect is a number.\<close>

record CoreEffect =
  ef_owner :: nat
  ef_session :: PointerSessionBinding
  ef_transition_id :: u64
  ef_purpose :: EffectPurpose
  ef_message :: PointerControlMessage

datatype CoreEffectCompletion = EffectSent | AuthorityCommitted | EffectNext CoreEffect

datatype CoreAckOutcome = AckDuplicate | AckRejected | AckCommit CoreEffect

datatype 'x CoreDispatchError = DispatchHandoff handoff_error | DispatchOutbound 'x

datatype InboundSequence = SequenceDuplicate | SequenceNext

record CoordinatorCore =
  hc_owner :: nat
  hc_config :: PointerHandoffConfig
  hc_lifecycle :: CoordinatorLifecycle
  hc_session :: "PointerSessionBinding option"
  hc_session_healthy :: bool
  hc_workspace :: ConfiguredWorkspace
  hc_workspace_state :: WorkspaceState
  hc_local_fallback :: LogicalPointer
  hc_last_now_ns :: u64
  hc_last_outbound_sequence :: u64
  hc_last_inbound_sequence :: u64
  hc_outbound :: "PendingOutbound option"
  hc_inbound :: "PendingInbound option"
  hc_completed_outbound :: "CompletedOutbound option"
  hc_completed_inbound :: "CompletedInbound option"
  hc_expired_inbound :: "ExpiredInbound option"
  hc_reply :: "PendingReply option"

type_synonym 'a handoff = "(handoff_error, 'a) result \<times> CoordinatorCore"

text \<open>
  The question mark of the source: \<open>checked\<close> after a pure check, \<open>after\<close> after a step that returns
  the updated coordinator.  Both stop at the first error and keep the state reached so far.
\<close>

definition checked :: "(handoff_error, 'a) result \<Rightarrow> CoordinatorCore \<Rightarrow> ('a \<Rightarrow> 'b handoff) \<Rightarrow> 'b handoff" where
  "checked r c k = (case r of Inl e \<Rightarrow> (Inl e, c) | Inr x \<Rightarrow> k x)"

definition after :: "'a handoff \<Rightarrow> ('a \<Rightarrow> CoordinatorCore \<Rightarrow> 'b handoff) \<Rightarrow> 'b handoff" where
  "after r k = (case r of (Inl e, c) \<Rightarrow> (Inl e, c) | (Inr x, c) \<Rightarrow> k x c)"

section \<open>Shared steps\<close>

definition validate_local_fallback ::
  "HostId \<Rightarrow> ConfiguredWorkspace \<Rightarrow> LogicalPointer \<Rightarrow> (handoff_error, unit) result" where
  "validate_local_fallback host w fallback =
     (if host = nil_id \<or> \<not> f64_is_finite (lp_x fallback) \<or> \<not> f64_is_finite (lp_y fallback)
         \<or> owner_of w (lp_display_id fallback) \<noteq> Some host
         \<or> \<not> contains_local_point w (lp_display_id fallback) (Point_new (lp_x fallback) (lp_y fallback))
      then Inl HandoffInvalidWorkspaceState else Inr ())"

definition validate_state ::
  "ConfiguredWorkspace \<Rightarrow> WorkspaceState \<Rightarrow> LogicalPointer \<Rightarrow> (handoff_error, unit) result" where
  "validate_state w state fallback =
     (if lp_display_id (ws_pointer state) \<noteq> active_display state
         \<or> \<not> f64_is_finite (lp_x (ws_pointer state)) \<or> \<not> f64_is_finite (lp_y (ws_pointer state))
         \<or> owner_of w (active_display state) \<noteq> Some (active_host state)
         \<or> \<not> contains_local_point w (active_display state)
              (Point_new (lp_x (ws_pointer state)) (lp_y (ws_pointer state)))
      then Inl HandoffInvalidWorkspaceState
      else validate_local_fallback (local_host state) w fallback)"

definition CoordinatorCore_new ::
  "nat \<Rightarrow> PointerHandoffConfig \<Rightarrow> ConfiguredWorkspace \<Rightarrow> WorkspaceState \<Rightarrow> LogicalPointer
   \<Rightarrow> (handoff_error, CoordinatorCore) result" where
  "CoordinatorCore_new owner config w state fallback =
     and_then (validate_state w state fallback) (\<lambda>_.
       Inr \<lparr>hc_owner = owner, hc_config = config, hc_lifecycle = HandoffRunning, hc_session = None,
            hc_session_healthy = False, hc_workspace = w, hc_workspace_state = state,
            hc_local_fallback = fallback, hc_last_now_ns = 0, hc_last_outbound_sequence = 0,
            hc_last_inbound_sequence = 0, hc_outbound = None, hc_inbound = None,
            hc_completed_outbound = None, hc_completed_inbound = None, hc_expired_inbound = None,
            hc_reply = None\<rparr>)"

definition has_local_authority :: "CoordinatorCore \<Rightarrow> bool" where
  "has_local_authority c \<longleftrightarrow>
     active_host (hc_workspace_state c) = local_host (hc_workspace_state c)
     \<and> \<not> (case hc_outbound c of None \<Rightarrow> False | Some pending \<Rightarrow> po_phase pending = CommitDispatching)"

definition next_deadline_ns :: "CoordinatorCore \<Rightarrow> u64 option" where
  "next_deadline_ns c =
     iter_min ((case hc_outbound c of None \<Rightarrow> [] | Some p \<Rightarrow> [po_deadline_ns p])
       @ (case hc_inbound c of None \<Rightarrow> [] | Some p \<Rightarrow> [inbound_deadline_ns p])
       @ (case hc_reply c of None \<Rightarrow> [] | Some r \<Rightarrow> [pr_deadline_ns r]))"

definition fail_local :: "CoordinatorCore \<Rightarrow> CoordinatorCore" where
  "fail_local c = c\<lparr>hc_workspace_state :=
     set_active_pointer (local_host (hc_workspace_state c)) (hc_local_fallback c) (hc_workspace_state c)\<rparr>"

definition clear_transition_state :: "CoordinatorCore \<Rightarrow> CoordinatorCore" where
  "clear_transition_state c = c\<lparr>hc_outbound := None, hc_inbound := None, hc_completed_outbound := None,
     hc_completed_inbound := None, hc_expired_inbound := None, hc_reply := None\<rparr>"

definition ensure_running :: "CoordinatorCore \<Rightarrow> (handoff_error, unit) result" where
  "ensure_running c = ensure (hc_lifecycle c = HandoffRunning) HandoffUnavailable"

definition require_session :: "PointerSessionBinding \<Rightarrow> CoordinatorCore \<Rightarrow> (handoff_error, unit) result" where
  "require_session session c =
     (case hc_session c of
        None \<Rightarrow> Inl HandoffNoCurrentSession
      | Some current \<Rightarrow> if current \<noteq> session then Inl HandoffStaleSession else Inr ())"

definition require_available_session :: "PointerSessionBinding \<Rightarrow> CoordinatorCore \<Rightarrow> (handoff_error, unit) result" where
  "require_available_session session c =
     and_then (ensure_running c) (\<lambda>_.
     and_then (require_session session c) (\<lambda>_.
       ensure (hc_session_healthy c) HandoffUnavailable))"

definition deadline :: "u64 \<Rightarrow> CoordinatorCore \<Rightarrow> (handoff_error, u64) result" where
  "deadline now c =
     (if 2 ^ 64 \<le> phc_timeout (hc_config c) then Inl HandoffInvalidConfig
      else case checked_add_u64 now (of_nat (phc_timeout (hc_config c))) of
        None \<Rightarrow> Inl HandoffClockOverflow
      | Some d \<Rightarrow> Inr d)"

definition advance_clock :: "u64 \<Rightarrow> CoordinatorCore \<Rightarrow> unit handoff" where
  "advance_clock now c =
     (if now < hc_last_now_ns c then (Inl HandoffClockRegressed, c)
      else (Inr (), c\<lparr>hc_last_now_ns := now\<rparr>))"

fun expired_from :: "PendingInbound \<Rightarrow> ExpiredInbound" where
  "expired_from (InboundHint s _ leave enter _) = \<lparr>eib_session = s, eib_leave = leave, eib_enter = enter\<rparr>"
| "expired_from (InboundProposal s _ leave enter _ _) = \<lparr>eib_session = s, eib_leave = leave, eib_enter = enter\<rparr>"
| "expired_from (InboundPrepared s _ leave enter _ _ _) = \<lparr>eib_session = s, eib_leave = leave, eib_enter = enter\<rparr>"

definition expire_inbound :: "PendingInbound \<Rightarrow> CoordinatorCore \<Rightarrow> CoordinatorCore" where
  "expire_inbound pending c =
     (let c = c\<lparr>hc_inbound := None\<rparr>;
          c = (case pending of
                 InboundHint _ _ leave _ _ \<Rightarrow> c\<lparr>hc_last_inbound_sequence := leave_transition_id leave\<rparr>
               | _ \<Rightarrow> c)
      in c\<lparr>hc_expired_inbound := Some (expired_from pending)\<rparr>)"

definition expire :: "u64 \<Rightarrow> CoordinatorCore \<Rightarrow> PointerHandoffTimeouts \<times> CoordinatorCore" where
  "expire now c =
     (let outbound = (case hc_outbound c of None \<Rightarrow> False | Some p \<Rightarrow> po_deadline_ns p \<le> now);
          inbound = (case hc_inbound c of None \<Rightarrow> False | Some p \<Rightarrow> inbound_deadline_ns p \<le> now);
          reply = (case hc_reply c of None \<Rightarrow> False | Some p \<Rightarrow> pr_deadline_ns p \<le> now);
          c = (if outbound then c\<lparr>hc_outbound := None\<rparr> else c);
          c = (if inbound then (case hc_inbound c of None \<Rightarrow> c | Some p \<Rightarrow> expire_inbound p c) else c);
          c = (if reply then c\<lparr>hc_reply := None\<rparr> else c);
          c = (if outbound then fail_local c else c)
      in (\<lparr>pht_outbound = outbound, pht_inbound = inbound, pht_reply = reply\<rparr>, c))"

definition prepare_operation :: "u64 \<Rightarrow> CoordinatorCore \<Rightarrow> unit handoff" where
  "prepare_operation now c = after (advance_clock now c) (\<lambda>_ c. (Inr (), snd (expire now c)))"

definition poll_timeout :: "u64 \<Rightarrow> CoordinatorCore \<Rightarrow> PointerHandoffTimeouts handoff" where
  "poll_timeout now c =
     after (advance_clock now c) (\<lambda>_ c. let (timeouts, c) = expire now c in (Inr timeouts, c))"

definition sequence_relation_error :: "u64 \<Rightarrow> u64 \<Rightarrow> handoff_error" where
  "sequence_relation_error received current =
     (if received = 0 then HandoffInvalidSequence
      else if received \<le> current then HandoffStaleSequence else HandoffFutureSequence)"

definition classify_inbound_sequence :: "u64 \<Rightarrow> u64 \<Rightarrow> CoordinatorCore \<Rightarrow> InboundSequence handoff" where
  "classify_inbound_sequence transition_id sequence c =
     (if transition_id = 0 \<or> transition_id \<noteq> sequence then (Inl HandoffInvalidSequence, c)
      else if transition_id = hc_last_inbound_sequence c then (Inr SequenceDuplicate, c)
      else case checked_add_u64 (hc_last_inbound_sequence c) 1 of
        None \<Rightarrow> (Inl HandoffSequenceExhausted, clear_transition_state c)
      | Some expected \<Rightarrow>
          (if transition_id < expected then Inl HandoffStaleSequence
           else if expected < transition_id then Inl HandoffFutureSequence
           else Inr SequenceNext, c))"

definition next_outbound_sequence :: "CoordinatorCore \<Rightarrow> u64 handoff" where
  "next_outbound_sequence c =
     (case checked_add_u64 (hc_last_outbound_sequence c) 1 of
        None \<Rightarrow> (Inl HandoffSequenceExhausted, fail_local c)
      | Some n \<Rightarrow> (Inr n, c))"

definition make_effect ::
  "PointerSessionBinding \<Rightarrow> u64 \<Rightarrow> EffectPurpose \<Rightarrow> PointerControlMessage \<Rightarrow> CoordinatorCore \<Rightarrow> CoreEffect" where
  "make_effect session transition_id purpose message c =
     \<lparr>ef_owner = hc_owner c, ef_session = session, ef_transition_id = transition_id,
      ef_purpose = purpose, ef_message = message\<rparr>"

definition validate_effect_owner :: "CoreEffect \<Rightarrow> CoordinatorCore \<Rightarrow> (handoff_error, unit) result" where
  "validate_effect_owner effect c = ensure (hc_owner c = ef_owner effect) HandoffInvalidEffect"

definition matches_outbound_effect :: "CoreEffect \<Rightarrow> CoordinatorCore \<Rightarrow> bool" where
  "matches_outbound_effect effect c =
     (case hc_outbound c of
        None \<Rightarrow> False
      | Some pending \<Rightarrow>
          po_session pending = ef_session effect \<and> po_transition_id pending = ef_transition_id effect
          \<and> (case (po_phase pending, ef_purpose effect, ef_message effect) of
               (LeaveQueued, PurposeLeave, ControlLeave m) \<Rightarrow> leave_eq m (po_leave pending)
             | (EnterQueued, PurposeEnter, ControlEnter m) \<Rightarrow> enter_eq m (po_enter pending)
             | (CommitQueued, PurposeCommit, ControlCommit m) \<Rightarrow>
                 m = make_commit (po_enter pending) (po_transition pending)
             | (CommitDispatching, PurposeCommit, ControlCommit m) \<Rightarrow>
                 m = make_commit (po_enter pending) (po_transition pending)
             | _ \<Rightarrow> False))"

definition matches_inbound_ack_effect :: "CoreEffect \<Rightarrow> CoordinatorCore \<Rightarrow> bool" where
  "matches_inbound_ack_effect effect c =
     (case hc_inbound c of
        Some (InboundProposal session _ _ enter ack _) \<Rightarrow>
          session = ef_session effect \<and> enter_transition_id enter = ef_transition_id effect
          \<and> ef_message effect = ControlAck ack
      | _ \<Rightarrow> False)"

definition matches_reply_effect :: "CoreEffect \<Rightarrow> CoordinatorCore \<Rightarrow> bool" where
  "matches_reply_effect effect c =
     (case hc_reply c of
        None \<Rightarrow> False
      | Some reply \<Rightarrow>
          pr_session reply = ef_session effect \<and> pr_transition_id reply = ef_transition_id effect
          \<and> pr_purpose reply = ef_purpose effect
          \<and> (case (pr_message reply, ef_message effect) of
               (ControlAck expected, ControlAck actual) \<Rightarrow> expected = actual
             | _ \<Rightarrow> False))"

definition validate_effect_ready :: "CoreEffect \<Rightarrow> u64 \<Rightarrow> CoordinatorCore \<Rightarrow> unit handoff" where
  "validate_effect_ready effect now c =
     after (prepare_operation now c) (\<lambda>_ c.
     checked (validate_effect_owner effect c) c (\<lambda>_.
     checked (require_available_session (ef_session effect) c) c (\<lambda>_.
       let matches =
         (case ef_purpose effect of
            PurposeLeave \<Rightarrow> matches_outbound_effect effect c
          | PurposeEnter \<Rightarrow> matches_outbound_effect effect c
          | PurposeAcceptedAck \<Rightarrow> matches_inbound_ack_effect effect c
          | PurposeCommit \<Rightarrow>
              matches_outbound_effect effect c
              \<and> (case hc_outbound c of None \<Rightarrow> False | Some p \<Rightarrow> po_phase p = CommitQueued)
          | PurposeDuplicateAcceptedAck \<Rightarrow> matches_reply_effect effect c
          | PurposeRejectedAck \<Rightarrow> matches_reply_effect effect c)
       in (ensure matches HandoffStaleEffect, c))))"

section \<open>Sessions, workspaces and life cycle\<close>

definition bind_session :: "PointerSessionBinding \<Rightarrow> CoordinatorCore \<Rightarrow> PointerHandoffStatus handoff" where
  "bind_session session c =
     checked (ensure_running c) c (\<lambda>_.
     if psb_local_host_id session \<noteq> local_host (hc_workspace_state c)
        \<or> psb_remote_host_id session = local_host (hc_workspace_state c)
     then (Inl HandoffInvalidHost, c)
     else if hc_session c = Some session then (Inr HandoffDuplicate, c)
     else
       let c = (if hc_session c \<noteq> None then clear_transition_state (fail_local c) else c) in
       (Inr HandoffApplied, c\<lparr>hc_session := Some session, hc_session_healthy := True,
          hc_last_outbound_sequence := 0, hc_last_inbound_sequence := 0\<rparr>))"

definition mark_session_healthy :: "PointerSessionBinding \<Rightarrow> CoordinatorCore \<Rightarrow> PointerHandoffStatus handoff" where
  "mark_session_healthy session c =
     checked (ensure_running c) c (\<lambda>_.
     checked (require_session session c) c (\<lambda>_.
     if hc_session_healthy c then (Inr HandoffDuplicate, c)
     else (Inr HandoffApplied, c\<lparr>hc_session_healthy := True\<rparr>)))"

definition degrade_session :: "PointerSessionBinding \<Rightarrow> CoordinatorCore \<Rightarrow> PointerHandoffStatus handoff" where
  "degrade_session session c =
     checked (require_session session c) c (\<lambda>_.
       let changed = (hc_session_healthy c \<or> hc_outbound c \<noteq> None \<or> hc_inbound c \<noteq> None) in
       (Inr (if changed then HandoffCleared else HandoffDuplicate),
        clear_transition_state (fail_local (c\<lparr>hc_session_healthy := False\<rparr>))))"

definition disconnect_session :: "PointerSessionBinding \<Rightarrow> CoordinatorCore \<Rightarrow> PointerHandoffStatus handoff" where
  "disconnect_session session c =
     checked (require_session session c) c (\<lambda>_.
       (Inr HandoffCleared,
        (clear_transition_state (fail_local c))\<lparr>hc_session := None, hc_session_healthy := False\<rparr>))"

definition replace_workspace ::
  "ConfiguredWorkspace \<Rightarrow> LogicalPointer \<Rightarrow> CoordinatorCore \<Rightarrow> PointerHandoffStatus handoff" where
  "replace_workspace w fallback c =
     checked (ensure_running c) c (\<lambda>_.
     if cw_epoch w \<le> cw_epoch (hc_workspace c) then (Inl HandoffInvalidWorkspaceEpoch, c)
     else
       checked (validate_local_fallback (local_host (hc_workspace_state c)) w fallback) c (\<lambda>_.
         (Inr HandoffCleared,
          clear_transition_state (fail_local (c\<lparr>hc_workspace := w, hc_local_fallback := fallback\<rparr>)))))"

definition handoff_stop :: "CoordinatorLifecycle \<Rightarrow> CoordinatorCore \<Rightarrow> PointerHandoffStatus \<times> CoordinatorCore" where
  "handoff_stop lifecycle c =
     (HandoffCleared, (clear_transition_state (fail_local c))\<lparr>hc_session := None,
        hc_session_healthy := False, hc_lifecycle := lifecycle\<rparr>)"

definition handoff_revoke :: "CoordinatorCore \<Rightarrow> PointerHandoffStatus \<times> CoordinatorCore" where
  "handoff_revoke c = handoff_stop HandoffRevoked c"

definition handoff_shutdown :: "CoordinatorCore \<Rightarrow> PointerHandoffStatus \<times> CoordinatorCore" where
  "handoff_shutdown c = handoff_stop HandoffShuttingDown c"

section \<open>The giving side\<close>

definition resolve_transition ::
  "ConfiguredWorkspace \<Rightarrow> DisplayId \<Rightarrow> Edge \<Rightarrow> f64 \<Rightarrow> (handoff_error, ResolvedTransition) result" where
  "resolve_transition w d edge position =
     (case configured_transition w d edge position of
        Inl _ \<Rightarrow> Inl HandoffInvalidTransition
      | Inr t \<Rightarrow> Inr (resolved_from t))"

definition propose_leave ::
  "PointerSessionBinding \<Rightarrow> Edge \<Rightarrow> f64 \<Rightarrow> u64 \<Rightarrow> CoordinatorCore \<Rightarrow> CoreEffect handoff" where
  "propose_leave session source_edge position now c =
     after (prepare_operation now c) (\<lambda>_ c.
     checked (require_available_session session c) c (\<lambda>_.
     if hc_outbound c \<noteq> None \<or> hc_inbound c \<noteq> None then (Inl HandoffPendingConflict, c)
     else if \<not> has_local_authority c
             \<or> active_display (hc_workspace_state c) \<noteq> lp_display_id (ws_pointer (hc_workspace_state c))
     then (Inl HandoffNotAuthoritative, c)
     else
       checked (resolve_transition (hc_workspace c) (active_display (hc_workspace_state c)) source_edge position) c
         (\<lambda>transition.
       if rt_source_host transition \<noteq> local_host (hc_workspace_state c)
          \<or> rt_destination_host transition \<noteq> psb_remote_host_id session
       then (Inl HandoffNotRemoteTransition, c)
       else
         after (next_outbound_sequence c) (\<lambda>transition_id c.
         checked (deadline now c) c (\<lambda>deadline_ns.
           let leave = make_leave transition_id (cw_protocol_epoch (hc_workspace c)) transition;
               enter = make_enter transition_id (cw_protocol_epoch (hc_workspace c)) transition;
               c = c\<lparr>hc_last_outbound_sequence := transition_id,
                     hc_outbound := Some \<lparr>po_session = session, po_transition_id = transition_id,
                       po_deadline_ns = deadline_ns, po_leave = leave, po_enter = enter,
                       po_accepted_ack = None, po_transition = transition, po_phase = LeaveQueued\<rparr>\<rparr>
           in (Inr (make_effect session transition_id PurposeLeave (ControlLeave leave) c), c))))))"

definition observe_local_pointer :: "LogicalPointer \<Rightarrow> CoordinatorCore \<Rightarrow> PointerHandoffStatus handoff" where
  "observe_local_pointer pointer c =
     checked (ensure_running c) c (\<lambda>_.
     if \<not> has_local_authority c then (Inl HandoffNotAuthoritative, c)
     else if hc_outbound c \<noteq> None \<or> hc_inbound c \<noteq> None \<or> hc_reply c \<noteq> None
     then (Inl HandoffPendingConflict, c)
     else if owner_of (hc_workspace c) (lp_display_id pointer) \<noteq> Some (local_host (hc_workspace_state c))
             \<or> \<not> contains_local_point (hc_workspace c) (lp_display_id pointer) (pointer_position pointer)
     then (Inl HandoffInvalidWorkspaceState, c)
     else if pointer_eq (ws_pointer (hc_workspace_state c)) pointer then (Inr HandoffDuplicate, c)
     else (Inr HandoffApplied, c\<lparr>hc_workspace_state :=
             set_active_pointer (local_host (hc_workspace_state c)) pointer (hc_workspace_state c)\<rparr>))"

text \<open>The completed transition that a repeated acknowledgement or commit names.\<close>

definition completed_ack :: "PointerTransitionAckV1 \<Rightarrow> CoordinatorCore \<Rightarrow> CompletedOutbound option" where
  "completed_ack ack c =
     (case hc_completed_outbound c of
        Some completed \<Rightarrow>
          if ack_transition_id ack = ack_transition_id (cob_ack completed) then Some completed else None
      | None \<Rightarrow> None)"

definition receive_ack ::
  "PointerSessionBinding \<Rightarrow> PointerTransitionAckV1 \<Rightarrow> u64 \<Rightarrow> CoordinatorCore \<Rightarrow> CoreAckOutcome handoff" where
  "receive_ack session ack now c =
     after (prepare_operation now c) (\<lambda>_ c.
     checked (require_available_session session c) c (\<lambda>_.
     case completed_ack ack c of
       Some completed \<Rightarrow>
         (if cob_session completed = session \<and> cob_ack completed = ack then Inr AckDuplicate
          else Inl HandoffConflictingReplay, c)
     | None \<Rightarrow>
     (case hc_outbound c of
        None \<Rightarrow> (Inl (sequence_relation_error (ack_transition_id ack) (hc_last_outbound_sequence c)), c)
      | Some pending \<Rightarrow>
        if ack_transition_id ack \<noteq> po_transition_id pending
        then (Inl (sequence_relation_error (ack_transition_id ack) (po_transition_id pending)), c)
        else if po_session pending \<noteq> session \<or> po_phase pending \<noteq> AwaitingAck
        then (Inl HandoffStaleEffect, c)
        else if ack_workspace_epoch ack \<noteq> enter_workspace_epoch (po_enter pending)
                \<or> ack_receiver_host ack \<noteq> rt_destination_host (po_transition pending)
                \<or> ack_active_display ack \<noteq> enter_destination_display (po_enter pending)
        then (Inl HandoffConflictingReplay, (fail_local c)\<lparr>hc_outbound := None\<rparr>)
        else if ack_outcome ack \<noteq> Accepted
        then (Inr AckRejected, (fail_local (c\<lparr>hc_outbound := None\<rparr>))\<lparr>hc_completed_outbound :=
                Some \<lparr>cob_session = session, cob_ack = ack\<rparr>\<rparr>)
        else
          let commit = make_commit (po_enter pending) (po_transition pending);
              c = c\<lparr>hc_outbound := Some (pending\<lparr>po_phase := CommitQueued, po_accepted_ack := Some ack\<rparr>)\<rparr>
          in (Inr (AckCommit (make_effect (po_session pending) (po_transition_id pending) PurposeCommit
                     (ControlCommit commit) c)), c))))"

section \<open>The receiving side\<close>

definition validate_leave_authority ::
  "PointerSessionBinding \<Rightarrow> PointerLeaveV1 \<Rightarrow> CoordinatorCore \<Rightarrow> (handoff_error, unit) result" where
  "validate_leave_authority session m c =
     (if leave_workspace_epoch m \<noteq> cw_protocol_epoch (hc_workspace c) then Inl HandoffInvalidWorkspaceEpoch
      else if leave_source_host m \<noteq> psb_remote_host_id session then Inl HandoffInvalidHost
      else
        let remote_is_authoritative =
              (active_host (hc_workspace_state c) = psb_remote_host_id session
               \<and> owner_of (hc_workspace c) (leave_source_display m) = Some (psb_remote_host_id session))
        in if \<not> remote_is_authoritative \<and> \<not> has_local_authority c then Inl HandoffNotAuthoritative
           else Inr ())"

definition validate_enter_authority ::
  "PointerSessionBinding \<Rightarrow> PointerEnterV1 \<Rightarrow> CoordinatorCore \<Rightarrow> (handoff_error, unit) result" where
  "validate_enter_authority session m c =
     (if enter_workspace_epoch m \<noteq> cw_protocol_epoch (hc_workspace c) then Inl HandoffInvalidWorkspaceEpoch
      else if enter_source_host m \<noteq> psb_remote_host_id session
              \<or> enter_destination_host m \<noteq> local_host (hc_workspace_state c)
      then Inl HandoffInvalidHost
      else if owner_of (hc_workspace c) (enter_source_display m) \<noteq> Some (psb_remote_host_id session)
              \<or> owner_of (hc_workspace c) (enter_destination_display m) \<noteq> Some (local_host (hc_workspace_state c))
      then Inl HandoffInvalidDisplay
      else
        let remote_is_authoritative =
              (active_host (hc_workspace_state c) = psb_remote_host_id session
               \<and> owner_of (hc_workspace c) (enter_source_display m) = Some (psb_remote_host_id session))
        in if \<not> remote_is_authoritative \<and> \<not> has_local_authority c then Inl HandoffNotAuthoritative
           else Inr ())"

definition validate_resolved_destination ::
  "ResolvedTransition \<Rightarrow> CoordinatorCore \<Rightarrow> (handoff_error, unit) result" where
  "validate_resolved_destination t c =
     (case hc_session c of
        None \<Rightarrow> Inl HandoffNoCurrentSession
      | Some session \<Rightarrow>
          if rt_source_host t \<noteq> psb_remote_host_id session
             \<or> rt_destination_host t \<noteq> local_host (hc_workspace_state c)
          then Inl HandoffNotRemoteTransition else Inr ())"

definition resolve_leave :: "PointerLeaveV1 \<Rightarrow> CoordinatorCore \<Rightarrow> (handoff_error, ResolvedTransition) result" where
  "resolve_leave m c =
     and_then (resolve_transition (hc_workspace c) (leave_source_display m) (edge_from_wire (leave_edge m))
                 (leave_normalized_position m)) (\<lambda>t.
     and_then (validate_resolved_destination t c) (\<lambda>_. Inr t))"

text \<open>\<open>None\<close> is the early return when a second edge matches.\<close>

fun match_edges ::
  "PointerEnterV1 \<Rightarrow> ConfiguredWorkspace \<Rightarrow> Edge list \<Rightarrow> ResolvedTransition option \<Rightarrow> ResolvedTransition option option" where
  "match_edges m w [] matched = Some matched"
| "match_edges m w (edge # edges) matched =
     (case configured_transition w (enter_source_display m) edge (enter_normalized_position m) of
        Inl _ \<Rightarrow> match_edges m w edges matched
      | Inr t \<Rightarrow>
          let candidate = resolved_from t in
          if rt_destination_display candidate = enter_destination_display m
             \<and> edge_to_wire (rt_destination_edge candidate) = enter_destination_edge m
             \<and> rt_destination_host candidate = enter_destination_host m
             \<and> rt_source_host candidate = enter_source_host m
          then (if matched \<noteq> None then None else match_edges m w edges (Some candidate))
          else match_edges m w edges matched)"

definition resolve_enter :: "PointerEnterV1 \<Rightarrow> CoordinatorCore \<Rightarrow> (handoff_error, ResolvedTransition) result" where
  "resolve_enter m c =
     (case match_edges m (hc_workspace c) EDGES None of
        Some (Some t) \<Rightarrow> and_then (validate_resolved_destination t c) (\<lambda>_. Inr t)
      | _ \<Rightarrow> Inl HandoffInvalidTransition)"

definition accept_enter ::
  "PointerSessionBinding \<Rightarrow> PointerEnterV1 \<Rightarrow> ResolvedTransition \<Rightarrow> u64 \<Rightarrow> CoordinatorCore
   \<Rightarrow> CoreEffect \<times> CoordinatorCore" where
  "accept_enter session m t deadline_ns c =
     (let expected_leave = make_leave (enter_transition_id m) (cw_protocol_epoch (hc_workspace c)) t;
          ack = make_ack m (local_host (hc_workspace_state c)) Accepted;
          c = c\<lparr>hc_last_inbound_sequence := enter_transition_id m,
                hc_inbound := Some (InboundProposal session deadline_ns expected_leave m ack t)\<rparr>
      in (make_effect session (enter_transition_id m) PurposeAcceptedAck (ControlAck ack) c, c))"

definition accept_enter_from_hint ::
  "PointerSessionBinding \<Rightarrow> PointerEnterV1 \<Rightarrow> CoordinatorCore \<Rightarrow> CoreEffect handoff" where
  "accept_enter_from_hint session m c =
     (case hc_inbound c of
        Some (InboundHint s deadline_ns leave expected_enter t) \<Rightarrow>
          (if s \<noteq> session \<or> \<not> enter_eq expected_enter m then (Inl HandoffConflictingReplay, c)
           else let (effect, c) = accept_enter session m t deadline_ns (c\<lparr>hc_inbound := None\<rparr>) in (Inr effect, c))
      | _ \<Rightarrow> (Inl HandoffInvalidTransition, c\<lparr>hc_inbound := None\<rparr>))"

definition rejection_effect ::
  "PointerSessionBinding \<Rightarrow> PointerEnterV1 \<Rightarrow> PointerTransitionOutcomeV1 \<Rightarrow> CoordinatorCore \<Rightarrow> CoreEffect handoff" where
  "rejection_effect session enter outcome c =
     (if hc_reply c \<noteq> None then (Inl HandoffPendingConflict, c)
      else
        let ack = make_ack enter (local_host (hc_workspace_state c)) outcome in
        case deadline (hc_last_now_ns c) c of
          Inl e \<Rightarrow> (Inl e, clear_transition_state c)
        | Inr deadline_ns \<Rightarrow>
            let c = c\<lparr>hc_last_inbound_sequence := enter_transition_id enter, hc_inbound := None\<rparr>;
                effect = make_effect session (enter_transition_id enter) PurposeRejectedAck (ControlAck ack) c
            in (Inr effect, c\<lparr>hc_reply := Some \<lparr>pr_session = session, pr_transition_id = enter_transition_id enter,
                  pr_deadline_ns = deadline_ns, pr_purpose = PurposeRejectedAck, pr_enter = enter,
                  pr_message = ControlAck ack\<rparr>\<rparr>))"

definition duplicate_leave ::
  "PointerSessionBinding \<Rightarrow> PointerLeaveV1 \<Rightarrow> CoordinatorCore \<Rightarrow> (handoff_error, PointerHandoffStatus) result" where
  "duplicate_leave session m c =
     (let matches_pending = (case hc_inbound c of None \<Rightarrow> False
            | Some pending \<Rightarrow> pending_session pending = session \<and> leave_eq (pending_leave pending) m);
          matches_completed = (case hc_completed_inbound c of None \<Rightarrow> False
            | Some completed \<Rightarrow> cib_session completed = session
                \<and> (case cib_expected_leave completed of None \<Rightarrow> False | Some l \<Rightarrow> leave_eq l m));
          matches_expired = (case hc_expired_inbound c of None \<Rightarrow> False
            | Some expired \<Rightarrow> eib_session expired = session \<and> leave_eq (eib_leave expired) m)
      in if matches_pending \<or> matches_completed \<or> matches_expired then Inr HandoffDuplicate
         else Inl HandoffConflictingReplay)"

definition answer_again ::
  "PointerSessionBinding \<Rightarrow> PointerEnterV1 \<Rightarrow> PointerTransitionAckV1 \<Rightarrow> CoordinatorCore \<Rightarrow> CoreEffect handoff" where
  "answer_again session m ack c =
     (let effect = make_effect session (enter_transition_id m) PurposeDuplicateAcceptedAck (ControlAck ack) c in
      checked (deadline (hc_last_now_ns c) c) c (\<lambda>deadline_ns.
        (Inr effect, c\<lparr>hc_reply := Some \<lparr>pr_session = session, pr_transition_id = enter_transition_id m,
           pr_deadline_ns = deadline_ns, pr_purpose = PurposeDuplicateAcceptedAck, pr_enter = m,
           pr_message = ControlAck ack\<rparr>\<rparr>)))"

definition prepared_answer :: "PointerSessionBinding \<Rightarrow> PointerEnterV1 \<Rightarrow> CoordinatorCore \<Rightarrow> PointerTransitionAckV1 option" where
  "prepared_answer session m c =
     (case hc_inbound c of
        Some (InboundPrepared s _ _ enter ack _ _) \<Rightarrow> if s = session \<and> enter_eq enter m then Some ack else None
      | _ \<Rightarrow> None)"

definition duplicate_enter :: "PointerSessionBinding \<Rightarrow> PointerEnterV1 \<Rightarrow> CoordinatorCore \<Rightarrow> CoreEffect handoff" where
  "duplicate_enter session m c =
     (if (case hc_expired_inbound c of None \<Rightarrow> False
          | Some expired \<Rightarrow> eib_session expired = session \<and> enter_eq (eib_enter expired) m)
      then (Inl HandoffStaleEffect, c)
      else if (case hc_inbound c of
                 Some (InboundProposal s _ _ enter _ _) \<Rightarrow> s = session \<and> enter_eq enter m
               | _ \<Rightarrow> False)
      then (Inl HandoffStaleEffect, c)
      else case prepared_answer session m c of
        Some ack \<Rightarrow> answer_again session m ack c
      | None \<Rightarrow>
        (case hc_completed_inbound c of
           Some completed \<Rightarrow>
             if cib_session completed = session \<and> enter_eq (cib_enter completed) m
             then (if hc_reply c \<noteq> None then (Inl HandoffPendingConflict, c)
                   else answer_again session m (cib_ack completed) c)
             else (Inl HandoffConflictingReplay, c)
         | None \<Rightarrow> (Inl HandoffConflictingReplay, c)))"

definition receive_leave ::
  "PointerSessionBinding \<Rightarrow> PointerLeaveV1 \<Rightarrow> u64 \<Rightarrow> CoordinatorCore \<Rightarrow> PointerHandoffStatus handoff" where
  "receive_leave session m now c =
     after (prepare_operation now c) (\<lambda>_ c.
     checked (require_available_session session c) c (\<lambda>_.
     if hc_reply c \<noteq> None then (Inl HandoffPendingConflict, c)
     else
       after (classify_inbound_sequence (leave_transition_id m) (leave_sequence m) c) (\<lambda>relation c.
       case relation of
         SequenceDuplicate \<Rightarrow> (duplicate_leave session m c, c)
       | SequenceNext \<Rightarrow>
         if hc_outbound c \<noteq> None then (Inl HandoffPendingConflict, c)
         else (case hc_inbound c of
             Some pending \<Rightarrow>
               (if leave_eq (pending_leave pending) m then Inr HandoffDuplicate
                else Inl HandoffConflictingReplay, c)
           | None \<Rightarrow>
               checked (validate_leave_authority session m c) c (\<lambda>_.
               checked (resolve_leave m c) c (\<lambda>t.
               let expected_enter = make_enter (leave_transition_id m) (cw_protocol_epoch (hc_workspace c)) t in
               checked (deadline now c) c (\<lambda>deadline_ns.
                 (Inr HandoffApplied,
                  c\<lparr>hc_inbound := Some (InboundHint session deadline_ns m expected_enter t)\<rparr>))))))))"

fun refused_outcome :: "handoff_error \<Rightarrow> PointerTransitionOutcomeV1" where
  "refused_outcome HandoffInvalidWorkspaceEpoch = StaleWorkspaceEpoch"
| "refused_outcome HandoffInvalidDisplay = UnknownDisplay"
| "refused_outcome HandoffNotAuthoritative = NotAuthoritative"
| "refused_outcome HandoffInvalidHost = NotAuthoritative"
| "refused_outcome _ = RejectedTransition"

definition receive_enter ::
  "PointerSessionBinding \<Rightarrow> PointerEnterV1 \<Rightarrow> u64 \<Rightarrow> CoordinatorCore \<Rightarrow> CoreEffect handoff" where
  "receive_enter session m now c =
     after (prepare_operation now c) (\<lambda>_ c.
     checked (require_available_session session c) c (\<lambda>_.
     case hc_reply c of
       Some reply \<Rightarrow>
         (Inl (if pr_session reply = session \<and> enter_eq (pr_enter reply) m then HandoffStaleEffect
               else HandoffPendingConflict), c)
     | None \<Rightarrow>
       after (classify_inbound_sequence (enter_transition_id m) (enter_sequence m) c) (\<lambda>relation c.
       case relation of
         SequenceDuplicate \<Rightarrow> duplicate_enter session m c
       | SequenceNext \<Rightarrow>
         if hc_outbound c \<noteq> None then rejection_effect session m RejectedTransition c
         else (case hc_inbound c of
             Some pending \<Rightarrow>
               (if (case pending of InboundHint s _ _ expected_enter _ \<Rightarrow> s = session \<and> enter_eq expected_enter m
                    | _ \<Rightarrow> False)
                then accept_enter_from_hint session m c
                else if (case pending of InboundProposal s _ _ enter _ _ \<Rightarrow> s = session \<and> enter_eq enter m
                         | _ \<Rightarrow> False)
                then (Inl HandoffStaleEffect, c)
                else rejection_effect session m RejectedTransition c)
           | None \<Rightarrow>
               (case validate_enter_authority session m c of
                  Inl e \<Rightarrow> rejection_effect session m (refused_outcome e) c
                | Inr _ \<Rightarrow>
                  (case resolve_enter m c of
                     Inl e \<Rightarrow> rejection_effect session m
                                (if e = HandoffInvalidDisplay then UnknownDisplay else RejectedTransition) c
                   | Inr t \<Rightarrow>
                       checked (deadline now c) c (\<lambda>deadline_ns.
                         let (effect, c) = accept_enter session m t deadline_ns c in (Inr effect, c))))))))"

definition completed_commit :: "PointerTransitionCommitV1 \<Rightarrow> CoordinatorCore \<Rightarrow> CompletedInbound option" where
  "completed_commit commit c =
     (case hc_completed_inbound c of
        Some completed \<Rightarrow>
          (case cib_commit completed of
             Some previous \<Rightarrow>
               if commit_transition_id previous = commit_transition_id commit then Some completed else None
           | None \<Rightarrow> None)
      | None \<Rightarrow> None)"

definition apply_commit ::
  "PointerSessionBinding \<Rightarrow> PointerTransitionCommitV1 \<Rightarrow> CoordinatorCore \<Rightarrow> PointerHandoffStatus handoff" where
  "apply_commit session commit c =
     (case hc_inbound c of
        Some (InboundPrepared prepared_session _ expected_leave enter ack expected t) \<Rightarrow>
          if prepared_session \<noteq> session \<or> commit \<noteq> expected then (Inl HandoffConflictingReplay, c)
          else
            (Inr HandoffApplied,
             c\<lparr>hc_inbound := None,
               hc_workspace_state := set_active_pointer (rt_destination_host t) (rt_destination_pointer t)
                 (hc_workspace_state c),
               hc_local_fallback := rt_destination_pointer t,
               hc_completed_inbound := Some \<lparr>cib_session = prepared_session,
                 cib_expected_leave = Some expected_leave, cib_enter = enter, cib_ack = ack,
                 cib_commit = Some expected\<rparr>\<rparr>)
      | _ \<Rightarrow> (Inl (sequence_relation_error (commit_transition_id commit) (hc_last_inbound_sequence c)), c))"

definition receive_commit ::
  "PointerSessionBinding \<Rightarrow> PointerTransitionCommitV1 \<Rightarrow> u64 \<Rightarrow> CoordinatorCore \<Rightarrow> PointerHandoffStatus handoff" where
  "receive_commit session commit now c =
     after (prepare_operation now c) (\<lambda>_ c.
     checked (require_available_session session c) c (\<lambda>_.
     if commit_transition_id commit = 0 \<or> commit_transition_id commit \<noteq> commit_sequence commit
     then (Inl HandoffInvalidSequence, c)
     else case completed_commit commit c of
       Some completed \<Rightarrow>
         (if cib_session completed = session \<and> cib_commit completed = Some commit then Inr HandoffDuplicate
          else Inl HandoffConflictingReplay, c)
     | None \<Rightarrow>
         apply_commit session commit c))"

section \<open>Effects\<close>

definition leave_effect_sent :: "CoreEffect \<Rightarrow> CoordinatorCore \<Rightarrow> CoreEffectCompletion handoff" where
  "leave_effect_sent effect c =
     (case hc_outbound c of
        None \<Rightarrow> (Inl HandoffStaleEffect, c)
      | Some pending \<Rightarrow>
          if po_session pending \<noteq> ef_session effect \<or> po_transition_id pending \<noteq> ef_transition_id effect
             \<or> po_phase pending \<noteq> LeaveQueued
             \<or> \<not> (case ef_message effect of ControlLeave m \<Rightarrow> leave_eq m (po_leave pending) | _ \<Rightarrow> False)
          then (Inl HandoffInvalidEffect, c)
          else
            let c = c\<lparr>hc_outbound := Some (pending\<lparr>po_phase := EnterQueued\<rparr>)\<rparr> in
            (Inr (EffectNext (make_effect (po_session pending) (po_transition_id pending) PurposeEnter
                    (ControlEnter (po_enter pending)) c)), c))"

definition enter_effect_sent :: "CoreEffect \<Rightarrow> CoordinatorCore \<Rightarrow> CoreEffectCompletion handoff" where
  "enter_effect_sent effect c =
     (case hc_outbound c of
        None \<Rightarrow> (Inl HandoffStaleEffect, c)
      | Some pending \<Rightarrow>
          if po_session pending \<noteq> ef_session effect \<or> po_transition_id pending \<noteq> ef_transition_id effect
             \<or> po_phase pending \<noteq> EnterQueued
             \<or> \<not> (case ef_message effect of ControlEnter m \<Rightarrow> enter_eq m (po_enter pending) | _ \<Rightarrow> False)
          then (Inl HandoffInvalidEffect, c)
          else (Inr EffectSent, c\<lparr>hc_outbound := Some (pending\<lparr>po_phase := AwaitingAck\<rparr>)\<rparr>))"

text \<open>A pending operation that is not a proposal is taken and lost, as in the source.\<close>

definition accepted_ack_sent :: "CoreEffect \<Rightarrow> CoordinatorCore \<Rightarrow> CoreEffectCompletion handoff" where
  "accepted_ack_sent effect c =
     (case hc_inbound c of
        Some (InboundProposal session deadline_ns expected_leave enter ack t) \<Rightarrow>
          if session \<noteq> ef_session effect \<or> enter_transition_id enter \<noteq> ef_transition_id effect
             \<or> ef_message effect \<noteq> ControlAck ack
          then (Inl HandoffInvalidEffect, c)
          else (Inr EffectSent,
                c\<lparr>hc_inbound := Some (InboundPrepared session deadline_ns expected_leave enter ack (make_commit enter t) t)\<rparr>)
      | _ \<Rightarrow> (Inl HandoffStaleEffect, c\<lparr>hc_inbound := None\<rparr>))"

definition commit_effect_sent :: "CoreEffect \<Rightarrow> CoordinatorCore \<Rightarrow> CoreEffectCompletion handoff" where
  "commit_effect_sent effect c =
     (case hc_outbound c of
        None \<Rightarrow> (Inl HandoffStaleEffect, c)
      | Some pending \<Rightarrow>
          if \<not> matches_outbound_effect effect c \<or> po_phase pending \<noteq> CommitDispatching
          then (Inl HandoffStaleEffect, c)
          else
            let c = c\<lparr>hc_outbound := None\<rparr> in
            case po_accepted_ack pending of
              None \<Rightarrow> (Inl HandoffInvalidEffect, fail_local c)
            | Some ack \<Rightarrow>
                (Inr AuthorityCommitted,
                 c\<lparr>hc_workspace_state := set_active_pointer (rt_destination_host (po_transition pending))
                     (rt_destination_pointer (po_transition pending)) (hc_workspace_state c),
                   hc_completed_outbound := Some \<lparr>cob_session = po_session pending, cob_ack = ack\<rparr>\<rparr>))"

definition begin_commit_dispatch :: "CoreEffect \<Rightarrow> CoordinatorCore \<Rightarrow> unit handoff" where
  "begin_commit_dispatch effect c =
     (case hc_outbound c of
        None \<Rightarrow> (Inl HandoffStaleEffect, c)
      | Some pending \<Rightarrow>
          if po_phase pending \<noteq> CommitQueued \<or> po_session pending \<noteq> ef_session effect
             \<or> po_transition_id pending \<noteq> ef_transition_id effect
             \<or> ef_message effect \<noteq> ControlCommit (make_commit (po_enter pending) (po_transition pending))
          then (Inl HandoffStaleEffect, c)
          else (Inr (), c\<lparr>hc_outbound := Some (pending\<lparr>po_phase := CommitDispatching\<rparr>)\<rparr>))"

definition reply_effect_sent :: "CoreEffect \<Rightarrow> CoordinatorCore \<Rightarrow> CoreEffectCompletion handoff" where
  "reply_effect_sent effect c =
     (case hc_reply c of
        None \<Rightarrow> (Inl HandoffStaleEffect, c)
      | Some reply \<Rightarrow>
          if \<not> matches_reply_effect effect c then (Inl HandoffStaleEffect, c)
          else
            let c = c\<lparr>hc_reply := None\<rparr> in
            if pr_purpose reply = PurposeRejectedAck
            then (case (pr_message reply, ef_message effect) of
                    (ControlAck ack, ControlAck _) \<Rightarrow>
                      (Inr EffectSent, c\<lparr>hc_completed_inbound := Some \<lparr>cib_session = pr_session reply,
                         cib_expected_leave = None, cib_enter = pr_enter reply, cib_ack = ack,
                         cib_commit = None\<rparr>\<rparr>)
                  | _ \<Rightarrow> (Inl HandoffInvalidEffect, c))
            else (Inr EffectSent, c))"

definition effect_sent :: "CoreEffect \<Rightarrow> u64 \<Rightarrow> CoordinatorCore \<Rightarrow> CoreEffectCompletion handoff" where
  "effect_sent effect now c =
     after (prepare_operation now c) (\<lambda>_ c.
     checked (validate_effect_owner effect c) c (\<lambda>_.
     checked (require_available_session (ef_session effect) c) c (\<lambda>_.
     case ef_purpose effect of
       PurposeLeave \<Rightarrow> leave_effect_sent effect c
     | PurposeEnter \<Rightarrow> enter_effect_sent effect c
     | PurposeAcceptedAck \<Rightarrow> accepted_ack_sent effect c
     | PurposeCommit \<Rightarrow> commit_effect_sent effect c
     | PurposeDuplicateAcceptedAck \<Rightarrow> reply_effect_sent effect c
     | PurposeRejectedAck \<Rightarrow> reply_effect_sent effect c)))"

definition effect_failed :: "CoreEffect \<Rightarrow> CoordinatorCore \<Rightarrow> PointerHandoffStatus handoff" where
  "effect_failed effect c =
     checked (validate_effect_owner effect c) c (\<lambda>_.
     if hc_session c \<noteq> Some (ef_session effect) then (Inl HandoffStaleEffect, c)
     else
       (if ef_purpose effect \<in> {PurposeLeave, PurposeEnter, PurposeCommit}
        then (if \<not> matches_outbound_effect effect c then (Inl HandoffStaleEffect, c)
              else (Inr HandoffCleared, fail_local (c\<lparr>hc_outbound := None\<rparr>)))
        else if ef_purpose effect = PurposeAcceptedAck
        then (if \<not> matches_inbound_ack_effect effect c then (Inl HandoffStaleEffect, c)
              else (Inr HandoffCleared, c\<lparr>hc_inbound := None\<rparr>))
        else (if \<not> matches_reply_effect effect c then (Inl HandoffStaleEffect, c)
              else (Inr HandoffNoChange, c\<lparr>hc_reply := None\<rparr>))))"

text \<open>\<open>dispatch\<close> is the caller's bounded queue insertion.\<close>

definition dispatch_effect ::
  "(WireMessage \<Rightarrow> bool \<Rightarrow> ('x, unit) result) \<Rightarrow> CoreEffect \<Rightarrow> u64 \<Rightarrow> CoordinatorCore
   \<Rightarrow> ('x CoreDispatchError, CoreEffectCompletion) result \<times> CoordinatorCore" where
  "dispatch_effect dispatch effect now c =
     (case after (validate_effect_ready effect now c) (\<lambda>_ c.
             if ef_purpose effect = PurposeCommit then begin_commit_dispatch effect c else (Inr (), c)) of
        (Inl e, c) \<Rightarrow> (Inl (DispatchHandoff e), c)
      | (Inr _, c) \<Rightarrow>
          (case dispatch (wire_message (ef_message effect)) (has_local_authority c) of
             Inl x \<Rightarrow>
               (case effect_failed effect c of
                  (Inl e, c) \<Rightarrow> (Inl (DispatchHandoff e), c)
                | (Inr _, c) \<Rightarrow> (Inl (DispatchOutbound x), c))
           | Inr _ \<Rightarrow> map_prod (map_err DispatchHandoff) id (effect_sent effect now c)))"

text \<open>
  The public coordinator passes the binding of the presented admission to the core; the three
  operations on effects also require that the effect and the coordinator are bound to it.
\<close>

definition bound_to :: "CurrentAdmittedSession \<Rightarrow> CoreEffect \<Rightarrow> CoordinatorCore \<Rightarrow> (handoff_error, unit) result" where
  "bound_to session effect c =
     ensure (ef_session effect = from_current session \<and> hc_session c = Some (from_current session)) HandoffStaleEffect"

definition coordinator_effect_sent ::
  "CurrentAdmittedSession \<Rightarrow> CoreEffect \<Rightarrow> u64 \<Rightarrow> CoordinatorCore \<Rightarrow> CoreEffectCompletion handoff" where
  "coordinator_effect_sent session effect now c =
     checked (bound_to session effect c) c (\<lambda>_. effect_sent effect now c)"

definition coordinator_effect_failed ::
  "CurrentAdmittedSession \<Rightarrow> CoreEffect \<Rightarrow> CoordinatorCore \<Rightarrow> PointerHandoffStatus handoff" where
  "coordinator_effect_failed session effect c =
     checked (bound_to session effect c) c (\<lambda>_. effect_failed effect c)"

definition coordinator_dispatch_effect ::
  "(WireMessage \<Rightarrow> ('x, unit) result) \<Rightarrow> CurrentAdmittedSession \<Rightarrow> CoreEffect \<Rightarrow> u64 \<Rightarrow> CoordinatorCore
   \<Rightarrow> ('x CoreDispatchError, CoreEffectCompletion) result \<times> CoordinatorCore" where
  "coordinator_dispatch_effect dispatch session effect now c =
     (case bound_to session effect c of
        Inl e \<Rightarrow> (Inl (DispatchHandoff e), c)
      | Inr _ \<Rightarrow> dispatch_effect (\<lambda>m _. dispatch m) effect now c)"

end
