(* ===== verification/HandoffInvariant.thy ===== *)
theory HandoffInvariant
  imports PointerHandoff
begin

text \<open>
  The invariant of the pointer hand-off coordinator and its preservation by every operation: where
  the pointer rests, what a pending hand-off, a prepared one and a remembered result may hold, and
  that every deadline lies within the configured timeout.
\<close>

section \<open>Reasoning about early returns\<close>

lemma checked_simps [simp]:
  "checked (Inr x) c k = k x" "checked (Inl e) c k = (Inl e, c)"
  by (simp_all add: checked_def)

lemma after_simps [simp]:
  "after (Inr x, c) k = k x c" "after (Inl e, c) k = (Inl e, c)"
  by (simp_all add: after_def)

lemma checked_state:
  assumes "P c" "\<And>x. r = Inr x \<Longrightarrow> P (snd (k x))"
  shows "P (snd (checked r c k))"
  using assms by (cases r) simp_all

lemma after_state:
  assumes "P (snd r)" "\<And>x c. r = (Inr x, c) \<Longrightarrow> P c \<Longrightarrow> P (snd (k x c))"
  shows "P (snd (after r k))"
proof (cases r)
  case (Pair a c)
  then show ?thesis using assms by (cases a) simp_all
qed

lemma checked_Inr: "checked r c k = (Inr y, c') \<longleftrightarrow> (\<exists>x. r = Inr x \<and> k x = (Inr y, c'))"
  by (cases r) simp_all

lemma after_Inr: "after r k = (Inr y, c') \<longleftrightarrow> (\<exists>x c. r = (Inr x, c) \<and> k x c = (Inr y, c'))"
proof (cases r)
  case (Pair a c)
  then show ?thesis by (cases a) simp_all
qed

section \<open>Invariant\<close>

definition transition_ok :: "ConfiguredWorkspace \<Rightarrow> ResolvedTransition \<Rightarrow> bool" where
  "transition_ok w t \<longleftrightarrow> (\<exists>d e x. resolve_transition w d e x = Inr t)"

text \<open>A deadline lies at most one timeout after the last clock reading.\<close>

definition deadline_ok :: "CoordinatorCore \<Rightarrow> u64 \<Rightarrow> bool" where
  "deadline_ok c d \<longleftrightarrow> unat d \<le> unat (hc_last_now_ns c) + phc_timeout (hc_config c)"

definition ack_for :: "PendingOutbound \<Rightarrow> PointerTransitionAckV1 \<Rightarrow> bool" where
  "ack_for p ack \<longleftrightarrow> ack = make_ack (po_enter p) (rt_destination_host (po_transition p)) Accepted"

definition outbound_ok :: "CoordinatorCore \<Rightarrow> PendingOutbound \<Rightarrow> bool" where
  "outbound_ok c p \<longleftrightarrow>
     hc_session c = Some (po_session p) \<and> po_transition_id p = hc_last_outbound_sequence c
     \<and> po_transition_id p \<noteq> 0 \<and> deadline_ok c (po_deadline_ns p)
     \<and> transition_ok (hc_workspace c) (po_transition p)
     \<and> rt_source_host (po_transition p) = local_host (hc_workspace_state c)
     \<and> rt_destination_host (po_transition p) = psb_remote_host_id (po_session p)
     \<and> po_leave p = make_leave (po_transition_id p) (cw_protocol_epoch (hc_workspace c)) (po_transition p)
     \<and> po_enter p = make_enter (po_transition_id p) (cw_protocol_epoch (hc_workspace c)) (po_transition p)
     \<and> po_phase p \<noteq> CommitDispatching
     \<and> (case po_accepted_ack p of None \<Rightarrow> po_phase p \<noteq> CommitQueued
        | Some ack \<Rightarrow> po_phase p = CommitQueued \<and> ack_for p ack)
     \<and> active_host (hc_workspace_state c) = local_host (hc_workspace_state c)
     \<and> hc_inbound c = None"

fun inbound_body_ok :: "CoordinatorCore \<Rightarrow> PendingInbound \<Rightarrow> bool" where
  "inbound_body_ok c (InboundHint s _ leave enter t) \<longleftrightarrow>
     enter = make_enter (leave_transition_id leave) (cw_protocol_epoch (hc_workspace c)) t
     \<and> checked_add_u64 (hc_last_inbound_sequence c) 1 = Some (leave_transition_id leave)"
| "inbound_body_ok c (InboundProposal s _ leave enter ack t) \<longleftrightarrow>
     enter_eq (make_enter (enter_transition_id enter) (cw_protocol_epoch (hc_workspace c)) t) enter
     \<and> ack = make_ack enter (local_host (hc_workspace_state c)) Accepted
     \<and> enter_transition_id enter = hc_last_inbound_sequence c \<and> enter_transition_id enter \<noteq> 0"
| "inbound_body_ok c (InboundPrepared s _ leave enter ack commit t) \<longleftrightarrow>
     enter_eq (make_enter (enter_transition_id enter) (cw_protocol_epoch (hc_workspace c)) t) enter
     \<and> ack = make_ack enter (local_host (hc_workspace_state c)) Accepted
     \<and> commit = make_commit enter t
     \<and> enter_transition_id enter = hc_last_inbound_sequence c \<and> enter_transition_id enter \<noteq> 0"

definition inbound_ok :: "CoordinatorCore \<Rightarrow> PendingInbound \<Rightarrow> bool" where
  "inbound_ok c p \<longleftrightarrow>
     hc_session c = Some (pending_session p) \<and> deadline_ok c (inbound_deadline_ns p)
     \<and> transition_ok (hc_workspace c) (inbound_transition p)
     \<and> rt_source_host (inbound_transition p) = psb_remote_host_id (pending_session p)
     \<and> rt_destination_host (inbound_transition p) = local_host (hc_workspace_state c)
     \<and> inbound_body_ok c p"

definition reply_ok :: "CoordinatorCore \<Rightarrow> PendingReply \<Rightarrow> bool" where
  "reply_ok c r \<longleftrightarrow> hc_session c = Some (pr_session r) \<and> deadline_ok c (pr_deadline_ns r)
     \<and> pr_purpose r \<in> {PurposeDuplicateAcceptedAck, PurposeRejectedAck}"

definition session_ok :: "CoordinatorCore \<Rightarrow> bool" where
  "session_ok c \<longleftrightarrow>
     (case hc_session c of
        None \<Rightarrow> \<not> hc_session_healthy c
      | Some s \<Rightarrow> psb_local_host_id s = local_host (hc_workspace_state c)
          \<and> psb_remote_host_id s \<noteq> local_host (hc_workspace_state c) \<and> hc_lifecycle c = HandoffRunning)
     \<and> (\<not> hc_session_healthy c \<longrightarrow> hc_outbound c = None \<and> hc_inbound c = None \<and> hc_reply c = None)"

definition handoff_inv :: "CoordinatorCore \<Rightarrow> bool" where
  "handoff_inv c \<longleftrightarrow>
     0 < phc_timeout (hc_config c) \<and> phc_timeout (hc_config c) \<le> MAX_POINTER_HANDOFF_TIMEOUT
     \<and> workspace_wf (hc_workspace c)
     \<and> validate_state (hc_workspace c) (hc_workspace_state c) (hc_local_fallback c) = Inr ()
     \<and> session_ok c
     \<and> (case hc_outbound c of None \<Rightarrow> True | Some p \<Rightarrow> outbound_ok c p)
     \<and> (case hc_inbound c of None \<Rightarrow> True | Some p \<Rightarrow> inbound_ok c p)
     \<and> (case hc_reply c of None \<Rightarrow> True | Some r \<Rightarrow> reply_ok c r)"

lemma handoff_invD:
  assumes "handoff_inv c"
  shows "workspace_wf (hc_workspace c)"
    "validate_state (hc_workspace c) (hc_workspace_state c) (hc_local_fallback c) = Inr ()"
    "session_ok c"
    "hc_outbound c = Some p \<Longrightarrow> outbound_ok c p"
    "hc_inbound c = Some q \<Longrightarrow> inbound_ok c q"
    "hc_reply c = Some r \<Longrightarrow> reply_ok c r"
    "0 < phc_timeout (hc_config c)" "phc_timeout (hc_config c) \<le> MAX_POINTER_HANDOFF_TIMEOUT"
  using assms by (auto simp: handoff_inv_def)

lemma timeout_fits: "handoff_inv c \<Longrightarrow> phc_timeout (hc_config c) < 2 ^ 64"
  using handoff_invD(8)[of c] by (simp add: MAX_POINTER_HANDOFF_TIMEOUT_def from_secs_def)

text \<open>The pointer always rests on a display of the active host, within its extent.\<close>

definition pointer_placed :: "ConfiguredWorkspace \<Rightarrow> HostId \<Rightarrow> LogicalPointer \<Rightarrow> bool" where
  "pointer_placed w host p \<longleftrightarrow> owner_of w (lp_display_id p) = Some host
     \<and> contains_local_point w (lp_display_id p) (Point_new (lp_x p) (lp_y p))"

lemma contains_finite:
  "contains_local_point w d (Point_new x y) \<Longrightarrow> f64_is_finite x \<and> f64_is_finite y"
  using landing_point_finite[of w d "Point_new x y"] by (simp add: Point_new_def)

lemma validate_local_fallback_iff:
  "validate_local_fallback h w p = Inr u \<longleftrightarrow> h \<noteq> nil_id \<and> pointer_placed w h p"
  using contains_finite by (auto simp: validate_local_fallback_def pointer_placed_def)

lemma validate_state_iff:
  "validate_state w st fb = Inr u \<longleftrightarrow>
     active_display st = lp_display_id (ws_pointer st) \<and> pointer_placed w (active_host st) (ws_pointer st)
     \<and> local_host st \<noteq> nil_id \<and> pointer_placed w (local_host st) fb"
  using contains_finite
  by (auto simp: validate_state_def validate_local_fallback_iff pointer_placed_def)

lemma Point_new_collapse: "Point_new (point_x q) (point_y q) = q"
  by (cases q) (simp add: Point_new_def)

lemma resolve_transition_iff:
  "resolve_transition w d e x = Inr t \<longleftrightarrow> (\<exists>t0. configured_transition w d e x = Inr t0 \<and> t = resolved_from t0)"
  by (cases "configured_transition w d e x") (auto simp: resolve_transition_def)

lemma transition_placed:
  assumes "workspace_wf w" "transition_ok w t"
  shows "pointer_placed w (rt_destination_host t) (rt_destination_pointer t)"
    "lp_display_id (rt_destination_pointer t) = rt_destination_display t"
    "valid_position (rt_normalized_position t)"
proof -
  obtain d e x t0 where t0: "configured_transition w d e x = Inr t0" "t = resolved_from t0"
    using assms(2) by (auto simp: transition_ok_def resolve_transition_iff)
  obtain target z y where y0: "valid_position x" "map_of (cw_links w) (d, edge_key e) = Some target" "map_of (cw_displays w) d = Some z" "map_of (cw_displays w) (lt_display_id target) = Some y"
      "t0 = \<lparr>wt_epoch = cw_epoch w, wt_source_display = d, wt_source_host = cpd_host_id z, wt_source_edge = e,
         wt_destination_display = lt_display_id target, wt_destination_host = cpd_host_id y,
         wt_destination_edge = opposite e, wt_normalized_position = x,
         wt_destination_point = landing_point (opposite e) x (cpd_logical_size y)\<rparr>"
    using t0(1)[unfolded configured_transition_iff[OF assms(1)]] by blast
  then have y: "valid_position x" "map_of (cw_displays w) (lt_display_id target) = Some y"
      "wt_destination_display t0 = lt_display_id target" "wt_destination_host t0 = cpd_host_id y"
      "wt_normalized_position t0 = x"
      "wt_destination_point t0 = landing_point (opposite e) x (cpd_logical_size y)"
    by simp_all
  have "contains_local_point w (lt_display_id target) (wt_destination_point t0)"
    using landing_point_inside[OF assms(1) y(2,1)] y(6) by simp
  then show "pointer_placed w (rt_destination_host t) (rt_destination_pointer t)"
    using y Point_new_collapse[of "wt_destination_point t0"]
    by (simp add: pointer_placed_def t0(2) resolved_from_def owner_of_def)
  show "lp_display_id (rt_destination_pointer t) = rt_destination_display t"
    "valid_position (rt_normalized_position t)"
    using y by (simp_all add: t0(2) resolved_from_def)
qed

text \<open>Fields that the flow operations never touch.\<close>

lemma set_active_pointer_simps [simp]:
  "local_host (set_active_pointer h p st) = local_host st" "active_host (set_active_pointer h p st) = h"
  "active_display (set_active_pointer h p st) = lp_display_id p" "ws_pointer (set_active_pointer h p st) = p"
  by (simp_all add: set_active_pointer_def)

lemma fail_local_simps [simp]:
  "hc_owner (fail_local c) = hc_owner c" "hc_config (fail_local c) = hc_config c"
  "hc_lifecycle (fail_local c) = hc_lifecycle c" "hc_session (fail_local c) = hc_session c"
  "hc_session_healthy (fail_local c) = hc_session_healthy c" "hc_workspace (fail_local c) = hc_workspace c"
  "hc_local_fallback (fail_local c) = hc_local_fallback c" "hc_last_now_ns (fail_local c) = hc_last_now_ns c"
  "hc_last_outbound_sequence (fail_local c) = hc_last_outbound_sequence c"
  "hc_last_inbound_sequence (fail_local c) = hc_last_inbound_sequence c"
  "hc_outbound (fail_local c) = hc_outbound c" "hc_inbound (fail_local c) = hc_inbound c"
  "hc_completed_outbound (fail_local c) = hc_completed_outbound c"
  "hc_completed_inbound (fail_local c) = hc_completed_inbound c"
  "hc_expired_inbound (fail_local c) = hc_expired_inbound c" "hc_reply (fail_local c) = hc_reply c"
  "local_host (hc_workspace_state (fail_local c)) = local_host (hc_workspace_state c)"
  "active_host (hc_workspace_state (fail_local c)) = local_host (hc_workspace_state c)"
  "ws_pointer (hc_workspace_state (fail_local c)) = hc_local_fallback c"
  "active_display (hc_workspace_state (fail_local c)) = lp_display_id (hc_local_fallback c)"
  by (simp_all add: fail_local_def)

lemma clear_transition_simps [simp]:
  "hc_owner (clear_transition_state c) = hc_owner c" "hc_config (clear_transition_state c) = hc_config c"
  "hc_lifecycle (clear_transition_state c) = hc_lifecycle c" "hc_session (clear_transition_state c) = hc_session c"
  "hc_session_healthy (clear_transition_state c) = hc_session_healthy c"
  "hc_workspace (clear_transition_state c) = hc_workspace c"
  "hc_workspace_state (clear_transition_state c) = hc_workspace_state c"
  "hc_local_fallback (clear_transition_state c) = hc_local_fallback c"
  "hc_last_now_ns (clear_transition_state c) = hc_last_now_ns c"
  "hc_last_outbound_sequence (clear_transition_state c) = hc_last_outbound_sequence c"
  "hc_last_inbound_sequence (clear_transition_state c) = hc_last_inbound_sequence c"
  "hc_outbound (clear_transition_state c) = None" "hc_inbound (clear_transition_state c) = None"
  "hc_completed_outbound (clear_transition_state c) = None"
  "hc_completed_inbound (clear_transition_state c) = None"
  "hc_expired_inbound (clear_transition_state c) = None" "hc_reply (clear_transition_state c) = None"
  by (simp_all add: clear_transition_state_def)

lemma inv_fail_local:
  assumes "handoff_inv c"
  shows "handoff_inv (fail_local c)"
proof -
  have out: "outbound_ok (fail_local c) p" if "outbound_ok c p" for p
    using that by (auto simp: outbound_ok_def deadline_ok_def)
  have "inbound_ok (fail_local c) p" if "inbound_ok c p" for p
    using that by (cases p) (auto simp: inbound_ok_def deadline_ok_def)
  moreover have "reply_ok (fail_local c) r" if "reply_ok c r" for r
    using that by (auto simp: reply_ok_def deadline_ok_def)
  ultimately show ?thesis
    using assms out by (auto simp: handoff_inv_def session_ok_def validate_state_iff split: option.splits)
qed

lemma inv_clear:
  assumes "handoff_inv c"
  shows "handoff_inv (clear_transition_state c)"
  using assms by (auto simp: handoff_inv_def session_ok_def split: option.splits)

section \<open>Every operation keeps the invariant\<close>

lemmas checked_inv = checked_state[where P = handoff_inv]
lemmas after_inv = after_state[where P = handoff_inv]

lemma handoff_inv_update:
  assumes "handoff_inv c"
    and same: "hc_config c' = hc_config c" "hc_lifecycle c' = hc_lifecycle c" "hc_session c' = hc_session c"
      "hc_session_healthy c' = hc_session_healthy c" "hc_workspace c' = hc_workspace c"
      "hc_workspace_state c' = hc_workspace_state c" "hc_local_fallback c' = hc_local_fallback c"
    and "hc_session_healthy c \<or> hc_outbound c' = None \<and> hc_inbound c' = None \<and> hc_reply c' = None"
    and "\<And>p. hc_outbound c' = Some p \<Longrightarrow> outbound_ok c' p"
    and "\<And>p. hc_inbound c' = Some p \<Longrightarrow> inbound_ok c' p"
    and "\<And>p. hc_reply c' = Some p \<Longrightarrow> reply_ok c' p"
  shows "handoff_inv c'"
  using assms(1,8-) by (auto simp: handoff_inv_def same session_ok_def split: option.splits)

lemma deadline_ok_later: "hc_last_now_ns c \<le> now \<Longrightarrow> deadline_ok c d \<Longrightarrow> deadline_ok (c\<lparr>hc_last_now_ns := now\<rparr>) d"
  by (simp add: deadline_ok_def word_le_nat_alt)

lemma inv_clock:
  assumes "handoff_inv c" "hc_last_now_ns c \<le> now"
  shows "handoff_inv (c\<lparr>hc_last_now_ns := now\<rparr>)"
proof (rule handoff_inv_update[OF assms(1)])
  fix p
  show "outbound_ok (c\<lparr>hc_last_now_ns := now\<rparr>) p" if "hc_outbound (c\<lparr>hc_last_now_ns := now\<rparr>) = Some p"
    using that handoff_invD(4)[OF assms(1), of p] deadline_ok_later[OF assms(2)]
    by (auto simp: outbound_ok_def)
next
  fix p
  show "inbound_ok (c\<lparr>hc_last_now_ns := now\<rparr>) p" if "hc_inbound (c\<lparr>hc_last_now_ns := now\<rparr>) = Some p"
    using that handoff_invD(5)[OF assms(1), of p] deadline_ok_later[OF assms(2)]
    by (cases p) (auto simp: inbound_ok_def)
next
  fix p
  show "reply_ok (c\<lparr>hc_last_now_ns := now\<rparr>) p" if "hc_reply (c\<lparr>hc_last_now_ns := now\<rparr>) = Some p"
    using that handoff_invD(6)[OF assms(1), of p] deadline_ok_later[OF assms(2)]
    by (auto simp: reply_ok_def)
qed (use handoff_invD(3)[OF assms(1)] in \<open>auto simp: session_ok_def\<close>)

lemma inv_drop_outbound: "handoff_inv c \<Longrightarrow> handoff_inv (c\<lparr>hc_outbound := None\<rparr>)"
proof (rule handoff_inv_update)
  assume h: "handoff_inv c"
  fix p
  show "inbound_ok (c\<lparr>hc_outbound := None\<rparr>) p" if "hc_inbound (c\<lparr>hc_outbound := None\<rparr>) = Some p"
    using that handoff_invD(5)[OF h, of p] by (cases p) (auto simp: inbound_ok_def deadline_ok_def)
next
  assume h: "handoff_inv c"
  fix p
  show "reply_ok (c\<lparr>hc_outbound := None\<rparr>) p" if "hc_reply (c\<lparr>hc_outbound := None\<rparr>) = Some p"
    using that handoff_invD(6)[OF h, of p] by (auto simp: reply_ok_def deadline_ok_def)
qed (auto dest: handoff_invD(3) simp: session_ok_def)

lemma inv_drop_reply: "handoff_inv c \<Longrightarrow> handoff_inv (c\<lparr>hc_reply := None\<rparr>)"
proof (rule handoff_inv_update)
  assume h: "handoff_inv c"
  fix p
  show "inbound_ok (c\<lparr>hc_reply := None\<rparr>) p" if "hc_inbound (c\<lparr>hc_reply := None\<rparr>) = Some p"
    using that handoff_invD(5)[OF h, of p] by (cases p) (auto simp: inbound_ok_def deadline_ok_def)
next
  assume h: "handoff_inv c"
  fix p
  show "outbound_ok (c\<lparr>hc_reply := None\<rparr>) p" if "hc_outbound (c\<lparr>hc_reply := None\<rparr>) = Some p"
    using that handoff_invD(4)[OF h, of p] by (auto simp: outbound_ok_def deadline_ok_def)
qed (auto dest: handoff_invD(3) simp: session_ok_def)

text \<open>Dropping the inbound operation, whatever is recorded about it and its sequence.\<close>

lemma inv_drop_inbound:
  assumes "handoff_inv c"
  shows "handoff_inv (c\<lparr>hc_inbound := None, hc_last_inbound_sequence := n, hc_completed_inbound := x, hc_expired_inbound := y\<rparr>)"
    (is "handoff_inv ?c")
proof (rule handoff_inv_update[OF assms])
  fix p
  show "outbound_ok ?c p" if "hc_outbound ?c = Some p"
    using that handoff_invD(4)[OF assms, of p] by (auto simp: outbound_ok_def deadline_ok_def)
next
  fix p
  show "reply_ok ?c p" if "hc_reply ?c = Some p"
    using that handoff_invD(6)[OF assms, of p] by (auto simp: reply_ok_def deadline_ok_def)
qed (use handoff_invD(3)[OF assms] in \<open>auto simp: session_ok_def\<close>)

lemma inv_completed:
  assumes "handoff_inv c"
  shows "handoff_inv (c\<lparr>hc_completed_outbound := x\<rparr>)" "handoff_inv (c\<lparr>hc_completed_inbound := y\<rparr>)"
proof -
  have in1: "inbound_ok (c\<lparr>hc_completed_outbound := x\<rparr>) p" "inbound_ok (c\<lparr>hc_completed_inbound := y\<rparr>) p"
    if "inbound_ok c p" for p
    using that by (cases p; auto simp: inbound_ok_def deadline_ok_def)+
  show "handoff_inv (c\<lparr>hc_completed_outbound := x\<rparr>)" "handoff_inv (c\<lparr>hc_completed_inbound := y\<rparr>)"
    using assms in1
    by (auto simp: handoff_inv_def session_ok_def outbound_ok_def reply_ok_def deadline_ok_def split: option.splits)
qed

lemma inv_drop_inbound':
  assumes "handoff_inv c"
  shows "handoff_inv (c\<lparr>hc_inbound := None\<rparr>)"
  using inv_drop_inbound[OF assms, where n = "hc_last_inbound_sequence c" and x = "hc_completed_inbound c" and y = "hc_expired_inbound c"]
  by simp

lemma inv_expire_inbound:
  assumes "handoff_inv c"
  shows "handoff_inv (expire_inbound p c)"
proof (cases p)
  case (InboundHint s d l e t)
  then show ?thesis
    using inv_drop_inbound[OF assms, where n = "leave_transition_id l" and x = "hc_completed_inbound c" and y = "Some (expired_from p)"]
    by (simp add: expire_inbound_def)
next
  case (InboundProposal s d l e a t)
  then show ?thesis
    using inv_drop_inbound[OF assms, where n = "hc_last_inbound_sequence c" and x = "hc_completed_inbound c" and y = "Some (expired_from p)"]
    by (simp add: expire_inbound_def)
next
  case (InboundPrepared s d l e a m t)
  then show ?thesis
    using inv_drop_inbound[OF assms, where n = "hc_last_inbound_sequence c" and x = "hc_completed_inbound c" and y = "Some (expired_from p)"]
    by (simp add: expire_inbound_def)
qed

lemma inv_expire:
  assumes "handoff_inv c"
  shows "handoff_inv (snd (expire now c))"
proof -
  have drop: "handoff_inv (if b then c\<lparr>hc_outbound := None\<rparr> else c)" if "handoff_inv c" for b c
    using that inv_drop_outbound by simp
  have inb: "handoff_inv (if b then (case hc_inbound c of None \<Rightarrow> c | Some p \<Rightarrow> expire_inbound p c) else c)"
    if "handoff_inv c" for b c
    using that inv_expire_inbound by (auto split: option.splits)
  have rep: "handoff_inv (if b then c\<lparr>hc_reply := None\<rparr> else c)" if "handoff_inv c" for b c
    using that inv_drop_reply by simp
  have home: "handoff_inv (if b then fail_local c else c)" if "handoff_inv c" for b c
    using that inv_fail_local by simp
  show ?thesis
    unfolding expire_def Let_def snd_conv by (intro home rep inb drop assms)
qed

lemma inv_prepare_operation: "handoff_inv c \<Longrightarrow> handoff_inv (snd (prepare_operation now c))"
  by (auto simp: prepare_operation_def advance_clock_def not_less intro: inv_expire inv_clock)

lemma inv_poll_timeout: "handoff_inv c \<Longrightarrow> handoff_inv (snd (poll_timeout now c))"
  using inv_expire[OF inv_clock]
  by (auto simp: poll_timeout_def advance_clock_def not_less split_def Let_def)

lemma inv_bind_session:
  assumes "handoff_inv c"
  shows "handoff_inv (snd (bind_session s c))"
proof -
  have new: "handoff_inv (c\<lparr>hc_session := Some s, hc_session_healthy := True,
        hc_last_outbound_sequence := 0, hc_last_inbound_sequence := 0\<rparr>)"
    if "handoff_inv c" "hc_outbound c = None" "hc_inbound c = None" "hc_reply c = None"
      "psb_local_host_id s = local_host (hc_workspace_state c)"
      "psb_remote_host_id s \<noteq> local_host (hc_workspace_state c)" "hc_lifecycle c = HandoffRunning" for c
    using that by (auto simp: handoff_inv_def session_ok_def)
  have none: "hc_outbound c = None \<and> hc_inbound c = None \<and> hc_reply c = None" if "hc_session c = None"
    using handoff_invD(3)[OF assms] that by (simp add: session_ok_def)
  show ?thesis
    unfolding bind_session_def
  proof (rule checked_inv[OF assms])
    fix u assume "ensure_running c = Inr u"
    then have "hc_lifecycle c = HandoffRunning" by (simp add: ensure_running_def)
    then show "handoff_inv (snd (if psb_local_host_id s \<noteq> local_host (hc_workspace_state c)
        \<or> psb_remote_host_id s = local_host (hc_workspace_state c)
       then (Inl HandoffInvalidHost, c)
       else if hc_session c = Some s then (Inr HandoffDuplicate, c)
       else let c = (if hc_session c \<noteq> None then clear_transition_state (fail_local c) else c) in
         (Inr HandoffApplied, c\<lparr>hc_session := Some s, hc_session_healthy := True,
            hc_last_outbound_sequence := 0, hc_last_inbound_sequence := 0\<rparr>)))"
      using assms none by (auto simp: Let_def intro!: new inv_clear inv_fail_local)
  qed
qed

lemma inv_session_ops:
  assumes "handoff_inv c"
  shows "handoff_inv (snd (mark_session_healthy s c))" "handoff_inv (snd (degrade_session s c))"
    "handoff_inv (snd (disconnect_session s c))" "handoff_inv (snd (handoff_stop l c))"
proof -
  note cleared = inv_clear[OF inv_fail_local[OF assms]]
  show "handoff_inv (snd (handoff_stop l c))" "handoff_inv (snd (disconnect_session s c))"
    using cleared assms
    by (auto simp: handoff_stop_def disconnect_session_def checked_def handoff_inv_def session_ok_def split: sum.splits option.splits)
  have "handoff_inv (clear_transition_state (fail_local (c\<lparr>hc_session_healthy := False\<rparr>)))"
    using cleared by (auto simp: handoff_inv_def session_ok_def fail_local_def split: option.splits)
  then show "handoff_inv (snd (degrade_session s c))"
    using assms by (auto simp: degrade_session_def checked_def split: sum.splits)
  have healthy: "handoff_inv (c\<lparr>hc_session_healthy := True\<rparr>)" if "hc_session c = Some s" "\<not> hc_session_healthy c"
    using assms that by (auto simp: handoff_inv_def session_ok_def)
  show "handoff_inv (snd (mark_session_healthy s c))"
    unfolding mark_session_healthy_def
    using assms healthy
    by (intro checked_inv) (auto simp: require_session_def split: option.splits if_splits)
qed

lemma inv_replace_workspace:
  assumes "handoff_inv c" "workspace_wf w"
  shows "handoff_inv (snd (replace_workspace w p c))"
proof -
  have "handoff_inv (clear_transition_state (fail_local (c\<lparr>hc_workspace := w, hc_local_fallback := p\<rparr>)))"
    if "validate_local_fallback (local_host (hc_workspace_state c)) w p = Inr u" for u
    using assms that
    by (auto simp: handoff_inv_def session_ok_def validate_state_iff validate_local_fallback_iff fail_local_def
        split: option.splits)
  then show ?thesis
    unfolding replace_workspace_def using assms(1) by (auto intro!: checked_inv)
qed

lemma inv_observe:
  assumes "handoff_inv c"
  shows "handoff_inv (snd (observe_local_pointer p c))"
proof -
  have "handoff_inv (c\<lparr>hc_workspace_state := set_active_pointer (local_host (hc_workspace_state c)) p (hc_workspace_state c)\<rparr>)"
    if "hc_outbound c = None" "hc_inbound c = None" "hc_reply c = None"
      "owner_of (hc_workspace c) (lp_display_id p) = Some (local_host (hc_workspace_state c))"
      "contains_local_point (hc_workspace c) (lp_display_id p) (pointer_position p)"
    using assms that
    by (auto simp: handoff_inv_def session_ok_def validate_state_iff pointer_placed_def pointer_position_def split: option.splits)
  then show ?thesis
    unfolding observe_local_pointer_def using assms by (auto intro!: checked_inv)
qed

lemma require_session_iff [simp]: "require_session s c = Inr u \<longleftrightarrow> hc_session c = Some s"
  by (auto simp: require_session_def split: option.splits)

lemma require_available_session_iff [simp]:
  "require_available_session s c = Inr u \<longleftrightarrow>
     hc_lifecycle c = HandoffRunning \<and> hc_session c = Some s \<and> hc_session_healthy c"
  by (auto simp: require_available_session_def ensure_running_def)

lemma deadline_iff:
  "deadline now c = Inr d \<longleftrightarrow> phc_timeout (hc_config c) < 2 ^ 64
     \<and> checked_add_u64 now (of_nat (phc_timeout (hc_config c))) = Some d"
  by (auto simp: deadline_def split: option.splits)

lemma deadline_bound:
  assumes "deadline now c = Inr d"
  shows "unat d = unat now + phc_timeout (hc_config c)"
  using assms by (auto simp: deadline_iff checked_add_u64_Some unat_of_nat take_bit_eq_mod)

lemma prepare_operation_now: "prepare_operation now c = (Inr u, c') \<Longrightarrow> hc_last_now_ns c' = now"
proof -
  have "hc_last_now_ns (snd (expire now c)) = hc_last_now_ns c" for c
    by (auto simp: expire_def Let_def expire_inbound_def split: option.splits PendingInbound.splits)
  then show "prepare_operation now c = (Inr u, c') \<Longrightarrow> hc_last_now_ns c' = now"
    by (auto simp: prepare_operation_def advance_clock_def split: if_splits)
qed


lemma inv_set_outbound:
  assumes "handoff_inv c" "outbound_ok (c\<lparr>hc_last_outbound_sequence := n, hc_outbound := Some p\<rparr>) p"
    "hc_session_healthy c"
  shows "handoff_inv (c\<lparr>hc_last_outbound_sequence := n, hc_outbound := Some p\<rparr>)" (is "handoff_inv ?c")
proof (rule handoff_inv_update[OF assms(1)])
  fix q
  show "inbound_ok ?c q" if "hc_inbound ?c = Some q"
    using that handoff_invD(5)[OF assms(1), of q] by (cases q) (auto simp: inbound_ok_def deadline_ok_def)
next
  fix q
  show "reply_ok ?c q" if "hc_reply ?c = Some q"
    using that handoff_invD(6)[OF assms(1), of q] by (auto simp: reply_ok_def deadline_ok_def)
qed (use assms in auto)

lemma inv_phase:
  assumes "handoff_inv c" "hc_outbound c = Some p" "hc_session_healthy c"
    and "outbound_ok c p \<Longrightarrow> outbound_ok c q"
  shows "handoff_inv (c\<lparr>hc_outbound := Some q\<rparr>)"
proof -
  have "outbound_ok (c\<lparr>hc_outbound := Some q\<rparr>) q"
    using assms(4)[OF handoff_invD(4)[OF assms(1,2)]] by (auto simp: outbound_ok_def deadline_ok_def)
  then show ?thesis
    using inv_set_outbound[OF assms(1), where n = "hc_last_outbound_sequence c" and p = q] assms(3) by simp
qed

lemma inv_set_inbound:
  assumes "handoff_inv c" "inbound_ok (c\<lparr>hc_last_inbound_sequence := n, hc_inbound := Some p\<rparr>) p"
    "hc_session_healthy c" "hc_outbound c = None"
  shows "handoff_inv (c\<lparr>hc_last_inbound_sequence := n, hc_inbound := Some p\<rparr>)" (is "handoff_inv ?c")
proof (rule handoff_inv_update[OF assms(1)])
  fix q
  show "reply_ok ?c q" if "hc_reply ?c = Some q"
    using that handoff_invD(6)[OF assms(1), of q] by (auto simp: reply_ok_def deadline_ok_def)
qed (use assms in auto)

lemma inv_set_reply:
  assumes "handoff_inv c" "reply_ok c r" "hc_session_healthy c"
  shows "handoff_inv (c\<lparr>hc_reply := Some r\<rparr>)" (is "handoff_inv ?c")
proof (rule handoff_inv_update[OF assms(1)])
  fix q
  show "outbound_ok ?c q" if "hc_outbound ?c = Some q"
    using that handoff_invD(4)[OF assms(1), of q] by (auto simp: outbound_ok_def deadline_ok_def)
next
  fix q
  show "inbound_ok ?c q" if "hc_inbound ?c = Some q"
    using that handoff_invD(5)[OF assms(1), of q] by (cases q) (auto simp: inbound_ok_def deadline_ok_def)
qed (use assms in \<open>auto simp: reply_ok_def deadline_ok_def\<close>)

lemma inv_classify: "handoff_inv c \<Longrightarrow> handoff_inv (snd (classify_inbound_sequence i s c))"
  by (auto simp: classify_inbound_sequence_def intro: inv_clear split: option.splits)

lemma classify_iff:
  "classify_inbound_sequence i s c = (Inr rel, c') \<longleftrightarrow>
     i \<noteq> 0 \<and> i = s \<and> c' = c \<and> (rel = SequenceDuplicate \<and> i = hc_last_inbound_sequence c
       \<or> rel = SequenceNext \<and> i \<noteq> hc_last_inbound_sequence c \<and> checked_add_u64 (hc_last_inbound_sequence c) 1 = Some i)"
  by (auto simp: classify_inbound_sequence_def split: option.splits)

text \<open>Proposing.\<close>

lemma inv_propose_leave:
  assumes "handoff_inv c"
  shows "handoff_inv (snd (propose_leave s e x now c))"
  unfolding propose_leave_def
proof (rule after_inv[OF inv_prepare_operation[OF assms]], goal_cases)
  case (1 u c)
  note inv = 1(2)
  have now: "hc_last_now_ns c = now" by (rule prepare_operation_now[OF 1(1)])
  show ?case
  proof (rule checked_inv[OF inv], goal_cases)
    case (1 v)
    then have s: "hc_session c = Some s" "hc_session_healthy c" by auto
    have goal: "handoff_inv (c\<lparr>hc_last_outbound_sequence := n, hc_outbound := Some \<lparr>po_session = s, po_transition_id = n,
        po_deadline_ns = d, po_leave = make_leave n (cw_protocol_epoch (hc_workspace c)) t,
        po_enter = make_enter n (cw_protocol_epoch (hc_workspace c)) t, po_accepted_ack = None, po_transition = t,
        po_phase = LeaveQueued\<rparr>\<rparr>)"
      if "hc_inbound c = None" "has_local_authority c" "resolve_transition (hc_workspace c) dd e x = Inr t"
        "rt_source_host t = local_host (hc_workspace_state c)" "rt_destination_host t = psb_remote_host_id s"
        "checked_add_u64 (hc_last_outbound_sequence c) 1 = Some n" "deadline now c = Inr d" for t n d dd
    proof (rule inv_set_outbound[OF inv _ s(2)])
      have "n \<noteq> 0" using checked_add_u64_one_less[OF that(6)] by auto
      then show "outbound_ok (c\<lparr>hc_last_outbound_sequence := n, hc_outbound := Some \<lparr>po_session = s, po_transition_id = n,
        po_deadline_ns = d, po_leave = make_leave n (cw_protocol_epoch (hc_workspace c)) t,
        po_enter = make_enter n (cw_protocol_epoch (hc_workspace c)) t, po_accepted_ack = None, po_transition = t,
        po_phase = LeaveQueued\<rparr>\<rparr>) \<lparr>po_session = s, po_transition_id = n,
        po_deadline_ns = d, po_leave = make_leave n (cw_protocol_epoch (hc_workspace c)) t,
        po_enter = make_enter n (cw_protocol_epoch (hc_workspace c)) t, po_accepted_ack = None, po_transition = t,
        po_phase = LeaveQueued\<rparr>"
        using that s deadline_bound[OF that(7)] now
        by (auto simp: outbound_ok_def deadline_ok_def transition_ok_def has_local_authority_def)
    qed
    show ?case
      using inv goal
      by (auto simp: next_outbound_sequence_def Let_def intro!: checked_inv after_inv inv_fail_local split: option.splits)
  qed
qed

lemma inv_receive_ack:
  assumes "handoff_inv c"
  shows "handoff_inv (snd (receive_ack s ack now c))"
  unfolding receive_ack_def
proof (rule after_inv[OF inv_prepare_operation[OF assms]], rule checked_inv, goal_cases)
  case (2 u c v)
  note inv = 2(2)
  have s: "hc_session c = Some s" "hc_session_healthy c" using 2(3) by auto
  have lost: "handoff_inv ((fail_local c)\<lparr>hc_outbound := None\<rparr>)"
    "handoff_inv ((fail_local (c\<lparr>hc_outbound := None\<rparr>))\<lparr>hc_completed_outbound := x\<rparr>)" for x
    by (intro inv_drop_outbound inv_fail_local inv_completed inv)+
  have accepted: "handoff_inv (c\<lparr>hc_outbound := Some (p\<lparr>po_phase := CommitQueued, po_accepted_ack := Some ack\<rparr>)\<rparr>)"
    if "hc_outbound c = Some p" "ack_transition_id ack = po_transition_id p" "po_phase p = AwaitingAck"
      "ack_workspace_epoch ack = enter_workspace_epoch (po_enter p)"
      "ack_receiver_host ack = rt_destination_host (po_transition p)"
      "ack_active_display ack = enter_destination_display (po_enter p)" "ack_outcome ack = Accepted" for p
  proof (rule inv_phase[OF inv that(1) s(2)])
    assume ok: "outbound_ok c p"
    then have "ack = make_ack (po_enter p) (rt_destination_host (po_transition p)) Accepted"
      using that by (cases ack) (simp add: make_ack_def make_enter_def outbound_ok_def)
    then show "outbound_ok c (p\<lparr>po_phase := CommitQueued, po_accepted_ack := Some ack\<rparr>)"
      using ok by (auto simp: outbound_ok_def ack_for_def)
  qed
  show ?case
    using inv lost accepted by (auto simp: Let_def split: option.splits)
qed simp

lemma apply_commit_cases:
  obtains (refused) e where "apply_commit s m c = (Inl e, c)"
  | (applied) d l enter ack t where "hc_inbound c = Some (InboundPrepared s d l enter ack m t)"
      "apply_commit s m c = (Inr HandoffApplied, c\<lparr>hc_inbound := None,
         hc_workspace_state := set_active_pointer (rt_destination_host t) (rt_destination_pointer t) (hc_workspace_state c),
         hc_local_fallback := rt_destination_pointer t,
         hc_completed_inbound := Some \<lparr>cib_session = s, cib_expected_leave = Some l, cib_enter = enter,
           cib_ack = ack, cib_commit = Some m\<rparr>\<rparr>)"
proof (cases "\<exists>d l enter ack t. hc_inbound c = Some (InboundPrepared s d l enter ack m t)")
  case True
  then show thesis by (auto simp: apply_commit_def intro: applied)
next
  case False
  then have "\<exists>e. apply_commit s m c = (Inl e, c)"
    by (auto simp: apply_commit_def split: option.split PendingInbound.split)
  then show thesis by (auto intro: refused)
qed

lemma inv_apply_commit:
  assumes "handoff_inv c"
  shows "handoff_inv (snd (apply_commit s m c))"
proof (cases rule: apply_commit_cases[of s m c])
  case (applied d l enter ack t)
  have ok: "transition_ok (hc_workspace c) t" "rt_destination_host t = local_host (hc_workspace_state c)"
      "hc_session c = Some s"
    using handoff_invD(5)[OF assms applied(1)] by (auto simp: inbound_ok_def)
  have none: "hc_outbound c = None"
    using handoff_invD(4)[OF assms] applied(1) by (cases "hc_outbound c") (auto simp: outbound_ok_def)
  have "reply_ok (snd (apply_commit s m c)) r" if "hc_reply c = Some r" for r
    using handoff_invD(6)[OF assms that] by (auto simp: applied(2) reply_ok_def deadline_ok_def)
  then show ?thesis
    using assms transition_placed[OF handoff_invD(1)[OF assms] ok(1)] ok(2,3) none handoff_invD(3)[OF assms]
    by (auto simp: applied(2) handoff_inv_def session_ok_def validate_state_iff split: option.splits)
qed (use assms in simp)

lemma inv_receive_commit:
  assumes "handoff_inv c"
  shows "handoff_inv (snd (receive_commit s m now c))"
  unfolding receive_commit_def
proof (rule after_inv[OF inv_prepare_operation[OF assms]], rule checked_inv, goal_cases)
  case (2 u c v)
  then show ?case using inv_apply_commit[OF 2(2)] by (auto split: option.split)
qed simp

lemma resolve_leave_iff:
  "resolve_leave m c = Inr t \<longleftrightarrow>
     resolve_transition (hc_workspace c) (leave_source_display m) (edge_from_wire (leave_edge m)) (leave_normalized_position m) = Inr t
     \<and> (\<exists>s. hc_session c = Some s \<and> rt_source_host t = psb_remote_host_id s)
     \<and> rt_destination_host t = local_host (hc_workspace_state c)"
  by (auto simp: resolve_leave_def validate_resolved_destination_def split: option.splits if_splits)

lemma inv_receive_leave:
  assumes "handoff_inv c"
  shows "handoff_inv (snd (receive_leave s m now c))"
  unfolding receive_leave_def
proof (rule after_inv[OF inv_prepare_operation[OF assms]], rule checked_inv, goal_cases)
  case (2 u c v)
  note inv = 2(2)
  have now: "hc_last_now_ns c = now" by (rule prepare_operation_now[OF 2(1)])
  have s: "hc_session c = Some s" "hc_session_healthy c" using 2(3) by auto
  have hint: "handoff_inv (c\<lparr>hc_inbound := Some (InboundHint s d m (make_enter (leave_transition_id m) (cw_protocol_epoch (hc_workspace c)) t) t)\<rparr>)"
    if "hc_outbound c = None" "resolve_leave m c = Inr t" "deadline now c = Inr d"
      "checked_add_u64 (hc_last_inbound_sequence c) 1 = Some (leave_transition_id m)" for t d
  proof -
    let ?p = "InboundHint s d m (make_enter (leave_transition_id m) (cw_protocol_epoch (hc_workspace c)) t) t"
    have "inbound_ok (c\<lparr>hc_last_inbound_sequence := hc_last_inbound_sequence c, hc_inbound := Some ?p\<rparr>) ?p"
      using that s deadline_bound[OF that(3)] now
      by (auto simp: inbound_ok_def deadline_ok_def resolve_leave_iff transition_ok_def)
    from inv_set_inbound[OF inv this s(2) that(1)] show ?thesis by simp
  qed
  show ?case
    using inv hint
    by (auto simp: Let_def classify_iff split: InboundSequence.splits option.splits
        intro!: after_inv[OF inv_classify[OF inv]] checked_inv)
qed simp

lemma enter_eq_fields:
  "enter_eq a b \<longleftrightarrow> enter_transition_id a = enter_transition_id b \<and> enter_workspace_epoch a = enter_workspace_epoch b
     \<and> enter_sequence a = enter_sequence b \<and> enter_source_host a = enter_source_host b
     \<and> enter_destination_host a = enter_destination_host b \<and> enter_source_display a = enter_source_display b
     \<and> enter_destination_display a = enter_destination_display b
     \<and> enter_destination_edge a = enter_destination_edge b
     \<and> f64_eq (enter_normalized_position a) (enter_normalized_position b)"
  by (cases a; cases b) (auto simp: enter_eq_def)

lemma leave_eq_fields:
  "leave_eq a b \<longleftrightarrow> leave_transition_id a = leave_transition_id b \<and> leave_workspace_epoch a = leave_workspace_epoch b
     \<and> leave_sequence a = leave_sequence b \<and> leave_source_host a = leave_source_host b
     \<and> leave_source_display a = leave_source_display b \<and> leave_edge a = leave_edge b
     \<and> f64_eq (leave_normalized_position a) (leave_normalized_position b)"
  by (cases a; cases b) (auto simp: leave_eq_def)

lemma f64_eq_refl_valid: "valid_position x \<Longrightarrow> f64_eq x x"
  by (simp add: valid_position_def f64_eq_def f64_finite_not_nan)

lemma match_edges_Some:
  "match_edges m w es matched = Some (Some t) \<Longrightarrow> matched = Some t \<or>
     (\<exists>e. resolve_transition w (enter_source_display m) e (enter_normalized_position m) = Inr t
        \<and> rt_destination_display t = enter_destination_display m
        \<and> edge_to_wire (rt_destination_edge t) = enter_destination_edge m
        \<and> rt_destination_host t = enter_destination_host m \<and> rt_source_host t = enter_source_host m)"
proof (induction es arbitrary: matched)
  case (Cons e es)
  show ?case
  proof (cases "configured_transition w (enter_source_display m) e (enter_normalized_position m)")
    case (Inl err)
    then show ?thesis using Cons by simp
  next
    case (Inr t0)
    then show ?thesis
      using Cons.prems Cons.IH[of matched] Cons.IH[of "Some (resolved_from t0)"]
      by (auto simp: Let_def resolve_transition_iff split: if_splits)
  qed
qed simp

lemma configured_transition_source:
  "configured_transition w d e x = Inr t \<Longrightarrow>
     wt_source_display t = d \<and> wt_source_edge t = e \<and> wt_normalized_position t = x \<and> valid_position x"
  by (auto simp: configured_transition_def Let_def split: if_splits option.splits)

lemma resolve_enter_matches:
  assumes "resolve_enter m c = Inr t" "validate_enter_authority s m c = Inr u" "enter_transition_id m = enter_sequence m"
  shows "transition_ok (hc_workspace c) t"
    "enter_eq (make_enter (enter_transition_id m) (cw_protocol_epoch (hc_workspace c)) t) m"
    "rt_destination_host t = local_host (hc_workspace_state c)"
    "\<exists>s. hc_session c = Some s \<and> rt_source_host t = psb_remote_host_id s"
proof -
  have "match_edges m (hc_workspace c) EDGES None = Some (Some t)"
    and dest: "validate_resolved_destination t c = Inr ()"
    using assms(1) by (auto simp: resolve_enter_def split: option.splits)
  then obtain e where e: "resolve_transition (hc_workspace c) (enter_source_display m) e (enter_normalized_position m) = Inr t"
      "rt_destination_display t = enter_destination_display m"
      "edge_to_wire (rt_destination_edge t) = enter_destination_edge m"
      "rt_destination_host t = enter_destination_host m" "rt_source_host t = enter_source_host m"
    using match_edges_Some[of m "hc_workspace c" EDGES None t] by blast
  then show "transition_ok (hc_workspace c) t" by (auto simp: transition_ok_def)
  show "rt_destination_host t = local_host (hc_workspace_state c)"
    "\<exists>s. hc_session c = Some s \<and> rt_source_host t = psb_remote_host_id s"
    using dest by (auto simp: validate_resolved_destination_def split: option.splits if_splits)
  have "rt_source_display t = enter_source_display m" "rt_normalized_position t = enter_normalized_position m"
      "valid_position (enter_normalized_position m)"
    using e(1) configured_transition_source by (auto simp: resolve_transition_iff resolved_from_def)
  moreover have "enter_workspace_epoch m = cw_protocol_epoch (hc_workspace c)"
    using assms(2) by (auto simp: validate_enter_authority_def split: if_splits)
  ultimately show "enter_eq (make_enter (enter_transition_id m) (cw_protocol_epoch (hc_workspace c)) t) m"
    using e(2-) assms(3) by (simp add: enter_eq_fields make_enter_def f64_eq_refl_valid)
qed

lemma inv_accept_enter:
  assumes "handoff_inv c" "hc_session c = Some s" "hc_session_healthy c" "hc_outbound c = None"
    and "transition_ok (hc_workspace c) t" "rt_source_host t = psb_remote_host_id s"
    and "rt_destination_host t = local_host (hc_workspace_state c)" "deadline_ok c d"
    and "enter_eq (make_enter (enter_transition_id m) (cw_protocol_epoch (hc_workspace c)) t) m"
    and "enter_transition_id m \<noteq> 0"
  shows "handoff_inv (snd (accept_enter s m t d c))"
  unfolding accept_enter_def Let_def snd_conv
proof (rule inv_set_inbound[OF assms(1) _ assms(3,4)])
qed (use assms in \<open>simp add: inbound_ok_def deadline_ok_def\<close>)

lemma inv_rejection_effect:
  assumes "handoff_inv c" "hc_session c = Some s" "hc_session_healthy c"
  shows "handoff_inv (snd (rejection_effect s m o' c))"
proof (cases "deadline (hc_last_now_ns c) c")
  case (Inr d)
  let ?c = "c\<lparr>hc_last_inbound_sequence := enter_transition_id m, hc_inbound := None\<rparr>"
  have "handoff_inv ?c"
    using inv_drop_inbound[OF assms(1), where n = "enter_transition_id m" and x = "hc_completed_inbound c"
        and y = "hc_expired_inbound c"] by (cases c) simp
  then have "handoff_inv (?c\<lparr>hc_reply := Some \<lparr>pr_session = s, pr_transition_id = enter_transition_id m,
      pr_deadline_ns = d, pr_purpose = PurposeRejectedAck, pr_enter = m, pr_message = ack\<rparr>\<rparr>)" for ack
    by (rule inv_set_reply) (use assms deadline_bound[OF Inr] in \<open>auto simp: reply_ok_def deadline_ok_def\<close>)
  then show ?thesis using assms(1) Inr by (simp add: rejection_effect_def Let_def)
qed (use assms inv_clear in \<open>auto simp: rejection_effect_def Let_def\<close>)

lemma inv_answer_again:
  assumes "handoff_inv c" "hc_session c = Some s" "hc_session_healthy c"
  shows "handoff_inv (snd (answer_again s m ack c))"
proof (cases "deadline (hc_last_now_ns c) c")
  case (Inr d)
  have "handoff_inv (c\<lparr>hc_reply := Some \<lparr>pr_session = s, pr_transition_id = enter_transition_id m,
      pr_deadline_ns = d, pr_purpose = PurposeDuplicateAcceptedAck, pr_enter = m, pr_message = ControlAck ack\<rparr>\<rparr>)"
    by (rule inv_set_reply[OF assms(1)]) (use assms deadline_bound[OF Inr] in \<open>auto simp: reply_ok_def deadline_ok_def\<close>)
  then show ?thesis using Inr by (simp add: answer_again_def Let_def)
qed (use assms in \<open>simp add: answer_again_def\<close>)


lemma inv_duplicate_enter:
  assumes "handoff_inv c" "hc_session c = Some s" "hc_session_healthy c"
  shows "handoff_inv (snd (duplicate_enter s m c))"
  unfolding duplicate_enter_def
  using assms(1) inv_answer_again[OF assms]
  by (cases "prepared_answer s m c"; cases "hc_completed_inbound c") auto

lemma inv_receive_enter:
  assumes "handoff_inv c"
  shows "handoff_inv (snd (receive_enter s m now c))"
  unfolding receive_enter_def
proof (rule after_inv[OF inv_prepare_operation[OF assms]], rule checked_inv, goal_cases)
  case (2 u c v)
  note inv = 2(2)
  have now: "hc_last_now_ns c = now" by (rule prepare_operation_now[OF 2(1)])
  have s: "hc_session c = Some s" "hc_session_healthy c" using 2(3) by auto
  note reject = inv_rejection_effect[OF inv s]
  have hint: "handoff_inv (snd (accept_enter_from_hint s m c))"
    if "hc_inbound c = Some (InboundHint s d l e t)" "enter_eq e m" "hc_outbound c = None" "enter_transition_id m \<noteq> 0" for d l e t
  proof -
    have ok: "transition_ok (hc_workspace c) t" "rt_source_host t = psb_remote_host_id s"
        "rt_destination_host t = local_host (hc_workspace_state c)" "deadline_ok c d"
        "e = make_enter (leave_transition_id l) (cw_protocol_epoch (hc_workspace c)) t"
      using handoff_invD(5)[OF inv that(1)] by (auto simp: inbound_ok_def)
    have "enter_transition_id m = leave_transition_id l"
      using that(2) ok(5) by (auto simp: enter_eq_fields make_enter_def)
    then have "enter_eq (make_enter (enter_transition_id m) (cw_protocol_epoch (hc_workspace c)) t) m"
      using that(2) ok(5) by simp
    then have "handoff_inv (snd (accept_enter s m t d (c\<lparr>hc_inbound := None\<rparr>)))"
      by (intro inv_accept_enter[OF inv_drop_inbound'[OF inv]]) (use that ok s in \<open>simp_all add: deadline_ok_def\<close>)
    then show ?thesis using that by (simp add: accept_enter_from_hint_def split_def Let_def)
  qed
  have fresh: "handoff_inv (snd (accept_enter s m t d c))"
    if "validate_enter_authority s m c = Inr w" "resolve_enter m c = Inr t" "deadline now c = Inr d"
      "hc_outbound c = None" "enter_transition_id m = enter_sequence m" "enter_transition_id m \<noteq> 0" for w t d
    using resolve_enter_matches[OF that(2,1,5)] that s deadline_bound[OF that(3)] now
    by (intro inv_accept_enter[OF inv]) (auto simp: deadline_ok_def)
  show ?case
  proof (cases "hc_reply c")
    case None
    have "handoff_inv (snd (if hc_outbound c \<noteq> None then rejection_effect s m RejectedTransition c
       else (case hc_inbound c of
             Some pending \<Rightarrow>
               (if (case pending of InboundHint s' _ _ expected_enter _ \<Rightarrow> s' = s \<and> enter_eq expected_enter m
                    | _ \<Rightarrow> False)
                then accept_enter_from_hint s m c
                else if (case pending of InboundProposal s' _ _ enter _ _ \<Rightarrow> s' = s \<and> enter_eq enter m
                         | _ \<Rightarrow> False)
                then (Inl HandoffStaleEffect, c)
                else rejection_effect s m RejectedTransition c)
           | None \<Rightarrow>
               (case validate_enter_authority s m c of
                  Inl e \<Rightarrow> rejection_effect s m (refused_outcome e) c
                | Inr _ \<Rightarrow>
                  (case resolve_enter m c of
                     Inl e \<Rightarrow> rejection_effect s m
                                (if e = HandoffInvalidDisplay then UnknownDisplay else RejectedTransition) c
                   | Inr t \<Rightarrow>
                       checked (deadline now c) c (\<lambda>deadline_ns.
                         let (effect, c) = accept_enter s m t deadline_ns c in (Inr effect, c)))))))"
      if "enter_transition_id m = enter_sequence m" "enter_transition_id m \<noteq> 0"
      using inv reject hint fresh that
      by (auto simp: split_def Let_def checked_def split: option.split PendingInbound.split sum.split)
    then show ?thesis
      using None inv_duplicate_enter[OF inv s]
      by (auto simp: classify_iff split: InboundSequence.splits intro!: after_inv[OF inv_classify[OF inv]])
  qed (use inv in simp)
qed simp

definition nothing_due :: "u64 \<Rightarrow> CoordinatorCore \<Rightarrow> bool" where
  "nothing_due now c \<longleftrightarrow>
     (case hc_outbound c of None \<Rightarrow> True | Some p \<Rightarrow> now < po_deadline_ns p)
     \<and> (case hc_inbound c of None \<Rightarrow> True | Some p \<Rightarrow> now < inbound_deadline_ns p)
     \<and> (case hc_reply c of None \<Rightarrow> True | Some r \<Rightarrow> now < pr_deadline_ns r)"

lemma expire_nothing: "nothing_due now c \<Longrightarrow> snd (expire now c) = c"
  by (cases "hc_outbound c"; cases "hc_inbound c"; cases "hc_reply c")
    (simp_all add: nothing_due_def expire_def Let_def flip: not_le)

lemma expire_inbound_fields [simp]:
  "hc_inbound (expire_inbound p c) = None" "hc_outbound (expire_inbound p c) = hc_outbound c"
  "hc_reply (expire_inbound p c) = hc_reply c" "hc_workspace_state (expire_inbound p c) = hc_workspace_state c"
  "hc_local_fallback (expire_inbound p c) = hc_local_fallback c" "hc_session (expire_inbound p c) = hc_session c"
  "hc_lifecycle (expire_inbound p c) = hc_lifecycle c" "hc_session_healthy (expire_inbound p c) = hc_session_healthy c"
  "hc_workspace (expire_inbound p c) = hc_workspace c" "hc_owner (expire_inbound p c) = hc_owner c"
  "hc_config (expire_inbound p c) = hc_config c" "hc_last_now_ns (expire_inbound p c) = hc_last_now_ns c"
  "hc_last_outbound_sequence (expire_inbound p c) = hc_last_outbound_sequence c"
  "hc_completed_inbound (expire_inbound p c) = hc_completed_inbound c"
  "hc_completed_outbound (expire_inbound p c) = hc_completed_outbound c"
  by (simp_all add: expire_inbound_def Let_def split: PendingInbound.split)

lemma expire_settles: "nothing_due now (snd (expire now c))"
  by (auto simp: nothing_due_def expire_def Let_def not_le split: option.splits)

lemma prepare_settles: "prepare_operation now c = (Inr u, c') \<Longrightarrow> nothing_due now c'"
  using expire_settles by (auto simp: prepare_operation_def advance_clock_def split: if_splits)

lemma prepare_settled:
  "hc_last_now_ns c = now \<Longrightarrow> nothing_due now c \<Longrightarrow> prepare_operation now c = (Inr (), c)"
  using expire_nothing[of now c] by (cases c) (simp add: prepare_operation_def advance_clock_def)

lemma inv_matches_out:
  assumes "handoff_inv c" "hc_outbound c = Some p"
  shows "hc_session c = Some (po_session p)" "hc_session_healthy c" "hc_lifecycle c = HandoffRunning"
  using handoff_invD(4)[OF assms] handoff_invD(3)[OF assms(1)] assms(2)
  by (auto simp: outbound_ok_def session_ok_def split: option.splits)

lemma inv_leave_sent: "handoff_inv c \<Longrightarrow> handoff_inv (snd (leave_effect_sent f c))"
  and inv_enter_sent: "handoff_inv c \<Longrightarrow> handoff_inv (snd (enter_effect_sent f c))"
proof -
  assume inv: "handoff_inv c"
  have ok: "handoff_inv (c\<lparr>hc_outbound := Some (p\<lparr>po_phase := ph\<rparr>)\<rparr>)"
    if "hc_outbound c = Some p" "po_phase p \<noteq> CommitQueued" "ph \<noteq> CommitQueued" "ph \<noteq> CommitDispatching" for p ph
    by (rule inv_phase[OF inv that(1) inv_matches_out(2)[OF inv that(1)]])
      (use that in \<open>auto simp: outbound_ok_def ack_for_def split: option.splits\<close>)
  show "handoff_inv (snd (leave_effect_sent f c))" "handoff_inv (snd (enter_effect_sent f c))"
    using inv ok by (auto simp: leave_effect_sent_def enter_effect_sent_def Let_def split: option.splits)
qed

lemma inv_accepted_ack_sent:
  assumes "handoff_inv c"
  shows "handoff_inv (snd (accepted_ack_sent f c))"
proof -
  have ok: "handoff_inv (c\<lparr>hc_inbound := Some (InboundPrepared s d l e a (make_commit e t) t)\<rparr>)"
    if "hc_inbound c = Some (InboundProposal s d l e a t)" for s d l e a t
  proof -
    let ?p = "InboundPrepared s d l e a (make_commit e t) t"
    have q: "inbound_ok c (InboundProposal s d l e a t)" by (rule handoff_invD(5)[OF assms that])
    then have p: "inbound_ok (c\<lparr>hc_last_inbound_sequence := hc_last_inbound_sequence c, hc_inbound := Some ?p\<rparr>) ?p"
      by (auto simp: inbound_ok_def deadline_ok_def)
    have "hc_session_healthy c" "hc_outbound c = None"
      using handoff_invD(3)[OF assms] handoff_invD(4)[OF assms] that
      by (cases "hc_outbound c"; auto simp: session_ok_def outbound_ok_def)+
    from inv_set_inbound[OF assms p this] show ?thesis by simp
  qed
  show ?thesis
    using assms ok inv_drop_inbound'[OF assms]
    by (auto simp: accepted_ack_sent_def split: option.splits PendingInbound.splits)
qed

lemma inv_commit_sent: "handoff_inv c \<Longrightarrow> commit_effect_sent f c = (Inl HandoffStaleEffect, c)"
  using handoff_invD(4)[of c] by (auto simp: commit_effect_sent_def outbound_ok_def split: option.splits)

lemma inv_reply_sent:
  assumes "handoff_inv c"
  shows "handoff_inv (snd (reply_effect_sent f c))"
  using assms inv_completed(2)[OF inv_drop_reply[OF assms]] inv_drop_reply[OF assms]
  by (auto simp: reply_effect_sent_def Let_def split: option.splits PointerControlMessage.splits)

lemma inv_effect_sent:
  assumes "handoff_inv c"
  shows "handoff_inv (snd (effect_sent f now c))"
  unfolding effect_sent_def
proof (rule after_inv[OF inv_prepare_operation[OF assms]], rule checked_inv, goal_cases)
  case (2 u c v)
  show ?case
  proof (rule checked_inv[OF 2(2)], goal_cases)
    case 1
    show ?case
      using inv_leave_sent[OF 2(2)] inv_enter_sent[OF 2(2)] inv_accepted_ack_sent[OF 2(2)] inv_commit_sent[OF 2(2)]
        inv_reply_sent[OF 2(2)] 2(2) by (simp split: EffectPurpose.split)
  qed
qed simp

lemma inv_effect_failed:
  assumes "handoff_inv c"
  shows "handoff_inv (snd (effect_failed f c))"
  unfolding effect_failed_def
  using assms inv_fail_local[OF inv_drop_outbound[OF assms]] inv_drop_inbound'[OF assms] inv_drop_reply[OF assms]
  by (auto intro!: checked_inv)

lemma inv_validate_effect_ready:
  assumes "handoff_inv c"
  shows "handoff_inv (snd (validate_effect_ready f now c))"
  unfolding validate_effect_ready_def
  by (rule after_inv[OF inv_prepare_operation[OF assms]], (rule checked_inv, assumption)+) (simp add: Let_def)

lemma validate_effect_ready_iff:
  "validate_effect_ready f now c = (Inr u, c') \<Longrightarrow>
     prepare_operation now c = (Inr (), c') \<and> hc_owner c' = ef_owner f \<and> hc_session c' = Some (ef_session f)
     \<and> hc_session_healthy c' \<and> hc_lifecycle c' = HandoffRunning
     \<and> (ef_purpose f = PurposeCommit \<longrightarrow> matches_outbound_effect f c' \<and> (\<exists>p. hc_outbound c' = Some p \<and> po_phase p = CommitQueued))"
  by (auto simp: validate_effect_ready_def after_Inr checked_Inr validate_effect_owner_def Let_def
      split: EffectPurpose.splits option.splits)

text \<open>
  Dispatching a commit either hands authority over, with the acknowledged transition, or fails
  closed; the intermediate phase is never left behind.
\<close>

lemma dispatch_commit:
  assumes "handoff_inv c" "validate_effect_ready f now c = (Inr u, c1)" "ef_purpose f = PurposeCommit"
  obtains p ack where "hc_outbound c1 = Some p" "po_phase p = CommitQueued" "po_accepted_ack p = Some ack" "ack_for p ack"
    "dispatch_effect dp f now c =
      (case dp (wire_message (ef_message f)) False of
         Inl x \<Rightarrow> (Inl (DispatchOutbound x), fail_local (c1\<lparr>hc_outbound := None\<rparr>))
       | Inr _ \<Rightarrow> (Inr AuthorityCommitted,
           c1\<lparr>hc_outbound := None,
              hc_workspace_state := set_active_pointer (rt_destination_host (po_transition p))
                (rt_destination_pointer (po_transition p)) (hc_workspace_state c1),
              hc_completed_outbound := Some \<lparr>cob_session = po_session p, cob_ack = ack\<rparr>\<rparr>))"
proof -
  note r = validate_effect_ready_iff[OF assms(2)]
  have inv: "handoff_inv c1" using inv_validate_effect_ready[OF assms(1), of f now] assms(2) by simp
  obtain p where p: "hc_outbound c1 = Some p" "po_phase p = CommitQueued" using r assms(3) by blast
  then obtain ack where ack: "po_accepted_ack p = Some ack" "ack_for p ack"
    using handoff_invD(4)[OF inv p(1)] by (auto simp: outbound_ok_def split: option.splits)
  have m: "po_session p = ef_session f" "po_transition_id p = ef_transition_id f"
      "ef_message f = ControlCommit (make_commit (po_enter p) (po_transition p))"
    using r assms(3) p by (auto simp: matches_outbound_effect_def split: PointerControlMessage.splits)
  let ?c2 = "c1\<lparr>hc_outbound := Some (p\<lparr>po_phase := CommitDispatching\<rparr>)\<rparr>"
  have start: "begin_commit_dispatch f c1 = (Inr (), ?c2)"
    by (simp add: begin_commit_dispatch_def p m)
  have noauth: "\<not> has_local_authority ?c2" by (simp add: has_local_authority_def)
  have now: "hc_last_now_ns ?c2 = now" using prepare_operation_now[of now c "()" c1] r by simp
  have due: "nothing_due now ?c2"
    using prepare_settles[of now c "()" c1] r p by (auto simp: nothing_due_def)
  have match: "matches_outbound_effect f ?c2"
    by (simp add: matches_outbound_effect_def m assms(3))
  have sent: "effect_sent f now ?c2 = (Inr AuthorityCommitted,
      c1\<lparr>hc_outbound := None,
         hc_workspace_state := set_active_pointer (rt_destination_host (po_transition p))
           (rt_destination_pointer (po_transition p)) (hc_workspace_state c1),
         hc_completed_outbound := Some \<lparr>cob_session = po_session p, cob_ack = ack\<rparr>\<rparr>)"
    using r m(1) match
    by (simp add: effect_sent_def prepare_settled[OF now due] validate_effect_owner_def require_available_session_def
        ensure_running_def require_session_def assms(3) commit_effect_sent_def ack(1))
  have failed: "effect_failed f ?c2 = (Inr HandoffCleared, fail_local (c1\<lparr>hc_outbound := None\<rparr>))"
    using r match by (simp add: effect_failed_def validate_effect_owner_def assms(3))
  show thesis
    by (rule that[OF p ack])
      (simp add: dispatch_effect_def assms(2,3) start noauth sent failed split: sum.split)
qed

lemma inv_dispatch_effect:
  assumes "handoff_inv c"
  shows "handoff_inv (snd (dispatch_effect dp f now c))"
proof (cases "validate_effect_ready f now c")
  case (Pair r c1)
  have inv: "handoff_inv c1" using inv_validate_effect_ready[OF assms, of f now] Pair by simp
  show ?thesis
  proof (cases r)
    case (Inr u)
    show ?thesis
    proof (cases "ef_purpose f = PurposeCommit")
      case True
      obtain p ack where p: "hc_outbound c1 = Some p" "po_phase p = CommitQueued" and
        d: "dispatch_effect dp f now c =
          (case dp (wire_message (ef_message f)) False of
             Inl x \<Rightarrow> (Inl (DispatchOutbound x), fail_local (c1\<lparr>hc_outbound := None\<rparr>))
           | Inr _ \<Rightarrow> (Inr AuthorityCommitted,
               c1\<lparr>hc_outbound := None,
                  hc_workspace_state := set_active_pointer (rt_destination_host (po_transition p))
                    (rt_destination_pointer (po_transition p)) (hc_workspace_state c1),
                  hc_completed_outbound := Some \<lparr>cob_session = po_session p, cob_ack = ack\<rparr>\<rparr>))"
        using dispatch_commit[OF assms _ True, of now u c1] Pair Inr by metis
      have ok: "transition_ok (hc_workspace c1) (po_transition p)" "hc_inbound c1 = None"
        using handoff_invD(4)[OF inv p(1)] by (auto simp: outbound_ok_def)
      have "handoff_inv (c1\<lparr>hc_outbound := None, hc_workspace_state := set_active_pointer (rt_destination_host (po_transition p))
                (rt_destination_pointer (po_transition p)) (hc_workspace_state c1), hc_completed_outbound := x\<rparr>)" for x
        using inv transition_placed[OF handoff_invD(1)[OF inv] ok(1)] ok(2) handoff_invD(6)[OF inv] handoff_invD(3)[OF inv]
        by (auto simp: handoff_inv_def session_ok_def validate_state_iff reply_ok_def deadline_ok_def split: option.splits)
      then show ?thesis
        using d inv_fail_local[OF inv_drop_outbound[OF inv]] by (simp split: sum.split)
    next
      case False
      then have "dispatch_effect dp f now c =
          (case dp (wire_message (ef_message f)) (has_local_authority c1) of
             Inl x \<Rightarrow> (case effect_failed f c1 of
                  (Inl e, c) \<Rightarrow> (Inl (DispatchHandoff e), c) | (Inr _, c) \<Rightarrow> (Inl (DispatchOutbound x), c))
           | Inr _ \<Rightarrow> map_prod (map_err DispatchHandoff) id (effect_sent f now c1))"
        by (simp add: dispatch_effect_def Pair Inr)
      then show ?thesis
        using inv_effect_failed[OF inv, of f] inv_effect_sent[OF inv, of f now]
        by (auto split: sum.split prod.split)
    qed
  qed (use inv in \<open>simp add: dispatch_effect_def Pair\<close>)
qed

end
