(* ===== verification/HandoffSafety.thy ===== *)
theory HandoffSafety
  imports HandoffInvariant
begin

text \<open>
  Runs of the pointer hand-off coordinator.  The operations form one step function; its reachable
  states satisfy the invariant, and the lemmas follow authority through every step: where it may
  leave, where it may arrive, that nothing stays pending, that a complete exchange between two
  coordinators succeeds and that no commit is applied twice.
\<close>

section \<open>Runs\<close>

text \<open>
  One call of the coordinator.  A replacement workspace is compiled from a candidate, as in the
  daemon; a candidate that does not compile is not presented.  Effects are arbitrary: stale, foreign
  and repeated ones are covered.
\<close>

datatype handoff_op =
    HBind PointerSessionBinding | HHealthy PointerSessionBinding | HDegrade PointerSessionBinding
  | HDisconnect PointerSessionBinding
  | HReplace "u8 list \<Rightarrow> u8 list" WorkspaceEpoch workspace_candidate LogicalPointer
  | HRevoke | HShutdown | HPropose PointerSessionBinding Edge f64 u64 | HObserve LogicalPointer
  | HLeave PointerSessionBinding PointerLeaveV1 u64 | HEnter PointerSessionBinding PointerEnterV1 u64
  | HAck PointerSessionBinding PointerTransitionAckV1 u64 | HCommit PointerSessionBinding PointerTransitionCommitV1 u64
  | HSent CoreEffect u64 | HFailed CoreEffect
  | HDispatch "WireMessage \<Rightarrow> bool \<Rightarrow> (unit, unit) result" CoreEffect u64 | HPoll u64

fun handoff_step :: "handoff_op \<Rightarrow> CoordinatorCore \<Rightarrow> CoordinatorCore" where
  "handoff_step (HBind s) c = snd (bind_session s c)"
| "handoff_step (HHealthy s) c = snd (mark_session_healthy s c)"
| "handoff_step (HDegrade s) c = snd (degrade_session s c)"
| "handoff_step (HDisconnect s) c = snd (disconnect_session s c)"
| "handoff_step (HReplace sha e (ds, ps, ls) p) c =
     (case compile_workspace sha e ds ps ls of Inl _ \<Rightarrow> c | Inr w \<Rightarrow> snd (replace_workspace w p c))"
| "handoff_step HRevoke c = snd (handoff_revoke c)"
| "handoff_step HShutdown c = snd (handoff_shutdown c)"
| "handoff_step (HPropose s e x now) c = snd (propose_leave s e x now c)"
| "handoff_step (HObserve p) c = snd (observe_local_pointer p c)"
| "handoff_step (HLeave s m now) c = snd (receive_leave s m now c)"
| "handoff_step (HEnter s m now) c = snd (receive_enter s m now c)"
| "handoff_step (HAck s m now) c = snd (receive_ack s m now c)"
| "handoff_step (HCommit s m now) c = snd (receive_commit s m now c)"
| "handoff_step (HSent f now) c = snd (effect_sent f now c)"
| "handoff_step (HFailed f) c = snd (effect_failed f c)"
| "handoff_step (HDispatch dp f now) c = snd (dispatch_effect dp f now c)"
| "handoff_step (HPoll now) c = snd (poll_timeout now c)"

inductive handoff_reachable :: "CoordinatorCore \<Rightarrow> bool" where
  handoff_init: "compile_workspace sha e ds ps ls = Inr w \<Longrightarrow> PointerHandoffConfig_new timeout = Inr config
    \<Longrightarrow> CoordinatorCore_new owner config w state fallback = Inr c \<Longrightarrow> handoff_reachable c"
| handoff_next: "handoff_reachable c \<Longrightarrow> handoff_reachable (handoff_step op c)"

lemma inv_new:
  assumes "compile_workspace sha e ds ps ls = Inr w" "PointerHandoffConfig_new timeout = Inr config"
    "CoordinatorCore_new owner config w state fallback = Inr c"
  shows "handoff_inv c"
proof -
  have "0 < phc_timeout config" "phc_timeout config \<le> MAX_POINTER_HANDOFF_TIMEOUT"
    using assms(2) by (auto simp: PointerHandoffConfig_new_def split: if_splits)
  then show ?thesis
    using assms(3) compile_workspace_wf[OF assms(1)]
    by (auto simp: CoordinatorCore_new_def handoff_inv_def session_ok_def)
qed

lemma inv_step: "handoff_inv c \<Longrightarrow> handoff_inv (handoff_step op c)"
proof (induction op c rule: handoff_step.induct)
  case (5 sha e ds ps ls p c)
  then show ?case
    using inv_replace_workspace[OF 5 compile_workspace_wf] by (auto split: sum.split)
qed (simp_all add: inv_bind_session inv_session_ops handoff_revoke_def handoff_shutdown_def inv_propose_leave
    inv_observe inv_receive_leave inv_receive_enter inv_receive_ack inv_receive_commit inv_effect_sent
    inv_effect_failed inv_dispatch_effect inv_poll_timeout)

lemma reachable_inv: "handoff_reachable c \<Longrightarrow> handoff_inv c"
  by (induction rule: handoff_reachable.induct) (auto intro: inv_new inv_step)

section \<open>Where authority moves\<close>

definition local_active :: "CoordinatorCore \<Rightarrow> bool" where
  "local_active c \<longleftrightarrow> active_host (hc_workspace_state c) = local_host (hc_workspace_state c)"

lemma authority_iff: "handoff_inv c \<Longrightarrow> has_local_authority c \<longleftrightarrow> local_active c"
  using handoff_invD(4)[of c] by (auto simp: has_local_authority_def local_active_def outbound_ok_def split: option.splits)

lemma local_active_fail_local [simp]: "local_active (fail_local c)"
  by (simp add: local_active_def)

lemma pending_local: "handoff_inv c \<Longrightarrow> hc_outbound c = Some p \<Longrightarrow> local_active c"
  using handoff_invD(4)[of c p] by (auto simp: outbound_ok_def local_active_def)

text \<open>Authority is kept: the state satisfies the invariant and the local host is active exactly when \<open>b\<close>.\<close>

definition kept :: "bool \<Rightarrow> CoordinatorCore \<Rightarrow> bool" where
  "kept b c \<longleftrightarrow> handoff_inv c \<and> local_active c = b"

lemmas checked_kept = checked_state[where P = "kept b" for b]
lemmas after_kept = after_state[where P = "kept b" for b]

lemma local_active_same: "hc_workspace_state c' = hc_workspace_state c \<Longrightarrow> local_active c' = local_active c"
  by (simp add: local_active_def)

lemma expire_local_active: "handoff_inv c \<Longrightarrow> local_active (snd (expire now c)) = local_active c"
  using pending_local[of c]
  by (auto simp: expire_def Let_def local_active_def split: option.splits)

lemma kept_prepare: "kept b c \<Longrightarrow> kept b (snd (prepare_operation now c))"
  using inv_prepare_operation[of c now] expire_local_active[OF inv_clock, of c now]
  by (auto simp: kept_def prepare_operation_def advance_clock_def local_active_def not_less)

lemma kept_poll: "kept b c \<Longrightarrow> kept b (snd (poll_timeout now c))"
  using inv_poll_timeout[of c now] expire_local_active[OF inv_clock, of c now]
  by (auto simp: kept_def poll_timeout_def advance_clock_def local_active_def not_less split_def Let_def)

lemma kept_propose:
  assumes "kept b c"
  shows "kept b (snd (propose_leave s e x now c))"
proof -
  have inv: "handoff_inv (snd (propose_leave s e x now c))" using assms inv_propose_leave by (simp add: kept_def)
  have "local_active (snd (propose_leave s e x now c)) = b"
    unfolding propose_leave_def
  proof (rule after_state[where P = "\<lambda>c. local_active c = b"], goal_cases)
    case 1 show ?case using kept_prepare[OF assms] by (simp add: kept_def)
  next
    case (2 u c)
    then show ?case
      by (auto simp: next_outbound_sequence_def Let_def checked_def after_def has_local_authority_def local_active_def
          split: sum.split option.split)
  qed
  with inv show ?thesis by (simp add: kept_def)
qed

lemma local_active_update: "local_active (c\<lparr>hc_inbound := x\<rparr>) = local_active c" "local_active (c\<lparr>hc_reply := y\<rparr>) = local_active c"
    "local_active (c\<lparr>hc_outbound := z\<rparr>) = local_active c"
  by (simp_all add: local_active_def)

lemma local_active_reject [simp]: "local_active (snd (rejection_effect s m x c)) = local_active c"
  by (auto simp: rejection_effect_def Let_def local_active_def split: sum.split)

lemma local_active_answer [simp]: "local_active (snd (answer_again s m x c)) = local_active c"
  by (auto simp: answer_again_def Let_def local_active_def checked_def split: sum.split)

lemma local_active_duplicate [simp]: "local_active (snd (duplicate_enter s m c)) = local_active c"
  by (auto simp: duplicate_enter_def split: option.split)

lemma local_active_accept [simp]:
  "local_active (snd (accept_enter s m t d c)) = local_active c"
  "local_active (snd (accept_enter_from_hint s m c)) = local_active c"
  by (auto simp: accept_enter_def accept_enter_from_hint_def local_active_def Let_def split: option.split PendingInbound.split)

lemma local_active_classify [simp]: "local_active (snd (classify_inbound_sequence i s c)) = local_active c"
  by (auto simp: classify_inbound_sequence_def local_active_def split: option.split)

lemma kept_leave:
  assumes "kept b c"
  shows "kept b (snd (receive_leave s m now c))"
proof -
  have "local_active (snd (receive_leave s m now c)) = b"
    unfolding receive_leave_def
  proof (rule after_state[where P = "\<lambda>c. local_active c = b"], goal_cases)
    case 1 show ?case using kept_prepare[OF assms] by (simp add: kept_def)
  next
    case (2 u c)
    show ?case
    proof (rule checked_state[where P = "\<lambda>c. local_active c = b"], goal_cases)
      case 1 show ?case using 2 by simp
    next
      case (2 v)
      obtain r c2 where cl: "classify_inbound_sequence (leave_transition_id m) (leave_sequence m) c = (r, c2)"
        by (cases "classify_inbound_sequence (leave_transition_id m) (leave_sequence m) c")
      have c2: "local_active c2 = local_active c"
        using local_active_classify[of "leave_transition_id m" "leave_sequence m" c] cl by simp
      show ?case
        using \<open>local_active c = b\<close> c2
        by (cases r) (auto simp: cl checked_def Let_def local_active_update split: InboundSequence.split option.split sum.split)
    qed
  qed
  then show ?thesis using assms inv_receive_leave by (simp add: kept_def)
qed

lemma kept_enter:
  assumes "kept b c"
  shows "kept b (snd (receive_enter s m now c))"
proof -
  have "local_active (snd (receive_enter s m now c)) = b"
    unfolding receive_enter_def
  proof (rule after_state[where P = "\<lambda>c. local_active c = b"], goal_cases)
    case 1 show ?case using kept_prepare[OF assms] by (simp add: kept_def)
  next
    case (2 u c)
    show ?case
    proof (rule checked_state[where P = "\<lambda>c. local_active c = b"], goal_cases)
      case 1 show ?case using 2 by simp
    next
      case (2 v)
      obtain r c2 where cl: "classify_inbound_sequence (enter_transition_id m) (enter_sequence m) c = (r, c2)"
        by (cases "classify_inbound_sequence (enter_transition_id m) (enter_sequence m) c")
      have c2: "local_active c2 = local_active c"
        using local_active_classify[of "enter_transition_id m" "enter_sequence m" c] cl by simp
      show ?case
        using \<open>local_active c = b\<close> c2
        by (cases r) (auto simp: cl checked_def Let_def split_def split: InboundSequence.split option.split sum.split)
    qed
  qed
  then show ?thesis using assms inv_receive_enter by (simp add: kept_def)
qed


lemma kept_ack:
  assumes "kept b c"
  shows "kept b (snd (receive_ack s m now c))"
proof -
  have "kept b (snd (prepare_operation now c))" by (rule kept_prepare[OF assms])
  moreover have "local_active (snd (receive_ack s m now c)) = b"
    unfolding receive_ack_def
  proof (rule after_state[where P = "\<lambda>c. local_active c = b"], goal_cases)
    case 1 show ?case using kept_prepare[OF assms] by (simp add: kept_def)
  next
    case (2 u c')
    then have "kept b c'" using kept_prepare[OF assms, of now] by simp
    then show ?case
      using pending_local[of c']
      by (auto simp: checked_def Let_def kept_def local_active_def split: sum.split option.split)
  qed
  ultimately show ?thesis using assms inv_receive_ack by (simp add: kept_def)
qed

lemma kept_effect_sent:
  assumes "kept b c"
  shows "kept b (snd (effect_sent f now c))"
proof -
  have "local_active (snd (effect_sent f now c)) = b"
    unfolding effect_sent_def
  proof (rule after_state[where P = "\<lambda>c. local_active c = b"], goal_cases)
    case 1 show ?case using kept_prepare[OF assms] by (simp add: kept_def)
  next
    case (2 u c')
    then have c': "handoff_inv c'" "local_active c' = b" using kept_prepare[OF assms, of now] by (simp_all add: kept_def)
    have "local_active (snd (leave_effect_sent f c')) = b" "local_active (snd (enter_effect_sent f c')) = b"
      "local_active (snd (reply_effect_sent f c')) = b" "local_active (snd (accepted_ack_sent f c')) = b"
      using c'(2) by (auto simp: leave_effect_sent_def enter_effect_sent_def reply_effect_sent_def
          accepted_ack_sent_def Let_def local_active_def
          split: option.split PointerControlMessage.split PendingInbound.split)
    then show ?case
      using c'(2) inv_commit_sent[OF c'(1)] by (auto simp: checked_def split: sum.split EffectPurpose.split)
  qed
  then show ?thesis using assms inv_effect_sent by (simp add: kept_def)
qed

lemma kept_effect_failed:
  assumes "kept b c"
  shows "kept b (snd (effect_failed f c))"
proof -
  have "local_active (snd (effect_failed f c)) = b"
  proof (cases "hc_outbound c")
    case None
    then show ?thesis using assms
      by (auto simp: effect_failed_def checked_def kept_def matches_outbound_effect_def local_active_def split: sum.split)
  next
    case (Some p)
    then show ?thesis using assms pending_local[of c p]
      by (auto simp: effect_failed_def checked_def kept_def local_active_update split: sum.split)
  qed
  then show ?thesis using assms inv_effect_failed by (simp add: kept_def)
qed

lemma kept_observe: "kept b c \<Longrightarrow> kept b (snd (observe_local_pointer p c))"
  using inv_observe[of c p]
  by (auto simp: kept_def observe_local_pointer_def checked_def has_local_authority_def local_active_def split: sum.split)

lemma kept_ready: "kept b c \<Longrightarrow> kept b (snd (validate_effect_ready f now c))"
proof -
  assume h: "kept b c"
  have "local_active (snd (validate_effect_ready f now c)) = b"
    unfolding validate_effect_ready_def
    by (rule after_state[where P = "\<lambda>c. local_active c = b"])
      (use kept_prepare[OF h, of now] in \<open>auto simp: kept_def checked_def Let_def split: sum.split\<close>)
  then show ?thesis using h inv_validate_effect_ready by (simp add: kept_def)
qed

lemma dispatch_authority:
  assumes "handoff_inv c"
  shows "local_active (snd (dispatch_effect dp f now c)) = local_active c
    \<or> (\<exists>c1 p. validate_effect_ready f now c = (Inr (), c1) \<and> local_active c \<and> \<not> local_active (snd (dispatch_effect dp f now c))
        \<and> ef_purpose f = PurposeCommit
        \<and> hc_outbound c1 = Some p \<and> po_phase p = CommitQueued \<and> (\<exists>ack. po_accepted_ack p = Some ack \<and> ack_for p ack)
        \<and> dp (wire_message (ef_message f)) False = Inr ()
        \<and> active_host (hc_workspace_state (snd (dispatch_effect dp f now c))) = rt_destination_host (po_transition p))"
proof (cases "validate_effect_ready f now c")
  case (Pair r c1)
  have k: "kept (local_active c) c1"
    using kept_ready[of "local_active c" c f now] assms Pair by (simp add: kept_def)
  show ?thesis
  proof (cases r)
    case (Inr u)
    show ?thesis
    proof (cases "ef_purpose f = PurposeCommit")
      case True
      obtain p ack where p: "hc_outbound c1 = Some p" "po_phase p = CommitQueued" "po_accepted_ack p = Some ack" "ack_for p ack" and
        d: "dispatch_effect dp f now c =
          (case dp (wire_message (ef_message f)) False of
             Inl x \<Rightarrow> (Inl (DispatchOutbound x), fail_local (c1\<lparr>hc_outbound := None\<rparr>))
           | Inr _ \<Rightarrow> (Inr AuthorityCommitted,
               c1\<lparr>hc_outbound := None,
                  hc_workspace_state := set_active_pointer (rt_destination_host (po_transition p))
                    (rt_destination_pointer (po_transition p)) (hc_workspace_state c1),
                  hc_completed_outbound := Some \<lparr>cob_session = po_session p, cob_ack = ack\<rparr>\<rparr>))"
        using dispatch_commit[OF assms _ True, of now u c1] Pair Inr by metis
      have act: "local_active c" using pending_local[OF _ p(1)] k by (simp add: kept_def)
      show ?thesis
      proof (cases "dp (wire_message (ef_message f)) False")
        case (Inl x)
        then show ?thesis using d act by simp
      next
        case (Inr w)
        then show ?thesis using d act p Pair \<open>r = Inr u\<close> True by (auto simp: local_active_def)
      qed
    next
      case False
      then have "dispatch_effect dp f now c =
          (case dp (wire_message (ef_message f)) (has_local_authority c1) of
             Inl x \<Rightarrow> (case effect_failed f c1 of
                  (Inl e, c) \<Rightarrow> (Inl (DispatchHandoff e), c) | (Inr _, c) \<Rightarrow> (Inl (DispatchOutbound x), c))
           | Inr _ \<Rightarrow> map_prod (map_err DispatchHandoff) id (effect_sent f now c1))"
        by (simp add: dispatch_effect_def Pair Inr)
      then show ?thesis
        using kept_effect_failed[OF k, of f] kept_effect_sent[OF k, of f now]
        by (auto simp: kept_def split: sum.split prod.split)
    qed
  qed (use k in \<open>simp add: dispatch_effect_def Pair kept_def\<close>)
qed

lemma commit_authority:
  assumes "handoff_inv c"
  shows "local_active (snd (receive_commit s m now c)) = local_active c
    \<or> (local_active (snd (receive_commit s m now c)) \<and> hc_session c = Some s
       \<and> (\<exists>d l enter ack t. hc_inbound (snd (prepare_operation now c)) = Some (InboundPrepared s d l enter ack m t)))"
proof (cases "prepare_operation now c")
  case (Pair r c1)
  have k: "kept (local_active c) c1"
    using kept_prepare[of "local_active c" c now] assms Pair by (simp add: kept_def)
  show ?thesis
  proof (cases r)
    case (Inr u)
    show ?thesis
    proof (cases rule: apply_commit_cases[of s m c1])
      case (refused e)
      then show ?thesis
        using k by (auto simp: receive_commit_def Pair Inr checked_def kept_def split: sum.split option.split)
    next
      case (applied d l enter ack t)
      have i: "inbound_ok c1 (InboundPrepared s d l enter ack m t)"
        using handoff_invD(5)[OF _ applied(1)] k by (simp add: kept_def)
      have "hc_session (snd (expire now c)) = hc_session c" for c
        by (auto simp: expire_def Let_def split: option.split)
      then have "hc_session c1 = hc_session c"
        using Pair Inr by (auto simp: prepare_operation_def advance_clock_def split: if_splits)
      then have "local_active (snd (apply_commit s m c1))" "hc_session c = Some s"
        unfolding applied(2) using i by (auto simp: inbound_ok_def local_active_def)
      then show ?thesis
        using k applied(1) by (auto simp: receive_commit_def Pair Inr checked_def kept_def split: sum.split option.split)
    qed
  qed (use k in \<open>simp add: receive_commit_def Pair kept_def\<close>)
qed

text \<open>The operations that return the pointer to the local host whatever was going on.\<close>

fun resets :: "handoff_op \<Rightarrow> bool" where
  "resets (HBind _) = True"
| "resets (HDegrade _) = True"
| "resets (HDisconnect _) = True"
| "resets (HReplace _ _ _ _) = True"
| "resets HRevoke = True"
| "resets HShutdown = True"
| "resets _ = False"

lemma reset_step:
  assumes "resets op"
  shows "handoff_step op c = c \<or> hc_outbound (handoff_step op c) = None \<and> hc_inbound (handoff_step op c) = None
    \<and> hc_reply (handoff_step op c) = None
    \<and> local_active (handoff_step op c) \<and> ws_pointer (hc_workspace_state (handoff_step op c)) = hc_local_fallback (handoff_step op c)
    \<or> hc_session c = None \<and> (\<exists>s. op = HBind s) \<and> hc_workspace_state (handoff_step op c) = hc_workspace_state c"
  using assms
  by (cases "(op, c)" rule: handoff_step.cases)
    (auto simp: bind_session_def degrade_session_def disconnect_session_def replace_workspace_def handoff_revoke_def
      handoff_shutdown_def handoff_stop_def checked_def local_active_def Let_def split: sum.split)

lemma handoff_step_authority:
  assumes "handoff_inv c" "\<not> resets op"
  shows "local_active (handoff_step op c) = local_active c
    \<or> (\<exists>dp f now. op = HDispatch dp f now) \<or> (\<exists>s m now. op = HCommit s m now)"
proof -
  have k: "kept (local_active c) c" using assms(1) by (simp add: kept_def)
  show ?thesis
    using assms(2) kept_poll[OF k] kept_propose[OF k] kept_leave[OF k] kept_enter[OF k] kept_ack[OF k]
      kept_effect_sent[OF k] kept_effect_failed[OF k] kept_observe[OF k]
    by (cases "(op, c)" rule: handoff_step.cases)
      (auto simp: kept_def mark_session_healthy_def checked_def local_active_def split: sum.split)
qed

section \<open>Settling\<close>

lemma expire_due:
  assumes "\<And>p. hc_outbound c = Some p \<Longrightarrow> po_deadline_ns p \<le> now"
    "\<And>p. hc_inbound c = Some p \<Longrightarrow> inbound_deadline_ns p \<le> now"
    "\<And>p. hc_reply c = Some p \<Longrightarrow> pr_deadline_ns p \<le> now"
  shows "hc_outbound (snd (expire now c)) = None" "hc_inbound (snd (expire now c)) = None"
    "hc_reply (snd (expire now c)) = None"
    "hc_outbound c \<noteq> None \<Longrightarrow> ws_pointer (hc_workspace_state (snd (expire now c))) = hc_local_fallback c"
    "hc_outbound c \<noteq> None \<Longrightarrow> local_active (snd (expire now c))"
  using assms by (auto simp: expire_def Let_def split: option.split)

section \<open>A complete hand-off between two coordinators\<close>

definition session_up :: "PointerSessionBinding \<Rightarrow> CoordinatorCore \<Rightarrow> bool" where
  "session_up s c \<longleftrightarrow> hc_session c = Some s \<and> hc_session_healthy c \<and> hc_lifecycle c = HandoffRunning"

lemma session_up_available [simp]: "session_up s c \<Longrightarrow> require_available_session s c = Inr ()"
  by (simp add: session_up_def)

lemma session_up_update [simp]:
  "session_up s (c\<lparr>hc_last_now_ns := now\<rparr>) = session_up s c" "session_up s (c\<lparr>hc_outbound := x\<rparr>) = session_up s c"
  "session_up s (c\<lparr>hc_inbound := y\<rparr>) = session_up s c" "session_up s (c\<lparr>hc_last_outbound_sequence := n\<rparr>) = session_up s c"
  "session_up s (c\<lparr>hc_last_inbound_sequence := n\<rparr>) = session_up s c"
  by (simp_all add: session_up_def)

lemma prepare_advance:
  "hc_last_now_ns c \<le> now \<Longrightarrow> nothing_due now c \<Longrightarrow> prepare_operation now c = (Inr (), c\<lparr>hc_last_now_ns := now\<rparr>)"
proof -
  assume "hc_last_now_ns c \<le> now" "nothing_due now c"
  moreover have "nothing_due now (c\<lparr>hc_last_now_ns := now\<rparr>)"
    using calculation(2) by (simp add: nothing_due_def)
  ultimately show ?thesis
    using expire_nothing[of now "c\<lparr>hc_last_now_ns := now\<rparr>"]
    by (simp add: prepare_operation_def advance_clock_def flip: not_le)
qed

abbreviation queued :: "WireMessage \<Rightarrow> bool \<Rightarrow> (unit, unit) result" where
  "queued m b \<equiv> Inr ()"

lemma leave_eq_refl: "valid_position (leave_normalized_position m) \<Longrightarrow> leave_eq m m"
  by (simp add: leave_eq_fields f64_eq_refl_valid)

lemma enter_eq_refl: "valid_position (enter_normalized_position m) \<Longrightarrow> enter_eq m m"
  by (simp add: enter_eq_fields f64_eq_refl_valid)

lemma make_positions [simp]:
  "leave_normalized_position (make_leave i e t) = rt_normalized_position t"
  "enter_normalized_position (make_enter i e t) = rt_normalized_position t"
  by (simp_all add: make_leave_def make_enter_def)

lemma deadline_clock: "deadline now (c\<lparr>hc_last_now_ns := t\<rparr>) = deadline now c"
  by (simp add: deadline_def)

lemma propose_ok:
  assumes "session_up s c" "hc_outbound c = None" "hc_inbound c = None" "nothing_due now c" "hc_last_now_ns c \<le> now"
    and "local_active c" "active_display (hc_workspace_state c) = lp_display_id (ws_pointer (hc_workspace_state c))"
    and "resolve_transition (hc_workspace c) (active_display (hc_workspace_state c)) edge x = Inr t"
    and "rt_source_host t = local_host (hc_workspace_state c)" "rt_destination_host t = psb_remote_host_id s"
    and "checked_add_u64 (hc_last_outbound_sequence c) 1 = Some n" "deadline now c = Inr d"
  shows "propose_leave s edge x now c =
    (Inr \<lparr>ef_owner = hc_owner c, ef_session = s, ef_transition_id = n, ef_purpose = PurposeLeave,
          ef_message = ControlLeave (make_leave n (cw_protocol_epoch (hc_workspace c)) t)\<rparr>,
     c\<lparr>hc_last_now_ns := now, hc_last_outbound_sequence := n,
       hc_outbound := Some \<lparr>po_session = s, po_transition_id = n, po_deadline_ns = d,
         po_leave = make_leave n (cw_protocol_epoch (hc_workspace c)) t,
         po_enter = make_enter n (cw_protocol_epoch (hc_workspace c)) t,
         po_accepted_ack = None, po_transition = t, po_phase = LeaveQueued\<rparr>\<rparr>)"
proof -
  have d: "deadline now (c\<lparr>hc_last_now_ns := now\<rparr>) = Inr d" using assms(12) by (simp only: deadline_clock)
  have "has_local_authority (c\<lparr>hc_last_now_ns := now\<rparr>)"
    using assms(2,6) by (simp add: has_local_authority_def local_active_def)
  then show ?thesis
    using assms(1-11) by (simp add: propose_leave_def prepare_advance d next_outbound_sequence_def make_effect_def Let_def)
qed

lemma dispatch_ready:
  assumes "session_up (ef_session f) c" "ef_owner f = hc_owner c" "nothing_due now c" "hc_last_now_ns c \<le> now"
    and "ef_purpose f \<in> {PurposeLeave, PurposeEnter} \<and> matches_outbound_effect f c
       \<or> ef_purpose f = PurposeAcceptedAck \<and> matches_inbound_ack_effect f c
       \<or> ef_purpose f = PurposeCommit \<and> matches_outbound_effect f c \<and> (\<exists>p. hc_outbound c = Some p \<and> po_phase p = CommitQueued)"
  shows "validate_effect_ready f now c = (Inr (), c\<lparr>hc_last_now_ns := now\<rparr>)"
proof -
  have "matches_outbound_effect f (c\<lparr>hc_last_now_ns := now\<rparr>) = matches_outbound_effect f c"
    "matches_inbound_ack_effect f (c\<lparr>hc_last_now_ns := now\<rparr>) = matches_inbound_ack_effect f c"
    by (simp_all add: matches_outbound_effect_def matches_inbound_ack_effect_def)
  then show ?thesis
    using assms by (auto simp: validate_effect_ready_def prepare_advance validate_effect_owner_def)
qed

lemma effect_sent_now:
  assumes "session_up (ef_session f) c" "ef_owner f = hc_owner c" "nothing_due (hc_last_now_ns c) c"
  shows "effect_sent f (hc_last_now_ns c) c = (case ef_purpose f of
       PurposeLeave \<Rightarrow> leave_effect_sent f c
     | PurposeEnter \<Rightarrow> enter_effect_sent f c
     | PurposeAcceptedAck \<Rightarrow> accepted_ack_sent f c
     | PurposeCommit \<Rightarrow> commit_effect_sent f c
     | PurposeDuplicateAcceptedAck \<Rightarrow> reply_effect_sent f c
     | PurposeRejectedAck \<Rightarrow> reply_effect_sent f c)"
  using assms by (simp add: effect_sent_def prepare_settled[OF refl assms(3)] validate_effect_owner_def)

lemma dispatch_leave_ok:
  assumes "session_up s c" "hc_outbound c = Some p" "po_phase p = LeaveQueued" "po_session p = s"
    and "nothing_due now c" "hc_last_now_ns c \<le> now" "valid_position (leave_normalized_position (po_leave p))"
    and f: "f = \<lparr>ef_owner = hc_owner c, ef_session = s, ef_transition_id = po_transition_id p,
                 ef_purpose = PurposeLeave, ef_message = ControlLeave (po_leave p)\<rparr>"
  shows "dispatch_effect queued f now c =
    (Inr (EffectNext \<lparr>ef_owner = hc_owner c, ef_session = s, ef_transition_id = po_transition_id p,
            ef_purpose = PurposeEnter, ef_message = ControlEnter (po_enter p)\<rparr>),
     c\<lparr>hc_last_now_ns := now, hc_outbound := Some (p\<lparr>po_phase := EnterQueued\<rparr>)\<rparr>)"
proof -
  have m: "matches_outbound_effect f c"
    using assms by (simp add: matches_outbound_effect_def leave_eq_refl)
  have r: "validate_effect_ready f now c = (Inr (), c\<lparr>hc_last_now_ns := now\<rparr>)"
    by (rule dispatch_ready) (use assms m in auto)
  have "nothing_due now (c\<lparr>hc_last_now_ns := now\<rparr>)" using assms(5) by (simp add: nothing_due_def)
  then show ?thesis
    using effect_sent_now[of f "c\<lparr>hc_last_now_ns := now\<rparr>"] assms
    by (simp add: dispatch_effect_def r[unfolded f] leave_effect_sent_def leave_eq_refl make_effect_def Let_def)
qed

lemma dispatch_enter_ok:
  assumes "session_up s c" "hc_outbound c = Some p" "po_phase p = EnterQueued" "po_session p = s"
    and "nothing_due now c" "hc_last_now_ns c \<le> now" "valid_position (enter_normalized_position (po_enter p))"
    and f: "f = \<lparr>ef_owner = hc_owner c, ef_session = s, ef_transition_id = po_transition_id p,
                 ef_purpose = PurposeEnter, ef_message = ControlEnter (po_enter p)\<rparr>"
  shows "dispatch_effect queued f now c =
    (Inr EffectSent, c\<lparr>hc_last_now_ns := now, hc_outbound := Some (p\<lparr>po_phase := AwaitingAck\<rparr>)\<rparr>)"
proof -
  have m: "matches_outbound_effect f c"
    using assms by (simp add: matches_outbound_effect_def enter_eq_refl)
  have r: "validate_effect_ready f now c = (Inr (), c\<lparr>hc_last_now_ns := now\<rparr>)"
    by (rule dispatch_ready) (use assms m in auto)
  have "nothing_due now (c\<lparr>hc_last_now_ns := now\<rparr>)" using assms(5) by (simp add: nothing_due_def)
  then show ?thesis
    using effect_sent_now[of f "c\<lparr>hc_last_now_ns := now\<rparr>"] assms
    by (simp add: dispatch_effect_def r[unfolded f] enter_effect_sent_def enter_eq_refl)
qed

lemma dispatch_ack_ok:
  assumes "session_up s c" "hc_inbound c = Some (InboundProposal s d l e a t)"
    and "nothing_due now c" "hc_last_now_ns c \<le> now"
    and f: "f = \<lparr>ef_owner = hc_owner c, ef_session = s, ef_transition_id = enter_transition_id e,
                 ef_purpose = PurposeAcceptedAck, ef_message = ControlAck a\<rparr>"
  shows "dispatch_effect queued f now c =
    (Inr EffectSent, c\<lparr>hc_last_now_ns := now, hc_inbound := Some (InboundPrepared s d l e a (make_commit e t) t)\<rparr>)"
proof -
  have m: "matches_inbound_ack_effect f c"
    using assms by (simp add: matches_inbound_ack_effect_def)
  have r: "validate_effect_ready f now c = (Inr (), c\<lparr>hc_last_now_ns := now\<rparr>)"
    by (rule dispatch_ready) (use assms m in auto)
  have "nothing_due now (c\<lparr>hc_last_now_ns := now\<rparr>)" using assms(3) by (simp add: nothing_due_def)
  then show ?thesis
    using effect_sent_now[of f "c\<lparr>hc_last_now_ns := now\<rparr>"] assms
    by (simp add: dispatch_effect_def r[unfolded f] accepted_ack_sent_def)
qed

lemma dispatch_commit_ok:
  assumes "handoff_inv c" "session_up s c" "hc_outbound c = Some p" "po_phase p = CommitQueued" "po_session p = s"
    and "nothing_due now c" "hc_last_now_ns c \<le> now" "po_accepted_ack p = Some a"
    and f: "f = \<lparr>ef_owner = hc_owner c, ef_session = s, ef_transition_id = po_transition_id p,
                 ef_purpose = PurposeCommit, ef_message = ControlCommit (make_commit (po_enter p) (po_transition p))\<rparr>"
  shows "dispatch_effect queued f now c =
    (Inr AuthorityCommitted,
     c\<lparr>hc_last_now_ns := now, hc_outbound := None,
       hc_workspace_state := set_active_pointer (rt_destination_host (po_transition p))
         (rt_destination_pointer (po_transition p)) (hc_workspace_state c),
       hc_completed_outbound := Some \<lparr>cob_session = s, cob_ack = a\<rparr>\<rparr>)"
proof -
  have m: "matches_outbound_effect f c"
    using assms by (simp add: matches_outbound_effect_def)
  have r: "validate_effect_ready f now c = (Inr (), c\<lparr>hc_last_now_ns := now\<rparr>)"
    by (rule dispatch_ready) (use assms m in auto)
  have q: "ef_purpose f = PurposeCommit" by (simp add: f)
  obtain p' a' where p': "hc_outbound (c\<lparr>hc_last_now_ns := now\<rparr>) = Some p'" "po_accepted_ack p' = Some a'" and
    d: "dispatch_effect queued f now c =
      (case queued (wire_message (ef_message f)) False of
         Inl x \<Rightarrow> (Inl (DispatchOutbound x), fail_local (c\<lparr>hc_last_now_ns := now, hc_outbound := None\<rparr>))
       | Inr _ \<Rightarrow> (Inr AuthorityCommitted,
           c\<lparr>hc_last_now_ns := now, hc_outbound := None,
              hc_workspace_state := set_active_pointer (rt_destination_host (po_transition p'))
                (rt_destination_pointer (po_transition p')) (hc_workspace_state (c\<lparr>hc_last_now_ns := now\<rparr>)),
              hc_completed_outbound := Some \<lparr>cob_session = po_session p', cob_ack = a'\<rparr>\<rparr>))"
    using dispatch_commit[OF assms(1) r q, of queued] by metis
  then show ?thesis using assms by simp
qed

lemma edge_wire [simp]: "edge_from_wire (edge_to_wire e) = e"
  by (cases e) simp_all

lemma no_pending_due: "hc_outbound c = None \<Longrightarrow> hc_inbound c = None \<Longrightarrow> hc_reply c = None \<Longrightarrow> nothing_due now c"
  by (simp add: nothing_due_def)

lemma resolve_transition_fields:
  assumes "resolve_transition w d e x = Inr t" "workspace_wf w"
  shows "rt_source_display t = d" "rt_source_edge t = e" "rt_normalized_position t = x" "valid_position x"
    "owner_of w d = Some (rt_source_host t)" "owner_of w (rt_destination_display t) = Some (rt_destination_host t)"
proof -
  obtain t0 where t0: "configured_transition w d e x = Inr t0" "t = resolved_from t0"
    using assms(1) by (auto simp: resolve_transition_iff)
  note c = configured_transition_source[OF t0(1)]
  then show "rt_source_display t = d" "rt_source_edge t = e" "rt_normalized_position t = x" "valid_position x"
    by (simp_all add: t0(2) resolved_from_def)
  show "owner_of w d = Some (rt_source_host t)" "owner_of w (rt_destination_display t) = Some (rt_destination_host t)"
    using t0(1) unfolding configured_transition_iff[OF assms(2)]
    by (auto simp: t0(2) resolved_from_def owner_of_def)
qed

text \<open>Two workspaces compiled from the same layout; their local epochs may differ.\<close>

definition same_workspace :: "ConfiguredWorkspace \<Rightarrow> ConfiguredWorkspace \<Rightarrow> bool" where
  "same_workspace v w \<longleftrightarrow> cw_displays v = cw_displays w \<and> cw_links v = cw_links w
     \<and> cw_protocol_epoch v = cw_protocol_epoch w"

lemma same_workspace_resolve:
  "same_workspace v w \<Longrightarrow> resolve_transition v d e x = resolve_transition w d e x"
proof -
  assume s: "same_workspace v w"
  have "configured_transition v d e x = map_sum id (\<lambda>t. t\<lparr>wt_epoch := cw_epoch v\<rparr>) (configured_transition w d e x)"
    using s by (auto simp: configured_transition_def same_workspace_def Let_def split: option.split)
  then show ?thesis
    by (cases "configured_transition w d e x") (simp_all add: resolve_transition_def resolved_from_def)
qed

lemma receive_leave_ok:
  assumes "session_up s c" "hc_outbound c = None" "hc_inbound c = None" "hc_reply c = None" "hc_last_now_ns c \<le> now"
    and "workspace_wf (hc_workspace c)"
    and "resolve_transition (hc_workspace c) d e x = Inr t" "rt_source_host t = psb_remote_host_id s"
    and "rt_destination_host t = local_host (hc_workspace_state c)"
    and "active_host (hc_workspace_state c) \<in> {local_host (hc_workspace_state c), psb_remote_host_id s}"
    and "checked_add_u64 (hc_last_inbound_sequence c) 1 = Some n" "deadline now c = Inr dl"
  shows "receive_leave s (make_leave n (cw_protocol_epoch (hc_workspace c)) t) now c =
    (Inr HandoffApplied, c\<lparr>hc_last_now_ns := now,
       hc_inbound := Some (InboundHint s dl (make_leave n (cw_protocol_epoch (hc_workspace c)) t)
         (make_enter n (cw_protocol_epoch (hc_workspace c)) t) t)\<rparr>)"
proof -
  note f = resolve_transition_fields[OF assms(7,6)]
  have n: "n \<noteq> 0" "n \<noteq> hc_last_inbound_sequence c"
    using checked_add_u64_one_less[OF assms(11)] by auto
  have dl: "deadline now (c\<lparr>hc_last_now_ns := now\<rparr>) = Inr dl" using assms(12) by (simp only: deadline_clock)
  have auth: "validate_leave_authority s (make_leave n (cw_protocol_epoch (hc_workspace c)) t) (c\<lparr>hc_last_now_ns := now\<rparr>) = Inr ()"
    using assms(2,8,10) f by (auto simp: validate_leave_authority_def make_leave_def has_local_authority_def)
  have res: "resolve_leave (make_leave n (cw_protocol_epoch (hc_workspace c)) t) (c\<lparr>hc_last_now_ns := now\<rparr>) = Inr t"
    using assms(1,7-9) f by (simp add: resolve_leave_iff make_leave_def session_up_def)
  have cl: "classify_inbound_sequence n n (c\<lparr>hc_last_now_ns := now\<rparr>) = (Inr SequenceNext, c\<lparr>hc_last_now_ns := now\<rparr>)"
    using n assms(11) by (simp add: classify_iff)
  have seq: "leave_transition_id (make_leave n (cw_protocol_epoch (hc_workspace c)) t) = n"
    "leave_sequence (make_leave n (cw_protocol_epoch (hc_workspace c)) t) = n"
    by (simp_all add: make_leave_def)
  show ?thesis
    using assms(1-5)
    by (simp add: receive_leave_def prepare_advance no_pending_due seq cl auth res dl Let_def)
qed

lemma receive_enter_ok:
  assumes "session_up s c" "hc_outbound c = None" "hc_reply c = None" "hc_last_now_ns c \<le> now" "nothing_due now c"
    and "hc_inbound c = Some (InboundHint s dl l e t)" "e = make_enter n (cw_protocol_epoch (hc_workspace c)) t"
    and "valid_position (rt_normalized_position t)"
    and "checked_add_u64 (hc_last_inbound_sequence c) 1 = Some n"
  shows "receive_enter s e now c =
    (Inr \<lparr>ef_owner = hc_owner c, ef_session = s, ef_transition_id = n, ef_purpose = PurposeAcceptedAck,
          ef_message = ControlAck (make_ack e (local_host (hc_workspace_state c)) Accepted)\<rparr>,
     c\<lparr>hc_last_now_ns := now, hc_last_inbound_sequence := n,
       hc_inbound := Some (InboundProposal s dl (make_leave n (cw_protocol_epoch (hc_workspace c)) t) e
         (make_ack e (local_host (hc_workspace_state c)) Accepted) t)\<rparr>)"
proof -
  have n: "n \<noteq> 0" "n \<noteq> hc_last_inbound_sequence c"
    using checked_add_u64_one_less[OF assms(9)] by auto
  have cl: "classify_inbound_sequence n n (c\<lparr>hc_last_now_ns := now\<rparr>) = (Inr SequenceNext, c\<lparr>hc_last_now_ns := now\<rparr>)"
    using n assms(9) by (simp add: classify_iff)
  have seq: "enter_transition_id e = n" "enter_sequence e = n" by (simp_all add: assms(7) make_enter_def)
  have eq: "enter_eq e e" using assms(7,8) by (intro enter_eq_refl) simp
  show ?thesis
    using assms(1-6)
    by (simp add: receive_enter_def prepare_advance seq cl accept_enter_from_hint_def eq accept_enter_def Let_def
        make_effect_def)
qed

lemma receive_ack_ok:
  assumes "session_up s c" "hc_outbound c = Some p" "po_phase p = AwaitingAck" "po_session p = s"
    and "hc_last_now_ns c \<le> now" "nothing_due now c" "po_transition_id p = n"
    and "a = make_ack (po_enter p) (rt_destination_host (po_transition p)) Accepted" "enter_transition_id (po_enter p) = n"
    and "completed_ack a c = None"
  shows "receive_ack s a now c =
    (Inr (AckCommit \<lparr>ef_owner = hc_owner c, ef_session = s, ef_transition_id = n, ef_purpose = PurposeCommit,
            ef_message = ControlCommit (make_commit (po_enter p) (po_transition p))\<rparr>),
     c\<lparr>hc_last_now_ns := now, hc_outbound := Some (p\<lparr>po_phase := CommitQueued, po_accepted_ack := Some a\<rparr>)\<rparr>)"
proof -
  have "completed_ack a (c\<lparr>hc_last_now_ns := now\<rparr>) = None" using assms(10) by (simp add: completed_ack_def)
  moreover have "ack_transition_id a = n" "ack_workspace_epoch a = enter_workspace_epoch (po_enter p)"
    "ack_receiver_host a = rt_destination_host (po_transition p)"
    "ack_active_display a = enter_destination_display (po_enter p)" "ack_outcome a = Accepted"
    using assms(8,9) by (simp_all add: make_ack_def)
  ultimately show ?thesis
    using assms(1-7) by (simp add: receive_ack_def prepare_advance make_effect_def Let_def)
qed

lemma receive_commit_ok:
  assumes "session_up s c" "hc_inbound c = Some (InboundPrepared s dl l e a m t)"
    and "hc_last_now_ns c \<le> now" "nothing_due now c" "commit_transition_id m \<noteq> 0" "commit_sequence m = commit_transition_id m"
    and "completed_commit m c = None"
  shows "receive_commit s m now c =
    (Inr HandoffApplied,
     c\<lparr>hc_last_now_ns := now, hc_inbound := None,
       hc_workspace_state := set_active_pointer (rt_destination_host t) (rt_destination_pointer t) (hc_workspace_state c),
       hc_local_fallback := rt_destination_pointer t,
       hc_completed_inbound := Some \<lparr>cib_session = s, cib_expected_leave = Some l, cib_enter = e, cib_ack = a,
         cib_commit = Some m\<rparr>\<rparr>)"
proof -
  have "completed_commit m (c\<lparr>hc_last_now_ns := now\<rparr>) = None" using assms(7) by (simp add: completed_commit_def)
  then show ?thesis
    using assms(1-6) by (simp add: receive_commit_def prepare_advance apply_commit_def)
qed

definition idle :: "CoordinatorCore \<Rightarrow> bool" where
  "idle c \<longleftrightarrow> hc_outbound c = None \<and> hc_inbound c = None \<and> hc_reply c = None"

text \<open>What is remembered of completed transitions never runs ahead of the counters.\<close>

definition remembers_past :: "CoordinatorCore \<Rightarrow> bool" where
  "remembers_past c \<longleftrightarrow>
     (case hc_completed_outbound c of None \<Rightarrow> True
      | Some x \<Rightarrow> ack_transition_id (cob_ack x) \<le> hc_last_outbound_sequence c)
     \<and> (case hc_completed_inbound c of None \<Rightarrow> True
        | Some x \<Rightarrow> (case cib_commit x of None \<Rightarrow> True
            | Some m \<Rightarrow> commit_transition_id m \<le> hc_last_inbound_sequence c))"

text \<open>Two coordinators bound to the two ends of one session, with nothing in flight.\<close>

definition one_sided :: "CoordinatorCore \<Rightarrow> PointerSessionBinding \<Rightarrow> CoordinatorCore \<Rightarrow> bool" where
  "one_sided a sa b \<longleftrightarrow>
     handoff_inv a \<and> session_up sa a \<and> idle a \<and> remembers_past a
     \<and> psb_remote_host_id sa = local_host (hc_workspace_state b)
     \<and> hc_last_outbound_sequence a = hc_last_inbound_sequence b
     \<and> active_host (hc_workspace_state a) \<in> {local_host (hc_workspace_state a), psb_remote_host_id sa}"

definition aligned ::
  "CoordinatorCore \<Rightarrow> PointerSessionBinding \<Rightarrow> CoordinatorCore \<Rightarrow> PointerSessionBinding \<Rightarrow> bool" where
  "aligned a sa b sb \<longleftrightarrow> one_sided a sa b \<and> one_sided b sb a \<and> same_workspace (hc_workspace a) (hc_workspace b)"

text \<open>
  The readings of one clock during the exchange: in order, and the last before the deadline that the
  first one sets.
\<close>

definition in_time :: "CoordinatorCore \<Rightarrow> u64 list \<Rightarrow> bool" where
  "in_time c ts \<longleftrightarrow> sorted (hc_last_now_ns c # ts) \<and> ts \<noteq> []
     \<and> unat (hd ts) + phc_timeout (hc_config c) < 2 ^ 64
     \<and> unat (last ts) < unat (hd ts) + phc_timeout (hc_config c)"

text \<open>The messages of one hand-off, each delivered as it was queued.\<close>

fun handoff_exchange ::
  "PointerSessionBinding \<Rightarrow> PointerSessionBinding \<Rightarrow> Edge \<Rightarrow> f64 \<Rightarrow> u64 \<times> u64 \<times> u64 \<times> u64 \<times> u64
   \<Rightarrow> u64 \<times> u64 \<times> u64 \<times> u64 \<Rightarrow> CoordinatorCore \<Rightarrow> CoordinatorCore \<Rightarrow> (CoordinatorCore \<times> CoordinatorCore) option" where
  "handoff_exchange sa sb edge x (t1, t2, t3, t4, t5) (u1, u2, u3, u4) a b =
     (case propose_leave sa edge x t1 a of (Inr f1, a) \<Rightarrow>
     (case dispatch_effect queued f1 t2 a of (Inr (EffectNext f2), a) \<Rightarrow>
     (case dispatch_effect queued f2 t3 a of (Inr EffectSent, a) \<Rightarrow>
     (case (ef_message f1, ef_message f2) of (ControlLeave l, ControlEnter e) \<Rightarrow>
     (case receive_leave sb l u1 b of (Inr HandoffApplied, b) \<Rightarrow>
     (case receive_enter sb e u2 b of (Inr g, b) \<Rightarrow>
     (case dispatch_effect queued g u3 b of (Inr EffectSent, b) \<Rightarrow>
     (case ef_message g of ControlAck k \<Rightarrow>
     (case receive_ack sa k t4 a of (Inr (AckCommit h), a) \<Rightarrow>
     (case dispatch_effect queued h t5 a of (Inr AuthorityCommitted, a) \<Rightarrow>
     (case ef_message h of ControlCommit m \<Rightarrow>
     (case receive_commit sb m u4 b of (Inr HandoffApplied, b) \<Rightarrow> Some (a, b)
      | _ \<Rightarrow> None) | _ \<Rightarrow> None) | _ \<Rightarrow> None) | _ \<Rightarrow> None) | _ \<Rightarrow> None) | _ \<Rightarrow> None) | _ \<Rightarrow> None)
      | _ \<Rightarrow> None) | _ \<Rightarrow> None) | _ \<Rightarrow> None) | _ \<Rightarrow> None) | _ \<Rightarrow> None)"

lemma deadline_exists:
  assumes "unat now + phc_timeout (hc_config c) < 2 ^ 64"
  obtains d where "deadline now c = Inr d" "unat d = unat now + phc_timeout (hc_config c)"
proof -
  have "unat (of_nat (phc_timeout (hc_config c)) :: u64) = phc_timeout (hc_config c)"
    using assms by (simp add: unat_of_nat take_bit_eq_mod)
  then have "checked_add_u64 now (of_nat (phc_timeout (hc_config c))) = Some (now + of_nat (phc_timeout (hc_config c)))"
    using assms by (simp add: checked_add_u64_def)
  then have "deadline now c = Inr (now + of_nat (phc_timeout (hc_config c)))"
    using assms by (simp add: deadline_iff)
  then show thesis using deadline_bound that by blast
qed

lemma exchange_source:
  assumes a: "one_sided a sa b" "local_active a"
    and t: "resolve_transition (hc_workspace a) (active_display (hc_workspace_state a)) edge x = Inr t"
      "rt_destination_host t = local_host (hc_workspace_state b)"
    and n: "checked_add_u64 (hc_last_outbound_sequence a) 1 = Some n"
    and ts: "in_time a [t1, t2, t3, t4, t5]"
  defines "E \<equiv> cw_protocol_epoch (hc_workspace a)"
  obtains f1 f2 a3 h a5 d ack where
    "propose_leave sa edge x t1 a = (Inr f1, a3\<lparr>hc_last_now_ns := t1,
        hc_outbound := Some \<lparr>po_session = sa, po_transition_id = n, po_deadline_ns = d, po_leave = make_leave n E t,
          po_enter = make_enter n E t, po_accepted_ack = None, po_transition = t, po_phase = LeaveQueued\<rparr>\<rparr>)"
    "dispatch_effect queued f1 t2 (snd (propose_leave sa edge x t1 a)) = (Inr (EffectNext f2), a3\<lparr>hc_last_now_ns := t2,
        hc_outbound := Some \<lparr>po_session = sa, po_transition_id = n, po_deadline_ns = d, po_leave = make_leave n E t,
          po_enter = make_enter n E t, po_accepted_ack = None, po_transition = t, po_phase = EnterQueued\<rparr>\<rparr>)"
    "dispatch_effect queued f2 t3 (snd (dispatch_effect queued f1 t2 (snd (propose_leave sa edge x t1 a)))) = (Inr EffectSent, a3)"
    "ef_message f1 = ControlLeave (make_leave n E t)" "ef_message f2 = ControlEnter (make_enter n E t)"
    "receive_ack sa (make_ack (make_enter n E t) (rt_destination_host t) Accepted) t4 a3 = (Inr (AckCommit h), ack)"
    "ef_message h = ControlCommit (make_commit (make_enter n E t) t)"
    "dispatch_effect queued h t5 ack = (Inr AuthorityCommitted, a5)"
    "a5 = a\<lparr>hc_last_now_ns := t5, hc_last_outbound_sequence := n,
       hc_workspace_state := set_active_pointer (rt_destination_host t) (rt_destination_pointer t) (hc_workspace_state a),
       hc_completed_outbound := Some \<lparr>cob_session = sa,
         cob_ack = make_ack (make_enter n E t) (rt_destination_host t) Accepted\<rparr>\<rparr>"
    "handoff_inv a5" "has_local_authority ack"
proof -
  have inv: "handoff_inv a" and up: "session_up sa a" and idle: "hc_outbound a = None" "hc_inbound a = None" "hc_reply a = None"
    and past: "remembers_past a" and remote: "psb_remote_host_id sa = local_host (hc_workspace_state b)"
    using a(1) by (auto simp: one_sided_def idle_def)
  have disp: "active_display (hc_workspace_state a) = lp_display_id (ws_pointer (hc_workspace_state a))"
    "owner_of (hc_workspace a) (active_display (hc_workspace_state a)) = Some (active_host (hc_workspace_state a))"
    using handoff_invD(2)[OF inv] by (auto simp: validate_state_iff pointer_placed_def)
  note tf = resolve_transition_fields[OF t(1) handoff_invD(1)[OF inv]]
  have src: "rt_source_host t = local_host (hc_workspace_state a)"
    using tf(5) disp(2) a(2) by (simp add: local_active_def)
  have dst: "rt_destination_host t = psb_remote_host_id sa" using t(2) remote by simp
  have pos: "valid_position (rt_normalized_position t)" using tf by simp
  have le: "hc_last_now_ns a \<le> t1" "t1 \<le> t2" "t2 \<le> t3" "t3 \<le> t4" "t4 \<le> t5"
    using ts by (simp_all add: in_time_def)
  obtain d where d: "deadline t1 a = Inr d" "unat d = unat t1 + phc_timeout (hc_config a)"
    using deadline_exists ts by (metis in_time_def list.sel(1))
  have "t5 < d" using ts d(2) by (simp add: in_time_def word_less_nat_alt)
  then have due: "t2 < d" "t3 < d" "t4 < d" "t5 < d" using le by auto
  define p where "p ph = \<lparr>po_session = sa, po_transition_id = n, po_deadline_ns = d, po_leave = make_leave n E t,
      po_enter = make_enter n E t, po_accepted_ack = None, po_transition = t, po_phase = ph\<rparr>" for ph
  define c where "c now ph = a\<lparr>hc_last_now_ns := now, hc_last_outbound_sequence := n, hc_outbound := Some (p ph)\<rparr>" for now ph
  have psel: "po_session (p ph) = sa" "po_transition_id (p ph) = n" "po_deadline_ns (p ph) = d"
    "po_leave (p ph) = make_leave n E t" "po_enter (p ph) = make_enter n E t" "po_transition (p ph) = t" "po_phase (p ph) = ph"
    "(p ph)\<lparr>po_phase := ph'\<rparr> = p ph'" for ph ph'
    by (simp_all add: p_def)
  have csel: "hc_owner (c now ph) = hc_owner a" "hc_outbound (c now ph) = Some (p ph)" "session_up sa (c now ph)"
    "hc_last_now_ns (c now ph) = now" "(c now ph)\<lparr>hc_last_now_ns := now', hc_outbound := Some (p ph')\<rparr> = c now' ph'"
    "hc_completed_outbound (c now ph) = hc_completed_outbound a" "nothing_due now' (c now ph) = (now' < d)" for now ph now' ph'
    using up by (simp_all add: c_def nothing_due_def idle p_def)
  let ?f1 = "\<lparr>ef_owner = hc_owner a, ef_session = sa, ef_transition_id = n, ef_purpose = PurposeLeave, ef_message = ControlLeave (make_leave n E t)\<rparr>"
  let ?f2 = "\<lparr>ef_owner = hc_owner a, ef_session = sa, ef_transition_id = n, ef_purpose = PurposeEnter, ef_message = ControlEnter (make_enter n E t)\<rparr>"
  let ?k = "make_ack (make_enter n E t) (rt_destination_host t) Accepted"
  let ?h = "\<lparr>ef_owner = hc_owner a, ef_session = sa, ef_transition_id = n, ef_purpose = PurposeCommit,
      ef_message = ControlCommit (make_commit (make_enter n E t) t)\<rparr>"
  have s1: "propose_leave sa edge x t1 a = (Inr ?f1, c t1 LeaveQueued)"
    using propose_ok[OF up idle(1,2) no_pending_due[OF idle] le(1) a(2) disp(1) t(1) src dst n d(1)]
    by (simp add: c_def p_def E_def)
  have s2: "dispatch_effect queued ?f1 t2 (c t1 LeaveQueued) = (Inr (EffectNext ?f2), c t2 EnterQueued)"
    using dispatch_leave_ok[OF csel(3)[of t1 LeaveQueued] csel(2), OF _ _ _ _ _ refl, of t2] le due pos by (simp add: psel csel)
  have s3: "dispatch_effect queued ?f2 t3 (c t2 EnterQueued) = (Inr EffectSent, c t3 AwaitingAck)"
    using dispatch_enter_ok[OF csel(3)[of t2 EnterQueued] csel(2), OF _ _ _ _ _ refl, of t3] le due pos by (simp add: psel csel)
  have "n \<noteq> 0" "hc_last_outbound_sequence a < n" using checked_add_u64_one_less[OF n] by auto
  then have none: "completed_ack ?k (c t3 AwaitingAck) = None"
    using past by (auto simp: completed_ack_def csel remembers_past_def make_ack_def make_enter_def split: option.splits)
  let ?a4 = "(c t4 AwaitingAck)\<lparr>hc_outbound := Some ((p AwaitingAck)\<lparr>po_phase := CommitQueued, po_accepted_ack := Some ?k\<rparr>)\<rparr>"
  have eid: "enter_transition_id (make_enter n E t) = n" by (simp add: make_enter_def)
  have upd: "(c t3 AwaitingAck)\<lparr>hc_last_now_ns := t4, hc_outbound := z\<rparr> = (c t4 AwaitingAck)\<lparr>hc_outbound := z\<rparr>" for z
    by (simp add: c_def)
  have s4: "receive_ack sa ?k t4 (c t3 AwaitingAck) = (Inr (AckCommit ?h), ?a4)"
    using receive_ack_ok[of sa "c t3 AwaitingAck" "p AwaitingAck" t4 n ?k] none le due
    by (simp only: psel csel eid upd simp_thms)
  have inv1: "handoff_inv (c t1 LeaveQueued)" using inv_propose_leave[OF inv, of sa edge x t1] s1 by simp
  have inv2: "handoff_inv (c t2 EnterQueued)" using inv_dispatch_effect[OF inv1, of queued ?f1 t2] s2 by simp
  have inv3: "handoff_inv (c t3 AwaitingAck)" using inv_dispatch_effect[OF inv2, of queued ?f2 t3] s3 by simp
  have inv4: "handoff_inv ?a4" using inv_receive_ack[OF inv3, of sa ?k t4] s4 by simp
  let ?a5 = "a\<lparr>hc_last_now_ns := t5, hc_last_outbound_sequence := n,
       hc_workspace_state := set_active_pointer (rt_destination_host t) (rt_destination_pointer t) (hc_workspace_state a),
       hc_completed_outbound := Some \<lparr>cob_session = sa, cob_ack = ?k\<rparr>\<rparr>"
  have s5: "dispatch_effect queued ?h t5 ?a4 = (Inr AuthorityCommitted, ?a5)"
  proof -
    have "nothing_due t5 ?a4" using due(4) by (simp add: nothing_due_def c_def idle psel)
    moreover have "?a4\<lparr>hc_last_now_ns := t5, hc_outbound := None, hc_workspace_state := st, hc_completed_outbound := x\<rparr>
      = a\<lparr>hc_last_now_ns := t5, hc_last_outbound_sequence := n, hc_workspace_state := st, hc_completed_outbound := x\<rparr>" for st x
      using idle(1) by (cases a) (simp add: c_def)
    ultimately show ?thesis
      using dispatch_commit_ok[OF inv4 _ _ _ _ _ _ _ refl, of sa _ t5 ?k] up le
      by (simp add: psel csel) (simp add: c_def)
  qed
  have inv5: "handoff_inv ?a5" using inv_dispatch_effect[OF inv4, of queued ?h t5] s5 by simp
  have auth: "has_local_authority ?a4"
    using authority_iff[OF inv4] pending_local[OF inv4] by simp
  show thesis
    by (rule that[of ?f1 d "c t3 AwaitingAck" ?f2 ?h ?a4 ?a5])
      (use s1 s2 s3 s4 s5 inv5 auth in \<open>simp_all add: c_def p_def\<close>)
qed

lemma exchange_destination:
  assumes b: "one_sided b sb a"
    and t: "resolve_transition (hc_workspace b) dd edge x = Inr t"
      "rt_source_host t = local_host (hc_workspace_state a)" "rt_destination_host t = local_host (hc_workspace_state b)"
    and n: "checked_add_u64 (hc_last_inbound_sequence b) 1 = Some n"
    and us: "in_time b [u1, u2, u3, u4]"
  defines "E \<equiv> cw_protocol_epoch (hc_workspace b)"
  obtains b1 b2 b3 b4 g where
    "receive_leave sb (make_leave n E t) u1 b = (Inr HandoffApplied, b1)"
    "receive_enter sb (make_enter n E t) u2 b1 = (Inr g, b2)"
    "dispatch_effect queued g u3 b2 = (Inr EffectSent, b3)"
    "ef_message g = ControlAck (make_ack (make_enter n E t) (rt_destination_host t) Accepted)"
    "receive_commit sb (make_commit (make_enter n E t) t) u4 b3 = (Inr HandoffApplied, b4)"
    "b4 = b\<lparr>hc_last_now_ns := u4, hc_last_inbound_sequence := n,
       hc_workspace_state := set_active_pointer (rt_destination_host t) (rt_destination_pointer t) (hc_workspace_state b),
       hc_local_fallback := rt_destination_pointer t,
       hc_completed_inbound := Some \<lparr>cib_session = sb, cib_expected_leave = Some (make_leave n E t),
         cib_enter = make_enter n E t, cib_ack = make_ack (make_enter n E t) (rt_destination_host t) Accepted,
         cib_commit = Some (make_commit (make_enter n E t) t)\<rparr>\<rparr>"
    "handoff_inv b4"
proof -
  have inv: "handoff_inv b" and up: "session_up sb b" and idle: "hc_outbound b = None" "hc_inbound b = None" "hc_reply b = None"
    and past: "remembers_past b" and remote: "psb_remote_host_id sb = local_host (hc_workspace_state a)"
    and act: "active_host (hc_workspace_state b) \<in> {local_host (hc_workspace_state b), psb_remote_host_id sb}"
    using b by (auto simp: one_sided_def idle_def)
  note tf = resolve_transition_fields[OF t(1) handoff_invD(1)[OF inv]]
  have pos: "valid_position (rt_normalized_position t)" using tf by simp
  have le: "hc_last_now_ns b \<le> u1" "u1 \<le> u2" "u2 \<le> u3" "u3 \<le> u4"
    using us by (simp_all add: in_time_def)
  obtain d where d: "deadline u1 b = Inr d" "unat d = unat u1 + phc_timeout (hc_config b)"
    using deadline_exists us by (metis in_time_def list.sel(1))
  have "u4 < d" using us d(2) by (simp add: in_time_def word_less_nat_alt)
  then have due: "u2 < d" "u3 < d" "u4 < d" using le by auto
  have n0: "n \<noteq> 0" "hc_last_inbound_sequence b < n" using checked_add_u64_one_less[OF n] by auto
  let ?l = "make_leave n E t" and ?e = "make_enter n E t"
  let ?k = "make_ack ?e (local_host (hc_workspace_state b)) Accepted" and ?m = "make_commit ?e t"
  have src: "rt_source_host t = psb_remote_host_id sb" using t(2) remote by simp
  define b1 where "b1 = b\<lparr>hc_last_now_ns := u1, hc_inbound := Some (InboundHint sb d ?l ?e t)\<rparr>"
  have s1: "receive_leave sb ?l u1 b = (Inr HandoffApplied, b1)"
    using receive_leave_ok[OF up idle le(1) handoff_invD(1)[OF inv] t(1) src t(3) act n d(1)] by (simp add: b1_def E_def)
  define b2 where "b2 = b\<lparr>hc_last_now_ns := u2, hc_last_inbound_sequence := n, hc_inbound := Some (InboundProposal sb d ?l ?e ?k t)\<rparr>"
  let ?g = "\<lparr>ef_owner = hc_owner b, ef_session = sb, ef_transition_id = n, ef_purpose = PurposeAcceptedAck, ef_message = ControlAck ?k\<rparr>"
  have s2: "receive_enter sb ?e u2 b1 = (Inr ?g, b2)"
    using receive_enter_ok[of sb b1 u2 d ?l ?e t n] up idle le due pos n
    by (simp add: b1_def b2_def nothing_due_def E_def)
  define b3 where "b3 = b\<lparr>hc_last_now_ns := u3, hc_last_inbound_sequence := n, hc_inbound := Some (InboundPrepared sb d ?l ?e ?k ?m t)\<rparr>"
  have eid: "enter_transition_id ?e = n" by (simp add: make_enter_def)
  have s3: "dispatch_effect queued ?g u3 b2 = (Inr EffectSent, b3)"
    using dispatch_ack_ok[of sb b2 d ?l ?e ?k t u3 ?g] up idle le due
    by (simp add: b2_def b3_def nothing_due_def eid)
  have mid: "commit_transition_id ?m = n" "commit_sequence ?m = n" by (simp_all add: make_commit_def eid)
  have none: "completed_commit ?m b3 = None"
    using past n0 by (auto simp: completed_commit_def b3_def remembers_past_def mid split: option.splits)
  let ?b4 = "b\<lparr>hc_last_now_ns := u4, hc_last_inbound_sequence := n,
       hc_workspace_state := set_active_pointer (rt_destination_host t) (rt_destination_pointer t) (hc_workspace_state b),
       hc_local_fallback := rt_destination_pointer t,
       hc_completed_inbound := Some \<lparr>cib_session = sb, cib_expected_leave = Some ?l, cib_enter = ?e, cib_ack = ?k, cib_commit = Some ?m\<rparr>\<rparr>"
  have upd: "b3\<lparr>hc_last_now_ns := u4, hc_inbound := None, hc_workspace_state := st, hc_local_fallback := q, hc_completed_inbound := z\<rparr>
     = b\<lparr>hc_last_now_ns := u4, hc_last_inbound_sequence := n, hc_workspace_state := st, hc_local_fallback := q, hc_completed_inbound := z\<rparr>" for st q z
    using idle(2) by (cases b) (simp add: b3_def)
  have st3: "hc_workspace_state b3 = hc_workspace_state b" "session_up sb b3" "hc_inbound b3 = Some (InboundPrepared sb d ?l ?e ?k ?m t)"
      "hc_last_now_ns b3 = u3" "nothing_due u4 b3"
    using up due idle by (simp_all add: b3_def nothing_due_def)
  have s4: "receive_commit sb ?m u4 b3 = (Inr HandoffApplied, ?b4)"
    using receive_commit_ok[OF st3(2,3) _ st3(5) _ _ none] le(4) n0(1) by (simp add: mid st3 upd)
  have "handoff_inv b3"
    using inv_dispatch_effect[OF inv_receive_enter[OF inv_receive_leave[OF inv, of sb ?l u1], of sb ?e u2], of queued ?g u3]
    by (simp add: s1 s2 s3)
  then have "handoff_inv ?b4" using inv_receive_commit[of b3 sb ?m u4] by (simp add: s4)
  then show thesis
    using that[OF s1 s2 s3 _ s4, of] t(3) by simp
qed

lemma aligned_after:
  assumes al: "aligned a sa b sb"
    and n: "checked_add_u64 (hc_last_outbound_sequence a) 1 = Some n"
    and t: "rt_destination_host t = local_host (hc_workspace_state b)"
    and a': "a' = a\<lparr>hc_last_now_ns := ta, hc_last_outbound_sequence := n,
       hc_workspace_state := set_active_pointer (rt_destination_host t) (rt_destination_pointer t) (hc_workspace_state a),
       hc_completed_outbound := Some \<lparr>cob_session = sa, cob_ack = make_ack (make_enter n E t) r Accepted\<rparr>\<rparr>"
    and b': "b' = b\<lparr>hc_last_now_ns := tb, hc_last_inbound_sequence := n,
       hc_workspace_state := set_active_pointer (rt_destination_host t) (rt_destination_pointer t) (hc_workspace_state b),
       hc_local_fallback := rt_destination_pointer t,
       hc_completed_inbound := Some \<lparr>cib_session = sb, cib_expected_leave = l, cib_enter = e, cib_ack = k,
         cib_commit = Some (make_commit (make_enter n E t) t)\<rparr>\<rparr>"
    and inv: "handoff_inv a'" "handoff_inv b'"
  shows "aligned a' sa b' sb" "\<not> has_local_authority a'" "has_local_authority b'"
proof -
  have lt: "hc_last_outbound_sequence a < n" using checked_add_u64_one_less[OF n] by simp
  have hosts: "psb_remote_host_id sa = local_host (hc_workspace_state b)" "psb_remote_host_id sb = local_host (hc_workspace_state a)"
    "session_up sa a"
    using al by (auto simp: aligned_def one_sided_def)
  have "psb_remote_host_id sa \<noteq> local_host (hc_workspace_state a)"
    using al hosts(3) handoff_invD(3)[of a] by (auto simp: aligned_def one_sided_def session_up_def session_ok_def)
  then show "\<not> has_local_authority a'" "has_local_authority b'"
    using hosts(1) t inv by (simp_all add: authority_iff local_active_def a' b')
  show "aligned a' sa b' sb"
    using al inv t hosts(1,2) lt
    by (auto simp: aligned_def one_sided_def a' b' idle_def session_up_def remembers_past_def make_ack_def
        make_enter_def make_commit_def same_workspace_def split: option.splits)
qed

section \<open>Concrete coordinators\<close>

text \<open>The two ends of one session over the side-by-side workspace, the pointer on host 1.\<close>

definition landing_at :: "DisplayId \<Rightarrow> LogicalPointer" where
  "landing_at d = \<lparr>lp_display_id = d, lp_x = 0, lp_y = 0\<rparr>"

definition demo_coordinator :: "HostId \<Rightarrow> CoordinatorCore" where
  "demo_coordinator h = \<lparr>hc_owner = 0, hc_config = \<lparr>phc_timeout = 1000\<rparr>, hc_lifecycle = HandoffRunning,
     hc_session = None, hc_session_healthy = False, hc_workspace = side_by_side 1,
     hc_workspace_state = \<lparr>local_host = h, active_host = 1, active_display = 1, ws_pointer = landing_at 1\<rparr>,
     hc_local_fallback = landing_at h, hc_last_now_ns = 0, hc_last_outbound_sequence = 0,
     hc_last_inbound_sequence = 0, hc_outbound = None, hc_inbound = None, hc_completed_outbound = None,
     hc_completed_inbound = None, hc_expired_inbound = None, hc_reply = None\<rparr>"

definition demo_end :: "HostId \<Rightarrow> HostId \<Rightarrow> CoordinatorCore" where
  "demo_end h peer = (demo_coordinator h)\<lparr>hc_session := Some (from_current (demo_session h peer 1)), hc_session_healthy := True\<rparr>"

lemma demo_placed: "h = 1 \<or> h = 2 \<Longrightarrow> pointer_placed (side_by_side e) h (landing_at h)"
  by (auto simp: pointer_placed_def landing_at_def side_by_side_def demo_table_def owner_of_def
      contains_local_point_def Point_new_def rect_size_def demo_numbers f64_le_refl_finite)

lemma demo_binding_hosts:
  "psb_local_host_id (from_current (demo_session h peer g)) = h" "psb_remote_host_id (from_current (demo_session h peer g)) = peer"
  by (simp_all add: from_current_def cas_local_host_id_def cas_remote_host_id_def demo_session_def demo_hello_def)

lemma demo_reachable:
  assumes "h = 1 \<and> peer = 2 \<or> h = 2 \<and> peer = 1"
  shows "handoff_reachable (demo_end h peer)"
proof -
  have "CoordinatorCore_new 0 \<lparr>phc_timeout = 1000\<rparr> (side_by_side 1)
      \<lparr>local_host = h, active_host = 1, active_display = 1, ws_pointer = landing_at 1\<rparr> (landing_at h)
      = Inr (demo_coordinator h)"
  proof -
    have "validate_state (side_by_side 1) \<lparr>local_host = h, active_host = 1, active_display = 1, ws_pointer = landing_at 1\<rparr>
        (landing_at h) = Inr ()"
      using assms demo_placed[of 1 1] demo_placed[of h 1] by (auto simp: validate_state_iff) (simp_all add: landing_at_def)
    then show ?thesis by (simp add: CoordinatorCore_new_def demo_coordinator_def)
  qed
  then have "handoff_reachable (demo_coordinator h)"
    by (rule handoff_init[OF demo_compiles[of 1], where timeout = 1000, rotated])
      (simp add: PointerHandoffConfig_new_def MAX_POINTER_HANDOFF_TIMEOUT_def from_secs_def)
  then have "handoff_reachable (handoff_step (HBind (from_current (demo_session h peer 1))) (demo_coordinator h))"
    by (rule handoff_next)
  moreover have "handoff_step (HBind (from_current (demo_session h peer 1))) (demo_coordinator h) = demo_end h peer"
    using assms by (auto simp: bind_session_def ensure_running_def demo_binding_hosts demo_coordinator_def demo_end_def)
  ultimately show ?thesis by simp
qed

lemma demo_aligned:
  "aligned (demo_end 1 2) (from_current (demo_session 1 2 1)) (demo_end 2 1) (from_current (demo_session 2 1 1))"
  using reachable_inv[OF demo_reachable[of 1 2]] reachable_inv[OF demo_reachable[of 2 1]]
  by (simp add: aligned_def one_sided_def idle_def remembers_past_def session_up_def same_workspace_def demo_binding_hosts
      demo_end_def demo_coordinator_def)

lemma demo_crossing:
  "resolve_transition (hc_workspace (demo_end 1 2)) (active_display (hc_workspace_state (demo_end 1 2))) RightEdge f64_zero
   = Inr \<lparr>rt_source_display = 1, rt_source_host = 1, rt_source_edge = RightEdge, rt_destination_display = 2,
          rt_destination_host = 2, rt_destination_edge = LeftEdge, rt_normalized_position = f64_zero,
          rt_destination_pointer = landing_at 2\<rparr>"
  by (simp add: demo_end_def demo_coordinator_def resolve_transition_def demo_transition resolved_from_def landing_at_def Point_new_def)

lemma demo_in_time: "in_time (demo_end h peer) [1, 2, 3, 4, 5]" "in_time (demo_end h peer) [1, 2, 3, 4]"
  by (simp_all add: in_time_def demo_end_def demo_coordinator_def word_le_nat_alt)

lemma demo_local: "local_active (demo_end 1 2)" "hc_last_outbound_sequence (demo_end 1 2) = 0"
  "local_host (hc_workspace_state (demo_end h peer)) = h"
  by (simp_all add: local_active_def demo_end_def demo_coordinator_def)

section \<open>Properties\<close>

text \<open>
  C13: In every reachable state of the coordinator, whatever messages, effects, clocks and session events
  it is given: the pointer rests inside a display owned by the active host and the fallback inside
  one of the local host; at most one direction of hand-off is pending, it belongs to the bound and
  healthy session, and it expires within the configured timeout of at most 30 seconds; while an
  outbound hand-off is pending the local host is active, and its commit is queued only together with
  an acceptance of exactly the proposed entry by the peer.
\<close>

theorem handoff_state_sound:
  assumes "handoff_reachable c"
  shows "pointer_placed (hc_workspace c) (active_host (hc_workspace_state c)) (ws_pointer (hc_workspace_state c))
    \<and> pointer_placed (hc_workspace c) (local_host (hc_workspace_state c)) (hc_local_fallback c)
    \<and> (hc_outbound c = None \<or> hc_inbound c = None)
    \<and> (case hc_outbound c of None \<Rightarrow> True
       | Some p \<Rightarrow> hc_session c = Some (po_session p) \<and> hc_session_healthy c \<and> local_active c
           \<and> unat (po_deadline_ns p) \<le> unat (hc_last_now_ns c) + from_secs 30
           \<and> (po_phase p = CommitQueued) = (po_accepted_ack p
                = Some (make_ack (po_enter p) (psb_remote_host_id (po_session p)) Accepted)))
    \<and> (case hc_inbound c of None \<Rightarrow> True
       | Some p \<Rightarrow> hc_session c = Some (pending_session p) \<and> hc_session_healthy c
           \<and> unat (inbound_deadline_ns p) \<le> unat (hc_last_now_ns c) + from_secs 30)"
proof -
  note inv = reachable_inv[OF assms]
  note s = handoff_invD(3)[OF inv] and max = handoff_invD(8)[OF inv, unfolded MAX_POINTER_HANDOFF_TIMEOUT_def]
  have out: "hc_session c = Some (po_session p) \<and> hc_session_healthy c \<and> local_active c
      \<and> unat (po_deadline_ns p) \<le> unat (hc_last_now_ns c) + from_secs 30 \<and> hc_inbound c = None
      \<and> (po_phase p = CommitQueued) = (po_accepted_ack p
           = Some (make_ack (po_enter p) (psb_remote_host_id (po_session p)) Accepted))" if "hc_outbound c = Some p" for p
    using handoff_invD(4)[OF inv that] s max that
    by (auto simp: outbound_ok_def session_ok_def local_active_def deadline_ok_def ack_for_def split: option.splits)
  have "hc_session c = Some (pending_session p) \<and> hc_session_healthy c
      \<and> unat (inbound_deadline_ns p) \<le> unat (hc_last_now_ns c) + from_secs 30" if "hc_inbound c = Some p" for p
    using handoff_invD(5)[OF inv that] s max that by (auto simp: inbound_ok_def session_ok_def deadline_ok_def)
  then show ?thesis
    using handoff_invD(2)[OF inv] out by (auto simp: validate_state_iff split: option.splits)
qed

theorem handoff_state_sound_witness:
  "pointer_placed (hc_workspace (demo_end 1 2)) 1 (landing_at 1)"
  using handoff_state_sound[OF demo_reachable[of 1 2]] by (simp add: demo_end_def demo_coordinator_def)

text \<open>
  C6: The local host gives the pointer up in one place only: the dispatch of a commit whose pending
  hand-off carries an acceptance of exactly the proposed entry by the peer of the bound session, and
  which the outbound queue accepted while the coordinator already denied local authority.  The peer
  of that session is active afterwards.
\<close>

theorem authority_leaves_by_acknowledged_commit:
  assumes "handoff_reachable c" "has_local_authority c" "\<not> has_local_authority (handoff_step op c)"
  shows "\<exists>dp f now c1 p. op = HDispatch dp f now \<and> validate_effect_ready f now c = (Inr (), c1)
    \<and> hc_outbound c1 = Some p \<and> hc_session c1 = Some (po_session p)
    \<and> po_accepted_ack p = Some (make_ack (po_enter p) (psb_remote_host_id (po_session p)) Accepted)
    \<and> dp (PointerTransitionCommit (make_commit (po_enter p) (po_transition p))) False = Inr ()
    \<and> active_host (hc_workspace_state (handoff_step op c)) = psb_remote_host_id (po_session p)"
proof -
  note inv = reachable_inv[OF assms(1)]
  have act: "local_active c" "\<not> local_active (handoff_step op c)"
    using assms(2,3) authority_iff[OF inv] authority_iff[OF inv_step[OF inv]] by simp_all
  have "\<not> resets op"
    using reset_step[of op c] act by (auto simp: local_active_def)
  moreover have "\<not> (\<exists>s m now. op = HCommit s m now)"
  proof
    assume "\<exists>s m now. op = HCommit s m now"
    then obtain s m now where "op = HCommit s m now" by blast
    then show False using commit_authority[OF inv, of s m now] act by simp
  qed
  ultimately obtain dp f now where op: "op = HDispatch dp f now"
    using handoff_step_authority[OF inv] act by blast
  then obtain c1 p where p: "validate_effect_ready f now c = (Inr (), c1)" "ef_purpose f = PurposeCommit"
      "hc_outbound c1 = Some p" "po_phase p = CommitQueued" "\<exists>ack. po_accepted_ack p = Some ack \<and> ack_for p ack"
      "dp (wire_message (ef_message f)) False = Inr ()"
      "active_host (hc_workspace_state (handoff_step op c)) = rt_destination_host (po_transition p)"
    using dispatch_authority[OF inv, of dp f now] act by auto
  have "handoff_inv c1" using inv_validate_effect_ready[OF inv, of f now] p(1) by simp
  from handoff_invD(4)[OF this p(3)]
  have ok: "hc_session c1 = Some (po_session p)" "rt_destination_host (po_transition p) = psb_remote_host_id (po_session p)"
    by (auto simp: outbound_ok_def)
  have "ef_message f = ControlCommit (make_commit (po_enter p) (po_transition p))"
    using validate_effect_ready_iff[OF p(1)] p(2-4)
    by (auto simp: matches_outbound_effect_def split: PointerControlMessage.splits)
  then show ?thesis
    using op p ok by (auto simp: ack_for_def)
qed

theorem authority_leaves_by_acknowledged_commit_witness:
  "\<exists>c op dp f now. handoff_reachable c \<and> has_local_authority c \<and> \<not> has_local_authority (handoff_step op c)
     \<and> op = HDispatch dp f now"
proof -
  let ?a = "demo_end 1 2" and ?s = "from_current (demo_session 1 2 1)"
  let ?t = "\<lparr>rt_source_display = 1, rt_source_host = 1, rt_source_edge = RightEdge, rt_destination_display = 2,
      rt_destination_host = 2, rt_destination_edge = LeftEdge, rt_normalized_position = f64_zero,
      rt_destination_pointer = landing_at 2\<rparr>"
  have one: "checked_add_u64 (hc_last_outbound_sequence ?a) 1 = Some 1" by (simp add: demo_local checked_add_u64_def)
  obtain f1 f2 a3 h a5 ack where r:
      "propose_leave ?s RightEdge f64_zero 1 ?a = (Inr f1, snd (propose_leave ?s RightEdge f64_zero 1 ?a))"
      "dispatch_effect queued f2 3 (snd (dispatch_effect queued f1 2 (snd (propose_leave ?s RightEdge f64_zero 1 ?a)))) = (Inr EffectSent, a3)"
      "receive_ack ?s (make_ack (make_enter 1 (cw_protocol_epoch (hc_workspace ?a)) ?t) 2 Accepted) 4 a3 = (Inr (AckCommit h), ack)"
      "dispatch_effect queued h 5 ack = (Inr AuthorityCommitted, a5)" "active_host (hc_workspace_state a5) = 2"
      "local_host (hc_workspace_state a5) = 1" "has_local_authority ack"
    by (rule exchange_source[OF demo_aligned[unfolded aligned_def, THEN conjunct1] demo_local(1) demo_crossing _ one demo_in_time(1)])
      (simp_all add: demo_local)
  have "handoff_reachable (handoff_step (HAck ?s (make_ack (make_enter 1 (cw_protocol_epoch (hc_workspace ?a)) ?t) 2 Accepted) 4)
      (handoff_step (HDispatch queued f2 3) (handoff_step (HDispatch queued f1 2) (handoff_step (HPropose ?s RightEdge f64_zero 1) ?a))))"
    by (intro handoff_next demo_reachable) simp
  then have reach: "handoff_reachable ack" using r by simp
  have lost: "\<not> has_local_authority (handoff_step (HDispatch queued h 5) ack)"
    using r by (simp add: has_local_authority_def)
  show ?thesis
    using authority_leaves_by_acknowledged_commit[OF reach r(7) lost] reach r(7) lost by blast
qed

text \<open>
  C14: The local host gains the pointer in two ways only: by the commit that matches, in full, the
  hand-off prepared for the bound session; or by an operation that ends or replaces the session or
  the workspace, which leaves nothing pending and puts the pointer on the local fallback.
\<close>

theorem authority_gained_by_prepared_commit_or_reset:
  assumes "handoff_reachable c" "\<not> has_local_authority c" "has_local_authority (handoff_step op c)"
  shows "(\<exists>s m now d l e k t. op = HCommit s m now \<and> hc_session c = Some s
      \<and> hc_inbound (snd (prepare_operation now c)) = Some (InboundPrepared s d l e k m t))
    \<or> resets op \<and> idle (handoff_step op c)
      \<and> ws_pointer (hc_workspace_state (handoff_step op c)) = hc_local_fallback (handoff_step op c)"
proof -
  note inv = reachable_inv[OF assms(1)]
  have act: "\<not> local_active c" "local_active (handoff_step op c)"
    using assms(2,3) authority_iff[OF inv] authority_iff[OF inv_step[OF inv]] by simp_all
  show ?thesis
  proof (cases "resets op")
    case True
    then show ?thesis using reset_step[OF True, of c] act by (auto simp: idle_def local_active_def)
  next
    case False
    have "\<not> (\<exists>dp f now. op = HDispatch dp f now)"
    proof
      assume "\<exists>dp f now. op = HDispatch dp f now"
      then obtain dp f now where "op = HDispatch dp f now" by blast
      then show False using dispatch_authority[OF inv, of dp f now] act by auto
    qed
    then obtain s m now where op: "op = HCommit s m now"
      using handoff_step_authority[OF inv False] act by blast
    then show ?thesis using commit_authority[OF inv, of s m now] act by auto
  qed
qed

theorem authority_gained_by_prepared_commit_or_reset_witness:
  "idle (handoff_step HRevoke (demo_end 2 1))"
proof -
  have "\<not> has_local_authority (demo_end 2 1)" "has_local_authority (handoff_step HRevoke (demo_end 2 1))"
    by (simp_all add: has_local_authority_def demo_end_def demo_coordinator_def handoff_revoke_def handoff_stop_def)
  then show ?thesis
    using authority_gained_by_prepared_commit_or_reset[OF demo_reachable[of 2 1], of HRevoke] by simp
qed

text \<open>
  C16: Nothing stays pending: 30 seconds after the last clock reading a timer poll succeeds and clears
  every pending hand-off and reply, and a pending outbound hand-off ends with the pointer on the local
  fallback under local authority.
\<close>

theorem pending_handoff_settles:
  assumes "handoff_reachable c" "unat (hc_last_now_ns c) + from_secs 30 \<le> unat now"
  shows "\<exists>timeouts. fst (poll_timeout now c) = Inr timeouts \<and> idle (snd (poll_timeout now c))
    \<and> pht_outbound timeouts = (hc_outbound c \<noteq> None) \<and> pht_inbound timeouts = (hc_inbound c \<noteq> None)
    \<and> (hc_outbound c \<noteq> None \<longrightarrow> has_local_authority (snd (poll_timeout now c))
        \<and> ws_pointer (hc_workspace_state (snd (poll_timeout now c))) = hc_local_fallback c)"
proof -
  note inv = reachable_inv[OF assms(1)]
  let ?c = "c\<lparr>hc_last_now_ns := now\<rparr>"
  have le: "hc_last_now_ns c \<le> now" using assms(2) by (simp add: word_le_nat_alt)
  have d: "x \<le> now" if "deadline_ok c x" for x
    using that assms(2) handoff_invD(8)[OF inv]
    by (simp add: deadline_ok_def word_le_nat_alt MAX_POINTER_HANDOFF_TIMEOUT_def)
  have due: "hc_outbound ?c = Some p \<Longrightarrow> po_deadline_ns p \<le> now" "hc_inbound ?c = Some q \<Longrightarrow> inbound_deadline_ns q \<le> now"
    "hc_reply ?c = Some r \<Longrightarrow> pr_deadline_ns r \<le> now" for p q r
    using handoff_invD(4-6)[OF inv] d by (auto simp: outbound_ok_def inbound_ok_def reply_ok_def)
  have poll: "poll_timeout now c = (Inr (fst (expire now ?c)), snd (expire now ?c))"
    using le by (simp add: poll_timeout_def advance_clock_def split_def Let_def)
  have "handoff_inv (snd (expire now ?c))" by (rule inv_expire[OF inv_clock[OF inv le]])
  then have "has_local_authority (snd (expire now ?c))" if "hc_outbound c \<noteq> None"
    using expire_due(5)[of ?c now, OF due] that by (simp add: authority_iff)
  moreover have "pht_outbound (fst (expire now ?c)) = (hc_outbound c \<noteq> None)" "pht_inbound (fst (expire now ?c)) = (hc_inbound c \<noteq> None)"
    using due by (auto simp: expire_def Let_def split: option.splits)
  ultimately show ?thesis
    using expire_due(1-4)[of ?c now, OF due] by (simp add: poll idle_def)
qed

theorem pending_handoff_settles_witness:
  "idle (snd (poll_timeout 30000000001 (demo_end 1 2)))"
proof -
  have "unat (hc_last_now_ns (demo_end 1 2)) + from_secs 30 \<le> unat (30000000001 :: u64)"
    by (simp add: demo_end_def demo_coordinator_def from_secs_def)
  then show ?thesis using pending_handoff_settles[OF demo_reachable[of 1 2], of 30000000001] by auto
qed

text \<open>
  C12: A hand-off completes between two coordinators at the two ends of one session that compiled the same
  layout: when the exchanged messages arrive in order and within the deadlines, every step of the
  exchange succeeds on both sides; afterwards the destination host is active on both sides with the
  pointer at the configured landing point, only the destination has local authority, and the two are
  aligned for the next hand-off in either direction.
\<close>

theorem handoff_completes:
  assumes "aligned a sa b sb" "has_local_authority a"
    and "resolve_transition (hc_workspace a) (active_display (hc_workspace_state a)) edge x = Inr t"
    and "rt_destination_host t = local_host (hc_workspace_state b)"
    and "unat (hc_last_outbound_sequence a) + 1 < 2 ^ 64"
    and "in_time a [t1, t2, t3, t4, t5]" "in_time b [u1, u2, u3, u4]"
  shows "\<exists>a' b'. handoff_exchange sa sb edge x (t1, t2, t3, t4, t5) (u1, u2, u3, u4) a b = Some (a', b')
    \<and> aligned a' sa b' sb \<and> \<not> has_local_authority a' \<and> has_local_authority b'
    \<and> active_host (hc_workspace_state a') = local_host (hc_workspace_state b)
    \<and> ws_pointer (hc_workspace_state a') = rt_destination_pointer t
    \<and> ws_pointer (hc_workspace_state b') = rt_destination_pointer t"
proof -
  have al: "one_sided a sa b" "one_sided b sb a" "same_workspace (hc_workspace a) (hc_workspace b)"
    using assms(1) by (auto simp: aligned_def)
  have inv: "handoff_inv a" using al(1) by (simp add: one_sided_def)
  have act: "local_active a" using assms(2) authority_iff[OF inv] by simp
  obtain n where n: "checked_add_u64 (hc_last_outbound_sequence a) 1 = Some n"
    using assms(5) by (simp add: checked_add_u64_def)
  then have nb: "checked_add_u64 (hc_last_inbound_sequence b) 1 = Some n"
    using al(1) by (simp add: one_sided_def)
  have tb: "resolve_transition (hc_workspace b) (active_display (hc_workspace_state a)) edge x = Inr t"
    using assms(3) same_workspace_resolve[OF al(3)] by simp
  have src: "rt_source_host t = local_host (hc_workspace_state a)"
    using resolve_transition_fields(5)[OF assms(3) handoff_invD(1)[OF inv]] handoff_invD(2)[OF inv] act
    by (auto simp: validate_state_iff pointer_placed_def local_active_def)
  have E: "cw_protocol_epoch (hc_workspace b) = cw_protocol_epoch (hc_workspace a)"
    using al(3) by (simp add: same_workspace_def)
  note S = exchange_source[OF al(1) act assms(3,4) n assms(6)]
  note D = exchange_destination[OF al(2) tb src assms(4) nb assms(7), unfolded E]
  show ?thesis
    by (rule S, rule D)
      (use aligned_after[OF assms(1) n assms(4)] in \<open>simp add: assms(4)\<close>)
qed

theorem handoff_completes_witness:
  "\<exists>a' b'. handoff_exchange (from_current (demo_session 1 2 1)) (from_current (demo_session 2 1 1)) RightEdge f64_zero
       (1, 2, 3, 4, 5) (1, 2, 3, 4) (demo_end 1 2) (demo_end 2 1) = Some (a', b')
     \<and> has_local_authority b' \<and> \<not> has_local_authority a' \<and> ws_pointer (hc_workspace_state b') = landing_at 2"
proof -
  have "has_local_authority (demo_end 1 2)" by (simp add: has_local_authority_def demo_end_def demo_coordinator_def)
  from handoff_completes[OF demo_aligned this demo_crossing _ _ demo_in_time(1) demo_in_time(2)]
  show ?thesis by (auto simp: demo_local)
qed

section \<open>Commits are never repeated\<close>

text \<open>
  The inbound sequence number is \<open>claimed\<close> while a proposal or a prepared hand-off carries it.
\<close>

definition claimed :: "CoordinatorCore \<Rightarrow> bool" where
  "claimed c = (case hc_inbound c of None \<Rightarrow> False | Some (InboundHint _ _ _ _ _) \<Rightarrow> False | _ \<Rightarrow> True)"

definition advances :: "CoordinatorCore \<Rightarrow> CoordinatorCore \<Rightarrow> bool" where
  "advances c c' \<longleftrightarrow> handoff_inv c' \<and> (hc_last_inbound_sequence c < hc_last_inbound_sequence c'
     \<or> hc_last_inbound_sequence c = hc_last_inbound_sequence c' \<and> (claimed c \<or> \<not> claimed c'))"

lemma advances_refl: "handoff_inv c \<Longrightarrow> advances c c"
  by (auto simp: advances_def)

lemma advances_trans: "advances a b \<Longrightarrow> advances b c \<Longrightarrow> advances a c"
  by (auto simp: advances_def)

lemma advances_same:
  "handoff_inv c' \<Longrightarrow> hc_last_inbound_sequence c' = hc_last_inbound_sequence c \<Longrightarrow> hc_inbound c' \<in> {hc_inbound c, None}
   \<Longrightarrow> advances c c'"
  by (auto simp: advances_def claimed_def)

lemma advances_next:
  "handoff_inv c' \<Longrightarrow> checked_add_u64 (hc_last_inbound_sequence c) 1 = Some (hc_last_inbound_sequence c') \<Longrightarrow> advances c c'"
  using checked_add_u64_one_less by (auto simp: advances_def)

lemma advances_expire:
  assumes "handoff_inv c"
  shows "advances c (snd (expire now c))"
proof (cases "\<exists>s d l e t. hc_inbound c = Some (InboundHint s d l e t) \<and> d \<le> now")
  case True
  then obtain s d l e t where h: "hc_inbound c = Some (InboundHint s d l e t)" "d \<le> now" by blast
  then have "hc_last_inbound_sequence (snd (expire now c)) = leave_transition_id l"
    by (auto simp: expire_def Let_def expire_inbound_def)
  then show ?thesis
    using handoff_invD(5)[OF assms h(1)] by (intro advances_next inv_expire[OF assms]) (simp add: inbound_ok_def)
next
  case False
  then have "hc_last_inbound_sequence (snd (expire now c)) = hc_last_inbound_sequence c
      \<and> hc_inbound (snd (expire now c)) \<in> {hc_inbound c, None}"
    by (auto simp: expire_def Let_def expire_inbound_def split: option.split PendingInbound.split)
  then show ?thesis by (intro advances_same inv_expire[OF assms]) auto
qed

lemma advances_prepare:
  assumes "handoff_inv c"
  shows "advances c (snd (prepare_operation now c))"
proof (cases "now < hc_last_now_ns c")
  case False
  then have inv: "handoff_inv (c\<lparr>hc_last_now_ns := now\<rparr>)" using assms by (intro inv_clock) auto
  then have "advances c (c\<lparr>hc_last_now_ns := now\<rparr>)" by (intro advances_same) auto
  from advances_trans[OF this advances_expire[OF inv]] show ?thesis
    using False by (simp add: prepare_operation_def advance_clock_def)
qed (use assms in \<open>simp add: prepare_operation_def advance_clock_def advances_refl\<close>)

lemma advances_after_prepare:
  assumes "handoff_inv c" "\<And>c1. handoff_inv c1 \<Longrightarrow> prepare_operation now c = (Inr (), c1) \<Longrightarrow> advances c1 (snd (k c1))"
  shows "advances c (snd (after (prepare_operation now c) (\<lambda>_. k)))"
proof (cases "prepare_operation now c")
  case (Pair r c1)
  have a: "advances c c1" "handoff_inv c1"
    using advances_prepare[OF assms(1), of now] inv_prepare_operation[OF assms(1), of now] Pair by simp_all
  show ?thesis
  proof (cases r)
    case (Inr u)
    then show ?thesis using assms(2)[OF a(2)] Pair advances_trans[OF a(1)] by simp
  qed (use a in \<open>simp add: Pair\<close>)
qed

lemma advances_classify: "handoff_inv c \<Longrightarrow> advances c (snd (classify_inbound_sequence i s c))"
  by (intro advances_same inv_classify) (auto simp: classify_inbound_sequence_def split: option.split)

lemma advances_leave: "handoff_inv c \<Longrightarrow> advances c (snd (receive_leave s m now c))"
proof -
  have step: "hc_last_inbound_sequence (snd (receive_leave s m now c)) = hc_last_inbound_sequence (snd (prepare_operation now c))
      \<and> (hc_inbound (snd (receive_leave s m now c)) \<in> {hc_inbound (snd (prepare_operation now c)), None}
         \<or> \<not> claimed (snd (receive_leave s m now c)))"
  proof (cases "prepare_operation now c")
    case (Pair r c1)
    obtain r2 c2 where cl: "classify_inbound_sequence (leave_transition_id m) (leave_sequence m) c1 = (r2, c2)"
      by (cases "classify_inbound_sequence (leave_transition_id m) (leave_sequence m) c1")
    have c2: "hc_last_inbound_sequence c2 = hc_last_inbound_sequence c1" "hc_inbound c2 \<in> {hc_inbound c1, None}"
      using cl by (auto simp: classify_inbound_sequence_def split: if_splits option.splits)
    show ?thesis
      using c2 by (cases r; cases r2)
        (auto simp: receive_leave_def Pair cl checked_def claimed_def Let_def
          split: sum.split option.split InboundSequence.split)
  qed
  assume inv: "handoff_inv c"
  have "advances (snd (prepare_operation now c)) (snd (receive_leave s m now c))"
    using step inv_receive_leave[OF inv, of s m now] by (auto simp: advances_def claimed_def)
  then show ?thesis by (rule advances_trans[OF advances_prepare[OF inv]])
qed


text \<open>What an entry message may do to the inbound side.\<close>

definition inbound_still :: "CoordinatorCore \<Rightarrow> CoordinatorCore \<Rightarrow> bool" where
  "inbound_still c c' \<longleftrightarrow>
     hc_last_inbound_sequence c' = hc_last_inbound_sequence c \<and> hc_inbound c' \<in> {hc_inbound c, None}"

definition enter_moves :: "u64 \<Rightarrow> CoordinatorCore \<Rightarrow> CoordinatorCore \<Rightarrow> bool" where
  "enter_moves i c c' \<longleftrightarrow>
     inbound_still c c' \<or> hc_last_inbound_sequence c' = i"

lemma enter_moves_parts:
  "inbound_still c (snd (answer_again s m a c))" "inbound_still c (snd (duplicate_enter s m c))"
  "enter_moves (enter_transition_id m) c (snd (rejection_effect s m out c))"
  "enter_moves (enter_transition_id m) c (snd (accept_enter s m t d c))"
  "enter_moves (enter_transition_id m) c (snd (accept_enter_from_hint s m c))"
proof -
  show a: "inbound_still c (snd (answer_again s m a c))" for a
    by (auto simp: inbound_still_def answer_again_def checked_def Let_def split: sum.split)
  show "inbound_still c (snd (duplicate_enter s m c))"
    using a by (auto simp: duplicate_enter_def split: option.split) (auto simp: inbound_still_def)
  show "enter_moves (enter_transition_id m) c (snd (rejection_effect s m out c))"
    by (auto simp: enter_moves_def inbound_still_def rejection_effect_def Let_def split: sum.split)
  show "enter_moves (enter_transition_id m) c (snd (accept_enter s m t d c))"
    "enter_moves (enter_transition_id m) c (snd (accept_enter_from_hint s m c))"
    by (auto simp: enter_moves_def inbound_still_def accept_enter_def accept_enter_from_hint_def Let_def split: option.split PendingInbound.split)
qed

lemma enter_moves_refl: "enter_moves i c c" "inbound_still c c"
  by (simp_all add: enter_moves_def inbound_still_def)

lemma receive_enter_moves:
  assumes "prepare_operation now c = (Inr u, c1)"
  shows "inbound_still c1 (snd (receive_enter s m now c))
    \<or> checked_add_u64 (hc_last_inbound_sequence c1) 1 = Some (enter_transition_id m)
      \<and> enter_moves (enter_transition_id m) c1 (snd (receive_enter s m now c))"
proof (cases "require_available_session s c1 = Inr () \<and> hc_reply c1 = None")
  case True
  then have r: "require_available_session s c1 = Inr ()" "hc_reply c1 = None" by blast+
  obtain r2 c2 where cl: "classify_inbound_sequence (enter_transition_id m) (enter_sequence m) c1 = (r2, c2)"
    by (cases "classify_inbound_sequence (enter_transition_id m) (enter_sequence m) c1")
  show ?thesis
  proof (cases r2)
    case (Inl e)
    have "inbound_still c1 c2"
      using cl by (auto simp: inbound_still_def classify_inbound_sequence_def split: if_splits option.splits)
    then show ?thesis by (simp add: receive_enter_def assms r cl Inl del: require_available_session_iff)
  next
    case (Inr rel)
    then have c2: "c2 = c1" and rel: "rel = SequenceDuplicate
        \<or> rel = SequenceNext \<and> checked_add_u64 (hc_last_inbound_sequence c1) 1 = Some (enter_transition_id m)"
      using cl by (auto simp: classify_iff)
    from rel show ?thesis
    proof
      assume "rel = SequenceDuplicate"
      then show ?thesis
        using enter_moves_parts(2) by (simp add: receive_enter_def assms r cl Inr c2 del: require_available_session_iff)
    next
      assume n: "rel = SequenceNext \<and> checked_add_u64 (hc_last_inbound_sequence c1) 1 = Some (enter_transition_id m)"
      have "enter_moves (enter_transition_id m) c1 (snd (receive_enter s m now c))"
        using enter_moves_parts enter_moves_refl n
        by (auto simp: receive_enter_def assms r cl Inr c2 checked_def split_def Let_def
            simp del: require_available_session_iff split: option.split sum.split)
      then show ?thesis using n by blast
    qed
  qed
next
  case False
  have "snd (receive_enter s m now c) = c1"
    using False by (cases "require_available_session s c1"; cases "hc_reply c1")
      (simp_all add: receive_enter_def assms del: require_available_session_iff)
  then show ?thesis by (simp add: enter_moves_refl)
qed

lemma advances_enter: 
  assumes "handoff_inv c"
  shows "advances c (snd (receive_enter s m now c))"
proof (cases "prepare_operation now c")
  case (Pair r c1)
  have a: "advances c c1" using advances_prepare[OF assms, of now] Pair by simp
  note inv = inv_receive_enter[OF assms, of s m now]
  show ?thesis
  proof (cases r)
    case (Inr u)
    have "advances c1 (snd (receive_enter s m now c))"
      using receive_enter_moves[of now c u c1 s m] Pair Inr inv
        advances_same[OF inv, of c1] advances_next[OF inv, of c1]
      by (auto simp: enter_moves_def inbound_still_def)
    then show ?thesis by (rule advances_trans[OF a])
  qed (use a in \<open>simp add: receive_enter_def Pair\<close>)
qed

lemma inbound_still_trans: "inbound_still a b \<Longrightarrow> inbound_still b c \<Longrightarrow> inbound_still a c"
  by (auto simp: inbound_still_def)

lemma still_advances: "handoff_inv c' \<Longrightarrow> inbound_still c c' \<Longrightarrow> advances c c'"
  by (auto simp: inbound_still_def intro: advances_same)

text \<open>Operations whose continuation leaves the inbound side alone.\<close>

lemma advances_continue:
  assumes "handoff_inv c" "handoff_inv (snd p)" "p = after (prepare_operation now c) (\<lambda>_. k)" "\<And>c1. inbound_still c1 (snd (k c1))"
  shows "advances c (snd p)"
  unfolding assms(3)
proof (rule advances_after_prepare[OF assms(1)])
  fix c1 assume "prepare_operation now c = (Inr (), c1)"
  then show "advances c1 (snd (k c1))"
    using assms(2,3,4) by (intro still_advances) auto
qed

lemma advances_propose: 
  assumes "handoff_inv c"
  shows "advances c (snd (propose_leave s e x now c))"
  by (rule advances_continue[OF assms inv_propose_leave[OF assms] propose_leave_def])
    (auto simp: checked_def after_def next_outbound_sequence_def Let_def inbound_still_def split: sum.split option.split)

lemma advances_ack: 
  assumes "handoff_inv c"
  shows "advances c (snd (receive_ack s m now c))"
  by (rule advances_continue[OF assms inv_receive_ack[OF assms] receive_ack_def])
    (auto simp: checked_def Let_def inbound_still_def split: sum.split option.split)

lemma still_apply_commit: "inbound_still c (snd (apply_commit s m c))"
  by (cases rule: apply_commit_cases[of s m c]) (auto simp: inbound_still_def)

lemma advances_commit: 
  assumes "handoff_inv c"
  shows "advances c (snd (receive_commit s m now c))"
  by (rule advances_continue[OF assms inv_receive_commit[OF assms] receive_commit_def])
    (use still_apply_commit in \<open>auto simp: checked_def inbound_still_def split: sum.split option.split\<close>)

lemma still_leave_sent: "inbound_still c (snd (leave_effect_sent f c))"
  by (simp add: leave_effect_sent_def Let_def inbound_still_def split: option.split PointerControlMessage.split)

lemma still_enter_sent: "inbound_still c (snd (enter_effect_sent f c))"
  by (simp add: enter_effect_sent_def Let_def inbound_still_def split: option.split PointerControlMessage.split)

lemma still_reply_sent: "inbound_still c (snd (reply_effect_sent f c))"
  by (simp add: reply_effect_sent_def Let_def inbound_still_def split: option.split PointerControlMessage.split)

lemma still_commit_sent: "inbound_still c (snd (commit_effect_sent f c))"
  by (simp add: commit_effect_sent_def Let_def inbound_still_def split: option.split PointerControlMessage.split)

lemmas advances_sent_parts = still_leave_sent still_enter_sent still_reply_sent still_commit_sent

lemma advances_ack_sent: "handoff_inv c \<Longrightarrow> advances c (snd (accepted_ack_sent f c))"
proof -
  have "hc_last_inbound_sequence (snd (accepted_ack_sent f c)) = hc_last_inbound_sequence c"
    "claimed (snd (accepted_ack_sent f c)) \<Longrightarrow> claimed c"
    by (auto simp: accepted_ack_sent_def claimed_def split: option.splits PendingInbound.splits if_splits)
  then show "handoff_inv c \<Longrightarrow> ?thesis"
    using inv_accepted_ack_sent[of c f] by (auto simp: advances_def)
qed

lemma advances_effect_sent: "handoff_inv c \<Longrightarrow> advances c (snd (effect_sent f now c))"
  unfolding effect_sent_def
proof (rule advances_after_prepare, assumption)
  fix c1 assume inv: "handoff_inv c1"
  note parts = advances_sent_parts[of c1 f, THEN still_advances[rotated]]
  have "advances c1 (snd (case ef_purpose f of
       PurposeLeave \<Rightarrow> leave_effect_sent f c1 | PurposeEnter \<Rightarrow> enter_effect_sent f c1
     | PurposeAcceptedAck \<Rightarrow> accepted_ack_sent f c1 | PurposeCommit \<Rightarrow> commit_effect_sent f c1
     | PurposeDuplicateAcceptedAck \<Rightarrow> reply_effect_sent f c1 | PurposeRejectedAck \<Rightarrow> reply_effect_sent f c1))"
    using parts(1)[OF inv_leave_sent[OF inv]] parts(2)[OF inv_enter_sent[OF inv]] parts(3)[OF inv_reply_sent[OF inv]]
      advances_ack_sent[OF inv] inv_commit_sent[OF inv] advances_refl[OF inv] by (simp split: EffectPurpose.split)
  then show "advances c1 (snd (checked (validate_effect_owner f c1) c1 (\<lambda>_.
     checked (require_available_session (ef_session f) c1) c1 (\<lambda>_. case ef_purpose f of
       PurposeLeave \<Rightarrow> leave_effect_sent f c1 | PurposeEnter \<Rightarrow> enter_effect_sent f c1
     | PurposeAcceptedAck \<Rightarrow> accepted_ack_sent f c1 | PurposeCommit \<Rightarrow> commit_effect_sent f c1
     | PurposeDuplicateAcceptedAck \<Rightarrow> reply_effect_sent f c1 | PurposeRejectedAck \<Rightarrow> reply_effect_sent f c1))))"
    using advances_refl[OF inv] by (intro checked_state[where P = "advances c1"]) auto
qed

lemma advances_effect_failed: "handoff_inv c \<Longrightarrow> advances c (snd (effect_failed f c))"
  by (rule still_advances[OF inv_effect_failed])
    (auto simp: effect_failed_def checked_def inbound_still_def split: sum.split)

lemma advances_ready: 
  assumes "handoff_inv c"
  shows "advances c (snd (validate_effect_ready f now c))"
  by (rule advances_continue[OF assms inv_validate_effect_ready[OF assms] validate_effect_ready_def])
    (auto simp: checked_def Let_def inbound_still_def split: sum.split)

lemma advances_dispatch:
  assumes "handoff_inv c"
  shows "advances c (snd (dispatch_effect dp f now c))"
proof (cases "validate_effect_ready f now c")
  case (Pair r c1)
  have a: "advances c c1" "handoff_inv c1"
    using advances_ready[OF assms, of f now] inv_validate_effect_ready[OF assms, of f now] Pair by simp_all
  show ?thesis
  proof (cases r)
    case (Inr u)
    have "advances c1 (snd (dispatch_effect dp f now c))"
    proof (cases "ef_purpose f = PurposeCommit")
      case True
      obtain p ack where
        p: "hc_outbound c1 = Some p" and
        d: "dispatch_effect dp f now c =
          (case dp (wire_message (ef_message f)) False of
             Inl x \<Rightarrow> (Inl (DispatchOutbound x), fail_local (c1\<lparr>hc_outbound := None\<rparr>))
           | Inr _ \<Rightarrow> (Inr AuthorityCommitted,
               c1\<lparr>hc_outbound := None,
                  hc_workspace_state := set_active_pointer (rt_destination_host (po_transition p))
                    (rt_destination_pointer (po_transition p)) (hc_workspace_state c1),
                  hc_completed_outbound := Some \<lparr>cob_session = po_session p, cob_ack = ack\<rparr>\<rparr>))"
        by (rule dispatch_commit[OF assms Pair[unfolded Inr] True, of dp]) (rule that)
      show ?thesis
        by (rule still_advances[OF inv_dispatch_effect[OF assms]]) (simp add: d inbound_still_def split: sum.split)
    next
      case False
      then have "dispatch_effect dp f now c =
          (case dp (wire_message (ef_message f)) (has_local_authority c1) of
             Inl x \<Rightarrow> (case effect_failed f c1 of
                  (Inl e, c) \<Rightarrow> (Inl (DispatchHandoff e), c) | (Inr _, c) \<Rightarrow> (Inl (DispatchOutbound x), c))
           | Inr _ \<Rightarrow> map_prod (map_err DispatchHandoff) id (effect_sent f now c1))"
        by (simp add: dispatch_effect_def Pair Inr)
      then show ?thesis
        using advances_effect_failed[OF a(2), of f] advances_effect_sent[OF a(2), of f now]
        by (auto split: sum.split prod.split)
    qed
    then show ?thesis by (rule advances_trans[OF a(1)])
  qed (use a in \<open>simp add: dispatch_effect_def Pair\<close>)
qed

lemma still_session_ops:
  "inbound_still c (snd (mark_session_healthy s c))" "inbound_still c (snd (degrade_session s c))"
  "inbound_still c (snd (disconnect_session s c))" "inbound_still c (snd (replace_workspace w p c))"
  "inbound_still c (snd (handoff_stop k c))" "inbound_still c (snd (observe_local_pointer p c))"
  by (auto simp: inbound_still_def mark_session_healthy_def degrade_session_def disconnect_session_def
      replace_workspace_def handoff_stop_def observe_local_pointer_def checked_def Let_def split: sum.split)

lemma advances_poll:
  assumes "handoff_inv c"
  shows "advances c (snd (poll_timeout now c))"
proof -
  have "snd (poll_timeout now c) = snd (prepare_operation now c)"
    by (auto simp: poll_timeout_def prepare_operation_def after_def split_def Let_def split: sum.split)
  then show ?thesis using advances_prepare[OF assms] by simp
qed

lemma still_replace_step: "inbound_still c (handoff_step (HReplace sha e x p) c)"
  by (cases x) (auto simp: still_session_ops enter_moves_refl split: sum.split)

lemma advances_step:
  assumes "handoff_inv c" "\<And>s. op \<noteq> HBind s"
  shows "advances c (handoff_step op c)"
  using still_advances[OF inv_step[OF assms(1), of op]]
  by (cases op) (use assms(2) in blast, simp_all add: assms(1) advances_propose advances_leave advances_enter advances_ack advances_commit
      advances_effect_sent advances_effect_failed advances_dispatch advances_poll still_session_ops
      still_replace_step handoff_revoke_def handoff_shutdown_def)

text \<open>The transition numbers whose commit was applied, within one session binding.\<close>

fun within_session :: "handoff_op \<Rightarrow> CoordinatorCore \<Rightarrow> CoordinatorCore" where
  "within_session (HBind s) c = c"
| "within_session op c = handoff_step op c"

fun applied_commit :: "handoff_op \<Rightarrow> CoordinatorCore \<Rightarrow> (unit \<times> u64) option" where
  "applied_commit (HCommit s m now) c =
     (if fst (receive_commit s m now c) = Inr HandoffApplied then Some ((), commit_transition_id m) else None)"
| "applied_commit op c = None"

lemma advances_within: "handoff_inv c \<Longrightarrow> advances c (within_session op c)"
  using advances_step[of c op] by (cases op) (auto intro: advances_refl)

lemma applied_commit_claims:
  assumes "handoff_inv c" "applied_commit op c = Some (u, i)"
  shows "hc_last_inbound_sequence c < i \<or> hc_last_inbound_sequence c = i \<and> claimed c"
    "hc_last_inbound_sequence (within_session op c) = i" "\<not> claimed (within_session op c)"
proof -
  obtain s m now where op: "op = HCommit s m now" "i = commit_transition_id m"
      "fst (receive_commit s m now c) = Inr HandoffApplied"
    using assms(2) by (cases op) (auto split: if_splits)
  obtain r c1 where Pair: "prepare_operation now c = (r, c1)" by (cases "prepare_operation now c")
  have a: "advances c c1" "handoff_inv c1"
    using advances_prepare[OF assms(1), of now] inv_prepare_operation[OF assms(1), of now] Pair by simp_all
  have "fst (apply_commit s m c1) = Inr HandoffApplied \<and> receive_commit s m now c = apply_commit s m c1"
    using op(3) by (cases r) (auto simp: receive_commit_def Pair checked_def simp del: require_available_session_iff
      split: sum.splits if_splits option.splits)
  then obtain d l e k t where p: "hc_inbound c1 = Some (InboundPrepared s d l e k m t)"
      "hc_inbound (within_session op c) = None"
      "hc_last_inbound_sequence (within_session op c) = hc_last_inbound_sequence c1"
    by (cases rule: apply_commit_cases[of s m c1]) (auto simp: op(1))
  have i: "i = hc_last_inbound_sequence c1" "claimed c1"
    using handoff_invD(5)[OF a(2) p(1)] p(1) by (auto simp: op(2) inbound_ok_def make_commit_def claimed_def)
  show "hc_last_inbound_sequence (within_session op c) = i" "\<not> claimed (within_session op c)"
    using p i by (simp_all add: claimed_def)
  show "hc_last_inbound_sequence c < i \<or> hc_last_inbound_sequence c = i \<and> claimed c"
    using a(1) i by (auto simp: advances_def)
qed

interpretation handoff_commits: revision_ledger within_session handoff_inv applied_commit
  "\<lambda>c _ i. i < hc_last_inbound_sequence c \<or> i = hc_last_inbound_sequence c \<and> \<not> claimed c"
proof unfold_locales
  fix c op u i j
  show "handoff_inv (within_session op c)" if "handoff_inv c"
    using advances_within[OF that, of op] by (simp add: advances_def)
  show "i < hc_last_inbound_sequence (within_session op c)
      \<or> i = hc_last_inbound_sequence (within_session op c) \<and> \<not> claimed (within_session op c)"
    if "handoff_inv c" "i < hc_last_inbound_sequence c \<or> i = hc_last_inbound_sequence c \<and> \<not> claimed c"
    using advances_within[OF that(1), of op] that(2) by (auto simp: advances_def)
  assume h: "handoff_inv c" "applied_commit op c = Some (u, i)"
  note cl = applied_commit_claims[OF h]
  show "\<not> (i < hc_last_inbound_sequence c \<or> i = hc_last_inbound_sequence c \<and> \<not> claimed c)"
    using cl(1) by auto
  show "j < hc_last_inbound_sequence (within_session op c)
      \<or> j = hc_last_inbound_sequence (within_session op c) \<and> \<not> claimed (within_session op c)" if "j \<le> i"
    using cl(2,3) that by auto
qed

text \<open>
  C15: No hand-off is applied twice: within one session binding, over any sequence of messages, effects,
  failures and clock readings, the transition numbers of the commits that are applied strictly
  increase.
\<close>

theorem applied_commits_increase:
  assumes "handoff_reachable c"
  shows "sorted_wrt (<) (map snd (publication_log within_session applied_commit ops c))"
proof -
  have "sorted_wrt (\<lambda>(a, r) (b, q). a = b \<longrightarrow> r < q) (publication_log within_session applied_commit ops c)"
    by (rule handoff_commits.log_increasing[OF reachable_inv[OF assms]])
  then show ?thesis by (auto simp: sorted_wrt_map elim: sorted_wrt_mono_rel[rotated])
qed

theorem applied_commits_increase_witness:
  "\<exists>ops. publication_log within_session applied_commit ops (demo_end 2 1) = [((), 1)]
     \<and> sorted_wrt (<) (map snd (publication_log within_session applied_commit (ops @ ops) (demo_end 2 1)))"
proof -
  let ?a = "demo_end 1 2" and ?b = "demo_end 2 1" and ?s = "from_current (demo_session 2 1 1)"
  let ?t = "\<lparr>rt_source_display = 1, rt_source_host = 1, rt_source_edge = RightEdge, rt_destination_display = 2,
      rt_destination_host = 2, rt_destination_edge = LeftEdge, rt_normalized_position = f64_zero,
      rt_destination_pointer = landing_at 2\<rparr>"
  let ?E = "cw_protocol_epoch (hc_workspace ?b)"
  have one: "checked_add_u64 (hc_last_inbound_sequence ?b) 1 = Some 1"
    by (simp add: demo_end_def demo_coordinator_def checked_add_u64_def)
  have t: "resolve_transition (hc_workspace ?b) (active_display (hc_workspace_state ?a)) RightEdge f64_zero = Inr ?t"
    using demo_crossing by (simp add: demo_end_def demo_coordinator_def)
  obtain b1 b2 b3 b4 g where r: "receive_leave ?s (make_leave 1 ?E ?t) 1 ?b = (Inr HandoffApplied, b1)"
      "receive_enter ?s (make_enter 1 ?E ?t) 2 b1 = (Inr g, b2)" "dispatch_effect queued g 3 b2 = (Inr EffectSent, b3)"
      "receive_commit ?s (make_commit (make_enter 1 ?E ?t) ?t) 4 b3 = (Inr HandoffApplied, b4)"
    by (rule exchange_destination[OF demo_aligned[unfolded aligned_def, THEN conjunct2, THEN conjunct1] t _ _ one demo_in_time(2)])
      (simp_all add: demo_local)
  have "publication_log within_session applied_commit [HLeave ?s (make_leave 1 ?E ?t) 1, HEnter ?s (make_enter 1 ?E ?t) 2,
      HDispatch queued g 3, HCommit ?s (make_commit (make_enter 1 ?E ?t) ?t) 4] ?b = [((), 1)]"
    by (simp add: r) (simp add: make_commit_def make_enter_def)
  then show ?thesis using applied_commits_increase[OF demo_reachable[of 2 1]] by blast
qed

end
