(* ===== verification/Discovery.thy ===== *)
theory Discovery
  imports ConfigModel BTreeMaps "HOL-Library.List_Lexorder"
begin

text \<open>
  Discovery on the local network, \<^verbatim>\<open>crates/kvm-discovery/src\<close>: \<^verbatim>\<open>model.rs\<close> (limits, addresses and the
  sorted candidate view), \<^verbatim>\<open>cache.rs\<close> (the parser of hostile records and the bounded cache) and
  \<^verbatim>\<open>adapter.rs\<close> (what is advertised, how resolved services become records, and the bridge that publishes
  snapshots).  The \<^verbatim>\<open>uuid\<close> crate and the mDNS library are arguments; the tasks, the sockets and the
  shutdown of the mDNS daemon are not modelled.
\<close>

section \<open>Text in UTF-8\<close>

text \<open>
  \<^verbatim>\<open>str::from_utf8\<close> of the standard library: the table of well-formed byte sequences, which excludes
  overlong forms, surrogates and values above U+10FFFF.
\<close>

definition continuation_byte :: "nat \<Rightarrow> bool" where
  "continuation_byte b \<longleftrightarrow> 128 \<le> b \<and> b < 192"

definition second_of_three :: "nat \<Rightarrow> nat \<Rightarrow> bool" where
  "second_of_three b c \<longleftrightarrow> (if b = 224 then 160 \<le> c \<and> c < 192 else if b = 237 then 128 \<le> c \<and> c < 160 else continuation_byte c)"

definition second_of_four :: "nat \<Rightarrow> nat \<Rightarrow> bool" where
  "second_of_four b c \<longleftrightarrow> (if b = 240 then 144 \<le> c \<and> c < 192 else if b = 244 then 128 \<le> c \<and> c < 144 else continuation_byte c)"

fun utf8_decode :: "nat list \<Rightarrow> rust_string option" where
  "utf8_decode [] = Some []"
| "utf8_decode (b # bs) =
     (if b < 128 then map_option ((#) b) (utf8_decode bs)
      else if 194 \<le> b \<and> b < 224 then
        (case bs of
           c # rest \<Rightarrow>
             if continuation_byte c then map_option ((#) ((b - 192) * 64 + (c - 128))) (utf8_decode rest) else None
         | _ \<Rightarrow> None)
      else if 224 \<le> b \<and> b < 240 then
        (case bs of
           c # d # rest \<Rightarrow>
             if second_of_three b c \<and> continuation_byte d
             then map_option ((#) ((b - 224) * 4096 + (c - 128) * 64 + (d - 128))) (utf8_decode rest) else None
         | _ \<Rightarrow> None)
      else if 240 \<le> b \<and> b < 245 then
        (case bs of
           c # d # e # rest \<Rightarrow>
             if second_of_four b c \<and> continuation_byte d \<and> continuation_byte e
             then map_option ((#) ((b - 240) * 262144 + (c - 128) * 4096 + (d - 128) * 64 + (e - 128))) (utf8_decode rest)
             else None
         | _ \<Rightarrow> None)
      else None)"

definition from_utf8 :: "u8 list \<Rightarrow> rust_string option" where
  "from_utf8 bytes = utf8_decode (map unat bytes)"

definition utf8_bytes :: "rust_string \<Rightarrow> u8 list" where
  "utf8_bytes s = map of_nat (as_bytes s)"

definition scalar_value :: "rust_char \<Rightarrow> bool" where
  "scalar_value c \<longleftrightarrow> c < 55296 \<or> 57344 \<le> c \<and> c < 1114112"

lemma base64_digits:
  fixes z :: nat
  assumes "z < 64"
  shows "(a * 64 + z) div 64 = a" "(a * 64 + z) mod 64 = z"
  using assms by simp_all

lemma div_64_64: "(n :: nat) div 4096 = n div 64 div 64" "n div 262144 = n div 64 div 64 div 64"
  using div_mult2_eq[of n 64 64] div_mult2_eq[of n 64 4096] div_mult2_eq[of "n div 64" 64 64] by simp_all

lemma decode_char:
  assumes "scalar_value c"
  shows "utf8_decode (utf8_char c @ bs) = map_option ((#) c) (utf8_decode bs)"
proof -
  note digits = div_mult_mod_eq[of c 64] div_mult_mod_eq[of "c div 64" 64] div_mult_mod_eq[of "c div 64 div 64" 64]
  have split: "c div 4096 * 4096 + c div 64 mod 64 * 64 + c mod 64 = c"
    "c div 262144 * 262144 + c div 4096 mod 64 * 4096 + c div 64 mod 64 * 64 + c mod 64 = c"
    unfolding div_64_64 using digits by linarith+
  have "c < 1114112" using assms by (auto simp: scalar_value_def)
  then consider "c < 128" | "128 \<le> c" "c < 2048" | "2048 \<le> c" "c < 65536" | "65536 \<le> c" "c < 1114112"
    by (metis not_le)
  then show ?thesis
  proof cases
    case 1
    then show ?thesis by (simp add: utf8_char_def)
  next
    case 2
    have "2 \<le> c div 64" "c div 64 < 32" using 2 by auto
    then show ?thesis using 2 by (simp add: utf8_char_def continuation_byte_def)
  next
    case 3
    have r: "c div 4096 < 16" using 3 by auto
    have q: "32 \<le> c div 64" "c div 64 < 864 \<or> 896 \<le> c div 64"
      using 3 assms by (auto simp: scalar_value_def)
    have "c div 64 mod 64 < 64" by simp
    moreover have "c div 64 mod 64 < 32" if "c div 64 div 64 = 13"
      using q that minus_div_mult_eq_mod[of "c div 64" 64] by linarith
    ultimately have "second_of_three (224 + c div 4096) (128 + c div 64 mod 64)"
      using q unfolding second_of_three_def continuation_byte_def div_64_64 by (auto split: if_split)
    then show ?thesis using 3 r split(1) by (simp add: utf8_char_def continuation_byte_def)
  next
    case 4
    have r: "c div 262144 < 5" using 4 by auto
    have q: "16 \<le> c div 4096" "c div 4096 < 272" using 4 by auto
    have "c div 4096 mod 64 < 64" by simp
    moreover have "c div 64 div 64 mod 64 < 16" if "c div 64 div 64 div 64 = 4"
      using q that minus_div_mult_eq_mod[of "c div 64 div 64" 64] unfolding div_64_64 by linarith
    ultimately have "second_of_four (240 + c div 262144) (128 + c div 4096 mod 64)"
      using q unfolding second_of_four_def continuation_byte_def div_64_64 by (auto split: if_split)
    then show ?thesis using 4 r split(2) by (simp add: utf8_char_def continuation_byte_def)
  qed
qed

lemma decode_encode: "(\<forall>c\<in>set s. scalar_value c) \<Longrightarrow> utf8_decode (as_bytes s) = Some s"
  by (induction s) (simp_all add: as_bytes_def decode_char)

lemma encode_two: "194 \<le> b \<Longrightarrow> b < 224 \<Longrightarrow> continuation_byte c \<Longrightarrow>
    utf8_char ((b - 192) * 64 + (c - 128)) = [b, c] \<and> scalar_value ((b - 192) * 64 + (c - 128))"
proof -
  assume a: "194 \<le> b" "b < 224" "continuation_byte c"
  obtain x y where v: "b = x + 192" "c = y + 128" "2 \<le> x" "x < 32" "y < 64"
  proof
    show "b = (b - 192) + 192" "c = (c - 128) + 128" "2 \<le> b - 192" "b - 192 < 32" "c - 128 < 64"
      using a by (auto simp: continuation_byte_def)
  qed
  have "128 \<le> x * 64 + y" "x * 64 + y < 2048" using v by auto
  then show ?thesis using base64_digits[OF v(5), of x] by (simp add: v(1,2) utf8_char_def scalar_value_def)
qed

lemma encode_three:
  assumes "224 \<le> b" "b < 240" "second_of_three b c" "continuation_byte d"
  shows "utf8_char ((b - 224) * 4096 + (c - 128) * 64 + (d - 128)) = [b, c, d]
    \<and> scalar_value ((b - 224) * 4096 + (c - 128) * 64 + (d - 128))"
proof -
  obtain x y z where v: "b = x + 224" "c = y + 128" "d = z + 128" "x < 16" "y < 64" "z < 64" "x = 0 \<longrightarrow> 32 \<le> y" "x = 13 \<longrightarrow> y < 32"
  proof
    show "b = (b - 224) + 224" "c = (c - 128) + 128" "d = (d - 128) + 128" "b - 224 < 16" "c - 128 < 64" "d - 128 < 64"
      "b - 224 = 0 \<longrightarrow> 32 \<le> c - 128" "b - 224 = 13 \<longrightarrow> c - 128 < 32"
      using assms by (auto simp: second_of_three_def continuation_byte_def split: if_splits)
  qed
  have "2048 \<le> x * 4096 + y * 64 + z" "x * 4096 + y * 64 + z < 65536" using v by auto
  moreover have "x * 4096 + y * 64 + z = (x * 64 + y) * 64 + z" by simp
  then have "(x * 4096 + y * 64 + z) div 4096 = x" "(x * 4096 + y * 64 + z) div 64 mod 64 = y" "(x * 4096 + y * 64 + z) mod 64 = z"
    unfolding div_64_64 by (simp_all only: base64_digits[OF v(5)] base64_digits[OF v(6)])
  moreover have "x * 4096 + y * 64 + z < 55296 \<or> 57344 \<le> x * 4096 + y * 64 + z"
    using v by (cases "x < 13"; cases "x = 13") auto
  ultimately show ?thesis by (simp add: v(1-3) utf8_char_def scalar_value_def)
qed

lemma encode_four:
  assumes "240 \<le> b" "b < 245" "second_of_four b c" "continuation_byte d" "continuation_byte e"
  shows "utf8_char ((b - 240) * 262144 + (c - 128) * 4096 + (d - 128) * 64 + (e - 128)) = [b, c, d, e]
    \<and> scalar_value ((b - 240) * 262144 + (c - 128) * 4096 + (d - 128) * 64 + (e - 128))"
proof -
  obtain w x y z where v: "b = w + 240" "c = x + 128" "d = y + 128" "e = z + 128" "w < 5" "x < 64" "y < 64" "z < 64"
    "w = 0 \<longrightarrow> 16 \<le> x" "w = 4 \<longrightarrow> x < 16"
  proof
    show "b = (b - 240) + 240" "c = (c - 128) + 128" "d = (d - 128) + 128" "e = (e - 128) + 128"
      "b - 240 < 5" "c - 128 < 64" "d - 128 < 64" "e - 128 < 64" "b - 240 = 0 \<longrightarrow> 16 \<le> c - 128" "b - 240 = 4 \<longrightarrow> c - 128 < 16"
      using assms by (auto simp: second_of_four_def continuation_byte_def split: if_splits)
  qed
  let ?n = "w * 262144 + x * 4096 + y * 64 + z"
  have "65536 \<le> ?n" "?n < 1114112" using v by auto
  moreover have "?n = ((w * 64 + x) * 64 + y) * 64 + z" by simp
  then have "?n div 262144 = w" "?n div 4096 mod 64 = x" "?n div 64 mod 64 = y" "?n mod 64 = z"
    unfolding div_64_64 by (simp_all only: base64_digits[OF v(6)] base64_digits[OF v(7)] base64_digits[OF v(8)])
  ultimately show ?thesis by (simp add: v(1-4) utf8_char_def scalar_value_def)
qed

lemma decode_sound: "utf8_decode bs = Some s \<Longrightarrow> as_bytes s = bs \<and> (\<forall>c\<in>set s. scalar_value c)"
proof (induction bs arbitrary: s rule: utf8_decode.induct)
  case (2 b bs)
  have one: "as_bytes (c # s) = utf8_char c @ as_bytes s" for c s by (simp add: as_bytes_def)
  consider "b < 128" | "194 \<le> b" "b < 224" | "224 \<le> b" "b < 240" | "240 \<le> b" "b < 245"
    using "2.prems" by (force split: if_splits)
  then show ?case
  proof cases
    case 1
    then show ?thesis using 2 by (auto simp: one utf8_char_def scalar_value_def)
  next
    case 2
    then show ?thesis using "2.IH"(2) "2.prems" encode_two[OF 2] by (auto simp: one split: list.splits if_splits)
  next
    case 3
    then show ?thesis using "2.IH"(3) "2.prems" encode_three[OF 3] by (auto simp: one split: list.splits if_splits)
  next
    case 4
    then show ?thesis using "2.IH"(4) "2.prems" encode_four[OF 4] by (auto simp: one split: list.splits if_splits)
  qed
qed (simp add: as_bytes_def)

lemma as_bytes_lt: "(\<forall>c\<in>set s. scalar_value c) \<Longrightarrow> b \<in> set (as_bytes s) \<Longrightarrow> b < 256"
  by (induction s) (auto simp: as_bytes_def utf8_char_def scalar_value_def split: if_splits)

lemma from_utf8_iff: "from_utf8 bytes = Some s \<longleftrightarrow> bytes = utf8_bytes s \<and> (\<forall>c\<in>set s. scalar_value c)"
proof
  assume "from_utf8 bytes = Some s"
  then have d: "as_bytes s = map unat bytes" "\<forall>c\<in>set s. scalar_value c"
    using decode_sound by (auto simp: from_utf8_def)
  then show "bytes = utf8_bytes s \<and> (\<forall>c\<in>set s. scalar_value c)"
    by (simp add: utf8_bytes_def comp_def)
next
  assume r: "bytes = utf8_bytes s \<and> (\<forall>c\<in>set s. scalar_value c)"
  have "map unat (utf8_bytes s) = as_bytes s"
    using as_bytes_lt[of s] r by (auto simp: utf8_bytes_def unat_of_nat intro!: map_idI)
  then show "from_utf8 bytes = Some s"
    using r decode_encode by (simp add: from_utf8_def)
qed

lemma length_utf8_bytes [simp]: "length (utf8_bytes s) = str_len s"
  by (simp add: utf8_bytes_def length_as_bytes)

section \<open>Limits, addresses and candidates\<close>

definition SOFTWARE_KVM_SERVICE_TYPE :: rust_string where
  "SOFTWARE_KVM_SERVICE_TYPE = ascii_str ''_software-kvm._tcp.local.''"

definition DISCOVERY_PROTOCOL_VERSION :: rust_string where
  "DISCOVERY_PROTOCOL_VERSION = ascii_str ''1''"

definition MAX_FULLNAME_BYTES :: nat where "MAX_FULLNAME_BYTES = 255"
definition MAX_HOSTNAME_BYTES :: nat where "MAX_HOSTNAME_BYTES = 255"
definition MAX_INSTANCE_NAME_BYTES :: nat where "MAX_INSTANCE_NAME_BYTES = 63"
definition MAX_TXT_PROPERTIES :: nat where "MAX_TXT_PROPERTIES = 8"
definition MAX_TXT_KEY_BYTES :: nat where "MAX_TXT_KEY_BYTES = 16"
definition MAX_TXT_VALUE_BYTES :: nat where "MAX_TXT_VALUE_BYTES = 128"
definition MAX_ADDRESSES_PER_SERVICE :: nat where "MAX_ADDRESSES_PER_SERVICE = 8"
definition MAX_DISCOVERY_SERVICES :: nat where "MAX_DISCOVERY_SERVICES = 128"

definition MAX_DISCOVERY_CANDIDATES :: nat where
  "MAX_DISCOVERY_CANDIDATES = MAX_DISCOVERY_SERVICES * MAX_ADDRESSES_PER_SERVICE"

lemmas discovery_limits = MAX_FULLNAME_BYTES_def MAX_HOSTNAME_BYTES_def MAX_INSTANCE_NAME_BYTES_def
  MAX_TXT_PROPERTIES_def MAX_TXT_KEY_BYTES_def MAX_TXT_VALUE_BYTES_def MAX_ADDRESSES_PER_SERVICE_def
  MAX_DISCOVERY_SERVICES_def MAX_DISCOVERY_CANDIDATES_def

text \<open>
  A socket address of this crate is always built by \<^verbatim>\<open>SocketAddr::new\<close>, which leaves the flow label and
  the scope of an IPv6 address zero, so it is the address and the port.  Octets are compared as the
  numbers they spell.
\<close>

datatype DiscoveredAddr = DiscoveredV4 u32 u16 | DiscoveredV6 id128 u16

fun socket_addr :: "DiscoveredAddr \<Rightarrow> SocketAddr" where
  "socket_addr (DiscoveredV4 a port) = SocketV4 a port"
| "socket_addr (DiscoveredV6 a port) = SocketV6 a port 0 0"

fun DiscoveredAddr_new :: "IpAddr \<Rightarrow> u16 \<Rightarrow> DiscoveredAddr" where
  "DiscoveredAddr_new (IpV4 a) port = DiscoveredV4 a port"
| "DiscoveredAddr_new (IpV6 a) port = DiscoveredV6 a port"

fun is_supported_lan_address :: "IpAddr \<Rightarrow> bool" where
  "is_supported_lan_address (IpV4 a) = ipv4_is_private a"
| "is_supported_lan_address (IpV6 a) = (and (ucast (drop_bit 120 a) :: u8) 0xfe = 0xfc)"

datatype Ordering = OrdLess | OrdEqual | OrdGreater

definition ord_cmp :: "'a::linorder \<Rightarrow> 'a \<Rightarrow> Ordering" where
  "ord_cmp a b = (if a < b then OrdLess else if a = b then OrdEqual else OrdGreater)"

definition then_with :: "Ordering \<Rightarrow> Ordering \<Rightarrow> Ordering" where
  "then_with a b = (if a = OrdEqual then b else a)"

fun compare_socket_addresses :: "DiscoveredAddr \<Rightarrow> DiscoveredAddr \<Rightarrow> Ordering" where
  "compare_socket_addresses (DiscoveredV4 a p) (DiscoveredV4 b q) = then_with (ord_cmp a b) (ord_cmp p q)"
| "compare_socket_addresses (DiscoveredV6 a p) (DiscoveredV6 b q) = then_with (ord_cmp a b) (ord_cmp p q)"
| "compare_socket_addresses (DiscoveredV4 _ _) (DiscoveredV6 _ _) = OrdLess"
| "compare_socket_addresses (DiscoveredV6 _ _) (DiscoveredV4 _ _) = OrdGreater"

text \<open>
  The derived order of \<^verbatim>\<open>SocketAddr\<close>, which the set of parsed addresses uses, coincides with
  \<open>compare_socket_addresses\<close> on such addresses.
\<close>

instantiation DiscoveredAddr :: linorder
begin

definition less_eq_DiscoveredAddr :: "DiscoveredAddr \<Rightarrow> DiscoveredAddr \<Rightarrow> bool" where
  "less_eq_DiscoveredAddr a b \<longleftrightarrow> compare_socket_addresses a b \<noteq> OrdGreater"

definition less_DiscoveredAddr :: "DiscoveredAddr \<Rightarrow> DiscoveredAddr \<Rightarrow> bool" where
  "less_DiscoveredAddr a b \<longleftrightarrow> compare_socket_addresses a b = OrdLess"

instance
proof
  fix a b c :: DiscoveredAddr
  show "a < b \<longleftrightarrow> a \<le> b \<and> \<not> b \<le> a"
    by (cases a; cases b) (auto simp: less_eq_DiscoveredAddr_def less_DiscoveredAddr_def then_with_def ord_cmp_def)
  show "a \<le> a" by (cases a) (simp_all add: less_eq_DiscoveredAddr_def then_with_def ord_cmp_def)
  show "a \<le> b \<Longrightarrow> b \<le> c \<Longrightarrow> a \<le> c"
    by (cases a; cases b; cases c) (auto simp: less_eq_DiscoveredAddr_def then_with_def ord_cmp_def split: if_splits)
  show "a \<le> b \<Longrightarrow> b \<le> a \<Longrightarrow> a = b"
    by (cases a; cases b) (auto simp: less_eq_DiscoveredAddr_def then_with_def ord_cmp_def split: if_splits)
  show "a \<le> b \<or> b \<le> a"
    by (cases a; cases b) (auto simp: less_eq_DiscoveredAddr_def then_with_def ord_cmp_def split: if_splits)
qed

end

datatype DiscoveryCandidate = Candidate (peer_id_hint: PeerId) (candidate_address: DiscoveredAddr)

definition candidate_cmp :: "DiscoveryCandidate \<Rightarrow> DiscoveryCandidate \<Rightarrow> Ordering" where
  "candidate_cmp a b = then_with (ord_cmp (peer_id_hint a) (peer_id_hint b))
     (compare_socket_addresses (candidate_address a) (candidate_address b))"

lemma compare_socket_addresses_cmp: "compare_socket_addresses a b = ord_cmp a b"
  by (cases a; cases b) (auto simp: ord_cmp_def less_DiscoveredAddr_def then_with_def split: if_splits)

instantiation DiscoveryCandidate :: linorder
begin

definition less_eq_DiscoveryCandidate :: "DiscoveryCandidate \<Rightarrow> DiscoveryCandidate \<Rightarrow> bool" where
  "less_eq_DiscoveryCandidate a b \<longleftrightarrow> candidate_cmp a b \<noteq> OrdGreater"

definition less_DiscoveryCandidate :: "DiscoveryCandidate \<Rightarrow> DiscoveryCandidate \<Rightarrow> bool" where
  "less_DiscoveryCandidate a b \<longleftrightarrow> candidate_cmp a b = OrdLess"

instance
proof
  fix a b c :: DiscoveryCandidate
  note defs = less_eq_DiscoveryCandidate_def less_DiscoveryCandidate_def candidate_cmp_def compare_socket_addresses_cmp
    then_with_def ord_cmp_def
  show "a < b \<longleftrightarrow> a \<le> b \<and> \<not> b \<le> a" "a \<le> a" by (cases a; cases b; auto simp: defs)+
  show "a \<le> b \<Longrightarrow> b \<le> c \<Longrightarrow> a \<le> c" by (cases a; cases b; cases c) (auto simp: defs split: if_splits)
  show "a \<le> b \<Longrightarrow> b \<le> a \<Longrightarrow> a = b" "a \<le> b \<or> b \<le> a" by (cases a; cases b; auto simp: defs split: if_splits)+
qed

end

definition from_candidates :: "DiscoveryCandidate list \<Rightarrow> DiscoveryCandidate list" where
  "from_candidates candidates = take MAX_DISCOVERY_CANDIDATES (remdups_adj (sort candidates))"

definition candidates_for :: "PeerId \<Rightarrow> DiscoveryCandidate list \<Rightarrow> DiscoveredAddr list" where
  "candidates_for peer snapshot = map candidate_address (filter (\<lambda>c. peer_id_hint c = peer) snapshot)"

section \<open>Records and the cache\<close>

record RawTxtProperty =
  txt_key :: "u8 list"
  txt_value :: "u8 list option"

record RawDiscoveryRecord =
  rd_service_type :: "u8 list"
  rd_fullname :: "u8 list"
  rd_hostname :: "u8 list"
  rd_port :: u16
  rd_addresses :: "IpAddr list"
  rd_txt :: "RawTxtProperty list"
  rd_ttl :: duration

definition MIN_CACHE_TTL :: duration where "MIN_CACHE_TTL = from_secs 1"
definition MAX_CACHE_TTL :: duration where "MAX_CACHE_TTL = from_secs 300"

record DiscoveryCacheConfig =
  maximum_services :: nat
  minimum_ttl :: duration
  maximum_ttl :: duration

definition DiscoveryCacheConfig_default :: DiscoveryCacheConfig where
  "DiscoveryCacheConfig_default = \<lparr>maximum_services = MAX_DISCOVERY_SERVICES, minimum_ttl = MIN_CACHE_TTL,
     maximum_ttl = MAX_CACHE_TTL\<rparr>"

datatype DiscoveryCacheChange = CacheChanged | CacheUnchanged | CacheSaturated

datatype DiscoveryCacheError =
    DiscoveryInvalidConfig | DiscoveryInvalidName | DiscoveryInvalidTxt | DiscoveryUnsupportedVersion
  | DiscoveryInvalidPeerHint | DiscoveryInvalidPort | DiscoveryInvalidAddresses | DiscoveryInvalidExpiry

definition CacheConfig_validate :: "DiscoveryCacheConfig \<Rightarrow> (DiscoveryCacheError, unit) result" where
  "CacheConfig_validate c =
     (if maximum_services c = 0 \<or> MAX_DISCOVERY_SERVICES < maximum_services c then Inl DiscoveryInvalidConfig
      else if minimum_ttl c < MIN_CACHE_TTL \<or> maximum_ttl c < minimum_ttl c \<or> MAX_CACHE_TTL < maximum_ttl c
      then Inl DiscoveryInvalidConfig
      else Inr ())"

record CachedService =
  cs_peer_id_hint :: PeerId
  cs_addresses :: "DiscoveredAddr list"
  cs_expires_at :: duration

record DiscoveryCache =
  dcache_config :: DiscoveryCacheConfig
  dcache_services :: "(rust_string, CachedService) btree_map"

definition DiscoveryCache_new :: "DiscoveryCacheConfig \<Rightarrow> (DiscoveryCacheError, DiscoveryCache) result" where
  "DiscoveryCache_new config =
     and_then (CacheConfig_validate config) (\<lambda>_. Inr \<lparr>dcache_config = config, dcache_services = []\<rparr>)"

section \<open>Parsing\<close>

definition strip_suffix :: "rust_string \<Rightarrow> rust_string \<Rightarrow> rust_string option" where
  "strip_suffix ending s =
     (let n = length s - length ending in
      if length ending \<le> length s \<and> drop n s = ending then Some (take n s) else None)"

definition valid_hostname :: "u8 list \<Rightarrow> bool" where
  "valid_hostname hostname \<longleftrightarrow>
     hostname \<noteq> [] \<and> length hostname \<le> MAX_HOSTNAME_BYTES
     \<and> (case from_utf8 hostname of
          None \<Rightarrow> False
        | Some h \<Rightarrow>
            (case strip_suffix (ascii_str ''.local.'') h of
               None \<Rightarrow> False
             | Some label \<Rightarrow> label \<noteq> [] \<and> \<not> list_ex is_control label))"

definition validate_fullname_bytes :: "u8 list \<Rightarrow> (DiscoveryCacheError, rust_string) result" where
  "validate_fullname_bytes fullname =
     (if fullname = [] \<or> MAX_FULLNAME_BYTES < length fullname then Inl DiscoveryInvalidName
      else case from_utf8 fullname of
        None \<Rightarrow> Inl DiscoveryInvalidName
      | Some name \<Rightarrow>
          (case strip_suffix SOFTWARE_KVM_SERVICE_TYPE name of
             None \<Rightarrow> Inl DiscoveryInvalidName
           | Some instance_name \<Rightarrow>
               if instance_name = [] \<or> MAX_INSTANCE_NAME_BYTES < str_len instance_name
                  \<or> list_ex is_control instance_name
               then Inl DiscoveryInvalidName else Inr name))"

definition parse_fullname :: "RawDiscoveryRecord \<Rightarrow> (DiscoveryCacheError, rust_string) result" where
  "parse_fullname r = validate_fullname_bytes (rd_fullname r)"

definition validate_property :: "RawTxtProperty \<Rightarrow> (DiscoveryCacheError, unit) result" where
  "validate_property property =
     (if txt_key property = [] \<or> MAX_TXT_KEY_BYTES < length (txt_key property)
         \<or> (case txt_value property of None \<Rightarrow> True | Some v \<Rightarrow> MAX_TXT_VALUE_BYTES < length v)
      then Inl DiscoveryInvalidTxt else Inr ())"

definition validate_record_shape :: "RawDiscoveryRecord \<Rightarrow> (DiscoveryCacheError, unit) result" where
  "validate_record_shape r =
     (if rd_service_type r \<noteq> utf8_bytes SOFTWARE_KVM_SERVICE_TYPE \<or> \<not> valid_hostname (rd_hostname r)
      then Inl DiscoveryInvalidName
      else
        and_then (parse_fullname r) (\<lambda>_.
        if rd_port r = 0 then Inl DiscoveryInvalidPort
        else if rd_addresses r = [] \<or> MAX_ADDRESSES_PER_SERVICE < length (rd_addresses r)
        then Inl DiscoveryInvalidAddresses
        else if MAX_TXT_PROPERTIES < length (rd_txt r) then Inl DiscoveryInvalidTxt
        else for_each validate_property (rd_txt r)))"

fun parse_txt_loop ::
  "RawTxtProperty list \<Rightarrow> rust_string option \<Rightarrow> rust_string option
   \<Rightarrow> (DiscoveryCacheError, rust_string option \<times> rust_string option) result" where
  "parse_txt_loop [] version peer = Inr (version, peer)"
| "parse_txt_loop (property # rest) version peer =
     (case from_utf8 (txt_key property) of
        None \<Rightarrow> Inl DiscoveryInvalidTxt
      | Some key \<Rightarrow>
        (case txt_value property of
           None \<Rightarrow> Inl DiscoveryInvalidTxt
         | Some bytes \<Rightarrow>
           (case from_utf8 bytes of
              None \<Rightarrow> Inl DiscoveryInvalidTxt
            | Some v \<Rightarrow>
                if key = ascii_str ''ver'' \<and> version = None then parse_txt_loop rest (Some v) peer
                else if key = ascii_str ''peer'' \<and> peer = None then parse_txt_loop rest version (Some v)
                else Inl DiscoveryInvalidTxt)))"

definition parse_txt :: "RawDiscoveryRecord \<Rightarrow> (DiscoveryCacheError, rust_string \<times> rust_string) result" where
  "parse_txt r =
     (case parse_txt_loop (rd_txt r) None None of
        Inl e \<Rightarrow> Inl e
      | Inr (Some version, Some peer) \<Rightarrow> Inr (version, peer)
      | Inr _ \<Rightarrow> Inl DiscoveryInvalidTxt)"

text \<open>The \<^verbatim>\<open>uuid\<close> crate: its parser and its display form.\<close>

record uuid_crate =
  uuid_parse_str :: "rust_string \<Rightarrow> id128 option"
  uuid_to_string :: "id128 \<Rightarrow> rust_string"

definition parse_canonical_peer_id :: "uuid_crate \<Rightarrow> rust_string \<Rightarrow> (DiscoveryCacheError, PeerId) result" where
  "parse_canonical_peer_id uuid value =
     (if str_len value \<noteq> 36 then Inl DiscoveryInvalidPeerHint
      else case uuid_parse_str uuid value of
        None \<Rightarrow> Inl DiscoveryInvalidPeerHint
      | Some peer \<Rightarrow>
          if peer = nil_id \<or> uuid_to_string uuid peer \<noteq> value then Inl DiscoveryInvalidPeerHint else Inr peer)"

definition collect_addresses :: "IpAddr list \<Rightarrow> u16 \<Rightarrow> DiscoveredAddr list" where
  "collect_addresses ips port =
     fold (\<lambda>a acc. if is_supported_lan_address a then insort_insert (DiscoveredAddr_new a port) acc else acc) ips []"

definition duration_clamp :: "duration \<Rightarrow> duration \<Rightarrow> duration \<Rightarrow> duration" where
  "duration_clamp d lo hi = (if d < lo then lo else if hi < d then hi else d)"

definition parse_record ::
  "uuid_crate \<Rightarrow> RawDiscoveryRecord \<Rightarrow> duration \<Rightarrow> DiscoveryCacheConfig \<Rightarrow> (DiscoveryCacheError, CachedService) result" where
  "parse_record uuid r now config =
     and_then (validate_record_shape r) (\<lambda>_.
     and_then (parse_txt r) (\<lambda>(version, peer).
     if version \<noteq> DISCOVERY_PROTOCOL_VERSION then Inl DiscoveryUnsupportedVersion
     else
       and_then (parse_canonical_peer_id uuid peer) (\<lambda>hint.
       let addresses = collect_addresses (rd_addresses r) (rd_port r) in
       if addresses = [] then Inl DiscoveryInvalidAddresses
       else
         let ttl = duration_clamp (rd_ttl r) (minimum_ttl config) (maximum_ttl config) in
         if duration_max < now + ttl then Inl DiscoveryInvalidExpiry
         else Inr \<lparr>cs_peer_id_hint = hint, cs_addresses = addresses, cs_expires_at = now + ttl\<rparr>)))"

section \<open>Operations\<close>

definition remove_service :: "rust_string \<Rightarrow> DiscoveryCache \<Rightarrow> DiscoveryCacheChange \<times> DiscoveryCache" where
  "remove_service name c =
     (if map_of (dcache_services c) name \<noteq> None then CacheChanged else CacheUnchanged,
      c\<lparr>dcache_services := AList.delete name (dcache_services c)\<rparr>)"

definition apply_resolved ::
  "uuid_crate \<Rightarrow> RawDiscoveryRecord \<Rightarrow> duration \<Rightarrow> DiscoveryCache
   \<Rightarrow> (DiscoveryCacheError, DiscoveryCacheChange) result \<times> DiscoveryCache" where
  "apply_resolved uuid r now c =
     (if rd_service_type r \<noteq> utf8_bytes SOFTWARE_KVM_SERVICE_TYPE then (Inl DiscoveryInvalidName, c)
      else case parse_fullname r of
        Inl e \<Rightarrow> (Inl e, c)
      | Inr fullname \<Rightarrow>
          if rd_ttl r = 0 then (let (change, c) = remove_service fullname c in (Inr change, c))
          else (case parse_record uuid r now (dcache_config c) of
              Inl e \<Rightarrow> (Inl e, c)
            | Inr parsed \<Rightarrow>
                if map_of (dcache_services c) fullname = None
                   \<and> maximum_services (dcache_config c) \<le> length (dcache_services c)
                then (Inr CacheSaturated, c)
                else if map_of (dcache_services c) fullname \<noteq> Some parsed
                then (Inr CacheChanged, c\<lparr>dcache_services := bt_insert fullname parsed (dcache_services c)\<rparr>)
                else (Inr CacheUnchanged, c)))"

definition remove_fullname ::
  "u8 list \<Rightarrow> DiscoveryCache \<Rightarrow> (DiscoveryCacheError, DiscoveryCacheChange) result \<times> DiscoveryCache" where
  "remove_fullname bytes c =
     (case validate_fullname_bytes bytes of
        Inl e \<Rightarrow> (Inl e, c)
      | Inr name \<Rightarrow> let (change, c) = remove_service name c in (Inr change, c))"

definition cache_expire :: "duration \<Rightarrow> DiscoveryCache \<Rightarrow> DiscoveryCacheChange \<times> DiscoveryCache" where
  "cache_expire now c =
     (let services = filter (\<lambda>(_, s). now < cs_expires_at s) (dcache_services c) in
      (if length services = length (dcache_services c) then CacheUnchanged else CacheChanged,
       c\<lparr>dcache_services := services\<rparr>))"

definition cache_snapshot :: "DiscoveryCache \<Rightarrow> DiscoveryCandidate list" where
  "cache_snapshot c =
     from_candidates (concat (map (\<lambda>(_, s). map (Candidate (cs_peer_id_hint s)) (cs_addresses s)) (dcache_services c)))"

section \<open>Advertisement and service events\<close>

record MdnsAdvertisement =
  adv_peer_id :: PeerId
  adv_instance_name :: rust_string
  adv_port :: u16
  adv_addresses :: "IpAddr list"

datatype MdnsAdapterError =
    AdapterInvalidConfig | AdapterDaemonUnavailable | AdapterBridgeFailed | AdapterShutdownTimeout
  | AdapterShutdownFailed

fun ip_rank :: "IpAddr \<Rightarrow> bool \<times> id128" where
  "ip_rank (IpV4 a) = (False, ucast a)"
| "ip_rank (IpV6 a) = (True, a)"

definition MdnsAdvertisement_new ::
  "PeerId \<Rightarrow> rust_string \<Rightarrow> u16 \<Rightarrow> IpAddr list \<Rightarrow> (MdnsAdapterError, MdnsAdvertisement) result" where
  "MdnsAdvertisement_new peer name port addresses =
     (if peer = nil_id \<or> name = [] \<or> MAX_INSTANCE_NAME_BYTES < str_len name \<or> list_ex is_control name
         \<or> port = 0 \<or> addresses = [] \<or> MAX_ADDRESSES_PER_SERVICE < length addresses
         \<or> list_ex (\<lambda>a. \<not> is_supported_lan_address a) addresses
      then Inl AdapterInvalidConfig
      else Inr \<lparr>adv_peer_id = peer, adv_instance_name = name, adv_port = port,
                adv_addresses = remdups_adj (sort_key ip_rank addresses)\<rparr>)"

record MdnsAdapterConfig =
  mac_cache :: DiscoveryCacheConfig
  mac_resolved_ttl :: duration
  mac_expiry_interval :: duration
  mac_shutdown_timeout :: duration

definition MAX_SHUTDOWN_TIMEOUT :: duration where "MAX_SHUTDOWN_TIMEOUT = from_secs 5"

definition MdnsAdapterConfig_default :: MdnsAdapterConfig where
  "MdnsAdapterConfig_default = \<lparr>mac_cache = DiscoveryCacheConfig_default, mac_resolved_ttl = from_secs 120,
     mac_expiry_interval = from_millis 250, mac_shutdown_timeout = from_secs 2\<rparr>"

definition MdnsAdapterConfig_validate :: "MdnsAdapterConfig \<Rightarrow> (MdnsAdapterError, unit) result" where
  "MdnsAdapterConfig_validate c =
     (case CacheConfig_validate (mac_cache c) of
        Inl _ \<Rightarrow> Inl AdapterInvalidConfig
      | Inr _ \<Rightarrow>
          if mac_resolved_ttl c = 0 \<or> maximum_ttl (mac_cache c) < mac_resolved_ttl c
             \<or> mac_expiry_interval c = 0 \<or> maximum_ttl (mac_cache c) < mac_expiry_interval c
             \<or> mac_shutdown_timeout c = 0 \<or> MAX_SHUTDOWN_TIMEOUT < mac_shutdown_timeout c
          then Inl AdapterInvalidConfig else Inr ())"

text \<open>
  \<^verbatim>\<open>ServiceInfo::new\<close> and the resolved service are of the mDNS library: the constructor is an argument,
  a resolved service is what its accessors return.
\<close>

definition build_service_info ::
  "uuid_crate
   \<Rightarrow> (rust_string \<Rightarrow> rust_string \<Rightarrow> rust_string \<Rightarrow> IpAddr list \<Rightarrow> u16 \<Rightarrow> (rust_string \<times> rust_string) list \<Rightarrow> 'info option)
   \<Rightarrow> MdnsAdvertisement \<Rightarrow> (MdnsAdapterError, 'info) result" where
  "build_service_info uuid service_info adv =
     (let peer = uuid_to_string uuid (adv_peer_id adv);
          hostname = peer @ ascii_str ''.local.'';
          properties = [(ascii_str ''ver'', DISCOVERY_PROTOCOL_VERSION), (ascii_str ''peer'', peer)]
      in case service_info SOFTWARE_KVM_SERVICE_TYPE (adv_instance_name adv) hostname (adv_addresses adv)
                (adv_port adv) properties of
           None \<Rightarrow> Inl AdapterInvalidConfig
         | Some info \<Rightarrow> Inr info)"

record ResolvedService =
  rs_ty_domain :: rust_string
  rs_fullname :: rust_string
  rs_hostname :: rust_string
  rs_port :: u16
  rs_addresses :: "IpAddr list"
  rs_properties :: "(rust_string \<times> u8 list option) list"

definition raw_from_resolved :: "ResolvedService \<Rightarrow> duration \<Rightarrow> RawDiscoveryRecord option" where
  "raw_from_resolved service ttl =
     (if MAX_FULLNAME_BYTES < str_len (rs_ty_domain service) \<or> MAX_FULLNAME_BYTES < str_len (rs_fullname service)
         \<or> MAX_HOSTNAME_BYTES < str_len (rs_hostname service)
         \<or> MAX_ADDRESSES_PER_SERVICE < length (rs_addresses service)
         \<or> MAX_TXT_PROPERTIES < length (rs_properties service)
         \<or> list_ex (\<lambda>(key, v). MAX_TXT_KEY_BYTES < str_len key
              \<or> (case v of None \<Rightarrow> True | Some b \<Rightarrow> MAX_TXT_VALUE_BYTES < length b)) (rs_properties service)
      then None
      else Some \<lparr>rd_service_type = utf8_bytes (rs_ty_domain service), rd_fullname = utf8_bytes (rs_fullname service),
             rd_hostname = utf8_bytes (rs_hostname service), rd_port = rs_port service,
             rd_addresses = rs_addresses service,
             rd_txt = map (\<lambda>(key, v). \<lparr>txt_key = utf8_bytes key, txt_value = v\<rparr>) (rs_properties service),
             rd_ttl = ttl\<rparr>)"

datatype ServiceEvent = ServiceResolved ResolvedService | ServiceRemoved rust_string rust_string | ServiceOther

fun apply_service_event ::
  "uuid_crate \<Rightarrow> ServiceEvent \<Rightarrow> duration \<Rightarrow> duration \<Rightarrow> DiscoveryCache \<Rightarrow> DiscoveryCacheChange \<times> DiscoveryCache" where
  "apply_service_event uuid (ServiceResolved service) now ttl c =
     (case raw_from_resolved service ttl of
        None \<Rightarrow> (CacheUnchanged, c)
      | Some r \<Rightarrow> (case apply_resolved uuid r now c of (Inl _, c) \<Rightarrow> (CacheUnchanged, c) | (Inr change, c) \<Rightarrow> (change, c)))"
| "apply_service_event uuid (ServiceRemoved service_type fullname) now ttl c =
     (if service_type = SOFTWARE_KVM_SERVICE_TYPE
      then (case remove_fullname (utf8_bytes fullname) c of (Inl _, c) \<Rightarrow> (CacheUnchanged, c) | (Inr change, c) \<Rightarrow> (change, c))
      else (CacheUnchanged, c))"
| "apply_service_event uuid ServiceOther now ttl c = (CacheUnchanged, c)"

text \<open>
  The bridge task: service events and expiry ticks in the order the task takes them, each with the time
  since its start; a changed cache replaces the published snapshot.
\<close>

datatype bridge_input = BridgeEvent ServiceEvent duration | BridgeTick duration

record bridge =
  bridge_cache :: DiscoveryCache
  bridge_published :: "DiscoveryCandidate list"

definition publish_change :: "DiscoveryCacheChange \<times> DiscoveryCache \<Rightarrow> bridge \<Rightarrow> bridge" where
  "publish_change r b =
     (case r of (change, c) \<Rightarrow>
        \<lparr>bridge_cache = c, bridge_published = (if change = CacheChanged then cache_snapshot c else bridge_published b)\<rparr>)"

fun bridge_step :: "uuid_crate \<Rightarrow> duration \<Rightarrow> bridge_input \<Rightarrow> bridge \<Rightarrow> bridge" where
  "bridge_step uuid ttl (BridgeEvent event now) b =
     publish_change (apply_service_event uuid event now ttl (bridge_cache b)) b"
| "bridge_step uuid ttl (BridgeTick now) b = publish_change (cache_expire now (bridge_cache b)) b"

text \<open>The start of the bridge, once the mDNS daemon browses and has registered the advertisement.\<close>

definition bridge_start :: "MdnsAdapterConfig \<Rightarrow> (MdnsAdapterError, bridge) result" where
  "bridge_start config =
     and_then (MdnsAdapterConfig_validate config) (\<lambda>_.
       case DiscoveryCache_new (mac_cache config) of
         Inl _ \<Rightarrow> Inl AdapterInvalidConfig
       | Inr cache \<Rightarrow> Inr \<lparr>bridge_cache = cache, bridge_published = cache_snapshot cache\<rparr>)"

end
