(* ===== verification/DiscoverySafety.thy ===== *)
theory DiscoverySafety
  imports Discovery
begin

text \<open>
  What discovery guarantees: the invariant of the cache under any service events and ticks, an exact
  and bounded published view, records that only events of their own name change, silent hosts that
  are forgotten, and the way of an advertisement into the view of a peer, with the one length of
  name that does not arrive.
\<close>

section \<open>The invariant of the cache\<close>

definition service_ok :: "CachedService \<Rightarrow> bool" where
  "service_ok s \<longleftrightarrow> cs_peer_id_hint s \<noteq> nil_id \<and> cs_addresses s \<noteq> [] \<and> sorted_wrt (<) (cs_addresses s)
     \<and> length (cs_addresses s) \<le> MAX_ADDRESSES_PER_SERVICE
     \<and> (\<forall>a\<in>set (cs_addresses s). \<exists>ip port. a = DiscoveredAddr_new ip port \<and> is_supported_lan_address ip \<and> port \<noteq> 0)"

definition cache_inv :: "DiscoveryCache \<Rightarrow> bool" where
  "cache_inv c \<longleftrightarrow> CacheConfig_validate (dcache_config c) = Inr () \<and> sorted_map (dcache_services c)
     \<and> length (dcache_services c) \<le> maximum_services (dcache_config c)
     \<and> (\<forall>(name, s)\<in>set (dcache_services c). service_ok s)"

lemma config_valid_iff:
  "CacheConfig_validate c = Inr u \<longleftrightarrow> 0 < maximum_services c \<and> maximum_services c \<le> MAX_DISCOVERY_SERVICES
     \<and> MIN_CACHE_TTL \<le> minimum_ttl c \<and> minimum_ttl c \<le> maximum_ttl c \<and> maximum_ttl c \<le> MAX_CACHE_TTL"
  by (auto simp: CacheConfig_validate_def)

lemma sorted_insort_insert: "sorted_wrt (<) (xs :: 'a::linorder list) \<Longrightarrow> sorted_wrt (<) (insort_insert x xs)"
  by (simp add: strict_sorted_iff sorted_insort_insert distinct_insort_insert)

lemma collect_addresses_props:
  "sorted_wrt (<) (collect_addresses ips port)"
  "set (collect_addresses ips port) = (\<lambda>a. DiscoveredAddr_new a port) ` {a \<in> set ips. is_supported_lan_address a}"
  "length (collect_addresses ips port) \<le> length ips"
proof -
  let ?f = "\<lambda>a acc. if is_supported_lan_address a then insort_insert (DiscoveredAddr_new a port) acc else acc"
  have s: "sorted_wrt (<) acc \<Longrightarrow> sorted_wrt (<) (fold ?f ips acc)" for acc
    by (induction ips arbitrary: acc) (simp_all add: sorted_insort_insert)
  have m: "set (fold ?f ips acc) = set acc \<union> (\<lambda>a. DiscoveredAddr_new a port) ` {a \<in> set ips. is_supported_lan_address a}" for acc
    by (induction ips arbitrary: acc) (auto simp: set_insort_insert)
  show o: "sorted_wrt (<) (collect_addresses ips port)"
    "set (collect_addresses ips port) = (\<lambda>a. DiscoveredAddr_new a port) ` {a \<in> set ips. is_supported_lan_address a}"
    using s m by (simp_all add: collect_addresses_def)
  have "length (collect_addresses ips port) = card (set (collect_addresses ips port))"
    using o(1) by (simp add: strict_sorted_iff distinct_card)
  also have "\<dots> \<le> card {a \<in> set ips. is_supported_lan_address a}" unfolding o(2) by (rule card_image_le) simp
  also have "\<dots> \<le> card (set ips)" by (rule card_mono) auto
  finally show "length (collect_addresses ips port) \<le> length ips"
    using card_length[of ips] by linarith
qed

lemma validate_shapeD:
  assumes "validate_record_shape r = Inr u"
  shows "\<exists>name. parse_fullname r = Inr name" "rd_port r \<noteq> 0" "rd_addresses r \<noteq> []"
    "length (rd_addresses r) \<le> MAX_ADDRESSES_PER_SERVICE"
  using assms by (auto simp: validate_record_shape_def split: if_splits)

lemma canonical_peer_iff:
  "parse_canonical_peer_id uuid v = Inr p \<longleftrightarrow>
     str_len v = 36 \<and> uuid_parse_str uuid v = Some p \<and> p \<noteq> nil_id \<and> uuid_to_string uuid p = v"
  by (auto simp: parse_canonical_peer_id_def split: option.splits)

lemma parse_record_ok:
  assumes "parse_record uuid r now config = Inr s"
  shows "service_ok s" "cs_expires_at s \<le> now + max (minimum_ttl config) (maximum_ttl config)"
proof -
  obtain v p where v: "validate_record_shape r = Inr ()" "parse_txt r = Inr (v, p)"
    using assms by (auto simp: parse_record_def)
  have s: "cs_addresses s = collect_addresses (rd_addresses r) (rd_port r)" "cs_addresses s \<noteq> []" "cs_peer_id_hint s \<noteq> nil_id"
    "cs_expires_at s = now + duration_clamp (rd_ttl r) (minimum_ttl config) (maximum_ttl config)"
    using assms by (auto simp: parse_record_def canonical_peer_iff Let_def split: if_splits)
  show "service_ok s"
    using s collect_addresses_props[of "rd_addresses r" "rd_port r"] validate_shapeD[OF v(1)]
    by (auto simp: service_ok_def)
  show "cs_expires_at s \<le> now + max (minimum_ttl config) (maximum_ttl config)"
    by (auto simp: s duration_clamp_def)
qed

lemma inv_DiscoveryCache_new: "DiscoveryCache_new config = Inr c \<Longrightarrow> cache_inv c"
  by (auto simp: DiscoveryCache_new_def cache_inv_def)

lemma inv_filter: "cache_inv c \<Longrightarrow> cache_inv (c\<lparr>dcache_services := filter P (dcache_services c)\<rparr>)"
  using le_trans[OF length_filter_le[of P "dcache_services c"]] by (auto simp: cache_inv_def)

lemma inv_remove_service: "cache_inv c \<Longrightarrow> cache_inv (snd (remove_service n c))"
  using inv_filter[of c "\<lambda>(k, _). n \<noteq> k"] by (simp add: remove_service_def AList.delete_eq)

lemma inv_apply_resolved:
  assumes "cache_inv c"
  shows "cache_inv (snd (apply_resolved uuid r now c))"
proof -
  have ins: "cache_inv (c\<lparr>dcache_services := bt_insert name s (dcache_services c)\<rparr>)"
    if "service_ok s" "map_of (dcache_services c) name \<noteq> None \<or> length (dcache_services c) < maximum_services (dcache_config c)" for name s
    using assms that
    by (auto simp: cache_inv_def btree set_bt_insert map_of_eq_None_iff)
  show ?thesis
    using assms inv_remove_service[OF assms] ins parse_record_ok(1)[of uuid r now "dcache_config c"]
    by (auto simp: apply_resolved_def split_def Let_def not_le split: sum.split)
qed

lemma inv_remove_fullname: "cache_inv c \<Longrightarrow> cache_inv (snd (remove_fullname bytes c))"
  using inv_remove_service by (auto simp: remove_fullname_def split_def Let_def split: sum.split)

lemma inv_cache_expire: "cache_inv c \<Longrightarrow> cache_inv (snd (cache_expire now c))"
  using inv_filter by (auto simp: cache_expire_def Let_def)

lemma inv_service_event: "cache_inv c \<Longrightarrow> cache_inv (snd (apply_service_event uuid event now ttl c))"
proof (cases event)
  case (ServiceResolved s)
  then show "cache_inv c \<Longrightarrow> ?thesis"
    using inv_apply_resolved[of c uuid _ now]
    by (auto split: option.split sum.split prod.split) (metis snd_conv)+
next
  case (ServiceRemoved t n)
  then show "cache_inv c \<Longrightarrow> ?thesis"
    using inv_remove_fullname[of c "utf8_bytes n"] by (auto split: sum.split prod.split)
qed simp

section \<open>Snapshots\<close>

lemma length_candidates:
  assumes "cache_inv c"
  shows "length (concat (map (\<lambda>(_, s). map (Candidate (cs_peer_id_hint s)) (cs_addresses s)) (dcache_services c)))
    \<le> MAX_DISCOVERY_CANDIDATES"
proof -
  have "(\<forall>(n, s)\<in>set xs. length (cs_addresses s) \<le> m) \<Longrightarrow>
      length (concat (map (\<lambda>(_, s). map (Candidate (cs_peer_id_hint s)) (cs_addresses s)) xs)) \<le> length xs * m" for xs :: "(rust_string \<times> CachedService) list" and m
    by (induction xs) auto
  from this[of "dcache_services c" MAX_ADDRESSES_PER_SERVICE]
  have "length (concat (map (\<lambda>(_, s). map (Candidate (cs_peer_id_hint s)) (cs_addresses s)) (dcache_services c)))
    \<le> length (dcache_services c) * MAX_ADDRESSES_PER_SERVICE"
    using assms by (auto simp: cache_inv_def service_ok_def)
  also have "\<dots> \<le> MAX_DISCOVERY_CANDIDATES"
    using assms by (simp add: cache_inv_def config_valid_iff MAX_DISCOVERY_CANDIDATES_def)
  finally show ?thesis .
qed

lemma strict_remdups_adj: "sorted (xs :: 'a::linorder list) \<Longrightarrow> sorted_wrt (<) (remdups_adj xs)"
  by (induction xs rule: remdups_adj.induct) (auto simp: less_le)

lemma sort_dedup: "sorted_wrt (<) (remdups_adj (sort xs))" "set (remdups_adj (sort xs)) = set xs"
  "length (remdups_adj (sort xs)) \<le> length xs"
  using remdups_adj_length[of "sort xs"] by (simp_all add: strict_remdups_adj)

lemma snapshot_props:
  assumes "cache_inv c"
  shows "sorted_wrt (<) (cache_snapshot c)" "length (cache_snapshot c) \<le> MAX_DISCOVERY_CANDIDATES"
    "Candidate p a \<in> set (cache_snapshot c) \<longleftrightarrow>
       (\<exists>n s. map_of (dcache_services c) n = Some s \<and> cs_peer_id_hint s = p \<and> a \<in> set (cs_addresses s))"
proof -
  let ?xs = "concat (map (\<lambda>(_, s). map (Candidate (cs_peer_id_hint s)) (cs_addresses s)) (dcache_services c))"
  have "length (remdups_adj (sort ?xs)) \<le> MAX_DISCOVERY_CANDIDATES"
    using length_candidates[OF assms] sort_dedup(3)[of ?xs] by linarith
  then have s: "cache_snapshot c = remdups_adj (sort ?xs)"
    by (simp add: cache_snapshot_def from_candidates_def)
  then show "sorted_wrt (<) (cache_snapshot c)" using sort_dedup(1) by simp
  show "length (cache_snapshot c) \<le> MAX_DISCOVERY_CANDIDATES" by (simp add: cache_snapshot_def from_candidates_def)
  have "sorted_map (dcache_services c)" using assms by (simp add: cache_inv_def)
  note m = sorted_map_of_eq[OF this]
  have "set (cache_snapshot c) = set ?xs" unfolding s by (rule sort_dedup(2))
  then show "Candidate p a \<in> set (cache_snapshot c) \<longleftrightarrow>
       (\<exists>n s. map_of (dcache_services c) n = Some s \<and> cs_peer_id_hint s = p \<and> a \<in> set (cs_addresses s))"
    by (auto simp flip: m)
qed

section \<open>The bridge\<close>

definition bridge_ok :: "bridge \<Rightarrow> bool" where
  "bridge_ok b \<longleftrightarrow> cache_inv (bridge_cache b) \<and> bridge_published b = cache_snapshot (bridge_cache b)"

lemma delete_missing: "map_of m k = None \<Longrightarrow> AList.delete k m = m"
  by (simp add: AList.delete_eq filter_id_conv map_of_eq_None_iff) force

lemma unchanged_remove: "fst (remove_service n c) \<noteq> CacheChanged \<Longrightarrow> snd (remove_service n c) = c"
  by (cases c) (auto simp: remove_service_def delete_missing split: if_splits)

lemma unchanged_expire: "fst (cache_expire now c) \<noteq> CacheChanged \<Longrightarrow> snd (cache_expire now c) = c"
proof -
  have "length (filter P xs) = length xs \<Longrightarrow> filter P xs = xs" for P and xs :: "'b list"
    using length_filter_less[of _ xs P] by (metis filter_True less_irrefl)
  then show "fst (cache_expire now c) \<noteq> CacheChanged \<Longrightarrow> ?thesis"
    by (cases c) (auto simp: cache_expire_def Let_def split: if_splits)
qed

lemma unchanged_resolved: "fst (apply_resolved uuid r now c) \<noteq> Inr CacheChanged \<Longrightarrow> snd (apply_resolved uuid r now c) = c"
  using unchanged_remove[of _ c]
  by (auto simp: apply_resolved_def split_def Let_def split: sum.splits if_splits)

lemma unchanged_removed: "fst (remove_fullname bytes c) \<noteq> Inr CacheChanged \<Longrightarrow> snd (remove_fullname bytes c) = c"
  using unchanged_remove[of _ c] by (auto simp: remove_fullname_def split_def Let_def split: sum.splits)

lemma unchanged_event:
  "fst (apply_service_event uuid event now ttl c) \<noteq> CacheChanged \<Longrightarrow> snd (apply_service_event uuid event now ttl c) = c"
proof (cases event)
  case (ServiceResolved s)
  then show "fst (apply_service_event uuid event now ttl c) \<noteq> CacheChanged \<Longrightarrow> ?thesis"
    using unchanged_resolved[of uuid _ now c]
    by (auto split: option.splits sum.splits prod.splits) (metis fst_conv snd_conv sum.distinct(1) sum.inject(2))+
next
  case (ServiceRemoved t n)
  then show "fst (apply_service_event uuid event now ttl c) \<noteq> CacheChanged \<Longrightarrow> ?thesis"
    using unchanged_removed[of "utf8_bytes n" c] by (auto split: sum.splits prod.splits if_splits)
qed simp

lemma publish_change_ok:
  assumes "bridge_ok b" "cache_inv (snd r)" "fst r \<noteq> CacheChanged \<Longrightarrow> snd r = bridge_cache b"
  shows "bridge_ok (publish_change r b)"
  using assms by (cases r) (auto simp: bridge_ok_def publish_change_def)

lemma bridge_step_ok:
  assumes "bridge_ok b"
  shows "bridge_ok (bridge_step uuid ttl i b)"
proof -
  have inv: "cache_inv (bridge_cache b)" using assms by (simp add: bridge_ok_def)
  show ?thesis
    by (cases i) (simp_all add: publish_change_ok[OF assms] inv_service_event[OF inv] inv_cache_expire[OF inv]
        unchanged_event unchanged_expire)
qed

definition default_bridge :: bridge where
  "default_bridge = \<lparr>bridge_cache = \<lparr>dcache_config = DiscoveryCacheConfig_default, dcache_services = []\<rparr>, bridge_published = []\<rparr>"

lemma default_bridge_start: "bridge_start MdnsAdapterConfig_default = Inr default_bridge"
  by (simp add: bridge_start_def default_bridge_def MdnsAdapterConfig_validate_def MdnsAdapterConfig_default_def
      CacheConfig_validate_def DiscoveryCacheConfig_default_def DiscoveryCache_new_def discovery_limits MIN_CACHE_TTL_def
      MAX_CACHE_TTL_def from_secs_def from_millis_def MAX_SHUTDOWN_TIMEOUT_def cache_snapshot_def from_candidates_def)

lemma bridge_start_ok:
  assumes "bridge_start config = Inr b"
  shows "bridge_ok b" "mac_resolved_ttl config \<noteq> 0" "dcache_config (bridge_cache b) = mac_cache config"
  using assms inv_DiscoveryCache_new[of "mac_cache config"]
  by (auto simp: bridge_start_def bridge_ok_def MdnsAdapterConfig_validate_def DiscoveryCache_new_def split: sum.splits if_splits)

interpretation discovery_bridge: invariant_component "bridge_step uuid ttl" bridge_ok default_bridge for uuid ttl
  by unfold_locales (use bridge_start_ok(1)[OF default_bridge_start] bridge_step_ok in auto)

section \<open>Which record an event may change\<close>

fun event_names :: "ServiceEvent \<Rightarrow> rust_string \<Rightarrow> bool" where
  "event_names (ServiceResolved s) n = (utf8_bytes (rs_fullname s) = utf8_bytes n)"
| "event_names (ServiceRemoved _ f) n = (utf8_bytes f = utf8_bytes n)"
| "event_names ServiceOther n = False"

lemma fullname_bytes: "validate_fullname_bytes bytes = Inr n \<Longrightarrow> bytes = utf8_bytes n"
  by (auto simp: validate_fullname_bytes_def from_utf8_iff split: if_splits option.splits)

lemma removed_other: "n \<noteq> m \<Longrightarrow> map_of (dcache_services (snd (remove_service m c))) n = map_of (dcache_services c) n"
  by (simp add: remove_service_def delete_conv')

lemma resolved_other:
  assumes "cache_inv c" "rd_fullname r \<noteq> utf8_bytes n"
  shows "map_of (dcache_services (snd (apply_resolved uuid r now c))) n = map_of (dcache_services c) n"
proof (cases "parse_fullname r")
  case (Inr m)
  then have "n \<noteq> m" using assms(2) fullname_bytes by (auto simp: parse_fullname_def)
  then show ?thesis
    using assms(1) removed_other[of n m c]
    by (auto simp: apply_resolved_def Inr split_def Let_def cache_inv_def btree split: sum.split)
qed (simp add: apply_resolved_def)

lemma event_other:
  assumes "cache_inv c" "\<not> event_names event n"
  shows "map_of (dcache_services (snd (apply_service_event uuid event now ttl c))) n = map_of (dcache_services c) n"
proof (cases event)
  case (ServiceResolved s)
  show ?thesis
  proof (cases "raw_from_resolved s ttl")
    case (Some r)
    then have "rd_fullname r = utf8_bytes (rs_fullname s)" by (auto simp: raw_from_resolved_def split: if_splits)
    then show ?thesis
      using resolved_other[OF assms(1), of r n uuid now] assms(2) ServiceResolved Some
      by (cases "apply_resolved uuid r now c") (auto split: sum.split)
  qed (simp add: ServiceResolved)
next
  case (ServiceRemoved t f)
  have "map_of (dcache_services (snd (remove_fullname (utf8_bytes f) c))) n = map_of (dcache_services c) n"
  proof (cases "validate_fullname_bytes (utf8_bytes f)")
    case (Inr m)
    then have "n \<noteq> m" using assms(2) ServiceRemoved fullname_bytes[OF Inr] by auto
    then show ?thesis by (simp add: remove_fullname_def Inr split_def Let_def removed_other)
  qed (simp add: remove_fullname_def)
  then show ?thesis
    by (cases "remove_fullname (utf8_bytes f) c") (auto simp: ServiceRemoved split: sum.split)
qed simp

section \<open>Forgetting\<close>

fun input_time :: "bridge_input \<Rightarrow> duration" where
  "input_time (BridgeEvent _ now) = now"
| "input_time (BridgeTick now) = now"

definition expires_by :: "duration \<Rightarrow> DiscoveryCache \<Rightarrow> bool" where
  "expires_by t c \<longleftrightarrow> (\<forall>(n, s)\<in>set (dcache_services c). cs_expires_at s \<le> t)"

lemma expires_filter: "expires_by t c \<Longrightarrow> expires_by t (c\<lparr>dcache_services := filter P (dcache_services c)\<rparr>)"
  by (auto simp: expires_by_def)

lemma expires_remove: "expires_by t c \<Longrightarrow> expires_by t (snd (remove_service n c))"
  using expires_filter[of t c "\<lambda>(k, _). n \<noteq> k"] by (simp add: remove_service_def AList.delete_eq)

lemma expires_resolved:
  assumes "cache_inv c" "expires_by (t + maximum_ttl (dcache_config c)) c" "now \<le> t"
  shows "expires_by (t + maximum_ttl (dcache_config c)) (snd (apply_resolved uuid r now c))"
proof -
  have le: "minimum_ttl (dcache_config c) \<le> maximum_ttl (dcache_config c)"
    using assms(1) by (simp add: cache_inv_def config_valid_iff)
  have "cs_expires_at s \<le> t + maximum_ttl (dcache_config c)" if "parse_record uuid r now (dcache_config c) = Inr s" for s
    using parse_record_ok(2)[OF that] assms(3) le by simp
  then have ins: "expires_by (t + maximum_ttl (dcache_config c)) (c\<lparr>dcache_services := bt_insert n s (dcache_services c)\<rparr>)"
    if "parse_record uuid r now (dcache_config c) = Inr s" for n s
    using assms(1,2) that by (auto simp: expires_by_def cache_inv_def set_bt_insert)
  show ?thesis
    using assms(2) expires_remove[OF assms(2)] ins
    by (auto simp: apply_resolved_def split_def Let_def split: sum.split)
qed

lemma same_config [simp]:
  "dcache_config (snd (remove_service n c)) = dcache_config c" "dcache_config (snd (apply_resolved uuid r now c)) = dcache_config c"
  "dcache_config (snd (remove_fullname bytes c)) = dcache_config c" "dcache_config (snd (cache_expire now c)) = dcache_config c"
  by (auto simp: remove_service_def apply_resolved_def remove_fullname_def cache_expire_def Let_def split: sum.split)

lemma event_cases:
  assumes "P c" "\<And>r. P (snd (apply_resolved uuid r now c))" "\<And>bytes. P (snd (remove_fullname bytes c))"
  shows "P (snd (apply_service_event uuid event now ttl c))"
proof (cases event)
  case (ServiceResolved s)
  show ?thesis
  proof (cases "raw_from_resolved s ttl")
    case (Some r)
    then show ?thesis using assms(2)[of r] ServiceResolved
      by (cases "apply_resolved uuid r now c") (auto split: sum.split)
  qed (use ServiceResolved assms(1) in simp)
next
  case (ServiceRemoved t f)
  then show ?thesis using assms(1) assms(3)[of "utf8_bytes f"]
    by (cases "remove_fullname (utf8_bytes f) c") (auto split: sum.split)
qed (use assms(1) in simp)

lemma bridge_expires:
  assumes "bridge_ok b" "expires_by (t + maximum_ttl (dcache_config (bridge_cache b))) (bridge_cache b)" "input_time i \<le> t"
  shows "expires_by (t + maximum_ttl (dcache_config (bridge_cache b))) (bridge_cache (bridge_step uuid ttl i b))"
    "dcache_config (bridge_cache (bridge_step uuid ttl i b)) = dcache_config (bridge_cache b)"
proof -
  let ?c = "bridge_cache b"
  have inv: "cache_inv ?c" using assms(1) by (simp add: bridge_ok_def)
  have rem: "expires_by (t + maximum_ttl (dcache_config ?c)) (snd (remove_fullname bytes ?c))" for bytes
    using assms(2) expires_remove[OF assms(2)] by (auto simp: remove_fullname_def split_def Let_def split: sum.split)
  have ev: "expires_by (t + maximum_ttl (dcache_config ?c)) (snd (apply_service_event uuid e now ttl ?c))"
    if "now \<le> t" for e now
    by (rule event_cases) (use assms(2) expires_resolved[OF inv assms(2) that] rem in auto)
  have cfg: "dcache_config (snd (apply_service_event uuid e now ttl ?c)) = dcache_config ?c" for e now
    by (rule event_cases) simp_all
  have tick: "expires_by (t + maximum_ttl (dcache_config ?c)) (snd (cache_expire now ?c))" for now
    using expires_filter[OF assms(2)] by (simp add: cache_expire_def Let_def)
  have pub: "bridge_cache (publish_change r b) = snd r" for r by (cases r) (simp add: publish_change_def)
  show "expires_by (t + maximum_ttl (dcache_config ?c)) (bridge_cache (bridge_step uuid ttl i b))"
    "dcache_config (bridge_cache (bridge_step uuid ttl i b)) = dcache_config ?c"
    using assms(3) by (cases i; simp add: pub ev cfg tick)+
qed

lemma run_expires:
  assumes "bridge_ok b" "expires_by (t + maximum_ttl (dcache_config (bridge_cache b))) (bridge_cache b)"
    "\<forall>i\<in>set inputs. input_time i \<le> t"
  shows "expires_by (t + maximum_ttl (dcache_config (bridge_cache b))) (bridge_cache (fold (bridge_step uuid ttl) inputs b))
    \<and> dcache_config (bridge_cache (fold (bridge_step uuid ttl) inputs b)) = dcache_config (bridge_cache b)"
  using assms
proof (induction inputs arbitrary: b)
  case (Cons i inputs)
  have s: "expires_by (t + maximum_ttl (dcache_config (bridge_cache b))) (bridge_cache (bridge_step uuid ttl i b))"
    "dcache_config (bridge_cache (bridge_step uuid ttl i b)) = dcache_config (bridge_cache b)"
    using bridge_expires[OF Cons.prems(1,2), of i] Cons.prems(3) by simp_all
  then show ?case
    using Cons.IH[OF bridge_step_ok[OF Cons.prems(1)], of uuid ttl i] Cons.prems(3) by (simp add: s(2))
qed simp

section \<open>Properties\<close>

text \<open>
  The published view of the local network is exact, whatever service events and ticks arrive in
  whatever order: it is strictly sorted, holds at most 1,024 candidates of at most 128 services, and
  contains a candidate exactly when a current record has that peer hint and address, so its final
  truncation never loses one; every candidate names a peer and a private or unique-local address with
  a port.
\<close>

theorem discovery_view_exact:
  assumes "bridge_start config = Inr start" "b = fold (bridge_step uuid (mac_resolved_ttl config)) inputs start"
  shows "sorted_wrt (<) (bridge_published b) \<and> length (bridge_published b) \<le> 1024
    \<and> length (dcache_services (bridge_cache b)) \<le> 128
    \<and> (\<forall>p a. Candidate p a \<in> set (bridge_published b) \<longleftrightarrow>
         (\<exists>n s. map_of (dcache_services (bridge_cache b)) n = Some s \<and> cs_peer_id_hint s = p \<and> a \<in> set (cs_addresses s)))
    \<and> (\<forall>p a. Candidate p a \<in> set (bridge_published b) \<longrightarrow> p \<noteq> nil_id
         \<and> (\<exists>ip port. a = DiscoveredAddr_new ip port \<and> is_supported_lan_address ip \<and> port \<noteq> 0))"
proof -
  have "bridge_ok b"
    using discovery_bridge.inv_fold[OF bridge_start_ok(1)[OF assms(1)]] assms(2) by simp
  then have inv: "cache_inv (bridge_cache b)" and pub: "bridge_published b = cache_snapshot (bridge_cache b)"
    by (simp_all add: bridge_ok_def)
  have ok: "service_ok s" if "map_of (dcache_services (bridge_cache b)) n = Some s" for n s
    using inv map_of_SomeD[OF that] by (auto simp: cache_inv_def)
  have cap: "length (dcache_services (bridge_cache b)) \<le> 128"
    using inv by (simp add: cache_inv_def config_valid_iff MAX_DISCOVERY_SERVICES_def)
  have len: "length (bridge_published b) \<le> 1024"
    using snapshot_props(2)[OF inv] by (simp add: pub discovery_limits)
  show ?thesis
    using cap len snapshot_props(1)[OF inv] ok by (auto simp: pub snapshot_props(3)[OF inv] service_ok_def)
qed

text \<open>
  A record is changed only by events that carry its own name: whatever a peer on the network announces
  or withdraws, also when the cache is full, every record of another name stays exactly as it was.
\<close>

theorem discovery_record_owner:
  assumes "bridge_start config = Inr start" "b = fold (bridge_step uuid (mac_resolved_ttl config)) inputs start"
    "map_of (dcache_services (bridge_cache (bridge_step uuid (mac_resolved_ttl config) (BridgeEvent event now) b))) n
       \<noteq> map_of (dcache_services (bridge_cache b)) n"
  shows "event_names event n"
proof (rule ccontr)
  assume no: "\<not> event_names event n"
  have "bridge_ok b"
    using discovery_bridge.inv_fold[OF bridge_start_ok(1)[OF assms(1)]] assms(2) by simp
  then have "cache_inv (bridge_cache b)" by (simp add: bridge_ok_def)
  from event_other[OF this no] show False
    using assms(3) by (simp add: publish_change_def split_def)
qed

text \<open>
  A host that falls silent is forgotten: when the last event was at time \<open>t\<close>, every tick at least the
  maximum lifetime later leaves no record and publishes the empty view.
\<close>

theorem silent_hosts_forgotten:
  assumes "bridge_start config = Inr start" "\<forall>i\<in>set inputs. input_time i \<le> t" "t + maximum_ttl (mac_cache config) \<le> now"
  shows "bridge_published (bridge_step uuid (mac_resolved_ttl config) (BridgeTick now)
     (fold (bridge_step uuid (mac_resolved_ttl config)) inputs start)) = []"
proof -
  let ?b = "fold (bridge_step uuid (mac_resolved_ttl config)) inputs start"
  note ok = bridge_start_ok[OF assms(1)]
  have "expires_by x (bridge_cache start)" for x
    using assms(1) by (auto simp: bridge_start_def DiscoveryCache_new_def expires_by_def split: sum.splits)
  from run_expires[OF ok(1) this assms(2)]
  have e: "expires_by (t + maximum_ttl (mac_cache config)) (bridge_cache ?b)" by (simp add: ok(3))
  have "bridge_ok (bridge_step uuid (mac_resolved_ttl config) (BridgeTick now) ?b)"
    by (intro bridge_step_ok discovery_bridge.inv_fold ok(1))
  moreover have "dcache_services (bridge_cache (bridge_step uuid (mac_resolved_ttl config) (BridgeTick now) ?b)) = []"
    using e assms(3) by (fastforce simp: cache_expire_def publish_change_def Let_def expires_by_def filter_empty_conv)
  ultimately show ?thesis by (simp add: bridge_ok_def cache_snapshot_def from_candidates_def)
qed

section \<open>From an advertisement to a candidate\<close>

text \<open>
  What the mDNS library documents of a service it registers and resolves: its name is the instance name,
  a dot and the service type; host name and port are those given; addresses and TXT properties are
  those given, in some order.
\<close>

definition mdns_faithful ::
  "(rust_string \<Rightarrow> rust_string \<Rightarrow> rust_string \<Rightarrow> IpAddr list \<Rightarrow> u16 \<Rightarrow> (rust_string \<times> rust_string) list
    \<Rightarrow> ResolvedService option) \<Rightarrow> bool" where
  "mdns_faithful service_info \<longleftrightarrow>
     (\<forall>ty inst host ips port props s. service_info ty inst host ips port props = Some s \<longrightarrow>
        rs_ty_domain s = ty \<and> rs_fullname s = inst @ ascii_str ''.'' @ ty \<and> rs_hostname s = host \<and> rs_port s = port
        \<and> set (rs_addresses s) = set ips \<and> length (rs_addresses s) = length ips
        \<and> set (rs_properties s) = (\<lambda>(k, v). (k, Some (utf8_bytes v))) ` set props
        \<and> length (rs_properties s) = length props)"

text \<open>What the \<^verbatim>\<open>uuid\<close> crate documents of an identifier: 36 printable ASCII characters that parse back.\<close>

definition uuid_canonical :: "uuid_crate \<Rightarrow> PeerId \<Rightarrow> bool" where
  "uuid_canonical uuid p \<longleftrightarrow> length (uuid_to_string uuid p) = 36 \<and> (\<forall>c\<in>set (uuid_to_string uuid p). 32 \<le> c \<and> c < 127)
     \<and> uuid_parse_str uuid (uuid_to_string uuid p) = Some p"

lemma strip_suffix_append [simp]: "strip_suffix t (s @ t) = Some s"
  by (simp add: strip_suffix_def Let_def)

lemma ascii_len: "(\<forall>c\<in>set s. c < 128) \<Longrightarrow> str_len s = length s"
  by (induction s) (simp_all add: str_len_def len_utf8_def)

lemma fixed_texts:
  "str_len SOFTWARE_KVM_SERVICE_TYPE = 25" "\<forall>c\<in>set SOFTWARE_KVM_SERVICE_TYPE. scalar_value c"
  "str_len (ascii_str ''.'') = 1" "\<forall>c\<in>set (ascii_str ''.''). scalar_value c \<and> \<not> is_control c"
  "str_len (ascii_str ''.local.'') = 7" "\<forall>c\<in>set (ascii_str ''.local.''). scalar_value c"
  "str_len (ascii_str ''ver'') = 3" "\<forall>c\<in>set (ascii_str ''ver''). scalar_value c" "ascii_str ''ver'' \<noteq> ascii_str ''peer''"
  "str_len (ascii_str ''peer'') = 4" "\<forall>c\<in>set (ascii_str ''peer''). scalar_value c"
  "str_len DISCOVERY_PROTOCOL_VERSION = 1" "\<forall>c\<in>set DISCOVERY_PROTOCOL_VERSION. scalar_value c"
  by (simp_all add: SOFTWARE_KVM_SERVICE_TYPE_def DISCOVERY_PROTOCOL_VERSION_def ascii_str_def str_len_def len_utf8_def
      scalar_value_def is_control_def of_char_def)

lemma from_utf8_bytes: "(\<forall>c\<in>set s. scalar_value c) \<Longrightarrow> from_utf8 (utf8_bytes s) = Some s"
  by (simp add: from_utf8_iff)

lemma advertised_fullname:
  assumes "\<forall>c\<in>set name. scalar_value c \<and> \<not> is_control c"
  shows "validate_fullname_bytes (utf8_bytes (name @ ascii_str ''.'' @ SOFTWARE_KVM_SERVICE_TYPE)) =
    (if str_len name \<le> 62 then Inr (name @ ascii_str ''.'' @ SOFTWARE_KVM_SERVICE_TYPE) else Inl DiscoveryInvalidName)"
proof -
  let ?n = "name @ ascii_str ''.''"
  have d: "from_utf8 (utf8_bytes (?n @ SOFTWARE_KVM_SERVICE_TYPE)) = Some (?n @ SOFTWARE_KVM_SERVICE_TYPE)"
    using assms fixed_texts(2,4) by (intro from_utf8_bytes) auto
  have l: "length (utf8_bytes (?n @ SOFTWARE_KVM_SERVICE_TYPE)) = str_len name + 26" by (simp add: fixed_texts)
  have "utf8_bytes (?n @ SOFTWARE_KVM_SERVICE_TYPE) \<noteq> []" using l by (metis add_is_0 list.size(3) zero_neq_numeral)
  then have "validate_fullname_bytes (utf8_bytes (?n @ SOFTWARE_KVM_SERVICE_TYPE)) =
      (if str_len name \<le> 62 then Inr (?n @ SOFTWARE_KVM_SERVICE_TYPE) else Inl DiscoveryInvalidName)"
    unfolding validate_fullname_bytes_def d l option.case strip_suffix_append
    using assms fixed_texts(3,4) by (auto simp: discovery_limits list_ex_iff str_len_def simp del: append_assoc)
  then show ?thesis by simp
qed

lemma two_properties:
  assumes "set xs = {a, b}" "length xs = 2"
  shows "xs = [a, b] \<or> xs = [b, a]"
proof -
  obtain x y where "xs = [x, y]" using assms(2) by (auto simp: numeral_2_eq_2 length_Suc_conv)
  then show ?thesis using assms(1) by (auto simp: doubleton_eq_iff)
qed

lemma parse_advertised_txt:
  assumes "rd_txt r = [\<lparr>txt_key = utf8_bytes (ascii_str ''ver''), txt_value = Some (utf8_bytes v)\<rparr>, \<lparr>txt_key = utf8_bytes (ascii_str ''peer''), txt_value = Some (utf8_bytes p)\<rparr>]
    \<or> rd_txt r = [\<lparr>txt_key = utf8_bytes (ascii_str ''peer''), txt_value = Some (utf8_bytes p)\<rparr>, \<lparr>txt_key = utf8_bytes (ascii_str ''ver''), txt_value = Some (utf8_bytes v)\<rparr>]"
    "\<forall>c\<in>set v. scalar_value c" "\<forall>c\<in>set p. scalar_value c"
  shows "parse_txt r = Inr (v, p)"
  using assms(1) fixed_texts(9)
  by (auto simp: parse_txt_def from_utf8_bytes assms(2,3) fixed_texts(8,11))

lemma advertised_record:
  assumes adv: "MdnsAdvertisement_new p name port ips = Inr adv" and u: "uuid_canonical uuid p"
    and mdns: "mdns_faithful mdns" and info: "build_service_info uuid mdns adv = Inr service"
    and name: "\<forall>c\<in>set name. scalar_value c"
  obtains r where "raw_from_resolved service ttl = Some r"
    "rd_service_type r = utf8_bytes SOFTWARE_KVM_SERVICE_TYPE"
    "rd_fullname r = utf8_bytes (name @ ascii_str ''.'' @ SOFTWARE_KVM_SERVICE_TYPE)" "rd_ttl r = ttl"
    "rd_port r = port" "set (rd_addresses r) = set ips" "valid_hostname (rd_hostname r)"
    "rd_addresses r \<noteq> []" "length (rd_addresses r) \<le> MAX_ADDRESSES_PER_SERVICE"
    "length (rd_txt r) = 2" "for_each validate_property (rd_txt r) = Inr ()"
    "parse_txt r = Inr (DISCOVERY_PROTOCOL_VERSION, uuid_to_string uuid p)"
proof -
  let ?t = "uuid_to_string uuid p"
  have a: "adv = \<lparr>adv_peer_id = p, adv_instance_name = name, adv_port = port, adv_addresses = remdups_adj (sort_key ip_rank ips)\<rparr>"
      "str_len name \<le> 63" "ips \<noteq> []" "length ips \<le> 8"
    using adv by (auto simp: MdnsAdvertisement_new_def discovery_limits split: if_splits)
  have t: "str_len ?t = 36" "\<forall>c\<in>set ?t. scalar_value c \<and> \<not> is_control c" "?t \<noteq> []"
    using u ascii_len[of ?t] by (fastforce simp: uuid_canonical_def scalar_value_def is_control_def)+
  let ?ver = "(ascii_str ''ver'', Some (utf8_bytes DISCOVERY_PROTOCOL_VERSION))" and ?peer = "(ascii_str ''peer'', Some (utf8_bytes ?t))"
  have s: "rs_ty_domain service = SOFTWARE_KVM_SERVICE_TYPE"
      "rs_fullname service = name @ ascii_str ''.'' @ SOFTWARE_KVM_SERVICE_TYPE"
      "rs_hostname service = ?t @ ascii_str ''.local.''" "rs_port service = port"
      "set (rs_addresses service) = set ips" "length (rs_addresses service) = length (remdups_adj (sort_key ip_rank ips))"
      "set (rs_properties service) = {?ver, ?peer}" "length (rs_properties service) = 2"
    using info mdns by (auto simp: build_service_info_def a(1) mdns_faithful_def Let_def split: option.splits)
  have props: "rs_properties service = [?ver, ?peer] \<or> rs_properties service = [?peer, ?ver]"
    by (rule two_properties[OF s(7,8)])
  have len: "length (rs_addresses service) \<le> 8"
    using s(6) remdups_adj_length[of "sort_key ip_rank ips"] a(4) by simp
  define r where "r = \<lparr>rd_service_type = utf8_bytes (rs_ty_domain service), rd_fullname = utf8_bytes (rs_fullname service),
             rd_hostname = utf8_bytes (rs_hostname service), rd_port = rs_port service,
             rd_addresses = rs_addresses service,
             rd_txt = map (\<lambda>(key, v). \<lparr>txt_key = utf8_bytes key, txt_value = v\<rparr>) (rs_properties service),
             rd_ttl = ttl\<rparr>"
  have raw: "raw_from_resolved service ttl = Some r"
    using props len a(2) t(1) by (auto simp: raw_from_resolved_def r_def s(1-3,8) fixed_texts discovery_limits)
  have "from_utf8 (utf8_bytes (?t @ ascii_str ''.local.'')) = Some (?t @ ascii_str ''.local.'')"
    using t(2) fixed_texts(6) by (intro from_utf8_bytes) auto
  moreover have "utf8_bytes (?t @ ascii_str ''.local.'') \<noteq> []"
    using t(1) length_utf8_bytes[of "?t @ ascii_str ''.local.''"] by (metis add_is_0 list.size(3) str_len_append zero_neq_numeral)
  ultimately have host: "valid_hostname (rd_hostname r)"
    using t by (auto simp: valid_hostname_def r_def s(3) fixed_texts discovery_limits list_ex_iff)
  have parsed: "parse_txt r = Inr (DISCOVERY_PROTOCOL_VERSION, ?t)"
    by (rule parse_advertised_txt) (use props t(2) fixed_texts in \<open>auto simp: r_def\<close>)
  have key: "utf8_bytes (ascii_str ''ver'') \<noteq> []" "utf8_bytes (ascii_str ''peer'') \<noteq> []"
    using length_utf8_bytes[of "ascii_str ''ver''"] length_utf8_bytes[of "ascii_str ''peer''"] fixed_texts(7,10) by force+
  have each: "for_each validate_property (rd_txt r) = Inr ()"
    using props t(1) key by (auto simp: r_def validate_property_def discovery_limits fixed_texts)
  have ne: "rs_addresses service \<noteq> []" using a(3) s(5) by force
  show thesis
    by (rule that[OF raw _ _ _ _ _ host _ _ _ each parsed]) (simp_all add: r_def s len[unfolded s(6)] ne discovery_limits)
qed

definition uuid_one :: rust_string where
  "uuid_one = ascii_str ''00000000-0000-0000-0000-000000000001''"

definition demo_uuid :: uuid_crate where
  "demo_uuid = \<lparr>uuid_parse_str = (\<lambda>s. if s = uuid_one then Some 1 else None), uuid_to_string = (\<lambda>_. uuid_one)\<rparr>"

definition demo_mdns ::
  "rust_string \<Rightarrow> rust_string \<Rightarrow> rust_string \<Rightarrow> IpAddr list \<Rightarrow> u16 \<Rightarrow> (rust_string \<times> rust_string) list \<Rightarrow> ResolvedService option" where
  "demo_mdns ty inst host ips port props = Some \<lparr>rs_ty_domain = ty, rs_fullname = inst @ ascii_str ''.'' @ ty,
     rs_hostname = host, rs_port = port, rs_addresses = ips,
     rs_properties = map (\<lambda>(k, v). (k, Some (utf8_bytes v))) props\<rparr>"

definition demo_ip :: IpAddr where
  "demo_ip = IpV4 0x0A000001"

lemma demo_uuid_canonical: "uuid_canonical demo_uuid 1"
  by (simp add: uuid_canonical_def demo_uuid_def uuid_one_def ascii_str_def of_char_def)

lemma demo_mdns_faithful: "mdns_faithful demo_mdns"
  by (auto simp: mdns_faithful_def demo_mdns_def)

lemma demo_ip_supported: "is_supported_lan_address demo_ip"
  by (simp add: demo_ip_def ipv4_is_private_def)

lemma demo_advertisement:
  "name \<noteq> [] \<Longrightarrow> str_len name \<le> 63 \<Longrightarrow> \<not> list_ex is_control name \<Longrightarrow>
   MdnsAdvertisement_new 1 name 4242 [demo_ip] = Inr \<lparr>adv_peer_id = 1, adv_instance_name = name, adv_port = 4242, adv_addresses = [demo_ip]\<rparr>"
  by (simp add: MdnsAdvertisement_new_def discovery_limits demo_ip_supported)


lemma advertised_stored:
  assumes "bridge_start config = Inr start" "b = fold (bridge_step uuid (mac_resolved_ttl config)) inputs start"
    and "MdnsAdvertisement_new p name port ips = Inr adv" "build_service_info uuid mdns adv = Inr service"
    and "uuid_canonical uuid p" "mdns_faithful mdns" "\<forall>c\<in>set name. scalar_value c" "str_len name \<le> 62"
    and "length (dcache_services (bridge_cache b)) < maximum_services (dcache_config (bridge_cache b))"
    and "now + MAX_CACHE_TTL \<le> duration_max"
  shows "\<exists>s. map_of (dcache_services (bridge_cache
      (bridge_step uuid (mac_resolved_ttl config) (BridgeEvent (ServiceResolved service) now) b)))
      (name @ ascii_str ''.'' @ SOFTWARE_KVM_SERVICE_TYPE) = Some s
    \<and> cs_peer_id_hint s = p \<and> set (cs_addresses s) = (\<lambda>ip. DiscoveredAddr_new ip port) ` set ips"
proof -
  let ?n = "name @ ascii_str ''.'' @ SOFTWARE_KVM_SERVICE_TYPE" and ?c = "bridge_cache b" and ?ttl = "mac_resolved_ttl config"
  let ?b = "bridge_step uuid ?ttl (BridgeEvent (ServiceResolved service) now) b"
  note ok = bridge_start_ok[OF assms(1)]
  have okb: "bridge_ok b" using discovery_bridge.inv_fold[OF ok(1)] assms(2) by simp
  then have inv: "cache_inv ?c" by (simp add: bridge_ok_def)
  have a: "p \<noteq> nil_id" "port \<noteq> 0" "\<forall>c\<in>set name. \<not> is_control c" "\<forall>ip\<in>set ips. is_supported_lan_address ip"
    using assms(3) by (auto simp: MdnsAdvertisement_new_def list_ex_iff split: if_splits)
  obtain r where r: "raw_from_resolved service ?ttl = Some r"
    "rd_service_type r = utf8_bytes SOFTWARE_KVM_SERVICE_TYPE" "rd_fullname r = utf8_bytes ?n" "rd_ttl r = ?ttl"
    "rd_port r = port" "set (rd_addresses r) = set ips" "valid_hostname (rd_hostname r)"
    "rd_addresses r \<noteq> []" "length (rd_addresses r) \<le> MAX_ADDRESSES_PER_SERVICE"
    "length (rd_txt r) = 2" "for_each validate_property (rd_txt r) = Inr ()"
    "parse_txt r = Inr (DISCOVERY_PROTOCOL_VERSION, uuid_to_string uuid p)"
    by (rule advertised_record[OF assms(3,5,6,4,7), of ?ttl])
  have name: "parse_fullname r = Inr ?n"
    using advertised_fullname[of name] assms(7,8) a(3) r(3) by (simp add: parse_fullname_def)
  have shape: "validate_record_shape r = Inr ()"
    using r name a(2) by (simp add: validate_record_shape_def discovery_limits)
  have peer: "parse_canonical_peer_id uuid (uuid_to_string uuid p) = Inr p"
    using assms(5) a(1) ascii_len[of "uuid_to_string uuid p"] by (fastforce simp: canonical_peer_iff uuid_canonical_def)
  have addrs: "set (collect_addresses (rd_addresses r) port) = (\<lambda>ip. DiscoveredAddr_new ip port) ` set ips"
    using a(4) r(6) by (auto simp: collect_addresses_props(2))
  then have ne: "collect_addresses (rd_addresses r) port \<noteq> []" using r(6,8) by force
  have "duration_clamp (rd_ttl r) (minimum_ttl (dcache_config ?c)) (maximum_ttl (dcache_config ?c)) \<le> MAX_CACHE_TTL"
    using inv by (auto simp: cache_inv_def config_valid_iff duration_clamp_def)
  then obtain t where p: "parse_record uuid r now (dcache_config ?c)
      = Inr \<lparr>cs_peer_id_hint = p, cs_addresses = collect_addresses (rd_addresses r) port, cs_expires_at = t\<rparr>"
    using assms(10) ne by (simp add: parse_record_def shape r(12) peer r(5) Let_def)
  have "map_of (dcache_services (snd (apply_resolved uuid r now ?c))) ?n
      = Some \<lparr>cs_peer_id_hint = p, cs_addresses = collect_addresses (rd_addresses r) port, cs_expires_at = t\<rparr>"
    using assms(9) ok(2) inv by (simp add: apply_resolved_def r(2,4) name p cache_inv_def btree)
  moreover have "bridge_cache ?b = snd (apply_resolved uuid r now ?c)"
    by (cases "apply_resolved uuid r now ?c") (auto simp: publish_change_def r(1) split: sum.split)
  ultimately show ?thesis using addrs by (auto simp del: bridge_step.simps)
qed



definition demo_service :: ResolvedService where
  "demo_service = the (demo_mdns SOFTWARE_KVM_SERVICE_TYPE (ascii_str ''one'') (uuid_one @ ascii_str ''.local.'')
     [demo_ip] 4242 [(ascii_str ''ver'', DISCOVERY_PROTOCOL_VERSION), (ascii_str ''peer'', uuid_one)])"

lemma demo_found:
  "str_len (ascii_str ''one'') \<le> 62" "\<forall>c\<in>set (ascii_str ''one''). scalar_value c"
  "MdnsAdvertisement_new 1 (ascii_str ''one'') 4242 [demo_ip]
     = Inr \<lparr>adv_peer_id = 1, adv_instance_name = ascii_str ''one'', adv_port = 4242, adv_addresses = [demo_ip]\<rparr>"
  "build_service_info demo_uuid demo_mdns
     \<lparr>adv_peer_id = 1, adv_instance_name = ascii_str ''one'', adv_port = 4242, adv_addresses = [demo_ip]\<rparr> = Inr demo_service"
  "length (dcache_services (bridge_cache default_bridge)) < maximum_services (dcache_config (bridge_cache default_bridge))"
  "0 + MAX_CACHE_TTL \<le> duration_max"
proof -
  show "str_len (ascii_str ''one'') \<le> 62" "\<forall>c\<in>set (ascii_str ''one''). scalar_value c"
    by (simp_all add: ascii_str_def str_len_def len_utf8_def scalar_value_def of_char_def)
  show "MdnsAdvertisement_new 1 (ascii_str ''one'') 4242 [demo_ip]
     = Inr \<lparr>adv_peer_id = 1, adv_instance_name = ascii_str ''one'', adv_port = 4242, adv_addresses = [demo_ip]\<rparr>"
    by (rule demo_advertisement) (simp_all add: ascii_str_def str_len_def len_utf8_def is_control_def of_char_def)
  show "build_service_info demo_uuid demo_mdns
     \<lparr>adv_peer_id = 1, adv_instance_name = ascii_str ''one'', adv_port = 4242, adv_addresses = [demo_ip]\<rparr> = Inr demo_service"
    by (simp add: build_service_info_def demo_uuid_def demo_mdns_def demo_service_def Let_def)
  show "length (dcache_services (bridge_cache default_bridge)) < maximum_services (dcache_config (bridge_cache default_bridge))"
    by (simp add: default_bridge_def DiscoveryCacheConfig_default_def discovery_limits)
  show "0 + MAX_CACHE_TTL \<le> duration_max" by (simp add: MAX_CACHE_TTL_def from_secs_def duration_max_def)
qed

lemmas demo_setting = demo_found(3,4) demo_uuid_canonical demo_mdns_faithful demo_found(2,1,5,6)



theorem discovery_view_exact_witness:
  "sorted_wrt (<) (bridge_published (fold (bridge_step demo_uuid (from_secs 120)) [BridgeEvent (ServiceResolved demo_service) 0] default_bridge))"
  using discovery_view_exact[OF default_bridge_start, of _ demo_uuid "[BridgeEvent (ServiceResolved demo_service) 0]"] by (simp add: MdnsAdapterConfig_default_def)

theorem silent_hosts_forgotten_witness:
  "bridge_published (bridge_step demo_uuid (from_secs 120) (BridgeTick (from_secs 301))
     (fold (bridge_step demo_uuid (from_secs 120)) [BridgeEvent ServiceOther 5] default_bridge)) = []"
  using silent_hosts_forgotten[OF default_bridge_start, of "[BridgeEvent ServiceOther 5]" 5 "from_secs 301" demo_uuid]
  by (simp add: MdnsAdapterConfig_default_def DiscoveryCacheConfig_default_def MAX_CACHE_TTL_def from_secs_def)

theorem discovery_record_owner_witness:
  "event_names (ServiceResolved demo_service) (ascii_str ''one'' @ ascii_str ''.'' @ SOFTWARE_KVM_SERVICE_TYPE)"
proof -
  let ?n = "ascii_str ''one'' @ ascii_str ''.'' @ SOFTWARE_KVM_SERVICE_TYPE" and ?ttl = "mac_resolved_ttl MdnsAdapterConfig_default"
  have "map_of (dcache_services (bridge_cache (bridge_step demo_uuid ?ttl (BridgeEvent (ServiceResolved demo_service) 0) default_bridge))) ?n
      \<noteq> map_of (dcache_services (bridge_cache default_bridge)) ?n"
    using advertised_stored[OF default_bridge_start _ demo_setting, of "[]"] by (force simp: default_bridge_def simp del: bridge_step.simps)
  then show ?thesis by (rule discovery_record_owner[OF default_bridge_start, of default_bridge demo_uuid "[]", rotated]) simp
qed

end
