(* ===== verification/Spec2Isabelle.thy ===== *)
theory Spec2Isabelle
  imports KvmPrelude F64 KvmTypes KeyInput Semantic Router Topology WireTypes WireMessages Frame
    StreamCodec SendQueue SessionCounters Liveness ConnectionGate Clipboard Pairing Trust ConfigModel BTreeMaps
    DaemonState DaemonCapture DaemonControl DaemonInvariant DaemonSafety DaemonLatches
    WireInput NativeKeys NativeCapture PointerDatagram DatagramSafety
    InventoryBase DeviceInventory DeviceLedger DisplayInventory DisplayLedger
    ConfiguredWorkspaces PointerHandoff HandoffInvariant HandoffSafety Discovery DiscoverySafety
begin

text \<open>
  \<^bold>\<open>Verification of the OSS Software KVM core.\<close>

  The program is a software keyboard/mouse switch: a daemon on every host captures local input,
  decides for each device whether an event stays local or goes to a paired host, and sends it there
  over one authenticated connection.  Its crates form layers, and the theories follow them.

  \<^bold>\<open>Values.\<close>  \<open>KvmPrelude\<close> fixes the machine view: integers at the width the code uses, results
  as \<open>'e + 'a\<close> with \<open>Inl\<close> the error, hash maps, durations, byte strings with the UTF-8 encoding the
  code hashes and measures, and the locale \<open>invariant_component\<close> (a state, its operations, an
  invariant they keep) that the stateful components interpret.  \<open>F64\<close> is IEEE binary64 as the code
  uses it: finite values, infinities and NaN with round-to-nearest-even on every operation.
  \<open>KvmTypes\<close> holds kvm-types (identifiers, display and device descriptions, routes).

  \<^bold>\<open>Input.\<close>  \<open>KeyInput\<close> models kvm-input's key.rs, event.rs and pressed.rs: which controls a device
  holds after any sequence of events, and that releasing everything emits exactly one release per
  held control.  \<open>Semantic\<close> models semantic.rs, the translation of portable shortcuts between
  operating systems.

  \<^bold>\<open>Routing and geometry.\<close>  \<open>Router\<close> models kvm-router (the routing table, its transactional updates
  and the decision taken per event; the locale \<open>input_router\<close> states the contract the capture path
  relies on).  \<open>Topology\<close> models kvm-topology's lib.rs: hit testing, edge transitions and the
  proportional mapping of a crossing onto the entry edge of the target display, over real binary64
  rounding.  \<open>ConfiguredWorkspaces\<close> models configured.rs: the compiler of explicit placements and links
  into an immutable workspace, its crossings, and the epoch two peers compare.

  \<^bold>\<open>Protocol.\<close>  \<open>WireTypes\<close> and \<open>WireMessages\<close> model wire.rs and message.rs of kvm-protocol (every
  message of the protocol and its validation), \<open>Frame\<close> models frame.rs (header layout, size limits,
  sequence and flag rules, encoding and decoding).  postcard, the serializer of message bodies, is
  not part of the repository: it is an encoder/decoder pair passed as an argument, and the theorems
  that need it assume only that it decodes what it encoded.

  \<^bold>\<open>Network.\<close>  \<open>StreamCodec\<close> models codec.rs (reassembly of frames from arbitrary fragments),
  \<open>SendQueue\<close> and \<open>SessionCounters\<close> model queue.rs (two priority lanes, motion coalescing, fairness;
  the counters the transport reports), \<open>Liveness\<close> models heartbeat.rs and reconnect.rs, and
  \<open>ConnectionGate\<close> models connection_role.rs (which side dials, and that at most one connection
  generation per peer is ever current) as a step relation with reachability.

  \<open>PointerDatagram\<close> models pointer_datagram.rs, the encrypted datagram path beside the stream:
  pointer motion as cumulative totals, ordered copies of stateful input with retransmission, the
  replay window and feedback.  \<open>DatagramSafety\<close> shows that a datagram is accepted once, that the cipher
  never gets a nonce twice and every packet on the wire comes from one such call, that ordered copies arrive as a prefix of what was sent under any loss, duplication or
  reordering, and that one pointer datagram catches up after loss.

  \<open>Discovery\<close> models kvm-discovery: the parser of untrusted mDNS records, the bounded cache of candidate
  addresses, the advertisement a host builds and the bridge between service events and snapshots.
  \<open>DiscoverySafety\<close> shows that the published view is exact and bounded, that an event changes only
  records of its own name, that silent hosts are forgotten, and that an advertised host is
  discovered, except when its name has the greatest length the advertiser accepts.

  \<^bold>\<open>Clipboard.\<close>  \<open>Clipboard\<close> models kvm-clipboard: loop prevention and the apply/cancel protocol around
  native writes, with the reach of the bounded histories (how many further texts an applied update
  survives) and what rolling back two failed writes leaves behind.

  \<^bold>\<open>Security.\<close>  \<open>Pairing\<close> models identity.rs, channel_binding.rs and pairing.rs of kvm-security:
  fingerprints, the code both users compare, and the two-sided approval.  \<open>Trust\<close> models
  allowlist.rs, client_resolver.rs and admission.rs: an authenticated identity is admitted exactly
  when the proof of possession is present and the peer is paired now; the locale \<open>peer_store\<close> is the
  contract of the allow-list and is interpreted on the in-memory store of the code.

  \<^bold>\<open>Configuration.\<close>  \<open>ConfigModel\<close> models model.rs and migrate.rs of kvm-config: the schema, its
  validation, the migration of the first schema and the decoding around the TOML library.

  \<^bold>\<open>Daemon.\<close>  \<open>BTreeMaps\<close> is the ordered map of the standard library as a sorted list.  \<open>DaemonState\<close>,
  \<open>DaemonCapture\<close> and \<open>DaemonControl\<close> model core.rs of kvm-daemon: the authoritative state, the path of a
  captured event to a decision, and the control operations (route policies, gates, hand-off barriers,
  endpoints, life cycle, the ledger of releases owed to peers).  \<open>DaemonInvariant\<close> proves the invariant
  of the core for every operation and \<open>DaemonSafety\<close> states what follows for reachable states: no
  remotely held control is forgotten, what the last key of the emergency shortcut does in every
  case, remote effects are authorized, releases drain in order.  \<open>DaemonLatches\<close> follows a held control
  over time: while it is not released it stays latched to its endpoint or quarantined, and only the
  emergency shortcut lets its records through to the local system.  \<open>WireInput\<close> models wire.rs, the conversion between daemon
  input and protocol input.  \<open>InventoryBase\<close> holds the admitted session of supervisor.rs and the
  contracts \<open>host_table\<close>, \<open>item_table\<close> and \<open>revision_ledger\<close>; \<open>DeviceInventory\<close> and \<open>DisplayInventory\<close> model
  device_inventory.rs and display_inventory.rs, and \<open>DeviceLedger\<close> and \<open>DisplayLedger\<close> prove that what is
  published is exact (for devices, as the effect of the accepted operations) and bounded, that revisions of one source never go back, and that a local
  inventory reaches an admitted peer unchanged.

  \<open>PointerHandoff\<close> models pointer_handoff.rs, the coordinator that moves the pointer between two hosts
  by leave, enter, acknowledgement and commit.  \<open>HandoffInvariant\<close> proves its invariant for every
  operation; \<open>HandoffSafety\<close> shows that authority leaves a host only with a dispatched commit the peer
  accepted, arrives only with the prepared commit or a reset to the fallback, that nothing stays
  pending past its timeout, that no commit is applied twice, and that two coordinators of one layout
  complete an exchange that arrives in order and in time.

  \<^bold>\<open>Native boundary.\<close>  \<open>NativeKeys\<close> models the key tables and the translation of native events of
  kvm-windows (mapping.rs, capture.rs) and kvm-macos (keymap.rs, capture.rs); \<open>NativeCapture\<close> shows that
  a captured key reaches the peer's injection table at the captured position, and what a device may
  emit.

  \<^bold>\<open>Parameters.\<close>  Code that is not in the repository is an argument: postcard, TOML, SHA-256,
  ChaCha20-Poly1305, the TLS exporter, the uuid crate, the mDNS library, random sources, the answers of sockets, the iteration order of
  hash maps and the hypotenuse of the platform's mathematical library.  An operation reads the clock
  once, as an argument.

  \<^bold>\<open>Bounds and fuel.\<close>  No definition takes fuel: every loop of the modelled code is structural
  recursion over its input or carries a termination proof.  The numeric limits (frame sizes, queue
  capacities, list limits, time-outs) are the constants of the source.

  \<^bold>\<open>Not modelled.\<close>  The bindings to operating-system interfaces (native.rs of kvm-windows and
  kvm-macos), TLS sockets and threads of kvm-network, the mDNS daemon, file and credential storage,
  the applications and the runtime's task scheduling: they are input/output around the components
  above.  The session coordinator, the peer manager, the workspace control and the peer-session
  handshake are the next parts to add.
\<close>

end
